(* ===== verification/Prelude.thy ===== *)
theory Prelude
  imports Main "HOL-Library.Word" "HOL-Library.Multiset"
begin

unbundle bit_operations_syntax

text \<open>
  Shared vocabulary of the development: the widths of Go's unsigned integers, Go's error
  values as data, the little-endian byte encodings of \<^verbatim>\<open>encoding/binary\<close> and the
  generic lemmas on words, lists and intervals that the component theories use.
\<close>

section \<open>Types\<close>

type_synonym u8 = "8 word"
type_synonym u16 = "16 word"
type_synonym u32 = "32 word"
type_synonym u64 = "64 word"
type_synonym bytes = "u8 list"

text \<open>
  Go's \<open>error\<close> values. \<open>Errorf m\<close> is \<^verbatim>\<open>fmt.Errorf\<close> or
  \<^verbatim>\<open>errors.New\<close> with the constant part of its message, \<open>Wrapf m e\<close> a message
  that wraps \<open>e\<close> with \<^verbatim>\<open>%w\<close>, \<open>Join a b\<close> is \<^verbatim>\<open>errors.Join\<close>,
  and the remaining constructors are the sentinel values the code compares against.
\<close>

datatype error =
    Errorf string
  | Wrapf string error
  | Join error error
  | ErrTruncatedRecord
  | ErrStopRequested
  | ErrClosedPipe
  | ErrEOF
  | ErrUnexpectedEOF
  | ErrShortWrite
  | ErrNotExist
  | ErrPermission
  | ErrCanceled
  | ErrDeadlineExceeded
  | ErrIO string

type_synonym 'a result = "error + 'a"

text \<open>\<^verbatim>\<open>errors.Is\<close>: the target is met somewhere along the chain of wrapped errors.\<close>

fun errors_Is :: "error \<Rightarrow> error \<Rightarrow> bool" where
  "errors_Is (Wrapf m e) t = (Wrapf m e = t \<or> errors_Is e t)"
| "errors_Is (Join a b) t = (Join a b = t \<or> errors_Is a t \<or> errors_Is b t)"
| "errors_Is e t = (e = t)"

text \<open>\<^verbatim>\<open>errors.Join\<close> drops nil errors.\<close>

fun errors_Join :: "error option \<Rightarrow> error option \<Rightarrow> error option" where
  "errors_Join None e = e"
| "errors_Join (Some a) None = Some a"
| "errors_Join (Some a) (Some b) = Some (Join a b)"

section \<open>Collections of facts\<close>

named_theorems nat_words \<open>rules that read word arithmetic as arithmetic on nat\<close>
named_theorems codec \<open>rules that evaluate encoders and decoders on encoded input\<close>

section \<open>Sums\<close>

lemma map_sum_Inr_conv: "map_sum f g x = Inr y \<longleftrightarrow> (\<exists>z. x = Inr z \<and> y = g z)"
  by (cases x) auto

lemma map_sum_Inl_conv: "map_sum f g x = Inl y \<longleftrightarrow> (\<exists>z. x = Inl z \<and> y = f z)"
  by (cases x) auto

section \<open>Words as naturals\<close>

lemma unat_add_le:
  fixes a b :: "'a::len word"
  assumes "unat a + unat b < 2 ^ LENGTH('a)"
  shows "unat (a + b) = unat a + unat b"
  using assms by (simp add: unat_word_ariths)

lemma unat_sub_le [nat_words]:
  fixes a b :: "'a::len word"
  shows "b \<le> a \<Longrightarrow> unat (a - b) = unat a - unat b"
  by (rule unat_sub)

lemma unat_u64_less [simp]: "unat (w :: u64) < 18446744073709551616"
  using unsigned_less [of w] by simp

lemma unat_u32_less [simp]: "unat (w :: u32) < 4294967296"
  using unsigned_less [of w] by simp

lemma unat_u16_less [simp]: "unat (w :: u16) < 65536"
  using unsigned_less [of w] by simp

lemma unat_ucast_up [nat_words]:
  fixes w :: "'a::len word"
  assumes "LENGTH('a) \<le> LENGTH('b::len)"
  shows "unat (ucast w :: 'b word) = unat w"
proof -
  have "unat w < 2 ^ LENGTH('a)" by (rule unsigned_less)
  also have "\<dots> \<le> 2 ^ LENGTH('b)" using assms by simp
  finally show ?thesis by (simp add: unsigned_ucast_eq take_bit_nat_eq_self_iff)
qed

lemma unat_ucast_32_64 [simp]: "unat (ucast (w :: u32) :: u64) = unat w"
  by (rule unat_ucast_up) simp

lemma unat_ucast_16_64 [simp]: "unat (ucast (w :: u16) :: u64) = unat w"
  by (rule unat_ucast_up) simp

lemma unat_ucast_64_32 [nat_words]:
  "unat (ucast (w :: u64) :: u32) = unat w mod 4294967296"
  by (simp add: unsigned_ucast_eq take_bit_eq_mod)

lemma unat_ucast_64_32_small [nat_words]:
  "unat (w :: u64) < 4294967296 \<Longrightarrow> unat (ucast w :: u32) = unat w"
  by (simp add: unat_ucast_64_32)

lemma word_neq_0_pos [nat_words]: "w \<noteq> 0 \<longleftrightarrow> 0 < unat (w :: 'a::len word)"
  by (simp add: unat_gt_0)

end
