(* ===== verification/Extents.thy ===== *)
theory Extents
  imports Prelude
begin

text \<open>
  The recovery-map data model of \<^verbatim>\<open>internal/mapfile\<close>: sector states and
  confidences (\<^verbatim>\<open>format.go\<close>), extents (\<^verbatim>\<open>extents.go\<close>,
  \<^verbatim>\<open>extent.go\<close>), the state and transition rules (\<^verbatim>\<open>transitions.go\<close>),
  the set and capacity checks (\<^verbatim>\<open>geometry.go\<close>) and the operations on sorted extent
  sets (\<^verbatim>\<open>extent_ops.go\<close>, \<^verbatim>\<open>extent_apply.go\<close>). Every integer keeps the
  width the Go code gives it. The abstraction \<open>extent_at\<close> reads an extent set as a
  partial map from sector numbers to sector attributes.
\<close>

section \<open>Sector states and confidences\<close>

type_synonym SectorState = u8

abbreviation (input) SectorStateUnknown :: SectorState where "SectorStateUnknown \<equiv> 0"
abbreviation (input) SectorStateQueued :: SectorState where "SectorStateQueued \<equiv> 1"
abbreviation (input) SectorStateReadUnverified :: SectorState where "SectorStateReadUnverified \<equiv> 2"
abbreviation (input) SectorStateVerified :: SectorState where "SectorStateVerified \<equiv> 3"
abbreviation (input) SectorStateMissing :: SectorState where "SectorStateMissing \<equiv> 4"
abbreviation (input) SectorStateIOError :: SectorState where "SectorStateIOError \<equiv> 5"
abbreviation (input) SectorStateChecksumError :: SectorState where "SectorStateChecksumError \<equiv> 6"
abbreviation (input) SectorStateConflicting :: SectorState where "SectorStateConflicting \<equiv> 7"
abbreviation (input) SectorStateReconstructed :: SectorState where "SectorStateReconstructed \<equiv> 8"
abbreviation (input) SectorStateSkipped :: SectorState where "SectorStateSkipped \<equiv> 9"

definition SectorState_String :: "SectorState \<Rightarrow> string" where
  "SectorState_String s =
     (if s = SectorStateUnknown then ''unknown''
      else if s = SectorStateQueued then ''queued''
      else if s = SectorStateReadUnverified then ''read_unverified''
      else if s = SectorStateVerified then ''verified''
      else if s = SectorStateMissing then ''missing''
      else if s = SectorStateIOError then ''io_error''
      else if s = SectorStateChecksumError then ''checksum_error''
      else if s = SectorStateConflicting then ''conflicting''
      else if s = SectorStateReconstructed then ''reconstructed''
      else if s = SectorStateSkipped then ''skipped''
      else ''invalid'')"

type_synonym Confidence_t = u8

abbreviation (input) ConfidenceNone :: Confidence_t where "ConfidenceNone \<equiv> 0"
abbreviation (input) ConfidenceSingleRead :: Confidence_t where "ConfidenceSingleRead \<equiv> 1"
abbreviation (input) ConfidenceRepeatedSingleCapture :: Confidence_t where
  "ConfidenceRepeatedSingleCapture \<equiv> 2"
abbreviation (input) ConfidenceRepeatedIndependentCapture :: Confidence_t where
  "ConfidenceRepeatedIndependentCapture \<equiv> 3"
abbreviation (input) ConfidenceTrustedChecksum :: Confidence_t where "ConfidenceTrustedChecksum \<equiv> 4"
abbreviation (input) ConfidenceReconstructedChecksum :: Confidence_t where
  "ConfidenceReconstructedChecksum \<equiv> 5"

definition Confidence_String :: "Confidence_t \<Rightarrow> string" where
  "Confidence_String c =
     (if c = ConfidenceNone then ''none''
      else if c = ConfidenceSingleRead then ''single_read''
      else if c = ConfidenceRepeatedSingleCapture then ''repeated_single_capture''
      else if c = ConfidenceRepeatedIndependentCapture then ''repeated_independent_capture''
      else if c = ConfidenceTrustedChecksum then ''trusted_checksum''
      else if c = ConfidenceReconstructedChecksum then ''reconstructed_checksum''
      else ''invalid'')"

section \<open>Extents\<close>

record Extent =
  StartLBA :: u64
  Sectors :: u32
  State :: SectorState
  Confidence :: Confidence_t
  Attempts :: u16
  CaptureID :: u32
  LastSenseKey :: u8
  LastASC :: u8
  LastASCQ :: u8
  DataHash :: bytes

text \<open>The Go type of \<^verbatim>\<open>DataHash\<close> is \<^verbatim>\<open>[16]byte\<close>; its length is part of the type.\<close>

definition extent_typed :: "Extent \<Rightarrow> bool" where
  "extent_typed e \<longleftrightarrow> length (DataHash e) = 16"

text \<open>Go's zero value \<^verbatim>\<open>Extent{}\<close>.\<close>

definition Extent_zero :: Extent where
  "Extent_zero = \<lparr>StartLBA = 0, Sectors = 0, State = 0, Confidence = 0, Attempts = 0,
     CaptureID = 0, LastSenseKey = 0, LastASC = 0, LastASCQ = 0, DataHash = replicate 16 0\<rparr>"

definition EndLBA :: "Extent \<Rightarrow> u64" where
  "EndLBA e = StartLBA e + ucast (Sectors e)"

definition CheckedEndLBA :: "Extent \<Rightarrow> u64 result" where
  "CheckedEndLBA e =
     (let sectors = ucast (Sectors e) :: u64 in
      if sectors > - 1 - StartLBA e then Inl (Errorf ''extent lba range overflows'')
      else Inr (StartLBA e + sectors))"

section \<open>State and transition rules\<close>

definition ValidateSectorState :: "SectorState \<Rightarrow> error option" where
  "ValidateSectorState s =
     (if s < SectorStateUnknown \<or> s > SectorStateSkipped
      then Some (Errorf ''validate sector state: unsupported state'') else None)"

definition ValidateConfidence :: "Confidence_t \<Rightarrow> error option" where
  "ValidateConfidence c =
     (if c < ConfidenceNone \<or> c > ConfidenceReconstructedChecksum
      then Some (Errorf ''validate confidence: unsupported confidence'') else None)"

definition ValidateStateConfidence :: "SectorState \<Rightarrow> Confidence_t \<Rightarrow> error option" where
  "ValidateStateConfidence s c =
     (case ValidateSectorState s of Some e \<Rightarrow> Some e | None \<Rightarrow>
     (case ValidateConfidence c of Some e \<Rightarrow> Some e | None \<Rightarrow>
      if s \<in> {SectorStateUnknown, SectorStateQueued, SectorStateMissing, SectorStateIOError,
              SectorStateChecksumError, SectorStateConflicting, SectorStateSkipped} then
        (if c \<noteq> ConfidenceNone
         then Some (Errorf ''validate state confidence: state requires confidence'') else None)
      else if s = SectorStateReadUnverified then
        (if c \<noteq> ConfidenceSingleRead
         then Some (Errorf ''validate state confidence: state requires confidence'') else None)
      else if s = SectorStateVerified then
        (if c < ConfidenceRepeatedSingleCapture \<or> c > ConfidenceTrustedChecksum
         then Some (Errorf ''validate state confidence: state requires confidence in'') else None)
      else if s = SectorStateReconstructed then
        (if c \<noteq> ConfidenceReconstructedChecksum
         then Some (Errorf ''validate state confidence: state requires confidence'') else None)
      else None))"

definition stateClaimsImageData :: "SectorState \<Rightarrow> bool" where
  "stateClaimsImageData s \<longleftrightarrow>
     s \<in> {SectorStateReadUnverified, SectorStateVerified, SectorStateChecksumError,
          SectorStateConflicting, SectorStateReconstructed}"

definition ValidateTransition ::
  "SectorState \<Rightarrow> Confidence_t \<Rightarrow> SectorState \<Rightarrow> Confidence_t \<Rightarrow> error option" where
  "ValidateTransition cs cc ns nc =
     (case ValidateStateConfidence cs cc of
        Some e \<Rightarrow> Some (Wrapf ''validate transition current'' e) | None \<Rightarrow>
     (case ValidateStateConfidence ns nc of
        Some e \<Rightarrow> Some (Wrapf ''validate transition next'' e) | None \<Rightarrow>
      if ns = cs \<and> nc < cc then
        Some (Errorf ''validate transition: cannot reduce confidence in-place'')
      else if stateClaimsImageData cs \<and> \<not> stateClaimsImageData ns then
        Some (Errorf ''validate transition: cannot replace recovered data state with non-data state'')
      else if cs = SectorStateVerified then
        (if ns = SectorStateReadUnverified
         then Some (Errorf ''validate transition: cannot demote'') else None)
      else if cs = SectorStateReconstructed then
        (if nc < cc
         then Some (Errorf ''validate transition: cannot demote confidence'') else None)
      else if cs = SectorStateConflicting then
        (if ns = SectorStateReadUnverified
         then Some (Errorf ''validate transition: conflicting sectors cannot become unverified reads directly'')
         else None)
      else None))"

definition Extent_Validate :: "Extent \<Rightarrow> error option" where
  "Extent_Validate e =
     (if Sectors e = 0
      then Some (Errorf ''validate extent: sectors must be greater than zero'')
      else case CheckedEndLBA e of
        Inl er \<Rightarrow> Some (Wrapf ''validate extent'' er)
      | Inr _ \<Rightarrow> ValidateStateConfidence (State e) (Confidence e))"

definition Extent_Transition :: "Extent \<Rightarrow> SectorState \<Rightarrow> Confidence_t \<Rightarrow> Extent result" where
  "Extent_Transition e ns nc =
     (case ValidateTransition (State e) (Confidence e) ns nc of
        Some er \<Rightarrow> Inl er
      | None \<Rightarrow> Inr (e\<lparr>State := ns, Confidence := nc\<rparr>))"

section \<open>Sets of extents\<close>

definition Overlaps :: "Extent \<Rightarrow> Extent \<Rightarrow> bool" where
  "Overlaps l r \<longleftrightarrow> StartLBA l < EndLBA r \<and> StartLBA r < EndLBA l"

text \<open>The loop of \<^verbatim>\<open>ValidateExtentSet\<close>; \<open>prev\<close> is \<^verbatim>\<open>extents[index-1]\<close>.\<close>

fun ValidateExtentSet_from :: "Extent option \<Rightarrow> Extent list \<Rightarrow> error option" where
  "ValidateExtentSet_from prev [] = None"
| "ValidateExtentSet_from prev (e # es) =
     (case Extent_Validate e of
        Some er \<Rightarrow> Some (Wrapf ''validate extent set'' er)
      | None \<Rightarrow>
        (case prev of
           None \<Rightarrow> ValidateExtentSet_from (Some e) es
         | Some p \<Rightarrow>
             if StartLBA p > StartLBA e
             then Some (Errorf ''validate extent set: extents are not sorted'')
             else if Overlaps p e
             then Some (Errorf ''validate extent set: extents overlap'')
             else ValidateExtentSet_from (Some e) es))"

definition ValidateExtentSet :: "Extent list \<Rightarrow> error option" where
  "ValidateExtentSet es = ValidateExtentSet_from None es"

fun ValidateCapacity_loop :: "u64 \<Rightarrow> Extent list \<Rightarrow> error option" where
  "ValidateCapacity_loop expected [] = None"
| "ValidateCapacity_loop expected (e # es) =
     (case CheckedEndLBA e of
        Inl er \<Rightarrow> Some (Wrapf ''validate extent capacity'' er)
      | Inr end \<Rightarrow>
          if StartLBA e \<ge> expected \<or> end > expected
          then Some (Errorf ''validate extent capacity: range exceeds media capacity'')
          else ValidateCapacity_loop expected es)"

definition ValidateExtentSetWithinCapacity :: "Extent list \<Rightarrow> u64 \<Rightarrow> error option" where
  "ValidateExtentSetWithinCapacity es expected =
     (if expected = 0
      then Some (Errorf ''validate extent capacity: expected sector count must be greater than zero'')
      else case ValidateExtentSet es of
        Some er \<Rightarrow> Some er
      | None \<Rightarrow> ValidateCapacity_loop expected es)"

definition CheckedSectorByteOffset :: "u64 \<Rightarrow> u32 \<Rightarrow> u64 result" where
  "CheckedSectorByteOffset lba logicalSectorSize =
     (if logicalSectorSize = 0
      then Inl (Errorf ''sector byte offset: logical sector size must be greater than zero'')
      else let sectorSize = ucast logicalSectorSize :: u64 in
        if lba > (- 1) div sectorSize
        then Inl (Errorf ''sector byte offset: lba overflows sector size'')
        else Inr (lba * sectorSize))"

definition CanMergeAdjacent :: "Extent \<Rightarrow> Extent \<Rightarrow> bool" where
  "CanMergeAdjacent l r \<longleftrightarrow>
     EndLBA l = StartLBA r \<and>
     State l = State r \<and>
     Confidence l = Confidence r \<and>
     Attempts l = Attempts r \<and>
     CaptureID l = CaptureID r \<and>
     LastSenseKey l = LastSenseKey r \<and>
     LastASC l = LastASC r \<and>
     LastASCQ l = LastASCQ r \<and>
     DataHash l = DataHash r"

definition MergeAdjacent :: "Extent \<Rightarrow> Extent \<Rightarrow> Extent result" where
  "MergeAdjacent l r =
     (case Extent_Validate l of Some er \<Rightarrow> Inl (Wrapf ''merge adjacent left'' er) | None \<Rightarrow>
     (case Extent_Validate r of Some er \<Rightarrow> Inl (Wrapf ''merge adjacent right'' er) | None \<Rightarrow>
      if \<not> CanMergeAdjacent l r
      then Inl (Errorf ''merge adjacent: extents are not compatible neighbors'')
      else Inr (l\<lparr>Sectors := Sectors l + Sectors r\<rparr>)))"

definition SplitExtent :: "Extent \<Rightarrow> u64 \<Rightarrow> (Extent \<times> Extent) result" where
  "SplitExtent e splitLBA =
     (case Extent_Validate e of Some er \<Rightarrow> Inl (Wrapf ''split extent'' er) | None \<Rightarrow>
      if splitLBA \<le> StartLBA e \<or> splitLBA \<ge> EndLBA e
      then Inl (Errorf ''split extent: split lba must be inside extent'')
      else Inr (e\<lparr>Sectors := ucast (splitLBA - StartLBA e)\<rparr>,
                e\<lparr>StartLBA := splitLBA, Sectors := ucast (EndLBA e - splitLBA)\<rparr>))"

text \<open>\<^verbatim>\<open>LookupExtent\<close>: the extent and its index; \<open>None\<close> is the result with \<^verbatim>\<open>false\<close>.\<close>

fun LookupExtent_from :: "nat \<Rightarrow> Extent list \<Rightarrow> u64 \<Rightarrow> (Extent \<times> nat) option" where
  "LookupExtent_from i [] lba = None"
| "LookupExtent_from i (e # es) lba =
     (if lba \<ge> StartLBA e \<and> lba < EndLBA e then Some (e, i)
      else LookupExtent_from (Suc i) es lba)"

definition LookupExtent :: "Extent list \<Rightarrow> u64 \<Rightarrow> (Extent \<times> nat) option" where
  "LookupExtent es lba = LookupExtent_from 0 es lba"

fun CoalesceExtents_loop :: "Extent \<Rightarrow> Extent list \<Rightarrow> Extent list result" where
  "CoalesceExtents_loop current [] = Inr [current]"
| "CoalesceExtents_loop current (e # es) =
     (if CanMergeAdjacent current e then
        (case MergeAdjacent current e of
           Inl er \<Rightarrow> Inl er
         | Inr merged \<Rightarrow> CoalesceExtents_loop merged es)
      else case CoalesceExtents_loop e es of
           Inl er \<Rightarrow> Inl er
         | Inr result \<Rightarrow> Inr (current # result))"

definition CoalesceExtents :: "Extent list \<Rightarrow> Extent list result" where
  "CoalesceExtents es =
     (case ValidateExtentSet es of
        Some er \<Rightarrow> Inl er
      | None \<Rightarrow> (case es of [] \<Rightarrow> Inr [] | e # rest \<Rightarrow> CoalesceExtents_loop e rest))"

fun InsertExtent_loop :: "Extent \<Rightarrow> bool \<Rightarrow> Extent list \<Rightarrow> Extent list result" where
  "InsertExtent_loop c inserted [] = Inr (if inserted then [] else [c])"
| "InsertExtent_loop c inserted (e # es) =
     (if Overlaps e c then Inl (Errorf ''insert extent: candidate overlaps'')
      else if \<not> inserted \<and> EndLBA c \<le> StartLBA e then
        (case InsertExtent_loop c True es of Inl er \<Rightarrow> Inl er | Inr r \<Rightarrow> Inr (c # e # r))
      else
        (case InsertExtent_loop c inserted es of Inl er \<Rightarrow> Inl er | Inr r \<Rightarrow> Inr (e # r)))"

definition InsertExtent :: "Extent list \<Rightarrow> Extent \<Rightarrow> Extent list result" where
  "InsertExtent es c =
     (case Extent_Validate c of Some er \<Rightarrow> Inl (Wrapf ''insert extent candidate'' er) | None \<Rightarrow>
     (case ValidateExtentSet es of Some er \<Rightarrow> Inl (Wrapf ''insert extent set'' er) | None \<Rightarrow>
     (case InsertExtent_loop c False es of Inl er \<Rightarrow> Inl er | Inr r \<Rightarrow> CoalesceExtents r)))"

text \<open>What \<^verbatim>\<open>ApplyExtent\<close> keeps of an existing extent that the candidate overlaps.\<close>

definition ApplyExtent_left :: "Extent \<Rightarrow> Extent \<Rightarrow> Extent list" where
  "ApplyExtent_left current c =
     (if StartLBA current < StartLBA c
      then [current\<lparr>Sectors := ucast (StartLBA c - StartLBA current)\<rparr>] else [])"

definition ApplyExtent_right :: "Extent \<Rightarrow> Extent \<Rightarrow> Extent list" where
  "ApplyExtent_right current c =
     (if EndLBA current > EndLBA c
      then [current\<lparr>StartLBA := EndLBA c, Sectors := ucast (EndLBA current - EndLBA c)\<rparr>] else [])"

fun ApplyExtent_loop :: "Extent \<Rightarrow> Extent list \<Rightarrow> Extent list result" where
  "ApplyExtent_loop c [] = Inr []"
| "ApplyExtent_loop c (current # es) =
     (if \<not> Overlaps current c then
        (case ApplyExtent_loop c es of Inl er \<Rightarrow> Inl er | Inr r \<Rightarrow> Inr (current # r))
      else if Attempts c < Attempts current then
        Inl (Errorf ''apply extent: candidate attempts cannot replace newer extent attempts'')
      else case ValidateTransition (State current) (Confidence current) (State c) (Confidence c) of
        Some er \<Rightarrow> Inl (Wrapf ''apply extent'' er)
      | None \<Rightarrow>
        (case ApplyExtent_loop c es of Inl er \<Rightarrow> Inl er
         | Inr r \<Rightarrow> Inr (ApplyExtent_left current c @ ApplyExtent_right current c @ r)))"

text \<open>
  \<^verbatim>\<open>sort.Slice\<close> by \<^verbatim>\<open>StartLBA\<close>. Go's sort is not stable; the start
  positions it sorts are distinct (lemma \<open>ApplyExtent_loop_distinct\<close>), so there is one result.
\<close>

definition ApplyExtent :: "Extent list \<Rightarrow> Extent \<Rightarrow> Extent list result" where
  "ApplyExtent es c =
     (case Extent_Validate c of Some er \<Rightarrow> Inl (Wrapf ''apply extent candidate'' er) | None \<Rightarrow>
     (case ValidateExtentSet es of Some er \<Rightarrow> Inl (Wrapf ''apply extent set'' er) | None \<Rightarrow>
     (case ApplyExtent_loop c es of Inl er \<Rightarrow> Inl er
      | Inr r \<Rightarrow> CoalesceExtents (sort_key StartLBA (r @ [c])))))"

end
