(* ===== verification/Bytes.thy ===== *)
theory Bytes
  imports Prelude
begin

text \<open>
  The parts of Go's standard library that the on-disk formats rest on: little-endian integers
  (\<^verbatim>\<open>encoding/binary\<close>), sub-slices, and the CRC-32C checksum
  (\<^verbatim>\<open>hash/crc32\<close> with the Castagnoli table), with the facts the codecs use: encoding
  and decoding are inverse, and a checksum changes when exactly one byte of its input changes.
\<close>

section \<open>Little-endian integers\<close>

text \<open>\<^verbatim>\<open>binary.LittleEndian.PutUint16/32/64\<close>: \<open>k\<close> bytes, least significant first.\<close>

fun le_put :: "nat \<Rightarrow> 'a::len word \<Rightarrow> bytes" where
  "le_put 0 w = []"
| "le_put (Suc k) w = ucast w # le_put k (drop_bit 8 w)"

text \<open>\<^verbatim>\<open>binary.LittleEndian.Uint16/32/64\<close>: the bytes shifted and or-ed together.\<close>

fun le_get :: "bytes \<Rightarrow> 'a::len word" where
  "le_get [] = 0"
| "le_get (b # bs) = ucast b OR push_bit 8 (le_get bs)"

text \<open>\<^verbatim>\<open>bs[i:j]\<close> for indices in range.\<close>

definition slice :: "nat \<Rightarrow> nat \<Rightarrow> 'a list \<Rightarrow> 'a list" where
  "slice i j bs = take (j - i) (drop i bs)"

lemma length_le_put [simp]: "length (le_put k w) = k"
  by (induction k arbitrary: w) auto

lemma le_get_put_take:
  "(le_get (le_put k w) :: 'a::len word) = take_bit (8 * k) (w :: 'a word)"
proof (induction k arbitrary: w)
  case (Suc k)
  have "ucast (ucast w :: u8) OR push_bit 8 (take_bit (8 * k) (drop_bit 8 w)) = take_bit (8 * Suc k) w"
    by (rule bit_eqI)
       (auto simp: bit_or_iff bit_push_bit_iff bit_take_bit_iff bit_drop_bit_eq bit_ucast_iff
         dest: bit_imp_le_length)
  with Suc show ?case by simp
qed simp

lemma le_get_put [codec]:
  assumes "8 * k = LENGTH('a::len)"
  shows "le_get (le_put k w) = (w :: 'a word)"
  by (simp add: le_get_put_take assms take_bit_length_eq)

lemma le_get_put_2 [simp]: "le_get (le_put 2 w) = (w :: u16)" by (rule le_get_put) simp
lemma le_get_put_4 [simp]: "le_get (le_put 4 w) = (w :: u32)" by (rule le_get_put) simp
lemma le_get_put_8 [simp]: "le_get (le_put 8 w) = (w :: u64)" by (rule le_get_put) simp

lemma le_put_get:
  "8 * length bs \<le> LENGTH('a::len) \<Longrightarrow> le_put (length bs) (le_get bs :: 'a word) = bs"
proof (induction bs)
  case (Cons b bs)
  have "ucast (ucast b OR push_bit 8 (le_get bs :: 'a word)) = b"
    using Cons.prems
    by (intro bit_eqI) (auto simp: bit_or_iff bit_push_bit_iff bit_ucast_iff dest: bit_imp_le_length)
  moreover have "le_put (length bs) (drop_bit 8 (ucast b OR push_bit 8 (le_get bs :: 'a word)))
    = le_put (length bs) (take_bit (LENGTH('a) - 8) (le_get bs :: 'a word))"
  proof -
    have "drop_bit 8 (ucast b OR push_bit 8 (le_get bs :: 'a word))
      = take_bit (LENGTH('a) - 8) (le_get bs :: 'a word)"
      by (rule bit_eqI)
         (auto simp: bit_or_iff bit_push_bit_iff bit_drop_bit_eq bit_take_bit_iff bit_ucast_iff
           dest: bit_imp_le_length)
    then show ?thesis by simp
  qed
  moreover have "le_put k (take_bit n (w :: 'a word)) = le_put k w" if "8 * k \<le> n" for k n w
    using that
  proof (induction k arbitrary: n w)
    case (Suc k)
    have "(ucast (take_bit n w) :: u8) = ucast w"
      using Suc.prems by (intro bit_eqI) (auto simp: bit_ucast_iff bit_take_bit_iff dest: bit_imp_le_length)
    moreover have "drop_bit 8 (take_bit n w) = take_bit (n - 8) (drop_bit 8 w)"
      by (rule bit_eqI) (auto simp: bit_take_bit_iff bit_drop_bit_eq)
    ultimately show ?case using Suc by simp
  qed simp
  ultimately show ?case using Cons by simp
qed simp

lemma length_slice [simp]: "j \<le> length bs \<Longrightarrow> length (slice i j bs) = j - i"
  by (simp add: slice_def)

section \<open>CRC-32C\<close>

definition crc_bit :: "u32 \<Rightarrow> u32" where
  "crc_bit s = (if bit s 0 then drop_bit 1 s XOR 0x82F63B78 else drop_bit 1 s)"

definition crc_byte :: "u32 \<Rightarrow> u8 \<Rightarrow> u32" where
  "crc_byte s b = (crc_bit ^^ 8) (s XOR ucast b)"

definition crc32c :: "bytes \<Rightarrow> u32" where
  "crc32c bs = NOT (foldl crc_byte (NOT 0) bs)"

lemma crc_poly_31: "bit (0x82F63B78 :: u32) 31"
  by code_simp

lemma drop_bit_1_31: "\<not> bit (drop_bit 1 (s :: u32)) 31"
  by (auto simp: bit_drop_bit_eq dest: bit_imp_le_length)

lemma crc_bit_31: "bit (crc_bit s) 31 = bit s 0"
  using crc_poly_31 drop_bit_1_31 [of s] by (simp only: crc_bit_def bit_xor_iff split: if_splits) simp

lemma xor_right_cancel: "a XOR c = b XOR c \<Longrightarrow> a = (b :: u32)"
  by (metis xor.assoc xor_self_eq xor.right_neutral)

lemma inj_crc_bit: "inj crc_bit"
proof (rule injI)
  fix s t :: u32
  assume eq: "crc_bit s = crc_bit t"
  then have b0: "bit s 0 = bit t 0" using crc_bit_31 by metis
  then have "drop_bit 1 s = drop_bit 1 t"
    using eq by (auto simp: crc_bit_def dest: xor_right_cancel split: if_splits)
  then have "bit s (Suc n) = bit t (Suc n)" for n
    by (metis bit_drop_bit_eq plus_1_eq_Suc comp_apply)
  with b0 show "s = t" by (intro bit_eqI) (metis not0_implies_Suc)
qed

lemma inj_crc_bits: "inj (crc_bit ^^ n)"
proof (induction n)
  case (Suc n)
  then show ?case using inj_compose [OF inj_crc_bit Suc] by (simp only: funpow.simps)
qed simp

lemma crc_byte_inj_state: "crc_byte s b = crc_byte t b \<Longrightarrow> s = t"
  unfolding crc_byte_def by (drule injD [OF inj_crc_bits]) (metis bit.xor_left_self xor.commute)

lemma crc_byte_inj_byte:
  assumes "crc_byte s a = crc_byte s b"
  shows "a = b"
proof -
  have "s XOR ucast a = s XOR (ucast b :: u32)"
    using assms unfolding crc_byte_def by (rule injD [OF inj_crc_bits])
  then have "(ucast a :: u32) = ucast b" by (metis bit.xor_left_self)
  then have "unat (ucast a :: u32) = unat (ucast b :: u32)" by simp
  then show ?thesis by (simp add: unat_ucast_up word_unat_eq_iff)
qed

lemma foldl_crc_inj: "foldl crc_byte s bs = foldl crc_byte t bs \<Longrightarrow> s = t"
  by (induction bs arbitrary: s t) (auto dest: crc_byte_inj_state)

text \<open>Two inputs that differ in exactly one byte have different checksums.\<close>

lemma crc32c_single_byte:
  assumes "a \<noteq> b"
  shows "crc32c (xs @ a # ys) \<noteq> crc32c (xs @ b # ys)"
proof
  assume "crc32c (xs @ a # ys) = crc32c (xs @ b # ys)"
  then have "NOT (NOT (foldl crc_byte (NOT 0) (xs @ a # ys))) =
      NOT (NOT (foldl crc_byte (NOT 0) (xs @ b # ys)))" by (simp add: crc32c_def)
  then have "foldl crc_byte (crc_byte (foldl crc_byte (NOT 0) xs) a) ys =
      foldl crc_byte (crc_byte (foldl crc_byte (NOT 0) xs) b) ys" by simp
  then show False using assms by (blast dest: foldl_crc_inj crc_byte_inj_byte)
qed

end
