(* ===== verification/MapCodec.thy ===== *)
theory MapCodec
  imports Extents Bytes
begin

text \<open>
  The version-1 recovery-map encodings of \<^verbatim>\<open>internal/mapfile\<close>: extents
  (\<^verbatim>\<open>codec.go\<close>), the file header (\<^verbatim>\<open>header.go\<close>,
  \<^verbatim>\<open>header_codec.go\<close>), checkpoints (\<^verbatim>\<open>checkpoint.go\<close>,
  \<^verbatim>\<open>checkpoint_codec.go\<close>) and journal records (\<^verbatim>\<open>journal.go\<close>,
  \<^verbatim>\<open>journal_codec.go\<close>). An encoder that fills consecutive slots of a fresh buffer is
  the concatenation of those slots; a decoder slices its input as the Go code does. Slice lengths are
  naturals, and Go's \<^verbatim>\<open>int\<close> is 64 bits wide.
\<close>

section \<open>Extents\<close>

definition extentEncodedBytes :: nat where "extentEncodedBytes = 39"

definition MarshalExtent :: "Extent \<Rightarrow> bytes result" where
  "MarshalExtent e =
     (case Extent_Validate e of Some er \<Rightarrow> Inl er | None \<Rightarrow>
      Inr (le_put 8 (StartLBA e) @ le_put 4 (Sectors e) @ [State e, Confidence e] @
           le_put 2 (Attempts e) @ le_put 4 (CaptureID e) @
           [LastSenseKey e, LastASC e, LastASCQ e] @ DataHash e))"

definition UnmarshalExtent :: "bytes \<Rightarrow> Extent result" where
  "UnmarshalExtent bs =
     (if length bs \<noteq> extentEncodedBytes then Inl (Errorf ''unmarshal extent: expected bytes'')
      else let e = \<lparr>StartLBA = le_get (slice 0 8 bs), Sectors = le_get (slice 8 12 bs),
                    State = bs ! 12, Confidence = bs ! 13,
                    Attempts = le_get (slice 14 16 bs), CaptureID = le_get (slice 16 20 bs),
                    LastSenseKey = bs ! 20, LastASC = bs ! 21, LastASCQ = bs ! 22,
                    DataHash = slice 23 39 bs\<rparr>
        in case Extent_Validate e of Some er \<Rightarrow> Inl er | None \<Rightarrow> Inr e)"

section \<open>The header\<close>

definition HeaderMagic :: bytes where "HeaderMagic = [68, 83, 82, 49]" \<comment> \<open>DSR1\<close>
definition FormatVersion :: u16 where "FormatVersion = 1"
definition headerLength :: nat where "headerLength = 135"

record Header =
  LogicalSectorSize :: u32
  ExpectedSectorCount :: u64
  OutputFormat :: u16
  IdentityAlgorithmVersion :: u16
  LayoutSHA256 :: bytes
  QuickContentIDPresent :: bool
  QuickContentID :: bytes
  HdrCaptureID :: bytes
  CatalogRecordIDPresent :: bool
  CatalogRecordID :: bytes
  JobID :: bytes
  CreationUnixNano :: u64
  CleanShutdown :: bool

text \<open>The array lengths of the Go struct; \<^verbatim>\<open>CreationUnixNano\<close> is kept as its 64 bits.\<close>

definition header_typed :: "Header \<Rightarrow> bool" where
  "header_typed h \<longleftrightarrow> length (LayoutSHA256 h) = 32 \<and> length (QuickContentID h) = 16 \<and>
     length (HdrCaptureID h) = 16 \<and> length (CatalogRecordID h) = 16 \<and> length (JobID h) = 16"

definition Header_Validate :: "Header \<Rightarrow> error option" where
  "Header_Validate h =
     (if LogicalSectorSize h = 0
      then Some (Errorf ''validate header: logical sector size must be greater than zero'')
      else if ExpectedSectorCount h = 0
      then Some (Errorf ''validate header: expected sector count must be greater than zero'')
      else None)"

definition bool_byte :: "bool \<Rightarrow> u8" where
  "bool_byte b = (if b then 1 else 0)"

text \<open>The header bytes before the checksum.\<close>

definition header_body :: "Header \<Rightarrow> bytes" where
  "header_body h =
     HeaderMagic @ le_put 2 FormatVersion @ le_put 2 (of_nat headerLength :: u16) @
     le_put 4 (LogicalSectorSize h) @ le_put 8 (ExpectedSectorCount h) @
     le_put 2 (OutputFormat h) @ le_put 2 (IdentityAlgorithmVersion h) @ LayoutSHA256 h @
     [bool_byte (QuickContentIDPresent h)] @ QuickContentID h @ HdrCaptureID h @
     [bool_byte (CatalogRecordIDPresent h)] @ CatalogRecordID h @ JobID h @
     le_put 8 (CreationUnixNano h) @ [bool_byte (CleanShutdown h)]"

definition MarshalHeader :: "Header \<Rightarrow> bytes result" where
  "MarshalHeader h =
     (case Header_Validate h of Some er \<Rightarrow> Inl er | None \<Rightarrow>
      Inr (header_body h @ le_put 4 (crc32c (header_body h))))"

definition UnmarshalHeader :: "bytes \<Rightarrow> Header result" where
  "UnmarshalHeader bs =
     (if length bs < headerLength then Inl (Errorf ''unmarshal header: expected bytes'')
      else if slice 0 4 bs \<noteq> HeaderMagic then Inl (Errorf ''unmarshal header: unexpected magic'')
      else if (le_get (slice 4 6 bs) :: u16) \<noteq> FormatVersion
      then Inl (Errorf ''unmarshal header: unsupported version'')
      else if (le_get (slice 6 8 bs) :: u16) \<noteq> of_nat headerLength
      then Inl (Errorf ''unmarshal header: unsupported header length'')
      else if (le_get (slice (headerLength - 4) headerLength bs) :: u32)
                \<noteq> crc32c (slice 0 (headerLength - 4) bs)
      then Inl (Errorf ''unmarshal header: crc32c mismatch'')
      else let h = \<lparr>LogicalSectorSize = le_get (slice 8 12 bs),
                    ExpectedSectorCount = le_get (slice 12 20 bs),
                    OutputFormat = le_get (slice 20 22 bs),
                    IdentityAlgorithmVersion = le_get (slice 22 24 bs),
                    LayoutSHA256 = slice 24 56 bs,
                    QuickContentIDPresent = (bs ! 56 = 1), QuickContentID = slice 57 73 bs,
                    HdrCaptureID = slice 73 89 bs,
                    CatalogRecordIDPresent = (bs ! 89 = 1), CatalogRecordID = slice 90 106 bs,
                    JobID = slice 106 122 bs, CreationUnixNano = le_get (slice 122 130 bs),
                    CleanShutdown = (bs ! 130 = 1)\<rparr>
        in case Header_Validate h of Some er \<Rightarrow> Inl er | None \<Rightarrow> Inr h)"

section \<open>Checkpoints\<close>

definition checkpointMagic :: bytes where "checkpointMagic = [68, 83, 67, 80]" \<comment> \<open>DSCP\<close>
definition checkpointFixedPayloadBytes :: u64 where "checkpointFixedPayloadBytes = 12"

record DecodeLimits =
  MaxCheckpointPayloadBytes :: u64
  MaxCheckpointExtents :: u64

definition DefaultDecodeLimits :: DecodeLimits where
  "DefaultDecodeLimits =
     \<lparr>MaxCheckpointPayloadBytes = 67108864, MaxCheckpointExtents = 1048576\<rparr>"

record Checkpoint =
  LastSequence :: u64
  Extents :: "Extent list"

fun marshal_extents :: "Extent list \<Rightarrow> bytes result" where
  "marshal_extents [] = Inr []"
| "marshal_extents (e # es) =
     (case MarshalExtent e of Inl er \<Rightarrow> Inl er
      | Inr b \<Rightarrow> (case marshal_extents es of Inl er \<Rightarrow> Inl er | Inr bs \<Rightarrow> Inr (b @ bs)))"

definition checkpoint_prefix :: "Checkpoint \<Rightarrow> nat \<Rightarrow> bytes" where
  "checkpoint_prefix c payloadLength =
     checkpointMagic @ le_put 2 FormatVersion @ le_put 4 (of_nat payloadLength :: u32) @
     le_put 8 (LastSequence c) @ le_put 4 (of_nat (length (Extents c)) :: u32)"

definition MarshalCheckpoint :: "Checkpoint \<Rightarrow> bytes result" where
  "MarshalCheckpoint c =
     (case ValidateExtentSet (Extents c) of
        Some er \<Rightarrow> Inl (Wrapf ''marshal checkpoint'' er)
      | None \<Rightarrow>
        if length (Extents c) > unat (MaxCheckpointExtents DefaultDecodeLimits)
        then Inl (Errorf ''marshal checkpoint: extent count exceeds limit'')
        else let payloadLength = 8 + 4 + length (Extents c) * extentEncodedBytes in
          if payloadLength > unat (MaxCheckpointPayloadBytes DefaultDecodeLimits) \<or>
             payloadLength > 4294967295
          then Inl (Errorf ''marshal checkpoint: payload length exceeds supported limit'')
          else case marshal_extents (Extents c) of
            Inl er \<Rightarrow> Inl er
          | Inr ex \<Rightarrow>
              let encoded = checkpoint_prefix c payloadLength @ ex
              in Inr (encoded @ le_put 4 (crc32c encoded)))"

text \<open>The extent loop of the decoder: that many extents from \<open>offset\<close> on, before \<open>limit\<close>.\<close>

fun unmarshal_extents :: "nat \<Rightarrow> nat \<Rightarrow> nat \<Rightarrow> bytes \<Rightarrow> Extent list result" where
  "unmarshal_extents 0 offset limit bs = Inr []"
| "unmarshal_extents (Suc n) offset limit bs =
     (if offset + extentEncodedBytes > limit
      then Inl (Errorf ''unmarshal checkpoint: truncated extent'')
      else case UnmarshalExtent (slice offset (offset + extentEncodedBytes) bs) of
        Inl er \<Rightarrow> Inl er
      | Inr e \<Rightarrow>
          (case unmarshal_extents n (offset + extentEncodedBytes) limit bs of
             Inl er \<Rightarrow> Inl er
           | Inr es \<Rightarrow> Inr (e # es)))"

definition UnmarshalCheckpointWithLimits :: "bytes \<Rightarrow> DecodeLimits \<Rightarrow> Checkpoint result" where
  "UnmarshalCheckpointWithLimits bs limits =
     (if MaxCheckpointPayloadBytes limits < checkpointFixedPayloadBytes
      then Inl (Errorf ''unmarshal checkpoint: max payload limit is smaller than fixed payload'')
      else if length bs < 26 then Inl (Errorf ''unmarshal checkpoint: buffer too small'')
      else if slice 0 4 bs \<noteq> checkpointMagic
      then Inl (Errorf ''unmarshal checkpoint: unexpected magic'')
      else if (le_get (slice 4 6 bs) :: u16) \<noteq> FormatVersion
      then Inl (Errorf ''unmarshal checkpoint: unsupported version'')
      else let payloadLength = ucast (le_get (slice 6 10 bs) :: u32) :: u64 in
      if payloadLength < checkpointFixedPayloadBytes
      then Inl (Errorf ''unmarshal checkpoint: payload length is smaller than fixed payload'')
      else if payloadLength > MaxCheckpointPayloadBytes limits
      then Inl (Errorf ''unmarshal checkpoint: payload length exceeds limit'')
      else let totalLength = (4 + 2 + 4 + 4) + payloadLength in
      if (of_nat (length bs) :: u64) \<noteq> totalLength
      then Inl (Errorf ''unmarshal checkpoint: length does not match expected'')
      else if (le_get (slice (length bs - 4) (length bs) bs) :: u32) \<noteq> crc32c (slice 0 (length bs - 4) bs)
      then Inl (Errorf ''unmarshal checkpoint: crc32c mismatch'')
      else let count = ucast (le_get (slice 18 22 bs) :: u32) :: u64;
               expectedPayloadLength = checkpointFixedPayloadBytes + count * of_nat extentEncodedBytes in
      if count \<noteq> 0 \<and> expectedPayloadLength < checkpointFixedPayloadBytes
      then Inl (Errorf ''unmarshal checkpoint: extent count arithmetic overflow'')
      else if expectedPayloadLength \<noteq> payloadLength
      then Inl (Errorf ''unmarshal checkpoint: extent count requires payload length'')
      else if count > MaxCheckpointExtents limits
      then Inl (Errorf ''unmarshal checkpoint: extent count exceeds limit'')
      else if count > 9223372036854775807
      then Inl (Errorf ''unmarshal checkpoint: extent count does not fit implementation'')
      else case unmarshal_extents (unat count) 22 (length bs - 4) bs of
        Inl er \<Rightarrow> Inl er
      | Inr es \<Rightarrow>
          (case ValidateExtentSet es of
             Some er \<Rightarrow> Inl er
           | None \<Rightarrow> Inr \<lparr>LastSequence = le_get (slice 10 18 bs), Extents = es\<rparr>))"

definition UnmarshalCheckpoint :: "bytes \<Rightarrow> Checkpoint result" where
  "UnmarshalCheckpoint bs = UnmarshalCheckpointWithLimits bs DefaultDecodeLimits"

section \<open>Journal records\<close>

datatype RecordType =
    RecordJobCreated
  | RecordCaptureOpened
  | RecordPassStarted
  | RecordDataWritten
  | RecordExtentStateChanged
  | RecordErrorRecorded
  | RecordMediaReidentified
  | RecordCheckpointCommitted
  | RecordPassFinished
  | RecordJobStopped
  | RecordJobCompleted
  | RecordTypeOther string \<comment> \<open>any other value of the Go string type\<close>

record JournalRecord =
  Type :: RecordType
  Sequence :: u64
  RecExtent :: "Extent option"
  Payload :: bytes

definition maxJournalPayloadBytes :: nat where "maxJournalPayloadBytes = 1048576"

fun recordTypeCode :: "RecordType \<Rightarrow> u16" where
  "recordTypeCode RecordJobCreated = 1"
| "recordTypeCode RecordCaptureOpened = 2"
| "recordTypeCode RecordPassStarted = 3"
| "recordTypeCode RecordDataWritten = 4"
| "recordTypeCode RecordExtentStateChanged = 5"
| "recordTypeCode RecordErrorRecorded = 6"
| "recordTypeCode RecordMediaReidentified = 7"
| "recordTypeCode RecordCheckpointCommitted = 8"
| "recordTypeCode RecordPassFinished = 9"
| "recordTypeCode RecordJobStopped = 10"
| "recordTypeCode RecordJobCompleted = 11"
| "recordTypeCode (RecordTypeOther s) = 0"

definition decodeRecordType :: "u16 \<Rightarrow> RecordType result" where
  "decodeRecordType code =
     (if code = 1 then Inr RecordJobCreated
      else if code = 2 then Inr RecordCaptureOpened
      else if code = 3 then Inr RecordPassStarted
      else if code = 4 then Inr RecordDataWritten
      else if code = 5 then Inr RecordExtentStateChanged
      else if code = 6 then Inr RecordErrorRecorded
      else if code = 7 then Inr RecordMediaReidentified
      else if code = 8 then Inr RecordCheckpointCommitted
      else if code = 9 then Inr RecordPassFinished
      else if code = 10 then Inr RecordJobStopped
      else if code = 11 then Inr RecordJobCompleted
      else Inl (Errorf ''decode record type: unsupported code''))"

definition payloadBytes :: "JournalRecord \<Rightarrow> bytes result" where
  "payloadBytes r = (case RecExtent r of Some e \<Rightarrow> MarshalExtent e | None \<Rightarrow> Inr (Payload r))"

definition JournalRecord_Validate :: "JournalRecord \<Rightarrow> error option" where
  "JournalRecord_Validate r =
     (if Sequence r = 0
      then Some (Errorf ''validate journal record: sequence must be non-zero'')
      else case payloadBytes r of
        Inl er \<Rightarrow> Some er
      | Inr payload \<Rightarrow>
          if length payload > maxJournalPayloadBytes
          then Some (Errorf ''validate journal record: payload exceeds limit'') else None)"

definition record_body :: "RecordType \<Rightarrow> u64 \<Rightarrow> bytes \<Rightarrow> bytes" where
  "record_body t seq payload =
     le_put 2 (recordTypeCode t) @ le_put 8 seq @ le_put 4 (of_nat (length payload) :: u32) @ payload"

definition MarshalJournalRecord :: "JournalRecord \<Rightarrow> bytes result" where
  "MarshalJournalRecord r =
     (case JournalRecord_Validate r of Some er \<Rightarrow> Inl er | None \<Rightarrow>
     (case payloadBytes r of Inl er \<Rightarrow> Inl er | Inr payload \<Rightarrow>
      let encoded = record_body (Type r) (Sequence r) payload
      in Inr (encoded @ le_put 4 (crc32c encoded))))"

definition UnmarshalJournalRecord :: "bytes \<Rightarrow> (JournalRecord \<times> nat) result" where
  "UnmarshalJournalRecord bs =
     (if length bs < 18 then Inl ErrTruncatedRecord
      else let payloadLength = unat (le_get (slice 10 14 bs) :: u32);
               totalLength = 2 + 8 + 4 + payloadLength + 4 in
      if length bs < totalLength then Inl ErrTruncatedRecord
      else if payloadLength > maxJournalPayloadBytes
      then Inl (Errorf ''unmarshal journal record: payload exceeds limit'')
      else if (le_get (slice (totalLength - 4) totalLength bs) :: u32) \<noteq> crc32c (slice 0 (totalLength - 4) bs)
      then Inl (Errorf ''unmarshal journal record: crc32c mismatch'')
      else case decodeRecordType (le_get (slice 0 2 bs)) of
        Inl er \<Rightarrow> Inl er
      | Inr recordType \<Rightarrow>
          let seq = le_get (slice 2 10 bs); payload = slice 14 (totalLength - 4) bs in
          if recordType = RecordExtentStateChanged then
            (case UnmarshalExtent payload of
               Inl er \<Rightarrow> Inl er
             | Inr e \<Rightarrow>
                 let r = \<lparr>Type = recordType, Sequence = seq, RecExtent = Some e, Payload = []\<rparr> in
                 (case JournalRecord_Validate r of Some er \<Rightarrow> Inl er | None \<Rightarrow> Inr (r, totalLength)))
          else
            let r = \<lparr>Type = recordType, Sequence = seq, RecExtent = None, Payload = payload\<rparr> in
            (case JournalRecord_Validate r of Some er \<Rightarrow> Inl er | None \<Rightarrow> Inr (r, totalLength)))"

definition AppendJournalRecord :: "bytes \<Rightarrow> JournalRecord \<Rightarrow> bytes result" where
  "AppendJournalRecord journal r =
     (case MarshalJournalRecord r of Inl er \<Rightarrow> Inl er | Inr encoded \<Rightarrow> Inr (journal @ encoded))"

end
