(* ===== verification/ExtentFacts.thy ===== *)
theory ExtentFacts
  imports Extents
begin

text \<open>
  Facts about the extent sets of \<^verbatim>\<open>internal/mapfile\<close>: validity read as arithmetic on
  naturals, the abstract map \<open>extent_at\<close>, and the correctness of
  \<^verbatim>\<open>ValidateExtentSet\<close>, \<^verbatim>\<open>CoalesceExtents\<close>,
  \<^verbatim>\<open>InsertExtent\<close> and \<^verbatim>\<open>ApplyExtent\<close> against it.
\<close>

section \<open>Arithmetic of valid extents\<close>

abbreviation startN :: "Extent \<Rightarrow> nat" where "startN e \<equiv> unat (StartLBA e)"
abbreviation endN :: "Extent \<Rightarrow> nat" where "endN e \<equiv> unat (StartLBA e) + unat (Sectors e)"

text \<open>A non-empty extent whose end does not wrap, with a legal state and confidence.\<close>

abbreviation extent_valid :: "Extent \<Rightarrow> bool" where
  "extent_valid e \<equiv> Extent_Validate e = None"

lemma CheckedEndLBA_Inr_iff:
  "CheckedEndLBA e = Inr b \<longleftrightarrow> endN e < 18446744073709551616 \<and> b = EndLBA e"
proof -
  have u: "unat (- 1 - StartLBA e) = 18446744073709551615 - startN e"
    by (subst unat_sub_le) (simp_all add: unsigned_minus_1_eq_mask mask_eq_exp_minus_1)
  have lt: "startN e < 18446744073709551616" by simp
  have "- 1 - StartLBA e < ucast (Sectors e) \<longleftrightarrow> \<not> endN e < 18446744073709551616"
    using lt unfolding word_less_nat_alt u unat_ucast_32_64 by arith
  then show ?thesis by (auto simp: CheckedEndLBA_def EndLBA_def Let_def)
qed

lemma CheckedEndLBA_None_iff:
  "(\<exists>b. CheckedEndLBA e = Inr b) \<longleftrightarrow> endN e < 18446744073709551616"
  by (simp add: CheckedEndLBA_Inr_iff)

lemma unat_EndLBA:
  "endN e < 18446744073709551616 \<Longrightarrow> unat (EndLBA e) = endN e"
  unfolding EndLBA_def by (subst unat_add_le) simp_all

lemma extent_valid_iff:
  "extent_valid e \<longleftrightarrow>
     0 < unat (Sectors e) \<and> endN e < 18446744073709551616 \<and>
     ValidateStateConfidence (State e) (Confidence e) = None"
proof (cases "CheckedEndLBA e")
  case (Inl er)
  then have "\<not> endN e < 18446744073709551616" by (metis CheckedEndLBA_Inr_iff sum.distinct(1))
  with Inl show ?thesis by (simp add: Extent_Validate_def)
next
  case (Inr b)
  then have "endN e < 18446744073709551616" by (simp add: CheckedEndLBA_Inr_iff)
  with Inr show ?thesis by (simp add: Extent_Validate_def word_neq_0_pos)
qed

lemma extent_valid_EndLBA [simp]: "extent_valid e \<Longrightarrow> unat (EndLBA e) = endN e"
  by (simp add: extent_valid_iff unat_EndLBA)

lemma extent_valid_pos: "extent_valid e \<Longrightarrow> startN e < endN e"
  by (simp add: extent_valid_iff)

text \<open>The sectors an extent stands for, and its attributes with the position erased.\<close>

definition covers :: "Extent \<Rightarrow> nat \<Rightarrow> bool" where
  "covers e n \<longleftrightarrow> startN e \<le> n \<and> n < endN e"

definition body :: "Extent \<Rightarrow> Extent" where
  "body e = e\<lparr>StartLBA := 0, Sectors := 0\<rparr>"

text \<open>The abstract recovery map: the attributes recorded for a sector, if any.\<close>

definition extent_at :: "Extent list \<Rightarrow> nat \<Rightarrow> Extent option" where
  "extent_at es n = map_option body (find (\<lambda>e. covers e n) es)"

definition wf_extents :: "Extent list \<Rightarrow> bool" where
  "wf_extents es \<longleftrightarrow>
     (\<forall>e \<in> set es. extent_valid e) \<and> sorted_wrt (\<lambda>a b. endN a \<le> startN b) es"

text \<open>All sectors lie below \<open>2 ^ 32\<close>: then no sector count of a merged extent wraps.\<close>

definition within32 :: "Extent list \<Rightarrow> bool" where
  "within32 es \<longleftrightarrow> (\<forall>e \<in> set es. endN e < 4294967296)"

lemma Overlaps_iff:
  "extent_valid a \<Longrightarrow> extent_valid b \<Longrightarrow>
     Overlaps a b \<longleftrightarrow> startN a < endN b \<and> startN b < endN a"
  by (simp add: Overlaps_def word_less_nat_alt)

lemma body_simps [simp]:
  "State (body e) = State e" "Confidence (body e) = Confidence e"
  "Attempts (body e) = Attempts e" "CaptureID (body e) = CaptureID e"
  "DataHash (body e) = DataHash e"
  by (simp_all add: body_def)

lemma body_update [simp]: "body (e\<lparr>Sectors := s\<rparr>) = body e" "body (e\<lparr>StartLBA := a\<rparr>) = body e"
  "body (e\<lparr>StartLBA := a, Sectors := s\<rparr>) = body e"
  by (simp_all add: body_def)

lemma CanMergeAdjacent_iff:
  "CanMergeAdjacent l r \<longleftrightarrow> EndLBA l = StartLBA r \<and> body l = body r"
  by (cases l; cases r) (auto simp: CanMergeAdjacent_def body_def)

lemma ValidateExtentSet_from_iff:
  "(case prev of None \<Rightarrow> True | Some p \<Rightarrow> extent_valid p) \<Longrightarrow>
   ValidateExtentSet_from prev es = None \<longleftrightarrow>
     wf_extents es \<and> (case prev of None \<Rightarrow> True | Some p \<Rightarrow> (\<forall>e \<in> set es. endN p \<le> startN e))"
proof (induction prev es rule: ValidateExtentSet_from.induct)
  case (1 prev)
  then show ?case by (simp add: wf_extents_def split: option.splits)
next
  case (2 prev e es)
  show ?case
  proof (cases "extent_valid e")
    case False
    then show ?thesis by (auto simp: wf_extents_def)
  next
    case ve: True
    show ?thesis
    proof (cases prev)
      case None
      with 2 ve show ?thesis by (auto simp: wf_extents_def)
    next
      case (Some p)
      have vp: "extent_valid p" using 2(3) Some by simp
      have adj: "\<not> StartLBA p > StartLBA e \<and> \<not> Overlaps p e \<longleftrightarrow> endN p \<le> startN e"
        using extent_valid_pos [OF vp] extent_valid_pos [OF ve]
        by (auto simp: Overlaps_iff [OF vp ve] word_less_nat_alt)
      show ?thesis
      proof (cases "endN p \<le> startN e")
        case True
        with adj have c: "\<not> StartLBA p > StartLBA e" "\<not> Overlaps p e" by auto
        from 2(2) [OF ve Some c] ve have
          "ValidateExtentSet_from (Some e) es = None \<longleftrightarrow>
             wf_extents es \<and> (\<forall>x \<in> set es. endN e \<le> startN x)" by simp
        moreover have "\<forall>x \<in> set es. endN p \<le> startN x" if "\<forall>x \<in> set es. endN e \<le> startN x"
          using True that by (meson le_add1 order_trans)
        ultimately show ?thesis using True c ve Some by (auto simp: wf_extents_def)
      next
        case False
        with adj ve Some show ?thesis by (auto simp: wf_extents_def)
      qed
    qed
  qed
qed

lemma ValidateExtentSet_iff: "ValidateExtentSet es = None \<longleftrightarrow> wf_extents es"
  using ValidateExtentSet_from_iff [of None es] by (simp add: ValidateExtentSet_def)

section \<open>The abstract map\<close>

lemma find_covers_unique:
  assumes "wf_extents es" "e \<in> set es" "covers e n"
  shows "find (\<lambda>e. covers e n) es = Some e"
  using assms
proof (induction es)
  case Nil
  then show ?case by simp
next
  case (Cons a es)
  show ?case
  proof (cases "e = a")
    case True
    with Cons.prems show ?thesis by simp
  next
    case False
    with Cons.prems have "e \<in> set es" "endN a \<le> startN e" by (auto simp: wf_extents_def)
    moreover from this Cons.prems have "\<not> covers a n" by (auto simp: covers_def)
    moreover have "wf_extents es" using Cons.prems by (simp add: wf_extents_def)
    ultimately show ?thesis using Cons.IH Cons.prems by simp
  qed
qed

lemma extent_at_Some:
  "wf_extents es \<Longrightarrow> e \<in> set es \<Longrightarrow> covers e n \<Longrightarrow> extent_at es n = Some (body e)"
  by (simp add: extent_at_def find_covers_unique)

lemma extent_at_SomeD:
  "extent_at es n = Some b \<Longrightarrow> \<exists>e \<in> set es. covers e n \<and> b = body e"
  by (auto simp: extent_at_def find_Some_iff)

lemma extent_at_None_iff: "extent_at es n = None \<longleftrightarrow> (\<forall>e \<in> set es. \<not> covers e n)"
  by (auto simp: extent_at_def find_None_iff)

lemma extent_at_eqI:
  assumes "wf_extents xs" "wf_extents ys"
    and "\<And>e n. e \<in> set xs \<Longrightarrow> covers e n \<Longrightarrow> \<exists>e' \<in> set ys. covers e' n \<and> body e' = body e"
    and "\<And>e n. e \<in> set ys \<Longrightarrow> covers e n \<Longrightarrow> \<exists>e' \<in> set xs. covers e' n"
  shows "extent_at xs = extent_at ys"
proof
  fix n
  show "extent_at xs n = extent_at ys n"
  proof (cases "extent_at xs n")
    case None
    then have "\<forall>e \<in> set ys. \<not> covers e n" using assms(4) by (auto simp: extent_at_None_iff)
    with None show ?thesis by (simp add: extent_at_None_iff [THEN iffD2])
  next
    case (Some b)
    then obtain e where "e \<in> set xs" "covers e n" "b = body e" by (auto dest: extent_at_SomeD)
    with assms(2,3) Some show ?thesis by (metis extent_at_Some)
  qed
qed

lemma extent_at_Nil [simp]: "extent_at [] n = None"
  by (simp add: extent_at_def)

lemma extent_at_Cons [simp]:
  "extent_at (e # es) n = (if covers e n then Some (body e) else extent_at es n)"
  by (simp add: extent_at_def)

lemma wf_extents_Nil [simp]: "wf_extents []"
  by (simp add: wf_extents_def)

lemma wf_extents_Cons [simp]:
  "wf_extents (e # es) \<longleftrightarrow> extent_valid e \<and> (\<forall>x \<in> set es. endN e \<le> startN x) \<and> wf_extents es"
  by (auto simp: wf_extents_def)

lemma within32_simps [simp]:
  "within32 []" "within32 (e # es) \<longleftrightarrow> endN e < 4294967296 \<and> within32 es"
  "within32 (xs @ ys) \<longleftrightarrow> within32 xs \<and> within32 ys"
  by (auto simp: within32_def)

section \<open>Merging neighbours\<close>

lemma MergeAdjacent_Inr_iff:
  "MergeAdjacent l r = Inr m \<longleftrightarrow>
     extent_valid l \<and> extent_valid r \<and> CanMergeAdjacent l r \<and> m = l\<lparr>Sectors := Sectors l + Sectors r\<rparr>"
  by (auto simp: MergeAdjacent_def split: option.splits)

lemma merge_adjacent_facts:
  assumes "extent_valid l" "extent_valid r" "CanMergeAdjacent l r" "endN r < 4294967296"
  defines "m \<equiv> l\<lparr>Sectors := Sectors l + Sectors r\<rparr>"
  shows "extent_valid m" "startN m = startN l" "endN m = endN r" "endN l = startN r"
    "body m = body l" "covers m n \<longleftrightarrow> covers l n \<or> covers r n"
proof -
  have "unat (EndLBA l) = startN r" using assms(3) by (simp add: CanMergeAdjacent_def)
  with assms(1) show adj: "endN l = startN r" by simp
  have s: "unat (Sectors l + Sectors r) = unat (Sectors l) + unat (Sectors r)"
    using adj assms(4) by (subst unat_add_le) simp_all
  show "startN m = startN l" "body m = body l" by (simp_all add: m_def)
  show e: "endN m = endN r" using adj by (simp add: m_def s)
  show "extent_valid m" using assms(1,2) e by (simp add: extent_valid_iff m_def s)
  show "covers m n \<longleftrightarrow> covers l n \<or> covers r n"
    using adj by (auto simp: covers_def m_def s)
qed

lemma ValidateExtentSet_ok [simp]: "wf_extents es \<Longrightarrow> ValidateExtentSet es = None"
  by (simp add: ValidateExtentSet_iff)

text \<open>No two neighbours of a coalesced set could still be merged.\<close>

fun maximal :: "Extent list \<Rightarrow> bool" where
  "maximal (a # b # es) = (\<not> CanMergeAdjacent a b \<and> maximal (b # es))"
| "maximal es = True"

lemma CanMergeAdjacent_body_end:
  "EndLBA a = EndLBA b \<Longrightarrow> body a = body b \<Longrightarrow> CanMergeAdjacent a c = CanMergeAdjacent b c"
  by (simp add: CanMergeAdjacent_iff)

lemma CoalesceExtents_loop_correct:
  "wf_extents (c # es) \<Longrightarrow> within32 (c # es) \<Longrightarrow>
   \<exists>r x xs. CoalesceExtents_loop c es = Inr r \<and> r = x # xs \<and> startN x = startN c \<and> body x = body c \<and>
     wf_extents r \<and> within32 r \<and> maximal r \<and> extent_at r = extent_at (c # es)"
proof (induction c es rule: CoalesceExtents_loop.induct)
  case (1 c)
  then show ?case by (auto simp: fun_eq_iff)
next
  case (2 c e es)
  show ?case
  proof (cases "CanMergeAdjacent c e")
    case True
    define m where "m = c\<lparr>Sectors := Sectors c + Sectors e\<rparr>"
    from 2(3,4) have v: "extent_valid c" "extent_valid e" "endN e < 4294967296" by simp_all
    note mf = merge_adjacent_facts [OF v(1,2) True v(3), folded m_def]
    have ma: "MergeAdjacent c e = Inr m" using v True by (simp add: MergeAdjacent_Inr_iff m_def)
    have "wf_extents (m # es)" "within32 (m # es)" using 2(3,4) mf by auto
    from 2(1) [OF True ma this] obtain r x xs where r:
      "CoalesceExtents_loop m es = Inr r" "r = x # xs" "startN x = startN m" "body x = body m"
      "wf_extents r" "within32 r" "maximal r" "extent_at r = extent_at (m # es)" by blast
    moreover have "extent_at (m # es) = extent_at (c # e # es)"
      using True mf(5) by (auto simp: fun_eq_iff mf(6) CanMergeAdjacent_iff)
    ultimately show ?thesis using True ma mf by auto
  next
    case False
    have "wf_extents (e # es)" "within32 (e # es)" using 2(3,4) by simp_all
    from 2(2) [OF False this] obtain r x xs where r:
      "CoalesceExtents_loop e es = Inr r" "r = x # xs" "startN x = startN e" "body x = body e"
      "wf_extents r" "within32 r" "maximal r" "extent_at r = extent_at (e # es)" by blast
    have "StartLBA x = StartLBA e" using r(3) by (simp add: word_unat_eq_iff)
    then have "\<not> CanMergeAdjacent c x" using False r(4) by (simp add: CanMergeAdjacent_iff)
    moreover have "wf_extents (c # r)"
      using 2(3) r(2,3,5) extent_valid_pos [of x] by (fastforce simp: wf_extents_def)
    moreover have "extent_at (c # r) = extent_at (c # e # es)"
      using r(8) by (simp add: fun_eq_iff)
    ultimately show ?thesis using False r 2(4) by auto
  qed
qed

theorem CoalesceExtents_correct:
  assumes "wf_extents es" "within32 es"
  obtains r where "CoalesceExtents es = Inr r" "wf_extents r" "within32 r" "maximal r"
    "extent_at r = extent_at es"
proof (cases es)
  case Nil
  then have "CoalesceExtents es = Inr []"
    by (simp add: CoalesceExtents_def ValidateExtentSet_def)
  with Nil show ?thesis by (intro that [of "[]"]) simp_all
next
  case (Cons c rest)
  then have "CoalesceExtents es = CoalesceExtents_loop c rest"
    using assms(1) by (simp add: CoalesceExtents_def del: wf_extents_Cons)
  with CoalesceExtents_loop_correct [of c rest] assms Cons that show ?thesis by metis
qed

lemma CoalesceExtents_wf: "CoalesceExtents es = Inr r \<Longrightarrow> wf_extents es"
  by (auto simp: CoalesceExtents_def ValidateExtentSet_iff [symmetric] split: option.splits)


section \<open>Replacing a range\<close>

text \<open>The pieces of an existing extent that lie outside an overlapping candidate.\<close>

lemma ApplyExtent_left_facts:
  assumes v: "extent_valid e" "extent_valid c" and o: "Overlaps e c"
    and p: "p \<in> set (ApplyExtent_left e c)"
  shows "extent_valid p" "startN p = startN e" "endN p = startN c" "body p = body e"
proof -
  from p have lt: "startN e < startN c" and pd: "p = e\<lparr>Sectors := ucast (StartLBA c - StartLBA e)\<rparr>"
    by (auto simp: ApplyExtent_left_def word_less_nat_alt split: if_splits)
  have "startN c < endN e" using o v by (simp add: Overlaps_iff)
  moreover have "unat (Sectors e) < 4294967296" by simp
  ultimately have "startN c - startN e < 4294967296" using lt by linarith
  moreover have d: "unat (StartLBA c - StartLBA e) = startN c - startN e"
    using lt by (simp add: unat_sub_le word_le_nat_alt)
  ultimately have s: "unat (Sectors p) = startN c - startN e"
    by (simp add: pd unat_ucast_64_32_small)
  show "startN p = startN e" "body p = body e" by (simp_all add: pd)
  show "endN p = startN c" using s lt by (simp add: pd)
  then show "extent_valid p" using s lt v(1) unat_u64_less [of "StartLBA c"]
    by (simp add: extent_valid_iff pd)
qed

lemma ApplyExtent_right_facts:
  assumes v: "extent_valid e" "extent_valid c" and o: "Overlaps e c"
    and p: "p \<in> set (ApplyExtent_right e c)"
  shows "extent_valid p" "startN p = endN c" "endN p = endN e" "body p = body e"
proof -
  from p have lt: "endN c < endN e"
    and pd: "p = e\<lparr>StartLBA := EndLBA c, Sectors := ucast (EndLBA e - EndLBA c)\<rparr>"
    using v by (auto simp: ApplyExtent_right_def word_less_nat_alt split: if_splits)
  have "startN e < endN c" using o v by (simp add: Overlaps_iff)
  moreover have "unat (Sectors e) < 4294967296" by simp
  ultimately have "endN e - endN c < 4294967296" using lt by linarith
  moreover have d: "unat (EndLBA e - EndLBA c) = endN e - endN c"
    using lt v by (simp add: unat_sub_le word_le_nat_alt)
  ultimately have s: "unat (Sectors p) = endN e - endN c"
    by (simp add: pd unat_ucast_64_32_small)
  show st: "startN p = endN c" using v by (simp add: pd)
  show "body p = body e" by (simp add: pd)
  show en: "endN p = endN e" using s st lt by simp
  show "extent_valid p" using s lt v(1) st en by (simp add: extent_valid_iff pd)
qed

definition replaceable :: "Extent \<Rightarrow> Extent \<Rightarrow> bool" where
  "replaceable e c \<longleftrightarrow> Attempts e \<le> Attempts c \<and>
     ValidateTransition (State e) (Confidence e) (State c) (Confidence c) = None"

lemma ApplyExtent_loop_succeeds:
  "(\<exists>r. ApplyExtent_loop c es = Inr r) \<longleftrightarrow> (\<forall>e \<in> set es. Overlaps e c \<longrightarrow> replaceable e c)"
  by (induction c es rule: ApplyExtent_loop.induct)
     (auto simp: replaceable_def not_less split: sum.splits option.splits)

definition pieces :: "Extent \<Rightarrow> Extent \<Rightarrow> Extent list" where
  "pieces c e = (if Overlaps e c then ApplyExtent_left e c @ ApplyExtent_right e c else [e])"

lemma ApplyExtent_loop_pieces:
  "ApplyExtent_loop c es = Inr r \<Longrightarrow> r = concat (map (pieces c) es)"
  by (induction c es arbitrary: r rule: ApplyExtent_loop.induct)
     (auto simp: pieces_def split: sum.splits option.splits if_splits)

lemma pieces_facts:
  assumes v: "extent_valid e" "extent_valid c" and p: "p \<in> set (pieces c e)"
  shows "extent_valid p" "startN e \<le> startN p" "endN p \<le> endN e" "body p = body e"
    "endN p \<le> startN c \<or> endN c \<le> startN p"
proof -
  consider (out) "\<not> Overlaps e c" "p = e"
    | (l) "Overlaps e c" "p \<in> set (ApplyExtent_left e c)"
    | (r) "Overlaps e c" "p \<in> set (ApplyExtent_right e c)"
    using p by (auto simp: pieces_def split: if_splits)
  then have "extent_valid p \<and> startN e \<le> startN p \<and> endN p \<le> endN e \<and> body p = body e \<and>
    (endN p \<le> startN c \<or> endN c \<le> startN p)"
  proof cases
    case out
    then show ?thesis using v by (auto simp: Overlaps_iff)
  next
    case l
    note f = ApplyExtent_left_facts [OF v l]
    moreover have "startN c < endN e" using l v by (simp add: Overlaps_iff)
    ultimately show ?thesis by simp
  next
    case r
    note f = ApplyExtent_right_facts [OF v r]
    moreover have "startN e < endN c" using r v by (simp add: Overlaps_iff)
    ultimately show ?thesis by simp
  qed
  then show "extent_valid p" "startN e \<le> startN p" "endN p \<le> endN e" "body p = body e"
    "endN p \<le> startN c \<or> endN c \<le> startN p" by auto
qed

lemma pieces_covers:
  assumes v: "extent_valid e" "extent_valid c"
  shows "(\<exists>p \<in> set (pieces c e). covers p n) \<longleftrightarrow> covers e n \<and> \<not> covers c n"
proof
  assume "\<exists>p \<in> set (pieces c e). covers p n"
  then obtain p where "p \<in> set (pieces c e)" "covers p n" by blast
  with pieces_facts [OF v] show "covers e n \<and> \<not> covers c n" by (fastforce simp: covers_def)
next
  assume a: "covers e n \<and> \<not> covers c n"
  show "\<exists>p \<in> set (pieces c e). covers p n"
  proof (cases "Overlaps e c")
    case False
    with a show ?thesis by (simp add: pieces_def)
  next
    case o: True
    show ?thesis
    proof (cases "n < startN c")
      case True
      then have "startN e < startN c" using a by (simp add: covers_def)
      then obtain p where p: "p \<in> set (ApplyExtent_left e c)"
        by (auto simp: ApplyExtent_left_def word_less_nat_alt)
      from ApplyExtent_left_facts [OF v o p] a True have "covers p n" by (simp add: covers_def)
      with p o show ?thesis by (auto simp: pieces_def)
    next
      case False
      then have n: "endN c \<le> n" using a by (simp add: covers_def)
      then have "endN c < endN e" using a by (simp add: covers_def)
      then obtain p where p: "p \<in> set (ApplyExtent_right e c)"
        using v by (auto simp: ApplyExtent_right_def word_less_nat_alt)
      from ApplyExtent_right_facts [OF v o p] a n have "covers p n" by (simp add: covers_def)
      with p o show ?thesis by (auto simp: pieces_def)
    qed
  qed
qed

lemma wf_extents_append:
  "wf_extents (xs @ ys) \<longleftrightarrow> wf_extents xs \<and> wf_extents ys \<and>
     (\<forall>x \<in> set xs. \<forall>y \<in> set ys. endN x \<le> startN y)"
  by (auto simp: wf_extents_def sorted_wrt_append)

lemma pieces_wf:
  assumes v: "extent_valid e" "extent_valid c"
  shows "wf_extents (pieces c e)"
proof (cases "Overlaps e c")
  case False
  with v show ?thesis by (simp add: pieces_def)
next
  case o: True
  have "wf_extents (ApplyExtent_left e c)" "wf_extents (ApplyExtent_right e c)"
    using ApplyExtent_left_facts [OF v o] ApplyExtent_right_facts [OF v o]
    by (auto simp: ApplyExtent_left_def ApplyExtent_right_def split: if_splits)
  moreover have "endN p \<le> startN q"
    if "p \<in> set (ApplyExtent_left e c)" "q \<in> set (ApplyExtent_right e c)" for p q
    using ApplyExtent_left_facts [OF v o that(1)] ApplyExtent_right_facts [OF v o that(2)] by simp
  ultimately show ?thesis using o by (simp add: pieces_def wf_extents_append)
qed

lemma concat_pieces_wf:
  assumes "wf_extents es" "extent_valid c"
  shows "wf_extents (concat (map (pieces c) es))"
  using assms
proof (induction es)
  case Nil
  then show ?case by simp
next
  case (Cons e es)
  have "endN p \<le> startN q" if p: "p \<in> set (pieces c e)" and x: "x \<in> set es" and q: "q \<in> set (pieces c x)"
    for p x q
  proof -
    have "extent_valid e" "extent_valid x" "endN e \<le> startN x"
      using Cons.prems x by (auto simp: wf_extents_def)
    then show ?thesis
      using pieces_facts [OF _ Cons.prems(2) p] pieces_facts [OF _ Cons.prems(2) q] by fastforce
  qed
  with Cons show ?case by (auto simp: wf_extents_append pieces_wf)
qed

section \<open>Sorting by start position\<close>

lemma wf_extents_ordered:
  assumes "wf_extents es" "a \<in> set es" "b \<in> set es" "startN a < startN b"
  shows "endN a \<le> startN b"
proof -
  obtain i j where ij: "i < length es" "j < length es" "a = es ! i" "b = es ! j"
    using assms(2,3) by (auto simp: in_set_conv_nth)
  have sw: "sorted_wrt (\<lambda>a b. endN a \<le> startN b) es" using assms(1) by (simp add: wf_extents_def)
  consider "i < j" | "i = j" | "j < i" by linarith
  then show ?thesis
  proof cases
    case 1
    then show ?thesis using sorted_wrt_nth_less [OF sw] ij by blast
  next
    case 2
    then show ?thesis using ij assms(4) by simp
  next
    case 3
    then have "endN b \<le> startN a" using sorted_wrt_nth_less [OF sw] ij by blast
    then show ?thesis using assms(4) by simp
  qed
qed

lemma wf_extents_distinct: "wf_extents es \<Longrightarrow> distinct (map StartLBA es)"
proof (induction es)
  case (Cons e es)
  have "startN e \<noteq> startN x" if "x \<in> set es" for x
    using Cons.prems that extent_valid_pos [of e] by force
  then have "StartLBA e \<notin> StartLBA ` set es" by (metis imageE)
  with Cons show ?case by simp
qed simp

lemma wf_extents_sort:
  assumes v: "\<forall>e \<in> set es. extent_valid e" and d: "distinct (map StartLBA es)"
    and o: "\<And>a b. a \<in> set es \<Longrightarrow> b \<in> set es \<Longrightarrow> startN a < startN b \<Longrightarrow> endN a \<le> startN b"
  shows "wf_extents (sort_key StartLBA es)"
proof -
  let ?s = "sort_key StartLBA es"
  have "sorted (map StartLBA ?s)" by simp
  moreover have "distinct (map StartLBA ?s)"
    using d by (metis mset_map mset_sort mset_eq_imp_distinct_iff)
  ultimately have "sorted_wrt (\<lambda>a b. StartLBA a < StartLBA b) ?s"
    using strict_sorted_iff [of "map StartLBA ?s"] by (simp add: sorted_wrt_map)
  then have "sorted_wrt (\<lambda>a b. endN a \<le> startN b) ?s"
    by (rule sorted_wrt_mono_rel [rotated]) (auto simp: word_less_nat_alt intro: o)
  with v show ?thesis by (simp add: wf_extents_def)
qed

section \<open>The effect of \<^verbatim>\<open>ApplyExtent\<close>\<close>

text \<open>
  The list that \<^verbatim>\<open>ApplyExtent\<close> sorts: the kept pieces and the candidate. Its start
  positions are distinct, so the order in which the unstable sort meets equal keys is irrelevant.
\<close>

lemma ApplyExtent_loop_distinct:
  assumes "wf_extents es" "extent_valid c" "ApplyExtent_loop c es = Inr r"
  shows "distinct (map StartLBA (r @ [c]))"
proof -
  have r: "r = concat (map (pieces c) es)" using assms(3) by (rule ApplyExtent_loop_pieces)
  have "wf_extents r" using concat_pieces_wf assms r by simp
  moreover have "startN p \<noteq> startN c" if p: "p \<in> set r" for p
  proof -
    obtain e where "e \<in> set es" "p \<in> set (pieces c e)" using p r by auto
    then show ?thesis
      using pieces_facts [of e c p] assms(1,2) extent_valid_pos [of p] extent_valid_pos [of c]
      by (fastforce simp: wf_extents_def)
  qed
  then have "StartLBA c \<notin> StartLBA ` set r" by (metis imageE)
  ultimately show ?thesis using wf_extents_distinct by simp
qed

lemma ApplyExtent_sorted:
  assumes w: "wf_extents es" and v: "extent_valid c" and r: "ApplyExtent_loop c es = Inr r"
  shows "wf_extents (sort_key StartLBA (r @ [c]))"
    "extent_at (sort_key StartLBA (r @ [c])) n =
       (if covers c n then Some (body c) else extent_at es n)"
proof -
  let ?s = "sort_key StartLBA (r @ [c])"
  have rp: "r = concat (map (pieces c) es)" using r by (rule ApplyExtent_loop_pieces)
  have wr: "wf_extents r" using concat_pieces_wf w v rp by simp
  have out: "endN p \<le> startN c \<or> endN c \<le> startN p" if p: "p \<in> set r" for p
  proof -
    obtain e where "e \<in> set es" "p \<in> set (pieces c e)" using p rp by auto
    then show ?thesis using pieces_facts(5) [of e c p] w v by (simp add: wf_extents_def)
  qed
  have "endN a \<le> startN b" if "a \<in> set (r @ [c])" "b \<in> set (r @ [c])" "startN a < startN b" for a b
    using that wf_extents_ordered [OF wr] out [of a] out [of b] by auto
  then show ws: "wf_extents ?s"
    using ApplyExtent_loop_distinct [OF w v r] wr v
    by (intro wf_extents_sort) (auto simp: wf_extents_def)
  have sub: "(\<exists>p \<in> set r. covers p n \<and> body p = b) \<longleftrightarrow> extent_at es n = Some b \<and> \<not> covers c n" for b
  proof -
    have "(\<exists>p \<in> set r. covers p n \<and> body p = b) \<longleftrightarrow>
        (\<exists>e \<in> set es. \<exists>p \<in> set (pieces c e). covers p n \<and> body p = b)" by (auto simp: rp)
    also have "\<dots> \<longleftrightarrow> (\<exists>e \<in> set es. body e = b \<and> (\<exists>p \<in> set (pieces c e). covers p n))"
      using pieces_facts(4) [OF _ v] w by (fastforce simp: wf_extents_def)
    also have "\<dots> \<longleftrightarrow> (\<exists>e \<in> set es. body e = b \<and> covers e n \<and> \<not> covers c n)"
      using pieces_covers [OF _ v] w by (simp add: wf_extents_def)
    finally show ?thesis using w by (auto simp: extent_at_Some dest: extent_at_SomeD)
  qed
  show "extent_at ?s n = (if covers c n then Some (body c) else extent_at es n)"
  proof (cases "extent_at es n")
    case None
    then have "\<not> (\<exists>p \<in> set r. covers p n)" using sub by auto
    then show ?thesis
      using None ws extent_at_None_iff [of ?s n] by (auto intro: extent_at_Some)
  next
    case (Some b)
    show ?thesis
    proof (cases "covers c n")
      case True
      with ws show ?thesis by (simp add: extent_at_Some)
    next
      case False
      with Some sub obtain p where "p \<in> set r" "covers p n" "body p = b" by blast
      with ws False Some show ?thesis using extent_at_Some [OF ws, of p n] by simp
    qed
  qed
qed

lemma ApplyExtent_within32:
  assumes "wf_extents es" "extent_valid c" "ApplyExtent_loop c es = Inr r"
    "within32 es" "endN c < 4294967296"
  shows "within32 (sort_key StartLBA (r @ [c]))"
proof -
  have "endN p < 4294967296" if p: "p \<in> set r" for p
  proof -
    obtain e where e: "e \<in> set es" "p \<in> set (pieces c e)"
      using p ApplyExtent_loop_pieces [OF assms(3)] by auto
    then have "endN p \<le> endN e" using pieces_facts(3) assms(1,2) by (auto simp: wf_extents_def)
    also have "\<dots> < 4294967296" using e assms(4) by (simp add: within32_def)
    finally show ?thesis .
  qed
  with assms(5) show ?thesis by (simp add: within32_def)
qed

text \<open>When it succeeds and what the result is, as a point update of the abstract map.\<close>

theorem ApplyExtent_correct:
  assumes "wf_extents es" "within32 es" "extent_valid c" "endN c < 4294967296"
    "\<forall>e \<in> set es. Overlaps e c \<longrightarrow> replaceable e c"
  obtains r where "ApplyExtent es c = Inr r" "wf_extents r" "within32 r" "maximal r"
    "\<And>n. extent_at r n = (if covers c n then Some (body c) else extent_at es n)"
proof -
  obtain q where q: "ApplyExtent_loop c es = Inr q"
    using assms(5) ApplyExtent_loop_succeeds by blast
  let ?s = "sort_key StartLBA (q @ [c])"
  note s = ApplyExtent_sorted [OF assms(1,3) q] ApplyExtent_within32 [OF assms(1,3) q assms(2,4)]
  obtain r where r: "CoalesceExtents ?s = Inr r" "wf_extents r" "within32 r" "maximal r"
    "extent_at r = extent_at ?s"
    using CoalesceExtents_correct s(1,3) by blast
  have "ApplyExtent es c = Inr r"
    using assms(1,3) q r(1) by (simp add: ApplyExtent_def)
  moreover have "extent_at r n = (if covers c n then Some (body c) else extent_at es n)" for n
    using r(5) s(2) by simp
  ultimately show ?thesis using r(2-4) by (intro that)
qed

lemma ApplyExtent_InrD:
  assumes "ApplyExtent es c = Inr r"
  shows "extent_valid c" "wf_extents es" "\<forall>e \<in> set es. Overlaps e c \<longrightarrow> replaceable e c"
  using assms ApplyExtent_loop_succeeds [of c es]
  by (auto simp: ApplyExtent_def ValidateExtentSet_iff [symmetric] split: option.splits sum.splits)

section \<open>Insertion\<close>

lemma ApplyExtent_loop_no_overlap:
  "\<forall>e \<in> set es. \<not> Overlaps e c \<Longrightarrow> ApplyExtent_loop c es = Inr es"
  by (induction es) simp_all

lemma InsertExtent_loop_no_overlap:
  "InsertExtent_loop c i es = Inr r \<Longrightarrow> \<forall>e \<in> set es. \<not> Overlaps e c"
proof (induction es arbitrary: i r)
  case (Cons e es)
  from Cons.prems have no: "\<not> Overlaps e c" by (simp split: if_splits)
  with Cons.prems obtain j q where "InsertExtent_loop c j es = Inr q"
    by (simp split: if_splits sum.splits)
  with no Cons.IH show ?case by simp
qed simp

lemma wf_extents_sorted: "wf_extents es \<Longrightarrow> sorted (map StartLBA es)"
  by (induction es) (auto simp: word_le_nat_alt)

lemma InsertExtent_loop_inserted:
  "\<forall>e \<in> set es. \<not> Overlaps e c \<Longrightarrow> InsertExtent_loop c True es = Inr es"
  by (induction es) auto

lemma InsertExtent_loop_total:
  "\<forall>e \<in> set es. \<not> Overlaps e c \<Longrightarrow> \<exists>r. InsertExtent_loop c False es = Inr r"
  by (induction es) (auto simp: InsertExtent_loop_inserted)

lemma InsertExtent_loop_sorted:
  assumes "wf_extents es" "extent_valid c" "InsertExtent_loop c False es = Inr r"
  shows "mset r = mset es + {#c#} \<and> sorted (map StartLBA r)"
  using assms
proof (induction es arbitrary: r)
  case Nil
  then show ?case by auto
next
  case (Cons e es)
  note no = InsertExtent_loop_no_overlap [OF Cons.prems(3)]
  have ve: "extent_valid e" and we: "wf_extents es" and le: "\<And>x. x \<in> set es \<Longrightarrow> StartLBA e \<le> StartLBA x"
    using Cons.prems(1) by (auto simp: word_le_nat_alt)
  show ?case
  proof (cases "EndLBA c \<le> StartLBA e")
    case True
    then have r: "r = c # e # es"
      using no Cons.prems(3) by (simp add: InsertExtent_loop_inserted)
    have "startN c < endN c" "endN c \<le> startN e"
      using True Cons.prems(2) extent_valid_pos [of c] by (simp_all add: word_le_nat_alt)
    then have "StartLBA c \<le> StartLBA e" by (simp add: word_le_nat_alt)
    with le wf_extents_sorted [OF we] r show ?thesis by (auto intro: order_trans)
  next
    case False
    from False no Cons.prems(3) obtain q where q: "InsertExtent_loop c False es = Inr q" "r = e # q"
      by (auto split: sum.splits)
    from Cons.IH [OF we Cons.prems(2) q(1)]
    have ih: "mset q = mset es + {#c#}" "sorted (map StartLBA q)" by auto
    have "StartLBA e \<le> StartLBA c"
      using no False ve Cons.prems(2) extent_valid_pos [of e] extent_valid_pos [of c]
      by (auto simp: Overlaps_iff word_le_nat_alt)
    moreover have "set q = insert c (set es)" using ih(1) by (metis mset_eq_setD set_mset_mset set_mset_add_mset_insert add_mset_add_single)
    ultimately show ?thesis using ih le q(2) by auto
  qed
qed

lemma sort_key_unique:
  assumes "mset ys = mset xs" "sorted (map f ys)" "distinct (map f xs)"
  shows "sort_key f xs = ys"
proof (rule properties_for_sort_key [OF assms(1) _ assms(2)])
  have single: "filter (\<lambda>x. f k = f x) zs = [k]" if "distinct (map f zs)" "k \<in> set zs" for k zs
    using that by (induction zs) (fastforce simp: filter_empty_conv image_iff)+
  have "distinct (map f ys)" using assms(1,3) by (metis mset_map mset_eq_imp_distinct_iff)
  then show "filter (\<lambda>x. f k = f x) ys = filter (\<lambda>x. f k = f x) xs" if "k \<in> set ys" for k
    using that single assms(1,3) by (metis mset_eq_setD)
qed

lemma InsertExtent_eq_ApplyExtent:
  assumes "\<forall>e \<in> set es. \<not> Overlaps e c" "wf_extents es" "extent_valid c"
  shows "InsertExtent es c = ApplyExtent es c"
proof -
  obtain r where r: "InsertExtent_loop c False es = Inr r"
    using InsertExtent_loop_total assms(1) by blast
  have a: "ApplyExtent_loop c es = Inr es" using assms(1) by (rule ApplyExtent_loop_no_overlap)
  from InsertExtent_loop_sorted [OF assms(2,3) r]
  have "sort_key StartLBA (es @ [c]) = r"
    using ApplyExtent_loop_distinct [OF assms(2,3) a] by (intro sort_key_unique) simp_all
  with r a assms(2,3) show ?thesis by (simp add: InsertExtent_def ApplyExtent_def)
qed

lemma InsertExtent_overlap:
  "e \<in> set es \<Longrightarrow> Overlaps e c \<Longrightarrow> wf_extents es \<Longrightarrow> extent_valid c \<Longrightarrow> \<exists>er. InsertExtent es c = Inl er"
  by (cases "InsertExtent_loop c False es")
     (auto simp: InsertExtent_def dest: InsertExtent_loop_no_overlap)


section \<open>Lookup, splitting and byte offsets\<close>

lemma covers_iff_word:
  "extent_valid e \<Longrightarrow> covers e (unat lba) \<longleftrightarrow> lba \<ge> StartLBA e \<and> lba < EndLBA e"
  by (simp add: covers_def word_le_nat_alt word_less_nat_alt)

lemma LookupExtent_from_eq:
  "\<forall>e \<in> set es. extent_valid e \<Longrightarrow>
   map_option fst (LookupExtent_from i es lba) = find (\<lambda>e. covers e (unat lba)) es \<and>
   (\<forall>e j. LookupExtent_from i es lba = Some (e, j) \<longrightarrow> i \<le> j \<and> j - i < length es \<and> es ! (j - i) = e)"
proof (induction es arbitrary: i)
  case (Cons a es)
  from Cons.IH [of "Suc i"] Cons.prems show ?case
    by (auto simp: covers_iff_word nth_Cons' split: if_splits)
qed simp

lemma CheckedSectorByteOffset_Inr_iff:
  "CheckedSectorByteOffset lba ss = Inr v \<longleftrightarrow>
     ss \<noteq> 0 \<and> unat lba * unat ss < 2 ^ 64 \<and> unat v = unat lba * unat ss"
proof (cases "ss = 0")
  case True
  then show ?thesis by (simp add: CheckedSectorByteOffset_def)
next
  case False
  let ?s = "ucast ss :: u64"
  have p: "0 < unat ss" using False by (simp add: unat_gt_0)
  have m: "unat ((- 1 :: u64) div ?s) = 18446744073709551615 div unat ss"
    by (simp add: unat_div unsigned_minus_1_eq_mask mask_eq_exp_minus_1)
  have "lba > (- 1) div ?s \<longleftrightarrow> 18446744073709551615 div unat ss < unat lba"
    by (simp add: word_less_nat_alt m)
  also have "\<dots> \<longleftrightarrow> \<not> unat lba * unat ss < 18446744073709551616"
    using p by (simp add: div_less_iff_less_mult) arith
  finally have g: "lba > (- 1) div ?s \<longleftrightarrow> \<not> unat lba * unat ss < 18446744073709551616" .
  have u: "unat (lba * ?s) = unat lba * unat ss" if "unat lba * unat ss < 18446744073709551616"
    using that by (simp add: unat_word_ariths)
  show ?thesis
    using False g u by (auto simp: CheckedSectorByteOffset_def Let_def word_unat_eq_iff)
qed

lemma SplitExtent_Inr:
  assumes "SplitExtent e k = Inr (l, r)"
  shows "extent_valid e" "extent_valid l" "extent_valid r" "startN l = startN e" "endN l = unat k"
    "startN r = unat k" "endN r = endN e" "body l = body e" "body r = body e"
    "startN e < unat k" "unat k < endN e"
proof -
  from assms have v: "extent_valid e" and k: "StartLBA e < k" "k < EndLBA e"
    and l: "l = e\<lparr>Sectors := ucast (k - StartLBA e)\<rparr>"
    and r: "r = e\<lparr>StartLBA := k, Sectors := ucast (EndLBA e - k)\<rparr>"
    by (auto simp: SplitExtent_def split: option.splits if_splits)
  show "extent_valid e" by (rule v)
  show kn: "startN e < unat k" "unat k < endN e" using k v by (simp_all add: word_less_nat_alt)
  have "unat (Sectors e) < 4294967296" by simp
  with kn have lim: "unat k - startN e < 4294967296" "endN e - unat k < 4294967296" by linarith+
  have "unat (k - StartLBA e) = unat k - startN e" "unat (EndLBA e - k) = endN e - unat k"
    using k v by (simp_all add: unat_sub_le order.strict_implies_order)
  with lim have s: "unat (Sectors l) = unat k - startN e" "unat (Sectors r) = endN e - unat k"
    by (simp_all add: l r unat_ucast_64_32_small)
  show st: "startN l = startN e" "startN r = unat k" "body l = body e" "body r = body e"
    by (simp_all add: l r)
  show en: "endN l = unat k" "endN r = endN e" using s st kn by simp_all
  show "extent_valid l" "extent_valid r" using v s kn st en by (simp_all add: extent_valid_iff l r)
qed

end
