(* ===== verification/CodecFacts.thy ===== *)
theory CodecFacts
  imports MapCodec ExtentFacts
begin

text \<open>
  The contract of the recovery-map encodings as a locale (\<open>codec\<close>: decoding inverts
  encoding; \<open>fixed_codec\<close>: with a fixed width, so that values can be laid out one after the
  other), its consequences, and its interpretations for extents, headers and checkpoints; the
  corresponding facts for journal records, which are decoded from the front of a longer buffer.
\<close>

section \<open>The contract\<close>

locale codec =
  fixes enc :: "'a \<Rightarrow> bytes result"
    and dec :: "bytes \<Rightarrow> 'a result"
    and typed :: "'a \<Rightarrow> bool"
  assumes roundtrip: "typed x \<Longrightarrow> enc x = Inr bs \<Longrightarrow> dec bs = Inr x"
begin

lemma enc_inj: "typed x \<Longrightarrow> typed y \<Longrightarrow> enc x = Inr bs \<Longrightarrow> enc y = Inr bs \<Longrightarrow> x = y"
  using roundtrip [of x bs] roundtrip [of y bs] by simp

end

locale fixed_codec = codec +
  fixes width :: nat
  assumes enc_length: "typed x \<Longrightarrow> enc x = Inr bs \<Longrightarrow> length bs = width"
begin

text \<open>A value encoded somewhere in a buffer is decoded from the slice of its width.\<close>

lemma dec_slice:
  assumes "typed x" "enc x = Inr b"
  shows "dec (slice (length pre) (length pre + width) (pre @ b @ suf)) = Inr x"
  using roundtrip [OF assms] enc_length [OF assms] by (simp add: slice_def)

end

section \<open>Extents\<close>

lemma slice_prefix [simp]: "slice 0 j (xs @ ys) = (if j \<le> length xs then slice 0 j xs else xs @ take (j - length xs) ys)"
  by (simp add: slice_def)

lemma slice_all [simp]: "length xs = j \<Longrightarrow> slice 0 j xs = xs"
  by (simp add: slice_def)

lemma slice_skip [simp]: "length xs \<le> i \<Longrightarrow> slice i j (xs @ ys) = slice (i - length xs) (j - length xs) ys"
  by (simp add: slice_def)

lemma slice_skip1 [simp]: "0 < i \<Longrightarrow> slice i j (x # ys) = slice (i - 1) (j - 1) ys"
  by (cases i) (simp_all add: slice_def)

lemma slice_take1 [simp]: "slice 0 (Suc j) (x # ys) = x # slice 0 j ys" "slice i i ys = []"
  by (simp_all add: slice_def)

lemma slice_take_numeral [simp]:
  "slice 0 (numeral k) (x # ys) = x # slice 0 (numeral k - 1) ys"
  by (simp add: slice_def take_Cons')

lemma Extent_eta [simp]:
  "\<lparr>StartLBA = StartLBA e, Sectors = Sectors e, State = State e, Confidence = Confidence e,
    Attempts = Attempts e, CaptureID = CaptureID e, LastSenseKey = LastSenseKey e,
    LastASC = LastASC e, LastASCQ = LastASCQ e, DataHash = DataHash e\<rparr> = e"
  by (cases e) simp

lemma MarshalExtent_length:
  "extent_typed e \<Longrightarrow> MarshalExtent e = Inr bs \<Longrightarrow> length bs = extentEncodedBytes"
  by (auto simp: MarshalExtent_def extent_typed_def extentEncodedBytes_def split: option.splits)

lemma MarshalExtent_Inr: "MarshalExtent e = Inr bs \<Longrightarrow> extent_valid e"
  by (auto simp: MarshalExtent_def split: option.splits)

lemma MarshalExtent_total: "extent_valid e \<Longrightarrow> \<exists>bs. MarshalExtent e = Inr bs"
  by (auto simp: MarshalExtent_def)

lemma UnmarshalExtent_Marshal:
  assumes t: "extent_typed e" and m: "MarshalExtent e = Inr bs"
  shows "UnmarshalExtent bs = Inr e"
proof -
  have l: "length (DataHash e) = 16" using t by (simp add: extent_typed_def)
  have v: "Extent_Validate e = None" using m by (rule MarshalExtent_Inr)
  have bs: "bs = le_put 8 (StartLBA e) @ le_put 4 (Sectors e) @ [State e, Confidence e] @
           le_put 2 (Attempts e) @ le_put 4 (CaptureID e) @
           [LastSenseKey e, LastASC e, LastASCQ e] @ DataHash e"
    using m v by (simp add: MarshalExtent_def)
  have "length bs = extentEncodedBytes" using MarshalExtent_length [OF t m] .
  then show ?thesis using v l by (simp add: UnmarshalExtent_def bs Let_def nth_append)
qed

interpretation extent_codec: fixed_codec MarshalExtent UnmarshalExtent extent_typed extentEncodedBytes
  by unfold_locales (fact UnmarshalExtent_Marshal, fact MarshalExtent_length)

lemma UnmarshalExtent_valid: "UnmarshalExtent bs = Inr e \<Longrightarrow> extent_valid e \<and> extent_typed e"
  by (auto simp: UnmarshalExtent_def Let_def extent_typed_def extentEncodedBytes_def
      split: if_splits option.splits)

section \<open>Headers\<close>

lemma Header_eta [simp]:
  "\<lparr>LogicalSectorSize = LogicalSectorSize h, ExpectedSectorCount = ExpectedSectorCount h,
    OutputFormat = OutputFormat h, IdentityAlgorithmVersion = IdentityAlgorithmVersion h,
    LayoutSHA256 = LayoutSHA256 h, QuickContentIDPresent = QuickContentIDPresent h,
    QuickContentID = QuickContentID h, HdrCaptureID = HdrCaptureID h,
    CatalogRecordIDPresent = CatalogRecordIDPresent h, CatalogRecordID = CatalogRecordID h,
    JobID = JobID h, CreationUnixNano = CreationUnixNano h, CleanShutdown = CleanShutdown h\<rparr> = h"
  by (cases h) simp

lemma length_header_body: "header_typed h \<Longrightarrow> length (header_body h) = 131"
  by (simp add: header_body_def header_typed_def HeaderMagic_def)

lemma bool_byte_eq_1 [simp]: "bool_byte b = 1 \<longleftrightarrow> b"
  by (simp add: bool_byte_def)

lemma header_body_slices:
  assumes "header_typed h"
  shows "slice 0 4 (header_body h) = HeaderMagic"
    "slice 4 6 (header_body h) = le_put 2 FormatVersion"
    "slice 6 8 (header_body h) = le_put 2 (of_nat headerLength :: u16)"
    "slice 8 12 (header_body h) = le_put 4 (LogicalSectorSize h)"
    "slice 12 20 (header_body h) = le_put 8 (ExpectedSectorCount h)"
    "slice 20 22 (header_body h) = le_put 2 (OutputFormat h)"
    "slice 22 24 (header_body h) = le_put 2 (IdentityAlgorithmVersion h)"
    "slice 24 56 (header_body h) = LayoutSHA256 h"
    "header_body h ! 56 = bool_byte (QuickContentIDPresent h)"
    "slice 57 73 (header_body h) = QuickContentID h"
    "slice 73 89 (header_body h) = HdrCaptureID h"
    "header_body h ! 89 = bool_byte (CatalogRecordIDPresent h)"
    "slice 90 106 (header_body h) = CatalogRecordID h"
    "slice 106 122 (header_body h) = JobID h"
    "slice 122 130 (header_body h) = le_put 8 (CreationUnixNano h)"
    "header_body h ! 130 = bool_byte (CleanShutdown h)"
  using assms by (simp_all add: header_body_def header_typed_def HeaderMagic_def nth_append)

lemma slice_append_left: "j \<le> length xs \<Longrightarrow> slice i j (xs @ ys) = slice i j xs"
  by (simp add: slice_def)

lemma UnmarshalHeader_Marshal:
  assumes t: "header_typed h" and m: "MarshalHeader h = Inr bs"
  shows "UnmarshalHeader (bs @ rest) = Inr h"
proof -
  have v: "Header_Validate h = None"
    and bs: "bs = header_body h @ le_put 4 (crc32c (header_body h))"
    using m by (auto simp: MarshalHeader_def split: option.splits)
  have l: "length (header_body h) = 131" using t by (rule length_header_body)
  let ?bs = "header_body h @ le_put 4 (crc32c (header_body h)) @ rest"
  have s: "slice i j ?bs = slice i j (header_body h)" if "j \<le> 131" for i j
    using that l by (simp only: slice_append_left)
  have n: "?bs ! i = header_body h ! i" if "i < 131" for i
    using that l by (simp add: nth_append)
  have c: "slice 131 135 ?bs = le_put 4 (crc32c (header_body h))" "slice 0 131 ?bs = header_body h"
    using l by simp_all
  show ?thesis
    unfolding bs append_assoc UnmarshalHeader_def headerLength_def
    using v l by (simp add: s n c header_body_slices [OF t, unfolded headerLength_def] Let_def del: slice_skip slice_prefix)
qed

lemma MarshalHeader_length:
  "header_typed h \<Longrightarrow> MarshalHeader h = Inr bs \<Longrightarrow> length bs = headerLength"
  by (auto simp: MarshalHeader_def length_header_body headerLength_def split: option.splits)

interpretation header_codec: fixed_codec MarshalHeader UnmarshalHeader header_typed headerLength
  using UnmarshalHeader_Marshal [of _ _ "[]"] MarshalHeader_length by unfold_locales simp_all

section \<open>Checkpoints\<close>

definition checkpoint_typed :: "Checkpoint \<Rightarrow> bool" where
  "checkpoint_typed c \<longleftrightarrow> (\<forall>e \<in> set (Extents c). extent_typed e)"

lemma marshal_extents_length:
  "\<forall>e \<in> set es. extent_typed e \<Longrightarrow> marshal_extents es = Inr ex \<Longrightarrow> length ex = length es * extentEncodedBytes"
  by (induction es arbitrary: ex) (auto split: sum.splits dest: MarshalExtent_length)

lemma marshal_extents_total:
  "\<forall>e \<in> set es. extent_valid e \<Longrightarrow> \<exists>ex. marshal_extents es = Inr ex"
  by (induction es) (auto split: sum.splits dest: MarshalExtent_total)

lemma unmarshal_marshal_extents:
  "\<forall>e \<in> set es. extent_typed e \<Longrightarrow> marshal_extents es = Inr ex \<Longrightarrow>
   unmarshal_extents (length es) (length pre) (length pre + length ex) (pre @ ex @ suf) = Inr es"
proof (induction es arbitrary: ex pre)
  case (Cons e es)
  from Cons.prems(2) obtain b bs where b: "MarshalExtent e = Inr b" "marshal_extents es = Inr bs"
    "ex = b @ bs" by (auto split: sum.splits)
  have te: "extent_typed e" using Cons.prems(1) by simp
  have lb: "length b = extentEncodedBytes" using MarshalExtent_length [OF te b(1)] .
  from Cons.IH [OF _ b(2), of "pre @ b"] Cons.prems(1)
  have "unmarshal_extents (length es) (length (pre @ b)) (length (pre @ b) + length bs)
    ((pre @ b) @ bs @ suf) = Inr es" by simp
  with lb b(3) extent_codec.dec_slice [OF te b(1), of pre "bs @ suf"] show ?case
    by (simp add: add.assoc)
qed simp

lemma MarshalCheckpoint_Inr:
  assumes "MarshalCheckpoint c = Inr bs"
  shows "ValidateExtentSet (Extents c) = None" "length (Extents c) \<le> 1048576"
    "\<exists>ex. marshal_extents (Extents c) = Inr ex \<and>
       bs = checkpoint_prefix c (12 + length (Extents c) * extentEncodedBytes) @ ex @
         le_put 4 (crc32c (checkpoint_prefix c (12 + length (Extents c) * extentEncodedBytes) @ ex))"
  using assms by (auto simp: MarshalCheckpoint_def Let_def DefaultDecodeLimits_def
      split: option.splits if_splits sum.splits)

lemma length_checkpoint_prefix [simp]: "length (checkpoint_prefix c n) = 22"
  by (simp add: checkpoint_prefix_def checkpointMagic_def)

lemma checkpoint_prefix_slices:
  "slice 0 4 (checkpoint_prefix c n) = checkpointMagic"
  "slice 4 6 (checkpoint_prefix c n) = le_put 2 FormatVersion"
  "slice 6 10 (checkpoint_prefix c n) = le_put 4 (of_nat n :: u32)"
  "slice 10 18 (checkpoint_prefix c n) = le_put 8 (LastSequence c)"
  "slice 18 22 (checkpoint_prefix c n) = le_put 4 (of_nat (length (Extents c)) :: u32)"
  by (simp_all add: checkpoint_prefix_def checkpointMagic_def)

lemma unat_of_nat_u32: "n < 4294967296 \<Longrightarrow> unat (of_nat n :: u32) = n"
  by (simp add: unat_of_nat)

lemma unat_of_nat_u64: "n < 18446744073709551616 \<Longrightarrow> unat (of_nat n :: u64) = n"
  by (simp add: unat_of_nat)


lemma UnmarshalCheckpoint_Marshal:
  assumes t: "checkpoint_typed c" and m: "MarshalCheckpoint c = Inr bs"
  shows "UnmarshalCheckpoint bs = Inr c"
proof -
  let ?n = "length (Extents c)"
  let ?p = "checkpoint_prefix c (12 + ?n * extentEncodedBytes)"
  obtain ex where ex: "marshal_extents (Extents c) = Inr ex"
    and bs: "bs = ?p @ ex @ le_put 4 (crc32c (?p @ ex))"
    using MarshalCheckpoint_Inr(3) [OF m] by blast
  note v = MarshalCheckpoint_Inr(1,2) [OF m]
  have te: "\<forall>e \<in> set (Extents c). extent_typed e" using t by (simp add: checkpoint_typed_def)
  have lex: "length ex = ?n * 39"
    using marshal_extents_length [OF te ex] by (simp add: extentEncodedBytes_def)
  have lbs: "length bs = 26 + ?n * 39" by (simp add: bs lex)
  have small: "?n * 39 + 26 < 4294967296" using v(2) by simp
  have pre: "slice i j bs = slice i j ?p" if "j \<le> 22" for i j
    using that by (simp only: bs slice_append_left length_checkpoint_prefix)
  have pl: "unat (ucast (of_nat (12 + ?n * extentEncodedBytes) :: u32) :: u64) = 12 + ?n * 39"
    using small by (simp add: unat_of_nat_u32 extentEncodedBytes_def del: of_nat_add of_nat_mult)
  have cn: "unat (ucast (of_nat ?n :: u32) :: u64) = ?n"
    using small by (simp add: unat_of_nat_u32)
  have body: "slice 0 (length bs - 4) bs = ?p @ ex"
    using lex by (simp add: bs slice_def)
  have crc: "slice (length bs - 4) (length bs) bs = le_put 4 (crc32c (?p @ ex))"
    using lex by (simp add: bs slice_def)
  have exs: "unmarshal_extents ?n 22 (length bs - 4) bs = Inr (Extents c)"
    using unmarshal_marshal_extents [OF te ex, of ?p "le_put 4 (crc32c (?p @ ex))"] lex
    by (simp add: bs)
  let ?P = "ucast (of_nat (12 + ?n * extentEncodedBytes) :: u32) :: u64"
  let ?C = "ucast (of_nat ?n :: u32) :: u64"
  have P: "?P = 12 + ?C * of_nat extentEncodedBytes"
    using small pl cn
    by (simp add: word_unat_eq_iff unat_word_ariths extentEncodedBytes_def del: of_nat_add of_nat_mult)
  have tot: "of_nat (length bs) = 4 + 2 + 4 + 4 + ?P"
    using small pl lbs by (simp add: word_unat_eq_iff unat_word_ariths unat_of_nat_u64 del: of_nat_add of_nat_mult)
  have cmp: "\<not> ?P < 12" "\<not> 67108864 < ?P" "\<not> 1048576 < ?C" "\<not> 9223372036854775807 < ?C"
    using v(2) pl cn by (simp_all add: word_less_nat_alt del: of_nat_add of_nat_mult)
  have lim: "checkpointFixedPayloadBytes = 12" "MaxCheckpointPayloadBytes DefaultDecodeLimits = 67108864"
    "MaxCheckpointExtents DefaultDecodeLimits = 1048576" "\<not> length bs < 26"
    "\<not> (67108864 :: u64) < 12"
    using lbs by (simp_all add: checkpointFixedPayloadBytes_def DefaultDecodeLimits_def)
  have sl: "slice 0 4 bs = checkpointMagic" "slice 4 6 bs = le_put 2 FormatVersion"
    "slice 6 10 bs = le_put 4 (of_nat (12 + ?n * extentEncodedBytes) :: u32)"
    "slice 10 18 bs = le_put 8 (LastSequence c)" "slice 18 22 bs = le_put 4 (of_nat ?n :: u32)"
    by (simp_all only: pre checkpoint_prefix_slices order.refl numeral_le_iff semiring_norm)
  show ?thesis
    unfolding UnmarshalCheckpoint_def UnmarshalCheckpointWithLimits_def lim sl le_get_put_2 le_get_put_4
      le_get_put_8 Let_def body crc lim tot cn exs
    using cmp P v(1) exs lim(4) by simp
qed


lemma MarshalCheckpoint_length:
  "checkpoint_typed c \<Longrightarrow> MarshalCheckpoint c = Inr bs \<Longrightarrow>
     length bs = 26 + length (Extents c) * extentEncodedBytes"
  using MarshalCheckpoint_Inr(3) [of c bs] marshal_extents_length [of "Extents c"]
  by (auto simp: checkpoint_typed_def)

interpretation checkpoint_codec: codec MarshalCheckpoint UnmarshalCheckpoint checkpoint_typed
  by unfold_locales (fact UnmarshalCheckpoint_Marshal)

lemma unmarshal_extents_typed:
  "unmarshal_extents n off lim bs = Inr es \<Longrightarrow> \<forall>e \<in> set es. extent_typed e"
  by (induction n off lim bs arbitrary: es rule: unmarshal_extents.induct)
     (auto split: if_splits sum.splits dest: UnmarshalExtent_valid)

lemma UnmarshalCheckpoint_wf:
  "UnmarshalCheckpoint bs = Inr c \<Longrightarrow> wf_extents (Extents c) \<and> checkpoint_typed c"
  by (auto simp: UnmarshalCheckpoint_def UnmarshalCheckpointWithLimits_def Let_def checkpoint_typed_def
      ValidateExtentSet_iff [symmetric] split: if_splits sum.splits option.splits
      dest: unmarshal_extents_typed)

section \<open>Journal records\<close>

text \<open>
  The records a decoder can return: an extent exactly for extent-state records, which then carry
  no other payload, and one of the eleven known types.
\<close>

definition record_canonical :: "JournalRecord \<Rightarrow> bool" where
  "record_canonical r \<longleftrightarrow>
     (case RecExtent r of
        Some e \<Rightarrow> Type r = RecordExtentStateChanged \<and> Payload r = [] \<and> extent_typed e
      | None \<Rightarrow> Type r \<noteq> RecordExtentStateChanged) \<and>
     recordTypeCode (Type r) \<noteq> 0"

lemma decodeRecordType_code: "recordTypeCode t \<noteq> 0 \<Longrightarrow> decodeRecordType (recordTypeCode t) = Inr t"
  by (cases t) (simp_all add: decodeRecordType_def)

lemma decodeRecordType_Inr: "decodeRecordType k = Inr t \<Longrightarrow> recordTypeCode t = k \<and> k \<noteq> 0"
  by (auto simp: decodeRecordType_def split: if_splits)

lemma length_record_body [simp]: "length (record_body t s p) = 14 + length p"
  by (simp add: record_body_def)

lemma record_body_slices:
  "slice 0 2 (record_body t s p) = le_put 2 (recordTypeCode t)"
  "slice 2 10 (record_body t s p) = le_put 8 s"
  "slice 10 14 (record_body t s p) = le_put 4 (of_nat (length p) :: u32)"
  "slice 14 (14 + length p) (record_body t s p) = p"
  by (simp_all add: record_body_def)

lemma MarshalJournalRecord_Inr:
  assumes "MarshalJournalRecord r = Inr bs"
  obtains p where "payloadBytes r = Inr p" "length p \<le> maxJournalPayloadBytes" "Sequence r \<noteq> 0"
    "bs = record_body (Type r) (Sequence r) p @ le_put 4 (crc32c (record_body (Type r) (Sequence r) p))"
  using assms by (auto simp: MarshalJournalRecord_def JournalRecord_Validate_def Let_def
      split: option.splits sum.splits if_splits)

lemma MarshalJournalRecord_length:
  "MarshalJournalRecord r = Inr bs \<Longrightarrow> payloadBytes r = Inr p \<Longrightarrow> length bs = 18 + length p"
  by (auto elim!: MarshalJournalRecord_Inr)

text \<open>Decoding the body of a record that is followed by any bytes.\<close>

lemma UnmarshalJournalRecord_body:
  assumes l: "length p \<le> maxJournalPayloadBytes"
    and bs: "bs = record_body t s p @ le_put 4 c @ rest"
  shows "UnmarshalJournalRecord bs =
    (if c \<noteq> crc32c (record_body t s p)
     then Inl (Errorf ''unmarshal journal record: crc32c mismatch'')
     else case decodeRecordType (recordTypeCode t) of
       Inl er \<Rightarrow> Inl er
     | Inr recordType \<Rightarrow>
         if recordType = RecordExtentStateChanged then
           (case UnmarshalExtent p of
              Inl er \<Rightarrow> Inl er
            | Inr e \<Rightarrow>
                let r = \<lparr>Type = recordType, Sequence = s, RecExtent = Some e, Payload = []\<rparr> in
                (case JournalRecord_Validate r of Some er \<Rightarrow> Inl er | None \<Rightarrow> Inr (r, 18 + length p)))
         else
           let r = \<lparr>Type = recordType, Sequence = s, RecExtent = None, Payload = p\<rparr> in
           (case JournalRecord_Validate r of Some er \<Rightarrow> Inl er | None \<Rightarrow> Inr (r, 18 + length p)))"
proof -
  let ?b = "record_body t s p"
  have pre: "slice i j bs = slice i j ?b" if "j \<le> 14 + length p" for i j
    using that by (simp only: bs slice_append_left length_record_body)
  have n: "unat (of_nat (length p) :: u32) = length p"
    using l by (simp add: unat_of_nat_u32 maxJournalPayloadBytes_def)
  have pl: "unat (le_get (slice 10 14 bs) :: u32) = length p"
    using pre [of 14 10] by (simp add: record_body_slices n)
  have sl: "slice 0 2 bs = le_put 2 (recordTypeCode t)" "slice 2 10 bs = le_put 8 s"
    using pre [of 2 0] pre [of 10 2] by (simp_all add: record_body_slices)
  have tl: "2 + 8 + 4 + length p + 4 = 18 + length p" by simp
  have pay: "slice 14 (18 + length p - 4) bs = p"
    using pre [of "14 + length p" 14] record_body_slices(4) [of p t s] by simp
  have body: "slice 0 (18 + length p - 4) bs = ?b"
    using pre [of "14 + length p" 0] by simp
  have crc: "slice (18 + length p - 4) (18 + length p) bs = le_put 4 c"
    by (simp add: bs slice_def)
  have len: "\<not> length bs < 18" "\<not> length bs < 18 + length p" "\<not> length p > maxJournalPayloadBytes"
    using l by (simp_all add: bs)
  show ?thesis
    unfolding UnmarshalJournalRecord_def pl Let_def tl pay body crc sl le_get_put_2 le_get_put_4
      le_get_put_8 if_not_P [OF len(1)] if_not_P [OF len(2)] if_not_P [OF len(3)] ..
qed

lemma UnmarshalJournalRecord_Marshal:
  assumes c: "record_canonical r" and m: "MarshalJournalRecord r = Inr bs"
  shows "UnmarshalJournalRecord (bs @ rest) = Inr (r, length bs)"
proof -
  obtain p where p: "payloadBytes r = Inr p" "length p \<le> maxJournalPayloadBytes" "Sequence r \<noteq> 0"
    and bs: "bs = record_body (Type r) (Sequence r) p @ le_put 4 (crc32c (record_body (Type r) (Sequence r) p))"
    using m by (rule MarshalJournalRecord_Inr)
  have lb: "length bs = 18 + length p" using MarshalJournalRecord_length [OF m p(1)] .
  have v: "JournalRecord_Validate r = None"
    using p by (simp add: JournalRecord_Validate_def)
  have d: "decodeRecordType (recordTypeCode (Type r)) = Inr (Type r)"
    using c by (simp add: record_canonical_def decodeRecordType_code)
  let ?b = "record_body (Type r) (Sequence r) p"
  have "bs @ rest = ?b @ le_put 4 (crc32c ?b) @ rest" by (simp add: bs)
  note u = UnmarshalJournalRecord_body [OF p(2) this]
  show ?thesis
  proof (cases "RecExtent r")
    case None
    then have "Type r \<noteq> RecordExtentStateChanged" "p = Payload r"
      using c p(1) by (simp_all add: record_canonical_def payloadBytes_def)
    moreover have "\<lparr>Type = Type r, Sequence = Sequence r, RecExtent = None, Payload = Payload r\<rparr> = r"
      using None by (cases r) simp
    ultimately show ?thesis using u d v lb by simp
  next
    case (Some e)
    then have e: "Type r = RecordExtentStateChanged" "MarshalExtent e = Inr p" "extent_typed e" "Payload r = []"
      using c p(1) by (simp_all add: record_canonical_def payloadBytes_def)
    moreover have "\<lparr>Type = RecordExtentStateChanged, Sequence = Sequence r, RecExtent = Some e, Payload = []\<rparr> = r"
      using Some e by (cases r) simp
    ultimately show ?thesis using u d v lb extent_codec.roundtrip [OF e(3,2)] by simp
  qed
qed

lemma UnmarshalJournalRecord_consumed:
  "UnmarshalJournalRecord bs = Inr (r, k) \<Longrightarrow> 18 \<le> k \<and> k \<le> length bs"
  by (auto simp: UnmarshalJournalRecord_def Let_def split: if_splits sum.splits option.splits)

end
