(* ===== verification/Replay.thy ===== *)
theory Replay
  imports CodecFacts
begin

text \<open>
  Journal replay, \<^verbatim>\<open>internal/mapfile/replay.go\<close>: in memory
  (\<^verbatim>\<open>ReplayJournal\<close>) and from a stream (\<^verbatim>\<open>ReplayJournalReader\<close>). A stream
  is the bytes it still holds and the error it returns after them (\<^verbatim>\<open>io.EOF\<close> for a file
  that is read to its end).
\<close>

section \<open>Definitions\<close>

fun Replay :: "Checkpoint \<Rightarrow> JournalRecord list \<Rightarrow> Checkpoint" where
  "Replay next [] = next"
| "Replay next (r # rs) =
     (case RecExtent r of
        None \<Rightarrow> Replay (next\<lparr>LastSequence := Sequence r\<rparr>) rs
      | Some e \<Rightarrow> Replay (next\<lparr>LastSequence := Sequence r, Extents := Extents next @ [e]\<rparr>) rs)"

text \<open>What both replay loops do with a record whose sequence number is the expected one.\<close>

definition replay_record :: "Checkpoint \<Rightarrow> JournalRecord \<Rightarrow> Checkpoint result" where
  "replay_record next r =
     (case RecExtent r of
        Some e \<Rightarrow>
          if Type r = RecordExtentStateChanged then
            (case ApplyExtent (Extents next) e of
               Inl er \<Rightarrow> Inl er
             | Inr es \<Rightarrow> Inr (next\<lparr>LastSequence := Sequence r, Extents := es\<rparr>))
          else Inr (next\<lparr>LastSequence := Sequence r\<rparr>)
      | None \<Rightarrow> Inr (next\<lparr>LastSequence := Sequence r\<rparr>))"

text \<open>The final loop of both functions: a queued extent was never finished.\<close>

definition downgrade_queued :: "Checkpoint \<Rightarrow> Checkpoint" where
  "downgrade_queued c = c\<lparr>Extents :=
     map (\<lambda>e. if State e = SectorStateQueued
              then e\<lparr>State := SectorStateUnknown, Confidence := ConfidenceNone\<rparr> else e) (Extents c)\<rparr>"

function ReplayJournal_loop :: "Checkpoint \<Rightarrow> u64 \<Rightarrow> bytes \<Rightarrow> Checkpoint result" where
  "ReplayJournal_loop next expectedSequence journal =
     (if journal = [] then Inr next
      else case UnmarshalJournalRecord journal of
        Inl err \<Rightarrow> if errors_Is err ErrTruncatedRecord then Inr next else Inl err
      | Inr (r, consumed) \<Rightarrow>
          if Sequence r \<noteq> expectedSequence
          then Inl (Errorf ''replay journal: non-monotonic sequence'')
          else case replay_record next r of
            Inl er \<Rightarrow> Inl er
          | Inr next' \<Rightarrow> ReplayJournal_loop next' (expectedSequence + 1) (drop consumed journal))"
  by pat_completeness auto
termination
  by (relation "measure (\<lambda>(_, _, journal). length journal)")
     (auto dest!: UnmarshalJournalRecord_consumed)

declare ReplayJournal_loop.simps [simp del]

definition ReplayJournal :: "Checkpoint \<Rightarrow> bytes \<Rightarrow> Checkpoint result" where
  "ReplayJournal checkpoint journal =
     map_sum id downgrade_queued
       (ReplayJournal_loop checkpoint (LastSequence checkpoint + 1) journal)"

definition ReplayJournalWithinCapacity :: "Checkpoint \<Rightarrow> bytes \<Rightarrow> u64 \<Rightarrow> Checkpoint result" where
  "ReplayJournalWithinCapacity checkpoint journal expectedSectorCount =
     (case ReplayJournal checkpoint journal of
        Inl er \<Rightarrow> Inl er
      | Inr replayed \<Rightarrow>
          (case ValidateExtentSetWithinCapacity (Extents replayed) expectedSectorCount of
             Some er \<Rightarrow> Inl (Wrapf ''replay journal capacity'' er)
           | None \<Rightarrow> Inr replayed))"

type_synonym reader = "bytes \<times> error"

text \<open>\<^verbatim>\<open>io.ReadFull\<close> of a buffer of \<open>n > 0\<close> bytes: the bytes read with the error, or the
  full buffer and the reader after it.\<close>

definition ReadFull :: "nat \<Rightarrow> reader \<Rightarrow> (bytes \<times> error) + (bytes \<times> reader)" where
  "ReadFull n rd =
     (case rd of (data, err) \<Rightarrow>
        if n \<le> length data then Inr (take n data, (drop n data, err))
        else if err = ErrEOF then Inl (data, if data = [] then ErrEOF else ErrUnexpectedEOF)
        else Inl (data, err))"

function ReplayJournalReader_loop :: "Checkpoint \<Rightarrow> u64 \<Rightarrow> reader \<Rightarrow> Checkpoint result" where
  "ReplayJournalReader_loop next expectedSequence rd =
     (case ReadFull 14 rd of
        Inl (read, err) \<Rightarrow>
          if (errors_Is err ErrEOF \<and> read = []) \<or> errors_Is err ErrUnexpectedEOF then Inr next
          else Inl (Wrapf ''replay journal reader: read record header'' err)
      | Inr (header, rd1) \<Rightarrow>
          let payloadLength = unat (le_get (slice 10 14 header) :: u32) in
          if payloadLength > maxJournalPayloadBytes
          then Inl (Errorf ''replay journal reader: payload exceeds limit'')
          else case ReadFull (payloadLength + 4) rd1 of
            Inl (_, err) \<Rightarrow>
              if errors_Is err ErrEOF \<or> errors_Is err ErrUnexpectedEOF then Inr next
              else Inl (Wrapf ''replay journal reader: read record payload'' err)
          | Inr (rest, rd2) \<Rightarrow>
              (case UnmarshalJournalRecord (header @ rest) of
                 Inl err \<Rightarrow> Inl err
               | Inr (r, _) \<Rightarrow>
                   if Sequence r \<noteq> expectedSequence
                   then Inl (Errorf ''replay journal reader: non-monotonic sequence'')
                   else case replay_record next r of
                     Inl er \<Rightarrow> Inl er
                   | Inr next' \<Rightarrow> ReplayJournalReader_loop next' (expectedSequence + 1) rd2))"
  by pat_completeness auto
termination
  by (relation "measure (\<lambda>(_, _, rd). length (fst rd))")
     (auto simp: ReadFull_def split: prod.splits if_splits)

declare ReplayJournalReader_loop.simps [simp del]

text \<open>A missing reader is \<^verbatim>\<open>nil\<close>.\<close>

definition ReplayJournalReader :: "Checkpoint \<Rightarrow> reader option \<Rightarrow> Checkpoint result" where
  "ReplayJournalReader checkpoint rd =
     (case rd of
        None \<Rightarrow> Inl (Errorf ''replay journal reader: reader is required'')
      | Some r \<Rightarrow> map_sum id downgrade_queued
          (ReplayJournalReader_loop checkpoint (LastSequence checkpoint + 1) r))"

definition ReplayJournalReaderWithinCapacity ::
  "Checkpoint \<Rightarrow> reader option \<Rightarrow> u64 \<Rightarrow> Checkpoint result" where
  "ReplayJournalReaderWithinCapacity checkpoint rd expectedSectorCount =
     (case ReplayJournalReader checkpoint rd of
        Inl er \<Rightarrow> Inl er
      | Inr replayed \<Rightarrow>
          (case ValidateExtentSetWithinCapacity (Extents replayed) expectedSectorCount of
             Some er \<Rightarrow> Inl (Wrapf ''replay journal capacity'' er)
           | None \<Rightarrow> Inr replayed))"

section \<open>Journals written record by record\<close>

text \<open>The bytes of a sequence of records, and the state the records describe.\<close>

fun journal_bytes :: "JournalRecord list \<Rightarrow> bytes result" where
  "journal_bytes [] = Inr []"
| "journal_bytes (r # rs) =
     (case MarshalJournalRecord r of Inl er \<Rightarrow> Inl er
      | Inr b \<Rightarrow> (case journal_bytes rs of Inl er \<Rightarrow> Inl er | Inr bs \<Rightarrow> Inr (b @ bs)))"

fun numbered_from :: "u64 \<Rightarrow> JournalRecord list \<Rightarrow> bool" where
  "numbered_from s [] = True"
| "numbered_from s (r # rs) = (Sequence r = s \<and> record_canonical r \<and> numbered_from (s + 1) rs)"

fun apply_records :: "Checkpoint \<Rightarrow> JournalRecord list \<Rightarrow> Checkpoint result" where
  "apply_records c [] = Inr c"
| "apply_records c (r # rs) =
     (case replay_record c r of Inl er \<Rightarrow> Inl er | Inr c' \<Rightarrow> apply_records c' rs)"

text \<open>What a crash can leave of a record that was being appended.\<close>

definition torn :: "bytes \<Rightarrow> bool" where
  "torn t \<longleftrightarrow> t = [] \<or> (\<exists>r b k. MarshalJournalRecord r = Inr b \<and> k < length b \<and> t = take k b)"

lemma torn_truncated:
  assumes "MarshalJournalRecord r = Inr b" "k < length b"
  shows "UnmarshalJournalRecord (take k b) = Inl ErrTruncatedRecord"
proof (cases "k < 18")
  case True
  then show ?thesis by (simp add: UnmarshalJournalRecord_def min_less_iff_disj)
next
  case False
  obtain p where p: "length p \<le> maxJournalPayloadBytes"
    and b: "b = record_body (Type r) (Sequence r) p @ le_put 4 (crc32c (record_body (Type r) (Sequence r) p))"
    using assms(1) by (rule MarshalJournalRecord_Inr)
  have "slice 10 14 (take k b) = slice 10 14 b"
    using False by (simp add: slice_def drop_take min_def)
  also have "\<dots> = slice 10 14 (record_body (Type r) (Sequence r) p)"
    unfolding b by (rule slice_append_left) simp
  finally have "slice 10 14 (take k b) = le_put 4 (of_nat (length p) :: u32)"
    by (simp add: record_body_slices)
  then have "unat (le_get (slice 10 14 (take k b)) :: u32) = length p"
    using p by (simp add: unat_of_nat_u32 maxJournalPayloadBytes_def)
  moreover have "length (take k b) < 18 + length p" "\<not> length (take k b) < 18"
    using assms(2) False b by simp_all
  ultimately show ?thesis by (simp add: UnmarshalJournalRecord_def Let_def)
qed

lemma ReplayJournal_loop_torn:
  assumes "torn t"
  shows "ReplayJournal_loop c s t = Inr c"
  using assms torn_truncated
  by (auto simp: torn_def ReplayJournal_loop.simps [of c s t])

lemma ReplayJournal_loop_records:
  "numbered_from s rs \<Longrightarrow> journal_bytes rs = Inr j \<Longrightarrow> torn t \<Longrightarrow>
   ReplayJournal_loop c s (j @ t) = apply_records c rs"
proof (induction rs arbitrary: s j c)
  case Nil
  then show ?case by (simp add: ReplayJournal_loop_torn)
next
  case (Cons r rs)
  from Cons.prems(2) obtain b bs where b: "MarshalJournalRecord r = Inr b" "journal_bytes rs = Inr bs"
    "j = b @ bs" by (auto split: sum.splits)
  have c: "record_canonical r" "Sequence r = s" "numbered_from (s + 1) rs" using Cons.prems(1) by auto
  have "UnmarshalJournalRecord (b @ bs @ t) = Inr (r, length b)"
    using UnmarshalJournalRecord_Marshal [OF c(1) b(1)] .
  moreover have "b \<noteq> []" using UnmarshalJournalRecord_consumed [OF calculation] by auto
  ultimately show ?case
    using c b(3) Cons.IH [OF c(3) b(2) Cons.prems(3)]
    by (simp add: ReplayJournal_loop.simps [of c s "b @ bs @ t"] split: sum.split)
qed


section \<open>The stream reader\<close>

text \<open>The limit check that only the stream reader makes before it looks at the rest of a record.\<close>

abbreviation reader_limit_error :: error where
  "reader_limit_error \<equiv> Errorf ''replay journal reader: payload exceeds limit''"

lemma ReadFull_EOF:
  "ReadFull n (data, ErrEOF) =
     (if n \<le> length data then Inr (take n data, (drop n data, ErrEOF))
      else Inl (data, if data = [] then ErrEOF else ErrUnexpectedEOF))"
  by (simp add: ReadFull_def)

lemma slice_header: "10 \<le> j \<Longrightarrow> j \<le> 14 \<Longrightarrow> slice i j (take 14 bs) = slice i j bs"
  by (simp add: slice_def drop_take min_def)

text \<open>Decoding looks at the record only, not at what follows it.\<close>

lemma UnmarshalJournalRecord_take:
  assumes "payload = unat (le_get (slice 10 14 bs) :: u32)" "18 + payload \<le> length bs"
  shows "UnmarshalJournalRecord (take (18 + payload) bs) = UnmarshalJournalRecord bs"
proof -
  have s: "slice i j (take (18 + payload) bs) = slice i j bs" if "j \<le> 18 + payload" for i j
    using that by (simp add: slice_def drop_take min_def)
  have tl: "2 + 8 + 4 + payload + 4 = 18 + payload" by simp
  have l: "length (take (18 + payload) bs) = 18 + payload" using assms(2) by simp
  have sl: "slice 0 2 (take (18 + payload) bs) = slice 0 2 bs"
    "slice 2 10 (take (18 + payload) bs) = slice 2 10 bs"
    "slice 10 14 (take (18 + payload) bs) = slice 10 14 bs"
    "slice 14 (18 + payload - 4) (take (18 + payload) bs) = slice 14 (18 + payload - 4) bs"
    "slice (18 + payload - 4) (18 + payload) (take (18 + payload) bs) = slice (18 + payload - 4) (18 + payload) bs"
    "slice 0 (18 + payload - 4) (take (18 + payload) bs) = slice 0 (18 + payload - 4) bs"
    by (rule s; simp)+
  have b: "\<not> length bs < 18" "\<not> length bs < 18 + payload" "\<not> 18 + payload < 18" "\<not> 18 + payload < 18 + payload"
    using assms(2) by simp_all
  show ?thesis
    unfolding UnmarshalJournalRecord_def sl assms(1) [symmetric] Let_def l tl
      if_not_P [OF b(1)] if_not_P [OF b(2)] if_not_P [OF b(3)] if_not_P [OF b(4)] ..
qed

lemma UnmarshalJournalRecord_short:
  "length bs < 18 + unat (le_get (slice 10 14 bs) :: u32) \<Longrightarrow>
   UnmarshalJournalRecord bs = Inl ErrTruncatedRecord"
  by (simp add: UnmarshalJournalRecord_def Let_def)

lemma UnmarshalJournalRecord_Inr_total:
  "UnmarshalJournalRecord bs = Inr (r, k) \<Longrightarrow> k = 18 + unat (le_get (slice 10 14 bs) :: u32)"
  by (auto simp: UnmarshalJournalRecord_def Let_def split: if_splits sum.splits option.splits)

lemma UnmarshalExtent_not_truncated: "UnmarshalExtent bs = Inl er \<Longrightarrow> \<not> errors_Is er ErrTruncatedRecord"
  by (auto simp: UnmarshalExtent_def Let_def Extent_Validate_def CheckedEndLBA_def
      ValidateStateConfidence_def ValidateSectorState_def ValidateConfidence_def
      split: if_splits option.splits sum.splits)

lemma Extent_Validate_not_truncated:
  "Extent_Validate e = Some er \<Longrightarrow> \<not> errors_Is er ErrTruncatedRecord"
  by (auto simp: Extent_Validate_def CheckedEndLBA_def Let_def
      ValidateStateConfidence_def ValidateSectorState_def ValidateConfidence_def
      split: if_splits option.splits sum.splits)

lemma UnmarshalJournalRecord_full_not_truncated:
  assumes "UnmarshalJournalRecord bs = Inl er" "18 + unat (le_get (slice 10 14 bs) :: u32) \<le> length bs"
  shows "\<not> errors_Is er ErrTruncatedRecord"
  using assms UnmarshalExtent_not_truncated Extent_Validate_not_truncated
  by (auto simp: UnmarshalJournalRecord_def Let_def decodeRecordType_def JournalRecord_Validate_def
      payloadBytes_def MarshalExtent_def split: if_splits sum.splits option.splits)

text \<open>One step of the stream reader at a file's contents, in terms of the in-memory decoder.\<close>

lemma ReplayJournalReader_loop_step:
  "ReplayJournalReader_loop c s (j, ErrEOF) =
     (if length j < 14 then Inr c
      else if unat (le_get (slice 10 14 j) :: u32) > maxJournalPayloadBytes
      then Inl reader_limit_error
      else if length j < 18 + unat (le_get (slice 10 14 j) :: u32) then Inr c
      else case UnmarshalJournalRecord j of
        Inl err \<Rightarrow> Inl err
      | Inr (r, k) \<Rightarrow>
          if Sequence r \<noteq> s then Inl (Errorf ''replay journal reader: non-monotonic sequence'')
          else case replay_record c r of
            Inl er \<Rightarrow> Inl er
          | Inr c' \<Rightarrow> ReplayJournalReader_loop c' (s + 1) (drop k j, ErrEOF))"
proof -
  let ?p = "unat (le_get (slice 10 14 j) :: u32)"
  have t: "take 14 j @ take (?p + 4) (drop 14 j) = take (18 + ?p) j"
    by (simp add: take_add [symmetric] add.commute)
  have u: "UnmarshalJournalRecord (take (18 + ?p) j) = UnmarshalJournalRecord j" if "18 + ?p \<le> length j"
    using that by (intro UnmarshalJournalRecord_take) simp_all
  have k: "drop (?p + 4) (drop 14 j) = drop k j" if "UnmarshalJournalRecord j = Inr (r, k)" for r k
    using UnmarshalJournalRecord_Inr_total [OF that] by (simp add: add.commute)
  show ?thesis
    using u k
    by (auto simp: ReplayJournalReader_loop.simps [of c s "(j, ErrEOF)"] ReadFull_EOF slice_header t Let_def
        split: sum.splits prod.splits)
qed

lemma ReplayJournalReader_loop_agrees:
  "(\<forall>c'. ReplayJournalReader_loop c s (j, ErrEOF) = Inr c' \<longrightarrow> ReplayJournal_loop c s j = Inr c') \<and>
   (\<forall>c'. ReplayJournal_loop c s j = Inr c' \<longrightarrow>
      ReplayJournalReader_loop c s (j, ErrEOF) \<in> {Inr c', Inl reader_limit_error})"
proof (induction c s j rule: ReplayJournal_loop.induct)
  case (1 c s j)
  let ?p = "unat (le_get (slice 10 14 j) :: u32)"
  note steps = ReplayJournalReader_loop_step [of c s j] ReplayJournal_loop.simps [of c s j]
  show ?case
  proof (cases "length j < 18 + ?p")
    case True
    then have "UnmarshalJournalRecord j = Inl ErrTruncatedRecord" by (rule UnmarshalJournalRecord_short)
    with True show ?thesis using steps by (auto split: if_splits)
  next
    case False
    then have ne: "j \<noteq> []" "\<not> length j < 14" by auto
    show ?thesis
    proof (cases "UnmarshalJournalRecord j")
      case (Inl er)
      then have "\<not> errors_Is er ErrTruncatedRecord"
        using False UnmarshalJournalRecord_full_not_truncated by (simp add: not_less)
      with Inl ne False show ?thesis by (simp add: steps)
    next
      case (Inr rk)
      then obtain r k where rk: "UnmarshalJournalRecord j = Inr (r, k)" by (cases rk) auto
      then have "?p \<le> maxJournalPayloadBytes"
        by (auto simp: UnmarshalJournalRecord_def Let_def split: if_splits)
      show ?thesis
      proof (cases "Sequence r = s")
        case False
        with rk ne \<open>\<not> length j < 18 + ?p\<close> \<open>?p \<le> maxJournalPayloadBytes\<close> show ?thesis by (simp add: steps)
      next
        case seq: True
        show ?thesis
        proof (cases "replay_record c r")
          case Inl
          with rk ne seq False \<open>?p \<le> maxJournalPayloadBytes\<close> show ?thesis by (simp add: steps)
        next
          case (Inr c1)
          from "1.IH" [OF ne(1) rk refl _ Inr] seq rk ne Inr False \<open>?p \<le> maxJournalPayloadBytes\<close>
          show ?thesis by (simp add: steps)
        qed
      qed
    qed
  qed
qed

end
