(* ===== verification/ExtentProps.thy ===== *)
theory ExtentProps
  imports ExtentFacts
begin

text \<open>
  The properties of the extent sets of \<^verbatim>\<open>internal/mapfile\<close>, each with a concrete
  instance where it has hypotheses. \<open>plain_extent\<close> builds the concrete extents.
\<close>

definition plain_extent :: "u64 \<Rightarrow> u32 \<Rightarrow> SectorState \<Rightarrow> Confidence_t \<Rightarrow> u16 \<Rightarrow> Extent" where
  "plain_extent s n st cf a = Extent_zero\<lparr>StartLBA := s, Sectors := n, State := st,
     Confidence := cf, Attempts := a\<rparr>"

lemmas concrete = plain_extent_def Extent_zero_def covers_def within32_def

lemma ApplyExtent_result:
  assumes "ApplyExtent es c = Inr r" "within32 es" "endN c < 4294967296"
  shows "wf_extents r" "within32 r" "maximal r"
    "extent_at r n = (if covers c n then Some (body c) else extent_at es n)"
proof -
  note d = ApplyExtent_InrD [OF assms(1)]
  obtain q where "ApplyExtent es c = Inr q" "wf_extents q" "within32 q" "maximal q"
    "\<And>n. extent_at q n = (if covers c n then Some (body c) else extent_at es n)"
    using ApplyExtent_correct [OF d(2) assms(2) d(1) assms(3) d(3)] by blast
  with assms(1) show "wf_extents r" "within32 r" "maximal r"
    "extent_at r n = (if covers c n then Some (body c) else extent_at es n)" by simp_all
qed

lemma covers_both_Overlaps:
  "extent_valid a \<Longrightarrow> extent_valid b \<Longrightarrow> covers a n \<Longrightarrow> covers b n \<Longrightarrow> Overlaps a b"
  by (auto simp: Overlaps_iff covers_def)

text \<open>
  C11: A successful \<^verbatim>\<open>ApplyExtent\<close> is a range update of the recovery map: every sector
  of the candidate gets the candidate's attributes, every other sector keeps what was recorded,
  and the result is again sorted, disjoint, valid and fully coalesced.
\<close>

theorem apply_extent_updates_range:
  assumes "ApplyExtent es c = Inr r" "within32 es" "endN c < 4294967296"
  shows "wf_extents r \<and> within32 r \<and> maximal r \<and>
    (\<forall>n. extent_at r n = (if covers c n then Some (body c) else extent_at es n))"
  using ApplyExtent_result [OF assms] by blast

theorem apply_extent_updates_range_witness:
  "wf_extents [plain_extent 0 4 5 0 1, plain_extent 4 2 2 1 2, plain_extent 6 4 5 0 1] \<and>
   extent_at [plain_extent 0 4 5 0 1, plain_extent 4 2 2 1 2, plain_extent 6 4 5 0 1] 5
     = Some (body (plain_extent 4 2 2 1 2))"
proof -
  have a: "ApplyExtent [plain_extent 0 10 5 0 1] (plain_extent 4 2 2 1 2)
    = Inr [plain_extent 0 4 5 0 1, plain_extent 4 2 2 1 2, plain_extent 6 4 5 0 1]" by code_simp
  have w: "within32 [plain_extent 0 10 5 0 1]" "endN (plain_extent 4 2 2 1 2) < 4294967296"
    "covers (plain_extent 4 2 2 1 2) 5" by (simp_all add: concrete)
  from apply_extent_updates_range [OF a w(1,2)] w(3) show ?thesis by simp
qed

text \<open>
  \<^verbatim>\<open>ApplyExtent\<close> accepts a candidate exactly when it is a valid extent, the set
  is valid, and for each extent it overlaps the attempts do not go back and the transition of
  state and confidence is allowed; in every other case it returns an error.
\<close>

theorem apply_extent_accepts_iff:
  assumes "within32 es" "endN c < 4294967296"
  shows "(\<exists>r. ApplyExtent es c = Inr r) \<longleftrightarrow>
    Extent_Validate c = None \<and> ValidateExtentSet es = None \<and>
    (\<forall>e \<in> set es. Overlaps e c \<longrightarrow> Attempts e \<le> Attempts c \<and>
       ValidateTransition (State e) (Confidence e) (State c) (Confidence c) = None)"
proof
  assume "\<exists>r. ApplyExtent es c = Inr r"
  then show "Extent_Validate c = None \<and> ValidateExtentSet es = None \<and>
    (\<forall>e \<in> set es. Overlaps e c \<longrightarrow> Attempts e \<le> Attempts c \<and>
       ValidateTransition (State e) (Confidence e) (State c) (Confidence c) = None)"
    using ApplyExtent_InrD by (auto simp: replaceable_def)
next
  assume a: "Extent_Validate c = None \<and> ValidateExtentSet es = None \<and>
    (\<forall>e \<in> set es. Overlaps e c \<longrightarrow> Attempts e \<le> Attempts c \<and>
       ValidateTransition (State e) (Confidence e) (State c) (Confidence c) = None)"
  have "\<forall>e \<in> set es. Overlaps e c \<longrightarrow> replaceable e c" using a by (simp add: replaceable_def)
  then show "\<exists>r. ApplyExtent es c = Inr r"
    using ApplyExtent_correct [of es c] assms a by (metis ValidateExtentSet_iff)
qed

theorem apply_extent_accepts_iff_witness:
  "\<not> (\<exists>r. ApplyExtent [plain_extent 0 4 3 4 2] (plain_extent 2 1 2 1 3) = Inr r)"
proof -
  have w: "within32 [plain_extent 0 4 3 4 2]" "endN (plain_extent 2 1 2 1 3) < 4294967296"
    by (simp_all add: concrete)
  have "\<not> (\<forall>e \<in> set [plain_extent 0 4 3 4 2]. Overlaps e (plain_extent 2 1 2 1 3) \<longrightarrow>
      Attempts e \<le> Attempts (plain_extent 2 1 2 1 3) \<and>
      ValidateTransition (State e) (Confidence e) (State (plain_extent 2 1 2 1 3))
        (Confidence (plain_extent 2 1 2 1 3)) = None)" by code_simp
  with apply_extent_accepts_iff [OF w] show ?thesis by blast
qed

lemma ValidateTransition_claims:
  "ValidateTransition cs cc ns nc = None \<Longrightarrow> stateClaimsImageData cs \<Longrightarrow> stateClaimsImageData ns"
  by (auto simp: ValidateTransition_def split: option.splits if_splits)

lemma ApplyExtent_keeps_claims:
  assumes "ApplyExtent es c = Inr r" "within32 es" "endN c < 4294967296"
    and "extent_at es n = Some b"
  shows "\<exists>b'. extent_at r n = Some b' \<and> Attempts b \<le> Attempts b' \<and>
    (stateClaimsImageData (State b) \<longrightarrow> stateClaimsImageData (State b'))"
proof (cases "covers c n")
  case False
  with ApplyExtent_result(4) [OF assms(1-3)] assms(4) show ?thesis by simp
next
  case True
  note d = ApplyExtent_InrD [OF assms(1)]
  from assms(4) obtain e where e: "e \<in> set es" "covers e n" "b = body e"
    by (auto dest: extent_at_SomeD)
  then have "Overlaps e c" using True d(1,2) covers_both_Overlaps by (auto simp: wf_extents_def)
  then have "replaceable e c" using d(3) e(1) by blast
  with True ApplyExtent_result(4) [OF assms(1-3)] e(3) show ?thesis
    by (auto simp: replaceable_def dest: ValidateTransition_claims)
qed

text \<open>
  C14: No update of the map loses recovered data or forgets work: a sector whose recorded state
  claims image data still claims image data afterwards, and the attempts recorded for a sector
  never decrease.
\<close>

theorem apply_extent_keeps_recovered:
  assumes "ApplyExtent es c = Inr r" "within32 es" "endN c < 4294967296"
    and "extent_at es n = Some b"
  shows "\<exists>b'. extent_at r n = Some b' \<and> Attempts b \<le> Attempts b' \<and>
    (stateClaimsImageData (State b) \<longrightarrow> stateClaimsImageData (State b'))"
  using assms by (rule ApplyExtent_keeps_claims)

theorem apply_extent_keeps_recovered_witness:
  "\<exists>b'. extent_at [plain_extent 0 10 3 2 4] 3 = Some b' \<and> 1 \<le> Attempts b' \<and>
    (stateClaimsImageData 2 \<longrightarrow> stateClaimsImageData (State b'))"
proof -
  have a: "ApplyExtent [plain_extent 2 4 2 1 1] (plain_extent 0 10 3 2 4) = Inr [plain_extent 0 10 3 2 4]"
    by code_simp
  have w: "within32 [plain_extent 2 4 2 1 1]" "endN (plain_extent 0 10 3 2 4) < 4294967296"
    "extent_at [plain_extent 2 4 2 1 1] 3 = Some (body (plain_extent 2 4 2 1 1))" by (simp_all add: concrete)
  from apply_extent_keeps_recovered [OF a w] show ?thesis by (simp add: plain_extent_def)
qed

lemma confidence_cases:
  fixes c :: u8
  assumes "\<not> c < 2" "\<not> 4 < c"
  shows "c = 2 \<or> c = 3 \<or> c = 4"
proof -
  have "2 \<le> unat c" "unat c \<le> 4" using assms by (simp_all add: word_less_nat_alt)
  then consider "unat c = 2" | "unat c = 3" | "unat c = 4" by linarith
  then show ?thesis by cases (simp_all add: word_unat_eq_iff)
qed

text \<open>
  Trust only grows. A reconstructed sector can only stay reconstructed, and a verified sector
  only moves to verified with no less confidence, to reconstructed, or to one of the two
  states that record a doubt about existing data (checksum error, conflicting).
\<close>

theorem transition_trust_order:
  assumes "ValidateTransition cs cc ns nc = None"
  shows "(cs = SectorStateReconstructed \<longrightarrow> ns = SectorStateReconstructed \<and> nc = cc) \<and>
    (cs = SectorStateVerified \<longrightarrow>
       ns = SectorStateVerified \<and> cc \<le> nc \<or>
       ns \<in> {SectorStateReconstructed, SectorStateChecksumError, SectorStateConflicting})"
proof -
  have n: "ValidateStateConfidence ns nc = None" and c: "ValidateStateConfidence cs cc = None"
    using assms by (auto simp: ValidateTransition_def split: option.splits)
  have "ns = SectorStateReconstructed \<and> nc = cc" if r: "cs = SectorStateReconstructed"
  proof -
    have cc: "cc = 5" using c r by (simp add: ValidateStateConfidence_def split: option.splits if_splits)
    have "\<not> nc < 5" using assms r cc by (auto simp: ValidateTransition_def split: option.splits if_splits)
    moreover have "\<not> nc > 5" using n
      by (auto simp: ValidateStateConfidence_def ValidateConfidence_def split: option.splits if_splits)
    ultimately have nc: "nc = 5" by (simp add: not_less)
    then have "ns = SectorStateReconstructed"
      using n assms r by (auto simp: ValidateStateConfidence_def ValidateTransition_def
          stateClaimsImageData_def split: option.splits if_splits)
    with nc cc show ?thesis by simp
  qed
  moreover have "ns = SectorStateVerified \<and> cc \<le> nc \<or>
      ns \<in> {SectorStateReconstructed, SectorStateChecksumError, SectorStateConflicting}"
    if "cs = SectorStateVerified"
    using that assms by (auto simp: ValidateTransition_def stateClaimsImageData_def not_less
        split: option.splits if_splits)
  ultimately show ?thesis by blast
qed

theorem transition_trust_order_witness:
  "ValidateTransition SectorStateVerified 3 SectorStateVerified 4 = None \<and> (3 :: u8) \<le> 4"
proof -
  have "ValidateTransition SectorStateVerified 3 SectorStateVerified 4 = None" by code_simp
  from this transition_trust_order [OF this] show ?thesis by simp
qed

text \<open>
  Coalescing keeps the map: on a valid set whose sectors lie below \<open>2 ^ 32\<close> it
  succeeds, merges every mergeable pair of neighbours and changes no sector's attributes.
\<close>

theorem coalesce_keeps_map:
  assumes "ValidateExtentSet es = None" "within32 es"
  shows "\<exists>r. CoalesceExtents es = Inr r \<and> ValidateExtentSet r = None \<and> maximal r \<and>
    extent_at r = extent_at es"
proof -
  from assms(1) have "wf_extents es" by (simp add: ValidateExtentSet_iff)
  from CoalesceExtents_correct [OF this assms(2)] show ?thesis by (metis ValidateExtentSet_iff)
qed

theorem coalesce_keeps_map_witness:
  "\<exists>r. CoalesceExtents [plain_extent 0 4 4 0 1, plain_extent 4 4 4 0 1] = Inr r \<and>
     ValidateExtentSet r = None \<and> maximal r \<and>
     extent_at r = extent_at [plain_extent 0 4 4 0 1, plain_extent 4 4 4 0 1]"
proof -
  have v: "ValidateExtentSet [plain_extent 0 4 4 0 1, plain_extent 4 4 4 0 1] = None" by code_simp
  have w: "within32 [plain_extent 0 4 4 0 1, plain_extent 4 4 4 0 1]" by (simp add: concrete)
  from coalesce_keeps_map [OF v w] show ?thesis .
qed

text \<open>
  The bound on the sector count is needed when coalescing. \<^verbatim>\<open>MergeAdjacent\<close> adds two 32-bit sector counts
  without a check: two valid neighbours of \<open>2 ^ 31\<close> sectors coalesce, without an error, into
  an extent of no sectors, and everything the map recorded about them is gone.
\<close>

theorem coalesce_count_wraps:
  "ValidateExtentSet [plain_extent 0 2147483648 2 1 1, plain_extent 2147483648 2147483648 2 1 1] = None \<and>
   CoalesceExtents [plain_extent 0 2147483648 2 1 1, plain_extent 2147483648 2147483648 2 1 1]
     = Inr [plain_extent 0 0 2 1 1] \<and>
   ValidateExtentSet [plain_extent 0 0 2 1 1] \<noteq> None \<and>
   extent_at [plain_extent 0 0 2 1 1] 0 = None"
  by (intro conjI; code_simp)

text \<open>
  \<^verbatim>\<open>InsertExtent\<close> is \<^verbatim>\<open>ApplyExtent\<close> restricted to free space: it
  fails when the candidate overlaps an extent of the set, and otherwise returns what
  \<^verbatim>\<open>ApplyExtent\<close> returns.
\<close>

theorem insert_extent_agrees:
  assumes "ValidateExtentSet es = None" "Extent_Validate c = None"
  shows "if list_ex (\<lambda>e. Overlaps e c) es then \<exists>er. InsertExtent es c = Inl er
    else InsertExtent es c = ApplyExtent es c"
  using assms InsertExtent_overlap [of _ es c] InsertExtent_eq_ApplyExtent [of es c]
  by (auto simp: ValidateExtentSet_iff list_ex_iff)

theorem insert_extent_agrees_witness:
  "InsertExtent [plain_extent 8 4 4 0 1] (plain_extent 0 4 4 0 1)
     = ApplyExtent [plain_extent 8 4 4 0 1] (plain_extent 0 4 4 0 1)"
proof -
  have h: "ValidateExtentSet [plain_extent 8 4 4 0 1] = None" "Extent_Validate (plain_extent 0 4 4 0 1) = None"
    "\<not> list_ex (\<lambda>e. Overlaps e (plain_extent 0 4 4 0 1)) [plain_extent 8 4 4 0 1]" by code_simp+
  from insert_extent_agrees [OF h(1,2)] h(3) show ?thesis by simp
qed

text \<open>
  Lookup is the abstract map: on a valid set \<^verbatim>\<open>LookupExtent\<close> finds an extent for
  a sector exactly when the map records something for it, and the extent found carries those
  attributes, sits at the index returned and covers the sector.
\<close>

theorem lookup_matches_map:
  assumes "ValidateExtentSet es = None"
  shows "map_option (\<lambda>(e, i). body e) (LookupExtent es lba) = extent_at es (unat lba) \<and>
    (\<forall>e i. LookupExtent es lba = Some (e, i) \<longrightarrow>
       i < length es \<and> es ! i = e \<and> StartLBA e \<le> lba \<and> lba < EndLBA e)"
proof -
  have v: "\<forall>e \<in> set es. extent_valid e" using assms by (simp add: ValidateExtentSet_iff wf_extents_def)
  note l = LookupExtent_from_eq [OF v, of 0 lba]
  have "StartLBA e \<le> lba \<and> lba < EndLBA e" if "LookupExtent es lba = Some (e, i)" for e i
  proof -
    have "find (\<lambda>e. covers e (unat lba)) es = Some e" using l that by (auto simp: LookupExtent_def)
    then have "e \<in> set es" "covers e (unat lba)" by (auto simp: find_Some_iff)
    with v covers_iff_word show ?thesis by blast
  qed
  moreover have "map_option (\<lambda>(e, i). body e) (LookupExtent es lba) = map_option body
      (map_option fst (LookupExtent es lba))" by (simp add: option.map_comp comp_def case_prod_unfold)
  ultimately show ?thesis using l by (auto simp: LookupExtent_def extent_at_def)
qed

theorem lookup_matches_map_witness:
  "map_option (\<lambda>(e, i). body e) (LookupExtent [plain_extent 0 4 4 0 1, plain_extent 6 4 2 1 1] 7)
     = extent_at [plain_extent 0 4 4 0 1, plain_extent 6 4 2 1 1] 7"
proof -
  have "ValidateExtentSet [plain_extent 0 4 4 0 1, plain_extent 6 4 2 1 1] = None" by code_simp
  from lookup_matches_map [OF this, of 7] show ?thesis by simp
qed

text \<open>
  Splitting and merging are inverse: an extent of a valid split can be merged back into the
  extent that was split.
\<close>

theorem split_merge_roundtrip:
  assumes "SplitExtent e k = Inr (l, r)"
  shows "MergeAdjacent l r = Inr e"
proof -
  note s = SplitExtent_Inr [OF assms]
  have "EndLBA l = StartLBA r" using s by (simp add: word_unat_eq_iff)
  then have "CanMergeAdjacent l r" using s by (simp add: CanMergeAdjacent_iff)
  moreover have "l\<lparr>Sectors := Sectors l + Sectors r\<rparr> = e"
  proof -
    have "unat (Sectors l) + unat (Sectors r) = unat (Sectors e)" using s by linarith
    then have "unat (Sectors l + Sectors r) = unat (Sectors e)" by (subst unat_add_le) simp_all
    then have "Sectors l + Sectors r = Sectors e" by (simp add: word_unat_eq_iff)
    moreover have "StartLBA l = StartLBA e" using s by (simp add: word_unat_eq_iff)
    ultimately show ?thesis using s(8) by (cases l; cases e) (simp add: body_def)
  qed
  ultimately show ?thesis using s by (simp add: MergeAdjacent_Inr_iff)
qed

theorem split_merge_roundtrip_witness:
  "MergeAdjacent (plain_extent 0 3 4 0 1) (plain_extent 3 5 4 0 1) = Inr (plain_extent 0 8 4 0 1)"
proof -
  have "SplitExtent (plain_extent 0 8 4 0 1) 3 = Inr (plain_extent 0 3 4 0 1, plain_extent 3 5 4 0 1)"
    by code_simp
  from split_merge_roundtrip [OF this] show ?thesis .
qed

lemma ValidateCapacity_loop_iff:
  "ValidateCapacity_loop n es = None \<longleftrightarrow>
     list_all (\<lambda>e. endN e < 18446744073709551616 \<and> StartLBA e < n \<and> endN e \<le> unat n) es"
proof (induction es)
  case (Cons e es)
  show ?case
  proof (cases "endN e < 18446744073709551616")
    case True
    then have "CheckedEndLBA e = Inr (EndLBA e)" by (simp add: CheckedEndLBA_Inr_iff)
    with Cons True show ?thesis by (auto simp: word_le_nat_alt word_less_nat_alt unat_EndLBA not_le not_less)
  next
    case False
    then have "\<nexists>b. CheckedEndLBA e = Inr b" by (simp add: CheckedEndLBA_Inr_iff)
    then obtain er where "CheckedEndLBA e = Inl er" by (cases "CheckedEndLBA e") auto
    with False show ?thesis by simp
  qed
qed simp

text \<open>
  The checked conversion from a sector position to a byte offset returns the exact product
  and fails exactly when the sector size is zero or the product does not fit 64 bits.
\<close>

theorem byte_offset_exact:
  "CheckedSectorByteOffset lba ss = Inr v \<longleftrightarrow>
     ss \<noteq> 0 \<and> unat lba * unat ss < 2 ^ 64 \<and> unat v = unat lba * unat ss"
  by (rule CheckedSectorByteOffset_Inr_iff)

text \<open>
  The capacity check accepts exactly the valid sets all of whose sectors lie on the medium.
\<close>

theorem capacity_check_exact:
  "ValidateExtentSetWithinCapacity es n = None \<longleftrightarrow>
     n \<noteq> 0 \<and> ValidateExtentSet es = None \<and> list_all (\<lambda>e. endN e \<le> unat n) es"
proof -
  have "list_all (\<lambda>e. endN e < 18446744073709551616 \<and> StartLBA e < n \<and> endN e \<le> unat n) es =
      list_all (\<lambda>e. endN e \<le> unat n) es" if "ValidateExtentSet es = None"
  proof -
    have "\<forall>e \<in> set es. extent_valid e" using that by (simp add: ValidateExtentSet_iff wf_extents_def)
    then show ?thesis
      by (fastforce simp: list_all_iff extent_valid_iff word_less_nat_alt)
  qed
  then show ?thesis
    by (auto simp: ValidateExtentSetWithinCapacity_def ValidateCapacity_loop_iff split: option.splits)
qed

end
