(* ===== verification/MapProps.thy ===== *)
theory MapProps
  imports Replay ExtentProps
begin

text \<open>
  The properties of the recovery-map file format and of journal replay.
\<close>

section \<open>Encodings\<close>

definition sample_header :: Header where
  "sample_header = \<lparr>LogicalSectorSize = 2048, ExpectedSectorCount = 100, OutputFormat = 1,
     IdentityAlgorithmVersion = 1, LayoutSHA256 = replicate 32 7, QuickContentIDPresent = True,
     QuickContentID = replicate 16 9, HdrCaptureID = replicate 16 1, CatalogRecordIDPresent = False,
     CatalogRecordID = replicate 16 0, JobID = replicate 16 2, CreationUnixNano = 5,
     CleanShutdown = True\<rparr>"

text \<open>
  Every header the store accepts is written as exactly 135 bytes, and reading them back, with
  whatever follows in the file, gives the same header.
\<close>

theorem header_roundtrip:
  assumes "header_typed h" "Header_Validate h = None"
  shows "\<exists>bs. MarshalHeader h = Inr bs \<and> length bs = headerLength \<and>
    (\<forall>rest. UnmarshalHeader (bs @ rest) = Inr h)"
proof -
  obtain bs where "MarshalHeader h = Inr bs" using assms(2) by (simp add: MarshalHeader_def)
  with assms(1) header_codec.enc_length UnmarshalHeader_Marshal show ?thesis by blast
qed

theorem header_roundtrip_witness:
  "\<exists>bs. MarshalHeader sample_header = Inr bs \<and> length bs = headerLength \<and>
    (\<forall>rest. UnmarshalHeader (bs @ rest) = Inr sample_header)"
  by (rule header_roundtrip) (simp_all add: sample_header_def header_typed_def Header_Validate_def)

text \<open>
  Every valid checkpoint within the extent limit can be written, and reading it back gives the
  same sequence number and the same extents.
\<close>

theorem checkpoint_roundtrip:
  assumes "checkpoint_typed c" "ValidateExtentSet (Extents c) = None" "length (Extents c) \<le> 1048576"
  shows "\<exists>bs. MarshalCheckpoint c = Inr bs \<and> UnmarshalCheckpoint bs = Inr c"
proof -
  have "\<forall>e \<in> set (Extents c). extent_valid e"
    using assms(2) by (simp add: ValidateExtentSet_iff wf_extents_def)
  then obtain ex where "marshal_extents (Extents c) = Inr ex" using marshal_extents_total by blast
  moreover have "12 + length (Extents c) * 39 \<le> 67108864" using assms(3) by simp
  ultimately obtain bs where "MarshalCheckpoint c = Inr bs"
    using assms(2,3) by (auto simp: MarshalCheckpoint_def DefaultDecodeLimits_def extentEncodedBytes_def Let_def)
  with checkpoint_codec.roundtrip [OF assms(1)] show ?thesis by blast
qed

lemma plain_extent_typed: "extent_typed (plain_extent a n st cf k)"
  by (simp add: extent_typed_def concrete)

theorem checkpoint_roundtrip_witness:
  "\<exists>bs. MarshalCheckpoint \<lparr>LastSequence = 7, Extents = [plain_extent 0 4 2 1 1, plain_extent 9 2 5 0 3]\<rparr> = Inr bs \<and>
     UnmarshalCheckpoint bs = Inr \<lparr>LastSequence = 7, Extents = [plain_extent 0 4 2 1 1, plain_extent 9 2 5 0 3]\<rparr>"
proof -
  have v: "ValidateExtentSet [plain_extent 0 4 2 1 1, plain_extent 9 2 5 0 3] = None" by code_simp
  show ?thesis
    using v by (intro checkpoint_roundtrip) (simp_all add: checkpoint_typed_def plain_extent_typed)
qed

lemma MarshalJournalRecord_total: "JournalRecord_Validate r = None \<Longrightarrow> \<exists>bs. MarshalJournalRecord r = Inr bs"
  by (auto simp: MarshalJournalRecord_def JournalRecord_Validate_def Let_def
      split: sum.splits if_splits)

text \<open>
  A journal record that is written can be read back from the front of whatever follows it: the
  same record, and exactly its own length consumed.
\<close>

theorem journal_record_roundtrip:
  assumes "record_canonical r" "JournalRecord_Validate r = None"
  shows "\<exists>bs. MarshalJournalRecord r = Inr bs \<and>
    (\<forall>rest. UnmarshalJournalRecord (bs @ rest) = Inr (r, length bs))"
proof -
  obtain bs where "MarshalJournalRecord r = Inr bs"
    using MarshalJournalRecord_total [OF assms(2)] by blast
  with UnmarshalJournalRecord_Marshal [OF assms(1)] show ?thesis by blast
qed

definition sample_record :: "u64 \<Rightarrow> Extent \<Rightarrow> JournalRecord" where
  "sample_record s e = \<lparr>Type = RecordExtentStateChanged, Sequence = s, RecExtent = Some e, Payload = []\<rparr>"

lemma sample_record_canonical: "extent_typed e \<Longrightarrow> record_canonical (sample_record s e)"
  by (simp add: record_canonical_def sample_record_def)

lemma sample_record_valid:
  "extent_typed e \<Longrightarrow> extent_valid e \<Longrightarrow> s \<noteq> 0 \<Longrightarrow> JournalRecord_Validate (sample_record s e) = None"
  using MarshalExtent_total [of e]
  by (auto simp: JournalRecord_Validate_def payloadBytes_def sample_record_def maxJournalPayloadBytes_def
      extentEncodedBytes_def dest!: MarshalExtent_length)

theorem journal_record_roundtrip_witness:
  "\<exists>bs. MarshalJournalRecord (sample_record 1 (plain_extent 0 4 2 1 1)) = Inr bs \<and>
    (\<forall>rest. UnmarshalJournalRecord (bs @ rest) = Inr (sample_record 1 (plain_extent 0 4 2 1 1), length bs))"
proof -
  have "extent_valid (plain_extent 0 4 2 1 1)" by code_simp
  then show ?thesis
    by (intro journal_record_roundtrip sample_record_canonical sample_record_valid plain_extent_typed) simp_all
qed

text \<open>A damaged record whose length field is intact is decoded up to its checksum.\<close>

lemma UnmarshalJournalRecord_crc_mismatch:
  assumes n: "n \<le> maxJournalPayloadBytes" and l: "length bd = 14 + n" "length cb = 4"
    and f: "slice 10 14 bd = le_put 4 (of_nat n :: u32)"
    and c: "(le_get cb :: u32) \<noteq> crc32c bd"
  shows "UnmarshalJournalRecord (bd @ cb @ rest) = Inl (Errorf ''unmarshal journal record: crc32c mismatch'')"
proof -
  let ?bs = "bd @ cb @ rest"
  have "slice 10 14 ?bs = slice 10 14 bd" by (rule slice_append_left) (simp add: l)
  then have pl: "unat (le_get (slice 10 14 ?bs) :: u32) = n"
    using n by (simp only: f le_get_put_4) (simp add: unat_of_nat_u32 maxJournalPayloadBytes_def)
  have tl: "2 + 8 + 4 + n + 4 = 18 + n" by simp
  have s: "slice (18 + n - 4) (18 + n) ?bs = cb" "slice 0 (18 + n - 4) ?bs = bd"
    using l by (simp_all add: slice_def)
  have b: "\<not> length ?bs < 18" "\<not> length ?bs < 18 + n" "\<not> n > maxJournalPayloadBytes"
    using l n by simp_all
  show ?thesis
    unfolding UnmarshalJournalRecord_def pl Let_def tl s if_not_P [OF b(1)] if_not_P [OF b(2)]
      if_not_P [OF b(3)] if_P [OF c] ..
qed

text \<open>
  Damage to one byte of a journal record is detected. Changing any single byte outside the
  four bytes of the length field, in the header, the payload or the checksum itself, makes the
  decoder report a checksum mismatch instead of a record.
\<close>

theorem journal_corruption_detected:
  assumes m: "MarshalJournalRecord r = Inr (xs @ a # ys)" and ab: "a \<noteq> b"
    and pos: "length xs < 10 \<or> 14 \<le> length xs"
  shows "UnmarshalJournalRecord ((xs @ b # ys) @ rest) = Inl (Errorf ''unmarshal journal record: crc32c mismatch'')"
proof -
  obtain p where n: "length p \<le> maxJournalPayloadBytes"
    and eq: "xs @ a # ys = record_body (Type r) (Sequence r) p @ le_put 4 (crc32c (record_body (Type r) (Sequence r) p))"
    using m by (rule MarshalJournalRecord_Inr)
  let ?b = "record_body (Type r) (Sequence r) p" and ?c = "le_put 4 (crc32c (record_body (Type r) (Sequence r) p))"
  have f: "slice 10 14 ?b = le_put 4 (of_nat (length p) :: u32)" by (rule record_body_slices)
  show ?thesis
  proof (cases "length xs < length ?b")
    case True
    then have xs: "xs = take (length xs) ?b" "a = ?b ! length xs"
      using arg_cong [OF eq, of "take (length xs)"] arg_cong [OF eq, of "\<lambda>l. l ! length xs"]
      by (simp_all add: nth_append)
    obtain zs where b: "?b = xs @ a # zs" using True xs id_take_nth_drop by metis
    with eq have ys: "ys = zs @ ?c" by simp
    have "slice 10 14 (xs @ b # zs) = slice 10 14 (xs @ a # zs)"
      using pos by (auto simp: slice_def drop_Cons' take_Cons')
    then have f': "slice 10 14 (xs @ b # zs) = le_put 4 (of_nat (length p) :: u32)" using f b by simp
    have "(le_get ?c :: u32) \<noteq> crc32c (xs @ b # zs)"
      using crc32c_single_byte [OF ab, of xs zs] b by simp
    moreover have "length (xs @ b # zs) = 14 + length p"
      using arg_cong [OF b, of length] by simp
    ultimately show ?thesis
      using UnmarshalJournalRecord_crc_mismatch [OF n _ _ f', of ?c rest] ys by simp
  next
    case False
    then obtain us where us: "xs = ?b @ us" using eq by (metis append_eq_append_conv2 not_less length_append le_add1 append_Nil2 append_eq_conv_conj take_all)
    with eq have c: "?c = us @ a # ys" by simp
    have lc: "length (us @ b # ys) = 4" using arg_cong [OF c, of length] by simp
    have "(le_get (us @ b # ys) :: u32) \<noteq> crc32c ?b"
    proof
      assume "(le_get (us @ b # ys) :: u32) = crc32c ?b"
      moreover have "le_put (length (us @ b # ys)) (le_get (us @ b # ys) :: u32) = us @ b # ys"
        by (rule le_put_get) (simp only: lc, simp)
      ultimately have "le_put 4 (crc32c ?b) = us @ b # ys" unfolding lc by simp
      with c ab show False by simp
    qed
    then show ?thesis
      using UnmarshalJournalRecord_crc_mismatch [OF n _ lc f, of rest] us by simp
  qed
qed

theorem journal_corruption_detected_witness:
  "\<exists>xs a ys. MarshalJournalRecord (sample_record 1 (plain_extent 0 4 2 1 1)) = Inr (xs @ a # ys) \<and>
     UnmarshalJournalRecord ((xs @ (a + 1) # ys) @ []) = Inl (Errorf ''unmarshal journal record: crc32c mismatch'')"
proof -
  have v: "extent_valid (plain_extent 0 4 2 1 1)" by code_simp
  obtain bs where bs: "MarshalJournalRecord (sample_record 1 (plain_extent 0 4 2 1 1)) = Inr bs"
    using journal_record_roundtrip_witness by blast
  then have "18 \<le> length bs" by (auto elim!: MarshalJournalRecord_Inr)
  then obtain a ys where "bs = [] @ a # ys" by (cases bs) auto
  moreover from this have "MarshalJournalRecord (sample_record 1 (plain_extent 0 4 2 1 1)) = Inr ([] @ a # ys)"
    using bs by simp
  moreover from this have "UnmarshalJournalRecord (([] @ (a + 1) # ys) @ []) = Inl (Errorf ''unmarshal journal record: crc32c mismatch'')"
    by (rule journal_corruption_detected) simp_all
  ultimately show ?thesis by blast
qed


section \<open>Replay\<close>

text \<open>
  C24: Replaying a journal that was written record by record applies exactly those records, in
  order, and then turns queued extents back into unknown ones. What a crash left of one more record,
  cut off at any byte, changes nothing.
\<close>

theorem replay_written_journal:
  assumes "numbered_from (LastSequence c + 1) rs" "journal_bytes rs = Inr j"
    and "MarshalJournalRecord r = Inr b" "k < length b"
  shows "ReplayJournal c (j @ take k b) = map_sum id downgrade_queued (apply_records c rs)"
proof -
  have "torn (take k b)" using assms(3,4) by (auto simp: torn_def)
  from ReplayJournal_loop_records [OF assms(1,2) this] show ?thesis by (simp add: ReplayJournal_def)
qed

theorem replay_written_journal_witness:
  "\<exists>j b. journal_bytes [sample_record 1 (plain_extent 0 4 2 1 1)] = Inr j \<and>
     MarshalJournalRecord (sample_record 2 (plain_extent 4 4 5 0 1)) = Inr b \<and>
     ReplayJournal \<lparr>LastSequence = 0, Extents = []\<rparr> (j @ take 5 b) =
       Inr \<lparr>LastSequence = 1, Extents = [plain_extent 0 4 2 1 1]\<rparr>"
proof -
  have v: "extent_valid (plain_extent 0 4 2 1 1)" "extent_valid (plain_extent 4 4 5 0 1)" by code_simp+
  have "\<exists>b. MarshalJournalRecord (sample_record 1 (plain_extent 0 4 2 1 1)) = Inr b"
    by (rule MarshalJournalRecord_total [OF sample_record_valid [OF plain_extent_typed v(1)]]) simp
  moreover have "\<exists>b. MarshalJournalRecord (sample_record 2 (plain_extent 4 4 5 0 1)) = Inr b"
    by (rule MarshalJournalRecord_total [OF sample_record_valid [OF plain_extent_typed v(2)]]) simp
  ultimately obtain b1 b2 where b: "MarshalJournalRecord (sample_record 1 (plain_extent 0 4 2 1 1)) = Inr b1"
    "MarshalJournalRecord (sample_record 2 (plain_extent 4 4 5 0 1)) = Inr b2" by blast
  have j: "journal_bytes [sample_record 1 (plain_extent 0 4 2 1 1)] = Inr b1" by (simp add: b)
  have n: "numbered_from (LastSequence \<lparr>LastSequence = 0, Extents = []\<rparr> + 1) [sample_record 1 (plain_extent 0 4 2 1 1)]"
    using sample_record_canonical [OF plain_extent_typed] by (simp add: sample_record_def)
  have l: "5 < length b2" using b(2) by (auto elim!: MarshalJournalRecord_Inr)
  have "map_sum id downgrade_queued (apply_records \<lparr>LastSequence = 0, Extents = []\<rparr>
      [sample_record 1 (plain_extent 0 4 2 1 1)]) = Inr \<lparr>LastSequence = 1, Extents = [plain_extent 0 4 2 1 1]\<rparr>"
    by code_simp
  with replay_written_journal [OF n j b(2) l] j b(2) show ?thesis by auto
qed

text \<open>
  The streaming replay agrees with the in-memory replay on a whole file. A state it returns is
  the state the in-memory replay returns, and where the in-memory replay returns a state, the
  streaming replay returns the same one or refuses a record length beyond the limit.
\<close>

theorem replay_reader_agrees:
  "(\<forall>s. ReplayJournalReader c (Some (j, ErrEOF)) = Inr s \<longrightarrow> ReplayJournal c j = Inr s) \<and>
   (\<forall>s. ReplayJournal c j = Inr s \<longrightarrow>
      ReplayJournalReader c (Some (j, ErrEOF)) \<in> {Inr s, Inl reader_limit_error})"
  using ReplayJournalReader_loop_agrees [of c "LastSequence c + 1" j]
  by (auto simp: ReplayJournalReader_def ReplayJournal_def map_sum_Inr_conv map_sum_Inl_conv)

text \<open>The two functions do differ: a length field above the limit near the end of the file.\<close>

definition oversized_tail :: bytes where
  "oversized_tail = [5, 0, 1, 0, 0, 0, 0, 0, 0, 0, 1, 0, 16, 0, 0, 0, 0, 0]"

theorem replay_reader_agrees_witness:
  "ReplayJournal \<lparr>LastSequence = 0, Extents = []\<rparr> oversized_tail = Inr \<lparr>LastSequence = 0, Extents = []\<rparr> \<and>
   ReplayJournalReader \<lparr>LastSequence = 0, Extents = []\<rparr> (Some (oversized_tail, ErrEOF)) = Inl reader_limit_error"
proof -
  have "(le_get (slice 10 14 oversized_tail) :: u32) = 1048577" by code_simp
  then have p: "unat (le_get (slice 10 14 oversized_tail) :: u32) = 1048577" by simp
  have l: "length oversized_tail = 18" by (simp add: oversized_tail_def)
  have "UnmarshalJournalRecord oversized_tail = Inl ErrTruncatedRecord"
    by (rule UnmarshalJournalRecord_short) (simp add: p l)
  then have j: "ReplayJournal \<lparr>LastSequence = 0, Extents = []\<rparr> oversized_tail = Inr \<lparr>LastSequence = 0, Extents = []\<rparr>"
    using l by (auto simp: ReplayJournal_def ReplayJournal_loop.simps [of _ _ oversized_tail] downgrade_queued_def)
  have r: "ReplayJournalReader \<lparr>LastSequence = 0, Extents = []\<rparr> (Some (oversized_tail, ErrEOF)) \<noteq>
      Inr \<lparr>LastSequence = 0, Extents = []\<rparr>"
    by (simp add: ReplayJournalReader_def ReplayJournalReader_loop_step p l maxJournalPayloadBytes_def)
  from replay_reader_agrees [of "\<lparr>LastSequence = 0, Extents = []\<rparr>" oversized_tail] j r show ?thesis by auto
qed

lemma downgrade_queued_clean: "\<forall>e \<in> set (Extents (downgrade_queued c)). State e \<noteq> SectorStateQueued"
  by (auto simp: downgrade_queued_def)

text \<open>
  C39: Whatever bytes a map file holds, a state that the bounded stream replay accepts is sound: its
  extents form a valid set inside the medium and none of them is left in the transient queued
  state.
\<close>

theorem replay_result_sound:
  assumes "ReplayJournalReaderWithinCapacity c rd n = Inr s"
  shows "ValidateExtentSet (Extents s) = None \<and> list_all (\<lambda>e. endN e \<le> unat n) (Extents s) \<and>
    list_all (\<lambda>e. State e \<noteq> SectorStateQueued) (Extents s)"
proof -
  from assms have v: "ValidateExtentSetWithinCapacity (Extents s) n = None"
    and r: "ReplayJournalReader c rd = Inr s"
    by (auto simp: ReplayJournalReaderWithinCapacity_def split: sum.splits option.splits)
  from v have "ValidateExtentSet (Extents s) = None" "ValidateCapacity_loop n (Extents s) = None"
    by (auto simp: ValidateExtentSetWithinCapacity_def split: if_splits option.splits)
  moreover from this have "list_all (\<lambda>e. endN e \<le> unat n) (Extents s)"
    by (auto simp: ValidateCapacity_loop_iff list_all_iff)
  moreover have "list_all (\<lambda>e. State e \<noteq> SectorStateQueued) (Extents s)"
    using r downgrade_queued_clean
    by (auto simp: ReplayJournalReader_def map_sum_Inr_conv list_all_iff split: option.splits)
  ultimately show ?thesis by simp
qed

theorem replay_result_sound_witness:
  "list_all (\<lambda>e. State e \<noteq> SectorStateQueued) [plain_extent 0 4 0 0 2]"
proof -
  have "ReplayJournalReaderWithinCapacity \<lparr>LastSequence = 0, Extents = [plain_extent 0 4 1 0 2]\<rparr> (Some ([], ErrEOF)) 100
    = Inr \<lparr>LastSequence = 0, Extents = [plain_extent 0 4 0 0 2]\<rparr>"
  proof -
    have "ValidateExtentSetWithinCapacity [plain_extent 0 4 0 0 2] 100 = None" by code_simp
    then show ?thesis
      by (simp add: ReplayJournalReaderWithinCapacity_def ReplayJournalReader_def
          ReplayJournalReader_loop_step downgrade_queued_def plain_extent_def Extent_zero_def)
  qed
  from replay_result_sound [OF this] show ?thesis by simp
qed

text \<open>Applying records point-wise: nothing recovered is lost on the way.\<close>

definition record_within32 :: "JournalRecord \<Rightarrow> bool" where
  "record_within32 r \<longleftrightarrow> (case RecExtent r of None \<Rightarrow> True | Some e \<Rightarrow> endN e < 4294967296)"

lemma replay_record_keeps:
  assumes "replay_record c r = Inr c'" "within32 (Extents c)" "record_within32 r"
  shows "within32 (Extents c')" "LastSequence c' = Sequence r"
    "extent_at (Extents c) n = Some b \<Longrightarrow>
       \<exists>b'. extent_at (Extents c') n = Some b' \<and> (stateClaimsImageData (State b) \<longrightarrow> stateClaimsImageData (State b'))"
proof -
  show "LastSequence c' = Sequence r"
    using assms(1) by (auto simp: replay_record_def split: option.splits if_splits sum.splits)
  have "Extents c' = Extents c \<or>
    (\<exists>e. RecExtent r = Some e \<and> ApplyExtent (Extents c) e = Inr (Extents c'))"
    using assms(1) by (auto simp: replay_record_def split: option.splits if_splits sum.splits)
  then have "within32 (Extents c') \<and> (extent_at (Extents c) n = Some b \<longrightarrow>
      (\<exists>b'. extent_at (Extents c') n = Some b' \<and>
         (stateClaimsImageData (State b) \<longrightarrow> stateClaimsImageData (State b'))))"
  proof (elim disjE exE conjE)
    fix e
    assume e: "RecExtent r = Some e" "ApplyExtent (Extents c) e = Inr (Extents c')"
    then have "endN e < 4294967296" using assms(3) by (simp add: record_within32_def)
    then show ?thesis
      using ApplyExtent_result(2) [OF e(2) assms(2)] ApplyExtent_keeps_claims [OF e(2) assms(2)] by blast
  qed (use assms(2) in simp)
  then show "within32 (Extents c')"
    "extent_at (Extents c) n = Some b \<Longrightarrow>
       \<exists>b'. extent_at (Extents c') n = Some b' \<and> (stateClaimsImageData (State b) \<longrightarrow> stateClaimsImageData (State b'))"
    by blast+
qed

lemma apply_records_keeps:
  "apply_records c rs = Inr c' \<Longrightarrow> within32 (Extents c) \<Longrightarrow> list_all record_within32 rs \<Longrightarrow>
   extent_at (Extents c) n = Some b \<Longrightarrow>
   \<exists>b'. extent_at (Extents c') n = Some b' \<and> (stateClaimsImageData (State b) \<longrightarrow> stateClaimsImageData (State b'))"
proof (induction rs arbitrary: c b)
  case (Cons r rs)
  from Cons.prems(1) obtain c1 where c1: "replay_record c r = Inr c1" "apply_records c1 rs = Inr c'"
    by (auto split: sum.splits)
  have rw: "record_within32 r" "list_all record_within32 rs" using Cons.prems(3) by auto
  obtain b1 where b1: "extent_at (Extents c1) n = Some b1"
    "stateClaimsImageData (State b) \<longrightarrow> stateClaimsImageData (State b1)"
    using replay_record_keeps(3) [OF c1(1) Cons.prems(2) rw(1) Cons.prems(4)] by blast
  from Cons.IH [OF c1(2) replay_record_keeps(1) [OF c1(1) Cons.prems(2) rw(1)] rw(2) b1(1)] b1(2)
  show ?case by blast
qed simp

end
