(* ===== verification/FileIO.thy ===== *)
theory FileIO
  imports Prelude
begin

text \<open>
  The part of Go's \<^verbatim>\<open>os\<close> and \<^verbatim>\<open>io\<close> packages that the recovery map store and the
  startup code use. A world holds the contents of the files, the contents that are known to be on
  stable storage, and a script that decides how the next system calls end: completely, or after
  some bytes and with an error. A call with no script left ends completely. Every system call takes
  one answer from the script, so each theorem about an arbitrary script covers every pattern of
  short writes and failures.
\<close>

datatype io = IoOk | Io nat "error option"

record World =
  Files :: "string \<Rightarrow> bytes option"
  Stable :: "string \<Rightarrow> bytes option"
  Script :: "io list"

definition next_io :: "World \<Rightarrow> io \<times> World" where
  "next_io w = (case Script w of [] \<Rightarrow> (IoOk, w) | a # as \<Rightarrow> (a, w\<lparr>Script := as\<rparr>))"

fun transferred :: "io \<Rightarrow> nat \<Rightarrow> nat" where
  "transferred IoOk n = n"
| "transferred (Io k _) n = min k n"

fun io_error :: "io \<Rightarrow> error option" where
  "io_error IoOk = None"
| "io_error (Io _ e) = e"

definition contents :: "World \<Rightarrow> string \<Rightarrow> bytes" where
  "contents w p = (case Files w p of None \<Rightarrow> [] | Some bs \<Rightarrow> bs)"

text \<open>Writing over a file's bytes from a position on; a gap is filled with zeros.\<close>

definition overwrite :: "nat \<Rightarrow> bytes \<Rightarrow> bytes \<Rightarrow> bytes" where
  "overwrite pos new old =
     (if new = [] then old
      else take pos (old @ replicate (pos - length old) 0) @ new @ drop (pos + length new) old)"

definition put_file :: "World \<Rightarrow> string \<Rightarrow> bytes \<Rightarrow> World" where
  "put_file w p bs = w\<lparr>Files := (Files w)(p := Some bs)\<rparr>"

text \<open>\<^verbatim>\<open>os.OpenFile\<close> with \<^verbatim>\<open>O_CREATE|O_EXCL\<close>, and of an existing file.\<close>

definition os_Create_excl :: "World \<Rightarrow> string \<Rightarrow> error option \<times> World" where
  "os_Create_excl w p =
     (case next_io w of (a, w1) \<Rightarrow>
        (case io_error a of
           Some e \<Rightarrow> (Some e, w1)
         | None \<Rightarrow> if Files w1 p \<noteq> None then (Some (ErrIO ''file exists''), w1)
                   else (None, put_file w1 p [])))"

definition os_Open :: "World \<Rightarrow> string \<Rightarrow> error option \<times> World" where
  "os_Open w p =
     (case next_io w of (a, w1) \<Rightarrow>
        (case io_error a of
           Some e \<Rightarrow> (Some e, w1)
         | None \<Rightarrow> if Files w1 p = None then (Some ErrNotExist, w1) else (None, w1)))"

definition os_Close :: "World \<Rightarrow> error option \<times> World" where
  "os_Close w = (case next_io w of (a, w1) \<Rightarrow> (io_error a, w1))"

definition os_Remove :: "World \<Rightarrow> string \<Rightarrow> error option \<times> World" where
  "os_Remove w p =
     (case next_io w of (a, w1) \<Rightarrow>
        (case io_error a of
           Some e \<Rightarrow> (Some e, w1)
         | None \<Rightarrow> if Files w1 p = None then (Some ErrNotExist, w1)
                   else (None, w1\<lparr>Files := (Files w1)(p := None)\<rparr>)))"

definition os_Stat_size :: "World \<Rightarrow> string \<Rightarrow> nat result \<times> World" where
  "os_Stat_size w p =
     (case next_io w of (a, w1) \<Rightarrow>
        (case io_error a of Some e \<Rightarrow> (Inl e, w1) | None \<Rightarrow> (Inr (length (contents w1 p)), w1)))"

text \<open>\<^verbatim>\<open>Seek(0, io.SeekEnd)\<close> returns the new position of the handle.\<close>

definition os_SeekEnd :: "World \<Rightarrow> string \<Rightarrow> nat result \<times> World" where
  "os_SeekEnd w p = os_Stat_size w p"

definition os_Sync :: "World \<Rightarrow> string \<Rightarrow> error option \<times> World" where
  "os_Sync w p =
     (case next_io w of (a, w1) \<Rightarrow>
        (case io_error a of
           Some e \<Rightarrow> (Some e, w1)
         | None \<Rightarrow> (None, w1\<lparr>Stable := (Stable w1)(p := Files w1 p)\<rparr>)))"

definition os_WriteAt :: "World \<Rightarrow> string \<Rightarrow> nat \<Rightarrow> bytes \<Rightarrow> (nat \<times> error option) \<times> World" where
  "os_WriteAt w p off data =
     (case next_io w of (a, w1) \<Rightarrow>
        let n = transferred a (length data)
        in ((n, io_error a), put_file w1 p (overwrite off (take n data) (contents w1 p))))"

definition os_ReadAt :: "World \<Rightarrow> string \<Rightarrow> nat \<Rightarrow> nat \<Rightarrow> (bytes \<times> error option) \<times> World" where
  "os_ReadAt w p off n =
     (case next_io w of (a, w1) \<Rightarrow>
        let data = take (transferred a n) (drop off (contents w1 p))
        in ((data, case io_error a of Some e \<Rightarrow> Some e
                   | None \<Rightarrow> if length data < n then Some ErrEOF else None), w1))"

text \<open>
  A section reader over \<open>n\<close> bytes from \<open>off\<close> on, as the byte stream with its final error that
  the replay consumes. One answer of the script says where the stream breaks off.
\<close>

definition section_reader :: "World \<Rightarrow> string \<Rightarrow> nat \<Rightarrow> nat \<Rightarrow> (bytes \<times> error) \<times> World" where
  "section_reader w p off n =
     (case next_io w of (a, w1) \<Rightarrow>
        let data = take n (drop off (contents w1 p))
        in (case io_error a of
              Some e \<Rightarrow> (take (transferred a n) data, e)
            | None \<Rightarrow> (data, ErrEOF), w1))"

section \<open>Lemmas\<close>

lemma next_io_done [simp]: "Script w = [] \<Longrightarrow> next_io w = (IoOk, w)"
  by (simp add: next_io_def)

lemma next_io_frame [simp]: "next_io w = (a, w1) \<Longrightarrow> Files w1 = Files w \<and> Stable w1 = Stable w"
  by (auto simp: next_io_def split: list.splits)

lemma contents_put_file [simp]: "contents (put_file w p bs) p = bs"
  by (simp add: contents_def put_file_def)

lemma Files_put_file [simp]: "Files (put_file w p bs) = (Files w)(p := Some bs)"
  by (simp add: put_file_def)

lemma Script_put_file [simp]: "Script (put_file w p bs) = Script w"
  by (simp add: put_file_def)

lemma contents_eq: "Files w p = Some bs \<Longrightarrow> contents w p = bs"
  by (simp add: contents_def)

lemma overwrite_end [simp]: "overwrite (length old) new old = old @ new"
  by (simp add: overwrite_def)

lemma overwrite_start: "length new = length pre \<Longrightarrow> overwrite 0 new (pre @ rest) = new @ rest"
  by (auto simp: overwrite_def)

lemma overwrite_Nil [simp]: "overwrite pos [] old = old"
  by (simp add: overwrite_def)

end
