(* ===== verification/RecoveryStore.thy ===== *)
theory RecoveryStore
  imports FileIO Replay
begin

text \<open>
  The durable recovery map of \<^verbatim>\<open>internal/recoverymap\<close>: a map file with its header,
  an empty checkpoint and an append-only journal, the store that owns the file during a session,
  and the bookkeeping of artifacts created at startup. A nil store pointer is \<open>nil_store\<close>,
  whose accessors return the same zero values.
\<close>

record Geometry =
  GeomSectorSize :: u32
  GeomSectorCount :: u64

text \<open>\<open>handle\<close> is the position of the open handle, \<open>None\<close> for a nil handle.\<close>

record Store =
  path :: string
  handle :: "nat option"
  header :: Header
  extents :: "Extent list"
  durableExtents :: "Extent list"
  nextSequence :: u64
  pendingBytes :: u64
  pendingRecords :: "bytes list"
  closed :: bool

definition unusable :: "Store \<Rightarrow> bool" where
  "unusable s \<longleftrightarrow> handle s = None \<or> closed s"

section \<open>Files\<close>

function writeFull :: "World \<Rightarrow> string \<Rightarrow> nat \<Rightarrow> bytes \<Rightarrow> (error option \<times> nat) \<times> World" where
  "writeFull w p pos data =
     (if data = [] then ((None, pos), w)
      else case os_WriteAt w p pos data of ((written, err), w1) \<Rightarrow>
        (case err of
           Some e \<Rightarrow> ((Some e, pos + written), w1)
         | None \<Rightarrow>
             if written = 0 then ((Some ErrShortWrite, pos), w1)
             else writeFull w1 p (pos + written) (drop written data)))"
  by pat_completeness auto
termination
  by (relation "measure (\<lambda>(_, _, _, data). length data)") auto

declare writeFull.simps [simp del]

definition writeAt :: "World \<Rightarrow> Store \<Rightarrow> nat \<Rightarrow> bytes \<Rightarrow> error option \<times> World" where
  "writeAt w s offset data =
     (case os_WriteAt w (path s) offset data of ((written, err), w1) \<Rightarrow>
        (case err of
           Some e \<Rightarrow> (Some e, w1)
         | None \<Rightarrow> if written \<noteq> length data then (Some ErrShortWrite, w1) else (None, w1)))"

definition readAtExact :: "World \<Rightarrow> string \<Rightarrow> nat \<Rightarrow> nat \<Rightarrow> bytes result \<times> World" where
  "readAtExact w p offset n =
     (case os_ReadAt w p offset n of ((data, err), w1) \<Rightarrow>
        (case err of
           Some e \<Rightarrow> (Inl e, w1)
         | None \<Rightarrow> if length data \<noteq> n then (Inl ErrUnexpectedEOF, w1) else (Inr data, w1)))"

definition abort :: "World \<Rightarrow> error \<Rightarrow> Store result \<times> World" where
  "abort w cause =
     (case os_Close w of (closeErr, w1) \<Rightarrow>
        (Inl (case errors_Join (Some cause) closeErr of Some e \<Rightarrow> e), w1))"

definition abortCreate :: "World \<Rightarrow> Store \<Rightarrow> error \<Rightarrow> Store result \<times> World" where
  "abortCreate w s cause =
     (case os_Close w of (closeErr, w1) \<Rightarrow>
      (case os_Remove w1 (path s) of (removeErr, w2) \<Rightarrow>
        let removeErr' = (case removeErr of
              Some e \<Rightarrow> if errors_Is e ErrNotExist then None else Some e | None \<Rightarrow> None)
        in (Inl (case errors_Join (errors_Join (Some cause) closeErr) removeErr' of Some e \<Rightarrow> e), w2)))"

section \<open>Creating and opening\<close>

definition Create :: "World \<Rightarrow> string \<Rightarrow> Header \<Rightarrow> Store result \<times> World" where
  "Create w p h =
     (case Header_Validate h of Some er \<Rightarrow> (Inl (Wrapf ''create recovery map'' er), w) | None \<Rightarrow>
      let h1 = h\<lparr>CleanShutdown := False\<rparr> in
     (case MarshalHeader h1 of Inl er \<Rightarrow> (Inl (Wrapf ''create recovery map header'' er), w) | Inr headerBytes \<Rightarrow>
     (case MarshalCheckpoint \<lparr>LastSequence = 0, Extents = []\<rparr> of
        Inl er \<Rightarrow> (Inl (Wrapf ''create recovery map checkpoint'' er), w) | Inr checkpointBytes \<Rightarrow>
     (case os_Create_excl w p of
        (Some er, w1) \<Rightarrow> (Inl (Wrapf ''create recovery map'' er), w1)
      | (None, w1) \<Rightarrow>
        let store = \<lparr>path = p, handle = Some 0, header = h1, extents = [], durableExtents = [],
                     nextSequence = 1, pendingBytes = 0, pendingRecords = [], closed = False\<rparr> in
     (case writeAt w1 store 0 headerBytes of
        (Some er, w2) \<Rightarrow> abortCreate w2 store er
      | (None, w2) \<Rightarrow>
     (case writeAt w2 store (length headerBytes) checkpointBytes of
        (Some er, w3) \<Rightarrow> abortCreate w3 store er
      | (None, w3) \<Rightarrow>
     (case os_Sync w3 p of
        (Some er, w4) \<Rightarrow> abortCreate w4 store (Wrapf ''sync recovery map'' er)
      | (None, w4) \<Rightarrow>
     (case os_SeekEnd w4 p of
        (Inl er, w5) \<Rightarrow> abortCreate w5 store (Wrapf ''seek recovery map journal'' er)
      | (Inr pos, w5) \<Rightarrow> (Inr (store\<lparr>handle := Some pos\<rparr>), w5)))))))))"

text \<open>The body of \<^verbatim>\<open>readState\<close> between opening the file and the deferred close.\<close>

definition readState_opened :: "World \<Rightarrow> string \<Rightarrow> Geometry \<Rightarrow> (Header \<times> Checkpoint) result \<times> World" where
  "readState_opened w p g =
     (case os_Stat_size w p of (Inl er, w1) \<Rightarrow> (Inl (Wrapf ''stat'' er), w1) | (Inr fileSize, w1) \<Rightarrow>
      if fileSize < 8 then (Inl (Errorf ''recovery map is too short''), w1)
      else
     (case readAtExact w1 p 0 8 of (Inl er, w2) \<Rightarrow> (Inl (Wrapf ''read prefix'' er), w2) | (Inr prefix, w2) \<Rightarrow>
      let hlen = unat (le_get (slice 6 8 prefix) :: u16) in
      if hlen \<le> 0 then (Inl (Errorf ''recovery map header length is invalid''), w2)
      else
     (case readAtExact w2 p 0 hlen of (Inl er, w3) \<Rightarrow> (Inl (Wrapf ''read header'' er), w3) | (Inr headerBytes, w3) \<Rightarrow>
     (case UnmarshalHeader headerBytes of Inl er \<Rightarrow> (Inl er, w3) | Inr hdr \<Rightarrow>
     (case readAtExact w3 p hlen 10 of
        (Inl er, w4) \<Rightarrow> (Inl (Wrapf ''read checkpoint header'' er), w4)
      | (Inr checkpointPrefix, w4) \<Rightarrow>
      let payloadLength = ucast (le_get (slice 6 10 checkpointPrefix) :: u32) :: u64;
          checkpointLength = 14 + payloadLength in
      if checkpointLength > of_nat fileSize - of_nat hlen
      then (Inl (Errorf ''recovery map checkpoint is truncated''), w4)
      else if payloadLength > MaxCheckpointPayloadBytes DefaultDecodeLimits
      then (Inl (Errorf ''recovery map checkpoint payload exceeds limit''), w4)
      else
     (case readAtExact w4 p hlen (unat checkpointLength) of
        (Inl er, w5) \<Rightarrow> (Inl (Wrapf ''read checkpoint'' er), w5)
      | (Inr checkpointBytes, w5) \<Rightarrow>
     (case UnmarshalCheckpoint checkpointBytes of Inl er \<Rightarrow> (Inl er, w5) | Inr checkpoint \<Rightarrow>
      let journalOffset = hlen + unat checkpointLength in
      if LogicalSectorSize hdr \<noteq> GeomSectorSize g \<or> ExpectedSectorCount hdr \<noteq> GeomSectorCount g
      then (Inl (Errorf ''map geometry does not match media''), w5)
      else
     (case section_reader w5 p journalOffset (fileSize - journalOffset) of (journalReader, w6) \<Rightarrow>
     (case ReplayJournalReaderWithinCapacity checkpoint (Some journalReader) (GeomSectorCount g) of
        Inl er \<Rightarrow> (Inl er, w6)
      | Inr replayed \<Rightarrow> (Inr (hdr, replayed), w6))))))))))"

definition readState :: "World \<Rightarrow> string \<Rightarrow> Geometry \<Rightarrow> (Header \<times> Checkpoint) result \<times> World" where
  "readState w p g =
     (if GeomSectorSize g = 0 \<or> GeomSectorCount g = 0
      then (Inl (Errorf ''media geometry is required''), w)
      else case os_Open w p of
        (Some er, w1) \<Rightarrow> (Inl (Wrapf ''open'' er), w1)
      | (None, w1) \<Rightarrow>
          (case readState_opened w1 p g of (r, w2) \<Rightarrow> (r, snd (os_Close w2))))"

definition Inspect :: "World \<Rightarrow> string \<Rightarrow> Geometry \<Rightarrow> (Header \<times> Extent list) result \<times> World" where
  "Inspect w p g =
     (case readState w p g of
        (Inl er, w1) \<Rightarrow> (Inl (Wrapf ''inspect recovery map'' er), w1)
      | (Inr (hdr, replayed), w1) \<Rightarrow> (Inr (hdr, Extents replayed), w1))"

definition Open :: "World \<Rightarrow> string \<Rightarrow> Geometry \<Rightarrow> Store result \<times> World" where
  "Open w p g =
     (if GeomSectorSize g = 0 \<or> GeomSectorCount g = 0
      then (Inl (Errorf ''open recovery map: media geometry is required''), w)
      else case readState w p g of
        (Inl er, w1) \<Rightarrow> (Inl (Wrapf ''open recovery map'' er), w1)
      | (Inr (hdr, replayed), w1) \<Rightarrow>
      if LastSequence replayed = - 1
      then (Inl (Errorf ''open recovery map: sequence exhausted''), w1)
      else
     (case os_Open w1 p of
        (Some er, w2) \<Rightarrow> (Inl (Wrapf ''open recovery map'' er), w2)
      | (None, w2) \<Rightarrow>
     (case os_SeekEnd w2 p of
        (Inl er, w3) \<Rightarrow> abort w3 (Wrapf ''seek recovery map journal'' er)
      | (Inr pos, w3) \<Rightarrow>
      let store = \<lparr>path = p, handle = Some pos, header = hdr\<lparr>CleanShutdown := False\<rparr>,
                   extents = Extents replayed, durableExtents = Extents replayed,
                   nextSequence = LastSequence replayed + 1, pendingBytes = 0,
                   pendingRecords = [], closed = False\<rparr> in
     (case MarshalHeader (header store) of
        Inl er \<Rightarrow> abort w3 (Wrapf ''mark recovery map active'' er)
      | Inr headerBytes \<Rightarrow>
     (case writeAt w3 store 0 headerBytes of
        (Some er, w4) \<Rightarrow> abort w4 (Wrapf ''mark recovery map active'' er)
      | (None, w4) \<Rightarrow>
     (case os_Sync w4 p of
        (Some er, w5) \<Rightarrow> abort w5 (Wrapf ''sync active recovery map'' er)
      | (None, w5) \<Rightarrow> (Inr store, w5)))))))"

section \<open>Recording extents\<close>

definition prepareExtent :: "Store \<Rightarrow> Extent \<Rightarrow> (Extent list \<times> bytes) result" where
  "prepareExtent s e =
     (case ApplyExtent (extents s) e of
        Inl er \<Rightarrow> Inl (Wrapf ''validate recovery map extent'' er)
      | Inr nextExtents \<Rightarrow>
          if nextSequence s = 0
          then Inl (Errorf ''apply recovery map extent: sequence exhausted'')
          else case MarshalJournalRecord \<lparr>Type = RecordExtentStateChanged, Sequence = nextSequence s,
                      RecExtent = Some e, Payload = []\<rparr> of
            Inl er \<Rightarrow> Inl (Wrapf ''marshal recovery map extent'' er)
          | Inr rec \<Rightarrow> Inr (nextExtents, rec))"

definition StageExtent :: "Store \<Rightarrow> Extent \<Rightarrow> error option \<times> Store" where
  "StageExtent s e =
     (if unusable s then (Some (Errorf ''stage recovery map extent: store is closed''), s)
      else case prepareExtent s e of
        Inl er \<Rightarrow> (Some er, s)
      | Inr (nextExtents, rec) \<Rightarrow>
          (None, s\<lparr>extents := nextExtents, nextSequence := nextSequence s + 1,
                   pendingRecords := pendingRecords s @ [rec],
                   pendingBytes := pendingBytes s + of_nat (length rec)\<rparr>))"

text \<open>The loop of \<^verbatim>\<open>Flush\<close>: the pending records, one after the other.\<close>

fun write_records :: "World \<Rightarrow> string \<Rightarrow> nat \<Rightarrow> bytes list \<Rightarrow> (error option \<times> nat) \<times> World" where
  "write_records w p pos [] = ((None, pos), w)"
| "write_records w p pos (rec # recs) =
     (case writeFull w p pos rec of
        ((Some er, pos1), w1) \<Rightarrow> ((Some er, pos1), w1)
      | ((None, pos1), w1) \<Rightarrow> write_records w1 p pos1 recs)"

definition Flush :: "World \<Rightarrow> Store \<Rightarrow> error option \<times> Store \<times> World" where
  "Flush w s =
     (if unusable s then (Some (Errorf ''flush recovery map journal: store is closed''), s, w)
      else if pendingRecords s = [] then (None, s, w)
      else case os_SeekEnd w (path s) of
        (Inl er, w1) \<Rightarrow> (Some (Wrapf ''seek recovery map journal'' er), s, w1)
      | (Inr pos, w1) \<Rightarrow>
     (case write_records w1 (path s) pos (pendingRecords s) of
        ((Some er, pos1), w2) \<Rightarrow>
          (Some (Wrapf ''append recovery map journal'' er), s\<lparr>handle := Some pos1\<rparr>, w2)
      | ((None, pos1), w2) \<Rightarrow>
     (case os_Sync w2 (path s) of
        (Some er, w3) \<Rightarrow> (Some (Wrapf ''sync recovery map journal'' er), s\<lparr>handle := Some pos1\<rparr>, w3)
      | (None, w3) \<Rightarrow>
          (None, s\<lparr>handle := Some pos1, pendingBytes := 0, pendingRecords := [],
                   durableExtents := extents s\<rparr>, w3))))"

definition appendExtent :: "World \<Rightarrow> Store \<Rightarrow> Extent \<Rightarrow> bool \<Rightarrow> error option \<times> Store \<times> World" where
  "appendExtent w s e sync =
     (case prepareExtent s e of
        Inl er \<Rightarrow> (Some er, s, w)
      | Inr (nextExtents, rec) \<Rightarrow>
     (case os_SeekEnd w (path s) of
        (Inl er, w1) \<Rightarrow> (Some (Wrapf ''seek recovery map journal'' er), s, w1)
      | (Inr pos, w1) \<Rightarrow>
     (case writeFull w1 (path s) pos rec of
        ((Some er, pos1), w2) \<Rightarrow>
          (Some (Wrapf ''append recovery map journal'' er), s\<lparr>handle := Some pos1\<rparr>, w2)
      | ((None, pos1), w2) \<Rightarrow>
     (case (if sync then os_Sync w2 (path s) else (None, w2)) of
        (Some er, w3) \<Rightarrow> (Some (Wrapf ''sync recovery map journal'' er), s\<lparr>handle := Some pos1\<rparr>, w3)
      | (None, w3) \<Rightarrow>
          (None, s\<lparr>handle := Some pos1, extents := nextExtents, nextSequence := nextSequence s + 1,
                   durableExtents := (if sync then nextExtents else durableExtents s)\<rparr>, w3)))))"

definition Store_ApplyExtent :: "World \<Rightarrow> Store \<Rightarrow> Extent \<Rightarrow> error option \<times> Store \<times> World" where
  "Store_ApplyExtent w s e =
     (if unusable s then (Some (Errorf ''apply recovery map extent: store is closed''), s, w)
      else case Flush w s of
        (Some er, s1, w1) \<Rightarrow> (Some (Wrapf ''flush pending recovery map journal'' er), s1, w1)
      | (None, s1, w1) \<Rightarrow> appendExtent w1 s1 e True)"

section \<open>Closing\<close>

definition failClose :: "World \<Rightarrow> Store \<Rightarrow> error \<Rightarrow> error option \<times> Store \<times> World" where
  "failClose w s cause =
     (case os_Close w of (closeErr, w1) \<Rightarrow> (errors_Join (Some cause) closeErr, s\<lparr>closed := True\<rparr>, w1))"

definition Close :: "World \<Rightarrow> Store \<Rightarrow> bool \<Rightarrow> error option \<times> Store \<times> World" where
  "Close w s clean =
     (if unusable s then (None, s, w)
      else case Flush w s of
        (Some er, s1, w1) \<Rightarrow> failClose w1 s1 er
      | (None, s1, w1) \<Rightarrow>
      let s2 = s1\<lparr>header := (header s1)\<lparr>CleanShutdown := clean\<rparr>\<rparr> in
     (case MarshalHeader (header s2) of
        Inl er \<Rightarrow> failClose w1 s2 (Wrapf ''finalize recovery map'' er)
      | Inr headerBytes \<Rightarrow>
     (case writeAt w1 s2 0 headerBytes of
        (Some er, w2) \<Rightarrow> failClose w2 s2 (Wrapf ''finalize recovery map'' er)
      | (None, w2) \<Rightarrow>
     (case os_Sync w2 (path s2) of
        (Some er, w3) \<Rightarrow> failClose w3 s2 (Wrapf ''sync finalized recovery map'' er)
      | (None, w3) \<Rightarrow>
          (case os_Close w3 of (err, w4) \<Rightarrow> (err, s2\<lparr>closed := True\<rparr>, w4))))))"

section \<open>Artifacts of a startup attempt\<close>

record StartupTransaction =
  paths :: "string list"
  committed :: bool

definition TrackCreated :: "StartupTransaction \<Rightarrow> string \<Rightarrow> StartupTransaction" where
  "TrackCreated t p =
     (if p = '''' \<or> committed t then t else t\<lparr>paths := paths t @ [p]\<rparr>)"

definition Commit :: "StartupTransaction \<Rightarrow> StartupTransaction" where
  "Commit t = t\<lparr>committed := True\<rparr>"

fun remove_paths :: "World \<Rightarrow> string list \<Rightarrow> error option \<Rightarrow> error option \<times> World" where
  "remove_paths w [] joined = (joined, w)"
| "remove_paths w (p # ps) joined =
     (case os_Remove w p of
        (Some e, w1) \<Rightarrow>
          remove_paths w1 ps (if errors_Is e ErrNotExist then joined else errors_Join joined (Some e))
      | (None, w1) \<Rightarrow> remove_paths w1 ps joined)"

definition Rollback :: "World \<Rightarrow> StartupTransaction \<Rightarrow> error option \<times> World" where
  "Rollback w t = (if committed t then (None, w) else remove_paths w (rev (paths t)) None)"

end
