(* ===== verification/StoreFacts.thy ===== *)
theory StoreFacts
  imports RecoveryStore MapProps
begin

text \<open>
  What the store's operations do to the file: every write extends the journal by a prefix of the
  bytes to be written, and the file a session leaves is a header, a checkpoint and the records of
  the session, up to a torn record at the end. \<open>session\<close> says so for an open store.
\<close>

section \<open>Writing\<close>

lemma os_WriteAt_end:
  assumes "Files w p = Some c" "os_WriteAt w p (length c) data = ((n, err), w1)"
  shows "n \<le> length data" "Files w1 = (Files w)(p := Some (c @ take n data))" "Stable w1 = Stable w"
proof -
  obtain a w0 where a: "next_io w = (a, w0)" by force
  have "transferred a (length data) \<le> length data" by (cases a) simp_all
  moreover have "n = transferred a (length data)" using assms(2) a by (simp add: os_WriteAt_def Let_def)
  ultimately show "n \<le> length data" by simp
  have w1: "w1 = put_file w0 p (overwrite (length c) (take n data) (contents w0 p))"
    using assms(2) a by (auto simp: os_WriteAt_def Let_def)
  have "contents w0 p = c" using assms(1) next_io_frame [OF a] by (simp add: contents_def)
  with w1 next_io_frame [OF a]
  show "Files w1 = (Files w)(p := Some (c @ take n data))" "Stable w1 = Stable w"
    by (simp_all add: put_file_def)
qed

lemma writeFull_end:
  "Files w p = Some c \<Longrightarrow> writeFull w p (length c) data = ((err, pos), w1) \<Longrightarrow>
   \<exists>k \<le> length data. Files w1 = (Files w)(p := Some (c @ take k data)) \<and> pos = length c + k \<and>
     (err = None \<longrightarrow> k = length data) \<and> Stable w1 = Stable w"
proof (induction "length data" arbitrary: w c data rule: less_induct)
  case less
  show ?case
  proof (cases "data = []")
    case True
    with less.prems show ?thesis by (auto simp: writeFull.simps)
  next
    case ne: False
    obtain n e w2 where wr: "os_WriteAt w p (length c) data = ((n, e), w2)" by (metis prod.exhaust)
    note facts = os_WriteAt_end [OF less.prems(1) wr]
    show ?thesis
    proof (cases "e = None \<and> n \<noteq> 0")
      case False
      with less.prems(2) ne wr facts show ?thesis
        by (cases e) (auto simp: writeFull.simps [of w p _ data] intro!: exI [of _ n] split: if_splits)
    next
      case True
      with less.prems(2) ne wr
      have rest: "writeFull w2 p (length (c @ take n data)) (drop n data) = ((err, pos), w1)"
        using facts(1) by (simp add: writeFull.simps [of w p _ data])
      have "length (drop n data) < length data" using True ne by simp
      from less.hyps [OF this _ rest] facts(2) obtain k where k: "k \<le> length data - n"
        "Files w1 = (Files w2)(p := Some ((c @ take n data) @ take k (drop n data)))"
        "pos = length c + n + k" "err = None \<longrightarrow> k = length data - n" "Stable w1 = Stable w2"
        using facts(1) by auto
      have "take n data @ take k (drop n data) = take (n + k) data" by (simp add: take_add)
      with k facts True show ?thesis by (intro exI [of _ "n + k"]) (auto simp: fun_upd_def)
    qed
  qed
qed

lemma write_records_end:
  "Files w p = Some c \<Longrightarrow> write_records w p (length c) recs = ((err, pos), w1) \<Longrightarrow>
   \<exists>k \<le> length (concat recs). Files w1 = (Files w)(p := Some (c @ take k (concat recs))) \<and>
     (err = None \<longrightarrow> k = length (concat recs)) \<and> Stable w1 = Stable w"
proof (induction recs arbitrary: w c)
  case (Cons r recs)
  obtain e q w2 where wf: "writeFull w p (length c) r = ((e, q), w2)" by (metis prod.exhaust)
  from writeFull_end [OF Cons.prems(1) wf] obtain k where k: "k \<le> length r"
    "Files w2 = (Files w)(p := Some (c @ take k r))" "q = length c + k" "e = None \<longrightarrow> k = length r"
    "Stable w2 = Stable w" by blast
  show ?case
  proof (cases e)
    case (Some er)
    with Cons.prems(2) wf k show ?thesis by (auto intro!: exI [of _ k])
  next
    case None
    with Cons.prems(2) wf k have "write_records w2 p (length (c @ r)) recs = ((err, pos), w1)" by simp
    moreover have "Files w2 p = Some (c @ r)" using k None by simp
    ultimately obtain m where m: "m \<le> length (concat recs)"
      "Files w1 = (Files w2)(p := Some ((c @ r) @ take m (concat recs)))"
      "err = None \<longrightarrow> m = length (concat recs)" "Stable w1 = Stable w2"
      using Cons.IH by blast
    with k None show ?thesis by (intro exI [of _ "length r + m"]) (auto simp: fun_upd_def)
  qed
qed (auto simp: fun_upd_idem)

lemma os_SeekEnd_pos:
  "os_SeekEnd w p = (Inr pos, w1) \<Longrightarrow> Files w p = Some c \<Longrightarrow>
   pos = length c \<and> Files w1 = Files w \<and> Stable w1 = Stable w"
  by (auto simp: os_SeekEnd_def os_Stat_size_def contents_def split: prod.splits option.splits dest!: next_io_frame)

lemma os_SeekEnd_frame: "os_SeekEnd w p = (r, w1) \<Longrightarrow> Files w1 = Files w \<and> Stable w1 = Stable w"
  by (auto simp: os_SeekEnd_def os_Stat_size_def split: prod.splits option.splits dest!: next_io_frame)

lemma os_Sync_frame:
  "os_Sync w p = (e, w1) \<Longrightarrow> Files w1 = Files w \<and> (e = None \<longrightarrow> Stable w1 p = Files w1 p) \<and>
     (e \<noteq> None \<longrightarrow> Stable w1 = Stable w)"
  by (auto simp: os_Sync_def split: prod.splits option.splits dest!: next_io_frame)

text \<open>A flush extends the file by a prefix of the pending records: by all of them if it succeeds.\<close>

lemma Flush_end:
  assumes "Flush w s = (err, s1, w1)" "Files w (path s) = Some c" "\<not> unusable s"
  shows "\<exists>k \<le> length (concat (pendingRecords s)).
    Files w1 = (Files w)(path s := Some (c @ take k (concat (pendingRecords s)))) \<and>
    (err = None \<longrightarrow> k = length (concat (pendingRecords s)))"
    "extents s1 = extents s" "nextSequence s1 = nextSequence s" "header s1 = header s" "path s1 = path s"
    "closed s1 = closed s" "\<not> unusable s1"
    "err = None \<Longrightarrow> pendingRecords s1 = [] \<and> (pendingRecords s \<noteq> [] \<longrightarrow> durableExtents s1 = extents s \<and> pendingBytes s1 = 0)"
    "err = None \<Longrightarrow> pendingRecords s = [] \<Longrightarrow> s1 = s"
    "err \<noteq> None \<Longrightarrow> pendingRecords s1 = pendingRecords s \<and> durableExtents s1 = durableExtents s \<and> pendingBytes s1 = pendingBytes s"
proof -
  show "\<exists>k \<le> length (concat (pendingRecords s)).
    Files w1 = (Files w)(path s := Some (c @ take k (concat (pendingRecords s)))) \<and>
    (err = None \<longrightarrow> k = length (concat (pendingRecords s)))"
  proof (cases "pendingRecords s = []")
    case True
    with assms show ?thesis by (auto simp: Flush_def fun_upd_idem)
  next
    case ne: False
    obtain r w2 where sk: "os_SeekEnd w (path s) = (r, w2)" by force
    note fr = os_SeekEnd_frame [OF sk]
    show ?thesis
    proof (cases r)
      case (Inl er)
      with assms ne sk fr show ?thesis by (auto simp: Flush_def fun_upd_idem intro!: exI [of _ 0])
    next
      case (Inr pos)
      obtain e q w3 where wr: "write_records w2 (path s) pos (pendingRecords s) = ((e, q), w3)"
        by (metis prod.exhaust)
      have "pos = length c" using os_SeekEnd_pos [OF sk [unfolded Inr] assms(2)] by simp
      moreover have "Files w2 (path s) = Some c" using fr assms(2) by simp
      ultimately obtain k where k: "k \<le> length (concat (pendingRecords s))"
        "Files w3 = (Files w2)(path s := Some (c @ take k (concat (pendingRecords s))))"
        "e = None \<longrightarrow> k = length (concat (pendingRecords s))"
        using write_records_end wr by blast
      have "Files w1 = Files w3" "err = None \<longrightarrow> e = None"
        using assms(1,3) ne sk Inr wr
        by (auto simp: Flush_def split: option.splits prod.splits dest!: os_Sync_frame)
      with k fr show ?thesis by auto
    qed
  qed
  show "extents s1 = extents s" "nextSequence s1 = nextSequence s" "header s1 = header s" "path s1 = path s"
    "closed s1 = closed s" "\<not> unusable s1"
    "err = None \<Longrightarrow> pendingRecords s1 = [] \<and> (pendingRecords s \<noteq> [] \<longrightarrow> durableExtents s1 = extents s \<and> pendingBytes s1 = 0)"
    "err = None \<Longrightarrow> pendingRecords s = [] \<Longrightarrow> s1 = s"
    "err \<noteq> None \<Longrightarrow> pendingRecords s1 = pendingRecords s \<and> durableExtents s1 = durableExtents s \<and> pendingBytes s1 = pendingBytes s"
    using assms(1,3) by (auto simp: Flush_def unusable_def split: if_splits sum.splits option.splits prod.splits)
qed

section \<open>Journals under construction\<close>

definition extent_record :: "u64 \<Rightarrow> Extent \<Rightarrow> JournalRecord" where
  "extent_record s e = \<lparr>Type = RecordExtentStateChanged, Sequence = s, RecExtent = Some e, Payload = []\<rparr>"

lemma extent_record_simps [simp]:
  "Type (extent_record s e) = RecordExtentStateChanged" "Sequence (extent_record s e) = s"
  "RecExtent (extent_record s e) = Some e"
  by (simp_all add: extent_record_def)

text \<open>The records \<open>rs\<close>, written as \<open>j\<close>, lead from checkpoint \<open>c\<close> to \<open>d\<close>.\<close>

definition journaled :: "Checkpoint \<Rightarrow> JournalRecord list \<Rightarrow> bytes list \<Rightarrow> Checkpoint \<Rightarrow> bool" where
  "journaled c rs js d \<longleftrightarrow>
     numbered_from (LastSequence c + 1) rs \<and> map MarshalJournalRecord rs = map Inr js \<and>
     apply_records c rs = Inr d"

lemma journal_bytes_map: "map MarshalJournalRecord rs = map Inr js \<Longrightarrow> journal_bytes rs = Inr (concat js)"
  by (induction rs arbitrary: js) (auto simp: Cons_eq_map_conv)

lemma journaled_Nil [simp]: "journaled c [] js d \<longleftrightarrow> js = [] \<and> d = c"
  by (auto simp: journaled_def)

lemma apply_records_append:
  "apply_records c (rs @ ps) = (case apply_records c rs of Inl er \<Rightarrow> Inl er | Inr d \<Rightarrow> apply_records d ps)"
  by (induction rs arbitrary: c) (auto split: sum.splits)

lemma replay_record_LastSequence: "replay_record c r = Inr d \<Longrightarrow> LastSequence d = Sequence r"
  by (auto simp: replay_record_def split: option.splits if_splits sum.splits)

lemma numbered_from_append:
  "apply_records c rs = Inr d \<Longrightarrow> numbered_from (LastSequence c + 1) rs \<Longrightarrow>
   numbered_from (LastSequence c + 1) (rs @ ps) = numbered_from (LastSequence d + 1) ps"
proof (induction rs arbitrary: c)
  case (Cons r rs)
  from Cons.prems obtain c1 where c1: "replay_record c r = Inr c1" "apply_records c1 rs = Inr d"
    by (auto split: sum.splits)
  have sq: "LastSequence c1 + 1 = LastSequence c + 1 + 1"
    using Cons.prems(2) replay_record_LastSequence [OF c1(1)] by simp
  with Cons.prems(2) have "numbered_from (LastSequence c1 + 1) rs" by simp
  from Cons.IH [OF c1(2) this] sq Cons.prems(2) show ?case by simp
qed simp

lemma journaled_append:
  "journaled c rs js d \<Longrightarrow> journaled d ps ks e \<Longrightarrow> journaled c (rs @ ps) (js @ ks) e"
  by (auto simp: journaled_def apply_records_append numbered_from_append)

lemma apply_records_prefix:
  "apply_records c rs = Inr d \<Longrightarrow> \<exists>e. apply_records c (take i rs) = Inr e"
proof (induction rs arbitrary: c i)
  case (Cons r rs)
  then show ?case by (cases i) (auto split: sum.splits)
qed simp

lemma numbered_from_take: "numbered_from s rs \<Longrightarrow> numbered_from s (take i rs)"
proof (induction rs arbitrary: s i)
  case (Cons r rs)
  then show ?case by (cases i) auto
qed simp

lemma journaled_take:
  assumes "journaled c rs js d"
  shows "\<exists>e. journaled c (take i rs) (take i js) e"
  using assms apply_records_prefix [of c rs d i]
  by (auto simp: journaled_def take_map [symmetric] intro: numbered_from_take)

lemma journaled_single:
  assumes "record_canonical r" "Sequence r = LastSequence d + 1" "MarshalJournalRecord r = Inr b"
    "replay_record d r = Inr e"
  shows "journaled d [r] [b] e"
  using assms by (simp add: journaled_def)

text \<open>Cutting a written journal off anywhere leaves whole records and a torn one.\<close>

lemma take_records:
  "map MarshalJournalRecord rs = map Inr js \<Longrightarrow>
   \<exists>i \<le> length js. \<exists>t. take k (concat js) = concat (take i js) @ t \<and> torn t \<and>
     (length (concat js) \<le> k \<longrightarrow> i = length js \<and> t = [])"
proof (induction js arbitrary: rs k)
  case Nil
  then show ?case by (auto simp: torn_def)
next
  case (Cons b js)
  then obtain r rs' where rs: "rs = r # rs'" "MarshalJournalRecord r = Inr b"
    "map MarshalJournalRecord rs' = map Inr js" by (cases rs) auto
  show ?case
  proof (cases "k < length b")
    case True
    with rs(2) have "torn (take k b)" by (auto simp: torn_def)
    with True show ?thesis by (intro exI [of _ 0]) auto
  next
    case False
    from Cons.IH [OF rs(3), of "k - length b"] obtain i t where it: "i \<le> length js" "torn t"
      "take (k - length b) (concat js) = concat (take i js) @ t"
      "length (concat js) \<le> k - length b \<longrightarrow> i = length js \<and> t = []" by blast
    from it False show ?thesis by (intro exI [of _ "Suc i"] conjI exI [of _ t]) auto
  qed
qed

section \<open>Reading a journal back\<close>

lemma ReplayJournalReader_loop_torn:
  assumes "torn t"
  shows "ReplayJournalReader_loop c s (t, ErrEOF) = Inr c"
proof (cases "length t < 14")
  case True
  then show ?thesis by (simp add: ReplayJournalReader_loop_step)
next
  case False
  with assms obtain r b k where b: "MarshalJournalRecord r = Inr b" "k < length b" "t = take k b"
    by (auto simp: torn_def)
  obtain p where p: "length p \<le> maxJournalPayloadBytes"
    and bs: "b = record_body (Type r) (Sequence r) p @ le_put 4 (crc32c (record_body (Type r) (Sequence r) p))"
    using b(1) by (rule MarshalJournalRecord_Inr)
  have "slice 10 14 t = slice 10 14 b" using False b by (simp add: slice_def drop_take min_def)
  also have "\<dots> = slice 10 14 (record_body (Type r) (Sequence r) p)" unfolding bs by (rule slice_append_left) simp
  finally have "unat (le_get (slice 10 14 t) :: u32) = length p"
    using p by (simp add: record_body_slices unat_of_nat_u32 maxJournalPayloadBytes_def)
  moreover have "length t < 18 + length p" using b bs by simp
  ultimately show ?thesis using p by (simp add: ReplayJournalReader_loop_step)
qed

lemma ReplayJournalReader_loop_records:
  "numbered_from s rs \<Longrightarrow> map MarshalJournalRecord rs = map Inr js \<Longrightarrow>
   ReplayJournalReader_loop c s (concat js @ t, ErrEOF) =
     (case apply_records c rs of Inl er \<Rightarrow> Inl er
      | Inr d \<Rightarrow> ReplayJournalReader_loop d (s + of_nat (length rs)) (t, ErrEOF))"
proof (induction rs arbitrary: s js c)
  case Nil
  then show ?case by simp
next
  case (Cons r rs)
  from Cons.prems(2) obtain b ks where js: "js = b # ks" "MarshalJournalRecord r = Inr b"
    "map MarshalJournalRecord rs = map Inr ks" by (auto simp: Cons_eq_map_conv)
  have c: "record_canonical r" "Sequence r = s" "numbered_from (s + 1) rs" using Cons.prems(1) by auto
  have u: "UnmarshalJournalRecord (concat js @ t) = Inr (r, length b)"
    using UnmarshalJournalRecord_Marshal [OF c(1) js(2), of "concat ks @ t"] js(1) by simp
  obtain p where p: "length p \<le> maxJournalPayloadBytes"
    and bs: "b = record_body (Type r) (Sequence r) p @ le_put 4 (crc32c (record_body (Type r) (Sequence r) p))"
    using js(2) by (rule MarshalJournalRecord_Inr)
  have "slice 10 14 (concat js @ t) = slice 10 14 (record_body (Type r) (Sequence r) p)"
    unfolding js(1) bs concat.simps append_assoc by (rule slice_append_left) simp
  then have "unat (le_get (slice 10 14 (concat js @ t)) :: u32) = length p"
    using p by (simp add: record_body_slices unat_of_nat_u32 maxJournalPayloadBytes_def)
  moreover have "\<not> length (concat js @ t) < 18 + length p" using js(1) bs by simp
  moreover have "drop (length b) (concat js @ t) = concat ks @ t" using js(1) by simp
  ultimately show ?case
    using p u c(2) Cons.IH [OF c(3) js(3)]
    by (simp add: ReplayJournalReader_loop_step [of c s "concat js @ t"] add.assoc del: concat.simps split: sum.split)
qed

lemma ReplayJournalReader_journaled:
  assumes "journaled c rs js d"
  shows "ReplayJournalReader c (Some (concat js @ t, ErrEOF)) =
    map_sum id downgrade_queued (ReplayJournalReader_loop d (LastSequence c + 1 + of_nat (length rs)) (t, ErrEOF))"
proof -
  from assms have n: "numbered_from (LastSequence c + 1) rs" "map MarshalJournalRecord rs = map Inr js"
    and a: "apply_records c rs = Inr d" by (auto simp: journaled_def)
  show ?thesis
    by (simp add: ReplayJournalReader_def ReplayJournalReader_loop_records [OF n] a del: concat.simps)
qed

section \<open>Reading a map file back\<close>

text \<open>A map file: its header, its checkpoint and the bytes of its journal.\<close>

definition map_file :: "Header \<Rightarrow> Checkpoint \<Rightarrow> bytes \<Rightarrow> bytes \<Rightarrow> bool" where
  "map_file h c jrn bs \<longleftrightarrow> header_typed h \<and> checkpoint_typed c \<and>
     (\<exists>hb cb. MarshalHeader h = Inr hb \<and> MarshalCheckpoint c = Inr cb \<and> bs = hb @ cb @ jrn)"

definition geometry_of :: "Header \<Rightarrow> Geometry" where
  "geometry_of h = \<lparr>GeomSectorSize = LogicalSectorSize h, GeomSectorCount = ExpectedSectorCount h\<rparr>"

lemma readAtExact_done:
  "Script w = [] \<Longrightarrow> Files w p = Some (pre @ b @ rest) \<Longrightarrow> length pre = off \<Longrightarrow> length b = n \<Longrightarrow>
   readAtExact w p off n = (Inr b, w)"
  by (simp add: readAtExact_def os_ReadAt_def contents_def)

lemma header_length_field:
  assumes "header_typed h" "MarshalHeader h = Inr hb"
  shows "length hb = 135" "unat (le_get (slice 6 8 hb) :: u16) = 135"
proof -
  show "length hb = 135" using MarshalHeader_length [OF assms] by (simp add: headerLength_def)
  have hb: "hb = header_body h @ le_put 4 (crc32c (header_body h))"
    using assms(2) by (auto simp: MarshalHeader_def split: option.splits)
  have "slice 6 8 hb = slice 6 8 (header_body h)"
    unfolding hb using length_header_body [OF assms(1)] by (intro slice_append_left) simp
  then show "unat (le_get (slice 6 8 hb) :: u16) = 135"
    using header_body_slices(3) [OF assms(1)] by (simp add: headerLength_def)
qed

lemma checkpoint_length_field:
  assumes "checkpoint_typed c" "MarshalCheckpoint c = Inr cb"
  shows "length cb = 14 + unat (le_get (slice 6 10 cb) :: u32)" "26 \<le> length cb"
    "unat (le_get (slice 6 10 cb) :: u32) \<le> 67108864"
proof -
  from MarshalCheckpoint_Inr [OF assms(2)] obtain ex where n: "length (Extents c) \<le> 1048576"
    and cb: "cb = checkpoint_prefix c (12 + length (Extents c) * extentEncodedBytes) @ ex @
         le_put 4 (crc32c (checkpoint_prefix c (12 + length (Extents c) * extentEncodedBytes) @ ex))" by blast
  have "slice 6 10 cb = le_put 4 (of_nat (12 + length (Extents c) * extentEncodedBytes) :: u32)"
    unfolding cb using checkpoint_prefix_slices(3) by (subst slice_append_left) simp_all
  then have "unat (le_get (slice 6 10 cb) :: u32) = 12 + length (Extents c) * extentEncodedBytes"
    using n unat_of_nat_u32 [of "12 + length (Extents c) * extentEncodedBytes"] by (simp add: extentEncodedBytes_def)
  with MarshalCheckpoint_length [OF assms] n
  show "length cb = 14 + unat (le_get (slice 6 10 cb) :: u32)" "26 \<le> length cb"
    "unat (le_get (slice 6 10 cb) :: u32) \<le> 67108864" by (simp_all add: extentEncodedBytes_def)
qed

lemma readState_map_file:
  assumes f: "map_file h c jrn bs" "Files w p = Some bs" "Script w = []"
    and big: "length bs < 9223372036854775808"
  shows "readState w p (geometry_of h) =
    (case ReplayJournalReaderWithinCapacity c (Some (jrn, ErrEOF)) (ExpectedSectorCount h) of
       Inl er \<Rightarrow> (Inl er, w) | Inr d \<Rightarrow> (Inr (h, d), w))"
proof -
  from f(1) obtain hb cb where t: "header_typed h" "checkpoint_typed c"
    and m: "MarshalHeader h = Inr hb" "MarshalCheckpoint c = Inr cb" and bs: "bs = hb @ cb @ jrn"
    unfolding map_file_def by blast
  have v: "LogicalSectorSize h \<noteq> 0" "ExpectedSectorCount h \<noteq> 0"
    using m(1) by (auto simp: MarshalHeader_def Header_Validate_def split: if_splits)
  note hl = header_length_field [OF t(1) m(1)] and cl = checkpoint_length_field [OF t(2) m(2)]
  let ?pl = "le_get (slice 6 10 cb) :: u32"
  have c: "contents w p = bs" using f(2) by (rule contents_eq)
  have r1: "readAtExact w p 0 8 = (Inr (take 8 hb), w)"
    using hl(1) f bs by (intro readAtExact_done [of _ _ "[]" _ "drop 8 hb @ cb @ jrn"]) simp_all
  have r2: "readAtExact w p 0 135 = (Inr hb, w)"
    using hl(1) f bs by (intro readAtExact_done [of _ _ "[]" _ "cb @ jrn"]) simp_all
  have r3: "readAtExact w p 135 10 = (Inr (take 10 cb), w)"
    using hl(1) cl(2) f bs by (intro readAtExact_done [of _ _ hb _ "drop 10 cb @ jrn"]) simp_all
  have cpl: "unat (14 + ucast ?pl :: u64) = length cb"
    using cl(1) cl(3) by (subst unat_add_le) simp_all
  have r4: "readAtExact w p 135 (length cb) = (Inr cb, w)"
    using hl(1) f bs by (intro readAtExact_done [of _ _ hb _ jrn]) simp_all
  have s: "slice 6 8 (take 8 hb) = slice 6 8 hb" "slice 6 10 (take 10 cb) = slice 6 10 cb"
    by (simp_all add: slice_def drop_take)
  have room: "\<not> (14 + ucast ?pl :: u64) > of_nat (length bs) - of_nat 135"
  proof -
    have u: "unat (of_nat (length bs) :: u64) = length bs" using big by (simp add: unat_of_nat_u64)
    have "135 \<le> length bs" using bs hl(1) by simp
    then have "unat (of_nat (length bs) - of_nat 135 :: u64) = length bs - 135"
      using u by (subst unat_sub_le) (simp_all only: word_le_nat_alt u, simp_all)
    then show ?thesis unfolding word_less_nat_alt cpl using bs hl(1) by simp
  qed
  have lim: "\<not> (ucast ?pl :: u64) > MaxCheckpointPayloadBytes DefaultDecodeLimits"
    using cl(3) by (simp add: DefaultDecodeLimits_def word_less_nat_alt)
  have uh: "UnmarshalHeader hb = Inr h" using UnmarshalHeader_Marshal [OF t(1) m(1), of "[]"] by simp
  have uc: "UnmarshalCheckpoint cb = Inr c" using UnmarshalCheckpoint_Marshal [OF t(2) m(2)] .
  have sec: "section_reader w p (135 + length cb) (length bs - (135 + length cb)) = ((jrn, ErrEOF), w)"
    using f(3) c bs hl(1) by (simp add: section_reader_def Let_def)
  have op: "os_Open w p = (None, w)" "os_Stat_size w p = (Inr (length bs), w)" "os_Close w = (None, w)"
    using f(2,3) c by (simp_all add: os_Open_def os_Stat_size_def os_Close_def)
  have l8: "\<not> length bs < 8" using bs hl(1) by simp
  show ?thesis
    using v l8 by (simp add: readState_def readState_opened_def op r1 r2 r3 r4 s hl(2) uh uc Let_def room lim
        cpl sec geometry_of_def del: of_nat_numeral split: sum.split)
qed

section \<open>Extents on the medium\<close>

definition on_medium :: "nat \<Rightarrow> Extent list \<Rightarrow> bool" where
  "on_medium n es \<longleftrightarrow> wf_extents es \<and> (\<forall>e \<in> set es. endN e \<le> n)"

lemma on_medium_covered:
  assumes "wf_extents es"
  shows "(\<forall>e \<in> set es. endN e \<le> n) \<longleftrightarrow> (\<forall>k. extent_at es k \<noteq> None \<longrightarrow> k < n)"
proof
  assume all: "\<forall>e \<in> set es. endN e \<le> n"
  show "\<forall>k. extent_at es k \<noteq> None \<longrightarrow> k < n"
    using all by (auto simp: covers_def dest!: extent_at_SomeD intro: less_le_trans)
next
  assume at: "\<forall>k. extent_at es k \<noteq> None \<longrightarrow> k < n"
  show "\<forall>e \<in> set es. endN e \<le> n"
  proof
    fix e assume e: "e \<in> set es"
    then have p: "startN e < endN e" using assms extent_valid_pos by (auto simp: wf_extents_def)
    then have "covers e (endN e - 1)" by (auto simp: covers_def)
    with e assms at have "endN e - 1 < n" by (auto dest: extent_at_Some)
    with p show "endN e \<le> n" by linarith
  qed
qed

lemma ApplyExtent_on_medium:
  assumes "ApplyExtent es c = Inr r" "on_medium n es" "endN c \<le> n" "n < 4294967296"
  shows "on_medium n r"
proof -
  have w: "within32 es" "endN c < 4294967296"
    using assms by (auto simp: on_medium_def within32_def)
  note r = ApplyExtent_result [OF assms(1) w]
  have es: "\<forall>k. extent_at es k \<noteq> None \<longrightarrow> k < n"
    using assms(2) on_medium_covered [of es n] unfolding on_medium_def by blast
  have "extent_at r k \<noteq> None \<longrightarrow> k < n" for k
    using r(4) [of k] es assms(3) by (auto simp: covers_def split: if_splits)
  with r(1) on_medium_covered [OF r(1)] show ?thesis unfolding on_medium_def by blast
qed

definition record_on_medium :: "nat \<Rightarrow> JournalRecord \<Rightarrow> bool" where
  "record_on_medium n r \<longleftrightarrow> (case RecExtent r of None \<Rightarrow> True | Some e \<Rightarrow> endN e \<le> n)"

lemma replay_record_on_medium:
  "replay_record c r = Inr d \<Longrightarrow> on_medium n (Extents c) \<Longrightarrow> record_on_medium n r \<Longrightarrow> n < 4294967296 \<Longrightarrow>
   on_medium n (Extents d)"
  by (auto simp: replay_record_def record_on_medium_def split: option.splits if_splits sum.splits
      dest: ApplyExtent_on_medium)

lemma apply_records_on_medium:
  "apply_records c rs = Inr d \<Longrightarrow> on_medium n (Extents c) \<Longrightarrow> list_all (record_on_medium n) rs \<Longrightarrow>
   n < 4294967296 \<Longrightarrow> on_medium n (Extents d)"
  by (induction rs arbitrary: c) (auto split: sum.splits dest: replay_record_on_medium)

definition downgraded :: "Extent list \<Rightarrow> Extent list" where
  "downgraded es = Extents (downgrade_queued \<lparr>LastSequence = 0, Extents = es\<rparr>)"

lemma Extents_downgrade [simp]: "Extents (downgrade_queued c) = downgraded (Extents c)"
  by (simp add: downgrade_queued_def downgraded_def)

lemma downgraded_Nil [simp]: "downgraded [] = []"
  by (simp add: downgraded_def downgrade_queued_def)

lemma on_medium_downgraded: "on_medium n es \<Longrightarrow> on_medium n (downgraded es)"
proof -
  let ?f = "\<lambda>e. if State e = SectorStateQueued
              then e\<lparr>State := SectorStateUnknown, Confidence := ConfidenceNone\<rparr> else e"
  have d: "downgraded es = map ?f es" by (simp add: downgraded_def downgrade_queued_def)
  have v: "ValidateStateConfidence SectorStateUnknown ConfidenceNone = None" by code_simp
  have f: "StartLBA (?f e) = StartLBA e" "Sectors (?f e) = Sectors e" "extent_valid e \<Longrightarrow> extent_valid (?f e)" for e
    using v by (simp_all add: extent_valid_iff)
  assume m: "on_medium n es"
  have "sorted_wrt (\<lambda>a b. endN (?f a) \<le> startN (?f b)) es"
    unfolding f(1,2) using m by (simp add: on_medium_def wf_extents_def)
  moreover have "\<forall>e \<in> set es. extent_valid (?f e) \<and> endN (?f e) \<le> n"
    unfolding f(1,2) using m f(3) by (simp only: on_medium_def wf_extents_def) blast
  ultimately show "on_medium n (downgraded es)"
    unfolding d on_medium_def wf_extents_def sorted_wrt_map ball_simps set_map by blast
qed

lemma replay_accepts_on_medium:
  assumes "ReplayJournalReader c rd = Inr d" "on_medium (unat n) (Extents d)" "n \<noteq> 0"
  shows "ReplayJournalReaderWithinCapacity c rd n = Inr d"
proof -
  have "endN e < 18446744073709551616 \<and> StartLBA e < n \<and> endN e \<le> unat n" if "e \<in> set (Extents d)" for e
  proof -
    have "extent_valid e" "endN e \<le> unat n" using assms(2) that by (auto simp: on_medium_def wf_extents_def)
    then show ?thesis by (auto simp: extent_valid_iff word_less_nat_alt)
  qed
  then have "ValidateExtentSetWithinCapacity (Extents d) n = None"
    using assms(2,3) by (simp add: ValidateExtentSetWithinCapacity_def on_medium_def
        ValidateCapacity_loop_iff list_all_iff)
  with assms(1) show ?thesis by (simp add: ReplayJournalReaderWithinCapacity_def)
qed

section \<open>An open store\<close>

text \<open>
  The store \<open>s\<close> is open on a map file with checkpoint \<open>c\<close> whose journal holds the
  records \<open>rs\<close>; the records \<open>ps\<close> are pending. The durable extents are what the file
  says, the working extents what it will say once the pending records are written. All extents lie
  on the medium of the header, which has less than \<open>2 ^ 32\<close> sectors.
\<close>

definition session :: "Checkpoint \<Rightarrow> JournalRecord list \<Rightarrow> JournalRecord list \<Rightarrow> World \<Rightarrow> Store \<Rightarrow> bool" where
  "session c rs ps w s \<longleftrightarrow>
     \<not> unusable s \<and> unat (ExpectedSectorCount (header s)) < 4294967296 \<and>
     on_medium (unat (ExpectedSectorCount (header s))) (Extents c) \<and>
     list_all (record_on_medium (unat (ExpectedSectorCount (header s)))) (rs @ ps) \<and>
     (\<exists>js bs d e. Files w (path s) = Some bs \<and> map_file (header s) c (concat js) bs \<and>
        journaled c rs js d \<and> Extents d = durableExtents s \<and>
        journaled d ps (pendingRecords s) e \<and> Extents e = extents s \<and>
        nextSequence s = LastSequence e + 1)"

lemma sessionI:
  assumes "\<not> unusable s" "unat (ExpectedSectorCount (header s)) < 4294967296"
    "on_medium (unat (ExpectedSectorCount (header s))) (Extents c)"
    "list_all (record_on_medium (unat (ExpectedSectorCount (header s)))) (rs @ ps)"
    "Files w (path s) = Some bs" "map_file (header s) c (concat js) bs" "journaled c rs js d"
    "Extents d = durableExtents s" "journaled d ps (pendingRecords s) e" "Extents e = extents s"
    "nextSequence s = LastSequence e + 1"
  shows "session c rs ps w s"
  using assms unfolding session_def by blast

lemma map_file_extend: "map_file h c jrn bs \<Longrightarrow> map_file h c (jrn @ x) (bs @ x)"
  by (auto simp: map_file_def)

text \<open>Whatever whole records a file holds, with or without a torn one after them, it is read back.\<close>

lemma readState_session:
  assumes "session c rs ps w s" "Files w1 (path s) = Some bs" "Script w1 = []"
    and f: "map_file (header s) c (concat js @ t) bs" "length bs < 9223372036854775808"
    and j: "journaled c qs js d" "set qs \<subseteq> set (rs @ ps)" "torn t"
  shows "readState w1 (path s) (geometry_of (header s)) = (Inr (header s, downgrade_queued d), w1)"
proof -
  let ?n = "unat (ExpectedSectorCount (header s))"
  from assms(1) have n: "?n < 4294967296" "on_medium ?n (Extents c)" "list_all (record_on_medium ?n) (rs @ ps)"
    by (auto simp: session_def)
  from n(3) j(2) have "list_all (record_on_medium ?n) qs" by (auto simp: list_all_iff)
  moreover have "apply_records c qs = Inr d" using j(1) by (simp add: journaled_def)
  ultimately have m: "on_medium ?n (Extents d)" using apply_records_on_medium n(1,2) by blast
  have nz: "ExpectedSectorCount (header s) \<noteq> 0"
    using f(1) by (auto simp: map_file_def MarshalHeader_def Header_Validate_def split: if_splits)
  have "ReplayJournalReader c (Some (concat js @ t, ErrEOF)) = Inr (downgrade_queued d)"
    using ReplayJournalReader_journaled [OF j(1)] ReplayJournalReader_loop_torn [OF j(3)] by simp
  then have "ReplayJournalReaderWithinCapacity c (Some (concat js @ t, ErrEOF)) (ExpectedSectorCount (header s))
      = Inr (downgrade_queued d)"
    by (rule replay_accepts_on_medium) (simp_all add: m on_medium_downgraded nz)
  with readState_map_file [OF f(1) assms(2,3) f(2)] show ?thesis by simp
qed

lemma prepareExtent_record:
  assumes "prepareExtent s e = Inr (es, b)" "extent_typed e" "Extents d = extents s"
    "nextSequence s = LastSequence d + 1"
  shows "journaled d [extent_record (nextSequence s) e] [b] \<lparr>LastSequence = nextSequence s, Extents = es\<rparr>"
    "ApplyExtent (extents s) e = Inr es"
proof -
  from assms(1) show ap: "ApplyExtent (extents s) e = Inr es"
    by (auto simp: prepareExtent_def split: sum.splits if_splits)
  from assms(1) have m: "MarshalJournalRecord (extent_record (nextSequence s) e) = Inr b"
    by (auto simp: prepareExtent_def extent_record_def split: sum.splits if_splits)
  have "replay_record d (extent_record (nextSequence s) e) = Inr \<lparr>LastSequence = nextSequence s, Extents = es\<rparr>"
    using ap assms(3) by (simp add: replay_record_def)
  moreover have "record_canonical (extent_record (nextSequence s) e)"
    using assms(2) by (simp add: record_canonical_def extent_record_def)
  ultimately show "journaled d [extent_record (nextSequence s) e] [b] \<lparr>LastSequence = nextSequence s, Extents = es\<rparr>"
    using m assms(4) by (intro journaled_single) simp_all
qed

lemma session_stage:
  assumes "session c rs ps w s" "StageExtent s e = (None, s1)" "extent_typed e"
    "endN e \<le> unat (ExpectedSectorCount (header s))"
  shows "session c rs (ps @ [extent_record (nextSequence s) e]) w s1"
    "ApplyExtent (extents s) e = Inr (extents s1)" "header s1 = header s" "path s1 = path s"
proof -
  from assms(1,2) obtain es b where p: "prepareExtent s e = Inr (es, b)"
    and s1: "s1 = s\<lparr>extents := es, nextSequence := nextSequence s + 1,
               pendingRecords := pendingRecords s @ [b], pendingBytes := pendingBytes s + of_nat (length b)\<rparr>"
    by (auto simp: StageExtent_def split: if_splits sum.splits)
  from assms(1) obtain js bs d f where j: "Files w (path s) = Some bs" "map_file (header s) c (concat js) bs"
    "journaled c rs js d" "Extents d = durableExtents s" "journaled d ps (pendingRecords s) f"
    "Extents f = extents s" "nextSequence s = LastSequence f + 1"
    unfolding session_def by blast
  note r = prepareExtent_record [OF p assms(3) j(6,7)]
  have "journaled d (ps @ [extent_record (nextSequence s) e]) (pendingRecords s @ [b])
      \<lparr>LastSequence = nextSequence s, Extents = es\<rparr>"
    using journaled_append [OF j(5) r(1)] .
  then show "session c rs (ps @ [extent_record (nextSequence s) e]) w s1"
    using assms(1,4) s1 j
    by (intro sessionI [where e = "\<lparr>LastSequence = nextSequence s, Extents = es\<rparr>"])
       (auto simp: record_on_medium_def unusable_def session_def)
  show "ApplyExtent (extents s) e = Inr (extents s1)" "header s1 = header s" "path s1 = path s"
    using r(2) s1 by simp_all
qed

lemma session_flush:
  assumes "session c rs ps w s" "Flush w s = (None, s1, w1)"
  shows "session c (rs @ ps) [] w1 s1"
proof -
  from assms(1) obtain js bs d f where j: "Files w (path s) = Some bs" "map_file (header s) c (concat js) bs"
    "journaled c rs js d" "Extents d = durableExtents s" "journaled d ps (pendingRecords s) f"
    "Extents f = extents s" "nextSequence s = LastSequence f + 1" and u: "\<not> unusable s"
    unfolding session_def by blast
  note fl = Flush_end [OF assms(2) j(1) u]
  have "Files w1 (path s) = Some (bs @ concat (pendingRecords s))" using fl(1) by auto
  moreover have "map_file (header s) c (concat (js @ pendingRecords s)) (bs @ concat (pendingRecords s))"
    using map_file_extend [OF j(2)] by simp
  moreover have "journaled c (rs @ ps) (js @ pendingRecords s) f" using journaled_append [OF j(3,5)] .
  moreover have "extents s1 = durableExtents s1"
  proof (cases "pendingRecords s = []")
    case True
    with fl(9) have "s1 = s" by simp
    moreover have "f = d" using True j(5) by (auto simp: journaled_def)
    ultimately show ?thesis using j by simp
  qed (use fl in simp)
  moreover have "pendingRecords s1 = []" using fl(8) by simp
  ultimately show ?thesis
    using assms(1) fl(2-7) j(6,7)
    by (intro sessionI [where e = f and d = f]) (auto simp: session_def)
qed

text \<open>\<open>appendExtent\<close> is \<open>StageExtent\<close> followed by \<open>Flush\<close> on a store without pending records.\<close>

lemma appendExtent_None:
  assumes "appendExtent w s e True = (None, s1, w1)" "Files w (path s) = Some c"
  shows "\<exists>es b. prepareExtent s e = Inr (es, b) \<and> Files w1 = (Files w)(path s := Some (c @ b)) \<and>
    Stable w1 (path s) = Some (c @ b) \<and> extents s1 = es \<and> durableExtents s1 = es \<and>
    nextSequence s1 = nextSequence s + 1 \<and> header s1 = header s \<and> path s1 = path s \<and>
    pendingRecords s1 = pendingRecords s \<and> pendingBytes s1 = pendingBytes s \<and>
    closed s1 = closed s \<and> handle s1 \<noteq> None"
proof -
  from assms(1) obtain es b pos w2 pos1 w3 where p: "prepareExtent s e = Inr (es, b)"
    and sk: "os_SeekEnd w (path s) = (Inr pos, w2)"
    and wf: "writeFull w2 (path s) pos b = ((None, pos1), w3)" and sy: "os_Sync w3 (path s) = (None, w1)"
    and s1: "s1 = s\<lparr>handle := Some pos1, extents := es, nextSequence := nextSequence s + 1, durableExtents := es\<rparr>"
    by (auto simp: appendExtent_def split: sum.splits prod.splits option.splits)
  note k = os_SeekEnd_pos [OF sk assms(2)]
  then have "Files w2 (path s) = Some c" using assms(2) by simp
  from writeFull_end [OF this] wf k have "Files w3 = (Files w)(path s := Some (c @ b))" by fastforce
  moreover note os_Sync_frame [OF sy]
  ultimately show ?thesis using p s1 by auto
qed

lemma session_append:
  assumes "session c rs ps w s" "Store_ApplyExtent w s e = (None, s1, w1)" "extent_typed e"
    "endN e \<le> unat (ExpectedSectorCount (header s))"
  shows "session c (rs @ ps @ [extent_record (nextSequence s) e]) [] w1 s1"
    "ApplyExtent (extents s) e = Inr (extents s1)" "header s1 = header s" "path s1 = path s"
    "Stable w1 (path s) = Files w1 (path s)"
proof -
  have u: "\<not> unusable s" using assms(1) by (simp add: session_def)
  from assms(2) u obtain s0 w0 where f: "Flush w s = (None, s0, w0)" and a: "appendExtent w0 s0 e True = (None, s1, w1)"
    by (auto simp: Store_ApplyExtent_def split: prod.splits option.splits)
  have ses: "session c (rs @ ps) [] w0 s0" using session_flush [OF assms(1) f] .
  then obtain js bs d where j: "Files w0 (path s0) = Some bs" "map_file (header s0) c (concat js) bs"
    "journaled c (rs @ ps) js d" "Extents d = durableExtents s0" "pendingRecords s0 = []"
    "Extents d = extents s0" "nextSequence s0 = LastSequence d + 1"
    by (auto simp: session_def)
  from assms(1) obtain bs0 where b0: "Files w (path s) = Some bs0" by (auto simp: session_def)
  note fl = Flush_end(2-7) [OF f b0 u]
  from appendExtent_None [OF a j(1)] obtain es b where r: "prepareExtent s0 e = Inr (es, b)"
    "Files w1 = (Files w0)(path s0 := Some (bs @ b))" "Stable w1 (path s0) = Some (bs @ b)"
    "extents s1 = es" "durableExtents s1 = es" "nextSequence s1 = nextSequence s0 + 1"
    "header s1 = header s0" "path s1 = path s0" "pendingRecords s1 = []" "closed s1 = closed s0"
    "handle s1 \<noteq> None" using j(5) by auto
  note pr = prepareExtent_record [OF r(1) assms(3) j(6,7)]
  show "header s1 = header s" "path s1 = path s" using r fl by simp_all
  show "ApplyExtent (extents s) e = Inr (extents s1)" using pr(2) r fl by simp
  show "Stable w1 (path s) = Files w1 (path s)" using r fl by simp
  have "map_file (header s1) c (concat (js @ [b])) (bs @ b)" using map_file_extend [OF j(2)] r by simp
  moreover have "journaled c (rs @ ps @ [extent_record (nextSequence s) e]) (js @ [b])
      \<lparr>LastSequence = nextSequence s, Extents = es\<rparr>"
    using journaled_append [OF j(3) pr(1)] fl by simp
  moreover have "Files w1 (path s1) = Some (bs @ b)" using r by simp
  ultimately show "session c (rs @ ps @ [extent_record (nextSequence s) e]) [] w1 s1"
    using assms(1,4) r fl
    by (intro sessionI) (auto simp: session_def unusable_def record_on_medium_def)
qed

text \<open>Creating a map starts a session on an empty checkpoint.\<close>

lemma writeAt_done:
  "Script w = [] \<Longrightarrow> writeAt w s off data = (None, put_file w (path s) (overwrite off data (contents w (path s))))"
  by (simp add: writeAt_def os_WriteAt_def Let_def)

lemma os_Sync_done: "Script w = [] \<Longrightarrow> os_Sync w p = (None, w\<lparr>Stable := (Stable w)(p := Files w p)\<rparr>)"
  by (simp add: os_Sync_def)

lemma os_SeekEnd_done: "Script w = [] \<Longrightarrow> os_SeekEnd w p = (Inr (length (contents w p)), w)"
  by (simp add: os_SeekEnd_def os_Stat_size_def)

abbreviation empty_checkpoint :: Checkpoint where
  "empty_checkpoint \<equiv> \<lparr>LastSequence = 0, Extents = []\<rparr>"

lemma MarshalCheckpoint_empty: "\<exists>cb. MarshalCheckpoint empty_checkpoint = Inr cb"
  by (simp add: MarshalCheckpoint_def ValidateExtentSet_def DefaultDecodeLimits_def Let_def)

lemma Create_session:
  assumes "Create w p h = (Inr s, w1)" "Script w = []" "header_typed h"
    "unat (ExpectedSectorCount h) < 4294967296"
  shows "session empty_checkpoint [] [] w1 s" "path s = p" "header s = h\<lparr>CleanShutdown := False\<rparr>"
    "extents s = []" "Script w1 = []"
proof -
  let ?h = "h\<lparr>CleanShutdown := False\<rparr>"
  from assms(1) obtain hb where v: "Header_Validate h = None" and hb: "MarshalHeader ?h = Inr hb"
    by (auto simp: Create_def Let_def split: option.splits sum.splits)
  obtain cb where cb: "MarshalCheckpoint empty_checkpoint = Inr cb" using MarshalCheckpoint_empty by blast
  have o: "os_Create_excl w p = (None, put_file w p [])"
    using assms(1,2) v hb cb by (auto simp: Create_def os_Create_excl_def Let_def split: if_splits)
  let ?s = "\<lparr>path = p, handle = Some 0, header = ?h, extents = [], durableExtents = [],
                     nextSequence = 1, pendingBytes = 0, pendingRecords = [], closed = False\<rparr>"
  have ov: "overwrite (length hb) cb hb = hb @ cb" "overwrite 0 hb [] = hb"
    by (simp_all add: overwrite_def)
  let ?w = "put_file (put_file (put_file w p []) p hb) p (hb @ cb)"
  have cr: "Create w p h = (Inr (?s\<lparr>handle := Some (length (hb @ cb))\<rparr>), ?w\<lparr>Stable := (Stable ?w)(p := Files ?w p)\<rparr>)"
    using assms(2) v hb cb
    by (simp add: Create_def o Let_def writeAt_done ov os_Sync_done os_SeekEnd_done contents_def)
  then have eq: "s = ?s\<lparr>handle := Some (length (hb @ cb))\<rparr>" "w1 = ?w\<lparr>Stable := (Stable ?w)(p := Files ?w p)\<rparr>"
    using assms(1) by simp_all
  then show "path s = p" "header s = ?h" "extents s = []" "Script w1 = []" using assms(2) by simp_all
  have "header_typed ?h" using assms(3) by (simp add: header_typed_def)
  then have "map_file ?h empty_checkpoint [] (hb @ cb)"
    using hb cb by (simp add: map_file_def checkpoint_typed_def)
  with assms(4) eq show "session empty_checkpoint [] [] w1 s"
    by (intro sessionI [where js = "[]"]) (auto simp: unusable_def on_medium_def)
qed

end
