(* ===== verification/CrashFacts.thy ===== *)
theory CrashFacts
  imports StoreFacts
begin

text \<open>
  Facts about what a crash leaves of a map file: the file cut off somewhere in the records that were
  being written, and what a reader makes of it.
\<close>

section \<open>Crashes\<close>

text \<open>
  What a crash can leave of a file: its stable contents and any prefix of what was appended to them
  since the last successful sync.
\<close>

definition crash_of :: "World \<Rightarrow> string \<Rightarrow> bytes \<Rightarrow> bool" where
  "crash_of w p bs \<longleftrightarrow>
     (\<exists>st x k. Stable w p = Some st \<and> Files w p = Some (st @ x) \<and> bs = st @ take k x)"

lemma writeFull_Stable: "writeFull w p pos data = ((err, q), w1) \<Longrightarrow> Stable w1 = Stable w"
proof (induction w p pos data rule: writeFull.induct)
  case (1 w p pos data)
  obtain n e w2 where wr: "os_WriteAt w p pos data = ((n, e), w2)" by (metis prod.exhaust)
  have "Stable w2 = Stable w"
    using wr by (auto simp: os_WriteAt_def Let_def put_file_def split: prod.splits dest!: next_io_frame)
  with 1 wr show ?case by (auto simp: writeFull.simps [of w p pos data] split: if_splits option.splits)
qed

lemma write_records_Stable: "write_records w p pos recs = ((err, q), w1) \<Longrightarrow> Stable w1 = Stable w"
  by (induction recs arbitrary: w pos) (auto split: prod.splits option.splits dest!: writeFull_Stable)

lemma Flush_Stable:
  assumes "Flush w s = (err, s1, w1)" "\<not> unusable s"
  shows "Stable w1 (path s) = Stable w (path s) \<or> Stable w1 (path s) = Files w1 (path s)"
    "err = None \<Longrightarrow> pendingRecords s \<noteq> [] \<Longrightarrow> Stable w1 (path s) = Files w1 (path s)"
proof -
  have "(Stable w1 (path s) = Stable w (path s) \<or> Stable w1 (path s) = Files w1 (path s)) \<and>
    (err = None \<longrightarrow> pendingRecords s \<noteq> [] \<longrightarrow> Stable w1 (path s) = Files w1 (path s))"
  proof (cases "pendingRecords s = []")
    case True
    with assms show ?thesis by (simp add: Flush_def)
  next
    case ne: False
    obtain r w2 where sk: "os_SeekEnd w (path s) = (r, w2)" by force
    note fr = os_SeekEnd_frame [OF sk]
    show ?thesis
    proof (cases r)
      case (Inl er)
      with assms ne sk fr show ?thesis by (auto simp: Flush_def)
    next
      case (Inr pos)
      obtain e q w3 where wr: "write_records w2 (path s) pos (pendingRecords s) = ((e, q), w3)"
        by (metis prod.exhaust)
      have st: "Stable w3 = Stable w2"
        using write_records_Stable [OF wr] .
      obtain e2 w4 where sy: "os_Sync w3 (path s) = (e2, w4)" by force
      from assms ne sk Inr wr sy st fr os_Sync_frame [OF sy] show ?thesis
        by (cases e; cases e2) (auto simp: Flush_def)
    qed
  qed
  then show "Stable w1 (path s) = Stable w (path s) \<or> Stable w1 (path s) = Files w1 (path s)"
    "err = None \<Longrightarrow> pendingRecords s \<noteq> [] \<Longrightarrow> Stable w1 (path s) = Files w1 (path s)" by blast+
qed

lemma Inspect_session:
  assumes "session c rs ps w s" "Files w1 (path s) = Some bs" "Script w1 = []"
    "map_file (header s) c (concat js @ t) bs" "length bs < 9223372036854775808"
    "journaled c qs js d" "set qs \<subseteq> set (rs @ ps)" "torn t"
  shows "Inspect w1 (path s) (geometry_of (header s)) = (Inr (header s, downgraded (Extents d)), w1)"
  using readState_session [OF assms] by (simp add: Inspect_def)

lemma os_Sync_other: "os_Sync w p = (e, w1) \<Longrightarrow> q \<noteq> p \<Longrightarrow> Stable w1 q = Stable w q"
  by (auto simp: os_Sync_def split: prod.splits option.splits dest!: next_io_frame)

lemma Flush_other:
  assumes "Flush w s = (err, s1, w1)" "q \<noteq> path s"
  shows "Stable w1 q = Stable w q"
  using assms
  by (auto simp: Flush_def split: if_splits sum.splits option.splits prod.splits
      dest!: os_SeekEnd_frame write_records_Stable os_Sync_other [where q = q])

text \<open>A crash during a flush cuts the pending records off somewhere, and nowhere else.\<close>

lemma Flush_cut:
  assumes f: "Flush w s = (err, s1, w1)" and u: "\<not> unusable s" and b0: "Files w (path s) = Some b0"
    and st: "Stable w (path s) = Files w (path s)" and cr: "crash_of w1 (path s) bs"
  shows "\<exists>n. bs = b0 @ take n (concat (pendingRecords s)) \<and>
    (err = None \<longrightarrow> length (concat (pendingRecords s)) \<le> n)"
proof -
  let ?p = "concat (pendingRecords s)"
  from Flush_end(1) [OF f b0 u] obtain k where k: "Files w1 (path s) = Some (b0 @ take k ?p)"
    "err = None \<longrightarrow> k = length ?p" by (metis fun_upd_same)
  note fs = Flush_Stable [OF f u]
  from cr obtain t x m where x: "Stable w1 (path s) = Some t" "Files w1 (path s) = Some (t @ x)"
    "bs = t @ take m x" by (auto simp: crash_of_def)
  have "t = b0 \<or> t = b0 @ take k ?p" using fs(1) x(1) st b0 k(1) by auto
  then show ?thesis
  proof
    assume t: "t = b0"
    with x k have xe: "x = take k ?p" by simp
    then have b: "bs = b0 @ take (min k m) ?p" using t x(3) by (simp add: take_take min.commute)
    show ?thesis
    proof (cases "err = None")
      case True
      then have "x = []" if "pendingRecords s \<noteq> []" using fs(2) that x by simp
      then have "?p = []" using xe k(2) True by (cases "pendingRecords s = []") auto
      then show ?thesis using b by (intro exI [of _ "min k m"]) (simp del: concat_eq_Nil_conv)
    qed (use b in blast)
  next
    assume t: "t = b0 @ take k ?p"
    then have "x = []" using x(2) k(1) by simp
    with t x(3) k(2) show ?thesis by (intro exI [of _ k]) auto
  qed
qed

text \<open>A file cut off in its pending records holds a prefix of them and is read back.\<close>

lemma Inspect_cut:
  assumes ses: "session c rs ps w s" and b0: "Files w (path s) = Some b0"
    and bs: "bs = b0 @ take n (concat (pendingRecords s))" "length bs < 9223372036854775808"
    and w2: "Files w2 (path s) = Some bs" "Script w2 = []"
  shows "\<exists>i \<le> length ps. \<exists>d. apply_records c (rs @ take i ps) = Inr d \<and>
    Inspect w2 (path s) (geometry_of (header s)) = (Inr (header s, downgraded (Extents d)), w2) \<and>
    (length (concat (pendingRecords s)) \<le> n \<longrightarrow> i = length ps \<and> Extents d = extents s)"
proof -
  let ?p = "concat (pendingRecords s)"
  from ses b0 obtain js d e where j: "map_file (header s) c (concat js) b0"
    "journaled c rs js d" "journaled d ps (pendingRecords s) e" "Extents e = extents s"
    by (auto simp: session_def)
  have mp: "map MarshalJournalRecord ps = map Inr (pendingRecords s)" using j(3) by (simp add: journaled_def)
  from take_records [OF mp, of n] obtain i t2 where i: "i \<le> length (pendingRecords s)" "torn t2"
    "take n ?p = concat (take i (pendingRecords s)) @ t2"
    "length ?p \<le> n \<longrightarrow> i = length (pendingRecords s)" by blast
  have lp: "length (pendingRecords s) = length ps" using mp by (metis length_map)
  obtain f where f: "journaled d (take i ps) (take i (pendingRecords s)) f" using journaled_take [OF j(3)] by blast
  have jf: "journaled c (rs @ take i ps) (js @ take i (pendingRecords s)) f" using journaled_append [OF j(2) f] .
  have mf: "map_file (header s) c (concat (js @ take i (pendingRecords s)) @ t2) bs"
    using map_file_extend [OF j(1), of "take n ?p"] bs(1) i(3) by simp
  have "set (rs @ take i ps) \<subseteq> set (rs @ ps)" by (auto dest: in_set_takeD)
  from Inspect_session [OF ses w2 mf bs(2) jf this i(2)]
  have "Inspect w2 (path s) (geometry_of (header s)) = (Inr (header s, downgraded (Extents f)), w2)" .
  moreover have "i = length ps \<and> Extents f = extents s" if "length ?p \<le> n"
  proof -
    have "i = length ps" using that i(4) lp by simp
    with f j(3,4) show ?thesis by (auto simp: journaled_def)
  qed
  moreover have "apply_records c (rs @ take i ps) = Inr f" using jf by (simp add: journaled_def)
  ultimately show ?thesis using i(1) lp by auto
qed

end
