(* ===== verification/StoreProps.thy ===== *)
theory StoreProps
  imports CrashFacts
begin

text \<open>
  The properties of the recovery map store: what a session leaves behind, what survives a crash,
  the two ways in which a store loses a map, and the rollback of a failed startup.
\<close>

section \<open>Sessions without faults\<close>

datatype store_op = Stage Extent | Append Extent | Sync

fun run_op :: "store_op \<Rightarrow> World \<times> Store \<Rightarrow> World \<times> Store" where
  "run_op (Stage e) (w, s) = (case StageExtent s e of (_, s1) \<Rightarrow> (w, s1))"
| "run_op (Append e) (w, s) = (case Store_ApplyExtent w s e of (_, s1, w1) \<Rightarrow> (w1, s1))"
| "run_op Sync (w, s) = (case Flush w s of (_, s1, w1) \<Rightarrow> (w1, s1))"

text \<open>What an operation does to the abstract map: an update that is not acceptable is ignored.\<close>

fun abs_op :: "Extent list \<Rightarrow> store_op \<Rightarrow> Extent list" where
  "abs_op es Sync = es"
| "abs_op es (Stage e) = (case ApplyExtent es e of Inl _ \<Rightarrow> es | Inr r \<Rightarrow> r)"
| "abs_op es (Append e) = (case ApplyExtent es e of Inl _ \<Rightarrow> es | Inr r \<Rightarrow> r)"

fun op_ok :: "nat \<Rightarrow> store_op \<Rightarrow> bool" where
  "op_ok n Sync = True"
| "op_ok n (Stage e) = (extent_typed e \<and> endN e \<le> n)"
| "op_ok n (Append e) = (extent_typed e \<and> endN e \<le> n)"

lemma writeFull_done:
  "Script w = [] \<Longrightarrow> \<exists>pos1 w1. writeFull w p pos data = ((None, pos1), w1) \<and> Script w1 = []"
proof (induction "length data" arbitrary: w pos data rule: less_induct)
  case less
  show ?case
  proof (cases "data = []")
    case True
    with less.prems show ?thesis by (simp add: writeFull.simps)
  next
    case False
    let ?w = "put_file w p (overwrite pos data (contents w p))"
    have "writeFull w p pos data = ((None, pos + length data), ?w)"
      using less.prems False
      by (simp add: writeFull.simps [of w] os_WriteAt_def Let_def writeFull.simps [of ?w _ _ "[]"])
    with less.prems show ?thesis by simp
  qed
qed

lemma write_records_done:
  "Script w = [] \<Longrightarrow> \<exists>pos1 w1. write_records w p pos recs = ((None, pos1), w1) \<and> Script w1 = []"
proof (induction recs arbitrary: w pos)
  case (Cons r recs)
  obtain q w1 where "writeFull w p pos r = ((None, q), w1)" "Script w1 = []"
    using writeFull_done [OF Cons.prems] by blast
  with Cons.IH [OF this(2), of q] show ?case by auto
qed simp

lemma Flush_done:
  assumes "Script w = []" "\<not> unusable s"
  shows "\<exists>s1 w1. Flush w s = (None, s1, w1) \<and> Script w1 = []"
proof (cases "pendingRecords s = []")
  case True
  with assms show ?thesis by (simp add: Flush_def)
next
  case False
  obtain q w1 where "write_records w (path s) (length (contents w (path s))) (pendingRecords s) = ((None, q), w1)"
    "Script w1 = []" using write_records_done [OF assms(1)] by blast
  with False assms show ?thesis by (simp add: Flush_def os_SeekEnd_done os_Sync_done)
qed

lemma MarshalJournalRecord_extent:
  assumes "extent_valid e" "extent_typed e" "s \<noteq> 0"
  shows "\<exists>b. MarshalJournalRecord (extent_record s e) = Inr b"
proof (rule MarshalJournalRecord_total)
  obtain b where b: "MarshalExtent e = Inr b" using assms(1) MarshalExtent_total by blast
  with MarshalExtent_length [OF assms(2) b] assms(3)
  show "JournalRecord_Validate (extent_record s e) = None"
    by (simp add: JournalRecord_Validate_def payloadBytes_def extent_record_def extentEncodedBytes_def maxJournalPayloadBytes_def)
qed

lemma prepareExtent_total:
  assumes "nextSequence s \<noteq> 0" "extent_typed e"
  shows "prepareExtent s e = Inl er \<Longrightarrow> \<exists>er. ApplyExtent (extents s) e = Inl er"
    "prepareExtent s e = Inr (es, b) \<Longrightarrow> ApplyExtent (extents s) e = Inr es"
proof -
  show "prepareExtent s e = Inr (es, b) \<Longrightarrow> ApplyExtent (extents s) e = Inr es"
    by (auto simp: prepareExtent_def split: sum.splits if_splits)
  assume p: "prepareExtent s e = Inl er"
  show "\<exists>er. ApplyExtent (extents s) e = Inl er"
  proof (rule ccontr)
    assume "\<not> ?thesis"
    then obtain r where r: "ApplyExtent (extents s) e = Inr r" by (cases "ApplyExtent (extents s) e") auto
    obtain b where "MarshalJournalRecord (extent_record (nextSequence s) e) = Inr b"
      using MarshalJournalRecord_extent ApplyExtent_InrD(1) [OF r] assms by blast
    with p r assms(1) show False by (simp add: prepareExtent_def extent_record_def)
  qed
qed

lemma appendExtent_Inr_done:
  assumes "Script w = []" "prepareExtent s e = Inr (es, b)"
  shows "\<exists>s1 w1. appendExtent w s e True = (None, s1, w1) \<and> Script w1 = []"
proof -
  obtain q w1 where "writeFull w (path s) (length (contents w (path s))) b = ((None, q), w1)" "Script w1 = []"
    using writeFull_done [OF assms(1)] by blast
  with assms show ?thesis by (simp add: appendExtent_def os_SeekEnd_done os_Sync_done)
qed

lemma journaled_LastSequence: "journaled c rs js d \<Longrightarrow> LastSequence d = LastSequence c + of_nat (length rs)"
proof (induction rs arbitrary: c js)
  case (Cons r rs)
  then obtain c1 ks where c1: "replay_record c r = Inr c1" "apply_records c1 rs = Inr d"
    "Sequence r = LastSequence c + 1" "numbered_from (LastSequence c + 1 + 1) rs"
    "map MarshalJournalRecord rs = map Inr ks"
    by (fastforce simp: journaled_def Cons_eq_map_conv split: sum.splits)
  have l: "LastSequence c1 = LastSequence c + 1" using replay_record_LastSequence [OF c1(1)] c1(3) by simp
  with c1 have "journaled c1 rs ks d" by (simp add: journaled_def)
  from Cons.IH [OF this] l show ?case by simp
qed (simp add: journaled_def)

lemma session_nextSequence:
  "session c rs ps w s \<Longrightarrow> nextSequence s = LastSequence c + of_nat (length (rs @ ps)) + 1"
  by (auto simp: session_def dest!: journaled_LastSequence)

lemma session_run_op:
  assumes "session empty_checkpoint rs ps w s" "Script w = []" "length (rs @ ps) < 18446744073709551615"
    "op_ok (unat (ExpectedSectorCount (header s))) op" "run_op op (w, s) = (w1, s1)"
  shows "\<exists>rs1 ps1. session empty_checkpoint rs1 ps1 w1 s1 \<and> Script w1 = [] \<and>
    length (rs1 @ ps1) \<le> Suc (length (rs @ ps)) \<and> extents s1 = abs_op (extents s) op \<and>
    header s1 = header s \<and> path s1 = path s"
proof -
  have u: "\<not> unusable s" and f: "\<exists>bs. Files w (path s) = Some bs" using assms(1) by (auto simp: session_def)
  have nz: "nextSequence s \<noteq> 0"
  proof
    assume "nextSequence s = 0"
    with session_nextSequence [OF assms(1)] have z: "(of_nat (length (rs @ ps) + 1) :: u64) = 0"
      by (simp add: add.commute)
    have "unat (of_nat (length (rs @ ps) + 1) :: u64) = length (rs @ ps) + 1"
      using assms(3) by (intro unat_of_nat_u64) simp
    with z show False by simp
  qed
  obtain s0 w0 where fl: "Flush w s = (None, s0, w0)" "Script w0 = []" using Flush_done [OF assms(2) u] by blast
  from f obtain bs where "Files w (path s) = Some bs" by blast
  note s0 = Flush_end [OF fl(1) this u]
  have fs: "session empty_checkpoint (rs @ ps) [] w0 s0" using session_flush [OF assms(1) fl(1)] .
  show ?thesis
  proof (cases op)
    case Sync
    with assms(5) fl fs s0 show ?thesis by (intro exI [of _ "rs @ ps"] exI [of _ "[]"]) auto
  next
    case (Stage e)
    then have ok: "extent_typed e" "endN e \<le> unat (ExpectedSectorCount (header s))" using assms(4) by simp_all
    show ?thesis
    proof (cases "prepareExtent s e")
      case (Inl er)
      with assms(5) u Stage have "w1 = w" "s1 = s" by (simp_all add: StageExtent_def)
      with assms(1,2) Stage prepareExtent_total(1) [OF nz ok(1) Inl] show ?thesis
        by (intro exI [of _ rs] exI [of _ ps]) auto
    next
      case (Inr p)
      then obtain es b where "prepareExtent s e = Inr (es, b)" by (cases p) auto
      then have "StageExtent s e = (None, s1)" "w1 = w"
        using u assms(5) Stage by (auto simp: StageExtent_def)
      with session_stage [OF assms(1) this(1) ok] assms(2) Stage show ?thesis
        by (intro exI [of _ rs] exI [of _ "ps @ [extent_record (nextSequence s) e]"]) auto
    qed
  next
    case (Append e)
    then have ok: "extent_typed e" "endN e \<le> unat (ExpectedSectorCount (header s))" using assms(4) by simp_all
    have nz0: "nextSequence s0 \<noteq> 0" using s0(3) nz by simp
    have run: "Store_ApplyExtent w s e = appendExtent w0 s0 e True" using u fl by (simp add: Store_ApplyExtent_def)
    show ?thesis
    proof (cases "prepareExtent s0 e")
      case (Inl er)
      with assms(5) run Append have "w1 = w0" "s1 = s0" by (simp_all add: appendExtent_def)
      with fs fl(2) Append s0 prepareExtent_total(1) [OF nz0 ok(1) Inl] show ?thesis
        by (intro exI [of _ "rs @ ps"] exI [of _ "[]"]) auto
    next
      case (Inr p)
      then obtain es b where "prepareExtent s0 e = Inr (es, b)" by (cases p) auto
      from appendExtent_Inr_done [OF fl(2) this] assms(5) run Append
      have a: "Store_ApplyExtent w s e = (None, s1, w1)" "Script w1 = []" by auto
      from session_append [OF assms(1) a(1) ok] a(2) Append show ?thesis
        by (intro exI [of _ "rs @ ps @ [extent_record (nextSequence s) e]"] exI [of _ "[]"]) auto
    qed
  qed
qed

definition run_ops :: "store_op list \<Rightarrow> World \<times> Store \<Rightarrow> World \<times> Store" where
  "run_ops ops ws = fold run_op ops ws"

lemma session_run_ops:
  "session empty_checkpoint rs ps w s \<Longrightarrow> Script w = [] \<Longrightarrow>
   length (rs @ ps) + length ops < 18446744073709551615 \<Longrightarrow>
   \<forall>op \<in> set ops. op_ok (unat (ExpectedSectorCount (header s))) op \<Longrightarrow> run_ops ops (w, s) = (w1, s1) \<Longrightarrow>
   \<exists>rs1 ps1. session empty_checkpoint rs1 ps1 w1 s1 \<and> Script w1 = [] \<and>
     length (rs1 @ ps1) \<le> length (rs @ ps) + length ops \<and>
     extents s1 = foldl abs_op (extents s) ops \<and> header s1 = header s \<and> path s1 = path s"
proof (induction ops arbitrary: rs ps w s)
  case Nil
  then show ?case by (intro exI [of _ rs] exI [of _ ps]) (simp add: run_ops_def)
next
  case (Cons op ops)
  obtain w2 s2 where st: "run_op op (w, s) = (w2, s2)" by force
  have "length (rs @ ps) < 18446744073709551615" using Cons.prems(3) by simp
  from session_run_op [OF Cons.prems(1,2) this _ st] Cons.prems(4) obtain rs2 ps2 where
    s2: "session empty_checkpoint rs2 ps2 w2 s2" "Script w2 = []" "length (rs2 @ ps2) \<le> Suc (length (rs @ ps))"
    "extents s2 = abs_op (extents s) op" "header s2 = header s" "path s2 = path s" by auto
  have "length (rs2 @ ps2) + length ops < 18446744073709551615" using s2(3) Cons.prems(3) by simp
  from Cons.IH [OF s2(1,2) this] Cons.prems(4,5) st s2 obtain rs1 ps1 where
    "session empty_checkpoint rs1 ps1 w1 s1" "Script w1 = []"
    "length (rs1 @ ps1) \<le> length (rs2 @ ps2) + length ops"
    "extents s1 = foldl abs_op (extents s) (op # ops)" "header s1 = header s" "path s1 = path s"
    by (auto simp: run_ops_def)
  with s2(3) show ?case by (intro exI [of _ rs1] exI [of _ ps1]) simp
qed

lemma journal_length:
  "map MarshalJournalRecord rs = map Inr js \<Longrightarrow> length (concat js) \<le> length rs * 1048594"
proof (induction rs arbitrary: js)
  case (Cons r rs)
  then obtain b ks where js: "js = b # ks" "MarshalJournalRecord r = Inr b"
    "map MarshalJournalRecord rs = map Inr ks" by (auto simp: Cons_eq_map_conv)
  obtain p where "payloadBytes r = Inr p" "length p \<le> maxJournalPayloadBytes"
    using js(2) by (rule MarshalJournalRecord_Inr)
  then have "length b \<le> 1048594" using MarshalJournalRecord_length [OF js(2)] by (simp add: maxJournalPayloadBytes_def)
  with Cons.IH [OF js(3)] js(1) show ?case by simp
qed simp

lemma map_file_length:
  assumes "map_file h empty_checkpoint (concat js) bs" "journaled c rs js d" "length rs < 1099511627776"
  shows "length bs < 9223372036854775808"
proof -
  from assms(1) obtain hb cb where m: "header_typed h" "MarshalHeader h = Inr hb"
    "MarshalCheckpoint empty_checkpoint = Inr cb" "bs = hb @ cb @ concat js" by (auto simp: map_file_def)
  have "length cb = 26" using MarshalCheckpoint_length [OF _ m(3)] by (simp add: checkpoint_typed_def)
  moreover have "length (concat js) \<le> length rs * 1048594"
    using assms(2) by (intro journal_length) (simp add: journaled_def)
  ultimately show ?thesis using m header_length_field(1) [OF m(1,2)] assms(3) by simp
qed

lemma map_file_new_header:
  assumes "map_file h c jrn bs" "header_typed h'" "MarshalHeader h' = Inr hb'"
  shows "map_file h' c jrn (overwrite 0 hb' bs)"
proof -
  from assms(1) obtain hb cb where m: "header_typed h" "checkpoint_typed c" "MarshalHeader h = Inr hb"
    "MarshalCheckpoint c = Inr cb" "bs = hb @ cb @ jrn" unfolding map_file_def by blast
  have "length hb' = length hb" using header_length_field(1) assms(2,3) m(1,3) by metis
  then have "overwrite 0 hb' bs = hb' @ cb @ jrn" using m(5) overwrite_start by simp
  with m assms(2,3) show ?thesis by (simp add: map_file_def)
qed

lemma MarshalHeader_clean:
  "MarshalHeader h = Inr hb \<Longrightarrow> \<exists>hb'. MarshalHeader (h\<lparr>CleanShutdown := b\<rparr>) = Inr hb'"
  by (auto simp: MarshalHeader_def Header_Validate_def split: if_splits)

lemma torn_Nil [simp]: "torn []"
  by (simp add: torn_def)

lemma Close_done:
  assumes "session c rs ps w s" "Script w = []"
  shows "\<exists>s1 w1. Close w s clean = (None, s1, w1) \<and> Script w1 = [] \<and> closed s1 \<and> extents s1 = extents s \<and>
    (\<exists>bs js d. Files w1 (path s) = Some bs \<and>
       map_file ((header s)\<lparr>CleanShutdown := clean\<rparr>) c (concat js) bs \<and>
       journaled c (rs @ ps) js d \<and> Extents d = extents s) \<and>
    Stable w1 (path s) = Files w1 (path s)"
proof -
  have u: "\<not> unusable s" using assms(1) by (simp add: session_def)
  obtain s0 w0 where fl: "Flush w s = (None, s0, w0)" "Script w0 = []" using Flush_done [OF assms(2) u] by blast
  from assms(1) obtain bs0 where "Files w (path s) = Some bs0" by (auto simp: session_def)
  note s0 = Flush_end [OF fl(1) this u]
  from session_flush [OF assms(1) fl(1)] obtain js bs d where j: "Files w0 (path s0) = Some bs"
    "map_file (header s0) c (concat js) bs" "journaled c (rs @ ps) js d" "Extents d = extents s0"
    by (auto simp: session_def)
  from j(2) obtain hb where m: "header_typed (header s0)" "MarshalHeader (header s0) = Inr hb"
    by (auto simp: map_file_def)
  obtain hb' where hb': "MarshalHeader ((header s0)\<lparr>CleanShutdown := clean\<rparr>) = Inr hb'"
    using MarshalHeader_clean [OF m(2)] by blast
  have t': "header_typed ((header s0)\<lparr>CleanShutdown := clean\<rparr>)" using m(1) by (simp add: header_typed_def)
  have mf: "map_file ((header s)\<lparr>CleanShutdown := clean\<rparr>) c (concat js) (overwrite 0 hb' bs)"
    using map_file_new_header [OF j(2) t' hb'] s0 by simp
  let ?w = "put_file w0 (path s) (overwrite 0 hb' bs)"
  let ?s = "s0\<lparr>header := (header s0)\<lparr>CleanShutdown := clean\<rparr>, closed := True\<rparr>"
  have "contents w0 (path s) = bs" using j(1) s0 by (intro contents_eq) simp
  then have "Close w s clean = (None, ?s, ?w\<lparr>Stable := (Stable ?w)(path s := Files ?w (path s))\<rparr>)"
    using u fl hb' s0 by (simp add: Close_def Let_def writeAt_done os_Sync_done os_Close_def)
  moreover have "extents ?s = extents s" using s0 by simp
  moreover have "Extents d = extents s" using j(4) s0 by simp
  ultimately show ?thesis using fl(2) mf j(3) by (simp, blast)
qed

lemma session_set_header:
  assumes "session c rs ps w s" "map_file h c (concat js) bs" "journaled c (rs @ ps) js d"
    "Extents d = extents s" "ExpectedSectorCount h = ExpectedSectorCount (header s)"
    "Files w1 (path s) = Some bs"
  shows "session c (rs @ ps) [] w1 (s\<lparr>header := h, durableExtents := extents s, pendingRecords := []\<rparr>)"
proof -
  have "nextSequence s = LastSequence d + 1"
    using session_nextSequence [OF assms(1)] journaled_LastSequence [OF assms(3)] by simp
  with assms show ?thesis
    by (intro sessionI [where js = js and bs = bs and d = d and e = d]) (auto simp: session_def unusable_def)
qed

text \<open>
  C7: A recovery session keeps what it recorded. A map that is created, updated by any sequence of
  staged extents, appended extents and flushes, and closed, reads back with exactly the extents of
  the abstract map: each acceptable update applied in order, unacceptable ones ignored, and queued
  extents turned into unknown ones. The header carries the clean flag it was closed with.
\<close>

theorem store_session_reopens:
  assumes "Create w p h = (Inr s, w1)" "Script w = []" "header_typed h"
    and "unat (ExpectedSectorCount h) < 4294967296" "length ops < 1099511627776"
    and "list_all (op_ok (unat (ExpectedSectorCount h))) ops"
    and "run_ops ops (w1, s) = (w2, s2)" "Close w2 s2 clean = (err, s3, w3)"
  shows "err = None \<and> extents s3 = foldl abs_op [] ops \<and>
    Inspect w3 p (geometry_of h) = (Inr (h\<lparr>CleanShutdown := clean\<rparr>, downgraded (foldl abs_op [] ops)), w3)"
proof -
  note cr = Create_session [OF assms(1-4)]
  let ?h = "h\<lparr>CleanShutdown := clean\<rparr>"
  have "\<forall>op \<in> set ops. op_ok (unat (ExpectedSectorCount (header s))) op"
    using assms(6) cr(3) by (simp add: list_all_iff)
  from session_run_ops [OF cr(1,5) _ this assms(7)] assms(5) cr obtain rs ps where
    r: "session empty_checkpoint rs ps w2 s2" "Script w2 = []" "extents s2 = foldl abs_op [] ops"
      "header s2 = header s" "path s2 = p" "length (rs @ ps) \<le> length ops" by auto
  have h: "(header s2)\<lparr>CleanShutdown := clean\<rparr> = ?h" using r(4) cr(3) by simp
  from Close_done [OF r(1,2), of clean] assms(8) obtain bs js d where c: "err = None" "Script w3 = []"
    "extents s3 = extents s2" "Files w3 p = Some bs" "map_file ?h empty_checkpoint (concat js) bs"
    "journaled empty_checkpoint (rs @ ps) js d" "Extents d = extents s2"
    unfolding h r(5) by auto
  let ?s = "s2\<lparr>header := ?h, durableExtents := extents s2, pendingRecords := []\<rparr>"
  have "session empty_checkpoint (rs @ ps) [] w3 ?s"
    using session_set_header [OF r(1) c(5-7), of w3] c(4) r(4,5) cr(3) by simp
  moreover have "length bs < 9223372036854775808"
    using map_file_length [OF c(5,6)] r(6) assms(5) by simp
  ultimately show ?thesis
    using Inspect_session [of empty_checkpoint "rs @ ps" "[]" w3 ?s w3 bs js "[]" "rs @ ps" d] c r
    by (simp add: geometry_of_def)
qed


definition empty_world :: World where
  "empty_world = \<lparr>Files = Map.empty, Stable = Map.empty, Script = []\<rparr>"

lemma Create_total:
  assumes "Script w = []" "Files w p = None" "Header_Validate h = None"
  shows "\<exists>s w1. Create w p h = (Inr s, w1)"
proof -
  obtain cb where cb: "MarshalCheckpoint empty_checkpoint = Inr cb" using MarshalCheckpoint_empty by blast
  obtain hb where hb: "MarshalHeader (h\<lparr>CleanShutdown := False\<rparr>) = Inr hb"
    using assms(3) by (auto simp: MarshalHeader_def Header_Validate_def split: if_splits)
  from assms cb hb show ?thesis
    by (simp add: Create_def os_Create_excl_def Let_def writeAt_done os_Sync_done os_SeekEnd_done)
qed

lemma sample_header_facts:
  "header_typed sample_header" "Header_Validate sample_header = None" "ExpectedSectorCount sample_header = 100"
  by (simp_all add: sample_header_def header_typed_def Header_Validate_def)

theorem store_session_reopens_witness:
  "\<exists>w3. Inspect w3 ''m'' (geometry_of sample_header) =
     (Inr (sample_header\<lparr>CleanShutdown := True\<rparr>, [plain_extent 0 4 5 0 1, plain_extent 4 4 2 1 1]), w3)"
proof -
  obtain s w1 where c: "Create empty_world ''m'' sample_header = (Inr s, w1)"
    using Create_total sample_header_facts by (fastforce simp: empty_world_def)
  let ?ops = "[Append (plain_extent 4 4 2 1 1), Append (plain_extent 4 2 5 0 1), Stage (plain_extent 0 4 5 0 1)]"
  obtain w2 s2 where r: "run_ops ?ops (w1, s) = (w2, s2)" by force
  obtain err s3 w3 where cl: "Close w2 s2 True = (err, s3, w3)" by (metis prod.exhaust)
  have f: "foldl abs_op [] ?ops = [plain_extent 0 4 5 0 1, plain_extent 4 4 2 1 1]" by code_simp
  have d: "downgraded [plain_extent 0 4 5 0 1, plain_extent 4 4 2 1 1] = [plain_extent 0 4 5 0 1, plain_extent 4 4 2 1 1]"
    by code_simp
  have "list_all (op_ok (unat (ExpectedSectorCount sample_header))) ?ops"
    using plain_extent_typed by (simp add: sample_header_facts) (simp add: plain_extent_def)
  from store_session_reopens [OF c _ sample_header_facts(1) _ _ this r cl] f d show ?thesis
    by (auto simp: empty_world_def sample_header_facts)
qed

section \<open>Crashes and faults\<close>

text \<open>
  C8: A crash at any moment of a flush loses nothing durable. Whatever the file system did with the
  writes of the flush and wherever the crash cut the file off, the map can be read back, and it
  holds the durable records followed by a prefix of the pending ones: by all of them once the flush
  has returned without an error.
\<close>

theorem flush_survives_crash:
  assumes "session c rs ps w s" "Stable w (path s) = Files w (path s)"
    and "Flush w s = (err, s1, w1)" "crash_of w1 (path s) bs" "length bs < 9223372036854775808"
    and "Files w2 (path s) = Some bs" "Script w2 = []"
  shows "\<exists>i \<le> length ps. \<exists>d. apply_records c (rs @ take i ps) = Inr d \<and>
    Inspect w2 (path s) (geometry_of (header s)) = (Inr (header s, downgraded (Extents d)), w2) \<and>
    (err = None \<longrightarrow> i = length ps \<and> Extents d = extents s)"
proof -
  have u: "\<not> unusable s" using assms(1) by (simp add: session_def)
  from assms(1) obtain b0 where b0: "Files w (path s) = Some b0" by (auto simp: session_def)
  from Flush_cut [OF assms(3) u b0 assms(2,4)] obtain n where
    n: "bs = b0 @ take n (concat (pendingRecords s))" "err = None \<longrightarrow> length (concat (pendingRecords s)) \<le> n" by blast
  from Inspect_cut [OF assms(1) b0 n(1) assms(5-7)] n(2) show ?thesis by blast
qed

text \<open>A store with one pending record, for the concrete instances.\<close>

lemma Create_Stable:
  assumes "Create w p h = (Inr s, w1)" "Script w = []"
  shows "Stable w1 p = Files w1 p"
  using assms by (auto simp: Create_def os_Create_excl_def Let_def writeAt_done os_Sync_done os_SeekEnd_done
      split: option.splits sum.splits if_splits prod.splits)

lemma session_script [simp]: "session c rs ps (w\<lparr>Script := sc\<rparr>) s = session c rs ps w s"
  by (simp add: session_def)

lemma sample_staged:
  obtains w s where "session empty_checkpoint [] [extent_record 1 (plain_extent 0 4 5 0 1)] w s"
    "Stable w (path s) = Files w (path s)" "Script w = []" "path s = ''m''"
    "header s = sample_header\<lparr>CleanShutdown := False\<rparr>" "extents s = [plain_extent 0 4 5 0 1]"
    "Stable w (path s) \<noteq> None" "\<exists>b. pendingRecords s = [b] \<and> MarshalJournalRecord (extent_record 1 (plain_extent 0 4 5 0 1)) = Inr b"
proof -
  let ?e = "plain_extent 0 4 5 0 1"
  obtain s w where c: "Create empty_world ''m'' sample_header = (Inr s, w)"
    using Create_total sample_header_facts by (fastforce simp: empty_world_def)
  have sc: "Script empty_world = []" by (simp add: empty_world_def)
  note cr = Create_session [OF c sc sample_header_facts(1)]
  have ses: "session empty_checkpoint [] [] w s" using cr by (simp add: sample_header_facts)
  have rest: "path s = ''m''" "header s = sample_header\<lparr>CleanShutdown := False\<rparr>" "extents s = []" "Script w = []"
    using cr by (simp_all add: sample_header_facts)
  have u: "\<not> unusable s" and nx: "nextSequence s = 1"
    using ses session_nextSequence [OF ses] by (simp_all add: session_def)
  have "ApplyExtent [] ?e = Inr [?e]" by code_simp
  then have ap: "ApplyExtent (extents s) ?e = Inr [?e]" using rest by simp
  obtain es b where pr: "prepareExtent s ?e = Inr (es, b)"
    using prepareExtent_total(1) [of s ?e] nx plain_extent_typed ap by (cases "prepareExtent s ?e") fastforce+
  then have es: "es = [?e]" using prepareExtent_total(2) [of s ?e] nx plain_extent_typed ap by simp
  let ?s = "s\<lparr>extents := [?e], nextSequence := 2, pendingRecords := pendingRecords s @ [b],
              pendingBytes := pendingBytes s + of_nat (length b)\<rparr>"
  have st: "StageExtent s ?e = (None, ?s)" using u pr es nx by (simp add: StageExtent_def)
  have m: "endN ?e \<le> unat (ExpectedSectorCount (header s))"
    using rest by (simp add: sample_header_facts) (simp add: plain_extent_def)
  note ss = session_stage [OF ses st plain_extent_typed m]
  have "MarshalJournalRecord (extent_record 1 ?e) = Inr b"
    using pr nx by (auto simp: prepareExtent_def extent_record_def split: sum.splits if_splits)
  moreover have "pendingRecords s = []" using ses by (auto simp: session_def)
  ultimately show ?thesis
    using that [of w ?s] ss rest nx Create_Stable [OF c sc] ses by (auto simp: session_def)
qed

theorem flush_survives_crash_witness:
  "\<exists>w2 es. Inspect w2 ''m'' (geometry_of (sample_header\<lparr>CleanShutdown := False\<rparr>)) =
     (Inr (sample_header\<lparr>CleanShutdown := False\<rparr>, es), w2)"
proof -
  obtain w s where s: "session empty_checkpoint [] [extent_record 1 (plain_extent 0 4 5 0 1)] w s"
    "Stable w (path s) = Files w (path s)" "path s = ''m''" "header s = sample_header\<lparr>CleanShutdown := False\<rparr>"
    by (rule sample_staged) blast
  let ?w = "w\<lparr>Script := [IoOk, Io 7 (Some (ErrIO ''disk full''))]\<rparr>"
  have ses: "session empty_checkpoint [] [extent_record 1 (plain_extent 0 4 5 0 1)] ?w s" using s(1) by simp
  have st: "Stable ?w (path s) = Files ?w (path s)" using s(2) by simp
  have u: "\<not> unusable s" using s(1) by (simp add: session_def)
  obtain err s1 w1 where fl: "Flush ?w s = (err, s1, w1)" by (metis prod.exhaust)
  from s(1) obtain js b0 d e where j: "Files ?w (path s) = Some b0" "map_file (header s) empty_checkpoint (concat js) b0"
    "journaled empty_checkpoint [] js d" "journaled d [extent_record 1 (plain_extent 0 4 5 0 1)] (pendingRecords s) e"
    by (auto simp: session_def)
  from Flush_end(1) [OF fl j(1) u] obtain k where k: "Files w1 (path s) = Some (b0 @ take k (concat (pendingRecords s)))"
    by (metis fun_upd_same)
  let ?bs = "b0 @ take k (concat (pendingRecords s))"
  have "crash_of w1 (path s) ?bs"
    using Flush_Stable(1) [OF fl u] st j(1) k unfolding crash_of_def
    by (metis append_Nil2 append_same_eq order_refl self_append_conv take_all)
  moreover have "length ?bs < 9223372036854775808"
  proof -
    have "map_file (header s) empty_checkpoint (concat (js @ pendingRecords s)) (b0 @ concat (pendingRecords s))"
      using map_file_extend [OF j(2)] by simp
    from map_file_length [OF this journaled_append [OF j(3,4)]]
    have "length b0 + length (concat (pendingRecords s)) < 9223372036854775808" by simp
    moreover have "length (take k (concat (pendingRecords s))) \<le> length (concat (pendingRecords s))" by simp
    ultimately show ?thesis unfolding length_append by linarith
  qed
  ultimately have "\<exists>i \<le> length [extent_record 1 (plain_extent 0 4 5 0 1)]. \<exists>d.
      apply_records empty_checkpoint ([] @ take i [extent_record 1 (plain_extent 0 4 5 0 1)]) = Inr d \<and>
      Inspect (w1\<lparr>Script := []\<rparr>) (path s) (geometry_of (header s)) = (Inr (header s, downgraded (Extents d)), w1\<lparr>Script := []\<rparr>) \<and>
      (err = None \<longrightarrow> i = length [extent_record 1 (plain_extent 0 4 5 0 1)] \<and> Extents d = extents s)"
    by (intro flush_survives_crash [OF ses st fl]) (simp_all add: k)
  then show ?thesis using s(3,4) by auto
qed

section \<open>Two ways to lose a map\<close>

lemma numbered_from_first: "numbered_from s (r # rs) \<Longrightarrow> Sequence r = s" by simp

lemma Flush_sync_failed:
  assumes "Flush w s = (Some (Wrapf ''sync recovery map journal'' e), s1, w1)" "Files w (path s) = Some c"
    "\<not> unusable s"
  shows "Files w1 (path s) = Some (c @ concat (pendingRecords s))"
proof -
  from assms(1,3) obtain pos w2 q w3 where sk: "os_SeekEnd w (path s) = (Inr pos, w2)"
    and wr: "write_records w2 (path s) pos (pendingRecords s) = ((None, q), w3)"
    and sy: "os_Sync w3 (path s) = (Some e, w1)"
    by (auto simp: Flush_def unusable_def split: if_splits sum.splits option.splits prod.splits)
  note p = os_SeekEnd_pos [OF sk assms(2)]
  have "Files w2 (path s) = Some c" using p assms(2) by simp
  from write_records_end [OF this] wr p have "Files w3 (path s) = Some (c @ concat (pendingRecords s))"
    by fastforce
  with os_Sync_frame [OF sy] show ?thesis by simp
qed

text \<open>
  C36: A retried flush makes the map unreadable. When the sync of a flush fails, the store keeps the
  pending records although they are already in the file; the next flush, for instance the one in
  \<^verbatim>\<open>Close\<close>, appends them a second time and reports success. The repeated sequence
  numbers then make every later attempt to read the map fail.
\<close>

theorem retried_flush_breaks_map:
  assumes "session c rs ps w s" "ps \<noteq> []" "length ps < 18446744073709551616"
    and "Flush w s = (Some (Wrapf ''sync recovery map journal'' e), s1, w1)"
    and "Flush w1 s1 = (None, s2, w2)" "Script w2 = []"
    and "length (contents w2 (path s)) < 9223372036854775808"
  shows "\<exists>er. Inspect w2 (path s) (geometry_of (header s)) = (Inl er, w2)"
proof -
  have u: "\<not> unusable s" using assms(1) by (simp add: session_def)
  from assms(1) obtain js b0 d f where j: "Files w (path s) = Some b0" "map_file (header s) c (concat js) b0"
    "journaled c rs js d" "journaled d ps (pendingRecords s) f" by (auto simp: session_def)
  let ?p = "concat (pendingRecords s)"
  note s1 = Flush_end(2-7,10) [OF assms(4) j(1) u]
  have f1: "Files w1 (path s1) = Some (b0 @ ?p)" using Flush_sync_failed [OF assms(4) j(1) u] s1 by simp
  from Flush_end(1) [OF assms(5) f1 s1(6)] have f2: "Files w2 (path s) = Some ((b0 @ ?p) @ ?p)"
    using s1 by auto
  let ?n = "length ps"
  have seq: "LastSequence f = LastSequence d + of_nat ?n" using journaled_LastSequence [OF j(4)] .
  obtain r ps' where r: "ps = r # ps'" using assms(2) by (cases ps) auto
  then obtain b bs where b: "pendingRecords s = b # bs" "MarshalJournalRecord r = Inr b"
    "Sequence r = LastSequence d + 1" "record_canonical r"
    using j(4) by (auto simp: journaled_def Cons_eq_map_conv)
  have "(of_nat ?n :: u64) \<noteq> 0"
  proof
    assume z: "(of_nat ?n :: u64) = 0"
    have "unat (of_nat ?n :: u64) = ?n" using assms(3) by (intro unat_of_nat_u64)
    with z r show False by simp
  qed
  then have ne: "Sequence r \<noteq> LastSequence f + 1" using b(3) seq by simp
  have mf: "map_file (header s) c (concat (js @ pendingRecords s) @ ?p) ((b0 @ ?p) @ ?p)"
    using map_file_extend [OF map_file_extend [OF j(2), of ?p], of ?p] by simp
  have jf: "journaled c (rs @ ps) (js @ pendingRecords s) f" using journaled_append [OF j(3,4)] .
  have ls: "LastSequence c + 1 + of_nat (length (rs @ ps)) = LastSequence f + 1"
    using journaled_LastSequence [OF jf] by simp
  have up: "UnmarshalJournalRecord ?p = Inr (r, length b)"
    using UnmarshalJournalRecord_Marshal [OF b(4,2), of "concat bs"] b(1) by simp
  have "\<exists>er. ReplayJournalReader_loop f (LastSequence f + 1) (?p, ErrEOF) = Inl er"
  proof -
    note c = UnmarshalJournalRecord_consumed [OF up] UnmarshalJournalRecord_Inr_total [OF up]
    have "\<not> length ?p < 14" using c by linarith
    moreover have "\<not> length ?p < 18 + unat (le_get (Bytes.slice 10 14 ?p) :: u32)" using c by linarith
    ultimately show ?thesis using up ne by (simp add: ReplayJournalReader_loop_step)
  qed
  then have "\<exists>er. ReplayJournalReader c (Some (concat (js @ pendingRecords s) @ ?p, ErrEOF)) = Inl er"
    unfolding ReplayJournalReader_journaled [OF jf] ls by (auto simp: map_sum_Inl_conv)
  then obtain er where "ReplayJournalReaderWithinCapacity c (Some (concat (js @ pendingRecords s) @ ?p, ErrEOF))
      (ExpectedSectorCount (header s)) = Inl er" by (auto simp: ReplayJournalReaderWithinCapacity_def)
  with readState_map_file [OF mf f2 assms(6)] assms(7) contents_eq [OF f2] show ?thesis
    by (simp add: Inspect_def)
qed

lemma writeFull_IoOk:
  assumes "Script w = IoOk # sc" "data \<noteq> []"
  shows "writeFull w p pos data =
    ((None, pos + length data), put_file (w\<lparr>Script := sc\<rparr>) p (overwrite pos data (contents w p)))"
  using assms
  by (simp add: writeFull.simps [of w] os_WriteAt_def next_io_def Let_def contents_def
      writeFull.simps [of _ _ _ "[]"])

theorem retried_flush_breaks_map_witness:
  "\<exists>w2 er. Inspect w2 ''m'' (geometry_of (sample_header\<lparr>CleanShutdown := False\<rparr>)) = (Inl er, w2)"
proof -
  let ?e = "plain_extent 0 4 5 0 1"
  obtain w s b where s: "session empty_checkpoint [] [extent_record 1 ?e] w s"
    "path s = ''m''" "header s = sample_header\<lparr>CleanShutdown := False\<rparr>" "pendingRecords s = [b]"
    "MarshalJournalRecord (extent_record 1 ?e) = Inr b"
    by (rule sample_staged) blast
  let ?sc = "[IoOk, IoOk, Io 0 (Some (ErrIO ''io error''))]"
  let ?w = "w\<lparr>Script := ?sc\<rparr>"
  have ses: "session empty_checkpoint [] [extent_record 1 ?e] ?w s" using s(1) by simp
  have u: "\<not> unusable s" using s(1) by (simp add: session_def)
  obtain pl where "payloadBytes (extent_record 1 ?e) = Inr pl" "length pl \<le> maxJournalPayloadBytes"
    using s(5) by (rule MarshalJournalRecord_Inr)
  with MarshalJournalRecord_length [OF s(5)] have lb: "b \<noteq> []" "length b \<le> 1048594"
    by (auto simp: maxJournalPayloadBytes_def)
  have "\<exists>s1 w1. Flush ?w s = (Some (Wrapf ''sync recovery map journal'' (ErrIO ''io error'')), s1, w1) \<and> Script w1 = []"
    using u s(4) lb(1)
    by (simp add: Flush_def os_SeekEnd_def os_Stat_size_def next_io_def writeFull_IoOk os_Sync_def)
  then obtain s1 w1 where f1: "Flush ?w s = (Some (Wrapf ''sync recovery map journal'' (ErrIO ''io error'')), s1, w1)"
    "Script w1 = []" by blast
  from s(1) obtain b0 where j: "Files ?w (path s) = Some b0" "map_file (header s) empty_checkpoint [] b0"
    by (auto simp: session_def)
  note x1 = Flush_end(2-7,10) [OF f1(1) j(1) u]
  have c1: "Files w1 (path s1) = Some (b0 @ b)" using Flush_sync_failed [OF f1(1) j(1) u] s(4) x1 by simp
  obtain s2 w2 where f2: "Flush w1 s1 = (None, s2, w2)" "Script w2 = []" using Flush_done [OF f1(2) x1(6)] by blast
  have "Files w2 (path s) = Some (b0 @ b @ b)"
    using Flush_end(1) [OF f2(1) c1 x1(6)] x1 s(4) by auto
  moreover have "length b0 < 1000"
  proof -
    from j(2) obtain hb cb where m: "header_typed (header s)" "MarshalHeader (header s) = Inr hb"
      "MarshalCheckpoint empty_checkpoint = Inr cb" "b0 = hb @ cb" by (auto simp: map_file_def)
    have "length cb = 26" using MarshalCheckpoint_length [OF _ m(3)] by (simp add: checkpoint_typed_def)
    with m header_length_field(1) [OF m(1,2)] show ?thesis by simp
  qed
  ultimately have "length (contents w2 (path s)) < 9223372036854775808" using lb(2) by (simp add: contents_def)
  from retried_flush_breaks_map [OF ses _ _ f1(1) f2 this] s(2,3) show ?thesis by auto
qed

text \<open>The one byte that is left of a torn record hides the next record behind it.\<close>

lemma hidden_record:
  assumes "MarshalJournalRecord (extent_record s e) = Inr b" "extent_typed e"
  shows "ReplayJournalReader_loop c n (x # b, ErrEOF) = Inr c"
proof -
  obtain p where p: "payloadBytes (extent_record s e) = Inr p"
    and b: "b = record_body RecordExtentStateChanged s p @ le_put 4 (crc32c (record_body RecordExtentStateChanged s p))"
    using assms(1) by (rule MarshalJournalRecord_Inr) simp
  have lp: "length p = 39"
    using p MarshalExtent_length [OF assms(2)] by (simp add: payloadBytes_def extentEncodedBytes_def)
  have "Bytes.slice 10 14 (x # b) = Bytes.slice 9 13 (record_body RecordExtentStateChanged s p)"
    unfolding b using lp by (subst slice_skip1) (simp_all add: slice_append_left)
  also have "\<dots> = ucast (drop_bit 56 s) # take 3 (le_put 4 (39 :: u32))"
    using lp by (simp add: record_body_def numeral_eq_Suc Bytes.slice_def drop_bit_drop_bit)
  also have "take 3 (le_put 4 (39 :: u32)) = [39, 0, 0]" by code_simp
  finally have f: "Bytes.slice 10 14 (x # b) = [ucast (drop_bit 56 s), 39, 0, 0]" .
  have "unat (le_get [y, 39, 0, 0] :: u32) = unat y + 9984" for y :: u8
  proof -
    have y: "unat y < 256" using unsigned_less [of y] by simp
    have disj: "ucast y OR push_bit 8 k = push_bit 8 k + ucast y" for k :: u32
      by (subst or.commute, subst disjunctive_add)
         (auto simp: bit_push_bit_iff bit_ucast_iff dest: bit_imp_le_length)
    have "(le_get [y, 39, 0, 0] :: u32) = ucast y OR push_bit 8 39" by simp
    also have "\<dots> = push_bit 8 39 + ucast y" by (rule disj)
    also have "unat \<dots> = unat y + 9984"
      using y by (subst unat_add_le) (simp_all add: push_bit_eq_mult unat_ucast_up)
    finally show ?thesis .
  qed
  then have l: "unat (le_get (Bytes.slice 10 14 (x # b)) :: u32) = unat (ucast (drop_bit 56 s) :: u8) + 9984"
    unfolding f .
  have "unat (ucast (drop_bit 56 s) :: u8) < 256" using unsigned_less [of "ucast (drop_bit 56 s) :: u8"] by simp
  moreover have "length (x # b) = 58" using lp b by simp
  ultimately show ?thesis by (simp add: ReplayJournalReader_loop_step l maxJournalPayloadBytes_def del: slice_skip1)
qed

text \<open>Opening a map file without faults: what the journal says, behind a header marked unclean.\<close>

lemma Open_done:
  assumes f: "map_file h c jrn bs" "Files w p = Some bs" "Script w = []"
    and r: "ReplayJournalReaderWithinCapacity c (Some (jrn, ErrEOF)) (ExpectedSectorCount h) = Inr d"
    and big: "length bs < 9223372036854775808" and seq: "LastSequence d \<noteq> - 1"
  shows "\<exists>s w1 bs1. Open w p (geometry_of h) = (Inr s, w1) \<and> Script w1 = [] \<and> \<not> unusable s \<and> path s = p \<and>
    header s = h\<lparr>CleanShutdown := False\<rparr> \<and> extents s = Extents d \<and> durableExtents s = Extents d \<and>
    nextSequence s = LastSequence d + 1 \<and> pendingRecords s = [] \<and>
    Files w1 p = Some bs1 \<and> map_file (header s) c jrn bs1 \<and> length bs1 = length bs"
proof -
  from f(1) obtain hb where m: "header_typed h" "MarshalHeader h = Inr hb" by (auto simp: map_file_def)
  have v: "LogicalSectorSize h \<noteq> 0" "ExpectedSectorCount h \<noteq> 0"
    using m(2) by (auto simp: MarshalHeader_def Header_Validate_def split: if_splits)
  obtain hb' where hb': "MarshalHeader (h\<lparr>CleanShutdown := False\<rparr>) = Inr hb'"
    using MarshalHeader_clean [OF m(2)] by blast
  have t': "header_typed (h\<lparr>CleanShutdown := False\<rparr>)" using m(1) by (simp add: header_typed_def)
  have mf: "map_file (h\<lparr>CleanShutdown := False\<rparr>) c jrn (overwrite 0 hb' bs)"
    using map_file_new_header [OF f(1) t' hb'] .
  have "length (overwrite 0 hb' bs) = length bs"
    using mf f(1) hb' m header_length_field(1) [OF t' hb'] header_length_field(1) [OF m]
    by (auto simp: map_file_def)
  moreover have "readState w p (geometry_of h) = (Inr (h, d), w)"
    using readState_map_file [OF f big] r by simp
  ultimately show ?thesis
    using f(2,3) v hb' mf seq
    by (simp add: Open_def geometry_of_def os_Open_def os_SeekEnd_done Let_def writeAt_done os_Sync_done
        contents_def unusable_def)
qed

text \<open>
  Resuming after a crash can lose everything recorded afterwards. A map that ends in one byte of
  a torn record opens without an error, and the journal is continued behind that byte instead of
  over it. An extent appended then is reported as durable, but the next reader takes the byte for
  the start of a record, sees a length beyond the end of the file and ignores the tail: it returns
  the extents from before the resume.
\<close>

theorem resume_behind_torn_tail_loses_records:
  assumes "map_file h c (concat js @ [x]) bs" "Files w p = Some bs" "Script w = []"
    and "journaled c rs js d" "LastSequence d \<noteq> - 1"
    and "unat (ExpectedSectorCount h) < 4294967296" "on_medium (unat (ExpectedSectorCount h)) (Extents c)"
    and "list_all (record_on_medium (unat (ExpectedSectorCount h))) rs"
    and "length bs < 9223372036854775000" "torn [x]" "extent_typed e"
    and "Open w p (geometry_of h) = (Inr s, w1)" "Store_ApplyExtent w1 s e = (None, s2, w2)"
  shows "ApplyExtent (extents s) e = Inr (durableExtents s2) \<and>
    (\<exists>w3. Inspect (w2\<lparr>Script := []\<rparr>) p (geometry_of h) = (Inr (header s, extents s), w3))"
proof -
  let ?n = "unat (ExpectedSectorCount h)"
  have m: "on_medium ?n (Extents d)"
    using apply_records_on_medium [of c rs d ?n] assms(4,6,7,8) by (simp add: journaled_def)
  have nz: "ExpectedSectorCount h \<noteq> 0"
    using assms(1) by (auto simp: map_file_def MarshalHeader_def Header_Validate_def split: if_splits)
  have acc: "ReplayJournalReaderWithinCapacity c (Some (concat js @ t, ErrEOF)) (ExpectedSectorCount h)
      = Inr (downgrade_queued d)" if "\<And>n. ReplayJournalReader_loop d n (t, ErrEOF) = Inr d" for t
    by (rule replay_accepts_on_medium)
       (simp_all add: ReplayJournalReader_journaled [OF assms(4)] that m on_medium_downgraded nz)
  have r1: "ReplayJournalReaderWithinCapacity c (Some (concat js @ [x], ErrEOF)) (ExpectedSectorCount h)
      = Inr (downgrade_queued d)"
    by (rule acc) (rule ReplayJournalReader_loop_torn [OF assms(10)])
  have ls: "LastSequence (downgrade_queued d) = LastSequence d" by (simp add: downgrade_queued_def)
  have sq: "LastSequence (downgrade_queued d) \<noteq> - 1" using assms(5) ls by simp
  have "length bs < 9223372036854775808" using assms(9) by simp
  from Open_done [OF assms(1-3) r1 this sq] assms(12) obtain bs1 where
    o: "Script w1 = []" "\<not> unusable s" "path s = p" "header s = h\<lparr>CleanShutdown := False\<rparr>"
      "extents s = downgraded (Extents d)" "pendingRecords s = []" "Files w1 p = Some bs1"
      "map_file (header s) c (concat js @ [x]) bs1" "length bs1 = length bs" by auto
  have fl: "Flush w1 s = (None, s, w1)" using o by (simp add: Flush_def)
  then have "appendExtent w1 s e True = (None, s2, w2)" using assms(13) o(2) by (simp add: Store_ApplyExtent_def)
  from appendExtent_None [OF this] o obtain es b where
    a: "prepareExtent s e = Inr (es, b)" "Files w2 p = Some (bs1 @ b)" "durableExtents s2 = es" by auto
  from a(1) have mj: "MarshalJournalRecord (extent_record (nextSequence s) e) = Inr b"
    and ap: "ApplyExtent (extents s) e = Inr es"
    by (auto simp: prepareExtent_def extent_record_def split: sum.splits if_splits)
  have "ReplayJournalReaderWithinCapacity c (Some (concat js @ (x # b), ErrEOF)) (ExpectedSectorCount h)
      = Inr (downgrade_queued d)"
    by (rule acc) (rule hidden_record [OF mj assms(11)])
  moreover have "map_file (header s) c (concat js @ (x # b)) (bs1 @ b)" using map_file_extend [OF o(8), of b] by simp
  moreover have "length (bs1 @ b) < 9223372036854775808"
  proof -
    obtain p where p: "payloadBytes (extent_record (nextSequence s) e) = Inr p"
      using mj by (rule MarshalJournalRecord_Inr)
    then have "length p = 39"
      using MarshalExtent_length [OF assms(11)] by (simp add: payloadBytes_def extentEncodedBytes_def)
    with MarshalJournalRecord_length [OF mj p] o(9) assms(9) show ?thesis by simp
  qed
  moreover have "geometry_of h = geometry_of (header s)" "ExpectedSectorCount (header s) = ExpectedSectorCount h"
    using o(4) by (simp_all add: geometry_of_def)
  ultimately have "readState (w2\<lparr>Script := []\<rparr>) p (geometry_of h) = (Inr (header s, downgrade_queued d), w2\<lparr>Script := []\<rparr>)"
    using readState_map_file [of "header s" c "concat js @ (x # b)" "bs1 @ b" "w2\<lparr>Script := []\<rparr>" p] a(2) by simp
  with ap a(3) o(5) show ?thesis by (simp add: Inspect_def)
qed

lemma torn_first_byte: "torn [5]"
proof -
  obtain b where b: "MarshalJournalRecord (extent_record 1 (plain_extent 0 4 5 0 1)) = Inr b"
    by (rule sample_staged) blast
  obtain p where bs: "b = record_body RecordExtentStateChanged 1 p @
      le_put 4 (crc32c (record_body RecordExtentStateChanged 1 p))"
    using b by (rule MarshalJournalRecord_Inr) simp
  have "le_put 2 (recordTypeCode RecordExtentStateChanged) = [5, 0]" by code_simp
  then have "take 1 b = [5]" unfolding bs by (simp add: record_body_def del: recordTypeCode.simps)
  moreover have "1 < length b" unfolding bs by simp
  ultimately show ?thesis unfolding torn_def using b by metis
qed

theorem resume_behind_torn_tail_loses_records_witness:
  "\<exists>(s :: Store) (s2 :: Store) w3 w4. durableExtents s2 = [plain_extent 0 4 2 1 1] \<and>
     Inspect w3 ''m'' (geometry_of sample_header) = (Inr (header s, []), w4)"
proof -
  let ?e = "plain_extent 0 4 2 1 1"
  obtain cb where cb: "MarshalCheckpoint empty_checkpoint = Inr cb" using MarshalCheckpoint_empty by blast
  obtain hb where hb: "MarshalHeader sample_header = Inr hb"
    using sample_header_facts(2) by (simp add: MarshalHeader_def)
  let ?bs = "hb @ cb @ [5]"
  let ?w = "put_file empty_world ''m'' ?bs"
  have mf: "map_file sample_header empty_checkpoint (concat [] @ [5]) ?bs"
    using hb cb sample_header_facts(1) by (simp add: map_file_def checkpoint_typed_def)
  have len: "length ?bs < 1000"
    using header_length_field(1) [OF sample_header_facts(1) hb] MarshalCheckpoint_length [OF _ cb]
    by (simp add: checkpoint_typed_def)
  have sc: "Script ?w = []" "Files ?w ''m'' = Some ?bs" by (simp_all add: empty_world_def)
  have om: "on_medium n []" for n by (simp add: on_medium_def)
  have lp: "ReplayJournalReader_loop c n ([5], ErrEOF) = Inr c" for c n
    by (rule ReplayJournalReader_loop_torn) (rule torn_first_byte)
  have "ReplayJournalReaderWithinCapacity empty_checkpoint (Some (concat [] @ [5], ErrEOF)) (ExpectedSectorCount sample_header)
      = Inr (downgrade_queued empty_checkpoint)"
    by (rule replay_accepts_on_medium)
       (simp_all add: ReplayJournalReader_def lp om on_medium_downgraded sample_header_facts)
  moreover have "length ?bs < 9223372036854775808" using len by simp
  moreover have "LastSequence (downgrade_queued empty_checkpoint) \<noteq> - 1" by (simp add: downgrade_queued_def)
  ultimately obtain s w1 bs1 where o: "Open ?w ''m'' (geometry_of sample_header) = (Inr s, w1)"
    "Script w1 = []" "\<not> unusable s" "extents s = downgraded []"
    "nextSequence s = LastSequence (downgrade_queued empty_checkpoint) + 1" "pendingRecords s = []"
    using Open_done [OF mf sc(2,1)] by auto
  have x: "extents s = []" "nextSequence s = 1" using o by (simp_all add: downgrade_queued_def)
  have ap: "ApplyExtent [] ?e = Inr [?e]" by code_simp
  obtain es b where pr: "prepareExtent s ?e = Inr (es, b)"
    using prepareExtent_total(1) [of s ?e] plain_extent_typed ap x by (cases "prepareExtent s ?e") fastforce+
  obtain s2 w2 where a: "appendExtent w1 s ?e True = (None, s2, w2)"
    using appendExtent_Inr_done [OF o(2) pr] by blast
  have st: "Store_ApplyExtent w1 s ?e = (None, s2, w2)" using a o(3,6) by (simp add: Store_ApplyExtent_def Flush_def)
  have j: "journaled empty_checkpoint [] [] empty_checkpoint" by simp
  have "ApplyExtent (extents s) ?e = Inr (durableExtents s2) \<and>
    (\<exists>w3. Inspect (w2\<lparr>Script := []\<rparr>) ''m'' (geometry_of sample_header) = (Inr (header s, extents s), w3))"
    by (rule resume_behind_torn_tail_loses_records [OF mf sc(2,1) j _ _ _ _ _ torn_first_byte plain_extent_typed o(1) st])
       (use len om in \<open>simp_all add: sample_header_facts\<close>)
  then obtain w3 where w3: "Inspect (w2\<lparr>Script := []\<rparr>) ''m'' (geometry_of sample_header) = (Inr (header s, []), w3)"
    and d: "durableExtents s2 = [?e]" using ap x(1) by auto
  show ?thesis
    by (rule exI [of _ s], rule exI [of _ s2], rule exI [of _ "w2\<lparr>Script := []\<rparr>"], rule exI [of _ w3])
       (simp add: w3 d)
qed

section \<open>Rolling back a startup\<close>

lemma os_Remove_done:
  "Script w = [] \<Longrightarrow> os_Remove w p =
     (if Files w p = None then (Some ErrNotExist, w) else (None, w\<lparr>Files := (Files w)(p := None)\<rparr>))"
  by (simp add: os_Remove_def)

lemma remove_paths_done:
  "Script w = [] \<Longrightarrow> \<exists>w1. remove_paths w ps j = (j, w1) \<and> Stable w1 = Stable w \<and> Script w1 = [] \<and>
     Files w1 = (\<lambda>p. if p \<in> set ps then None else Files w p)"
proof (induction ps arbitrary: w)
  case (Cons p ps)
  show ?case
  proof (cases "Files w p = None")
    case True
    from Cons.IH [OF Cons.prems] obtain w1 where "remove_paths w ps j = (j, w1)" "Stable w1 = Stable w"
      "Script w1 = []" "Files w1 = (\<lambda>p. if p \<in> set ps then None else Files w p)" by blast
    with True Cons.prems show ?thesis by (auto simp: os_Remove_done fun_eq_iff)
  next
    case False
    let ?w = "w\<lparr>Files := (Files w)(p := None)\<rparr>"
    have "Script ?w = []" using Cons.prems by simp
    from Cons.IH [OF this] obtain w1 where "remove_paths ?w ps j = (j, w1)" "Stable w1 = Stable ?w"
      "Script w1 = []" "Files w1 = (\<lambda>p. if p \<in> set ps then None else Files ?w p)" by blast
    with False Cons.prems show ?thesis by (auto simp: os_Remove_done fun_eq_iff)
  qed
qed (simp add: fun_eq_iff)

lemma fold_TrackCreated:
  "\<not> committed t \<Longrightarrow> fold (\<lambda>p t. TrackCreated t p) ps t = t\<lparr>paths := paths t @ filter (\<lambda>p. p \<noteq> '''') ps\<rparr>"
  by (induction ps arbitrary: t) (auto simp: TrackCreated_def)

text \<open>
  A startup transaction undoes exactly what it created. Without a commit the rollback removes
  every tracked file and touches no other; after a commit it removes nothing.
\<close>

theorem rollback_removes_tracked:
  assumes "Script w = []" "t = fold (\<lambda>p t. TrackCreated t p) ps \<lparr>paths = [], committed = False\<rparr>"
  shows "(\<exists>w1. Rollback w t = (None, w1) \<and>
      Files w1 = (\<lambda>p. if p \<in> set ps \<and> p \<noteq> '''' then None else Files w p)) \<and>
    Rollback w (Commit t) = (None, w)"
proof -
  have t: "committed t = False" "paths t = filter (\<lambda>p. p \<noteq> '''') ps"
    using assms(2) by (simp_all add: fold_TrackCreated)
  obtain w1 where "remove_paths w (rev (paths t)) None = (None, w1)"
    "Files w1 = (\<lambda>p. if p \<in> set (rev (paths t)) then None else Files w p)"
    using remove_paths_done [OF assms(1)] by blast
  with t show ?thesis by (auto simp: Rollback_def Commit_def fun_eq_iff)
qed

theorem rollback_removes_tracked_witness:
  "\<exists>w1. Rollback (put_file (put_file empty_world ''a'' [1]) ''b'' [2])
      (TrackCreated \<lparr>paths = [], committed = False\<rparr> ''a'') = (None, w1) \<and>
    Files w1 ''a'' = None \<and> Files w1 ''b'' = Some [2]"
proof -
  let ?w = "put_file (put_file empty_world ''a'' [1]) ''b'' [2]"
  have "Script ?w = []" by (simp add: empty_world_def)
  from rollback_removes_tracked [OF this refl, of "[''a'']"] show ?thesis by auto
qed

end
