(* ===== verification/Coordinator.thy ===== *)
theory Coordinator
  imports Prelude
begin

text \<open>
  The job state machine of \<^verbatim>\<open>internal/coordinator\<close>: one pure function
  \<open>Handle\<close> from a job and an event to the next job and the effects to carry out. The string
  types of the code are datatypes with the named constants, the empty string and every other string.
  A \<^verbatim>\<open>Snapshot\<close> has one field, the job, and is the job here.
\<close>

section \<open>Jobs, events and effects\<close>

datatype JobState =
    JobStateEmpty
  | JobStateIdle
  | JobStateIdentifying
  | JobStatePreparing
  | JobStateFastPass
  | JobStateTrimPass
  | JobStateAdaptivePass
  | JobStateScrapePass
  | JobStateVerifying
  | JobStatePausing
  | JobStatePaused
  | JobStateStopping
  | JobStateCompleted
  | JobStateIncomplete
  | JobStateFailed
  | JobStateOther string

datatype EffectKind =
    EffectEmpty
  | EffectProbeMedia
  | EffectBootstrapRecovery
  | EffectDispatchRecovery
  | EffectCheckpoint
  | EffectPublishPause
  | EffectStopAfterSave
  | EffectReportFailure
  | EffectWorkerUnresponsive
  | EffectOther string

record Effect =
  EffKind :: EffectKind
  EffJobID :: string
  EffState :: JobState
  EffToken :: u64

datatype Event =
    StartJob string
  | ProbeCompleted string u64 "error option"
  | ResumeJob string
  | PauseJob string
  | CancelJob string
  | WorkerResultReceived string u64 JobState "error option"
  | WriteResultReceived string u64 "error option"
  | JobCheckpointed string u64
  | JobFailed string u64 "error option"
  | WorkerUnresponsiveDetected string u64 string
  | UnsupportedEvent

record Job =
  ID :: string
  Phase :: JobState
  ResumeState :: JobState
  PendingKind :: EffectKind
  PendingToken :: u64
  NextToken :: u64

type_synonym Snapshot = Job

definition idle_job :: Job where
  "idle_job = \<lparr>ID = '''', Phase = JobStateIdle, ResumeState = JobStateEmpty, PendingKind = EffectEmpty,
               PendingToken = 0, NextToken = 0\<rparr>"

definition validJobState :: "JobState \<Rightarrow> bool" where
  "validJobState s \<longleftrightarrow> (case s of JobStateEmpty \<Rightarrow> False | JobStateOther _ \<Rightarrow> False | _ \<Rightarrow> True)"

definition runningPhase :: "JobState \<Rightarrow> bool" where
  "runningPhase s \<longleftrightarrow> s \<in> {JobStateFastPass, JobStateTrimPass, JobStateAdaptivePass,
     JobStateScrapePass, JobStateVerifying}"

definition activeJobState :: "JobState \<Rightarrow> bool" where
  "activeJobState s \<longleftrightarrow> s \<in> {JobStateIdentifying, JobStatePreparing, JobStateFastPass, JobStateTrimPass,
     JobStateAdaptivePass, JobStateScrapePass, JobStateVerifying, JobStatePausing, JobStatePaused,
     JobStateStopping}"

definition Job_Validate :: "Job \<Rightarrow> error option" where
  "Job_Validate j =
     (if Phase j = JobStateEmpty then Some (Errorf ''validate job: state is required'')
      else if Phase j = JobStateIdle then
        (if ID j \<noteq> '''' \<or> ResumeState j \<noteq> JobStateEmpty \<or> PendingKind j \<noteq> EffectEmpty \<or>
            PendingToken j \<noteq> 0 \<or> NextToken j \<noteq> 0
         then Some (Errorf ''validate job: idle job must not retain id, resume state, or pending effect state'')
         else None)
      else if ID j = '''' then Some (Errorf ''validate job: id is required outside idle state'')
      else if \<not> validJobState (Phase j) then Some (Errorf ''validate job: unsupported state'')
      else if Phase j \<in> {JobStatePausing, JobStatePaused, JobStateStopping} \<and> \<not> runningPhase (ResumeState j)
      then Some (Errorf ''validate job: state requires a resumable phase'')
      else if Phase j \<notin> {JobStatePausing, JobStatePaused, JobStateStopping} \<and> ResumeState j \<noteq> JobStateEmpty
      then Some (Errorf ''validate job: non-paused state must not retain resume state'')
      else if PendingKind j = EffectEmpty \<and> PendingToken j \<noteq> 0
      then Some (Errorf ''validate job: missing pending kind with pending token'')
      else if PendingKind j \<noteq> EffectEmpty \<and> PendingToken j = 0
      then Some (Errorf ''validate job: pending kind requires a non-zero token'')
      else if NextToken j = 0
      then Some (Errorf ''validate job: next token must be greater than zero outside idle state'')
      else if PendingToken j \<ge> NextToken j
      then Some (Errorf ''validate job: pending token must be smaller than next token'')
      else None)"

section \<open>Transitions\<close>

record transition =
  NextJob :: Job
  Effects :: "Effect list"
  Noop :: bool

abbreviation no_change :: transition where
  "no_change \<equiv> \<lparr>NextJob = \<lparr>ID = '''', Phase = JobStateEmpty, ResumeState = JobStateEmpty,
     PendingKind = EffectEmpty, PendingToken = 0, NextToken = 0\<rparr>, Effects = [], Noop = True\<rparr>"

abbreviation move :: "Job \<Rightarrow> Effect list \<Rightarrow> transition" where
  "move j es \<equiv> \<lparr>NextJob = j, Effects = es, Noop = False\<rparr>"

definition clearPending :: "Job \<Rightarrow> Job" where
  "clearPending j = j\<lparr>PendingKind := EffectEmpty, PendingToken := 0\<rparr>"

definition issueEffect :: "Job \<Rightarrow> EffectKind \<Rightarrow> JobState \<Rightarrow> Job \<times> Effect" where
  "issueEffect j kind state =
     (let token = (if NextToken j = 0 then 1 else NextToken j)
      in (j\<lparr>NextToken := token + 1, PendingKind := kind, PendingToken := token\<rparr>,
          \<lparr>EffKind = kind, EffJobID = ID j, EffState = state, EffToken = token\<rparr>))"

definition issue :: "Job \<Rightarrow> EffectKind \<Rightarrow> JobState \<Rightarrow> transition" where
  "issue j kind state = (case issueEffect j kind state of (j', e) \<Rightarrow> move j' [e])"

definition buildFailedTransition :: "Job \<Rightarrow> error option \<Rightarrow> transition" where
  "buildFailedTransition j err =
     (let j' = clearPending (j\<lparr>Phase := JobStateFailed, ResumeState := JobStateEmpty\<rparr>)
      in move j' [\<lparr>EffKind = EffectReportFailure, EffJobID = ID j', EffState = JobStateFailed, EffToken = 0\<rparr>])"

text \<open>\<open>Inr None\<close> is a stale event, \<open>Inr (Some j)\<close> an accepted one.\<close>

definition acceptPending :: "Job \<Rightarrow> string \<Rightarrow> u64 \<Rightarrow> EffectKind \<Rightarrow> (JobState \<Rightarrow> bool) \<Rightarrow> Job option result" where
  "acceptPending j jobID token kind stateAllowed =
     (if ID j \<noteq> jobID then Inl (Errorf ''pending effect: unknown job id'')
      else if \<not> stateAllowed (Phase j) then Inl (Errorf ''pending effect: invalid state'')
      else if PendingKind j \<noteq> kind \<or> PendingToken j \<noteq> token then Inr None
      else Inr (Some (clearPending j)))"

definition acceptAnyPending :: "Job \<Rightarrow> string \<Rightarrow> u64 \<Rightarrow> (JobState \<Rightarrow> bool) \<Rightarrow> Job option result" where
  "acceptAnyPending j jobID token stateAllowed =
     (if ID j \<noteq> jobID then Inl (Errorf ''pending effect: unknown job id'')
      else if \<not> stateAllowed (Phase j) then Inl (Errorf ''pending effect: invalid state'')
      else if PendingKind j = EffectEmpty \<or> PendingToken j \<noteq> token then Inr None
      else Inr (Some (clearPending j)))"

definition transitionAllowed :: "JobState \<Rightarrow> JobState \<Rightarrow> bool" where
  "transitionAllowed current next =
     (case current of
        JobStateFastPass \<Rightarrow> next \<in> {JobStateFastPass, JobStateTrimPass, JobStateAdaptivePass,
                              JobStateScrapePass, JobStateVerifying}
      | JobStateTrimPass \<Rightarrow> next \<in> {JobStateTrimPass, JobStateAdaptivePass, JobStateScrapePass, JobStateVerifying}
      | JobStateAdaptivePass \<Rightarrow> next \<in> {JobStateAdaptivePass, JobStateScrapePass, JobStateVerifying}
      | JobStateScrapePass \<Rightarrow> next \<in> {JobStateScrapePass, JobStateVerifying}
      | JobStateVerifying \<Rightarrow> next \<in> {JobStateCompleted, JobStateIncomplete}
      | _ \<Rightarrow> False)"

definition calculateStartTransition :: "Job \<Rightarrow> string \<Rightarrow> transition result" where
  "calculateStartTransition j jobID =
     (if Phase j \<notin> {JobStateIdle, JobStateCompleted, JobStateIncomplete, JobStateFailed}
      then Inl (Errorf ''start job: invalid state'')
      else Inr (issue \<lparr>ID = jobID, Phase = JobStateIdentifying, ResumeState = JobStateEmpty,
                        PendingKind = EffectEmpty, PendingToken = 0, NextToken = 1\<rparr>
                  EffectProbeMedia JobStateIdentifying))"

definition calculateProbeCompletedTransition ::
  "Job \<Rightarrow> string \<Rightarrow> u64 \<Rightarrow> error option \<Rightarrow> transition result" where
  "calculateProbeCompletedTransition j jobID token err =
     (case acceptPending j jobID token EffectProbeMedia (\<lambda>s. s = JobStateIdentifying) of
        Inl er \<Rightarrow> Inl er
      | Inr None \<Rightarrow> Inr no_change
      | Inr (Some job) \<Rightarrow>
          if err \<noteq> None then Inr (buildFailedTransition job err)
          else Inr (issue (job\<lparr>Phase := JobStatePreparing\<rparr>) EffectBootstrapRecovery JobStatePreparing))"

definition calculateWriteResultTransition ::
  "Job \<Rightarrow> string \<Rightarrow> u64 \<Rightarrow> error option \<Rightarrow> transition result" where
  "calculateWriteResultTransition j jobID token err =
     (case acceptPending j jobID token EffectBootstrapRecovery (\<lambda>s. s = JobStatePreparing) of
        Inl er \<Rightarrow> Inl er
      | Inr None \<Rightarrow> Inr no_change
      | Inr (Some job) \<Rightarrow>
          if err \<noteq> None then Inr (buildFailedTransition job err)
          else Inr (issue (job\<lparr>Phase := JobStateFastPass\<rparr>) EffectDispatchRecovery JobStateFastPass))"

definition requireJobState :: "Job \<Rightarrow> string \<Rightarrow> JobState \<Rightarrow> error option" where
  "requireJobState j jobID state =
     (if ID j \<noteq> jobID then Some (Errorf ''job state: unknown job id'')
      else if Phase j \<noteq> state then Some (Errorf ''job state: unexpected state'') else None)"

definition calculateResumeTransition :: "Job \<Rightarrow> string \<Rightarrow> transition result" where
  "calculateResumeTransition j jobID =
     (case requireJobState j jobID JobStatePaused of
        Some er \<Rightarrow> Inl er
      | None \<Rightarrow> Inr (issue (j\<lparr>Phase := ResumeState j, ResumeState := JobStateEmpty\<rparr>)
                      EffectDispatchRecovery (ResumeState j)))"

definition calculatePauseTransition :: "Job \<Rightarrow> string \<Rightarrow> transition result" where
  "calculatePauseTransition j jobID =
     (if ID j \<noteq> jobID then Inl (Errorf ''pause job: unknown job id'')
      else if \<not> runningPhase (Phase j) then Inl (Errorf ''pause job: invalid state'')
      else Inr (issue ((clearPending j)\<lparr>Phase := JobStatePausing, ResumeState := Phase j\<rparr>)
                 EffectCheckpoint (Phase j)))"

definition calculateCancelTransition :: "Job \<Rightarrow> string \<Rightarrow> transition result" where
  "calculateCancelTransition j jobID =
     (if ID j \<noteq> jobID then Inl (Errorf ''cancel job: unknown job id'')
      else if Phase j = JobStatePaused then
        Inr (move (clearPending (j\<lparr>Phase := JobStateIncomplete, ResumeState := JobStateEmpty\<rparr>))
          [\<lparr>EffKind = EffectStopAfterSave, EffJobID = jobID, EffState = JobStateIncomplete, EffToken = 0\<rparr>])
      else if Phase j = JobStatePausing then Inr (move (j\<lparr>Phase := JobStateStopping\<rparr>) [])
      else if \<not> runningPhase (Phase j) then Inl (Errorf ''cancel job: invalid state'')
      else Inr (issue ((clearPending j)\<lparr>Phase := JobStateStopping, ResumeState := Phase j\<rparr>)
                 EffectCheckpoint (Phase j)))"

definition calculateCheckpointTransition :: "Job \<Rightarrow> string \<Rightarrow> u64 \<Rightarrow> transition result" where
  "calculateCheckpointTransition j jobID token =
     (case acceptPending j jobID token EffectCheckpoint (\<lambda>s. s = JobStatePausing \<or> s = JobStateStopping) of
        Inl er \<Rightarrow> Inl er
      | Inr None \<Rightarrow> Inr no_change
      | Inr (Some job) \<Rightarrow>
          if Phase j = JobStatePausing then
            Inr (move (job\<lparr>Phase := JobStatePaused\<rparr>)
              [\<lparr>EffKind = EffectPublishPause, EffJobID = jobID, EffState = JobStatePaused, EffToken = 0\<rparr>])
          else if Phase j = JobStateStopping then
            Inr (move (job\<lparr>Phase := JobStateIncomplete, ResumeState := JobStateEmpty\<rparr>)
              [\<lparr>EffKind = EffectStopAfterSave, EffJobID = jobID, EffState = JobStateIncomplete, EffToken = 0\<rparr>])
          else Inl (Errorf ''job checkpointed: invalid state''))"

definition calculateWorkerResultTransition ::
  "Job \<Rightarrow> string \<Rightarrow> u64 \<Rightarrow> JobState \<Rightarrow> error option \<Rightarrow> transition result" where
  "calculateWorkerResultTransition j jobID token nextState err =
     (case acceptPending j jobID token EffectDispatchRecovery runningPhase of
        Inl er \<Rightarrow> Inl er
      | Inr None \<Rightarrow> Inr no_change
      | Inr (Some job) \<Rightarrow>
          if err \<noteq> None then Inr (buildFailedTransition job err)
          else if \<not> transitionAllowed (Phase j) nextState
          then Inl (Errorf ''worker result: invalid transition'')
          else if nextState = JobStateCompleted \<or> nextState = JobStateIncomplete
          then Inr (move (job\<lparr>Phase := nextState\<rparr>) [])
          else Inr (issue (job\<lparr>Phase := nextState\<rparr>) EffectDispatchRecovery nextState))"

definition calculateJobFailedTransition ::
  "Job \<Rightarrow> string \<Rightarrow> u64 \<Rightarrow> error option \<Rightarrow> transition result" where
  "calculateJobFailedTransition j jobID token err =
     (case acceptAnyPending j jobID token activeJobState of
        Inl er \<Rightarrow> Inl er
      | Inr None \<Rightarrow> Inr no_change
      | Inr (Some job) \<Rightarrow> Inr (buildFailedTransition job err))"

definition calculateWorkerUnresponsiveTransition ::
  "Job \<Rightarrow> string \<Rightarrow> u64 \<Rightarrow> string \<Rightarrow> transition result" where
  "calculateWorkerUnresponsiveTransition j jobID token reason =
     (case acceptPending j jobID token EffectDispatchRecovery activeJobState of
        Inl er \<Rightarrow> Inl er
      | Inr None \<Rightarrow> Inr no_change
      | Inr (Some job) \<Rightarrow>
          (case issueEffect job EffectCheckpoint (Phase j) of (job', checkpoint) \<Rightarrow>
             Inr (move job' [checkpoint,
               \<lparr>EffKind = EffectWorkerUnresponsive, EffJobID = jobID, EffState = Phase j, EffToken = 0\<rparr>])))"

fun calculateTransition :: "Snapshot \<Rightarrow> Event \<Rightarrow> transition result" where
  "calculateTransition j (StartJob i) = calculateStartTransition j i"
| "calculateTransition j (ProbeCompleted i t e) = calculateProbeCompletedTransition j i t e"
| "calculateTransition j (WriteResultReceived i t e) = calculateWriteResultTransition j i t e"
| "calculateTransition j (ResumeJob i) = calculateResumeTransition j i"
| "calculateTransition j (PauseJob i) = calculatePauseTransition j i"
| "calculateTransition j (CancelJob i) = calculateCancelTransition j i"
| "calculateTransition j (WorkerResultReceived i t n e) = calculateWorkerResultTransition j i t n e"
| "calculateTransition j (JobCheckpointed i t) = calculateCheckpointTransition j i t"
| "calculateTransition j (JobFailed i t e) = calculateJobFailedTransition j i t e"
| "calculateTransition j (WorkerUnresponsiveDetected i t r) = calculateWorkerUnresponsiveTransition j i t r"
| "calculateTransition j UnsupportedEvent = Inl (Errorf ''handle event: unsupported'')"

section \<open>Handling an event\<close>

text \<open>The effects whose completion comes back as an event with the token.\<close>

definition async :: "EffectKind \<Rightarrow> bool" where
  "async k \<longleftrightarrow> k \<in> {EffectProbeMedia, EffectBootstrapRecovery, EffectDispatchRecovery, EffectCheckpoint}"

fun validateEffects :: "Effect list \<Rightarrow> error option" where
  "validateEffects [] = None"
| "validateEffects (e # es) =
     (if EffKind e = EffectEmpty then Some (Errorf ''validate transition effect: kind is required'')
      else if EffJobID e = '''' then Some (Errorf ''validate transition effect: job id is required'')
      else if async (EffKind e) \<and> EffToken e = 0
      then Some (Errorf ''validate transition effect: async effect requires a token'')
      else validateEffects es)"

definition validateTransition :: "transition \<Rightarrow> error option" where
  "validateTransition t =
     (case Job_Validate (NextJob t) of Some er \<Rightarrow> Some er | None \<Rightarrow> validateEffects (Effects t))"

definition commitTransition :: "Snapshot \<Rightarrow> transition \<Rightarrow> Snapshot" where
  "commitTransition s t = NextJob t"

definition publishEffects :: "transition \<Rightarrow> Effect list" where
  "publishEffects t = Effects t"

text \<open>The snapshot, the effects and the error; with an error the snapshot is the old one.\<close>

definition Handle :: "Snapshot \<Rightarrow> Event \<Rightarrow> Snapshot \<times> Effect list \<times> error option" where
  "Handle s event =
     (case Job_Validate s of Some er \<Rightarrow> (s, [], Some er) | None \<Rightarrow>
     (case calculateTransition s event of Inl er \<Rightarrow> (s, [], Some er) | Inr t \<Rightarrow>
      if Noop t then (s, [], None)
      else case validateTransition t of
        Some er \<Rightarrow> (s, [], Some er)
      | None \<Rightarrow> (commitTransition s t, publishEffects t, None)))"

section \<open>Shutdown\<close>

datatype ShutdownReason =
  ShutdownReasonEmpty | ShutdownPause | ShutdownCancel | ShutdownFatalError | ShutdownReasonOther string

datatype ShutdownStep =
    ShutdownStopScheduling
  | ShutdownCancelWorker
  | ShutdownDrainImage
  | ShutdownCommitMap
  | ShutdownFinalCheckpoint
  | ShutdownCatalogBestEffort
  | ShutdownCloseImageMap
  | ShutdownCloseCatalog
  | ShutdownStopWorker
  | ShutdownStopLogWriter
  | ShutdownNotifyTUI
  | ShutdownRestoreTerminal

fun removeShutdownStep :: "ShutdownStep list \<Rightarrow> ShutdownStep \<Rightarrow> ShutdownStep list" where
  "removeShutdownStep [] target = []"
| "removeShutdownStep (s # ss) target =
     (if s = target then removeShutdownStep ss target else s # removeShutdownStep ss target)"

definition BuildShutdownPlan :: "ShutdownReason \<Rightarrow> (ShutdownReason \<times> ShutdownStep list) result" where
  "BuildShutdownPlan reason =
     (if reason = ShutdownReasonEmpty then Inl (Errorf ''build shutdown plan: reason is required'')
      else let steps = [ShutdownStopScheduling, ShutdownCancelWorker, ShutdownDrainImage, ShutdownCommitMap,
          ShutdownFinalCheckpoint, ShutdownCatalogBestEffort, ShutdownCloseImageMap, ShutdownCloseCatalog,
          ShutdownStopWorker, ShutdownStopLogWriter, ShutdownNotifyTUI, ShutdownRestoreTerminal] in
      case reason of
        ShutdownPause \<Rightarrow> Inr (reason,
          removeShutdownStep (removeShutdownStep steps ShutdownCloseCatalog) ShutdownStopLogWriter)
      | ShutdownCancel \<Rightarrow> Inr (reason, steps)
      | ShutdownFatalError \<Rightarrow> Inr (reason, steps)
      | _ \<Rightarrow> Inl (Errorf ''build shutdown plan: unsupported reason''))"

end
