(* ===== verification/CoordinatorProps.thy ===== *)
theory CoordinatorProps
  imports Coordinator
begin

text \<open>
  The properties of the job state machine: the invariant of reachable jobs, freshness of tokens,
  saving before a pause, the order of the passes, and that no active job is stuck.
\<close>

section \<open>One step\<close>

lemma Handle_cases:
  assumes "Handle j e = (j', es, err)"
  obtains (rejected) er where "err = Some er" "j' = j" "es = []"
    | (stale) "err = None" "j' = j" "es = []"
    | (moved) t where "err = None" "Job_Validate j = None" "calculateTransition j e = Inr t" "\<not> Noop t"
        "Job_Validate (NextJob t) = None" "validateEffects (Effects t) = None" "j' = NextJob t" "es = Effects t"
  using assms
  by (auto simp: Handle_def validateTransition_def commitTransition_def publishEffects_def
      split: option.splits sum.splits if_splits)

lemmas issue_simps = issue_def issueEffect_def clearPending_def buildFailedTransition_def Let_def

lemmas transition_defs = calculateStartTransition_def calculateProbeCompletedTransition_def
  calculateWriteResultTransition_def calculateResumeTransition_def calculatePauseTransition_def
  calculateCancelTransition_def calculateWorkerResultTransition_def calculateCheckpointTransition_def
  calculateJobFailedTransition_def calculateWorkerUnresponsiveTransition_def
  acceptPending_def acceptAnyPending_def requireJobState_def

lemma runningPhase_simps [simp]:
  "runningPhase JobStateFastPass" "runningPhase JobStateTrimPass" "runningPhase JobStateAdaptivePass"
  "runningPhase JobStateScrapePass" "runningPhase JobStateVerifying" "\<not> runningPhase JobStateEmpty"
  "\<not> runningPhase JobStateIdle" "\<not> runningPhase JobStateIdentifying" "\<not> runningPhase JobStatePreparing"
  "\<not> runningPhase JobStatePausing" "\<not> runningPhase JobStatePaused" "\<not> runningPhase JobStateStopping"
  "\<not> runningPhase JobStateCompleted" "\<not> runningPhase JobStateIncomplete" "\<not> runningPhase JobStateFailed"
  "\<not> runningPhase (JobStateOther s)"
  by (simp_all add: runningPhase_def)

text \<open>What a job waits for in each phase.\<close>

definition pending_matches :: "Job \<Rightarrow> bool" where
  "pending_matches j \<longleftrightarrow>
     (case Phase j of
        JobStateIdentifying \<Rightarrow> PendingKind j = EffectProbeMedia
      | JobStatePreparing \<Rightarrow> PendingKind j = EffectBootstrapRecovery
      | JobStatePausing \<Rightarrow> PendingKind j = EffectCheckpoint
      | JobStateStopping \<Rightarrow> PendingKind j = EffectCheckpoint
      | JobStatePaused \<Rightarrow> PendingKind j = EffectEmpty
      | JobStateCompleted \<Rightarrow> PendingKind j = EffectEmpty
      | JobStateIncomplete \<Rightarrow> PendingKind j = EffectEmpty
      | JobStateFailed \<Rightarrow> PendingKind j = EffectEmpty
      | JobStateIdle \<Rightarrow> j = idle_job
      | _ \<Rightarrow> runningPhase (Phase j) \<and>
             (PendingKind j = EffectDispatchRecovery \<or> PendingKind j = EffectCheckpoint))"

definition job_inv :: "Job \<Rightarrow> bool" where
  "job_inv j \<longleftrightarrow> Job_Validate j = None \<and> pending_matches j"

lemma pending_running: "runningPhase (Phase j) \<Longrightarrow>
    pending_matches j \<longleftrightarrow> PendingKind j = EffectDispatchRecovery \<or> PendingKind j = EffectCheckpoint"
  by (auto simp: pending_matches_def runningPhase_def)

lemma transitionAllowed_target:
  "transitionAllowed s t \<Longrightarrow> runningPhase t \<or> t = JobStateCompleted \<or> t = JobStateIncomplete"
  by (cases s) (auto simp: transitionAllowed_def)

lemma calculateTransition_pending:
  assumes "calculateTransition j e = Inr t" "\<not> Noop t" "job_inv j" "Job_Validate (NextJob t) = None"
  shows "pending_matches (NextJob t)"
proof (cases e)
  case (StartJob i)
  with assms show ?thesis by (auto simp: transition_defs issue_simps pending_matches_def split: if_splits)
next
  case (ProbeCompleted i tk er)
  with assms show ?thesis
    by (auto simp: transition_defs issue_simps pending_matches_def split: if_splits)
next
  case (WriteResultReceived i tk er)
  with assms show ?thesis
    by (auto simp: transition_defs issue_simps pending_matches_def split: if_splits)
next
  case (ResumeJob i)
  with assms have r: "Phase j = JobStatePaused" "t = issue (j\<lparr>Phase := ResumeState j, ResumeState := JobStateEmpty\<rparr>)
                      EffectDispatchRecovery (ResumeState j)"
    by (auto simp: transition_defs split: if_splits option.splits)
  with assms(3) have "runningPhase (ResumeState j)"
    by (auto simp: job_inv_def Job_Validate_def split: if_splits)
  with r show ?thesis by (subst pending_running) (simp_all add: issue_simps)
next
  case (PauseJob i)
  with assms show ?thesis by (auto simp: transition_defs issue_simps pending_matches_def split: if_splits)
next
  case (CancelJob i)
  with assms show ?thesis
    by (auto simp: transition_defs issue_simps pending_matches_def job_inv_def split: if_splits)
next
  case (WorkerResultReceived i tk n er)
  with assms show ?thesis
    using transitionAllowed_target [of "Phase j" n] pending_running [of "NextJob t"]
    by (auto simp: transition_defs issue_simps pending_matches_def [of "_\<lparr>Phase := JobStateFailed\<rparr>"]
        pending_matches_def [of "_\<lparr>Phase := JobStateCompleted\<rparr>"] pending_matches_def split: if_splits option.splits)
next
  case (JobCheckpointed i tk)
  with assms show ?thesis
    by (auto simp: transition_defs issue_simps pending_matches_def split: if_splits option.splits)
next
  case (JobFailed i tk er)
  with assms show ?thesis
    by (auto simp: transition_defs issue_simps pending_matches_def split: if_splits option.splits)
next
  case (WorkerUnresponsiveDetected i tk r)
  with assms have "Phase (NextJob t) = Phase j" "PendingKind (NextJob t) = EffectCheckpoint" "PendingKind j = EffectDispatchRecovery"
    by (auto simp: transition_defs issue_simps split: if_splits option.splits)
  moreover from this assms(3) have "runningPhase (Phase j)"
    by (auto simp: job_inv_def pending_matches_def Job_Validate_def idle_job_def validJobState_def split: JobState.splits if_splits)
  ultimately show ?thesis by (simp add: pending_running)
next
  case UnsupportedEvent
  with assms show ?thesis by simp
qed

lemma Handle_inv:
  assumes "job_inv j" "Handle j e = (j', es, err)"
  shows "job_inv j'"
  using assms(2)
proof (cases rule: Handle_cases)
  case (moved t)
  with calculateTransition_pending [OF moved(3,4) assms(1) moved(5)] show ?thesis by (simp add: job_inv_def)
qed (use assms(1) in simp_all)

inductive reachable :: "Job \<Rightarrow> bool" where
  idle: "reachable idle_job"
| step: "reachable j \<Longrightarrow> Handle j e = (j', es, err) \<Longrightarrow> reachable j'"

lemma reachable_inv: "reachable j \<Longrightarrow> job_inv j"
proof (induction rule: reachable.induct)
  case idle
  show ?case by (simp add: job_inv_def Job_Validate_def pending_matches_def idle_job_def)
next
  case step
  then show ?case using Handle_inv by blast
qed

section \<open>Reachable jobs\<close>

text \<open>A job that has been started, for the concrete instances.\<close>

fun run :: "Job \<Rightarrow> Event list \<Rightarrow> Job \<times> Effect list" where
  "run j [] = (j, [])"
| "run j (e # es) =
     (case Handle j e of (j1, effs, _) \<Rightarrow> (case run j1 es of (j2, effs') \<Rightarrow> (j2, effs @ effs')))"

lemma reachable_run: "reachable j \<Longrightarrow> reachable (fst (run j es))"
proof (induction es arbitrary: j)
  case (Cons e es)
  obtain j1 effs err where h: "Handle j e = (j1, effs, err)" by (metis prod.exhaust)
  from Cons.IH [OF reachable.step [OF Cons.prems h]] h show ?case by (simp split: prod.split) (metis fst_conv)
qed simp

definition started_job :: Job where
  "started_job = fst (run idle_job [StartJob ''job'', ProbeCompleted ''job'' 1 None, WriteResultReceived ''job'' 2 None])"

lemma reachable_started: "reachable started_job"
  unfolding started_job_def by (intro reachable_run reachable.idle)

text \<open>
  C12: Every job the coordinator can reach is consistent: it passes the code's own validation, it
  waits for exactly the effect its phase calls for (a probe while identifying, the bootstrap while
  preparing, a dispatch or a checkpoint while running, a checkpoint while pausing or stopping), and
  for nothing once it is paused or finished.
\<close>

theorem reachable_job_consistent:
  assumes "reachable j"
  shows "Job_Validate j = None \<and> pending_matches j \<and>
    (activeJobState (Phase j) \<and> Phase j \<noteq> JobStatePaused \<longleftrightarrow> PendingKind j \<noteq> EffectEmpty)"
proof -
  have i: "job_inv j" using assms by (rule reachable_inv)
  then have v: "validJobState (Phase j)"
    by (auto simp: job_inv_def Job_Validate_def validJobState_def split: if_splits)
  with i show ?thesis
    by (cases "Phase j") (auto simp: job_inv_def pending_matches_def activeJobState_def validJobState_def idle_job_def)
qed

theorem reachable_job_consistent_witness:
  "Phase started_job = JobStateFastPass \<and> PendingKind started_job \<noteq> EffectEmpty"
proof -
  have "activeJobState (Phase started_job) \<and> Phase started_job \<noteq> JobStatePaused"
    "Phase started_job = JobStateFastPass" by code_simp+
  with reachable_job_consistent [OF reachable_started] show ?thesis by blast
qed

text \<open>
  No active job is stuck. From every reachable active job one event ends it: a paused job is
  cancelled, and any other job fails when its outstanding effect is reported as failed.
\<close>

theorem active_job_can_end:
  assumes "reachable j" "activeJobState (Phase j)"
  shows "\<exists>e j' es. Handle j e = (j', es, None) \<and> Phase j' \<in> {JobStateIncomplete, JobStateFailed} \<and> es \<noteq> [] \<and>
    (e = CancelJob (ID j) \<or> e = JobFailed (ID j) (PendingToken j) None)"
proof -
  have i: "Job_Validate j = None" "pending_matches j" using reachable_inv [OF assms(1)] by (auto simp: job_inv_def)
  have act: "Phase j \<noteq> JobStateEmpty" "Phase j \<noteq> JobStateIdle" using assms(2) by (auto simp: activeJobState_def)
  from i(1) act have v: "ID j \<noteq> ''''" "NextToken j \<noteq> 0" by (auto simp: Job_Validate_def split: if_splits)
  then have n: "0 < NextToken j" by (simp add: word_neq_0_pos word_less_nat_alt)
  show ?thesis
  proof (cases "Phase j = JobStatePaused")
    case True
    with i(1) v n have "Handle j (CancelJob (ID j)) =
      (clearPending (j\<lparr>Phase := JobStateIncomplete, ResumeState := JobStateEmpty\<rparr>),
       [\<lparr>EffKind = EffectStopAfterSave, EffJobID = ID j, EffState = JobStateIncomplete, EffToken = 0\<rparr>], None)"
      by (simp add: Handle_def calculateCancelTransition_def validateTransition_def clearPending_def
          Job_Validate_def [of "j\<lparr>Phase := JobStateIncomplete, ResumeState := JobStateEmpty, PendingKind := EffectEmpty, PendingToken := 0\<rparr>"]
          validJobState_def async_def commitTransition_def publishEffects_def)
    then show ?thesis
      by (intro exI [of _ "CancelJob (ID j)"] exI conjI) (assumption, simp_all add: clearPending_def)
  next
    case False
    then have p: "PendingKind j \<noteq> EffectEmpty"
      using i(2) assms(2) by (cases "Phase j") (auto simp: pending_matches_def activeJobState_def)
    have "Handle j (JobFailed (ID j) (PendingToken j) None) =
      (clearPending (j\<lparr>Phase := JobStateFailed, ResumeState := JobStateEmpty\<rparr>),
       [\<lparr>EffKind = EffectReportFailure, EffJobID = ID j, EffState = JobStateFailed, EffToken = 0\<rparr>], None)"
      using i(1) v n p assms(2)
      by (simp add: Handle_def calculateJobFailedTransition_def acceptAnyPending_def buildFailedTransition_def
          Let_def validateTransition_def clearPending_def
          Job_Validate_def [of "j\<lparr>PendingKind := EffectEmpty, PendingToken := 0, Phase := JobStateFailed, ResumeState := JobStateEmpty\<rparr>"]
          Job_Validate_def [of "j\<lparr>Phase := JobStateFailed, ResumeState := JobStateEmpty, PendingKind := EffectEmpty, PendingToken := 0\<rparr>"]
          validJobState_def async_def commitTransition_def publishEffects_def)
    then show ?thesis
      by (intro exI [of _ "JobFailed (ID j) (PendingToken j) None"] exI conjI) (assumption, simp_all add: clearPending_def)
  qed
qed

theorem active_job_can_end_witness:
  "\<exists>e j' es. Handle started_job e = (j', es, None) \<and> Phase j' \<in> {JobStateIncomplete, JobStateFailed}"
proof -
  have "activeJobState (Phase started_job)" by code_simp
  from active_job_can_end [OF reachable_started this] show ?thesis by blast
qed

text \<open>
  Nothing is announced as paused or stopped before it is saved. A reachable job publishes a pause
  only when the outstanding checkpoint of its pausing phase completes; it stops after saving only
  when the checkpoint of its stopping phase completes, or when it is cancelled while paused, that is
  after such a checkpoint.
\<close>

theorem saved_before_announced:
  assumes "reachable j" "Handle j e = (j', es, err)" "x \<in> set es"
  shows "(EffKind x = EffectPublishPause \<longrightarrow>
      e = JobCheckpointed (ID j) (PendingToken j) \<and> Phase j = JobStatePausing \<and>
      PendingKind j = EffectCheckpoint \<and> Phase j' = JobStatePaused \<and> ResumeState j' = ResumeState j) \<and>
    (EffKind x = EffectStopAfterSave \<longrightarrow> Phase j' = JobStateIncomplete \<and>
      (e = JobCheckpointed (ID j) (PendingToken j) \<and> Phase j = JobStateStopping \<and> PendingKind j = EffectCheckpoint \<or>
       e = CancelJob (ID j) \<and> Phase j = JobStatePaused))"
  using assms(2)
proof (cases rule: Handle_cases)
  case (moved t)
  with assms(3) show ?thesis
    by (cases e) (auto simp: transition_defs issue_simps split: if_splits option.splits)
qed (use assms(3) in simp_all)

theorem saved_before_announced_witness:
  "\<exists>(j :: Job) (x :: Effect). EffKind x = EffectPublishPause \<and> Phase j = JobStatePaused \<and> ResumeState j = JobStateFastPass"
proof -
  let ?j = "fst (run started_job [PauseJob ''job''])"
  let ?x = "\<lparr>EffKind = EffectPublishPause, EffJobID = ''job'', EffState = JobStatePaused, EffToken = 0\<rparr>"
  obtain j' es err where h: "Handle ?j (JobCheckpointed ''job'' 4) = (j', es, err)" by (metis prod.exhaust)
  have "fst (snd (Handle ?j (JobCheckpointed ''job'' 4))) = [?x]" by code_simp
  with h have "?x \<in> set es" by simp
  from saved_before_announced [OF reachable_run [OF reachable_started] h this]
  have "Phase j' = JobStatePaused" "ResumeState j' = ResumeState ?j" by simp_all
  moreover have "ResumeState ?j = JobStateFastPass" by code_simp
  ultimately show ?thesis by (intro exI [of _ j'] exI [of _ ?x]) simp
qed

section \<open>Tokens\<close>

text \<open>The effects whose completion comes back as an event with their token.\<close>

definition requests :: "Effect list \<Rightarrow> Effect list" where
  "requests es = filter (\<lambda>e. async (EffKind e)) es"

definition is_start :: "Event \<Rightarrow> bool" where
  "is_start e = (case e of StartJob _ \<Rightarrow> True | _ \<Rightarrow> False)"

abbreviation is_probe :: "Effect \<Rightarrow> bool" where
  "is_probe x \<equiv> EffKind x = EffectProbeMedia"

lemma requests_simps [simp]: "requests [] = []" "requests (xs @ ys) = requests xs @ requests ys"
  "requests (e # es) = (if async (EffKind e) then e # requests es else requests es)"
  by (simp_all add: requests_def)

lemma async_simps [simp]:
  "async EffectProbeMedia" "async EffectBootstrapRecovery" "async EffectDispatchRecovery" "async EffectCheckpoint"
  "\<not> async EffectPublishPause" "\<not> async EffectStopAfterSave" "\<not> async EffectReportFailure"
  "\<not> async EffectWorkerUnresponsive"
  by (simp_all add: async_def)

text \<open>How a list of requests is numbered, from the job and its next number on: one after the other,
  and from one again with the probe of a new job. The result is the job and the number that are next.\<close>

fun number :: "string \<times> nat \<Rightarrow> Effect list \<Rightarrow> (string \<times> nat) option" where
  "number s [] = Some s"
| "number s (x # xs) =
     (if (if is_probe x then unat (EffToken x) = 1 else (EffJobID x, unat (EffToken x)) = s)
      then number (EffJobID x, Suc (unat (EffToken x))) xs else None)"

lemma number_append: "number s (xs @ ys) = Option.bind (number s xs) (\<lambda>s. number s ys)"
  by (induction s xs rule: number.induct) simp_all

text \<open>One step issues at most one request: the probe of a start, or the next one of the job.\<close>

lemma calculateTransition_requests:
  assumes "calculateTransition j e = Inr t" "\<not> Noop t" "\<not> is_start e" "NextToken j \<noteq> 0"
  shows "ID (NextJob t) = ID j \<and>
    (requests (Effects t) = [] \<and> NextToken (NextJob t) = NextToken j \<or>
     (\<exists>x. requests (Effects t) = [x] \<and> \<not> is_probe x \<and> EffJobID x = ID j \<and> EffToken x = NextToken j \<and>
        NextToken (NextJob t) = NextToken j + 1))"
  using assms
  by (cases e) (auto simp: transition_defs is_start_def issue_simps split: if_splits option.splits)

lemma calculateTransition_idle:
  "calculateTransition j e = Inr t \<Longrightarrow> \<not> is_start e \<Longrightarrow> Phase j \<noteq> JobStateIdle"
  by (cases e) (auto simp: transition_defs is_start_def activeJobState_def split: if_splits option.splits)

lemma Handle_number:
  assumes "Handle j e = (j', es, err)"
  shows "number (ID j, unat (NextToken j)) (requests es) = Some (ID j', unat (NextToken j')) \<and>
    length (filter is_probe (requests es)) \<le> (if is_start e then 1 else 0)"
  using assms
proof (cases rule: Handle_cases)
  case (moved t)
  show ?thesis
  proof (cases "is_start e")
    case True
    then obtain i where "e = StartJob i" by (cases e) (simp_all add: is_start_def)
    then show ?thesis using moved by (auto simp: transition_defs issue_simps is_start_def split: if_splits)
  next
    case False
    have "Phase j \<noteq> JobStateIdle" using calculateTransition_idle [OF moved(3) False] .
    then have nt: "NextToken j \<noteq> 0" using moved(2) by (auto simp: Job_Validate_def split: if_splits)
    note req = calculateTransition_requests [OF moved(3,4) False nt]
    from req show ?thesis
    proof (elim conjE disjE exE)
      fix x
      assume i: "requests (Effects t) = [x]" "\<not> is_probe x" "EffJobID x = ID j" "EffToken x = NextToken j"
        "NextToken (NextJob t) = NextToken j + 1" "ID (NextJob t) = ID j"
      have "NextToken (NextJob t) \<noteq> 0"
      proof
        assume z: "NextToken (NextJob t) = 0"
        then have "PendingToken (NextJob t) = 0 \<and> PendingKind (NextJob t) = EffectEmpty \<and> Phase (NextJob t) = JobStateIdle"
          using moved(5) by (auto simp: Job_Validate_def split: if_splits)
        with moved(3) False i(1) show False
          by (cases e) (auto simp: transition_defs issue_simps is_start_def split: if_splits option.splits)
      qed
      then have "unat (NextToken j + 1) = Suc (unat (NextToken j))"
        using i(5) by (metis Suc_eq_plus1 add.commute unatSuc)
      with i moved(7,8) show ?thesis by simp
    qed (use moved(7,8) in simp)
  qed
qed simp_all

lemma run_number:
  "run j evs = (j', effs) \<Longrightarrow>
   number (ID j, unat (NextToken j)) (requests effs) = Some (ID j', unat (NextToken j')) \<and>
   length (filter is_probe (requests effs)) \<le> length (filter is_start evs)"
proof (induction evs arbitrary: j effs)
  case (Cons e evs)
  obtain j1 es err where h: "Handle j e = (j1, es, err)" by (metis prod.exhaust)
  obtain es2 where r: "run j1 evs = (j', es2)" "effs = es @ es2"
    using Cons.prems h by (auto split: prod.splits)
  show ?case using Cons.IH [OF r(1)] Handle_number [OF h] r(2) by (auto simp: number_append split: if_splits)
qed simp

text \<open>What the numbering says of the requests by their positions.\<close>

lemma number_first:
  "number (i, n) xs = Some s \<Longrightarrow> k < length xs \<Longrightarrow> \<forall>m \<le> k. \<not> is_probe (xs ! m) \<Longrightarrow>
   EffJobID (xs ! k) = i \<and> unat (EffToken (xs ! k)) = n + k"
proof (induction xs arbitrary: i n k)
  case (Cons x xs)
  have x: "\<not> is_probe x" using Cons.prems(3) by force
  then have r: "number (i, Suc n) xs = Some s" "EffJobID x = i" "unat (EffToken x) = n"
    using Cons.prems(1) by (auto split: if_splits)
  show ?case
  proof (cases k)
    case (Suc k')
    have "\<forall>m \<le> k'. \<not> is_probe (xs ! m)" using Cons.prems(3) Suc by force
    then show ?thesis using Cons.IH [OF r(1), of k'] Cons.prems(2) Suc by simp
  qed (use r in simp)
qed simp

lemma number_between:
  "number s xs = Some s' \<Longrightarrow> k < l \<Longrightarrow> l < length xs \<Longrightarrow> \<forall>m. k < m \<and> m \<le> l \<longrightarrow> \<not> is_probe (xs ! m) \<Longrightarrow>
   EffJobID (xs ! l) = EffJobID (xs ! k) \<and> unat (EffToken (xs ! l)) = unat (EffToken (xs ! k)) + (l - k)"
proof (induction xs arbitrary: s k l)
  case (Cons x xs)
  have r: "number (EffJobID x, Suc (unat (EffToken x))) xs = Some s'" using Cons.prems(1) by (auto split: if_splits)
  obtain l' where l: "l = Suc l'" using Cons.prems(2) by (cases l) auto
  have free: "\<not> is_probe (xs ! m)" if "k < Suc m" "m \<le> l'" for m
    using Cons.prems(4) that l by (auto dest: spec [of _ "Suc m"])
  show ?case
  proof (cases k)
    case 0
    then show ?thesis using number_first [OF r, of l'] free Cons.prems(3) l by simp
  next
    case (Suc k')
    then show ?thesis using Cons.IH [OF r, of k' l'] free Cons.prems(2,3) l by auto
  qed
qed simp

lemma number_probe: "number s xs = Some s' \<Longrightarrow> x \<in> set xs \<Longrightarrow> is_probe x \<Longrightarrow> unat (EffToken x) = 1"
  by (induction s xs rule: number.induct) (auto split: if_splits)

lemma number_last: "number s xs = Some s' \<Longrightarrow> xs \<noteq> [] \<Longrightarrow> s' = (EffJobID (last xs), Suc (unat (EffToken (last xs))))"
  by (induction s xs rule: number.induct) (auto split: if_splits)

text \<open>
  C17: Within a job no token is used twice. Whatever events arrive in whatever order, starts of jobs
  included: as long as no new job is started, the effects that wait for an answer carry the
  identifier of the job and consecutive tokens, each one more than the one before it, the first
  one the next token of the job at hand; the counter ends one above the last token and
  never wraps around, the coordinator refuses the event instead. A late result of an
  older effect of the job can therefore not be mistaken for the current one. Only an accepted start
  begins again, at 1, with a probe of the medium.
\<close>

theorem tokens_never_reused:
  assumes "run j evs = (j', effs)" and "fs = requests effs"
  shows "(\<forall>k < length fs. (\<forall>m \<le> k. \<not> is_probe (fs ! m)) \<longrightarrow>
      EffJobID (fs ! k) = ID j \<and> unat (EffToken (fs ! k)) = unat (NextToken j) + k) \<and>
    (\<forall>k l. k < l \<and> l < length fs \<and> (\<forall>m. k < m \<and> m \<le> l \<longrightarrow> \<not> is_probe (fs ! m)) \<longrightarrow>
      EffJobID (fs ! l) = EffJobID (fs ! k) \<and> unat (EffToken (fs ! l)) = unat (EffToken (fs ! k)) + (l - k)) \<and>
    (fs \<noteq> [] \<longrightarrow> ID j' = EffJobID (last fs) \<and> unat (NextToken j') = Suc (unat (EffToken (last fs)))) \<and>
    (\<forall>x \<in> set fs. is_probe x \<longrightarrow> unat (EffToken x) = 1) \<and>
    length (filter is_probe fs) \<le> length (filter is_start evs)"
proof -
  have r: "number (ID j, unat (NextToken j)) fs = Some (ID j', unat (NextToken j'))"
    "length (filter is_probe fs) \<le> length (filter is_start evs)" using run_number [OF assms(1)] assms(2) by simp_all
  show ?thesis
    using number_first [OF r(1)] number_between [OF r(1)] number_probe [OF r(1)] number_last [OF r(1)] r(2) by auto
qed

theorem tokens_never_reused_witness:
  "\<exists>j' effs. run idle_job [StartJob ''a'', ProbeCompleted ''a'' 1 None, JobFailed ''a'' 2 None, StartJob ''b'',
      ProbeCompleted ''b'' 1 None] = (j', effs) \<and>
    map EffToken (requests effs) = [1, 2, 1, 2] \<and> EffJobID (requests effs ! 3) = EffJobID (requests effs ! 2)"
proof -
  let ?evs = "[StartJob ''a'', ProbeCompleted ''a'' 1 None, JobFailed ''a'' 2 None, StartJob ''b'',
      ProbeCompleted ''b'' 1 None]"
  obtain j' effs where r: "run idle_job ?evs = (j', effs)" by force
  have "map (\<lambda>x. (EffKind x, EffToken x)) (requests (snd (run idle_job ?evs))) =
      [(EffectProbeMedia, 1), (EffectBootstrapRecovery, 2), (EffectProbeMedia, 1), (EffectBootstrapRecovery, 2)]"
    by code_simp
  then have k: "map (\<lambda>x. (EffKind x, EffToken x)) (requests effs) =
      [(EffectProbeMedia, 1), (EffectBootstrapRecovery, 2), (EffectProbeMedia, 1), (EffectBootstrapRecovery, 2)]"
    using r by simp
  then have n: "length (requests effs) = 4" "\<not> is_probe (requests effs ! 3)" "map EffToken (requests effs) = [1, 2, 1, 2]"
    by (auto simp: map_eq_Cons_conv)
  have "\<forall>m. 2 < m \<and> m \<le> 3 \<longrightarrow> \<not> is_probe (requests effs ! m)"
  proof (intro allI impI)
    fix m :: nat assume "2 < m \<and> m \<le> 3"
    then have "m = 3" by linarith
    then show "\<not> is_probe (requests effs ! m)" using n(2) by simp
  qed
  then have "EffJobID (requests effs ! 3) = EffJobID (requests effs ! 2)"
    using tokens_never_reused [OF r refl, THEN conjunct2, THEN conjunct1, rule_format, of 2 3] n(1) by simp
  with r n(3) show ?thesis by (intro exI conjI)
qed

text \<open>A second job of the same name is numbered like the first, and takes a late answer to the first
  for its own.\<close>

lemma late_result_of_former_job_accepted:
  "Phase (fst (run idle_job [StartJob ''a'', JobFailed ''a'' 1 None, StartJob ''a'', ProbeCompleted ''a'' 1 None])) =
     JobStatePreparing"
  by code_simp

section \<open>Passes\<close>

text \<open>The pass a job is in, also while it is paused, and the order of the passes.\<close>

definition pass_of :: "Job \<Rightarrow> JobState" where
  "pass_of j = (if Phase j \<in> {JobStatePausing, JobStatePaused, JobStateStopping} then ResumeState j else Phase j)"

fun pass_rank :: "JobState \<Rightarrow> nat" where
  "pass_rank JobStateFastPass = 1"
| "pass_rank JobStateTrimPass = 2"
| "pass_rank JobStateAdaptivePass = 3"
| "pass_rank JobStateScrapePass = 4"
| "pass_rank JobStateVerifying = 5"
| "pass_rank _ = 0"

lemma transitionAllowed_rank:
  "transitionAllowed s t \<Longrightarrow> runningPhase t \<Longrightarrow> pass_rank s \<le> pass_rank t"
  by (cases s) (auto simp: transitionAllowed_def)

lemma pass_of_simps:
  "Phase j = JobStateIdentifying \<Longrightarrow> \<not> runningPhase (pass_of j)"
  "Phase j = JobStatePreparing \<Longrightarrow> \<not> runningPhase (pass_of j)"
  "Phase j \<in> {JobStateIdle, JobStateCompleted, JobStateIncomplete, JobStateFailed} \<Longrightarrow> \<not> runningPhase (pass_of j)"
  "runningPhase (Phase j) \<Longrightarrow> pass_of j = Phase j"
  "Phase j \<in> {JobStatePausing, JobStatePaused, JobStateStopping} \<Longrightarrow> pass_of j = ResumeState j"
  by (auto simp: pass_of_def)

lemma calculateTransition_pass:
  assumes "calculateTransition j e = Inr t" "\<not> Noop t" "runningPhase (pass_of j)" "runningPhase (pass_of (NextJob t))"
  shows "pass_of (NextJob t) = pass_of j \<or> transitionAllowed (Phase j) (pass_of (NextJob t)) \<and> pass_of j = Phase j"
proof (cases e)
  case (WorkerResultReceived i tk n er)
  from WorkerResultReceived assms(1,2) have r: "runningPhase (Phase j)"
    "Phase (NextJob t) = JobStateFailed \<or> transitionAllowed (Phase j) (Phase (NextJob t))"
    by (auto simp: calculateWorkerResultTransition_def acceptPending_def issue_simps split: if_splits option.splits)
  show ?thesis
  proof (cases "Phase (NextJob t) = JobStateFailed")
    case True
    then show ?thesis using assms(4) pass_of_simps(3) by simp
  next
    case False
    with r(2) transitionAllowed_target [of "Phase j" "Phase (NextJob t)"] assms(4) pass_of_simps(3) [of "NextJob t"]
    have "runningPhase (Phase (NextJob t))" by auto
    with r False pass_of_simps(4) show ?thesis by simp
  qed
next
  case (StartJob i)
  with assms(1) have "Phase j \<in> {JobStateIdle, JobStateCompleted, JobStateIncomplete, JobStateFailed}"
    by (simp add: calculateStartTransition_def split: if_splits)
  with assms(3) pass_of_simps(3) show ?thesis by blast
next
  case (ResumeJob i)
  with assms(1) have p: "Phase j = JobStatePaused" "Phase (NextJob t) = ResumeState j"
    by (auto simp: calculateResumeTransition_def requireJobState_def issue_simps split: if_splits option.splits)
  with assms(3) show ?thesis using pass_of_simps(4) [of "NextJob t"] pass_of_simps(5) [of j] by simp
next
  case (ProbeCompleted i tk er)
  with assms(1,2) have "Phase j = JobStateIdentifying"
    by (auto simp: calculateProbeCompletedTransition_def acceptPending_def split: if_splits option.splits)
  with assms(3) pass_of_simps(1) show ?thesis by blast
next
  case (WriteResultReceived i tk er)
  with assms(1,2) have "Phase j = JobStatePreparing"
    by (auto simp: calculateWriteResultTransition_def acceptPending_def split: if_splits option.splits)
  with assms(3) pass_of_simps(2) show ?thesis by blast
next
  case (PauseJob i)
  with assms(1) have "runningPhase (Phase j)" "Phase (NextJob t) = JobStatePausing" "ResumeState (NextJob t) = Phase j"
    by (auto simp: calculatePauseTransition_def issue_simps split: if_splits)
  then show ?thesis using pass_of_simps(4) [of j] pass_of_simps(5) [of "NextJob t"] by simp
next
  case (CancelJob i)
  with assms(1) have "Phase (NextJob t) = JobStateIncomplete \<or>
      Phase (NextJob t) = JobStateStopping \<and> (runningPhase (Phase j) \<and> ResumeState (NextJob t) = Phase j \<or>
        Phase j = JobStatePausing \<and> ResumeState (NextJob t) = ResumeState j)"
    by (auto simp: calculateCancelTransition_def issue_simps split: if_splits)
  then show ?thesis
    using assms(4) pass_of_simps(3,5) [of "NextJob t"] pass_of_simps(4,5) [of j] by auto
next
  case (JobCheckpointed i tk)
  with assms(1,2) have "Phase (NextJob t) = JobStateIncomplete \<or>
      Phase j = JobStatePausing \<and> Phase (NextJob t) = JobStatePaused \<and> ResumeState (NextJob t) = ResumeState j"
    by (auto simp: calculateCheckpointTransition_def acceptPending_def clearPending_def split: if_splits option.splits)
  then show ?thesis using assms(4) pass_of_simps(3,5) [of "NextJob t"] pass_of_simps(5) [of j] by auto
next
  case (JobFailed i tk er)
  with assms(1,2) have "Phase (NextJob t) = JobStateFailed"
    by (auto simp: calculateJobFailedTransition_def acceptAnyPending_def issue_simps split: if_splits option.splits)
  with assms(4) pass_of_simps(3) [of "NextJob t"] show ?thesis by simp
next
  case (WorkerUnresponsiveDetected i tk r)
  with assms(1,2) have "Phase (NextJob t) = Phase j" "ResumeState (NextJob t) = ResumeState j"
    by (auto simp: calculateWorkerUnresponsiveTransition_def acceptPending_def issue_simps split: if_splits option.splits)
  then show ?thesis by (simp add: pass_of_def)
next
  case UnsupportedEvent
  with assms(1) show ?thesis by simp
qed

text \<open>
  A running job never goes back to an earlier pass. Over any single event, pausing, resuming and
  an unresponsive worker included, the pass stays the same or is a later one.
\<close>

theorem passes_only_advance:
  assumes "Handle j e = (j', es, err)" "runningPhase (pass_of j)" "runningPhase (pass_of j')"
  shows "pass_rank (pass_of j) \<le> pass_rank (pass_of j')"
  using assms(1)
proof (cases rule: Handle_cases)
  case (moved t)
  note rank = transitionAllowed_rank [of "Phase j"]
  have "pass_of j' = pass_of j \<or> (transitionAllowed (Phase j) (pass_of j') \<and> pass_of j = Phase j)"
    using calculateTransition_pass [OF moved(3,4)] moved(7) assms(2,3) by simp
  with rank assms(3) show ?thesis by auto
qed simp_all

theorem passes_only_advance_witness:
  "pass_rank (pass_of started_job) \<le>
     pass_rank (pass_of (fst (Handle started_job (WorkerResultReceived ''job'' 3 JobStateScrapePass None))))"
proof -
  let ?e = "WorkerResultReceived ''job'' 3 JobStateScrapePass None"
  obtain j' es err where h: "Handle started_job ?e = (j', es, err)" by (metis prod.exhaust)
  have "runningPhase (pass_of started_job)" "runningPhase (pass_of (fst (Handle started_job ?e)))" by code_simp+
  with passes_only_advance [OF h] h show ?thesis by simp
qed

section \<open>An unresponsive worker\<close>

text \<open>
  The checkpoint asked for when a worker stops responding can never be acknowledged. The job
  stays in its running phase with that checkpoint outstanding; its completion is refused as an
  invalid state and changes nothing, and results of the worker, whatever their token, are dropped.
\<close>

theorem unresponsive_checkpoint_refused:
  assumes "Handle j (WorkerUnresponsiveDetected i tk r) = (j', es, None)" "es \<noteq> []" "runningPhase (Phase j)"
  shows "Phase j' = Phase j \<and> PendingKind j' = EffectCheckpoint \<and>
    (\<exists>er. Handle j' (JobCheckpointed i (PendingToken j')) = (j', [], Some er)) \<and>
    Handle j' (WorkerResultReceived i tk2 n err) = (j', [], None)"
  using assms(1)
proof (cases rule: Handle_cases)
  case (moved t)
  from moved(3,4) have t: "ID j = i" "Phase (NextJob t) = Phase j" "PendingKind (NextJob t) = EffectCheckpoint"
    "ID (NextJob t) = i"
    by (auto simp: transition_defs issue_simps split: if_splits option.splits)
  with moved(5,7) assms(3) show ?thesis
    by (auto simp: Handle_def calculateCheckpointTransition_def calculateWorkerResultTransition_def acceptPending_def)
qed (use assms(2) in simp_all)

theorem unresponsive_checkpoint_refused_witness:
  "\<exists>j er. runningPhase (Phase j) \<and> PendingKind j = EffectCheckpoint \<and>
     Handle j (JobCheckpointed ''job'' (PendingToken j)) = (j, [], Some er)"
proof -
  let ?e = "WorkerUnresponsiveDetected ''job'' 3 ''timeout''"
  obtain j' es err where h: "Handle started_job ?e = (j', es, err)" by (metis prod.exhaust)
  have c: "snd (snd (Handle started_job ?e)) = None" "length (fst (snd (Handle started_job ?e))) = 2"
    "runningPhase (Phase started_job)" by code_simp+
  have h2: "Handle started_job ?e = (j', es, None)" "es \<noteq> []" using c(1,2) h by auto
  from unresponsive_checkpoint_refused [OF h2 c(3)] c(3) show ?thesis by metis
qed

end
