(* ===== verification/Lifecycle.thy ===== *)
theory Lifecycle
  imports Prelude
begin

text \<open>
  The lifecycle of one recovery session (\<^verbatim>\<open>internal/recovery\<close>: the state machine
  \<^verbatim>\<open>Lifecycle\<close>, the reader that gates device reads on it, and the
  \<^verbatim>\<open>StopController\<close>) and the way the platform jobs finish a session. Every method
  takes the mutex for its whole body, so a method is one atomic function on the state; the
  \<^verbatim>\<open>StopController\<close> releases its mutex around the hooks, and its methods are split into
  their critical sections.
\<close>

section \<open>The state machine\<close>

datatype LifeState =
    JobStarting
  | JobRunning
  | JobStopRequested
  | JobCancelingRead
  | JobAwaitingForceStop
  | JobForceStopping
  | JobCheckpointing
  | JobReleasingDevice
  | JobStopped
  | JobCompleted
  | LifeFailed

datatype StopIntent = StopIntentPause | StopIntentStop | StopIntentOther string

record Lifecycle =
  lstate :: LifeState
  stopIntent :: "StopIntent option"
  activeRead :: bool
  canForce :: bool
  lastRequest :: u64

definition NewLifecycle :: Lifecycle where
  "NewLifecycle = \<lparr>lstate = JobStarting, stopIntent = None, activeRead = False, canForce = False, lastRequest = 0\<rparr>"

definition Start :: "Lifecycle \<Rightarrow> error option \<times> Lifecycle" where
  "Start l =
     (if lstate l \<noteq> JobStarting then (Some (Errorf ''start lifecycle''), l)
      else (None, l\<lparr>lstate := JobRunning\<rparr>))"

definition BeginRead :: "Lifecycle \<Rightarrow> u64 \<Rightarrow> error option \<times> Lifecycle" where
  "BeginRead l requestID =
     (if requestID = 0 then (Some (Errorf ''begin read: request ID is required''), l)
      else if lstate l \<noteq> JobRunning then (Some (Errorf ''begin read: state''), l)
      else if activeRead l then (Some (Errorf ''begin read: request is already active''), l)
      else (None, l\<lparr>activeRead := True, lastRequest := requestID\<rparr>))"

definition RequestStop :: "Lifecycle \<Rightarrow> StopIntent \<Rightarrow> error option \<times> Lifecycle" where
  "RequestStop l intent =
     (if intent \<noteq> StopIntentPause \<and> intent \<noteq> StopIntentStop
      then (Some (Errorf ''request stop: invalid intent''), l)
      else if lstate l = JobStopped \<or> lstate l = JobCompleted \<or> lstate l = LifeFailed
      then (Some (Errorf ''request stop: lifecycle is already terminal''), l)
      else if lstate l = JobStopRequested \<or> lstate l = JobCancelingRead \<or>
              lstate l = JobAwaitingForceStop \<or> lstate l = JobForceStopping
      then (None, l)
      else (None, l\<lparr>stopIntent := Some intent,
                    lstate := (if activeRead l then JobCancelingRead else JobCheckpointing)\<rparr>))"

definition CompleteRead :: "Lifecycle \<Rightarrow> u64 \<Rightarrow> error option \<times> Lifecycle" where
  "CompleteRead l requestID =
     (if \<not> activeRead l \<or> requestID \<noteq> lastRequest l
      then (Some (Errorf ''complete read: request is not active''), l)
      else let l1 = l\<lparr>activeRead := False\<rparr> in
        (None, if lstate l1 = JobCancelingRead \<or> lstate l1 = JobForceStopping
               then l1\<lparr>lstate := JobCheckpointing\<rparr>
               else if lstate l1 = JobRunning then l1\<lparr>lastRequest := 0\<rparr> else l1))"

definition GraceExpired :: "Lifecycle \<Rightarrow> error option \<times> Lifecycle" where
  "GraceExpired l =
     (if lstate l \<noteq> JobCancelingRead then (Some (Errorf ''grace expired: state''), l)
      else (None, l\<lparr>lstate := JobAwaitingForceStop, canForce := True\<rparr>))"

definition ForceStop :: "Lifecycle \<Rightarrow> error option \<times> Lifecycle" where
  "ForceStop l =
     (if lstate l \<noteq> JobAwaitingForceStop \<or> \<not> canForce l
      then (Some (Errorf ''force stop: escalation is not available''), l)
      else (None, l\<lparr>lstate := JobForceStopping, canForce := False\<rparr>))"

definition Checkpointed :: "Lifecycle \<Rightarrow> error option \<times> Lifecycle" where
  "Checkpointed l =
     (if lstate l \<noteq> JobCheckpointing \<and> lstate l \<noteq> JobForceStopping
      then (Some (Errorf ''checkpointed: state''), l)
      else (None, l\<lparr>lstate := JobReleasingDevice\<rparr>))"

definition Complete :: "Lifecycle \<Rightarrow> error option \<times> Lifecycle" where
  "Complete l =
     (if lstate l \<noteq> JobRunning then (Some (Errorf ''complete lifecycle: state''), l)
      else (None, l\<lparr>lstate := JobCheckpointing\<rparr>))"

definition Released :: "Lifecycle \<Rightarrow> bool \<Rightarrow> error option \<times> Lifecycle" where
  "Released l completed =
     (if lstate l \<noteq> JobReleasingDevice then (Some (Errorf ''released: state''), l)
      else (None, l\<lparr>lstate := (if completed then JobCompleted else JobStopped)\<rparr>))"

definition Fail :: "Lifecycle \<Rightarrow> Lifecycle" where
  "Fail l = l\<lparr>lstate := LifeFailed, canForce := False\<rparr>"

text \<open>All calls a session can make on its lifecycle, as one step.\<close>

datatype life_call =
    LStart | LBeginRead u64 | LRequestStop StopIntent | LCompleteRead u64 | LGraceExpired
  | LForceStop | LCheckpointed | LComplete | LReleased bool | LFail

fun call :: "life_call \<Rightarrow> Lifecycle \<Rightarrow> error option \<times> Lifecycle" where
  "call LStart l = Start l"
| "call (LBeginRead i) l = BeginRead l i"
| "call (LRequestStop s) l = RequestStop l s"
| "call (LCompleteRead i) l = CompleteRead l i"
| "call LGraceExpired l = GraceExpired l"
| "call LForceStop l = ForceStop l"
| "call LCheckpointed l = Checkpointed l"
| "call LComplete l = Complete l"
| "call (LReleased c) l = Released l c"
| "call LFail l = (None, Fail l)"

section \<open>The gated reader\<close>

text \<open>
  \<^verbatim>\<open>LifecycleReaderAt\<close>: a counter for request ids over a source. The source is a
  parameter: what it returns, and what other goroutines did to the lifecycle during the read.
  \<open>None\<close> for the source is a missing source or lifecycle.
\<close>

record LifecycleReaderAt =
  nextID :: u64
  gate :: Lifecycle

type_synonym source_read = "nat \<Rightarrow> nat \<Rightarrow> Lifecycle \<Rightarrow> (nat \<times> error option) \<times> Lifecycle"

definition Lifecycle_ReadAt ::
  "LifecycleReaderAt \<Rightarrow> source_read option \<Rightarrow> nat \<Rightarrow> nat \<Rightarrow> (nat \<times> error option) \<times> LifecycleReaderAt" where
  "Lifecycle_ReadAt r source n off =
     (case source of
        None \<Rightarrow> ((0, Some (Errorf ''lifecycle reader: source and lifecycle are required'')), r)
      | Some src \<Rightarrow>
          let i = nextID r + 1; r1 = r\<lparr>nextID := i\<rparr> in
          (case BeginRead (gate r1) i of
             (Some _, l) \<Rightarrow> ((0, Some ErrStopRequested), r1\<lparr>gate := l\<rparr>)
           | (None, l) \<Rightarrow>
               (case src n off l of ((got, err), l1) \<Rightarrow>
               (case CompleteRead l1 i of (completeErr, l2) \<Rightarrow>
                  ((got, if err = None \<and> completeErr \<noteq> None then completeErr else err), r1\<lparr>gate := l2\<rparr>)))))"

section \<open>The stop controller\<close>

text \<open>
  \<^verbatim>\<open>StopHooks\<close>: what each hook returns, \<open>None\<close> for the optional hooks that
  are missing. \<open>hookCalls\<close> records the hooks that were called, in order, and
  \<open>stage\<close> where the one goroutine that finishes the session is, between its critical sections.
\<close>

record StopHooks =
  CancelRead :: "error option option"
  ForceStopHook :: "error option option"
  CheckpointHook :: "error option"
  ReleaseHook :: "error option"

datatype hook = CancelReadCalled | ForceStopCalled | CheckpointCalled | ReleaseCalled

datatype finish_stage = NotFinishing | InCheckpoint | InRelease | Finished

record StopController =
  life :: Lifecycle
  hooks :: StopHooks
  timerArmed :: bool
  finalized :: bool
  hookCalls :: "hook list"
  stage :: finish_stage

definition NewStopController :: "int \<Rightarrow> StopHooks option \<Rightarrow> StopController result" where
  "NewStopController grace hs =
     (if grace \<le> 0 then Inl (Errorf ''new stop controller: grace period must be greater than zero'')
      else case hs of
        None \<Rightarrow> Inl (Errorf ''new stop controller: checkpoint and release hooks are required'')
      | Some h \<Rightarrow> Inr \<lparr>life = NewLifecycle, hooks = h, timerArmed = False, finalized = False,
                      hookCalls = [], stage = NotFinishing\<rparr>)"

definition SC_Start :: "StopController \<Rightarrow> error option \<times> StopController" where
  "SC_Start c = (case Start (life c) of (e, l) \<Rightarrow> (e, c\<lparr>life := l\<rparr>))"

definition SC_BeginRead :: "StopController \<Rightarrow> u64 \<Rightarrow> error option \<times> StopController" where
  "SC_BeginRead c i = (case BeginRead (life c) i of (e, l) \<Rightarrow> (e, c\<lparr>life := l\<rparr>))"

text \<open>\<^verbatim>\<open>finishIfCheckpointing\<close>: claiming the finish, and what follows each hook.\<close>

definition finish_claim :: "StopController \<Rightarrow> StopController" where
  "finish_claim c =
     (if finalized c \<or> lstate (life c) \<noteq> JobCheckpointing then c
      else c\<lparr>finalized := True, hookCalls := hookCalls c @ [CheckpointCalled], stage := InCheckpoint\<rparr>)"

definition finish_checkpointed :: "StopController \<Rightarrow> error option \<times> StopController" where
  "finish_checkpointed c =
     (case CheckpointHook (hooks c) of
        Some e \<Rightarrow> (Some (Wrapf ''checkpoint stopped recovery'' e), c\<lparr>life := Fail (life c), stage := Finished\<rparr>)
      | None \<Rightarrow>
          (case Checkpointed (life c) of
             (Some e, l) \<Rightarrow> (Some e, c\<lparr>life := Fail l, stage := Finished\<rparr>)
           | (None, l) \<Rightarrow> (None, c\<lparr>life := l, hookCalls := hookCalls c @ [ReleaseCalled], stage := InRelease\<rparr>)))"

definition finish_released :: "StopController \<Rightarrow> error option \<times> StopController" where
  "finish_released c =
     (case ReleaseHook (hooks c) of
        Some e \<Rightarrow> (Some (Wrapf ''release stopped recovery device'' e), c\<lparr>life := Fail (life c), stage := Finished\<rparr>)
      | None \<Rightarrow> (case Released (life c) False of (e, l) \<Rightarrow> (e, c\<lparr>life := l, stage := Finished\<rparr>)))"

text \<open>The first critical section of \<^verbatim>\<open>RequestStop\<close> and what it does after it.\<close>

definition SC_RequestStop_locked :: "StopController \<Rightarrow> StopIntent \<Rightarrow> error option \<times> StopController" where
  "SC_RequestStop_locked c intent =
     (case RequestStop (life c) intent of
        (Some e, l) \<Rightarrow> (Some e, c)
      | (None, l) \<Rightarrow> (None, c\<lparr>life := l, timerArmed := timerArmed c \<or> lstate l = JobCancelingRead\<rparr>))"

definition SC_RequestStop :: "StopController \<Rightarrow> StopIntent \<Rightarrow> error option \<times> StopController" where
  "SC_RequestStop c intent =
     (case SC_RequestStop_locked c intent of
        (Some e, c1) \<Rightarrow> (Some e, c1)
      | (None, c1) \<Rightarrow>
          if lstate (life c1) = JobCancelingRead then
            (case CancelRead (hooks c1) of
               Some r \<Rightarrow> (r, c1\<lparr>hookCalls := hookCalls c1 @ [CancelReadCalled]\<rparr>)
             | None \<Rightarrow> (None, finish_claim c1))
          else (None, finish_claim c1))"

definition SC_expireGrace :: "StopController \<Rightarrow> StopController" where
  "SC_expireGrace c =
     (if lstate (life c) = JobCancelingRead then c\<lparr>life := snd (GraceExpired (life c))\<rparr> else c)"

definition SC_ReadFinished_locked :: "StopController \<Rightarrow> u64 \<Rightarrow> error option \<times> StopController" where
  "SC_ReadFinished_locked c i =
     (case CompleteRead (life c) i of
        (Some e, l) \<Rightarrow> (Some e, c)
      | (None, l) \<Rightarrow> (None, c\<lparr>life := l, timerArmed := False\<rparr>))"

definition SC_ReadFinished :: "StopController \<Rightarrow> u64 \<Rightarrow> error option \<times> StopController" where
  "SC_ReadFinished c i =
     (case SC_ReadFinished_locked c i of (Some e, c1) \<Rightarrow> (Some e, c1) | (None, c1) \<Rightarrow> (None, finish_claim c1))"

definition SC_ForceStop_locked :: "StopController \<Rightarrow> error option \<times> StopController" where
  "SC_ForceStop_locked c =
     (case ForceStop (life c) of
        (Some e, l) \<Rightarrow> (Some e, c)
      | (None, l) \<Rightarrow>
          (None, c\<lparr>life := l, hookCalls :=
            hookCalls c @ (if ForceStopHook (hooks c) = None then [] else [ForceStopCalled])\<rparr>))"

definition force_failed :: "StopController \<Rightarrow> StopController" where
  "force_failed c = c\<lparr>life := Fail (life c)\<rparr>"

definition SC_ForceStop :: "StopController \<Rightarrow> error option \<times> StopController" where
  "SC_ForceStop c =
     (case SC_ForceStop_locked c of
        (Some e, c1) \<Rightarrow> (Some e, c1)
      | (None, c1) \<Rightarrow>
          (case ForceStopHook (hooks c1) of
             None \<Rightarrow> (Some (Errorf ''force stop: device cancellation hook is unavailable''), c1)
           | Some (Some e) \<Rightarrow> (Some (Wrapf ''force stop active device request'' e), force_failed c1)
           | Some None \<Rightarrow> (None, c1)))"

text \<open>
  The interleavings: every critical section is a step. A goroutine that has left a critical section
  tries to claim the finish at any later moment, and a force-stop hook fails at any moment after it
  was called.
\<close>

inductive sc_step :: "StopController \<Rightarrow> StopController \<Rightarrow> bool" where
  start: "sc_step c (snd (SC_Start c))"
| begin_read: "sc_step c (snd (SC_BeginRead c i))"
| request_stop: "sc_step c (snd (SC_RequestStop_locked c intent))"
| cancel_hook: "lstate (life c) \<noteq> JobRunning \<Longrightarrow> sc_step c (c\<lparr>hookCalls := hookCalls c @ [CancelReadCalled]\<rparr>)"
| grace: "timerArmed c \<Longrightarrow> sc_step c (SC_expireGrace c)"
| read_finished: "sc_step c (snd (SC_ReadFinished_locked c i))"
| force_stop: "sc_step c (snd (SC_ForceStop_locked c))"
| force_hook: "ForceStopCalled \<in> set (hookCalls c) \<Longrightarrow> sc_step c (force_failed c)"
| claim: "sc_step c (finish_claim c)"
| checkpointed: "stage c = InCheckpoint \<Longrightarrow> sc_step c (snd (finish_checkpointed c))"
| released: "stage c = InRelease \<Longrightarrow> sc_step c (snd (finish_released c))"

inductive_cases sc_stepE: "sc_step c d"

inductive sc_steps :: "StopController \<Rightarrow> StopController \<Rightarrow> bool" where
  none: "sc_steps c c"
| more: "sc_steps c d \<Longrightarrow> sc_step d e \<Longrightarrow> sc_steps c e"

section \<open>How the platform jobs finish\<close>

text \<open>
  The end of \<^verbatim>\<open>finish\<close> in the Linux job, and in the Windows and macOS jobs, when the
  session has a lifecycle. The errors of the calls are ignored by the code.
\<close>

definition finish_linux :: "Lifecycle \<Rightarrow> bool \<Rightarrow> error option \<Rightarrow> Lifecycle" where
  "finish_linux l canceled err =
     (if err \<noteq> None then Fail l
      else snd (Released (snd (Checkpointed l)) (\<not> canceled)))"

definition finish_windows :: "Lifecycle \<Rightarrow> bool \<Rightarrow> error option \<Rightarrow> Lifecycle" where
  "finish_windows l canceled err =
     (if err \<noteq> None then Fail l
      else if canceled then snd (Released (snd (Checkpointed l)) False)
      else snd (Released (snd (Checkpointed (snd (Complete l)))) True))"

end
