(* ===== verification/LifecycleProps.thy ===== *)
theory LifecycleProps
  imports Lifecycle
begin

text \<open>
  The properties of a session's lifecycle: no read begins after a stop request, a session is
  reported as stopped only after its checkpoint and release hooks have succeeded, and the ways in
  which a session is left behind in a state that is not terminal.
\<close>

lemmas life_defs = Start_def BeginRead_def RequestStop_def CompleteRead_def GraceExpired_def ForceStop_def
  Checkpointed_def Complete_def Released_def Fail_def

definition calls :: "life_call list \<Rightarrow> Lifecycle \<Rightarrow> Lifecycle" where
  "calls cs l = fold (\<lambda>c l. snd (call c l)) cs l"

text \<open>A state no later call can bring back to running.\<close>

definition past_running :: "Lifecycle \<Rightarrow> bool" where
  "past_running l \<longleftrightarrow> lstate l \<notin> {JobStarting, JobRunning}"

lemma call_past_running: "past_running l \<Longrightarrow> past_running (snd (call c l))"
  by (cases c) (auto simp: past_running_def life_defs Let_def)

lemma calls_past_running: "past_running l \<Longrightarrow> past_running (calls cs l)"
  by (induction cs arbitrary: l) (auto simp: calls_def call_past_running)

text \<open>
  C15: A stop request closes the gate for good. Once it has been accepted, no sequence of calls on the
  lifecycle makes it accept another read: the gated reader returns the stop error and leaves the
  source alone.
\<close>

theorem no_read_after_stop:
  assumes "RequestStop l intent = (None, l1)" "gate r = calls cs l1"
  shows "(\<exists>e. BeginRead (calls cs l1) i = (Some e, calls cs l1)) \<and>
    Lifecycle_ReadAt r (Some src) n off = ((0, Some ErrStopRequested), r\<lparr>nextID := nextID r + 1\<rparr>)"
proof -
  have "past_running l1"
    using assms(1) by (auto simp: RequestStop_def past_running_def split: if_splits)
  then have p: "past_running (calls cs l1)" by (rule calls_past_running)
  then have b: "\<exists>e. BeginRead (calls cs l1) i = (Some e, calls cs l1)" for i
    by (auto simp: BeginRead_def past_running_def)
  from b [of "nextID r + 1"] obtain e where "BeginRead (gate r) (nextID r + 1) = (Some e, gate r)"
    using assms(2) by auto
  with b show ?thesis by (simp add: Lifecycle_ReadAt_def Let_def)
qed

abbreviation running_life :: Lifecycle where
  "running_life \<equiv> \<lparr>lstate = JobRunning, stopIntent = None, activeRead = False, canForce = False, lastRequest = 0\<rparr>"

theorem no_read_after_stop_witness:
  "\<exists>e. fst (BeginRead (calls [LCheckpointed, LStart] (snd (RequestStop running_life StopIntentPause))) 9) = Some e"
proof -
  let ?l = "snd (RequestStop running_life StopIntentPause)"
  let ?r = "\<lparr>nextID = 3, gate = calls [LCheckpointed, LStart] ?l\<rparr>"
  have "RequestStop running_life StopIntentPause = (None, ?l)" by code_simp
  from no_read_after_stop [OF this, of ?r "[LCheckpointed, LStart]" 9 "\<lambda>_ _ l. ((0, None), l)" 0 0]
  show ?thesis by (auto simp del: snd_conv)
qed

section \<open>The controller\<close>

abbreviation new_controller :: "StopHooks \<Rightarrow> StopController" where
  "new_controller h \<equiv> \<lparr>life = NewLifecycle, hooks = h, timerArmed = False, finalized = False,
     hookCalls = [], stage = NotFinishing\<rparr>"

definition finish_calls :: "StopController \<Rightarrow> hook list" where
  "finish_calls c = filter (\<lambda>h. h = CheckpointCalled \<or> h = ReleaseCalled) (hookCalls c)"

text \<open>What holds between any two steps: which hooks have been called and how they ended.\<close>

definition sc_inv :: "StopHooks \<Rightarrow> StopController \<Rightarrow> bool" where
  "sc_inv h c \<longleftrightarrow> hooks c = h \<and> (finalized c \<longleftrightarrow> stage c \<noteq> NotFinishing) \<and>
     (activeRead (life c) \<longrightarrow> lstate (life c) \<in> {JobRunning, JobCancelingRead, JobAwaitingForceStop, JobForceStopping, LifeFailed}) \<and>
     (case stage c of
        NotFinishing \<Rightarrow> finish_calls c = [] \<and> lstate (life c) \<notin> {JobReleasingDevice, JobStopped, JobCompleted}
      | InCheckpoint \<Rightarrow> finish_calls c = [CheckpointCalled] \<and> lstate (life c) \<in> {JobCheckpointing, LifeFailed}
      | InRelease \<Rightarrow> finish_calls c = [CheckpointCalled, ReleaseCalled] \<and> CheckpointHook h = None \<and>
                     lstate (life c) \<in> {JobReleasingDevice, JobCheckpointing, LifeFailed}
      | Finished \<Rightarrow> lstate (life c) \<in> {JobStopped, JobCheckpointing, LifeFailed} \<and>
                    (lstate (life c) = JobStopped \<longrightarrow> finish_calls c = [CheckpointCalled, ReleaseCalled] \<and>
                       CheckpointHook h = None \<and> ReleaseHook h = None))"

lemmas controller_defs = SC_Start_def SC_BeginRead_def SC_RequestStop_locked_def SC_expireGrace_def
  SC_ReadFinished_locked_def SC_ForceStop_locked_def force_failed_def finish_claim_def
  finish_checkpointed_def finish_released_def

lemma sc_step_inv:
  assumes "sc_step c d" "sc_inv h c"
  shows "sc_inv h d"
  using assms
proof (induction rule: sc_step.induct)
  case (start c)
  then show ?case
    by (cases "stage c"; cases "lstate (life c)")
       (simp_all add: sc_inv_def SC_Start_def Start_def finish_calls_def)
next
  case (begin_read c i)
  then show ?case
    by (cases "stage c"; cases "lstate (life c)")
       (simp_all add: sc_inv_def SC_BeginRead_def BeginRead_def finish_calls_def)
next
  case (request_stop c intent)
  then show ?case
    by (cases "stage c"; cases "lstate (life c)")
       (simp_all add: sc_inv_def SC_RequestStop_locked_def RequestStop_def finish_calls_def)
next
  case (cancel_hook c)
  then show ?case by (auto simp: sc_inv_def finish_calls_def split: finish_stage.splits)
next
  case (grace c)
  then show ?case
    by (cases "stage c"; cases "lstate (life c)")
       (simp_all add: sc_inv_def SC_expireGrace_def GraceExpired_def finish_calls_def)
next
  case (read_finished c i)
  then show ?case
    by (cases "stage c"; cases "lstate (life c)")
       (simp_all add: sc_inv_def SC_ReadFinished_locked_def CompleteRead_def Let_def finish_calls_def)
next
  case (force_stop c)
  then show ?case
    by (cases "stage c"; cases "lstate (life c)")
       (simp_all add: sc_inv_def SC_ForceStop_locked_def ForceStop_def finish_calls_def)
next
  case (force_hook c)
  then show ?case
    by (cases "stage c"; cases "lstate (life c)")
       (simp_all add: sc_inv_def force_failed_def Fail_def finish_calls_def)
next
  case (claim c)
  then show ?case
    by (cases "stage c"; cases "lstate (life c)")
       (simp_all add: sc_inv_def finish_claim_def finish_calls_def)
next
  case (checkpointed c)
  then show ?case
    by (auto simp: sc_inv_def controller_defs life_defs finish_calls_def split: finish_stage.splits option.splits)
next
  case (released c)
  then show ?case
    by (auto simp: sc_inv_def controller_defs life_defs finish_calls_def split: finish_stage.splits option.splits)
qed

lemma sc_steps_inv: "sc_steps c d \<Longrightarrow> sc_inv h c \<Longrightarrow> sc_inv h d"
  by (induction rule: sc_steps.induct) (auto dest: sc_step_inv)

lemma sc_inv_new: "sc_inv h (new_controller h)"
  by (simp add: sc_inv_def NewLifecycle_def finish_calls_def)

lemma sc_steps_1: "sc_step c d \<Longrightarrow> sc_steps c d"
  by (meson sc_steps.intros)

text \<open>
  C13: A session is reported as stopped only when it has been saved. In every interleaving of the
  controller's critical sections, a stopped lifecycle means that the checkpoint hook and then the
  release hook have each been called exactly once, in that order, and that both have succeeded.
\<close>

theorem stopped_means_saved:
  assumes "sc_steps (new_controller h) c" "lstate (life c) = JobStopped"
  shows "finish_calls c = [CheckpointCalled, ReleaseCalled] \<and> CheckpointHook h = None \<and> ReleaseHook h = None"
proof -
  have "sc_inv h c" using sc_steps_inv [OF assms(1) sc_inv_new] .
  with assms(2) show ?thesis by (auto simp: sc_inv_def split: finish_stage.splits)
qed

abbreviation good_hooks :: StopHooks where
  "good_hooks \<equiv> \<lparr>CancelRead = Some None, ForceStopHook = Some None, CheckpointHook = None, ReleaseHook = None\<rparr>"

theorem stopped_means_saved_witness:
  "\<exists>c. lstate (life c) = JobStopped \<and> finish_calls c = [CheckpointCalled, ReleaseCalled]"
proof -
  let ?c0 = "new_controller good_hooks"
  let ?c1 = "snd (SC_Start ?c0)"
  let ?c2 = "snd (SC_BeginRead ?c1 1)"
  let ?c3 = "snd (SC_RequestStop_locked ?c2 StopIntentStop)"
  let ?c4 = "snd (SC_ReadFinished_locked ?c3 1)"
  let ?c5 = "finish_claim ?c4"
  let ?c6 = "snd (finish_checkpointed ?c5)"
  let ?c7 = "snd (finish_released ?c6)"
  have st: "stage ?c5 = InCheckpoint" "stage ?c6 = InRelease" "lstate (life ?c7) = JobStopped" by code_simp+
  have "sc_steps ?c0 ?c7"
    by (intro sc_steps.more [OF _ sc_step.released [OF st(2)]] sc_steps.more [OF _ sc_step.checkpointed [OF st(1)]]
        sc_steps.more [OF _ sc_step.claim] sc_steps.more [OF _ sc_step.read_finished]
        sc_steps.more [OF _ sc_step.request_stop] sc_steps.more [OF _ sc_step.begin_read]
        sc_steps.more [OF _ sc_step.start] sc_steps.none)
  from stopped_means_saved [OF this st(3)] st(3) show ?thesis by blast
qed

section \<open>Sessions left behind\<close>

definition stranded :: "StopController \<Rightarrow> bool" where
  "stranded c \<longleftrightarrow> \<not> activeRead (life c) \<and> stage c = NotFinishing \<and>
     lstate (life c) \<in> {JobAwaitingForceStop, JobForceStopping, LifeFailed}"

lemma sc_step_stranded: "sc_step c d \<Longrightarrow> stranded c \<Longrightarrow> stranded d"
  by (induction rule: sc_step.induct) (auto simp: stranded_def controller_defs life_defs Let_def)

lemma sc_steps_stranded: "sc_steps c d \<Longrightarrow> stranded c \<Longrightarrow> stranded d"
  by (induction rule: sc_steps.induct) (auto dest: sc_step_stranded)

definition late :: "StopController \<Rightarrow> bool" where
  "late c \<longleftrightarrow> \<not> activeRead (life c) \<and> stage c = Finished \<and> finalized c \<and>
     lstate (life c) \<in> {JobCheckpointing, LifeFailed}"

lemma sc_step_late: "sc_step c d \<Longrightarrow> late c \<Longrightarrow> late d"
  by (induction rule: sc_step.induct) (auto simp: late_def controller_defs life_defs Let_def)

lemma sc_steps_late: "sc_steps c d \<Longrightarrow> late c \<Longrightarrow> late d"
  by (induction rule: sc_steps.induct) (auto dest: sc_step_late)

text \<open>
  Two orders of events leave a session that can never be reported as stopped, whatever happens
  afterwards. One is a read that completes after the grace period has expired: its completion does
  not move the lifecycle on, so nothing ever writes the checkpoint, with or without a forced stop.
  The other is a second stop request while the device is being released: it takes the lifecycle
  back to checkpointing, the release cannot be recorded, and the finish has already been claimed.
\<close>

theorem session_left_behind:
  assumes "finalized c \<longleftrightarrow> stage c \<noteq> NotFinishing"
  shows "(lstate (life c) = JobAwaitingForceStop \<and> activeRead (life c) \<and> stage c = NotFinishing \<longrightarrow>
      sc_steps (snd (SC_ReadFinished_locked c (lastRequest (life c)))) d \<longrightarrow>
      lstate (life d) \<noteq> JobStopped \<and> finish_calls d = finish_calls c) \<and>
    (lstate (life c) = JobReleasingDevice \<and> \<not> activeRead (life c) \<and> stage c = InRelease \<longrightarrow>
      sc_steps (snd (finish_released (snd (SC_RequestStop_locked c StopIntentStop)))) d \<longrightarrow>
      lstate (life d) \<noteq> JobStopped)"
proof (intro conjI impI)
  assume a: "lstate (life c) = JobAwaitingForceStop \<and> activeRead (life c) \<and> stage c = NotFinishing"
    and d: "sc_steps (snd (SC_ReadFinished_locked c (lastRequest (life c)))) d"
  have s: "stranded (snd (SC_ReadFinished_locked c (lastRequest (life c))))"
    using a by (simp add: stranded_def controller_defs life_defs)
  with sc_steps_stranded [OF d] show "lstate (life d) \<noteq> JobStopped" by (auto simp: stranded_def)
  have "finish_calls d = finish_calls (snd (SC_ReadFinished_locked c (lastRequest (life c))))"
    using d s
  proof (induction rule: sc_steps.induct)
    case (more c d e)
    from sc_steps_stranded [OF more(1,4)] have "stranded d" .
    with more(2) have "finish_calls e = finish_calls d"
      by (cases rule: sc_step.cases)
         (auto simp: stranded_def controller_defs life_defs Let_def finish_calls_def)
    with more(3,4) show ?case by simp
  qed simp
  then show "finish_calls d = finish_calls c" by (simp add: finish_calls_def controller_defs life_defs split: prod.splits option.splits)
next
  assume a: "lstate (life c) = JobReleasingDevice \<and> \<not> activeRead (life c) \<and> stage c = InRelease"
    and d: "sc_steps (snd (finish_released (snd (SC_RequestStop_locked c StopIntentStop)))) d"
  have "late (snd (finish_released (snd (SC_RequestStop_locked c StopIntentStop))))"
    using a assms by (auto simp: late_def controller_defs life_defs split: option.splits)
  from sc_steps_late [OF d this] show "lstate (life d) \<noteq> JobStopped" by (auto simp: late_def)
qed

theorem session_left_behind_witness:
  "\<exists>c d. lstate (life c) = JobAwaitingForceStop \<and> sc_steps c d \<and> lstate (life d) = JobForceStopping \<and>
     \<not> activeRead (life d) \<and> finish_calls d = []"
proof -
  let ?c2 = "snd (SC_BeginRead (snd (SC_Start (new_controller good_hooks))) 1)"
  let ?c4 = "SC_expireGrace (snd (SC_RequestStop_locked ?c2 StopIntentPause))"
  let ?c5 = "snd (SC_ReadFinished_locked ?c4 (lastRequest (life ?c4)))"
  let ?c6 = "snd (SC_ForceStop_locked ?c5)"
  have c: "finalized ?c4 \<longleftrightarrow> stage ?c4 \<noteq> NotFinishing" by code_simp
  have s: "lstate (life ?c4) = JobAwaitingForceStop \<and> activeRead (life ?c4) \<and> stage ?c4 = NotFinishing" by code_simp
  have e: "lstate (life ?c6) = JobForceStopping \<and> \<not> activeRead (life ?c6)" "finish_calls ?c4 = []" by code_simp+
  have st: "sc_steps ?c5 ?c6" by (rule sc_steps_1) (rule sc_step.force_stop)
  have "finish_calls ?c6 = finish_calls ?c4" using session_left_behind [OF c, of ?c6] s st by blast
  moreover have "sc_steps ?c4 ?c6"
    by (rule sc_steps.more [OF sc_steps_1 [OF sc_step.read_finished] sc_step.force_stop])
  ultimately show ?thesis using s e by (intro exI [of _ ?c4] exI [of _ ?c6]) simp
qed

text \<open>
  On Linux a recovery that finishes normally is never recorded as completed. The Windows and
  macOS jobs complete the lifecycle, checkpoint it and release it; the Linux job leaves out the
  first of the three calls, the other two are refused, and the session stays in its running state,
  in which it would still accept reads.
\<close>

theorem linux_job_stays_running:
  assumes "lstate l = JobRunning"
  shows "finish_linux l canceled None = l \<and> lstate (finish_windows l False None) = JobCompleted"
  using assms by (simp add: finish_linux_def finish_windows_def life_defs)

theorem linux_job_stays_running_witness:
  "lstate (finish_linux running_life False None) = JobRunning \<and>
   lstate (finish_windows running_life False None) = JobCompleted"
  using linux_job_stays_running [of running_life False] by simp

end
