(* ===== verification/Passes.thy ===== *)
theory Passes
  imports ExtentProps
begin

text \<open>
  What the recovery passes of \<^verbatim>\<open>internal/recovery\<close> share: read requests, and the
  contract of a pass as a machine that is driven by asking for the next action and reporting how it
  went. \<open>drive\<close> drives such a machine with the answers of a device, \<open>True\<close> for a
  successful read, until it has nothing left to do or the answers run out.
\<close>

section \<open>Requests\<close>

datatype Strategy = StrategyFast | StrategyTrim | StrategyAdaptive | StrategyScrape | StrategyVerify

record Request =
  ReqLBA :: u64
  ReqSectors :: u32
  ReqStrategy :: Strategy

definition FastPass :: "u64 \<Rightarrow> u32 \<Rightarrow> Request" where
  "FastPass lba n = \<lparr>ReqLBA = lba, ReqSectors = n, ReqStrategy = StrategyFast\<rparr>"

definition TrimPass :: "u64 \<Rightarrow> u32 \<Rightarrow> Request" where
  "TrimPass lba n = \<lparr>ReqLBA = lba, ReqSectors = n, ReqStrategy = StrategyTrim\<rparr>"

definition AdaptivePass :: "u64 \<Rightarrow> u32 \<Rightarrow> Request" where
  "AdaptivePass lba n = \<lparr>ReqLBA = lba, ReqSectors = n, ReqStrategy = StrategyAdaptive\<rparr>"

definition ScrapePass :: "u64 \<Rightarrow> u32 \<Rightarrow> Request" where
  "ScrapePass lba n = \<lparr>ReqLBA = lba, ReqSectors = n, ReqStrategy = StrategyScrape\<rparr>"

definition VerifyPass :: "u64 \<Rightarrow> u32 \<Rightarrow> Request" where
  "VerifyPass lba n = \<lparr>ReqLBA = lba, ReqSectors = n, ReqStrategy = StrategyVerify\<rparr>"

section \<open>Machines\<close>

text \<open>One round of a pass: an error, nothing left to do, or the next state.\<close>

type_synonym 's round = "'s \<Rightarrow> bool \<Rightarrow> 's option result"

fun drive :: "'s round \<Rightarrow> bool list \<Rightarrow> 's \<Rightarrow> 's option result" where
  "drive adv [] s = Inr None"
| "drive adv (b # bs) s =
     (case adv s b of Inl er \<Rightarrow> Inl er | Inr None \<Rightarrow> Inr (Some s) | Inr (Some t) \<Rightarrow> drive adv bs t)"

text \<open>
  The contract: in a state of the invariant a round never fails, and it ends the pass or leads to a
  state of the invariant with a smaller rank. A pass that keeps it comes to its end, without an
  error, after at most as many rounds as the rank of its first state.
\<close>

locale pass_machine =
  fixes adv :: "'s round" and inv :: "'s \<Rightarrow> bool" and rank :: "'s \<Rightarrow> nat"
  assumes no_error: "inv s \<Longrightarrow> \<exists>r. adv s b = Inr r"
    and keeps: "inv s \<Longrightarrow> adv s b = Inr (Some t) \<Longrightarrow> inv t"
    and smaller: "inv s \<Longrightarrow> adv s b = Inr (Some t) \<Longrightarrow> rank t < rank s"
begin

lemma drive_ends:
  "inv s \<Longrightarrow> rank s < length bs \<Longrightarrow> \<exists>t. drive adv bs s = Inr (Some t) \<and> inv t \<and> (\<exists>b. adv t b = Inr None)"
proof (induction bs arbitrary: s)
  case (Cons b bs)
  obtain r where r: "adv s b = Inr r" using no_error [OF Cons.prems(1)] by blast
  show ?case
  proof (cases r)
    case None
    with r Cons.prems(1) show ?thesis by auto
  next
    case (Some t)
    with r have t: "inv t" "rank t < rank s" using keeps smaller Cons.prems(1) by auto
    then have "rank t < length bs" using Cons.prems(2) by simp
    from Cons.IH [OF t(1) this] r Some show ?thesis by simp
  qed
qed simp

lemma drive_no_error: "inv s \<Longrightarrow> \<exists>t. drive adv bs s = Inr t"
proof (induction bs arbitrary: s)
  case (Cons b bs)
  obtain r where r: "adv s b = Inr r" using no_error [OF Cons.prems] by blast
  show ?case
  proof (cases r)
    case (Some t)
    with Cons.IH keeps [OF Cons.prems] r show ?thesis by auto
  qed (use r in simp)
qed simp

lemma drive_keeps: "inv s \<Longrightarrow> drive adv bs s = Inr (Some t) \<Longrightarrow> inv t"
proof (induction bs arbitrary: s)
  case (Cons b bs)
  then show ?case using keeps by (auto split: sum.splits option.splits)
qed simp

end

section \<open>What a run has read\<close>

text \<open>The reads of a run that succeeded, for a pass with the given next request.\<close>

fun successes :: "('s \<Rightarrow> Request option) \<Rightarrow> 's round \<Rightarrow> bool list \<Rightarrow> 's \<Rightarrow> Request list" where
  "successes req adv [] s = []"
| "successes req adv (ok # oks) s =
     (case adv s ok of
        Inr (Some t) \<Rightarrow>
          (case req s of Some r \<Rightarrow> if ok then [r] else [] | None \<Rightarrow> []) @ successes req adv oks t
      | _ \<Rightarrow> [])"

definition covered_by :: "Request list \<Rightarrow> nat set" where
  "covered_by rs = (\<Union>r \<in> set rs. {unat (ReqLBA r) ..< unat (ReqLBA r) + unat (ReqSectors r)})"

lemma covered_by_simps [simp]: "covered_by [] = {}"
  "covered_by (r # rs) = {unat (ReqLBA r) ..< unat (ReqLBA r) + unat (ReqSectors r)} \<union> covered_by rs"
  "covered_by (xs @ ys) = covered_by xs \<union> covered_by ys"
  by (auto simp: covered_by_def)

end
