(* ===== verification/TrimPass.thy ===== *)
theory TrimPass
  imports Passes
begin

text \<open>
  The trim pass (\<^verbatim>\<open>internal/recovery/trim_pass.go\<close>): it eats into one unresolved
  extent from the left and then from the right, in small clusters and then in single sectors, until
  the failure budget of each side is used up or the extent is gone.
\<close>

section \<open>Definitions\<close>

definition defaultTrimSmallCluster :: u32 where "defaultTrimSmallCluster = 4"

datatype TrimPassMode = LeftCluster | LeftSingle | RightCluster | RightSingle | TrimDone | TrimOther string

datatype TrimPassDecision = TrimRead Request | TrimWaitBackpressure | TrimDecisionDone

record TrimPassState =
  Target :: Extent
  SmallCluster :: u32
  FailureBudget :: u16
  LeftCursor :: u64
  RightCursor :: u64
  TrimMode :: TrimPassMode
  TrimActive :: "Request option"
  LeftFailureStreak :: u16
  RightFailureStreak :: u16

record TrimPassOutcome =
  TrimOutcomeRequest :: Request
  TrimSuccess :: bool

definition schedulableTrimState :: "SectorState \<Rightarrow> bool" where
  "schedulableTrimState s \<longleftrightarrow>
     s \<in> {SectorStateUnknown, SectorStateSkipped, SectorStateIOError, SectorStateMissing, SectorStateChecksumError}"

definition StartTrimPass :: "Extent \<Rightarrow> u32 \<Rightarrow> u16 \<Rightarrow> TrimPassState result" where
  "StartTrimPass target smallCluster failureBudget =
     (case Extent_Validate target of Some er \<Rightarrow> Inl er | None \<Rightarrow>
      if \<not> schedulableTrimState (State target) then Inl (Errorf ''start trim pass: extent state is not unresolved'')
      else if smallCluster = 0 then Inl (Errorf ''start trim pass: small cluster must be greater than zero'')
      else if failureBudget = 0 then Inl (Errorf ''start trim pass: failure budget must be greater than zero'')
      else Inr \<lparr>Target = target, SmallCluster = smallCluster, FailureBudget = failureBudget,
                LeftCursor = StartLBA target, RightCursor = EndLBA target, TrimMode = LeftCluster,
                TrimActive = None, LeftFailureStreak = 0, RightFailureStreak = 0\<rparr>)"

definition nextTrimPassRequest :: "TrimPassState \<Rightarrow> Request option" where
  "nextTrimPassRequest s =
     (if LeftCursor s \<ge> RightCursor s then None
      else let sectors = (let n = ucast (RightCursor s - LeftCursor s) :: u32
                          in if n > SmallCluster s then SmallCluster s else n) in
      case TrimMode s of
        LeftCluster \<Rightarrow> Some (TrimPass (LeftCursor s) sectors)
      | LeftSingle \<Rightarrow> Some (TrimPass (LeftCursor s) 1)
      | RightCluster \<Rightarrow> Some (TrimPass (RightCursor s - ucast sectors) sectors)
      | RightSingle \<Rightarrow> Some (TrimPass (RightCursor s - 1) 1)
      | _ \<Rightarrow> None)"

definition DispatchTrimPass :: "TrimPassState \<Rightarrow> bool \<Rightarrow> (TrimPassState \<times> TrimPassDecision) result" where
  "DispatchTrimPass s writerAvailable =
     (case Extent_Validate (Target s) of Some er \<Rightarrow> Inl er | None \<Rightarrow>
      if SmallCluster s = 0 then Inl (Errorf ''dispatch trim pass: small cluster must be greater than zero'')
      else if FailureBudget s = 0 then Inl (Errorf ''dispatch trim pass: failure budget must be greater than zero'')
      else if TrimActive s \<noteq> None then Inl (Errorf ''dispatch trim pass: previous request is still active'')
      else if TrimMode s = TrimDone then Inr (s, TrimDecisionDone)
      else if \<not> writerAvailable then Inr (s, TrimWaitBackpressure)
      else case nextTrimPassRequest s of
        None \<Rightarrow> Inr (s\<lparr>TrimMode := TrimDone\<rparr>, TrimDecisionDone)
      | Some r \<Rightarrow> Inr (s\<lparr>TrimActive := Some r\<rparr>, TrimRead r))"

definition finishOrContinueTrim :: "TrimPassState \<Rightarrow> TrimPassMode \<Rightarrow> TrimPassState" where
  "finishOrContinueTrim s preferred =
     (if LeftCursor s \<ge> RightCursor s then s\<lparr>TrimMode := TrimDone\<rparr> else s\<lparr>TrimMode := preferred\<rparr>)"

definition nextRightMode :: "TrimPassState \<Rightarrow> TrimPassMode" where
  "nextRightMode s = (if LeftCursor s \<ge> RightCursor s then TrimDone else RightCluster)"

definition ResolveTrimPass :: "TrimPassState \<Rightarrow> TrimPassOutcome \<Rightarrow> TrimPassState result" where
  "ResolveTrimPass s outcome =
     (case TrimActive s of
        None \<Rightarrow> Inl (Errorf ''resolve trim pass: no active request'')
      | Some request \<Rightarrow>
          if TrimOutcomeRequest outcome \<noteq> request
          then Inl (Errorf ''resolve trim pass: request does not match active'')
          else let next = s\<lparr>TrimActive := None\<rparr> in
          (case TrimMode s of
             LeftCluster \<Rightarrow>
               Inr (if TrimSuccess outcome
                    then finishOrContinueTrim (next\<lparr>LeftCursor := LeftCursor next + ucast (ReqSectors request)\<rparr>) LeftCluster
                    else next\<lparr>TrimMode := LeftSingle, LeftFailureStreak := 0\<rparr>)
           | LeftSingle \<Rightarrow>
               Inr (if TrimSuccess outcome
                    then finishOrContinueTrim (next\<lparr>LeftCursor := LeftCursor next + 1, LeftFailureStreak := 0\<rparr>) LeftSingle
                    else let n1 = next\<lparr>LeftFailureStreak := LeftFailureStreak next + 1\<rparr>;
                             n2 = (if LeftFailureStreak n1 \<ge> FailureBudget n1
                                   then n1\<lparr>TrimMode := nextRightMode n1, LeftFailureStreak := 0\<rparr> else n1)
                         in finishOrContinueTrim n2 (TrimMode n2))
           | RightCluster \<Rightarrow>
               Inr (if TrimSuccess outcome
                    then finishOrContinueTrim (next\<lparr>RightCursor := RightCursor next - ucast (ReqSectors request)\<rparr>) RightCluster
                    else next\<lparr>TrimMode := RightSingle, RightFailureStreak := 0\<rparr>)
           | RightSingle \<Rightarrow>
               Inr (if TrimSuccess outcome
                    then finishOrContinueTrim (next\<lparr>RightCursor := RightCursor next - 1, RightFailureStreak := 0\<rparr>) RightSingle
                    else let n1 = next\<lparr>RightFailureStreak := RightFailureStreak next + 1\<rparr>;
                             n2 = (if RightFailureStreak n1 \<ge> FailureBudget n1
                                   then n1\<lparr>TrimMode := TrimDone, RightFailureStreak := 0\<rparr> else n1)
                         in finishOrContinueTrim n2 (TrimMode n2))
           | _ \<Rightarrow> Inl (Errorf ''resolve trim pass: unsupported mode'')))"

definition RemainingTrimInterior :: "TrimPassState \<Rightarrow> Extent option" where
  "RemainingTrimInterior s =
     (if LeftCursor s \<ge> RightCursor s then None
      else Some ((Target s)\<lparr>StartLBA := LeftCursor s, Sectors := ucast (RightCursor s - LeftCursor s)\<rparr>))"

text \<open>One round: dispatch with room in the writer, and the device's answer.\<close>

definition trim_round :: "TrimPassState round" where
  "trim_round s ok =
     (case DispatchTrimPass s True of
        Inl er \<Rightarrow> Inl er
      | Inr (s1, TrimRead r) \<Rightarrow>
          map_sum id Some (ResolveTrimPass s1 \<lparr>TrimOutcomeRequest = r, TrimSuccess = ok\<rparr>)
      | Inr (s1, _) \<Rightarrow> Inr None)"

section \<open>Invariant and rank\<close>

text \<open>The cursors stay inside the target; the streaks stay below the budget.\<close>

definition trim_inv :: "TrimPassState \<Rightarrow> bool" where
  "trim_inv s \<longleftrightarrow> extent_valid (Target s) \<and> SmallCluster s \<noteq> 0 \<and> FailureBudget s \<noteq> 0 \<and> TrimActive s = None \<and>
     StartLBA (Target s) \<le> LeftCursor s \<and> LeftCursor s \<le> RightCursor s \<and> unat (RightCursor s) \<le> endN (Target s) \<and>
     LeftFailureStreak s < FailureBudget s \<and> RightFailureStreak s < FailureBudget s \<and>
     TrimMode s \<in> {LeftCluster, LeftSingle, RightCluster, RightSingle, TrimDone} \<and>
     (LeftCursor s = RightCursor s \<longrightarrow> TrimMode s = TrimDone)"

definition trim_mode_rank :: "TrimPassMode \<Rightarrow> nat" where
  "trim_mode_rank m = (case m of LeftCluster \<Rightarrow> 4 | LeftSingle \<Rightarrow> 3 | RightCluster \<Rightarrow> 2 | RightSingle \<Rightarrow> 1 | _ \<Rightarrow> 0)"

text \<open>Every success shortens the interior and resets a streak; every failure advances a streak or the mode.\<close>

definition trim_rank :: "TrimPassState \<Rightarrow> nat" where
  "trim_rank s =
     (unat (RightCursor s) - unat (LeftCursor s)) * (5 * unat (FailureBudget s) + 5) +
     trim_mode_rank (TrimMode s) * (unat (FailureBudget s) + 1) +
     (case TrimMode s of LeftSingle \<Rightarrow> unat (FailureBudget s) - unat (LeftFailureStreak s)
      | RightSingle \<Rightarrow> unat (FailureBudget s) - unat (RightFailureStreak s) | _ \<Rightarrow> 0)"

definition left_mode :: "TrimPassMode \<Rightarrow> bool" where
  "left_mode m \<longleftrightarrow> m = LeftCluster \<or> m = LeftSingle"

lemma trim_dist:
  assumes "trim_inv s"
  shows "unat (RightCursor s - LeftCursor s) = unat (RightCursor s) - unat (LeftCursor s)"
    "unat (RightCursor s) - unat (LeftCursor s) < 4294967296" "unat (LeftCursor s) \<le> unat (RightCursor s)"
proof -
  have le: "LeftCursor s \<le> RightCursor s" and t: "StartLBA (Target s) \<le> LeftCursor s"
    "unat (RightCursor s) \<le> endN (Target s)" using assms by (simp_all add: trim_inv_def)
  show "unat (RightCursor s - LeftCursor s) = unat (RightCursor s) - unat (LeftCursor s)"
    using le by (rule unat_sub_le)
  show "unat (LeftCursor s) \<le> unat (RightCursor s)" using le by (simp add: word_le_nat_alt)
  have "unat (RightCursor s) - unat (LeftCursor s) \<le> unat (Sectors (Target s))"
    using t by (simp add: word_le_nat_alt)
  then show "unat (RightCursor s) - unat (LeftCursor s) < 4294967296"
    using unat_u32_less [of "Sectors (Target s)"] by linarith
qed

text \<open>A pass that is not done has a request, at the cursor of its side and inside the interior.\<close>

lemma trim_request:
  assumes i: "trim_inv s" and m: "TrimMode s \<noteq> TrimDone"
  obtains r where "nextTrimPassRequest s = Some r" "0 < unat (ReqSectors r)"
    "unat (ReqSectors r) \<le> unat (RightCursor s) - unat (LeftCursor s)"
    "left_mode (TrimMode s) \<Longrightarrow> unat (ReqLBA r) = unat (LeftCursor s)"
    "\<not> left_mode (TrimMode s) \<Longrightarrow> unat (ReqLBA r) = unat (RightCursor s) - unat (ReqSectors r)"
    "TrimMode s = LeftSingle \<or> TrimMode s = RightSingle \<Longrightarrow> ReqSectors r = 1"
proof -
  note d = trim_dist [OF i]
  have lt: "LeftCursor s < RightCursor s" using i m by (auto simp: trim_inv_def)
  then have pos: "unat (LeftCursor s) < unat (RightCursor s)" by (simp add: word_less_nat_alt)
  define k :: u32 where "k = (let n = ucast (RightCursor s - LeftCursor s) :: u32
                        in if n > SmallCluster s then SmallCluster s else n)"
  have n: "unat (ucast (RightCursor s - LeftCursor s) :: u32) = unat (RightCursor s) - unat (LeftCursor s)"
    using d by (simp add: unat_ucast_64_32_small)
  have sc: "0 < unat (SmallCluster s)" using i by (simp add: trim_inv_def unat_gt_0)
  have k: "0 < unat k" "unat k \<le> unat (RightCursor s) - unat (LeftCursor s)"
    using n pos sc by (auto simp: k_def Let_def word_less_nat_alt)
  have rk: "unat (RightCursor s - ucast k) = unat (RightCursor s) - unat k"
    using k(2) by (subst unat_sub_le) (simp_all add: word_le_nat_alt)
  have r1: "unat (RightCursor s - 1) = unat (RightCursor s) - 1"
    using pos by (subst unat_sub_le) (simp_all add: word_le_nat_alt)
  have nx: "nextTrimPassRequest s = (case TrimMode s of
        LeftCluster \<Rightarrow> Some (TrimPass (LeftCursor s) k)
      | LeftSingle \<Rightarrow> Some (TrimPass (LeftCursor s) 1)
      | RightCluster \<Rightarrow> Some (TrimPass (RightCursor s - ucast k) k)
      | RightSingle \<Rightarrow> Some (TrimPass (RightCursor s - 1) 1)
      | _ \<Rightarrow> None)"
  proof -
    have "\<not> LeftCursor s \<ge> RightCursor s" using lt by simp
    then show ?thesis unfolding nextTrimPassRequest_def k_def Let_def by (simp only: if_False)
  qed
  have "TrimMode s \<in> {LeftCluster, LeftSingle, RightCluster, RightSingle}" using i m by (auto simp: trim_inv_def)
  then show ?thesis
    using that nx k rk r1 pos by (auto simp: TrimPass_def left_mode_def)
qed

lemma trim_round_eq:
  assumes "trim_inv s" "TrimMode s \<noteq> TrimDone" "nextTrimPassRequest s = Some r"
  shows "trim_round s ok = map_sum id Some
    (ResolveTrimPass (s\<lparr>TrimActive := Some r\<rparr>) \<lparr>TrimOutcomeRequest = r, TrimSuccess = ok\<rparr>)"
  using assms by (simp add: trim_round_def DispatchTrimPass_def trim_inv_def)

lemma streak_step:
  fixes a b :: u16
  assumes "a < b"
  shows "unat (a + 1) = Suc (unat a)" "\<not> a + 1 \<ge> b \<Longrightarrow> a + 1 < b"
proof -
  have "unat a < unat b" using assms by (simp add: word_less_nat_alt)
  then have "unat a < 65535" using unat_u16_less [of b] by linarith
  then show "unat (a + 1) = Suc (unat a)" by (subst unat_add_le) simp_all
qed simp

lemma cursor_forward:
  fixes a :: u64 and k :: u32
  assumes "unat k \<le> n - unat a" "n < 18446744073709551616" "unat a \<le> n"
  shows "unat (a + ucast k) = unat a + unat k"
  using assms by (subst unat_add_le) simp_all

lemma cursor_back:
  fixes a :: u64 and k :: u32
  assumes "unat k \<le> unat a"
  shows "unat (a - ucast k) = unat a - unat k"
  using assms by (subst unat_sub_le) (simp_all add: word_le_nat_alt)

text \<open>
  What a round does: a success moves the cursor of its side over the request, a failure moves none;
  the invariant is kept and the rank gets smaller.
\<close>

lemma trim_step:
  assumes i: "trim_inv s" and m: "TrimMode s \<noteq> TrimDone" and nr: "nextTrimPassRequest s = Some r"
  obtains t where "trim_round s ok = Inr (Some t)" "trim_inv t" "trim_rank t < trim_rank s" "Target t = Target s"
    "FailureBudget t = FailureBudget s"
    "unat (LeftCursor t) = unat (LeftCursor s) + (if ok \<and> left_mode (TrimMode s) then unat (ReqSectors r) else 0)"
    "unat (RightCursor t) = unat (RightCursor s) - (if ok \<and> \<not> left_mode (TrimMode s) then unat (ReqSectors r) else 0)"
proof -
  obtain r' where "nextTrimPassRequest s = Some r'" "0 < unat (ReqSectors r')"
    "unat (ReqSectors r') \<le> unat (RightCursor s) - unat (LeftCursor s)"
    "TrimMode s = LeftSingle \<or> TrimMode s = RightSingle \<Longrightarrow> ReqSectors r' = 1"
    using trim_request [OF i m] by metis
  with nr have r: "0 < unat (ReqSectors r)" "unat (ReqSectors r) \<le> unat (RightCursor s) - unat (LeftCursor s)"
    "TrimMode s = LeftSingle \<or> TrimMode s = RightSingle \<Longrightarrow> ReqSectors r = 1" by simp_all
  note d = trim_dist [OF i] and eq = trim_round_eq [OF i m nr]
  let ?B = "unat (FailureBudget s)"
  let ?D = "unat (RightCursor s) - unat (LeftCursor s)"
  let ?k = "unat (ReqSectors r)"
  have B: "0 < ?B" "LeftFailureStreak s < FailureBudget s" "RightFailureStreak s < FailureBudget s"
    using i by (simp_all add: trim_inv_def unat_gt_0)
  have zero: "0 < FailureBudget s" using B(1) by (simp add: word_less_nat_alt)
  have lc: "unat (LeftCursor s + ucast (ReqSectors r)) = unat (LeftCursor s) + ?k"
    using r(2) d(3) by (intro cursor_forward [of _ "unat (RightCursor s)"]) simp_all
  have rc: "unat (RightCursor s - ucast (ReqSectors r)) = unat (RightCursor s) - ?k"
    using r(2) by (intro cursor_back) simp
  have shrink: "(?D - ?k) * (5 * ?B + 5) + (5 * ?B + 5) \<le> ?D * (5 * ?B + 5)"
  proof -
    have "?D - ?k + 1 \<le> ?D" using r(1,2) by linarith
    then have "(?D - ?k + 1) * (5 * ?B + 5) \<le> ?D * (5 * ?B + 5)" by (rule mult_le_mono1)
    then show ?thesis by (simp add: algebra_simps)
  qed
  have le: "StartLBA (Target s) \<le> LeftCursor s" "unat (RightCursor s) \<le> endN (Target s)" "extent_valid (Target s)"
    "SmallCluster s \<noteq> 0" "FailureBudget s \<noteq> 0" "LeftCursor s \<le> RightCursor s"
    using i by (simp_all add: trim_inv_def)
  consider "TrimMode s = LeftCluster" | "TrimMode s = LeftSingle" | "TrimMode s = RightCluster" | "TrimMode s = RightSingle"
    using i m by (auto simp: trim_inv_def)
  then show ?thesis
  proof cases
    case 1
    define t where "t = (if ok then finishOrContinueTrim (s\<lparr>TrimActive := None, LeftCursor := LeftCursor s + ucast (ReqSectors r)\<rparr>) LeftCluster
                    else s\<lparr>TrimActive := None, TrimMode := LeftSingle, LeftFailureStreak := 0\<rparr>)"
    have "trim_round s ok = Inr (Some t)"
      using 1 by (simp add: eq ResolveTrimPass_def t_def Let_def)
    moreover have "trim_inv t \<and> trim_rank t < trim_rank s"
      using le B zero r lc d(3) shrink 1
      by (auto simp: t_def finishOrContinueTrim_def trim_inv_def trim_rank_def trim_mode_rank_def word_le_nat_alt)
    moreover have "Target t = Target s" "FailureBudget t = FailureBudget s" "RightCursor t = RightCursor s"
      "unat (LeftCursor t) = unat (LeftCursor s) + (if ok then ?k else 0)"
      using lc by (simp_all add: t_def finishOrContinueTrim_def)
    ultimately show ?thesis using that 1 by (simp add: left_mode_def)
  next
    case 2
    note st = streak_step [OF B(2)]
    have k1: "ReqSectors r = 1" using r(3) 2 by simp
    define t where "t = (if ok then finishOrContinueTrim (s\<lparr>TrimActive := None, LeftCursor := LeftCursor s + 1, LeftFailureStreak := 0\<rparr>) LeftSingle
                    else if LeftFailureStreak s + 1 \<ge> FailureBudget s
                    then s\<lparr>TrimActive := None, TrimMode := RightCluster, LeftFailureStreak := 0\<rparr>
                    else s\<lparr>TrimActive := None, LeftFailureStreak := LeftFailureStreak s + 1\<rparr>)"
    have ne: "\<not> RightCursor s \<le> LeftCursor s" using r(1,2) by (simp add: word_le_nat_alt)
    have "trim_round s ok = Inr (Some t)"
      using 2 k1 ne by (auto simp: eq ResolveTrimPass_def t_def Let_def nextRightMode_def finishOrContinueTrim_def)
    moreover have "trim_inv t \<and> trim_rank t < trim_rank s"
      using le B zero r lc d(3) shrink 2 k1 st ne
      by (auto simp: t_def finishOrContinueTrim_def trim_inv_def trim_rank_def trim_mode_rank_def word_le_nat_alt word_less_nat_alt)
    moreover have "Target t = Target s" "FailureBudget t = FailureBudget s" "RightCursor t = RightCursor s"
      "unat (LeftCursor t) = unat (LeftCursor s) + (if ok then ?k else 0)"
      using lc k1 by (simp_all add: t_def finishOrContinueTrim_def)
    ultimately show ?thesis using that 2 by (simp add: left_mode_def)
  next
    case 3
    define t where "t = (if ok then finishOrContinueTrim (s\<lparr>TrimActive := None, RightCursor := RightCursor s - ucast (ReqSectors r)\<rparr>) RightCluster
                    else s\<lparr>TrimActive := None, TrimMode := RightSingle, RightFailureStreak := 0\<rparr>)"
    have "trim_round s ok = Inr (Some t)"
      using 3 by (simp add: eq ResolveTrimPass_def t_def Let_def)
    moreover have "trim_inv t \<and> trim_rank t < trim_rank s"
      using le B zero r rc d(3) shrink 3
      by (auto simp: t_def finishOrContinueTrim_def trim_inv_def trim_rank_def trim_mode_rank_def word_le_nat_alt)
    moreover have "Target t = Target s" "FailureBudget t = FailureBudget s" "LeftCursor t = LeftCursor s"
      "unat (RightCursor t) = unat (RightCursor s) - (if ok then ?k else 0)"
      using rc by (simp_all add: t_def finishOrContinueTrim_def)
    ultimately show ?thesis using that 3 by (simp add: left_mode_def)
  next
    case 4
    note st = streak_step [OF B(3)]
    have k1: "ReqSectors r = 1" using r(3) 4 by simp
    define t where "t = (if ok then finishOrContinueTrim (s\<lparr>TrimActive := None, RightCursor := RightCursor s - 1, RightFailureStreak := 0\<rparr>) RightSingle
                    else if RightFailureStreak s + 1 \<ge> FailureBudget s
                    then s\<lparr>TrimActive := None, TrimMode := TrimDone, RightFailureStreak := 0\<rparr>
                    else s\<lparr>TrimActive := None, RightFailureStreak := RightFailureStreak s + 1\<rparr>)"
    have ne: "\<not> RightCursor s \<le> LeftCursor s" using r(1,2) by (simp add: word_le_nat_alt)
    have "trim_round s ok = Inr (Some t)"
      using 4 k1 ne by (auto simp: eq ResolveTrimPass_def t_def Let_def finishOrContinueTrim_def)
    moreover have "trim_inv t \<and> trim_rank t < trim_rank s"
      using le B zero r rc d(3) shrink 4 k1 st ne
      by (auto simp: t_def finishOrContinueTrim_def trim_inv_def trim_rank_def trim_mode_rank_def word_le_nat_alt word_less_nat_alt)
    moreover have "Target t = Target s" "FailureBudget t = FailureBudget s" "LeftCursor t = LeftCursor s"
      "unat (RightCursor t) = unat (RightCursor s) - (if ok then ?k else 0)"
      using rc k1 by (simp_all add: t_def finishOrContinueTrim_def)
    ultimately show ?thesis using that 4 by (simp add: left_mode_def)
  qed
qed

lemma trim_done: "trim_inv s \<Longrightarrow> TrimMode s = TrimDone \<Longrightarrow> trim_round s ok = Inr None"
  by (simp add: trim_round_def DispatchTrimPass_def trim_inv_def)

lemma trim_round_cases:
  assumes "trim_inv s"
  obtains "TrimMode s = TrimDone" "trim_round s ok = Inr None"
  | r t where "TrimMode s \<noteq> TrimDone" "nextTrimPassRequest s = Some r" "trim_round s ok = Inr (Some t)"
      "trim_inv t" "trim_rank t < trim_rank s"
  using assms trim_done trim_request trim_step by metis

interpretation trim: pass_machine trim_round trim_inv trim_rank
proof
  fix s b
  assume i: "trim_inv s"
  show "\<exists>r. trim_round s b = Inr r" using trim_round_cases [OF i] by metis
  show "trim_inv t" if "trim_round s b = Inr (Some t)" for t using trim_round_cases [OF i] that by (metis option.sel old.sum.inject(2) option.distinct(1))
  show "trim_rank t < trim_rank s" if "trim_round s b = Inr (Some t)" for t
    using trim_round_cases [OF i] that by (metis option.sel old.sum.inject(2) option.distinct(1))
qed

abbreviation trim_successes :: "bool list \<Rightarrow> TrimPassState \<Rightarrow> Request list" where
  "trim_successes \<equiv> successes nextTrimPassRequest trim_round"

abbreviation interior :: "TrimPassState \<Rightarrow> nat set" where
  "interior s \<equiv> {unat (LeftCursor s) ..< unat (RightCursor s)}"

lemma interval_left:
  fixes l :: nat
  assumes "l + k \<le> r" "l + k \<le> l'" "r' \<le> r"
  shows "{l ..< l + k} \<union> ({l + k ..< r} - {l' ..< r'}) = {l ..< r} - {l' ..< r'}"
  using assms by auto

lemma interval_right:
  fixes l :: nat
  assumes "l + k \<le> r" "l \<le> l'" "r' \<le> r - k"
  shows "{r - k ..< r - k + k} \<union> ({l ..< r - k} - {l' ..< r'}) = {l ..< r} - {l' ..< r'}"
  using assms by auto

lemma trim_successes_cover:
  "trim_inv s \<Longrightarrow> drive trim_round oks s = Inr (Some t) \<Longrightarrow>
   Target t = Target s \<and> unat (LeftCursor s) \<le> unat (LeftCursor t) \<and> unat (RightCursor t) \<le> unat (RightCursor s) \<and>
   covered_by (trim_successes oks s) = interior s - interior t"
proof (induction oks arbitrary: s)
  case (Cons ok oks)
  note i = Cons.prems(1)
  show ?case
  proof (cases "TrimMode s = TrimDone")
    case True
    then have "trim_round s ok = Inr None" using trim_done i by simp
    with Cons.prems(2) show ?thesis by (auto split: option.splits)
  next
    case False
    obtain r where r: "nextTrimPassRequest s = Some r" "0 < unat (ReqSectors r)"
      "unat (ReqSectors r) \<le> unat (RightCursor s) - unat (LeftCursor s)"
      "left_mode (TrimMode s) \<Longrightarrow> unat (ReqLBA r) = unat (LeftCursor s)"
      "\<not> left_mode (TrimMode s) \<Longrightarrow> unat (ReqLBA r) = unat (RightCursor s) - unat (ReqSectors r)"
      using trim_request [OF i False] by metis
    obtain u where u: "trim_round s ok = Inr (Some u)" "trim_inv u" "Target u = Target s"
      "unat (LeftCursor u) = unat (LeftCursor s) + (if ok \<and> left_mode (TrimMode s) then unat (ReqSectors r) else 0)"
      "unat (RightCursor u) = unat (RightCursor s) - (if ok \<and> \<not> left_mode (TrimMode s) then unat (ReqSectors r) else 0)"
      using trim_step [OF i False r(1)] by metis
    have dr: "drive trim_round oks u = Inr (Some t)" using Cons.prems(2) u(1) by simp
    note ih = Cons.IH [OF u(2) dr]
    have room: "unat (LeftCursor s) + unat (ReqSectors r) \<le> unat (RightCursor s)"
      using r(2,3) by linarith
    show ?thesis
    proof (cases ok)
      case False
      with ih u r show ?thesis by simp
    next
      case True
      have ts: "trim_successes (ok # oks) s = r # trim_successes oks u" using True u(1) r(1) by simp
      show ?thesis
      proof (cases "left_mode (TrimMode s)")
        case lm: True
        have c: "unat (LeftCursor u) = unat (LeftCursor s) + unat (ReqSectors r)" "unat (RightCursor u) = unat (RightCursor s)"
          "unat (ReqLBA r) = unat (LeftCursor s)" using True lm u r by simp_all
        have "covered_by (r # trim_successes oks u) = interior s - interior t"
          using ih room interval_left [of "unat (LeftCursor s)" "unat (ReqSectors r)" "unat (RightCursor s)"
              "unat (LeftCursor t)" "unat (RightCursor t)"] by (simp add: c)
        with ih u(3) c show ?thesis unfolding ts by simp
      next
        case lm: False
        have c: "unat (LeftCursor u) = unat (LeftCursor s)" "unat (RightCursor u) = unat (RightCursor s) - unat (ReqSectors r)"
          "unat (ReqLBA r) = unat (RightCursor s) - unat (ReqSectors r)" using True lm u r by simp_all
        have "covered_by (r # trim_successes oks u) = interior s - interior t"
          using ih room interval_right [of "unat (LeftCursor s)" "unat (ReqSectors r)" "unat (RightCursor s)"
              "unat (LeftCursor t)" "unat (RightCursor t)"] by (simp add: c)
        moreover have "unat (RightCursor t) \<le> unat (RightCursor s)" using ih c(2) by linarith
        ultimately show ?thesis using ih u(3) c unfolding ts by simp
      qed
    qed
  qed
qed simp

lemma StartTrimPass_Inr:
  assumes "StartTrimPass target sc fb = Inr s"
  shows "trim_inv s" "Target s = target" "unat (LeftCursor s) = startN target" "unat (RightCursor s) = endN target"
    "FailureBudget s = fb" "extent_valid target"
proof -
  from assms have v: "extent_valid target" and n: "sc \<noteq> 0" "fb \<noteq> 0"
    and s: "s = \<lparr>Target = target, SmallCluster = sc, FailureBudget = fb,
                LeftCursor = StartLBA target, RightCursor = EndLBA target, TrimMode = LeftCluster,
                TrimActive = None, LeftFailureStreak = 0, RightFailureStreak = 0\<rparr>"
    by (auto simp: StartTrimPass_def split: option.splits if_splits)
  show "Target s = target" "FailureBudget s = fb" "extent_valid target" "unat (LeftCursor s) = startN target"
    using v by (simp_all add: s)
  have e: "unat (EndLBA target) = endN target" using v by simp
  then show "unat (RightCursor s) = endN target" by (simp add: s)
  have "startN target < endN target" using extent_valid_pos [OF v] .
  then have lt: "StartLBA target < EndLBA target" unfolding word_less_nat_alt e .
  have z: "0 < fb" using n(2) by (simp add: word_neq_0_pos word_less_nat_alt)
  show "trim_inv s" unfolding trim_inv_def s using v n z e less_imp_le [OF lt] less_imp_neq [OF lt] by simp
qed

lemma trim_rank_start:
  assumes "trim_inv s"
  shows "trim_rank s \<le> (unat (RightCursor s) - unat (LeftCursor s) + 1) * (5 * unat (FailureBudget s) + 5)"
  by (auto simp: trim_rank_def trim_mode_rank_def algebra_simps split: TrimPassMode.splits)

text \<open>
  A trim pass comes to its end and accounts for every sector of its target. Whatever the device
  answers, it never fails with an error, it is done after at most
  \<open>(sectors + 1) * (5 * budget + 5)\<close> reads, and the sectors covered by the reads that succeeded are
  exactly those of the target outside the interior it reports as remaining.
\<close>

theorem trim_pass_accounts_for_target:
  assumes "StartTrimPass target sc fb = Inr s"
    and "length oks > (unat (Sectors target) + 1) * (5 * unat fb + 5)"
  shows "\<exists>t. drive trim_round oks s = Inr (Some t) \<and>
    (case RemainingTrimInterior t of
       None \<Rightarrow> covered_by (trim_successes oks s) = {startN target ..< endN target}
     | Some e \<Rightarrow> extent_valid e \<and> body e = body target \<and>
         covered_by (trim_successes oks s) = {startN target ..< endN target} - {startN e ..< endN e} \<and>
         {startN e ..< endN e} \<subseteq> {startN target ..< endN target})"
proof -
  note st = StartTrimPass_Inr [OF assms(1)]
  have "trim_rank s < length oks"
    using trim_rank_start [OF st(1)] st(3-5) assms(2) by simp
  from trim.drive_ends [OF st(1) this] obtain t where t: "drive trim_round oks s = Inr (Some t)" "trim_inv t" by blast
  note c = trim_successes_cover [OF st(1) t(1)]
  show ?thesis
  proof (cases "LeftCursor t \<ge> RightCursor t")
    case True
    then have "interior t = {}" by (simp add: word_le_nat_alt)
    with c st(3,4) True t(1) show ?thesis by (simp add: RemainingTrimInterior_def)
  next
    case False
    then have lt: "unat (LeftCursor t) < unat (RightCursor t)" by (simp add: word_le_nat_alt)
    let ?e = "(Target t)\<lparr>StartLBA := LeftCursor t, Sectors := ucast (RightCursor t - LeftCursor t)\<rparr>"
    have "unat (ucast (RightCursor t - LeftCursor t) :: u32) = unat (RightCursor t) - unat (LeftCursor t)"
      using trim_dist [OF t(2)] by (simp add: unat_ucast_64_32_small)
    then have e: "startN ?e = unat (LeftCursor t)" "endN ?e = unat (RightCursor t)" using lt by simp_all
    have "extent_valid ?e"
      using t(2) lt e unfolding extent_valid_iff by (auto simp: trim_inv_def extent_valid_iff)
    moreover have "body ?e = body target" using c st(2) by simp
    moreover have "interior t \<subseteq> interior s" using c by auto
    ultimately show ?thesis using c st(3,4) e t(1) False by (auto simp: RemainingTrimInterior_def)
  qed
qed

theorem trim_pass_accounts_for_target_witness:
  "\<exists>t. drive trim_round (replicate 200 False) \<lparr>Target = plain_extent 100 6 5 0 1, SmallCluster = 4,
     FailureBudget = 2, LeftCursor = 100, RightCursor = 106, TrimMode = LeftCluster, TrimActive = None,
     LeftFailureStreak = 0, RightFailureStreak = 0\<rparr> = Inr (Some t)"
proof -
  let ?s = "\<lparr>Target = plain_extent 100 6 5 0 1, SmallCluster = 4,
     FailureBudget = 2, LeftCursor = 100, RightCursor = 106, TrimMode = LeftCluster, TrimActive = None,
     LeftFailureStreak = 0, RightFailureStreak = 0\<rparr>"
  have s: "StartTrimPass (plain_extent 100 6 5 0 1) 4 2 = Inr ?s" by code_simp
  have "length (replicate 200 False) > (unat (Sectors (plain_extent 100 6 5 0 1)) + 1) * (5 * unat (2 :: u16) + 5)"
    by (simp add: plain_extent_def)
  from trim_pass_accounts_for_target [OF s this] show ?thesis by blast
qed

end
