(* ===== verification/FastPass.thy ===== *)
theory FastPass
  imports Passes
begin

text \<open>
  The fast pass (\<^verbatim>\<open>internal/recovery/fast_pass.go\<close>): it walks over the unknown ranges of
  the map in clusters, falls back to single sectors after a failed cluster, and after a failed
  sector marks it and skips what follows.
\<close>

section \<open>Definitions\<close>

definition defaultFastSkipAfterFailure :: u32 where "defaultFastSkipAfterFailure = 256"

datatype FastPassMode = FastCluster | FastSingle | FastCheckpoint | FastDone | FastOther string

datatype FastPassDecision = FastRead Request | FastWaitBackpressure | FastDecisionCheckpoint | FastDecisionDone

record FastPassState =
  FPExtents :: "Extent list"
  CursorLBA :: u64
  ClusterSize :: u32
  SkipAfterFailure :: u32
  FPMode :: FastPassMode
  ClusterBoundary :: u64
  FPActive :: "Request option"
  CheckpointActive :: bool

record FastPassOutcome =
  FPOutcomeRequest :: "Request option"
  FPSuccess :: bool
  CheckpointCompleted :: bool

definition StartFastPass :: "Extent list \<Rightarrow> u32 \<Rightarrow> FastPassState result" where
  "StartFastPass es clusterSize =
     (case ValidateExtentSet es of Some er \<Rightarrow> Inl er | None \<Rightarrow>
      if clusterSize = 0 then Inl (Errorf ''start fast pass: cluster size must be greater than zero'')
      else Inr \<lparr>FPExtents = es, CursorLBA = 0, ClusterSize = clusterSize,
                SkipAfterFailure = defaultFastSkipAfterFailure, FPMode = FastCluster, ClusterBoundary = 0,
                FPActive = None, CheckpointActive = False\<rparr>)"

definition schedulableFastPassState :: "SectorState \<Rightarrow> bool" where
  "schedulableFastPassState s \<longleftrightarrow> s = SectorStateUnknown"

fun nextClusterRange :: "Extent list \<Rightarrow> u64 \<Rightarrow> u32 \<Rightarrow> (u64 \<times> u32) option" where
  "nextClusterRange [] cursor clusterSize = None"
| "nextClusterRange (e # es) cursor clusterSize =
     (if \<not> schedulableFastPassState (State e) \<or> EndLBA e \<le> cursor then nextClusterRange es cursor clusterSize
      else let start = (if StartLBA e < cursor then cursor else StartLBA e);
               span = ucast (EndLBA e - start) :: u32
           in Some (start, if span > clusterSize then clusterSize else span))"

fun nextSingleSector :: "Extent list \<Rightarrow> u64 \<Rightarrow> u64 \<Rightarrow> u64 option" where
  "nextSingleSector [] cursor boundary = None"
| "nextSingleSector (e # es) cursor boundary =
     (if \<not> schedulableFastPassState (State e) \<or> EndLBA e \<le> cursor then nextSingleSector es cursor boundary
      else let start = (if StartLBA e < cursor then cursor else StartLBA e)
           in if start \<ge> boundary then None else Some start)"

definition hasSchedulableAtOrAfter :: "Extent list \<Rightarrow> u64 \<Rightarrow> u64 \<Rightarrow> bool" where
  "hasSchedulableAtOrAfter es cursor boundary \<longleftrightarrow> nextSingleSector es cursor boundary \<noteq> None"

definition nextFastPassRequest :: "FastPassState \<Rightarrow> Request option" where
  "nextFastPassRequest s =
     (case FPMode s of
        FastCluster \<Rightarrow>
          (case nextClusterRange (FPExtents s) (CursorLBA s) (ClusterSize s) of
             None \<Rightarrow> None | Some (start, sectors) \<Rightarrow> Some (FastPass start sectors))
      | FastSingle \<Rightarrow>
          (case nextSingleSector (FPExtents s) (CursorLBA s) (ClusterBoundary s) of
             None \<Rightarrow> None | Some start \<Rightarrow> Some (FastPass start 1))
      | _ \<Rightarrow> None)"

definition DispatchFastPass :: "FastPassState \<Rightarrow> bool \<Rightarrow> (FastPassState \<times> FastPassDecision) result" where
  "DispatchFastPass s writerAvailable =
     (case ValidateExtentSet (FPExtents s) of Some er \<Rightarrow> Inl er | None \<Rightarrow>
      if ClusterSize s = 0 then Inl (Errorf ''dispatch fast pass: cluster size must be greater than zero'')
      else if SkipAfterFailure s = 0 then Inl (Errorf ''dispatch fast pass: skip-after-failure must be greater than zero'')
      else if FPActive s \<noteq> None \<or> CheckpointActive s
      then Inl (Errorf ''dispatch fast pass: previous action is still active'')
      else if FPMode s = FastDone then Inr (s, FastDecisionDone)
      else if FPMode s = FastCheckpoint then Inr (s\<lparr>CheckpointActive := True\<rparr>, FastDecisionCheckpoint)
      else if \<not> writerAvailable then Inr (s, FastWaitBackpressure)
      else case nextFastPassRequest s of
        None \<Rightarrow> Inr (s\<lparr>FPMode := FastCheckpoint, CheckpointActive := True\<rparr>, FastDecisionCheckpoint)
      | Some r \<Rightarrow> Inr (s\<lparr>FPActive := Some r\<rparr>, FastRead r))"

text \<open>The locals \<open>total\<close> (\<open>acc\<close> here) and \<open>current\<close> of the loop of \<^verbatim>\<open>skipLength\<close>.\<close>

fun skipLength_loop :: "u32 \<Rightarrow> u32 \<Rightarrow> u64 \<Rightarrow> Extent list \<Rightarrow> u32" where
  "skipLength_loop limit acc current [] = acc"
| "skipLength_loop limit acc current (e # es) =
     (if \<not> schedulableFastPassState (State e) \<or> EndLBA e \<le> current
      then skipLength_loop limit acc current es
      else let rangeStart = (if StartLBA e < current then current else StartLBA e) in
      if rangeStart \<noteq> current then acc
      else let available = ucast (EndLBA e - rangeStart) :: u32; remaining = limit - acc in
      if available \<ge> remaining then acc + remaining
      else let acc' = acc + available in
        if acc' = limit then acc' else skipLength_loop limit acc' (EndLBA e) es)"

definition skipLength :: "u64 \<Rightarrow> u32 \<Rightarrow> Extent list \<Rightarrow> u32" where
  "skipLength start limit es = (if limit = 0 then 0 else skipLength_loop limit 0 start es)"

definition replaced_middle :: "Extent \<Rightarrow> u64 \<Rightarrow> u64 \<Rightarrow> SectorState \<Rightarrow> Confidence_t \<Rightarrow> Extent" where
  "replaced_middle e start end nextState confidence =
     (let middleStart = max (StartLBA e) start; middleEnd = min (EndLBA e) end in
      e\<lparr>StartLBA := middleStart, Sectors := ucast (middleEnd - middleStart), State := nextState,
        Confidence := confidence, Attempts := Attempts e + 1\<rparr>)"

fun replaceRangeState_loop ::
  "u64 \<Rightarrow> u64 \<Rightarrow> SectorState \<Rightarrow> Confidence_t \<Rightarrow> Extent list \<Rightarrow> Extent list result" where
  "replaceRangeState_loop start end nextState confidence [] = Inr []"
| "replaceRangeState_loop start end nextState confidence (e # es) =
     (if EndLBA e \<le> start \<or> StartLBA e \<ge> end then
        (case replaceRangeState_loop start end nextState confidence es of
           Inl er \<Rightarrow> Inl er | Inr r \<Rightarrow> Inr (e # r))
      else if \<not> schedulableFastPassState (State e)
      then Inl (Errorf ''replace range state: extent is not schedulable'')
      else case replaceRangeState_loop start end nextState confidence es of
          Inl er \<Rightarrow> Inl er
        | Inr r \<Rightarrow>
            let middleEnd = min (EndLBA e) end in
            Inr ((if StartLBA e < start then [e\<lparr>Sectors := ucast (start - StartLBA e)\<rparr>] else []) @
                 [replaced_middle e start end nextState confidence] @
                 (if middleEnd < EndLBA e
                  then [e\<lparr>StartLBA := middleEnd, Sectors := ucast (EndLBA e - middleEnd)\<rparr>] else []) @ r))"

definition replaceRangeState ::
  "Extent list \<Rightarrow> u64 \<Rightarrow> u32 \<Rightarrow> SectorState \<Rightarrow> Confidence_t \<Rightarrow> Extent list result" where
  "replaceRangeState es start sectors nextState confidence =
     (if sectors = 0 then Inr es
      else case replaceRangeState_loop start (start + ucast sectors) nextState confidence es of
        Inl er \<Rightarrow> Inl er | Inr r \<Rightarrow> CoalesceExtents r)"

definition applyFastPassFailure :: "Extent list \<Rightarrow> u64 \<Rightarrow> u32 \<Rightarrow> Extent list result" where
  "applyFastPassFailure es failedLBA skipAfterFailure =
     (case replaceRangeState es failedLBA 1 SectorStateIOError ConfidenceNone of
        Inl er \<Rightarrow> Inl er
      | Inr failedExtents \<Rightarrow>
          let skipStart = failedLBA + 1; skipSectors = skipLength skipStart skipAfterFailure failedExtents in
          if skipSectors = 0 then Inr failedExtents
          else replaceRangeState failedExtents skipStart skipSectors SectorStateSkipped ConfidenceNone)"

definition ResolveFastPass :: "FastPassState \<Rightarrow> FastPassOutcome \<Rightarrow> FastPassState result" where
  "ResolveFastPass s outcome =
     (if CheckpointActive s then
        (if \<not> CheckpointCompleted outcome
         then Inl (Errorf ''resolve fast pass: checkpoint completion is required'')
         else Inr (s\<lparr>CheckpointActive := False, FPMode := FastDone\<rparr>))
      else case FPActive s of
        None \<Rightarrow> Inl (Errorf ''resolve fast pass: no active request'')
      | Some request \<Rightarrow>
          if FPOutcomeRequest outcome \<noteq> Some request
          then Inl (Errorf ''resolve fast pass: request does not match active'')
          else let next = s\<lparr>FPActive := None\<rparr> in
          if FPSuccess outcome \<and> FPMode s = FastCluster then
            Inr (next\<lparr>CursorLBA := ReqLBA request + ucast (ReqSectors request), FPMode := FastCluster\<rparr>)
          else if FPSuccess outcome \<and> FPMode s = FastSingle then
            (let n1 = next\<lparr>CursorLBA := ReqLBA request + 1\<rparr> in
             if CursorLBA n1 < ClusterBoundary s \<and>
                hasSchedulableAtOrAfter (FPExtents n1) (CursorLBA n1) (ClusterBoundary s)
             then Inr (n1\<lparr>FPMode := FastSingle\<rparr>)
             else let n2 = n1\<lparr>FPMode := FastCluster\<rparr> in
               Inr (if CursorLBA n2 < ClusterBoundary s then n2\<lparr>CursorLBA := ClusterBoundary s\<rparr> else n2))
          else if \<not> FPSuccess outcome \<and> FPMode s = FastCluster then
            Inr (next\<lparr>FPMode := FastSingle, CursorLBA := ReqLBA request,
                      ClusterBoundary := ReqLBA request + ucast (ReqSectors request)\<rparr>)
          else if \<not> FPSuccess outcome \<and> FPMode s = FastSingle then
            (let skipSectors = skipLength (ReqLBA request + 1) (SkipAfterFailure s) (FPExtents next) in
             case applyFastPassFailure (FPExtents next) (ReqLBA request) (SkipAfterFailure s) of
               Inl er \<Rightarrow> Inl er
             | Inr failed \<Rightarrow>
                 Inr (next\<lparr>FPExtents := failed, FPMode := FastCluster,
                           CursorLBA := ReqLBA request + 1 + ucast skipSectors\<rparr>))
          else Inl (Errorf ''resolve fast pass: unsupported outcome for mode''))"

text \<open>One round: dispatch with room in the writer, and the answer; a checkpoint always completes.\<close>

definition fast_round :: "FastPassState round" where
  "fast_round s ok =
     (case DispatchFastPass s True of
        Inl er \<Rightarrow> Inl er
      | Inr (s1, FastRead r) \<Rightarrow>
          map_sum id Some (ResolveFastPass s1
            \<lparr>FPOutcomeRequest = Some r, FPSuccess = ok, CheckpointCompleted = False\<rparr>)
      | Inr (s1, FastDecisionCheckpoint) \<Rightarrow>
          map_sum id Some (ResolveFastPass s1
            \<lparr>FPOutcomeRequest = None, FPSuccess = ok, CheckpointCompleted = True\<rparr>)
      | Inr (s1, _) \<Rightarrow> Inr None)"

section \<open>Replacing a range\<close>

text \<open>The sectors recorded as unknown, and how a failed or skipped sector is recorded.\<close>

definition unk :: "Extent list \<Rightarrow> nat \<Rightarrow> bool" where
  "unk es n \<longleftrightarrow> (\<exists>e \<in> set es. covers e n \<and> State e = SectorStateUnknown)"

definition marked :: "SectorState \<Rightarrow> Confidence_t \<Rightarrow> Extent \<Rightarrow> Extent" where
  "marked st cf b = b\<lparr>State := st, Confidence := cf, Attempts := Attempts b + 1\<rparr>"

lemma unk_simps [simp]: "\<not> unk [] n"
  "unk (e # es) n \<longleftrightarrow> covers e n \<and> State e = SectorStateUnknown \<or> unk es n"
  by (auto simp: unk_def)

lemma unk_iff: "wf_extents es \<Longrightarrow> unk es n \<longleftrightarrow> (\<exists>b. extent_at es n = Some b \<and> State b = SectorStateUnknown)"
  unfolding unk_def by (metis body_simps(1) extent_at_Some extent_at_SomeD)

lemma unk_tail: "wf_extents (e # es) \<Longrightarrow> unk es n \<Longrightarrow> endN e \<le> n"
  unfolding unk_def wf_extents_Cons covers_def by (meson order_trans)

text \<open>The range as an extent, so that the facts about \<^verbatim>\<open>ApplyExtent\<close> apply to it.\<close>

definition range_of :: "u64 \<Rightarrow> u32 \<Rightarrow> SectorState \<Rightarrow> Confidence_t \<Rightarrow> Extent" where
  "range_of start sectors st cf =
     Extent_zero\<lparr>StartLBA := start, Sectors := sectors, State := st, Confidence := cf\<rparr>"

definition rpieces :: "Extent \<Rightarrow> Extent \<Rightarrow> Extent list" where
  "rpieces c e =
     (if Overlaps e c
      then ApplyExtent_left e c @
           [replaced_middle e (StartLBA c) (EndLBA c) (State c) (Confidence c)] @ ApplyExtent_right e c
      else [e])"

lemma replaceRangeState_loop_rpieces:
  assumes "\<forall>e \<in> set es. Overlaps e c \<longrightarrow> State e = SectorStateUnknown"
  shows "replaceRangeState_loop (StartLBA c) (EndLBA c) (State c) (Confidence c) es =
           Inr (concat (map (rpieces c) es))"
  using assms
proof (induction es)
  case (Cons e es)
  have o: "EndLBA e \<le> StartLBA c \<or> StartLBA e \<ge> EndLBA c \<longleftrightarrow> \<not> Overlaps e c"
    by (auto simp: Overlaps_def)
  have r: "(if min (EndLBA e) (EndLBA c) < EndLBA e
      then [e\<lparr>StartLBA := min (EndLBA e) (EndLBA c), Sectors := ucast (EndLBA e - min (EndLBA e) (EndLBA c))\<rparr>]
      else []) = ApplyExtent_right e c"
    by (auto simp: ApplyExtent_right_def min_def)
  show ?case
    using Cons by (simp add: rpieces_def o r schedulableFastPassState_def Let_def ApplyExtent_left_def)
qed simp

lemma replaced_middle_facts:
  assumes v: "extent_valid e" "extent_valid c" and o: "Overlaps e c"
  defines "p \<equiv> replaced_middle e (StartLBA c) (EndLBA c) (State c) (Confidence c)"
  shows "extent_valid p" "startN p = max (startN e) (startN c)" "endN p = min (endN e) (endN c)"
    "body p = marked (State c) (Confidence c) (body e)"
proof -
  have ov: "startN e < endN c" "startN c < endN e" using o v by (simp_all add: Overlaps_iff)
  have s: "unat (max (StartLBA e) (StartLBA c)) = max (startN e) (startN c)"
    by (simp add: max_def word_le_nat_alt)
  have m: "unat (min (EndLBA e) (EndLBA c)) = min (endN e) (endN c)"
    using v by (simp add: min_def word_le_nat_alt)
  have lt: "max (startN e) (startN c) < min (endN e) (endN c)"
    using ov extent_valid_pos [OF v(1)] extent_valid_pos [OF v(2)] by simp
  have d: "unat (min (EndLBA e) (EndLBA c) - max (StartLBA e) (StartLBA c)) =
      min (endN e) (endN c) - max (startN e) (startN c)"
    using lt by (subst unat_sub_le) (simp_all add: s m word_le_nat_alt)
  have "min (endN e) (endN c) - max (startN e) (startN c) \<le> unat (Sectors e)" by auto
  also have "\<dots> < 4294967296" by simp
  finally have n: "unat (Sectors p) = min (endN e) (endN c) - max (startN e) (startN c)"
    by (simp add: p_def replaced_middle_def Let_def d unat_ucast_64_32_small)
  show st: "startN p = max (startN e) (startN c)" by (simp add: p_def replaced_middle_def Let_def s)
  show en: "endN p = min (endN e) (endN c)" using lt by (simp add: st n)
  have sc: "ValidateStateConfidence (State p) (Confidence p) = None"
    using v(2) by (simp add: extent_valid_iff p_def replaced_middle_def Let_def)
  have "endN p < 18446744073709551616" using v(1) by (simp only: en extent_valid_iff) (auto simp: min_def)
  then show "extent_valid p" using n lt sc by (simp add: extent_valid_iff)
  show "body p = marked (State c) (Confidence c) (body e)"
    by (simp add: p_def replaced_middle_def Let_def body_def marked_def)
qed

lemma rpieces_facts:
  assumes v: "extent_valid e" "extent_valid c" and p: "p \<in> set (rpieces c e)"
  shows "extent_valid p" "startN e \<le> startN p" "endN p \<le> endN e"
    "covers p n \<Longrightarrow> body p = (if covers c n then marked (State c) (Confidence c) (body e) else body e)"
proof -
  consider (mid) "Overlaps e c" "p = replaced_middle e (StartLBA c) (EndLBA c) (State c) (Confidence c)"
    | (old) "p \<in> set (pieces c e)"
    using p by (auto simp: rpieces_def pieces_def split: if_splits)
  then have "extent_valid p \<and> startN e \<le> startN p \<and> endN p \<le> endN e \<and>
    (covers p n \<longrightarrow> body p = (if covers c n then marked (State c) (Confidence c) (body e) else body e))"
  proof cases
    case mid
    note f = replaced_middle_facts [OF v mid(1), folded mid(2)]
    have "covers p n \<Longrightarrow> covers c n" using f by (simp add: covers_def)
    with f show ?thesis by simp
  next
    case old
    note f = pieces_facts [OF v old]
    have "covers p n \<Longrightarrow> \<not> covers c n" using f(5) by (auto simp: covers_def)
    with f show ?thesis by simp
  qed
  then show "extent_valid p" "startN e \<le> startN p" "endN p \<le> endN e"
    "covers p n \<Longrightarrow> body p = (if covers c n then marked (State c) (Confidence c) (body e) else body e)"
    by blast+
qed

lemma rpieces_covers:
  assumes v: "extent_valid e" "extent_valid c"
  shows "(\<exists>p \<in> set (rpieces c e). covers p n) \<longleftrightarrow> covers e n"
proof
  assume "\<exists>p \<in> set (rpieces c e). covers p n"
  then obtain p where p: "p \<in> set (rpieces c e)" "covers p n" by blast
  with rpieces_facts(2,3) [OF v p(1)] show "covers e n" by (simp add: covers_def)
next
  assume a: "covers e n"
  show "\<exists>p \<in> set (rpieces c e). covers p n"
  proof (cases "covers c n")
    case False
    then obtain p where p: "p \<in> set (pieces c e)" "covers p n" using a pieces_covers [OF v] by blast
    then have "p \<in> set (rpieces c e)" by (auto simp: pieces_def rpieces_def split: if_splits)
    with p show ?thesis by blast
  next
    case True
    then have o: "Overlaps e c" using a v by (simp add: Overlaps_iff covers_def)
    let ?p = "replaced_middle e (StartLBA c) (EndLBA c) (State c) (Confidence c)"
    have "covers ?p n" using a True replaced_middle_facts(2,3) [OF v o] by (simp add: covers_def)
    moreover have "?p \<in> set (rpieces c e)" using o by (simp add: rpieces_def)
    ultimately show ?thesis by blast
  qed
qed

lemma rpieces_wf:
  assumes v: "extent_valid e" "extent_valid c"
  shows "wf_extents (rpieces c e)"
proof (cases "Overlaps e c")
  case False
  with v show ?thesis by (simp add: rpieces_def)
next
  case o: True
  let ?p = "replaced_middle e (StartLBA c) (EndLBA c) (State c) (Confidence c)"
  note f = replaced_middle_facts [OF v o]
  have w: "wf_extents (ApplyExtent_left e c)" "wf_extents (ApplyExtent_right e c)"
    using pieces_wf [OF v] o by (simp_all add: pieces_def wf_extents_append)
  have l: "endN q \<le> startN ?p" if "q \<in> set (ApplyExtent_left e c)" for q
    using ApplyExtent_left_facts(3) [OF v o that] f(2) by simp
  have r: "endN ?p \<le> startN q" if "q \<in> set (ApplyExtent_right e c)" for q
    using ApplyExtent_right_facts(2) [OF v o that] f(3) by simp
  have lr: "endN q \<le> startN x"
    if "q \<in> set (ApplyExtent_left e c)" "x \<in> set (ApplyExtent_right e c)" for q x
    using l [OF that(1)] r [OF that(2)] extent_valid_pos [OF f(1)] by linarith
  show ?thesis using o w f(1) l r lr by (simp add: rpieces_def wf_extents_append)
qed

lemma concat_rpieces:
  assumes "wf_extents es" "extent_valid c"
  shows "wf_extents (concat (map (rpieces c) es))"
    "extent_at (concat (map (rpieces c) es)) n =
       (if covers c n then map_option (marked (State c) (Confidence c)) (extent_at es n) else extent_at es n)"
proof -
  let ?r = "concat (map (rpieces c) es)"
  show w: "wf_extents ?r"
    using assms
  proof (induction es)
    case (Cons e es)
    have "endN p \<le> startN q" if p: "p \<in> set (rpieces c e)" and x: "x \<in> set es" and q: "q \<in> set (rpieces c x)"
      for p x q
    proof -
      have "extent_valid e" "extent_valid x" "endN e \<le> startN x"
        using Cons.prems x by (auto simp: wf_extents_def)
      then show ?thesis
        using rpieces_facts(3) [OF _ Cons.prems(2) p] rpieces_facts(2) [OF _ Cons.prems(2) q] by fastforce
    qed
    with Cons show ?case by (auto simp: wf_extents_append rpieces_wf)
  qed simp
  have v: "extent_valid e" if "e \<in> set es" for e using assms(1) that by (simp add: wf_extents_def)
  show "extent_at ?r n =
       (if covers c n then map_option (marked (State c) (Confidence c)) (extent_at es n) else extent_at es n)"
  proof (cases "extent_at es n")
    case None
    have "\<not> covers p n" if e: "e \<in> set es" "p \<in> set (rpieces c e)" for e p
      using None e rpieces_covers [OF v [OF e(1)] assms(2)] by (auto simp: extent_at_None_iff)
    then have "extent_at ?r n = None" by (auto simp: extent_at_None_iff)
    with None show ?thesis by simp
  next
    case (Some b)
    then obtain e where e: "e \<in> set es" "covers e n" "b = body e" by (auto dest: extent_at_SomeD)
    then obtain p where p: "p \<in> set (rpieces c e)" "covers p n"
      using rpieces_covers [OF v [OF e(1)] assms(2)] by blast
    then have "extent_at ?r n = Some (body p)" using e(1) w by (intro extent_at_Some) auto
    with Some e(3) rpieces_facts(4) [OF v [OF e(1)] assms(2) p] show ?thesis by simp
  qed
qed

text \<open>A medium of \<open>N\<close> sectors.\<close>

definition inside :: "nat \<Rightarrow> Extent list \<Rightarrow> bool" where
  "inside N es \<longleftrightarrow> (\<forall>n \<ge> N. extent_at es n = None)"

lemma inside_end:
  assumes "wf_extents es" "inside N es" "e \<in> set es"
  shows "endN e \<le> N"
proof (rule ccontr)
  assume "\<not> endN e \<le> N"
  moreover have "startN e < endN e" using assms(1,3) extent_valid_pos by (simp add: wf_extents_def)
  ultimately have "covers e (endN e - 1)" "N \<le> endN e - 1" by (simp_all add: covers_def)
  with assms show False by (auto simp: inside_def dest: extent_at_Some)
qed

lemma inside_within32: "wf_extents es \<Longrightarrow> inside N es \<Longrightarrow> N < 4294967296 \<Longrightarrow> within32 es"
  using inside_end by (fastforce simp: within32_def)

lemma inside_unk: "wf_extents es \<Longrightarrow> inside N es \<Longrightarrow> unk es n \<Longrightarrow> n < N"
  unfolding unk_def using inside_end by (fastforce simp: covers_def)

lemma replaceRangeState_correct:
  assumes w: "wf_extents es" and i: "inside N es" "N < 4294967296" and sz: "sectors \<noteq> 0"
    and st: "ValidateStateConfidence st cf = None"
    and u: "\<And>n. unat start \<le> n \<Longrightarrow> n < unat start + unat sectors \<Longrightarrow> unk es n"
  obtains r where "replaceRangeState es start sectors st cf = Inr r" "wf_extents r" "inside N r"
    "\<And>n. extent_at r n = (if unat start \<le> n \<and> n < unat start + unat sectors
            then map_option (marked st cf) (extent_at es n) else extent_at es n)"
proof -
  define c where "c = range_of start sectors st cf"
  have c: "StartLBA c = start" "EndLBA c = start + ucast sectors" "State c = st" "Confidence c = cf"
    "Sectors c = sectors"
    by (simp_all add: c_def range_of_def EndLBA_def)
  have pos: "0 < unat sectors" using sz by (simp add: word_neq_0_pos)
  then have "unk es (unat start + unat sectors - 1)" by (intro u) simp_all
  then have le: "unat start + unat sectors \<le> N" using inside_unk [OF w i(1)] pos by fastforce
  have vc: "extent_valid c" using pos le i(2) st by (simp add: extent_valid_iff c)
  have "State e = SectorStateUnknown" if e: "e \<in> set es" and o: "Overlaps e c" for e
  proof -
    have ve: "extent_valid e" using e w by (simp add: wf_extents_def)
    let ?n = "max (startN e) (startN c)"
    have cv: "covers e ?n" "covers c ?n"
      using o extent_valid_pos [OF ve] extent_valid_pos [OF vc]
      by (auto simp: covers_def Overlaps_iff [OF ve vc])
    then have "unk es ?n" using u by (simp add: covers_def c)
    with cv(1) e w show ?thesis by (auto simp: unk_iff extent_at_Some)
  qed
  then have l: "replaceRangeState_loop start (start + ucast sectors) st cf es = Inr (concat (map (rpieces c) es))"
    using replaceRangeState_loop_rpieces [of es c] by (simp add: c)
  note f = concat_rpieces [OF w vc]
  have "inside N (concat (map (rpieces c) es))" using i(1) by (simp add: inside_def f(2))
  then have "within32 (concat (map (rpieces c) es))" using inside_within32 f(1) i(2) by blast
  with CoalesceExtents_correct [OF f(1)] obtain r where r:
    "CoalesceExtents (concat (map (rpieces c) es)) = Inr r" "wf_extents r"
    "extent_at r = extent_at (concat (map (rpieces c) es))" by blast
  show ?thesis
  proof
    show "replaceRangeState es start sectors st cf = Inr r"
      using sz r(1) by (simp add: replaceRangeState_def l)
    show "extent_at r n = (if unat start \<le> n \<and> n < unat start + unat sectors
            then map_option (marked st cf) (extent_at es n) else extent_at es n)" for n
      by (simp add: r(3) f(2) covers_def c)
    show "inside N r" using i(1) by (simp add: inside_def r(3) f(2))
  qed (rule r(2))
qed

section \<open>Walking over the unknown sectors\<close>

text \<open>\<open>run_of\<close>: a maximal run of unknown sectors, up to a limit.\<close>

definition run_of :: "Extent list \<Rightarrow> nat \<Rightarrow> nat \<Rightarrow> nat \<Rightarrow> bool" where
  "run_of es a limit k \<longleftrightarrow>
     k \<le> limit \<and> (\<forall>n. a \<le> n \<and> n < a + k \<longrightarrow> unk es n) \<and> (k < limit \<longrightarrow> \<not> unk es (a + k))"

lemma run_of_unique:
  assumes "run_of es a limit k" "run_of fs a limit m" "\<And>n. a \<le> n \<Longrightarrow> unk es n = unk fs n"
  shows "k = m"
proof (rule ccontr)
  assume "k \<noteq> m"
  then consider "k < m" | "m < k" by linarith
  then show False by cases (use assms in \<open>auto simp: run_of_def\<close>)
qed

lemma run_of_cong: "(\<And>n. a \<le> n \<Longrightarrow> unk es n = unk fs n) \<Longrightarrow> run_of es a l k = run_of fs a l k"
  by (simp add: run_of_def)

lemma skipLength_loop_run:
  assumes "wf_extents es" "unat acc < unat limit"
  shows "unat acc \<le> unat (skipLength_loop limit acc current es) \<and>
    run_of es (unat current) (unat limit - unat acc) (unat (skipLength_loop limit acc current es) - unat acc)"
  using assms
proof (induction limit acc current es rule: skipLength_loop.induct)
  case (1 limit acc current)
  then show ?case by (simp add: run_of_def)
next
  case (2 limit acc current e es)
  have ve: "extent_valid e" and wes: "wf_extents es" and tail: "\<And>n. unk es n \<Longrightarrow> endN e \<le> n"
    using 2(3) unk_tail [OF 2(3)] by simp_all
  have E: "unat (EndLBA e) = endN e" using ve by simp
  show ?case
  proof (cases "\<not> schedulableFastPassState (State e) \<or> EndLBA e \<le> current")
    case True
    note ih = 2(1) [OF True wes 2(4)]
    have "unk (e # es) n \<longleftrightarrow> unk es n" if "unat current \<le> n" for n
      using True that tail [of n] E by (auto simp: schedulableFastPassState_def covers_def word_le_nat_alt)
    from run_of_cong [OF this] show ?thesis using ih True by simp
  next
    case False
    then have s: "State e = SectorStateUnknown" and ce: "unat current < endN e"
      using E by (auto simp: schedulableFastPassState_def word_le_nat_alt)
    show ?thesis
    proof (cases "StartLBA e \<le> current")
      case out: False
      have "\<not> unk (e # es) (unat current)"
        using out tail [of "unat current"] ce by (auto simp: covers_def word_le_nat_alt)
      moreover have "skipLength_loop limit acc current (e # es) = acc"
        using False out by (auto simp: Let_def)
      ultimately show ?thesis by (auto simp add: run_of_def simp del: unk_simps skipLength_loop.simps)
    next
      case True
      let ?av = "ucast (EndLBA e - current) :: u32" and ?rem = "limit - acc"
      have cv: "covers e n" if "unat current \<le> n" "n < endN e" for n
        using that True by (simp add: covers_def word_le_nat_alt)
      have d: "unat (EndLBA e - current) = endN e - unat current"
        using ce E by (subst unat_sub_le) (simp_all add: word_le_nat_alt)
      have "endN e - unat current \<le> unat (Sectors e)" using True by (simp add: word_le_nat_alt)
      also have "\<dots> < 4294967296" by simp
      finally have av: "unat ?av = endN e - unat current" by (simp add: d unat_ucast_64_32_small)
      have rem: "unat ?rem = unat limit - unat acc"
        using 2(4) by (subst unat_sub_le) (simp_all add: word_le_nat_alt)
      show ?thesis
      proof (cases "?av \<ge> ?rem")
        case ge: True
        have "skipLength_loop limit acc current (e # es) = acc + ?rem"
          using False True ge by (auto simp: Let_def)
        then have k: "unat (skipLength_loop limit acc current (e # es)) = unat limit" by simp
        have "unk (e # es) n" if "unat current \<le> n" "n < unat current + (unat limit - unat acc)" for n
          using that ge cv [of n] s by (simp add: word_le_nat_alt av rem)
        then show ?thesis using 2(4) k by (simp add: run_of_def)
      next
        case lt: False
        let ?acc = "acc + ?av"
        have l: "endN e - unat current < unat limit - unat acc"
          using lt by (simp add: word_le_nat_alt av rem not_le)
        have a: "unat ?acc = unat acc + (endN e - unat current)"
        proof (subst unat_add_le)
          have "unat acc + unat ?av < 4294967296"
            using l unat_u32_less [of limit] unfolding av by linarith
          then show "unat acc + unat ?av < 2 ^ LENGTH(32)" by simp
        qed (simp add: av)
        have ne: "?acc \<noteq> limit" using l a by (metis less_diff_conv add.commute less_irrefl)
        have al: "unat ?acc < unat limit" using l a by linarith
        have eq: "skipLength_loop limit acc current (e # es) = skipLength_loop limit ?acc (EndLBA e) es"
          using False True lt ne by (auto simp: Let_def)
        have rs: "current = (if StartLBA e < current then current else StartLBA e)" using True by auto
        have nn: "\<not> current \<noteq> current" by simp
        have "unat ?acc \<le> unat (skipLength_loop limit ?acc (EndLBA e) es) \<and>
          run_of es (endN e) (unat limit - unat ?acc) (unat (skipLength_loop limit ?acc (EndLBA e) es) - unat ?acc)"
          using 2(2) [OF False rs nn refl refl lt refl ne wes al] E by simp
        then obtain k where k: "unat (skipLength_loop limit ?acc (EndLBA e) es) = unat ?acc + k"
          and r: "run_of es (endN e) (unat limit - unat ?acc) k"
          by (metis le_add_diff_inverse)
        have sh: "unat current + (endN e - unat current + k) = endN e + k" using ce by simp
        have u: "unk (e # es) n" if "unat current \<le> n" "n < endN e + k" for n
          using that r cv [of n] s by (cases "n < endN e") (simp_all add: run_of_def)
        have nu: "\<not> unk (e # es) (endN e + k)" if "k < unat limit - unat ?acc"
          using that r by (simp add: run_of_def covers_def)
        have kl: "k \<le> unat limit - unat ?acc" using r by (simp add: run_of_def)
        have kk: "unat ?acc + k - unat acc = endN e - unat current + k" using a by linarith
        have "run_of (e # es) (unat current) (unat limit - unat acc) (endN e - unat current + k)"
          unfolding run_of_def sh
        proof (intro conjI allI impI)
          show "endN e - unat current + k \<le> unat limit - unat acc" using kl a l by linarith
          show "unk (e # es) n" if "unat current \<le> n \<and> n < endN e + k" for n using u that by blast
          show "\<not> unk (e # es) (endN e + k)" if "endN e - unat current + k < unat limit - unat acc"
            using that a by (intro nu) linarith
        qed
        moreover have "unat acc \<le> unat ?acc + k" using a by linarith
        ultimately show ?thesis unfolding eq k kk by blast
      qed
    qed
  qed
qed

lemma skipLength_run:
  assumes "wf_extents es"
  shows "run_of es (unat start) (unat limit) (unat (skipLength start limit es))"
proof (cases "limit = 0")
  case True
  then show ?thesis by (auto simp: skipLength_def run_of_def)
next
  case False
  then have "unat (0 :: u32) < unat limit" by (simp add: word_neq_0_pos)
  from skipLength_loop_run [OF assms this, of start] False show ?thesis by (simp add: skipLength_def)
qed

text \<open>What the two searches for the next unknown sector find.\<close>

lemma nextSingleSector_spec:
  "wf_extents es \<Longrightarrow>
   (case nextSingleSector es cursor boundary of
      None \<Rightarrow> \<forall>n. unat cursor \<le> n \<and> n < unat boundary \<longrightarrow> \<not> unk es n
    | Some start \<Rightarrow> cursor \<le> start \<and> start < boundary \<and> unk es (unat start) \<and>
        (\<forall>n. unat cursor \<le> n \<and> n < unat start \<longrightarrow> \<not> unk es n))"
proof (induction es)
  case (Cons e es)
  have ve: "extent_valid e" and tail: "\<And>n. unk es n \<Longrightarrow> endN e \<le> n" using Cons.prems unk_tail by simp_all
  show ?case
  proof (cases "\<not> schedulableFastPassState (State e) \<or> EndLBA e \<le> cursor")
    case True
    have "unk (e # es) n \<longleftrightarrow> unk es n" if "unat cursor \<le> n" for n
      using True that ve by (auto simp: schedulableFastPassState_def covers_def word_le_nat_alt)
    with Cons True show ?thesis
      by (auto simp: word_le_nat_alt simp del: unk_simps split: option.splits)
  next
    case False
    let ?st = "if StartLBA e < cursor then cursor else StartLBA e"
    have s: "State e = SectorStateUnknown" and c: "unat cursor < endN e"
      using False ve by (auto simp: schedulableFastPassState_def word_le_nat_alt)
    have le: "cursor \<le> ?st" by auto
    have cv: "covers e (unat ?st)"
      using c extent_valid_pos [OF ve] by (auto simp: covers_def word_less_nat_alt)
    have no: "\<not> unk (e # es) n" if "unat cursor \<le> n" "n < unat ?st" for n
    proof -
      have "\<not> StartLBA e < cursor" using that by (auto split: if_splits)
      then have lt: "n < startN e" using that by simp
      moreover have "\<not> endN e \<le> n" using lt by simp
      ultimately show ?thesis using tail [of n] by (auto simp: covers_def)
    qed
    have eq: "nextSingleSector (e # es) cursor boundary = (if ?st \<ge> boundary then None else Some ?st)"
      using False by (simp add: Let_def)
    have "\<not> unk (e # es) n" if "boundary \<le> ?st" "unat cursor \<le> n" "n < unat boundary" for n
      using that by (intro no) (simp_all add: word_le_nat_alt)
    then show ?thesis unfolding eq using le cv no s by (auto simp: not_le)
  qed
qed simp

lemma nextClusterRange_spec:
  "wf_extents es \<Longrightarrow> csize \<noteq> 0 \<Longrightarrow>
   (case nextClusterRange es cursor csize of
      None \<Rightarrow> \<forall>n \<ge> unat cursor. \<not> unk es n
    | Some (start, k) \<Rightarrow> cursor \<le> start \<and> k \<noteq> 0 \<and>
        (\<forall>n. unat start \<le> n \<and> n < unat start + unat k \<longrightarrow> unk es n) \<and>
        (\<forall>n. unat cursor \<le> n \<and> n < unat start \<longrightarrow> \<not> unk es n))"
proof (induction es)
  case (Cons e es)
  have ve: "extent_valid e" and tail: "\<And>n. unk es n \<Longrightarrow> endN e \<le> n" using Cons.prems unk_tail by simp_all
  show ?case
  proof (cases "\<not> schedulableFastPassState (State e) \<or> EndLBA e \<le> cursor")
    case True
    have "unk (e # es) n \<longleftrightarrow> unk es n" if "unat cursor \<le> n" for n
      using True that ve by (auto simp: schedulableFastPassState_def covers_def word_le_nat_alt)
    with Cons True show ?thesis
      by (auto simp: word_le_nat_alt simp del: unk_simps split: option.splits)
  next
    case False
    let ?st = "if StartLBA e < cursor then cursor else StartLBA e"
    let ?sp = "ucast (EndLBA e - ?st) :: u32" and ?k = "if (ucast (EndLBA e - ?st) :: u32) > csize then csize
      else ucast (EndLBA e - ?st)"
    have s: "State e = SectorStateUnknown" and c: "unat cursor < endN e"
      using False ve by (auto simp: schedulableFastPassState_def word_le_nat_alt)
    have le: "cursor \<le> ?st" by auto
    have b: "startN e \<le> unat ?st" "unat ?st < endN e"
      using c extent_valid_pos [OF ve] by (auto simp: word_less_nat_alt)
    have d: "unat (EndLBA e - ?st) = endN e - unat ?st"
      using b ve by (subst unat_sub_le) (simp_all add: word_le_nat_alt)
    have "endN e - unat ?st \<le> unat (Sectors e)" using b by linarith
    also have "\<dots> < 4294967296" by simp
    finally have sp: "unat ?sp = endN e - unat ?st" by (simp only: d unat_ucast_64_32_small)
    have k: "unat ?k \<le> endN e - unat ?st"
      using sp by (auto simp: word_less_nat_alt)
    have "0 < unat ?sp" using sp b by simp
    then have k0: "?k \<noteq> 0" using Cons.prems(2) by (auto simp: word_neq_0_pos)
    have no: "\<not> unk (e # es) n" if "unat cursor \<le> n" "n < unat ?st" for n
    proof -
      have "\<not> StartLBA e < cursor" using that by (auto split: if_splits)
      then have lt: "n < startN e" using that by simp
      moreover have "\<not> endN e \<le> n" using lt by simp
      ultimately show ?thesis using tail [of n] by (auto simp: covers_def)
    qed
    have u: "unk (e # es) n" if "unat ?st \<le> n" "n < unat ?st + unat ?k" for n
    proof -
      have "n < endN e" "startN e \<le> n" using that k b by linarith+
      with s show ?thesis by (simp add: covers_def)
    qed
    have eq: "nextClusterRange (e # es) cursor csize = Some (?st, ?k)"
      using False by (simp add: Let_def)
    show ?thesis unfolding eq using le k0 u no by (simp del: unk_simps)
  qed
qed simp

lemma unat_plus1: "unat (w :: u64) < N \<Longrightarrow> N < 4294967296 \<Longrightarrow> unat (w + 1) = unat w + 1"
  by (subst unat_add_le) simp_all

lemma unat_plus_u32: "unat (w :: u64) + unat (k :: u32) < 18446744073709551616 \<Longrightarrow> unat (w + ucast k) = unat w + unat k"
  by (subst unat_add_le) simp_all

lemma applyFastPassFailure_correct:
  fixes es :: "Extent list" and lba :: u64 and skip :: u32
  assumes w: "wf_extents es" and i: "inside N es" "N < 4294967296" and u: "unk es (unat lba)"
  defines "k \<equiv> unat (skipLength (lba + 1) skip es)"
  obtains r where "applyFastPassFailure es lba skip = Inr r" "wf_extents r" "inside N r"
    "\<And>n. extent_at r n =
       (if n = unat lba then map_option (marked SectorStateIOError ConfidenceNone) (extent_at es n)
        else if unat lba < n \<and> n < unat lba + 1 + k
        then map_option (marked SectorStateSkipped ConfidenceNone) (extent_at es n)
        else extent_at es n)"
proof -
  have lN: "unat lba < N" using inside_unk [OF w i(1) u] .
  have l1: "unat (lba + 1) = unat lba + 1" using unat_plus1 lN i(2) .
  have v: "ValidateStateConfidence SectorStateIOError ConfidenceNone = None"
    "ValidateStateConfidence SectorStateSkipped ConfidenceNone = None" by code_simp+
  have u1: "unk es n" if "unat lba \<le> n" "n < unat lba + unat (1 :: u32)" for n
    using that u by (cases "n = unat lba") simp_all
  have one: "(1 :: u32) \<noteq> 0" by simp
  from replaceRangeState_correct [OF w i one v(1) u1] obtain f where f:
    "replaceRangeState es lba 1 SectorStateIOError ConfidenceNone = Inr f" "wf_extents f" "inside N f"
    and fa: "\<And>n. extent_at f n = (if unat lba \<le> n \<and> n < unat lba + unat (1 :: u32)
            then map_option (marked SectorStateIOError ConfidenceNone) (extent_at es n) else extent_at es n)"
    by blast
  have fu: "unk f n = unk es n" if "unat (lba + 1) \<le> n" for n
    using that l1 by (simp add: unk_iff [OF f(2)] unk_iff [OF w] fa)
  have "unat (skipLength (lba + 1) skip f) = k"
    unfolding k_def using skipLength_run [OF f(2)] skipLength_run [OF w] fu by (rule run_of_unique)
  then have sk: "skipLength (lba + 1) skip f = skipLength (lba + 1) skip es"
    by (simp add: k_def word_unat_eq_iff)
  have n1: "unat lba \<le> n \<and> n < unat lba + unat (1 :: u32) \<longleftrightarrow> n = unat lba" for n by auto
  show ?thesis
  proof (cases "skipLength (lba + 1) skip es = 0")
    case True
    then have "applyFastPassFailure es lba skip = Inr f" by (simp add: applyFastPassFailure_def f(1) sk Let_def)
    then show ?thesis using f(2,3) True by (intro that) (auto simp: fa n1 k_def)
  next
    case False
    have "unk f n" if "unat (lba + 1) \<le> n" "n < unat (lba + 1) + unat (skipLength (lba + 1) skip es)" for n
      using skipLength_run [OF w, of "lba + 1" skip] fu that by (simp add: run_of_def)
    from replaceRangeState_correct [OF f(2,3) i(2) False v(2) this] obtain r where r:
      "replaceRangeState f (lba + 1) (skipLength (lba + 1) skip es) SectorStateSkipped ConfidenceNone = Inr r"
      "wf_extents r" "inside N r"
      and ra: "\<And>n. extent_at r n = (if unat (lba + 1) \<le> n \<and> n < unat (lba + 1) + unat (skipLength (lba + 1) skip es)
            then map_option (marked SectorStateSkipped ConfidenceNone) (extent_at f n) else extent_at f n)"
      by blast
    have "applyFastPassFailure es lba skip = Inr r"
      using False r(1) by (simp add: applyFastPassFailure_def f(1) sk Let_def)
    then show ?thesis using r(2,3) by (intro that) (auto simp: ra fa n1 l1 k_def)
  qed
qed

section \<open>Invariant, rank and the effect of a round\<close>

definition fast_inv :: "nat \<Rightarrow> FastPassState \<Rightarrow> bool" where
  "fast_inv N s \<longleftrightarrow> wf_extents (FPExtents s) \<and> inside N (FPExtents s) \<and> N < 4294967296 \<and>
     ClusterSize s \<noteq> 0 \<and> SkipAfterFailure s \<noteq> 0 \<and> FPActive s = None \<and> \<not> CheckpointActive s \<and>
     FPMode s \<in> {FastCluster, FastSingle, FastDone} \<and>
     (FPMode s = FastSingle \<longrightarrow> hasSchedulableAtOrAfter (FPExtents s) (CursorLBA s) (ClusterBoundary s)) \<and>
     (FPMode s = FastDone \<longrightarrow> (\<forall>n \<ge> unat (CursorLBA s). \<not> unk (FPExtents s) n))"

definition fast_rank :: "nat \<Rightarrow> FastPassState \<Rightarrow> nat" where
  "fast_rank N s = (case FPMode s of
     FastCluster \<Rightarrow> 2 * (N - unat (CursorLBA s)) + 2
   | FastSingle \<Rightarrow> 2 * (N - unat (CursorLBA s)) + 1 | _ \<Rightarrow> 0)"

text \<open>A sector that was given up, and what a round does to the sectors it passes.\<close>

definition lost :: "Extent option \<Rightarrow> Extent option \<Rightarrow> bool" where
  "lost x y \<longleftrightarrow> (\<exists>b st. x = Some b \<and> st \<in> {SectorStateIOError, SectorStateSkipped} \<and>
     y = Some (marked st ConfidenceNone b))"

definition fast_effect :: "FastPassState \<Rightarrow> nat set \<Rightarrow> FastPassState \<Rightarrow> bool" where
  "fast_effect s R t \<longleftrightarrow> CursorLBA s \<le> CursorLBA t \<and>
     R \<subseteq> {n. unk (FPExtents s) n \<and> unat (CursorLBA s) \<le> n \<and> n < unat (CursorLBA t)} \<and>
     (\<forall>n. if unk (FPExtents s) n \<and> unat (CursorLBA s) \<le> n \<and> n < unat (CursorLBA t) \<and> n \<notin> R
          then lost (extent_at (FPExtents s) n) (extent_at (FPExtents t) n)
          else extent_at (FPExtents t) n = extent_at (FPExtents s) n)"

definition fast_good :: "nat \<Rightarrow> FastPassState \<Rightarrow> bool \<Rightarrow> FastPassState \<Rightarrow> bool" where
  "fast_good N s ok t \<longleftrightarrow> fast_round s ok = Inr (Some t) \<and> fast_inv N t \<and> fast_rank N t < fast_rank N s \<and>
     fast_effect s (covered_by (case nextFastPassRequest s of Some r \<Rightarrow> if ok then [r] else [] | None \<Rightarrow> [])) t"

lemma fast_round_read:
  assumes "fast_inv N s" "nextFastPassRequest s = Some r"
  shows "fast_round s ok = map_sum id Some (ResolveFastPass (s\<lparr>FPActive := Some r\<rparr>)
     \<lparr>FPOutcomeRequest = Some r, FPSuccess = ok, CheckpointCompleted = False\<rparr>)"
proof -
  have "FPMode s \<noteq> FastDone" "FPMode s \<noteq> FastCheckpoint"
    using assms(2) by (auto simp: nextFastPassRequest_def)
  with assms show ?thesis
    by (simp add: fast_round_def DispatchFastPass_def fast_inv_def)
qed

lemma fast_cluster_step:
  assumes inv: "fast_inv N s" and m: "FPMode s = FastCluster" and r: "nextFastPassRequest s = Some r"
  shows "\<exists>t. fast_good N s ok t"
proof -
  from inv have w: "wf_extents (FPExtents s)" and i: "inside N (FPExtents s)" and N: "N < 4294967296"
    and cs: "ClusterSize s \<noteq> 0" by (auto simp: fast_inv_def)
  obtain start k where rk: "r = FastPass start k"
    and nx: "nextClusterRange (FPExtents s) (CursorLBA s) (ClusterSize s) = Some (start, k)"
    using r m by (auto simp: nextFastPassRequest_def split: option.splits)
  from nextClusterRange_spec [OF w cs, of "CursorLBA s"] nx have le: "CursorLBA s \<le> start" and k0: "k \<noteq> 0"
    and u: "\<And>n. unat start \<le> n \<Longrightarrow> n < unat start + unat k \<Longrightarrow> unk (FPExtents s) n"
    and no: "\<And>n. unat (CursorLBA s) \<le> n \<Longrightarrow> n < unat start \<Longrightarrow> \<not> unk (FPExtents s) n" by auto
  have kp: "0 < unat k" using k0 by (simp add: word_neq_0_pos)
  have "unk (FPExtents s) (unat start + unat k - 1)" using kp by (intro u) simp_all
  then have kN: "unat start + unat k \<le> N" using inside_unk [OF w i] kp by fastforce
  have sk: "unat (start + ucast k) = unat start + unat k" using kN N by (intro unat_plus_u32) simp
  have le': "unat (CursorLBA s) \<le> unat start" using le by (simp add: word_le_nat_alt)
  show ?thesis
  proof (cases ok)
    case True
    let ?t = "s\<lparr>CursorLBA := start + ucast k\<rparr>"
    have "fast_round s ok = Inr (Some ?t)"
      using inv m True unfolding fast_round_read [OF inv r]
      by (simp add: ResolveFastPass_def fast_inv_def rk FastPass_def Let_def)
    moreover have "fast_inv N ?t" using inv m by (simp add: fast_inv_def)
    moreover have "fast_rank N ?t < fast_rank N s" using m le' kp kN by (simp add: fast_rank_def sk)
    moreover have "fast_effect s (covered_by [r]) ?t"
      using u no le' kp by (auto simp: fast_effect_def rk FastPass_def sk word_le_nat_alt not_le)
    ultimately show ?thesis using True r by (auto simp: fast_good_def)
  next
    case False
    let ?t = "s\<lparr>FPMode := FastSingle, CursorLBA := start, ClusterBoundary := start + ucast k\<rparr>"
    have "fast_round s ok = Inr (Some ?t)"
      using inv m False unfolding fast_round_read [OF inv r]
      by (simp add: ResolveFastPass_def fast_inv_def rk FastPass_def Let_def)
    moreover have "nextSingleSector (FPExtents s) start (start + ucast k) \<noteq> None"
    proof
      assume "nextSingleSector (FPExtents s) start (start + ucast k) = None"
      with nextSingleSector_spec [OF w, of start "start + ucast k"]
      have "\<not> unk (FPExtents s) (unat start)" using kp by (simp add: sk)
      with u [of "unat start"] kp show False by simp
    qed
    then have "fast_inv N ?t" using inv m by (simp add: fast_inv_def hasSchedulableAtOrAfter_def)
    moreover have "fast_rank N ?t < fast_rank N s" using m le' by (simp add: fast_rank_def)
    moreover have "fast_effect s (covered_by []) ?t" using no le by (auto simp: fast_effect_def)
    ultimately show ?thesis using False r by (auto simp: fast_good_def)
  qed
qed

lemma fast_single_step:
  assumes inv: "fast_inv N s" and m: "FPMode s = FastSingle" and r: "nextFastPassRequest s = Some r"
  shows "\<exists>t. fast_good N s ok t"
proof -
  from inv have w: "wf_extents (FPExtents s)" and i: "inside N (FPExtents s)" and N: "N < 4294967296"
    by (auto simp: fast_inv_def)
  let ?B = "ClusterBoundary s" and ?C = "CursorLBA s" and ?E = "FPExtents s"
  obtain lba where rk: "r = FastPass lba 1" and nx: "nextSingleSector ?E ?C ?B = Some lba"
    using r m by (auto simp: nextFastPassRequest_def split: option.splits)
  from nextSingleSector_spec [OF w, of ?C ?B] nx have le: "?C \<le> lba" and lB: "lba < ?B"
    and u: "unk ?E (unat lba)" and no: "\<And>n. unat ?C \<le> n \<Longrightarrow> n < unat lba \<Longrightarrow> \<not> unk ?E n" by auto
  have lN: "unat lba < N" using inside_unk [OF w i u] .
  have l1: "unat (lba + 1) = unat lba + 1" using unat_plus1 lN N .
  have le': "unat ?C \<le> unat lba" using le by (simp add: word_le_nat_alt)
  show ?thesis
  proof (cases ok)
    case True
    show ?thesis
    proof (cases "lba + 1 < ?B \<and> hasSchedulableAtOrAfter ?E (lba + 1) ?B")
      case go: True
      let ?t = "s\<lparr>CursorLBA := lba + 1\<rparr>"
      have "fast_round s ok = Inr (Some ?t)"
        using inv m True go unfolding fast_round_read [OF inv r]
        by (simp add: ResolveFastPass_def fast_inv_def rk FastPass_def Let_def)
      moreover have "fast_inv N ?t" using inv m go by (simp add: fast_inv_def)
      moreover have "fast_rank N ?t < fast_rank N s" using m le' lN by (simp add: fast_rank_def l1)
      moreover have "fast_effect s (covered_by [r]) ?t"
        using u no le' by (auto simp: fast_effect_def rk FastPass_def l1 word_le_nat_alt less_Suc_eq)
      ultimately show ?thesis using True r by (auto simp: fast_good_def)
    next
      case stop: False
      let ?c = "if lba + 1 < ?B then ?B else lba + 1"
      let ?t = "s\<lparr>CursorLBA := ?c, FPMode := FastCluster\<rparr>"
      have none: "\<not> unk ?E n" if "unat lba < n" "n < unat ?c" for n
      proof (cases "lba + 1 < ?B")
        case True
        then have "nextSingleSector ?E (lba + 1) ?B = None" using stop by (simp add: hasSchedulableAtOrAfter_def)
        with nextSingleSector_spec [OF w, of "lba + 1" ?B] that True l1 show ?thesis by auto
      next
        case False
        with that l1 show ?thesis by simp
      qed
      have c: "unat lba < unat ?c" using l1 by (auto simp: word_less_nat_alt)
      have "fast_round s ok = Inr (Some ?t)"
        using inv m True stop unfolding fast_round_read [OF inv r]
        by (auto simp add: ResolveFastPass_def fast_inv_def rk FastPass_def Let_def)
      moreover have "fast_inv N ?t" using inv m by (simp add: fast_inv_def)
      moreover have "fast_rank N ?t < fast_rank N s" using m le' lN c by (simp add: fast_rank_def)
      moreover have "fast_effect s (covered_by [r]) ?t"
        unfolding fast_effect_def
      proof (intro conjI allI)
        show "CursorLBA s \<le> CursorLBA ?t" using le' c by (simp add: word_le_nat_alt)
        show "covered_by [r] \<subseteq> {n. unk ?E n \<and> unat ?C \<le> n \<and> n < unat (CursorLBA ?t)}"
          using u le' c by (auto simp: rk FastPass_def less_Suc_eq)
        show "if unk ?E n \<and> unat ?C \<le> n \<and> n < unat (CursorLBA ?t) \<and> n \<notin> covered_by [r]
          then lost (extent_at ?E n) (extent_at (FPExtents ?t) n)
          else extent_at (FPExtents ?t) n = extent_at ?E n" for n
        proof (cases n "unat lba" rule: linorder_cases)
          case less
          with no [of n] show ?thesis by auto
        next
          case equal
          then show ?thesis by (simp add: rk FastPass_def)
        next
          case greater
          with none [of n] show ?thesis by auto
        qed
      qed
      ultimately show ?thesis using True r by (auto simp: fast_good_def)
    qed
  next
    case False
    let ?k = "skipLength (lba + 1) (SkipAfterFailure s) ?E"
    obtain f where f: "applyFastPassFailure ?E lba (SkipAfterFailure s) = Inr f" "wf_extents f" "inside N f"
      and fa: "\<And>n. extent_at f n =
       (if n = unat lba then map_option (marked SectorStateIOError ConfidenceNone) (extent_at ?E n)
        else if unat lba < n \<and> n < unat lba + 1 + unat ?k
        then map_option (marked SectorStateSkipped ConfidenceNone) (extent_at ?E n)
        else extent_at ?E n)"
      using applyFastPassFailure_correct [OF w i N u, of "SkipAfterFailure s"] by blast
    let ?t = "s\<lparr>FPExtents := f, FPMode := FastCluster, CursorLBA := lba + 1 + ucast ?k\<rparr>"
    have kl: "unat ?k < 4294967296" by simp
    have c: "unat (lba + 1 + ucast ?k) = unat lba + 1 + unat ?k"
    proof -
      have "unat (lba + 1) + unat ?k < 18446744073709551616" using l1 lN N kl by linarith
      from unat_plus_u32 [OF this] l1 show ?thesis by simp
    qed
    have run: "unk ?E n" if "unat lba < n" "n < unat lba + 1 + unat ?k" for n
      using skipLength_run [OF w, of "lba + 1" "SkipAfterFailure s"] that l1 by (simp add: run_of_def)
    have "fast_round s ok = Inr (Some ?t)"
      using inv m False f(1) unfolding fast_round_read [OF inv r]
      by (simp add: ResolveFastPass_def fast_inv_def rk FastPass_def Let_def)
    moreover have "fast_inv N ?t" using inv f by (simp add: fast_inv_def)
    moreover have "fast_rank N ?t < fast_rank N s" using m le' lN by (simp add: fast_rank_def c)
    moreover have "fast_effect s (covered_by []) ?t"
      unfolding fast_effect_def
    proof (intro conjI allI)
      show "CursorLBA s \<le> CursorLBA ?t" using le' c by (simp add: word_le_nat_alt)
      fix n
      consider (before) "n < unat ?C" | (gap) "unat ?C \<le> n" "n < unat lba" | (fail) "n = unat lba"
        | (skip) "unat lba < n" "n < unat lba + 1 + unat ?k" | (after) "unat lba + 1 + unat ?k \<le> n" by linarith
      then show "if unk ?E n \<and> unat ?C \<le> n \<and> n < unat (CursorLBA ?t) \<and> n \<notin> covered_by []
          then lost (extent_at ?E n) (extent_at (FPExtents ?t) n)
          else extent_at (FPExtents ?t) n = extent_at ?E n"
      proof cases
        case fail
        with u obtain b where "extent_at ?E n = Some b" by (auto simp: unk_iff [OF w])
        with fail u le' show ?thesis by (auto simp: fa c lost_def)
      next
        case skip
        then have "unk ?E n" by (rule run)
        with skip le' show ?thesis using unk_iff [OF w, of n] by (auto simp: fa c lost_def)
      next
        case gap
        with no [OF gap] show ?thesis by (simp add: fa)
      qed (use le' in \<open>simp_all add: fa c\<close>)
    qed simp
    ultimately show ?thesis using False r by (auto simp: fast_good_def)
  qed
qed

lemma fast_end_step:
  assumes inv: "fast_inv N s" and m: "FPMode s = FastCluster" and r: "nextFastPassRequest s = None"
  shows "\<exists>t. fast_good N s ok t"
proof -
  from inv have w: "wf_extents (FPExtents s)" and cs: "ClusterSize s \<noteq> 0" by (auto simp: fast_inv_def)
  have "nextClusterRange (FPExtents s) (CursorLBA s) (ClusterSize s) = None"
    using r m by (auto simp: nextFastPassRequest_def split: option.splits)
  with nextClusterRange_spec [OF w cs, of "CursorLBA s"]
  have no: "\<forall>n \<ge> unat (CursorLBA s). \<not> unk (FPExtents s) n" by simp
  have "fast_round s ok = Inr (Some (s\<lparr>FPMode := FastDone\<rparr>))"
    using inv m r by (cases s) (simp add: fast_round_def DispatchFastPass_def fast_inv_def ResolveFastPass_def)
  moreover have "fast_inv N (s\<lparr>FPMode := FastDone\<rparr>)" using inv no by (simp add: fast_inv_def)
  moreover have "fast_rank N (s\<lparr>FPMode := FastDone\<rparr>) < fast_rank N s" using m by (simp add: fast_rank_def)
  moreover have "fast_effect s {} (s\<lparr>FPMode := FastDone\<rparr>)" by (auto simp: fast_effect_def)
  ultimately show ?thesis using r by (auto simp: fast_good_def)
qed

lemma fast_step:
  assumes "fast_inv N s"
  shows "fast_round s ok = Inr None \<and> FPMode s = FastDone \<or> (\<exists>t. fast_good N s ok t)"
proof -
  consider "FPMode s = FastDone" | "FPMode s = FastCluster" | "FPMode s = FastSingle"
    using assms by (auto simp: fast_inv_def)
  then show ?thesis
  proof cases
    case 1
    then show ?thesis using assms by (simp add: fast_round_def DispatchFastPass_def fast_inv_def)
  next
    case 2
    then show ?thesis using assms fast_cluster_step fast_end_step by (cases "nextFastPassRequest s") blast+
  next
    case 3
    then obtain r where "nextFastPassRequest s = Some r"
      using assms by (auto simp: fast_inv_def nextFastPassRequest_def hasSchedulableAtOrAfter_def)
    with 3 show ?thesis using assms fast_single_step by blast
  qed
qed

interpretation fast: pass_machine fast_round "fast_inv N" "fast_rank N" for N
proof
  fix s b assume "fast_inv N s"
  from fast_step [OF this, of b] show "\<exists>r. fast_round s b = Inr r" by (auto simp: fast_good_def)
next
  fix s b t assume "fast_inv N s" "fast_round s b = Inr (Some t)"
  with fast_step [of N s b] show "fast_inv N t" "fast_rank N t < fast_rank N s"
    by (auto simp: fast_good_def)
qed

section \<open>What a whole pass does\<close>

abbreviation fast_successes :: "bool list \<Rightarrow> FastPassState \<Rightarrow> Request list" where
  "fast_successes \<equiv> successes nextFastPassRequest fast_round"

lemma fast_run:
  assumes "fast_inv N s" "drive fast_round oks s = Inr (Some t)"
  defines "S \<equiv> covered_by (fast_successes oks s)"
  shows "S \<subseteq> {n. unk (FPExtents s) n \<and> unat (CursorLBA s) \<le> n}"
    "if unk (FPExtents s) n \<and> unat (CursorLBA s) \<le> n \<and> n \<notin> S
     then lost (extent_at (FPExtents s) n) (extent_at (FPExtents t) n)
     else extent_at (FPExtents t) n = extent_at (FPExtents s) n"
  using assms(1,2) unfolding S_def
proof (induction oks arbitrary: s)
  case Nil
  { case 1 then show ?case by simp }
  { case 2 then show ?case by simp }
next
  case (Cons ok oks)
  let ?req = "\<lambda>s. case nextFastPassRequest s of Some r \<Rightarrow> if ok then [r] else [] | None \<Rightarrow> []"
  have main: "covered_by (fast_successes (ok # oks) s) \<subseteq> {n. unk (FPExtents s) n \<and> unat (CursorLBA s) \<le> n} \<and>
    (if unk (FPExtents s) n \<and> unat (CursorLBA s) \<le> n \<and> n \<notin> covered_by (fast_successes (ok # oks) s)
     then lost (extent_at (FPExtents s) n) (extent_at (FPExtents t) n)
     else extent_at (FPExtents t) n = extent_at (FPExtents s) n)"
    if inv: "fast_inv N s" and d: "drive fast_round (ok # oks) s = Inr (Some t)" for s
  proof (cases "fast_round s ok = Inr None")
    case True
    then have "FPMode s = FastDone" using fast_step [OF inv, of ok] by (auto simp: fast_good_def)
    then have "\<forall>n \<ge> unat (CursorLBA s). \<not> unk (FPExtents s) n" using inv by (simp add: fast_inv_def)
    with True d show ?thesis by auto
  next
    case False
    then obtain u where g: "fast_good N s ok u" using fast_step [OF inv, of ok] by blast
    then have u: "fast_round s ok = Inr (Some u)" "fast_inv N u" and e: "fast_effect s (covered_by (?req s)) u"
      by (simp_all add: fast_good_def)
    let ?R = "covered_by (?req s)" and ?S = "covered_by (fast_successes oks u)"
    have du: "drive fast_round oks u = Inr (Some t)" using d u by simp
    note ih = Cons.IH [OF u(2) du]
    have S: "covered_by (fast_successes (ok # oks) s) = ?R \<union> ?S" using u(1) by simp
    from e have le: "unat (CursorLBA s) \<le> unat (CursorLBA u)"
      and R: "?R \<subseteq> {n. unk (FPExtents s) n \<and> unat (CursorLBA s) \<le> n \<and> n < unat (CursorLBA u)}"
      and ef: "\<And>n. if unk (FPExtents s) n \<and> unat (CursorLBA s) \<le> n \<and> n < unat (CursorLBA u) \<and> n \<notin> ?R
          then lost (extent_at (FPExtents s) n) (extent_at (FPExtents u) n)
          else extent_at (FPExtents u) n = extent_at (FPExtents s) n"
      by (simp_all only: fast_effect_def word_le_nat_alt) blast
    have w: "wf_extents (FPExtents s)" "wf_extents (FPExtents u)" using inv u(2) by (simp_all add: fast_inv_def)
    have same: "unk (FPExtents u) n = unk (FPExtents s) n" if "unat (CursorLBA u) \<le> n" for n
      using ef [of n] that by (simp add: unk_iff [OF w(1)] unk_iff [OF w(2)])
    have sub: "?S \<subseteq> {n. unk (FPExtents s) n \<and> unat (CursorLBA u) \<le> n}" using ih(1) same by blast
    then have "?R \<union> ?S \<subseteq> {n. unk (FPExtents s) n \<and> unat (CursorLBA s) \<le> n}" using R le by fastforce
    moreover have "if unk (FPExtents s) n \<and> unat (CursorLBA s) \<le> n \<and> n \<notin> ?R \<union> ?S
       then lost (extent_at (FPExtents s) n) (extent_at (FPExtents t) n)
       else extent_at (FPExtents t) n = extent_at (FPExtents s) n"
    proof (cases "n < unat (CursorLBA u)")
      case True
      then have "n \<notin> ?S" using sub by auto
      moreover from this have "extent_at (FPExtents t) n = extent_at (FPExtents u) n"
        using ih(2) True by simp
      ultimately show ?thesis using ef [of n] True by auto
    next
      case False
      then have nR: "n \<notin> ?R" using R by auto
      have "extent_at (FPExtents u) n = extent_at (FPExtents s) n" using ef [of n] False by simp
      with ih(2) same [of n] False nR le show ?thesis by auto
    qed
    ultimately show ?thesis unfolding S by blast
  qed
  { case 1 then show ?case using main by blast }
  { case 2 then show ?case using main by blast }
qed

text \<open>
  C37: A fast pass comes to its end and accounts for every sector. Whatever the device answers, it
  never fails with an error and is done after at most \<open>2 * N + 3\<close> rounds on a medium of \<open>N\<close> sectors.
  Every sector that was unknown is then either covered by a read that succeeded and still has its
  old record, or it is recorded as failed or skipped with one more attempt; no other sector is read
  or changed.
\<close>

theorem fast_pass_accounts_for_unknown:
  assumes "StartFastPass es clusterSize = Inr s" "\<forall>e \<in> set es. endN e \<le> N" "N < 4294967296"
    and "2 * N + 2 < length oks"
  shows "\<exists>t. drive fast_round oks s = Inr (Some t) \<and> FPMode t = FastDone \<and>
    wf_extents (FPExtents t) \<and>
    (\<forall>n. if unk es n
       then (n \<in> covered_by (fast_successes oks s) \<and> extent_at (FPExtents t) n = extent_at es n) \<or>
            (n \<notin> covered_by (fast_successes oks s) \<and> lost (extent_at es n) (extent_at (FPExtents t) n))
       else n \<notin> covered_by (fast_successes oks s) \<and> extent_at (FPExtents t) n = extent_at es n)"
proof -
  have w: "wf_extents es" and s: "s = \<lparr>FPExtents = es, CursorLBA = 0, ClusterSize = clusterSize,
      SkipAfterFailure = 256, FPMode = FastCluster, ClusterBoundary = 0, FPActive = None, CheckpointActive = False\<rparr>"
    and k: "clusterSize \<noteq> 0"
    using assms(1) by (auto simp: StartFastPass_def defaultFastSkipAfterFailure_def ValidateExtentSet_iff
        split: option.splits if_splits)
  have "inside N es" unfolding inside_def extent_at_None_iff covers_def
    using assms(2) by (meson le_trans not_less)
  then have inv: "fast_inv N s" using w k assms(3) by (simp add: fast_inv_def s)
  have "fast_rank N s < length oks" using assms(4) by (simp add: fast_rank_def s)
  from fast.drive_ends [OF inv this] obtain t b where t: "drive fast_round oks s = Inr (Some t)"
    "fast_inv N t" "fast_round t b = Inr None" by blast
  then have "FPMode t = FastDone" using fast_step [OF t(2), of b] by (auto simp: fast_good_def)
  moreover have "wf_extents (FPExtents t)" using t(2) by (simp add: fast_inv_def)
  moreover have "if unk es n
       then (n \<in> covered_by (fast_successes oks s) \<and> extent_at (FPExtents t) n = extent_at es n) \<or>
            (n \<notin> covered_by (fast_successes oks s) \<and> lost (extent_at es n) (extent_at (FPExtents t) n))
       else n \<notin> covered_by (fast_successes oks s) \<and> extent_at (FPExtents t) n = extent_at es n" for n
  proof -
    have e: "FPExtents s = es" "unat (CursorLBA s) = 0" by (simp_all add: s)
    have "covered_by (fast_successes oks s) \<subseteq> {n. unk es n}"
      using fast_run(1) [OF inv t(1)] unfolding e by simp
    moreover have "if unk es n \<and> n \<notin> covered_by (fast_successes oks s)
       then lost (extent_at es n) (extent_at (FPExtents t) n)
       else extent_at (FPExtents t) n = extent_at es n"
      using fast_run(2) [OF inv t(1), of n] unfolding e by simp
    ultimately show ?thesis by (auto split: if_split_asm)
  qed
  ultimately show ?thesis using t(1) by blast
qed

theorem fast_pass_accounts_for_unknown_witness:
  "\<exists>t. drive fast_round (replicate 30 False) \<lparr>FPExtents = [plain_extent 0 6 0 0 0, plain_extent 6 2 2 1 1],
     CursorLBA = 0, ClusterSize = 4, SkipAfterFailure = 256, FPMode = FastCluster, ClusterBoundary = 0,
     FPActive = None, CheckpointActive = False\<rparr> = Inr (Some t)"
proof -
  let ?es = "[plain_extent 0 6 0 0 0, plain_extent 6 2 2 1 1]"
  let ?s = "\<lparr>FPExtents = ?es, CursorLBA = 0, ClusterSize = 4, SkipAfterFailure = 256, FPMode = FastCluster,
     ClusterBoundary = 0, FPActive = None, CheckpointActive = False\<rparr>"
  have s: "StartFastPass ?es 4 = Inr ?s" by code_simp
  have "\<forall>e \<in> set ?es. endN e \<le> 8" "(8 :: nat) < 4294967296" "2 * 8 + 2 < length (replicate 30 False)"
    by (simp_all add: plain_extent_def)
  from fast_pass_accounts_for_unknown [OF s this] show ?thesis by blast
qed

end
