(* ===== verification/AdaptivePass.thy ===== *)
theory AdaptivePass
  imports Passes
begin

text \<open>
  The adaptive pass (\<^verbatim>\<open>internal/recovery/adaptive_pass.go\<close>): a queue of unresolved
  extents, largest first, that are probed by reading one half, halved, and handed to the scrape pass
  once they are smaller than a threshold or halved often enough.
\<close>

section \<open>Definitions\<close>

definition defaultAdaptiveThreshold :: u32 where "defaultAdaptiveThreshold = 32"

datatype AdaptivePassMode = AdaptiveProbe | AdaptiveDone | AdaptiveOther string

datatype AdaptiveProbeDirection = LeftFirst | RightFirst | DirectionOther string

record AdaptiveCandidate =
  CandExtent :: Extent
  SplitDepth :: u16
  HeadDistance :: u64

datatype AdaptivePassDecision =
    AdaptiveRead Request AdaptiveProbeDirection
  | AdaptiveWaitBackpressure
  | AdaptiveDeferToScrape Extent
  | AdaptiveDecisionDone

record AdaptivePassState =
  Queue :: "AdaptiveCandidate list"
  Threshold :: u32
  MaxSplitDepth :: u16
  HeadPosition :: u64
  AdMode :: AdaptivePassMode
  NextDirection :: AdaptiveProbeDirection
  AdActiveRequest :: "Request option"
  ActiveDeferred :: "Extent option"
  ActiveDirection :: AdaptiveProbeDirection
  ActiveCandidate :: "AdaptiveCandidate option"
  DeferredToScrape :: "Extent list"

record AdaptivePassOutcome =
  AdOutcomeRequest :: Request
  AdSuccess :: bool

text \<open>
  The order of the queue: the comparison of \<^verbatim>\<open>sortAdaptiveQueue\<close> on the four values it
  looks at. It is a linear order, so that the library's sorting applies to it.
\<close>

datatype queue_key = QueueKey (key_sectors: u32) (key_attempts: u16) (key_distance: u64) (key_start: u64)

definition queue_before :: "queue_key \<Rightarrow> queue_key \<Rightarrow> bool" where
  "queue_before left right =
     (if key_sectors left \<noteq> key_sectors right then key_sectors left > key_sectors right
      else if key_attempts left \<noteq> key_attempts right then key_attempts left < key_attempts right
      else if key_distance left \<noteq> key_distance right then key_distance left < key_distance right
      else key_start left < key_start right)"

instantiation queue_key :: linorder
begin

definition less_queue_key :: "queue_key \<Rightarrow> queue_key \<Rightarrow> bool" where
  "less_queue_key left right = queue_before left right"

definition less_eq_queue_key :: "queue_key \<Rightarrow> queue_key \<Rightarrow> bool" where
  "less_eq_queue_key left right = (left = right \<or> left < right)"

instance
proof
  fix x y z :: queue_key
  show "x < y \<longleftrightarrow> x \<le> y \<and> \<not> y \<le> x"
    by (cases x; cases y) (auto simp: less_queue_key_def queue_before_def less_eq_queue_key_def split: if_splits)
  show "x \<le> x" by (simp add: less_eq_queue_key_def)
  show "x \<le> y \<Longrightarrow> y \<le> z \<Longrightarrow> x \<le> z"
    by (cases x; cases y; cases z) (auto simp: less_queue_key_def queue_before_def less_eq_queue_key_def split: if_splits)
  show "x \<le> y \<Longrightarrow> y \<le> x \<Longrightarrow> x = y"
    by (cases x; cases y) (auto simp: less_queue_key_def queue_before_def less_eq_queue_key_def split: if_splits)
  show "x \<le> y \<or> y \<le> x"
    by (cases x; cases y) (auto simp: less_queue_key_def queue_before_def less_eq_queue_key_def split: if_splits)
qed

end

definition candidate_key :: "AdaptiveCandidate \<Rightarrow> queue_key" where
  "candidate_key c = QueueKey (Sectors (CandExtent c)) (Attempts (CandExtent c)) (HeadDistance c) (StartLBA (CandExtent c))"

definition sortAdaptiveQueue :: "AdaptiveCandidate list \<Rightarrow> AdaptiveCandidate list" where
  "sortAdaptiveQueue queue = sort_key candidate_key queue"

definition distanceToHead :: "Extent \<Rightarrow> u64 \<Rightarrow> u64" where
  "distanceToHead e head =
     (if head < StartLBA e then StartLBA e - head
      else if head \<ge> EndLBA e then head - EndLBA e + 1
      else 0)"

definition refreshAdaptiveHeadDistances :: "AdaptiveCandidate list \<Rightarrow> u64 \<Rightarrow> AdaptiveCandidate list" where
  "refreshAdaptiveHeadDistances queue head = map (\<lambda>c. c\<lparr>HeadDistance := distanceToHead (CandExtent c) head\<rparr>) queue"

definition alternateAdaptiveDirection :: "AdaptiveProbeDirection \<Rightarrow> AdaptiveProbeDirection" where
  "alternateAdaptiveDirection d = (if d = RightFirst then LeftFirst else RightFirst)"

definition schedulableAdaptiveState :: "SectorState \<Rightarrow> bool" where
  "schedulableAdaptiveState s \<longleftrightarrow>
     s \<in> {SectorStateUnknown, SectorStateSkipped, SectorStateIOError, SectorStateMissing, SectorStateChecksumError}"

definition StartAdaptivePass :: "Extent list \<Rightarrow> u32 \<Rightarrow> u16 \<Rightarrow> u64 \<Rightarrow> AdaptivePassState result" where
  "StartAdaptivePass es threshold maxSplitDepth headPosition =
     (case ValidateExtentSet es of Some er \<Rightarrow> Inl er | None \<Rightarrow>
      if threshold = 0 then Inl (Errorf ''start adaptive pass: threshold must be greater than zero'')
      else if maxSplitDepth = 0 then Inl (Errorf ''start adaptive pass: max split depth must be greater than zero'')
      else Inr \<lparr>Queue = sortAdaptiveQueue (map (\<lambda>e. \<lparr>CandExtent = e, SplitDepth = 0,
                           HeadDistance = distanceToHead e headPosition\<rparr>)
                         (filter (\<lambda>e. schedulableAdaptiveState (State e)) es)),
                Threshold = threshold, MaxSplitDepth = maxSplitDepth, HeadPosition = headPosition,
                AdMode = AdaptiveProbe, NextDirection = LeftFirst, AdActiveRequest = None,
                ActiveDeferred = None, ActiveDirection = DirectionOther '''', ActiveCandidate = None,
                DeferredToScrape = []\<rparr>)"

definition splitAdaptiveCandidate :: "AdaptiveCandidate \<Rightarrow> (AdaptiveCandidate \<times> AdaptiveCandidate) result" where
  "splitAdaptiveCandidate c =
     (case SplitExtent (CandExtent c) (StartLBA (CandExtent c) + ucast (Sectors (CandExtent c) div 2)) of
        Inl er \<Rightarrow> Inl er
      | Inr (left, right) \<Rightarrow>
          Inr (\<lparr>CandExtent = left, SplitDepth = SplitDepth c + 1, HeadDistance = HeadDistance c\<rparr>,
               \<lparr>CandExtent = right, SplitDepth = SplitDepth c + 1, HeadDistance = HeadDistance c\<rparr>))"

text \<open>\<^verbatim>\<open>orderAdaptiveChildren\<close>, which is only called with the two halves of a split.\<close>

definition orderAdaptiveChildren ::
  "AdaptiveCandidate \<times> AdaptiveCandidate \<Rightarrow> AdaptiveProbeDirection \<Rightarrow> AdaptiveCandidate \<times> AdaptiveCandidate" where
  "orderAdaptiveChildren children d =
     (if d = RightFirst then (snd children, fst children) else (fst children, snd children))"

definition buildAdaptiveProbe ::
  "AdaptiveCandidate \<Rightarrow> AdaptiveProbeDirection \<Rightarrow> (Request \<times> AdaptiveProbeDirection) result" where
  "buildAdaptiveProbe c d =
     (case splitAdaptiveCandidate c of Inl er \<Rightarrow> Inl er
      | Inr children \<Rightarrow>
          let first = fst (orderAdaptiveChildren children d)
          in Inr (AdaptivePass (StartLBA (CandExtent first)) (Sectors (CandExtent first)), d))"

text \<open>
  The code refreshes and sorts the queue in place; the sorted queue is what a state that is
  returned after that point holds.
\<close>

definition DispatchAdaptivePass ::
  "AdaptivePassState \<Rightarrow> bool \<Rightarrow> (AdaptivePassState \<times> AdaptivePassDecision) result" where
  "DispatchAdaptivePass s writerAvailable =
     (if Threshold s = 0 then Inl (Errorf ''dispatch adaptive pass: threshold must be greater than zero'')
      else if MaxSplitDepth s = 0 then Inl (Errorf ''dispatch adaptive pass: max split depth must be greater than zero'')
      else if AdActiveRequest s \<noteq> None \<or> ActiveDeferred s \<noteq> None \<or> ActiveCandidate s \<noteq> None
      then Inl (Errorf ''dispatch adaptive pass: previous action is still active'')
      else if AdMode s = AdaptiveDone then Inr (s, AdaptiveDecisionDone)
      else if \<not> writerAvailable then Inr (s, AdaptiveWaitBackpressure)
      else case sortAdaptiveQueue (refreshAdaptiveHeadDistances (Queue s) (HeadPosition s)) of
        [] \<Rightarrow> Inr (s\<lparr>AdMode := AdaptiveDone\<rparr>, AdaptiveDecisionDone)
      | candidate # remaining \<Rightarrow>
          if Sectors (CandExtent candidate) < Threshold s \<or> SplitDepth candidate \<ge> MaxSplitDepth s then
            Inr (s\<lparr>Queue := remaining, ActiveDeferred := Some (CandExtent candidate),
                   ActiveCandidate := Some candidate\<rparr>, AdaptiveDeferToScrape (CandExtent candidate))
          else case buildAdaptiveProbe candidate (NextDirection s) of
            Inl er \<Rightarrow> Inl er
          | Inr (request, direction) \<Rightarrow>
              Inr (s\<lparr>Queue := remaining, AdActiveRequest := Some request,
                     ActiveCandidate := Some candidate, ActiveDirection := direction\<rparr>,
                   AdaptiveRead request direction))"

definition attempted :: "AdaptiveCandidate \<Rightarrow> AdaptiveCandidate" where
  "attempted c = c\<lparr>CandExtent := (CandExtent c)\<lparr>Attempts := Attempts (CandExtent c) + 1\<rparr>\<rparr>"

definition ResolveAdaptivePass :: "AdaptivePassState \<Rightarrow> AdaptivePassOutcome \<Rightarrow> AdaptivePassState result" where
  "ResolveAdaptivePass s outcome =
     (case ActiveDeferred s of
        Some d \<Rightarrow>
          if (case ActiveCandidate s of None \<Rightarrow> True | Some c \<Rightarrow> d \<noteq> CandExtent c)
          then Inl (Errorf ''resolve adaptive pass: active deferred extent does not match active candidate'')
          else Inr (s\<lparr>DeferredToScrape := DeferredToScrape s @ [d], ActiveDeferred := None,
                      ActiveCandidate := None,
                      AdMode := (if Queue s = [] then AdaptiveDone else AdMode s)\<rparr>)
      | None \<Rightarrow>
          (case (AdActiveRequest s, ActiveCandidate s) of
             (Some request, Some candidate) \<Rightarrow>
               if AdOutcomeRequest outcome \<noteq> request
               then Inl (Errorf ''resolve adaptive pass: request does not match active'')
               else (case splitAdaptiveCandidate candidate of Inl er \<Rightarrow> Inl er
                | Inr children \<Rightarrow>
                    let added = (if AdSuccess outcome
                          then (case orderAdaptiveChildren children (ActiveDirection s) of
                                  (successful, remaining) \<Rightarrow> [attempted remaining, attempted successful])
                          else [attempted (fst children), attempted (snd children)]);
                        queue = sortAdaptiveQueue (Queue s @ added)
                    in Inr (s\<lparr>AdActiveRequest := None, ActiveCandidate := None,
                              NextDirection := alternateAdaptiveDirection (ActiveDirection s),
                              HeadPosition := ReqLBA (AdOutcomeRequest outcome), Queue := queue,
                              AdMode := (if queue = [] then AdaptiveDone else AdMode s)\<rparr>))
           | _ \<Rightarrow> Inl (Errorf ''resolve adaptive pass: no active request'')))"

text \<open>One round: dispatch with room in the writer, and the device's answer.\<close>

definition adaptive_round :: "AdaptivePassState round" where
  "adaptive_round s ok =
     (case DispatchAdaptivePass s True of
        Inl er \<Rightarrow> Inl er
      | Inr (s1, AdaptiveRead r d) \<Rightarrow>
          map_sum id Some (ResolveAdaptivePass s1 \<lparr>AdOutcomeRequest = r, AdSuccess = ok\<rparr>)
      | Inr (s1, AdaptiveDeferToScrape e) \<Rightarrow>
          map_sum id Some (ResolveAdaptivePass s1 \<lparr>AdOutcomeRequest = AdaptivePass 0 0, AdSuccess = ok\<rparr>)
      | Inr (s1, _) \<Rightarrow> Inr None)"

section \<open>What stays the same\<close>

text \<open>
  The extents that cover a sector, without their positions and attempts: what is recorded of it in
  the queue and the deferred list together.
\<close>

definition cov :: "Extent list \<Rightarrow> nat \<Rightarrow> Extent multiset" where
  "cov es n = mset (map (\<lambda>e. (body e)\<lparr>Attempts := 0\<rparr>) (filter (\<lambda>e. covers e n) es))"

lemma cov_simps [simp]: "cov [] n = {#}"
  "cov (e # es) n = (if covers e n then {#(body e)\<lparr>Attempts := 0\<rparr>#} else {#}) + cov es n"
  "cov (xs @ ys) n = cov xs n + cov ys n"
  by (simp_all add: cov_def)

lemma cov_mset: "mset xs = mset ys \<Longrightarrow> cov xs n = cov ys n"
  by (simp add: cov_def)

lemma cov_at_most_one: "wf_extents es \<Longrightarrow> size (cov es n) \<le> 1"
proof (induction es)
  case (Cons e es)
  have "cov es n = {#}" if "covers e n"
  proof -
    have "\<not> covers x n" if "x \<in> set es" for x
      using Cons.prems that \<open>covers e n\<close> by (fastforce simp: covers_def)
    then show ?thesis by (simp add: cov_def filter_empty_conv)
  qed
  with Cons show ?case by simp
qed simp

lemma cov_distinct:
  "\<forall>e \<in> set es. extent_valid e \<Longrightarrow> \<forall>n. size (cov es n) \<le> 1 \<Longrightarrow> distinct (map StartLBA es)"
proof (induction es)
  case (Cons e es)
  have le: "size (cov es n) \<le> 1" for n
  proof -
    have "size (cov es n) \<le> size (cov (e # es) n)" by simp
    with Cons.prems(2) show ?thesis by (metis le_trans)
  qed
  have "StartLBA e \<noteq> StartLBA x" if x: "x \<in> set es" for x
  proof
    assume eq: "StartLBA e = StartLBA x"
    have "covers e (startN e)" "covers x (startN e)"
      using eq x Cons.prems(1) extent_valid_pos [of e] extent_valid_pos [of x] by (auto simp: covers_def)
    moreover from this(2) x have "cov es (startN e) \<noteq> {#}"
      by (auto simp: cov_def filter_empty_conv)
    ultimately have "size (cov (e # es) (startN e)) \<ge> 2"
      by (simp add: Suc_le_eq nonempty_has_size)
    with Cons.prems(2) show False by (metis Suc_1 not_less_eq_eq)
  qed
  with Cons le show ?case by auto
qed simp

lemma SplitExtent_facts:
  assumes "SplitExtent e k = Inr (l, r)"
  shows "extent_valid l" "extent_valid r" "cov [l, r] n = cov [e] n"
    "unat (Sectors l) + unat (Sectors r) = unat (Sectors e)"
  using SplitExtent_Inr [OF assms] by (auto simp: covers_def)

section \<open>Invariant and rank\<close>

abbreviation tracked :: "AdaptivePassState \<Rightarrow> Extent list" where
  "tracked s \<equiv> map CandExtent (Queue s) @ DeferredToScrape s"

definition adaptive_inv :: "(nat \<Rightarrow> Extent multiset) \<Rightarrow> AdaptivePassState \<Rightarrow> bool" where
  "adaptive_inv C s \<longleftrightarrow> 2 \<le> unat (Threshold s) \<and> MaxSplitDepth s \<noteq> 0 \<and> AdActiveRequest s = None \<and>
     ActiveDeferred s = None \<and> ActiveCandidate s = None \<and> AdMode s \<in> {AdaptiveProbe, AdaptiveDone} \<and>
     (AdMode s = AdaptiveDone \<longrightarrow> Queue s = []) \<and> (\<forall>e \<in> set (tracked s). extent_valid e) \<and>
     (\<forall>n. cov (tracked s) n = C n) \<and> (\<forall>n. size (C n) \<le> 1)"

definition adaptive_rank :: "AdaptivePassState \<Rightarrow> nat" where
  "adaptive_rank s = (\<Sum>c \<leftarrow> Queue s. 2 * unat (Sectors (CandExtent c)) - 1)"

lemma sum_list_mset_eq: "mset (map f xs) = mset (map f ys) \<Longrightarrow> sum_list (map (\<lambda>x. g (f x)) xs) = sum_list (map (\<lambda>x. g (f x)) ys :: nat list)"
proof -
  assume "mset (map f xs) = mset (map f ys)"
  then have "mset (map g (map f xs)) = mset (map g (map f ys))" by (metis mset_map)
  then have "sum_mset (mset (map (\<lambda>x. g (f x)) xs)) = sum_mset (mset (map (\<lambda>x. g (f x)) ys))"
    by (simp add: comp_def)
  then show ?thesis by (simp only: sum_mset_sum_list)
qed

lemma sortAdaptiveQueue_mset [simp]: "mset (sortAdaptiveQueue q) = mset q" "set (sortAdaptiveQueue q) = set q"
  "sortAdaptiveQueue q = [] \<longleftrightarrow> q = []"
proof -
  show m: "mset (sortAdaptiveQueue q) = mset q" "set (sortAdaptiveQueue q) = set q"
    by (simp_all add: sortAdaptiveQueue_def)
  show "sortAdaptiveQueue q = [] \<longleftrightarrow> q = []" by (metis m(1) mset_zero_iff)
qed

lemma refreshed_mset:
  "mset (map CandExtent (sortAdaptiveQueue (refreshAdaptiveHeadDistances q h))) = mset (map CandExtent q)"
proof -
  have "map CandExtent (refreshAdaptiveHeadDistances q h) = map CandExtent q"
    by (simp add: refreshAdaptiveHeadDistances_def comp_def)
  then show ?thesis by (metis mset_map sortAdaptiveQueue_mset(1))
qed

lemma splitAdaptiveCandidate_Inr:
  assumes "splitAdaptiveCandidate c = Inr (l, r)"
  shows "SplitExtent (CandExtent c) (StartLBA (CandExtent c) + ucast (Sectors (CandExtent c) div 2)) =
     Inr (CandExtent l, CandExtent r)"
  using assms by (auto simp: splitAdaptiveCandidate_def split: sum.splits)

lemma splitAdaptiveCandidate_total:
  assumes v: "extent_valid (CandExtent c)" and n: "2 \<le> unat (Sectors (CandExtent c))"
  shows "\<exists>l r. splitAdaptiveCandidate c = Inr (l, r)"
proof -
  let ?e = "CandExtent c" and ?m = "StartLBA (CandExtent c) + ucast (Sectors (CandExtent c) div 2)"
  have h: "unat (Sectors ?e div 2) = unat (Sectors ?e) div 2" by (simp add: unat_div)
  have le: "endN ?e < 18446744073709551616" using v by (simp add: extent_valid_iff)
  have "unat ?m = startN ?e + unat (ucast (Sectors ?e div 2) :: u64)"
    by (subst unat_add_le) (use le h in simp_all)
  then have m: "unat ?m = startN ?e + unat (Sectors ?e) div 2" by (simp add: h)
  have "\<not> (?m \<le> StartLBA ?e \<or> ?m \<ge> EndLBA ?e)"
    using n v by (simp add: word_le_nat_alt m not_le)
  then have "\<exists>l r. SplitExtent ?e ?m = Inr (l, r)" using v by (simp add: SplitExtent_def)
  then show ?thesis by (auto simp: splitAdaptiveCandidate_def)
qed

lemma attempted_simps [simp]: "StartLBA (CandExtent (attempted c)) = StartLBA (CandExtent c)"
  "Sectors (CandExtent (attempted c)) = Sectors (CandExtent c)"
  "extent_valid (CandExtent (attempted c)) = extent_valid (CandExtent c)"
  by (simp_all add: attempted_def extent_valid_iff)

lemma cov_attempted: "cov (CandExtent (attempted c) # es) n = cov (CandExtent c # es) n"
  by (simp add: attempted_def covers_def body_def)

text \<open>The two children a resolved probe adds, in the order of either answer.\<close>

definition added :: "bool \<Rightarrow> AdaptiveProbeDirection \<Rightarrow> AdaptiveCandidate \<times> AdaptiveCandidate \<Rightarrow> AdaptiveCandidate list" where
  "added ok d children = (if ok
     then (case orderAdaptiveChildren children d of (successful, remaining) \<Rightarrow> [attempted remaining, attempted successful])
     else [attempted (fst children), attempted (snd children)])"

lemma added_mset: "mset (added ok d (l, r)) = {#attempted l, attempted r#}"
  by (simp add: added_def orderAdaptiveChildren_def add_mset_commute)

lemma adaptive_probe_round:
  assumes inv: "adaptive_inv C s" and m: "AdMode s = AdaptiveProbe"
    and q: "sortAdaptiveQueue (refreshAdaptiveHeadDistances (Queue s) (HeadPosition s)) = c # rest"
    and big: "\<not> (Sectors (CandExtent c) < Threshold s \<or> SplitDepth c \<ge> MaxSplitDepth s)"
  obtains l r where "splitAdaptiveCandidate c = Inr (l, r)"
    "\<And>ok. adaptive_round s ok = Inr (Some (s\<lparr>Queue := sortAdaptiveQueue (rest @ added ok (NextDirection s) (l, r)),
       ActiveDirection := NextDirection s, NextDirection := alternateAdaptiveDirection (NextDirection s),
       HeadPosition := StartLBA (CandExtent (fst (orderAdaptiveChildren (l, r) (NextDirection s))))\<rparr>))"
proof -
  have "CandExtent c \<in> set (map CandExtent (Queue s))"
    using refreshed_mset [of "Queue s" "HeadPosition s"] q by (metis list.set_intros(1) list.simps(9) mset_eq_setD)
  then have v: "extent_valid (CandExtent c)" using inv by (auto simp: adaptive_inv_def)
  have "2 \<le> unat (Sectors (CandExtent c))"
    using big inv by (auto simp: adaptive_inv_def word_less_nat_alt not_less)
  with v obtain l r where lr: "splitAdaptiveCandidate c = Inr (l, r)" using splitAdaptiveCandidate_total by blast
  have ne: "rest @ added ok d (l, r) \<noteq> []" for ok d by (auto simp: added_def split: prod.splits)
  show ?thesis
  proof (rule that [OF lr])
    fix ok
    let ?f = "fst (orderAdaptiveChildren (l, r) (NextDirection s))"
    let ?r = "AdaptivePass (StartLBA (CandExtent ?f)) (Sectors (CandExtent ?f))"
    let ?s = "s\<lparr>Queue := rest, AdActiveRequest := Some ?r, ActiveCandidate := Some c, ActiveDirection := NextDirection s\<rparr>"
    have nb: "(Sectors (CandExtent c) < Threshold s \<or> SplitDepth c \<ge> MaxSplitDepth s) = False" using big by blast
    have b: "buildAdaptiveProbe c (NextDirection s) = Inr (?r, NextDirection s)"
      by (simp add: buildAdaptiveProbe_def lr Let_def)
    have t: "Threshold s \<noteq> 0" using inv by (auto simp: adaptive_inv_def)
    have "DispatchAdaptivePass s True = Inr (?s, AdaptiveRead ?r (NextDirection s))"
      unfolding DispatchAdaptivePass_def q list.case nb if_False b
      using inv m t by (simp add: adaptive_inv_def)
    then have "adaptive_round s ok = map_sum id Some (ResolveAdaptivePass ?s \<lparr>AdOutcomeRequest = ?r, AdSuccess = ok\<rparr>)"
      by (simp add: adaptive_round_def)
    also have "ResolveAdaptivePass ?s \<lparr>AdOutcomeRequest = ?r, AdSuccess = ok\<rparr> =
       Inr (s\<lparr>Queue := sortAdaptiveQueue (rest @ added ok (NextDirection s) (l, r)),
       ActiveDirection := NextDirection s, NextDirection := alternateAdaptiveDirection (NextDirection s),
       HeadPosition := StartLBA (CandExtent ?f)\<rparr>)"
      using inv m ne [of ok "NextDirection s"]
      by (cases s) (simp add: adaptive_inv_def ResolveAdaptivePass_def lr Let_def added_def AdaptivePass_def
          split: prod.splits)
    finally show "adaptive_round s ok = Inr (Some (s\<lparr>Queue := sortAdaptiveQueue (rest @ added ok (NextDirection s) (l, r)),
       ActiveDirection := NextDirection s, NextDirection := alternateAdaptiveDirection (NextDirection s),
       HeadPosition := StartLBA (CandExtent ?f)\<rparr>))" by simp
  qed
qed

lemma adaptive_defer_round:
  assumes inv: "adaptive_inv C s" and m: "AdMode s = AdaptiveProbe"
    and q: "sortAdaptiveQueue (refreshAdaptiveHeadDistances (Queue s) (HeadPosition s)) = c # rest"
    and small: "Sectors (CandExtent c) < Threshold s \<or> SplitDepth c \<ge> MaxSplitDepth s"
  shows "adaptive_round s ok = Inr (Some (s\<lparr>Queue := rest, DeferredToScrape := DeferredToScrape s @ [CandExtent c],
     AdMode := (if rest = [] then AdaptiveDone else AdaptiveProbe)\<rparr>))"
proof -
  let ?s = "s\<lparr>Queue := rest, ActiveDeferred := Some (CandExtent c), ActiveCandidate := Some c\<rparr>"
  have nb: "(Sectors (CandExtent c) < Threshold s \<or> SplitDepth c \<ge> MaxSplitDepth s) = True" using small by blast
  have t: "Threshold s \<noteq> 0" using inv by (auto simp: adaptive_inv_def)
  have "DispatchAdaptivePass s True = Inr (?s, AdaptiveDeferToScrape (CandExtent c))"
    unfolding DispatchAdaptivePass_def q list.case nb if_True using inv m t by (simp add: adaptive_inv_def)
  then show ?thesis
    using inv m by (cases s) (simp add: adaptive_round_def ResolveAdaptivePass_def adaptive_inv_def)
qed

lemma adaptive_empty_round:
  assumes "adaptive_inv C s" "Queue s = []"
  shows "adaptive_round s ok = Inr None"
  using assms by (auto simp: adaptive_round_def DispatchAdaptivePass_def adaptive_inv_def
      refreshAdaptiveHeadDistances_def sortAdaptiveQueue_def)

lemma queue_cases:
  assumes "adaptive_inv C s"
  obtains (empty) "Queue s = []"
    | (first) c rest where "AdMode s = AdaptiveProbe"
        "sortAdaptiveQueue (refreshAdaptiveHeadDistances (Queue s) (HeadPosition s)) = c # rest"
proof (cases "sortAdaptiveQueue (refreshAdaptiveHeadDistances (Queue s) (HeadPosition s))")
  case Nil
  then have "Queue s = []" by (simp add: refreshAdaptiveHeadDistances_def)
  then show ?thesis by (rule that(1))
next
  case (Cons c rest)
  then have "Queue s \<noteq> []" by (auto simp: refreshAdaptiveHeadDistances_def sortAdaptiveQueue_def)
  then have "AdMode s = AdaptiveProbe" using assms by (auto simp: adaptive_inv_def)
  with Cons show ?thesis by (intro that(2))
qed

text \<open>What the queue looks like when its first candidate is taken off.\<close>

lemma dequeued:
  assumes inv: "adaptive_inv C s"
    and q: "sortAdaptiveQueue (refreshAdaptiveHeadDistances (Queue s) (HeadPosition s)) = c # rest"
  shows "mset (tracked s) = mset (CandExtent c # map CandExtent rest @ DeferredToScrape s)"
    "\<forall>e \<in> set (CandExtent c # map CandExtent rest @ DeferredToScrape s). extent_valid e"
    "cov (CandExtent c # map CandExtent rest @ DeferredToScrape s) n = C n"
    "adaptive_rank s = 2 * unat (Sectors (CandExtent c)) - 1 + (\<Sum>c \<leftarrow> rest. 2 * unat (Sectors (CandExtent c)) - 1)"
proof -
  have q': "mset (map CandExtent (Queue s)) = mset (map CandExtent (c # rest))"
    using refreshed_mset [of "Queue s" "HeadPosition s"] q by simp
  show m: "mset (tracked s) = mset (CandExtent c # map CandExtent rest @ DeferredToScrape s)"
    using q' by simp
  then have "set (tracked s) = set (CandExtent c # map CandExtent rest @ DeferredToScrape s)"
    by (rule mset_eq_setD)
  then show "\<forall>e \<in> set (CandExtent c # map CandExtent rest @ DeferredToScrape s). extent_valid e"
    using inv unfolding adaptive_inv_def by metis
  show "cov (CandExtent c # map CandExtent rest @ DeferredToScrape s) n = C n"
    using inv cov_mset [OF m] unfolding adaptive_inv_def by metis
  show "adaptive_rank s = 2 * unat (Sectors (CandExtent c)) - 1 + (\<Sum>c \<leftarrow> rest. 2 * unat (Sectors (CandExtent c)) - 1)"
    using sum_list_mset_eq [OF q', of "\<lambda>e. 2 * unat (Sectors e) - 1"] by (simp add: adaptive_rank_def)
qed

lemma adaptive_step:
  assumes inv: "adaptive_inv C s"
  shows "adaptive_round s ok = Inr None \<and> Queue s = [] \<or>
    (\<exists>t. adaptive_round s ok = Inr (Some t) \<and> adaptive_inv C t \<and> adaptive_rank t < adaptive_rank s)"
  using inv
proof (cases rule: queue_cases)
  case empty
  with adaptive_empty_round [OF inv] show ?thesis by simp
next
  case (first c rest)
  note deq = dequeued [OF inv first(2)]
  have vc: "0 < unat (Sectors (CandExtent c))" using deq(2) by (simp add: extent_valid_iff)
  show ?thesis
  proof (cases "Sectors (CandExtent c) < Threshold s \<or> SplitDepth c \<ge> MaxSplitDepth s")
    case True
    let ?t = "s\<lparr>Queue := rest, DeferredToScrape := DeferredToScrape s @ [CandExtent c],
       AdMode := (if rest = [] then AdaptiveDone else AdaptiveProbe)\<rparr>"
    have "mset (tracked ?t) = mset (CandExtent c # map CandExtent rest @ DeferredToScrape s)" by simp
    from cov_mset [OF this] mset_eq_setD [OF this] deq(2,3) have
      "\<forall>e \<in> set (tracked ?t). extent_valid e" "\<forall>n. cov (tracked ?t) n = C n" by metis+
    then have "adaptive_inv C ?t" using inv by (simp add: adaptive_inv_def)
    moreover have "adaptive_rank ?t < adaptive_rank s" using deq(4) vc by (simp add: adaptive_rank_def)
    ultimately show ?thesis using adaptive_defer_round [OF inv first True] by blast
  next
    case False
    from adaptive_probe_round [OF inv first False] obtain l r where lr: "splitAdaptiveCandidate c = Inr (l, r)"
      and round: "adaptive_round s ok = Inr (Some (s\<lparr>Queue := sortAdaptiveQueue (rest @ added ok (NextDirection s) (l, r)),
       ActiveDirection := NextDirection s, NextDirection := alternateAdaptiveDirection (NextDirection s),
       HeadPosition := StartLBA (CandExtent (fst (orderAdaptiveChildren (l, r) (NextDirection s))))\<rparr>))" by blast
    note sp = SplitExtent_facts [OF splitAdaptiveCandidate_Inr [OF lr]]
    let ?t = "s\<lparr>Queue := sortAdaptiveQueue (rest @ added ok (NextDirection s) (l, r)),
       ActiveDirection := NextDirection s, NextDirection := alternateAdaptiveDirection (NextDirection s),
       HeadPosition := StartLBA (CandExtent (fst (orderAdaptiveChildren (l, r) (NextDirection s))))\<rparr>"
    have mq: "mset (map CandExtent (Queue ?t)) =
        mset (CandExtent (attempted l) # CandExtent (attempted r) # map CandExtent rest)"
      by (simp add: added_mset)
    then have mt: "mset (tracked ?t) =
        mset (CandExtent (attempted l) # CandExtent (attempted r) # map CandExtent rest @ DeferredToScrape s)"
      by simp
    have "\<forall>e \<in> set (tracked ?t). extent_valid e"
      using mset_eq_setD [OF mt] sp(1,2) deq(2) by simp
    moreover have "cov (tracked ?t) n = C n" for n
    proof -
      have "cov (tracked ?t) n = cov [CandExtent (attempted l)] n + cov [CandExtent (attempted r)] n +
          cov (map CandExtent rest @ DeferredToScrape s) n"
        using cov_mset [OF mt, of n] by simp
      also have "\<dots> = cov [CandExtent l, CandExtent r] n + cov (map CandExtent rest @ DeferredToScrape s) n"
        unfolding cov_attempted by simp
      also have "\<dots> = C n" using sp(3) [of n] deq(3) [of n] by simp
      finally show ?thesis .
    qed
    ultimately have "adaptive_inv C ?t" using inv first(1) by (simp add: adaptive_inv_def)
    moreover have "adaptive_rank ?t < adaptive_rank s"
    proof -
      have "0 < unat (Sectors (CandExtent l))" "0 < unat (Sectors (CandExtent r))"
        using sp(1,2) by (simp_all add: extent_valid_iff)
      moreover have "adaptive_rank ?t = 2 * unat (Sectors (CandExtent l)) - 1 + (2 * unat (Sectors (CandExtent r)) - 1) +
          (\<Sum>c \<leftarrow> rest. 2 * unat (Sectors (CandExtent c)) - 1)"
        using sum_list_mset_eq [where f = CandExtent and g = "\<lambda>e. 2 * unat (Sectors e) - 1"
            and xs = "Queue ?t" and ys = "attempted l # attempted r # rest"] mq
        by (simp add: adaptive_rank_def)
      ultimately show ?thesis using deq(4) sp(4) by linarith
    qed
    ultimately show ?thesis using round by blast
  qed
qed

interpretation adaptive: pass_machine adaptive_round "adaptive_inv C" adaptive_rank for C
proof
  fix s b assume "adaptive_inv C s"
  from adaptive_step [OF this, of b] show "\<exists>r. adaptive_round s b = Inr r" by auto
next
  fix s b t assume "adaptive_inv C s" "adaptive_round s b = Inr (Some t)"
  with adaptive_step [of C s b] show "adaptive_inv C t" "adaptive_rank t < adaptive_rank s" by auto
qed

section \<open>Properties\<close>

lemma StartAdaptivePass_inv:
  assumes "StartAdaptivePass es threshold maxSplitDepth headPosition = Inr s" "2 \<le> unat threshold"
  defines "targets \<equiv> filter (\<lambda>e. schedulableAdaptiveState (State e)) es"
  shows "adaptive_inv (cov targets) s" "adaptive_rank s \<le> 2 * (\<Sum>e \<leftarrow> targets. unat (Sectors e))"
proof -
  let ?c = "\<lambda>e. \<lparr>CandExtent = e, SplitDepth = 0, HeadDistance = distanceToHead e headPosition\<rparr> :: AdaptiveCandidate"
  have w: "wf_extents es" and d: "maxSplitDepth \<noteq> 0" and s: "Queue s = sortAdaptiveQueue (map ?c targets)"
    "Threshold s = threshold" "MaxSplitDepth s = maxSplitDepth" "AdMode s = AdaptiveProbe" "AdActiveRequest s = None"
    "ActiveDeferred s = None" "ActiveCandidate s = None" "DeferredToScrape s = []"
    using assms(1) by (auto simp: StartAdaptivePass_def targets_def ValidateExtentSet_iff split: option.splits if_splits)
  have "mset (map CandExtent (Queue s)) = mset (map CandExtent (map ?c targets))"
    by (simp only: s(1) mset_map sortAdaptiveQueue_mset(1))
  also have "map CandExtent (map ?c targets) = targets" by (simp add: comp_def)
  finally have m: "mset (map CandExtent (Queue s)) = mset targets" .
  have wt: "wf_extents targets" using w by (auto simp: wf_extents_def targets_def sorted_wrt_filter)
  then show "adaptive_inv (cov targets) s"
    using assms(2) d s m cov_mset [OF m] mset_eq_setD [OF m] cov_at_most_one [OF wt]
    by (auto simp: adaptive_inv_def wf_extents_def)
  have "adaptive_rank s = (\<Sum>e \<leftarrow> targets. 2 * unat (Sectors e) - 1)"
    using sum_list_mset_eq [where f = CandExtent and g = "\<lambda>e. 2 * unat (Sectors e) - 1" and xs = "Queue s"
        and ys = "map ?c targets"] m by (simp add: adaptive_rank_def comp_def)
  also have "\<dots> \<le> (\<Sum>e \<leftarrow> targets. 2 * unat (Sectors e))" by (rule sum_list_mono) simp
  finally show "adaptive_rank s \<le> 2 * (\<Sum>e \<leftarrow> targets. unat (Sectors e))" by (simp add: sum_list_const_mult)
qed

text \<open>
  An adaptive pass with a threshold of two sectors or more comes to its end and hands over
  everything. It never fails with an error, it needs at most two rounds per unresolved sector, and
  the extents it defers to the scrape pass cover every sector exactly as the unresolved extents it
  was started with: none is lost, none is covered twice, and only attempts change.
\<close>

theorem adaptive_pass_defers_all:
  assumes "StartAdaptivePass es threshold maxSplitDepth headPosition = Inr s" "2 \<le> unat threshold"
    and "2 * (\<Sum>e \<leftarrow> filter (\<lambda>e. schedulableAdaptiveState (State e)) es. unat (Sectors e)) < length oks"
  shows "\<exists>t. drive adaptive_round oks s = Inr (Some t) \<and> Queue t = [] \<and>
    (\<forall>e \<in> set (DeferredToScrape t). extent_valid e) \<and>
    (\<forall>n. cov (DeferredToScrape t) n = cov (filter (\<lambda>e. schedulableAdaptiveState (State e)) es) n)"
proof -
  note st = StartAdaptivePass_inv [OF assms(1,2)]
  have "adaptive_rank s < length oks" using st(2) assms(3) by linarith
  from adaptive.drive_ends [OF st(1) this] obtain t b where t: "drive adaptive_round oks s = Inr (Some t)"
    "adaptive_inv (cov (filter (\<lambda>e. schedulableAdaptiveState (State e)) es)) t" "adaptive_round t b = Inr None"
    by blast
  have "Queue t = []" using adaptive_step [OF t(2), of b] t(3) by auto
  with t show ?thesis by (auto simp: adaptive_inv_def)
qed

theorem adaptive_pass_defers_all_witness:
  "\<exists>s t. StartAdaptivePass [plain_extent 100 6 6 0 1, plain_extent 110 5 5 0 1] 2 3 0 = Inr s \<and>
     drive adaptive_round (replicate 30 True) s = Inr (Some t) \<and> Queue t = []"
proof -
  let ?es = "[plain_extent 100 6 6 0 1, plain_extent 110 5 5 0 1]"
  have "\<exists>s. StartAdaptivePass ?es 2 3 0 = Inr s"
    by (simp add: StartAdaptivePass_def ValidateExtentSet_def Extent_Validate_def CheckedEndLBA_def
        ValidateStateConfidence_def ValidateSectorState_def ValidateConfidence_def Overlaps_def EndLBA_def
        plain_extent_def)
  then obtain s where s: "StartAdaptivePass ?es 2 3 0 = Inr s" by blast
  have "2 \<le> unat (2 :: u32)"
    "2 * (\<Sum>e \<leftarrow> filter (\<lambda>e. schedulableAdaptiveState (State e)) ?es. unat (Sectors e)) < length (replicate 30 True)"
    by (simp_all add: plain_extent_def schedulableAdaptiveState_def)
  from adaptive_pass_defers_all [OF s this] s show ?thesis by blast
qed

lemma adaptive_round_answer:
  assumes inv: "adaptive_inv C s"
  shows "adaptive_round s ok = adaptive_round s ok'"
  using inv
proof (cases rule: queue_cases)
  case empty
  with adaptive_empty_round [OF inv] show ?thesis by simp
next
  case (first c rest)
  show ?thesis
  proof (cases "Sectors (CandExtent c) < Threshold s \<or> SplitDepth c \<ge> MaxSplitDepth s")
    case True
    from adaptive_defer_round [OF inv first this] show ?thesis by simp
  next
    case False
    from adaptive_probe_round [OF inv first False] obtain l r where
      round: "\<And>ok. adaptive_round s ok = Inr (Some (s\<lparr>Queue := sortAdaptiveQueue (rest @ added ok (NextDirection s) (l, r)),
       ActiveDirection := NextDirection s, NextDirection := alternateAdaptiveDirection (NextDirection s),
       HeadPosition := StartLBA (CandExtent (fst (orderAdaptiveChildren (l, r) (NextDirection s))))\<rparr>))" by blast
    let ?q = "\<lambda>ok. rest @ added ok (NextDirection s) (l, r)"
    have distinct: "distinct (map candidate_key (?q ok))" for ok
    proof -
      obtain t where t: "adaptive_round s ok = Inr (Some t)" "adaptive_inv C t"
        using adaptive_step [OF inv, of ok] round [of ok] by auto
      then have q: "Queue t = sortAdaptiveQueue (?q ok)" using round [of ok] by auto
      have le: "size (cov (map CandExtent (Queue t)) n) \<le> 1" for n
      proof -
        have "size (cov (tracked t) n) \<le> 1" using t(2) unfolding adaptive_inv_def by metis
        then show ?thesis by simp
      qed
      have "\<forall>e \<in> set (map CandExtent (Queue t)). extent_valid e" using t(2) by (simp add: adaptive_inv_def)
      from cov_distinct [OF this] le have "distinct (map StartLBA (map CandExtent (Queue t)))" by blast
      then have "distinct (map (\<lambda>c. key_start (candidate_key c)) (Queue t))"
        by (simp add: candidate_key_def comp_def)
      then have "distinct (map key_start (map candidate_key (Queue t)))" by (simp add: comp_def)
      then have "distinct (map candidate_key (Queue t))" unfolding distinct_map [of key_start] by blast
      then show ?thesis
        using q sortAdaptiveQueue_mset(1) [of "?q ok"] by (metis mset_map mset_eq_imp_distinct_iff)
    qed
    have "mset (sortAdaptiveQueue (?q ok')) = mset (?q ok)" by (simp add: added_mset)
    moreover have "sorted (map candidate_key (sortAdaptiveQueue (?q ok')))" by (simp add: sortAdaptiveQueue_def)
    ultimately have "sortAdaptiveQueue (?q ok) = sortAdaptiveQueue (?q ok')"
      using sort_key_unique [OF _ _ distinct] by (simp add: sortAdaptiveQueue_def)
    then show ?thesis unfolding round by simp
  qed
qed

text \<open>
  The adaptive pass does not use the answers of the device. Both halves of a probed extent go
  back into the queue whether the read succeeded or failed, so two runs of the same length from the
  same start end in the same state, all reads successful or all failed.
\<close>

theorem adaptive_answer_ignored:
  assumes "StartAdaptivePass es threshold maxSplitDepth headPosition = Inr s" "2 \<le> unat threshold"
    and "length oks = length oks'"
  shows "drive adaptive_round oks s = drive adaptive_round oks' s"
proof -
  have "drive adaptive_round xs s = drive adaptive_round ys s"
    if "length xs = length ys" "adaptive_inv C s" for xs ys C s
    using that
  proof (induction xs ys arbitrary: s rule: list_induct2)
    case (Cons x xs y ys)
    have e: "adaptive_round s x = adaptive_round s y" using adaptive_round_answer Cons.prems by blast
    show ?case
    proof (cases "adaptive_round s y")
      case (Inr r)
      then show ?thesis using e Cons.IH adaptive.keeps [OF Cons.prems] by (cases r) auto
    qed (use e in simp)
  qed simp
  with StartAdaptivePass_inv(1) [OF assms(1,2)] assms(3) show ?thesis by blast
qed

theorem adaptive_answer_ignored_witness:
  "\<exists>s. StartAdaptivePass [plain_extent 100 64 6 0 1] 32 3 0 = Inr s \<and>
     drive adaptive_round [True, True] s = drive adaptive_round [False, False] s"
proof -
  have "\<exists>s. StartAdaptivePass [plain_extent 100 64 6 0 1] 32 3 0 = Inr s"
    by (simp add: StartAdaptivePass_def ValidateExtentSet_def Extent_Validate_def CheckedEndLBA_def
        ValidateStateConfidence_def ValidateSectorState_def ValidateConfidence_def plain_extent_def)
  then obtain s where s: "StartAdaptivePass [plain_extent 100 64 6 0 1] 32 3 0 = Inr s" by blast
  have "2 \<le> unat (32 :: u32)" "length [True, True] = length [False, False]" by simp_all
  from adaptive_answer_ignored [OF s this] s show ?thesis by blast
qed

text \<open>
  With a threshold of one sector, which \<^verbatim>\<open>StartAdaptivePass\<close> accepts, a candidate of one
  sector cannot be halved, and every dispatch fails.
\<close>

lemma adaptive_threshold_one_stuck:
  "\<exists>s er. StartAdaptivePass [plain_extent 100 1 6 0 1] 1 3 0 = Inr s \<and> DispatchAdaptivePass s True = Inl er"
proof -
  have "\<exists>s. StartAdaptivePass [plain_extent 100 1 6 0 1] 1 3 0 = Inr s \<and>
      Queue s = [\<lparr>CandExtent = plain_extent 100 1 6 0 1, SplitDepth = 0, HeadDistance = 100\<rparr>] \<and> Threshold s = 1 \<and>
      MaxSplitDepth s = 3 \<and> HeadPosition s = 0 \<and> AdMode s = AdaptiveProbe \<and> AdActiveRequest s = None \<and>
      ActiveDeferred s = None \<and> ActiveCandidate s = None"
    by (simp add: StartAdaptivePass_def ValidateExtentSet_def Extent_Validate_def CheckedEndLBA_def
        ValidateStateConfidence_def ValidateSectorState_def ValidateConfidence_def plain_extent_def
        sortAdaptiveQueue_def schedulableAdaptiveState_def distanceToHead_def)
  then obtain s where s: "StartAdaptivePass [plain_extent 100 1 6 0 1] 1 3 0 = Inr s"
    "Queue s = [\<lparr>CandExtent = plain_extent 100 1 6 0 1, SplitDepth = 0, HeadDistance = 100\<rparr>]" "Threshold s = 1"
    "MaxSplitDepth s = 3" "HeadPosition s = 0" "AdMode s = AdaptiveProbe" "AdActiveRequest s = None"
    "ActiveDeferred s = None" "ActiveCandidate s = None" by blast
  have "\<exists>er. DispatchAdaptivePass s True = Inl er"
    by (simp add: DispatchAdaptivePass_def s refreshAdaptiveHeadDistances_def sortAdaptiveQueue_def plain_extent_def
        buildAdaptiveProbe_def splitAdaptiveCandidate_def SplitExtent_def Extent_Validate_def CheckedEndLBA_def
        ValidateStateConfidence_def ValidateSectorState_def ValidateConfidence_def split: sum.splits option.splits)
  with s show ?thesis by blast
qed

end
