(* ===== verification/ScrapePass.thy ===== *)
theory ScrapePass
  imports Passes
begin

text \<open>
  The scrape pass (\<^verbatim>\<open>internal/recovery/scrape_pass.go\<close>): every unresolved sector by
  itself, read in groups (twice at once, twice in reverse, twice at lower speed, once after
  reopening the device and once after a reset), with budgets for the delays, speed changes, reopens
  and resets in between.
\<close>

section \<open>Definitions\<close>

datatype ScrapeSpeedProfile = ScrapeSpeedAuto | ScrapeSpeedMinimum | SpeedOther string

datatype ScrapeReadGroup =
    GroupImmediate | GroupReverse | GroupLowerSpeed | GroupReopen | GroupReset | GroupOther string

datatype ScrapeDecisionKind =
    ScrapeRead | ScrapeDelay | ScrapeSetSpeed | ScrapeReopen | ScrapeReset | ScrapeWaitBackpressure
  | ScrapeDone | DecisionOther string

record ScrapeDecision =
  DecisionKind :: ScrapeDecisionKind
  DecisionRequest :: Request
  Reverse :: bool
  Speed :: ScrapeSpeedProfile
  SectorLBA :: u64

record ScrapeSector =
  LBA :: u64
  Group :: ScrapeReadGroup
  ReadsInGroup :: u8
  DelayPending :: bool
  SpeedPending :: bool
  ReopenPending :: bool
  ResetPending :: bool

record ScrapePassState =
  ScrapeQueue :: "ScrapeSector list"
  DelayBudget :: u16
  SpeedBudget :: u16
  ReopenBudget :: u16
  ResetBudget :: u16
  ResetEnabled :: bool
  SpeedSupported :: bool
  CurrentSpeed :: ScrapeSpeedProfile
  ActiveDecision :: "ScrapeDecision option"
  RecoveredSectors :: "u64 list"
  FailedSectors :: "u64 list"

record ScrapePassOutcome =
  OutcomeSectorLBA :: u64
  ScrapeSuccess :: bool

definition schedulableScrapeState :: "SectorState \<Rightarrow> bool" where
  "schedulableScrapeState s \<longleftrightarrow>
     s \<in> {SectorStateUnknown, SectorStateSkipped, SectorStateIOError, SectorStateMissing, SectorStateChecksumError}"

text \<open>The loop from \<^verbatim>\<open>StartLBA\<close> to \<^verbatim>\<open>EndLBA()\<close> of a validated extent.\<close>

definition sectors_of :: "Extent \<Rightarrow> u64 list" where
  "sectors_of e = map (\<lambda>i. StartLBA e + of_nat i) [0 ..< unat (EndLBA e - StartLBA e)]"

definition new_sector :: "u64 \<Rightarrow> ScrapeSector" where
  "new_sector lba = \<lparr>LBA = lba, Group = GroupImmediate, ReadsInGroup = 0, DelayPending = False,
     SpeedPending = False, ReopenPending = False, ResetPending = False\<rparr>"

definition StartScrapePass ::
  "Extent list \<Rightarrow> u16 \<Rightarrow> u16 \<Rightarrow> u16 \<Rightarrow> u16 \<Rightarrow> bool \<Rightarrow> bool \<Rightarrow> ScrapePassState result" where
  "StartScrapePass es delayBudget speedBudget reopenBudget resetBudget speedSupported resetEnabled =
     (case ValidateExtentSet es of Some er \<Rightarrow> Inl er
      | None \<Rightarrow> Inr \<lparr>ScrapeQueue = map new_sector (concat (map sectors_of (filter (\<lambda>e. schedulableScrapeState (State e)) es))),
          DelayBudget = delayBudget, SpeedBudget = speedBudget, ReopenBudget = reopenBudget,
          ResetBudget = resetBudget, ResetEnabled = resetEnabled, SpeedSupported = speedSupported,
          CurrentSpeed = ScrapeSpeedAuto, ActiveDecision = None, RecoveredSectors = [], FailedSectors = []\<rparr>)"

text \<open>A decision with the zero values of the fields it does not set.\<close>

definition decide :: "ScrapeDecisionKind \<Rightarrow> u64 \<Rightarrow> ScrapeDecision" where
  "decide kind lba = \<lparr>DecisionKind = kind, DecisionRequest = ScrapePass 0 0, Reverse = False,
     Speed = SpeedOther '''', SectorLBA = lba\<rparr>"

definition DispatchScrapePass :: "ScrapePassState \<Rightarrow> bool \<Rightarrow> (ScrapePassState \<times> ScrapeDecision) result" where
  "DispatchScrapePass s writerAvailable =
     (if ActiveDecision s \<noteq> None then Inl (Errorf ''dispatch scrape pass: previous action is still active'')
      else case ScrapeQueue s of
        [] \<Rightarrow> Inr (s, decide ScrapeDone 0)
      | sector # _ \<Rightarrow>
          if \<not> (DelayPending sector \<or> SpeedPending sector \<or> ReopenPending sector \<or> ResetPending sector) \<and>
             \<not> writerAvailable
          then Inr (s, decide ScrapeWaitBackpressure 0)
          else let decision =
              (if DelayPending sector then decide ScrapeDelay (LBA sector)
               else if SpeedPending sector then (decide ScrapeSetSpeed (LBA sector))\<lparr>Speed := ScrapeSpeedMinimum\<rparr>
               else if ReopenPending sector then decide ScrapeReopen (LBA sector)
               else if ResetPending sector then decide ScrapeReset (LBA sector)
               else (decide ScrapeRead (LBA sector))
                      \<lparr>DecisionRequest := ScrapePass (LBA sector) 1, Reverse := (Group sector = GroupReverse)\<rparr>)
            in Inr (s\<lparr>ActiveDecision := Some decision\<rparr>, decision))"

fun scrapeReadsPerGroup :: "ScrapeReadGroup \<Rightarrow> u8" where
  "scrapeReadsPerGroup GroupImmediate = 2"
| "scrapeReadsPerGroup GroupReverse = 2"
| "scrapeReadsPerGroup GroupLowerSpeed = 2"
| "scrapeReadsPerGroup GroupReopen = 1"
| "scrapeReadsPerGroup GroupReset = 1"
| "scrapeReadsPerGroup (GroupOther g) = 0"

definition advanceScrapeSector :: "ScrapeSector \<Rightarrow> ScrapePassState \<Rightarrow> ScrapeSector" where
  "advanceScrapeSector sec s =
     (let s1 = sec\<lparr>ReadsInGroup := ReadsInGroup sec + 1\<rparr> in
      if ReadsInGroup s1 < scrapeReadsPerGroup (Group s1) then
        (if DelayBudget s > 0 then s1\<lparr>DelayPending := True\<rparr> else s1)
      else
        let s2 = s1\<lparr>ReadsInGroup := 0, DelayPending := False\<rparr>;
            resetOr = (if ResetEnabled s \<and> ResetBudget s > 0 then s2\<lparr>Group := GroupReset, ResetPending := True\<rparr>
                       else s2\<lparr>Group := GroupOther ''''\<rparr>);
            reopenOr = (if ReopenBudget s > 0 then s2\<lparr>Group := GroupReopen, ReopenPending := True\<rparr> else resetOr)
        in case Group s2 of
             GroupImmediate \<Rightarrow> s2\<lparr>Group := GroupReverse\<rparr>
           | GroupReverse \<Rightarrow>
               (if SpeedSupported s \<and> SpeedBudget s > 0
                then s2\<lparr>Group := GroupLowerSpeed, SpeedPending := True\<rparr> else reopenOr)
           | GroupLowerSpeed \<Rightarrow> reopenOr
           | GroupReopen \<Rightarrow> resetOr
           | _ \<Rightarrow> s2\<lparr>Group := GroupOther ''''\<rparr>)"

definition ResolveScrapePass :: "ScrapePassState \<Rightarrow> ScrapePassOutcome \<Rightarrow> ScrapePassState result" where
  "ResolveScrapePass s outcome =
     (case ActiveDecision s of
        None \<Rightarrow> Inl (Errorf ''resolve scrape pass: no active action'')
      | Some decision \<Rightarrow>
      (case ScrapeQueue s of
        [] \<Rightarrow> Inl (Errorf ''resolve scrape pass: no queued sectors'')
      | sector # rest \<Rightarrow>
          if SectorLBA decision \<noteq> LBA sector
          then Inl (Errorf ''resolve scrape pass: active sector does not match queue head'')
          else if OutcomeSectorLBA outcome \<noteq> 0 \<and> OutcomeSectorLBA outcome \<noteq> LBA sector
          then Inl (Errorf ''resolve scrape pass: outcome sector does not match queue head'')
          else let next = s\<lparr>ActiveDecision := None, ScrapeQueue := rest\<rparr> in
          (case DecisionKind decision of
             ScrapeDelay \<Rightarrow>
               if DelayBudget s = 0 then Inl (Errorf ''resolve scrape pass: delay budget exhausted'')
               else Inr (next\<lparr>DelayBudget := DelayBudget s - 1,
                              ScrapeQueue := rest @ [sector\<lparr>DelayPending := False\<rparr>]\<rparr>)
           | ScrapeSetSpeed \<Rightarrow>
               if SpeedBudget s = 0 then Inl (Errorf ''resolve scrape pass: speed budget exhausted'')
               else Inr (next\<lparr>SpeedBudget := SpeedBudget s - 1, CurrentSpeed := Speed decision,
                              ScrapeQueue := rest @ [sector\<lparr>SpeedPending := False\<rparr>]\<rparr>)
           | ScrapeReopen \<Rightarrow>
               if ReopenBudget s = 0 then Inl (Errorf ''resolve scrape pass: reopen budget exhausted'')
               else Inr (next\<lparr>ReopenBudget := ReopenBudget s - 1,
                              ScrapeQueue := rest @ [sector\<lparr>ReopenPending := False\<rparr>]\<rparr>)
           | ScrapeReset \<Rightarrow>
               if ResetBudget s = 0 then Inl (Errorf ''resolve scrape pass: reset budget exhausted'')
               else Inr (next\<lparr>ResetBudget := ResetBudget s - 1,
                              ScrapeQueue := rest @ [sector\<lparr>ResetPending := False\<rparr>]\<rparr>)
           | ScrapeRead \<Rightarrow>
               if ScrapeSuccess outcome
               then Inr (next\<lparr>RecoveredSectors := RecoveredSectors s @ [LBA sector]\<rparr>)
               else let advanced = advanceScrapeSector sector next in
                 if Group advanced = GroupOther ''''
                 then Inr (next\<lparr>FailedSectors := FailedSectors s @ [SectorLBA decision]\<rparr>)
                 else Inr (next\<lparr>ScrapeQueue := rest @ [advanced]\<rparr>)
           | _ \<Rightarrow> Inl (Errorf ''resolve scrape pass: unsupported decision''))))"

text \<open>One round: dispatch with room in the writer, and its answer; what is not a read succeeds.\<close>

definition scrape_round :: "ScrapePassState round" where
  "scrape_round s ok =
     (case DispatchScrapePass s True of
        Inl er \<Rightarrow> Inl er
      | Inr (s1, d) \<Rightarrow>
          if DecisionKind d \<in> {ScrapeDone, ScrapeWaitBackpressure} then Inr None
          else map_sum id Some (ResolveScrapePass s1 \<lparr>OutcomeSectorLBA = SectorLBA d, ScrapeSuccess = ok\<rparr>))"

section \<open>Demand, invariant and rank\<close>

abbreviation reads :: "ScrapeSector \<Rightarrow> nat" where "reads sec \<equiv> unat (ReadsInGroup sec)"

text \<open>How many reads, delays, speed changes, reopens and resets a queued sector can still ask for.\<close>

definition reads_left :: "ScrapeSector \<Rightarrow> nat" where
  "reads_left sec = (case Group sec of
     GroupImmediate \<Rightarrow> 8 - reads sec | GroupReverse \<Rightarrow> 6 - reads sec | GroupLowerSpeed \<Rightarrow> 4 - reads sec
   | GroupReopen \<Rightarrow> 2 | GroupReset \<Rightarrow> 1 | _ \<Rightarrow> 0)"

definition delays :: "ScrapeSector \<Rightarrow> nat" where
  "delays sec = of_bool (DelayPending sec) + (case Group sec of
     GroupImmediate \<Rightarrow> 3 - reads sec | GroupReverse \<Rightarrow> 2 - reads sec | GroupLowerSpeed \<Rightarrow> 1 - reads sec | _ \<Rightarrow> 0)"

definition speeds :: "ScrapeSector \<Rightarrow> nat" where
  "speeds sec = of_bool (SpeedPending sec) + of_bool (Group sec \<in> {GroupImmediate, GroupReverse})"

definition reopens :: "ScrapeSector \<Rightarrow> nat" where
  "reopens sec = of_bool (ReopenPending sec) + of_bool (Group sec \<in> {GroupImmediate, GroupReverse, GroupLowerSpeed})"

definition resets :: "ScrapeSector \<Rightarrow> nat" where
  "resets sec = of_bool (ResetPending sec) +
     of_bool (Group sec \<in> {GroupImmediate, GroupReverse, GroupLowerSpeed, GroupReopen})"

text \<open>A budget is enough when it covers the demand, or when its kind is never asked for.\<close>

definition enough ::
  "(ScrapeSector \<Rightarrow> nat) \<Rightarrow> (ScrapeSector \<Rightarrow> bool) \<Rightarrow> bool \<Rightarrow> u16 \<Rightarrow> ScrapeSector list \<Rightarrow> bool" where
  "enough demand pending enabled b q \<longleftrightarrow>
     (\<Sum>sec \<leftarrow> q. demand sec) \<le> unat b \<or> ((\<forall>sec \<in> set q. \<not> pending sec) \<and> (b = 0 \<or> \<not> enabled))"

definition sector_ok :: "ScrapeSector \<Rightarrow> bool" where
  "sector_ok sec \<longleftrightarrow> ReadsInGroup sec < scrapeReadsPerGroup (Group sec) \<and>
     (ReadsInGroup sec = 0 \<or> ReadsInGroup sec = 1 \<and> Group sec \<in> {GroupImmediate, GroupReverse, GroupLowerSpeed}) \<and>
     (DelayPending sec \<longrightarrow> ReadsInGroup sec = 1) \<and>
     (SpeedPending sec \<longrightarrow> Group sec = GroupLowerSpeed \<and> ReadsInGroup sec = 0) \<and>
     (ReopenPending sec \<longrightarrow> Group sec = GroupReopen) \<and> (ResetPending sec \<longrightarrow> Group sec = GroupReset)"

definition scrape_inv :: "u64 multiset \<Rightarrow> ScrapePassState \<Rightarrow> bool" where
  "scrape_inv T s \<longleftrightarrow> ActiveDecision s = None \<and> (\<forall>sec \<in> set (ScrapeQueue s). sector_ok sec) \<and>
     mset (map LBA (ScrapeQueue s)) + mset (RecoveredSectors s) + mset (FailedSectors s) = T \<and>
     enough delays DelayPending True (DelayBudget s) (ScrapeQueue s) \<and>
     enough speeds SpeedPending (SpeedSupported s) (SpeedBudget s) (ScrapeQueue s) \<and>
     enough reopens ReopenPending True (ReopenBudget s) (ScrapeQueue s) \<and>
     enough resets ResetPending (ResetEnabled s) (ResetBudget s) (ScrapeQueue s)"

definition sector_rank :: "ScrapeSector \<Rightarrow> nat" where
  "sector_rank sec = 5 * reads_left sec + of_bool (DelayPending sec) + of_bool (SpeedPending sec) +
     of_bool (ReopenPending sec) + of_bool (ResetPending sec)"

definition scrape_rank :: "ScrapePassState \<Rightarrow> nat" where
  "scrape_rank s = (\<Sum>sec \<leftarrow> ScrapeQueue s. sector_rank sec)"

definition no_pending :: "ScrapeSector \<Rightarrow> bool" where
  "no_pending sec \<longleftrightarrow> \<not> (DelayPending sec \<or> SpeedPending sec \<or> ReopenPending sec \<or> ResetPending sec)"

lemma enough_rotate:
  "enough d p en b (q @ [x]) = enough d p en b (x # q)" "enough d p en b (x # q) \<Longrightarrow> enough d p en b q"
  by (auto simp: enough_def)

lemma enough_replace:
  assumes "enough d p en b (x # q)" "d y \<le> d x" "p y \<Longrightarrow> p x \<or> b \<noteq> 0 \<and> en"
  shows "enough d p en b (q @ [y])"
  using assms by (auto simp: enough_def)

lemma enough_spend:
  assumes "enough d p en b (x # q)" "p x" "Suc (d y) = d x"
  shows "b \<noteq> 0" "enough d p en (b - 1) (q @ [y])"
proof -
  from assms have le: "Suc (d y) + (\<Sum>sec \<leftarrow> q. d sec) \<le> unat b" by (auto simp: enough_def)
  then show "b \<noteq> 0" by auto
  then have "unat (b - 1) = unat b - 1" by (subst unat_sub_le) (auto simp: word_le_nat_alt Suc_le_eq unat_gt_0)
  with le have "(\<Sum>sec \<leftarrow> q @ [y]. d sec) \<le> unat (b - 1)" unfolding map_append sum_list_append by simp
  then show "enough d p en (b - 1) (q @ [y])" unfolding enough_def by blast
qed

lemma advance_facts:
  assumes ok: "sector_ok sec" and np: "no_pending sec" and g: "Group (advanceScrapeSector sec s) \<noteq> GroupOther ''''"
  defines "a \<equiv> advanceScrapeSector sec s"
  shows "sector_ok a" "LBA a = LBA sec" "sector_rank a < sector_rank sec"
    "delays a \<le> delays sec" "speeds a \<le> speeds sec" "reopens a \<le> reopens sec" "resets a \<le> resets sec"
    "DelayPending a \<Longrightarrow> DelayBudget s \<noteq> 0" "SpeedPending a \<Longrightarrow> SpeedBudget s \<noteq> 0 \<and> SpeedSupported s"
    "ReopenPending a \<Longrightarrow> ReopenBudget s \<noteq> 0" "ResetPending a \<Longrightarrow> ResetBudget s \<noteq> 0 \<and> ResetEnabled s"
proof -
  have r: "ReadsInGroup sec = 0 \<or> ReadsInGroup sec = 1" using ok by (auto simp: sector_ok_def)
  have "sector_ok a \<and> LBA a = LBA sec \<and> sector_rank a < sector_rank sec \<and>
    delays a \<le> delays sec \<and> speeds a \<le> speeds sec \<and> reopens a \<le> reopens sec \<and> resets a \<le> resets sec \<and>
    (DelayPending a \<longrightarrow> DelayBudget s \<noteq> 0) \<and> (SpeedPending a \<longrightarrow> SpeedBudget s \<noteq> 0 \<and> SpeedSupported s) \<and>
    (ReopenPending a \<longrightarrow> ReopenBudget s \<noteq> 0) \<and> (ResetPending a \<longrightarrow> ResetBudget s \<noteq> 0 \<and> ResetEnabled s)"
    using r
  proof
    assume z: "ReadsInGroup sec = 0"
    show ?thesis using ok np g z unfolding a_def
      by (cases "Group sec")
         (auto simp: advanceScrapeSector_def sector_ok_def no_pending_def Let_def sector_rank_def reads_left_def
           delays_def speeds_def reopens_def resets_def split: if_splits)
  next
    assume o: "ReadsInGroup sec = 1"
    show ?thesis using ok np g o unfolding a_def
      by (cases "Group sec")
         (auto simp: advanceScrapeSector_def sector_ok_def no_pending_def Let_def sector_rank_def reads_left_def
           delays_def speeds_def reopens_def resets_def split: if_splits)
  qed
  then show "sector_ok a" "LBA a = LBA sec" "sector_rank a < sector_rank sec"
    "delays a \<le> delays sec" "speeds a \<le> speeds sec" "reopens a \<le> reopens sec" "resets a \<le> resets sec"
    "DelayPending a \<Longrightarrow> DelayBudget s \<noteq> 0" "SpeedPending a \<Longrightarrow> SpeedBudget s \<noteq> 0 \<and> SpeedSupported s"
    "ReopenPending a \<Longrightarrow> ReopenBudget s \<noteq> 0" "ResetPending a \<Longrightarrow> ResetBudget s \<noteq> 0 \<and> ResetEnabled s"
    by blast+
qed

section \<open>Rounds\<close>

definition nextScrapeRead :: "ScrapePassState \<Rightarrow> Request option" where
  "nextScrapeRead s = (case ScrapeQueue s of
     [] \<Rightarrow> None | sec # _ \<Rightarrow> if no_pending sec then Some (ScrapePass (LBA sec) 1) else None)"

definition scrape_good :: "u64 multiset \<Rightarrow> ScrapePassState \<Rightarrow> bool \<Rightarrow> ScrapePassState \<Rightarrow> bool" where
  "scrape_good T s ok t \<longleftrightarrow> scrape_round s ok = Inr (Some t) \<and> scrape_inv T t \<and> scrape_rank t < scrape_rank s \<and>
     RecoveredSectors t = RecoveredSectors s @ map ReqLBA (case nextScrapeRead s of Some r \<Rightarrow> if ok then [r] else [] | None \<Rightarrow> [])"

lemma scrape_invD:
  assumes "scrape_inv T s" "ScrapeQueue s = sec # q"
  shows "ActiveDecision s = None" "sector_ok sec" "\<forall>x \<in> set q. sector_ok x"
    "enough delays DelayPending True (DelayBudget s) (sec # q)"
    "enough speeds SpeedPending (SpeedSupported s) (SpeedBudget s) (sec # q)"
    "enough reopens ReopenPending True (ReopenBudget s) (sec # q)"
    "enough resets ResetPending (ResetEnabled s) (ResetBudget s) (sec # q)"
    "add_mset (LBA sec) (mset (map LBA q)) + mset (RecoveredSectors s) + mset (FailedSectors s) = T"
  using assms by (auto simp: scrape_inv_def)

lemma scrape_pending_step:
  assumes inv: "scrape_inv T s" and q: "ScrapeQueue s = sec # q" and p: "\<not> no_pending sec"
  shows "\<exists>t. scrape_good T s ok t"
proof -
  note i = scrape_invD [OF inv q]
  have nr: "nextScrapeRead s = None" using p by (simp add: nextScrapeRead_def q)
  consider (delay) "DelayPending sec" | (speed) "\<not> DelayPending sec" "SpeedPending sec"
    | (reopen) "\<not> DelayPending sec" "\<not> SpeedPending sec" "ReopenPending sec"
    | (reset) "\<not> DelayPending sec" "\<not> SpeedPending sec" "\<not> ReopenPending sec" "ResetPending sec"
    using p by (auto simp: no_pending_def)
  then show ?thesis
  proof cases
    case delay
    let ?y = "sec\<lparr>DelayPending := False\<rparr>"
    let ?t = "s\<lparr>DelayBudget := DelayBudget s - 1, ScrapeQueue := q @ [?y]\<rparr>"
    have y: "sector_ok ?y" "Suc (delays ?y) = delays sec" "speeds ?y = speeds sec" "reopens ?y = reopens sec"
      "resets ?y = resets sec" "Suc (sector_rank ?y) = sector_rank sec"
      using i(2) delay by (auto simp: sector_ok_def delays_def speeds_def reopens_def resets_def sector_rank_def
          reads_left_def cong: ScrapeReadGroup.case_cong)
    note sp = enough_spend [OF i(4) delay y(2)]
    have "enough speeds SpeedPending (SpeedSupported s) (SpeedBudget s) (q @ [?y])"
      "enough reopens ReopenPending True (ReopenBudget s) (q @ [?y])"
      "enough resets ResetPending (ResetEnabled s) (ResetBudget s) (q @ [?y])"
      by (rule enough_replace [OF i(5)] enough_replace [OF i(6)] enough_replace [OF i(7)]; simp add: y)+
    then have "scrape_inv T ?t" using i(1,3,8) y(1) sp(2) by (simp add: scrape_inv_def)
    moreover have "scrape_round s ok = Inr (Some ?t)"
      using i(1) q delay sp(1) by (cases s)
        (simp add: scrape_round_def DispatchScrapePass_def Let_def decide_def ResolveScrapePass_def)
    moreover have "scrape_rank ?t < scrape_rank s" using y(6) by (simp add: scrape_rank_def q)
    ultimately show ?thesis using nr by (auto simp: scrape_good_def)
  next
    case speed
    let ?y = "sec\<lparr>SpeedPending := False\<rparr>"
    let ?t = "s\<lparr>SpeedBudget := SpeedBudget s - 1, CurrentSpeed := ScrapeSpeedMinimum, ScrapeQueue := q @ [?y]\<rparr>"
    have y: "sector_ok ?y" "delays ?y = delays sec" "Suc (speeds ?y) = speeds sec" "reopens ?y = reopens sec"
      "resets ?y = resets sec" "Suc (sector_rank ?y) = sector_rank sec"
      using i(2) speed by (auto simp: sector_ok_def delays_def speeds_def reopens_def resets_def sector_rank_def
          reads_left_def cong: ScrapeReadGroup.case_cong)
    note sp = enough_spend [OF i(5) speed(2) y(3)]
    have "enough delays DelayPending True (DelayBudget s) (q @ [?y])"
      "enough reopens ReopenPending True (ReopenBudget s) (q @ [?y])"
      "enough resets ResetPending (ResetEnabled s) (ResetBudget s) (q @ [?y])"
      by (rule enough_replace [OF i(4)] enough_replace [OF i(6)] enough_replace [OF i(7)]; simp add: y)+
    then have "scrape_inv T ?t" using i(1,3,8) y(1) sp(2) by (simp add: scrape_inv_def)
    moreover have "scrape_round s ok = Inr (Some ?t)"
      using i(1) q speed sp(1) by (cases s)
        (simp add: scrape_round_def DispatchScrapePass_def Let_def decide_def ResolveScrapePass_def)
    moreover have "scrape_rank ?t < scrape_rank s" using y(6) by (simp add: scrape_rank_def q)
    ultimately show ?thesis using nr by (auto simp: scrape_good_def)
  next
    case reopen
    let ?y = "sec\<lparr>ReopenPending := False\<rparr>"
    let ?t = "s\<lparr>ReopenBudget := ReopenBudget s - 1, ScrapeQueue := q @ [?y]\<rparr>"
    have y: "sector_ok ?y" "delays ?y = delays sec" "speeds ?y = speeds sec" "Suc (reopens ?y) = reopens sec"
      "resets ?y = resets sec" "Suc (sector_rank ?y) = sector_rank sec"
      using i(2) reopen by (auto simp: sector_ok_def delays_def speeds_def reopens_def resets_def sector_rank_def
          reads_left_def cong: ScrapeReadGroup.case_cong)
    note sp = enough_spend [OF i(6) reopen(3) y(4)]
    have "enough delays DelayPending True (DelayBudget s) (q @ [?y])"
      "enough speeds SpeedPending (SpeedSupported s) (SpeedBudget s) (q @ [?y])"
      "enough resets ResetPending (ResetEnabled s) (ResetBudget s) (q @ [?y])"
      by (rule enough_replace [OF i(4)] enough_replace [OF i(5)] enough_replace [OF i(7)]; simp add: y)+
    then have "scrape_inv T ?t" using i(1,3,8) y(1) sp(2) by (simp add: scrape_inv_def)
    moreover have "scrape_round s ok = Inr (Some ?t)"
      using i(1) q reopen sp(1) by (cases s)
        (simp add: scrape_round_def DispatchScrapePass_def Let_def decide_def ResolveScrapePass_def)
    moreover have "scrape_rank ?t < scrape_rank s" using y(6) by (simp add: scrape_rank_def q)
    ultimately show ?thesis using nr by (auto simp: scrape_good_def)
  next
    case reset
    let ?y = "sec\<lparr>ResetPending := False\<rparr>"
    let ?t = "s\<lparr>ResetBudget := ResetBudget s - 1, ScrapeQueue := q @ [?y]\<rparr>"
    have y: "sector_ok ?y" "delays ?y = delays sec" "speeds ?y = speeds sec" "reopens ?y = reopens sec"
      "Suc (resets ?y) = resets sec" "Suc (sector_rank ?y) = sector_rank sec"
      using i(2) reset by (auto simp: sector_ok_def delays_def speeds_def reopens_def resets_def sector_rank_def
          reads_left_def cong: ScrapeReadGroup.case_cong)
    note sp = enough_spend [OF i(7) reset(4) y(5)]
    have "enough delays DelayPending True (DelayBudget s) (q @ [?y])"
      "enough speeds SpeedPending (SpeedSupported s) (SpeedBudget s) (q @ [?y])"
      "enough reopens ReopenPending True (ReopenBudget s) (q @ [?y])"
      by (rule enough_replace [OF i(4)] enough_replace [OF i(5)] enough_replace [OF i(6)]; simp add: y)+
    then have "scrape_inv T ?t" using i(1,3,8) y(1) sp(2) by (simp add: scrape_inv_def)
    moreover have "scrape_round s ok = Inr (Some ?t)"
      using i(1) q reset sp(1) by (cases s)
        (simp add: scrape_round_def DispatchScrapePass_def Let_def decide_def ResolveScrapePass_def)
    moreover have "scrape_rank ?t < scrape_rank s" using y(6) by (simp add: scrape_rank_def q)
    ultimately show ?thesis using nr by (auto simp: scrape_good_def)
  qed
qed

lemma scrape_read_step:
  assumes inv: "scrape_inv T s" and q: "ScrapeQueue s = sec # q" and np: "no_pending sec"
  shows "\<exists>t. scrape_good T s ok t"
proof -
  note i = scrape_invD [OF inv q]
  have nr: "nextScrapeRead s = Some (ScrapePass (LBA sec) 1)" using np by (simp add: nextScrapeRead_def q)
  have pos: "0 < sector_rank sec" using i(2)
    by (cases "Group sec") (auto simp: sector_ok_def sector_rank_def reads_left_def)
  let ?next = "s\<lparr>ScrapeQueue := q\<rparr>"
  have round: "scrape_round s ok = (if ok then Inr (Some (?next\<lparr>RecoveredSectors := RecoveredSectors s @ [LBA sec]\<rparr>))
     else if Group (advanceScrapeSector sec ?next) = GroupOther ''''
     then Inr (Some (?next\<lparr>FailedSectors := FailedSectors s @ [LBA sec]\<rparr>))
     else Inr (Some (?next\<lparr>ScrapeQueue := q @ [advanceScrapeSector sec ?next]\<rparr>)))"
    using i(1) q np by (cases s)
      (simp add: scrape_round_def DispatchScrapePass_def decide_def ResolveScrapePass_def no_pending_def Let_def)
  have rest: "enough delays DelayPending True (DelayBudget s) q"
    "enough speeds SpeedPending (SpeedSupported s) (SpeedBudget s) q"
    "enough reopens ReopenPending True (ReopenBudget s) q"
    "enough resets ResetPending (ResetEnabled s) (ResetBudget s) q"
    using i(4-7) by (auto intro: enough_rotate(2))
  consider (ok) "ok" | (failed) "\<not> ok" "Group (advanceScrapeSector sec ?next) = GroupOther ''''"
    | (again) "\<not> ok" "Group (advanceScrapeSector sec ?next) \<noteq> GroupOther ''''" by blast
  then show ?thesis
  proof cases
    case ok
    let ?t = "?next\<lparr>RecoveredSectors := RecoveredSectors s @ [LBA sec]\<rparr>"
    have "scrape_inv T ?t" using i(1,3,8) rest by (simp add: scrape_inv_def)
    moreover have "scrape_rank ?t < scrape_rank s" using pos by (simp add: scrape_rank_def q)
    ultimately show ?thesis using ok round nr by (auto simp: scrape_good_def ScrapePass_def)
  next
    case failed
    let ?t = "?next\<lparr>FailedSectors := FailedSectors s @ [LBA sec]\<rparr>"
    have "scrape_inv T ?t" using i(1,3,8) rest by (simp add: scrape_inv_def)
    moreover have "scrape_rank ?t < scrape_rank s" using pos by (simp add: scrape_rank_def q)
    ultimately show ?thesis using failed round nr by (auto simp: scrape_good_def)
  next
    case again
    note a = advance_facts [OF i(2) np again(2)]
    let ?a = "advanceScrapeSector sec ?next"
    let ?t = "?next\<lparr>ScrapeQueue := q @ [?a]\<rparr>"
    have "enough delays DelayPending True (DelayBudget s) (q @ [?a])"
      using a(8) by (intro enough_replace [OF i(4) a(4)]) simp
    moreover have "enough speeds SpeedPending (SpeedSupported s) (SpeedBudget s) (q @ [?a])"
      using a(9) by (intro enough_replace [OF i(5) a(5)]) simp
    moreover have "enough reopens ReopenPending True (ReopenBudget s) (q @ [?a])"
      using a(10) by (intro enough_replace [OF i(6) a(6)]) simp
    moreover have "enough resets ResetPending (ResetEnabled s) (ResetBudget s) (q @ [?a])"
      using a(11) by (intro enough_replace [OF i(7) a(7)]) simp
    ultimately have "scrape_inv T ?t" using i(1,3,8) a(1,2) by (simp add: scrape_inv_def)
    moreover have "scrape_rank ?t < scrape_rank s" using a(3) by (simp add: scrape_rank_def q)
    ultimately show ?thesis using again round nr by (auto simp: scrape_good_def)
  qed
qed

lemma scrape_step:
  assumes inv: "scrape_inv T s"
  shows "scrape_round s ok = Inr None \<and> ScrapeQueue s = [] \<or> (\<exists>t. scrape_good T s ok t)"
proof (cases "ScrapeQueue s")
  case Nil
  then show ?thesis using inv by (simp add: scrape_round_def DispatchScrapePass_def scrape_inv_def decide_def)
next
  case (Cons sec q)
  show ?thesis
    using scrape_read_step [OF inv Cons] scrape_pending_step [OF inv Cons] by blast
qed

interpretation scrape: pass_machine scrape_round "scrape_inv T" scrape_rank for T
proof
  fix s b assume "scrape_inv T s"
  from scrape_step [OF this, of b] show "\<exists>r. scrape_round s b = Inr r" by (auto simp: scrape_good_def)
next
  fix s b t assume "scrape_inv T s" "scrape_round s b = Inr (Some t)"
  with scrape_step [of T s b] show "scrape_inv T t" "scrape_rank t < scrape_rank s" by (auto simp: scrape_good_def)
qed

section \<open>Properties\<close>

abbreviation scrape_targets :: "Extent list \<Rightarrow> u64 list" where
  "scrape_targets es \<equiv> concat (map sectors_of (filter (\<lambda>e. schedulableScrapeState (State e)) es))"

lemma new_sector_facts [simp]: "sector_ok (new_sector x)" "LBA (new_sector x) = x" "delays (new_sector x) = 3"
  "speeds (new_sector x) = 1" "reopens (new_sector x) = 1" "resets (new_sector x) = 1"
  "sector_rank (new_sector x) = 40" "\<not> DelayPending (new_sector x)" "\<not> SpeedPending (new_sector x)"
  "\<not> ReopenPending (new_sector x)" "\<not> ResetPending (new_sector x)"
  by (simp_all add: new_sector_def sector_ok_def delays_def speeds_def reopens_def resets_def sector_rank_def
      reads_left_def)

lemma sum_list_const_map: "(\<Sum>x \<leftarrow> map f xs. k x) = (\<Sum>x \<leftarrow> xs. k (f x))"
  by (simp add: comp_def)

lemma scrape_run:
  assumes "scrape_inv T s" "drive scrape_round oks s = Inr (Some t)"
  shows "RecoveredSectors t = RecoveredSectors s @ map ReqLBA (successes nextScrapeRead scrape_round oks s)"
  using assms
proof (induction oks arbitrary: s)
  case (Cons ok oks)
  show ?case
  proof (cases "scrape_round s ok = Inr None")
    case True
    with Cons.prems show ?thesis by simp
  next
    case False
    then obtain u where "scrape_good T s ok u" using scrape_step [OF Cons.prems(1), of ok] by blast
    then have u: "scrape_round s ok = Inr (Some u)" "scrape_inv T u" and
      r: "RecoveredSectors u = RecoveredSectors s @ map ReqLBA (case nextScrapeRead s of Some r \<Rightarrow> if ok then [r] else [] | None \<Rightarrow> [])"
      by (simp_all add: scrape_good_def)
    from Cons.IH [OF u(2)] Cons.prems(2) u(1)
    have "RecoveredSectors t = RecoveredSectors u @ map ReqLBA (successes nextScrapeRead scrape_round oks u)" by simp
    then show ?thesis unfolding r using u(1) by simp
  qed
qed simp

text \<open>
  C38: A scrape pass settles every sector, provided each budget is zero or covers all sectors. It then
  never fails with an error and ends after at most 40 rounds per sector; every sector of the
  unresolved extents is afterwards recorded exactly once, as recovered or as failed, and the
  recovered ones are, in order, those whose read succeeded.
\<close>

theorem scrape_pass_settles_all:
  assumes "StartScrapePass es delayBudget speedBudget reopenBudget resetBudget speedSupported resetEnabled = Inr s"
    and "delayBudget = 0 \<or> 3 * length (scrape_targets es) \<le> unat delayBudget"
    and "speedBudget = 0 \<or> \<not> speedSupported \<or> length (scrape_targets es) \<le> unat speedBudget"
    and "reopenBudget = 0 \<or> length (scrape_targets es) \<le> unat reopenBudget"
    and "resetBudget = 0 \<or> \<not> resetEnabled \<or> length (scrape_targets es) \<le> unat resetBudget"
    and "40 * length (scrape_targets es) < length oks"
  shows "\<exists>t. drive scrape_round oks s = Inr (Some t) \<and> ScrapeQueue t = [] \<and>
    mset (RecoveredSectors t) + mset (FailedSectors t) = mset (scrape_targets es) \<and>
    RecoveredSectors t = map ReqLBA (successes nextScrapeRead scrape_round oks s)"
proof -
  let ?T = "scrape_targets es"
  have s: "s = \<lparr>ScrapeQueue = map new_sector ?T, DelayBudget = delayBudget, SpeedBudget = speedBudget,
      ReopenBudget = reopenBudget, ResetBudget = resetBudget, ResetEnabled = resetEnabled,
      SpeedSupported = speedSupported, CurrentSpeed = ScrapeSpeedAuto, ActiveDecision = None,
      RecoveredSectors = [], FailedSectors = []\<rparr>"
    using assms(1) by (simp add: StartScrapePass_def split: option.splits)
  have sums: "(\<Sum>x \<leftarrow> map new_sector xs. delays x) = 3 * length xs" "(\<Sum>x \<leftarrow> map new_sector xs. speeds x) = length xs"
    "(\<Sum>x \<leftarrow> map new_sector xs. reopens x) = length xs" "(\<Sum>x \<leftarrow> map new_sector xs. resets x) = length xs"
    "(\<Sum>x \<leftarrow> map new_sector xs. sector_rank x) = 40 * length xs" for xs
    by (induction xs) simp_all
  have m: "mset (map LBA (map new_sector ?T)) = mset ?T" by (simp add: comp_def)
  have e: "enough delays DelayPending True delayBudget (map new_sector ?T)"
    "enough speeds SpeedPending speedSupported speedBudget (map new_sector ?T)"
    "enough reopens ReopenPending True reopenBudget (map new_sector ?T)"
    "enough resets ResetPending resetEnabled resetBudget (map new_sector ?T)"
    using assms(2-5) unfolding enough_def sums by auto
  have ok: "\<forall>sec \<in> set (map new_sector ?T). sector_ok sec" by auto
  have inv: "scrape_inv (mset ?T) s"
    unfolding scrape_inv_def s ScrapePassState.select_convs using m e ok by simp
  have "scrape_rank s = 40 * length ?T" unfolding scrape_rank_def s ScrapePassState.select_convs sums ..
  with assms(6) have "scrape_rank s < length oks" by simp
  from scrape.drive_ends [OF inv this] obtain t b where t: "drive scrape_round oks s = Inr (Some t)"
    "scrape_inv (mset ?T) t" "scrape_round t b = Inr None" by blast
  have "ScrapeQueue t = []" using scrape_step [OF t(2), of b] t(3) by (auto simp: scrape_good_def)
  moreover from this have "mset (RecoveredSectors t) + mset (FailedSectors t) = mset ?T"
    using t(2) by (simp add: scrape_inv_def)
  moreover have "RecoveredSectors t = map ReqLBA (successes nextScrapeRead scrape_round oks s)"
    using scrape_run [OF inv t(1)] by (simp add: s)
  ultimately show ?thesis using t(1) by blast
qed

theorem scrape_pass_settles_all_witness:
  "\<exists>s t. StartScrapePass [plain_extent 7 2 6 0 1] 6 0 2 0 True False = Inr s \<and>
     drive scrape_round (replicate 100 True) s = Inr (Some t) \<and> ScrapeQueue t = []"
proof -
  have "\<exists>s. StartScrapePass [plain_extent 7 2 6 0 1] 6 0 2 0 True False = Inr s"
    by (simp add: StartScrapePass_def ValidateExtentSet_def Extent_Validate_def CheckedEndLBA_def
        ValidateStateConfidence_def ValidateSectorState_def ValidateConfidence_def plain_extent_def)
  then obtain s where s: "StartScrapePass [plain_extent 7 2 6 0 1] 6 0 2 0 True False = Inr s" by blast
  have len: "length (scrape_targets [plain_extent 7 2 6 0 1]) = 2" by code_simp
  have b: "(6 :: u16) = 0 \<or> 3 * length (scrape_targets [plain_extent 7 2 6 0 1]) \<le> unat (6 :: u16)"
    "(0 :: u16) = 0 \<or> \<not> True \<or> length (scrape_targets [plain_extent 7 2 6 0 1]) \<le> unat (0 :: u16)"
    "(2 :: u16) = 0 \<or> length (scrape_targets [plain_extent 7 2 6 0 1]) \<le> unat (2 :: u16)"
    "(0 :: u16) = 0 \<or> \<not> False \<or> length (scrape_targets [plain_extent 7 2 6 0 1]) \<le> unat (0 :: u16)"
    "40 * length (scrape_targets [plain_extent 7 2 6 0 1]) < length (replicate 100 True)"
    unfolding len by simp_all
  from scrape_pass_settles_all [OF s b] s show ?thesis by blast
qed

text \<open>
  A scrape pass can stop for good in the middle. A sector is marked for a delay while the budget
  is not zero, without reserving it, so two sectors can be waiting for one delay. The second delay is
  dispatched and its resolution refused; the state keeps it as its active decision, so that every
  later dispatch and every later resolution fails too, with the sectors still in the queue.
\<close>

theorem scrape_budget_deadlock:
  "\<exists>s a b c u d. StartScrapePass [plain_extent 7 2 6 0 1] 1 0 0 0 False False = Inr s \<and>
     scrape_round s False = Inr (Some a) \<and> scrape_round a False = Inr (Some b) \<and>
     scrape_round b False = Inr (Some c) \<and> DispatchScrapePass c True = Inr (u, d) \<and>
     length (ScrapeQueue u) = 2 \<and> RecoveredSectors u = [] \<and> FailedSectors u = [] \<and>
     (\<forall>outcome. \<exists>er. ResolveScrapePass u outcome = Inl er) \<and>
     (\<forall>w. \<exists>er. DispatchScrapePass u w = Inl er)"
proof -
  let ?s = "\<lparr>ScrapeQueue = [new_sector 7, new_sector 8], DelayBudget = 1, SpeedBudget = 0, ReopenBudget = 0,
     ResetBudget = 0, ResetEnabled = False, SpeedSupported = False, CurrentSpeed = ScrapeSpeedAuto,
     ActiveDecision = None, RecoveredSectors = [], FailedSectors = []\<rparr>"
  let ?d = "\<lambda>x. (new_sector x)\<lparr>ReadsInGroup := 1, DelayPending := True\<rparr>"
  let ?a = "?s\<lparr>ScrapeQueue := [new_sector 8, ?d 7]\<rparr>"
  let ?b = "?s\<lparr>ScrapeQueue := [?d 7, ?d 8]\<rparr>"
  let ?c = "?s\<lparr>ScrapeQueue := [?d 8, (new_sector 7)\<lparr>ReadsInGroup := 1\<rparr>], DelayBudget := 0\<rparr>"
  let ?u = "?c\<lparr>ActiveDecision := Some (decide ScrapeDelay 8)\<rparr>"
  have "StartScrapePass [plain_extent 7 2 6 0 1] 1 0 0 0 False False = Inr ?s" by code_simp
  moreover have "scrape_round ?s False = Inr (Some ?a)" by code_simp
  moreover have "scrape_round ?a False = Inr (Some ?b)" by code_simp
  moreover have "scrape_round ?b False = Inr (Some ?c)" by code_simp
  moreover have "DispatchScrapePass ?c True = Inr (?u, decide ScrapeDelay 8)" by code_simp
  moreover have "\<exists>er. ResolveScrapePass ?u outcome = Inl er" for outcome
    by (simp add: ResolveScrapePass_def decide_def new_sector_def Let_def)
  moreover have "\<exists>er. DispatchScrapePass ?u w = Inl er" for w by (simp add: DispatchScrapePass_def)
  moreover have "length (ScrapeQueue ?u) = 2" "RecoveredSectors ?u = []" "FailedSectors ?u = []" by simp_all
  ultimately show ?thesis by blast
qed

end
