(* ===== verification/Persistence.thy ===== *)
theory Persistence
  imports RecoveryStore
begin

text \<open>
  How the platform jobs make recovered data durable
  (\<^verbatim>\<open>internal/platform/recovery_persistence.go\<close>,
  \<^verbatim>\<open>recovery_write.go\<close>): recovered sectors go into the image first and are staged
  in the map; a checkpoint syncs the image and then flushes the map. The image and the map are files
  of the same world. Clock readings come from a script; the two durations in the statistics are left
  out.
\<close>

definition MaxPendingRecoveredBytes :: u64 where "MaxPendingRecoveredBytes = push_bit 20 8"
definition MaxPendingRecords :: u32 where "MaxPendingRecords = 256"
definition MaxCheckpointInterval :: int where "MaxCheckpointInterval = 1000000000"

datatype CheckpointReason =
    CheckpointReasonThreshold | CheckpointReasonInterval | CheckpointReasonPassTransition
  | CheckpointReasonRecoveryReturn | CheckpointReasonStop | CheckpointReasonOther string

record CheckpointStats =
  StatCount :: u64
  LastReason :: CheckpointReason
  LastPendingRecoveredBytes :: u64
  LastPendingRecords :: u32

record Persistence =
  disk :: World
  store :: Store
  image :: string
  Clock :: "int list"
  pendingRecoveredBytes :: u64
  pendingRecordCount :: u32
  lastCheckpoint :: int
  stats :: CheckpointStats

text \<open>The next clock reading; a clock without readings left stands still.\<close>

definition now :: "Persistence \<Rightarrow> int \<times> Persistence" where
  "now p = (case Clock p of [] \<Rightarrow> (lastCheckpoint p, p) | t # ts \<Rightarrow> (t, p\<lparr>Clock := ts\<rparr>))"

definition newRecoveryPersistence :: "World \<Rightarrow> string \<Rightarrow> Store \<Rightarrow> int list \<Rightarrow> Persistence" where
  "newRecoveryPersistence w out s clock =
     (case now \<lparr>disk = w, store = s, image = out, Clock = clock, pendingRecoveredBytes = 0,
                pendingRecordCount = 0, lastCheckpoint = 0,
                stats = \<lparr>StatCount = 0, LastReason = CheckpointReasonOther '''',
                         LastPendingRecoveredBytes = 0, LastPendingRecords = 0\<rparr>\<rparr> of
        (t, p) \<Rightarrow> p\<lparr>lastCheckpoint := t\<rparr>)"

function writeFullAtWriter :: "World \<Rightarrow> string \<Rightarrow> bytes \<Rightarrow> nat \<Rightarrow> error option \<times> World" where
  "writeFullAtWriter w p data offset =
     (if data = [] then (None, w)
      else case os_WriteAt w p offset data of ((n, err), w1) \<Rightarrow>
        (case err of
           Some e \<Rightarrow> (Some e, w1)
         | None \<Rightarrow>
             if n = 0 then (Some ErrShortWrite, w1)
             else writeFullAtWriter w1 p (drop n data) (offset + n)))"
  by pat_completeness auto
termination
  by (relation "measure (\<lambda>(_, _, data, _). length data)") auto

declare writeFullAtWriter.simps [simp del]

definition ForceCheckpoint :: "Persistence \<Rightarrow> CheckpointReason \<Rightarrow> error option \<times> Persistence" where
  "ForceCheckpoint p reason =
     (if pendingRecoveredBytes p = 0 \<and> pendingBytes (store p) = 0
      then (case now p of (t, p1) \<Rightarrow> (None, p1\<lparr>lastCheckpoint := t\<rparr>))
      else case (if pendingRecoveredBytes p > 0 then os_Sync (disk p) (image p) else (None, disk p)) of
        (Some er, w1) \<Rightarrow> (Some (Wrapf ''checkpoint image sync'' er), p\<lparr>disk := w1\<rparr>)
      | (None, w1) \<Rightarrow>
     (case Flush w1 (store p) of
        (Some er, s1, w2) \<Rightarrow> (Some (Wrapf ''checkpoint map sync'' er), p\<lparr>disk := w2, store := s1\<rparr>)
      | (None, s1, w2) \<Rightarrow>
          (case now (p\<lparr>disk := w2, store := s1,
               stats := \<lparr>StatCount = StatCount (stats p) + 1, LastReason = reason,
                         LastPendingRecoveredBytes = pendingRecoveredBytes p,
                         LastPendingRecords = pendingRecordCount p\<rparr>,
               pendingRecoveredBytes := 0, pendingRecordCount := 0\<rparr>) of
             (t, p1) \<Rightarrow> (None, p1\<lparr>lastCheckpoint := t\<rparr>))))"

definition MaybeCheckpoint :: "Persistence \<Rightarrow> CheckpointReason \<Rightarrow> error option \<times> Persistence" where
  "MaybeCheckpoint p reason =
     (if pendingRecoveredBytes p = 0 \<and> pendingBytes (store p) = 0 then (None, p) else ForceCheckpoint p reason)"

definition Persistence_Flush :: "Persistence \<Rightarrow> error option \<times> Persistence" where
  "Persistence_Flush p = ForceCheckpoint p CheckpointReasonRecoveryReturn"

definition Persistence_ApplyExtent :: "Persistence \<Rightarrow> Extent \<Rightarrow> error option \<times> Persistence" where
  "Persistence_ApplyExtent p e =
     (case ForceCheckpoint p CheckpointReasonPassTransition of
        (Some er, p1) \<Rightarrow> (Some er, p1)
      | (None, p1) \<Rightarrow>
          (case Store_ApplyExtent (disk p1) (store p1) e of
             (err, s1, w1) \<Rightarrow> (err, p1\<lparr>store := s1, disk := w1\<rparr>)))"

text \<open>What follows the check of the pending-byte limit in \<^verbatim>\<open>PersistRecovered\<close>.\<close>

definition stage_recovered :: "Persistence \<Rightarrow> bytes \<Rightarrow> nat \<Rightarrow> Extent \<Rightarrow> error option \<times> Persistence" where
  "stage_recovered p data offset e =
     (case writeFullAtWriter (disk p) (image p) data offset of
        (Some er, w1) \<Rightarrow> (Some (Wrapf ''write recovered data'' er), p\<lparr>disk := w1\<rparr>)
      | (None, w1) \<Rightarrow>
     (case StageExtent (store p) e of
        (Some er, s1) \<Rightarrow> (Some (Wrapf ''stage recovered extent'' er), p\<lparr>disk := w1, store := s1\<rparr>)
      | (None, s1) \<Rightarrow>
          let p1 = p\<lparr>disk := w1, store := s1,
                     pendingRecoveredBytes := pendingRecoveredBytes p + of_nat (length data),
                     pendingRecordCount := pendingRecordCount p + 1\<rparr> in
          if pendingRecoveredBytes p1 \<ge> MaxPendingRecoveredBytes \<or> pendingRecordCount p1 \<ge> MaxPendingRecords
          then ForceCheckpoint p1 CheckpointReasonThreshold
          else (case now p1 of (t, p2) \<Rightarrow>
            if t - lastCheckpoint p2 \<ge> MaxCheckpointInterval
            then ForceCheckpoint p2 CheckpointReasonInterval
            else (None, p2))))"

definition PersistRecovered :: "Persistence \<Rightarrow> bytes \<Rightarrow> nat \<Rightarrow> Extent \<Rightarrow> error option \<times> Persistence" where
  "PersistRecovered p data offset e =
     (if data = [] then (Some (Errorf ''persist recovered data: empty sector payload''), p)
      else if (of_nat (length data) :: u64) > MaxPendingRecoveredBytes
      then (Some (Errorf ''persist recovered data: payload exceeds pending-byte limit''), p)
      else if pendingRecoveredBytes p > 0 \<and>
              pendingRecoveredBytes p + of_nat (length data) > MaxPendingRecoveredBytes
      then (case ForceCheckpoint p CheckpointReasonThreshold of
              (Some er, p1) \<Rightarrow> (Some er, p1)
            | (None, p1) \<Rightarrow> stage_recovered p1 data offset e)
      else stage_recovered p data offset e)"

end
