(* ===== verification/Policy.thy ===== *)
theory Policy
  imports ExtentProps
begin

text \<open>
  Recovery policies (\<^verbatim>\<open>internal/recovery/policy.go\<close>,
  \<^verbatim>\<open>internal/platform/recovery_retry.go\<close>) and the outcome of a recovery
  (\<^verbatim>\<open>internal/recovery/outcome.go\<close>). Durations are nanoseconds.
\<close>

section \<open>Policies\<close>

datatype RecoveryMethod =
    RecoveryMethodFast | RecoveryMethodBalanced | RecoveryMethodGentle | RecoveryMethodOther string

record FastPassPolicy =
  FastEnabled :: bool
  FastBlockSectors :: u32

record TrimPassPolicy =
  TrimEnabled :: bool
  TrimAttemptsLimit :: u16

record AdaptivePassPolicy =
  AdaptiveEnabled :: bool
  AdaptiveBlockSectors :: u32
  AdaptiveAttemptsLimit :: u16

record TargetedPassPolicy =
  TargetedEnabled :: bool
  TargetedBlockSectors :: u32
  TargetedAttemptsLimit :: u16

record ReadDeadlinePolicy =
  HealthySoft :: int
  HealthyHard :: int
  DamagedSoft :: int
  DamagedHard :: int

record RecoveryPolicy =
  PolMethod :: RecoveryMethod
  PolFast :: FastPassPolicy
  PolTrim :: TrimPassPolicy
  PolAdaptive :: "AdaptivePassPolicy list"
  PolTargeted :: TargetedPassPolicy
  FinalizeUnresolved :: bool
  ReadDeadlines :: ReadDeadlinePolicy

definition defaultReadDeadlinePolicy :: ReadDeadlinePolicy where
  "defaultReadDeadlinePolicy =
     \<lparr>HealthySoft = 5000000000, HealthyHard = 30000000000, DamagedSoft = 2000000000, DamagedHard = 10000000000\<rparr>"

definition ReadDeadlinePolicy_Validate :: "ReadDeadlinePolicy \<Rightarrow> error option" where
  "ReadDeadlinePolicy_Validate p =
     (if HealthySoft p \<le> 0 \<or> HealthyHard p \<le> 0 \<or> DamagedSoft p \<le> 0 \<or> DamagedHard p \<le> 0
      then Some (Errorf ''read deadlines must all be positive'')
      else if HealthySoft p > HealthyHard p then Some (Errorf ''healthy soft deadline exceeds hard deadline'')
      else if DamagedSoft p > DamagedHard p then Some (Errorf ''damaged soft deadline exceeds hard deadline'')
      else None)"

definition adaptive_policy_ok :: "AdaptivePassPolicy \<Rightarrow> bool" where
  "adaptive_policy_ok a \<longleftrightarrow> \<not> AdaptiveEnabled a \<or> (AdaptiveBlockSectors a \<noteq> 0 \<and> AdaptiveAttemptsLimit a \<noteq> 0)"

definition RecoveryPolicy_Validate :: "RecoveryPolicy \<Rightarrow> error option" where
  "RecoveryPolicy_Validate p =
     (if PolMethod p \<noteq> RecoveryMethodFast \<and> PolMethod p \<noteq> RecoveryMethodBalanced \<and> PolMethod p \<noteq> RecoveryMethodGentle
      then Some (Errorf ''validate recovery policy: unknown method'')
      else if FastEnabled (PolFast p) \<and> FastBlockSectors (PolFast p) = 0
      then Some (Errorf ''validate recovery policy: fast block size must be greater than zero'')
      else if TrimEnabled (PolTrim p) \<and> TrimAttemptsLimit (PolTrim p) = 0
      then Some (Errorf ''validate recovery policy: trim attempts limit must be greater than zero'')
      else if \<not> list_all adaptive_policy_ok (PolAdaptive p)
      then Some (Errorf ''validate recovery policy: adaptive pass has invalid block size or attempts limit'')
      else if TargetedEnabled (PolTargeted p) \<and>
              (TargetedBlockSectors (PolTargeted p) = 0 \<or> TargetedAttemptsLimit (PolTargeted p) = 0)
      then Some (Errorf ''validate recovery policy: targeted pass has invalid block size or attempts limit'')
      else if TargetedEnabled (PolTargeted p) \<and> PolAdaptive p \<noteq> [] \<and> AdaptiveEnabled (last (PolAdaptive p)) \<and>
              TargetedBlockSectors (PolTargeted p) > AdaptiveBlockSectors (last (PolAdaptive p))
      then Some (Errorf ''validate recovery policy: targeted block size exceeds final adaptive block size'')
      else case ReadDeadlinePolicy_Validate (ReadDeadlines p) of
        Some er \<Rightarrow> Some (Wrapf ''validate recovery policy'' er) | None \<Rightarrow> None)"

definition adaptive_pass :: "u32 \<Rightarrow> u16 \<Rightarrow> AdaptivePassPolicy" where
  "adaptive_pass block limit =
     \<lparr>AdaptiveEnabled = True, AdaptiveBlockSectors = block, AdaptiveAttemptsLimit = limit\<rparr>"

definition policy_table :: "RecoveryMethod \<Rightarrow> RecoveryPolicy option" where
  "policy_table method =
     (case method of
        RecoveryMethodFast \<Rightarrow> Some
          \<lparr>PolMethod = method, PolFast = \<lparr>FastEnabled = True, FastBlockSectors = 64\<rparr>,
           PolTrim = \<lparr>TrimEnabled = True, TrimAttemptsLimit = 1\<rparr>, PolAdaptive = [adaptive_pass 16 2],
           PolTargeted = \<lparr>TargetedEnabled = False, TargetedBlockSectors = 0, TargetedAttemptsLimit = 0\<rparr>,
           FinalizeUnresolved = False, ReadDeadlines = defaultReadDeadlinePolicy\<rparr>
      | RecoveryMethodBalanced \<Rightarrow> Some
          \<lparr>PolMethod = method, PolFast = \<lparr>FastEnabled = True, FastBlockSectors = 64\<rparr>,
           PolTrim = \<lparr>TrimEnabled = True, TrimAttemptsLimit = 2\<rparr>,
           PolAdaptive = [adaptive_pass 16 3, adaptive_pass 4 4],
           PolTargeted = \<lparr>TargetedEnabled = True, TargetedBlockSectors = 1, TargetedAttemptsLimit = 6\<rparr>,
           FinalizeUnresolved = True, ReadDeadlines = defaultReadDeadlinePolicy\<rparr>
      | RecoveryMethodGentle \<Rightarrow> Some
          \<lparr>PolMethod = method, PolFast = \<lparr>FastEnabled = True, FastBlockSectors = 32\<rparr>,
           PolTrim = \<lparr>TrimEnabled = True, TrimAttemptsLimit = 1\<rparr>, PolAdaptive = [adaptive_pass 8 2],
           PolTargeted = \<lparr>TargetedEnabled = True, TargetedBlockSectors = 1, TargetedAttemptsLimit = 3\<rparr>,
           FinalizeUnresolved = False, ReadDeadlines = defaultReadDeadlinePolicy\<rparr>
      | RecoveryMethodOther _ \<Rightarrow> None)"

definition PolicyForMethod :: "RecoveryMethod \<Rightarrow> RecoveryPolicy result" where
  "PolicyForMethod method =
     (let m = (if method = RecoveryMethodOther '''' then RecoveryMethodBalanced else method) in
      case policy_table m of
        None \<Rightarrow> Inl (Errorf ''policy for method: unknown recovery method'')
      | Some policy \<Rightarrow> (case RecoveryPolicy_Validate policy of Some er \<Rightarrow> Inl er | None \<Rightarrow> Inr policy))"

section \<open>A retry cycle\<close>

definition isRetryableState :: "SectorState \<Rightarrow> bool" where
  "isRetryableState s \<longleftrightarrow>
     s \<in> {SectorStateUnknown, SectorStateQueued, SectorStateIOError, SectorStateMissing}"

definition retryableExtents :: "Extent list \<Rightarrow> Extent list" where
  "retryableExtents es = filter (\<lambda>e. isRetryableState (State e)) es"

definition addRetryAttemptOffset :: "u16 \<Rightarrow> u16 \<Rightarrow> u16" where
  "addRetryAttemptOffset limit offset = (if NOT 0 - limit < offset then NOT 0 else limit + offset)"

definition retry_offset :: "Extent list \<Rightarrow> u16" where
  "retry_offset es =
     foldl (\<lambda>offset e. if isRetryableState (State e) \<and> Attempts e > offset then Attempts e else offset) 0 es"

text \<open>
  The loop of the code writes through the slice of the policy it got by value; the adaptive passes
  of the caller's policy change with it.
\<close>

definition retryPolicyWithCurrentAttempts :: "RecoveryPolicy \<Rightarrow> Extent list \<Rightarrow> RecoveryPolicy" where
  "retryPolicyWithCurrentAttempts p es =
     (let offset = retry_offset es in
      if offset = 0 then p
      else p\<lparr>PolTrim := (PolTrim p)\<lparr>TrimAttemptsLimit := addRetryAttemptOffset (TrimAttemptsLimit (PolTrim p)) offset\<rparr>,
             PolAdaptive := map (\<lambda>a. a\<lparr>AdaptiveAttemptsLimit := addRetryAttemptOffset (AdaptiveAttemptsLimit a) offset\<rparr>) (PolAdaptive p),
             PolTargeted := (PolTargeted p)\<lparr>TargetedAttemptsLimit := addRetryAttemptOffset (TargetedAttemptsLimit (PolTargeted p)) offset\<rparr>\<rparr>)"

section \<open>Outcomes\<close>

datatype OutcomeClass =
    OutcomeNone | OutcomeInProgress | OutcomeCompleteVerified | OutcomeCompleteUnverified | OutcomeIncomplete
  | OutcomeStoppedResumable | OutcomeFailedNoValidPair

record OutcomeInput =
  OutExtents :: "Extent list"
  AcceptUnverifiedByPolicy :: bool
  PassesExhausted :: bool
  SchedulingStopped :: bool
  ValidImageMapPair :: bool

record OutcomeResult =
  OutClass :: OutcomeClass
  PlainStatus :: string
  Resumable :: bool
  FullyVerified :: bool
  VerifiedSectors :: u64
  ReconstructedSectors :: u64
  AcceptedUnverifiedSectors :: u64
  UnresolvedSectors :: u64

fun outcome_counts :: "Extent list \<Rightarrow> OutcomeResult \<Rightarrow> OutcomeResult result" where
  "outcome_counts [] r = Inr r"
| "outcome_counts (e # es) r =
     (let n = ucast (Sectors e) :: u64; s = State e in
      if s = SectorStateVerified then outcome_counts es (r\<lparr>VerifiedSectors := VerifiedSectors r + n\<rparr>)
      else if s = SectorStateReconstructed
      then outcome_counts es (r\<lparr>ReconstructedSectors := ReconstructedSectors r + n\<rparr>)
      else if s = SectorStateReadUnverified
      then outcome_counts es (r\<lparr>AcceptedUnverifiedSectors := AcceptedUnverifiedSectors r + n\<rparr>)
      else if s \<in> {SectorStateUnknown, SectorStateQueued, SectorStateMissing, SectorStateIOError,
                   SectorStateChecksumError, SectorStateConflicting, SectorStateSkipped}
      then outcome_counts es (r\<lparr>UnresolvedSectors := UnresolvedSectors r + n\<rparr>)
      else Inl (Errorf ''evaluate outcome: unsupported sector state''))"

definition outcome_zero :: OutcomeResult where
  "outcome_zero = \<lparr>OutClass = OutcomeNone, PlainStatus = '''', Resumable = False, FullyVerified = False,
     VerifiedSectors = 0, ReconstructedSectors = 0, AcceptedUnverifiedSectors = 0, UnresolvedSectors = 0\<rparr>"

definition EvaluateOutcome :: "OutcomeInput \<Rightarrow> OutcomeResult result" where
  "EvaluateOutcome i =
     (case ValidateExtentSet (OutExtents i) of Some er \<Rightarrow> Inl er | None \<Rightarrow>
      if \<not> ValidImageMapPair i
      then Inr (outcome_zero\<lparr>OutClass := OutcomeFailedNoValidPair,
             PlainStatus := ''Recovery failed before a valid image/map pair was established.''\<rparr>)
      else case outcome_counts (OutExtents i) outcome_zero of
        Inl er \<Rightarrow> Inl er
      | Inr r \<Rightarrow>
          let hasUnverified = AcceptedUnverifiedSectors r > 0 in
          Inr (if UnresolvedSectors r = 0 \<and> (\<not> hasUnverified \<or> AcceptUnverifiedByPolicy i) then
                 (if hasUnverified
                  then r\<lparr>OutClass := OutcomeCompleteUnverified,
                         PlainStatus := ''Image created with unverified sectors.''\<rparr>
                  else r\<lparr>OutClass := OutcomeCompleteVerified,
                         PlainStatus := ''Image created successfully and fully verified.'', FullyVerified := True\<rparr>)
               else if SchedulingStopped i
               then r\<lparr>OutClass := OutcomeStoppedResumable, PlainStatus := ''Recovery stopped but resumable.'',
                      Resumable := True\<rparr>
               else if PassesExhausted i
               then r\<lparr>OutClass := OutcomeIncomplete, PlainStatus := ''Image created with missing sectors.'',
                      Resumable := True\<rparr>
               else r\<lparr>OutClass := OutcomeInProgress, PlainStatus := ''Recovery is still in progress.'',
                      Resumable := True\<rparr>))"

end
