(* ===== verification/Strategy.thy ===== *)
theory Strategy
  imports Persistence Policy
begin

text \<open>
  The recovery strategy the platform jobs run (\<^verbatim>\<open>internal/platform/recovery_strategy.go\<close>
  and the files of its passes): fast acquisition of what the map does not cover, then bounded
  retries of what is not recovered, in passes, over a store for the extents.

  The store is an interface in the code (\<^verbatim>\<open>recoveryExtentStore\<close>,
  \<^verbatim>\<open>recoveryDataPersistence\<close>, \<^verbatim>\<open>recoveryDurableSnapshot\<close>) and a record of
  operations here; \<open>persistence_store\<close> is the one the jobs use. The branches for stores
  without batched persistence, which only tests have, are left out. The source delivers the bytes of
  a medium or stops short with an error, as a script decides; a deadline that expires is such an
  error. \<open>CtxErrs\<close> are the answers of \<^verbatim>\<open>ctx.Err()\<close>.
\<close>

section \<open>The store and a run\<close>

record 'p ExtentStore =
  ExtentsOf :: "'p \<Rightarrow> Extent list"
  DurableExtentsOf :: "'p \<Rightarrow> Extent list"
  ApplyTo :: "'p \<Rightarrow> Extent \<Rightarrow> error option \<times> 'p"
  PersistTo :: "'p \<Rightarrow> bytes \<Rightarrow> nat \<Rightarrow> Extent \<Rightarrow> error option \<times> 'p"
  CheckpointTo :: "'p \<Rightarrow> CheckpointReason \<Rightarrow> error option \<times> 'p"

definition persistence_store :: "Persistence ExtentStore" where
  "persistence_store = \<lparr>ExtentsOf = (\<lambda>p. extents (store p)), DurableExtentsOf = (\<lambda>p. durableExtents (store p)),
     ApplyTo = Persistence_ApplyExtent, PersistTo = PersistRecovered, CheckpointTo = ForceCheckpoint\<rparr>"

record RecoveryPassProgress =
  ProgPass :: string
  ScannedSectors :: u64
  RecoveredSectors :: u64
  DeferredSectors :: u64
  UnreadableSectors :: u64
  LastIssue :: "string list"

record 'p Run =
  runStore :: 'p
  Reads :: "io list"
  CtxErrs :: "error option list"
  Reported :: "RecoveryPassProgress list"

type_synonym 'p step = "'p Run \<Rightarrow> error option \<times> 'p Run"

definition andThen :: "'p step \<Rightarrow> 'p step \<Rightarrow> 'p step" where
  "andThen a b r = (case a r of (Some er, r1) \<Rightarrow> (Some er, r1) | (None, r1) \<Rightarrow> b r1)"

definition whenever :: "bool \<Rightarrow> 'p step \<Rightarrow> 'p step" where
  "whenever c a r = (if c then a r else (None, r))"

definition wrapped :: "string \<Rightarrow> 'p step \<Rightarrow> 'p step" where
  "wrapped m a r = (case a r of (Some er, r1) \<Rightarrow> (Some (Wrapf m er), r1) | (None, r1) \<Rightarrow> (None, r1))"

definition on_store :: "('p \<Rightarrow> error option \<times> 'p) \<Rightarrow> 'p step" where
  "on_store f r = (case f (runStore r) of (err, p) \<Rightarrow> (err, r\<lparr>runStore := p\<rparr>))"

definition ctx_Err :: "'p step" where
  "ctx_Err r = (case CtxErrs r of [] \<Rightarrow> (None, r) | e # es \<Rightarrow> (e, r\<lparr>CtxErrs := es\<rparr>))"

definition forceRecoveryCheckpoint :: "'p ExtentStore \<Rightarrow> CheckpointReason \<Rightarrow> 'p step" where
  "forceRecoveryCheckpoint ops reason = on_store (\<lambda>p. CheckpointTo ops p reason)"

definition flushRecoveryStore :: "'p ExtentStore \<Rightarrow> 'p step" where
  "flushRecoveryStore ops = on_store (\<lambda>p. CheckpointTo ops p CheckpointReasonRecoveryReturn)"

definition progressExtents :: "'p ExtentStore \<Rightarrow> 'p Run \<Rightarrow> Extent list" where
  "progressExtents ops r = DurableExtentsOf ops (runStore r)"

section \<open>Progress\<close>

definition recoveryStateHasData :: "SectorState \<Rightarrow> bool" where
  "recoveryStateHasData s \<longleftrightarrow>
     s \<in> {SectorStateReadUnverified, SectorStateVerified, SectorStateChecksumError, SectorStateConflicting,
          SectorStateReconstructed}"

definition summarizeRecoveryExtentStates :: "Extent list \<Rightarrow> u64 \<times> u64 \<times> u64 \<times> u64" where
  "summarizeRecoveryExtentStates es =
     foldl (\<lambda>(scanned, recovered, deferred, unreadable) e.
       let n = ucast (Sectors e) in
       if recoveryStateHasData (State e) then (scanned + n, recovered + n, deferred, unreadable)
       else if State e \<in> {SectorStateUnknown, SectorStateQueued, SectorStateIOError}
       then (scanned + n, recovered, deferred + n, unreadable)
       else if State e = SectorStateMissing then (scanned + n, recovered, deferred, unreadable + n)
       else (scanned + n, recovered, deferred, unreadable)) (0, 0, 0, 0) es"

definition summarizeRecoveryExtents :: "Extent list \<Rightarrow> u64 \<times> u64 \<times> u64" where
  "summarizeRecoveryExtents es =
     (case summarizeRecoveryExtentStates es of (scanned, recovered, deferred, unreadable) \<Rightarrow>
        (scanned, recovered, deferred + unreadable))"

definition unresolvedSectorCount :: "Extent list \<Rightarrow> u64" where
  "unresolvedSectorCount es = snd (snd (summarizeRecoveryExtents es))"

definition reportRecoveryProgress :: "'p ExtentStore \<Rightarrow> string \<Rightarrow> string list \<Rightarrow> 'p step" where
  "reportRecoveryProgress ops pass issue r =
     (case summarizeRecoveryExtentStates (progressExtents ops r) of (scanned, recovered, deferred, unreadable) \<Rightarrow>
        (None, r\<lparr>Reported := Reported r @ [\<lparr>ProgPass = pass, ScannedSectors = scanned, RecoveredSectors = recovered,
           DeferredSectors = deferred, UnreadableSectors = unreadable, LastIssue = issue\<rparr>]\<rparr>))"

section \<open>Reading the source\<close>

definition medium_bytes :: "(nat \<Rightarrow> u8) \<Rightarrow> nat \<Rightarrow> nat \<Rightarrow> bytes" where
  "medium_bytes m off n = map m [off ..< off + n]"

definition readAtWithDeadline :: "nat \<Rightarrow> 'p Run \<Rightarrow> (nat \<times> error option) \<times> 'p Run" where
  "readAtWithDeadline n r =
     (case Reads r of
        [] \<Rightarrow> ((n, None), r)
      | a # as \<Rightarrow> ((transferred a n, io_error a), r\<lparr>Reads := as\<rparr>))"

definition readSucceeded :: "nat \<Rightarrow> nat \<Rightarrow> error option \<Rightarrow> bool" where
  "readSucceeded n expected err \<longleftrightarrow>
     n = expected \<and> (case err of None \<Rightarrow> True | Some e \<Rightarrow> errors_Is e ErrEOF)"

definition platformFatal_linux :: "error \<Rightarrow> bool" where
  "platformFatal_linux err \<longleftrightarrow> errors_Is err (ErrIO ''ENODEV'')"

definition platformFatal_windows :: "error \<Rightarrow> bool" where
  "platformFatal_windows err \<longleftrightarrow> errors_Is err (ErrIO ''ERROR_DEVICE_NOT_CONNECTED'') \<or>
     errors_Is err (ErrIO ''ERROR_FILE_NOT_FOUND'') \<or> errors_Is err (ErrIO ''ERROR_PATH_NOT_FOUND'')"

definition fatalRecoveryReadError :: "(error \<Rightarrow> bool) \<Rightarrow> error option \<Rightarrow> error option" where
  "fatalRecoveryReadError platformFatal readErr =
     (case readErr of
        None \<Rightarrow> None
      | Some e \<Rightarrow>
          if errors_Is e ErrStopRequested then Some ErrCanceled
          else if errors_Is e ErrClosedPipe \<or> errors_Is e ErrUnexpectedEOF then None
          else if errors_Is e ErrPermission \<or> errors_Is e ErrNotExist \<or> platformFatal e then Some e
          else None)"

definition readFailureDetail :: "string \<Rightarrow> error option \<Rightarrow> string" where
  "readFailureDetail action readErr =
     (if readErr \<noteq> None then action @ '' after read error'' else action @ '' after a short read'')"

definition plain :: "u64 \<Rightarrow> u64 \<Rightarrow> SectorState \<Rightarrow> Confidence_t \<Rightarrow> u16 \<Rightarrow> Extent" where
  "plain lba sectors st cf attempts =
     Extent_zero\<lparr>StartLBA := lba, Sectors := ucast sectors, State := st, Confidence := cf, Attempts := attempts\<rparr>"

section \<open>Fast acquisition\<close>

text \<open>The loop that keeps a block clear of the next extent.\<close>

fun cap_by_next :: "u64 \<Rightarrow> u64 \<Rightarrow> Extent list \<Rightarrow> u64" where
  "cap_by_next lba n [] = n"
| "cap_by_next lba n (e # es) =
     (if StartLBA e > lba \<and> StartLBA e - lba < n then StartLBA e - lba else cap_by_next lba n es)"

definition fast_sectors :: "Extent list \<Rightarrow> u64 \<Rightarrow> u32 \<Rightarrow> u64 \<Rightarrow> u64" where
  "fast_sectors es capacity block lba =
     (let remaining = capacity - lba;
          n = (if remaining < ucast block then remaining else ucast block)
      in cap_by_next lba n es)"

definition fast_block :: "'p ExtentStore \<Rightarrow> (error \<Rightarrow> bool) \<Rightarrow> (nat \<Rightarrow> u8) \<Rightarrow> u32 \<Rightarrow> u64 \<Rightarrow> u64 \<Rightarrow> 'p step" where
  "fast_block ops fatal m sectorSize lba sectors r =
     (let readSize = unat (sectors * ucast sectorSize); offset = unat (lba * ucast sectorSize) in
      case readAtWithDeadline readSize r of ((n, readErr), r1) \<Rightarrow>
      if readSucceeded n readSize readErr then
        andThen (on_store (\<lambda>p. PersistTo ops p (medium_bytes m offset readSize) offset
                   (plain lba sectors SectorStateReadUnverified ConfidenceSingleRead 1)))
          (reportRecoveryProgress ops ''Fast acquisition'' []) r1
      else andThen ctx_Err (\<lambda>r2.
        case fatalRecoveryReadError fatal readErr of
          Some er \<Rightarrow> (Some (Wrapf ''read fast acquisition range'' er), r2)
        | None \<Rightarrow>
            andThen (wrapped ''defer failed range''
                (on_store (\<lambda>p. ApplyTo ops p (plain lba sectors SectorStateIOError ConfidenceNone 1))))
              (reportRecoveryProgress ops ''Fast acquisition''
                [readFailureDetail ''Deferred'' readErr,
                 ''Continuing forward; smaller bounded reads will revisit this range later.'']) r2) r1)"

lemma LookupExtent_after: "LookupExtent es lba = Some (e, i) \<Longrightarrow> StartLBA e \<le> lba \<and> lba < EndLBA e"
proof -
  have "LookupExtent_from j es lba = Some (e, i) \<Longrightarrow> StartLBA e \<le> lba \<and> lba < EndLBA e" for j
    by (induction es arbitrary: j) (auto split: if_splits)
  then show "LookupExtent es lba = Some (e, i) \<Longrightarrow> StartLBA e \<le> lba \<and> lba < EndLBA e"
    by (simp add: LookupExtent_def)
qed

lemma cap_by_next_le: "cap_by_next lba n es \<le> n"
  by (induction es) auto

lemma cap_by_next_pos: "n \<noteq> 0 \<Longrightarrow> cap_by_next lba n es \<noteq> 0"
  by (induction es) auto

lemma fast_sectors_facts:
  assumes "lba < capacity"
  shows "fast_sectors es capacity block lba \<le> capacity - lba" "fast_sectors es capacity block lba \<le> ucast block"
    "block \<noteq> 0 \<Longrightarrow> fast_sectors es capacity block lba \<noteq> 0"
    "unat (lba + fast_sectors es capacity block lba) = unat lba + unat (fast_sectors es capacity block lba)"
    "unat lba + unat (fast_sectors es capacity block lba) \<le> unat capacity"
proof -
  let ?n = "if capacity - lba < ucast block then capacity - lba else ucast block"
  have f: "fast_sectors es capacity block lba = cap_by_next lba ?n es" by (simp add: fast_sectors_def Let_def)
  have le: "fast_sectors es capacity block lba \<le> ?n" unfolding f by (rule cap_by_next_le)
  show a: "fast_sectors es capacity block lba \<le> capacity - lba" using le by (auto split: if_splits)
  show "fast_sectors es capacity block lba \<le> ucast block" using le by (auto split: if_splits)
  have b: "unat (ucast block :: u64) = unat block" by simp
  have c: "unat (capacity - lba) = unat capacity - unat lba" using assms by (simp add: unat_sub_le)
  have "capacity - lba \<noteq> 0" using assms by simp
  moreover have "(ucast block :: u64) \<noteq> 0" if "block \<noteq> 0"
    using that b unat_eq_zero by (metis unat_0)
  ultimately have "?n \<noteq> 0" if "block \<noteq> 0" using that by simp
  then show "block \<noteq> 0 \<Longrightarrow> fast_sectors es capacity block lba \<noteq> 0"
    unfolding f using cap_by_next_pos by blast
  show le2: "unat lba + unat (fast_sectors es capacity block lba) \<le> unat capacity"
    using c a assms by (simp add: word_le_nat_alt word_less_nat_alt)
  show "unat (lba + fast_sectors es capacity block lba) = unat lba + unat (fast_sectors es capacity block lba)"
    using le2 unsigned_less [of capacity] by (intro unat_add_le) (rule le_less_trans)
qed

lemma lookup_decreases:
  assumes "LookupExtent es lba = Some x" "lba < (limit :: u64)"
  shows "unat limit - unat (EndLBA (fst x)) < unat limit - unat lba"
proof -
  have "lba < EndLBA (fst x)" using LookupExtent_after [of es lba "fst x" "snd x"] assms(1) by simp
  then show ?thesis using assms(2) by (intro diff_less_mono2) (simp_all only: word_less_nat_alt)
qed

lemma fast_sectors_decreases:
  assumes "lba < capacity" "fast_sectors es capacity block lba \<noteq> 0"
  shows "unat capacity - unat (lba + fast_sectors es capacity block lba) < unat capacity - unat lba"
  using fast_sectors_facts(4) [OF assms(1), of es block] assms
  by (simp add: word_less_nat_alt word_neq_0_pos)

text \<open>
  The loop of \<^verbatim>\<open>runFastAcquisitionPass\<close>. Its caller has refused a block of no sectors;
  stating that again makes the recursion well-founded.
\<close>

function fast_loop ::
  "'p ExtentStore \<Rightarrow> (error \<Rightarrow> bool) \<Rightarrow> (nat \<Rightarrow> u8) \<Rightarrow> u32 \<Rightarrow> u64 \<Rightarrow> u32 \<Rightarrow> u64 \<Rightarrow> 'p step" where
  "fast_loop ops fatal m sectorSize capacity block lba r =
     (if block = 0 \<or> lba \<ge> capacity then (None, r)
      else case ctx_Err r of
        (Some er, r1) \<Rightarrow> (Some er, r1)
      | (None, r1) \<Rightarrow>
          let es = ExtentsOf ops (runStore r1) in
          (case LookupExtent es lba of
             Some (e, _) \<Rightarrow> fast_loop ops fatal m sectorSize capacity block (EndLBA e) r1
           | None \<Rightarrow>
               let sectors = fast_sectors es capacity block lba in
               if sectors = 0 then fast_loop ops fatal m sectorSize capacity block lba r1
               else case fast_block ops fatal m sectorSize lba sectors r1 of
                 (Some er, r2) \<Rightarrow> (Some er, r2)
               | (None, r2) \<Rightarrow> fast_loop ops fatal m sectorSize capacity block (lba + sectors) r2))"
  by pat_completeness auto
termination
  apply (relation "measure (\<lambda>(_, _, _, _, capacity, _, lba, _). unat capacity - unat lba)")
  subgoal by simp
  subgoal using fast_sectors_facts(3) by (force simp: not_le)
  subgoal by (simp add: fast_sectors_decreases not_le)
  subgoal by (simp add: lookup_decreases not_le prod_eq_iff)
  done

declare fast_loop.simps [simp del]

definition runFastAcquisitionPass ::
  "'p ExtentStore \<Rightarrow> (error \<Rightarrow> bool) \<Rightarrow> (nat \<Rightarrow> u8) \<Rightarrow> u32 \<Rightarrow> u64 \<Rightarrow> u32 \<Rightarrow> 'p step" where
  "runFastAcquisitionPass ops fatal m sectorSize capacity block r =
     (if block = 0 then (Some (Errorf ''run fast acquisition pass: invalid policy limits''), r)
      else andThen (reportRecoveryProgress ops ''Fast acquisition'' [])
        (fast_loop ops fatal m sectorSize capacity block 0) r)"

section \<open>Bounded retries\<close>

text \<open>What follows the checks in \<^verbatim>\<open>attemptDeferredBlock\<close>.\<close>

definition deferred_block ::
  "'p ExtentStore \<Rightarrow> (error \<Rightarrow> bool) \<Rightarrow> (nat \<Rightarrow> u8) \<Rightarrow> u32 \<Rightarrow> u64 \<Rightarrow> u64 \<Rightarrow> u16 \<Rightarrow> string \<Rightarrow> 'p step" where
  "deferred_block ops fatal m sectorSize lba sectors attempts pass r =
     (let queued = plain lba sectors SectorStateQueued ConfidenceNone attempts;
          readSize = unat (sectors * ucast sectorSize); offset = unat (lba * ucast sectorSize) in
      andThen (wrapped ''queue deferred range'' (on_store (\<lambda>p. ApplyTo ops p queued))) (\<lambda>r0.
      case readAtWithDeadline readSize r0 of ((n, readErr), r1) \<Rightarrow>
      if readSucceeded n readSize readErr then
        andThen (on_store (\<lambda>p. PersistTo ops p (medium_bytes m offset readSize) offset
                   (plain lba sectors SectorStateReadUnverified ConfidenceSingleRead attempts)))
          (reportRecoveryProgress ops pass []) r1
      else andThen ctx_Err (\<lambda>r2.
        case fatalRecoveryReadError fatal readErr of
          Some er \<Rightarrow> (Some (Wrapf (''read '' @ pass @ '' range'') er), r2)
        | None \<Rightarrow>
            andThen (wrapped ''restore deferred range''
                (on_store (\<lambda>p. ApplyTo ops p (queued\<lparr>State := SectorStateIOError\<rparr>))))
              (reportRecoveryProgress ops pass
                [''Retry: '' @ readFailureDetail ''failed'' readErr,
                 ''The range remains deferred until its bounded retry budget is exhausted.'']) r2) r1) r)"

definition attemptDeferredBlock ::
  "'p ExtentStore \<Rightarrow> (error \<Rightarrow> bool) \<Rightarrow> (nat \<Rightarrow> u8) \<Rightarrow> u32 \<Rightarrow> u64 \<Rightarrow> u64 \<Rightarrow> string \<Rightarrow> 'p step" where
  "attemptDeferredBlock ops fatal m sectorSize lba sectors pass =
     andThen ctx_Err (\<lambda>r.
       case LookupExtent (ExtentsOf ops (runStore r)) lba of
         None \<Rightarrow> (None, r)
       | Some (current, _) \<Rightarrow>
           if \<not> isRetryableState (State current) then (None, r)
           else let most = EndLBA current - lba; n = (if sectors > most then most else sectors) in
             if n = 0 then (None, r)
             else deferred_block ops fatal m sectorSize lba n (Attempts current + 1) pass r)"

text \<open>A loop over a slice that stops at the first error.\<close>

fun each :: "('a \<Rightarrow> 'p step) \<Rightarrow> 'a list \<Rightarrow> 'p step" where
  "each f [] r = (None, r)"
| "each f (x # xs) r = andThen (f x) (each f xs) r"

definition trim_edge ::
  "'p ExtentStore \<Rightarrow> (error \<Rightarrow> bool) \<Rightarrow> (nat \<Rightarrow> u8) \<Rightarrow> u32 \<Rightarrow> u16 \<Rightarrow> u64 \<Rightarrow> 'p step" where
  "trim_edge ops fatal m sectorSize attemptLimit lba =
     andThen ctx_Err (\<lambda>r.
       case LookupExtent (ExtentsOf ops (runStore r)) lba of
         None \<Rightarrow> (None, r)
       | Some (current, _) \<Rightarrow>
           if \<not> isRetryableState (State current) \<or> Attempts current \<ge> attemptLimit then (None, r)
           else attemptDeferredBlock ops fatal m sectorSize lba 1 ''Trimming deferred ranges'' r)"

definition runTrimPass ::
  "'p ExtentStore \<Rightarrow> (error \<Rightarrow> bool) \<Rightarrow> (nat \<Rightarrow> u8) \<Rightarrow> u32 \<Rightarrow> u16 \<Rightarrow> 'p step" where
  "runTrimPass ops fatal m sectorSize attemptLimit =
     andThen (reportRecoveryProgress ops ''Trimming deferred ranges'' []) (\<lambda>r.
       each (\<lambda>e. whenever (Sectors e > 1)
               (each (trim_edge ops fatal m sectorSize attemptLimit) [StartLBA e, EndLBA e - 1]))
         (retryableExtents (ExtentsOf ops (runStore r))) r)"

lemma block_progress:
  assumes "lba < (limit :: u64)" "lba < stop" "block \<noteq> 0"
  shows "unat limit - unat (lba + (if stop - lba < block then stop - lba else block)) < unat limit - unat lba"
proof -
  let ?n = "if stop - lba < block then stop - lba else block"
  have "unat (stop - lba) = unat stop - unat lba" using assms by (simp add: unat_sub_le)
  then have le: "unat lba + unat ?n \<le> unat stop" and pos: "0 < unat ?n"
    using assms by (auto simp: word_less_nat_alt word_neq_0_pos)
  have "unat (lba + ?n) = unat lba + unat ?n"
    using le unsigned_less [of stop] by (intro unat_add_le) (rule le_less_trans)
  then show ?thesis using pos assms(1) by (simp add: word_less_nat_alt)
qed

lemma step_progress:
  assumes "lba < (limit :: u64)"
  shows "unat limit - unat (lba + 1) < unat limit - unat lba"
proof -
  have "unat (lba + 1) = unat lba + 1"
  proof -
    have "unat lba < unat limit" using assms by (simp only: word_less_nat_alt)
    then show ?thesis using unat_u64_less [of limit]
      by (subst unat_add_le) (simp_all del: unat_u64_less)
  qed
  then show ?thesis using assms by (simp add: word_less_nat_alt)
qed

text \<open>
  The inner loop of \<^verbatim>\<open>runAdaptivePass\<close>, over one range. The policy has been checked for
  blocks of no sectors; stating that again makes the recursion well-founded.
\<close>

function adaptive_range ::
  "'p ExtentStore \<Rightarrow> (error \<Rightarrow> bool) \<Rightarrow> (nat \<Rightarrow> u8) \<Rightarrow> u32 \<Rightarrow> u64 \<Rightarrow> u16 \<Rightarrow> string \<Rightarrow> u64 \<Rightarrow> u64 \<Rightarrow> 'p step" where
  "adaptive_range ops fatal m sectorSize block attemptLimit pass stop lba r =
     (if block = 0 \<or> lba \<ge> stop then (None, r)
      else case ctx_Err r of
        (Some er, r1) \<Rightarrow> (Some er, r1)
      | (None, r1) \<Rightarrow>
          (case LookupExtent (ExtentsOf ops (runStore r1)) lba of
             None \<Rightarrow> adaptive_range ops fatal m sectorSize block attemptLimit pass stop (lba + 1) r1
           | Some (current, i) \<Rightarrow>
               if \<not> isRetryableState (State current) \<or> Attempts current \<ge> attemptLimit
               then adaptive_range ops fatal m sectorSize block attemptLimit pass stop (EndLBA current) r1
               else let sectors = (if EndLBA current - lba < block then EndLBA current - lba else block) in
                 (case attemptDeferredBlock ops fatal m sectorSize lba sectors pass r1 of
                    (Some er, r2) \<Rightarrow> (Some er, r2)
                  | (None, r2) \<Rightarrow>
                      adaptive_range ops fatal m sectorSize block attemptLimit pass stop (lba + sectors) r2)))"
  by pat_completeness auto
termination
  apply (relation "measure (\<lambda>(_, _, _, _, _, _, _, stop, lba, _). unat stop - unat lba)")
  subgoal by simp
  subgoal by (simp add: step_progress not_le)
  subgoal by (simp add: lookup_decreases not_le prod_eq_iff)
  subgoal for ops fatal m sectorSize block attemptLimit pass stop lba r x r1 y current
    using LookupExtent_after [of "ExtentsOf ops (runStore r1)" lba current] block_progress [of lba stop "EndLBA current" block]
    by (simp add: not_le prod_eq_iff)
  done

declare adaptive_range.simps [simp del]

definition runAdaptivePass ::
  "'p ExtentStore \<Rightarrow> (error \<Rightarrow> bool) \<Rightarrow> (nat \<Rightarrow> u8) \<Rightarrow> u32 \<Rightarrow> u64 \<Rightarrow> u16 \<Rightarrow> string \<Rightarrow> 'p step" where
  "runAdaptivePass ops fatal m sectorSize block attemptLimit pass =
     andThen (reportRecoveryProgress ops pass []) (\<lambda>r.
       each (\<lambda>e. adaptive_range ops fatal m sectorSize block attemptLimit pass (EndLBA e) (StartLBA e))
         (retryableExtents (ExtentsOf ops (runStore r))) r)"

definition finalizeUnresolvedRanges :: "'p ExtentStore \<Rightarrow> 'p step" where
  "finalizeUnresolvedRanges ops r =
     each (\<lambda>e. wrapped ''finalize unreadable range'' (on_store (\<lambda>p.
         ApplyTo ops p (e\<lparr>State := SectorStateMissing, Confidence := ConfidenceNone\<rparr>))))
       (retryableExtents (ExtentsOf ops (runStore r))) r"

section \<open>The run\<close>

definition checkpointed :: "'p ExtentStore \<Rightarrow> 'p step \<Rightarrow> 'p step" where
  "checkpointed ops a = andThen a (forceRecoveryCheckpoint ops CheckpointReasonPassTransition)"

definition retry_passes ::
  "'p ExtentStore \<Rightarrow> (error \<Rightarrow> bool) \<Rightarrow> (nat \<Rightarrow> u8) \<Rightarrow> u32 \<Rightarrow> RecoveryPolicy \<Rightarrow> 'p step" where
  "retry_passes ops fatal m sectorSize policy =
     andThen (forceRecoveryCheckpoint ops CheckpointReasonPassTransition)
    (andThen (checkpointed ops (whenever (TrimEnabled (PolTrim policy))
       (runTrimPass ops fatal m sectorSize (TrimAttemptsLimit (PolTrim policy)))))
    (andThen (each (\<lambda>a. whenever (AdaptiveEnabled a) (checkpointed ops
       (runAdaptivePass ops fatal m sectorSize (ucast (AdaptiveBlockSectors a)) (AdaptiveAttemptsLimit a)
          ''Adaptive recovery''))) (PolAdaptive policy))
    (andThen (whenever (TargetedEnabled (PolTargeted policy)) (checkpointed ops
       (runAdaptivePass ops fatal m sectorSize (ucast (TargetedBlockSectors (PolTargeted policy)))
          (TargetedAttemptsLimit (PolTargeted policy)) ''Targeted retry'')))
    (andThen (whenever (FinalizeUnresolved policy) (finalizeUnresolvedRanges ops))
    (andThen (flushRecoveryStore ops) (\<lambda>r.
       reportRecoveryProgress ops
         (if \<not> FinalizeUnresolved policy \<and> unresolvedSectorCount (ExtentsOf ops (runStore r)) > 0
          then ''Deferred work remains'' else ''Complete'') [] r))))))"

definition recovery_run ::
  "'p ExtentStore \<Rightarrow> (error \<Rightarrow> bool) \<Rightarrow> (nat \<Rightarrow> u8) \<Rightarrow> u32 \<Rightarrow> u64 \<Rightarrow> RecoveryPolicy \<Rightarrow> 'p step" where
  "recovery_run ops fatal m sectorSize capacity policy r =
     (if sectorSize = 0 then (Some (Errorf ''run pass-based recovery: logical sector size is required''), r)
      else if capacity = 0
      then (Some (Errorf ''run pass-based recovery: capacity sectors must be greater than zero''), r)
      else andThen (whenever (FastEnabled (PolFast policy))
             (runFastAcquisitionPass ops fatal m sectorSize capacity (FastBlockSectors (PolFast policy))))
           (\<lambda>r1. if unresolvedSectorCount (ExtentsOf ops (runStore r1)) = 0
             then andThen (flushRecoveryStore ops) (reportRecoveryProgress ops ''Complete'' []) r1
             else retry_passes ops fatal m sectorSize policy r1) r)"

definition runPassBasedRecoveryWithPolicy ::
  "'p ExtentStore \<Rightarrow> (error \<Rightarrow> bool) \<Rightarrow> (nat \<Rightarrow> u8) \<Rightarrow> u32 \<Rightarrow> u64 \<Rightarrow> RecoveryPolicy \<Rightarrow> 'p step" where
  "runPassBasedRecoveryWithPolicy ops fatal m sectorSize capacity policy r =
     (case RecoveryPolicy_Validate policy of
        Some er \<Rightarrow> (Some er, r)
      | None \<Rightarrow>
          (case recovery_run ops fatal m sectorSize capacity policy r of (err, r1) \<Rightarrow>
           case flushRecoveryStore ops r1 of (flushErr, r2) \<Rightarrow> (errors_Join err flushErr, r2)))"

definition runPassBasedRecovery ::
  "'p ExtentStore \<Rightarrow> (error \<Rightarrow> bool) \<Rightarrow> (nat \<Rightarrow> u8) \<Rightarrow> u32 \<Rightarrow> u64 \<Rightarrow> 'p step" where
  "runPassBasedRecovery ops fatal m sectorSize capacity r =
     (case PolicyForMethod RecoveryMethodBalanced of
        Inl er \<Rightarrow> (Some er, r)
      | Inr policy \<Rightarrow> runPassBasedRecoveryWithPolicy ops fatal m sectorSize capacity policy r)"

end
