(* ===== verification/PersistenceFacts.thy ===== *)
theory PersistenceFacts
  imports Persistence CrashFacts MapProps
begin

text \<open>
  What the persistence layer guarantees at every moment: the sectors the map claims are in the image,
  and a crash leaves a map whose claims the image on stable storage still backs. The image may come
  out of a crash with any mixture of synced and written bytes.
\<close>

section \<open>Claims and the image\<close>

definition claimed :: "Extent list \<Rightarrow> nat set" where
  "claimed es = {n. \<exists>b. extent_at es n = Some b \<and> stateClaimsImageData (State b)}"

definition holds_at :: "(nat \<Rightarrow> u8) \<Rightarrow> bytes option \<Rightarrow> nat \<Rightarrow> bool" where
  "holds_at m f k \<longleftrightarrow> (case f of None \<Rightarrow> False | Some bs \<Rightarrow> k < length bs \<and> bs ! k = m k)"

definition image_holds :: "(nat \<Rightarrow> u8) \<Rightarrow> nat \<Rightarrow> nat set \<Rightarrow> bytes option \<Rightarrow> bool" where
  "image_holds m ss S f \<longleftrightarrow> (\<forall>n \<in> S. \<forall>i < ss. holds_at m f (n * ss + i))"

text \<open>A crash leaves each byte of the image as it was synced or as it was written since.\<close>

definition crash_image :: "World \<Rightarrow> string \<Rightarrow> bytes \<Rightarrow> bool" where
  "crash_image w p bs \<longleftrightarrow>
     (\<forall>st. Stable w p = Some st \<longrightarrow> length st \<le> length bs \<and>
        (\<forall>i < length st. bs ! i = st ! i \<or> (i < length (contents w p) \<and> bs ! i = contents w p ! i)))"

lemma holds_at_crash:
  assumes "holds_at m (Stable w p) k" "holds_at m (Files w p) k" "crash_image w p bs"
  shows "holds_at m (Some bs) k"
  using assms by (fastforce simp: holds_at_def crash_image_def contents_def split: option.splits)

lemma image_holds_crash:
  "image_holds m ss S (Stable w p) \<Longrightarrow> image_holds m ss S (Files w p) \<Longrightarrow> crash_image w p bs \<Longrightarrow>
     image_holds m ss S (Some bs)"
  using holds_at_crash unfolding image_holds_def by blast

lemma image_holds_mono: "image_holds m ss S f \<Longrightarrow> T \<subseteq> S \<Longrightarrow> image_holds m ss T f"
  unfolding image_holds_def by blast

lemma image_holds_Un: "image_holds m ss (S \<union> T) f \<longleftrightarrow> image_holds m ss S f \<and> image_holds m ss T f"
  unfolding image_holds_def by blast

lemma nth_patch:
  "length p = off \<Longrightarrow> off \<le> k \<Longrightarrow> k < off + length new \<Longrightarrow>
     k < length (p @ new @ r) \<and> (p @ new @ r) ! k = new ! (k - off)"
  by (auto simp: nth_append)

lemma nth_before: "length p = off \<Longrightarrow> k < off \<Longrightarrow> k < length (p @ x) \<and> (p @ x) ! k = p ! k"
  by (auto simp: nth_append)

lemma nth_after:
  "length p = off \<Longrightarrow> off + length new \<le> k \<Longrightarrow> k < length old \<Longrightarrow>
     k < length (p @ new @ drop (off + length new) old) \<and> (p @ new @ drop (off + length new) old) ! k = old ! k"
  by (auto simp: nth_append)

lemma overwrite_holds:
  assumes "new = map m [off ..< off + length new]"
  shows "holds_at m (Some old) k \<Longrightarrow> holds_at m (Some (overwrite off new old)) k"
    "off \<le> k \<Longrightarrow> k < off + length new \<Longrightarrow> holds_at m (Some (overwrite off new old)) k"
proof -
  have nth: "new ! (k - off) = m k" if "off \<le> k" "k < off + length new"
    using that by (subst assms) simp
  let ?p = "take off (old @ replicate (off - length old) 0)"
  have lp: "length ?p = off" and np: "k < off \<Longrightarrow> k < length old \<Longrightarrow> ?p ! k = old ! k"
    by (auto simp: nth_append)
  have ow: "overwrite off new old = ?p @ new @ drop (off + length new) old" if "new \<noteq> []"
    using that by (simp add: overwrite_def)
  show in_range: "holds_at m (Some (overwrite off new old)) k" if "off \<le> k" "k < off + length new"
  proof -
    have ne: "new \<noteq> []" using that by auto
    show ?thesis
      unfolding ow [OF ne] holds_at_def option.case
      using nth_patch [OF lp that, of "drop (off + length new) old"] nth [OF that] by argo
  qed
  assume h: "holds_at m (Some old) k"
  then have k: "k < length old" "old ! k = m k" by (auto simp: holds_at_def)
  consider "new = []" | "new \<noteq> []" "k < off" | "off \<le> k" "k < off + length new" | "new \<noteq> []" "off + length new \<le> k"
    by linarith
  then show "holds_at m (Some (overwrite off new old)) k"
  proof cases
    case 2
    then show ?thesis
      unfolding ow [OF 2(1)] holds_at_def option.case
      using nth_before [OF lp 2(2)] np [OF 2(2) k(1)] k(2) by metis
  next
    case 3
    then show ?thesis by (rule in_range)
  next
    case 4
    then show ?thesis
      unfolding ow [OF 4(1)] holds_at_def option.case
      using nth_after [OF lp 4(2) k(1)] k(2) by metis
  qed (use h in simp)
qed

lemma map_range_drop:
  "data = map m [off ..< off + length data] \<Longrightarrow>
     drop n data = map m [off + n ..< off + n + length (drop n data)]"
proof -
  assume d: "data = map m [off ..< off + length data]"
  have "drop n data = map m (drop n [off ..< off + length data])" by (subst d) (simp add: drop_map)
  then show ?thesis by (cases "n \<le> length data") (simp_all add: drop_upt)
qed

lemma map_range_take:
  assumes "data = map m [off ..< off + length data]"
  shows "take n data = map m [off ..< off + length (take n data)]"
proof -
  have "take n data = map m (take n [off ..< off + length data])" by (subst assms) (simp add: take_map)
  then show ?thesis by (simp add: take_upt min_def)
qed

lemma transferred_le: "transferred a n \<le> n"
  by (cases a) simp_all

lemma writeFullAtWriter_facts:
  assumes "writeFullAtWriter w ip data off = (err, w1)" "data = map m [off ..< off + length data]"
  shows "Stable w1 = Stable w" "q \<noteq> ip \<Longrightarrow> Files w1 q = Files w q"
    "holds_at m (Files w ip) k \<Longrightarrow> holds_at m (Files w1 ip) k"
    "err = None \<Longrightarrow> off \<le> k \<Longrightarrow> k < off + length data \<Longrightarrow> holds_at m (Files w1 ip) k"
proof -
  have "Stable w1 = Stable w \<and> (q \<noteq> ip \<longrightarrow> Files w1 q = Files w q) \<and>
    (holds_at m (Files w ip) k \<longrightarrow> holds_at m (Files w1 ip) k) \<and>
    (err = None \<longrightarrow> off \<le> k \<longrightarrow> k < off + length data \<longrightarrow> holds_at m (Files w1 ip) k)"
    using assms
  proof (induction w ip data off rule: writeFullAtWriter.induct)
    case (1 w p data off)
    show ?case
    proof (cases "data = []")
      case True
      with 1(2) show ?thesis by (simp add: writeFullAtWriter.simps [of w p "[]" off])
    next
      case ne: False
      obtain n er w2 where wr: "os_WriteAt w p off data = ((n, er), w2)" by (metis prod.exhaust)
      let ?new = "take n data"
      from wr have n: "n \<le> length data" and st: "Stable w2 = Stable w"
        and fl: "Files w2 = (Files w)(p := Some (overwrite off ?new (contents w p)))"
        by (auto simp: os_WriteAt_def Let_def put_file_def contents_def split: prod.splits dest!: next_io_frame
            intro: transferred_le)
      note ov = overwrite_holds [OF map_range_take [OF 1(3), of n]]
      have keep: "holds_at m (Files w p) k \<Longrightarrow> holds_at m (Files w2 p) k"
        using ov(1) fl by (auto simp: holds_at_def contents_def split: option.splits)
      have new: "off \<le> k \<Longrightarrow> k < off + n \<Longrightarrow> holds_at m (Files w2 p) k"
        using ov(2) fl n by (simp add: min_absorb2)
      show ?thesis
      proof (cases "er = None \<and> n \<noteq> 0")
        case False
        with 1(2) ne wr have "w1 = w2" "err \<noteq> None"
          by (auto simp: writeFullAtWriter.simps [of w p data off] split: option.splits)
        with st fl keep show ?thesis by auto
      next
        case True
        with 1(2) ne wr have rec: "writeFullAtWriter w2 p (drop n data) (off + n) = (err, w1)"
          by (simp add: writeFullAtWriter.simps [of w p data off])
        have nz: "n \<noteq> 0" "er = None" using True by simp_all
        from 1(1) [OF ne wr [symmetric] refl nz(2) nz(1) rec map_range_drop [OF 1(3)]]
        have ih: "Stable w1 = Stable w2" "q \<noteq> p \<longrightarrow> Files w1 q = Files w2 q"
          "holds_at m (Files w2 p) k \<longrightarrow> holds_at m (Files w1 p) k"
          "err = None \<longrightarrow> off + n \<le> k \<longrightarrow> k < off + n + length (drop n data) \<longrightarrow> holds_at m (Files w1 p) k"
          by blast+
        have "err = None \<longrightarrow> off \<le> k \<longrightarrow> k < off + length data \<longrightarrow> holds_at m (Files w1 p) k"
          using ih(3,4) new n by (cases "k < off + n") auto
        with ih st fl keep show ?thesis by auto
      qed
    qed
  qed
  then show "Stable w1 = Stable w" "q \<noteq> ip \<Longrightarrow> Files w1 q = Files w q"
    "holds_at m (Files w ip) k \<Longrightarrow> holds_at m (Files w1 ip) k"
    "err = None \<Longrightarrow> off \<le> k \<Longrightarrow> k < off + length data \<Longrightarrow> holds_at m (Files w1 ip) k"
    by blast+
qed

end
