(* ===== verification/JobSaved.thy ===== *)
theory JobSaved
  imports PersistenceFacts
begin

text \<open>
  The invariant of a running job, \<open>job_saved\<close>, and what is left when an operation has failed,
  \<open>crash_safe\<close>: each operation of the persistence layer leads from the first to the first, or
  with an error to the second.
\<close>

section \<open>The invariant\<close>

definition crash_safe :: "(nat \<Rightarrow> u8) \<Rightarrow> Header \<Rightarrow> string \<Rightarrow> string \<Rightarrow> nat set \<Rightarrow> Persistence \<Rightarrow> bool" where
  "crash_safe m h mp ip K p \<longleftrightarrow>
     (\<forall>bs ibs w2. crash_of (disk p) mp bs \<longrightarrow> crash_image (disk p) ip ibs \<longrightarrow> length bs < 9223372036854775808 \<longrightarrow>
        Files w2 mp = Some bs \<longrightarrow> Script w2 = [] \<longrightarrow>
        (\<exists>es. Inspect w2 mp (geometry_of h) = (Inr (h, es), w2) \<and> K \<subseteq> claimed es \<and>
           image_holds m (unat (LogicalSectorSize h)) (claimed es) (Some ibs)))"

definition job_saved :: "(nat \<Rightarrow> u8) \<Rightarrow> Header \<Rightarrow> string \<Rightarrow> string \<Rightarrow> nat set \<Rightarrow> Persistence \<Rightarrow> bool" where
  "job_saved m h mp ip K p \<longleftrightarrow>
     header (store p) = h \<and> path (store p) = mp \<and> image p = ip \<and> ip \<noteq> mp \<and>
     Stable (disk p) mp = Files (disk p) mp \<and>
     pendingRecoveredBytes p \<le> MaxPendingRecoveredBytes \<and>
     (pendingRecoveredBytes p = 0 \<longrightarrow> pendingRecords (store p) = []) \<and>
     image_holds m (unat (LogicalSectorSize h)) (claimed (extents (store p))) (Files (disk p) ip) \<and>
     image_holds m (unat (LogicalSectorSize h)) (claimed (durableExtents (store p))) (Stable (disk p) ip) \<and>
     K \<subseteq> claimed (durableExtents (store p)) \<and>
     (\<exists>c rs ps. session c rs ps (disk p) (store p))"

lemma job_savedI:
  assumes "header (store p) = h" "path (store p) = mp" "image p = ip" "ip \<noteq> mp"
    "Stable (disk p) mp = Files (disk p) mp" "pendingRecoveredBytes p \<le> MaxPendingRecoveredBytes"
    "pendingRecoveredBytes p = 0 \<Longrightarrow> pendingRecords (store p) = []"
    "image_holds m (unat (LogicalSectorSize h)) (claimed (extents (store p))) (Files (disk p) ip)"
    "image_holds m (unat (LogicalSectorSize h)) (claimed (durableExtents (store p))) (Stable (disk p) ip)"
    "K \<subseteq> claimed (durableExtents (store p))" "session c rs ps (disk p) (store p)"
  shows "job_saved m h mp ip K p"
  using assms unfolding job_saved_def by blast

lemma job_savedD:
  assumes "job_saved m h mp ip K p"
  shows "header (store p) = h" "path (store p) = mp" "image p = ip" "ip \<noteq> mp"
    "Stable (disk p) mp = Files (disk p) mp" "pendingRecoveredBytes p \<le> MaxPendingRecoveredBytes"
    "pendingRecoveredBytes p = 0 \<Longrightarrow> pendingRecords (store p) = []"
    "image_holds m (unat (LogicalSectorSize h)) (claimed (extents (store p))) (Files (disk p) ip)"
    "image_holds m (unat (LogicalSectorSize h)) (claimed (durableExtents (store p))) (Stable (disk p) ip)"
    "K \<subseteq> claimed (durableExtents (store p))" "\<exists>c rs ps. session c rs ps (disk p) (store p)"
  using assms unfolding job_saved_def by blast+

section \<open>Claims along a journal\<close>

lemma claimed_downgraded: "claimed (downgraded es) = claimed es"
proof -
  let ?f = "\<lambda>e. if State e = SectorStateQueued
              then e\<lparr>State := SectorStateUnknown, Confidence := ConfidenceNone\<rparr> else e"
  have d: "downgraded es = map ?f es" by (simp add: downgraded_def downgrade_queued_def)
  have "(\<exists>b. extent_at (map ?f es) n = Some b \<and> stateClaimsImageData (State b)) \<longleftrightarrow>
        (\<exists>b. extent_at es n = Some b \<and> stateClaimsImageData (State b))" for n
    by (induction es) (auto simp: extent_at_def covers_def stateClaimsImageData_def)
  then show ?thesis unfolding claimed_def d by simp
qed

lemma on_medium_within32: "on_medium n es \<Longrightarrow> n < 4294967296 \<Longrightarrow> within32 es"
  unfolding on_medium_def within32_def by (blast intro: le_less_trans)

lemma record_on_medium_within32: "record_on_medium n r \<Longrightarrow> n < 4294967296 \<Longrightarrow> record_within32 r"
  unfolding record_on_medium_def record_within32_def by (auto split: option.splits intro: le_less_trans)

lemma records_keep_claims:
  assumes "apply_records c rs = Inr d" "on_medium n (Extents c)" "list_all (record_on_medium n) rs" "n < 4294967296"
  shows "claimed (Extents c) \<subseteq> claimed (Extents d)"
proof -
  have "list_all record_within32 rs"
    using assms(3,4) record_on_medium_within32 by (auto simp: list_all_iff)
  from apply_records_keeps [OF assms(1) on_medium_within32 [OF assms(2,4)] this] show ?thesis
    unfolding claimed_def by blast
qed

lemma session_parts:
  assumes "session c rs ps w s"
  obtains js bs d e where "Files w (path s) = Some bs" "map_file (header s) c (concat js) bs"
    "journaled c rs js d" "Extents d = durableExtents s" "journaled d ps (pendingRecords s) e"
    "Extents e = extents s" "on_medium (unat (ExpectedSectorCount (header s))) (Extents d)"
    "on_medium (unat (ExpectedSectorCount (header s))) (Extents e)"
proof -
  let ?n = "unat (ExpectedSectorCount (header s))"
  from assms have n: "?n < 4294967296" "on_medium ?n (Extents c)" "list_all (record_on_medium ?n) rs"
    "list_all (record_on_medium ?n) ps" by (auto simp: session_def)
  from assms obtain js bs d e where j: "Files w (path s) = Some bs" "map_file (header s) c (concat js) bs"
    "journaled c rs js d" "Extents d = durableExtents s" "journaled d ps (pendingRecords s) e"
    "Extents e = extents s" unfolding session_def by blast
  have d: "on_medium ?n (Extents d)"
    using apply_records_on_medium [OF _ n(2,3,1)] j(3) by (simp add: journaled_def)
  have "on_medium ?n (Extents e)"
    using apply_records_on_medium [OF _ d n(4,1)] j(5) by (simp add: journaled_def)
  with that j d show ?thesis by blast
qed

lemma session_on_medium:
  "session c rs ps w s \<Longrightarrow> on_medium (unat (ExpectedSectorCount (header s))) (extents s)"
  by (erule session_parts) simp

lemma session_claims:
  assumes "session c rs ps w s"
  shows "claimed (durableExtents s) \<subseteq> claimed (extents s)"
proof -
  from assms have n: "unat (ExpectedSectorCount (header s)) < 4294967296"
    "list_all (record_on_medium (unat (ExpectedSectorCount (header s)))) ps" by (auto simp: session_def)
  from assms obtain js bs d e where d: "Extents d = durableExtents s" "journaled d ps (pendingRecords s) e"
    "Extents e = extents s" "on_medium (unat (ExpectedSectorCount (header s))) (Extents d)" by (rule session_parts)
  then show ?thesis using records_keep_claims [OF _ d(4) n(2,1)] by (simp add: journaled_def)
qed

lemma session_drained: "session c rs ps w s \<Longrightarrow> pendingRecords s = [] \<Longrightarrow> durableExtents s = extents s"
  by (auto simp: session_def journaled_def)

text \<open>What is read from the map when it was cut off somewhere in its pending records.\<close>

lemma cut_claims:
  assumes ses: "session c rs ps w s" and b0: "Files w (path s) = Some b0"
    and bs: "bs = b0 @ take n (concat (pendingRecords s))" "length bs < 9223372036854775808"
    and w2: "Files w2 (path s) = Some bs" "Script w2 = []"
  shows "\<exists>es. Inspect w2 (path s) (geometry_of (header s)) = (Inr (header s, es), w2) \<and>
    claimed (durableExtents s) \<subseteq> claimed es \<and> claimed es \<subseteq> claimed (extents s)"
proof -
  let ?n = "unat (ExpectedSectorCount (header s))"
  from Inspect_cut [OF assms] obtain i d where i: "i \<le> length ps" "apply_records c (rs @ take i ps) = Inr d"
    "Inspect w2 (path s) (geometry_of (header s)) = (Inr (header s, downgraded (Extents d)), w2)" by blast
  from ses have n: "?n < 4294967296" "on_medium ?n (Extents c)" "list_all (record_on_medium ?n) rs"
    "list_all (record_on_medium ?n) ps" by (auto simp: session_def)
  from ses obtain js bs' d0 e where j: "journaled c rs js d0" "Extents d0 = durableExtents s"
    "journaled d0 ps (pendingRecords s) e" "Extents e = extents s" "on_medium ?n (Extents d0)"
    by (rule session_parts)
  have a0: "apply_records c rs = Inr d0" "apply_records d0 ps = Inr e" using j by (simp_all add: journaled_def)
  then have t: "apply_records d0 (take i ps) = Inr d" using i(2) by (simp add: apply_records_append)
  have ps: "list_all (record_on_medium ?n) (take i ps)" "list_all (record_on_medium ?n) (drop i ps)"
    using n(4) by (auto simp: list_all_iff dest: in_set_takeD in_set_dropD)
  have "apply_records d (drop i ps) = Inr e"
    using a0(2) t apply_records_append [of d0 "take i ps" "drop i ps"] by simp
  then have "claimed (Extents d) \<subseteq> claimed (extents s)"
    using records_keep_claims [OF _ apply_records_on_medium [OF t j(5) ps(1) n(1)] ps(2) n(1)] j(4) by simp
  moreover have "claimed (durableExtents s) \<subseteq> claimed (Extents d)"
    using records_keep_claims [OF t j(5) ps(1) n(1)] j(2) by simp
  ultimately show ?thesis using i(3) claimed_downgraded by blast
qed

text \<open>The map may be cut off in what was appended, as long as the image backs everything appended.\<close>

lemma cut_crash_safe:
  assumes "session c rs ps w s" "Files w mp = Some b0" "header s = h" "path s = mp"
    and "\<And>bs. crash_of (disk p) mp bs \<Longrightarrow> \<exists>n. bs = b0 @ take n (concat (pendingRecords s))"
    and "image_holds m (unat (LogicalSectorSize h)) (claimed (extents s)) (Files (disk p) ip)"
    and "image_holds m (unat (LogicalSectorSize h)) (claimed (extents s)) (Stable (disk p) ip)"
    and "K \<subseteq> claimed (durableExtents s)"
  shows "crash_safe m h mp ip K p"
  unfolding crash_safe_def
proof (intro allI impI)
  fix bs ibs and w2 :: World
  assume c: "crash_of (disk p) mp bs" "crash_image (disk p) ip ibs" "length bs < 9223372036854775808"
    "Files w2 mp = Some bs" "Script w2 = []"
  from assms(5) [OF c(1)] obtain n where "bs = b0 @ take n (concat (pendingRecords s))" by blast
  with cut_claims [OF assms(1)] assms(2-4) c obtain es where
    es: "Inspect w2 mp (geometry_of h) = (Inr (h, es), w2)" "claimed (durableExtents s) \<subseteq> claimed es"
      "claimed es \<subseteq> claimed (extents s)" by blast
  have "image_holds m (unat (LogicalSectorSize h)) (claimed es) (Some ibs)"
    using image_holds_crash [OF assms(7,6) c(2)] es(3) image_holds_mono by blast
  with es assms(8) show "\<exists>es. Inspect w2 mp (geometry_of h) = (Inr (h, es), w2) \<and> K \<subseteq> claimed es \<and>
      image_holds m (unat (LogicalSectorSize h)) (claimed es) (Some ibs)" by blast
qed

text \<open>Without a flush under way only the durable extents are read back.\<close>

lemma job_saved_crash_safe:
  assumes "job_saved m h mp ip K p"
  shows "crash_safe m h mp ip K p"
  unfolding crash_safe_def
proof (intro allI impI)
  note sv = job_savedD [OF assms]
  fix bs ibs and w2 :: World
  assume c: "crash_of (disk p) mp bs" "crash_image (disk p) ip ibs" "length bs < 9223372036854775808"
    "Files w2 mp = Some bs" "Script w2 = []"
  from sv(11) obtain cp rs ps where ses: "session cp rs ps (disk p) (store p)" by blast
  then obtain js b0 d where j: "Files (disk p) (path (store p)) = Some b0" "map_file (header (store p)) cp (concat js) b0"
    "journaled cp rs js d" "Extents d = durableExtents (store p)" by (rule session_parts)
  have "bs = b0" using c(1) sv(2,5) j(1) by (auto simp: crash_of_def)
  moreover have "torn []" by (simp add: torn_def)
  ultimately have "Inspect w2 mp (geometry_of h) = (Inr (h, downgraded (durableExtents (store p))), w2)"
    using Inspect_session [OF ses, of w2 b0 js "[]" rs d] sv(1,2) c j by auto
  moreover have "image_holds m (unat (LogicalSectorSize h)) (claimed (durableExtents (store p))) (Some ibs)"
    using image_holds_crash [OF sv(9) _ c(2)] image_holds_mono [OF sv(8) session_claims [OF ses]] by blast
  ultimately show "\<exists>es. Inspect w2 mp (geometry_of h) = (Inr (h, es), w2) \<and> K \<subseteq> claimed es \<and>
      image_holds m (unat (LogicalSectorSize h)) (claimed es) (Some ibs)"
    using sv(10) by (intro exI [of _ "downgraded (durableExtents (store p))"]) (simp add: claimed_downgraded)
qed

section \<open>The operations\<close>

lemma now_frame:
  "now p = (t, q) \<Longrightarrow> disk q = disk p \<and> store q = store p \<and> image q = image p \<and>
     pendingRecoveredBytes q = pendingRecoveredBytes p"
  by (auto simp: now_def split: list.splits)

lemma job_saved_cong:
  "disk q = disk p \<Longrightarrow> store q = store p \<Longrightarrow> image q = image p \<Longrightarrow>
   pendingRecoveredBytes q = pendingRecoveredBytes p \<Longrightarrow> job_saved m h mp ip K q = job_saved m h mp ip K p"
  by (simp add: job_saved_def)

lemma crash_safe_cong: "disk q = disk p \<Longrightarrow> crash_safe m h mp ip K q = crash_safe m h mp ip K p"
  by (simp add: crash_safe_def)

lemma session_frame:
  "session c rs ps w s \<Longrightarrow> Files w1 (path s) = Files w (path s) \<Longrightarrow> session c rs ps w1 s"
  by (simp add: session_def)

lemma os_Sync_parts:
  "os_Sync w p = (e, w1) \<Longrightarrow> Files w1 = Files w \<and>
     (e = None \<longrightarrow> Stable w1 = (Stable w)(p := Files w p)) \<and> (e \<noteq> None \<longrightarrow> Stable w1 = Stable w)"
  by (auto simp: os_Sync_def split: prod.splits option.splits dest!: next_io_frame)

text \<open>A flush behind a synced image.\<close>

lemma flush_step:
  assumes ses: "session c rs ps w s" and st: "Stable w mp = Files w mp" and hp: "header s = h" "path s = mp"
    and ip: "ip \<noteq> mp" and K: "K \<subseteq> claimed (durableExtents s)"
    and im: "image_holds m (unat (LogicalSectorSize h)) (claimed (extents s)) (Files w ip)"
      "image_holds m (unat (LogicalSectorSize h)) (claimed (extents s)) (Stable w ip)"
    and f: "Flush w s = (err, s1, w1)" and q: "disk q = w1"
  shows "crash_safe m h mp ip K q"
    "err = None \<Longrightarrow> store q = s1 \<Longrightarrow> image q = ip \<Longrightarrow> pendingRecoveredBytes q = 0 \<Longrightarrow>
       job_saved m h mp ip K q \<and> extents s1 = extents s \<and> durableExtents s1 = extents s \<and> pendingRecords s1 = []"
proof -
  have u: "\<not> unusable s" using ses by (simp add: session_def)
  obtain b0 where b0: "Files w (path s) = Some b0" using ses by (auto simp: session_def)
  from Flush_end(1) [OF f b0 u] obtain k where
    k: "Files w1 = (Files w)(path s := Some (b0 @ take k (concat (pendingRecords s))))" by blast
  have oth: "Files w1 ip = Files w ip" "Stable w1 ip = Stable w ip"
    using k Flush_other [OF f] ip hp by simp_all
  have cut: "\<exists>n. bs = b0 @ take n (concat (pendingRecords s))" if "crash_of (disk q) mp bs" for bs
  proof -
    have a: "Stable w (path s) = Files w (path s)" "crash_of w1 (path s) bs" using st hp that q by simp_all
    from Flush_cut [OF f u b0 a] show ?thesis by blast
  qed
  show "crash_safe m h mp ip K q"
    by (rule cut_crash_safe [OF ses _ hp cut]) (use b0 hp im oth q K in simp_all)
  assume n: "err = None" "store q = s1" "image q = ip" "pendingRecoveredBytes q = 0"
  note fe = Flush_end(2-5,8,9) [OF f b0 u]
  have ses1: "session c (rs @ ps) [] w1 s1" using session_flush [OF ses] f n(1) by simp
  have pr: "pendingRecords s1 = []" using fe n(1) by blast
  have ext: "extents s1 = extents s" "durableExtents s1 = extents s"
    using fe(1) session_drained [OF ses1 pr] by simp_all
  have st1: "Stable w1 mp = Files w1 mp"
  proof (cases "pendingRecords s = []")
    case True
    then have "w1 = w" using f u by (simp add: Flush_def)
    then show ?thesis using st by simp
  next
    case False
    then show ?thesis using Flush_Stable(2) [OF f u n(1)] hp by simp
  qed
  have K1: "K \<subseteq> claimed (durableExtents s1)" using K session_claims [OF ses] ext by (metis subset_trans)
  have "job_saved m h mp ip K q"
  proof (rule job_savedI)
    show "header (store q) = h" using n(2) fe(3) hp(1) by metis
    show "path (store q) = mp" using n(2) fe(4) hp(2) by metis
    show "Stable (disk q) mp = Files (disk q) mp" using st1 unfolding q .
    show "image_holds m (unat (LogicalSectorSize h)) (claimed (extents (store q))) (Files (disk q) ip)"
      using im(1) unfolding q n(2) ext(1) oth(1) .
    show "image_holds m (unat (LogicalSectorSize h)) (claimed (durableExtents (store q))) (Stable (disk q) ip)"
      using im(2) unfolding q n(2) ext(2) oth(2) .
    show "K \<subseteq> claimed (durableExtents (store q))" using K1 unfolding n(2) .
    show "session c (rs @ ps) [] (disk q) (store q)" using ses1 unfolding q n(2) .
    show "pendingRecords (store q) = []" using pr unfolding n(2) .
  qed (use n ip in simp_all)
  with ext pr show "job_saved m h mp ip K q \<and> extents s1 = extents s \<and> durableExtents s1 = extents s \<and> pendingRecords s1 = []"
    by blast
qed

lemma ForceCheckpoint_step:
  assumes sv: "job_saved m h mp ip K p" and f: "ForceCheckpoint p reason = (err, q)"
  shows "err \<noteq> None \<Longrightarrow> crash_safe m h mp ip K q"
    "err = None \<Longrightarrow> job_saved m h mp ip K q \<and> extents (store q) = extents (store p) \<and>
       durableExtents (store q) = extents (store p) \<and> pendingRecords (store q) = [] \<and> pendingRecoveredBytes q = 0"
proof -
  note v = job_savedD [OF sv]
  from v(11) obtain c rs ps where ses: "session c rs ps (disk p) (store p)" by blast
  have "(err \<noteq> None \<longrightarrow> crash_safe m h mp ip K q) \<and>
    (err = None \<longrightarrow> job_saved m h mp ip K q \<and> extents (store q) = extents (store p) \<and>
       durableExtents (store q) = extents (store p) \<and> pendingRecords (store q) = [] \<and> pendingRecoveredBytes q = 0)"
  proof (cases "pendingRecoveredBytes p = 0 \<and> pendingBytes (store p) = 0")
    case True
    obtain t p1 where n: "now p = (t, p1)" by force
    from f True n have e: "err = None" and q: "q = p1\<lparr>lastCheckpoint := t\<rparr>" by (simp_all add: ForceCheckpoint_def)
    have fr: "disk q = disk p" "store q = store p" "image q = image p" "pendingRecoveredBytes q = pendingRecoveredBytes p"
      using now_frame [OF n] q by simp_all
    have "pendingRecords (store p) = []" using v(7) True by simp
    then show ?thesis
      using e fr job_saved_cong [OF fr] sv session_drained [OF ses] True by simp
  next
    case False
    obtain e1 w1 where y: "(if pendingRecoveredBytes p > 0 then os_Sync (disk p) (image p) else (None, disk p)) = (e1, w1)"
      by force
    have w1: "Files w1 = Files (disk p)" "Stable w1 mp = Stable (disk p) mp"
      "e1 \<noteq> None \<Longrightarrow> Stable w1 = Stable (disk p)"
      "e1 = None \<Longrightarrow> pendingRecoveredBytes p > 0 \<Longrightarrow> Stable w1 ip = Files (disk p) ip"
      "pendingRecoveredBytes p = 0 \<Longrightarrow> w1 = disk p"
      using y v(3,4) by (auto split: if_splits dest!: os_Sync_parts dest: fun_cong [where x = ip])
    show ?thesis
    proof (cases e1)
      case (Some er)
      with f False y have e: "err \<noteq> None" and q: "q = p\<lparr>disk := w1\<rparr>" by (auto simp: ForceCheckpoint_def)
      have sq: "Stable w1 = Stable (disk p)" using w1(3) Some by simp
      have "job_saved m h mp ip K q = job_saved m h mp ip K p"
        using sq w1(1) session_frame unfolding q job_saved_def by simp metis
      then have "job_saved m h mp ip K q" using sv by simp
      with e job_saved_crash_safe show ?thesis by blast
    next
      case None
      have im: "image_holds m (unat (LogicalSectorSize h)) (claimed (extents (store p))) (Files w1 ip)"
        using v(8) w1(1) by simp
      have im2: "image_holds m (unat (LogicalSectorSize h)) (claimed (extents (store p))) (Stable w1 ip)"
      proof (cases "pendingRecoveredBytes p > 0")
        case True
        from v(8) show ?thesis unfolding w1(4) [OF None True] .
      next
        case z: False
        have z0: "pendingRecoveredBytes p = 0" using z word_gt_0 [of "pendingRecoveredBytes p"] by argo
        show ?thesis
          using v(9) unfolding w1(5) [OF z0] session_drained [OF ses v(7) [OF z0]] .
      qed
      have ses1: "session c rs ps w1 (store p)" using session_frame [OF ses] w1(1) by simp
      have st1: "Stable w1 mp = Files w1 mp" using v(5) w1(1,2) by simp
      obtain e2 s1 w2 where fl: "Flush w1 (store p) = (e2, s1, w2)" by (metis prod.exhaust)
      note step = flush_step [OF ses1 st1 v(1,2,4) v(10) im im2 fl]
      show ?thesis
      proof (cases e2)
        case (Some er)
        with f False y None fl have "err \<noteq> None" "disk q = w2" by (auto simp: ForceCheckpoint_def)
        with step(1) show ?thesis by blast
      next
        case n2: None
        with f False y None fl have e: "err = None" and q: "disk q = w2" "store q = s1" "image q = image p"
          "pendingRecoveredBytes q = 0"
          by (auto simp: ForceCheckpoint_def split: prod.splits dest!: now_frame)
        from step(2) [OF q(1) n2 q(2) _ q(4)] q e v(3) show ?thesis by simp
      qed
    qed
  qed
  then show "err \<noteq> None \<Longrightarrow> crash_safe m h mp ip K q"
    "err = None \<Longrightarrow> job_saved m h mp ip K q \<and> extents (store q) = extents (store p) \<and>
       durableExtents (store q) = extents (store p) \<and> pendingRecords (store q) = [] \<and> pendingRecoveredBytes q = 0"
    by blast+
qed

text \<open>An extent that claims no data goes to the map at once.\<close>

lemma append_cut:
  assumes a: "appendExtent w s e True = (err, s1, w1)" and b0: "Files w (path s) = Some b0"
    and st: "Stable w (path s) = Files w (path s)" and pr: "prepareExtent s e = Inr (es, b)"
  shows "crash_of w1 (path s) bs \<Longrightarrow> \<exists>n. bs = b0 @ take n b"
    "q \<noteq> path s \<Longrightarrow> Files w1 q = Files w q \<and> Stable w1 q = Stable w q"
proof -
  have "\<exists>k. Files w1 = (Files w)(path s := Some (b0 @ take k b)) \<and>
    (Stable w1 (path s) = Stable w (path s) \<or> Stable w1 (path s) = Files w1 (path s)) \<and>
    (q \<noteq> path s \<longrightarrow> Stable w1 q = Stable w q)"
  proof -
    obtain r w2 where sk: "os_SeekEnd w (path s) = (r, w2)" by force
    note fr = os_SeekEnd_frame [OF sk]
    show ?thesis
    proof (cases r)
      case (Inl er)
      with a pr sk have "w1 = w2" by (simp add: appendExtent_def)
      with fr b0 show ?thesis by (intro exI [of _ 0]) (simp add: fun_upd_idem)
    next
      case (Inr pos)
      have f2: "Files w2 (path s) = Some b0" using fr b0 by simp
      have pos: "pos = length b0" using os_SeekEnd_pos [OF sk [unfolded Inr] b0] by simp
      obtain e1 q1 w3 where wf: "writeFull w2 (path s) pos b = ((e1, q1), w3)" by (metis prod.exhaust)
      from writeFull_end [OF f2] wf pos obtain k where
        k: "Files w3 = (Files w2)(path s := Some (b0 @ take k b))" by blast
      have s3: "Stable w3 = Stable w2" by (rule writeFull_Stable [OF wf])
      show ?thesis
      proof (cases e1)
        case (Some er)
        with a pr sk Inr wf have "w1 = w3" by (simp add: appendExtent_def)
        with k s3 fr show ?thesis by auto
      next
        case None
        obtain e2 w4 where sy: "os_Sync w3 (path s) = (e2, w4)" by force
        with a pr sk Inr wf None have "w1 = w4" by (auto simp: appendExtent_def split: option.splits)
        with k s3 fr os_Sync_parts [OF sy] show ?thesis by (cases e2) auto
      qed
    qed
  qed
  then obtain k where k: "Files w1 = (Files w)(path s := Some (b0 @ take k b))"
    "Stable w1 (path s) = Stable w (path s) \<or> Stable w1 (path s) = Files w1 (path s)"
    "q \<noteq> path s \<longrightarrow> Stable w1 q = Stable w q" by blast
  show "q \<noteq> path s \<Longrightarrow> Files w1 q = Files w q \<and> Stable w1 q = Stable w q" using k(1,3) by simp
  assume "crash_of w1 (path s) bs"
  then obtain t x j where x: "Stable w1 (path s) = Some t" "Files w1 (path s) = Some (t @ x)" "bs = t @ take j x"
    by (auto simp: crash_of_def)
  from k(2) show "\<exists>n. bs = b0 @ take n b"
  proof
    assume "Stable w1 (path s) = Stable w (path s)"
    then have "t = b0" "x = take k b" using x(1,2) st b0 k(1) by simp_all
    then have "bs = b0 @ take (min k j) b" using x(3) by (simp add: min.commute)
    then show ?thesis by blast
  next
    assume "Stable w1 (path s) = Files w1 (path s)"
    then have "x = []" "t = b0 @ take k b" using x(1,2) k(1) by simp_all
    then show ?thesis using x(3) by auto
  qed
qed

lemma claimed_apply:
  assumes "ApplyExtent es e = Inr r" "within32 es" "endN e < 4294967296"
  shows "claimed r = (if stateClaimsImageData (State e) then claimed es \<union> {startN e ..< endN e}
                      else claimed es - {startN e ..< endN e})"
    "claimed es \<subseteq> claimed r"
proof -
  note at = ApplyExtent_result(4) [OF assms]
  show "claimed es \<subseteq> claimed r"
    unfolding claimed_def using ApplyExtent_keeps_claims [OF assms] by blast
  show "claimed r = (if stateClaimsImageData (State e) then claimed es \<union> {startN e ..< endN e}
                      else claimed es - {startN e ..< endN e})"
    using at by (auto simp: claimed_def covers_def)
qed

lemma claimed_apply_none:
  assumes "ApplyExtent es e = Inr r" "within32 es" "endN e < 4294967296" "\<not> stateClaimsImageData (State e)"
  shows "claimed r = claimed es"
  using claimed_apply [OF assms(1-3)] assms(4) by auto

lemma ApplyExtent_step:
  assumes sv: "job_saved m h mp ip K p" and a: "Persistence_ApplyExtent p e = (err, q)"
    and e: "extent_typed e" "endN e \<le> unat (ExpectedSectorCount h)" "\<not> stateClaimsImageData (State e)"
  shows "err \<noteq> None \<Longrightarrow> crash_safe m h mp ip K q"
    "err = None \<Longrightarrow> job_saved m h mp ip K q \<and> ApplyExtent (extents (store p)) e = Inr (extents (store q))"
proof -
  obtain e1 p1 where fc: "ForceCheckpoint p CheckpointReasonPassTransition = (e1, p1)" by force
  note step = ForceCheckpoint_step [OF sv fc]
  have "(err \<noteq> None \<longrightarrow> crash_safe m h mp ip K q) \<and> (err = None \<longrightarrow> job_saved m h mp ip K q \<and>
    ApplyExtent (extents (store p)) e = Inr (extents (store q)))"
  proof (cases e1)
    case (Some er)
    with a fc have "err \<noteq> None" "q = p1" by (auto simp: Persistence_ApplyExtent_def)
    with step(1) Some show ?thesis by auto
  next
    case None
    from step(2) [OF None] have sv1: "job_saved m h mp ip K p1" and x1: "extents (store p1) = extents (store p)"
      and pr1: "pendingRecords (store p1) = []" and z1: "pendingRecoveredBytes p1 = 0" by blast+
    note v = job_savedD [OF sv1]
    from v(11) obtain c rs ps where ses: "session c rs ps (disk p1) (store p1)" by blast
    have u: "\<not> unusable (store p1)" using ses by (simp add: session_def)
    obtain s1 w1 where ap: "appendExtent (disk p1) (store p1) e True = (err, s1, w1)"
      and q: "q = p1\<lparr>store := s1, disk := w1\<rparr>"
      using a fc None u pr1 by (auto simp: Persistence_ApplyExtent_def Store_ApplyExtent_def Flush_def split: prod.splits)
    have sa: "Store_ApplyExtent (disk p1) (store p1) e = (err, s1, w1)"
      using ap u pr1 by (simp add: Store_ApplyExtent_def Flush_def)
    have on: "endN e \<le> unat (ExpectedSectorCount (header (store p1)))" using e(2) v(1) by simp
    show ?thesis
    proof (cases "prepareExtent (store p1) e")
      case (Inl er)
      with ap have "err \<noteq> None" "s1 = store p1" "w1 = disk p1" by (auto simp: appendExtent_def)
      with q job_saved_crash_safe [OF sv1] crash_safe_cong [of q p1] show ?thesis by auto
    next
      case (Inr y)
      obtain es b where y: "y = (es, b)" by force
      note pr = Inr [unfolded y]
      let ?s = "(store p1)\<lparr>extents := es, nextSequence := nextSequence (store p1) + 1, pendingRecords := [b],
                 pendingBytes := pendingBytes (store p1) + of_nat (length b)\<rparr>"
      have stg: "StageExtent (store p1) e = (None, ?s)" using u pr pr1 by (simp add: StageExtent_def)
      note ss = session_stage [OF ses stg e(1) on]
      have small: "unat (ExpectedSectorCount (header (store p1))) < 4294967296" using ses by (simp add: session_def)
      have w32: "within32 (extents (store p1))" "endN e < 4294967296"
        using on_medium_within32 [OF session_on_medium [OF ses] small] on small by simp_all
      have ap1: "ApplyExtent (extents (store p1)) e = Inr es" using ss(2) by simp
      have cl: "claimed es = claimed (extents (store p1))" using claimed_apply_none [OF ap1 w32 e(3)] .
      obtain b0 where b0: "Files (disk p1) (path (store p1)) = Some b0" using ses by (auto simp: session_def)
      have st: "Stable (disk p1) (path (store p1)) = Files (disk p1) (path (store p1))" using v(2,5) by simp
      note cut = append_cut [OF ap b0 st pr]
      have oth: "Files (disk q) ip = Files (disk p1) ip" "Stable (disk q) ip = Stable (disk p1) ip"
        using cut(2) [of ip] v(2,4) q by simp_all
      have du: "durableExtents (store p1) = extents (store p1)" using session_drained [OF ses pr1] .
      have imF: "image_holds m (unat (LogicalSectorSize h)) (claimed es) (Files (disk q) ip)"
        using v(8) unfolding cl oth .
      have imS: "image_holds m (unat (LogicalSectorSize h)) (claimed es) (Stable (disk q) ip)"
        using v(9) unfolding cl oth du .
      have safe: "crash_safe m h mp ip K q"
      proof (rule cut_crash_safe [OF ss(1)])
        show "Files (disk p1) mp = Some b0" using b0 unfolding v(2) .
        show "header ?s = h" "path ?s = mp" using v(1,2) by simp_all
        show "\<exists>n. bs = b0 @ take n (concat (pendingRecords ?s))" if "crash_of (disk q) mp bs" for bs
          using cut(1) [of bs] that q v(2) by simp
      qed (use imF imS v(10) in simp_all)
      show ?thesis
      proof (cases err)
        case None
        note sp = session_append [OF ses sa [unfolded None] e(1) on]
        have es: "extents s1 = es" using sp(2) ap1 by simp
        have pr2: "pendingRecords s1 = []" using sp(1) by (auto simp: session_def journaled_def)
        have du1: "durableExtents s1 = es" using session_drained [OF sp(1) pr2] es by simp
        have "K \<subseteq> claimed es" using v(10) unfolding du cl .
        then have "job_saved m h mp ip K q"
          using sp imF imS v(1-4) z1 es du1 pr2 q
          by (intro job_savedI [where c = c and rs = "rs @ ps @ [extent_record (nextSequence (store p1)) e]" and ps = "[]"])
             (simp_all)
        with None ap1 es q x1 show ?thesis by simp
      qed (use safe in simp)
    qed
  qed
  then show "err \<noteq> None \<Longrightarrow> crash_safe m h mp ip K q"
    "err = None \<Longrightarrow> job_saved m h mp ip K q \<and> ApplyExtent (extents (store p)) e = Inr (extents (store q))"
    by blast+
qed

text \<open>Recovered data goes into the image before the map claims it.\<close>

lemma range_holds:
  assumes "\<And>k. off \<le> k \<Longrightarrow> k < off + len \<Longrightarrow> holds_at m f k" "off = startN e * ss" "len = unat (Sectors e) * ss"
  shows "image_holds m ss {startN e ..< endN e} f"
  unfolding image_holds_def
proof (intro ballI allI impI)
  fix n i assume n: "n \<in> {startN e ..< endN e}" and i: "i < ss"
  have lo: "startN e * ss \<le> n * ss" by (rule mult_le_mono1) (use n in simp)
  have "Suc n * ss \<le> endN e * ss" by (rule mult_le_mono1) (use n in simp)
  then have "ss + n * ss \<le> startN e * ss + unat (Sectors e) * ss" by (simp only: mult_Suc add_mult_distrib)
  then have "off \<le> n * ss + i" "n * ss + i < off + len"
    using lo i unfolding assms(2,3) by linarith+
  then show "holds_at m f (n * ss + i)" by (rule assms(1))
qed

lemma stage_recovered_staged:
  assumes sv: "job_saved m h mp ip K p" and wf: "writeFullAtWriter (disk p) ip data off = (None, w1)"
    and d: "data = map m [off ..< off + length data]" "off = startN e * unat (LogicalSectorSize h)"
      "length data = unat (Sectors e) * unat (LogicalSectorSize h)" "data \<noteq> []" "length data < 18446744073709551616"
    and lim: "(of_nat (length data) :: u64) \<le> MaxPendingRecoveredBytes"
      "pendingRecoveredBytes p = 0 \<or> pendingRecoveredBytes p + of_nat (length data) \<le> MaxPendingRecoveredBytes"
    and e: "extent_typed e" "endN e \<le> unat (ExpectedSectorCount h)"
    and stg: "StageExtent (store p) e = (None, s1)"
  shows "job_saved m h mp ip K (p\<lparr>disk := w1, store := s1,
      pendingRecoveredBytes := pendingRecoveredBytes p + of_nat (length data),
      pendingRecordCount := pendingRecordCount p + 1\<rparr>)"
proof -
  let ?ss = "unat (LogicalSectorSize h)"
  note v = job_savedD [OF sv]
  from v(11) obtain c rs ps where ses: "session c rs ps (disk p) (store p)" by blast
  note wr = writeFullAtWriter_facts [OF wf d(1)]
  have mpf: "Files w1 mp = Files (disk p) mp" using wr(2) v(4) by simp
  have keepF: "image_holds m ?ss S (Files w1 ip)" if "image_holds m ?ss S (Files (disk p) ip)" for S
    using that wr(3) unfolding image_holds_def by blast
  have ses1: "session c rs ps w1 (store p)" using session_frame [OF ses] mpf v(2) by simp
  have on: "endN e \<le> unat (ExpectedSectorCount (header (store p)))" using e(2) v(1) by simp
  note ss = session_stage [OF ses1 stg e(1) on]
  let ?p = "p\<lparr>disk := w1, store := s1, pendingRecoveredBytes := pendingRecoveredBytes p + of_nat (length data),
             pendingRecordCount := pendingRecordCount p + 1\<rparr>"
  have small: "unat (ExpectedSectorCount (header (store p))) < 4294967296" using ses by (simp add: session_def)
  have w32: "within32 (extents (store p))" "endN e < 4294967296"
    using on_medium_within32 [OF session_on_medium [OF ses] small] on small by simp_all
  have cl: "claimed (extents s1) \<subseteq> claimed (extents (store p)) \<union> {startN e ..< endN e}"
    using claimed_apply(1) [OF ss(2) w32] by (auto split: if_splits)
  have "image_holds m ?ss {startN e ..< endN e} (Files w1 ip)"
    using range_holds [OF _ d(2,3)] wr(4) by blast
  then have imF: "image_holds m ?ss (claimed (extents s1)) (Files w1 ip)"
    using keepF [OF v(8)] cl image_holds_Un image_holds_mono by metis
  have du: "durableExtents s1 = durableExtents (store p)"
    using stg by (auto simp: StageExtent_def split: if_splits sum.splits)
  have len: "unat (of_nat (length data) :: u64) = length data" using d(5) by (simp add: unat_of_nat)
  have nz: "(of_nat (length data) :: u64) \<noteq> 0"
    using len d(4) unat_0 by (metis length_0_conv)
  have le: "pendingRecoveredBytes ?p \<le> MaxPendingRecoveredBytes" using lim by auto
  have pz: "pendingRecoveredBytes ?p \<noteq> 0"
  proof -
    have M: "unat MaxPendingRecoveredBytes = 8388608" by (simp add: MaxPendingRecoveredBytes_def)
    have "unat (pendingRecoveredBytes p) \<le> 8388608" "length data \<le> 8388608"
      using v(6) lim(1) len by (simp_all add: word_le_nat_alt M)
    then have "unat (pendingRecoveredBytes p + of_nat (length data)) = unat (pendingRecoveredBytes p) + length data"
      by (subst unat_add_le) (simp_all add: len)
    then show ?thesis using d(4) by (simp add: word_neq_0_pos)
  qed
  show ?thesis
  proof (rule job_savedI)
    show "header (store ?p) = h" "path (store ?p) = mp" using ss(3,4) v(1,2) by simp_all
    show "Stable (disk ?p) mp = Files (disk ?p) mp" using v(5) mpf wr(1) by simp
    show "image_holds m ?ss (claimed (durableExtents (store ?p))) (Stable (disk ?p) ip)"
      using v(9) du wr(1) by simp
    show "session c rs (ps @ [extent_record (nextSequence (store p)) e]) (disk ?p) (store ?p)" using ss(1) by simp
    show "image_holds m ?ss (claimed (extents (store ?p))) (Files (disk ?p) ip)" using imF by simp
    show "pendingRecords (store ?p) = []" if "pendingRecoveredBytes ?p = 0" using that pz by contradiction
  qed (use v(3,4,10) du le in simp_all)
qed

lemma stage_recovered_step:
  assumes sv: "job_saved m h mp ip K p" and a: "stage_recovered p data off e = (err, q)"
    and d: "data = map m [off ..< off + length data]" "off = startN e * unat (LogicalSectorSize h)"
      "length data = unat (Sectors e) * unat (LogicalSectorSize h)" "data \<noteq> []" "length data < 18446744073709551616"
    and lim: "(of_nat (length data) :: u64) \<le> MaxPendingRecoveredBytes"
      "pendingRecoveredBytes p = 0 \<or> pendingRecoveredBytes p + of_nat (length data) \<le> MaxPendingRecoveredBytes"
    and e: "extent_typed e" "endN e \<le> unat (ExpectedSectorCount h)"
  shows "err \<noteq> None \<Longrightarrow> crash_safe m h mp ip K q"
    "err = None \<Longrightarrow> job_saved m h mp ip K q \<and> ApplyExtent (extents (store p)) e = Inr (extents (store q))"
proof -
  let ?ss = "unat (LogicalSectorSize h)"
  note v = job_savedD [OF sv]
  from v(11) obtain c rs ps where ses: "session c rs ps (disk p) (store p)" by blast
  have "(err \<noteq> None \<longrightarrow> crash_safe m h mp ip K q) \<and> (err = None \<longrightarrow> job_saved m h mp ip K q \<and>
    ApplyExtent (extents (store p)) e = Inr (extents (store q)))"
  proof -
    obtain e1 w1 where wf: "writeFullAtWriter (disk p) ip data off = (e1, w1)" by force
    note wr = writeFullAtWriter_facts [OF wf d(1)]
    have mpf: "Files w1 mp = Files (disk p) mp" using wr(2) v(4) by simp
    have keepF: "image_holds m ?ss S (Files w1 ip)" if "image_holds m ?ss S (Files (disk p) ip)" for S
      using that wr(3) unfolding image_holds_def by blast
    have ses1: "session c rs ps w1 (store p)" using session_frame [OF ses] mpf v(2) by simp
    have sv1: "job_saved m h mp ip K (p\<lparr>disk := w1\<rparr>)"
      using v wr(1) mpf keepF [OF v(8)] ses1 by (intro job_savedI [where c = c and rs = rs and ps = ps]) simp_all
    obtain e2 s1 where stg: "StageExtent (store p) e = (e2, s1)" by force
    show ?thesis
    proof (cases "e1 = None \<and> e2 = None")
      case False
      have "err \<noteq> None \<and> disk q = w1"
        using a wf stg v(3) False by (cases e1) (auto simp: stage_recovered_def split: option.splits)
      then show ?thesis
        using job_saved_crash_safe [OF sv1] crash_safe_cong [of q "p\<lparr>disk := w1\<rparr>"] by auto
    next
      case True
      have stg1: "StageExtent (store p) e = (None, s1)" using stg True by simp
      have on: "endN e \<le> unat (ExpectedSectorCount (header (store p)))" using e(2) v(1) by simp
      note ss = session_stage [OF ses1 stg1 e(1) on]
      let ?p = "p\<lparr>disk := w1, store := s1, pendingRecoveredBytes := pendingRecoveredBytes p + of_nat (length data),
                 pendingRecordCount := pendingRecordCount p + 1\<rparr>"
      have wf1: "writeFullAtWriter (disk p) ip data off = (None, w1)" using wf True by simp
      note sv2 = stage_recovered_staged [OF sv wf1 d lim e stg1]
      have after: "(err \<noteq> None \<longrightarrow> crash_safe m h mp ip K q) \<and> (err = None \<longrightarrow> job_saved m h mp ip K q \<and>
          ApplyExtent (extents (store p)) e = Inr (extents (store q)))"
        if "job_saved m h mp ip K p2" "store p2 = s1" "ForceCheckpoint p2 r = (err, q)" for p2 r
        using ForceCheckpoint_step [OF that(1,3)] ss(2) that(2) by auto
      let ?c = "pendingRecoveredBytes ?p \<ge> MaxPendingRecoveredBytes \<or> pendingRecordCount ?p \<ge> MaxPendingRecords"
      have run: "(if ?c then ForceCheckpoint ?p CheckpointReasonThreshold
          else (case now ?p of (t, p2) \<Rightarrow> if t - lastCheckpoint p2 \<ge> MaxCheckpointInterval
            then ForceCheckpoint p2 CheckpointReasonInterval else (None, p2))) = (err, q)"
        using a wf stg1 True v(3) by (simp only: stage_recovered_def Let_def split_conv option.case prod.case)
      show ?thesis
      proof (cases ?c)
        case True
        with run have "ForceCheckpoint ?p CheckpointReasonThreshold = (err, q)" by argo
        from after [OF sv2 _ this] show ?thesis by simp
      next
        case False
        obtain t p2 where n: "now ?p = (t, p2)" by force
        note fr = now_frame [OF n]
        have sv3: "job_saved m h mp ip K p2" using job_saved_cong [of p2 ?p] fr sv2 by blast
        have st2: "store p2 = s1" using fr by simp
        from run False n have "(if t - lastCheckpoint p2 \<ge> MaxCheckpointInterval
            then ForceCheckpoint p2 CheckpointReasonInterval else (None, p2)) = (err, q)"
          by (simp only: if_False split_conv prod.case)
        then consider "ForceCheckpoint p2 CheckpointReasonInterval = (err, q)" | "err = None" "q = p2"
          by (metis prod.inject)
        then show ?thesis
        proof cases
          case 1
          from after [OF sv3 st2 1] show ?thesis .
        qed (use sv3 st2 ss(2) in simp)
      qed
    qed
  qed
  then show "err \<noteq> None \<Longrightarrow> crash_safe m h mp ip K q"
    "err = None \<Longrightarrow> job_saved m h mp ip K q \<and> ApplyExtent (extents (store p)) e = Inr (extents (store q))"
    by blast+
qed

lemma PersistRecovered_step:
  assumes sv: "job_saved m h mp ip K p" and a: "PersistRecovered p data off e = (err, q)"
    and d: "data = map m [off ..< off + length data]" "off = startN e * unat (LogicalSectorSize h)"
      "length data = unat (Sectors e) * unat (LogicalSectorSize h)" "length data < 18446744073709551616"
    and e: "extent_typed e" "endN e \<le> unat (ExpectedSectorCount h)"
  shows "err \<noteq> None \<Longrightarrow> crash_safe m h mp ip K q"
    "err = None \<Longrightarrow> job_saved m h mp ip K q \<and> ApplyExtent (extents (store p)) e = Inr (extents (store q))"
proof -
  let ?n = "of_nat (length data) :: u64"
  let ?ok = "\<lambda>p err q. (err \<noteq> None \<longrightarrow> crash_safe m h mp ip K q) \<and> (err = None \<longrightarrow> job_saved m h mp ip K q \<and>
    ApplyExtent (extents (store p)) e = Inr (extents (store q)))"
  have refused: "?ok p err q" if "err \<noteq> None" "q = p"
    using that job_saved_crash_safe [OF sv] by auto
  have stage: "?ok p1 err q" if "stage_recovered p1 data off e = (err, q)" "job_saved m h mp ip K p1" "data \<noteq> []"
    "?n \<le> MaxPendingRecoveredBytes"
    "pendingRecoveredBytes p1 = 0 \<or> pendingRecoveredBytes p1 + ?n \<le> MaxPendingRecoveredBytes" for p1
    using stage_recovered_step [OF that(2,1) d(1-3) that(3) d(4) that(4,5) e] by blast
  have "?ok p err q"
  proof (cases "data = [] \<or> ?n > MaxPendingRecoveredBytes")
    case True
    with a have "err \<noteq> None" "q = p" by (auto simp: PersistRecovered_def split: if_splits)
    then show ?thesis by (rule refused)
  next
    case False
    then have ne: "data \<noteq> []" and le: "?n \<le> MaxPendingRecoveredBytes" by (simp_all add: not_less)
    show ?thesis
    proof (cases "pendingRecoveredBytes p > 0 \<and> pendingRecoveredBytes p + ?n > MaxPendingRecoveredBytes")
      case room: False
      then have z: "pendingRecoveredBytes p = 0 \<or> pendingRecoveredBytes p + ?n \<le> MaxPendingRecoveredBytes"
        using word_gt_0 [of "pendingRecoveredBytes p"] not_less by metis
      have "stage_recovered p data off e = (err, q)"
        using a False room unfolding PersistRecovered_def by (simp only: de_Morgan_disj if_False)
      from stage [OF this sv ne le z] show ?thesis .
    next
      case full: True
      obtain e1 p1 where fc: "ForceCheckpoint p CheckpointReasonThreshold = (e1, p1)" by force
      note step = ForceCheckpoint_step [OF sv fc]
      have run: "(case e1 of Some er \<Rightarrow> (Some er, p1) | None \<Rightarrow> stage_recovered p1 data off e) = (err, q)"
        using a False full fc unfolding PersistRecovered_def
        by (simp only: de_Morgan_disj if_False if_True) (simp split: option.splits)
      show ?thesis
      proof (cases e1)
        case (Some er)
        with run step(1) show ?thesis by auto
      next
        case None
        from step(2) [OF None] have s1: "job_saved m h mp ip K p1" "extents (store p1) = extents (store p)"
          "pendingRecoveredBytes p1 = 0" by blast+
        have "stage_recovered p1 data off e = (err, q)" using run None by simp
        from stage [OF this s1(1) ne le] s1(2,3) show ?thesis by simp
      qed
    qed
  qed
  then show "err \<noteq> None \<Longrightarrow> crash_safe m h mp ip K q"
    "err = None \<Longrightarrow> job_saved m h mp ip K q \<and> ApplyExtent (extents (store p)) e = Inr (extents (store q))"
    by blast+
qed

end
