(* ===== verification/StrategyFacts.thy ===== *)
theory StrategyFacts
  imports Strategy JobSaved
begin

text \<open>
  The strategy over any store that keeps its contract (\<open>extent_store\<close>): a store in order
  stays in order until an operation fails, what the passes hand over for storage is the medium's
  data at its own place, the map only advances, and the passes cover what they are there for.
\<close>

section \<open>Steps that keep a store in order\<close>

definition advances :: "Extent list \<Rightarrow> Extent list \<Rightarrow> bool" where
  "advances es es' \<longleftrightarrow>
     (\<forall>n. extent_at es n \<noteq> None \<longrightarrow> extent_at es' n \<noteq> None) \<and> claimed es \<subseteq> claimed es'"

lemma advances_refl [simp]: "advances es es"
  by (simp add: advances_def)

lemma advances_trans: "advances a b \<Longrightarrow> advances b c \<Longrightarrow> advances a c"
  unfolding advances_def by blast

definition step_keeps ::
  "'p ExtentStore \<Rightarrow> ('p \<Rightarrow> bool) \<Rightarrow> ('p \<Rightarrow> bool) \<Rightarrow> 'p step \<Rightarrow> 'p Run \<Rightarrow> bool" where
  "step_keeps ops good broken a r \<longleftrightarrow>
     (case a r of
        (None, r') \<Rightarrow> good (runStore r') \<and> advances (ExtentsOf ops (runStore r)) (ExtentsOf ops (runStore r'))
      | (Some _, r') \<Rightarrow> broken (runStore r'))"

lemma step_keepsI:
  assumes "\<And>r'. a r = (None, r') \<Longrightarrow>
      good (runStore r') \<and> advances (ExtentsOf ops (runStore r)) (ExtentsOf ops (runStore r'))"
    and "\<And>er r'. a r = (Some er, r') \<Longrightarrow> broken (runStore r')"
  shows "step_keeps ops good broken a r"
  unfolding step_keeps_def using assms by (auto split: prod.splits option.splits)

lemma step_keepsD:
  assumes "step_keeps ops good broken a r"
  shows "a r = (None, r') \<Longrightarrow>
      good (runStore r') \<and> advances (ExtentsOf ops (runStore r)) (ExtentsOf ops (runStore r'))"
    "a r = (Some er, r') \<Longrightarrow> broken (runStore r')"
  using assms unfolding step_keeps_def by auto

lemma keeps_andThen:
  assumes "step_keeps ops good broken a r"
    and "\<And>r1. a r = (None, r1) \<Longrightarrow> good (runStore r1) \<Longrightarrow> step_keeps ops good broken b r1"
  shows "step_keeps ops good broken (andThen a b) r"
proof (rule step_keepsI)
  fix r' assume x: "andThen a b r = (None, r')"
  then obtain r1 where r1: "a r = (None, r1)" "b r1 = (None, r')"
    by (auto simp: andThen_def split: prod.splits option.splits)
  note k1 = step_keepsD(1) [OF assms(1) r1(1)]
  then have "step_keeps ops good broken b r1" using assms(2) r1(1) by blast
  from step_keepsD(1) [OF this r1(2)] k1 show
    "good (runStore r') \<and> advances (ExtentsOf ops (runStore r)) (ExtentsOf ops (runStore r'))"
    using advances_trans by blast
next
  fix er r' assume x: "andThen a b r = (Some er, r')"
  then consider "a r = (Some er, r')" | r1 where "a r = (None, r1)" "b r1 = (Some er, r')"
    by (auto simp: andThen_def split: prod.splits option.splits)
  then show "broken (runStore r')"
  proof cases
    case 1
    then show ?thesis using step_keepsD(2) [OF assms(1)] by blast
  next
    case 2
    then have "step_keeps ops good broken b r1" using step_keepsD(1) [OF assms(1) 2(1)] assms(2) by blast
    from step_keepsD(2) [OF this 2(2)] show ?thesis .
  qed
qed

lemma keeps_skip: "good (runStore r) \<Longrightarrow> step_keeps ops good broken (\<lambda>r. (None, r)) r"
  by (simp add: step_keeps_def)

lemma keeps_whenever:
  "good (runStore r) \<Longrightarrow> (c \<Longrightarrow> step_keeps ops good broken a r) \<Longrightarrow> step_keeps ops good broken (whenever c a) r"
  by (auto simp: step_keeps_def whenever_def)

lemma keeps_wrapped: "step_keeps ops good broken a r \<Longrightarrow> step_keeps ops good broken (wrapped s a) r"
  by (auto simp: step_keeps_def wrapped_def split: prod.splits option.splits)

lemma keeps_each:
  "(\<And>x r. x \<in> set xs \<Longrightarrow> good (runStore r) \<Longrightarrow> step_keeps ops good broken (f x) r) \<Longrightarrow>
   good (runStore r) \<Longrightarrow> step_keeps ops good broken (each f xs) r"
proof (induction xs arbitrary: r)
  case Nil
  then show ?case by (simp add: step_keeps_def)
next
  case (Cons x xs)
  have "step_keeps ops good broken (andThen (f x) (each f xs)) r"
    using Cons by (intro keeps_andThen) simp_all
  then show ?case by (simp add: step_keeps_def)
qed

lemma keeps_report: "good (runStore r) \<Longrightarrow> step_keeps ops good broken (reportRecoveryProgress ops' pass issue) r"
  by (simp add: step_keeps_def reportRecoveryProgress_def split: prod.splits)

lemma ctx_Err_store: "ctx_Err r = (e, r') \<Longrightarrow> runStore r' = runStore r"
  by (auto simp: ctx_Err_def split: list.splits)

lemma readAtWithDeadline_store: "readAtWithDeadline n r = (x, r') \<Longrightarrow> runStore r' = runStore r"
  by (auto simp: readAtWithDeadline_def split: list.splits)

lemma keeps_after:
  "a r = b r1 \<Longrightarrow> runStore r1 = runStore r \<Longrightarrow> step_keeps ops good broken b r1 \<Longrightarrow> step_keeps ops good broken a r"
  by (auto simp: step_keeps_def split: prod.splits option.splits)

lemma plain_simps [simp]:
  "StartLBA (plain lba n st cf k) = lba" "Sectors (plain lba n st cf k) = ucast n"
  "State (plain lba n st cf k) = st" "Attempts (plain lba n st cf k) = k" "extent_typed (plain lba n st cf k)"
  by (simp_all add: plain_def Extent_zero_def extent_typed_def)

section \<open>Counting what is unresolved\<close>

definition settled :: "Extent list \<Rightarrow> bool" where
  "settled es \<longleftrightarrow>
     (\<forall>n b. extent_at es n = Some b \<longrightarrow> State b = SectorStateMissing \<or> \<not> isRetryableState (State b))"

lemma sectors_bounded:
  "on_medium n es \<Longrightarrow> a \<le> n \<Longrightarrow> (\<And>e. e \<in> set es \<Longrightarrow> a \<le> startN e) \<Longrightarrow>
     a + (\<Sum>e\<leftarrow>es. unat (Sectors e)) \<le> n"
proof (induction es arbitrary: a)
  case (Cons e es)
  have on: "on_medium n es" "endN e \<le> n" and nx: "\<And>x. x \<in> set es \<Longrightarrow> endN e \<le> startN x"
    using Cons.prems(1) by (auto simp: on_medium_def wf_extents_def)
  have "endN e + (\<Sum>e\<leftarrow>es. unat (Sectors e)) \<le> n" by (rule Cons.IH [OF on nx])
  then show ?case using Cons.prems(3) [of e] by simp
qed simp

lemma foldl_counts:
  fixes u :: "'s \<Rightarrow> u64"
  assumes "\<And>q e. u (f q e) = u q + (if P e then of_nat (g e) else 0)"
  shows "u (foldl f q es) = u q + of_nat (\<Sum>e\<leftarrow>filter P es. g e)"
  by (induction es arbitrary: q) (simp_all add: assms)

lemma summarize_unresolved:
  assumes "summarizeRecoveryExtentStates es = (w, x, y, z)"
  shows "y + z = of_nat (\<Sum>e\<leftarrow>retryableExtents es. unat (Sectors e))"
proof -
  let ?u = "\<lambda>(a :: u64, b :: u64, c, d). c + d :: u64"
  have "?u (summarizeRecoveryExtentStates es) =
      ?u (0, 0, 0, 0) + of_nat (\<Sum>e\<leftarrow>filter (\<lambda>e. isRetryableState (State e)) es. unat (Sectors e))"
    unfolding summarizeRecoveryExtentStates_def
  proof (rule foldl_counts [where u = ?u], goal_cases)
    case (1 q e)
    have x: "recoveryStateHasData (State e) \<Longrightarrow> \<not> isRetryableState (State e)"
      "isRetryableState (State e) \<longleftrightarrow> State e \<in> {SectorStateUnknown, SectorStateQueued, SectorStateIOError} \<or>
         State e = SectorStateMissing"
      "State e = SectorStateMissing \<Longrightarrow> State e \<notin> {SectorStateUnknown, SectorStateQueued, SectorStateIOError}"
      by (auto simp: recoveryStateHasData_def isRetryableState_def)
    consider "recoveryStateHasData (State e)" "\<not> isRetryableState (State e)"
      | "\<not> recoveryStateHasData (State e)" "State e \<in> {SectorStateUnknown, SectorStateQueued, SectorStateIOError}"
        "isRetryableState (State e)"
      | "\<not> recoveryStateHasData (State e)" "State e = SectorStateMissing" "isRetryableState (State e)"
        "State e \<notin> {SectorStateUnknown, SectorStateQueued, SectorStateIOError}"
      | "\<not> recoveryStateHasData (State e)" "\<not> isRetryableState (State e)" "State e \<noteq> SectorStateMissing"
        "State e \<notin> {SectorStateUnknown, SectorStateQueued, SectorStateIOError}"
      using x by blast
    then show ?case by cases (simp_all add: Let_def ac_simps split: prod.splits)
  qed
  then show ?thesis unfolding assms by (simp add: retryableExtents_def)
qed

lemma unresolved_none:
  assumes "on_medium n es" "n < 4294967296" "unresolvedSectorCount es = 0"
  shows "settled es"
proof -
  obtain w x y z where sum: "summarizeRecoveryExtentStates es = (w, x, y, z)" by (metis prod.exhaust)
  let ?s = "\<Sum>e\<leftarrow>retryableExtents es. unat (Sectors e)"
  have "y + z = of_nat ?s"
    using summarize_unresolved [OF sum] .
  moreover have "y + z = 0"
    using assms(3) sum by (simp add: unresolvedSectorCount_def summarizeRecoveryExtents_def)
  ultimately have "(of_nat ?s :: u64) = 0" by simp
  moreover have "?s \<le> (\<Sum>e\<leftarrow>es. unat (Sectors e))"
    by (induction es) (simp_all add: retryableExtents_def)
  moreover have "(\<Sum>e\<leftarrow>es. unat (Sectors e)) \<le> n" using sectors_bounded [OF assms(1), of 0] by simp
  ultimately have d: "18446744073709551616 dvd ?s" "?s < 18446744073709551616"
    using assms(2) by (simp_all add: word_of_nat_eq_0_iff)
  have z: "?s = 0" using nat_dvd_not_less d by (metis neq0_conv)
  have "retryableExtents es = []"
  proof (rule ccontr)
    assume "retryableExtents es \<noteq> []"
    then obtain e where e: "e \<in> set (retryableExtents es)" by (cases "retryableExtents es") auto
    then have "extent_valid e" using assms(1) by (auto simp: retryableExtents_def on_medium_def wf_extents_def)
    then have "unat (Sectors e) \<noteq> 0" using extent_valid_pos [of e] by simp
    then show False using z e by (auto simp: sum_list_eq_0_iff)
  qed
  then have "\<not> isRetryableState (State e)" if "e \<in> set es" for e
    using that unfolding retryableExtents_def filter_empty_conv by blast
  then show ?thesis unfolding settled_def by (auto dest!: extent_at_SomeD)
qed

section \<open>The contract\<close>

locale extent_store =
  fixes ops :: "'p ExtentStore" and good :: "'p \<Rightarrow> bool" and broken :: "'p \<Rightarrow> bool"
    and m :: "nat \<Rightarrow> u8" and sectorSize :: u32 and sectors :: nat
  assumes sectors_small: "good p \<Longrightarrow> sectors < 4294967296"
    and bytes_small: "good p \<Longrightarrow> sectors * unat sectorSize < 18446744073709551616"
    and good_broken: "good p \<Longrightarrow> broken p"
    and good_on_medium: "good p \<Longrightarrow> on_medium sectors (ExtentsOf ops p)"
    and good_typed: "good p \<Longrightarrow> e \<in> set (ExtentsOf ops p) \<Longrightarrow> extent_typed e"
    and checkpoint_ok: "good p \<Longrightarrow> CheckpointTo ops p reason = (None, q) \<Longrightarrow>
      good q \<and> ExtentsOf ops q = ExtentsOf ops p \<and> DurableExtentsOf ops q = ExtentsOf ops p"
    and checkpoint_err: "good p \<Longrightarrow> CheckpointTo ops p reason = (Some er, q) \<Longrightarrow> broken q"
    and apply_ok: "good p \<Longrightarrow> extent_typed e \<Longrightarrow> endN e \<le> sectors \<Longrightarrow> \<not> stateClaimsImageData (State e) \<Longrightarrow>
      ApplyTo ops p e = (None, q) \<Longrightarrow> good q \<and> ApplyExtent (ExtentsOf ops p) e = Inr (ExtentsOf ops q)"
    and apply_err: "good p \<Longrightarrow> extent_typed e \<Longrightarrow> endN e \<le> sectors \<Longrightarrow> \<not> stateClaimsImageData (State e) \<Longrightarrow>
      ApplyTo ops p e = (Some er, q) \<Longrightarrow> broken q"
    and persist_ok: "good p \<Longrightarrow> extent_typed e \<Longrightarrow> endN e \<le> sectors \<Longrightarrow> off = startN e * unat sectorSize \<Longrightarrow>
      PersistTo ops p (map m [off ..< off + unat (Sectors e) * unat sectorSize]) off e = (None, q) \<Longrightarrow>
      good q \<and> ApplyExtent (ExtentsOf ops p) e = Inr (ExtentsOf ops q)"
    and persist_err: "good p \<Longrightarrow> extent_typed e \<Longrightarrow> endN e \<le> sectors \<Longrightarrow> off = startN e * unat sectorSize \<Longrightarrow>
      PersistTo ops p (map m [off ..< off + unat (Sectors e) * unat sectorSize]) off e = (Some er, q) \<Longrightarrow> broken q"
begin

abbreviation "keeps \<equiv> step_keeps ops good broken"

lemma good_within32: "good p \<Longrightarrow> within32 (ExtentsOf ops p)"
  using good_on_medium sectors_small on_medium_within32 by blast

lemma apply_advances:
  assumes "good p" "ApplyExtent (ExtentsOf ops p) e = Inr es" "endN e \<le> sectors"
  shows "advances (ExtentsOf ops p) es" "covers e n \<Longrightarrow> extent_at es n = Some (body e)"
    "\<not> covers e n \<Longrightarrow> extent_at es n = extent_at (ExtentsOf ops p) n"
proof -
  have w: "within32 (ExtentsOf ops p)" "endN e < 4294967296"
    using good_within32 [OF assms(1)] assms(3) sectors_small [OF assms(1)] by simp_all
  note at = ApplyExtent_result(4) [OF assms(2) w]
  show "covers e n \<Longrightarrow> extent_at es n = Some (body e)" using at by simp
  show "\<not> covers e n \<Longrightarrow> extent_at es n = extent_at (ExtentsOf ops p) n" using at by simp
  show "advances (ExtentsOf ops p) es"
    unfolding advances_def using claimed_apply(2) [OF assms(2) w] at by auto
qed

lemma keeps_ctx_Err: "good (runStore r) \<Longrightarrow> keeps ctx_Err r"
  using ctx_Err_store good_broken by (intro step_keepsI) fastforce+

lemma keeps_checkpoint:
  assumes "good (runStore r)"
  shows "keeps (forceRecoveryCheckpoint ops reason) r" "keeps (flushRecoveryStore ops) r"
  using assms checkpoint_ok checkpoint_err
  by (auto intro!: step_keepsI simp: forceRecoveryCheckpoint_def flushRecoveryStore_def on_store_def split: prod.splits)

lemma apply_step:
  assumes "good (runStore r)" "extent_typed e" "endN e \<le> sectors" "\<not> stateClaimsImageData (State e)"
  shows "keeps (on_store (\<lambda>p. ApplyTo ops p e)) r"
    "on_store (\<lambda>p. ApplyTo ops p e) r = (None, r') \<Longrightarrow>
       ApplyExtent (ExtentsOf ops (runStore r)) e = Inr (ExtentsOf ops (runStore r'))"
  using apply_ok [OF assms] apply_err [OF assms] apply_advances(1) [OF assms(1) _ assms(3)]
  by (auto intro!: step_keepsI simp: on_store_def split: prod.splits)

lemma persist_step:
  assumes "good (runStore r)" "extent_typed e" "endN e \<le> sectors" "off = startN e * unat sectorSize"
    "data = map m [off ..< off + unat (Sectors e) * unat sectorSize]"
  shows "keeps (on_store (\<lambda>p. PersistTo ops p data off e)) r"
    "on_store (\<lambda>p. PersistTo ops p data off e) r = (None, r') \<Longrightarrow>
       ApplyExtent (ExtentsOf ops (runStore r)) e = Inr (ExtentsOf ops (runStore r'))"
  using persist_ok [OF assms(1-4)] persist_err [OF assms(1-4)] apply_advances(1) [OF assms(1) _ assms(3)]
  unfolding assms(5)
  by (auto intro!: step_keepsI simp: on_store_def split: prod.splits)

end


section \<open>Reads and attempts\<close>

context extent_store
begin

lemma block_exact:
  assumes "good p" "unat (lba :: u64) + unat (n :: u64) \<le> sectors"
  shows "unat (lba * ucast sectorSize) = unat lba * unat sectorSize"
    "unat (n * ucast sectorSize) = unat n * unat sectorSize" "unat (ucast n :: u32) = unat n"
proof -
  have fits: "unat x * unat sectorSize < 18446744073709551616" if "unat x \<le> sectors" for x :: u64
    using mult_le_mono1 [OF that, of "unat sectorSize"] bytes_small [OF assms(1)] by (rule le_less_trans)
  show "unat (lba * ucast sectorSize) = unat lba * unat sectorSize"
    "unat (n * ucast sectorSize) = unat n * unat sectorSize"
    using fits [of lba] fits [of n] assms(2) by (simp_all add: unat_word_ariths)
  show "unat (ucast n :: u32) = unat n"
    using assms(2) sectors_small [OF assms(1)] by (intro unat_ucast_64_32_small) simp
qed

lemma fast_block_keeps:
  assumes "good (runStore r)" "unat lba + unat n \<le> sectors"
  shows "keeps (fast_block ops fatal m sectorSize lba n) r"
    "fast_block ops fatal m sectorSize lba n r = (None, r') \<Longrightarrow> unat lba \<le> k \<Longrightarrow> k < unat lba + unat n \<Longrightarrow>
       extent_at (ExtentsOf ops (runStore r')) k \<noteq> None"
proof -
  note ex = block_exact [OF assms]
  let ?size = "unat (n * ucast sectorSize)" and ?off = "unat (lba * ucast sectorSize)"
  let ?read = "plain lba n SectorStateReadUnverified ConfidenceSingleRead 1"
  let ?bad = "plain lba n SectorStateIOError ConfidenceNone 1"
  obtain i e r1 where rd: "readAtWithDeadline ?size r = ((i, e), r1)" by (metis prod.exhaust)
  have st: "runStore r1 = runStore r" using readAtWithDeadline_store [OF rd] .
  have g1: "good (runStore r1)" using assms(1) st by simp
  have on: "endN (plain lba n s c a) \<le> sectors" for s c a using assms(2) ex(3) by simp
  have data: "medium_bytes m ?off ?size = map m [?off ..< ?off + unat (Sectors ?read) * unat sectorSize]"
    using ex by (simp add: medium_bytes_def)
  have off: "?off = startN ?read * unat sectorSize" using ex by simp
  let ?good = "andThen (on_store (\<lambda>p. PersistTo ops p (medium_bytes m ?off ?size) ?off ?read))
    (reportRecoveryProgress ops ''Fast acquisition'' [])"
  let ?bad_end = "\<lambda>r2. case fatalRecoveryReadError fatal e of
      Some er \<Rightarrow> (Some (Wrapf ''read fast acquisition range'' er), r2)
    | None \<Rightarrow> andThen (wrapped ''defer failed range'' (on_store (\<lambda>p. ApplyTo ops p ?bad)))
        (reportRecoveryProgress ops ''Fast acquisition'' [readFailureDetail ''Deferred'' e,
           ''Continuing forward; smaller bounded reads will revisit this range later.'']) r2"
  have fb: "fast_block ops fatal m sectorSize lba n r =
      (if readSucceeded i ?size e then ?good r1 else andThen ctx_Err ?bad_end r1)"
    unfolding fast_block_def Let_def rd by simp
  have nc: "\<not> stateClaimsImageData (State ?bad)" by (simp add: stateClaimsImageData_def)
  note ps = persist_step [OF g1 _ on off data]
  have k1: "keeps ?good r1"
    by (rule keeps_andThen [OF ps(1)]) (simp_all add: keeps_report)
  have k2: "keeps ?bad_end r2" if "good (runStore r2)" for r2
  proof (cases "fatalRecoveryReadError fatal e")
    case None
    have "keeps (andThen (wrapped ''defer failed range'' (on_store (\<lambda>p. ApplyTo ops p ?bad)))
        (reportRecoveryProgress ops ''Fast acquisition'' [readFailureDetail ''Deferred'' e,
           ''Continuing forward; smaller bounded reads will revisit this range later.''])) r2"
      by (intro keeps_andThen keeps_wrapped apply_step(1) [OF that _ on nc] keeps_report) simp_all
    then show ?thesis by (rule keeps_after [rotated 2]) (simp_all add: None)
  next
    case (Some er)
    then show ?thesis using that good_broken by (simp add: step_keeps_def)
  qed
  have k3: "keeps (andThen ctx_Err ?bad_end) r1"
    by (rule keeps_andThen [OF keeps_ctx_Err [OF g1] k2])
  show "keeps (fast_block ops fatal m sectorSize lba n) r"
    using k1 k3 fb st by (cases "readSucceeded i ?size e") (auto intro: keeps_after)
  assume run: "fast_block ops fatal m sectorSize lba n r = (None, r')" and k: "unat lba \<le> k" "k < unat lba + unat n"
  have cov: "covers (plain lba n s c a) k" for s c a using k ex(3) by (simp add: covers_def)
  show "extent_at (ExtentsOf ops (runStore r')) k \<noteq> None"
  proof (cases "readSucceeded i ?size e")
    case True
    with run fb have "?good r1 = (None, r')" by simp
    then obtain r2 where r2: "on_store (\<lambda>p. PersistTo ops p (medium_bytes m ?off ?size) ?off ?read) r1 = (None, r2)"
      "runStore r' = runStore r2"
      by (auto simp: andThen_def reportRecoveryProgress_def split: prod.splits option.splits)
    show ?thesis using apply_advances(2) [OF g1 ps(2) [OF _ r2(1)] on cov] r2(2) by simp
  next
    case False
    with run fb have "andThen ctx_Err ?bad_end r1 = (None, r')" by simp
    then obtain r2 r3 where r3: "ctx_Err r1 = (None, r2)" "on_store (\<lambda>p. ApplyTo ops p ?bad) r2 = (None, r3)"
      "runStore r' = runStore r3"
      by (auto simp: andThen_def wrapped_def reportRecoveryProgress_def split: prod.splits option.splits)
    have g2: "good (runStore r2)" using g1 ctx_Err_store [OF r3(1)] by simp
    show ?thesis
      using apply_advances(2) [OF g2 apply_step(2) [OF g2 _ on nc r3(2)] on cov] r3(3) by simp
  qed
qed

end

section \<open>The passes\<close>

context extent_store
begin

lemma lookup_on_medium:
  assumes "good p" "LookupExtent (ExtentsOf ops p) lba = Some (e, i)"
  shows "unat (EndLBA e) \<le> sectors" "unat lba < unat (EndLBA e)"
    "unat lba \<le> k \<Longrightarrow> k < unat (EndLBA e) \<Longrightarrow> extent_at (ExtentsOf ops p) k \<noteq> None"
proof -
  note md = good_on_medium [OF assms(1)]
  have mem: "LookupExtent_from j es lba = Some (e, i) \<Longrightarrow> e \<in> set es" for j es
    by (induction es arbitrary: j) (auto split: if_splits)
  then have e: "e \<in> set (ExtentsOf ops p)" using assms(2) by (simp add: LookupExtent_def)
  then have v: "extent_valid e" "endN e \<le> sectors" using md by (auto simp: on_medium_def wf_extents_def)
  note af = LookupExtent_after [OF assms(2)]
  show "unat (EndLBA e) \<le> sectors" using v by simp
  show "unat lba < unat (EndLBA e)" using af by (simp only: word_less_nat_alt)
  assume "unat lba \<le> k" "k < unat (EndLBA e)"
  then have "covers e k" using af v(1) by (simp add: covers_def word_le_nat_alt)
  then show "extent_at (ExtentsOf ops p) k \<noteq> None"
    using extent_at_Some [OF _ e] md by (simp add: on_medium_def)
qed

lemma deferred_block_keeps:
  assumes "good (runStore r)" "unat lba + unat n \<le> sectors"
  shows "keeps (deferred_block ops fatal m sectorSize lba n k pass) r"
proof -
  note ex = block_exact [OF assms]
  let ?size = "unat (n * ucast sectorSize)" and ?off = "unat (lba * ucast sectorSize)"
  let ?queued = "plain lba n SectorStateQueued ConfidenceNone k"
  let ?read = "plain lba n SectorStateReadUnverified ConfidenceSingleRead k"
  have on: "endN (plain lba n s c a) \<le> sectors" for s c a using assms(2) ex(3) by simp
  have data: "medium_bytes m ?off ?size = map m [?off ..< ?off + unat (Sectors ?read) * unat sectorSize]"
    using ex by (simp add: medium_bytes_def)
  have off: "?off = startN ?read * unat sectorSize" using ex by simp
  have q: "extent_typed ?queued" "\<not> stateClaimsImageData (State ?queued)"
    by (simp_all add: stateClaimsImageData_def)
  have b: "extent_typed (?queued\<lparr>State := SectorStateIOError\<rparr>)" "endN (?queued\<lparr>State := SectorStateIOError\<rparr>) \<le> sectors"
    "\<not> stateClaimsImageData (State (?queued\<lparr>State := SectorStateIOError\<rparr>))"
    using on by (simp_all add: stateClaimsImageData_def plain_def Extent_zero_def extent_typed_def)
  show ?thesis
    unfolding deferred_block_def Let_def
  proof (rule keeps_andThen [OF keeps_wrapped [OF apply_step(1) [OF assms(1) q(1) on q(2)]]])
    fix r0 :: "'p Run" assume g0: "good (runStore r0)"
    obtain i e r1 where rd: "readAtWithDeadline ?size r0 = ((i, e), r1)" by (metis prod.exhaust)
    have st: "runStore r1 = runStore r0" using readAtWithDeadline_store [OF rd] .
    have g1: "good (runStore r1)" using g0 st by simp
    let ?ok = "andThen (on_store (\<lambda>p. PersistTo ops p (medium_bytes m ?off ?size) ?off ?read))
      (reportRecoveryProgress ops pass [])"
    let ?fail = "\<lambda>r2. case fatalRecoveryReadError fatal e of
        Some er \<Rightarrow> (Some (Wrapf (''read '' @ pass @ '' range'') er), r2)
      | None \<Rightarrow> andThen (wrapped ''restore deferred range''
            (on_store (\<lambda>p. ApplyTo ops p (?queued\<lparr>State := SectorStateIOError\<rparr>))))
          (reportRecoveryProgress ops pass [''Retry: '' @ readFailureDetail ''failed'' e,
             ''The range remains deferred until its bounded retry budget is exhausted.'']) r2"
    have k1: "keeps ?ok r1"
      by (rule keeps_andThen [OF persist_step(1) [OF g1 _ on off data]]) (simp_all add: keeps_report)
    have k2: "keeps ?fail r2" if "good (runStore r2)" for r2
    proof (cases "fatalRecoveryReadError fatal e")
      case None
      have "keeps (andThen (wrapped ''restore deferred range''
            (on_store (\<lambda>p. ApplyTo ops p (?queued\<lparr>State := SectorStateIOError\<rparr>))))
          (reportRecoveryProgress ops pass [''Retry: '' @ readFailureDetail ''failed'' e,
             ''The range remains deferred until its bounded retry budget is exhausted.''])) r2"
        by (intro keeps_andThen keeps_wrapped apply_step(1) [OF that b] keeps_report) simp_all
      then show ?thesis by (rule keeps_after [rotated 2]) (simp_all add: None)
    next
      case (Some er)
      then show ?thesis using that good_broken by (simp add: step_keeps_def)
    qed
    have k3: "keeps (andThen ctx_Err ?fail) r1" by (rule keeps_andThen [OF keeps_ctx_Err [OF g1] k2])
    let ?f = "(\<lambda>r0. case readAtWithDeadline ?size r0 of ((n, readErr), r1) \<Rightarrow>
        if readSucceeded n ?size readErr then
          andThen (on_store (\<lambda>p. PersistTo ops p (medium_bytes m ?off ?size) ?off ?read))
            (reportRecoveryProgress ops pass []) r1
        else andThen ctx_Err (\<lambda>r2. case fatalRecoveryReadError fatal readErr of
            Some er \<Rightarrow> (Some (Wrapf (''read '' @ pass @ '' range'') er), r2)
          | None \<Rightarrow> andThen (wrapped ''restore deferred range''
                (on_store (\<lambda>p. ApplyTo ops p (?queued\<lparr>State := SectorStateIOError\<rparr>))))
              (reportRecoveryProgress ops pass [''Retry: '' @ readFailureDetail ''failed'' readErr,
                 ''The range remains deferred until its bounded retry budget is exhausted.'']) r2) r1)"
    show "keeps ?f r0"
    proof (cases "readSucceeded i ?size e")
      case True
      then have "?f r0 = ?ok r1" using rd by simp
      from keeps_after [of ?f, OF this st k1] show ?thesis .
    next
      case False
      then have "?f r0 = andThen ctx_Err ?fail r1" using rd by simp
      from keeps_after [of ?f, OF this st k3] show ?thesis .
    qed
  qed
qed

lemma attemptDeferredBlock_keeps:
  assumes "good (runStore r)"
  shows "keeps (attemptDeferredBlock ops fatal m sectorSize lba n pass) r"
  unfolding attemptDeferredBlock_def
proof (rule keeps_andThen [OF keeps_ctx_Err [OF assms]])
  fix r1 :: "'p Run" assume g: "good (runStore r1)"
  let ?cur = "LookupExtent (ExtentsOf ops (runStore r1)) lba"
  show "keeps (\<lambda>r. case LookupExtent (ExtentsOf ops (runStore r)) lba of None \<Rightarrow> (None, r)
       | Some (current, _) \<Rightarrow>
           if \<not> isRetryableState (State current) then (None, r)
           else let most = EndLBA current - lba; n = (if n > most then most else n) in
             if n = 0 then (None, r)
             else deferred_block ops fatal m sectorSize lba n (Attempts current + 1) pass r) r1"
  proof (cases ?cur)
    case None
    with g show ?thesis by (simp add: step_keeps_def)
  next
    case (Some x)
    obtain e i where x: "x = (e, i)" by force
    note lk = lookup_on_medium [OF g Some [unfolded x]]
    let ?n = "if n > EndLBA e - lba then EndLBA e - lba else n"
    have "unat (EndLBA e - lba) = unat (EndLBA e) - unat lba"
      using lk(2) by (intro unat_sub_le) (simp add: word_le_nat_alt)
    moreover have "unat ?n \<le> unat (EndLBA e - lba)" by (auto simp: word_less_nat_alt not_less)
    ultimately have "unat lba + unat ?n \<le> sectors" using lk(1,2) by linarith
    from deferred_block_keeps [OF g this] g Some x show ?thesis
      by (simp add: step_keeps_def Let_def)
  qed
qed

end

context extent_store
begin

lemma keeps_lookup:
  assumes "good (runStore r)"
    and "\<And>e i. LookupExtent (ExtentsOf ops (runStore r)) lba = Some (e, i) \<Longrightarrow> keeps (f e) r"
  shows "keeps (\<lambda>r. case LookupExtent (ExtentsOf ops (runStore r)) lba of
      None \<Rightarrow> (None, r) | Some (e, _) \<Rightarrow> f e r) r"
proof (cases "LookupExtent (ExtentsOf ops (runStore r)) lba")
  case None
  with assms(1) show ?thesis by (simp add: step_keeps_def)
next
  case (Some x)
  then have "keeps (f (fst x)) r" using assms(2) [of "fst x" "snd x"] by simp
  then show ?thesis by (rule keeps_after [rotated 2]) (simp_all add: Some split: prod.split)
qed

lemma runTrimPass_keeps:
  assumes "good (runStore r)"
  shows "keeps (runTrimPass ops fatal m sectorSize limit) r"
proof -
  have edge: "keeps (trim_edge ops fatal m sectorSize limit lba) r" if "good (runStore r)" for lba and r :: "'p Run"
    unfolding trim_edge_def
    by (intro keeps_andThen [OF keeps_ctx_Err [OF that]] keeps_lookup)
       (simp_all add: step_keeps_def attemptDeferredBlock_keeps [unfolded step_keeps_def])
  have edges: "keeps (whenever (Sectors e > 1)
      (each (trim_edge ops fatal m sectorSize limit) [StartLBA e, EndLBA e - 1])) r"
    if "good (runStore r)" for e and r :: "'p Run"
    using that edge by (intro keeps_whenever keeps_each)
  have all: "keeps (\<lambda>r. each (\<lambda>e. whenever (Sectors e > 1)
      (each (trim_edge ops fatal m sectorSize limit) [StartLBA e, EndLBA e - 1]))
      (retryableExtents (ExtentsOf ops (runStore r))) r) r" if "good (runStore r)" for r :: "'p Run"
    by (rule keeps_after [OF refl refl keeps_each]) (use that edges in blast)+
  show ?thesis unfolding runTrimPass_def by (rule keeps_andThen [OF keeps_report all], rule assms)
qed

lemma adaptive_range_keeps:
  "good (runStore r) \<Longrightarrow> keeps (adaptive_range ops fatal m sectorSize block limit pass stop lba) r"
proof (induction "unat stop - unat lba" arbitrary: lba r rule: less_induct)
  case less
  let ?run = "adaptive_range ops fatal m sectorSize block limit pass stop"
  have IH: "keeps (?run l) r1" if "unat stop - unat l < unat stop - unat lba" "good (runStore r1)" for l r1
    using less.hyps that by blast
  show ?case
  proof (cases "block = 0 \<or> lba \<ge> stop")
    case True
    then show ?thesis using less.prems by (simp add: step_keeps_def adaptive_range.simps)
  next
    case False
    then have lt: "lba < stop" "block \<noteq> 0" by (simp_all add: not_le)
    let ?n = "\<lambda>e. if EndLBA e - lba < block then EndLBA e - lba else block"
    let ?next = "\<lambda>r1. case LookupExtent (ExtentsOf ops (runStore r1)) lba of
        None \<Rightarrow> ?run (lba + 1) r1
      | Some (e, i) \<Rightarrow>
          if \<not> isRetryableState (State e) \<or> Attempts e \<ge> limit then ?run (EndLBA e) r1
          else andThen (attemptDeferredBlock ops fatal m sectorSize lba (?n e) pass) (?run (lba + ?n e)) r1"
    have run: "?run lba r = andThen ctx_Err ?next r"
      unfolding adaptive_range.simps [of ops fatal m sectorSize block limit pass stop lba r] andThen_def Let_def
      using lt False by (simp split: option.split prod.split)
    have next_ok: "keeps ?next r1" if g: "good (runStore r1)" for r1 :: "'p Run"
    proof (cases "LookupExtent (ExtentsOf ops (runStore r1)) lba")
      case None
      have "keeps (?run (lba + 1)) r1" by (rule IH [OF step_progress [OF lt(1)] g])
      then show ?thesis by (rule keeps_after [rotated 2]) (simp_all add: None)
    next
      case (Some x)
      obtain e i where x: "x = (e, i)" by force
      note lk = LookupExtent_after [OF Some [unfolded x]]
      have skip: "keeps (?run (EndLBA e)) r1"
        using IH [OF _ g] lookup_decreases [OF Some lt(1)] x by simp
      have again: "keeps (andThen (attemptDeferredBlock ops fatal m sectorSize lba (?n e) pass) (?run (lba + ?n e))) r1"
        using IH [OF block_progress [OF lt(1) conjunct2 [OF lk] lt(2)]]
        by (intro keeps_andThen attemptDeferredBlock_keeps g)
      show ?thesis
      proof (cases "\<not> isRetryableState (State e) \<or> Attempts e \<ge> limit")
        case True
        with skip show ?thesis by (intro keeps_after [OF _ refl skip]) (simp add: Some x)
      next
        case False
        then show ?thesis by (intro keeps_after [OF _ refl again]) (simp add: Some x)
      qed
    qed
    show ?thesis
      by (rule keeps_after [of "?run lba", OF run refl keeps_andThen [OF keeps_ctx_Err [OF less.prems] next_ok]])
  qed
qed

lemma runAdaptivePass_keeps:
  assumes "good (runStore r)"
  shows "keeps (runAdaptivePass ops fatal m sectorSize block limit pass) r"
proof -
  have all: "keeps (\<lambda>r. each (\<lambda>e. adaptive_range ops fatal m sectorSize block limit pass (EndLBA e) (StartLBA e))
      (retryableExtents (ExtentsOf ops (runStore r))) r) r" if "good (runStore r)" for r :: "'p Run"
    by (rule keeps_after [OF refl refl keeps_each]) (use that adaptive_range_keeps in blast)+
  show ?thesis unfolding runAdaptivePass_def by (rule keeps_andThen [OF keeps_report all], rule assms)
qed

lemma fast_loop_keeps:
  assumes "good (runStore r)" "block \<noteq> 0" "unat capacity \<le> sectors"
  shows "keeps (fast_loop ops fatal m sectorSize capacity block lba) r \<and>
    (\<forall>r' k. fast_loop ops fatal m sectorSize capacity block lba r = (None, r') \<longrightarrow>
       unat lba \<le> k \<longrightarrow> k < unat capacity \<longrightarrow> extent_at (ExtentsOf ops (runStore r')) k \<noteq> None)"
  using assms(1)
proof (induction "unat capacity - unat lba" arbitrary: lba r rule: less_induct)
  case less
  let ?run = "fast_loop ops fatal m sectorSize capacity block"
  let ?post = "\<lambda>l r'. \<forall>k. unat l \<le> k \<longrightarrow> k < unat capacity \<longrightarrow> extent_at (ExtentsOf ops (runStore r')) k \<noteq> None"
  show ?case
  proof (cases "lba \<ge> capacity")
    case True
    then show ?thesis using less.prems by (auto simp: step_keeps_def fast_loop.simps word_le_nat_alt)
  next
    case False
    then have lt: "lba < capacity" by simp
    have cap: "unat lba < unat capacity" using lt by (simp only: word_less_nat_alt)
    obtain e r1 where ce: "ctx_Err r = (e, r1)" by force
    have g: "good (runStore r1)" and s1: "runStore r1 = runStore r"
      using less.prems ctx_Err_store [OF ce] by simp_all
    let ?es = "ExtentsOf ops (runStore r1)"
    show ?thesis
    proof (cases e)
      case (Some er)
      then have "?run lba r = (Some er, r1)" using ce False assms(2) by (simp add: fast_loop.simps [of _ _ _ _ _ _ lba])
      then show ?thesis using g good_broken by (simp add: step_keeps_def)
    next
      case noerr: None
      show ?thesis
      proof (cases "LookupExtent ?es lba")
        case (Some x)
        obtain c i where x: "x = (c, i)" by force
        have run: "?run lba r = ?run (EndLBA c) r1"
          using ce False assms(2) noerr Some x by (simp add: fast_loop.simps [of _ _ _ _ _ _ lba] Let_def)
        note ih = less.hyps [OF _ g, of "EndLBA c"]
        have dec: "unat capacity - unat (EndLBA c) < unat capacity - unat lba"
          using lookup_decreases [OF Some lt] x by simp
        note lk = lookup_on_medium [OF g Some [unfolded x]]
        have "?post lba r'" if "?run lba r = (None, r')" for r'
        proof (intro allI impI)
          fix k assume k: "unat lba \<le> k" "k < unat capacity"
          have r': "?run (EndLBA c) r1 = (None, r')" using that run by simp
          show "extent_at (ExtentsOf ops (runStore r')) k \<noteq> None"
          proof (cases "unat (EndLBA c) \<le> k")
            case True
            then show ?thesis using ih [OF dec] r' k(2) by blast
          next
            case False
            then have "extent_at ?es k \<noteq> None" using lk(3) k(1) by simp
            then show ?thesis
              using step_keepsD(1) [OF conjunct1 [OF ih [OF dec]] r'] unfolding advances_def by blast
          qed
        qed
        moreover have "keeps (?run lba) r" by (rule keeps_after [of "?run lba", OF run s1 conjunct1 [OF ih [OF dec]]])
        ultimately show ?thesis by blast
      next
        case None
        let ?n = "fast_sectors ?es capacity block lba"
        note fs = fast_sectors_facts [OF lt, where es = ?es and block = block]
        have nz: "?n \<noteq> 0" using fs(3) assms(2) by blast
        have on: "unat lba + unat ?n \<le> sectors" using fs(5) assms(3) by linarith
        let ?step = "andThen (fast_block ops fatal m sectorSize lba ?n) (?run (lba + ?n))"
        have run: "?run lba r = ?step r1"
          using ce False assms(2) noerr None nz
          by (simp add: fast_loop.simps [of _ _ _ _ _ _ lba] Let_def andThen_def split: option.split prod.split)
        note fb = fast_block_keeps [OF g on]
        note ih = less.hyps [OF fast_sectors_decreases [OF lt nz]]
        have ks: "keeps ?step r1" by (intro keeps_andThen fb(1)) (use ih in blast)
        have "?post lba r'" if "?run lba r = (None, r')" for r'
        proof (intro allI impI)
          fix k assume k: "unat lba \<le> k" "k < unat capacity"
          from that run obtain r2 where r2: "fast_block ops fatal m sectorSize lba ?n r1 = (None, r2)"
            "?run (lba + ?n) r2 = (None, r')" by (auto simp: andThen_def split: prod.splits option.splits)
          have g2: "good (runStore r2)" using step_keepsD(1) [OF fb(1) r2(1)] by blast
          show "extent_at (ExtentsOf ops (runStore r')) k \<noteq> None"
          proof (cases "unat (lba + ?n) \<le> k")
            case True
            then show ?thesis using ih [OF g2] r2(2) k(2) by blast
          next
            case False
            then have "extent_at (ExtentsOf ops (runStore r2)) k \<noteq> None"
              using fb(2) [OF r2(1) k(1)] fs(4) by simp
            then show ?thesis
              using step_keepsD(1) [OF conjunct1 [OF ih [OF g2]] r2(2)] unfolding advances_def by blast
          qed
        qed
        moreover have "keeps (?run lba) r" by (rule keeps_after [of "?run lba", OF run s1 ks])
        ultimately show ?thesis by blast
      qed
    qed
  qed
qed

end

section \<open>The run\<close>

context extent_store
begin

lemma finalize_each:
  "good (runStore r) \<Longrightarrow> (\<And>e. e \<in> set L \<Longrightarrow> extent_typed e \<and> endN e \<le> sectors) \<Longrightarrow>
   f = (\<lambda>e. wrapped w (on_store (\<lambda>p. ApplyTo ops p (e\<lparr>State := SectorStateMissing, Confidence := ConfidenceNone\<rparr>)))) \<Longrightarrow>
   keeps (each f L) r \<and> (\<forall>r'. each f L r = (None, r') \<longrightarrow>
     (\<forall>k b. extent_at (ExtentsOf ops (runStore r')) k = Some b \<longrightarrow>
        State b = SectorStateMissing \<or>
        (extent_at (ExtentsOf ops (runStore r)) k = Some b \<and> (\<forall>e \<in> set L. \<not> covers e k))))"
proof (induction L arbitrary: r)
  case Nil
  then show ?case by (simp add: step_keeps_def)
next
  case (Cons e L)
  let ?e = "e\<lparr>State := SectorStateMissing, Confidence := ConfidenceNone\<rparr>"
  have e: "extent_typed ?e" "endN ?e \<le> sectors" "\<not> stateClaimsImageData (State ?e)"
    using Cons.prems(2) [of e] by (simp_all add: extent_typed_def stateClaimsImageData_def)
  have cov: "covers ?e k = covers e k" for k by (simp add: covers_def)
  note ap = apply_step [OF Cons.prems(1) e]
  have k1: "keeps (f e) r" unfolding Cons.prems(3) by (rule keeps_wrapped [OF ap(1)])
  have rest: "keeps (each f L) r1 \<and> (\<forall>r'. each f L r1 = (None, r') \<longrightarrow>
     (\<forall>k b. extent_at (ExtentsOf ops (runStore r')) k = Some b \<longrightarrow>
        State b = SectorStateMissing \<or>
        (extent_at (ExtentsOf ops (runStore r1)) k = Some b \<and> (\<forall>e \<in> set L. \<not> covers e k))))"
    if "good (runStore r1)" for r1 using Cons.IH [OF that _ Cons.prems(3)] Cons.prems(2) by simp
  have "keeps (andThen (f e) (each f L)) r" by (rule keeps_andThen [OF k1]) (use rest in blast)
  then have kk: "keeps (each f (e # L)) r" by (rule keeps_after [rotated 2]) simp_all
  have "State b = SectorStateMissing \<or>
      (extent_at (ExtentsOf ops (runStore r)) k = Some b \<and> (\<forall>e \<in> set (e # L). \<not> covers e k))"
    if run: "each f (e # L) r = (None, r')" and b: "extent_at (ExtentsOf ops (runStore r')) k = Some b" for r' k b
  proof -
    from run obtain r1 where r1: "f e r = (None, r1)" "each f L r1 = (None, r')"
      by (auto simp: andThen_def split: prod.splits option.splits)
    have o: "on_store (\<lambda>p. ApplyTo ops p ?e) r = (None, r1)"
      using r1(1) unfolding Cons.prems(3) wrapped_def by (auto split: prod.splits option.splits)
    have g1: "good (runStore r1)" using step_keepsD(1) [OF k1 r1(1)] by blast
    note ad = apply_advances(2,3) [OF Cons.prems(1) ap(2) [OF o] e(2)]
    from rest [OF g1] r1(2) b consider "State b = SectorStateMissing" |
      "extent_at (ExtentsOf ops (runStore r1)) k = Some b" "\<forall>e \<in> set L. \<not> covers e k" by blast
    then show ?thesis
    proof cases
      case 2
      then show ?thesis using ad [of k] cov [of k] by (cases "covers e k") auto
    qed simp
  qed
  with kk show ?case by blast
qed

lemma finalize_settles:
  assumes "good (runStore r)"
  shows "keeps (finalizeUnresolvedRanges ops) r"
    "finalizeUnresolvedRanges ops r = (None, r') \<Longrightarrow> settled (ExtentsOf ops (runStore r'))"
proof -
  let ?es = "ExtentsOf ops (runStore r)"
  have L: "extent_typed e \<and> endN e \<le> sectors" if "e \<in> set (retryableExtents ?es)" for e
    using that good_typed [OF assms] good_on_medium [OF assms] by (auto simp: retryableExtents_def on_medium_def)
  note fe = finalize_each [OF assms _ refl, of "retryableExtents ?es" "''finalize unreadable range''", OF L]
  show "keeps (finalizeUnresolvedRanges ops) r"
    by (rule keeps_after [OF _ refl conjunct1 [OF fe]]) (simp_all add: finalizeUnresolvedRanges_def)
  assume run: "finalizeUnresolvedRanges ops r = (None, r')"
  have "State b = SectorStateMissing \<or> \<not> isRetryableState (State b)"
    if "extent_at (ExtentsOf ops (runStore r')) k = Some b" for k b
  proof -
    from fe run that consider "State b = SectorStateMissing" |
      "extent_at ?es k = Some b" "\<forall>e \<in> set (retryableExtents ?es). \<not> covers e k"
      unfolding finalizeUnresolvedRanges_def by blast
    then show ?thesis by cases (auto dest!: extent_at_SomeD simp: retryableExtents_def)
  qed
  then show "settled (ExtentsOf ops (runStore r'))" unfolding settled_def by blast
qed

end

context extent_store
begin

lemma runFastAcquisitionPass_keeps:
  assumes "good (runStore r)" "unat capacity \<le> sectors"
  shows "keeps (runFastAcquisitionPass ops fatal m sectorSize capacity block) r"
    "runFastAcquisitionPass ops fatal m sectorSize capacity block r = (None, r') \<Longrightarrow> k < unat capacity \<Longrightarrow>
       extent_at (ExtentsOf ops (runStore r')) k \<noteq> None"
proof -
  let ?loop = "fast_loop ops fatal m sectorSize capacity block 0"
  let ?run = "runFastAcquisitionPass ops fatal m sectorSize capacity block"
  have "keeps ?run r \<and> (\<forall>r' k. ?run r = (None, r') \<longrightarrow> k < unat capacity \<longrightarrow>
     extent_at (ExtentsOf ops (runStore r')) k \<noteq> None)"
  proof (cases "block = 0")
    case True
    then show ?thesis using assms(1) good_broken by (simp add: step_keeps_def runFastAcquisitionPass_def)
  next
    case False
    obtain r1 where rp: "reportRecoveryProgress ops ''Fast acquisition'' [] r = (None, r1)" "runStore r1 = runStore r"
      by (cases "summarizeRecoveryExtentStates (progressExtents ops r)") (auto simp: reportRecoveryProgress_def)
    have run: "?run r = ?loop r1" using False rp by (simp add: runFastAcquisitionPass_def andThen_def)
    have g1: "good (runStore r1)" using assms(1) rp(2) by simp
    note fl = fast_loop_keeps [OF g1 False assms(2), of fatal 0]
    show ?thesis using keeps_after [of ?run, OF run rp(2) conjunct1 [OF fl]] fl run by simp
  qed
  then show "keeps ?run r" "?run r = (None, r') \<Longrightarrow> k < unat capacity \<Longrightarrow>
       extent_at (ExtentsOf ops (runStore r')) k \<noteq> None" by blast+
qed

lemma checkpointed_keeps:
  "keeps a r \<Longrightarrow> keeps (checkpointed ops a) r"
  unfolding checkpointed_def by (intro keeps_andThen keeps_checkpoint)

lemma final_report:
  "reportRecoveryProgress ops pass issue r = (e, r') \<Longrightarrow> e = None \<and> runStore r' = runStore r"
  by (auto simp: reportRecoveryProgress_def split: prod.splits)

lemma andThen_NoneE:
  assumes "andThen a b r = (None, r')"
  obtains r1 where "a r = (None, r1)" "b r1 = (None, r')"
  using assms by (auto simp: andThen_def split: prod.splits option.splits)

lemma retry_passes_keeps:
  assumes "good (runStore r)"
  shows "keeps (retry_passes ops fatal m sectorSize policy) r"
    "retry_passes ops fatal m sectorSize policy r = (None, r') \<Longrightarrow> FinalizeUnresolved policy \<Longrightarrow>
       settled (ExtentsOf ops (runStore r'))"
proof -
  let ?trim = "checkpointed ops (whenever (TrimEnabled (PolTrim policy))
       (runTrimPass ops fatal m sectorSize (TrimAttemptsLimit (PolTrim policy))))"
  let ?adaptive = "each (\<lambda>a. whenever (AdaptiveEnabled a) (checkpointed ops
       (runAdaptivePass ops fatal m sectorSize (ucast (AdaptiveBlockSectors a)) (AdaptiveAttemptsLimit a)
          ''Adaptive recovery''))) (PolAdaptive policy)"
  let ?targeted = "whenever (TargetedEnabled (PolTargeted policy)) (checkpointed ops
       (runAdaptivePass ops fatal m sectorSize (ucast (TargetedBlockSectors (PolTargeted policy)))
          (TargetedAttemptsLimit (PolTargeted policy)) ''Targeted retry''))"
  let ?finalize = "whenever (FinalizeUnresolved policy) (finalizeUnresolvedRanges ops)"
  let ?report = "\<lambda>r. reportRecoveryProgress ops
         (if \<not> FinalizeUnresolved policy \<and> unresolvedSectorCount (ExtentsOf ops (runStore r)) > 0
          then ''Deferred work remains'' else ''Complete'') [] r"
  let ?close = "andThen ?finalize (andThen (flushRecoveryStore ops) ?report)"
  have run: "retry_passes ops fatal m sectorSize policy =
     andThen (forceRecoveryCheckpoint ops CheckpointReasonPassTransition)
       (andThen ?trim (andThen ?adaptive (andThen ?targeted ?close)))"
    by (simp add: retry_passes_def)
  have report: "keeps ?report r" if "good (runStore r)" for r :: "'p Run"
    by (rule keeps_after [OF refl refl keeps_report]) (rule that)
  have k: "keeps (forceRecoveryCheckpoint ops CheckpointReasonPassTransition) r"
    "keeps ?trim r" "keeps ?adaptive r" "keeps ?targeted r" "keeps ?finalize r" "keeps (flushRecoveryStore ops) r"
    if "good (runStore r)" for r :: "'p Run"
    by (intro keeps_checkpoint checkpointed_keeps keeps_whenever keeps_each runTrimPass_keeps
        runAdaptivePass_keeps finalize_settles(1) that | assumption)+
  show "keeps (retry_passes ops fatal m sectorSize policy) r"
    unfolding run by (intro keeps_andThen k report assms)
  assume fin: "FinalizeUnresolved policy" and "retry_passes ops fatal m sectorSize policy r = (None, r')"
  then obtain r1 r2 r3 r4 r5 r6 where s: "forceRecoveryCheckpoint ops CheckpointReasonPassTransition r = (None, r1)"
    "?trim r1 = (None, r2)" "?adaptive r2 = (None, r3)" "?targeted r3 = (None, r4)"
    "?finalize r4 = (None, r5)" "flushRecoveryStore ops r5 = (None, r6)" "?report r6 = (None, r')"
    unfolding run by (elim andThen_NoneE) (rule that)
  have g4: "good (runStore r4)"
    using step_keepsD(1) [OF k(1) [OF assms] s(1)] step_keepsD(1) [OF k(2) s(2)]
      step_keepsD(1) [OF k(3) s(3)] step_keepsD(1) [OF k(4) s(4)] by blast
  have f: "finalizeUnresolvedRanges ops r4 = (None, r5)" using s(5) fin by (simp add: whenever_def)
  have g5: "good (runStore r5)" using step_keepsD(1) [OF finalize_settles(1) [OF g4] f] by blast
  have "ExtentsOf ops (runStore r6) = ExtentsOf ops (runStore r5)"
    using s(6) checkpoint_ok [OF g5] by (auto simp: flushRecoveryStore_def on_store_def split: prod.splits)
  then show "settled (ExtentsOf ops (runStore r'))"
    using finalize_settles(2) [OF g4 f] final_report [OF s(7)] by simp
qed

lemma recovery_run_keeps:
  assumes "good (runStore r)" "unat capacity \<le> sectors"
  shows "keeps (recovery_run ops fatal m sectorSize capacity policy) r"
    "recovery_run ops fatal m sectorSize capacity policy r = (None, r') \<Longrightarrow> FastEnabled (PolFast policy) \<Longrightarrow>
       k < unat capacity \<Longrightarrow> extent_at (ExtentsOf ops (runStore r')) k \<noteq> None"
    "recovery_run ops fatal m sectorSize capacity policy r = (None, r') \<Longrightarrow> FinalizeUnresolved policy \<Longrightarrow>
       settled (ExtentsOf ops (runStore r'))"
proof -
  let ?run = "recovery_run ops fatal m sectorSize capacity policy"
  let ?fast = "whenever (FastEnabled (PolFast policy))
      (runFastAcquisitionPass ops fatal m sectorSize capacity (FastBlockSectors (PolFast policy)))"
  let ?done = "andThen (flushRecoveryStore ops) (reportRecoveryProgress ops ''Complete'' [])"
  let ?rest = "\<lambda>r1. if unresolvedSectorCount (ExtentsOf ops (runStore r1)) = 0 then ?done r1
      else retry_passes ops fatal m sectorSize policy r1"
  have refused: "keeps ?run r \<and> (\<forall>r'. ?run r \<noteq> (None, r'))" if "sectorSize = 0 \<or> capacity = 0"
    using that assms(1) good_broken by (auto simp: recovery_run_def step_keeps_def)
  have run: "?run r = andThen ?fast ?rest r" if "sectorSize \<noteq> 0" "capacity \<noteq> 0"
    using that by (simp add: recovery_run_def)
  have kf: "keeps ?fast r" by (intro keeps_whenever runFastAcquisitionPass_keeps(1) assms)
  have kd: "keeps ?done r1" if "good (runStore r1)" for r1 :: "'p Run"
    by (intro keeps_andThen keeps_checkpoint keeps_report that)
  have kr: "keeps ?rest r1" if "good (runStore r1)" for r1 :: "'p Run"
  proof (cases "unresolvedSectorCount (ExtentsOf ops (runStore r1)) = 0")
    case True
    then show ?thesis by (intro keeps_after [OF _ refl kd [OF that]]) simp
  next
    case False
    then show ?thesis by (intro keeps_after [OF _ refl retry_passes_keeps(1) [OF that]]) simp
  qed
  show "keeps ?run r"
  proof (cases "sectorSize = 0 \<or> capacity = 0")
    case False
    then show ?thesis by (intro keeps_after [of ?run, OF run refl keeps_andThen [OF kf kr]]) simp_all
  qed (use refused in blast)
  assume ok: "?run r = (None, r')"
  then have nz: "sectorSize \<noteq> 0" "capacity \<noteq> 0" using refused by blast+
  have "andThen ?fast ?rest r = (None, r')" using ok run [OF nz] by argo
  then obtain r1 where r1: "?fast r = (None, r1)" "?rest r1 = (None, r')" by (rule andThen_NoneE)
  have g1: "good (runStore r1)" using step_keepsD(1) [OF kf r1(1)] by blast
  show "extent_at (ExtentsOf ops (runStore r')) k \<noteq> None" if "FastEnabled (PolFast policy)" "k < unat capacity"
  proof -
    have "runFastAcquisitionPass ops fatal m sectorSize capacity (FastBlockSectors (PolFast policy)) r = (None, r1)"
      using r1(1) that(1) by (simp add: whenever_def)
    from runFastAcquisitionPass_keeps(2) [OF assms this that(2)]
    show ?thesis using step_keepsD(1) [OF kr [OF g1] r1(2)] unfolding advances_def by blast
  qed
  show "settled (ExtentsOf ops (runStore r'))" if "FinalizeUnresolved policy"
  proof (cases "unresolvedSectorCount (ExtentsOf ops (runStore r1)) = 0")
    case True
    then have "?done r1 = (None, r')" using r1(2) by simp
    then obtain r2 where r2: "flushRecoveryStore ops r1 = (None, r2)"
      "reportRecoveryProgress ops ''Complete'' [] r2 = (None, r')" by (rule andThen_NoneE)
    have "runStore r' = runStore r2" using final_report [OF r2(2)] by blast
    with r2(1) have "ExtentsOf ops (runStore r') = ExtentsOf ops (runStore r1)"
      using checkpoint_ok [OF g1] by (auto simp: flushRecoveryStore_def on_store_def split: prod.splits)
    then show ?thesis using unresolved_none [OF good_on_medium [OF g1] sectors_small [OF g1] True] by simp
  next
    case False
    then show ?thesis using retry_passes_keeps(2) [OF g1 _ that] r1(2) by simp
  qed
qed

lemma run_durable:
  assumes "good (runStore r)" "unat capacity \<le> sectors"
    and "runPassBasedRecoveryWithPolicy ops fatal m sectorSize capacity policy r = (None, r')"
  shows "good (runStore r')" "DurableExtentsOf ops (runStore r') = ExtentsOf ops (runStore r')"
    "FastEnabled (PolFast policy) \<Longrightarrow> k < unat capacity \<Longrightarrow> extent_at (ExtentsOf ops (runStore r')) k \<noteq> None"
    "FinalizeUnresolved policy \<Longrightarrow> settled (ExtentsOf ops (runStore r'))"
proof -
  obtain e1 r1 where r1: "recovery_run ops fatal m sectorSize capacity policy r = (e1, r1)" by force
  obtain e2 r2 where r2: "flushRecoveryStore ops r1 = (e2, r2)" by force
  have "errors_Join e1 e2 = None" and rr: "r2 = r'"
    using assms(3) r1 r2 by (simp_all add: runPassBasedRecoveryWithPolicy_def split: option.splits)
  then have n: "e1 = None" "e2 = None" by (cases e1; cases e2; simp)+
  note k = recovery_run_keeps [OF assms(1,2)]
  have g1: "good (runStore r1)" using step_keepsD(1) [OF k(1)] r1 n(1) by blast
  have c: "CheckpointTo ops (runStore r1) CheckpointReasonRecoveryReturn = (None, runStore r')"
    using r2 n(2) rr by (auto simp: flushRecoveryStore_def on_store_def split: prod.splits)
  note ck = checkpoint_ok [OF g1 c]
  show "good (runStore r')" "DurableExtentsOf ops (runStore r') = ExtentsOf ops (runStore r')" using ck by simp_all
  show "FastEnabled (PolFast policy) \<Longrightarrow> k < unat capacity \<Longrightarrow> extent_at (ExtentsOf ops (runStore r')) k \<noteq> None"
    "FinalizeUnresolved policy \<Longrightarrow> settled (ExtentsOf ops (runStore r'))"
    using k(2,3) r1 n(1) ck by simp_all
qed

end

end
