(* ===== verification/StrategyProps.thy ===== *)
theory StrategyProps
  imports StrategyFacts StoreProps
begin

text \<open>
  The persistence layer keeps the contract of an extent store, and what follows for the recovery
  job: it never leaves claims on stable storage that the image does not back, a finished run has
  recorded every sector durably, and on a healthy medium it recovers everything.
\<close>

section \<open>The persistence layer as an extent store\<close>

lemma persistence_store_simps [simp]:
  "ExtentsOf persistence_store p = extents (store p)"
  "DurableExtentsOf persistence_store p = durableExtents (store p)"
  "ApplyTo persistence_store = Persistence_ApplyExtent" "PersistTo persistence_store = PersistRecovered"
  "CheckpointTo persistence_store = ForceCheckpoint"
  by (simp_all add: persistence_store_def)

text \<open>
  A job ready to run: the invariant, extents of the right shape, and a medium whose bytes can be
  numbered with 64 bits.
\<close>

definition job_ready :: "(nat \<Rightarrow> u8) \<Rightarrow> Header \<Rightarrow> string \<Rightarrow> string \<Rightarrow> nat set \<Rightarrow> Persistence \<Rightarrow> bool" where
  "job_ready m h mp ip K p \<longleftrightarrow>
     job_saved m h mp ip K p \<and> list_all extent_typed (extents (store p)) \<and>
     unat (ExpectedSectorCount h) * unat (LogicalSectorSize h) < 18446744073709551616"

lemma extent_typed_body [simp]: "extent_typed (body e) = extent_typed e"
  by (simp add: extent_typed_def)

lemma ApplyExtent_typed:
  assumes "ApplyExtent es c = Inr r" "within32 es" "endN c < 4294967296" "list_all extent_typed es" "extent_typed c"
  shows "list_all extent_typed r"
proof -
  note ar = ApplyExtent_result [OF assms(1-3)]
  have "extent_typed e" if e: "e \<in> set r" for e
  proof -
    have "extent_valid e" using ar(1) e by (auto simp: wf_extents_def)
    then have "covers e (startN e)" using extent_valid_pos [of e] by (simp add: covers_def)
    then have "extent_at r (startN e) = Some (body e)" using extent_at_Some [OF ar(1) e] by blast
    with ar(4) [of "startN e"] have "body e = body c \<or> extent_at es (startN e) = Some (body e)" by (auto split: if_splits)
    then obtain e' where "body e = body e'" "extent_typed e'"
      using assms(4,5) by (auto simp: list_all_iff dest: extent_at_SomeD)
    then show ?thesis by (metis extent_typed_body)
  qed
  then show ?thesis by (simp add: list_all_iff)
qed

lemma job_ready_session:
  assumes "job_ready m h mp ip K p"
  shows "job_saved m h mp ip K p" "unat (ExpectedSectorCount h) < 4294967296"
    "on_medium (unat (ExpectedSectorCount h)) (extents (store p))" "within32 (extents (store p))"
    "list_all extent_typed (extents (store p))"
    "unat (ExpectedSectorCount h) * unat (LogicalSectorSize h) < 18446744073709551616"
proof -
  show sv: "job_saved m h mp ip K p" and "list_all extent_typed (extents (store p))"
    and "unat (ExpectedSectorCount h) * unat (LogicalSectorSize h) < 18446744073709551616"
    using assms by (simp_all add: job_ready_def)
  obtain c rs ps where ses: "session c rs ps (disk p) (store p)" using job_savedD(11) [OF sv] by blast
  show n: "unat (ExpectedSectorCount h) < 4294967296"
    using ses job_savedD(1) [OF sv] by (auto simp: session_def)
  show "on_medium (unat (ExpectedSectorCount h)) (extents (store p))"
    using session_on_medium [OF ses] job_savedD(1) [OF sv] by simp
  then show "within32 (extents (store p))" using on_medium_within32 n by blast
qed

lemma job_ready_apply:
  assumes "job_ready m h mp ip K p" "job_saved m h mp ip K q" "extent_typed e"
    "endN e \<le> unat (ExpectedSectorCount h)" "ApplyExtent (extents (store p)) e = Inr (extents (store q))"
  shows "job_ready m h mp ip K q"
proof -
  note jr = job_ready_session [OF assms(1)]
  have "list_all extent_typed (extents (store q))"
    by (rule ApplyExtent_typed [OF assms(5) jr(4) _ jr(5) assms(3)]) (use assms(4) jr(2) in simp)
  with assms(2) jr(6) show ?thesis by (simp add: job_ready_def)
qed

lemma job_ready_persist:
  assumes "job_ready m h mp ip K p" "extent_typed e" "endN e \<le> unat (ExpectedSectorCount h)"
    "off = startN e * unat (LogicalSectorSize h)"
    "PersistRecovered p (map m [off ..< off + unat (Sectors e) * unat (LogicalSectorSize h)]) off e = (err, q)"
  shows "err \<noteq> None \<Longrightarrow> crash_safe m h mp ip K q"
    "err = None \<Longrightarrow> job_ready m h mp ip K q \<and> ApplyExtent (extents (store p)) e = Inr (extents (store q))"
proof -
  note jr = job_ready_session [OF assms(1)]
  let ?d = "map m [off ..< off + unat (Sectors e) * unat (LogicalSectorSize h)]"
  have le: "unat (Sectors e) \<le> unat (ExpectedSectorCount h)" using assms(3) by linarith
  have len: "length ?d = unat (Sectors e) * unat (LogicalSectorSize h)" by simp
  have "length ?d < 18446744073709551616"
    unfolding len using mult_le_mono1 [OF le, of "unat (LogicalSectorSize h)"] jr(6) by (rule le_less_trans)
  note step = PersistRecovered_step [OF jr(1) assms(5) _ assms(4) len this assms(2,3)]
  show "err \<noteq> None \<Longrightarrow> crash_safe m h mp ip K q" using step(1) by simp
  show "err = None \<Longrightarrow> job_ready m h mp ip K q \<and> ApplyExtent (extents (store p)) e = Inr (extents (store q))"
    using step(2) job_ready_apply [OF assms(1) _ assms(2,3)] by simp
qed

interpretation job: extent_store persistence_store "job_ready m h mp ip K" "crash_safe m h mp ip K" m
    "LogicalSectorSize h" "unat (ExpectedSectorCount h)" for m h mp ip K
proof
  fix p q :: Persistence and e :: Extent and er :: error and reason off
  assume g: "job_ready m h mp ip K p"
  note jr = job_ready_session [OF g]
  show "unat (ExpectedSectorCount h) < 4294967296"
    "unat (ExpectedSectorCount h) * unat (LogicalSectorSize h) < 18446744073709551616"
    "on_medium (unat (ExpectedSectorCount h)) (ExtentsOf persistence_store p)" using jr by simp_all
  show "crash_safe m h mp ip K p" using job_saved_crash_safe [OF jr(1)] .
  show "extent_typed e" if "e \<in> set (ExtentsOf persistence_store p)" using jr(5) that by (simp add: list_all_iff)
  show "job_ready m h mp ip K q \<and> ExtentsOf persistence_store q = ExtentsOf persistence_store p \<and>
      DurableExtentsOf persistence_store q = ExtentsOf persistence_store p"
    if "CheckpointTo persistence_store p reason = (None, q)"
    using ForceCheckpoint_step(2) [OF jr(1), of reason None q] that jr(5,6) by (simp add: job_ready_def)
  show "crash_safe m h mp ip K q" if "CheckpointTo persistence_store p reason = (Some er, q)"
    using ForceCheckpoint_step(1) [OF jr(1), of reason "Some er" q] that by simp
  assume e: "extent_typed e" "endN e \<le> unat (ExpectedSectorCount h)"
  show "job_ready m h mp ip K q \<and>
      ApplyExtent (ExtentsOf persistence_store p) e = Inr (ExtentsOf persistence_store q)"
    if "\<not> stateClaimsImageData (State e)" "ApplyTo persistence_store p e = (None, q)"
    using ApplyExtent_step(2) [OF jr(1) _ e that(1), of None q] that(2) job_ready_apply [OF g _ e] by simp
  show "crash_safe m h mp ip K q"
    if "\<not> stateClaimsImageData (State e)" "ApplyTo persistence_store p e = (Some er, q)"
    using ApplyExtent_step(1) [OF jr(1) _ e that(1), of "Some er" q] that(2) by simp
  assume o: "off = startN e * unat (LogicalSectorSize h)"
  show "job_ready m h mp ip K q \<and>
      ApplyExtent (ExtentsOf persistence_store p) e = Inr (ExtentsOf persistence_store q)"
    if "PersistTo persistence_store p (map m [off ..< off + unat (Sectors e) * unat (LogicalSectorSize h)]) off e = (None, q)"
    using job_ready_persist(2) [OF g e o, of None q] that by simp
  show "crash_safe m h mp ip K q"
    if "PersistTo persistence_store p (map m [off ..< off + unat (Sectors e) * unat (LogicalSectorSize h)]) off e = (Some er, q)"
    using job_ready_persist(1) [OF g e o, of "Some er" q] that by simp
qed

section \<open>Crashes\<close>

text \<open>
  C1: Whatever happens during a recovery run, what a crash leaves is consistent. At the end of the
  run's passes, or at the operation where they stopped (a failed write or sync, a fatal read, a
  cancelled context; a machine that dies is a disk all of whose calls fail from then on), the map
  file cut off at any byte can be inspected, it still claims every sector that was durable before
  the run, and every sector it claims holds the medium's bytes in any image that a crash can leave.
\<close>

theorem recovery_survives_crash:
  assumes "job_ready m h mp ip K (runStore r)" "unat capacity \<le> unat (ExpectedSectorCount h)"
    and "recovery_run persistence_store fatal m (LogicalSectorSize h) capacity policy r = (err, r')"
  shows "crash_safe m h mp ip K (runStore r')"
proof -
  note k = job.recovery_run_keeps(1) [OF assms(1,2), of fatal policy]
  show ?thesis
    using step_keepsD(1) [OF k, of r'] step_keepsD(2) [OF k, of _ r'] assms(3) job.good_broken by (cases err) auto
qed

section \<open>Finished runs\<close>

lemma state_not_retryable:
  assumes "extent_valid e" "\<not> isRetryableState (State e)"
  shows "stateClaimsImageData (State e) \<or> State e = SectorStateSkipped"
proof -
  have "ValidateSectorState (State e) = None"
    using assms(1) by (auto simp: extent_valid_iff ValidateStateConfidence_def split: option.splits)
  then have "State e \<le> 9" by (auto simp: ValidateSectorState_def split: if_splits)
  then have "unat (State e) \<le> 9" by (simp add: word_le_nat_alt)
  then have "unat (State e) \<in> {0,1,2,3,4,5,6,7,8,9}" by auto
  then have "State e \<in> {0,1,2,3,4,5,6,7,8,9}"
    by (auto simp: word_unat_eq_iff)
  with assms(2) show ?thesis by (auto simp: isRetryableState_def stateClaimsImageData_def)
qed

text \<open>
  C2: A run that returns without an error has accounted for the medium on stable storage. Every
  sector up to the capacity has an entry among the durable extents; a sector that claims data holds
  the medium's bytes in the synced image; with \<^verbatim>\<open>FinalizeUnresolved\<close> every sector is either
  recovered, missing or skipped; and nothing that was durable before is lost.
\<close>

theorem finished_recovery_durable:
  assumes "job_ready m h mp ip K (runStore r)" "unat capacity \<le> unat (ExpectedSectorCount h)"
    and "runPassBasedRecoveryWithPolicy persistence_store fatal m (LogicalSectorSize h) capacity policy r = (None, r')"
    and "FastEnabled (PolFast policy)" "n < unat capacity"
  shows "K \<subseteq> claimed (durableExtents (store (runStore r'))) \<and>
    (\<exists>b. extent_at (durableExtents (store (runStore r'))) n = Some b \<and>
      (stateClaimsImageData (State b) \<longrightarrow>
         image_holds m (unat (LogicalSectorSize h)) {n} (Stable (disk (runStore r')) ip)) \<and>
      (FinalizeUnresolved policy \<longrightarrow>
         stateClaimsImageData (State b) \<or> State b = SectorStateMissing \<or> State b = SectorStateSkipped))"
proof -
  note rd = job.run_durable [OF assms(1-3)]
  let ?p = "runStore r'"
  have du: "durableExtents (store ?p) = extents (store ?p)" using rd(2) by simp
  note jr = job_ready_session [OF rd(1)]
  note sv = job_savedD [OF jr(1)]
  obtain b where b: "extent_at (extents (store ?p)) n = Some b" using rd(3) [OF assms(4,5)] by auto
  have "image_holds m (unat (LogicalSectorSize h)) {n} (Stable (disk ?p) ip)" if "stateClaimsImageData (State b)"
    using image_holds_mono [OF sv(9), of "{n}"] that b unfolding du claimed_def by blast
  moreover have "stateClaimsImageData (State b) \<or> State b = SectorStateMissing \<or> State b = SectorStateSkipped"
    if "FinalizeUnresolved policy"
  proof -
    obtain e where e: "e \<in> set (extents (store ?p))" "b = body e" using extent_at_SomeD [OF b] by blast
    have "extent_valid e" using e(1) jr(3) by (auto simp: on_medium_def wf_extents_def)
    moreover have "State b = SectorStateMissing \<or> \<not> isRetryableState (State b)"
      using rd(4) [OF that] b unfolding settled_def persistence_store_simps by blast
    ultimately show ?thesis using e(2) state_not_retryable [of e] by auto
  qed
  ultimately show ?thesis using sv(10) b du by auto
qed

section \<open>A healthy medium\<close>

lemma writeFullAtWriter_done:
  "Script w = [] \<Longrightarrow> \<exists>w1. writeFullAtWriter w p data off = (None, w1) \<and> Script w1 = []"
proof (cases "data = []")
  case False
  assume "Script w = []"
  then have "writeFullAtWriter w p data off = (None, put_file w p (overwrite off data (contents w p)))"
    using False by (simp add: writeFullAtWriter.simps [of w] os_WriteAt_def Let_def
        writeFullAtWriter.simps [of "put_file w p x" for x])
  with \<open>Script w = []\<close> show ?thesis by simp
qed (simp add: writeFullAtWriter.simps)

lemma now_Script: "now p = (t, q) \<Longrightarrow> disk q = disk p \<and> store q = store p"
  using now_frame by blast

lemma ForceCheckpoint_done:
  assumes "job_saved m h mp ip K p" "Script (disk p) = []"
  shows "\<exists>q. ForceCheckpoint p reason = (None, q) \<and> Script (disk q) = [] \<and>
    nextSequence (store q) = nextSequence (store p)"
proof -
  obtain c rs ps where ses: "session c rs ps (disk p) (store p)" using job_savedD(11) [OF assms(1)] by blast
  have u: "\<not> unusable (store p)" using ses by (simp add: session_def)
  obtain b0 where b0: "Files (disk p) (path (store p)) = Some b0" using ses by (auto simp: session_def)
  obtain w1 where w1: "(if pendingRecoveredBytes p > 0 then os_Sync (disk p) (image p) else (None, disk p)) = (None, w1)"
    "Script w1 = []" "Files w1 = Files (disk p)"
    using assms(2) by (cases "pendingRecoveredBytes p > 0") (simp_all add: os_Sync_done)
  obtain s1 w2 where fl: "Flush w1 (store p) = (None, s1, w2)" "Script w2 = []" using Flush_done [OF w1(2) u] by blast
  have ns: "nextSequence s1 = nextSequence (store p)" using Flush_end(3) [OF fl(1) _ u, of b0] w1(3) b0 by simp
  show ?thesis
  proof (cases "pendingRecoveredBytes p = 0 \<and> pendingBytes (store p) = 0")
    case True
    obtain t p1 where "now p = (t, p1)" by force
    with True assms(2) now_Script show ?thesis by (fastforce simp: ForceCheckpoint_def)
  next
    case False
    let ?q = "p\<lparr>disk := w2, store := s1,
        stats := \<lparr>StatCount = StatCount (stats p) + 1, LastReason = reason,
                  LastPendingRecoveredBytes = pendingRecoveredBytes p, LastPendingRecords = pendingRecordCount p\<rparr>,
        pendingRecoveredBytes := 0, pendingRecordCount := 0\<rparr>"
    obtain t p1 where n: "now ?q = (t, p1)" by force
    have "ForceCheckpoint p reason = (None, p1\<lparr>lastCheckpoint := t\<rparr>)"
      unfolding ForceCheckpoint_def using False w1(1) fl(1) n by auto
    with now_Script [OF n] fl(2) ns show ?thesis by simp
  qed
qed

lemma stage_recovered_done:
  assumes sv: "job_saved m h mp ip K p" and sc: "Script (disk p) = []"
    and d: "data = map m [off ..< off + length data]" "off = startN e * unat (LogicalSectorSize h)"
      "length data = unat (Sectors e) * unat (LogicalSectorSize h)" "data \<noteq> []" "length data < 18446744073709551616"
    and lim: "(of_nat (length data) :: u64) \<le> MaxPendingRecoveredBytes"
      "pendingRecoveredBytes p = 0 \<or> pendingRecoveredBytes p + of_nat (length data) \<le> MaxPendingRecoveredBytes"
    and e: "extent_typed e" "endN e \<le> unat (ExpectedSectorCount h)"
    and ap: "ApplyExtent (extents (store p)) e = Inr es" and ns: "nextSequence (store p) \<noteq> 0"
  shows "\<exists>q. stage_recovered p data off e = (None, q) \<and> Script (disk q) = [] \<and>
    nextSequence (store q) = nextSequence (store p) + 1"
proof -
  note v = job_savedD [OF sv]
  obtain c rs ps where ses: "session c rs ps (disk p) (store p)" using v(11) by blast
  have u: "\<not> unusable (store p)" using ses by (simp add: session_def)
  obtain w1 where wf: "writeFullAtWriter (disk p) ip data off = (None, w1)" "Script w1 = []"
    using writeFullAtWriter_done [OF sc] by blast
  obtain es' b where pr: "prepareExtent (store p) e = Inr (es', b)"
    using prepareExtent_total(1) [OF ns e(1)] ap by (cases "prepareExtent (store p) e") fastforce+
  let ?s = "(store p)\<lparr>extents := es', nextSequence := nextSequence (store p) + 1,
      pendingRecords := pendingRecords (store p) @ [b], pendingBytes := pendingBytes (store p) + of_nat (length b)\<rparr>"
  have stg: "StageExtent (store p) e = (None, ?s)" using u pr by (simp add: StageExtent_def)
  let ?p = "p\<lparr>disk := w1, store := ?s, pendingRecoveredBytes := pendingRecoveredBytes p + of_nat (length data),
      pendingRecordCount := pendingRecordCount p + 1\<rparr>"
  have sv2: "job_saved m h mp ip K ?p"
    using stage_recovered_staged [OF sv wf(1) d lim e stg] .
  obtain t p2 where n: "now ?p = (t, p2)" by force
  have sv3: "job_saved m h mp ip K p2" using job_saved_cong [of p2 ?p] now_frame [OF n] sv2 by simp
  have st2: "Script (disk p2) = []" "nextSequence (store p2) = nextSequence (store p) + 1"
    using now_frame [OF n] wf(2) by simp_all
  obtain q1 where q1: "ForceCheckpoint ?p CheckpointReasonThreshold = (None, q1)" "Script (disk q1) = []"
    "nextSequence (store q1) = nextSequence (store p) + 1"
    using ForceCheckpoint_done [OF sv2, of CheckpointReasonThreshold] wf(2) by auto
  obtain q2 where q2: "ForceCheckpoint p2 CheckpointReasonInterval = (None, q2)" "Script (disk q2) = []"
    "nextSequence (store q2) = nextSequence (store p) + 1"
    using ForceCheckpoint_done [OF sv3, of CheckpointReasonInterval] st2 by auto
  have "stage_recovered p data off e =
     (if pendingRecoveredBytes ?p \<ge> MaxPendingRecoveredBytes \<or> pendingRecordCount ?p \<ge> MaxPendingRecords
      then (None, q1)
      else if t - lastCheckpoint p2 \<ge> MaxCheckpointInterval then (None, q2) else (None, p2))"
    by (simp only: stage_recovered_def v(3) wf(1) stg Let_def split_conv option.case prod.case n q1(1) q2(1))
  then show ?thesis using q1 q2 st2 by (auto split: if_splits)
qed

lemma PersistRecovered_done:
  assumes sv: "job_saved m h mp ip K p" and sc: "Script (disk p) = []"
    and d: "data = map m [off ..< off + length data]" "off = startN e * unat (LogicalSectorSize h)"
      "length data = unat (Sectors e) * unat (LogicalSectorSize h)" "data \<noteq> []" "length data \<le> 8388608"
    and e: "extent_typed e" "endN e \<le> unat (ExpectedSectorCount h)"
    and ap: "ApplyExtent (extents (store p)) e = Inr es" and ns: "nextSequence (store p) \<noteq> 0"
  shows "\<exists>q. PersistRecovered p data off e = (None, q) \<and> Script (disk q) = [] \<and>
    nextSequence (store q) = nextSequence (store p) + 1"
proof -
  let ?n = "of_nat (length data) :: u64"
  have M: "MaxPendingRecoveredBytes = 8388608" by (simp add: MaxPendingRecoveredBytes_def)
  have lim: "?n \<le> MaxPendingRecoveredBytes" using d(5) by (simp add: M word_le_nat_alt unat_of_nat)
  have len: "length data < 18446744073709551616" using d(5) by simp
  have fits: "(data = []) = False" "(?n > MaxPendingRecoveredBytes) = False" using d(4) lim by (simp_all add: not_less)
  show ?thesis
  proof (cases "pendingRecoveredBytes p > 0 \<and> pendingRecoveredBytes p + ?n > MaxPendingRecoveredBytes")
    case False
    then have "pendingRecoveredBytes p = 0 \<or> pendingRecoveredBytes p + ?n \<le> MaxPendingRecoveredBytes"
      using word_gt_0 [of "pendingRecoveredBytes p"] not_less by metis
    note staged = stage_recovered_done [OF sv sc d(1-4) len lim this e ap ns]
    have "PersistRecovered p data off e = stage_recovered p data off e"
      unfolding PersistRecovered_def by (simp only: fits False if_False)
    with staged show ?thesis by simp
  next
    case True
    obtain p1 where p1: "ForceCheckpoint p CheckpointReasonThreshold = (None, p1)" "Script (disk p1) = []"
      "nextSequence (store p1) = nextSequence (store p)" using ForceCheckpoint_done [OF sv sc] by blast
    note st = ForceCheckpoint_step(2) [OF sv p1(1) refl]
    obtain q where q: "stage_recovered p1 data off e = (None, q)" "Script (disk q) = []"
      "nextSequence (store q) = nextSequence (store p) + 1"
      using stage_recovered_done [OF conjunct1 [OF st] p1(2) d(1-4) len lim _ e, where es = es] st ap ns p1(3) by auto
    have "PersistRecovered p data off e = stage_recovered p1 data off e"
      unfolding PersistRecovered_def
      by (simp only: fits True if_True if_False simp_thms p1(1) split_conv option.case prod.case)
    with q show ?thesis by auto
  qed
qed

text \<open>The state of a healthy run that has read every sector below \<open>l\<close>.\<close>

definition healthy_at :: "(nat \<Rightarrow> u8) \<Rightarrow> Header \<Rightarrow> string \<Rightarrow> string \<Rightarrow> nat set \<Rightarrow> nat \<Rightarrow> Persistence Run \<Rightarrow> bool" where
  "healthy_at m h mp ip K l r \<longleftrightarrow>
     job_ready m h mp ip K (runStore r) \<and> Script (disk (runStore r)) = [] \<and> Reads r = [] \<and> CtxErrs r = [] \<and>
     (\<forall>n. extent_at (extents (store (runStore r))) n \<noteq> None \<longrightarrow> n < l) \<and>
     {..<l} \<subseteq> claimed (extents (store (runStore r))) \<and>
     nextSequence (store (runStore r)) \<noteq> 0 \<and> unat (nextSequence (store (runStore r))) \<le> l + 1"

lemma healthy_block:
  assumes H: "healthy_at m h mp ip K (unat lba) r" and n: "n \<noteq> 0" "unat lba + unat n \<le> unat (ExpectedSectorCount h)"
    and ss: "LogicalSectorSize h \<noteq> 0" "unat n * unat (LogicalSectorSize h) \<le> 8388608"
  shows "\<exists>r'. fast_block persistence_store fatal m (LogicalSectorSize h) lba n r = (None, r') \<and>
    healthy_at m h mp ip K (unat lba + unat n) r'"
proof -
  let ?p = "runStore r" and ?ss = "unat (LogicalSectorSize h)"
  from H have g: "job_ready m h mp ip K ?p" and sc: "Script (disk ?p) = []" "Reads r = []" "CtxErrs r = []"
    and free: "\<forall>k. extent_at (extents (store ?p)) k \<noteq> None \<longrightarrow> k < unat lba"
    and cl: "{..<unat lba} \<subseteq> claimed (extents (store ?p))"
    and ns: "nextSequence (store ?p) \<noteq> 0" "unat (nextSequence (store ?p)) \<le> unat lba + 1"
    unfolding healthy_at_def by blast+
  note jr = job_ready_session [OF g]
  note ex = job.block_exact [OF g n(2)]
  let ?size = "unat (n * ucast (LogicalSectorSize h))" and ?off = "unat (lba * ucast (LogicalSectorSize h))"
  let ?e = "plain lba n SectorStateReadUnverified ConfidenceSingleRead 1"
  have E: "startN ?e = unat lba" "endN ?e = unat lba + unat n" "unat (Sectors ?e) = unat n" using ex by simp_all
  have wf: "wf_extents (extents (store ?p))" using jr(3) by (simp add: on_medium_def)
  have val: "ValidateStateConfidence SectorStateReadUnverified ConfidenceSingleRead = None" by code_simp
  have small: "endN ?e < 4294967296" using E(2) n(2) jr(2) by simp
  have cf: "Confidence ?e = ConfidenceSingleRead" by (simp add: plain_def)
  have ve: "extent_valid ?e"
    using E small val n(1) cf by (simp add: extent_valid_iff word_neq_0_pos)
  have below: "endN x \<le> unat lba" if "x \<in> set (extents (store ?p))" for x
    using on_medium_covered [OF wf, of "unat lba"] free that by blast
  have "\<not> Overlaps x ?e" if "x \<in> set (extents (store ?p))" for x
  proof -
    have "extent_valid x" using wf that by (simp add: wf_extents_def)
    then show ?thesis using below [OF that] E(1) ve by (auto simp: Overlaps_iff)
  qed
  then obtain es where ap: "ApplyExtent (extents (store ?p)) ?e = Inr es"
    using ApplyExtent_correct [OF wf jr(4) ve small] by metis
  let ?d = "map m [?off ..< ?off + unat (Sectors ?e) * ?ss]"
  have d: "?d = map m [?off ..< ?off + length ?d]" "?off = startN ?e * ?ss" "length ?d = unat (Sectors ?e) * ?ss"
    "length ?d \<le> 8388608" "?d \<noteq> []"
    using ex ss n(1) by (simp_all add: word_neq_0_pos)
  obtain q where q: "PersistRecovered ?p ?d ?off ?e = (None, q)" "Script (disk q) = []"
    "nextSequence (store q) = nextSequence (store ?p) + 1"
    using PersistRecovered_done [OF jr(1) sc(1) d(1-3,5,4) _ _ ap ns(1)] E(2) n(2) by auto
  have on: "endN ?e \<le> unat (ExpectedSectorCount h)" using E(2) n(2) by simp
  have gq: "job_ready m h mp ip K q" and aq: "ApplyExtent (extents (store ?p)) ?e = Inr (extents (store q))"
    using job_ready_persist(2) [OF g _ on d(2) q(1)] by simp_all
  have md: "medium_bytes m ?off ?size = ?d" using ex by (simp add: medium_bytes_def)
  let ?r = "r\<lparr>runStore := q\<rparr>"
  obtain rp where rp: "reportRecoveryProgress persistence_store ''Fast acquisition'' [] ?r = (None, ?r\<lparr>Reported := rp\<rparr>)"
    by (cases "summarizeRecoveryExtentStates (progressExtents persistence_store ?r)") (simp add: reportRecoveryProgress_def)
  have "fast_block persistence_store fatal m (LogicalSectorSize h) lba n r = (None, ?r\<lparr>Reported := rp\<rparr>)"
    using sc(2) q(1) rp
    by (simp add: fast_block_def Let_def readAtWithDeadline_def readSucceeded_def md andThen_def on_store_def)
  moreover have "healthy_at m h mp ip K (unat lba + unat n) (?r\<lparr>Reported := rp\<rparr>)"
  proof -
    have at: "extent_at (extents (store q)) k = (if covers ?e k then Some (body ?e) else extent_at (extents (store ?p)) k)" for k
      by (rule ApplyExtent_result(4) [OF aq jr(4) small])
    have "\<forall>k. extent_at (extents (store q)) k \<noteq> None \<longrightarrow> k < unat lba + unat n"
      using at free E by (auto simp: covers_def split: if_splits)
    moreover have "stateClaimsImageData (State ?e)" by (simp add: stateClaimsImageData_def)
    then have "claimed (extents (store q)) = claimed (extents (store ?p)) \<union> {unat lba ..< unat lba + unat n}"
      using claimed_apply(1) [OF aq jr(4) small] E by simp
    then have "{..<unat lba + unat n} \<subseteq> claimed (extents (store q))" using cl by auto
    moreover have "unat (nextSequence (store q)) = unat (nextSequence (store ?p)) + 1"
      unfolding q(3) using ns(2) n(2) jr(2) by (subst unat_add_le) simp_all
    then have "nextSequence (store q) \<noteq> 0" "unat (nextSequence (store q)) \<le> unat lba + unat n + 1"
      using ns(2) n(1) by (auto simp: word_neq_0_pos)
    ultimately show ?thesis using gq q(2) sc by (simp add: healthy_at_def)
  qed
  ultimately show ?thesis by blast
qed

lemma healthy_fast_loop:
  assumes "block \<noteq> 0" "LogicalSectorSize h \<noteq> 0" "unat block * unat (LogicalSectorSize h) \<le> 8388608"
    "unat capacity \<le> unat (ExpectedSectorCount h)"
  shows "healthy_at m h mp ip K (unat lba) r \<Longrightarrow> unat lba \<le> unat capacity \<Longrightarrow>
    \<exists>r'. fast_loop persistence_store fatal m (LogicalSectorSize h) capacity block lba r = (None, r') \<and>
      healthy_at m h mp ip K (unat capacity) r'"
proof (induction "unat capacity - unat lba" arbitrary: lba r rule: less_induct)
  case less
  let ?run = "fast_loop persistence_store fatal m (LogicalSectorSize h) capacity block"
  show ?case
  proof (cases "capacity \<le> lba")
    case True
    then have "unat lba = unat capacity" using less.prems(2) by (simp add: word_le_nat_alt)
    then show ?thesis using less.prems(1) True by (simp add: fast_loop.simps)
  next
    case False
    then have lt: "lba < capacity" by simp
    from less.prems(1) have g: "job_ready m h mp ip K (runStore r)" and ce: "CtxErrs r = []"
      and free: "\<forall>k. extent_at (extents (store (runStore r))) k \<noteq> None \<longrightarrow> k < unat lba"
      unfolding healthy_at_def by blast+
    let ?es = "ExtentsOf persistence_store (runStore r)"
    have lk: "LookupExtent ?es lba = None"
    proof (rule ccontr)
      assume "LookupExtent ?es lba \<noteq> None"
      then obtain e i where l: "LookupExtent ?es lba = Some (e, i)" by auto
      from job.lookup_on_medium(3) [OF g l order_refl job.lookup_on_medium(2) [OF g l]] free
      show False by auto
    qed
    let ?n = "fast_sectors ?es capacity block lba"
    note fs = fast_sectors_facts [OF lt, where es = ?es and block = block]
    have nz: "?n \<noteq> 0" using fs(3) assms(1) by blast
    have on: "unat lba + unat ?n \<le> unat (ExpectedSectorCount h)" using fs(5) assms(4) by linarith
    have "unat ?n \<le> unat block" using fs(2) by (simp add: word_le_nat_alt)
    from mult_le_mono1 [OF this, of "unat (LogicalSectorSize h)"] assms(3)
    have fits: "unat ?n * unat (LogicalSectorSize h) \<le> 8388608" by linarith
    from healthy_block [OF less.prems(1) nz on assms(2) fits] obtain r1 where
      r1: "fast_block persistence_store fatal m (LogicalSectorSize h) lba ?n r = (None, r1)"
        "healthy_at m h mp ip K (unat lba + unat ?n) r1" by blast
    have run: "?run lba r = ?run (lba + ?n) r1"
      using False assms(1) ce lk nz r1(1)
      by (simp add: fast_loop.simps [of _ _ _ _ _ _ lba] ctx_Err_def Let_def del: persistence_store_simps)
    have "healthy_at m h mp ip K (unat (lba + ?n)) r1" "unat (lba + ?n) \<le> unat capacity"
      using r1(2) fs(4,5) by simp_all
    from less.hyps [OF fast_sectors_decreases [OF lt nz] this] run show ?thesis by simp
  qed
qed

lemma healthy_unresolved:
  assumes "healthy_at m h mp ip K l r"
  shows "unresolvedSectorCount (extents (store (runStore r))) = 0"
proof -
  let ?es = "extents (store (runStore r))"
  from assms have g: "job_ready m h mp ip K (runStore r)"
    and free: "\<forall>k. extent_at ?es k \<noteq> None \<longrightarrow> k < l" and cl: "{..<l} \<subseteq> claimed ?es"
    unfolding healthy_at_def by blast+
  have wf: "wf_extents ?es" using job_ready_session(3) [OF g] by (simp add: on_medium_def)
  have "\<not> isRetryableState (State e)" if e: "e \<in> set ?es" for e
  proof -
    have "covers e (startN e)" using wf e extent_valid_pos [of e] by (simp add: covers_def wf_extents_def)
    then have at: "extent_at ?es (startN e) = Some (body e)" using extent_at_Some [OF wf e] by blast
    then have "startN e \<in> claimed ?es" using free cl by auto
    with at have "stateClaimsImageData (State e)" by (simp add: claimed_def)
    then show ?thesis by (auto simp: isRetryableState_def stateClaimsImageData_def)
  qed
  then have r: "retryableExtents ?es = []" by (simp add: retryableExtents_def)
  obtain a b c d where s: "summarizeRecoveryExtentStates ?es = (a, b, c, d)" by (metis prod.exhaust)
  show ?thesis
    using summarize_unresolved [OF s] s r by (simp add: unresolvedSectorCount_def summarizeRecoveryExtents_def)
qed

lemma summarize_claims:
  "\<forall>e \<in> set es. stateClaimsImageData (State e) \<Longrightarrow> \<exists>n. summarizeRecoveryExtentStates es = (n, n, 0, 0)"
proof -
  have "\<forall>e \<in> set es. stateClaimsImageData (State e) \<Longrightarrow> \<exists>n'. foldl (\<lambda>(scanned, recovered, deferred, unreadable) e.
       let n = ucast (Sectors e) in
       if recoveryStateHasData (State e) then (scanned + n, recovered + n, deferred, unreadable)
       else if State e \<in> {SectorStateUnknown, SectorStateQueued, SectorStateIOError}
       then (scanned + n, recovered, deferred + n, unreadable)
       else if State e = SectorStateMissing then (scanned + n, recovered, deferred, unreadable + n)
       else (scanned + n, recovered, deferred, unreadable)) (n, n, 0 :: u64, 0 :: u64) es = (n', n', 0, 0)" for n :: u64
    by (induction es arbitrary: n) (simp_all add: stateClaimsImageData_def recoveryStateHasData_def Let_def)
  then show "\<forall>e \<in> set es. stateClaimsImageData (State e) \<Longrightarrow> ?thesis"
    unfolding summarizeRecoveryExtentStates_def by blast
qed

lemma healthy_claims:
  assumes "healthy_at m h mp ip K l r" "e \<in> set (extents (store (runStore r)))"
  shows "stateClaimsImageData (State e)"
proof -
  have g: "job_ready m h mp ip K (runStore r)" using assms(1) by (simp add: healthy_at_def)
  note wf = job_ready_session(3) [OF g]
  have "extent_valid e" using wf assms(2) by (auto simp: on_medium_def wf_extents_def)
  then have "covers e (startN e)" using extent_valid_pos [of e] by (simp add: covers_def)
  then have at: "extent_at (extents (store (runStore r))) (startN e) = Some (body e)"
    using extent_at_Some [OF _ assms(2)] wf by (auto simp: on_medium_def)
  then have "startN e \<in> claimed (extents (store (runStore r)))" using assms(1) by (auto simp: healthy_at_def)
  then show ?thesis using at by (auto simp: claimed_def)
qed

lemma healthy_run:
  assumes "job_ready m h mp ip {} p" "extents (store p) = []" "nextSequence (store p) = 1" "Script (disk p) = []"
    and "RecoveryPolicy_Validate policy = None" "FastEnabled (PolFast policy)"
    and "unat (FastBlockSectors (PolFast policy)) * unat (LogicalSectorSize h) \<le> 8388608"
    and "LogicalSectorSize h \<noteq> 0" "capacity \<noteq> 0" "unat capacity \<le> unat (ExpectedSectorCount h)"
  shows "\<exists>r'. runPassBasedRecoveryWithPolicy persistence_store fatal m (LogicalSectorSize h) capacity policy
      \<lparr>runStore = p, Reads = [], CtxErrs = [], Reported = []\<rparr> = (None, r') \<and>
    {..<unat capacity} \<subseteq> claimed (durableExtents (store (runStore r'))) \<and>
    image_holds m (unat (LogicalSectorSize h)) {..<unat capacity} (Stable (disk (runStore r')) ip) \<and>
    Script (disk (runStore r')) = [] \<and> nextSequence (store (runStore r')) \<noteq> 0 \<and>
    unat (nextSequence (store (runStore r'))) \<le> unat capacity + 1 \<and>
    (\<exists>xs g. Reported r' = xs @ [g] \<and> DeferredSectors g = 0 \<and> UnreadableSectors g = 0)"
proof -
  let ?r = "\<lparr>runStore = p, Reads = [], CtxErrs = [], Reported = []\<rparr>"
  let ?block = "FastBlockSectors (PolFast policy)"
  have nz: "?block \<noteq> 0" using assms(5,6) by (auto simp: RecoveryPolicy_Validate_def split: if_splits)
  obtain rp where rp: "reportRecoveryProgress persistence_store ''Fast acquisition'' [] ?r = (None, ?r\<lparr>Reported := rp\<rparr>)"
    by (cases "summarizeRecoveryExtentStates (progressExtents persistence_store ?r)") (simp add: reportRecoveryProgress_def)
  have "healthy_at m h mp ip {} (unat (0 :: u64)) (?r\<lparr>Reported := rp\<rparr>)"
    using assms(1-4) by (simp add: healthy_at_def)
  from healthy_fast_loop [OF nz assms(8,7,10) this] obtain r1 where
    r1: "fast_loop persistence_store fatal m (LogicalSectorSize h) capacity ?block 0 (?r\<lparr>Reported := rp\<rparr>) = (None, r1)"
      "healthy_at m h mp ip {} (unat capacity) r1" by auto
  from r1(2) have g1: "job_ready m h mp ip {} (runStore r1)" and sc1: "Script (disk (runStore r1)) = []"
    and cl: "{..<unat capacity} \<subseteq> claimed (extents (store (runStore r1)))"
    and ns: "nextSequence (store (runStore r1)) \<noteq> 0" "unat (nextSequence (store (runStore r1))) \<le> unat capacity + 1"
    unfolding healthy_at_def by blast+
  obtain q where q: "ForceCheckpoint (runStore r1) CheckpointReasonRecoveryReturn = (None, q)" "Script (disk q) = []"
    "nextSequence (store q) = nextSequence (store (runStore r1))"
    using ForceCheckpoint_done [OF job_ready_session(1) [OF g1] sc1] by blast
  have ck: "job_ready m h mp ip {} q" "extents (store q) = extents (store (runStore r1))"
    using job.checkpoint_ok [OF g1, of CheckpointReasonRecoveryReturn q] q(1) by simp_all
  obtain q2 where q2: "ForceCheckpoint q CheckpointReasonRecoveryReturn = (None, q2)" "Script (disk q2) = []"
    "nextSequence (store q2) = nextSequence (store q)"
    using ForceCheckpoint_done [OF job_ready_session(1) [OF ck(1)] q(2)] by blast
  have ck2: "job_ready m h mp ip {} q2" "durableExtents (store q2) = extents (store q)"
    using job.checkpoint_ok [OF ck(1), of CheckpointReasonRecoveryReturn q2] q2(1) by simp_all
  have du: "durableExtents (store q) = extents (store (runStore r1))"
    using job.checkpoint_ok [OF g1, of CheckpointReasonRecoveryReturn q] q(1) by simp
  obtain n where "summarizeRecoveryExtentStates (progressExtents persistence_store (r1\<lparr>runStore := q\<rparr>)) = (n, n, 0, 0)"
    using summarize_claims healthy_claims [OF r1(2)] by (fastforce simp: progressExtents_def du)
  then have "\<exists>g. reportRecoveryProgress persistence_store ''Complete'' [] (r1\<lparr>runStore := q\<rparr>) =
      (None, r1\<lparr>runStore := q, Reported := Reported r1 @ [g]\<rparr>) \<and> DeferredSectors g = 0 \<and> UnreadableSectors g = 0"
    by (intro exI [of _ "\<lparr>ProgPass = ''Complete'', ScannedSectors = n, RecoveredSectors = n, DeferredSectors = 0,
          UnreadableSectors = 0, LastIssue = []\<rparr>"]) (simp add: reportRecoveryProgress_def)
  then obtain rq where rq: "reportRecoveryProgress persistence_store ''Complete'' [] (r1\<lparr>runStore := q\<rparr>) =
      (None, r1\<lparr>runStore := q, Reported := rq\<rparr>)"
    "\<exists>g. rq = Reported r1 @ [g] \<and> DeferredSectors g = 0 \<and> UnreadableSectors g = 0" by blast
  have fast: "whenever (FastEnabled (PolFast policy))
      (runFastAcquisitionPass persistence_store fatal m (LogicalSectorSize h) capacity ?block) ?r = (None, r1)"
    using assms(6) nz rp r1(1) by (simp add: whenever_def runFastAcquisitionPass_def andThen_def)
  have "recovery_run persistence_store fatal m (LogicalSectorSize h) capacity policy ?r =
      (None, r1\<lparr>runStore := q, Reported := rq\<rparr>)"
    using assms(8,9) fast healthy_unresolved [OF r1(2)] q(1) rq(1)
    by (simp add: recovery_run_def andThen_def flushRecoveryStore_def on_store_def)
  then have "runPassBasedRecoveryWithPolicy persistence_store fatal m (LogicalSectorSize h) capacity policy ?r =
      (None, r1\<lparr>runStore := q2, Reported := rq\<rparr>)"
    using assms(5) q2(1) by (simp add: runPassBasedRecoveryWithPolicy_def flushRecoveryStore_def on_store_def)
  moreover have "{..<unat capacity} \<subseteq> claimed (durableExtents (store q2))" using cl ck ck2(2) by simp
  moreover from this have "image_holds m (unat (LogicalSectorSize h)) {..<unat capacity} (Stable (disk q2) ip)"
    using job_savedD(9) [OF job_ready_session(1) [OF ck2(1)]] image_holds_mono by blast
  ultimately show ?thesis using q2(2,3) q(3) ns rq(2) by auto
qed

text \<open>A new map next to an empty image, for the concrete instances.\<close>

lemma new_job:
  obtains p where "job_ready m (sample_header\<lparr>CleanShutdown := False\<rparr>) ''m'' ''i'' {} p" "extents (store p) = []"
    "nextSequence (store p) = 1" "Script (disk p) = []"
proof -
  obtain s w where c: "Create empty_world ''m'' sample_header = (Inr s, w)"
    using Create_total sample_header_facts by (fastforce simp: empty_world_def)
  have sc: "Script empty_world = []" by (simp add: empty_world_def)
  note cr = Create_session [OF c sc sample_header_facts(1)]
  have ses: "session empty_checkpoint [] [] w s" using cr by (simp add: sample_header_facts)
  have rest: "path s = ''m''" "header s = sample_header\<lparr>CleanShutdown := False\<rparr>" "extents s = []" "Script w = []"
    using cr by (simp_all add: sample_header_facts)
  have nx: "nextSequence s = 1" using session_nextSequence [OF ses] by simp
  let ?p = "newRecoveryPersistence w ''i'' s []"
  have p: "store ?p = s" "disk ?p = w" "image ?p = ''i''" "pendingRecoveredBytes ?p = 0"
    by (simp_all add: newRecoveryPersistence_def now_def)
  have pr: "pendingRecords s = []" using ses by (auto simp: session_def)
  have du: "durableExtents s = []" using session_drained [OF ses pr] rest(3) by simp
  have nocl: "claimed [] = {}" by (simp add: claimed_def)
  have "job_saved m (sample_header\<lparr>CleanShutdown := False\<rparr>) ''m'' ''i'' {} ?p"
    by (rule job_savedI [where c = empty_checkpoint and rs = "[]" and ps = "[]"])
       (simp_all add: p rest pr du nocl ses Create_Stable [OF c sc] image_holds_def)
  then have "job_ready m (sample_header\<lparr>CleanShutdown := False\<rparr>) ''m'' ''i'' {} ?p"
    by (simp add: job_ready_def p rest sample_header_facts) (simp add: sample_header_def)
  with that [of ?p] p rest nx show ?thesis by simp
qed

text \<open>
  On a healthy medium and disk the recovery is complete. Starting from an empty map, if no call
  fails and the policy's block fits into the limit for pending bytes, the run returns without an
  error, and on stable storage the map claims every sector up to the capacity and the image holds
  every one of them.
\<close>

theorem healthy_medium_fully_recovered:
  assumes "job_ready m h mp ip {} p" "extents (store p) = []" "nextSequence (store p) = 1" "Script (disk p) = []"
    and "RecoveryPolicy_Validate policy = None" "FastEnabled (PolFast policy)"
    and "unat (FastBlockSectors (PolFast policy)) * unat (LogicalSectorSize h) \<le> 8388608"
    and "LogicalSectorSize h \<noteq> 0" "capacity \<noteq> 0" "unat capacity \<le> unat (ExpectedSectorCount h)"
  shows "\<exists>r'. runPassBasedRecoveryWithPolicy persistence_store fatal m (LogicalSectorSize h) capacity policy
      \<lparr>runStore = p, Reads = [], CtxErrs = [], Reported = []\<rparr> = (None, r') \<and>
    {..<unat capacity} \<subseteq> claimed (durableExtents (store (runStore r'))) \<and>
    image_holds m (unat (LogicalSectorSize h)) {..<unat capacity} (Stable (disk (runStore r')) ip)"
  using healthy_run [OF assms, of fatal] by blast

theorem healthy_medium_fully_recovered_witness:
  "\<exists>p r'. runPassBasedRecoveryWithPolicy persistence_store platformFatal_linux (\<lambda>k. of_nat k) 2048 100
      (the (policy_table RecoveryMethodBalanced)) \<lparr>runStore = p, Reads = [], CtxErrs = [], Reported = []\<rparr> = (None, r') \<and>
    {..<100} \<subseteq> claimed (durableExtents (store (runStore r')))"
proof -
  let ?h = "sample_header\<lparr>CleanShutdown := False\<rparr>"
  let ?policy = "the (policy_table RecoveryMethodBalanced)"
  obtain p where p: "job_ready (\<lambda>k. of_nat k) ?h ''m'' ''i'' {} p" "extents (store p) = []"
    "nextSequence (store p) = 1" "Script (disk p) = []" by (rule new_job)
  have h: "LogicalSectorSize ?h = 2048" "ExpectedSectorCount ?h = 100" by (simp_all add: sample_header_def)
  have pol: "RecoveryPolicy_Validate ?policy = None" by code_simp
  have f: "FastEnabled (PolFast ?policy)" "FastBlockSectors (PolFast ?policy) = 64" by (simp_all add: policy_table_def)
  from healthy_medium_fully_recovered [OF p pol f(1), of 100] show ?thesis
    unfolding h f(2) by fastforce
qed

theorem finished_recovery_durable_witness:
  "\<exists>(r' :: Persistence Run) b. extent_at (durableExtents (store (runStore r'))) 99 = Some b \<and>
     (stateClaimsImageData (State b) \<or> State b = SectorStateMissing \<or> State b = SectorStateSkipped)"
proof -
  let ?h = "sample_header\<lparr>CleanShutdown := False\<rparr>"
  let ?policy = "the (policy_table RecoveryMethodBalanced)"
  obtain p where p: "job_ready (\<lambda>k. of_nat k) ?h ''m'' ''i'' {} p" "extents (store p) = []"
    "nextSequence (store p) = 1" "Script (disk p) = []" by (rule new_job)
  let ?r = "\<lparr>runStore = p, Reads = [], CtxErrs = [], Reported = []\<rparr>"
  have h: "LogicalSectorSize ?h = 2048" "ExpectedSectorCount ?h = 100" by (simp_all add: sample_header_def)
  have pol: "RecoveryPolicy_Validate ?policy = None" by code_simp
  have f: "FastEnabled (PolFast ?policy)" "FastBlockSectors (PolFast ?policy) = 64" "FinalizeUnresolved ?policy"
    by (simp_all add: policy_table_def)
  obtain r' where r': "runPassBasedRecoveryWithPolicy persistence_store platformFatal_linux (\<lambda>k. of_nat k)
      (LogicalSectorSize ?h) 100 ?policy ?r = (None, r')"
    using healthy_run [OF p pol f(1), of 100 platformFatal_linux] unfolding h f(2) by auto
  have g: "job_ready (\<lambda>k. of_nat k) ?h ''m'' ''i'' {} (runStore ?r)" using p(1) by simp
  have c: "unat (100 :: u64) \<le> unat (ExpectedSectorCount ?h)" "99 < unat (100 :: u64)" by (simp_all add: h)
  from finished_recovery_durable [OF g c(1) r' f(1) c(2)] f(3) show ?thesis by blast
qed

theorem recovery_survives_crash_witness:
  "\<exists>p err r'. recovery_run persistence_store platformFatal_linux (\<lambda>k. of_nat k) 2048 100
      (the (policy_table RecoveryMethodBalanced)) \<lparr>runStore = p, Reads = [IoOk, Io 5 (Some ErrUnexpectedEOF)],
         CtxErrs = [], Reported = []\<rparr> = (err, r') \<and>
    Script (disk p) = [IoOk, Io 3 (Some (ErrIO ''disk full''))] \<and>
    crash_safe (\<lambda>k. of_nat k) (sample_header\<lparr>CleanShutdown := False\<rparr>) ''m'' ''i'' {} (runStore r')"
proof -
  let ?h = "sample_header\<lparr>CleanShutdown := False\<rparr>"
  let ?policy = "the (policy_table RecoveryMethodBalanced)"
  obtain p where p: "job_ready (\<lambda>k. of_nat k) ?h ''m'' ''i'' {} p" by (rule new_job)
  let ?p = "p\<lparr>disk := (disk p)\<lparr>Script := [IoOk, Io 3 (Some (ErrIO ''disk full''))]\<rparr>\<rparr>"
  let ?r = "\<lparr>runStore = ?p, Reads = [IoOk, Io 5 (Some ErrUnexpectedEOF)], CtxErrs = [], Reported = []\<rparr>"
  have h: "LogicalSectorSize ?h = 2048" "ExpectedSectorCount ?h = 100" by (simp_all add: sample_header_def)
  have g: "job_ready (\<lambda>k. of_nat k) ?h ''m'' ''i'' {} (runStore ?r)"
    using p by (simp add: job_ready_def job_saved_def)
  have c: "unat (100 :: u64) \<le> unat (ExpectedSectorCount ?h)" by (simp add: h)
  obtain err r' where r': "recovery_run persistence_store platformFatal_linux (\<lambda>k. of_nat k)
      (LogicalSectorSize ?h) 100 ?policy ?r = (err, r')" by force
  from recovery_survives_crash [OF g c r'] r' show ?thesis unfolding h by (intro exI [of _ ?p] exI) auto
qed

end
