(* ===== verification/PolicyProps.thy ===== *)
theory PolicyProps
  imports StrategyFacts
begin

text \<open>
  Properties of the recovery policies and of the outcome of a recovery.
\<close>

section \<open>Policies\<close>

lemma policy_table_valid:
  assumes "policy_table m = Some p"
  shows "RecoveryPolicy_Validate p = None"
proof -
  have "RecoveryPolicy_Validate (the (policy_table RecoveryMethodFast)) = None"
    "RecoveryPolicy_Validate (the (policy_table RecoveryMethodBalanced)) = None"
    "RecoveryPolicy_Validate (the (policy_table RecoveryMethodGentle)) = None" by code_simp+
  moreover have "p = the (policy_table m)" using assms by simp
  ultimately show ?thesis using assms by (cases m) (simp_all add: policy_table_def)
qed

lemma addRetryAttemptOffset_min:
  "unat (addRetryAttemptOffset l k) = min 65535 (unat l + unat k)"
proof -
  have m: "(NOT 0 :: u16) = 65535" by simp
  have s: "unat (65535 - l) = 65535 - unat l" 
    using unat_u16_less [of l] by (subst unat_sub) (simp_all add: word_le_nat_alt del: unat_u16_less)
  show ?thesis
  proof (cases "65535 - l < k")
    case True
    then have "65535 < unat l + unat k" using s by (simp add: word_less_nat_alt)
    then show ?thesis using True by (simp add: addRetryAttemptOffset_def m del: bit.compl_zero)
  next
    case False
    then have "unat l + unat k \<le> 65535" using s unat_u16_less [of l] unfolding word_less_nat_alt by linarith
    then show ?thesis
      using False by (simp add: addRetryAttemptOffset_def m unat_add_le del: bit.compl_zero)
  qed
qed

lemma retry_offset_max:
  assumes "e \<in> set es" "isRetryableState (State e)"
  shows "Attempts e \<le> retry_offset es"
proof -
  let ?f = "\<lambda>offset e. if isRetryableState (State e) \<and> Attempts e > offset then Attempts e else offset"
  have step: "a \<le> ?f a x" "isRetryableState (State x) \<Longrightarrow> Attempts x \<le> ?f a x" for a x by auto
  have mono: "a \<le> foldl ?f a es" for a es
  proof (induction es arbitrary: a)
    case (Cons x es)
    have "a \<le> ?f a x" by (rule step(1))
    also have "\<dots> \<le> foldl ?f (?f a x) es" by (rule Cons.IH)
    finally show ?case by (simp only: foldl.simps)
  qed simp
  have "e \<in> set es \<Longrightarrow> Attempts e \<le> foldl ?f a es" for a
  proof (induction es arbitrary: a)
    case (Cons x es)
    show ?case
    proof (cases "e = x")
      case True
      have "Attempts e \<le> ?f a x" unfolding True by (rule step(2)) (use True assms(2) in simp)
      also have "\<dots> \<le> foldl ?f (?f a x) es" by (rule mono)
      finally show ?thesis by (simp only: foldl.simps)
    next
      case False
      with Cons.prems have "Attempts e \<le> foldl ?f (?f a x) es" by (intro Cons.IH) simp
      then show ?thesis by (simp only: foldl.simps)
    qed
  qed simp
  with assms(1) show ?thesis unfolding retry_offset_def by blast
qed

lemma RecoveryPolicy_Validate_iff:
  "RecoveryPolicy_Validate p = None \<longleftrightarrow>
     (PolMethod p = RecoveryMethodFast \<or> PolMethod p = RecoveryMethodBalanced \<or> PolMethod p = RecoveryMethodGentle) \<and>
     (FastEnabled (PolFast p) \<longrightarrow> FastBlockSectors (PolFast p) \<noteq> 0) \<and>
     (TrimEnabled (PolTrim p) \<longrightarrow> TrimAttemptsLimit (PolTrim p) \<noteq> 0) \<and>
     list_all adaptive_policy_ok (PolAdaptive p) \<and>
     (TargetedEnabled (PolTargeted p) \<longrightarrow>
        TargetedBlockSectors (PolTargeted p) \<noteq> 0 \<and> TargetedAttemptsLimit (PolTargeted p) \<noteq> 0) \<and>
     \<not> (TargetedEnabled (PolTargeted p) \<and> PolAdaptive p \<noteq> [] \<and> AdaptiveEnabled (last (PolAdaptive p)) \<and>
        TargetedBlockSectors (PolTargeted p) > AdaptiveBlockSectors (last (PolAdaptive p))) \<and>
     ReadDeadlinePolicy_Validate (ReadDeadlines p) = None"
  unfolding RecoveryPolicy_Validate_def by (simp split: option.split) blast

definition most_attempts :: "Extent list \<Rightarrow> nat" where
  "most_attempts es = Max (insert 0 ((\<lambda>e. unat (Attempts e)) `
     {e \<in> set es. State e \<in> {SectorStateUnknown, SectorStateQueued, SectorStateIOError, SectorStateMissing}}))"

lemma most_attempts_iff:
  "most_attempts es = n \<longleftrightarrow>
     (\<forall>e \<in> set es. isRetryableState (State e) \<longrightarrow> unat (Attempts e) \<le> n) \<and>
     (n = 0 \<or> (\<exists>e \<in> set es. isRetryableState (State e) \<and> unat (Attempts e) = n))"
  unfolding most_attempts_def isRetryableState_def by (subst Max_eq_iff) auto

text \<open>The fold of the code takes the maximum: it is at least every one, and it is one of them.\<close>

lemma retry_offset_taken:
  "retry_offset es = 0 \<or> (\<exists>e \<in> set es. isRetryableState (State e) \<and> Attempts e = retry_offset es)"
proof -
  let ?f = "\<lambda>offset e. if isRetryableState (State e) \<and> Attempts e > offset then Attempts e else offset"
  have "foldl ?f a es = a \<or> (\<exists>e \<in> set es. isRetryableState (State e) \<and> Attempts e = foldl ?f a es)" for a
  proof (induction es arbitrary: a)
    case (Cons x es)
    show ?case using Cons.IH [of "?f a x"] by (auto split: if_splits)
  qed simp
  then show ?thesis unfolding retry_offset_def .
qed

lemma retry_offset_most: "unat (retry_offset es) = most_attempts es"
proof -
  have "most_attempts es = unat (retry_offset es)"
    unfolding most_attempts_iff using retry_offset_max retry_offset_taken [of es]
    by (metis unat_0 word_le_nat_alt)
  then show ?thesis by simp
qed

definition raised :: "Extent list \<Rightarrow> u16 \<Rightarrow> u16 \<Rightarrow> bool" where
  "raised es l l' \<longleftrightarrow> unat l' = min 65535 (unat l + most_attempts es)"

lemma raised_same:
  assumes "most_attempts es = 0"
  shows "raised es l l"
proof -
  have "unat l \<le> 65535" using unat_u16_less [of l] by linarith
  then show ?thesis by (simp only: raised_def assms add_0_right min_absorb2)
qed

lemma raised_add: "raised es l (addRetryAttemptOffset l (retry_offset es))"
  by (simp add: raised_def addRetryAttemptOffset_min retry_offset_most)

lemma retry_policy_valid:
  assumes "RecoveryPolicy_Validate p = None"
  shows "RecoveryPolicy_Validate (retryPolicyWithCurrentAttempts p es) = None"
proof (cases "retry_offset es = 0")
  case False
  let ?f = "\<lambda>a. a\<lparr>AdaptiveAttemptsLimit := addRetryAttemptOffset (AdaptiveAttemptsLimit a) (retry_offset es)\<rparr>"
  have nz: "l \<noteq> 0 \<Longrightarrow> addRetryAttemptOffset l (retry_offset es) \<noteq> 0" for l
    by (simp add: word_neq_0_pos addRetryAttemptOffset_min)
  have "list_all adaptive_policy_ok (map ?f as)" if "list_all adaptive_policy_ok as" for as
    using that nz by (auto simp: list_all_iff adaptive_policy_ok_def)
  then show ?thesis
    using assms False nz unfolding RecoveryPolicy_Validate_iff retryPolicyWithCurrentAttempts_def Let_def
    by (cases "PolAdaptive p = []") (simp_all add: last_map)
qed (use assms in \<open>simp add: retryPolicyWithCurrentAttempts_def\<close>)

text \<open>
  C40: A retry cycle has a finite budget of its own. The attempts limit of every pass is that of the
  given policy raised by the largest number of attempts the map records for an extent that is
  unknown, queued, failed or missing (zero, when there is none), capped at 65535, the width of the
  counter; nothing else of the policy changes, neither of the passes nor beside them; and a valid
  policy stays valid.
\<close>

theorem retry_cycle_budget:
  assumes "RecoveryPolicy_Validate p = None" and "q = retryPolicyWithCurrentAttempts p es"
  shows "RecoveryPolicy_Validate q = None \<and>
    q\<lparr>PolTrim := PolTrim p, PolAdaptive := PolAdaptive p, PolTargeted := PolTargeted p\<rparr> = p \<and>
    (\<exists>l. PolTrim q = (PolTrim p)\<lparr>TrimAttemptsLimit := l\<rparr> \<and> raised es (TrimAttemptsLimit (PolTrim p)) l) \<and>
    list_all2 (\<lambda>a b. \<exists>l. b = a\<lparr>AdaptiveAttemptsLimit := l\<rparr> \<and> raised es (AdaptiveAttemptsLimit a) l)
      (PolAdaptive p) (PolAdaptive q) \<and>
    (\<exists>l. PolTargeted q = (PolTargeted p)\<lparr>TargetedAttemptsLimit := l\<rparr> \<and>
       raised es (TargetedAttemptsLimit (PolTargeted p)) l)"
proof (cases "retry_offset es = 0")
  case True
  then have z: "most_attempts es = 0" and q: "q = p"
    using retry_offset_most [of es] assms(2) by (simp_all add: retryPolicyWithCurrentAttempts_def)
  have "\<exists>l. t = t\<lparr>TrimAttemptsLimit := l\<rparr> \<and> raised es (TrimAttemptsLimit t) l" for t :: TrimPassPolicy
    by (rule exI [of _ "TrimAttemptsLimit t"]) (simp add: raised_same [OF z])
  moreover have "\<exists>l. t = t\<lparr>AdaptiveAttemptsLimit := l\<rparr> \<and> raised es (AdaptiveAttemptsLimit t) l" for t :: AdaptivePassPolicy
    by (rule exI [of _ "AdaptiveAttemptsLimit t"]) (simp add: raised_same [OF z])
  moreover have "\<exists>l. t = t\<lparr>TargetedAttemptsLimit := l\<rparr> \<and> raised es (TargetedAttemptsLimit t) l" for t :: TargetedPassPolicy
    by (rule exI [of _ "TargetedAttemptsLimit t"]) (simp add: raised_same [OF z])
  ultimately show ?thesis using assms(1) unfolding q by (simp add: list_all2_refl)
next
  case False
  let ?f = "\<lambda>a. a\<lparr>AdaptiveAttemptsLimit := addRetryAttemptOffset (AdaptiveAttemptsLimit a) (retry_offset es)\<rparr>"
  have "list_all2 (\<lambda>a b. \<exists>l. b = a\<lparr>AdaptiveAttemptsLimit := l\<rparr> \<and> raised es (AdaptiveAttemptsLimit a) l) as (map ?f as)" for as
    by (induction as) (auto intro: raised_add)
  then show ?thesis
    using False retry_policy_valid [OF assms(1), of es] raised_add
    unfolding assms(2) by (auto simp: retryPolicyWithCurrentAttempts_def Let_def)
qed

theorem retry_cycle_budget_witness:
  "TrimAttemptsLimit (PolTrim (retryPolicyWithCurrentAttempts (the (policy_table RecoveryMethodBalanced))
     [plain 0 4 5 0 6, plain 4 4 5 0 3])) = 8"
proof -
  let ?es = "[plain 0 4 5 0 6, plain 4 4 5 0 3]"
  have v: "RecoveryPolicy_Validate (the (policy_table RecoveryMethodBalanced)) = None" by code_simp
  have m: "most_attempts ?es = 6" unfolding most_attempts_iff by code_simp
  have "raised ?es 2 (TrimAttemptsLimit (PolTrim (retryPolicyWithCurrentAttempts
      (the (policy_table RecoveryMethodBalanced)) ?es)))"
    using retry_cycle_budget [OF v refl, of ?es] by (auto simp: policy_table_def)
  then show ?thesis unfolding raised_def m by (simp add: word_unat_eq_iff)
qed

section \<open>Outcomes\<close>

definition unresolved :: "SectorState \<Rightarrow> bool" where
  "unresolved s \<longleftrightarrow> s \<in> {SectorStateUnknown, SectorStateQueued, SectorStateMissing, SectorStateIOError,
     SectorStateChecksumError, SectorStateConflicting, SectorStateSkipped}"

lemma outcome_counts_words:
  "outcome_counts es r0 = Inr r \<Longrightarrow>
   FullyVerified r = FullyVerified r0 \<and> OutClass r = OutClass r0 \<and>
   UnresolvedSectors r = UnresolvedSectors r0 + of_nat (\<Sum>e\<leftarrow>filter (\<lambda>e. unresolved (State e)) es. unat (Sectors e)) \<and>
   AcceptedUnverifiedSectors r = AcceptedUnverifiedSectors r0 +
      of_nat (\<Sum>e\<leftarrow>filter (\<lambda>e. State e = SectorStateReadUnverified) es. unat (Sectors e)) \<and>
   (\<forall>e \<in> set es. unresolved (State e) \<or>
      State e \<in> {SectorStateVerified, SectorStateReconstructed, SectorStateReadUnverified})"
proof (induction es arbitrary: r0)
  case (Cons e es)
  let ?n = "ucast (Sectors e) :: u64"
  have k: "\<not> unresolved SectorStateVerified" "\<not> unresolved SectorStateReconstructed"
    "\<not> unresolved SectorStateReadUnverified" by (simp_all add: unresolved_def)
  have run: "(if State e = SectorStateVerified then outcome_counts es (r0\<lparr>VerifiedSectors := VerifiedSectors r0 + ?n\<rparr>)
      else if State e = SectorStateReconstructed
      then outcome_counts es (r0\<lparr>ReconstructedSectors := ReconstructedSectors r0 + ?n\<rparr>)
      else if State e = SectorStateReadUnverified
      then outcome_counts es (r0\<lparr>AcceptedUnverifiedSectors := AcceptedUnverifiedSectors r0 + ?n\<rparr>)
      else if unresolved (State e) then outcome_counts es (r0\<lparr>UnresolvedSectors := UnresolvedSectors r0 + ?n\<rparr>)
      else Inl (Errorf ''evaluate outcome: unsupported sector state'')) = Inr r"
    using Cons.prems unfolding outcome_counts.simps Let_def unresolved_def .
  consider (ver) "State e = SectorStateVerified" | (rec) "State e = SectorStateReconstructed"
    | (read) "State e = SectorStateReadUnverified"
    | (un) "unresolved (State e)" "State e \<noteq> SectorStateVerified" "State e \<noteq> SectorStateReconstructed"
        "State e \<noteq> SectorStateReadUnverified"
    using run k by (auto split: if_splits)
  then show ?case
  proof cases
    case ver
    with run have "outcome_counts es (r0\<lparr>VerifiedSectors := VerifiedSectors r0 + ?n\<rparr>) = Inr r" by simp
    from Cons.IH [OF this] ver k show ?thesis by simp
  next
    case rec
    with run have "outcome_counts es (r0\<lparr>ReconstructedSectors := ReconstructedSectors r0 + ?n\<rparr>) = Inr r" by simp
    from Cons.IH [OF this] rec k show ?thesis by simp
  next
    case read
    with run have "outcome_counts es (r0\<lparr>AcceptedUnverifiedSectors := AcceptedUnverifiedSectors r0 + ?n\<rparr>) = Inr r" by simp
    from Cons.IH [OF this] read k show ?thesis by (simp add: ac_simps)
  next
    case un
    with run have "outcome_counts es (r0\<lparr>UnresolvedSectors := UnresolvedSectors r0 + ?n\<rparr>) = Inr r" by simp
    from Cons.IH [OF this] un show ?thesis by (simp add: ac_simps)
  qed
qed simp

lemma sum_zero:
  assumes "wf_extents es" "(of_nat (\<Sum>e\<leftarrow>filter P es. unat (Sectors e)) :: u64) = 0" "e \<in> set es"
  shows "\<not> P e"
proof
  assume "P e"
  have "on_medium 18446744073709551615 es"
    using assms(1) by (auto simp: on_medium_def wf_extents_def extent_valid_iff)
  from sectors_bounded [OF this, of 0] have b: "(\<Sum>e\<leftarrow>es. unat (Sectors e)) < 18446744073709551616" by simp
  have "(\<Sum>e\<leftarrow>filter P es. unat (Sectors e)) \<le> (\<Sum>e\<leftarrow>es. unat (Sectors e))" by (induction es) simp_all
  then have lt: "(\<Sum>e\<leftarrow>filter P es. unat (Sectors e)) < 18446744073709551616" using b by (rule le_less_trans)
  have "18446744073709551616 dvd (\<Sum>e\<leftarrow>filter P es. unat (Sectors e))"
    using assms(2) by (simp add: word_of_nat_eq_0_iff)
  then have "(\<Sum>e\<leftarrow>filter P es. unat (Sectors e)) = 0" using nat_dvd_not_less lt by (metis neq0_conv)
  then have "unat (Sectors e) = 0" using \<open>P e\<close> assms(3) by (auto simp: sum_list_eq_0_iff)
  moreover have "extent_valid e" using assms(1,3) by (simp add: wf_extents_def)
  ultimately show False using extent_valid_pos [of e] by simp
qed

text \<open>
  An outcome that is called complete hides nothing the map records: if it is fully verified,
  every recorded extent is verified or reconstructed, and if it is complete with unverified sectors,
  the policy accepted those and every other extent is verified or reconstructed. No count of
  sectors can wrap around to zero.
\<close>

theorem complete_outcome_sound:
  assumes "EvaluateOutcome i = Inr r" "e \<in> set (OutExtents i)"
  shows "(FullyVerified r \<longrightarrow> State e \<in> {SectorStateVerified, SectorStateReconstructed}) \<and>
    (OutClass r = OutcomeCompleteUnverified \<longrightarrow> AcceptUnverifiedByPolicy i \<and>
       State e \<in> {SectorStateVerified, SectorStateReconstructed, SectorStateReadUnverified})"
proof (cases "ValidImageMapPair i")
  case False
  with assms(1) show ?thesis by (auto simp: EvaluateOutcome_def outcome_zero_def split: option.splits)
next
  case True
  from assms(1) have wf: "wf_extents (OutExtents i)"
    by (auto simp: EvaluateOutcome_def ValidateExtentSet_iff [symmetric] split: option.splits)
  from assms(1) True obtain q where q: "outcome_counts (OutExtents i) outcome_zero = Inr q"
    by (auto simp: EvaluateOutcome_def split: option.splits sum.splits)
  note w = outcome_counts_words [OF q]
  have z: "UnresolvedSectors outcome_zero = 0" "AcceptedUnverifiedSectors outcome_zero = 0" by (simp_all add: outcome_zero_def)
  have res: "r = (if UnresolvedSectors q = 0 \<and> (\<not> AcceptedUnverifiedSectors q > 0 \<or> AcceptUnverifiedByPolicy i) then
                 (if AcceptedUnverifiedSectors q > 0
                  then q\<lparr>OutClass := OutcomeCompleteUnverified,
                         PlainStatus := ''Image created with unverified sectors.''\<rparr>
                  else q\<lparr>OutClass := OutcomeCompleteVerified,
                         PlainStatus := ''Image created successfully and fully verified.'', FullyVerified := True\<rparr>)
               else if SchedulingStopped i
               then q\<lparr>OutClass := OutcomeStoppedResumable, PlainStatus := ''Recovery stopped but resumable.'',
                      Resumable := True\<rparr>
               else if PassesExhausted i
               then q\<lparr>OutClass := OutcomeIncomplete, PlainStatus := ''Image created with missing sectors.'',
                      Resumable := True\<rparr>
               else q\<lparr>OutClass := OutcomeInProgress, PlainStatus := ''Recovery is still in progress.'',
                      Resumable := True\<rparr>)"
    using assms(1) q True wf unfolding EvaluateOutcome_def ValidateExtentSet_ok [OF wf] Let_def
    by (simp only: option.case sum.case not_not if_False not_True_eq_False sum.inject)
  have zero: "\<not> FullyVerified outcome_zero" "OutClass outcome_zero = OutcomeNone" by (simp_all add: outcome_zero_def)
  have none: "\<not> unresolved (State e)" if "UnresolvedSectors q = 0"
    by (rule sum_zero [OF wf _ assms(2)]) (use w z(1) that in simp)
  have unverified: "State e \<noteq> SectorStateReadUnverified" if "\<not> AcceptedUnverifiedSectors q > 0"
    by (rule sum_zero [OF wf _ assms(2)]) (use w z(2) that word_gt_0 [of "AcceptedUnverifiedSectors q"] in simp)
  have kinds: "unresolved (State e) \<or> State e \<in> {SectorStateVerified, SectorStateReconstructed, SectorStateReadUnverified}"
    using w assms(2) by blast
  have fq: "\<not> FullyVerified q" "OutClass q = OutcomeNone" using w zero by simp_all
  have fv: "UnresolvedSectors q = 0 \<and> \<not> AcceptedUnverifiedSectors q > 0" if "FullyVerified r"
    using that fq unfolding res by (simp split: if_splits)
  have cu: "UnresolvedSectors q = 0 \<and> AcceptUnverifiedByPolicy i" if "OutClass r = OutcomeCompleteUnverified"
    using that fq unfolding res by (simp split: if_splits)
  show ?thesis using fv cu none unverified kinds by blast
qed

theorem complete_outcome_sound_witness:
  "\<exists>r. EvaluateOutcome \<lparr>OutExtents = [plain 0 4 3 4 1, plain 4 4 2 1 1], AcceptUnverifiedByPolicy = True,
      PassesExhausted = True, SchedulingStopped = False, ValidImageMapPair = True\<rparr> = Inr r \<and>
    OutClass r = OutcomeCompleteUnverified \<and>
    State (plain 4 4 2 1 1) \<in> {SectorStateVerified, SectorStateReconstructed, SectorStateReadUnverified}"
proof -
  let ?i = "\<lparr>OutExtents = [plain 0 4 3 4 1, plain 4 4 2 1 1], AcceptUnverifiedByPolicy = True,
      PassesExhausted = True, SchedulingStopped = False, ValidImageMapPair = True\<rparr>"
  have "case EvaluateOutcome ?i of Inl _ \<Rightarrow> False | Inr r \<Rightarrow> OutClass r = OutcomeCompleteUnverified" by code_simp
  then obtain r where r: "EvaluateOutcome ?i = Inr r" "OutClass r = OutcomeCompleteUnverified"
    by (cases "EvaluateOutcome ?i") simp_all
  from complete_outcome_sound [OF r(1), of "plain 4 4 2 1 1"] r show ?thesis by simp
qed

end
