(* ===== verification/Sha256.thy ===== *)
theory Sha256
  imports Bytes
begin

text \<open>
  SHA-256 (\<^verbatim>\<open>crypto/sha256\<close>, FIPS 180-4) and the hexadecimal encoding of
  \<^verbatim>\<open>encoding/hex\<close>, which the content identities of the catalog are made of. A hasher that
  receives several writes hashes their concatenation. Strings of the program are byte sequences;
  \<open>str\<close> gives the bytes of a literal.
\<close>

section \<open>Strings as bytes\<close>

definition str :: "string \<Rightarrow> bytes" where
  "str s = map (\<lambda>c. of_nat (of_char c)) s"

definition hex_digit :: "u8 \<Rightarrow> u8" where
  "hex_digit b = (if b < 10 then 48 + b else 87 + b)"

definition hex_EncodeToString :: "bytes \<Rightarrow> bytes" where
  "hex_EncodeToString bs = concat (map (\<lambda>b. [hex_digit (drop_bit 4 b), hex_digit (b AND 15)]) bs)"

lemma length_hex [simp]: "length (hex_EncodeToString bs) = 2 * length bs"
  by (induction bs) (simp_all add: hex_EncodeToString_def)

section \<open>SHA-256\<close>

text \<open>
  The constants are those the standard derives from the first primes: the leading 32 bits of the
  fractional parts of their cube roots (64 primes) and of their square roots (8 primes).
  \<open>int_root k n b 0\<close> is the integer part of the \<open>k\<close>-th root of \<open>n\<close>, found bit by bit.
\<close>

fun int_root :: "nat \<Rightarrow> int \<Rightarrow> nat \<Rightarrow> int \<Rightarrow> int" where
  "int_root k n 0 r = r"
| "int_root k n (Suc b) r = int_root k n b (if (r + 2 ^ b) ^ k \<le> n then r + 2 ^ b else r)"

definition root_fraction :: "nat \<Rightarrow> int \<Rightarrow> u32" where
  "root_fraction k p = of_int (int_root k (p * 2 ^ (32 * k)) 36 0)"

definition first_primes :: "int list" where
  "first_primes = filter (\<lambda>n. list_all (\<lambda>d. n mod d \<noteq> 0) [2..n - 1]) [2..311]"

definition sha_K :: "u32 list" where
  "sha_K = map (root_fraction 3) first_primes"

definition sha_H0 :: "u32 list" where
  "sha_H0 = map (root_fraction 2) [2, 3, 5, 7, 11, 13, 17, 19]"

fun be_word :: "bytes \<Rightarrow> u32" where
  "be_word bs = foldl (\<lambda>w b. push_bit 8 w OR ucast b) 0 bs"

definition be_put :: "nat \<Rightarrow> 'a::len word \<Rightarrow> bytes" where
  "be_put k w = rev (le_put k w)"

definition rotr :: "nat \<Rightarrow> u32 \<Rightarrow> u32" where
  "rotr n w = drop_bit n w OR push_bit (32 - n) w"

text \<open>The message schedule: the 16 words of a block, extended to 64 (kept newest first).\<close>

fun sha_extend :: "nat \<Rightarrow> u32 list \<Rightarrow> u32 list" where
  "sha_extend 0 ws = ws"
| "sha_extend (Suc n) ws =
     (let a = ws ! 14; b = ws ! 1;
          s0 = rotr 7 a XOR rotr 18 a XOR drop_bit 3 a;
          s1 = rotr 17 b XOR rotr 19 b XOR drop_bit 10 b
      in sha_extend n ((ws ! 15 + s0 + ws ! 6 + s1) # ws))"

fun sha_round :: "u32 list \<Rightarrow> u32 \<times> u32 \<Rightarrow> u32 list" where
  "sha_round [a, b, c, d, e, f, g, h] (k, w) =
     (let S1 = rotr 6 e XOR rotr 11 e XOR rotr 25 e;
          ch = (e AND f) XOR (NOT e AND g);
          t1 = h + S1 + ch + k + w;
          S0 = rotr 2 a XOR rotr 13 a XOR rotr 22 a;
          maj = (a AND b) XOR (a AND c) XOR (b AND c)
      in [t1 + (S0 + maj), a, b, c, d + t1, e, f, g])"
| "sha_round st kw = st"

fun words_of :: "nat \<Rightarrow> bytes \<Rightarrow> u32 list" where
  "words_of 0 bs = []"
| "words_of (Suc n) bs = be_word (take 4 bs) # words_of n (drop 4 bs)"

definition sha_block :: "u32 list \<Rightarrow> bytes \<Rightarrow> u32 list" where
  "sha_block hs blk =
     map2 (+) hs (foldl sha_round hs (zip sha_K (rev (sha_extend 48 (rev (words_of 16 blk))))))"

definition sha_pad :: "bytes \<Rightarrow> bytes" where
  "sha_pad bs = bs @ [0x80] @ replicate ((119 - length bs mod 64) mod 64) 0 @
     be_put 8 (of_nat (8 * length bs) :: u64)"

fun sha_blocks :: "nat \<Rightarrow> u32 list \<Rightarrow> bytes \<Rightarrow> u32 list" where
  "sha_blocks 0 hs bs = hs"
| "sha_blocks (Suc n) hs bs = sha_blocks n (sha_block hs (take 64 bs)) (drop 64 bs)"

definition sha256 :: "bytes \<Rightarrow> bytes" where
  "sha256 bs = (let p = sha_pad bs in concat (map (be_put 4) (sha_blocks (length p div 64) sha_H0 p)))"

lemma length_be_put [simp]: "length (be_put k w) = k"
  by (simp add: be_put_def)

lemma sha_round_length: "length st = 8 \<Longrightarrow> length (sha_round st kw) = 8"
  by (cases "(st, kw)" rule: sha_round.cases) (simp_all add: Let_def)

lemma foldl_sha_round_length: "length st = 8 \<Longrightarrow> length (foldl sha_round st kws) = 8"
  by (induction kws arbitrary: st) (simp_all add: sha_round_length)

lemma sha_blocks_length: "length hs = 8 \<Longrightarrow> length (sha_blocks n hs bs) = 8"
  by (induction n arbitrary: hs bs) (simp_all add: sha_block_def foldl_sha_round_length)

lemma length_sha256 [simp]: "length (sha256 bs) = 32"
proof -
  have "length (sha_blocks n sha_H0 p) = 8" for n p
    by (rule sha_blocks_length) (simp add: sha_H0_def)
  moreover have "length (concat (map (be_put 4) ws)) = 4 * length ws" for ws :: "u32 list"
    by (induction ws) simp_all
  ultimately show ?thesis by (simp add: sha256_def Let_def)
qed

end
