(* ===== verification/Identity.thy ===== *)
theory Identity
  imports Sha256 "HOL-Library.Product_Lexorder" "HOL-Library.List_Lexorder"
begin

text \<open>
  Content identities (\<^verbatim>\<open>internal/catalog/identity.go\<close>,
  \<^verbatim>\<open>fingerprint.go\<close>, \<^verbatim>\<open>sample_plan.go\<close>,
  \<^verbatim>\<open>collector.go\<close>, \<^verbatim>\<open>collector_observation.go\<close>): what is known of
  the contents of a disc, its layout hash and quick identifier, the plan of sampled sectors, their
  collection from a device, and the comparison of two identities. An \<^verbatim>\<open>int64\<close> is a
  64-bit word read with \<open>sint\<close>; a string is the list of its bytes.
\<close>

type_synonym int64 = "64 word"
type_synonym gostring = bytes

section \<open>Identities\<close>

datatype MatchStrength =
    MatchStrong | MatchProbable | MatchIndeterminate | MatchConflict | MatchNo | MatchOther string

record TrackLayout =
  TrackNumber :: u16
  TrStartLBA :: int64
  TrEndLBA :: int64
  TrMode :: u16
  ControlFlags :: u16
  LeadOutLBA :: int64

definition TrackLayout_Validate :: "TrackLayout \<Rightarrow> error option" where
  "TrackLayout_Validate t =
     (if TrackNumber t = 0 then Some (Errorf ''validate track layout: track number is required'')
      else if sint (TrEndLBA t) < sint (TrStartLBA t)
      then Some (Errorf ''validate track layout: end lba is smaller than start lba'')
      else if sint (LeadOutLBA t) < sint (TrEndLBA t)
      then Some (Errorf ''validate track layout: lead-out lba is smaller than end lba'')
      else None)"

type_synonym SampleErrorClass = u16

abbreviation (input) SampleErrorNone :: SampleErrorClass where "SampleErrorNone \<equiv> 0"
abbreviation (input) SampleErrorRead :: SampleErrorClass where "SampleErrorRead \<equiv> 1"
abbreviation (input) SampleErrorTimeout :: SampleErrorClass where "SampleErrorTimeout \<equiv> 2"
abbreviation (input) SampleErrorSkipped :: SampleErrorClass where "SampleErrorSkipped \<equiv> 3"

text \<open>The Go type of \<^verbatim>\<open>SHA256\<close> is \<^verbatim>\<open>[32]byte\<close>.\<close>

record SectorFingerprint =
  FpSlot :: u16
  FpLBA :: int64
  Available :: bool
  FpSHA256 :: bytes
  FpError :: SampleErrorClass

definition zero_hash :: bytes where
  "zero_hash = replicate 32 0"

definition SectorFingerprint_Validate :: "SectorFingerprint \<Rightarrow> error option" where
  "SectorFingerprint_Validate s =
     (if Available s \<and> FpError s \<noteq> SampleErrorNone
      then Some (Errorf ''validate sector fingerprint: available sample slot cannot have error class'')
      else if \<not> Available s \<and> FpError s = SampleErrorNone
      then Some (Errorf ''validate sector fingerprint: unavailable sample slot must declare an error class'')
      else if \<not> Available s \<and> FpSHA256 s \<noteq> zero_hash
      then Some (Errorf ''validate sector fingerprint: unavailable sample slot must not contain a hash'')
      else None)"

record VolumeHint =
  HintType :: u16
  HintValue :: gostring

definition VolumeHint_Validate :: "VolumeHint \<Rightarrow> error option" where
  "VolumeHint_Validate h =
     (if HintValue h = [] then Some (Errorf ''validate volume hint: value is required'') else None)"

record ContentIdentity =
  IdVersion :: u16
  IdProfile :: u16
  IdLogicalBlockSize :: u32
  IdSectorCount :: u64
  IdSessions :: u16
  IdTracks :: "TrackLayout list"
  IdLayoutSHA256 :: gostring
  IdVolumeHints :: "VolumeHint list"
  IdSamples :: "SectorFingerprint list"
  IdQuickID :: gostring
  IdFullContentSHA256 :: gostring

text \<open>The three loops of \<^verbatim>\<open>ContentIdentity.Validate\<close>.\<close>

fun Tracks_Validate :: "TrackLayout option \<Rightarrow> TrackLayout list \<Rightarrow> error option" where
  "Tracks_Validate prev [] = None"
| "Tracks_Validate prev (t # ts) =
     (case TrackLayout_Validate t of
        Some e \<Rightarrow> Some (Wrapf ''validate content identity track'' e)
      | None \<Rightarrow>
          if (case prev of None \<Rightarrow> False | Some p \<Rightarrow> sint (TrEndLBA p) \<ge> sint (TrStartLBA t))
          then Some (Errorf ''validate content identity track: overlapping track ranges'')
          else Tracks_Validate (Some t) ts)"

fun Samples_Validate :: "u16 set \<Rightarrow> SectorFingerprint list \<Rightarrow> error option" where
  "Samples_Validate seenSlots [] = None"
| "Samples_Validate seenSlots (s # ss) =
     (case SectorFingerprint_Validate s of
        Some e \<Rightarrow> Some (Wrapf ''validate content identity sample'' e)
      | None \<Rightarrow>
          if FpSlot s \<in> seenSlots
          then Some (Errorf ''validate content identity sample: duplicate slot'')
          else Samples_Validate (insert (FpSlot s) seenSlots) ss)"

fun Hints_Validate :: "string \<Rightarrow> VolumeHint list \<Rightarrow> error option" where
  "Hints_Validate msg [] = None"
| "Hints_Validate msg (h # hs) =
     (case VolumeHint_Validate h of
        Some e \<Rightarrow> Some (Wrapf msg e)
      | None \<Rightarrow> Hints_Validate msg hs)"

definition ContentIdentity_Validate :: "ContentIdentity \<Rightarrow> error option" where
  "ContentIdentity_Validate i =
     (if IdVersion i = 0 then Some (Errorf ''validate content identity: version is required'')
      else if IdLogicalBlockSize i = 0
      then Some (Errorf ''validate content identity: logical block size must be greater than zero'')
      else if IdSectorCount i = 0
      then Some (Errorf ''validate content identity: sector count must be greater than zero'')
      else if IdLayoutSHA256 i = []
      then Some (Errorf ''validate content identity: layout hash is required'')
      else case Tracks_Validate None (IdTracks i) of Some e \<Rightarrow> Some e | None \<Rightarrow>
      (case Samples_Validate {} (IdSamples i) of Some e \<Rightarrow> Some e | None \<Rightarrow>
       Hints_Validate ''validate content identity volume hint'' (IdVolumeHints i)))"

section \<open>Layout hash and quick identifier\<close>

fun Tracks_check :: "TrackLayout list \<Rightarrow> error option" where
  "Tracks_check [] = None"
| "Tracks_check (t # ts) =
     (case TrackLayout_Validate t of
        Some e \<Rightarrow> Some (Wrapf ''build layout hash track'' e)
      | None \<Rightarrow> Tracks_check ts)"

definition track_bytes :: "TrackLayout \<Rightarrow> bytes" where
  "track_bytes t =
     le_put 2 (TrackNumber t) @ le_put 8 (TrStartLBA t) @ le_put 8 (TrEndLBA t) @
     le_put 2 (TrMode t) @ le_put 2 (ControlFlags t) @ le_put 8 (LeadOutLBA t)"

definition hint_bytes :: "VolumeHint \<Rightarrow> bytes" where
  "hint_bytes h =
     le_put 2 (HintType h) @ le_put 2 (of_nat (length (HintValue h)) :: u16) @ HintValue h"

text \<open>The hints in the order of \<^verbatim>\<open>sort.Slice\<close>: by type, then by value.\<close>

definition sorted_hints :: "VolumeHint list \<Rightarrow> VolumeHint list" where
  "sorted_hints hs = sort_key (\<lambda>h. (HintType h, HintValue h)) hs"

text \<open>What \<^verbatim>\<open>BuildLayoutHash\<close> writes to the hasher.\<close>

definition layout_bytes :: "ContentIdentity \<Rightarrow> bytes" where
  "layout_bytes i =
     le_put 2 (IdVersion i) @ le_put 2 (IdProfile i) @ le_put 4 (IdLogicalBlockSize i) @
     le_put 8 (IdSectorCount i) @ le_put 2 (IdSessions i) @
     concat (map track_bytes (IdTracks i)) @
     concat (map hint_bytes (sorted_hints (IdVolumeHints i)))"

definition BuildLayoutHash :: "ContentIdentity \<Rightarrow> gostring result" where
  "BuildLayoutHash i =
     (if IdVersion i = 0 then Inl (Errorf ''build layout hash: identity version is required'')
      else if IdLogicalBlockSize i = 0
      then Inl (Errorf ''build layout hash: logical block size must be greater than zero'')
      else if IdSectorCount i = 0
      then Inl (Errorf ''build layout hash: sector count must be greater than zero'')
      else case Tracks_check (IdTracks i) of Some e \<Rightarrow> Inl e | None \<Rightarrow>
      (case Hints_Validate ''build layout hash volume hint'' (IdVolumeHints i) of Some e \<Rightarrow> Inl e | None \<Rightarrow>
       Inr (hex_EncodeToString (sha256 (layout_bytes i)))))"

text \<open>The map from slots to samples; a later sample of a slot replaces an earlier one.\<close>

definition indexed :: "SectorFingerprint list \<Rightarrow> u16 \<Rightarrow> SectorFingerprint option" where
  "indexed ss = foldl (\<lambda>m s. m(FpSlot s \<mapsto> s)) Map.empty ss"

text \<open>The loop over the sorted slots: \<open>None\<close> when a sample is missing or unavailable.\<close>

fun quick_samples :: "(u16 \<Rightarrow> SectorFingerprint option) \<Rightarrow> u16 list \<Rightarrow> bytes option" where
  "quick_samples m [] = Some []"
| "quick_samples m (slot # slots) =
     (case m slot of
        None \<Rightarrow> None
      | Some s \<Rightarrow>
          if \<not> Available s then None
          else (case quick_samples m slots of
             None \<Rightarrow> None
           | Some bs \<Rightarrow> Some (le_put 2 (FpSlot s) @ le_put 8 (FpLBA s) @ FpSHA256 s @ bs)))"

definition BuildQuickContentID :: "ContentIdentity \<Rightarrow> u16 list \<Rightarrow> (gostring \<times> bool) result" where
  "BuildQuickContentID i mandatorySlots =
     (case ContentIdentity_Validate i of Some e \<Rightarrow> Inl e | None \<Rightarrow>
      if mandatorySlots = []
      then Inl (Errorf ''build quick content id: at least one mandatory slot is required'')
      else case quick_samples (indexed (IdSamples i)) (sort mandatorySlots) of
        None \<Rightarrow> Inr ([], False)
      | Some bs \<Rightarrow> Inr (hex_EncodeToString (sha256 (le_put 2 (IdVersion i) @ IdLayoutSHA256 i @ bs)), True))"

section \<open>Comparison\<close>

record CompareResult =
  CrMatch :: MatchStrength
  CrMatchingSamples :: u16
  CrConflictingSamples :: u16
  CrComparedSamples :: u16
  CrBudgetExhausted :: bool

definition CompareResult_zero :: CompareResult where
  "CompareResult_zero = \<lparr>CrMatch = MatchOther '''', CrMatchingSamples = 0,
     CrConflictingSamples = 0, CrComparedSamples = 0, CrBudgetExhausted = False\<rparr>"

definition CompatibleGeometry :: "ContentIdentity \<Rightarrow> ContentIdentity \<Rightarrow> bool" where
  "CompatibleGeometry l r \<longleftrightarrow>
     IdVersion l = IdVersion r \<and> IdProfile l = IdProfile r \<and>
     IdLogicalBlockSize l = IdLogicalBlockSize r \<and> IdSectorCount l = IdSectorCount r \<and>
     IdSessions l = IdSessions r"

abbreviation (input) MinimumStrongSamples :: u16 where "MinimumStrongSamples \<equiv> 4"

text \<open>The switch behind the loop, and the loop over the observed samples.\<close>

definition Compare_verdict :: "CompareResult \<Rightarrow> CompareResult" where
  "Compare_verdict r = r\<lparr>CrMatch :=
     (if CrConflictingSamples r > 0 then MatchConflict
      else if CrMatchingSamples r \<ge> MinimumStrongSamples then MatchStrong
      else if CrMatchingSamples r \<ge> 1 then MatchProbable
      else MatchIndeterminate)\<rparr>"

fun Compare_loop ::
  "(u16 \<Rightarrow> SectorFingerprint option) \<Rightarrow> u16 \<Rightarrow> CompareResult \<Rightarrow> SectorFingerprint list \<Rightarrow> CompareResult" where
  "Compare_loop m remainingBudget r [] = Compare_verdict r"
| "Compare_loop m remainingBudget r (s # ss) =
     (case m (FpSlot s) of
        None \<Rightarrow> Compare_loop m remainingBudget r ss
      | Some c \<Rightarrow>
          if \<not> Available s \<or> \<not> Available c then Compare_loop m remainingBudget r ss
          else if CrComparedSamples r \<ge> remainingBudget
          then r\<lparr>CrMatch := MatchIndeterminate, CrBudgetExhausted := True\<rparr>
          else let r1 = r\<lparr>CrComparedSamples := CrComparedSamples r + 1\<rparr> in
            if FpLBA c \<noteq> FpLBA s \<or> FpSHA256 c \<noteq> FpSHA256 s
            then r1\<lparr>CrConflictingSamples := CrConflictingSamples r1 + 1, CrMatch := MatchConflict\<rparr>
            else Compare_loop m remainingBudget
                   (r1\<lparr>CrMatchingSamples := CrMatchingSamples r1 + 1\<rparr>) ss)"

definition CompareContentIdentity ::
  "ContentIdentity \<Rightarrow> ContentIdentity \<Rightarrow> u16 \<Rightarrow> CompareResult result" where
  "CompareContentIdentity candidate observed remainingBudget =
     (case ContentIdentity_Validate candidate of
        Some e \<Rightarrow> Inl (Wrapf ''compare content identity candidate'' e) | None \<Rightarrow>
     (case ContentIdentity_Validate observed of
        Some e \<Rightarrow> Inl (Wrapf ''compare content identity observed'' e) | None \<Rightarrow>
      if remainingBudget = 0
      then Inl (Errorf ''compare content identity: remaining budget must be greater than zero'')
      else if \<not> CompatibleGeometry candidate observed \<or> IdLayoutSHA256 candidate \<noteq> IdLayoutSHA256 observed
      then Inr (CompareResult_zero\<lparr>CrMatch := MatchNo\<rparr>)
      else if IdQuickID candidate \<noteq> [] \<and> IdQuickID candidate = IdQuickID observed
      then Inr (CompareResult_zero\<lparr>CrMatch := MatchStrong\<rparr>)
      else Inr (Compare_loop (indexed (IdSamples candidate)) remainingBudget CompareResult_zero
                 (IdSamples observed))))"

section \<open>The sample plan\<close>

record SampleSlot =
  PlSlot :: u16
  PlLBA :: int64

fun SamplePlan_loop :: "u64 \<Rightarrow> int64 list \<Rightarrow> u16 \<Rightarrow> u64 list \<Rightarrow> int64 list \<times> SampleSlot list" where
  "SamplePlan_loop lastLBA seen slot [] = (seen, [])"
| "SamplePlan_loop lastLBA seen slot (numerator # rest) =
     (let lba = lastLBA * numerator div 8 in
      if lba \<in> set seen then SamplePlan_loop lastLBA seen (slot + 1) rest
      else (case SamplePlan_loop lastLBA (lba # seen) (slot + 1) rest of
              (seen', plan) \<Rightarrow> (seen', \<lparr>PlSlot = slot, PlLBA = lba\<rparr> # plan)))"

definition BuildSamplePlan :: "u64 \<Rightarrow> SampleSlot list result" where
  "BuildSamplePlan sectorCount =
     (if sectorCount = 0
      then Inl (Errorf ''build fingerprint sample plan: sector count must be greater than zero'')
      else let lastLBA = sectorCount - 1 in
        case SamplePlan_loop lastLBA [] 0 [0, 1, 2, 3, 4, 5, 6] of
          (seen, plan) \<Rightarrow>
            Inr (if lastLBA \<in> set seen then plan else plan @ [\<lparr>PlSlot = 7, PlLBA = lastLBA\<rparr>]))"

section \<open>Collection\<close>

text \<open>
  The collector reads every planned sector at most once, so that a reader is a function of the
  sector number and the sector size. \<open>clock k\<close> is the answer of the \<open>k\<close>-th call of \<^verbatim>\<open>Now\<close>,
  in nanoseconds; a read that the context cancels is an error of the reader.
\<close>

type_synonym SectorReader = "int64 \<Rightarrow> u32 \<Rightarrow> bytes result"

abbreviation (input) CurrentIdentityVersion :: u16 where "CurrentIdentityVersion \<equiv> 1"

record FingerprintCollector =
  FcTotalBudget :: int
  FcReadDeadline :: int

definition FingerprintCollector_normalized :: "FingerprintCollector \<Rightarrow> FingerprintCollector" where
  "FingerprintCollector_normalized c =
     (let c1 = (if FcTotalBudget c \<le> 0 then c\<lparr>FcTotalBudget := 10000000000\<rparr> else c) in
      if FcReadDeadline c1 \<le> 0 then c1\<lparr>FcReadDeadline := 3000000000\<rparr> else c1)"

record FingerprintCollection =
  AttemptedSamples :: u16
  AvailableSamples :: u16
  UnavailableSamples :: u16
  BytesRead :: u64

definition FingerprintCollection_zero :: FingerprintCollection where
  "FingerprintCollection_zero =
     \<lparr>AttemptedSamples = 0, AvailableSamples = 0, UnavailableSamples = 0, BytesRead = 0\<rparr>"

text \<open>The switch over the outcome of one read.\<close>

definition Collect_sample ::
  "u32 \<Rightarrow> bytes result \<Rightarrow> SectorFingerprint \<Rightarrow> FingerprintCollection \<Rightarrow>
   SectorFingerprint \<times> FingerprintCollection" where
  "Collect_sample blockSize outcome sample stats =
     (case outcome of
        Inr data \<Rightarrow>
          if (of_nat (length data) :: u64) \<noteq> ucast blockSize
          then (sample\<lparr>FpError := SampleErrorRead\<rparr>,
                stats\<lparr>UnavailableSamples := UnavailableSamples stats + 1\<rparr>)
          else (sample\<lparr>Available := True, FpSHA256 := sha256 data\<rparr>,
                stats\<lparr>AvailableSamples := AvailableSamples stats + 1,
                      BytesRead := BytesRead stats + of_nat (length data)\<rparr>)
      | Inl e \<Rightarrow>
          (sample\<lparr>FpError := (if errors_Is e ErrDeadlineExceeded then SampleErrorTimeout else SampleErrorRead)\<rparr>,
           stats\<lparr>UnavailableSamples := UnavailableSamples stats + 1\<rparr>))"

fun Collect_loop ::
  "(nat \<Rightarrow> int) \<Rightarrow> int \<Rightarrow> u32 \<Rightarrow> SectorReader \<Rightarrow> nat \<Rightarrow> FingerprintCollection \<Rightarrow> SampleSlot list \<Rightarrow>
   SectorFingerprint list \<times> FingerprintCollection" where
  "Collect_loop clock deadline blockSize reader k stats [] = ([], stats)"
| "Collect_loop clock deadline blockSize reader k stats (planned # plan) =
     (let stats1 = stats\<lparr>AttemptedSamples := AttemptedSamples stats + 1\<rparr>;
          sample = \<lparr>FpSlot = PlSlot planned, FpLBA = PlLBA planned, Available = False,
                    FpSHA256 = zero_hash, FpError = SampleErrorNone\<rparr>;
          skipped = (sample\<lparr>FpError := SampleErrorSkipped\<rparr>,
                     stats1\<lparr>UnavailableSamples := UnavailableSamples stats1 + 1\<rparr>);
          (k', (s, stats2)) =
            (if clock k > deadline then (Suc k, skipped)
             else if deadline - clock (Suc k) \<le> 0 then (Suc (Suc k), skipped)
             else (Suc (Suc k), Collect_sample blockSize (reader (PlLBA planned) blockSize) sample stats1));
          (ss, stats3) = Collect_loop clock deadline blockSize reader k' stats2 plan
      in (s # ss, stats3))"

definition Collect ::
  "FingerprintCollector \<Rightarrow> (nat \<Rightarrow> int) \<Rightarrow> ContentIdentity \<Rightarrow> SectorReader option \<Rightarrow>
   (ContentIdentity \<times> FingerprintCollection) result" where
  "Collect c clock base readerOpt =
     (case readerOpt of
        None \<Rightarrow> Inl (Errorf ''collect fingerprint: sector reader is required'')
      | Some reader \<Rightarrow>
        let c' = FingerprintCollector_normalized c;
            base1 = (if IdVersion base = 0 then base\<lparr>IdVersion := CurrentIdentityVersion\<rparr> else base) in
        if IdVersion base1 \<noteq> CurrentIdentityVersion
        then Inl (Errorf ''collect fingerprint: unsupported identity version'')
        else case BuildSamplePlan (IdSectorCount base1) of Inl e \<Rightarrow> Inl e | Inr plan \<Rightarrow>
        (case (if IdLayoutSHA256 base1 = [] then BuildLayoutHash base1 else Inr (IdLayoutSHA256 base1)) of
           Inl e \<Rightarrow> Inl e
         | Inr layout \<Rightarrow>
           let deadline = clock 0 + FcTotalBudget c';
               (samples, stats) = Collect_loop clock deadline (IdLogicalBlockSize base1) reader 1
                                    FingerprintCollection_zero plan;
               base2 = base1\<lparr>IdLayoutSHA256 := layout, IdSamples := samples\<rparr> in
           case BuildQuickContentID base2 (map PlSlot plan) of Inl e \<Rightarrow> Inl e | Inr (quickID, _) \<Rightarrow>
           (let base3 = base2\<lparr>IdQuickID := quickID\<rparr> in
            case ContentIdentity_Validate base3 of Some e \<Rightarrow> Inl e | None \<Rightarrow> Inr (base3, stats))))"

datatype IdentityStatus =
    IdentityStrongEvidence | IdentityPartialEvidence | IdentityInsufficientEvidence | IdentityUnavailable

text \<open>The identity and the status of \<^verbatim>\<open>CollectObservation\<close>; the details are texts for the display.\<close>

record IdentityObservation =
  ObsIdentity :: ContentIdentity
  ObsStatus :: IdentityStatus
  ObsStats :: FingerprintCollection

definition CollectObservation ::
  "FingerprintCollector \<Rightarrow> (nat \<Rightarrow> int) \<Rightarrow> ContentIdentity \<Rightarrow> SectorReader option \<Rightarrow>
   IdentityObservation result" where
  "CollectObservation c clock base readerOpt =
     (case Collect c clock base readerOpt of
        Inl e \<Rightarrow> Inl e
      | Inr (identity, stats) \<Rightarrow>
          Inr \<lparr>ObsIdentity = identity,
               ObsStatus = (if IdQuickID identity \<noteq> [] then IdentityStrongEvidence
                            else if AvailableSamples stats > 0 then IdentityPartialEvidence
                            else IdentityInsufficientEvidence),
               ObsStats = stats\<rparr>)"

end
