(* ===== verification/IdentityFacts.thy ===== *)
theory IdentityFacts
  imports Identity
begin

text \<open>
  Facts about content identities: what validation says of samples, an identity read as a partial
  map from sample slots to sectors and hashes (\<open>readable\<close>), the comparison of two identities
  against a reference on those maps, and the sampled sectors of the plan.
\<close>

section \<open>Samples as a map\<close>

lemma Samples_Validate_None:
  "Samples_Validate seen ss = None \<longleftrightarrow>
     (\<forall>s\<in>set ss. SectorFingerprint_Validate s = None) \<and> distinct (map FpSlot ss) \<and>
     FpSlot ` set ss \<inter> seen = {}"
  by (induction ss arbitrary: seen) (auto split: option.splits)

lemma ContentIdentity_Validate_None:
  "ContentIdentity_Validate i = None \<longleftrightarrow>
     IdVersion i \<noteq> 0 \<and> IdLogicalBlockSize i \<noteq> 0 \<and> IdSectorCount i \<noteq> 0 \<and> IdLayoutSHA256 i \<noteq> [] \<and>
     Tracks_Validate None (IdTracks i) = None \<and> Samples_Validate {} (IdSamples i) = None \<and>
     Hints_Validate ''validate content identity volume hint'' (IdVolumeHints i) = None"
  by (auto simp: ContentIdentity_Validate_def split: option.splits)

lemma Hints_Validate_None: "Hints_Validate msg hs = None \<longleftrightarrow> (\<forall>h\<in>set hs. HintValue h \<noteq> [])"
  by (induction hs) (auto simp: VolumeHint_Validate_def split: option.splits)

lemma valid_distinct: "ContentIdentity_Validate i = None \<Longrightarrow> distinct (map FpSlot (IdSamples i))"
  by (simp add: ContentIdentity_Validate_None Samples_Validate_None)

lemma indexed_foldl:
  "foldl (\<lambda>m s. m(FpSlot s \<mapsto> s)) m ss slot =
     (case find (\<lambda>s. FpSlot s = slot) (rev ss) of None \<Rightarrow> m slot | Some s \<Rightarrow> Some s)"
  by (induction ss rule: rev_induct) auto

lemma find_distinct:
  assumes "distinct (map f xs)"
  shows "find (\<lambda>x. f x = y) xs = Some x \<longleftrightarrow> x \<in> set xs \<and> f x = y"
  using assms by (induction xs) auto

lemma indexed_Some:
  assumes "distinct (map FpSlot ss)"
  shows "indexed ss slot = Some s \<longleftrightarrow> s \<in> set ss \<and> FpSlot s = slot"
proof -
  have "distinct (map FpSlot (rev ss))" using assms by (simp flip: rev_map)
  from find_distinct [OF this, of slot s] show ?thesis
    by (cases "find (\<lambda>s. FpSlot s = slot) (rev ss)") (simp_all add: indexed_def indexed_foldl)
qed

text \<open>The sectors and hashes an identity knows, by slot.\<close>

definition readable :: "ContentIdentity \<Rightarrow> u16 \<Rightarrow> (int64 \<times> bytes) option" where
  "readable i slot =
     (case indexed (IdSamples i) slot of
        Some s \<Rightarrow> if Available s then Some (FpLBA s, FpSHA256 s) else None
      | None \<Rightarrow> None)"

definition shared_slots :: "ContentIdentity \<Rightarrow> ContentIdentity \<Rightarrow> u16 set" where
  "shared_slots c d = dom (readable c) \<inter> dom (readable d)"

lemma readable_Some:
  assumes "distinct (map FpSlot (IdSamples i))"
  shows "readable i slot = Some (lba, h) \<longleftrightarrow>
    (\<exists>s\<in>set (IdSamples i). FpSlot s = slot \<and> Available s \<and> FpLBA s = lba \<and> FpSHA256 s = h)"
proof (cases "indexed (IdSamples i) slot")
  case None
  then have none: "\<not> (s \<in> set (IdSamples i) \<and> FpSlot s = slot)" for s
    using indexed_Some [OF assms, of slot s] by simp
  with None show ?thesis by (fastforce simp: readable_def)
next
  case (Some s)
  have s: "s \<in> set (IdSamples i)" "FpSlot s = slot"
    using Some indexed_Some [OF assms, of slot s] by simp_all
  have u: "t = s" if "t \<in> set (IdSamples i)" "FpSlot t = slot" for t
    using that Some indexed_Some [OF assms, of slot t] by simp
  have "readable i slot = Some (lba, h) \<longleftrightarrow> Available s \<and> FpLBA s = lba \<and> FpSHA256 s = h"
    using Some by (simp add: readable_def)
  then show ?thesis using s u by metis
qed

section \<open>Comparison\<close>

text \<open>The reference: the verdict on two identities without a budget.\<close>

definition same_layout :: "ContentIdentity \<Rightarrow> ContentIdentity \<Rightarrow> bool" where
  "same_layout c d \<longleftrightarrow> CompatibleGeometry c d \<and> IdLayoutSHA256 c = IdLayoutSHA256 d"

definition identity_verdict :: "ContentIdentity \<Rightarrow> ContentIdentity \<Rightarrow> MatchStrength" where
  "identity_verdict c d =
     (if \<not> same_layout c d then MatchNo
      else if IdQuickID c \<noteq> [] \<and> IdQuickID c = IdQuickID d then MatchStrong
      else if \<exists>slot\<in>shared_slots c d. readable c slot \<noteq> readable d slot then MatchConflict
      else if 4 \<le> card (shared_slots c d) then MatchStrong
      else if shared_slots c d \<noteq> {} then MatchProbable
      else MatchIndeterminate)"

lemma identity_verdict_sym: "identity_verdict c d = identity_verdict d c"
  by (auto simp: identity_verdict_def same_layout_def CompatibleGeometry_def shared_slots_def Int_commute)

text \<open>The observed samples that are compared, and whether the candidate agrees with one.\<close>

definition compared :: "(u16 \<Rightarrow> SectorFingerprint option) \<Rightarrow> SectorFingerprint \<Rightarrow> bool" where
  "compared m s \<longleftrightarrow> Available s \<and> (case m (FpSlot s) of None \<Rightarrow> False | Some c \<Rightarrow> Available c)"

definition agrees :: "(u16 \<Rightarrow> SectorFingerprint option) \<Rightarrow> SectorFingerprint \<Rightarrow> bool" where
  "agrees m s \<longleftrightarrow>
     (case m (FpSlot s) of None \<Rightarrow> False | Some c \<Rightarrow> FpLBA c = FpLBA s \<and> FpSHA256 c = FpSHA256 s)"

definition sample_verdict ::
  "(u16 \<Rightarrow> SectorFingerprint option) \<Rightarrow> nat \<Rightarrow> nat \<Rightarrow> SectorFingerprint list \<Rightarrow> MatchStrength" where
  "sample_verdict m b k cs =
     (if \<exists>s\<in>set (take (b - k) cs). \<not> agrees m s then MatchConflict
      else if b - k < length cs then MatchIndeterminate
      else if 4 \<le> k + length cs then MatchStrong
      else if 1 \<le> k + length cs then MatchProbable
      else MatchIndeterminate)"

definition counting :: "u16 \<Rightarrow> CompareResult \<Rightarrow> bool" where
  "counting b r \<longleftrightarrow> CrConflictingSamples r = 0 \<and> CrMatchingSamples r = CrComparedSamples r \<and>
     CrComparedSamples r \<le> b"

lemma Compare_loop_step:
  "compared m s \<Longrightarrow> Compare_loop m b r (s # ss) =
     (if CrComparedSamples r \<ge> b then r\<lparr>CrMatch := MatchIndeterminate, CrBudgetExhausted := True\<rparr>
      else if \<not> agrees m s
      then r\<lparr>CrComparedSamples := CrComparedSamples r + 1,
             CrConflictingSamples := CrConflictingSamples r + 1, CrMatch := MatchConflict\<rparr>
      else Compare_loop m b
        (r\<lparr>CrComparedSamples := CrComparedSamples r + 1, CrMatchingSamples := CrMatchingSamples r + 1\<rparr>) ss)"
  "\<not> compared m s \<Longrightarrow> Compare_loop m b r (s # ss) = Compare_loop m b r ss"
  by (auto simp: compared_def agrees_def Let_def split: option.splits)

declare Compare_loop.simps(2) [simp del]

lemma counting_step:
  assumes "counting b r" "\<not> b \<le> CrComparedSamples r"
  shows "unat (CrComparedSamples r + 1) = Suc (unat (CrComparedSamples r))"
    "counting b (r\<lparr>CrComparedSamples := CrComparedSamples r + 1, CrMatchingSamples := CrMatchingSamples r + 1\<rparr>)"
proof -
  have l: "unat (CrComparedSamples r) < unat b" using assms(2) by (simp add: word_le_nat_alt)
  then have "unat (CrComparedSamples r) + unat (1 :: u16) < 2 ^ LENGTH(16)"
    using unat_u16_less [of b] by (simp del: unat_u16_less)
  then show 1: "unat (CrComparedSamples r + 1) = Suc (unat (CrComparedSamples r))"
    using unat_add_le by fastforce
  with l assms(1) show "counting b (r\<lparr>CrComparedSamples := CrComparedSamples r + 1, CrMatchingSamples := CrMatchingSamples r + 1\<rparr>)"
    by (simp add: counting_def word_le_nat_alt)
qed

lemma counting_full: "counting b r \<Longrightarrow> b \<le> CrComparedSamples r \<Longrightarrow> CrComparedSamples r = b"
  by (simp add: counting_def)

lemma Compare_loop_verdict:
  assumes "counting b r"
  shows "CrMatch (Compare_loop m b r ss) =
      sample_verdict m (unat b) (unat (CrComparedSamples r)) (filter (compared m) ss)"
    and "unat (CrComparedSamples (Compare_loop m b r ss)) \<le> unat b"
    and "CrMatchingSamples (Compare_loop m b r ss) + CrConflictingSamples (Compare_loop m b r ss) =
      CrComparedSamples (Compare_loop m b r ss)"
  using assms
proof (induction ss arbitrary: r)
  case Nil
  {
    case 1
    then show ?case
      by (simp add: Compare_verdict_def sample_verdict_def counting_def word_le_nat_alt)
  next
    case 2
    then show ?case by (simp add: Compare_verdict_def counting_def word_le_nat_alt)
  next
    case 3
    then show ?case by (simp add: Compare_verdict_def counting_def)
  }
next
  case (Cons s ss)
  {
    case 1
    show ?case
    proof (cases "compared m s")
      case True
      show ?thesis
      proof (cases "b \<le> CrComparedSamples r")
        case b: True
        show ?thesis using True b counting_full [OF 1 b] by (simp add: Compare_loop_step sample_verdict_def)
      next
        case b: False
        then have "unat b - unat (CrComparedSamples r) = Suc (unat b - Suc (unat (CrComparedSamples r)))"
          by (simp add: word_le_nat_alt)
        then show ?thesis
          using True b Cons.IH(1) [OF counting_step(2) [OF 1 b]] counting_step(1) [OF 1 b]
          by (auto simp: Compare_loop_step sample_verdict_def)
      qed
    qed (use 1 Cons.IH(1) in \<open>simp add: Compare_loop_step\<close>)
  next
    case 2
    show ?case
    proof (cases "compared m s \<and> \<not> b \<le> CrComparedSamples r")
      case True
      then have "unat (CrComparedSamples r + 1) \<le> unat b"
        using counting_step(1) [OF 2] by (simp add: word_le_nat_alt)
      with True show ?thesis
        using Cons.IH(2) [OF counting_step(2) [OF 2]] by (simp add: Compare_loop_step)
    next
      case False
      with 2 Cons.IH(2) show ?thesis
        by (cases "compared m s") (simp_all add: Compare_loop_step counting_def word_le_nat_alt)
    qed
  next
    case 3
    show ?case
    proof (cases "compared m s \<and> \<not> b \<le> CrComparedSamples r")
      case True
      with 3 show ?thesis
        using Cons.IH(3) [OF counting_step(2) [OF 3]] by (simp add: Compare_loop_step counting_def)
    next
      case False
      with 3 Cons.IH(3) show ?thesis
        by (cases "compared m s") (simp_all add: Compare_loop_step counting_def)
    qed
  }
qed

text \<open>The compared samples stand for the shared slots.\<close>

lemma compared_slots:
  assumes c: "distinct (map FpSlot (IdSamples c))" and d: "distinct (map FpSlot (IdSamples d))"
  defines "m \<equiv> indexed (IdSamples c)" and "cs \<equiv> filter (compared (indexed (IdSamples c))) (IdSamples d)"
  shows "FpSlot ` set cs = shared_slots c d" "length cs = card (shared_slots c d)"
    "(\<exists>s\<in>set cs. \<not> agrees m s) \<longleftrightarrow> (\<exists>slot\<in>shared_slots c d. readable c slot \<noteq> readable d slot)"
proof -
  have rd: "readable d (FpSlot s) = (if Available s then Some (FpLBA s, FpSHA256 s) else None)"
    if "s \<in> set (IdSamples d)" for s
    using that indexed_Some [OF d, of "FpSlot s" s] by (simp add: readable_def)
  have cmp: "compared m s \<longleftrightarrow> FpSlot s \<in> shared_slots c d" if "s \<in> set (IdSamples d)" for s
  proof -
    have "compared m s \<longleftrightarrow> readable c (FpSlot s) \<noteq> None \<and> readable d (FpSlot s) \<noteq> None"
      unfolding rd [OF that] by (simp add: compared_def readable_def m_def split: option.splits)
    then show ?thesis by (simp add: shared_slots_def domIff)
  qed
  have ag: "agrees m s \<longleftrightarrow> readable c (FpSlot s) = readable d (FpSlot s)" if "s \<in> set cs" for s
  proof -
    have s: "s \<in> set (IdSamples d)" "compared m s" using that by (auto simp: cs_def m_def)
    then obtain t where t: "m (FpSlot s) = Some t" "Available t" "Available s"
      by (auto simp: compared_def split: option.splits)
    show ?thesis using rd [OF s(1)] t by (simp add: agrees_def readable_def m_def)
  qed
  have ex: "\<exists>s\<in>set (IdSamples d). FpSlot s = slot" if slot: "slot \<in> shared_slots c d" for slot
  proof -
    from slot obtain lba h where "readable d slot = Some (lba, h)" by (auto simp: shared_slots_def)
    then show ?thesis unfolding readable_Some [OF d] by blast
  qed
  have set_cs: "set cs = {s \<in> set (IdSamples d). FpSlot s \<in> shared_slots c d}"
    unfolding cs_def using cmp [unfolded m_def] by auto
  show sl: "FpSlot ` set cs = shared_slots c d"
    unfolding set_cs using ex by blast
  have "distinct (map FpSlot cs)" using d by (simp add: cs_def distinct_map_filter)
  then have "card (set (map FpSlot cs)) = length cs" using distinct_card by fastforce
  then show "length cs = card (shared_slots c d)" using sl by simp
  show "(\<exists>s\<in>set cs. \<not> agrees m s) \<longleftrightarrow> (\<exists>slot\<in>shared_slots c d. readable c slot \<noteq> readable d slot)"
    using ag by (auto simp flip: sl)
qed

lemma sample_verdict_shared:
  fixes b :: nat
  assumes "distinct (map FpSlot (IdSamples c))" "distinct (map FpSlot (IdSamples d))"
  defines "v \<equiv> sample_verdict (indexed (IdSamples c)) b 0 (filter (compared (indexed (IdSamples c))) (IdSamples d))"
  shows "card (shared_slots c d) \<le> b \<Longrightarrow> v =
      (if \<exists>slot\<in>shared_slots c d. readable c slot \<noteq> readable d slot then MatchConflict
       else if 4 \<le> card (shared_slots c d) then MatchStrong
       else if shared_slots c d \<noteq> {} then MatchProbable
       else MatchIndeterminate)"
    and "v = MatchConflict \<Longrightarrow> \<exists>slot\<in>shared_slots c d. readable c slot \<noteq> readable d slot"
    and "v = MatchStrong \<or> v = MatchProbable \<Longrightarrow> card (shared_slots c d) \<le> b"
proof -
  note k = compared_slots [OF assms(1,2)]
  have fin: "finite (shared_slots c d)" using k(1) by (metis List.finite_set finite_imageI)
  then have c0: "1 \<le> card (shared_slots c d) \<longleftrightarrow> shared_slots c d \<noteq> {}"
    by (simp add: Suc_le_eq card_gt_0_iff)
  { assume b: "card (shared_slots c d) \<le> b"
    show "v = (if \<exists>slot\<in>shared_slots c d. readable c slot \<noteq> readable d slot then MatchConflict
       else if 4 \<le> card (shared_slots c d) then MatchStrong
       else if shared_slots c d \<noteq> {} then MatchProbable
       else MatchIndeterminate)"
    proof -
      have tk: "take (b - 0) (filter (compared (indexed (IdSamples c))) (IdSamples d)) =
          filter (compared (indexed (IdSamples c))) (IdSamples d)" using b k(2) by simp
      show ?thesis unfolding v_def sample_verdict_def tk k(2,3) using b c0 by simp
    qed }
  { assume "v = MatchConflict"
    then have "\<exists>s\<in>set (filter (compared (indexed (IdSamples c))) (IdSamples d)). \<not> agrees (indexed (IdSamples c)) s"
      unfolding v_def sample_verdict_def by (metis in_set_takeD MatchStrength.distinct)
    then show "\<exists>slot\<in>shared_slots c d. readable c slot \<noteq> readable d slot" unfolding k(3) . }
  assume "v = MatchStrong \<or> v = MatchProbable"
  then show "card (shared_slots c d) \<le> b"
    by (auto simp: v_def sample_verdict_def k(2) split: if_splits)
qed

text \<open>
  Comparison in terms of the reference: with a budget that covers the shared slots the verdict is
  the reference's; with any budget a verdict other than none and indeterminate is.
\<close>

lemma compare_cases:
  assumes "CompareContentIdentity c d b = Inr r"
  shows "ContentIdentity_Validate c = None" "ContentIdentity_Validate d = None" "b \<noteq> 0"
    "r = (if \<not> same_layout c d then CompareResult_zero\<lparr>CrMatch := MatchNo\<rparr>
      else if IdQuickID c \<noteq> [] \<and> IdQuickID c = IdQuickID d then CompareResult_zero\<lparr>CrMatch := MatchStrong\<rparr>
      else Compare_loop (indexed (IdSamples c)) b CompareResult_zero (IdSamples d))"
  using assms by (auto simp: CompareContentIdentity_def same_layout_def split: option.splits if_splits)

lemma counting_zero: "counting b CompareResult_zero"
  by (simp add: counting_def CompareResult_zero_def)

lemma compare_verdict:
  assumes "CompareContentIdentity c d b = Inr r"
  shows "card (shared_slots c d) \<le> unat b \<Longrightarrow> CrMatch r = identity_verdict c d"
    and "CrMatch r \<in> {MatchStrong, MatchProbable, MatchConflict, MatchNo} \<Longrightarrow> CrMatch r = identity_verdict c d"
    and "CrMatch r \<in> {MatchStrong, MatchProbable, MatchIndeterminate, MatchConflict, MatchNo}"
    and "CrMatchingSamples r + CrConflictingSamples r = CrComparedSamples r" "CrComparedSamples r \<le> b"
proof -
  note cc = compare_cases [OF assms]
  note dist = valid_distinct [OF cc(1)] valid_distinct [OF cc(2)]
  note lv = Compare_loop_verdict [OF counting_zero, where m = "indexed (IdSamples c)"]
  note sv = sample_verdict_shared [OF dist]
  have z: "unat (CrComparedSamples CompareResult_zero) = 0" by (simp add: CompareResult_zero_def)
  show v: "CrMatch r = identity_verdict c d" if "card (shared_slots c d) \<le> unat b"
    using cc(4) lv(1) [of b "IdSamples d"] sv(1) [OF that] z by (simp add: identity_verdict_def)
  show "CrMatch r = identity_verdict c d" if m: "CrMatch r \<in> {MatchStrong, MatchProbable, MatchConflict, MatchNo}"
  proof (cases "\<not> same_layout c d \<or> IdQuickID c \<noteq> [] \<and> IdQuickID c = IdQuickID d")
    case True
    then show ?thesis using cc(4) by (auto simp: identity_verdict_def)
  next
    case False
    let ?v = "sample_verdict (indexed (IdSamples c)) (unat b) 0 (filter (compared (indexed (IdSamples c))) (IdSamples d))"
    have f: "same_layout c d" "\<not> (IdQuickID c \<noteq> [] \<and> IdQuickID c = IdQuickID d)" using False by auto
    have r: "CrMatch r = ?v" using f(1) lv(1) [of b "IdSamples d"] z unfolding cc(4) if_not_P [OF f(2)] by simp
    show ?thesis
    proof (cases "?v = MatchConflict")
      case True
      with sv(2) [OF True] False r show ?thesis by (auto simp: identity_verdict_def)
    next
      case n: False
      have "?v \<noteq> MatchNo" by (simp add: sample_verdict_def)
      with n m r have "?v = MatchStrong \<or> ?v = MatchProbable" by simp
      from v [OF sv(3) [OF this]] show ?thesis .
    qed
  qed
  have "sample_verdict m n k cs \<in> {MatchStrong, MatchProbable, MatchIndeterminate, MatchConflict}" for m n k cs
    by (simp add: sample_verdict_def)
  then show "CrMatch r \<in> {MatchStrong, MatchProbable, MatchIndeterminate, MatchConflict, MatchNo}"
    using cc(4) lv(1) [of b "IdSamples d"] by (auto simp: CompareResult_zero_def)
  show "CrMatchingSamples r + CrConflictingSamples r = CrComparedSamples r"
    using cc(4) lv(3) by (simp add: CompareResult_zero_def)
  show "CrComparedSamples r \<le> b"
    using cc(4) lv(2) by (simp add: CompareResult_zero_def word_le_nat_alt)
qed

section \<open>The sample plan\<close>

text \<open>The sector of a slot below 7, for media small enough that the product does not wrap.\<close>

lemma unat_sample_lba:
  fixes w :: u64
  assumes "unat w * 6 < 2 ^ 64" "k < 7"
  shows "unat (w * of_nat k div 8) = unat w * k div 8"
proof -
  have "unat w * k \<le> unat w * 6" using assms(2) by simp
  with assms(1) have "unat w * k < 2 ^ 64" by linarith
  then have "unat (w * of_nat k) = unat w * k"
    using assms(2) by (simp add: unat_word_ariths unat_of_nat)
  then show ?thesis by (simp add: unat_div)
qed

definition plan_covers :: "u64 \<Rightarrow> nat \<Rightarrow> nat \<Rightarrow> int64 set \<Rightarrow> int64 set \<Rightarrow> SampleSlot list \<Rightarrow> bool" where
  "plan_covers w k m seen seen' plan \<longleftrightarrow>
     seen' = seen \<union> (\<lambda>j. w * of_nat j div 8) ` {k ..< m} \<and>
     PlLBA ` set plan = (\<lambda>j. w * of_nat j div 8) ` {k ..< m} - seen \<and>
     distinct (map PlLBA plan) \<and>
     sorted_wrt (<) (map (unat \<circ> PlSlot) plan) \<and>
     (\<forall>s\<in>set plan. k \<le> unat (PlSlot s) \<and> unat (PlSlot s) < m \<and>
        PlLBA s = w * of_nat (unat (PlSlot s)) div 8) \<and>
     length plan \<le> m - k"

lemma plan_covers_skip:
  assumes "plan_covers w (Suc k) m seen seen' plan" "k < m" "w * of_nat k div 8 \<in> seen"
  shows "plan_covers w k m seen seen' plan"
proof -
  have "{k ..< m} = insert k {Suc k ..< m}" using assms(2) by auto
  then show ?thesis using assms by (auto simp: plan_covers_def)
qed

lemma plan_covers_take:
  assumes p: "plan_covers w (Suc k) m (insert (w * of_nat k div 8) seen) seen' plan"
    and k: "k < m" "m \<le> 7" and n: "w * of_nat k div 8 \<notin> seen"
  shows "plan_covers w k m seen seen' (\<lparr>PlSlot = of_nat k, PlLBA = w * of_nat k div 8\<rparr> # plan)"
proof -
  have r: "{k ..< m} = insert k {Suc k ..< m}" using k by auto
  have u: "unat (of_nat k :: u16) = k" using k by (simp add: unat_of_nat)
  have l: "PlLBA ` set plan = (\<lambda>j. w * of_nat j div 8) ` {Suc k ..< m} - insert (w * of_nat k div 8) seen"
    using p unfolding plan_covers_def by (elim conjE)
  have "w * of_nat k div 8 \<notin> PlLBA ` set plan" unfolding l by simp
  moreover have "PlLBA ` set plan \<union> {w * of_nat k div 8} = (\<lambda>j. w * of_nat j div 8) ` {k ..< m} - seen"
    unfolding l r using n by auto
  ultimately show ?thesis using p k u by (auto simp: plan_covers_def r simp del: of_nat_unat)
qed

lemma SamplePlan_loop_covers:
  assumes "SamplePlan_loop w seen (of_nat k) (map of_nat [k ..< m]) = (seen', plan)" "k \<le> m" "m \<le> 7"
  shows "plan_covers w k m (set seen) (set seen') plan"
  using assms
proof (induction "m - k" arbitrary: k seen plan)
  case 0
  then show ?case by (simp add: plan_covers_def)
next
  case (Suc n)
  then have km: "k < m" by simp
  have ups: "[k ..< m] = k # [Suc k ..< m]" using km by (simp add: upt_conv_Cons)
  have suc: "(of_nat k :: u16) + 1 = of_nat (Suc k)" by simp
  let ?lba = "w * of_nat k div 8"
  have n: "n = m - Suc k" using Suc.hyps(2) by simp
  have le: "Suc k \<le> m" using km by simp
  show ?case
  proof (cases "?lba \<in> set seen")
    case True
    then have "SamplePlan_loop w seen (of_nat (Suc k)) (map of_nat [Suc k ..< m]) = (seen', plan)"
      using Suc.prems(1) unfolding ups list.map SamplePlan_loop.simps suc by (simp add: Let_def)
    from plan_covers_skip [OF Suc.hyps(1) [OF n this le Suc.prems(3)] km True] show ?thesis .
  next
    case False
    then obtain p where p: "SamplePlan_loop w (?lba # seen) (of_nat (Suc k)) (map of_nat [Suc k ..< m]) = (seen', p)"
      "plan = \<lparr>PlSlot = of_nat k, PlLBA = ?lba\<rparr> # p"
      using Suc.prems(1) unfolding ups list.map SamplePlan_loop.simps suc
      by (auto simp: Let_def split: prod.splits)
    have "plan_covers w (Suc k) m (insert ?lba (set seen)) (set seen') p"
      using Suc.hyps(1) [OF n p(1) le Suc.prems(3)] by simp
    from plan_covers_take [OF this km Suc.prems(3) False] show ?thesis unfolding p(2) .
  qed
qed

text \<open>The plan of a medium of \<open>n\<close> sectors.\<close>

definition slot_sector :: "nat \<Rightarrow> nat \<Rightarrow> nat" where
  "slot_sector n k = (if k = 7 then n - 1 else (n - 1) * k div 8)"

lemma BuildSamplePlan_facts:
  assumes "BuildSamplePlan sc = Inr plan" "(unat sc - 1) * 6 < 2 ^ 64"
  shows "\<forall>s\<in>set plan. unat (PlSlot s) < 8 \<and> unat (PlLBA s) = slot_sector (unat sc) (unat (PlSlot s))"
    and "(unat \<circ> PlLBA) ` set plan = slot_sector (unat sc) ` {..<8}"
    and "distinct (map PlLBA plan)" "sorted_wrt (<) (map (unat \<circ> PlSlot) plan)" "length plan \<le> 8" "sc \<noteq> 0"
proof -
  let ?w = "sc - 1"
  show sc: "sc \<noteq> 0" using assms(1) by (auto simp: BuildSamplePlan_def)
  then have w: "unat ?w = unat sc - 1" by (simp add: unat_minus_one)
  obtain seen p where l: "SamplePlan_loop ?w [] 0 [0, 1, 2, 3, 4, 5, 6] = (seen, p)" by fastforce
  have plan: "plan = (if ?w \<in> set seen then p else p @ [\<lparr>PlSlot = 7, PlLBA = ?w\<rparr>])"
    using assms(1) sc unfolding BuildSamplePlan_def Let_def l by simp
  have nums: "map of_nat [0 ..< 7] = ([0, 1, 2, 3, 4, 5, 6] :: u64 list)" by (simp add: upt_conv_Cons)
  have "plan_covers ?w 0 7 (set []) (set seen) p"
    by (rule SamplePlan_loop_covers) (use l in \<open>simp_all only: nums of_nat_0\<close>, simp_all)
  note pl = this [unfolded plan_covers_def list.set Un_empty_left Diff_empty]
  have q: "set seen = (\<lambda>j. ?w * of_nat j div 8) ` {0 ..< 7}" "PlLBA ` set p = set seen"
    "distinct (map PlLBA p)" "sorted_wrt (<) (map (unat \<circ> PlSlot) p)"
    using pl by argo+
  have qs: "\<And>s. s \<in> set p \<Longrightarrow> unat (PlSlot s) < 7 \<and> PlLBA s = ?w * of_nat (unat (PlSlot s)) div 8"
    and q5: "length p \<le> 7"
    using pl by (blast, linarith)
  have lba: "unat (?w * of_nat k div 8) = slot_sector (unat sc) k" if "k < 7" for k
    using unat_sample_lba [of ?w k] assms(2) that w by (simp add: slot_sector_def)
  have end_slot: "unat ?w = slot_sector (unat sc) 7" using w by (simp add: slot_sector_def)
  have p_ok: "unat (PlSlot s) < 8 \<and> unat (PlLBA s) = slot_sector (unat sc) (unat (PlSlot s))" if "s \<in> set p" for s
    using qs [OF that] lba [of "unat (PlSlot s)"] by (simp del: of_nat_unat)
  then show "\<forall>s\<in>set plan. unat (PlSlot s) < 8 \<and> unat (PlLBA s) = slot_sector (unat sc) (unat (PlSlot s))"
    using end_slot unfolding plan by auto
  have seen_im: "unat ` set seen = slot_sector (unat sc) ` {0 ..< 7}"
    unfolding q(1) image_image by (rule image_cong) (simp_all add: lba)
  have r8: "{..<8} = insert 7 {0 ..< 7 :: nat}" by auto
  have "(unat \<circ> PlLBA) ` set p = unat ` set seen" using q(2) by (metis image_comp)
  then show "(unat \<circ> PlLBA) ` set plan = slot_sector (unat sc) ` {..<8}"
    unfolding r8 image_insert using seen_im end_slot
    by (auto simp: plan split: if_splits) (metis imageI)
  show "distinct (map PlLBA plan)" using q(2,3) by (auto simp: plan)
  have "\<forall>x\<in>set p. unat (PlSlot x) < 7" using qs by blast
  then show "sorted_wrt (<) (map (unat \<circ> PlSlot) plan)"
    using q(4) by (simp add: plan sorted_wrt_append)
  show "length plan \<le> 8" using q5 by (simp add: plan)
qed

section \<open>Collection\<close>

text \<open>What a collected sample says of the planned one.\<close>

definition collected :: "SectorReader \<Rightarrow> u32 \<Rightarrow> SampleSlot \<Rightarrow> SectorFingerprint \<Rightarrow> bool" where
  "collected reader blockSize planned s \<longleftrightarrow>
     FpSlot s = PlSlot planned \<and> FpLBA s = PlLBA planned \<and> SectorFingerprint_Validate s = None \<and>
     (Available s \<longrightarrow> (\<exists>data. reader (PlLBA planned) blockSize = Inr data \<and>
        (of_nat (length data) :: u64) = ucast blockSize \<and> FpSHA256 s = sha256 data))"

text \<open>The accounting of a collection: samples attempted, available and unavailable, and bytes.\<close>

definition accounts :: "u32 \<Rightarrow> FingerprintCollection \<Rightarrow> SectorFingerprint list \<Rightarrow> FingerprintCollection \<Rightarrow> bool" where
  "accounts blockSize st ss st' \<longleftrightarrow>
     AttemptedSamples st' = AttemptedSamples st + of_nat (length ss) \<and>
     AvailableSamples st' = AvailableSamples st + of_nat (length (filter Available ss)) \<and>
     UnavailableSamples st' = UnavailableSamples st + of_nat (length (filter (Not \<circ> Available) ss)) \<and>
     BytesRead st' = BytesRead st + of_nat (length (filter Available ss)) * ucast blockSize"

lemma Collect_sample_facts:
  assumes "Collect_sample blockSize (reader (PlLBA planned) blockSize)
      \<lparr>FpSlot = PlSlot planned, FpLBA = PlLBA planned, Available = False, FpSHA256 = zero_hash, FpError = 0\<rparr>
      (st\<lparr>AttemptedSamples := AttemptedSamples st + 1\<rparr>) = (s, st')"
  shows "collected reader blockSize planned s \<and> accounts blockSize st [s] st'"
  using assms
  by (auto simp: Collect_sample_def collected_def accounts_def SectorFingerprint_Validate_def
      split: sum.splits if_splits)

lemma accounts_Cons:
  "accounts b st [s] st1 \<Longrightarrow> accounts b st1 ss st2 \<Longrightarrow> accounts b st (s # ss) st2"
  by (auto simp: accounts_def algebra_simps split: if_splits)

lemma Collect_loop_facts:
  assumes "Collect_loop clock deadline blockSize reader k st plan = (ss, st')"
  shows "list_all2 (collected reader blockSize) plan ss \<and> accounts blockSize st ss st'"
  using assms
proof (induction plan arbitrary: k st ss st')
  case Nil
  then show ?case by (simp add: accounts_def)
next
  case (Cons planned plan)
  let ?st1 = "st\<lparr>AttemptedSamples := AttemptedSamples st + 1\<rparr>"
  let ?s = "\<lparr>FpSlot = PlSlot planned, FpLBA = PlLBA planned, Available = False, FpSHA256 = zero_hash, FpError = 0\<rparr>"
  let ?skipped = "(?s\<lparr>FpError := 3\<rparr>, ?st1\<lparr>UnavailableSamples := UnavailableSamples ?st1 + 1\<rparr>)"
  obtain k' s st2 where
    one: "(k', (s, st2)) = (if clock k > deadline then (Suc k, ?skipped)
        else if deadline - clock (Suc k) \<le> 0 then (Suc (Suc k), ?skipped)
        else (Suc (Suc k), Collect_sample blockSize (reader (PlLBA planned) blockSize) ?s ?st1))"
    by (metis surj_pair)
  obtain ss1 st3 where rest: "Collect_loop clock deadline blockSize reader k' st2 plan = (ss1, st3)" by fastforce
  have ss: "ss = s # ss1" "st' = st3"
    using Cons.prems unfolding Collect_loop.simps Let_def one [symmetric] by (simp_all add: rest)
  have "(s, st2) = ?skipped \<or> Collect_sample blockSize (reader (PlLBA planned) blockSize) ?s ?st1 = (s, st2)"
    using one by (auto split: if_splits)
  moreover have "collected reader blockSize planned s \<and> accounts blockSize st [s] st2" if "(s, st2) = ?skipped"
    using that by (simp add: collected_def accounts_def SectorFingerprint_Validate_def)
  ultimately have "collected reader blockSize planned s" "accounts blockSize st [s] st2"
    using Collect_sample_facts by blast+
  then show ?case using Cons.IH [OF rest] accounts_Cons unfolding ss by auto
qed

text \<open>What a successful collection returns.\<close>

lemma Collect_facts:
  assumes "Collect c clock base (Some reader) = Inr (i, stats)"
  obtains plan b where "BuildSamplePlan (IdSectorCount base) = Inr plan"
    "list_all2 (collected reader (IdLogicalBlockSize base)) plan (IdSamples i)"
    "accounts (IdLogicalBlockSize base) FingerprintCollection_zero (IdSamples i) stats"
    "ContentIdentity_Validate i = None" "IdVersion i = 1" "IdProfile i = IdProfile base"
    "IdLogicalBlockSize i = IdLogicalBlockSize base" "IdSectorCount i = IdSectorCount base"
    "IdSessions i = IdSessions base"
    "(if IdLayoutSHA256 base = [] then BuildLayoutHash (base\<lparr>IdVersion := 1\<rparr>) else Inr (IdLayoutSHA256 base)) = Inr (IdLayoutSHA256 i)"
    "BuildQuickContentID (i\<lparr>IdQuickID := IdQuickID base\<rparr>) (map PlSlot plan) = Inr (IdQuickID i, b)"
proof -
  define base1 where "base1 = (if IdVersion base = 0 then base\<lparr>IdVersion := 1\<rparr> else base)"
  have v: "IdVersion base1 = 1"
    using assms by (auto simp: Collect_def Let_def base1_def split: if_splits)
  then have b1: "base1 = base\<lparr>IdVersion := 1\<rparr>" by (auto simp: base1_def split: if_splits)
  obtain plan where plan: "BuildSamplePlan (IdSectorCount base) = Inr plan"
    using assms v by (auto simp: Collect_def Let_def b1 simp flip: base1_def split: sum.splits)
  obtain layout where layout: "(if IdLayoutSHA256 base = [] then BuildLayoutHash base1 else Inr (IdLayoutSHA256 base)) = Inr layout"
    using assms v plan by (auto simp: Collect_def Let_def b1 simp flip: base1_def split: sum.splits if_splits)
  let ?dl = "clock 0 + FcTotalBudget (FingerprintCollector_normalized c)"
  obtain ss st where loop: "Collect_loop clock ?dl (IdLogicalBlockSize base) reader 1 FingerprintCollection_zero plan = (ss, st)"
    by fastforce
  let ?b2 = "base1\<lparr>IdLayoutSHA256 := layout, IdSamples := ss\<rparr>"
  have l: "(if IdLayoutSHA256 base1 = [] then BuildLayoutHash base1 else Inr (IdLayoutSHA256 base1)) = Inr layout"
    using layout unfolding b1 by (cases "IdLayoutSHA256 base = []") simp_all
  have p1: "BuildSamplePlan (IdSectorCount base1) = Inr plan" using plan by (simp add: b1)
  have loop1: "Collect_loop clock ?dl (IdLogicalBlockSize base1) reader 1 FingerprintCollection_zero plan = (ss, st)"
    using loop by (simp add: b1)
  have eq: "(case BuildQuickContentID ?b2 (map PlSlot plan) of Inl e \<Rightarrow> Inl e
     | Inr (quickID, _) \<Rightarrow> (let base3 = ?b2\<lparr>IdQuickID := quickID\<rparr> in
         case ContentIdentity_Validate base3 of Some e \<Rightarrow> Inl e | None \<Rightarrow> Inr (base3, st))) = Inr (i, stats)"
    using assms unfolding Collect_def option.case Let_def base1_def [symmetric] p1 sum.case l loop1 prod.case
    using v by simp
  then obtain q b where q: "BuildQuickContentID ?b2 (map PlSlot plan) = Inr (q, b)"
    "i = ?b2\<lparr>IdQuickID := q\<rparr>" "st = stats" "ContentIdentity_Validate (?b2\<lparr>IdQuickID := q\<rparr>) = None"
    by (auto simp: Let_def split: sum.splits prod.splits option.splits)
  have "i\<lparr>IdQuickID := IdQuickID base\<rparr> = ?b2" by (simp add: q(2) b1)
  with that [of plan b] plan Collect_loop_facts [OF loop] q layout [unfolded b1] v show ?thesis
    by (simp add: b1 del: if_split)
qed

lemma BuildSamplePlan_length:
  assumes "BuildSamplePlan sc = Inr plan"
  shows "length plan \<le> 8" "plan \<noteq> []"
proof -
  let ?w = "sc - 1"
  have sc: "sc \<noteq> 0" using assms by (auto simp: BuildSamplePlan_def)
  obtain seen p where l: "SamplePlan_loop ?w [] 0 [0, 1, 2, 3, 4, 5, 6] = (seen, p)" by fastforce
  have plan: "plan = (if ?w \<in> set seen then p else p @ [\<lparr>PlSlot = 7, PlLBA = ?w\<rparr>])"
    using assms sc unfolding BuildSamplePlan_def Let_def l by simp
  have nums: "map of_nat [0 ..< 7] = ([0, 1, 2, 3, 4, 5, 6] :: u64 list)" by (simp add: upt_conv_Cons)
  have "plan_covers ?w 0 7 (set []) (set seen) p"
    by (rule SamplePlan_loop_covers) (use l in \<open>simp_all only: nums of_nat_0\<close>, simp_all)
  note pl = this [unfolded plan_covers_def list.set Un_empty_left Diff_empty]
  have "length p \<le> 7" "set seen = {} \<longleftrightarrow> p = []" using pl by (linarith, metis image_is_empty set_empty)
  then show "length plan \<le> 8" "plan \<noteq> []" by (auto simp: plan)
qed

lemma collected_slots: "list_all2 (collected r bs) plan ss \<Longrightarrow> map FpSlot ss = map PlSlot plan"
  by (induction rule: list_all2_induct) (auto simp: collected_def)

text \<open>A reader that returns the sectors of a medium, when it returns anything.\<close>

definition reads_medium :: "(int64 \<Rightarrow> bytes) \<Rightarrow> SectorReader \<Rightarrow> u32 \<Rightarrow> bool" where
  "reads_medium medium reader blockSize \<longleftrightarrow>
     (\<forall>lba data. reader lba blockSize = Inr data \<longrightarrow> (of_nat (length data) :: u64) = ucast blockSize \<longrightarrow>
        data = medium lba)"

lemma collected_readable:
  assumes l: "list_all2 (collected reader bs) plan (IdSamples i)" and d: "distinct (map FpSlot (IdSamples i))"
    and m: "reads_medium medium reader bs" and r: "readable i slot = Some (lba, h)"
  shows "h = sha256 (medium lba) \<and> (\<exists>p\<in>set plan. PlSlot p = slot \<and> PlLBA p = lba)"
proof -
  obtain s where s: "s \<in> set (IdSamples i)" "FpSlot s = slot" "Available s" "FpLBA s = lba" "FpSHA256 s = h"
    using r unfolding readable_Some [OF d] by blast
  obtain p where p: "p \<in> set plan" "collected reader bs p s"
    using l s(1) by (auto simp: list_all2_conv_all_nth in_set_conv_nth) metis
  then show ?thesis using s m by (auto simp: collected_def reads_medium_def)
qed

lemma collected_agree:
  assumes c: "list_all2 (collected r1 bs) plan (IdSamples i)" "list_all2 (collected r2 bs) plan (IdSamples j)"
    and d: "distinct (map FpSlot (IdSamples i))" "distinct (map FpSlot (IdSamples j))"
    and m: "reads_medium medium r1 bs" "reads_medium medium r2 bs"
    and slot: "slot \<in> shared_slots i j"
  shows "readable i slot = readable j slot"
proof -
  obtain l h l' h' where r: "readable i slot = Some (l, h)" "readable j slot = Some (l', h')"
    using slot by (auto simp: shared_slots_def)
  obtain p p' where p: "p \<in> set plan" "PlSlot p = slot" "PlLBA p = l" "h = sha256 (medium l)"
      "p' \<in> set plan" "PlSlot p' = slot" "PlLBA p' = l'" "h' = sha256 (medium l')"
    using collected_readable [OF c(1) d(1) m(1) r(1)] collected_readable [OF c(2) d(2) m(2) r(2)] by blast
  have "distinct (map PlSlot plan)" using collected_slots [OF c(1)] d(1) by simp
  then have "p = p'" using p(1,2,5,6) by (auto simp: distinct_map dest: inj_onD)
  with p r show ?thesis by simp
qed

text \<open>The quick identifier depends on the readable samples only.\<close>

lemma quick_samples_readable:
  assumes "distinct (map FpSlot (IdSamples i))" "quick_samples (indexed (IdSamples i)) slots = Some bs"
  shows "bs = concat (map (\<lambda>slot. case readable i slot of None \<Rightarrow> []
      | Some (lba, h) \<Rightarrow> le_put 2 slot @ le_put 8 lba @ h) slots)"
    and "set slots \<subseteq> dom (readable i)"
proof -
  have "bs = concat (map (\<lambda>slot. case readable i slot of None \<Rightarrow> []
      | Some (lba, h) \<Rightarrow> le_put 2 slot @ le_put 8 lba @ h) slots) \<and> set slots \<subseteq> dom (readable i)"
    using assms(2)
  proof (induction slots arbitrary: bs)
    case (Cons slot slots)
    then obtain s bs' where s: "indexed (IdSamples i) slot = Some s" "Available s"
        "quick_samples (indexed (IdSamples i)) slots = Some bs'"
        "bs = le_put 2 (FpSlot s) @ le_put 8 (FpLBA s) @ FpSHA256 s @ bs'"
      by (auto split: option.splits if_splits)
    have "FpSlot s = slot" using s(1) indexed_Some [OF assms(1), of slot s] by simp
    with s Cons.IH [OF s(3)] show ?case by (auto simp: readable_def)
  qed simp
  then show "bs = concat (map (\<lambda>slot. case readable i slot of None \<Rightarrow> []
      | Some (lba, h) \<Rightarrow> le_put 2 slot @ le_put 8 lba @ h) slots)" "set slots \<subseteq> dom (readable i)" by auto
qed

lemma quick_samples_total:
  "\<forall>slot\<in>set slots. \<exists>s. m slot = Some s \<and> Available s \<Longrightarrow> \<exists>bs. quick_samples m slots = Some bs"
  by (induction slots) auto

lemma quick_id_iff:
  assumes "BuildQuickContentID i slots = Inr (q, b)"
  shows "q \<noteq> [] \<longleftrightarrow> (\<forall>slot\<in>set slots. readable i slot \<noteq> None)"
proof -
  have v: "ContentIdentity_Validate i = None" using assms by (auto simp: BuildQuickContentID_def split: option.splits)
  note d = valid_distinct [OF v]
  show ?thesis
  proof (cases "quick_samples (indexed (IdSamples i)) (sort slots)")
    case None
    then have "q = []" using assms v by (auto simp: BuildQuickContentID_def split: if_splits)
    moreover have "\<not> (\<forall>slot\<in>set slots. readable i slot \<noteq> None)"
    proof
      assume "\<forall>slot\<in>set slots. readable i slot \<noteq> None"
      then have "\<forall>slot\<in>set (sort slots). \<exists>s. indexed (IdSamples i) slot = Some s \<and> Available s"
        by (auto simp: readable_def split: option.splits if_splits)
      from quick_samples_total [OF this] None show False by simp
    qed
    ultimately show ?thesis by simp
  next
    case (Some bs)
    then have "length q = 64" using assms v by (auto simp: BuildQuickContentID_def split: if_splits)
    then have "q \<noteq> []" by auto
    with quick_samples_readable(2) [OF d Some] show ?thesis by auto
  qed
qed

lemma quick_id_cong:
  assumes "BuildQuickContentID i slots = Inr (q, b)" "BuildQuickContentID j slots = Inr (q', b')"
    and "q \<noteq> []" "q' \<noteq> []" "IdVersion i = IdVersion j" "IdLayoutSHA256 i = IdLayoutSHA256 j"
    and "\<And>slot. slot \<in> set slots \<Longrightarrow> readable i slot = readable j slot"
  shows "q = q'"
proof -
  have v: "ContentIdentity_Validate i = None" "ContentIdentity_Validate j = None"
    using assms(1,2) by (auto simp: BuildQuickContentID_def split: option.splits)
  obtain bs bs' where q: "quick_samples (indexed (IdSamples i)) (sort slots) = Some bs"
      "quick_samples (indexed (IdSamples j)) (sort slots) = Some bs'"
    using assms(1-4) v by (auto simp: BuildQuickContentID_def split: option.splits if_splits)
  have "bs = bs'"
    unfolding quick_samples_readable(1) [OF valid_distinct [OF v(1)] q(1)]
      quick_samples_readable(1) [OF valid_distinct [OF v(2)] q(2)]
    by (rule arg_cong [where f = concat], rule map_cong) (simp_all add: assms(7))
  then show ?thesis using assms v q by (auto simp: BuildQuickContentID_def split: if_splits)
qed

section \<open>Layout bytes\<close>

lemma le_put_eq_iff:
  assumes "8 * k = LENGTH('a::len)"
  shows "le_put k (v :: 'a word) = le_put k w \<longleftrightarrow> v = w"
  using le_get_put [OF assms, of v] le_get_put [OF assms, of w] by metis

lemma track_bytes_length [simp]: "length (track_bytes t) = 30"
  by (simp add: track_bytes_def)

lemma track_bytes_inj: "track_bytes t = track_bytes u \<Longrightarrow> t = u"
  by (cases t, cases u) (simp add: track_bytes_def le_put_eq_iff)

lemma hint_bytes_prefix:
  assumes "hint_bytes h @ xs = hint_bytes g @ ys" "length (HintValue h) < 65536" "length (HintValue g) < 65536"
  shows "h = g \<and> xs = ys"
proof -
  have e: "HintType h = HintType g" "(of_nat (length (HintValue h)) :: u16) = of_nat (length (HintValue g))"
    "HintValue h @ xs = HintValue g @ ys"
    using assms(1) by (simp_all add: hint_bytes_def le_put_eq_iff)
  have "unat (of_nat (length (HintValue h)) :: u16) = unat (of_nat (length (HintValue g)) :: u16)"
    using e(2) by simp
  then have "length (HintValue h) = length (HintValue g)" using assms(2,3) by (simp add: unat_of_nat)
  with e show ?thesis by (cases h, cases g) simp
qed

lemma hint_bytes_nonempty [simp]: "hint_bytes h \<noteq> []" "[] \<noteq> hint_bytes h"
  by (simp_all add: hint_bytes_def numeral_2_eq_2)

lemma hints_bytes_inj:
  "concat (map hint_bytes hs) = concat (map hint_bytes gs) \<Longrightarrow>
   \<forall>h\<in>set hs \<union> set gs. length (HintValue h) < 65536 \<Longrightarrow> hs = gs"
proof (induction hs arbitrary: gs)
  case Nil
  then show ?case by (cases gs) simp_all
next
  case (Cons h hs)
  show ?case
  proof (cases gs)
    case Nil
    with Cons.prems(1) show ?thesis by simp
  next
    case (Cons g gs')
    have "hint_bytes h @ concat (map hint_bytes hs) = hint_bytes g @ concat (map hint_bytes gs')"
      using Cons.prems(1) Cons by simp
    from hint_bytes_prefix [OF this] Cons.prems(2) Cons
    have "h = g" "concat (map hint_bytes hs) = concat (map hint_bytes gs')" by simp_all
    with Cons.IH [of gs'] Cons.prems(2) Cons show ?thesis by simp
  qed
qed

lemma concat_fixed_inj:
  assumes "concat (map f xs) @ us = concat (map f ys) @ vs" "length xs = length ys"
    and "\<And>x. length (f x) = n" "inj f"
  shows "xs = ys \<and> us = vs"
  using assms(2,1)
proof (induction xs ys rule: list_induct2)
  case (Cons x xs y ys)
  then have "f x = f y \<and> concat (map f xs) @ us = concat (map f ys) @ vs" by (simp add: assms(3))
  with Cons.IH assms(4) show ?case by (auto dest: injD)
qed simp

lemma compare_total:
  assumes "ContentIdentity_Validate c = None" "ContentIdentity_Validate d = None" "b \<noteq> 0"
  shows "\<exists>r. CompareContentIdentity c d b = Inr r"
proof -
  have i: "\<exists>r. (if P then Inr x else if Q then Inr y else Inr z) = (Inr r :: 'e + 'r)" for P Q x y z by simp
  show ?thesis
    unfolding CompareContentIdentity_def assms(1,2) option.case if_not_P [OF assms(3)] by (rule i)
qed

lemma BuildSamplePlan_total:
  assumes "sc \<noteq> 0"
  shows "\<exists>plan. BuildSamplePlan sc = Inr plan"
proof -
  obtain seen p where "SamplePlan_loop (sc - 1) [] 0 [0, 1, 2, 3, 4, 5, 6] = (seen, p)" by fastforce
  then show ?thesis using assms unfolding BuildSamplePlan_def Let_def by simp
qed

lemma filter_partition_length:
  "length (filter P xs) + length (filter (Not \<circ> P) xs) = length xs"
  by (induction xs) auto

lemma BuildQuickContentID_total:
  assumes "ContentIdentity_Validate i = None" "slots \<noteq> []"
  shows "\<exists>q b. BuildQuickContentID i slots = Inr (q, b)"
  unfolding BuildQuickContentID_def assms(1) option.case if_not_P [OF assms(2)]
  by (cases "quick_samples (indexed (IdSamples i)) (sort slots)") auto

section \<open>Budgets\<close>

lemma Compare_loop_exhausted:
  assumes "counting b r" "\<not> CrBudgetExhausted r"
  shows "CrBudgetExhausted (Compare_loop m b r ss) \<longleftrightarrow>
      (let cs = filter (compared m) ss; k = unat b - unat (CrComparedSamples r) in
       (\<forall>s\<in>set (take k cs). agrees m s) \<and> k < length cs)"
    and "CrBudgetExhausted (Compare_loop m b r ss) \<Longrightarrow>
      CrComparedSamples (Compare_loop m b r ss) = b \<and> CrConflictingSamples (Compare_loop m b r ss) = 0 \<and>
      CrMatch (Compare_loop m b r ss) = MatchIndeterminate"
  using assms
proof (induction ss arbitrary: r)
  case Nil
  {
    case 1 then show ?case by (simp add: Compare_verdict_def)
  next
    case 2 then show ?case by (simp add: Compare_verdict_def)
  }
next
  case (Cons s ss)
  {
    case 1
    show ?case
    proof (cases "compared m s")
      case True
      show ?thesis
      proof (cases "b \<le> CrComparedSamples r")
        case b: True
        show ?thesis using True b counting_full [OF 1(1) b] by (simp add: Compare_loop_step)
      next
        case b: False
        then have "unat b - unat (CrComparedSamples r) = Suc (unat b - Suc (unat (CrComparedSamples r)))"
          by (simp add: word_le_nat_alt)
        then show ?thesis
          using True b 1 Cons.IH(1) [OF counting_step(2) [OF 1(1) b]] counting_step(1) [OF 1(1) b]
          by (simp add: Compare_loop_step Let_def)
      qed
    qed (use 1 Cons.IH(1) in \<open>simp add: Compare_loop_step\<close>)
  next
    case 2
    show ?case
    proof (cases "compared m s")
      case True
      show ?thesis
      proof (cases "b \<le> CrComparedSamples r")
        case b: True
        show ?thesis using True b counting_full [OF 2(2) b] 2 by (simp add: Compare_loop_step counting_def)
      next
        case b: False
        show ?thesis
          using True b 2 Cons.IH(2) [OF _ counting_step(2) [OF 2(2) b]]
          by (simp add: Compare_loop_step split: if_splits)
      qed
    qed (use 2 Cons.IH(2) in \<open>simp add: Compare_loop_step\<close>)
  }
qed

lemma compare_within_budget:
  assumes "CompareContentIdentity c d b = Inr r"
  shows "\<not> CrBudgetExhausted r \<Longrightarrow> CrMatch r = identity_verdict c d"
    and "CrBudgetExhausted r \<Longrightarrow>
      CrComparedSamples r = b \<and> CrConflictingSamples r = 0 \<and> CrMatch r = MatchIndeterminate"
proof -
  note cc = compare_cases [OF assms]
  note v = compare_verdict [OF assms]
  let ?m = "indexed (IdSamples c)"
  have z: "\<not> CrBudgetExhausted CompareResult_zero" "unat (CrComparedSamples CompareResult_zero) = 0"
    by (simp_all add: CompareResult_zero_def)
  note ex = Compare_loop_exhausted [OF counting_zero z(1), where m = ?m and ss = "IdSamples d" and b = b]
  show "CrComparedSamples r = b \<and> CrConflictingSamples r = 0 \<and> CrMatch r = MatchIndeterminate" if e: "CrBudgetExhausted r"
  proof (cases "\<not> same_layout c d \<or> IdQuickID c \<noteq> [] \<and> IdQuickID c = IdQuickID d")
    case True
    then have "\<not> CrBudgetExhausted r" unfolding cc(4) using z(1) by (auto simp: CompareResult_zero_def)
    with e show ?thesis by simp
  next
    case False
    then have "r = Compare_loop ?m b CompareResult_zero (IdSamples d)" using cc(4) by auto
    with ex(2) e show ?thesis by simp
  qed
  assume n: "\<not> CrBudgetExhausted r"
  show "CrMatch r = identity_verdict c d"
  proof (cases "\<not> same_layout c d \<or> IdQuickID c \<noteq> [] \<and> IdQuickID c = IdQuickID d")
    case True
    then show ?thesis using cc(4) by (auto simp: identity_verdict_def)
  next
    case False
    then have r: "r = Compare_loop ?m b CompareResult_zero (IdSamples d)" using cc(4) by auto
    let ?cs = "filter (compared ?m) (IdSamples d)"
    have "\<not> ((\<forall>s\<in>set (take (unat b) ?cs). agrees ?m s) \<and> unat b < length ?cs)"
      using n ex(1) z(2) unfolding r by (simp add: Let_def)
    then consider "\<exists>s\<in>set (take (unat b) ?cs). \<not> agrees ?m s" | "length ?cs \<le> unat b" by fastforce
    then show ?thesis
    proof cases
      case 1
      then have "CrMatch r = MatchConflict"
        unfolding r Compare_loop_verdict(1) [OF counting_zero] z(2) by (simp add: sample_verdict_def)
      then show ?thesis using v(2) by simp
    next
      case 2
      have "length ?cs = card (shared_slots c d)"
        by (rule compared_slots(2) [OF valid_distinct [OF cc(1)] valid_distinct [OF cc(2)]])
      with 2 v(1) show ?thesis by simp
    qed
  qed
qed

end
