(* ===== verification/IdentityProps.thy ===== *)
theory IdentityProps
  imports IdentityFacts
begin

text \<open>
  The properties of content identities: what a match means, that a disc that is read again is not
  taken for another one, which sectors are sampled, and what the layout hash covers.
\<close>

text \<open>
  Comparing two valid identities is deciding on the maps from slots to sectors and hashes: with
  a budget that covers the shared slots the verdict is the reference's, which is symmetric in the
  two identities; with any budget a verdict other than indeterminate is the reference's, at most
  the budget's samples are compared, and a strong match means the same layout and either equal
  quick identifiers or at least four sectors with equal hashes and none with different ones.
\<close>

theorem comparison_refines_verdict:
  assumes "ContentIdentity_Validate c = None" "ContentIdentity_Validate d = None" "b \<noteq> 0"
  shows "\<exists>r. CompareContentIdentity c d b = Inr r \<and> CrComparedSamples r \<le> b \<and>
    (card (shared_slots c d) \<le> unat b \<longrightarrow> CrMatch r = identity_verdict c d) \<and>
    (CrMatch r \<noteq> MatchIndeterminate \<longrightarrow> CrMatch r = identity_verdict c d \<and> CrMatch r = identity_verdict d c) \<and>
    (CrMatch r = MatchStrong \<longrightarrow> same_layout c d \<and>
       (IdQuickID c \<noteq> [] \<and> IdQuickID c = IdQuickID d \<or>
        4 \<le> card (shared_slots c d) \<and> (\<forall>slot\<in>shared_slots c d. readable c slot = readable d slot)))"
proof -
  obtain r where r: "CompareContentIdentity c d b = Inr r" using compare_total [OF assms] by blast
  note v = compare_verdict [OF r]
  have i: "CrMatch r = identity_verdict c d" if "CrMatch r \<noteq> MatchIndeterminate" using v(2,3) that by blast
  have s: "same_layout c d \<and> (IdQuickID c \<noteq> [] \<and> IdQuickID c = IdQuickID d \<or>
      4 \<le> card (shared_slots c d) \<and> (\<forall>slot\<in>shared_slots c d. readable c slot = readable d slot))"
    if "CrMatch r = MatchStrong"
  proof -
    have "identity_verdict c d = MatchStrong" using i that by simp
    then show ?thesis by (auto simp: identity_verdict_def split: if_splits)
  qed
  show ?thesis using r v(1,5) i s identity_verdict_sym [of c d] by metis
qed

text \<open>
  C34: A disc is not taken for another one. Two collections of the same medium, on whatever drives,
  with whatever reads failing or timing out, never conflict and are never unrelated; they are a
  strong match when both read every sample, and when four samples were readable both times.
\<close>

theorem recollected_disc_matches:
  assumes "Collect c1 clock1 base (Some r1) = Inr (i, st1)" "Collect c2 clock2 base (Some r2) = Inr (j, st2)"
    and "reads_medium medium r1 (IdLogicalBlockSize base)" "reads_medium medium r2 (IdLogicalBlockSize base)"
    and "b \<noteq> 0"
  shows "\<exists>r. CompareContentIdentity i j b = Inr r \<and> CrMatch r \<notin> {MatchConflict, MatchNo} \<and>
    (IdQuickID i \<noteq> [] \<and> IdQuickID j \<noteq> [] \<longrightarrow> CrMatch r = MatchStrong) \<and>
    (4 \<le> card (shared_slots i j) \<and> 8 \<le> b \<longrightarrow> CrMatch r = MatchStrong)"
proof -
  obtain plan b1 where f: "BuildSamplePlan (IdSectorCount base) = Inr plan"
      "list_all2 (collected r1 (IdLogicalBlockSize base)) plan (IdSamples i)"
      "ContentIdentity_Validate i = None" "IdVersion i = 1" "IdProfile i = IdProfile base"
      "IdLogicalBlockSize i = IdLogicalBlockSize base" "IdSectorCount i = IdSectorCount base"
      "IdSessions i = IdSessions base"
      "(if IdLayoutSHA256 base = [] then BuildLayoutHash (base\<lparr>IdVersion := 1\<rparr>) else Inr (IdLayoutSHA256 base)) = Inr (IdLayoutSHA256 i)"
      "BuildQuickContentID (i\<lparr>IdQuickID := IdQuickID base\<rparr>) (map PlSlot plan) = Inr (IdQuickID i, b1)"
    using Collect_facts [OF assms(1)] by metis
  obtain plan' b2 where g: "BuildSamplePlan (IdSectorCount base) = Inr plan'"
      "list_all2 (collected r2 (IdLogicalBlockSize base)) plan' (IdSamples j)"
      "ContentIdentity_Validate j = None" "IdVersion j = 1" "IdProfile j = IdProfile base"
      "IdLogicalBlockSize j = IdLogicalBlockSize base" "IdSectorCount j = IdSectorCount base"
      "IdSessions j = IdSessions base"
      "(if IdLayoutSHA256 base = [] then BuildLayoutHash (base\<lparr>IdVersion := 1\<rparr>) else Inr (IdLayoutSHA256 base)) = Inr (IdLayoutSHA256 j)"
      "BuildQuickContentID (j\<lparr>IdQuickID := IdQuickID base\<rparr>) (map PlSlot plan') = Inr (IdQuickID j, b2)"
    using Collect_facts [OF assms(2)] by metis
  have p: "plan' = plan" using f(1) g(1) by simp
  have lay: "same_layout i j" using f(4-9) g(4-9) by (simp add: same_layout_def CompatibleGeometry_def)
  note d = valid_distinct [OF f(3)] valid_distinct [OF g(3)]
  have ag: "readable i slot = readable j slot" if "slot \<in> shared_slots i j" for slot
    using collected_agree [OF f(2) g(2) [unfolded p] d assms(3,4) that] .
  have rd: "readable (k\<lparr>IdQuickID := q\<rparr>) = readable k" for k q by (rule ext) (simp add: readable_def)
  have quick: "IdQuickID i = IdQuickID j" if "IdQuickID i \<noteq> []" "IdQuickID j \<noteq> []"
  proof (rule quick_id_cong [OF f(10) g(10) [unfolded p] that])
    fix slot assume s: "slot \<in> set (map PlSlot plan)"
    have "readable i slot \<noteq> None" "readable j slot \<noteq> None"
      using quick_id_iff [OF f(10)] quick_id_iff [OF g(10) [unfolded p]] that s unfolding rd by blast+
    then show "readable (i\<lparr>IdQuickID := IdQuickID base\<rparr>) slot = readable (j\<lparr>IdQuickID := IdQuickID base\<rparr>) slot"
      unfolding rd by (intro ag) (simp add: shared_slots_def domIff)
  qed (use f(4,9) g(4,9) in simp_all)
  have "length (IdSamples j) \<le> 8"
    using g(2) BuildSamplePlan_length(1) [OF f(1)] unfolding p by (metis list_all2_lengthD)
  then have c8: "card (shared_slots i j) \<le> 8"
    using compared_slots(2) [OF d] le_trans [OF length_filter_le] by metis
  obtain r where r: "CompareContentIdentity i j b = Inr r"
    using compare_total [OF f(3) g(3) assms(5)] by blast
  note v = compare_verdict [OF r]
  have iv: "identity_verdict i j \<notin> {MatchConflict, MatchNo}"
    "4 \<le> card (shared_slots i j) \<Longrightarrow> identity_verdict i j = MatchStrong"
    "IdQuickID i \<noteq> [] \<Longrightarrow> IdQuickID j \<noteq> [] \<Longrightarrow> identity_verdict i j = MatchStrong"
    using lay ag quick by (auto simp: identity_verdict_def)
  have "CrMatch r \<notin> {MatchConflict, MatchNo}" using v(2) iv(1) by fastforce
  moreover have "CrMatch r = MatchStrong" if q: "IdQuickID i \<noteq> []" "IdQuickID j \<noteq> []"
    using compare_cases(4) [OF r] lay quick [OF q] q by simp
  moreover have "CrMatch r = MatchStrong" if "4 \<le> card (shared_slots i j)" "8 \<le> b"
    using v(1) c8 that(2) iv(2) [OF that(1)] by (simp add: word_le_nat_alt)
  ultimately show ?thesis using r by blast
qed

text \<open>
  The sampled sectors. For a medium of \<open>n\<close> sectors, small enough that six times its last sector
  does not wrap, slot \<open>k\<close> below 7 samples sector \<open>(n - 1) * k div 8\<close> and slot 7 the last one; slots
  and sectors are distinct and in order, and every one of the eight sectors has a slot.
\<close>

theorem sample_plan_sectors:
  assumes "sectorCount \<noteq> 0" "(unat sectorCount - 1) * 6 < 2 ^ 64"
  shows "\<exists>plan. BuildSamplePlan sectorCount = Inr plan \<and> length plan \<le> 8 \<and>
    sorted_wrt (<) (map (unat \<circ> PlSlot) plan) \<and> distinct (map PlLBA plan) \<and>
    (\<forall>s\<in>set plan. unat (PlLBA s) < unat sectorCount \<and>
       unat (PlLBA s) = slot_sector (unat sectorCount) (unat (PlSlot s))) \<and>
    (unat \<circ> PlLBA) ` set plan = slot_sector (unat sectorCount) ` {..<8}"
proof -
  obtain plan where p: "BuildSamplePlan sectorCount = Inr plan"
    using BuildSamplePlan_total [OF assms(1)] by blast
  note f = BuildSamplePlan_facts [OF p assms(2)]
  have pos: "0 < unat sectorCount" using assms(1) by (simp add: word_neq_0_pos)
  have lt: "slot_sector (unat sectorCount) k < unat sectorCount" if "k < 8" for k
  proof -
    have "(unat sectorCount - 1) * k div 8 \<le> (unat sectorCount - 1) * 8 div 8"
      by (rule div_le_mono) (use that in simp)
    then have "(unat sectorCount - 1) * k div 8 < unat sectorCount" using pos by simp
    then show ?thesis using pos by (simp add: slot_sector_def)
  qed
  have "\<forall>s\<in>set plan. unat (PlLBA s) < unat sectorCount \<and>
       unat (PlLBA s) = slot_sector (unat sectorCount) (unat (PlSlot s))"
    using f(1) lt by auto
  with p f show ?thesis by blast
qed

text \<open>
  A collection accounts for every planned sample. It attempts at most eight, each of which is
  available with the hash of the sector that was read or unavailable with an error class; it reads
  at most eight sectors; and the quick identifier is present exactly when every sample is available.
\<close>

theorem collection_accounts:
  assumes "Collect c clock base (Some reader) = Inr (i, stats)"
  shows "unat (AttemptedSamples stats) = length (IdSamples i) \<and> length (IdSamples i) \<le> 8 \<and>
    unat (AvailableSamples stats) + unat (UnavailableSamples stats) = unat (AttemptedSamples stats) \<and>
    unat (BytesRead stats) = unat (AvailableSamples stats) * unat (IdLogicalBlockSize base) \<and>
    (IdQuickID i \<noteq> [] \<longleftrightarrow> (\<forall>s\<in>set (IdSamples i). Available s)) \<and>
    (\<forall>s\<in>set (IdSamples i). Available s \<longrightarrow>
       (\<exists>data. reader (FpLBA s) (IdLogicalBlockSize base) = Inr data \<and> FpSHA256 s = sha256 data))"
proof -
  obtain plan b where f: "BuildSamplePlan (IdSectorCount base) = Inr plan"
      "list_all2 (collected reader (IdLogicalBlockSize base)) plan (IdSamples i)"
      "accounts (IdLogicalBlockSize base) FingerprintCollection_zero (IdSamples i) stats"
      "ContentIdentity_Validate i = None"
      "BuildQuickContentID (i\<lparr>IdQuickID := IdQuickID base\<rparr>) (map PlSlot plan) = Inr (IdQuickID i, b)"
    using Collect_facts [OF assms] by metis
  let ?ss = "IdSamples i" and ?bs = "IdLogicalBlockSize base"
  have l8: "length ?ss \<le> 8" using f(2) BuildSamplePlan_length(1) [OF f(1)] by (metis list_all2_lengthD)
  have sum: "length (filter Available ?ss) + length (filter (Not \<circ> Available) ?ss) = length ?ss"
    by (rule filter_partition_length)
  have small: "unat (of_nat k :: u16) = k" if "k \<le> 8" for k using that by (simp add: unat_of_nat)
  have st: "unat (AttemptedSamples stats) = length ?ss" "unat (AvailableSamples stats) = length (filter Available ?ss)"
      "unat (UnavailableSamples stats) = length (filter (Not \<circ> Available) ?ss)"
    using f(3) l8 sum small by (simp_all add: accounts_def FingerprintCollection_zero_def)
  have "length (filter Available ?ss) \<le> 8" using l8 sum by linarith
  then have "length (filter Available ?ss) * unat ?bs \<le> 8 * unat ?bs" by (rule mult_le_mono1)
  also have "\<dots> < 2 ^ 64" using unat_u32_less [of ?bs] by (simp del: unat_u32_less)
  finally have lt: "length (filter Available ?ss) * unat ?bs < 2 ^ 64" .
  then have "unat (BytesRead stats) = length (filter Available ?ss) * unat ?bs"
    using f(3) by (simp add: accounts_def FingerprintCollection_zero_def unat_word_ariths unat_of_nat mod_mult_left_eq)
  moreover have "IdQuickID i \<noteq> [] \<longleftrightarrow> (\<forall>s\<in>set ?ss. Available s)"
  proof -
    have d: "distinct (map FpSlot ?ss)" using valid_distinct [OF f(4)] .
    have "IdQuickID i \<noteq> [] \<longleftrightarrow> (\<forall>slot\<in>FpSlot ` set ?ss. readable i slot \<noteq> None)"
      using quick_id_iff [OF f(5)] collected_slots [OF f(2)]
      by (simp add: readable_def flip: set_map)
    moreover have "readable i (FpSlot s) \<noteq> None \<longleftrightarrow> Available s" if "s \<in> set ?ss" for s
      using that indexed_Some [OF d, of "FpSlot s" s] by (simp add: readable_def)
    ultimately show ?thesis by simp
  qed
  moreover have "\<exists>data. reader (FpLBA s) ?bs = Inr data \<and> FpSHA256 s = sha256 data"
    if "s \<in> set ?ss" "Available s" for s
    using f(2) that by (auto simp: list_all2_conv_all_nth in_set_conv_nth collected_def)
  ultimately show ?thesis using st sum l8 by simp
qed

text \<open>
  The bytes that are hashed for the layout determine it, among layouts with as many tracks and
  hints shorter than 64 KiB: equal bytes mean the same geometry, the same tracks and the same
  volume hints up to their order.
\<close>

theorem layout_bytes_determine_layout:
  assumes "layout_bytes i = layout_bytes j" "length (IdTracks i) = length (IdTracks j)"
    and "\<forall>h\<in>set (IdVolumeHints i) \<union> set (IdVolumeHints j). length (HintValue h) < 65536"
  shows "CompatibleGeometry i j \<and> IdTracks i = IdTracks j \<and> mset (IdVolumeHints i) = mset (IdVolumeHints j)"
proof -
  have e: "CompatibleGeometry i j" "concat (map track_bytes (IdTracks i)) @ concat (map hint_bytes (sorted_hints (IdVolumeHints i)))
      = concat (map track_bytes (IdTracks j)) @ concat (map hint_bytes (sorted_hints (IdVolumeHints j)))"
    using assms(1) by (simp_all add: layout_bytes_def le_put_eq_iff CompatibleGeometry_def)
  have t: "IdTracks i = IdTracks j"
      "concat (map hint_bytes (sorted_hints (IdVolumeHints i))) = concat (map hint_bytes (sorted_hints (IdVolumeHints j)))"
    using concat_fixed_inj [OF e(2) assms(2) track_bytes_length] track_bytes_inj by (auto intro: injI)
  have m: "mset (sorted_hints hs) = mset hs" for hs by (simp add: sorted_hints_def)
  have "sorted_hints (IdVolumeHints i) = sorted_hints (IdVolumeHints j)"
    by (rule hints_bytes_inj [OF t(2)]) (use assms(3) m in \<open>auto dest: mset_eq_setD\<close>)
  with e(1) t(1) m show ?thesis by metis
qed

text \<open>
  The number of tracks is not among the hashed bytes: a disc with one track and a disc without
  tracks but with a suitable volume hint have the same geometry and the same layout hash.
\<close>

definition one_track :: ContentIdentity where
  "one_track = \<lparr>IdVersion = 1, IdProfile = 8, IdLogicalBlockSize = 2048, IdSectorCount = 100, IdSessions = 1,
     IdTracks = [\<lparr>TrackNumber = 1, TrStartLBA = 26, TrEndLBA = 99, TrMode = 1, ControlFlags = 4, LeadOutLBA = 100\<rparr>],
     IdLayoutSHA256 = [], IdVolumeHints = [], IdSamples = [], IdQuickID = [], IdFullContentSHA256 = []\<rparr>"

definition one_hint :: ContentIdentity where
  "one_hint = one_track\<lparr>IdTracks := [],
     IdVolumeHints := [\<lparr>HintType = 1, HintValue = drop 4 (track_bytes (hd (IdTracks one_track)))\<rparr>]\<rparr>"

theorem layout_hash_ignores_track_count:
  "\<exists>hash. BuildLayoutHash one_track = Inr hash \<and> BuildLayoutHash one_hint = Inr hash \<and>
     CompatibleGeometry one_track one_hint \<and> IdTracks one_track \<noteq> IdTracks one_hint"
proof -
  have "layout_bytes one_track = layout_bytes one_hint" by code_simp
  moreover have "Tracks_check (IdTracks one_track) = None" "Tracks_check (IdTracks one_hint) = None"
    "Hints_Validate m (IdVolumeHints one_track) = None" "Hints_Validate m (IdVolumeHints one_hint) = None" for m
    by (code_simp, code_simp, simp_all add: one_track_def one_hint_def VolumeHint_Validate_def track_bytes_def numeral_eq_Suc)
  moreover have "CompatibleGeometry one_track one_hint" "IdTracks one_track \<noteq> IdTracks one_hint"
    "IdVersion one_track = 1" "IdLogicalBlockSize one_track = 2048" "IdSectorCount one_track = 100"
    "IdVersion one_hint = 1" "IdLogicalBlockSize one_hint = 2048" "IdSectorCount one_hint = 100"
    by (simp_all add: one_track_def one_hint_def CompatibleGeometry_def)
  ultimately show ?thesis by (simp add: BuildLayoutHash_def)
qed

section \<open>Witnesses\<close>

text \<open>A medium of 100 sectors of 2048 bytes, sampled by a drive that cannot read sector 0.\<close>

definition sample_base :: ContentIdentity where
  "sample_base = one_track\<lparr>IdLayoutSHA256 := [1]\<rparr>"

definition sample_reader :: "int64 set \<Rightarrow> SectorReader" where
  "sample_reader bad lba blockSize =
     (if lba \<in> bad then Inl ErrDeadlineExceeded else Inr (replicate 2048 (ucast lba)))"

definition sample_plan_100 :: "SampleSlot list" where
  "sample_plan_100 = map (\<lambda>(s, l). \<lparr>PlSlot = s, PlLBA = l\<rparr>)
     [(0, 0), (1, 12), (2, 24), (3, 37), (4, 49), (5, 61), (6, 74), (7, 99)]"

lemma sample_plan_eval: "BuildSamplePlan 100 = Inr sample_plan_100"
  by code_simp

definition sample_of :: "int64 set \<Rightarrow> SampleSlot \<Rightarrow> SectorFingerprint" where
  "sample_of bad p =
     (if PlLBA p \<in> bad
      then \<lparr>FpSlot = PlSlot p, FpLBA = PlLBA p, Available = False, FpSHA256 = zero_hash, FpError = SampleErrorTimeout\<rparr>
      else \<lparr>FpSlot = PlSlot p, FpLBA = PlLBA p, Available = True,
             FpSHA256 = sha256 (replicate 2048 (ucast (PlLBA p))), FpError = SampleErrorNone\<rparr>)"

lemma sample_loop:
  "\<exists>st'. Collect_loop (\<lambda>_. 0) 1 2048 (sample_reader bad) k st plan = (map (sample_of bad) plan, st')"
proof (induction plan arbitrary: k st)
  case (Cons p plan)
  have "\<exists>st2. Collect_sample 2048 (sample_reader bad (PlLBA p) 2048)
      \<lparr>FpSlot = PlSlot p, FpLBA = PlLBA p, Available = False, FpSHA256 = zero_hash, FpError = 0\<rparr> st1 =
      (sample_of bad p, st2)" for st1
    by (simp add: Collect_sample_def sample_reader_def sample_of_def)
  then obtain st2 where "Collect_sample 2048 (sample_reader bad (PlLBA p) 2048)
      \<lparr>FpSlot = PlSlot p, FpLBA = PlLBA p, Available = False, FpSHA256 = zero_hash, FpError = 0\<rparr>
      (st\<lparr>AttemptedSamples := AttemptedSamples st + 1\<rparr>) = (sample_of bad p, st2)" by blast
  moreover obtain st3 where "Collect_loop (\<lambda>_. 0) 1 2048 (sample_reader bad) (Suc (Suc k)) st2 plan =
      (map (sample_of bad) plan, st3)" using Cons by blast
  ultimately show ?case by simp
qed simp

lemma sample_of_valid: "SectorFingerprint_Validate (sample_of bad p) = None"
  by (simp add: sample_of_def SectorFingerprint_Validate_def)

lemma sample_of_slot [simp]: "FpSlot (sample_of bad p) = PlSlot p"
  by (simp add: sample_of_def)

lemma sample_samples_valid: "Samples_Validate {} (map (sample_of bad) sample_plan_100) = None"
  by (simp add: Samples_Validate_None sample_of_valid sample_plan_100_def comp_def)

lemma sample_valid_layout:
  "h \<noteq> [] \<Longrightarrow> ContentIdentity_Validate (sample_base\<lparr>IdLayoutSHA256 := h,
     IdSamples := map (sample_of bad) sample_plan_100, IdQuickID := q\<rparr>) = None"
  using sample_samples_valid
  by (simp add: ContentIdentity_Validate_None sample_base_def one_track_def TrackLayout_Validate_def)

lemma sample_valid:
  "ContentIdentity_Validate (sample_base\<lparr>IdSamples := map (sample_of bad) sample_plan_100, IdQuickID := q\<rparr>) = None"
  using sample_valid_layout [where h = "[1]" and bad = bad and q = q] by (simp add: sample_base_def)

lemma sample_collect_layout:
  assumes "h \<noteq> []"
  shows "\<exists>i st. Collect \<lparr>FcTotalBudget = 1, FcReadDeadline = 1\<rparr> (\<lambda>_. 0) (sample_base\<lparr>IdLayoutSHA256 := h\<rparr>)
       (Some (sample_reader bad)) = Inr (i, st) \<and>
     IdSamples i = map (sample_of bad) sample_plan_100"
proof -
  let ?base = "sample_base\<lparr>IdLayoutSHA256 := h\<rparr>"
  obtain st where l: "Collect_loop (\<lambda>_. 0) 1 2048 (sample_reader bad) 1 FingerprintCollection_zero sample_plan_100 =
      (map (sample_of bad) sample_plan_100, st)" using sample_loop by blast
  have f: "IdVersion ?base = 1" "IdSectorCount ?base = 100" "IdLayoutSHA256 ?base = h"
      "IdLogicalBlockSize ?base = 2048" "IdQuickID ?base = []"
    by (simp_all add: sample_base_def one_track_def)
  let ?b = "?base\<lparr>IdSamples := map (sample_of bad) sample_plan_100\<rparr>"
  have v: "ContentIdentity_Validate ?b = None"
    using sample_valid_layout [OF assms, where bad = bad and q = "[]"] f(5)
    by (simp add: sample_base_def one_track_def)
  obtain q b where q: "BuildQuickContentID ?b (map PlSlot sample_plan_100) = Inr (q, b)"
    using BuildQuickContentID_total [OF v, of "map PlSlot sample_plan_100"] by (auto simp: sample_plan_100_def)
  have n: "FingerprintCollector_normalized \<lparr>FcTotalBudget = 1, FcReadDeadline = 1\<rparr> = \<lparr>FcTotalBudget = 1, FcReadDeadline = 1\<rparr>"
    by (simp add: FingerprintCollector_normalized_def)
  have "Collect \<lparr>FcTotalBudget = 1, FcReadDeadline = 1\<rparr> (\<lambda>_. 0) ?base (Some (sample_reader bad)) =
      Inr (?b\<lparr>IdQuickID := q\<rparr>, st)"
    using l q sample_valid_layout [OF assms, where bad = bad and q = q] assms
    by (simp add: Collect_def n f sample_plan_eval Let_def)
  then show ?thesis by auto
qed

lemma sample_collect:
  "\<exists>i st. Collect \<lparr>FcTotalBudget = 1, FcReadDeadline = 1\<rparr> (\<lambda>_. 0) sample_base (Some (sample_reader bad)) = Inr (i, st) \<and>
     IdSamples i = map (sample_of bad) sample_plan_100"
  using sample_collect_layout [where h = "[1]" and bad = bad] by (simp add: sample_base_def)

lemma sample_reads: "reads_medium (\<lambda>lba. replicate 2048 (ucast lba)) (sample_reader bad) 2048"
  by (simp add: reads_medium_def sample_reader_def)

theorem comparison_refines_verdict_witness:
  "\<exists>r. CompareContentIdentity (sample_base\<lparr>IdSamples := map (sample_of {0}) sample_plan_100, IdQuickID := []\<rparr>)
      (sample_base\<lparr>IdSamples := map (sample_of {99}) sample_plan_100, IdQuickID := []\<rparr>) 3 = Inr r \<and>
     CrComparedSamples r \<le> 3"
  using comparison_refines_verdict [OF sample_valid [where bad = "{0}" and q = "[]"] sample_valid [where bad = "{99}" and q = "[]"], of 3]
  by auto

theorem recollected_disc_matches_witness:
  "\<exists>i j st1 st2 r. Collect \<lparr>FcTotalBudget = 1, FcReadDeadline = 1\<rparr> (\<lambda>_. 0) sample_base (Some (sample_reader {0})) = Inr (i, st1) \<and>
     Collect \<lparr>FcTotalBudget = 1, FcReadDeadline = 1\<rparr> (\<lambda>_. 0) sample_base (Some (sample_reader {99})) = Inr (j, st2) \<and>
     CompareContentIdentity i j 8 = Inr r \<and> CrMatch r \<notin> {MatchConflict, MatchNo}"
proof -
  obtain i st1 where i: "Collect \<lparr>FcTotalBudget = 1, FcReadDeadline = 1\<rparr> (\<lambda>_. 0) sample_base (Some (sample_reader {0})) = Inr (i, st1)"
    using sample_collect by blast
  obtain j st2 where j: "Collect \<lparr>FcTotalBudget = 1, FcReadDeadline = 1\<rparr> (\<lambda>_. 0) sample_base (Some (sample_reader {99})) = Inr (j, st2)"
    using sample_collect by blast
  have bs: "IdLogicalBlockSize sample_base = 2048" by (simp add: sample_base_def one_track_def)
  have b: "(8 :: u16) \<noteq> 0" by simp
  from recollected_disc_matches [OF i j sample_reads [folded bs] sample_reads [folded bs] b] i j
  show ?thesis by blast
qed

theorem sample_plan_sectors_witness:
  "\<exists>plan. BuildSamplePlan 100 = Inr plan \<and> length plan \<le> 8"
  using sample_plan_sectors [of 100] by auto

theorem collection_accounts_witness:
  "\<exists>i st. Collect \<lparr>FcTotalBudget = 1, FcReadDeadline = 1\<rparr> (\<lambda>_. 0) sample_base (Some (sample_reader {0})) = Inr (i, st) \<and>
     unat (AttemptedSamples st) = 8 \<and> IdQuickID i = []"
proof -
  obtain i st where i: "Collect \<lparr>FcTotalBudget = 1, FcReadDeadline = 1\<rparr> (\<lambda>_. 0) sample_base (Some (sample_reader {0})) = Inr (i, st)"
      "IdSamples i = map (sample_of {0}) sample_plan_100"
    using sample_collect by blast
  from collection_accounts [OF i(1)] i show ?thesis by (auto simp: sample_plan_100_def sample_of_def)
qed

definition two_hints :: "VolumeHint list \<Rightarrow> ContentIdentity" where
  "two_hints hs = one_track\<lparr>IdVolumeHints := hs\<rparr>"

definition hint_a :: VolumeHint where "hint_a = \<lparr>HintType = 2, HintValue = [65, 66]\<rparr>"
definition hint_b :: VolumeHint where "hint_b = \<lparr>HintType = 1, HintValue = [67]\<rparr>"

theorem layout_bytes_determine_layout_witness:
  "CompatibleGeometry (two_hints [hint_a, hint_b]) (two_hints [hint_b, hint_a]) \<and>
   IdVolumeHints (two_hints [hint_a, hint_b]) \<noteq> IdVolumeHints (two_hints [hint_b, hint_a])"
proof -
  have "layout_bytes (two_hints [hint_a, hint_b]) = layout_bytes (two_hints [hint_b, hint_a])" by code_simp
  from layout_bytes_determine_layout [OF this] show ?thesis
    by (simp add: two_hints_def one_track_def hint_a_def hint_b_def)
qed

end
