(* ===== verification/Catalog.thy ===== *)
theory Catalog
  imports Identity
begin

text \<open>
  The catalog of processed media as data (\<^verbatim>\<open>internal/catalog\<close>:
  \<^verbatim>\<open>provenance.go\<close>, \<^verbatim>\<open>entry.go\<close>, \<^verbatim>\<open>store.go\<close>,
  \<^verbatim>\<open>store_open.go\<close>, \<^verbatim>\<open>store_compact.go\<close>, \<^verbatim>\<open>privacy.go\<close>), the
  lookup of an identity in it (\<^verbatim>\<open>lookup.go\<close>) and the classification of the result
  (\<^verbatim>\<open>prior_processing.go\<close>, \<^verbatim>\<open>observation.go\<close>). A \<^verbatim>\<open>time.Time\<close>
  is its number of nanoseconds since 1970, an integer; its location is left out. The operations of
  \<^verbatim>\<open>Store\<close> return the new store; in Go they also write through the slice the old one
  shares with it, which no caller goes on to use.
\<close>

section \<open>Provenance\<close>

type_synonym RecordID = bytes

definition zero_id :: RecordID where
  "zero_id = replicate 16 0"

record DeviceIdentity =
  DevVendor :: gostring
  DevProduct :: gostring
  DevRevision :: gostring
  DevSerial :: gostring
  DevTransport :: gostring

definition DeviceIdentity_Validate :: "DeviceIdentity \<Rightarrow> error option" where
  "DeviceIdentity_Validate d =
     (if DevVendor d = [] \<and> DevProduct d = [] \<and> DevSerial d = [] \<and> DevTransport d = []
      then Some (Errorf ''validate device identity: at least one identifying field is required'') else None)"

record PhysicalCopyIdentity =
  AssetID :: gostring
  HubCodeNote :: gostring

definition PhysicalCopyIdentity_Validate :: "PhysicalCopyIdentity \<Rightarrow> error option" where
  "PhysicalCopyIdentity_Validate p =
     (if AssetID p = [] \<and> HubCodeNote p = []
      then Some (Errorf ''validate physical copy identity: asset id or hub code note is required'') else None)"

text \<open>The zero \<^verbatim>\<open>time.Time\<close> is the start of year 1.\<close>

definition zero_time :: int where
  "zero_time = - 62135596800000000000"

record CaptureIdentity =
  CapCaptureID :: gostring
  CapDevice :: DeviceIdentity
  CapStartedAt :: int
  CapUserLabel :: gostring
  CapPhysicalCopy :: "PhysicalCopyIdentity option"

definition CaptureIdentity_Validate :: "CaptureIdentity \<Rightarrow> error option" where
  "CaptureIdentity_Validate c =
     (if CapCaptureID c = [] then Some (Errorf ''validate capture identity: capture id is required'')
      else if CapStartedAt c = zero_time
      then Some (Errorf ''validate capture identity: started-at time is required'')
      else case DeviceIdentity_Validate (CapDevice c) of
        Some e \<Rightarrow> Some (Wrapf ''validate capture identity device'' e)
      | None \<Rightarrow>
        (case CapPhysicalCopy c of
           None \<Rightarrow> None
         | Some p \<Rightarrow>
           (case PhysicalCopyIdentity_Validate p of
              Some e \<Rightarrow> Some (Wrapf ''validate capture identity physical copy'' e)
            | None \<Rightarrow> None)))"

text \<open>
  \<^verbatim>\<open>MatchKey\<close> copies every field of an identity, so that two keys are deeply equal
  exactly when the identities are: a copy of an empty slice is nil whatever the slice was.
\<close>

definition MatchKey :: "ContentIdentity \<Rightarrow> ContentIdentity" where
  "MatchKey i = i"

record IdentityRecord =
  IrContent :: ContentIdentity
  IrCapture :: CaptureIdentity

definition IdentityRecord_Validate :: "IdentityRecord \<Rightarrow> error option" where
  "IdentityRecord_Validate r =
     (case ContentIdentity_Validate (IrContent r) of
        Some e \<Rightarrow> Some (Wrapf ''validate identity record content'' e)
      | None \<Rightarrow>
        (case CaptureIdentity_Validate (IrCapture r) of
           Some e \<Rightarrow> Some (Wrapf ''validate identity record capture'' e)
         | None \<Rightarrow> None))"

definition SameLogicalContent :: "IdentityRecord \<Rightarrow> IdentityRecord \<Rightarrow> bool" where
  "SameLogicalContent r q \<longleftrightarrow> MatchKey (IrContent r) = MatchKey (IrContent q)"

section \<open>Entries\<close>

datatype ProcessingState =
    ProcessingObserved | ProcessingInProgress | ProcessingStoppedResumable
  | ProcessingCompletedVerified | ProcessingCompleted | ProcessingCompletedWithGaps
  | ProcessingFailed | ProcessingMerged | ProcessingOther gostring

fun ProcessingState_string :: "ProcessingState \<Rightarrow> gostring" where
  "ProcessingState_string ProcessingObserved = str ''observed''"
| "ProcessingState_string ProcessingInProgress = str ''in_progress''"
| "ProcessingState_string ProcessingStoppedResumable = str ''stopped_resumable''"
| "ProcessingState_string ProcessingCompletedVerified = str ''completed_verified''"
| "ProcessingState_string ProcessingCompleted = str ''completed''"
| "ProcessingState_string ProcessingCompletedWithGaps = str ''completed_with_gaps''"
| "ProcessingState_string ProcessingFailed = str ''failed''"
| "ProcessingState_string ProcessingMerged = str ''merged''"
| "ProcessingState_string (ProcessingOther s) = s"

fun validProcessingState :: "ProcessingState \<Rightarrow> bool" where
  "validProcessingState (ProcessingOther _) = False"
| "validProcessingState _ = True"

record JobReference =
  JrJobID :: RecordID
  JrPath :: gostring
  JrFilesPresent :: bool

definition JobReference_Validate :: "JobReference \<Rightarrow> error option" where
  "JobReference_Validate r =
     (if JrJobID r = zero_id then Some (Errorf ''validate job reference: job id is required'')
      else if JrPath r = [] then Some (Errorf ''validate job reference: path is required'')
      else None)"

record Entry =
  EnRecordID :: RecordID
  EnIdentity :: ContentIdentity
  EnState :: ProcessingState
  EnStatus :: gostring
  EnFirstSeen :: int64
  EnLastSeen :: int64
  EnLastProcessedPresent :: bool
  EnLastProcessed :: int64
  EnCaptures :: "CaptureIdentity list"
  EnJobReferences :: "JobReference list"
  EnPreferredJobID :: RecordID
  EnHidden :: bool

text \<open>The first error a validation finds in a list, wrapped.\<close>

fun first_error :: "string \<Rightarrow> ('a \<Rightarrow> error option) \<Rightarrow> 'a list \<Rightarrow> error option" where
  "first_error msg v [] = None"
| "first_error msg v (x # xs) =
     (case v x of Some e \<Rightarrow> Some (Wrapf msg e) | None \<Rightarrow> first_error msg v xs)"

definition Entry_Validate :: "Entry \<Rightarrow> error option" where
  "Entry_Validate e =
     (if EnRecordID e = zero_id then Some (Errorf ''validate entry: record id is required'')
      else case ContentIdentity_Validate (EnIdentity e) of
        Some er \<Rightarrow> Some (Wrapf ''validate entry identity'' er)
      | None \<Rightarrow>
        if \<not> validProcessingState (EnState e)
        then Some (Errorf ''validate entry: unsupported processing state'')
        else if sint (EnLastSeen e) < sint (EnFirstSeen e)
        then Some (Errorf ''validate entry: last seen time is earlier than first seen time'')
        else if \<not> EnLastProcessedPresent e \<and> EnLastProcessed e \<noteq> 0
        then Some (Errorf ''validate entry: last processed timestamp must be zero when absent'')
        else (case first_error ''validate entry capture'' CaptureIdentity_Validate (EnCaptures e) of
          Some er \<Rightarrow> Some er
        | None \<Rightarrow> first_error ''validate entry job reference'' JobReference_Validate (EnJobReferences e)))"

record Bounds =
  MaxEntries :: int
  MaxCapturesPerEntry :: int
  MaxJobRefsPerEntry :: int

definition Bounds_Validate :: "Bounds \<Rightarrow> error option" where
  "Bounds_Validate b =
     (if MaxEntries b < 0 \<or> MaxCapturesPerEntry b < 0 \<or> MaxJobRefsPerEntry b < 0
      then Some (Errorf ''validate bounds: limits must be non-negative'') else None)"

section \<open>The store\<close>

record CatalogStore =
  CsLastSequence :: u64
  CsEntries :: "Entry list"
  CsMutationLockHeld :: bool

definition CatalogStore_zero :: CatalogStore where
  "CatalogStore_zero = \<lparr>CsLastSequence = 0, CsEntries = [], CsMutationLockHeld = False\<rparr>"

definition CatalogStore_Validate :: "CatalogStore \<Rightarrow> error option" where
  "CatalogStore_Validate s = first_error ''validate store entry'' Entry_Validate (CsEntries s)"

definition AcquireMutationLock :: "CatalogStore \<Rightarrow> CatalogStore result" where
  "AcquireMutationLock s =
     (if CsMutationLockHeld s then Inl (Errorf ''acquire mutation lock: lock is already held'')
      else Inr (s\<lparr>CsMutationLockHeld := True\<rparr>))"

definition ReleaseMutationLock :: "CatalogStore \<Rightarrow> CatalogStore" where
  "ReleaseMutationLock s = s\<lparr>CsMutationLockHeld := False\<rparr>"

datatype OpenMode = OpenReadOnly | OpenMutable

record OpenResult =
  OrMode :: OpenMode
  HistoryUpdatesAvailable :: bool

definition CatalogStore_Open :: "CatalogStore \<Rightarrow> bool \<Rightarrow> OpenResult result" where
  "CatalogStore_Open s preferMutable =
     (if preferMutable then
        (if CsMutationLockHeld s then Inl (Errorf ''open store: mutation lock is already held'')
         else Inr \<lparr>OrMode = OpenMutable, HistoryUpdatesAvailable = True\<rparr>)
      else Inr \<lparr>OrMode = OpenReadOnly, HistoryUpdatesAvailable = \<not> CsMutationLockHeld s\<rparr>)"

text \<open>The first entry with the record's identifier is replaced, or the entry is appended.\<close>

fun upsert :: "Entry \<Rightarrow> Entry list \<Rightarrow> Entry list" where
  "upsert e [] = [e]"
| "upsert e (x # xs) = (if EnRecordID x = EnRecordID e then e # xs else x # upsert e xs)"

definition UpsertEntry :: "CatalogStore \<Rightarrow> Entry \<Rightarrow> CatalogStore result" where
  "UpsertEntry s e =
     (case Entry_Validate e of
        Some er \<Rightarrow> Inl er
      | None \<Rightarrow> Inr (s\<lparr>CsEntries := upsert e (CsEntries s)\<rparr>))"

text \<open>The first entry with an identifier is changed; \<open>None\<close> when there is none.\<close>

fun update_first :: "RecordID \<Rightarrow> (Entry \<Rightarrow> Entry) \<Rightarrow> Entry list \<Rightarrow> Entry list option" where
  "update_first k f [] = None"
| "update_first k f (x # xs) =
     (if EnRecordID x = k then Some (f x # xs)
      else case update_first k f xs of None \<Rightarrow> None | Some ys \<Rightarrow> Some (x # ys))"

definition HideRecord :: "CatalogStore \<Rightarrow> RecordID \<Rightarrow> CatalogStore result" where
  "HideRecord s recordID =
     (case update_first recordID (\<lambda>e. e\<lparr>EnHidden := True\<rparr>) (CsEntries s) of
        None \<Rightarrow> Inl (Errorf ''hide record: record not found'')
      | Some es \<Rightarrow> Inr (s\<lparr>CsEntries := es\<rparr>))"

fun containsJobReference :: "JobReference list \<Rightarrow> RecordID \<Rightarrow> bool" where
  "containsJobReference [] jobID = False"
| "containsJobReference (r # rs) jobID = (if JrJobID r = jobID then True else containsJobReference rs jobID)"

definition forget_missing :: "Entry \<Rightarrow> Entry" where
  "forget_missing e =
     (let refs = filter JrFilesPresent (EnJobReferences e) in
      e\<lparr>EnJobReferences := refs,
        EnPreferredJobID := (if EnPreferredJobID e \<noteq> zero_id \<and> \<not> containsJobReference refs (EnPreferredJobID e)
                             then zero_id else EnPreferredJobID e)\<rparr>)"

definition ForgetMissingPathReferences :: "CatalogStore \<Rightarrow> RecordID \<Rightarrow> CatalogStore result" where
  "ForgetMissingPathReferences s recordID =
     (case update_first recordID forget_missing (CsEntries s) of
        None \<Rightarrow> Inl (Errorf ''forget missing path references: record not found'')
      | Some es \<Rightarrow> Inr (s\<lparr>CsEntries := es\<rparr>))"

text \<open>
  Compaction keeps the entries seen last. \<^verbatim>\<open>sort.Slice\<close> orders by descending last-seen
  time, then by record identifier; entries that agree in both come in either order in Go and in the
  order of the store here.
\<close>

definition keep_last :: "int \<Rightarrow> 'a list \<Rightarrow> 'a list" where
  "keep_last n xs = (if n > 0 \<and> int (length xs) > n then drop (length xs - nat n) xs else xs)"

definition compact_entry :: "Bounds \<Rightarrow> Entry \<Rightarrow> Entry" where
  "compact_entry b e =
     e\<lparr>EnCaptures := keep_last (MaxCapturesPerEntry b) (EnCaptures e),
       EnJobReferences := keep_last (MaxJobRefsPerEntry b) (EnJobReferences e)\<rparr>"

definition newest_first :: "Entry list \<Rightarrow> Entry list" where
  "newest_first es = sort_key (\<lambda>e. (- sint (EnLastSeen e), EnRecordID e)) es"

definition Compact :: "CatalogStore \<Rightarrow> Bounds \<Rightarrow> CatalogStore result" where
  "Compact s b =
     (case CatalogStore_Validate s of Some e \<Rightarrow> Inl e | None \<Rightarrow>
     (case Bounds_Validate b of Some e \<Rightarrow> Inl e | None \<Rightarrow>
      let es = newest_first (CsEntries s);
          kept = (if MaxEntries b > 0 \<and> int (length es) > MaxEntries b then take (nat (MaxEntries b)) es else es)
      in Inr (s\<lparr>CsEntries := map (compact_entry b) kept\<rparr>)))"

section \<open>Lookup\<close>

record LookupResult =
  LkMatch :: MatchStrength
  LkCandidates :: "Entry list"
  LkMatchingSamples :: u16
  LkConflictingSamples :: u16
  LkIdentityVersion :: u16
  LkBudgetExhausted :: bool

type_synonym LookupBudget = u16

definition LookupBudget_Validate :: "LookupBudget \<Rightarrow> error option" where
  "LookupBudget_Validate b =
     (if b = 0 then Some (Errorf ''validate lookup budget: max compared samples must be greater than zero'')
      else None)"

fun matchRank :: "MatchStrength \<Rightarrow> nat" where
  "matchRank MatchConflict = 4"
| "matchRank MatchStrong = 3"
| "matchRank MatchProbable = 2"
| "matchRank MatchIndeterminate = 1"
| "matchRank _ = 0"

definition selectStrongerResult :: "LookupResult \<Rightarrow> LookupResult \<Rightarrow> LookupResult" where
  "selectStrongerResult current candidate =
     (if matchRank (LkMatch candidate) > matchRank (LkMatch current) then candidate
      else if matchRank (LkMatch candidate) < matchRank (LkMatch current) then current
      else if LkMatch candidate \<in> {MatchConflict, MatchStrong, MatchProbable} \<and>
        LkMatchingSamples candidate + LkConflictingSamples candidate >
        LkMatchingSamples current + LkConflictingSamples current then candidate
      else if LkBudgetExhausted current then candidate\<lparr>LkBudgetExhausted := True\<rparr>
      else current)"

text \<open>What a lookup returns when the budget is used up.\<close>

definition lookup_exhausted :: "LookupResult \<Rightarrow> LookupResult" where
  "lookup_exhausted best =
     best\<lparr>LkBudgetExhausted := True,
          LkMatch := (if LkMatch best = MatchNo then MatchIndeterminate else LkMatch best)\<rparr>"

definition lookup_candidate :: "u16 \<Rightarrow> Entry \<Rightarrow> CompareResult \<Rightarrow> LookupResult" where
  "lookup_candidate version e c =
     \<lparr>LkMatch = CrMatch c, LkCandidates = [e], LkMatchingSamples = CrMatchingSamples c,
      LkConflictingSamples = CrConflictingSamples c, LkIdentityVersion = version,
      LkBudgetExhausted = CrBudgetExhausted c\<rparr>"

fun Lookup_loop ::
  "ContentIdentity \<Rightarrow> LookupBudget \<Rightarrow> LookupResult \<Rightarrow> bool \<Rightarrow> u16 \<Rightarrow> Entry list \<Rightarrow> LookupResult result" where
  "Lookup_loop identity b best compatibleFound n [] =
     Inr (if LkMatch best \<noteq> MatchNo then best
          else if compatibleFound then best\<lparr>LkMatch := MatchIndeterminate\<rparr>
          else best)"
| "Lookup_loop identity b best compatibleFound n (e # es) =
     (if EnHidden e then Lookup_loop identity b best compatibleFound n es
      else case ContentIdentity_Validate (EnIdentity e) of
        Some er \<Rightarrow> Inl (Wrapf ''lookup entry'' er)
      | None \<Rightarrow>
        if \<not> CompatibleGeometry (EnIdentity e) identity \<or> IdLayoutSHA256 (EnIdentity e) \<noteq> IdLayoutSHA256 identity
        then Lookup_loop identity b best compatibleFound n es
        else if n \<ge> b then Inr (lookup_exhausted best)
        else (case CompareContentIdentity (EnIdentity e) identity (b - n) of
          Inl er \<Rightarrow> Inl er
        | Inr comparison \<Rightarrow>
          let n1 = (if CrMatchingSamples comparison > 0 \<or> CrConflictingSamples comparison > 0
                    then n + (CrMatchingSamples comparison + CrConflictingSamples comparison) else n);
              best1 = selectStrongerResult best (lookup_candidate (IdVersion identity) e comparison);
              best2 = (if CrBudgetExhausted comparison then best1\<lparr>LkBudgetExhausted := True\<rparr> else best1)
          in if LkMatch best2 = MatchConflict then Inr best2
             else if n1 \<ge> b then Inr (lookup_exhausted best2)
             else Lookup_loop identity b best2 True n1 es))"

definition Lookup :: "Entry list \<Rightarrow> ContentIdentity \<Rightarrow> LookupBudget \<Rightarrow> LookupResult result" where
  "Lookup entries identity b =
     (case ContentIdentity_Validate identity of Some e \<Rightarrow> Inl e | None \<Rightarrow>
     (case LookupBudget_Validate b of Some e \<Rightarrow> Inl e | None \<Rightarrow>
      Lookup_loop identity b
        \<lparr>LkMatch = MatchNo, LkCandidates = [], LkMatchingSamples = 0, LkConflictingSamples = 0,
         LkIdentityVersion = IdVersion identity, LkBudgetExhausted = False\<rparr> False 0 entries))"

section \<open>Prior processing\<close>

datatype PriorProcessingState =
    PriorProcessingNone | PriorProcessingSeen | PriorProcessingProcessed | PriorProcessingArchived
  | PriorProcessingIncomplete | PriorProcessingUnavailable | PriorProcessingConflict
  | PriorProcessingPossibleMatch | PriorProcessingIndeterminate

record PriorProcessingCopy =
  PpState :: PriorProcessingState
  PpTitle :: gostring
  PpDetail :: gostring
  PpCandidates :: "Entry list"

text \<open>The files of the preferred job when the entry has it, of any job otherwise.\<close>

definition entryFilesPresent :: "Entry \<Rightarrow> bool" where
  "entryFilesPresent e =
     (if EnJobReferences e = [] then True
      else case (if EnPreferredJobID e \<noteq> zero_id
                 then find (\<lambda>r. JrJobID r = EnPreferredJobID e) (EnJobReferences e) else None) of
        Some r \<Rightarrow> JrFilesPresent r
      | None \<Rightarrow> list_ex JrFilesPresent (EnJobReferences e))"

definition prior_copy :: "PriorProcessingState \<Rightarrow> string \<Rightarrow> string \<Rightarrow> Entry list \<Rightarrow> PriorProcessingCopy" where
  "prior_copy st title detail cs = \<lparr>PpState = st, PpTitle = str title, PpDetail = str detail, PpCandidates = cs\<rparr>"

definition strongPriorProcessingCopy :: "Entry \<Rightarrow> PriorProcessingCopy" where
  "strongPriorProcessingCopy e =
     (if \<not> entryFilesPresent e
      then prior_copy PriorProcessingUnavailable ''Matching contents were processed before'' ''Previous files not found'' [e]
      else case EnState e of
        ProcessingObserved \<Rightarrow>
          prior_copy PriorProcessingSeen ''Matching contents were seen before'' ''Seen before; no recovery was started'' [e]
      | ProcessingInProgress \<Rightarrow>
          prior_copy PriorProcessingProcessed ''Recovery was started before'' ''Recovery may still be active'' [e]
      | ProcessingStoppedResumable \<Rightarrow>
          prior_copy PriorProcessingIncomplete ''Recovery was started before'' ''Recovery incomplete; progress can be resumed'' [e]
      | ProcessingCompletedVerified \<Rightarrow>
          prior_copy PriorProcessingArchived ''Matching contents were processed before'' ''Archived successfully'' [e]
      | ProcessingCompleted \<Rightarrow>
          prior_copy PriorProcessingArchived ''Matching contents were processed before'' ''Completed successfully'' [e]
      | ProcessingCompletedWithGaps \<Rightarrow>
          prior_copy PriorProcessingArchived ''Matching contents were processed before'' ''Archived with unreadable sectors'' [e]
      | ProcessingFailed \<Rightarrow>
          prior_copy PriorProcessingProcessed ''Recovery was started before'' ''Previous attempt failed'' [e]
      | ProcessingMerged \<Rightarrow>
          prior_copy PriorProcessingArchived ''Matching contents were processed before'' ''Archive produced from multiple captures'' [e]
      | ProcessingOther s \<Rightarrow>
          (prior_copy PriorProcessingProcessed ''Matching contents were processed before'' '''' [e])\<lparr>PpDetail := s\<rparr>)"

definition BuildPriorProcessingCopy :: "LookupResult \<Rightarrow> PriorProcessingCopy result" where
  "BuildPriorProcessingCopy r =
     (case first_error ''build prior-processing copy candidate'' Entry_Validate (LkCandidates r) of
        Some e \<Rightarrow> Inl e
      | None \<Rightarrow>
        (case LkMatch r of
           MatchNo \<Rightarrow> Inr (prior_copy PriorProcessingNone '''' ''History: no matching contents found on this computer'' [])
         | MatchIndeterminate \<Rightarrow>
             Inr (prior_copy PriorProcessingIndeterminate ''''
                    ''History: could not identify enough readable areas to check reliably'' [])
         | MatchProbable \<Rightarrow>
             Inr (prior_copy PriorProcessingPossibleMatch ''These contents may have been processed before''
                    ''The disc layout and readable samples match a previous job, but there was not enough readable data for a strong match.''
                    (LkCandidates r))
         | MatchConflict \<Rightarrow>
             Inr (prior_copy PriorProcessingConflict ''Matching contents conflict with a previous record''
                    ''Automatic resume and merge are blocked until the conflict is reviewed.'' (LkCandidates r))
         | MatchStrong \<Rightarrow>
             (case LkCandidates r of
                [] \<Rightarrow> Inl (Errorf ''build prior-processing copy: strong match requires a candidate'')
              | e # _ \<Rightarrow> Inr (strongPriorProcessingCopy e))
         | MatchOther m \<Rightarrow> Inl (Errorf ''build prior-processing copy: unsupported match'')))"

datatype PriorProcessingKind =
    PriorNone | PriorStrongResume | PriorStrongDone | PriorProbable | PriorIndeterminate | PriorConflict
  | PriorUnavailable

record PriorProcessingResult =
  PrKind :: PriorProcessingKind
  PrMatch :: MatchStrength
  PrCandidates :: "Entry list"
  AutoResumeAllowed :: bool
  PrDetail :: gostring

text \<open>
  \<^verbatim>\<open>os.Stat\<close> on a path: \<open>None\<close> for an error, otherwise whether the file is regular. The
  extension of a path is what follows the last dot of its last element
  (\<^verbatim>\<open>filepath.Ext\<close>).
\<close>

type_synonym Stat = "gostring \<Rightarrow> bool option"

fun Ext_loop :: "gostring \<Rightarrow> gostring \<Rightarrow> gostring" where
  "Ext_loop acc [] = []"
| "Ext_loop acc (c # cs) =
     (if c = 47 then [] else if c = 46 then c # acc else Ext_loop (c # acc) cs)"

definition filepath_Ext :: "gostring \<Rightarrow> gostring" where
  "filepath_Ext path = Ext_loop [] (rev path)"

definition replaceCatalogMapExtension :: "gostring \<Rightarrow> gostring" where
  "replaceCatalogMapExtension path =
     (let ext = filepath_Ext path in
      if ext = str ''.iso'' then take (length path - length ext) path @ str ''.drmap'' else path @ str ''.drmap'')"

definition refresh_reference :: "Stat \<Rightarrow> JobReference \<Rightarrow> JobReference" where
  "refresh_reference stat r =
     r\<lparr>JrFilesPresent := (stat (JrPath r) = Some True \<and> stat (replaceCatalogMapExtension (JrPath r)) \<noteq> None)\<rparr>"

definition refreshCandidateFiles :: "Stat \<Rightarrow> Entry \<Rightarrow> Entry" where
  "refreshCandidateFiles stat e = e\<lparr>EnJobReferences := map (refresh_reference stat) (EnJobReferences e)\<rparr>"

text \<open>What \<^verbatim>\<open>LookupPriorProcessing\<close> makes of the result of the lookup.\<close>

definition classify_prior :: "Stat \<Rightarrow> LookupResult \<Rightarrow> PriorProcessingResult result" where
  "classify_prior stat lookup0 =
     (let r = lookup0\<lparr>LkCandidates := map (refreshCandidateFiles stat) (LkCandidates lookup0)\<rparr> in
      case BuildPriorProcessingCopy r of
        Inl e \<Rightarrow> Inl e
      | Inr copyResult \<Rightarrow>
          Inr \<lparr>PrKind = (case LkMatch r of
                  MatchStrong \<Rightarrow>
                    (if PpState copyResult = PriorProcessingIncomplete then PriorStrongResume
                     else if PpState copyResult = PriorProcessingUnavailable then PriorUnavailable
                     else PriorStrongDone)
                | MatchProbable \<Rightarrow> PriorProbable
                | MatchIndeterminate \<Rightarrow> PriorIndeterminate
                | MatchConflict \<Rightarrow> PriorConflict
                | _ \<Rightarrow> PriorNone),
               PrMatch = LkMatch r, PrCandidates = LkCandidates r,
               AutoResumeAllowed = (LkMatch r = MatchStrong \<and> PpState copyResult = PriorProcessingIncomplete),
               PrDetail = PpDetail copyResult\<rparr>)"

end
