(* ===== verification/CatalogCodec.thy ===== *)
theory CatalogCodec
  imports Catalog
begin

text \<open>
  The encodings of the catalog (\<^verbatim>\<open>internal/catalog\<close>:
  \<^verbatim>\<open>store_codec_primitives.go\<close>, \<^verbatim>\<open>codec_primitives.go\<close>,
  \<^verbatim>\<open>identity_codec.go\<close>, \<^verbatim>\<open>capture_codec.go\<close>,
  \<^verbatim>\<open>job_reference_codec.go\<close>, \<^verbatim>\<open>entry_codec.go\<close>,
  \<^verbatim>\<open>snapshot.go\<close>, \<^verbatim>\<open>snapshot_codec.go\<close>, \<^verbatim>\<open>journal.go\<close>,
  \<^verbatim>\<open>journal_codec.go\<close>). An encoder is the list of its writes to the buffer, which ends at
  the first error. A decoder, a data slice with an offset in Go, is a function on the bytes behind
  the offset; \<open>need\<close> stands for the checks of the remaining length, behind which the reads are
  in range.
\<close>

section \<open>Writers and parsers\<close>

fun writes :: "bytes result list \<Rightarrow> bytes result" where
  "writes [] = Inr []"
| "writes (w # ws) =
     (case w of Inl e \<Rightarrow> Inl e
      | Inr b \<Rightarrow> (case writes ws of Inl e \<Rightarrow> Inl e | Inr bs \<Rightarrow> Inr (b @ bs)))"

type_synonym 'a parser = "bytes \<Rightarrow> ('a \<times> bytes) result"

definition preturn :: "'a \<Rightarrow> 'a parser" where
  "preturn x bs = Inr (x, bs)"

definition pbind :: "'a parser \<Rightarrow> ('a \<Rightarrow> 'b parser) \<Rightarrow> 'b parser" where
  "pbind p f bs = (case p bs of Inl e \<Rightarrow> Inl e | Inr (x, rest) \<Rightarrow> f x rest)"

text \<open>A check of the bytes that are left, the next \<open>k\<close> bytes, and an integer of \<open>k\<close> bytes.\<close>

definition pcheck :: "(bytes \<Rightarrow> bool) \<Rightarrow> string \<Rightarrow> unit parser" where
  "pcheck bad msg bs = (if bad bs then Inl (Errorf msg) else Inr ((), bs))"

definition need :: "nat \<Rightarrow> string \<Rightarrow> unit parser" where
  "need k msg = pcheck (\<lambda>bs. length bs < k) msg"

definition ptake :: "nat \<Rightarrow> bytes parser" where
  "ptake k bs = Inr (take k bs, drop k bs)"

definition pword :: "nat \<Rightarrow> 'a::len word parser" where
  "pword k bs = Inr (le_get (take k bs), drop k bs)"

fun prepeat :: "nat \<Rightarrow> 'a parser \<Rightarrow> 'a list parser" where
  "prepeat 0 p = preturn []"
| "prepeat (Suc n) p = pbind p (\<lambda>x. pbind (prepeat n p) (\<lambda>xs. preturn (x # xs)))"

text \<open>A value, the check that nothing follows it, and its validation.\<close>

definition pwhole :: "string \<Rightarrow> 'a parser \<Rightarrow> 'a parser" where
  "pwhole msg p = pbind p (\<lambda>x. pbind (pcheck (\<lambda>bs. bs \<noteq> []) msg) (\<lambda>_. preturn x))"

definition parse_valid :: "('a \<Rightarrow> error option) \<Rightarrow> 'a parser \<Rightarrow> bytes \<Rightarrow> 'a result" where
  "parse_valid v p bs =
     (case p bs of Inl e \<Rightarrow> Inl e
      | Inr (x, _) \<Rightarrow> (case v x of Some e \<Rightarrow> Inl e | None \<Rightarrow> Inr x))"

section \<open>Primitives\<close>

definition encodeString :: "gostring \<Rightarrow> bytes result" where
  "encodeString value =
     (if length value > 65535 then Inl (Errorf ''encode string: length exceeds uint16'')
      else Inr (le_put 2 (of_nat (length value) :: u16) @ value))"

definition decodeString :: "gostring parser" where
  "decodeString =
     pbind (need 2 ''decode string: truncated length'') (\<lambda>_.
     pbind (pword 2) (\<lambda>len. let n = unat (len :: u16) in
     pbind (need n ''decode string: truncated value'') (\<lambda>_. ptake n)))"

definition encodeBool :: "bool \<Rightarrow> bytes result" where
  "encodeBool b = Inr [if b then 1 else 0]"

definition decodeBool :: "bool parser" where
  "decodeBool =
     pbind (need 1 ''decode bool: truncated value'') (\<lambda>_.
     pbind (pword 1) (\<lambda>v.
       if (v :: u8) > 1 then (\<lambda>_. Inl (Errorf ''decode bool: invalid value'')) else preturn (v = 1)))"

fun processingStateCode :: "ProcessingState \<Rightarrow> u16" where
  "processingStateCode ProcessingObserved = 0"
| "processingStateCode ProcessingInProgress = 1"
| "processingStateCode ProcessingStoppedResumable = 2"
| "processingStateCode ProcessingCompletedVerified = 3"
| "processingStateCode ProcessingCompletedWithGaps = 4"
| "processingStateCode ProcessingFailed = 5"
| "processingStateCode ProcessingMerged = 6"
| "processingStateCode ProcessingCompleted = 7"
| "processingStateCode (ProcessingOther _) = 0xffff"

definition decodeProcessingState :: "u16 \<Rightarrow> ProcessingState result" where
  "decodeProcessingState code =
     (if code = 0 then Inr ProcessingObserved
      else if code = 1 then Inr ProcessingInProgress
      else if code = 2 then Inr ProcessingStoppedResumable
      else if code = 3 then Inr ProcessingCompletedVerified
      else if code = 4 then Inr ProcessingCompletedWithGaps
      else if code = 5 then Inr ProcessingFailed
      else if code = 6 then Inr ProcessingMerged
      else if code = 7 then Inr ProcessingCompleted
      else Inl (Errorf ''decode processing state: unsupported code''))"

text \<open>A \<^verbatim>\<open>uint16\<close> and a \<^verbatim>\<open>uint32\<close> of a Go length, which wrap.\<close>

abbreviation put_len16 :: "'a list \<Rightarrow> bytes" where
  "put_len16 xs \<equiv> le_put 2 (of_nat (length xs) :: u16)"

abbreviation put_len32 :: "'a list \<Rightarrow> bytes" where
  "put_len32 xs \<equiv> le_put 4 (of_nat (length xs) :: u32)"

abbreviation (input) maxCatalogPayloadBytes :: nat where "maxCatalogPayloadBytes \<equiv> 1048576"
abbreviation (input) maxCatalogEntries :: nat where "maxCatalogEntries \<equiv> 100000"
abbreviation (input) maxCatalogTracks :: nat where "maxCatalogTracks \<equiv> 256"
abbreviation (input) maxCatalogHints :: nat where "maxCatalogHints \<equiv> 64"
abbreviation (input) maxCatalogSamples :: nat where "maxCatalogSamples \<equiv> 64"
abbreviation (input) maxCatalogCapturesPerEntry :: nat where "maxCatalogCapturesPerEntry \<equiv> 1024"
abbreviation (input) maxCatalogJobsPerEntry :: nat where "maxCatalogJobsPerEntry \<equiv> 1024"

section \<open>Content identities\<close>

definition put_hint :: "VolumeHint \<Rightarrow> bytes result" where
  "put_hint h = writes [Inr (le_put 2 (HintType h)), encodeString (HintValue h)]"

definition put_sample :: "SectorFingerprint \<Rightarrow> bytes result" where
  "put_sample s = writes
     [Inr (le_put 2 (FpSlot s)), Inr (le_put 8 (FpLBA s)), encodeBool (Available s),
      Inr (FpSHA256 s), Inr (le_put 2 (FpError s))]"

definition marshalContentIdentity :: "ContentIdentity \<Rightarrow> bytes result" where
  "marshalContentIdentity i =
     (case ContentIdentity_Validate i of Some e \<Rightarrow> Inl e | None \<Rightarrow>
      writes
       ([Inr (le_put 2 (IdVersion i)), Inr (le_put 2 (IdProfile i)), Inr (le_put 4 (IdLogicalBlockSize i)),
         Inr (le_put 8 (IdSectorCount i)), Inr (le_put 2 (IdSessions i)), Inr (put_len16 (IdTracks i))] @
        map (\<lambda>t. Inr (track_bytes t)) (IdTracks i) @
        [encodeString (IdLayoutSHA256 i), Inr (put_len16 (IdVolumeHints i))] @
        map put_hint (IdVolumeHints i) @
        [Inr (put_len16 (IdSamples i))] @
        map put_sample (IdSamples i) @
        [encodeString (IdQuickID i), encodeString (IdFullContentSHA256 i)]))"

definition get_track :: "TrackLayout parser" where
  "get_track =
     pbind (need 30 ''unmarshal content identity: truncated track'') (\<lambda>_.
     pbind (pword 2) (\<lambda>number. pbind (pword 8) (\<lambda>start. pbind (pword 8) (\<lambda>stop.
     pbind (pword 2) (\<lambda>mode. pbind (pword 2) (\<lambda>flags. pbind (pword 8) (\<lambda>lead.
       preturn \<lparr>TrackNumber = number, TrStartLBA = start, TrEndLBA = stop, TrMode = mode,
                ControlFlags = flags, LeadOutLBA = lead\<rparr>)))))))"

definition get_hint :: "VolumeHint parser" where
  "get_hint =
     pbind (need 2 ''unmarshal content identity: truncated volume hint type'') (\<lambda>_.
     pbind (pword 2) (\<lambda>ty. pbind decodeString (\<lambda>v. preturn \<lparr>HintType = ty, HintValue = v\<rparr>)))"

definition get_sample :: "SectorFingerprint parser" where
  "get_sample =
     pbind (need 45 ''unmarshal content identity: truncated sample'') (\<lambda>_.
     pbind (pword 2) (\<lambda>slot. pbind (pword 8) (\<lambda>lba. pbind decodeBool (\<lambda>av.
     pbind (ptake 32) (\<lambda>hash. pbind (pword 2) (\<lambda>err.
       preturn \<lparr>FpSlot = slot, FpLBA = lba, Available = av, FpSHA256 = hash, FpError = err\<rparr>))))))"

text \<open>A count and that many values, after the check of the count against a limit and the bytes left.\<close>

definition get_counted :: "nat \<Rightarrow> nat \<Rightarrow> string \<Rightarrow> 'a parser \<Rightarrow> 'a list parser" where
  "get_counted limit width msg p =
     pbind (pword 2) (\<lambda>count. let n = unat (count :: u16) in
     pbind (pcheck (\<lambda>bs. n > limit \<or> n * width > length bs) msg) (\<lambda>_. prepeat n p))"

definition get_identity :: "ContentIdentity parser" where
  "get_identity =
     pbind (need 20 ''unmarshal content identity: buffer too small'') (\<lambda>_.
     pbind (pword 2) (\<lambda>version. pbind (pword 2) (\<lambda>profile. pbind (pword 4) (\<lambda>block.
     pbind (pword 8) (\<lambda>sectors. pbind (pword 2) (\<lambda>sessions.
     pbind (get_counted maxCatalogTracks 30 ''unmarshal content identity: track count exceeds bounds'' get_track) (\<lambda>tracks.
     pbind decodeString (\<lambda>layout.
     pbind (need 2 ''unmarshal content identity: truncated volume hint count'') (\<lambda>_.
     pbind (get_counted maxCatalogHints 2 ''unmarshal content identity: volume hint count exceeds bounds'' get_hint) (\<lambda>hints.
     pbind (need 2 ''unmarshal content identity: truncated sample count'') (\<lambda>_.
     pbind (get_counted maxCatalogSamples 45 ''unmarshal content identity: sample count exceeds bounds'' get_sample) (\<lambda>samples.
     pbind decodeString (\<lambda>quick. pbind decodeString (\<lambda>full.
       preturn \<lparr>IdVersion = version, IdProfile = profile, IdLogicalBlockSize = block,
         IdSectorCount = sectors, IdSessions = sessions, IdTracks = tracks, IdLayoutSHA256 = layout,
         IdVolumeHints = hints, IdSamples = samples, IdQuickID = quick, IdFullContentSHA256 = full\<rparr>))))))))))))))"

definition unmarshalContentIdentity :: "bytes \<Rightarrow> ContentIdentity result" where
  "unmarshalContentIdentity =
     parse_valid ContentIdentity_Validate (pwhole ''unmarshal content identity: trailing bytes'' get_identity)"

section \<open>Captures and job references\<close>

text \<open>\<^verbatim>\<open>UnixNano\<close> is an \<^verbatim>\<open>int64\<close>, and so is what \<^verbatim>\<open>unixNanoUTC\<close> takes.\<close>

definition UnixNano :: "int \<Rightarrow> int64" where
  "UnixNano t = word_of_int t"

definition unixNanoUTC :: "int64 \<Rightarrow> int" where
  "unixNanoUTC w = sint w"

definition marshalCaptureIdentity :: "CaptureIdentity \<Rightarrow> bytes result" where
  "marshalCaptureIdentity c =
     (case CaptureIdentity_Validate c of Some e \<Rightarrow> Inl e | None \<Rightarrow>
      writes
       ([encodeString (CapCaptureID c), encodeString (DevVendor (CapDevice c)),
         encodeString (DevProduct (CapDevice c)), encodeString (DevRevision (CapDevice c)),
         encodeString (DevSerial (CapDevice c)), encodeString (DevTransport (CapDevice c)),
         Inr (le_put 8 (UnixNano (CapStartedAt c))), encodeString (CapUserLabel c),
         encodeBool (CapPhysicalCopy c \<noteq> None)] @
        (case CapPhysicalCopy c of None \<Rightarrow> []
         | Some p \<Rightarrow> [encodeString (AssetID p), encodeString (HubCodeNote p)])))"

definition get_capture :: "CaptureIdentity parser" where
  "get_capture =
     pbind decodeString (\<lambda>capture. pbind decodeString (\<lambda>vendor. pbind decodeString (\<lambda>product.
     pbind decodeString (\<lambda>revision. pbind decodeString (\<lambda>serial. pbind decodeString (\<lambda>transport.
     pbind (need 8 ''unmarshal capture identity: truncated started-at'') (\<lambda>_.
     pbind (pword 8) (\<lambda>started. pbind decodeString (\<lambda>label. pbind decodeBool (\<lambda>hasPhysicalCopy.
     pbind (if hasPhysicalCopy
            then pbind decodeString (\<lambda>asset. pbind decodeString (\<lambda>hub.
                   preturn (Some \<lparr>AssetID = asset, HubCodeNote = hub\<rparr>)))
            else preturn None) (\<lambda>physical.
       preturn \<lparr>CapCaptureID = capture,
         CapDevice = \<lparr>DevVendor = vendor, DevProduct = product, DevRevision = revision,
                      DevSerial = serial, DevTransport = transport\<rparr>,
         CapStartedAt = unixNanoUTC started, CapUserLabel = label, CapPhysicalCopy = physical\<rparr>)))))))))))"

definition unmarshalCaptureIdentity :: "bytes \<Rightarrow> CaptureIdentity result" where
  "unmarshalCaptureIdentity =
     parse_valid CaptureIdentity_Validate (pwhole ''unmarshal capture identity: trailing bytes'' get_capture)"

definition marshalJobReference :: "JobReference \<Rightarrow> bytes result" where
  "marshalJobReference r =
     (case JobReference_Validate r of Some e \<Rightarrow> Inl e | None \<Rightarrow>
      writes [Inr (JrJobID r), encodeString (JrPath r), encodeBool (JrFilesPresent r)])"

definition get_job_reference :: "JobReference parser" where
  "get_job_reference =
     pbind (need 16 ''unmarshal job reference: buffer too small'') (\<lambda>_.
     pbind (ptake 16) (\<lambda>job. pbind decodeString (\<lambda>path. pbind decodeBool (\<lambda>files.
       preturn \<lparr>JrJobID = job, JrPath = path, JrFilesPresent = files\<rparr>))))"

definition unmarshalJobReference :: "bytes \<Rightarrow> JobReference result" where
  "unmarshalJobReference =
     parse_valid JobReference_Validate (pwhole ''unmarshal job reference: trailing bytes'' get_job_reference)"

section \<open>Entries\<close>

text \<open>A payload behind its length, as a write and as a parser with a decoder for the payload.\<close>

definition put_sized :: "bytes result \<Rightarrow> bytes result" where
  "put_sized w = (case w of Inl e \<Rightarrow> Inl e | Inr b \<Rightarrow> Inr (put_len32 b @ b))"

definition get_sized :: "(nat \<Rightarrow> bool) \<Rightarrow> string \<Rightarrow> string \<Rightarrow> (bytes \<Rightarrow> 'a result) \<Rightarrow> 'a parser" where
  "get_sized tooLong msgLength msgPayload dec =
     pbind (need 4 msgLength) (\<lambda>_.
     pbind (pword 4) (\<lambda>len. let n = unat (len :: u32) in
     pbind (pcheck (\<lambda>bs. tooLong n \<or> n > length bs) msgPayload) (\<lambda>_.
     pbind (ptake n) (\<lambda>payload bs.
       case dec payload of Inl e \<Rightarrow> Inl e | Inr x \<Rightarrow> Inr (x, bs)))))"

definition marshalEntry :: "Entry \<Rightarrow> bytes result" where
  "marshalEntry e =
     (case Entry_Validate e of Some er \<Rightarrow> Inl er | None \<Rightarrow>
      writes
       ([Inr (EnRecordID e), put_sized (marshalContentIdentity (EnIdentity e)),
         Inr (le_put 2 (processingStateCode (EnState e))), Inr (le_put 8 (EnFirstSeen e)),
         Inr (le_put 8 (EnLastSeen e)), encodeBool (EnLastProcessedPresent e),
         Inr (le_put 8 (EnLastProcessed e)),
         if length (EnCaptures e) > 65535 \<or> length (EnJobReferences e) > 65535
         then Inl (Errorf ''marshal entry: capture/job reference counts exceed uint16'') else Inr [],
         Inr (put_len16 (EnCaptures e))] @
        map (\<lambda>c. put_sized (marshalCaptureIdentity c)) (EnCaptures e) @
        [Inr (put_len16 (EnJobReferences e))] @
        map (\<lambda>r. put_sized (marshalJobReference r)) (EnJobReferences e) @
        [Inr (EnPreferredJobID e), encodeBool (EnHidden e)]))"

definition get_entry :: "Entry parser" where
  "get_entry =
     pbind (need 16 ''unmarshal entry: buffer too small'') (\<lambda>_.
     pbind (ptake 16) (\<lambda>recordID.
     pbind (get_sized (\<lambda>n. n > maxCatalogPayloadBytes) ''unmarshal entry: truncated identity length''
              ''unmarshal entry: truncated identity payload'' unmarshalContentIdentity) (\<lambda>identity.
     pbind (need 29 ''unmarshal entry: truncated fixed fields'') (\<lambda>_.
     pbind (pword 2) (\<lambda>code.
     pbind (\<lambda>bs. case decodeProcessingState code of Inl e \<Rightarrow> Inl e | Inr s \<Rightarrow> Inr (s, bs)) (\<lambda>state.
     pbind (pword 8) (\<lambda>firstSeen. pbind (pword 8) (\<lambda>lastSeen. pbind decodeBool (\<lambda>present.
     pbind (pword 8) (\<lambda>lastProcessed.
     pbind (get_counted maxCatalogCapturesPerEntry 4 ''unmarshal entry: capture count exceeds bounds''
              (get_sized (\<lambda>_. False) ''unmarshal entry: truncated capture length''
                 ''unmarshal entry: truncated capture payload'' unmarshalCaptureIdentity)) (\<lambda>captures.
     pbind (need 2 ''unmarshal entry: truncated job reference count'') (\<lambda>_.
     pbind (get_counted maxCatalogJobsPerEntry 4 ''unmarshal entry: job reference count exceeds bounds''
              (get_sized (\<lambda>_. False) ''unmarshal entry: truncated job reference length''
                 ''unmarshal entry: truncated job reference payload'' unmarshalJobReference)) (\<lambda>refs.
     pbind (need 17 ''unmarshal entry: truncated preferred job or hidden flag'') (\<lambda>_.
     pbind (ptake 16) (\<lambda>preferred. pbind decodeBool (\<lambda>hidden.
       preturn \<lparr>EnRecordID = recordID, EnIdentity = identity, EnState = state, EnStatus = [],
         EnFirstSeen = firstSeen, EnLastSeen = lastSeen, EnLastProcessedPresent = present,
         EnLastProcessed = lastProcessed, EnCaptures = captures, EnJobReferences = refs,
         EnPreferredJobID = preferred, EnHidden = hidden\<rparr>))))))))))))))))"

definition unmarshalEntry :: "bytes \<Rightarrow> Entry result" where
  "unmarshalEntry =
     parse_valid Entry_Validate (pwhole ''unmarshal entry: trailing bytes'' get_entry)"

definition marshalEntries :: "Entry list \<Rightarrow> bytes result" where
  "marshalEntries es = writes (map (\<lambda>e. put_sized (marshalEntry e)) es)"

text \<open>The loop of \<^verbatim>\<open>unmarshalEntries\<close>: every entry takes at least the four bytes of its length.\<close>

lemma get_sized_shorter:
  "get_sized tooLong m1 m2 dec bs = Inr (x, rest) \<Longrightarrow> length rest + 4 \<le> length bs"
  by (auto simp: get_sized_def pbind_def need_def pcheck_def pword_def ptake_def Let_def
      split: sum.splits if_splits)

function entries_loop :: "bytes \<Rightarrow> Entry list result" where
  "entries_loop data =
     (if data = [] then Inr []
      else case get_sized (\<lambda>_. False) ''unmarshal entries: truncated entry length''
                  ''unmarshal entries: truncated entry payload'' unmarshalEntry data of
        Inl e \<Rightarrow> Inl e
      | Inr (entry, rest) \<Rightarrow>
          (case entries_loop rest of Inl e \<Rightarrow> Inl e | Inr es \<Rightarrow> Inr (entry # es)))"
  by pat_completeness auto
termination by (relation "measure length") (auto dest: get_sized_shorter)

declare entries_loop.simps [simp del]

definition unmarshalEntries :: "bytes \<Rightarrow> nat \<Rightarrow> Entry list result" where
  "unmarshalEntries data expectedCount =
     (if expectedCount > maxCatalogEntries
      then Inl (Errorf ''unmarshal entries: entry count exceeds limit'')
      else if expectedCount * 4 > length data
      then Inl (Errorf ''unmarshal entries: entry count cannot fit payload'')
      else case entries_loop data of
        Inl e \<Rightarrow> Inl e
      | Inr es \<Rightarrow> if length es \<noteq> expectedCount
          then Inl (Errorf ''unmarshal entries: unexpected number of entries'') else Inr es)"

section \<open>Snapshots\<close>

definition snapshotMagic :: bytes where
  "snapshotMagic = str ''DSCS''"

abbreviation (input) catalogFormatVersion :: u16 where "catalogFormatVersion \<equiv> 1"

record CatalogSnapshot =
  SnLastSequence :: u64
  SnEntries :: "Entry list"

definition Snapshot_Validate :: "CatalogSnapshot \<Rightarrow> error option" where
  "Snapshot_Validate s = first_error ''validate snapshot entry'' Entry_Validate (SnEntries s)"

definition snapshot_prefix :: "CatalogSnapshot \<Rightarrow> bytes \<Rightarrow> bytes" where
  "snapshot_prefix s payload =
     snapshotMagic @ le_put 2 catalogFormatVersion @ put_len32 payload @ le_put 8 (SnLastSequence s) @
     put_len32 (SnEntries s) @ payload"

definition MarshalSnapshot :: "CatalogSnapshot \<Rightarrow> bytes result" where
  "MarshalSnapshot s =
     (case Snapshot_Validate s of Some e \<Rightarrow> Inl e | None \<Rightarrow>
     (case marshalEntries (SnEntries s) of Inl e \<Rightarrow> Inl e | Inr payload \<Rightarrow>
      let prefix = snapshot_prefix s payload in Inr (prefix @ le_put 4 (crc32c prefix))))"

definition UnmarshalSnapshot :: "bytes \<Rightarrow> CatalogSnapshot result" where
  "UnmarshalSnapshot encoded =
     (if length encoded < 26 then Inl (Errorf ''unmarshal snapshot: buffer too small'')
      else if slice 0 4 encoded \<noteq> snapshotMagic then Inl (Errorf ''unmarshal snapshot: unexpected magic'')
      else if (le_get (slice 4 6 encoded) :: u16) \<noteq> catalogFormatVersion
      then Inl (Errorf ''unmarshal snapshot: unsupported version'')
      else let payloadLength = unat (le_get (slice 6 10 encoded) :: u32) in
      if length encoded \<noteq> 26 + payloadLength
      then Inl (Errorf ''unmarshal snapshot: length does not match expected'')
      else if (le_get (drop (length encoded - 4) encoded) :: u32) \<noteq> crc32c (take (length encoded - 4) encoded)
      then Inl (Errorf ''unmarshal snapshot: crc32c mismatch'')
      else let entryCount = unat (le_get (slice 18 22 encoded) :: u32) in
      if entryCount > maxCatalogEntries
      then Inl (Errorf ''unmarshal snapshot: entry count exceeds limit'')
      else if entryCount * 4 > payloadLength
      then Inl (Errorf ''unmarshal snapshot: entry count cannot fit payload'')
      else case unmarshalEntries (slice 22 (22 + payloadLength) encoded) entryCount of
        Inl e \<Rightarrow> Inl e
      | Inr es \<Rightarrow>
        (let snapshot = \<lparr>SnLastSequence = le_get (slice 10 18 encoded), SnEntries = es\<rparr> in
         case Snapshot_Validate snapshot of Some e \<Rightarrow> Inl e | None \<Rightarrow> Inr snapshot))"

section \<open>Journal records\<close>

definition catalogJournalMagic :: bytes where
  "catalogJournalMagic = str ''DSCJ''"

type_synonym EventType = u16

abbreviation (input) EventMediaObserved :: EventType where "EventMediaObserved \<equiv> 1"
abbreviation (input) EventJobStateChanged :: EventType where "EventJobStateChanged \<equiv> 4"
abbreviation (input) EventSnapshotCommitted :: EventType where "EventSnapshotCommitted \<equiv> 9"

record CatalogEvent =
  EvType :: EventType
  EvEntry :: Entry

definition CatalogEvent_Validate :: "CatalogEvent \<Rightarrow> error option" where
  "CatalogEvent_Validate ev =
     (if EvType ev < EventMediaObserved \<or> EvType ev > EventSnapshotCommitted
      then Some (Errorf ''validate catalog event: unsupported type'')
      else case Entry_Validate (EvEntry ev) of
        Some e \<Rightarrow> Some (Wrapf ''validate catalog event entry'' e) | None \<Rightarrow> None)"

record CatalogRecord =
  CrType :: EventType
  CrSequence :: u64
  CrPayload :: bytes

definition CatalogRecord_Validate :: "CatalogRecord \<Rightarrow> error option" where
  "CatalogRecord_Validate r =
     (if CrSequence r = 0 then Some (Errorf ''validate journal record: sequence must be non-zero'')
      else if length (CrPayload r) > maxCatalogPayloadBytes
      then Some (Errorf ''validate journal record: payload exceeds limit'')
      else if CrType r < EventMediaObserved \<or> CrType r > EventSnapshotCommitted
      then Some (Errorf ''validate journal record: unsupported type'')
      else None)"

definition record_prefix :: "CatalogRecord \<Rightarrow> bytes" where
  "record_prefix r =
     catalogJournalMagic @ le_put 2 catalogFormatVersion @ le_put 2 (CrType r) @ le_put 8 (CrSequence r) @
     put_len32 (CrPayload r) @ CrPayload r"

definition MarshalCatalogRecord :: "CatalogRecord \<Rightarrow> bytes result" where
  "MarshalCatalogRecord r =
     (case CatalogRecord_Validate r of Some e \<Rightarrow> Inl e | None \<Rightarrow>
      Inr (record_prefix r @ le_put 4 (crc32c (record_prefix r))))"

text \<open>
  The record at the front of a buffer with its length. The sentinel
  \<^verbatim>\<open>ErrTruncatedCatalogRecord\<close> is \<open>ErrTruncatedRecord\<close> here.
\<close>

definition UnmarshalCatalogRecord :: "bytes \<Rightarrow> (CatalogRecord \<times> nat) result" where
  "UnmarshalCatalogRecord encoded =
     (if length encoded < 24 then Inl (Errorf ''unmarshal journal record: truncated header'')
      else if slice 0 4 encoded \<noteq> catalogJournalMagic
      then Inl (Errorf ''unmarshal journal record: unexpected magic'')
      else if (le_get (slice 4 6 encoded) :: u16) \<noteq> catalogFormatVersion
      then Inl (Errorf ''unmarshal journal record: unsupported version'')
      else let payloadLength = unat (le_get (slice 16 20 encoded) :: u32);
               totalLength = 24 + payloadLength in
      if length encoded < totalLength then Inl ErrTruncatedRecord
      else if payloadLength > maxCatalogPayloadBytes
      then Inl (Errorf ''unmarshal journal record: payload exceeds limit'')
      else if (le_get (slice (totalLength - 4) totalLength encoded) :: u32) \<noteq> crc32c (take (totalLength - 4) encoded)
      then Inl (Errorf ''unmarshal journal record: crc32c mismatch'')
      else let r = \<lparr>CrType = le_get (slice 6 8 encoded), CrSequence = le_get (slice 8 16 encoded),
                    CrPayload = slice 20 (20 + payloadLength) encoded\<rparr> in
        case CatalogRecord_Validate r of Some e \<Rightarrow> Inl e | None \<Rightarrow> Inr (r, totalLength))"

definition EncodeCatalogEvent :: "CatalogEvent \<Rightarrow> u64 \<Rightarrow> CatalogRecord result" where
  "EncodeCatalogEvent ev sequence =
     (case CatalogEvent_Validate ev of Some e \<Rightarrow> Inl e | None \<Rightarrow>
     (case marshalEntry (EvEntry ev) of Inl e \<Rightarrow> Inl e | Inr payload \<Rightarrow>
      Inr \<lparr>CrType = EvType ev, CrSequence = sequence, CrPayload = payload\<rparr>))"

definition DecodeCatalogEvent :: "CatalogRecord \<Rightarrow> CatalogEvent result" where
  "DecodeCatalogEvent r =
     (case CatalogRecord_Validate r of Some e \<Rightarrow> Inl e | None \<Rightarrow>
     (case unmarshalEntry (CrPayload r) of Inl e \<Rightarrow> Inl e | Inr entry \<Rightarrow>
      Inr \<lparr>EvType = CrType r, EvEntry = entry\<rparr>))"

definition AppendCatalogJournal :: "bytes \<Rightarrow> CatalogRecord \<Rightarrow> bytes result" where
  "AppendCatalogJournal journal r =
     (case MarshalCatalogRecord r of Inl e \<Rightarrow> Inl e | Inr encoded \<Rightarrow> Inr (journal @ encoded))"

end
