(* ===== verification/CatalogRepo.thy ===== *)
theory CatalogRepo
  imports FileIO CatalogCodec
begin

text \<open>
  The durable catalog (\<^verbatim>\<open>internal/catalog\<close>: \<^verbatim>\<open>journal_apply.go\<close>,
  \<^verbatim>\<open>repository.go\<close>, \<^verbatim>\<open>repository_io.go\<close>,
  \<^verbatim>\<open>repository_load.go\<close>, \<^verbatim>\<open>repository_lock.go\<close>,
  \<^verbatim>\<open>repository_lookup.go\<close>, \<^verbatim>\<open>repository_mutation.go\<close>) and the
  service on it (\<^verbatim>\<open>service.go\<close>, \<^verbatim>\<open>write_status.go\<close>): a snapshot and an
  append-only journal that is replayed at start-up, a lock file for the one writer, and operations
  that append an event durably before they apply it in memory. The files and the outcomes of all
  calls are those of a scripted world; process identifiers, times and random identifiers are
  arguments.
\<close>

section \<open>Replay\<close>

definition ApplyEvent :: "CatalogStore \<Rightarrow> CatalogEvent \<Rightarrow> u64 \<Rightarrow> CatalogStore result" where
  "ApplyEvent store ev sequence =
     (case CatalogEvent_Validate ev of Some e \<Rightarrow> Inl e | None \<Rightarrow>
     (case UpsertEntry store (EvEntry ev) of Inl e \<Rightarrow> Inl e | Inr nxt \<Rightarrow>
      Inr (nxt\<lparr>CsLastSequence := sequence\<rparr>)))"

lemma UnmarshalCatalogRecord_length:
  "UnmarshalCatalogRecord bs = Inr (r, n) \<Longrightarrow> 24 \<le> n \<and> n \<le> length bs"
  by (auto simp: UnmarshalCatalogRecord_def Let_def split: if_splits option.splits)

function catalog_replay_loop :: "CatalogStore \<Rightarrow> u64 \<Rightarrow> bytes \<Rightarrow> CatalogStore result" where
  "catalog_replay_loop store expectedSequence journal =
     (if journal = [] then Inr store
      else case UnmarshalCatalogRecord journal of
        Inl e \<Rightarrow> if errors_Is e ErrTruncatedRecord then Inr store else Inl e
      | Inr (r, consumed) \<Rightarrow>
          if CrSequence r < expectedSequence
          then catalog_replay_loop store expectedSequence (drop consumed journal)
          else if CrSequence r \<noteq> expectedSequence
          then Inl (Errorf ''replay journal: non-monotonic sequence'')
          else (case DecodeCatalogEvent r of Inl e \<Rightarrow> Inl e | Inr ev \<Rightarrow>
               (case ApplyEvent store ev (CrSequence r) of Inl e \<Rightarrow> Inl e | Inr store1 \<Rightarrow>
                catalog_replay_loop store1 (expectedSequence + 1) (drop consumed journal))))"
  by pat_completeness auto
termination
  by (relation "measure (\<lambda>(_, _, journal). length journal)") (auto dest: UnmarshalCatalogRecord_length)

declare catalog_replay_loop.simps [simp del]

definition ReplayCatalogJournal :: "CatalogSnapshot \<Rightarrow> bytes \<Rightarrow> CatalogStore result" where
  "ReplayCatalogJournal snapshot journal =
     (case Snapshot_Validate snapshot of Some e \<Rightarrow> Inl e | None \<Rightarrow>
     (case catalog_replay_loop
             \<lparr>CsLastSequence = SnLastSequence snapshot, CsEntries = SnEntries snapshot, CsMutationLockHeld = False\<rparr>
             (SnLastSequence snapshot + 1) journal of
        Inl e \<Rightarrow> Inl e
      | Inr store \<Rightarrow> (case CatalogStore_Validate store of Some e \<Rightarrow> Inl e | None \<Rightarrow> Inr store)))"

definition BuildSnapshotRecord :: "CatalogStore \<Rightarrow> Bounds \<Rightarrow> CatalogSnapshot result" where
  "BuildSnapshotRecord store b =
     (case Compact store b of Inl e \<Rightarrow> Inl e
      | Inr compacted \<Rightarrow> Inr \<lparr>SnLastSequence = CsLastSequence compacted, SnEntries = CsEntries compacted\<rparr>)"

function TruncateJournalAfterSnapshot :: "bytes \<Rightarrow> CatalogSnapshot \<Rightarrow> bytes" where
  "TruncateJournalAfterSnapshot journal snapshot =
     (if journal = [] then []
      else case UnmarshalCatalogRecord journal of
        Inl e \<Rightarrow> if errors_Is e ErrTruncatedRecord then [] else journal
      | Inr (r, consumed) \<Rightarrow>
          if CrSequence r > SnLastSequence snapshot then journal
          else TruncateJournalAfterSnapshot (drop consumed journal) snapshot)"
  by pat_completeness auto
termination
  by (relation "measure (\<lambda>(journal, _). length journal)") (auto dest: UnmarshalCatalogRecord_length)

declare TruncateJournalAfterSnapshot.simps [simp del]

section \<open>The repository\<close>

text \<open>\<^verbatim>\<open>RpLockFile\<close> and \<^verbatim>\<open>RpJournalFile\<close> say whether the handle is non-nil.\<close>

record Repository =
  RpRoot :: string
  RpSnapshot :: string
  RpJournal :: string
  RpLockPath :: string
  RpLockFile :: bool
  RpJournalFile :: bool
  RpStore :: CatalogStore
  RpMutable :: bool
  RpClosed :: bool

text \<open>\<^verbatim>\<open>filepath.Join\<close> of a clean directory and a name.\<close>

definition path_join :: "string \<Rightarrow> string \<Rightarrow> string" where
  "path_join dir name = dir @ ''/'' @ name"

definition NewRepository :: "string \<Rightarrow> Repository result" where
  "NewRepository root =
     (if root = [] then Inl (Errorf ''new catalog repository: root is required'')
      else Inr \<lparr>RpRoot = root, RpSnapshot = path_join root ''catalog.snapshot'',
                RpJournal = path_join root ''catalog.journal'', RpLockPath = path_join root ''catalog.lock'',
                RpLockFile = False, RpJournalFile = False, RpStore = CatalogStore_zero,
                RpMutable = False, RpClosed = False\<rparr>)"

section \<open>Files\<close>

definition os_MkdirAll :: "World \<Rightarrow> error option \<times> World" where
  "os_MkdirAll w = (case next_io w of (a, w1) \<Rightarrow> (io_error a, w1))"

definition os_Stat_path :: "World \<Rightarrow> string \<Rightarrow> nat result \<times> World" where
  "os_Stat_path w p =
     (case next_io w of (a, w1) \<Rightarrow>
        (case io_error a of
           Some e \<Rightarrow> (Inl e, w1)
         | None \<Rightarrow> (case Files w1 p of None \<Rightarrow> (Inl ErrNotExist, w1) | Some bs \<Rightarrow> (Inr (length bs), w1))))"

definition os_ReadFile :: "World \<Rightarrow> string \<Rightarrow> bytes result \<times> World" where
  "os_ReadFile w p =
     (case next_io w of (a, w1) \<Rightarrow>
        (case io_error a of
           Some e \<Rightarrow> (Inl e, w1)
         | None \<Rightarrow> (case Files w1 p of None \<Rightarrow> (Inl ErrNotExist, w1) | Some bs \<Rightarrow> (Inr bs, w1))))"

text \<open>
  \<^verbatim>\<open>os.File.Write\<close> at the end of a file (the journal is opened with
  \<^verbatim>\<open>O_APPEND\<close>, the lock file is new); a short write is an error.
\<close>

definition os_Write_end :: "World \<Rightarrow> string \<Rightarrow> bytes \<Rightarrow> error option \<times> World" where
  "os_Write_end w p data =
     (case next_io w of (a, w1) \<Rightarrow>
        let n = transferred a (length data)
        in (case io_error a of Some e \<Rightarrow> Some e | None \<Rightarrow> if n < length data then Some ErrShortWrite else None,
            put_file w1 p (contents w1 p @ take n data)))"

text \<open>\<^verbatim>\<open>os.OpenFile\<close> with \<^verbatim>\<open>O_CREATE\<close>.\<close>

definition os_Open_create :: "World \<Rightarrow> string \<Rightarrow> error option \<times> World" where
  "os_Open_create w p =
     (case next_io w of (a, w1) \<Rightarrow>
        (case io_error a of
           Some e \<Rightarrow> (Some e, w1)
         | None \<Rightarrow> (None, if Files w1 p = None then put_file w1 p [] else w1)))"

abbreviation (input) maxCatalogFileBytes :: nat where "maxCatalogFileBytes \<equiv> 67108864"

abbreviation (input) ErrExist :: error where "ErrExist \<equiv> ErrIO ''file exists''"

definition ErrCatalogLockUnavailable :: error where
  "ErrCatalogLockUnavailable = Errorf ''catalog mutation lock unavailable''"

definition readBoundedFile :: "World \<Rightarrow> string \<Rightarrow> bytes result \<times> World" where
  "readBoundedFile w p =
     (case os_Stat_path w p of
        (Inl e, w1) \<Rightarrow> (Inl e, w1)
      | (Inr n, w1) \<Rightarrow>
          if n > maxCatalogFileBytes then (Inl (Errorf ''catalog file exceeds the limit''), w1)
          else os_ReadFile w1 p)"

definition acquireCatalogLock :: "World \<Rightarrow> bytes \<Rightarrow> string \<Rightarrow> error option \<times> World" where
  "acquireCatalogLock w lockText p =
     (case os_Create_excl w p of
        (Some e, w1) \<Rightarrow> (Some (if errors_Is e ErrExist then ErrCatalogLockUnavailable else e), w1)
      | (None, w1) \<Rightarrow>
        (case os_Write_end w1 p lockText of
           (Some e, w2) \<Rightarrow> (Some e, snd (os_Remove (snd (os_Close w2)) p))
         | (None, w2) \<Rightarrow>
           (case os_Sync w2 p of
              (Some e, w3) \<Rightarrow> (Some e, snd (os_Remove (snd (os_Close w3)) p))
            | (None, w3) \<Rightarrow> (None, w3))))"

definition releaseLock :: "World \<Rightarrow> Repository \<Rightarrow> (error option \<times> Repository) \<times> World" where
  "releaseLock w r =
     (if \<not> RpLockFile r then ((None, r), w)
      else case os_Close w of (closeErr, w1) \<Rightarrow>
       (case os_Remove w1 (RpLockPath r) of (removeErr, w2) \<Rightarrow>
        (((case removeErr of
             Some e \<Rightarrow> if errors_Is e ErrNotExist then closeErr else Some e
           | None \<Rightarrow> closeErr), r\<lparr>RpLockFile := False\<rparr>), w2)))"

section \<open>Opening and closing\<close>

definition load :: "World \<Rightarrow> Repository \<Rightarrow> (error option \<times> Repository) \<times> World" where
  "load w r =
     (let r0 = r\<lparr>RpStore := CatalogStore_zero\<rparr> in
      case readBoundedFile w (RpSnapshot r) of (snapData, w1) \<Rightarrow>
      (case (case snapData of
               Inr data \<Rightarrow> (case UnmarshalSnapshot data of
                   Inl e \<Rightarrow> Inl (Wrapf ''load catalog snapshot'' e) | Inr s \<Rightarrow> Inr s)
             | Inl e \<Rightarrow> if errors_Is e ErrNotExist then Inr \<lparr>SnLastSequence = 0, SnEntries = []\<rparr>
                        else Inl (Wrapf ''read catalog snapshot'' e)) of
         Inl e \<Rightarrow> ((Some e, r0), w1)
       | Inr snapshot \<Rightarrow>
         (case readBoundedFile w1 (RpJournal r) of (journalData, w2) \<Rightarrow>
          (case (case journalData of
                   Inr data \<Rightarrow> Inr data
                 | Inl e \<Rightarrow> if errors_Is e ErrNotExist then Inr [] else Inl (Wrapf ''read catalog journal'' e)) of
             Inl e \<Rightarrow> ((Some e, r0), w2)
           | Inr journal \<Rightarrow>
             (case ReplayCatalogJournal snapshot journal of
                Inl e \<Rightarrow> ((Some (Wrapf ''replay catalog journal'' e), r0), w2)
              | Inr store \<Rightarrow> ((None, r0\<lparr>RpStore := store\<rparr>), w2))))))"

text \<open>The mutation lock of \<^verbatim>\<open>Open\<close>: another writer's lock leaves the repository read-only.\<close>

definition open_lock :: "World \<Rightarrow> bytes \<Rightarrow> bool \<Rightarrow> Repository \<Rightarrow> (error option \<times> Repository) \<times> World" where
  "open_lock w lockText preferMutable r =
     (if \<not> preferMutable then ((None, r), w)
      else case acquireCatalogLock w lockText (RpLockPath r) of
        (None, w1) \<Rightarrow> ((None, r\<lparr>RpLockFile := True, RpMutable := True\<rparr>), w1)
      | (Some e, w1) \<Rightarrow>
          if errors_Is e ErrCatalogLockUnavailable then ((None, r), w1)
          else ((Some (Wrapf ''open catalog mutation lock'' e), r), w1))"

definition Repository_Open ::
  "World \<Rightarrow> error option \<Rightarrow> bytes \<Rightarrow> Repository \<Rightarrow> bool \<Rightarrow> (OpenResult result \<times> Repository) \<times> World" where
  "Repository_Open w ctxErr lockText r preferMutable =
     (if RpClosed r then ((Inl (Errorf ''open catalog repository: repository is closed''), r), w)
      else case ctxErr of Some e \<Rightarrow> ((Inl e, r), w) | None \<Rightarrow>
      (case os_MkdirAll w of
         (Some e, w1) \<Rightarrow> ((Inl (Wrapf ''open catalog repository directory'' e), r), w1)
       | (None, w1) \<Rightarrow>
      (case open_lock w1 lockText preferMutable r of
         ((Some e, r1), w2) \<Rightarrow> ((Inl e, r1), w2)
       | ((None, r1), w2) \<Rightarrow>
      (case load w2 r1 of
         ((Some e, r2), w3) \<Rightarrow> (case releaseLock w3 r2 of ((_, r3), w4) \<Rightarrow> ((Inl e, r3), w4))
       | ((None, r2), w3) \<Rightarrow>
         if RpMutable r2 then
           (case os_Open_create w3 (RpJournal r2) of
              (Some e, w4) \<Rightarrow>
                (case releaseLock w4 r2 of ((_, r3), w5) \<Rightarrow> ((Inl (Wrapf ''open catalog journal'' e), r3), w5))
            | (None, w4) \<Rightarrow>
                ((Inr \<lparr>OrMode = OpenMutable, HistoryUpdatesAvailable = True\<rparr>, r2\<lparr>RpJournalFile := True\<rparr>), w4))
         else ((Inr \<lparr>OrMode = OpenReadOnly, HistoryUpdatesAvailable = False\<rparr>, r2), w3)))))"

definition Repository_Close :: "World \<Rightarrow> Repository \<Rightarrow> (error option \<times> Repository) \<times> World" where
  "Repository_Close w r =
     (if RpClosed r then ((None, r), w)
      else let r0 = r\<lparr>RpClosed := True\<rparr> in
        case (if RpJournalFile r0 then (case os_Close w of (e, w1) \<Rightarrow> ((e, r0\<lparr>RpJournalFile := False\<rparr>), w1))
              else ((None, r0), w)) of
          ((firstErr, r1), w1) \<Rightarrow>
          (case releaseLock w1 r1 of ((e, r2), w2) \<Rightarrow>
             (((case firstErr of Some f \<Rightarrow> Some f | None \<Rightarrow> e), r2), w2)))"

section \<open>Events and lookups\<close>

definition AppendEvent ::
  "World \<Rightarrow> error option \<Rightarrow> Repository \<Rightarrow> CatalogEvent \<Rightarrow> (error option \<times> Repository) \<times> World" where
  "AppendEvent w ctxErr r ev =
     (case ctxErr of Some e \<Rightarrow> ((Some e, r), w) | None \<Rightarrow>
      if RpClosed r \<or> \<not> RpMutable r \<or> \<not> RpJournalFile r
      then ((Some (Errorf ''append catalog event: repository is not mutable''), r), w)
      else let sequence = CsLastSequence (RpStore r) + 1 in
      case EncodeCatalogEvent ev sequence of
        Inl e \<Rightarrow> ((Some (Wrapf ''append catalog event'' e), r), w)
      | Inr rec \<Rightarrow>
      (case MarshalCatalogRecord rec of
         Inl e \<Rightarrow> ((Some (Wrapf ''append catalog event: marshal'' e), r), w)
       | Inr encoded \<Rightarrow>
      (case os_Write_end w (RpJournal r) encoded of
         (Some e, w1) \<Rightarrow> ((Some (Wrapf ''append catalog journal'' e), r), w1)
       | (None, w1) \<Rightarrow>
      (case os_Sync w1 (RpJournal r) of
         (Some e, w2) \<Rightarrow> ((Some (Wrapf ''sync catalog journal'' e), r), w2)
       | (None, w2) \<Rightarrow>
         (case ApplyEvent (RpStore r) ev sequence of
            Inl e \<Rightarrow> ((Some (Wrapf ''apply catalog event after durable append'' e), r), w2)
          | Inr nxt \<Rightarrow> ((None, r\<lparr>RpStore := nxt\<rparr>), w2))))))"

definition Repository_Lookup ::
  "error option \<Rightarrow> Repository \<Rightarrow> ContentIdentity \<Rightarrow> LookupBudget \<Rightarrow> LookupResult result" where
  "Repository_Lookup ctxErr r identity b =
     (case ctxErr of Some e \<Rightarrow> Inl e | None \<Rightarrow>
      if RpClosed r then Inl (Errorf ''lookup catalog: repository is closed'')
      else Lookup (CsEntries (RpStore r)) identity b)"

definition LookupPriorProcessing ::
  "Stat \<Rightarrow> error option \<Rightarrow> Repository \<Rightarrow> IdentityObservation \<Rightarrow> LookupBudget \<Rightarrow> PriorProcessingResult result" where
  "LookupPriorProcessing stat ctxErr r observation b =
     (case Repository_Lookup ctxErr r (ObsIdentity observation) b of
        Inl e \<Rightarrow> Inl e
      | Inr result \<Rightarrow> classify_prior stat result)"

section \<open>The service\<close>

datatype CatalogWriteState =
    CatalogWriteNotAttempted | CatalogWriteRecorded | CatalogWriteUnavailable | CatalogWriteFailed

text \<open>\<open>CwDetail\<close> is the error whose text the status carries.\<close>

record CatalogWriteStatus =
  CwState :: CatalogWriteState
  CwDetail :: "error option"

definition failedCatalogWrite :: "error \<Rightarrow> CatalogWriteStatus" where
  "failedCatalogWrite e = \<lparr>CwState = CatalogWriteFailed, CwDetail = Some e\<rparr>"

definition unavailableCatalogWrite :: CatalogWriteStatus where
  "unavailableCatalogWrite =
     \<lparr>CwState = CatalogWriteUnavailable, CwDetail = Some (Errorf ''catalog is read-only or unavailable'')\<rparr>"

definition SummaryLine :: "CatalogWriteStatus \<Rightarrow> string" where
  "SummaryLine s =
     (case CwState s of
        CatalogWriteRecorded \<Rightarrow> ''Recorded in local processed-media catalog''
      | CatalogWriteUnavailable \<Rightarrow> ''Catalog unavailable; recovery files are still saved''
      | CatalogWriteFailed \<Rightarrow> ''Catalog update failed''
      | CatalogWriteNotAttempted \<Rightarrow> '''')"

record JobMetadata =
  JmJobID :: RecordID
  JmImagePath :: gostring
  JmCapture :: CaptureIdentity

text \<open>A fresh record identifier and the time in nanoseconds are arguments.\<close>

definition RecordObserved ::
  "World \<Rightarrow> error option \<Rightarrow> RecordID result \<Rightarrow> int64 \<Rightarrow> Repository \<Rightarrow> IdentityObservation \<Rightarrow> CaptureIdentity \<Rightarrow>
   ((RecordID \<times> CatalogWriteStatus) \<times> Repository) \<times> World" where
  "RecordObserved w ctxErr newID now r observation capture =
     (if \<not> RpMutable r then (((zero_id, unavailableCatalogWrite), r), w)
      else case ContentIdentity_Validate (ObsIdentity observation) of
        Some e \<Rightarrow> (((zero_id, failedCatalogWrite e), r), w) | None \<Rightarrow>
      (case CaptureIdentity_Validate capture of
        Some e \<Rightarrow> (((zero_id, failedCatalogWrite e), r), w) | None \<Rightarrow>
      (case newID of
        Inl e \<Rightarrow> (((zero_id, failedCatalogWrite (Wrapf ''generate catalog record id'' e)), r), w)
      | Inr recordID \<Rightarrow>
        (case AppendEvent w ctxErr r \<lparr>EvType = EventMediaObserved, EvEntry =
             \<lparr>EnRecordID = recordID, EnIdentity = ObsIdentity observation, EnState = ProcessingObserved,
              EnStatus = ProcessingState_string ProcessingObserved, EnFirstSeen = now, EnLastSeen = now,
              EnLastProcessedPresent = False, EnLastProcessed = 0, EnCaptures = [capture],
              EnJobReferences = [], EnPreferredJobID = zero_id, EnHidden = False\<rparr>\<rparr> of
           ((Some e, r1), w1) \<Rightarrow> (((zero_id, failedCatalogWrite e), r1), w1)
         | ((None, r1), w1) \<Rightarrow> (((recordID, \<lparr>CwState = CatalogWriteRecorded, CwDetail = None\<rparr>), r1), w1)))))"

text \<open>
  The first element with a key is overwritten in place, or nothing. In Go the slices of the found
  entry are the slices of the store's entry, so that an element that is overwritten changes in the
  repository at once; what is appended is only in the copy.
\<close>

fun overwrite_first :: "('a \<Rightarrow> bool) \<Rightarrow> 'a \<Rightarrow> 'a list \<Rightarrow> 'a list" where
  "overwrite_first p y [] = []"
| "overwrite_first p y (x # xs) = (if p x then y # xs else x # overwrite_first p y xs)"

definition overwrite_or_append :: "('a \<Rightarrow> bool) \<Rightarrow> 'a \<Rightarrow> 'a list \<Rightarrow> 'a list" where
  "overwrite_or_append p y xs = (if list_ex p xs then overwrite_first p y xs else xs @ [y])"

definition findEntry :: "CatalogStore \<Rightarrow> RecordID \<Rightarrow> Entry option" where
  "findEntry s recordID = find (\<lambda>e. EnRecordID e = recordID) (CsEntries s)"

definition recordJobState ::
  "World \<Rightarrow> error option \<Rightarrow> int64 \<Rightarrow> Repository \<Rightarrow> RecordID \<Rightarrow> JobMetadata \<Rightarrow> ProcessingState \<Rightarrow>
   (CatalogWriteStatus \<times> Repository) \<times> World" where
  "recordJobState w ctxErr now r recordID m state =
     (if \<not> RpMutable r then ((unavailableCatalogWrite, r), w)
      else if JmJobID m = zero_id \<or> JmImagePath m = [] \<or> \<not> validProcessingState state
      then ((failedCatalogWrite (Errorf ''invalid job metadata or processing state''), r), w)
      else case findEntry (RpStore r) recordID of
        None \<Rightarrow> ((failedCatalogWrite (Errorf ''catalog record not found''), r), w)
      | Some e \<Rightarrow>
        let ref = \<lparr>JrJobID = JmJobID m, JrPath = JmImagePath m, JrFilesPresent = False\<rparr>;
            sameJob = (\<lambda>j. JrJobID j = JmJobID m);
            sameCapture = (\<lambda>c. CapCaptureID c = CapCaptureID (JmCapture m));
            hasCapture = (CapCaptureID (JmCapture m) \<noteq> []);
            inPlace = (\<lambda>x. x\<lparr>EnJobReferences := overwrite_first sameJob ref (EnJobReferences x),
                             EnCaptures := (if hasCapture then overwrite_first sameCapture (JmCapture m) (EnCaptures x)
                                            else EnCaptures x)\<rparr>);
            entries = (case update_first recordID inPlace (CsEntries (RpStore r)) of
                         Some es \<Rightarrow> es | None \<Rightarrow> CsEntries (RpStore r));
            r0 = r\<lparr>RpStore := (RpStore r)\<lparr>CsEntries := entries\<rparr>\<rparr>;
            entry = e\<lparr>EnState := state, EnStatus := ProcessingState_string state, EnLastSeen := now,
                      EnJobReferences := overwrite_or_append sameJob ref (EnJobReferences e),
                      EnPreferredJobID := JmJobID m,
                      EnCaptures := (if hasCapture then overwrite_or_append sameCapture (JmCapture m) (EnCaptures e)
                                     else EnCaptures e)\<rparr>
        in (case AppendEvent w ctxErr r0 \<lparr>EvType = EventJobStateChanged, EvEntry = entry\<rparr> of
              ((Some er, r1), w1) \<Rightarrow> ((failedCatalogWrite er, r1), w1)
            | ((None, r1), w1) \<Rightarrow> ((\<lparr>CwState = CatalogWriteRecorded, CwDetail = None\<rparr>, r1), w1)))"

definition RecordJobStarted ::
  "World \<Rightarrow> error option \<Rightarrow> int64 \<Rightarrow> Repository \<Rightarrow> RecordID \<Rightarrow> JobMetadata \<Rightarrow> (CatalogWriteStatus \<times> Repository) \<times> World" where
  "RecordJobStarted w ctxErr now r recordID m = recordJobState w ctxErr now r recordID m ProcessingInProgress"

definition RecordJobState ::
  "World \<Rightarrow> error option \<Rightarrow> int64 \<Rightarrow> Repository \<Rightarrow> RecordID \<Rightarrow> JobMetadata \<Rightarrow> ProcessingState \<Rightarrow>
   (CatalogWriteStatus \<times> Repository) \<times> World" where
  "RecordJobState w ctxErr now r recordID m state = recordJobState w ctxErr now r recordID m state"

end
