(* ===== verification/CatalogCodecFacts.thy ===== *)
theory CatalogCodecFacts
  imports CatalogCodec IdentityFacts CodecFacts
begin

text \<open>
  Decoding inverts encoding for everything the catalog writes. \<open>parses p bs x\<close> says that the parser
  \<open>p\<close> reads \<open>x\<close> from the bytes \<open>bs\<close> whatever follows them; it is kept by sequencing and repetition,
  so that each codec's round trip follows from those of its parts. A status text is not encoded: an
  entry comes back without it (\<open>stored\<close>).
\<close>

section \<open>Parsers\<close>

definition parses :: "'a parser \<Rightarrow> bytes \<Rightarrow> 'a \<Rightarrow> bool" where
  "parses p bs x \<longleftrightarrow> (\<forall>rest. p (bs @ rest) = Inr (x, rest))"

lemma parsesD: "parses p bs x \<Longrightarrow> p (bs @ rest) = Inr (x, rest)"
  by (simp add: parses_def)

lemma parses_return: "parses (preturn x) [] x"
  by (simp add: parses_def preturn_def)

lemma parses_bind: "parses p bs x \<Longrightarrow> parses (f x) cs y \<Longrightarrow> parses (pbind p f) (bs @ cs) y"
  by (simp add: parses_def pbind_def)

lemma parses_bind_last: "parses p bs x \<Longrightarrow> parses (f x) [] y \<Longrightarrow> parses (pbind p f) bs y"
  using parses_bind [of p bs x f "[]" y] by simp

lemma parses_check: "(\<And>rest. \<not> bad (bs @ rest)) \<Longrightarrow> parses (f ()) bs y \<Longrightarrow> parses (pbind (pcheck bad msg) f) bs y"
  by (simp add: parses_def pbind_def pcheck_def)

lemma parses_need: "n \<le> length bs \<Longrightarrow> parses (f ()) bs y \<Longrightarrow> parses (pbind (need n msg) f) bs y"
  unfolding need_def by (rule parses_check) simp_all

lemma parses_take: "length bs = n \<Longrightarrow> parses (ptake n) bs bs"
  by (auto simp: parses_def ptake_def)

lemma parses_word: "8 * k = LENGTH('a::len) \<Longrightarrow> parses (pword k :: 'a word parser) (le_put k w) w"
  by (simp add: parses_def pword_def le_get_put)

lemma parses_word2: "parses (pword 2 :: u16 parser) (le_put 2 w) w" by (rule parses_word) simp
lemma parses_word4: "parses (pword 4 :: u32 parser) (le_put 4 w) w" by (rule parses_word) simp
lemma parses_word8: "parses (pword 8 :: u64 parser) (le_put 8 w) w" by (rule parses_word) simp

lemma parses_repeat:
  assumes "\<And>x. x \<in> set xs \<Longrightarrow> parses p (enc x) x"
  shows "parses (prepeat (length xs) p) (concat (map enc xs)) xs"
  using assms
proof (induction xs)
  case (Cons x xs)
  have "parses (prepeat (Suc (length xs)) p) (enc x @ concat (map enc xs) @ []) (x # xs)"
    unfolding prepeat.simps using Cons by (intro parses_bind [where x = x] parses_bind [where x = xs] parses_return) simp_all
  then show ?case by simp
qed (simp add: parses_return)

lemma parses_whole: "parses p bs x \<Longrightarrow> pwhole msg p bs = Inr (x, [])"
  using parsesD [of p bs x "[]"] by (simp add: pwhole_def pbind_def pcheck_def preturn_def)

lemma parse_valid_whole: "parses p bs x \<Longrightarrow> v x = None \<Longrightarrow> parse_valid v (pwhole msg p) bs = Inr x"
  by (simp add: parse_valid_def parses_whole)

section \<open>Writers\<close>

lemma writes_append:
  "writes (xs @ ys) = (case writes xs of Inl e \<Rightarrow> Inl e
     | Inr b \<Rightarrow> (case writes ys of Inl e \<Rightarrow> Inl e | Inr c \<Rightarrow> Inr (b @ c)))"
  by (induction xs) (auto split: sum.splits)

lemma writes_Cons_Inr: "writes (w # ws) = Inr bs \<longleftrightarrow> (\<exists>b cs. w = Inr b \<and> writes ws = Inr cs \<and> bs = b @ cs)"
  by (auto split: sum.splits)

lemma writes_append_Inr: "writes (xs @ ys) = Inr bs \<longleftrightarrow> (\<exists>b c. writes xs = Inr b \<and> writes ys = Inr c \<and> bs = b @ c)"
  by (auto simp: writes_append split: sum.splits)

definition written :: "bytes result \<Rightarrow> bytes" where
  "written w = (case w of Inl _ \<Rightarrow> [] | Inr b \<Rightarrow> b)"

lemma written_Inr [simp]: "written (Inr b) = b"
  by (simp add: written_def)

lemma writes_map_Inr:
  "writes (map f xs) = Inr bs \<longleftrightarrow> (\<forall>x\<in>set xs. \<exists>b. f x = Inr b) \<and> bs = concat (map (\<lambda>x. written (f x)) xs)"
  by (induction xs arbitrary: bs) (auto simp: writes_Cons_Inr simp del: writes.simps(2))

section \<open>Primitives\<close>

lemma parses_decodeString:
  assumes "encodeString s = Inr bs"
  shows "parses decodeString bs s"
proof -
  have l: "length s \<le> 65535" and bs: "bs = le_put 2 (of_nat (length s) :: u16) @ s"
    using assms by (auto simp: encodeString_def split: if_splits)
  have n: "unat (of_nat (length s) :: u16) = length s" using l by (simp add: unat_of_nat)
  show ?thesis
    unfolding decodeString_def bs
    by (rule parses_need, simp, rule parses_bind [OF parses_word2])
       (simp add: Let_def n parses_need parses_take)
qed

lemma parses_decodeBool: "encodeBool b = Inr bs \<Longrightarrow> parses decodeBool bs b"
  by (cases b) (auto simp: encodeBool_def decodeBool_def parses_def pbind_def need_def pcheck_def pword_def preturn_def)

lemma encodeBool_length: "encodeBool b = Inr bs \<Longrightarrow> length bs = 1"
  by (auto simp: encodeBool_def)

lemma decodeProcessingState_code:
  "validProcessingState s \<Longrightarrow> decodeProcessingState (processingStateCode s) = Inr s"
  by (cases s) (simp_all add: decodeProcessingState_def)

lemma length_concat_ge: "(\<And>x. x \<in> set xs \<Longrightarrow> n \<le> length (f x)) \<Longrightarrow> length xs * n \<le> length (concat (map f xs))"
  by (induction xs) (auto intro: add_mono)

lemma parses_counted:
  assumes "length xs \<le> limit" "limit \<le> 65535" "\<And>x. x \<in> set xs \<Longrightarrow> parses p (enc x) x"
    and "\<And>x. x \<in> set xs \<Longrightarrow> width \<le> length (enc x)"
  shows "parses (get_counted limit width msg p) (put_len16 xs @ concat (map enc xs)) xs"
proof -
  have n: "unat (of_nat (length xs) :: u16) = length xs" using assms(1,2) by (simp add: unat_of_nat)
  have w: "length xs * width \<le> length (concat (map enc xs))" using assms(4) by (rule length_concat_ge)
  show ?thesis
    unfolding get_counted_def
    by (rule parses_bind [OF parses_word2], unfold Let_def n, rule parses_check)
       (use w assms(1) in simp, rule parses_repeat [OF assms(3)])
qed

lemma parses_sized:
  assumes "dec b = Inr x" "length b < 2 ^ 32" "\<not> tooLong (length b)"
  shows "parses (get_sized tooLong m1 m2 dec) (put_len32 b @ b) x"
proof -
  have n: "unat (of_nat (length b) :: u32) = length b" using assms(2) by (simp add: unat_of_nat)
  have "parses (\<lambda>bs. case dec b of Inl e \<Rightarrow> Inl e | Inr x \<Rightarrow> Inr (x, bs)) [] x"
    using assms(1) by (simp add: parses_def)
  then show ?thesis
    unfolding get_sized_def
    by (intro parses_need parses_bind [OF parses_word4], simp, unfold Let_def n)
       (intro parses_check parses_bind_last [OF parses_take], use assms(3) in simp_all)
qed

section \<open>Content identities\<close>

lemma track_eta [simp]:
  "\<lparr>TrackNumber = TrackNumber t, TrStartLBA = TrStartLBA t, TrEndLBA = TrEndLBA t, TrMode = TrMode t,
    ControlFlags = ControlFlags t, LeadOutLBA = LeadOutLBA t\<rparr> = t"
  by (cases t) simp

lemma parses_track: "parses get_track (track_bytes t) t"
proof -
  have "parses get_track (le_put 2 (TrackNumber t) @ le_put 8 (TrStartLBA t) @ le_put 8 (TrEndLBA t) @
      le_put 2 (TrMode t) @ le_put 2 (ControlFlags t) @ le_put 8 (LeadOutLBA t) @ []) t"
    unfolding get_track_def
    by (intro parses_need parses_bind [OF parses_word2] parses_bind [OF parses_word8], simp)
       (use parses_return in \<open>simp add: parses_return\<close>)
  then show ?thesis by (simp add: track_bytes_def)
qed

lemma put_hint_Inr: "put_hint h = Inr bs \<longleftrightarrow> (\<exists>v. encodeString (HintValue h) = Inr v \<and> bs = le_put 2 (HintType h) @ v)"
  by (auto simp: put_hint_def split: sum.splits)

lemma parses_hint: "put_hint h = Inr bs \<Longrightarrow> parses get_hint bs h"
proof -
  assume "put_hint h = Inr bs"
  then obtain v where v: "encodeString (HintValue h) = Inr v" "bs = le_put 2 (HintType h) @ v" by (auto simp: put_hint_Inr)
  have "parses get_hint (le_put 2 (HintType h) @ v @ []) h"
    unfolding get_hint_def
    by (intro parses_need parses_bind [OF parses_word2] parses_bind [OF parses_decodeString [OF v(1)]], simp)
       (cases h, simp add: parses_return)
  with v(2) show ?thesis by simp
qed

lemma put_hint_length: "put_hint h = Inr bs \<Longrightarrow> 2 \<le> length bs"
  by (auto simp: put_hint_Inr)

lemma put_sample_Inr:
  "put_sample s = Inr bs \<longleftrightarrow> (\<exists>b. encodeBool (Available s) = Inr b \<and>
     bs = le_put 2 (FpSlot s) @ le_put 8 (FpLBA s) @ b @ FpSHA256 s @ le_put 2 (FpError s))"
  by (auto simp: put_sample_def split: sum.splits)

lemma parses_sample:
  assumes "put_sample s = Inr bs" "length (FpSHA256 s) = 32"
  shows "parses get_sample bs s" "length bs = 45"
proof -
  obtain b where b: "encodeBool (Available s) = Inr b"
      "bs = le_put 2 (FpSlot s) @ le_put 8 (FpLBA s) @ b @ FpSHA256 s @ le_put 2 (FpError s)"
    using assms(1) by (auto simp: put_sample_Inr)
  have lb: "length b = 1" using encodeBool_length [OF b(1)] .
  then show "length bs = 45" using b(2) assms(2) by simp
  have "parses get_sample (le_put 2 (FpSlot s) @ le_put 8 (FpLBA s) @ b @ FpSHA256 s @ le_put 2 (FpError s) @ []) s"
    unfolding get_sample_def
    by (intro parses_need parses_bind [OF parses_word2] parses_bind [OF parses_word8]
          parses_bind [OF parses_decodeBool [OF b(1)]] parses_bind [OF parses_take [OF assms(2)]], use assms(2) lb in simp)
       (cases s, simp add: parses_return)
  with b(2) show "parses get_sample bs s" by simp
qed

text \<open>Within the limits of the decoder, which the encoder does not check.\<close>

definition identity_limits :: "ContentIdentity \<Rightarrow> bool" where
  "identity_limits i \<longleftrightarrow>
     length (IdTracks i) \<le> 256 \<and> length (IdVolumeHints i) \<le> 64 \<and> length (IdSamples i) \<le> 64 \<and>
     (\<forall>s\<in>set (IdSamples i). length (FpSHA256 s) = 32)"

lemma identity_eta:
  "\<lparr>IdVersion = IdVersion i, IdProfile = IdProfile i, IdLogicalBlockSize = IdLogicalBlockSize i,
    IdSectorCount = IdSectorCount i, IdSessions = IdSessions i, IdTracks = IdTracks i,
    IdLayoutSHA256 = IdLayoutSHA256 i, IdVolumeHints = IdVolumeHints i, IdSamples = IdSamples i,
    IdQuickID = IdQuickID i, IdFullContentSHA256 = IdFullContentSHA256 i\<rparr> = i"
  by (cases i) simp

lemma unmarshal_marshal_identity:
  assumes "marshalContentIdentity i = Inr bs" "identity_limits i"
  shows "unmarshalContentIdentity bs = Inr i"
proof -
  have v: "ContentIdentity_Validate i = None"
    using assms(1) by (auto simp: marshalContentIdentity_def split: option.splits)
  obtain lay q f where s: "encodeString (IdLayoutSHA256 i) = Inr lay" "encodeString (IdQuickID i) = Inr q"
      "encodeString (IdFullContentSHA256 i) = Inr f"
    and h: "\<forall>h\<in>set (IdVolumeHints i). \<exists>b. put_hint h = Inr b"
    and p: "\<forall>s\<in>set (IdSamples i). \<exists>b. put_sample s = Inr b"
    and bs: "bs = le_put 2 (IdVersion i) @ le_put 2 (IdProfile i) @ le_put 4 (IdLogicalBlockSize i) @
      le_put 8 (IdSectorCount i) @ le_put 2 (IdSessions i) @
      (put_len16 (IdTracks i) @ concat (map track_bytes (IdTracks i))) @ lay @
      (put_len16 (IdVolumeHints i) @ concat (map (\<lambda>h. written (put_hint h)) (IdVolumeHints i))) @
      (put_len16 (IdSamples i) @ concat (map (\<lambda>s. written (put_sample s)) (IdSamples i))) @ q @ f @ []"
    using assms(1) v
    by (auto simp: marshalContentIdentity_def writes_append_Inr writes_Cons_Inr writes_map_Inr
        simp del: writes.simps(2))
  have lim: "length (IdTracks i) \<le> 256" "length (IdVolumeHints i) \<le> 64" "length (IdSamples i) \<le> 64"
      "\<And>s. s \<in> set (IdSamples i) \<Longrightarrow> length (FpSHA256 s) = 32"
    using assms(2) by (auto simp: identity_limits_def)
  have T: "parses (get_counted 256 30 m get_track) (put_len16 (IdTracks i) @ concat (map track_bytes (IdTracks i))) (IdTracks i)" for m
    by (rule parses_counted [OF lim(1) _ parses_track]) simp_all
  have H: "parses (get_counted 64 2 m get_hint) (put_len16 (IdVolumeHints i) @ concat (map (\<lambda>h. written (put_hint h)) (IdVolumeHints i))) (IdVolumeHints i)" for m
    by (rule parses_counted [OF lim(2)]) (use h parses_hint put_hint_length in fastforce)+
  have S: "parses (get_counted 64 45 m get_sample) (put_len16 (IdSamples i) @ concat (map (\<lambda>s. written (put_sample s)) (IdSamples i))) (IdSamples i)" for m
    by (rule parses_counted [OF lim(3)]) (use p parses_sample lim(4) in fastforce)+
  have "parses get_identity bs i"
    unfolding get_identity_def bs
    by (intro parses_need parses_bind [OF parses_word2] parses_bind [OF parses_word4] parses_bind [OF parses_word8]
          parses_bind [OF T] parses_bind [OF H] parses_bind [OF S] parses_bind [OF parses_decodeString [OF s(1)]]
          parses_bind [OF parses_decodeString [OF s(2)]] parses_bind [OF parses_decodeString [OF s(3)]])
       (simp_all add: parses_return identity_eta)
  then show ?thesis unfolding unmarshalContentIdentity_def using v by (rule parse_valid_whole)
qed

section \<open>Captures and job references\<close>

definition capture_limits :: "CaptureIdentity \<Rightarrow> bool" where
  "capture_limits c \<longleftrightarrow> - (2 ^ 63) \<le> CapStartedAt c \<and> CapStartedAt c < 2 ^ 63"

lemma unixNano_roundtrip: "- (2 ^ 63) \<le> t \<Longrightarrow> t < 2 ^ 63 \<Longrightarrow> unixNanoUTC (UnixNano t) = t"
  by (simp add: unixNanoUTC_def UnixNano_def signed_of_int signed_take_bit_int_eq_self)

lemma encodeString_length: "encodeString s = Inr bs \<Longrightarrow> length bs \<le> 65537"
  by (auto simp: encodeString_def split: if_splits)

lemma unmarshal_marshal_capture:
  assumes "marshalCaptureIdentity c = Inr bs" "capture_limits c"
  shows "unmarshalCaptureIdentity bs = Inr c" "length bs < 2 ^ 32"
proof -
  have v: "CaptureIdentity_Validate c = None"
    using assms(1) by (auto simp: marshalCaptureIdentity_def split: option.splits)
  have t: "unixNanoUTC (UnixNano (CapStartedAt c)) = CapStartedAt c"
    using assms(2) by (simp add: capture_limits_def unixNano_roundtrip)
  let ?phys = "case CapPhysicalCopy c of None \<Rightarrow> [] | Some p \<Rightarrow> [encodeString (AssetID p), encodeString (HubCodeNote p)]"
  obtain s1 s2 s3 s4 s5 s6 s7 b ph where
    s: "encodeString (CapCaptureID c) = Inr s1" "encodeString (DevVendor (CapDevice c)) = Inr s2"
      "encodeString (DevProduct (CapDevice c)) = Inr s3" "encodeString (DevRevision (CapDevice c)) = Inr s4"
      "encodeString (DevSerial (CapDevice c)) = Inr s5" "encodeString (DevTransport (CapDevice c)) = Inr s6"
      "encodeString (CapUserLabel c) = Inr s7" "encodeBool (CapPhysicalCopy c \<noteq> None) = Inr b"
      "writes ?phys = Inr ph"
    and bs: "bs = s1 @ s2 @ s3 @ s4 @ s5 @ s6 @ le_put 8 (UnixNano (CapStartedAt c)) @ s7 @ b @ ph @ []"
    using assms(1) v
    by (auto simp: marshalCaptureIdentity_def writes_append_Inr writes_Cons_Inr simp del: writes.simps(2))
  have P: "parses (if CapPhysicalCopy c \<noteq> None
            then pbind decodeString (\<lambda>asset. pbind decodeString (\<lambda>hub.
                   preturn (Some \<lparr>AssetID = asset, HubCodeNote = hub\<rparr>)))
            else preturn None) ph (CapPhysicalCopy c)"
  proof (cases "CapPhysicalCopy c")
    case None
    then show ?thesis using s(9) by (simp add: parses_return)
  next
    case (Some p)
    then obtain a u where p: "encodeString (AssetID p) = Inr a" "encodeString (HubCodeNote p) = Inr u" "ph = a @ u @ []"
      using s(9) by (auto simp: writes_Cons_Inr simp del: writes.simps(2))
    have e: "Some p = Some \<lparr>AssetID = AssetID p, HubCodeNote = HubCodeNote p\<rparr>" by simp
    have "parses (pbind decodeString (\<lambda>asset. pbind decodeString (\<lambda>hub.
                   preturn (Some \<lparr>AssetID = asset, HubCodeNote = hub\<rparr>)))) (a @ u @ []) (Some p)"
      by (subst e, rule parses_bind [OF parses_decodeString [OF p(1)]],
          rule parses_bind [OF parses_decodeString [OF p(2)]], rule parses_return)
    then show ?thesis using Some p(3) by simp
  qed
  have e: "\<lparr>CapCaptureID = CapCaptureID c,
      CapDevice = \<lparr>DevVendor = DevVendor (CapDevice c), DevProduct = DevProduct (CapDevice c),
        DevRevision = DevRevision (CapDevice c), DevSerial = DevSerial (CapDevice c), DevTransport = DevTransport (CapDevice c)\<rparr>,
      CapStartedAt = unixNanoUTC (UnixNano (CapStartedAt c)), CapUserLabel = CapUserLabel c,
      CapPhysicalCopy = CapPhysicalCopy c\<rparr> = c"
    unfolding t by (cases c) simp
  have "parses get_capture bs c"
    unfolding get_capture_def bs
    by (intro parses_need parses_bind [OF parses_word8] parses_bind [OF P] parses_bind [OF parses_decodeBool [OF s(8)]]
          parses_bind [OF parses_decodeString [OF s(1)]] parses_bind [OF parses_decodeString [OF s(2)]]
          parses_bind [OF parses_decodeString [OF s(3)]] parses_bind [OF parses_decodeString [OF s(4)]]
          parses_bind [OF parses_decodeString [OF s(5)]] parses_bind [OF parses_decodeString [OF s(6)]]
          parses_bind [OF parses_decodeString [OF s(7)]])
       (simp_all add: parses_return e)
  then show "unmarshalCaptureIdentity bs = Inr c" unfolding unmarshalCaptureIdentity_def using v by (rule parse_valid_whole)
  have "length ph \<le> 131074"
  proof (cases "CapPhysicalCopy c")
    case (Some p)
    then obtain a u where "encodeString (AssetID p) = Inr a" "encodeString (HubCodeNote p) = Inr u" "ph = a @ u"
      using s(9) by (auto simp: writes_Cons_Inr simp del: writes.simps(2))
    then show ?thesis using encodeString_length [of "AssetID p" a] encodeString_length [of "HubCodeNote p" u] by simp
  qed (use s(9) in simp)
  then show "length bs < 2 ^ 32"
    using s(1-7) [THEN encodeString_length] encodeBool_length [OF s(8)] unfolding bs by simp
qed

lemma unmarshal_marshal_job_reference:
  assumes "marshalJobReference r = Inr bs" "length (JrJobID r) = 16"
  shows "unmarshalJobReference bs = Inr r" "length bs < 2 ^ 32"
proof -
  have v: "JobReference_Validate r = None"
    using assms(1) by (auto simp: marshalJobReference_def split: option.splits)
  obtain p b where s: "encodeString (JrPath r) = Inr p" "encodeBool (JrFilesPresent r) = Inr b"
    and bs: "bs = JrJobID r @ p @ b @ []"
    using assms(1) v by (auto simp: marshalJobReference_def writes_Cons_Inr simp del: writes.simps(2))
  have e: "\<lparr>JrJobID = JrJobID r, JrPath = JrPath r, JrFilesPresent = JrFilesPresent r\<rparr> = r" by (cases r) simp
  have "parses get_job_reference bs r"
    unfolding get_job_reference_def bs
    by (intro parses_need parses_bind [OF parses_take [OF assms(2)]] parses_bind [OF parses_decodeBool [OF s(2)]]
          parses_bind [OF parses_decodeString [OF s(1)]])
       (simp_all add: parses_return e assms(2))
  then show "unmarshalJobReference bs = Inr r" unfolding unmarshalJobReference_def using v by (rule parse_valid_whole)
  show "length bs < 2 ^ 32"
    using encodeString_length [OF s(1)] encodeBool_length [OF s(2)] assms(2) unfolding bs by simp
qed

section \<open>Entries\<close>

text \<open>The types and the limits of an entry, and the entry that comes back.\<close>

definition entry_limits :: "Entry \<Rightarrow> bool" where
  "entry_limits e \<longleftrightarrow>
     length (EnRecordID e) = 16 \<and> length (EnPreferredJobID e) = 16 \<and> identity_limits (EnIdentity e) \<and>
     length (EnCaptures e) \<le> 1024 \<and> length (EnJobReferences e) \<le> 1024 \<and>
     (\<forall>c\<in>set (EnCaptures e). capture_limits c) \<and> (\<forall>r\<in>set (EnJobReferences e). length (JrJobID r) = 16)"

definition stored :: "Entry \<Rightarrow> Entry" where
  "stored e = e\<lparr>EnStatus := []\<rparr>"

lemma put_sized_Inr: "put_sized w = Inr bs \<longleftrightarrow> (\<exists>b. w = Inr b \<and> bs = put_len32 b @ b)"
  by (auto simp: put_sized_def split: sum.splits)

lemma Entry_Validate_stored [simp]: "Entry_Validate (stored e) = Entry_Validate e"
  by (simp add: Entry_Validate_def stored_def cong: if_cong option.case_cong)

lemma unmarshal_marshal_entry:
  assumes m: "marshalEntry e = Inr bs" and lim: "entry_limits e" and small: "length bs \<le> maxCatalogPayloadBytes"
  shows "unmarshalEntry bs = Inr (stored e)"
proof -
  have v: "Entry_Validate e = None"
    using m by (auto simp: marshalEntry_def split: option.splits)
  have vs: "validProcessingState (EnState e)"
    using v by (auto simp: Entry_Validate_def split: option.splits if_splits)
  obtain ib b hb where s: "marshalContentIdentity (EnIdentity e) = Inr ib" "encodeBool (EnLastProcessedPresent e) = Inr b"
      "encodeBool (EnHidden e) = Inr hb"
    and cs: "\<forall>c\<in>set (EnCaptures e). \<exists>b. put_sized (marshalCaptureIdentity c) = Inr b"
    and js: "\<forall>r\<in>set (EnJobReferences e). \<exists>b. put_sized (marshalJobReference r) = Inr b"
    and bs: "bs = EnRecordID e @ (put_len32 ib @ ib) @ le_put 2 (processingStateCode (EnState e)) @ [] @ le_put 8 (EnFirstSeen e) @
      le_put 8 (EnLastSeen e) @ b @ le_put 8 (EnLastProcessed e) @
      (put_len16 (EnCaptures e) @ concat (map (\<lambda>c. written (put_sized (marshalCaptureIdentity c))) (EnCaptures e))) @
      (put_len16 (EnJobReferences e) @ concat (map (\<lambda>r. written (put_sized (marshalJobReference r))) (EnJobReferences e))) @
      EnPreferredJobID e @ hb @ []"
    using m v
    by (auto simp: marshalEntry_def writes_append_Inr writes_Cons_Inr writes_map_Inr put_sized_Inr
        simp del: writes.simps(2) split: if_splits)
  note l = lim [unfolded entry_limits_def]
  have l16: "length (EnRecordID e) = 16" "length (EnPreferredJobID e) = 16" using l by simp_all
  have ids: "unmarshalContentIdentity ib = Inr (EnIdentity e)"
    using unmarshal_marshal_identity [OF s(1)] l by simp
  have ib: "length ib \<le> 1048576" using small unfolding bs by simp
  have I: "parses (get_sized (\<lambda>n. n > maxCatalogPayloadBytes) m1 m2 unmarshalContentIdentity) (put_len32 ib @ ib) (EnIdentity e)" for m1 m2
    by (rule parses_sized [where dec = unmarshalContentIdentity, OF ids]) (use ib in simp_all)
  have St: "parses (\<lambda>bs. case decodeProcessingState (processingStateCode (EnState e)) of Inl e \<Rightarrow> Inl e | Inr s \<Rightarrow> Inr (s, bs)) [] (EnState e)"
    by (simp add: parses_def decodeProcessingState_code vs)
  have C: "parses (get_counted 1024 4 m1 (get_sized (\<lambda>_. False) m2 m3 unmarshalCaptureIdentity))
      (put_len16 (EnCaptures e) @ concat (map (\<lambda>c. written (put_sized (marshalCaptureIdentity c))) (EnCaptures e))) (EnCaptures e)" for m1 m2 m3
  proof (rule parses_counted)
    fix c assume c: "c \<in> set (EnCaptures e)"
    then obtain cb where cb: "marshalCaptureIdentity c = Inr cb" using cs by (auto simp: put_sized_Inr)
    then have w: "written (put_sized (marshalCaptureIdentity c)) = put_len32 cb @ cb" by (simp add: put_sized_def)
    have "capture_limits c" using l c by simp
    note um = unmarshal_marshal_capture [OF cb this]
    show "parses (get_sized (\<lambda>_. False) m2 m3 unmarshalCaptureIdentity) (written (put_sized (marshalCaptureIdentity c))) c"
      unfolding w by (rule parses_sized [where dec = unmarshalCaptureIdentity, OF um]) simp
    show "4 \<le> length (written (put_sized (marshalCaptureIdentity c)))" unfolding w by simp
  qed (use l in simp_all)
  have J: "parses (get_counted 1024 4 m1 (get_sized (\<lambda>_. False) m2 m3 unmarshalJobReference))
      (put_len16 (EnJobReferences e) @ concat (map (\<lambda>r. written (put_sized (marshalJobReference r))) (EnJobReferences e))) (EnJobReferences e)" for m1 m2 m3
  proof (rule parses_counted)
    fix r assume r: "r \<in> set (EnJobReferences e)"
    then obtain rb where rb: "marshalJobReference r = Inr rb" using js by (auto simp: put_sized_Inr)
    then have w: "written (put_sized (marshalJobReference r)) = put_len32 rb @ rb" by (simp add: put_sized_def)
    have "length (JrJobID r) = 16" using l r by simp
    note um = unmarshal_marshal_job_reference [OF rb this]
    show "parses (get_sized (\<lambda>_. False) m2 m3 unmarshalJobReference) (written (put_sized (marshalJobReference r))) r"
      unfolding w by (rule parses_sized [where dec = unmarshalJobReference, OF um]) simp
    show "4 \<le> length (written (put_sized (marshalJobReference r)))" unfolding w by simp
  qed (use l in simp_all)
  have eta: "\<lparr>EnRecordID = EnRecordID e, EnIdentity = EnIdentity e, EnState = EnState e, EnStatus = [],
      EnFirstSeen = EnFirstSeen e, EnLastSeen = EnLastSeen e, EnLastProcessedPresent = EnLastProcessedPresent e,
      EnLastProcessed = EnLastProcessed e, EnCaptures = EnCaptures e, EnJobReferences = EnJobReferences e,
      EnPreferredJobID = EnPreferredJobID e, EnHidden = EnHidden e\<rparr> = stored e"
    by (cases e) (simp add: stored_def)
  have "parses get_entry bs (stored e)"
    unfolding get_entry_def bs
    by (intro parses_need parses_bind [OF parses_take [OF l16(1)]] parses_bind [OF parses_take [OF l16(2)]]
          parses_bind [OF I] parses_bind [OF St] parses_bind [OF C] parses_bind [OF J]
          parses_bind [OF parses_word2] parses_bind [OF parses_word8]
          parses_bind [OF parses_decodeBool [OF s(2)]] parses_bind [OF parses_decodeBool [OF s(3)]])
       (simp_all add: parses_return eta l16 encodeBool_length [OF s(2)] encodeBool_length [OF s(3)])
  then show ?thesis unfolding unmarshalEntry_def using v by (intro parse_valid_whole) simp_all
qed

section \<open>The contract\<close>

interpretation identity_codec: codec marshalContentIdentity unmarshalContentIdentity identity_limits
  by unfold_locales (rule unmarshal_marshal_identity)

interpretation capture_codec: codec marshalCaptureIdentity unmarshalCaptureIdentity capture_limits
  by unfold_locales (rule unmarshal_marshal_capture(1))

interpretation job_reference_codec: codec marshalJobReference unmarshalJobReference "\<lambda>r. length (JrJobID r) = 16"
  by unfold_locales (rule unmarshal_marshal_job_reference(1))

section \<open>Journal records\<close>

lemma length_magic [simp]: "length catalogJournalMagic = 4" "length snapshotMagic = 4"
  by (simp_all add: catalogJournalMagic_def snapshotMagic_def str_def)

lemma record_prefix_length: "length (record_prefix r) = 20 + length (CrPayload r)"
  by (simp add: record_prefix_def)

lemma MarshalCatalogRecord_Inr:
  assumes "MarshalCatalogRecord r = Inr bs"
  shows "CatalogRecord_Validate r = None" "bs = record_prefix r @ le_put 4 (crc32c (record_prefix r))"
    "length bs = 24 + length (CrPayload r)" "length (CrPayload r) \<le> maxCatalogPayloadBytes"
  using assms by (auto simp: MarshalCatalogRecord_def record_prefix_length CatalogRecord_Validate_def
      split: option.splits if_splits)

lemma record_slices:
  defines "p r \<equiv> record_prefix r"
  shows "slice 0 4 (p r @ ys) = catalogJournalMagic"
    "slice 4 6 (p r @ ys) = le_put 2 (1 :: u16)"
    "slice 6 8 (p r @ ys) = le_put 2 (CrType r)"
    "slice 8 16 (p r @ ys) = le_put 8 (CrSequence r)"
    "slice 16 20 (p r @ ys) = put_len32 (CrPayload r)"
    "slice 20 (20 + length (CrPayload r)) (p r @ ys) = CrPayload r"
  by (simp_all add: p_def record_prefix_def slice_def)

lemma CatalogRecord_eta: "\<lparr>CrType = CrType r, CrSequence = CrSequence r, CrPayload = CrPayload r\<rparr> = r"
  by (cases r) simp

lemma unmarshal_marshal_record:
  assumes "MarshalCatalogRecord r = Inr bs"
  shows "UnmarshalCatalogRecord (bs @ rest) = Inr (r, length bs)"
proof -
  note m = MarshalCatalogRecord_Inr [OF assms]
  let ?c = "le_put 4 (crc32c (record_prefix r))" and ?n = "length (CrPayload r)"
  have n: "unat (of_nat ?n :: u32) = ?n" using m(4) by (simp add: unat_of_nat)
  have e: "bs @ rest = record_prefix r @ (?c @ rest)" using m(2) by simp
  have c: "slice (20 + ?n) (24 + ?n) (bs @ rest) = ?c" "take (20 + ?n) (bs @ rest) = record_prefix r"
    unfolding e by (simp_all add: slice_def record_prefix_length)
  have l: "\<not> length (bs @ rest) < 24" "\<not> length (bs @ rest) < 24 + ?n" using m(3) by simp_all
  note sl = record_slices [of r "?c @ rest", folded e]
  have t: "24 + ?n - 4 = 20 + ?n" by simp
  show ?thesis
    unfolding UnmarshalCatalogRecord_def Let_def sl le_get_put_2 le_get_put_4 le_get_put_8 n t c CatalogRecord_eta m(1)
    using l m(3,4) by simp
qed

text \<open>What is left of a record that was torn.\<close>

lemma unmarshal_torn_record:
  assumes "MarshalCatalogRecord r = Inr bs" "k < length bs"
  shows "UnmarshalCatalogRecord (take k bs) =
     Inl (if k < 24 then Errorf ''unmarshal journal record: truncated header'' else ErrTruncatedRecord)"
proof (cases "k < 24")
  case False
  note m = MarshalCatalogRecord_Inr [OF assms(1)]
  let ?n = "length (CrPayload r)"
  have n: "unat (of_nat ?n :: u32) = ?n" using m(4) by (simp add: unat_of_nat)
  have sl: "slice i j (take k bs) = slice i j (record_prefix r @ le_put 4 (crc32c (record_prefix r)))" if "j \<le> 20" for i j
    using that False unfolding m(2) [symmetric] by (simp add: slice_def drop_take)
  have "\<not> length (take k bs) < 24" "length (take k bs) < 24 + ?n" using False assms(2) m(3) by simp_all
  moreover have "slice 0 4 (take k bs) = catalogJournalMagic" "slice 4 6 (take k bs) = le_put 2 (1 :: u16)"
      "slice 16 20 (take k bs) = put_len32 (CrPayload r)"
    by (subst sl, simp, rule record_slices)+
  ultimately show ?thesis using False by (simp add: UnmarshalCatalogRecord_def n)
next
  case True
  then have l: "length (take k bs) < 24" by simp
  show ?thesis unfolding UnmarshalCatalogRecord_def if_P [OF l] if_P [OF True] ..
qed

section \<open>Events\<close>

lemma event_roundtrip:
  assumes "EncodeCatalogEvent ev sq = Inr r" "MarshalCatalogRecord r = Inr bs" "entry_limits (EvEntry ev)"
  shows "DecodeCatalogEvent r = Inr \<lparr>EvType = EvType ev, EvEntry = stored (EvEntry ev)\<rparr>"
    "CrSequence r = sq" "CatalogEvent_Validate ev = None"
proof -
  obtain pl where p: "marshalEntry (EvEntry ev) = Inr pl" "r = \<lparr>CrType = EvType ev, CrSequence = sq, CrPayload = pl\<rparr>"
      "CatalogEvent_Validate ev = None"
    using assms(1) by (auto simp: EncodeCatalogEvent_def split: option.splits sum.splits)
  note m = MarshalCatalogRecord_Inr [OF assms(2)]
  have "unmarshalEntry pl = Inr (stored (EvEntry ev))"
    using unmarshal_marshal_entry [OF p(1) assms(3)] m(4) p(2) by simp
  with m(1) p show "DecodeCatalogEvent r = Inr \<lparr>EvType = EvType ev, EvEntry = stored (EvEntry ev)\<rparr>"
    "CrSequence r = sq" "CatalogEvent_Validate ev = None"
    by (simp_all add: DecodeCatalogEvent_def)
qed

section \<open>Snapshots\<close>

lemma entries_loop_marshal:
  assumes "marshalEntries es = Inr bs"
    and "\<And>e. e \<in> set es \<Longrightarrow> entry_limits e \<and> (\<forall>b. marshalEntry e = Inr b \<longrightarrow> length b \<le> maxCatalogPayloadBytes)"
  shows "entries_loop bs = Inr (map stored es)"
  using assms
proof (induction es arbitrary: bs)
  case (Cons e es)
  then obtain b cs where b: "marshalEntry e = Inr b" "marshalEntries es = Inr cs" "bs = (put_len32 b @ b) @ cs"
    by (auto simp: marshalEntries_def writes_Cons_Inr put_sized_Inr simp del: writes.simps(2))
  have l: "entry_limits e" "length b \<le> 1048576" using Cons.prems(2) [of e] b(1) by simp_all
  have "parses (get_sized (\<lambda>_. False) m1 m2 unmarshalEntry) (put_len32 b @ b) (stored e)" for m1 m2
    by (rule parses_sized [where dec = unmarshalEntry, OF unmarshal_marshal_entry [OF b(1) l]]) (use l(2) in simp_all)
  from parsesD [OF this, of _ _ cs, folded b(3)]
  have g: "get_sized (\<lambda>_. False) m1 m2 unmarshalEntry bs = Inr (stored e, cs)" for m1 m2 .
  have "bs \<noteq> []" using b(3) by (auto simp: numeral_eq_Suc)
  moreover have "entries_loop cs = Inr (map stored es)"
    using Cons.IH [OF b(2)] Cons.prems(2) by (meson list.set_intros(2))
  ultimately show ?case by (subst entries_loop.simps) (simp add: g)
qed (simp add: marshalEntries_def entries_loop.simps)

lemma first_error_None: "first_error m v xs = None \<longleftrightarrow> (\<forall>x\<in>set xs. v x = None)"
  by (induction xs) (auto split: option.splits)

lemma marshalEntries_length: "marshalEntries es = Inr bs \<Longrightarrow> length es * 4 \<le> length bs"
  by (induction es arbitrary: bs)
     (fastforce simp: marshalEntries_def writes_Cons_Inr put_sized_Inr simp del: writes.simps(2))+

end
