(* ===== verification/CatalogRepoFacts.thy ===== *)
theory CatalogRepoFacts
  imports CatalogRepo CatalogCodecFacts
begin

text \<open>
  Facts about the durable catalog: what a replay makes of a journal that was written record by
  record, of a journal whose last record is torn and of records a snapshot already holds, what a
  load reads when the disk answers, and the relation of a repository to the files behind it.
\<close>

section \<open>Upserts\<close>

text \<open>The abstract catalog is the list of stored entries; an event replaces or adds one.\<close>

definition upserts :: "CatalogEvent list \<Rightarrow> Entry list \<Rightarrow> Entry list" where
  "upserts evs es = fold (\<lambda>ev. upsert (EvEntry ev)) evs es"

definition stored_event :: "CatalogEvent \<Rightarrow> CatalogEvent" where
  "stored_event ev = ev\<lparr>EvEntry := stored (EvEntry ev)\<rparr>"

lemma upserts_Nil [simp]: "upserts [] es = es"
  by (simp add: upserts_def)

lemma upserts_Cons [simp]: "upserts (ev # evs) es = upserts evs (upsert (EvEntry ev) es)"
  by (simp add: upserts_def)

lemma stored_simps [simp]: "EnRecordID (stored e) = EnRecordID e" "stored (stored e) = stored e"
  by (simp_all add: stored_def)

lemma map_stored_upsert: "map stored (upsert e es) = upsert (stored e) (map stored es)"
  by (induction es) simp_all

lemma set_upsert: "set (upsert e es) \<subseteq> insert e (set es)"
  by (induction es) auto

lemma EvEntry_stored [simp]: "EvEntry (stored_event ev) = stored (EvEntry ev)"
  by (simp add: stored_event_def)

lemma stored_event_eq: "\<lparr>EvType = EvType ev, EvEntry = stored (EvEntry ev)\<rparr> = stored_event ev"
  by (simp add: stored_event_def)

lemma CatalogEvent_Validate_stored [simp]: "CatalogEvent_Validate (stored_event ev) = CatalogEvent_Validate ev"
  by (simp add: CatalogEvent_Validate_def stored_event_def)

lemma CatalogEvent_entry_valid: "CatalogEvent_Validate ev = None \<Longrightarrow> Entry_Validate (EvEntry ev) = None"
  by (simp add: CatalogEvent_Validate_def split: if_splits option.splits)

lemma ApplyEvent_valid:
  "CatalogEvent_Validate ev = None \<Longrightarrow>
   ApplyEvent s ev n = Inr (s\<lparr>CsEntries := upsert (EvEntry ev) (CsEntries s), CsLastSequence := n\<rparr>)"
  by (simp add: ApplyEvent_def UpsertEntry_def CatalogEvent_entry_valid)

section \<open>Written records\<close>

definition write_event :: "u64 \<Rightarrow> CatalogEvent \<Rightarrow> bytes result" where
  "write_event n ev =
     (case EncodeCatalogEvent ev n of Inl e \<Rightarrow> Inl e | Inr r \<Rightarrow> MarshalCatalogRecord r)"

lemma write_event_Inr:
  assumes "write_event n ev = Inr bs"
  shows "\<exists>r. EncodeCatalogEvent ev n = Inr r \<and> MarshalCatalogRecord r = Inr bs"
  using assms by (auto simp: write_event_def split: sum.splits)

lemma write_event_nonempty: "write_event n ev = Inr bs \<Longrightarrow> 24 \<le> length bs"
  by (auto dest!: write_event_Inr dest: MarshalCatalogRecord_Inr(3))

lemma write_event_valid: "write_event n ev = Inr bs \<Longrightarrow> CatalogEvent_Validate ev = None"
  by (auto simp: write_event_def EncodeCatalogEvent_def split: sum.splits option.splits)

text \<open>A record that carries the expected number is applied.\<close>

lemma replay_event:
  assumes w: "write_event n ev = Inr bs" and lim: "entry_limits (EvEntry ev)"
  shows "catalog_replay_loop s n (bs @ rest) =
    catalog_replay_loop (s\<lparr>CsEntries := upsert (stored (EvEntry ev)) (CsEntries s), CsLastSequence := n\<rparr>) (n + 1) rest"
proof -
  obtain r where r: "EncodeCatalogEvent ev n = Inr r" "MarshalCatalogRecord r = Inr bs"
    using write_event_Inr [OF w] by auto
  note u = unmarshal_marshal_record [OF r(2), of rest] and e = event_roundtrip [OF r lim]
  have a: "ApplyEvent s (stored_event ev) n =
      Inr (s\<lparr>CsEntries := upsert (stored (EvEntry ev)) (CsEntries s), CsLastSequence := n\<rparr>)"
    using ApplyEvent_valid [of "stored_event ev" s n] e(3) by simp
  have "bs @ rest \<noteq> []" using write_event_nonempty [OF w] by auto
  then show ?thesis
    using u e(1,2) a by (subst catalog_replay_loop.simps) (simp add: stored_event_eq del: append_is_Nil_conv)
qed

text \<open>A record with an earlier number is skipped.\<close>

lemma replay_skips:
  assumes w: "write_event m ev = Inr bs" and m: "m < n"
  shows "catalog_replay_loop s n (bs @ rest) = catalog_replay_loop s n rest"
proof -
  obtain r where r: "EncodeCatalogEvent ev m = Inr r" "MarshalCatalogRecord r = Inr bs"
    using write_event_Inr [OF w] by auto
  have "CrSequence r = m" using r(1) by (auto simp: EncodeCatalogEvent_def split: sum.splits option.splits)
  moreover have "bs @ rest \<noteq> []" using write_event_nonempty [OF w] by auto
  ultimately show ?thesis
    using m unmarshal_marshal_record [OF r(2), of rest]
    by (subst catalog_replay_loop.simps) (simp del: append_is_Nil_conv)
qed

text \<open>The rest of a record that was torn ends the replay, or makes it fail.\<close>

definition torn_header :: error where
  "torn_header = Errorf ''unmarshal journal record: truncated header''"

lemma replay_torn:
  assumes w: "write_event m ev = Inr bs" and k: "k < length bs"
  shows "catalog_replay_loop s n (take k bs) = (if 0 < k \<and> k < 24 then Inl torn_header else Inr s)"
proof -
  obtain r where r: "MarshalCatalogRecord r = Inr bs" using write_event_Inr [OF w] by auto
  have e: "errors_Is ErrTruncatedRecord ErrTruncatedRecord" "\<not> errors_Is torn_header ErrTruncatedRecord"
    by (simp_all add: torn_header_def)
  show ?thesis
  proof (cases k)
    case (Suc j)
    then have "take k bs \<noteq> []" using k by auto
    then show ?thesis using Suc e unmarshal_torn_record [OF r k, folded torn_header_def]
      by (subst catalog_replay_loop.simps) auto
  qed (simp add: catalog_replay_loop.simps)
qed

text \<open>A torn record with more bytes behind it is still torn while it is not filled up.\<close>

lemma replay_torn_tail:
  assumes w: "write_event m ev = Inr bs" and k: "24 \<le> k" "k + length tail < length bs"
  shows "catalog_replay_loop s n (take k bs @ tail) = Inr s"
proof -
  obtain r where r: "MarshalCatalogRecord r = Inr bs" using write_event_Inr [OF w] by auto
  note m = MarshalCatalogRecord_Inr [OF r]
  let ?n = "length (CrPayload r)" and ?t = "take k bs @ tail"
  have n: "unat (of_nat ?n :: u32) = ?n" using m(4) by (simp add: unat_of_nat)
  have sl: "slice i j ?t = slice i j (record_prefix r @ le_put 4 (crc32c (record_prefix r)))" if "j \<le> 20" for i j
    using that k unfolding m(2) [symmetric] by (simp add: slice_def drop_take)
  have "\<not> length ?t < 24" "length ?t < 24 + ?n" using k m(3) by simp_all
  moreover have "slice 0 4 ?t = catalogJournalMagic" "slice 4 6 ?t = le_put 2 (1 :: u16)"
      "slice 16 20 ?t = put_len32 (CrPayload r)"
    by (subst sl, simp, rule record_slices)+
  ultimately have "UnmarshalCatalogRecord ?t = Inl ErrTruncatedRecord" by (simp add: UnmarshalCatalogRecord_def n)
  moreover have "?t \<noteq> []" using k by auto
  ultimately show ?thesis by (subst catalog_replay_loop.simps) simp
qed

section \<open>Journals\<close>

text \<open>The records of a list of events with consecutive numbers.\<close>

fun event_records :: "u64 \<Rightarrow> CatalogEvent list \<Rightarrow> bytes result" where
  "event_records n [] = Inr []"
| "event_records n (ev # evs) =
     (case write_event n ev of Inl e \<Rightarrow> Inl e | Inr bs \<Rightarrow>
     (case event_records (n + 1) evs of Inl e \<Rightarrow> Inl e | Inr cs \<Rightarrow> Inr (bs @ cs)))"

lemma replay_records:
  assumes "event_records n evs = Inr bs" "\<forall>ev\<in>set evs. entry_limits (EvEntry ev)" "CsLastSequence s + 1 = n"
  shows "catalog_replay_loop s n (bs @ rest) =
    catalog_replay_loop (s\<lparr>CsEntries := upserts (map stored_event evs) (CsEntries s),
                           CsLastSequence := n + of_nat (length evs) - 1\<rparr>) (n + of_nat (length evs)) rest"
  using assms
proof (induction evs arbitrary: n bs s)
  case Nil
  then have "n - 1 = CsLastSequence s" by (simp add: algebra_simps flip: Nil(3))
  then show ?case using Nil by simp
next
  case (Cons ev evs)
  then obtain b cs where b: "write_event n ev = Inr b" "event_records (n + 1) evs = Inr cs" "bs = b @ cs"
    by (auto split: sum.splits)
  let ?s = "s\<lparr>CsEntries := upsert (stored (EvEntry ev)) (CsEntries s), CsLastSequence := n\<rparr>"
  have "catalog_replay_loop s n (bs @ rest) = catalog_replay_loop ?s (n + 1) (cs @ rest)"
    unfolding b(3) append_assoc by (rule replay_event) (use b Cons.prems in simp_all)
  also have "\<dots> = catalog_replay_loop (?s\<lparr>CsEntries := upserts (map stored_event evs) (CsEntries ?s),
      CsLastSequence := n + 1 + of_nat (length evs) - 1\<rparr>) (n + 1 + of_nat (length evs)) rest"
    by (rule Cons.IH) (use b Cons.prems in simp_all)
  finally show ?case by (simp add: algebra_simps)
qed

section \<open>What a journal stands for\<close>

definition stored_store :: "CatalogStore \<Rightarrow> CatalogStore" where
  "stored_store s = s\<lparr>CsEntries := map stored (CsEntries s), CsMutationLockHeld := False\<rparr>"

definition snapshot_store :: "CatalogSnapshot \<Rightarrow> CatalogStore" where
  "snapshot_store sn = \<lparr>CsLastSequence = SnLastSequence sn, CsEntries = SnEntries sn, CsMutationLockHeld = False\<rparr>"

text \<open>A snapshot and a journal whose replay arrives at the stored form of a store, with nothing torn.\<close>

definition backs :: "CatalogSnapshot \<Rightarrow> bytes \<Rightarrow> CatalogStore \<Rightarrow> bool" where
  "backs sn js s \<longleftrightarrow>
     Snapshot_Validate sn = None \<and> CatalogStore_Validate s = None \<and>
     (\<forall>rest. catalog_replay_loop (snapshot_store sn) (SnLastSequence sn + 1) (js @ rest) =
             catalog_replay_loop (stored_store s) (CsLastSequence s + 1) rest)"

text \<open>The store after an event.\<close>

definition after_event :: "CatalogStore \<Rightarrow> CatalogEvent \<Rightarrow> CatalogStore" where
  "after_event s ev = s\<lparr>CsEntries := upsert (EvEntry ev) (CsEntries s), CsLastSequence := CsLastSequence s + 1\<rparr>"

lemma after_event_simps [simp]:
  "CsLastSequence (after_event s ev) = CsLastSequence s + 1"
  "CsEntries (after_event s ev) = upsert (EvEntry ev) (CsEntries s)"
  by (simp_all add: after_event_def)

lemma stored_store_simps [simp]:
  "CsLastSequence (stored_store s) = CsLastSequence s" "CsEntries (stored_store s) = map stored (CsEntries s)"
  by (simp_all add: stored_store_def)

lemma CatalogStore_Validate_None: "CatalogStore_Validate s = None \<longleftrightarrow> (\<forall>e\<in>set (CsEntries s). Entry_Validate e = None)"
  by (simp add: CatalogStore_Validate_def first_error_None)

lemma stored_store_after:
  "(stored_store s)\<lparr>CsEntries := upsert (stored (EvEntry ev)) (CsEntries (stored_store s)),
                   CsLastSequence := CsLastSequence s + 1\<rparr> = stored_store (after_event s ev)"
  by (simp add: stored_store_def after_event_def map_stored_upsert)

lemma after_event_valid:
  "CatalogStore_Validate s = None \<Longrightarrow> CatalogEvent_Validate ev = None \<Longrightarrow> CatalogStore_Validate (after_event s ev) = None"
  using set_upsert [of "EvEntry ev" "CsEntries s"] CatalogEvent_entry_valid [of ev]
  by (auto simp: CatalogStore_Validate_None)

lemma backs_empty: "backs \<lparr>SnLastSequence = 0, SnEntries = []\<rparr> [] CatalogStore_zero"
  by (simp add: backs_def Snapshot_Validate_def CatalogStore_Validate_def CatalogStore_zero_def snapshot_store_def
      stored_store_def)

lemma backs_event:
  assumes "backs sn js s" "write_event (CsLastSequence s + 1) ev = Inr bs" "entry_limits (EvEntry ev)"
  shows "backs sn (js @ bs) (after_event s ev)"
  using assms replay_event [OF assms(2,3), of "stored_store s"] after_event_valid [of s ev] write_event_valid [OF assms(2)]
  by (simp add: backs_def stored_store_after [symmetric] del: stored_store_simps(2))

text \<open>Records with a number that was already used do not count.\<close>

lemma backs_skips:
  assumes "backs sn js s" "write_event m ev = Inr bs" "m < CsLastSequence s + 1"
  shows "backs sn (js @ bs) s"
  using assms replay_skips [OF assms(2,3)] by (simp add: backs_def)

lemma backs_replay_tail:
  assumes b: "backs sn js s" and t: "catalog_replay_loop (stored_store s) (CsLastSequence s + 1) tail = Inr (stored_store s)"
  shows "ReplayCatalogJournal sn (js @ tail) = Inr (stored_store s)"
proof -
  have "CatalogStore_Validate (stored_store s) = None"
    using b by (simp add: backs_def CatalogStore_Validate_None)
  then show ?thesis using b t by (simp add: ReplayCatalogJournal_def backs_def snapshot_store_def)
qed

lemma backs_replay: "backs sn js s \<Longrightarrow> ReplayCatalogJournal sn js = Inr (stored_store s)"
  using backs_replay_tail [of sn js s "[]"] by (simp add: catalog_replay_loop.simps)

lemma backs_replay_torn:
  assumes "backs sn js s" "write_event m ev = Inr bs" "k < length bs"
  shows "ReplayCatalogJournal sn (js @ take k bs) = (if 0 < k \<and> k < 24 then Inl torn_header else Inr (stored_store s))"
proof (cases "0 < k \<and> k < 24")
  case True
  then have "catalog_replay_loop (snapshot_store sn) (SnLastSequence sn + 1) (js @ take k bs) = Inl torn_header"
    using assms replay_torn [OF assms(2,3)] by (simp add: backs_def)
  then show ?thesis using True assms(1) by (simp add: ReplayCatalogJournal_def backs_def snapshot_store_def)
next
  case False
  show ?thesis unfolding if_not_P [OF False]
    by (rule backs_replay_tail [OF assms(1)]) (use False replay_torn [OF assms(2,3)] in auto)
qed

section \<open>Loading\<close>

text \<open>What a repository reads when it is loaded from the files of a world and every call succeeds.\<close>

definition reload :: "World \<Rightarrow> Repository \<Rightarrow> CatalogStore result" where
  "reload w r =
     (case load (w\<lparr>Script := []\<rparr>) r of
        ((Some e, _), _) \<Rightarrow> Inl e
      | ((None, r1), _) \<Rightarrow> Inr (RpStore r1))"

text \<open>The snapshot of a directory; none is an empty one.\<close>

definition snapshot_is :: "World \<Rightarrow> Repository \<Rightarrow> CatalogSnapshot \<Rightarrow> bool" where
  "snapshot_is w r sn \<longleftrightarrow>
     (case Files w (RpSnapshot r) of
        None \<Rightarrow> sn = \<lparr>SnLastSequence = 0, SnEntries = []\<rparr>
      | Some bs \<Rightarrow> length bs \<le> maxCatalogFileBytes \<and> UnmarshalSnapshot bs = Inr sn)"

lemma readBoundedFile_done:
  assumes "Script w = []" "\<And>bs. Files w p = Some bs \<Longrightarrow> length bs \<le> maxCatalogFileBytes"
  shows "readBoundedFile w p = ((case Files w p of None \<Rightarrow> Inl ErrNotExist | Some bs \<Rightarrow> Inr bs), w)"
  using assms by (cases "Files w p") (simp_all add: readBoundedFile_def os_Stat_path_def os_ReadFile_def)

lemma load_done:
  assumes "Script w = []" "snapshot_is w r sn" "length (contents w (RpJournal r)) \<le> maxCatalogFileBytes"
  shows "load w r =
     (case ReplayCatalogJournal sn (contents w (RpJournal r)) of
        Inl e \<Rightarrow> ((Some (Wrapf ''replay catalog journal'' e), r\<lparr>RpStore := CatalogStore_zero\<rparr>), w)
      | Inr store \<Rightarrow> ((None, r\<lparr>RpStore := store\<rparr>), w))"
proof -
  let ?j = "case Files w (RpJournal r) of None \<Rightarrow> Inl ErrNotExist | Some bs \<Rightarrow> Inr bs"
  have j: "readBoundedFile w (RpJournal r) = (?j, w)"
    by (rule readBoundedFile_done) (use assms in \<open>simp_all add: contents_def\<close>)
  have js: "(case ?j of Inr data \<Rightarrow> Inr data
     | Inl e \<Rightarrow> if errors_Is e ErrNotExist then Inr [] else Inl (Wrapf ''read catalog journal'' e)) =
     Inr (contents w (RpJournal r))"
    by (simp add: contents_def split: option.splits)
  let ?s = "case Files w (RpSnapshot r) of None \<Rightarrow> Inl ErrNotExist | Some bs \<Rightarrow> Inr bs"
  have s: "readBoundedFile w (RpSnapshot r) = (?s, w)"
    by (rule readBoundedFile_done) (use assms in \<open>simp_all add: snapshot_is_def\<close>)
  have sn: "(case ?s of Inr data \<Rightarrow> (case UnmarshalSnapshot data of
       Inl e \<Rightarrow> Inl (Wrapf ''load catalog snapshot'' e) | Inr s \<Rightarrow> Inr s)
     | Inl e \<Rightarrow> if errors_Is e ErrNotExist then Inr \<lparr>SnLastSequence = 0, SnEntries = []\<rparr>
                else Inl (Wrapf ''read catalog snapshot'' e)) = Inr sn"
    using assms(2) by (simp add: snapshot_is_def split: option.splits)
  show ?thesis unfolding load_def Let_def s prod.case sn sum.case j js by (simp split: sum.splits)
qed

lemma reload_eq:
  assumes "snapshot_is w r sn" "length (contents w (RpJournal r)) \<le> maxCatalogFileBytes"
  shows "reload w r =
     (case ReplayCatalogJournal sn (contents w (RpJournal r)) of
        Inl e \<Rightarrow> Inl (Wrapf ''replay catalog journal'' e) | Inr store \<Rightarrow> Inr store)"
  using load_done [of "w\<lparr>Script := []\<rparr>" r sn] assms
  by (simp add: reload_def snapshot_is_def contents_def split: sum.splits)

text \<open>A repository whose store is what its files hold.\<close>

definition durable :: "World \<Rightarrow> Repository \<Rightarrow> bool" where
  "durable w r \<longleftrightarrow>
     RpSnapshot r \<noteq> RpJournal r \<and>
     (\<exists>sn. snapshot_is w r sn \<and> backs sn (contents w (RpJournal r)) (RpStore r))"

section \<open>Appending\<close>

definition appendable :: "Repository \<Rightarrow> bool" where
  "appendable r \<longleftrightarrow> \<not> RpClosed r \<and> RpMutable r \<and> RpJournalFile r"

lemma AppendEvent_writes:
  assumes a: "appendable r" and w: "write_event (CsLastSequence (RpStore r) + 1) ev = Inr bs"
  shows "AppendEvent w None r ev =
     (case os_Write_end w (RpJournal r) bs of
        (Some e, w1) \<Rightarrow> ((Some (Wrapf ''append catalog journal'' e), r), w1)
      | (None, w1) \<Rightarrow>
        (case os_Sync w1 (RpJournal r) of
           (Some e, w2) \<Rightarrow> ((Some (Wrapf ''sync catalog journal'' e), r), w2)
         | (None, w2) \<Rightarrow> ((None, r\<lparr>RpStore := after_event (RpStore r) ev\<rparr>), w2)))"
proof -
  obtain rec where r: "EncodeCatalogEvent ev (CsLastSequence (RpStore r) + 1) = Inr rec" "MarshalCatalogRecord rec = Inr bs"
    using write_event_Inr [OF w] by auto
  have x: "ApplyEvent (RpStore r) ev (CsLastSequence (RpStore r) + 1) = Inr (after_event (RpStore r) ev)"
    using ApplyEvent_valid [OF write_event_valid [OF w]] by (simp add: after_event_def)
  show ?thesis unfolding AppendEvent_def Let_def r option.case sum.case x using a by (simp add: appendable_def)
qed

text \<open>An event that cannot be encoded, or a repository that is not writable, changes nothing.\<close>

lemma AppendEvent_refused:
  assumes "\<not> appendable r \<or> (\<forall>bs. write_event (CsLastSequence (RpStore r) + 1) ev \<noteq> Inr bs)"
  shows "\<exists>e. AppendEvent w None r ev = ((Some e, r), w)"
  using assms
  by (cases "EncodeCatalogEvent ev (CsLastSequence (RpStore r) + 1)")
     (auto simp: AppendEvent_def Let_def appendable_def write_event_def split: sum.splits)

lemma os_Write_end_file: "os_Write_end w p bs = (e, w1) \<Longrightarrow>
   \<exists>j\<le>length bs. Files w1 = (Files w)(p := Some (contents w p @ take j bs)) \<and> (e = None \<longrightarrow> j = length bs)"
proof -
  assume a: "os_Write_end w p bs = (e, w1)"
  obtain x w2 where n: "next_io w = (x, w2)" by fastforce
  have f: "Files w2 = Files w" using n by simp
  then have "Files w1 = (Files w)(p := Some (contents w p @ take (transferred x (length bs)) bs))"
    using a n by (auto simp: os_Write_end_def contents_def Let_def split: option.splits)
  moreover have "transferred x (length bs) \<le> length bs" by (cases x) simp_all
  moreover have "e = None \<longrightarrow> transferred x (length bs) = length bs"
    using a n calculation(2) by (auto simp: os_Write_end_def Let_def split: option.splits if_splits)
  ultimately show ?thesis by blast
qed

lemma os_Sync_file: "os_Sync w p = (e, w1) \<Longrightarrow> Files w1 = Files w \<and> (e = None \<longrightarrow> Stable w1 p = Files w1 p)"
  by (auto simp: os_Sync_def split: prod.splits option.splits dest: next_io_frame)

lemma AppendEvent_file:
  assumes "appendable r" "write_event (CsLastSequence (RpStore r) + 1) ev = Inr bs"
    "AppendEvent w None r ev = ((res, r'), w')"
  shows "\<exists>j\<le>length bs. Files w' = (Files w)(RpJournal r := Some (contents w (RpJournal r) @ take j bs)) \<and>
    (if res = None then j = length bs \<and> r' = r\<lparr>RpStore := after_event (RpStore r) ev\<rparr> \<and>
       Stable w' (RpJournal r) = Files w' (RpJournal r) else r' = r)"
proof -
  obtain e w1 where w: "os_Write_end w (RpJournal r) bs = (e, w1)" by fastforce
  obtain j where j: "j \<le> length bs" "Files w1 = (Files w)(RpJournal r := Some (contents w (RpJournal r) @ take j bs))"
      "e = None \<longrightarrow> j = length bs" using os_Write_end_file [OF w] by auto
  obtain e2 w2 where s: "os_Sync w1 (RpJournal r) = (e2, w2)" by fastforce
  note u = assms(3) [unfolded AppendEvent_writes [OF assms(1,2)] w s prod.case]
  show ?thesis using u j os_Sync_file [OF s] by (intro exI [of _ j]) (auto split: option.splits)
qed

lemma os_Write_done:
  "Script w = [] \<Longrightarrow> os_Write_end w p bs = (None, put_file w p (contents w p @ bs))"
  by (simp add: os_Write_end_def)

lemma os_Sync_all: "Script w = [] \<Longrightarrow> os_Sync w p = (None, w\<lparr>Stable := (Stable w)(p := Files w p)\<rparr>)"
  by (simp add: os_Sync_def)

text \<open>With a willing disk an acceptable event is recorded.\<close>

lemma AppendEvent_done:
  assumes "appendable r" "write_event (CsLastSequence (RpStore r) + 1) ev = Inr bs" "Script w = []"
  shows "\<exists>w'. AppendEvent w None r ev = ((None, r\<lparr>RpStore := after_event (RpStore r) ev\<rparr>), w') \<and> Script w' = [] \<and>
    Files w' = (Files w)(RpJournal r := Some (contents w (RpJournal r) @ bs))"
  unfolding AppendEvent_writes [OF assms(1,2)] os_Write_done [OF assms(3)]
  using assms(3) by (simp add: os_Sync_all)

text \<open>A world that differs in the journal only.\<close>

lemma snapshot_is_journal:
  "RpSnapshot r \<noteq> RpJournal r \<Longrightarrow> Files w' = (Files w)(RpJournal r := x) \<Longrightarrow> snapshot_is w' r sn = snapshot_is w r sn"
  by (simp add: snapshot_is_def)

lemma durable_append:
  assumes d: "durable w r" and lim: "entry_limits (EvEntry ev)" and a: "AppendEvent w None r ev = ((None, r'), w')"
  shows "durable w' r' \<and> RpStore r' = after_event (RpStore r) ev \<and> appendable r \<and> (\<exists>s. r' = r\<lparr>RpStore := s\<rparr>)"
proof -
  have "\<not> (\<not> appendable r \<or> (\<forall>bs. write_event (CsLastSequence (RpStore r) + 1) ev \<noteq> Inr bs))"
    using AppendEvent_refused [of r ev w] a by auto
  then obtain bs where r: "appendable r" "write_event (CsLastSequence (RpStore r) + 1) ev = Inr bs" by auto
  from AppendEvent_file [OF this a]
  have f: "Files w' = (Files w)(RpJournal r := Some (contents w (RpJournal r) @ bs))"
      "r' = r\<lparr>RpStore := after_event (RpStore r) ev\<rparr>" by auto
  have "contents w' (RpJournal r) = contents w (RpJournal r) @ bs" using f(1) by (simp add: contents_def)
  moreover obtain sn where "snapshot_is w r sn" "backs sn (contents w (RpJournal r)) (RpStore r)" "RpSnapshot r \<noteq> RpJournal r"
    using d by (auto simp: durable_def)
  ultimately show ?thesis
    using backs_event [OF _ r(2) lim] snapshot_is_journal [OF _ f(1)] f(2) r(1)
    by (auto simp: durable_def snapshot_is_def)
qed

lemma durable_reload:
  assumes "durable w r" "length (contents w (RpJournal r)) \<le> maxCatalogFileBytes"
  shows "reload w r = Inr (stored_store (RpStore r))"
  using assms by (auto simp: durable_def reload_eq backs_replay)

end
