(* ===== verification/CatalogProps.thy ===== *)
theory CatalogProps
  imports Catalog IdentityFacts
begin

text \<open>
  Properties of the catalog in memory: a lookup answers with the strongest verdict of the visible
  entries, automatic resume rests on a strong match, compaction keeps the newest entries, and what
  the store operations do to its entries.
\<close>

section \<open>Lookup\<close>

text \<open>The reference: the verdicts of the visible entries with the same layout, a conflict first.\<close>

definition visible :: "ContentIdentity \<Rightarrow> Entry list \<Rightarrow> Entry list" where
  "visible i es = filter (\<lambda>e. \<not> EnHidden e \<and> same_layout (EnIdentity e) i) es"

definition verdict_of :: "MatchStrength set \<Rightarrow> MatchStrength" where
  "verdict_of vs =
     (if MatchConflict \<in> vs then MatchConflict else if MatchStrong \<in> vs then MatchStrong
      else if MatchProbable \<in> vs then MatchProbable else if MatchIndeterminate \<in> vs then MatchIndeterminate
      else MatchNo)"

definition verdicts :: "ContentIdentity \<Rightarrow> Entry list \<Rightarrow> MatchStrength set" where
  "verdicts i es = (\<lambda>e. identity_verdict (EnIdentity e) i) ` set es"

lemma identity_verdict_values:
  "same_layout c d \<Longrightarrow> identity_verdict c d \<in> {MatchStrong, MatchProbable, MatchIndeterminate, MatchConflict}"
  by (simp add: identity_verdict_def)

lemma verdict_of_insert:
  assumes "v \<in> {MatchStrong, MatchProbable, MatchIndeterminate, MatchConflict}"
  shows "verdict_of (insert v vs) = (if matchRank v > matchRank (verdict_of vs) then v else verdict_of vs)"
  using assms by (auto simp: verdict_of_def)

text \<open>The state of the loop after the visible entries \<open>ps\<close>.\<close>

definition lookup_inv :: "ContentIdentity \<Rightarrow> Entry list \<Rightarrow> LookupResult \<Rightarrow> bool" where
  "lookup_inv i ps best \<longleftrightarrow>
     \<not> LkBudgetExhausted best \<and> LkMatch best = verdict_of (verdicts i ps) \<and>
     (\<forall>e\<in>set ps. same_layout (EnIdentity e) i) \<and>
     (LkMatch best \<in> {MatchStrong, MatchProbable, MatchConflict} \<longrightarrow>
        (\<exists>e\<in>set ps. LkCandidates best = [e] \<and> identity_verdict (EnIdentity e) i = LkMatch best))"

text \<open>What a lookup over the visible entries \<open>es\<close> says.\<close>

definition lookup_spec :: "ContentIdentity \<Rightarrow> Entry list \<Rightarrow> LookupResult \<Rightarrow> bool" where
  "lookup_spec i es r \<longleftrightarrow>
     (\<not> LkBudgetExhausted r \<longrightarrow> LkMatch r = verdict_of (verdicts i es)) \<and>
     (LkMatch r = MatchNo \<longleftrightarrow> es = []) \<and>
     (LkMatch r \<in> {MatchStrong, MatchProbable, MatchConflict} \<longrightarrow>
        (\<exists>e\<in>set es. LkCandidates r = [e] \<and> identity_verdict (EnIdentity e) i = LkMatch r))"

lemma verdict_of_No:
  assumes "\<forall>e\<in>set ps. same_layout (EnIdentity e) i"
  shows "verdict_of (verdicts i ps) = MatchNo \<longleftrightarrow> ps = []"
proof (cases ps)
  case (Cons e es)
  then have "identity_verdict (EnIdentity e) i \<in> {MatchStrong, MatchProbable, MatchIndeterminate, MatchConflict}"
    using assms identity_verdict_values by simp
  then show ?thesis using Cons by (auto simp: verdict_of_def verdicts_def)
qed (simp add: verdict_of_def verdicts_def)

lemma lookup_inv_done:
  "lookup_inv i ps best \<Longrightarrow> lookup_spec i ps best"
  using verdict_of_No by (auto simp: lookup_inv_def lookup_spec_def)

lemma selectStronger_facts:
  defines "s best cand \<equiv> selectStrongerResult best cand"
  shows "LkMatch (s best cand) =
      (if matchRank (LkMatch cand) > matchRank (LkMatch best) then LkMatch cand
       else if matchRank (LkMatch cand) < matchRank (LkMatch best) then LkMatch best else LkMatch (s best cand))"
    and "s best cand = best \<or> (LkCandidates (s best cand) = LkCandidates cand \<and> LkMatch (s best cand) = LkMatch cand)"
    and "\<not> LkBudgetExhausted best \<Longrightarrow> s best cand = best \<or> s best cand = cand"
  by (auto simp: s_def selectStrongerResult_def)

lemma rank_eq:
  "matchRank a = matchRank b \<Longrightarrow> a \<in> {MatchStrong, MatchProbable, MatchIndeterminate, MatchConflict} \<Longrightarrow> a = b"
  by (cases a; cases b) auto

text \<open>One more visible entry, compared within the budget.\<close>

lemma lookup_inv_step:
  assumes inv: "lookup_inv i ps best" and sl: "same_layout (EnIdentity e) i"
    and c: "CrMatch c = identity_verdict (EnIdentity e) i" "\<not> CrBudgetExhausted c"
  shows "lookup_inv i (ps @ [e]) (selectStrongerResult best (lookup_candidate v e c))"
proof -
  let ?cand = "lookup_candidate v e c"
  let ?s = "selectStrongerResult best ?cand"
  have val: "CrMatch c \<in> {MatchStrong, MatchProbable, MatchIndeterminate, MatchConflict}"
    using identity_verdict_values [OF sl] c(1) by simp
  have cand: "LkMatch ?cand = CrMatch c" "LkCandidates ?cand = [e]" "\<not> LkBudgetExhausted ?cand"
    using c(2) by (simp_all add: lookup_candidate_def)
  have b: "\<not> LkBudgetExhausted best" "LkMatch best = verdict_of (verdicts i ps)" using inv by (simp_all add: lookup_inv_def)
  have two: "?s = best \<or> ?s = ?cand" using selectStronger_facts(3) [OF b(1)] .
  have vs: "verdicts i (ps @ [e]) = insert (CrMatch c) (verdicts i ps)" using c(1) by (simp add: verdicts_def)
  have "LkMatch ?s = (if matchRank (CrMatch c) > matchRank (LkMatch best) then CrMatch c else LkMatch best)"
    using selectStronger_facts(1) [of best ?cand] two cand(1) rank_eq [of "CrMatch c" "LkMatch best"] val
    by (metis linorder_neqE_nat)
  then have m: "LkMatch ?s = verdict_of (verdicts i (ps @ [e]))"
    unfolding vs verdict_of_insert [OF val] b(2) .
  show ?thesis
    using two
  proof
    assume s: "?s = best"
    show ?thesis using inv m sl unfolding s lookup_inv_def by fastforce
  next
    assume s: "?s = ?cand"
    show ?thesis using inv m sl cand c(1) unfolding s lookup_inv_def by simp
  qed
qed

text \<open>The rest of the loop: \<open>ps\<close> are the visible entries behind, \<open>es\<close> the entries ahead.\<close>

lemma lookup_exhausted_spec:
  assumes "lookup_inv i ps best" "ps \<noteq> [] \<or> visible i es \<noteq> []"
  shows "lookup_spec i (ps @ visible i es) (lookup_exhausted best)"
proof -
  have "LkMatch best = MatchNo \<longleftrightarrow> ps = []"
    using assms(1) verdict_of_No by (auto simp: lookup_inv_def)
  then show ?thesis
    using assms unfolding lookup_spec_def lookup_inv_def lookup_exhausted_def by fastforce
qed

lemma Lookup_loop_spec:
  assumes "Lookup_loop i b best found n es = Inr r" "lookup_inv i ps best" "found \<longleftrightarrow> ps \<noteq> []" "n < b"
    and "LkMatch best \<noteq> MatchConflict"
  shows "lookup_spec i (ps @ visible i es) r"
  using assms
proof (induction i b best found n es arbitrary: ps rule: Lookup_loop.induct)
  case (1 i b best found n)
  have no: "LkMatch best = MatchNo \<longleftrightarrow> ps = []"
    using 1(2) verdict_of_No by (auto simp: lookup_inv_def)
  then have "r = best" using 1(1,3) by (auto split: if_splits)
  with lookup_inv_done [OF 1(2)] show ?case by (simp add: visible_def)
next
  case (2 i b best found n e es)
  show ?case
  proof (cases "EnHidden e \<or> \<not> same_layout (EnIdentity e) i")
    case True
    then have "Lookup_loop i b best found n es = Inr r" "visible i (e # es) = visible i es"
      using 2(4) by (auto simp: visible_def same_layout_def split: if_splits option.splits)
    moreover have "Lookup_loop i b best found n es = Inr r \<Longrightarrow> lookup_spec i (ps @ visible i es) r"
    proof (cases "EnHidden e")
      case True
      then show "Lookup_loop i b best found n es = Inr r \<Longrightarrow> ?thesis" using 2(1) [OF True _ 2(5-8)] by simp
    next
      case False
      with \<open>EnHidden e \<or> \<not> same_layout (EnIdentity e) i\<close> have nl: "\<not> CompatibleGeometry (EnIdentity e) i \<or> IdLayoutSHA256 (EnIdentity e) \<noteq> IdLayoutSHA256 i"
        by (auto simp: same_layout_def)
      have "ContentIdentity_Validate (EnIdentity e) = None" using 2(4) False by (auto split: option.splits)
      then show "Lookup_loop i b best found n es = Inr r \<Longrightarrow> ?thesis" using 2(2) [OF False _ nl _ 2(5-8)] by simp
    qed
    ultimately show ?thesis by simp
  next
    case False
    then have h: "\<not> EnHidden e" "same_layout (EnIdentity e) i" by auto
    have vis: "visible i (e # es) = e # visible i es" using h by (simp add: visible_def)
    have ok: "ContentIdentity_Validate (EnIdentity e) = None" using 2(4) h(1) by (auto split: option.splits)
    have nb: "\<not> n \<ge> b" using 2(7) by simp
    have lay: "\<not> (\<not> CompatibleGeometry (EnIdentity e) i \<or> IdLayoutSHA256 (EnIdentity e) \<noteq> IdLayoutSHA256 i)"
      using h(2) by (simp add: same_layout_def)
    note step = 2(4) [unfolded Lookup_loop.simps ok option.case if_not_P [OF h(1)] if_not_P [OF nb] if_not_P [OF lay]]
    obtain c where c: "CompareContentIdentity (EnIdentity e) i (b - n) = Inr c"
      using step by (cases "CompareContentIdentity (EnIdentity e) i (b - n)") auto
    define n1 where "n1 = (if CrMatchingSamples c > 0 \<or> CrConflictingSamples c > 0
        then n + (CrMatchingSamples c + CrConflictingSamples c) else n)"
    define best1 where "best1 = selectStrongerResult best (lookup_candidate (IdVersion i) e c)"
    define best2 where "best2 = (if CrBudgetExhausted c then best1\<lparr>LkBudgetExhausted := True\<rparr> else best1)"
    have rest: "(if LkMatch best2 = MatchConflict then Inr best2
        else if n1 \<ge> b then Inr (lookup_exhausted best2) else Lookup_loop i b best2 True n1 es) = Inr r"
      using step unfolding c sum.case Let_def best2_def best1_def n1_def .
    note w = compare_within_budget [OF c]
    show ?thesis
    proof (cases "CrBudgetExhausted c")
      case ex: True
      have cc: "CrComparedSamples c = b - n" "CrConflictingSamples c = 0" "CrMatch c = MatchIndeterminate" using w(2) [OF ex] by simp_all
      then have mm: "CrMatchingSamples c = b - n" using compare_verdict(4) [OF c] by simp
      have "b - n > 0" using 2(7) by (metis diff_self eq_iff_diff_eq_0 less_irrefl word_neq_0_conv)
      then have n1: "n1 = b" using mm cc by (simp add: n1_def)
      have nx: "\<not> LkBudgetExhausted best" using 2(5) by (simp add: lookup_inv_def)
      have cand: "LkMatch (lookup_candidate (IdVersion i) e c) = MatchIndeterminate"
        by (simp add: lookup_candidate_def cc)
      have b1: "best1 = best \<or> LkMatch best1 = MatchIndeterminate"
        using selectStronger_facts(2) cand unfolding best1_def by metis
      have "LkMatch best2 = LkMatch best1" "LkCandidates best2 = LkCandidates best1" by (simp_all add: best2_def)
      moreover from this(1) have "LkMatch best2 \<noteq> MatchConflict" using b1 2(8) by auto
      ultimately have r: "r = lookup_exhausted best2" "LkMatch best2 = LkMatch best1" "LkCandidates best2 = LkCandidates best1"
        using rest n1 by simp_all
      show ?thesis
        using b1 2(5) unfolding r(1) vis lookup_spec_def lookup_exhausted_def lookup_inv_def
        by (auto simp: r(2,3))
    next
      case nx: False
      note inv = lookup_inv_step [OF 2(5) h(2) w(1) [OF nx] nx, of "IdVersion i", folded best1_def]
      have b2: "best2 = best1" using nx by (simp add: best2_def)
      have app: "(ps @ [e]) @ visible i es = ps @ visible i (e # es)" by (simp add: vis)
      show ?thesis
      proof (cases "LkMatch best2 = MatchConflict")
        case cf: True
        then have r: "r = best1" using rest b2 by simp
        have "MatchConflict \<in> verdicts i (ps @ [e])"
          using inv cf unfolding b2 lookup_inv_def by (auto simp: verdict_of_def split: if_splits)
        then have "verdict_of (verdicts i (ps @ e # visible i es)) = MatchConflict"
          by (auto simp: verdicts_def verdict_of_def)
        then show ?thesis
          using inv cf unfolding r b2 vis lookup_inv_def lookup_spec_def by auto
      next
        case ncf: False
        show ?thesis
        proof (cases "n1 \<ge> b")
          case True
          then have "r = lookup_exhausted best1" using rest ncf b2 by simp
          with lookup_exhausted_spec [OF inv, of es] show ?thesis by (simp add: vis)
        next
          case False
          then have l: "Lookup_loop i b best2 True n1 es = Inr r" using rest ncf by simp
          have lt: "n1 < b" using False by simp
          have found: "True \<longleftrightarrow> ps @ [e] \<noteq> []" by simp
          from 2(3) [OF h(1) ok lay nb c n1_def best1_def [unfolded best1_def] _ ncf False l inv [folded b2] found lt ncf]
          show ?thesis by (simp add: vis best2_def best1_def)
        qed
      qed
    qed
  qed
qed

text \<open>
  C33: A lookup answers with the strongest verdict on the visible entries of the same layout, where
  a conflict counts most: as long as the budget is not used up it is the reference's answer, "no match" means that
  there is no such entry, and a conflict, a strong or a probable match names an entry whose
  identity has that verdict.
\<close>

theorem lookup_refines_verdicts:
  assumes "Lookup entries identity b = Inr r"
  shows "(\<not> LkBudgetExhausted r \<longrightarrow> LkMatch r = verdict_of (verdicts identity (visible identity entries))) \<and>
    (LkMatch r = MatchNo \<longleftrightarrow> visible identity entries = []) \<and>
    (LkMatch r \<in> {MatchStrong, MatchProbable, MatchConflict} \<longrightarrow>
       (\<exists>e\<in>set (visible identity entries). LkCandidates r = [e] \<and>
          identity_verdict (EnIdentity e) identity = LkMatch r))"
proof -
  let ?best = "\<lparr>LkMatch = MatchNo, LkCandidates = [], LkMatchingSamples = 0, LkConflictingSamples = 0,
       LkIdentityVersion = IdVersion identity, LkBudgetExhausted = False\<rparr>"
  have b: "0 < b" and l: "Lookup_loop identity b ?best False 0 entries = Inr r"
    using assms by (auto simp: Lookup_def LookupBudget_Validate_def word_neq_0_conv split: option.splits if_splits)
  have inv: "lookup_inv identity [] ?best" by (simp add: lookup_inv_def verdict_of_def verdicts_def)
  from Lookup_loop_spec [OF l inv _ b] show ?thesis by (simp add: lookup_spec_def)
qed

section \<open>Prior processing\<close>

lemma strong_copy_incomplete:
  "PpState (strongPriorProcessingCopy e) = PriorProcessingIncomplete \<longleftrightarrow>
     entryFilesPresent e \<and> EnState e = ProcessingStoppedResumable"
  by (cases "EnState e") (simp_all add: strongPriorProcessingCopy_def prior_copy_def)

text \<open>Both files of a job.\<close>

definition job_files :: "Stat \<Rightarrow> JobReference \<Rightarrow> bool" where
  "job_files stat r \<longleftrightarrow> stat (JrPath r) = Some True \<and> stat (replaceCatalogMapExtension (JrPath r)) \<noteq> None"

lemma refreshed_files_present:
  assumes "entryFilesPresent (refreshCandidateFiles stat e)" "EnJobReferences e \<noteq> []"
  shows "\<exists>r\<in>set (EnJobReferences e). job_files stat r"
    and "EnPreferredJobID e \<noteq> zero_id \<Longrightarrow> containsJobReference (EnJobReferences e) (EnPreferredJobID e) \<Longrightarrow>
      \<exists>r\<in>set (EnJobReferences e). JrJobID r = EnPreferredJobID e \<and> job_files stat r"
proof -
  have f: "find (\<lambda>r. JrJobID r = k) (map (refresh_reference stat) rs) =
      map_option (refresh_reference stat) (find (\<lambda>r. JrJobID r = k) rs)" for k rs
    by (induction rs) (simp_all add: refresh_reference_def)
  have c: "containsJobReference rs k \<longleftrightarrow> find (\<lambda>r. JrJobID r = k) rs \<noteq> None" for rs k
    by (induction rs) simp_all
  have g: "find (\<lambda>r. JrJobID r = k) rs = Some r \<Longrightarrow> r \<in> set rs \<and> JrJobID r = k" for k rs r
    by (induction rs) (auto split: if_splits)
  have p: "JrFilesPresent (refresh_reference stat r) \<longleftrightarrow> job_files stat r" for r
    by (simp add: refresh_reference_def job_files_def)
  show "\<exists>r\<in>set (EnJobReferences e). job_files stat r"
    using assms by (auto simp: entryFilesPresent_def refreshCandidateFiles_def f p list_ex_iff
        split: option.splits if_splits dest: g)
  show "\<exists>r\<in>set (EnJobReferences e). JrJobID r = EnPreferredJobID e \<and> job_files stat r"
    if "EnPreferredJobID e \<noteq> zero_id" "containsJobReference (EnJobReferences e) (EnPreferredJobID e)"
    using assms that by (auto simp: entryFilesPresent_def refreshCandidateFiles_def f p c
        split: option.splits dest: g)
qed

text \<open>
  Automatic resume is offered only on a strong match with a visible entry of the same layout
  whose state is resumable; if the entry has job references, the image and the map of one of them
  exist now, and of the preferred job when it is among them.
\<close>

theorem auto_resume_sound:
  assumes "Lookup entries identity b = Inr r" "classify_prior stat r = Inr p" "AutoResumeAllowed p"
  shows "\<exists>e\<in>set entries. \<not> EnHidden e \<and> identity_verdict (EnIdentity e) identity = MatchStrong \<and>
    EnState e = ProcessingStoppedResumable \<and> PrCandidates p = [refreshCandidateFiles stat e] \<and>
    (EnJobReferences e \<noteq> [] \<longrightarrow> (\<exists>j\<in>set (EnJobReferences e). job_files stat j)) \<and>
    (EnPreferredJobID e \<noteq> zero_id \<and> containsJobReference (EnJobReferences e) (EnPreferredJobID e) \<longrightarrow>
       (\<exists>j\<in>set (EnJobReferences e). JrJobID j = EnPreferredJobID e \<and> job_files stat j))"
proof -
  let ?best = "\<lparr>LkMatch = MatchNo, LkCandidates = [], LkMatchingSamples = 0, LkConflictingSamples = 0,
       LkIdentityVersion = IdVersion identity, LkBudgetExhausted = False\<rparr>"
  let ?r = "r\<lparr>LkCandidates := map (refreshCandidateFiles stat) (LkCandidates r)\<rparr>"
  obtain c where c: "BuildPriorProcessingCopy ?r = Inr c"
      "LkMatch r = MatchStrong" "PpState c = PriorProcessingIncomplete" "PrCandidates p = map (refreshCandidateFiles stat) (LkCandidates r)"
    using assms(2,3) by (auto simp: classify_prior_def Let_def split: sum.splits)
  have b: "0 < b" and l: "Lookup_loop identity b ?best False 0 entries = Inr r"
    using assms(1) by (auto simp: Lookup_def LookupBudget_Validate_def word_neq_0_conv split: option.splits if_splits)
  have inv: "lookup_inv identity [] ?best" by (simp add: lookup_inv_def verdict_of_def verdicts_def)
  have "lookup_spec identity (visible identity entries) r"
    using Lookup_loop_spec [OF l inv _ b] by simp
  then obtain e where e: "e \<in> set (visible identity entries)" "LkCandidates r = [e]"
      "identity_verdict (EnIdentity e) identity = MatchStrong"
    using c(2) by (auto simp: lookup_spec_def)
  have "c = strongPriorProcessingCopy (refreshCandidateFiles stat e)"
    using c(1,2) e(2) by (auto simp: BuildPriorProcessingCopy_def split: option.splits)
  then have s: "entryFilesPresent (refreshCandidateFiles stat e)" "EnState e = ProcessingStoppedResumable"
    using c(3) strong_copy_incomplete by (auto simp: refreshCandidateFiles_def)
  have ne: "EnJobReferences e \<noteq> []" if "containsJobReference (EnJobReferences e) k" for k using that by auto
  show ?thesis
    using e c(4) s refreshed_files_present [OF s(1)] ne by (intro bexI [of _ e]) (auto simp: visible_def)
qed

section \<open>Compaction\<close>

lemma length_keep_last: "0 < n \<Longrightarrow> int (length (keep_last n xs)) \<le> n"
  by (auto simp: keep_last_def)

lemma newest_first_mset: "mset (newest_first es) = mset es"
  by (simp add: newest_first_def)

text \<open>
  Compaction keeps the bounds and forgets the oldest first: at most the given number of
  entries, captures and job references are left, an entry that was dropped was last seen no later
  than every entry that is kept, and without bounds every entry is kept as it was.
\<close>

theorem compact_keeps_newest:
  assumes "Compact s b = Inr s'"
  shows "(0 < MaxEntries b \<longrightarrow> int (length (CsEntries s')) \<le> MaxEntries b) \<and>
    (\<forall>e\<in>set (CsEntries s'). (0 < MaxCapturesPerEntry b \<longrightarrow> int (length (EnCaptures e)) \<le> MaxCapturesPerEntry b) \<and>
       (0 < MaxJobRefsPerEntry b \<longrightarrow> int (length (EnJobReferences e)) \<le> MaxJobRefsPerEntry b)) \<and>
    (\<exists>kept dropped. mset (CsEntries s) = mset (kept @ dropped) \<and> CsEntries s' = map (compact_entry b) kept \<and>
       (\<forall>x\<in>set kept. \<forall>y\<in>set dropped. sint (EnLastSeen y) \<le> sint (EnLastSeen x))) \<and>
    (b = \<lparr>MaxEntries = 0, MaxCapturesPerEntry = 0, MaxJobRefsPerEntry = 0\<rparr> \<longrightarrow> mset (CsEntries s') = mset (CsEntries s)) \<and>
    CsLastSequence s' = CsLastSequence s"
proof -
  let ?es = "newest_first (CsEntries s)"
  define n where "n = (if MaxEntries b > 0 \<and> int (length ?es) > MaxEntries b then nat (MaxEntries b) else length ?es)"
  have s': "s' = s\<lparr>CsEntries := map (compact_entry b) (take n ?es)\<rparr>"
    using assms by (auto simp: Compact_def Let_def n_def split: option.splits if_splits)
  have sorted: "sorted (map (\<lambda>e. (- sint (EnLastSeen e), EnRecordID e)) ?es)"
    by (simp add: newest_first_def)
  have old: "sint (EnLastSeen y) \<le> sint (EnLastSeen x)" if "x \<in> set (take n ?es)" "y \<in> set (drop n ?es)" for x y
  proof -
    have "sorted (map (\<lambda>e. (- sint (EnLastSeen e), EnRecordID e)) (take n ?es @ drop n ?es))" using sorted by simp
    then have "(- sint (EnLastSeen x), EnRecordID x) \<le> (- sint (EnLastSeen y), EnRecordID y)"
      unfolding map_append sorted_append using that by fastforce
    then show ?thesis by (auto simp: less_eq_prod_def)
  qed
  have part: "mset (CsEntries s) = mset (take n ?es @ drop n ?es)" using newest_first_mset [of "CsEntries s"] by simp
  have a: "0 < MaxEntries b \<longrightarrow> int (length (CsEntries s')) \<le> MaxEntries b"
    by (auto simp: s' n_def)
  have d: "\<forall>e\<in>set (CsEntries s'). (0 < MaxCapturesPerEntry b \<longrightarrow> int (length (EnCaptures e)) \<le> MaxCapturesPerEntry b) \<and>
       (0 < MaxJobRefsPerEntry b \<longrightarrow> int (length (EnJobReferences e)) \<le> MaxJobRefsPerEntry b)"
    by (auto simp: s' compact_entry_def length_keep_last)
  have z: "mset (CsEntries s') = mset (CsEntries s)" if "b = \<lparr>MaxEntries = 0, MaxCapturesPerEntry = 0, MaxJobRefsPerEntry = 0\<rparr>"
  proof -
    have "compact_entry b e = e" for e by (simp add: compact_entry_def that keep_last_def)
    then have "map (compact_entry b) xs = xs" for xs by (simp add: map_idI)
    then show ?thesis using part by (simp add: s' n_def that newest_first_mset)
  qed
  have k: "\<exists>kept dropped. mset (CsEntries s) = mset (kept @ dropped) \<and> CsEntries s' = map (compact_entry b) kept \<and>
       (\<forall>x\<in>set kept. \<forall>y\<in>set dropped. sint (EnLastSeen y) \<le> sint (EnLastSeen x))"
    by (rule exI [of _ "take n ?es"], rule exI [of _ "drop n ?es"]) (use part old in \<open>simp add: s'\<close>)
  have l: "CsLastSequence s' = CsLastSequence s" by (simp add: s')
  show ?thesis using a d z k l by blast
qed

section \<open>Forgotten files\<close>

text \<open>A disc whose recovery was stopped, with one job whose files are gone.\<close>

definition known_disc :: ContentIdentity where
  "known_disc = \<lparr>IdVersion = 1, IdProfile = 8, IdLogicalBlockSize = 2048, IdSectorCount = 100, IdSessions = 1,
     IdTracks = [], IdLayoutSHA256 = [1], IdVolumeHints = [], IdSamples = [], IdQuickID = [2],
     IdFullContentSHA256 = []\<rparr>"

definition resumable_entry :: Entry where
  "resumable_entry = \<lparr>EnRecordID = replicate 16 1, EnIdentity = known_disc, EnState = ProcessingStoppedResumable,
     EnStatus = [], EnFirstSeen = 1, EnLastSeen = 2, EnLastProcessedPresent = False, EnLastProcessed = 0,
     EnCaptures = [], EnJobReferences = [\<lparr>JrJobID = replicate 16 3, JrPath = [97, 46, 105, 115, 111], JrFilesPresent = False\<rparr>],
     EnPreferredJobID = replicate 16 3, EnHidden = False\<rparr>"

definition resumable_store :: CatalogStore where
  "resumable_store = \<lparr>CsLastSequence = 1, CsEntries = [resumable_entry], CsMutationLockHeld = False\<rparr>"

definition resume_offered :: "Stat \<Rightarrow> Entry list \<Rightarrow> bool option" where
  "resume_offered stat es =
     (case Lookup es known_disc 8 of
        Inl _ \<Rightarrow> None
      | Inr r \<Rightarrow> (case classify_prior stat r of Inl _ \<Rightarrow> None | Inr p \<Rightarrow> Some (AutoResumeAllowed p)))"

text \<open>
  Automatic resume is documented to need the image and the map of the job. An entry without job
  references passes that test without any file: as long as the entry names its missing files resume
  is refused, and once the missing files have been forgotten it is offered, although no file exists.
\<close>

theorem forgotten_files_allow_resume:
  "resume_offered (\<lambda>_. None) (CsEntries resumable_store) = Some False \<and>
   (\<exists>s. ForgetMissingPathReferences resumable_store (EnRecordID resumable_entry) = Inr s \<and>
      CatalogStore_Validate s = None \<and> resume_offered (\<lambda>_. None) (CsEntries s) = Some True)"
proof -
  have a: "resume_offered (\<lambda>_. None) (CsEntries resumable_store) = Some False" by code_simp
  have f: "ForgetMissingPathReferences resumable_store (EnRecordID resumable_entry) =
      Inr (resumable_store\<lparr>CsEntries := [forget_missing resumable_entry]\<rparr>)"
    by (simp add: ForgetMissingPathReferences_def resumable_store_def)
  have v: "CatalogStore_Validate (resumable_store\<lparr>CsEntries := [forget_missing resumable_entry]\<rparr>) = None" by code_simp
  have b: "resume_offered (\<lambda>_. None) (CsEntries (resumable_store\<lparr>CsEntries := [forget_missing resumable_entry]\<rparr>)) = Some True"
    by code_simp
  show ?thesis using a f v b by blast
qed

section \<open>Witnesses\<close>

definition files_there :: Stat where
  "files_there p = Some True"

lemma resumable_lookup:
  "Lookup [resumable_entry] known_disc 8 = Inr \<lparr>LkMatch = MatchStrong, LkCandidates = [resumable_entry],
     LkMatchingSamples = 0, LkConflictingSamples = 0, LkIdentityVersion = 1, LkBudgetExhausted = False\<rparr>"
  by code_simp

theorem lookup_refines_verdicts_witness:
  "verdict_of (verdicts known_disc (visible known_disc [resumable_entry])) = MatchStrong"
  using lookup_refines_verdicts [OF resumable_lookup] by simp

theorem auto_resume_sound_witness:
  "\<exists>e\<in>set [resumable_entry]. identity_verdict (EnIdentity e) known_disc = MatchStrong \<and>
     (\<exists>j\<in>set (EnJobReferences e). job_files files_there j)"
proof -
  have "resume_offered files_there [resumable_entry] = Some True" by code_simp
  then have "\<exists>p. classify_prior files_there \<lparr>LkMatch = MatchStrong, LkCandidates = [resumable_entry],
     LkMatchingSamples = 0, LkConflictingSamples = 0, LkIdentityVersion = 1, LkBudgetExhausted = False\<rparr> = Inr p \<and> AutoResumeAllowed p"
    unfolding resume_offered_def resumable_lookup by (simp split: sum.splits)
  then obtain p where "classify_prior files_there \<lparr>LkMatch = MatchStrong, LkCandidates = [resumable_entry],
     LkMatchingSamples = 0, LkConflictingSamples = 0, LkIdentityVersion = 1, LkBudgetExhausted = False\<rparr> = Inr p" "AutoResumeAllowed p"
    by blast
  from auto_resume_sound [OF resumable_lookup this] show ?thesis by (auto simp: resumable_entry_def)
qed

definition two_seen :: CatalogStore where
  "two_seen = resumable_store\<lparr>CsEntries := [resumable_entry, resumable_entry\<lparr>EnRecordID := replicate 16 2, EnLastSeen := 9\<rparr>]\<rparr>"

theorem compact_keeps_newest_witness:
  "\<exists>s. Compact two_seen \<lparr>MaxEntries = 1, MaxCapturesPerEntry = 0, MaxJobRefsPerEntry = 0\<rparr> = Inr s \<and>
     length (CsEntries s) \<le> 1 \<and> map EnLastSeen (CsEntries s) = [9]"
proof -
  let ?b = "\<lparr>MaxEntries = 1, MaxCapturesPerEntry = 0, MaxJobRefsPerEntry = 0\<rparr>"
  have e: "(case Compact two_seen ?b of Inl _ \<Rightarrow> None | Inr s \<Rightarrow> Some (map EnLastSeen (CsEntries s))) = Some [9]"
    by code_simp
  then obtain s where s: "Compact two_seen ?b = Inr s" by (cases "Compact two_seen ?b") auto
  from compact_keeps_newest [OF s] e s show ?thesis by auto
qed

end
