(* ===== verification/CatalogRepoProps.thy ===== *)
theory CatalogRepoProps
  imports CatalogRepoFacts CatalogProps
begin

text \<open>
  What the durable catalog promises: one writer at a time, acknowledged events that are there after
  a reopen, what is left after a crash in the middle of an append, and where an acknowledged event
  is lost or a failed one takes effect.
\<close>

section \<open>Opening\<close>

definition fresh :: "Repository \<Rightarrow> bool" where
  "fresh r \<longleftrightarrow> \<not> RpClosed r \<and> \<not> RpMutable r \<and> \<not> RpLockFile r \<and> \<not> RpJournalFile r \<and>
     RpSnapshot r \<noteq> RpJournal r \<and> RpLockPath r \<noteq> RpSnapshot r \<and> RpLockPath r \<noteq> RpJournal r"

lemma NewRepository_fresh: "NewRepository root = Inr r \<Longrightarrow> fresh r"
  by (auto simp: NewRepository_def fresh_def path_join_def split: if_splits)

lemma os_MkdirAll_frame: "os_MkdirAll w = (e, w1) \<Longrightarrow> Files w1 = Files w"
  by (auto simp: os_MkdirAll_def split: prod.splits dest: next_io_frame)

lemma os_Close_frame: "os_Close w = (e, w1) \<Longrightarrow> Files w1 = Files w"
  by (auto simp: os_Close_def split: prod.splits dest: next_io_frame)

lemma readBoundedFile_frame: "readBoundedFile w p = (x, w1) \<Longrightarrow> Files w1 = Files w \<and> (Files w p = None \<longrightarrow> (\<exists>e. x = Inl e))"
  by (auto simp: readBoundedFile_def os_Stat_path_def os_ReadFile_def split: prod.splits option.splits if_splits sum.splits
      dest!: next_io_frame)

lemma load_frame: "load w r = ((e, r1), w1) \<Longrightarrow> Files w1 = Files w \<and> (\<exists>s. r1 = r\<lparr>RpStore := s\<rparr>)"
proof -
  assume a: "load w r = ((e, r1), w1)"
  obtain x w2 where x: "readBoundedFile w (RpSnapshot r) = (x, w2)" by fastforce
  obtain y w3 where y: "readBoundedFile w2 (RpJournal r) = (y, w3)" by fastforce
  show ?thesis using a readBoundedFile_frame [OF x] readBoundedFile_frame [OF y]
    by (auto simp: load_def Let_def x y split: sum.splits)
qed

text \<open>What the lock file means: it is taken when it is free, and only its path changes.\<close>

lemma os_Create_excl_frame: "os_Create_excl w p = (e, w1) \<Longrightarrow>
   (\<forall>q. q \<noteq> p \<longrightarrow> Files w1 q = Files w q) \<and> (Files w p \<noteq> None \<longrightarrow> e \<noteq> None \<and> Files w1 = Files w)"
proof -
  assume a: "os_Create_excl w p = (e, w1)"
  obtain x v where n: "next_io w = (x, v)" by fastforce
  show ?thesis
  proof (cases "io_error x = None")
    case True
    then show ?thesis using a n next_io_frame [OF n] by (auto simp: os_Create_excl_def split: if_splits)
  next
    case False
    then obtain d where "io_error x = Some d" by auto
    then show ?thesis using a n next_io_frame [OF n] by (simp add: os_Create_excl_def) (metis option.distinct(1) option.exhaust)
  qed
qed

lemma os_Remove_frame: "os_Remove w p = (e, w1) \<Longrightarrow> q \<noteq> p \<longrightarrow> Files w1 q = Files w q"
  by (auto simp: os_Remove_def split: prod.splits option.splits if_splits dest!: next_io_frame)

lemma acquireCatalogLock_frame:
  assumes "acquireCatalogLock w lk p = (e, w1)"
  shows "(\<forall>q. q \<noteq> p \<longrightarrow> Files w1 q = Files w q) \<and> (Files w p \<noteq> None \<longrightarrow> e \<noteq> None \<and> Files w1 = Files w)"
proof -
  obtain x a where c: "os_Create_excl w p = (x, a)" by fastforce
  obtain y b where wr: "os_Write_end a p lk = (y, b)" by fastforce
  obtain z d where s: "os_Sync b p = (z, d)" by fastforce
  have undo: "Files (snd (os_Remove (snd (os_Close v)) p)) q = Files v q" if "q \<noteq> p" for q v
    using os_Remove_frame [of "snd (os_Close v)" p] os_Close_frame [of v] that by (metis prod.collapse)
  have f: "Files b q = Files a q" "Files d q = Files a q" if "q \<noteq> p" for q
    using os_Write_end_file [OF wr] os_Sync_file [OF s] that by auto
  note u = assms [unfolded acquireCatalogLock_def c wr s prod.case]
  show ?thesis using u os_Create_excl_frame [OF c] undo f
    by (auto split: option.splits if_splits)
qed

lemma open_lock_frame:
  assumes "open_lock w lk m r = ((e, r1), w1)"
  shows "(\<forall>q. q \<noteq> RpLockPath r \<longrightarrow> Files w1 q = Files w q) \<and>
    (Files w (RpLockPath r) \<noteq> None \<longrightarrow> r1 = r \<and> Files w1 = Files w) \<and>
    (r1 = r \<or> r1 = r\<lparr>RpLockFile := True, RpMutable := True\<rparr> \<and> m)"
proof -
  obtain x a where c: "acquireCatalogLock w lk (RpLockPath r) = (x, a)" by fastforce
  show ?thesis using assms acquireCatalogLock_frame [OF c]
    by (auto simp: open_lock_def c split: option.splits if_splits)
qed

lemma releaseLock_frame: "releaseLock w r = ((e, r1), w1) \<Longrightarrow>
   (\<forall>q. q \<noteq> RpLockPath r \<longrightarrow> Files w1 q = Files w q) \<and> (\<not> RpLockFile r \<longrightarrow> r1 = r \<and> w1 = w)"
proof -
  assume u: "releaseLock w r = ((e, r1), w1)"
  obtain x a where c: "os_Close w = (x, a)" by fastforce
  obtain y b where d: "os_Remove a (RpLockPath r) = (y, b)" by fastforce
  show ?thesis using u os_Close_frame [OF c] os_Remove_frame [OF d] by (auto simp: releaseLock_def c d split: if_splits)
qed

lemma Close_frame: "Repository_Close w r = ((e, r1), w1) \<Longrightarrow>
   (\<forall>q. q \<noteq> RpLockPath r \<longrightarrow> Files w1 q = Files w q) \<and> (\<not> RpLockFile r \<longrightarrow> Files w1 = Files w)"
proof -
  assume u: "Repository_Close w r = ((e, r1), w1)"
  obtain x a where c: "os_Close w = (x, a)" by fastforce
  show ?thesis using u os_Close_frame [OF c]
    by (auto simp: Repository_Close_def Let_def c split: if_splits prod.splits dest!: releaseLock_frame)
qed

text \<open>A repository opened from a fresh one.\<close>

lemma os_Open_create_frame: "os_Open_create w p = (None, w1) \<Longrightarrow>
   Files w1 = (if Files w p = None then (Files w)(p := Some []) else Files w)"
  by (auto simp: os_Open_create_def split: prod.splits option.splits dest!: next_io_frame)

lemma Open_inv:
  assumes o: "Repository_Open w None lk r m = ((Inr om, r'), w')" and r: "fresh r"
  shows "\<exists>w2 r1 s w3. (\<forall>q. q \<noteq> RpLockPath r \<longrightarrow> Files w2 q = Files w q) \<and>
     (Files w (RpLockPath r) \<noteq> None \<longrightarrow> r1 = r \<and> Files w2 = Files w) \<and>
     (r1 = r \<or> r1 = r\<lparr>RpLockFile := True, RpMutable := True\<rparr>) \<and> load w2 r1 = ((None, r1\<lparr>RpStore := s\<rparr>), w3) \<and>
     r' = r1\<lparr>RpStore := s, RpJournalFile := RpMutable r1\<rparr> \<and>
     Files w' = (if RpMutable r1 \<and> Files w2 (RpJournal r) = None then (Files w2)(RpJournal r := Some []) else Files w2)"
proof -
  obtain e1 w1 where a: "os_MkdirAll w = (e1, w1)" by fastforce
  obtain e2 r1 w2 where b: "open_lock w1 lk m r = ((e2, r1), w2)" by (metis prod.collapse)
  obtain e3 r2 w3 where c: "load w2 r1 = ((e3, r2), w3)" by (metis prod.collapse)
  obtain e4 w4 where d: "os_Open_create w3 (RpJournal r2) = (e4, w4)" by fastforce
  obtain s where s: "r2 = r1\<lparr>RpStore := s\<rparr>" "Files w3 = Files w2" using load_frame [OF c] by auto
  note u = o [unfolded Repository_Open_def a b c d prod.case]
  have e: "e1 = None" "e2 = None" "e3 = None"
    using u r by (auto simp: fresh_def split: option.splits if_splits prod.splits)
  have f: "RpMutable r2 \<Longrightarrow> e4 = None"
    using u r by (auto simp: fresh_def e split: option.splits if_splits prod.splits)
  have r1: "r1 = r \<or> r1 = r\<lparr>RpLockFile := True, RpMutable := True\<rparr>" using open_lock_frame [OF b] by auto
  have x: "r' = (if RpMutable r2 then r2\<lparr>RpJournalFile := True\<rparr> else r2)" "w' = (if RpMutable r2 then w4 else w3)"
    using u r f by (auto simp: fresh_def e split: option.splits if_splits prod.splits)
  have "r' = r1\<lparr>RpStore := s, RpJournalFile := RpMutable r1\<rparr>"
    using x(1) s(1) r1 r by (auto simp: fresh_def)
  moreover have "Files w' = (if RpMutable r1 \<and> Files w2 (RpJournal r) = None then (Files w2)(RpJournal r := Some []) else Files w2)"
    using x(2) os_Open_create_frame [of w3 "RpJournal r2" w4] d f s r1 by auto
  ultimately show ?thesis
    using open_lock_frame [OF b] os_MkdirAll_frame [OF a] c e(3) s(1) by (intro exI [of _ w2] exI [of _ r1] exI [of _ s] exI [of _ w3]) auto
qed

text \<open>Opening again when every call succeeds gives the store that is read.\<close>

lemma acquireCatalogLock_done:
  assumes "Script w = []"
  shows "\<exists>w1. Script w1 = [] \<and> acquireCatalogLock w lk p =
    ((if Files w p = None then None else Some ErrCatalogLockUnavailable), w1)"
  using assms by (simp add: acquireCatalogLock_def os_Create_excl_def os_Write_done os_Sync_all)

lemma errors_Is_lock: "errors_Is ErrCatalogLockUnavailable ErrCatalogLockUnavailable"
  by (simp add: ErrCatalogLockUnavailable_def)

lemma open_lock_done:
  assumes "Script w = []"
  shows "\<exists>r1 w1. open_lock w lk m r = ((None, r1), w1) \<and> Script w1 = [] \<and>
     RpMutable r1 = (RpMutable r \<or> m \<and> Files w (RpLockPath r) = None)"
  using acquireCatalogLock_done [OF assms, of lk "RpLockPath r"] assms errors_Is_lock
  by (cases m; cases "Files w (RpLockPath r)") (auto simp: open_lock_def)

lemma repo_Open_done:
  assumes s: "Script w = []" and r: "fresh r" and sn: "snapshot_is w r sn"
    and sz: "length (contents w (RpJournal r)) \<le> maxCatalogFileBytes"
    and rep: "ReplayCatalogJournal sn (contents w (RpJournal r)) = Inr st"
  shows "\<exists>om r' w'. Repository_Open w None lk r m = ((Inr om, r'), w') \<and> RpStore r' = st \<and>
     RpMutable r' = (m \<and> Files w (RpLockPath r) = None)"
proof -
  have a: "os_MkdirAll w = (None, w)" using s by (simp add: os_MkdirAll_def)
  obtain r1 w2 where b: "open_lock w lk m r = ((None, r1), w2)" "Script w2 = []"
      "RpMutable r1 = (m \<and> Files w (RpLockPath r) = None)"
    using open_lock_done [OF s, of lk m r] r by (auto simp: fresh_def)
  have f: "\<forall>q. q \<noteq> RpLockPath r \<longrightarrow> Files w2 q = Files w q" "RpSnapshot r1 = RpSnapshot r" "RpJournal r1 = RpJournal r"
      "RpLockFile r1 \<or> r1 = r"
    using open_lock_frame [OF b(1)] by auto
  have "Files w2 (RpSnapshot r) = Files w (RpSnapshot r)" "Files w2 (RpJournal r) = Files w (RpJournal r)"
    using f(1) r unfolding fresh_def by metis+
  then have c: "load w2 r1 = ((None, r1\<lparr>RpStore := st\<rparr>), w2)"
    using load_done [OF b(2), of r1 sn] sn sz rep f(2,3) by (simp add: snapshot_is_def contents_def)
  obtain w4 where d: "os_Open_create w2 (RpJournal r1) = (None, w4)" using b(2) by (simp add: os_Open_create_def)
  show ?thesis using r b(3) by (simp add: Repository_Open_def fresh_def a b(1) c d)
qed

section \<open>One writer\<close>

text \<open>
  C35: While another process holds the lock file a repository opens read-only at best. It then changes
  no file: not by opening, not by any event that is appended, not by closing, so that the lock file
  of the other process stays.
\<close>

theorem catalog_has_one_writer:
  assumes "NewRepository root = Inr r" "Files w (RpLockPath r) \<noteq> None"
    and "Repository_Open w None lk r m = ((Inr om, r'), w')"
  shows "OrMode om = OpenReadOnly \<and> \<not> HistoryUpdatesAvailable om \<and> Files w' = Files w \<and>
    (\<forall>v ev. \<exists>e. AppendEvent v None r' ev = ((Some e, r'), v)) \<and>
    (\<forall>v. Files (snd (Repository_Close v r')) = Files v)"
proof -
  note fr = NewRepository_fresh [OF assms(1)]
  from Open_inv [OF assms(3) fr] assms(2) obtain s where
    o: "r' = r\<lparr>RpStore := s, RpJournalFile := RpMutable r\<rparr>" "Files w' = Files w"
    using fr by (auto simp: fresh_def)
  have "\<not> RpMutable r'" "\<not> RpLockFile r'" using o fr by (auto simp: fresh_def)
  moreover have "OrMode om = OpenReadOnly \<and> \<not> HistoryUpdatesAvailable om"
    using assms(3) \<open>\<not> RpMutable r'\<close>
    by (auto simp: Repository_Open_def split: if_splits option.splits prod.splits)
  moreover have "\<exists>e. AppendEvent v None r' ev = ((Some e, r'), v)" for v ev
    by (rule AppendEvent_refused) (use \<open>\<not> RpMutable r'\<close> in \<open>simp add: appendable_def\<close>)
  moreover have "Files (snd (Repository_Close v r')) = Files v" for v
    using Close_frame [of v r'] \<open>\<not> RpLockFile r'\<close> by (metis prod.collapse)
  ultimately show ?thesis using o(2) by blast
qed

section \<open>Sessions\<close>

text \<open>Events appended one after the other until one fails.\<close>

fun append_all :: "World \<Rightarrow> Repository \<Rightarrow> CatalogEvent list \<Rightarrow> (error option \<times> Repository) \<times> World" where
  "append_all w r [] = ((None, r), w)"
| "append_all w r (ev # evs) =
     (case AppendEvent w None r ev of
        ((Some e, r1), w1) \<Rightarrow> ((Some e, r1), w1)
      | ((None, r1), w1) \<Rightarrow> append_all w1 r1 evs)"

lemma append_all_durable:
  assumes "durable w r" "\<forall>ev\<in>set evs. entry_limits (EvEntry ev)" "append_all w r evs = ((None, r'), w')"
  shows "durable w' r' \<and> (\<exists>s. r' = r\<lparr>RpStore := s\<rparr>) \<and>
    CsEntries (RpStore r') = upserts evs (CsEntries (RpStore r)) \<and>
    CsLastSequence (RpStore r') = CsLastSequence (RpStore r) + of_nat (length evs)"
  using assms
proof (induction evs arbitrary: w r)
  case Nil
  then show ?case by (auto intro: exI [of _ "RpStore r"])
next
  case (Cons ev evs)
  obtain e r1 w1 where a: "AppendEvent w None r ev = ((e, r1), w1)" by (metis prod.collapse)
  then have e: "e = None" "append_all w1 r1 evs = ((None, r'), w')" using Cons.prems(3) by (auto split: option.splits)
  have d: "durable w1 r1 \<and> RpStore r1 = after_event (RpStore r) ev \<and> appendable r \<and> (\<exists>s. r1 = r\<lparr>RpStore := s\<rparr>)"
    by (rule durable_append) (use Cons.prems a e in auto)
  note i = Cons.IH [OF conjunct1 [OF d] _ e(2)]
  have "durable w' r' \<and> (\<exists>s. r' = r1\<lparr>RpStore := s\<rparr>) \<and> CsEntries (RpStore r') = upserts evs (CsEntries (RpStore r1)) \<and>
    CsLastSequence (RpStore r') = CsLastSequence (RpStore r1) + of_nat (length evs)"
    by (rule i) (use Cons.prems in simp)
  then show ?case using d by (auto simp: algebra_simps)
qed

text \<open>Without any files the store is empty.\<close>

lemma load_nothing:
  assumes "load w r = ((None, r1), w1)" "Files w (RpSnapshot r) = None" "Files w (RpJournal r) = None"
  shows "RpStore r1 = CatalogStore_zero"
proof -
  obtain x w2 where x: "readBoundedFile w (RpSnapshot r) = (x, w2)" by fastforce
  obtain y w3 where y: "readBoundedFile w2 (RpJournal r) = (y, w3)" by fastforce
  from readBoundedFile_frame [OF x] assms(2) obtain e where e: "x = Inl e" "Files w2 = Files w" by auto
  from readBoundedFile_frame [OF y] assms(3) e(2) obtain f where f: "y = Inl f" by auto
  have "ReplayCatalogJournal \<lparr>SnLastSequence = 0, SnEntries = []\<rparr> [] = Inr (stored_store CatalogStore_zero)"
    by (rule backs_replay [OF backs_empty])
  moreover have "stored_store CatalogStore_zero = CatalogStore_zero"
    by (simp add: stored_store_def CatalogStore_zero_def)
  ultimately show ?thesis using assms(1) by (auto simp: load_def Let_def x y e f split: if_splits)
qed

lemma Open_nothing:
  assumes o: "Repository_Open w None lk r m = ((Inr om, r'), w')" and r: "fresh r"
    and n: "Files w (RpSnapshot r) = None" "Files w (RpJournal r) = None"
  shows "durable w' r' \<and> RpStore r' = CatalogStore_zero \<and> 
    RpSnapshot r' = RpSnapshot r \<and> RpJournal r' = RpJournal r \<and> RpLockPath r' = RpLockPath r"
proof -
  from Open_inv [OF o r] obtain w2 r1 s w3 where
    f: "\<forall>q. q \<noteq> RpLockPath r \<longrightarrow> Files w2 q = Files w q" and
    r1: "r1 = r \<or> r1 = r\<lparr>RpLockFile := True, RpMutable := True\<rparr>" and l: "load w2 r1 = ((None, r1\<lparr>RpStore := s\<rparr>), w3)" and
    r': "r' = r1\<lparr>RpStore := s, RpJournalFile := RpMutable r1\<rparr>" and
    w': "Files w' = (if RpMutable r1 \<and> Files w2 (RpJournal r) = None then (Files w2)(RpJournal r := Some []) else Files w2)"
    by metis
  have p: "RpSnapshot r1 = RpSnapshot r" "RpJournal r1 = RpJournal r" using r1 by auto
  have none: "Files w2 (RpSnapshot r) = None" "Files w2 (RpJournal r) = None"
    using f n r unfolding fresh_def by metis+
  have s: "s = CatalogStore_zero" using load_nothing [OF l] none p by simp
  have "contents w' (RpJournal r) = []" "Files w' (RpSnapshot r) = None"
    using none w' r by (auto simp: contents_def fresh_def)
  then have "durable w' r'" using backs_empty r p by (simp add: durable_def snapshot_is_def r' s fresh_def)
  moreover have "RpLockPath r1 = RpLockPath r" using r1 by auto
  ultimately show ?thesis using r' s p by simp
qed

text \<open>
  C9: A session on a directory without a catalog, whatever the disk does: open, append events that
  are all acknowledged, close. However the close ends, opening the directory again reads the entries
  that the events left, without the status text that is not stored, and the number of the last event,
  and a repository that gets the lock is writable.
\<close>

theorem catalog_session_reopens:
  assumes "NewRepository root = Inr r" "Files w (RpSnapshot r) = None" "Files w (RpJournal r) = None"
    and "Repository_Open w None lk r m = ((Inr om, r1), w1)"
    and "append_all w1 r1 evs = ((None, r2), w2)" "\<forall>ev\<in>set evs. entry_limits (EvEntry ev)"
    and "Repository_Close w2 r2 = ((ce, r3), w3)" "length (contents w3 (RpJournal r)) \<le> maxCatalogFileBytes"
  shows "\<exists>om' r' w'. Repository_Open (w3\<lparr>Script := []\<rparr>) None lk' r m' = ((Inr om', r'), w') \<and>
    CsEntries (RpStore r') = map stored (upserts evs []) \<and> CsLastSequence (RpStore r') = of_nat (length evs) \<and>
    RpMutable r' = (m' \<and> Files w3 (RpLockPath r) = None)"
proof -
  note fr = NewRepository_fresh [OF assms(1)]
  from Open_nothing [OF assms(4) fr assms(2,3)]
  have d1: "durable w1 r1" "RpStore r1 = CatalogStore_zero" and
    p1: "RpSnapshot r1 = RpSnapshot r" "RpJournal r1 = RpJournal r" "RpLockPath r1 = RpLockPath r" by auto
  from append_all_durable [OF d1(1) assms(6,5)] p1
  have d2: "durable w2 r2" "CsEntries (RpStore r2) = upserts evs []" "CsLastSequence (RpStore r2) = of_nat (length evs)" and
    p2: "RpSnapshot r2 = RpSnapshot r" "RpJournal r2 = RpJournal r" "RpLockPath r2 = RpLockPath r"
    using d1(2) by (auto simp: CatalogStore_zero_def)
  have f: "\<forall>q. q \<noteq> RpLockPath r \<longrightarrow> Files w3 q = Files w2 q" using Close_frame [OF assms(7)] p2 by simp
  have e: "Files w3 (RpSnapshot r) = Files w2 (RpSnapshot r)" "Files w3 (RpJournal r) = Files w2 (RpJournal r)"
    using f fr unfolding fresh_def by metis+
  from d2(1) obtain sn where sn: "snapshot_is w2 r2 sn" "backs sn (contents w2 (RpJournal r2)) (RpStore r2)"
    by (auto simp: durable_def)
  have rep: "ReplayCatalogJournal sn (contents w3 (RpJournal r)) = Inr (stored_store (RpStore r2))"
    using backs_replay [OF sn(2)] e p2 by (simp add: contents_def)
  have "snapshot_is w3 r sn" using sn(1) e p2 by (simp add: snapshot_is_def)
  then have "\<exists>om' r' w'. Repository_Open (w3\<lparr>Script := []\<rparr>) None lk' r m' = ((Inr om', r'), w') \<and>
     RpStore r' = stored_store (RpStore r2) \<and> RpMutable r' = (m' \<and> Files (w3\<lparr>Script := []\<rparr>) (RpLockPath r) = None)"
    by (intro repo_Open_done [OF _ fr]) (use assms(8) rep in \<open>simp_all add: snapshot_is_def contents_def\<close>)
  then show ?thesis using d2(2,3) by auto
qed

section \<open>Crashes\<close>

text \<open>A crash that leaves the first \<open>k\<close> bytes of a record behind what the journal held.\<close>

definition crashed :: "World \<Rightarrow> Repository \<Rightarrow> bytes \<Rightarrow> nat \<Rightarrow> World" where
  "crashed w r bs k = put_file w (RpJournal r) (contents w (RpJournal r) @ take k bs)"

lemma crashed_reload:
  assumes d: "durable w r" and e: "write_event (CsLastSequence (RpStore r) + 1) ev = Inr bs" "entry_limits (EvEntry ev)"
    and k: "k \<le> length bs" and sz: "length (contents w (RpJournal r)) + length bs \<le> maxCatalogFileBytes"
  shows "reload (crashed w r bs k) r =
     (if k = length bs then Inr (stored_store (after_event (RpStore r) ev))
      else if 0 < k \<and> k < 24 then Inl (Wrapf ''replay catalog journal'' torn_header)
      else Inr (stored_store (RpStore r)))"
proof -
  from d obtain sn where sn: "snapshot_is w r sn" "backs sn (contents w (RpJournal r)) (RpStore r)"
      "RpSnapshot r \<noteq> RpJournal r" by (auto simp: durable_def)
  let ?w = "crashed w r bs k"
  have c: "contents ?w (RpJournal r) = contents w (RpJournal r) @ take k bs" by (simp add: crashed_def)
  have s: "snapshot_is ?w r sn" using sn by (simp add: crashed_def snapshot_is_def)
  have l: "reload ?w r = (case ReplayCatalogJournal sn (contents w (RpJournal r) @ take k bs) of
      Inl e \<Rightarrow> Inl (Wrapf ''replay catalog journal'' e) | Inr store \<Rightarrow> Inr store)"
    unfolding c [symmetric] by (rule reload_eq [OF s]) (use c sz in simp)
  show ?thesis
  proof (cases "k = length bs")
    case True
    then show ?thesis using l backs_replay [OF backs_event [OF sn(2) e]] by simp
  next
    case False
    then have "k < length bs" using k by simp
    from backs_replay_torn [OF sn(2) e(1) this] show ?thesis using l False by simp
  qed
qed

text \<open>
  C10: Appending an event to a catalog whose files hold its store, whatever the disk does: the journal
  grows by a prefix of the record, and the event is acknowledged only when the whole record is
  written and synced. A crash that leaves \<open>k\<close> bytes of the record lets the catalog
  read as it was (no byte, or at least the 24 bytes of the smallest record), as it becomes (all
  bytes), or makes it unreadable as a whole: with 1 to 23 bytes of the record left the replay fails
  instead of stopping at the torn record.
\<close>

theorem catalog_append_crash:
  assumes "durable w r" "appendable r" "write_event (CsLastSequence (RpStore r) + 1) ev = Inr bs"
    and "entry_limits (EvEntry ev)" "length (contents w (RpJournal r)) + length bs \<le> maxCatalogFileBytes"
    and "AppendEvent w None r ev = ((res, r'), w')"
  shows "(\<exists>k\<le>length bs. Files w' = Files (crashed w r bs k) \<and>
       (if res = None then k = length bs \<and> Stable w' (RpJournal r) = Files w' (RpJournal r) \<and>
          r' = r\<lparr>RpStore := after_event (RpStore r) ev\<rparr> else r' = r)) \<and>
    (\<forall>k\<le>length bs. reload (crashed w r bs k) r =
       (if k = length bs then Inr (stored_store (after_event (RpStore r) ev))
        else if 0 < k \<and> k < 24 then Inl (Wrapf ''replay catalog journal'' torn_header)
        else Inr (stored_store (RpStore r))))"
proof
  from AppendEvent_file [OF assms(2,3,6)] obtain j where "j \<le> length bs"
    "Files w' = (Files w)(RpJournal r := Some (contents w (RpJournal r) @ take j bs))"
    "if res = None then j = length bs \<and> r' = r\<lparr>RpStore := after_event (RpStore r) ev\<rparr> \<and>
       Stable w' (RpJournal r) = Files w' (RpJournal r) else r' = r" by blast
  then show "\<exists>k\<le>length bs. Files w' = Files (crashed w r bs k) \<and>
       (if res = None then k = length bs \<and> Stable w' (RpJournal r) = Files w' (RpJournal r) \<and>
          r' = r\<lparr>RpStore := after_event (RpStore r) ev\<rparr> else r' = r)"
    by (intro exI [of _ j]) (auto simp: crashed_def split: if_splits)
  show "\<forall>k\<le>length bs. reload (crashed w r bs k) r =
       (if k = length bs then Inr (stored_store (after_event (RpStore r) ev))
        else if 0 < k \<and> k < 24 then Inl (Wrapf ''replay catalog journal'' torn_header)
        else Inr (stored_store (RpStore r)))"
    using crashed_reload [OF assms(1,3,4) _ assms(5)] by blast
qed

section \<open>Lost events\<close>

text \<open>
  A failed sync makes the next acknowledged event disappear. The record of the failed event is in
  the journal although the event was refused, and the next event gets the same number: it is
  acknowledged and is in the memory of the running program, but opening the catalog again skips it
  and finds the refused one.
\<close>

theorem failed_sync_loses_next_event:
  assumes "durable w r" "appendable r" "Script w = [IoOk, Io 0 (Some er)]"
    and e1: "write_event (CsLastSequence (RpStore r) + 1) ev1 = Inr bs1" "entry_limits (EvEntry ev1)"
    and e2: "write_event (CsLastSequence (RpStore r) + 1) ev2 = Inr bs2"
    and sq: "unat (CsLastSequence (RpStore r)) + 2 < 2 ^ 64"
    and sz: "length (contents w (RpJournal r)) + length bs1 + length bs2 \<le> maxCatalogFileBytes"
  shows "\<exists>e1 w1 r2 w2. AppendEvent w None r ev1 = ((Some e1, r), w1) \<and>
    AppendEvent w1 None r ev2 = ((None, r2), w2) \<and> RpStore r2 = after_event (RpStore r) ev2 \<and>
    reload w2 r2 = Inr (stored_store (after_event (RpStore r) ev1))"
proof -
  let ?j = "RpJournal r" and ?seq = "CsLastSequence (RpStore r) + 1"
  obtain w1 where w1: "AppendEvent w None r ev1 = ((Some (Wrapf ''sync catalog journal'' er), r), w1)" "Script w1 = []"
      "Files w1 = (Files w)(?j := Some (contents w ?j @ bs1))"
    using assms(3) by (simp add: AppendEvent_writes [OF assms(2) e1(1)] os_Write_end_def os_Sync_def next_io_def contents_def)
  from AppendEvent_done [OF assms(2) e2 w1(2)] obtain w2 where
    w2: "AppendEvent w1 None r ev2 = ((None, r\<lparr>RpStore := after_event (RpStore r) ev2\<rparr>), w2)"
      "Files w2 = (Files w1)(?j := Some (contents w1 ?j @ bs2))" by auto
  from assms(1) obtain sn where sn: "snapshot_is w r sn" "backs sn (contents w ?j) (RpStore r)" "RpSnapshot r \<noteq> ?j"
    by (auto simp: durable_def)
  have c: "contents w2 ?j = (contents w ?j @ bs1) @ bs2" using w1(3) w2(2) by (simp add: contents_def)
  have f: "Files w2 = (Files w)(?j := Some ((contents w ?j @ bs1) @ bs2))" using w1(3) w2(2) by (simp add: contents_def)
  have "backs sn ((contents w ?j @ bs1) @ bs2) (after_event (RpStore r) ev1)"
    by (rule backs_skips [OF backs_event [OF sn(2) e1] e2])
       (use sq in \<open>simp add: word_less_nat_alt unat_word_ariths\<close>)
  then have "reload w2 (r\<lparr>RpStore := after_event (RpStore r) ev2\<rparr>) = Inr (stored_store (after_event (RpStore r) ev1))"
    using reload_eq [of w2 "r\<lparr>RpStore := after_event (RpStore r) ev2\<rparr>" sn] backs_replay
      snapshot_is_journal [OF sn(3) f] sn(1) c sz by (simp add: snapshot_is_def)
  then show ?thesis using w1(1) w2(1) by auto
qed

text \<open>
  Opening a catalog does not cut a torn record off its journal. A shorter event that is appended
  behind one is acknowledged and lost: the replay takes its bytes for the missing part of the torn
  record and stops there.
\<close>

theorem event_behind_torn_record_lost:
  assumes "durable w r" "appendable r" "write_event (CsLastSequence (RpStore r) + 1) ev1 = Inr bs1"
    and e2: "write_event (CsLastSequence (RpStore r) + 1) ev2 = Inr bs2" "24 \<le> k" "k + length bs2 < length bs1"
    and sz: "length (contents w (RpJournal r)) + length bs1 \<le> maxCatalogFileBytes"
  shows "reload (crashed w r bs1 k) r = Inr (stored_store (RpStore r)) \<and>
    (\<exists>r2 w2. AppendEvent ((crashed w r bs1 k)\<lparr>Script := []\<rparr>) None r ev2 = ((None, r2), w2) \<and>
       RpStore r2 = after_event (RpStore r) ev2 \<and> reload w2 r2 = Inr (stored_store (RpStore r)))"
proof -
  let ?j = "RpJournal r" and ?c = "crashed w r bs1 k"
  from AppendEvent_done [OF assms(2) e2(1), of "?c\<lparr>Script := []\<rparr>"] obtain w2 where
    w2: "AppendEvent (?c\<lparr>Script := []\<rparr>) None r ev2 = ((None, r\<lparr>RpStore := after_event (RpStore r) ev2\<rparr>), w2)"
      "Files w2 = (Files ?c)(?j := Some (contents (?c\<lparr>Script := []\<rparr>) ?j @ bs2))" by auto
  from assms(1) obtain sn where sn: "snapshot_is w r sn" "backs sn (contents w ?j) (RpStore r)" "RpSnapshot r \<noteq> ?j"
    by (auto simp: durable_def)
  have f: "Files ?c = (Files w)(?j := Some (contents w ?j @ take k bs1))"
      "Files w2 = (Files w)(?j := Some (contents w ?j @ (take k bs1 @ bs2)))"
    using w2(2) by (simp_all add: crashed_def contents_def)
  have s: "snapshot_is ?c r sn" "snapshot_is w2 r sn" using snapshot_is_journal [OF sn(3)] f sn(1) by blast+
  have c: "contents ?c ?j = contents w ?j @ take k bs1" "contents w2 ?j = contents w ?j @ (take k bs1 @ bs2)"
    using f by (simp_all add: contents_def)
  have t: "ReplayCatalogJournal sn (contents w ?j @ take k bs1) = Inr (stored_store (RpStore r))"
    using backs_replay_torn [OF sn(2) assms(3), of k] e2(2,3) by simp
  have "ReplayCatalogJournal sn (contents w ?j @ (take k bs1 @ bs2)) = Inr (stored_store (RpStore r))"
    by (rule backs_replay_tail [OF sn(2) replay_torn_tail [OF assms(3) e2(2,3)]])
  then have "reload w2 (r\<lparr>RpStore := after_event (RpStore r) ev2\<rparr>) = Inr (stored_store (RpStore r))"
    using reload_eq [of w2 "r\<lparr>RpStore := after_event (RpStore r) ev2\<rparr>" sn] s(2) c(2) sz e2(3)
    by (simp add: snapshot_is_def)
  then show ?thesis using reload_eq [OF s(1)] t c(1) sz e2(3) w2(1) by auto
qed

section \<open>Snapshots and the journal\<close>

text \<open>
  Cutting the records a snapshot holds off the journal changes nothing: whatever bytes the journal
  has, replaying the cut journal gives the same store or the same error as replaying all of it.
\<close>

theorem truncated_journal_replays_same:
  assumes "SnLastSequence sn + 1 \<noteq> 0"
  shows "ReplayCatalogJournal sn (TruncateJournalAfterSnapshot journal sn) = ReplayCatalogJournal sn journal"
proof -
  have "catalog_replay_loop s (SnLastSequence sn + 1) (TruncateJournalAfterSnapshot journal sn) =
    catalog_replay_loop s (SnLastSequence sn + 1) journal" for s
    using assms
  proof (induction journal sn rule: TruncateJournalAfterSnapshot.induct)
    case (1 js sn')
    show ?case
    proof (cases "js = [] \<or> (\<exists>e. UnmarshalCatalogRecord js = Inl e)")
      case True
      then show ?thesis
        by (auto simp: TruncateJournalAfterSnapshot.simps [of js] catalog_replay_loop.simps [of _ _ js]
            catalog_replay_loop.simps [of _ _ "[]"])
    next
      case False
      then obtain rc n where u: "js \<noteq> []" "UnmarshalCatalogRecord js = Inr (rc, n)"
        by (cases "UnmarshalCatalogRecord js") auto
      show ?thesis
      proof (cases "CrSequence rc > SnLastSequence sn'")
        case True
        then show ?thesis using u by (simp add: TruncateJournalAfterSnapshot.simps [of js])
      next
        case c: False
        have "unat (SnLastSequence sn' + 1) = Suc (unat (SnLastSequence sn'))"
          using unatSuc [of "SnLastSequence sn'"] 1(2) by (simp add: add.commute)
        then have "CrSequence rc < SnLastSequence sn' + 1" using c by (simp add: word_less_nat_alt)
        then show ?thesis using 1(1) [OF u(1,2) refl c 1(2)] u c
          by (simp add: TruncateJournalAfterSnapshot.simps [of js] catalog_replay_loop.simps [of _ _ js])
      qed
    qed
  qed
  then show ?thesis unfolding ReplayCatalogJournal_def by presburger
qed

text \<open>
  A snapshot of entries within the limits is read back with its last sequence number and its
  entries, up to the status text.
\<close>

theorem snapshot_roundtrip:
  assumes "MarshalSnapshot sn = Inr bs" "length (SnEntries sn) \<le> maxCatalogEntries"
    and "\<forall>e\<in>set (SnEntries sn). entry_limits e \<and> (\<forall>b. marshalEntry e = Inr b \<longrightarrow> length b \<le> maxCatalogPayloadBytes)"
    and "length bs < 2 ^ 32"
  shows "UnmarshalSnapshot bs = Inr (sn\<lparr>SnEntries := map stored (SnEntries sn)\<rparr>)"
proof -
  obtain pl where p: "Snapshot_Validate sn = None" "marshalEntries (SnEntries sn) = Inr pl"
      "bs = snapshot_prefix sn pl @ le_put 4 (crc32c (snapshot_prefix sn pl))"
    using assms(1) by (auto simp: MarshalSnapshot_def Let_def split: option.splits sum.splits)
  let ?n = "length pl" and ?c = "le_put 4 (crc32c (snapshot_prefix sn pl))"
  have pre: "length (snapshot_prefix sn pl) = 22 + ?n" by (simp add: snapshot_prefix_def)
  have len: "length bs = 26 + ?n" using p(3) pre by simp
  have n: "unat (of_nat ?n :: u32) = ?n" using assms(4) len by (simp add: unat_of_nat)
  have cnt: "unat (of_nat (length (SnEntries sn)) :: u32) = length (SnEntries sn)"
    using assms(2) by (simp add: unat_of_nat)
  have sl: "slice 0 4 bs = snapshotMagic" "slice 4 6 bs = le_put 2 (1 :: u16)" "slice 6 10 bs = put_len32 pl"
    "slice 10 18 bs = le_put 8 (SnLastSequence sn)" "slice 18 22 bs = put_len32 (SnEntries sn)"
    "slice 22 (22 + ?n) bs = pl" "drop (length bs - 4) bs = ?c" "take (length bs - 4) bs = snapshot_prefix sn pl"
    using len pre unfolding p(3) by (simp_all add: snapshot_prefix_def slice_def)
  have es: "entries_loop pl = Inr (map stored (SnEntries sn))"
    by (rule entries_loop_marshal [OF p(2)]) (use assms(3) in blast)
  have v: "Snapshot_Validate (sn\<lparr>SnEntries := map stored (SnEntries sn)\<rparr>) = None"
    using p(1) by (auto simp: Snapshot_Validate_def first_error_None)
  have l4: "length bs - 4 = 22 + ?n" "\<not> length bs < 26" "length bs = 26 + ?n" using len by simp_all
  have u: "unmarshalEntries pl (length (SnEntries sn)) = Inr (map stored (SnEntries sn))"
    using assms(2) marshalEntries_length [OF p(2)] by (simp add: unmarshalEntries_def es)
  have m: "\<not> maxCatalogEntries < length (SnEntries sn)" "\<not> ?n < length (SnEntries sn) * 4"
    using assms(2) marshalEntries_length [OF p(2)] by simp_all
  have "\<lparr>SnLastSequence = SnLastSequence sn, SnEntries = map stored (SnEntries sn)\<rparr> =
      sn\<lparr>SnEntries := map stored (SnEntries sn)\<rparr>" by simp
  note eta = this
  show ?thesis
    unfolding UnmarshalSnapshot_def Let_def sl le_get_put_2 le_get_put_4 le_get_put_8 n cnt u sum.case eta v option.case
    using m l4 by simp
qed

section \<open>Failed writes\<close>

lemma update_first_find:
  assumes "find (\<lambda>x. EnRecordID x = k) es = Some e" "\<And>x. EnRecordID (f x) = EnRecordID x"
  shows "\<exists>ys. update_first k f es = Some ys \<and> find (\<lambda>x. EnRecordID x = k) ys = Some (f e)"
  using assms(1)
proof (induction es)
  case (Cons x es)
  then show ?case using assms(2) by (cases "EnRecordID x = k") auto
qed simp

lemma find_overwrite_first: "find p xs = Some x \<Longrightarrow> p y \<Longrightarrow> find p (overwrite_first p y xs) = Some y"
  by (induction xs) (auto split: if_splits)

lemma find_map_stored: "find (\<lambda>x. EnRecordID x = k) (map stored es) = map_option stored (find (\<lambda>x. EnRecordID x = k) es)"
  by (induction es) simp_all

lemma AppendEvent_failed: "AppendEvent w c r ev = ((Some e, r'), w') \<Longrightarrow> r' = r"
  by (auto simp: AppendEvent_def Let_def split: option.splits if_splits sum.splits prod.splits)

text \<open>What recording a job state overwrites in the repository before it appends the event.\<close>

definition job_ref :: "JobMetadata \<Rightarrow> JobReference" where
  "job_ref m = \<lparr>JrJobID = JmJobID m, JrPath = JmImagePath m, JrFilesPresent = False\<rparr>"

definition in_place :: "JobMetadata \<Rightarrow> Entry \<Rightarrow> Entry" where
  "in_place m x = x\<lparr>EnJobReferences := overwrite_first (\<lambda>j. JrJobID j = JmJobID m) (job_ref m) (EnJobReferences x),
     EnCaptures := (if CapCaptureID (JmCapture m) \<noteq> []
                    then overwrite_first (\<lambda>c. CapCaptureID c = CapCaptureID (JmCapture m)) (JmCapture m) (EnCaptures x)
                    else EnCaptures x)\<rparr>"

lemma recordJobState_appends:
  assumes "RpMutable r" "findEntry (RpStore r) recordID = Some e" "JmJobID m \<noteq> zero_id" "JmImagePath m \<noteq> []"
    "validProcessingState state"
  shows "\<exists>ys entry. find (\<lambda>x. EnRecordID x = recordID) ys = Some (in_place m e) \<and>
    recordJobState w ctxErr now r recordID m state =
      (case AppendEvent w ctxErr (r\<lparr>RpStore := (RpStore r)\<lparr>CsEntries := ys\<rparr>\<rparr>) \<lparr>EvType = EventJobStateChanged, EvEntry = entry\<rparr> of
         ((Some er, r1), w1) \<Rightarrow> ((failedCatalogWrite er, r1), w1)
       | ((None, r1), w1) \<Rightarrow> ((\<lparr>CwState = CatalogWriteRecorded, CwDetail = None\<rparr>, r1), w1))"
proof -
  have "find (\<lambda>x. EnRecordID x = recordID) (CsEntries (RpStore r)) = Some e"
    using assms(2) by (simp add: findEntry_def)
  from update_first_find [OF this, of "in_place m"] obtain ys where
    ys: "update_first recordID (in_place m) (CsEntries (RpStore r)) = Some ys"
      "find (\<lambda>x. EnRecordID x = recordID) ys = Some (in_place m e)"
    by (auto simp: in_place_def)
  show ?thesis
    using assms ys unfolding recordJobState_def Let_def in_place_def job_ref_def by (intro exI [of _ ys]) auto
qed

text \<open>
  The documented write order applies an event to the memory after it is durable. A job state that
  is recorded for a job the entry already refers to, and whose event is refused, still replaces the
  reference in the memory of the repository: its path becomes the new one and its files count as missing, while
  the files of the catalog, when nothing reached them, keep the old reference.
\<close>

theorem failed_write_changes_history:
  assumes "durable w r" "length (contents w (RpJournal r)) \<le> maxCatalogFileBytes" "RpMutable r"
    and "findEntry (RpStore r) recordID = Some e"
    and "find (\<lambda>j. JrJobID j = JmJobID m) (EnJobReferences e) = Some old"
    and "JmJobID m \<noteq> zero_id" "JmImagePath m \<noteq> []" "validProcessingState state"
    and "recordJobState w ctxErr now r recordID m state = ((st, r'), w')"
    and "CwState st = CatalogWriteFailed" "Files w' = Files w"
  shows "\<exists>e' s e''. findEntry (RpStore r') recordID = Some e' \<and>
      find (\<lambda>j. JrJobID j = JmJobID m) (EnJobReferences e') =
        Some \<lparr>JrJobID = JmJobID m, JrPath = JmImagePath m, JrFilesPresent = False\<rparr> \<and>
      reload w' r' = Inr s \<and> findEntry s recordID = Some e'' \<and>
      find (\<lambda>j. JrJobID j = JmJobID m) (EnJobReferences e'') = Some old"
proof -
  let ?ref = "job_ref m" and ?same = "\<lambda>j. JrJobID j = JmJobID m"
  obtain ys entry where ys: "find (\<lambda>x. EnRecordID x = recordID) ys = Some (in_place m e)" and
    rec: "recordJobState w ctxErr now r recordID m state =
      (case AppendEvent w ctxErr (r\<lparr>RpStore := (RpStore r)\<lparr>CsEntries := ys\<rparr>\<rparr>) \<lparr>EvType = EventJobStateChanged, EvEntry = entry\<rparr> of
         ((Some er, r1), w1) \<Rightarrow> ((failedCatalogWrite er, r1), w1)
       | ((None, r1), w1) \<Rightarrow> ((\<lparr>CwState = CatalogWriteRecorded, CwDetail = None\<rparr>, r1), w1))"
    using recordJobState_appends [OF assms(3,4,6,7,8)] by blast
  let ?r0 = "r\<lparr>RpStore := (RpStore r)\<lparr>CsEntries := ys\<rparr>\<rparr>"
  have r': "r' = ?r0" using rec assms(9,10) AppendEvent_failed [of w ctxErr ?r0]
    by (auto split: prod.splits option.splits)
  have mem: "findEntry (RpStore r') recordID = Some (in_place m e)" "find ?same (EnJobReferences (in_place m e)) = Some ?ref"
    using ys find_overwrite_first [OF assms(5), of ?ref] by (simp_all add: r' findEntry_def in_place_def job_ref_def)
  have "reload w' r' = reload w r"
    using assms(1,2,11) by (auto simp: durable_def r' reload_eq snapshot_is_def contents_def)
  then have "reload w' r' = Inr (stored_store (RpStore r))" using durable_reload [OF assms(1,2)] by simp
  moreover have "findEntry (stored_store (RpStore r)) recordID = Some (stored e)"
    using assms(4) by (simp add: findEntry_def find_map_stored)
  moreover have "find ?same (EnJobReferences (stored e)) = Some old" using assms(5) by (simp add: stored_def)
  ultimately show ?thesis using mem unfolding job_ref_def by blast
qed

section \<open>Witnesses\<close>

definition seen_event :: CatalogEvent where
  "seen_event = \<lparr>EvType = 1, EvEntry = resumable_entry\<rparr>"

definition short_event :: CatalogEvent where
  "short_event = \<lparr>EvType = 4, EvEntry = resumable_entry\<lparr>EnJobReferences := []\<rparr>\<rparr>"

lemma write_event_length:
  assumes "EncodeCatalogEvent ev n = Inr rc" "CatalogRecord_Validate rc = None" "length (CrPayload rc) = k"
  shows "\<exists>bs. write_event n ev = Inr bs \<and> length bs = 24 + k"
  using assms by (simp add: write_event_def MarshalCatalogRecord_def record_prefix_length)

lemma known_disc_written: "\<exists>b. marshalContentIdentity known_disc = Inr b \<and> length b = 32"
proof -
  have "ContentIdentity_Validate known_disc = None" by code_simp
  then show ?thesis by (simp add: marshalContentIdentity_def known_disc_def encodeString_def)
qed

lemma resumable_written: "\<exists>b. marshalEntry resumable_entry = Inr b \<and> length b = 128"
proof -
  have "Entry_Validate resumable_entry = None"
      "JobReference_Validate \<lparr>JrJobID = replicate 16 3, JrPath = [97, 46, 105, 115, 111], JrFilesPresent = False\<rparr> = None"
    by code_simp+
  then show ?thesis using known_disc_written
    by (auto simp: marshalEntry_def encodeBool_def put_sized_def encodeString_def marshalJobReference_def
        resumable_entry_def simp del: replicate.simps)
qed

lemma seen_written: "\<exists>bs. write_event 1 seen_event = Inr bs \<and> length bs = 152"
  "\<exists>bs. write_event 1 short_event = Inr bs \<and> length bs = 124"
proof -
  obtain i where i: "marshalContentIdentity known_disc = Inr i" "length i = 32" using known_disc_written by blast
  have v: "Entry_Validate (EvEntry seen_event) = None" "Entry_Validate (EvEntry short_event) = None"
      "JobReference_Validate \<lparr>JrJobID = replicate 16 3, JrPath = [97, 46, 105, 115, 111], JrFilesPresent = False\<rparr> = None"
    by code_simp+
  note defs = write_event_def EncodeCatalogEvent_def CatalogEvent_Validate_def marshalEntry_def MarshalCatalogRecord_def
    CatalogRecord_Validate_def record_prefix_length encodeBool_def put_sized_def encodeString_def marshalJobReference_def
  show "\<exists>bs. write_event 1 seen_event = Inr bs \<and> length bs = 152"
    using v(1) i v(3) by (simp add: defs seen_event_def resumable_entry_def del: replicate.simps)
  show "\<exists>bs. write_event 1 short_event = Inr bs \<and> length bs = 124"
    using v(2) i by (simp add: defs short_event_def resumable_entry_def del: replicate.simps)
qed

lemma seen_limits: "entry_limits (EvEntry seen_event)" "entry_limits (EvEntry short_event)"
  by code_simp+

text \<open>An empty catalog that is open for writing, on a disk with a script.\<close>

definition empty_repo :: Repository where
  "empty_repo = \<lparr>RpRoot = ''c'', RpSnapshot = ''c/catalog.snapshot'', RpJournal = ''c/catalog.journal'',
     RpLockPath = ''c/catalog.lock'', RpLockFile = True, RpJournalFile = True, RpStore = CatalogStore_zero,
     RpMutable = True, RpClosed = False\<rparr>"

definition no_files :: "io list \<Rightarrow> World" where
  "no_files script = \<lparr>Files = (\<lambda>_. None), Stable = (\<lambda>_. None), Script = script\<rparr>"

lemma empty_repo_facts: "durable (no_files s) empty_repo" "appendable empty_repo"
  "contents (no_files s) p = []" "CsLastSequence (RpStore empty_repo) + 1 = 1" "RpStore empty_repo = CatalogStore_zero"
  using backs_empty
  by (simp_all add: durable_def snapshot_is_def empty_repo_def no_files_def appendable_def contents_def CatalogStore_zero_def)

lemma after_event_zero: "CsEntries (after_event CatalogStore_zero ev) = [EvEntry ev]"
  by (simp add: CatalogStore_zero_def)

theorem catalog_append_crash_witness:
  "\<exists>bs. write_event 1 seen_event = Inr bs \<and>
     reload (crashed (no_files []) empty_repo bs 23) empty_repo = Inl (Wrapf ''replay catalog journal'' torn_header) \<and>
     reload (crashed (no_files []) empty_repo bs 24) empty_repo = Inr (stored_store CatalogStore_zero)"
proof -
  obtain bs where bs: "write_event 1 seen_event = Inr bs" "length bs = 152" using seen_written(1) by blast
  obtain res r' w' where a: "AppendEvent (no_files []) None empty_repo seen_event = ((res, r'), w')" by (metis prod.collapse)
  have "\<forall>k\<le>length bs. reload (crashed (no_files []) empty_repo bs k) empty_repo =
     (if k = length bs then Inr (stored_store (after_event (RpStore empty_repo) seen_event))
      else if 0 < k \<and> k < 24 then Inl (Wrapf ''replay catalog journal'' torn_header)
      else Inr (stored_store (RpStore empty_repo)))"
    by (rule conjunct2 [OF catalog_append_crash [OF empty_repo_facts(1,2) _ seen_limits(1) _ a]])
       (use bs empty_repo_facts(3,4) in simp_all)
  then show ?thesis using bs by (simp add: empty_repo_facts(5))
qed

theorem failed_sync_loses_next_event_witness:
  "\<exists>e1 w1 r2 w2. AppendEvent (no_files [IoOk, Io 0 (Some ErrEOF)]) None empty_repo seen_event = ((Some e1, empty_repo), w1) \<and>
     AppendEvent w1 None empty_repo short_event = ((None, r2), w2) \<and> CsEntries (RpStore r2) = [EvEntry short_event] \<and>
     reload w2 r2 = Inr (stored_store (after_event CatalogStore_zero seen_event))"
proof -
  obtain bs1 where bs1: "write_event 1 seen_event = Inr bs1" "length bs1 = 152" using seen_written(1) by blast
  obtain bs2 where bs2: "write_event 1 short_event = Inr bs2" "length bs2 = 124" using seen_written(2) by blast
  let ?w = "no_files [IoOk, Io 0 (Some ErrEOF)]"
  have "\<exists>e1 w1 r2 w2. AppendEvent ?w None empty_repo seen_event = ((Some e1, empty_repo), w1) \<and>
     AppendEvent w1 None empty_repo short_event = ((None, r2), w2) \<and>
     RpStore r2 = after_event (RpStore empty_repo) short_event \<and>
     reload w2 r2 = Inr (stored_store (after_event (RpStore empty_repo) seen_event))"
    by (rule failed_sync_loses_next_event [OF empty_repo_facts(1,2), where er = ErrEOF and ?bs1.0 = bs1 and ?bs2.0 = bs2])
       (use bs1 bs2 empty_repo_facts seen_limits in \<open>simp_all add: no_files_def CatalogStore_zero_def\<close>)
  then show ?thesis using after_event_zero [of short_event] by (metis empty_repo_facts(5))
qed

theorem event_behind_torn_record_lost_witness:
  "\<exists>bs1 r2 w2. AppendEvent ((crashed (no_files []) empty_repo bs1 24)\<lparr>Script := []\<rparr>) None empty_repo short_event = ((None, r2), w2) \<and>
     CsEntries (RpStore r2) = [EvEntry short_event] \<and> reload w2 r2 = Inr (stored_store CatalogStore_zero)"
proof -
  obtain bs1 where bs1: "write_event 1 seen_event = Inr bs1" "length bs1 = 152" using seen_written(1) by blast
  obtain bs2 where bs2: "write_event 1 short_event = Inr bs2" "length bs2 = 124" using seen_written(2) by blast
  have "reload (crashed (no_files []) empty_repo bs1 24) empty_repo = Inr (stored_store (RpStore empty_repo)) \<and>
    (\<exists>r2 w2. AppendEvent ((crashed (no_files []) empty_repo bs1 24)\<lparr>Script := []\<rparr>) None empty_repo short_event = ((None, r2), w2) \<and>
       RpStore r2 = after_event (RpStore empty_repo) short_event \<and> reload w2 r2 = Inr (stored_store (RpStore empty_repo)))"
    by (rule event_behind_torn_record_lost [OF empty_repo_facts(1,2), where ?bs2.0 = bs2 and ?bs1.0 = bs1])
       (use bs1 bs2 empty_repo_facts seen_limits in simp_all)
  then show ?thesis using after_event_zero [of short_event] by (metis empty_repo_facts(5))
qed

theorem truncated_journal_replays_same_witness:
  "ReplayCatalogJournal \<lparr>SnLastSequence = 0, SnEntries = []\<rparr>
     (TruncateJournalAfterSnapshot [0] \<lparr>SnLastSequence = 0, SnEntries = []\<rparr>) = Inl torn_header"
proof -
  have "ReplayCatalogJournal \<lparr>SnLastSequence = 0, SnEntries = []\<rparr> [0] = Inl torn_header"
    by (simp add: ReplayCatalogJournal_def Snapshot_Validate_def catalog_replay_loop.simps [of _ _ "[0]"]
        UnmarshalCatalogRecord_def torn_header_def)
  then show ?thesis
    using truncated_journal_replays_same [of "\<lparr>SnLastSequence = 0, SnEntries = []\<rparr>" "[0]"] by simp
qed

text \<open>The directory of that catalog before it is opened.\<close>

definition new_repo :: Repository where
  "new_repo = \<lparr>RpRoot = ''c'', RpSnapshot = ''c/catalog.snapshot'', RpJournal = ''c/catalog.journal'',
     RpLockPath = ''c/catalog.lock'', RpLockFile = False, RpJournalFile = False, RpStore = CatalogStore_zero,
     RpMutable = False, RpClosed = False\<rparr>"

lemma new_repo_facts: "NewRepository ''c'' = Inr new_repo" "fresh new_repo"
  by (simp_all add: NewRepository_def new_repo_def path_join_def fresh_def)

lemma replay_nothing: "ReplayCatalogJournal \<lparr>SnLastSequence = 0, SnEntries = []\<rparr> [] = Inr CatalogStore_zero"
  using backs_replay [OF backs_empty] by (simp add: stored_store_def CatalogStore_zero_def)

lemma open_new_repo:
  "\<exists>om w1. Repository_Open (no_files []) None [] new_repo True = ((Inr om, empty_repo), w1) \<and> Script w1 = [] \<and>
     contents w1 ''c/catalog.journal'' = []"
proof -
  let ?w = "no_files []" and ?r = "new_repo\<lparr>RpLockFile := True, RpMutable := True\<rparr>"
  obtain w2 where l: "open_lock ?w [] True new_repo = ((None, ?r), w2)" "Script w2 = []"
      "Files w2 = (Files ?w)(''c/catalog.lock'' := Some [])"
    by (simp add: open_lock_def acquireCatalogLock_def os_Create_excl_def os_Write_done os_Sync_all new_repo_def no_files_def)
  have c: "contents w2 ''c/catalog.journal'' = []" using l(3) by (simp add: contents_def no_files_def)
  have "snapshot_is w2 ?r \<lparr>SnLastSequence = 0, SnEntries = []\<rparr>"
    using l(3) by (simp add: snapshot_is_def new_repo_def no_files_def)
  from load_done [OF l(2) this] have d: "load w2 ?r = ((None, ?r\<lparr>RpStore := CatalogStore_zero\<rparr>), w2)"
    using c by (simp add: new_repo_def replay_nothing)
  have m: "os_MkdirAll ?w = (None, ?w)" by (simp add: os_MkdirAll_def no_files_def)
  have j: "os_Open_create w2 ''c/catalog.journal'' = (None, put_file w2 ''c/catalog.journal'' [])"
    using l(2,3) by (simp add: os_Open_create_def no_files_def)
  show ?thesis
    by (intro exI [of _ "\<lparr>OrMode = OpenMutable, HistoryUpdatesAvailable = True\<rparr>"]
          exI [of _ "put_file w2 ''c/catalog.journal'' []"])
       (simp add: Repository_Open_def m l d j, simp add: new_repo_def empty_repo_def j l(2))
qed

theorem catalog_has_one_writer_witness:
  "\<exists>om r' w'. Repository_Open (put_file (no_files []) ''c/catalog.lock'' []) None [] new_repo True = ((Inr om, r'), w') \<and>
     OrMode om = OpenReadOnly"
proof -
  let ?w = "put_file (no_files []) ''c/catalog.lock'' []"
  have "\<exists>om r' w'. Repository_Open ?w None [] new_repo True = ((Inr om, r'), w') \<and> RpStore r' = CatalogStore_zero \<and>
     RpMutable r' = (True \<and> Files ?w (RpLockPath new_repo) = None)"
    by (rule repo_Open_done [OF _ new_repo_facts(2), where sn = "\<lparr>SnLastSequence = 0, SnEntries = []\<rparr>"])
       (simp_all add: no_files_def snapshot_is_def new_repo_def contents_def replay_nothing put_file_def)
  then obtain om r' w' where o: "Repository_Open ?w None [] new_repo True = ((Inr om, r'), w')" by blast
  have "Files ?w (RpLockPath new_repo) \<noteq> None" by (simp add: new_repo_def)
  from catalog_has_one_writer [OF new_repo_facts(1) this o] o show ?thesis by blast
qed

theorem catalog_session_reopens_witness:
  "\<exists>w3. \<forall>m'. \<exists>om' r' w'. Repository_Open (w3\<lparr>Script := []\<rparr>) None [] new_repo m' = ((Inr om', r'), w') \<and>
     CsEntries (RpStore r') = [resumable_entry] \<and> CsLastSequence (RpStore r') = 1"
proof -
  obtain om w1 where o: "Repository_Open (no_files []) None [] new_repo True = ((Inr om, empty_repo), w1)" "Script w1 = []"
      "contents w1 ''c/catalog.journal'' = []" using open_new_repo by blast
  obtain bs where bs: "write_event 1 seen_event = Inr bs" "length bs = 152" using seen_written(1) by blast
  from AppendEvent_done [OF empty_repo_facts(2) _ o(2), of seen_event bs] obtain w2 where
    a: "AppendEvent w1 None empty_repo seen_event = ((None, empty_repo\<lparr>RpStore := after_event (RpStore empty_repo) seen_event\<rparr>), w2)"
      "Files w2 = (Files w1)(RpJournal empty_repo := Some (contents w1 (RpJournal empty_repo) @ bs))"
    using bs empty_repo_facts(4) by auto
  let ?r2 = "empty_repo\<lparr>RpStore := after_event (RpStore empty_repo) seen_event\<rparr>"
  have all: "append_all w1 empty_repo [seen_event] = ((None, ?r2), w2)" by (simp add: a(1))
  obtain ce r3 w3 where c: "Repository_Close w2 ?r2 = ((ce, r3), w3)" by (metis prod.collapse)
  have n: "Files (no_files []) (RpSnapshot new_repo) = None" "Files (no_files []) (RpJournal new_repo) = None"
    by (simp_all add: no_files_def)
  have p: "RpJournal empty_repo = ''c/catalog.journal''" "RpJournal new_repo = ''c/catalog.journal''"
      "RpLockPath ?r2 = ''c/catalog.lock''" by (simp_all add: empty_repo_def new_repo_def)
  have "Files w3 ''c/catalog.journal'' = Files w2 ''c/catalog.journal''"
    using Close_frame [OF c] unfolding p by simp
  then have sz: "length (contents w3 (RpJournal new_repo)) \<le> 67108864"
    using a(2) o(3) bs(2) unfolding p by (simp add: contents_def)
  have "\<forall>ev\<in>set [seen_event]. entry_limits (EvEntry ev)" using seen_limits(1) by simp
  note t = catalog_session_reopens [OF new_repo_facts(1) n o(1) all this c sz]
  have "map stored (upserts [seen_event] []) = [resumable_entry]"
    by (simp add: seen_event_def stored_def resumable_entry_def)
  moreover have "\<exists>om' r' w'. Repository_Open (w3\<lparr>Script := []\<rparr>) None [] new_repo m' = ((Inr om', r'), w') \<and>
     CsEntries (RpStore r') = map stored (upserts [seen_event] []) \<and> CsLastSequence (RpStore r') = 1" for m'
    using t [of "[]" m'] by auto
  ultimately show ?thesis by auto
qed

theorem snapshot_roundtrip_witness:
  "\<exists>bs. MarshalSnapshot \<lparr>SnLastSequence = 3, SnEntries = [resumable_entry]\<rparr> = Inr bs \<and>
     UnmarshalSnapshot bs = Inr \<lparr>SnLastSequence = 3, SnEntries = [resumable_entry]\<rparr>"
proof -
  let ?sn = "\<lparr>SnLastSequence = 3, SnEntries = [resumable_entry]\<rparr>"
  obtain pl where pl: "marshalEntry resumable_entry = Inr pl" "length pl = 128" using resumable_written by blast
  have v: "Snapshot_Validate ?sn = None" by code_simp
  have st: "stored resumable_entry = resumable_entry" by (simp add: stored_def resumable_entry_def)
  obtain bs where bs: "MarshalSnapshot ?sn = Inr bs" "length bs = 158"
    using v pl by (simp add: MarshalSnapshot_def marshalEntries_def put_sized_def snapshot_prefix_def)
  have "\<forall>e\<in>set (SnEntries ?sn). entry_limits e \<and> (\<forall>b. marshalEntry e = Inr b \<longrightarrow> length b \<le> 1048576)"
    using pl seen_limits(1) by (simp add: seen_event_def)
  from snapshot_roundtrip [OF bs(1) _ this] bs st show ?thesis by simp
qed

text \<open>A disk that takes no byte of the next record.\<close>

lemma AppendEvent_full_disk:
  assumes "Script w = [Io 0 (Some er)]" "Files w (RpJournal r) = Some js"
  shows "\<exists>e w'. AppendEvent w None r ev = ((Some e, r), w') \<and> Files w' = Files w"
proof (cases "\<not> appendable r \<or> (\<forall>bs. write_event (CsLastSequence (RpStore r) + 1) ev \<noteq> Inr bs)")
  case True
  then show ?thesis using AppendEvent_refused [of r ev w] by auto
next
  case False
  then obtain bs where "appendable r" "write_event (CsLastSequence (RpStore r) + 1) ev = Inr bs" by auto
  then show ?thesis using assms
    by (simp add: AppendEvent_writes os_Write_end_def next_io_def contents_def fun_upd_idem)
qed

lemma failedCatalogWrite_state [simp]: "CwState (failedCatalogWrite e) = CatalogWriteFailed"
  by (simp add: failedCatalogWrite_def)

theorem failed_write_changes_history_witness:
  "\<exists>w r m st r' w' e' s e''. recordJobState w None 5 r (replicate 16 1) m ProcessingCompleted = ((st, r'), w') \<and>
     findEntry (RpStore r') (replicate 16 1) = Some e' \<and>
     find (\<lambda>j. JrJobID j = JmJobID m) (EnJobReferences e') =
       Some \<lparr>JrJobID = JmJobID m, JrPath = [98], JrFilesPresent = False\<rparr> \<and>
     reload w' r' = Inr s \<and> findEntry s (replicate 16 1) = Some e'' \<and>
     find (\<lambda>j. JrJobID j = JmJobID m) (EnJobReferences e'') =
       Some \<lparr>JrJobID = JmJobID m, JrPath = [97, 46, 105, 115, 111], JrFilesPresent = False\<rparr>"
proof -
  obtain bs where bs: "write_event 1 seen_event = Inr bs" "length bs = 152" using seen_written(1) by blast
  from AppendEvent_done [OF empty_repo_facts(2) _ , of seen_event bs "no_files []"] obtain w2 where
    a: "AppendEvent (no_files []) None empty_repo seen_event = ((None, empty_repo\<lparr>RpStore := after_event (RpStore empty_repo) seen_event\<rparr>), w2)"
      "Files w2 = (Files (no_files []))(RpJournal empty_repo := Some bs)"
    using bs empty_repo_facts(3,4) by (auto simp: no_files_def)
  let ?r = "empty_repo\<lparr>RpStore := after_event (RpStore empty_repo) seen_event\<rparr>"
    and ?w = "w2\<lparr>Script := [Io 0 (Some ErrEOF)]\<rparr>"
    and ?m = "\<lparr>JmJobID = replicate 16 3, JmImagePath = [98], JmCapture = \<lparr>CapCaptureID = [], CapDevice = \<lparr>DevVendor = [],
       DevProduct = [], DevRevision = [], DevSerial = [], DevTransport = []\<rparr>, CapStartedAt = 0, CapUserLabel = [],
       CapPhysicalCopy = None\<rparr>\<rparr>"
  have "durable w2 ?r" using durable_append [OF empty_repo_facts(1) seen_limits(1) a(1)] by simp
  then have d: "durable ?w ?r" by (simp add: durable_def snapshot_is_def contents_def)
  have sz: "length (contents ?w (RpJournal ?r)) \<le> 67108864" using a(2) bs(2) by (simp add: contents_def)
  have f: "findEntry (RpStore ?r) (replicate 16 1) = Some resumable_entry"
    unfolding findEntry_def by (simp add: after_event_def CatalogStore_zero_def empty_repo_def seen_event_def resumable_entry_def)
  have k: "find (\<lambda>j. JrJobID j = JmJobID ?m) (EnJobReferences resumable_entry) =
      Some \<lparr>JrJobID = replicate 16 3, JrPath = [97, 46, 105, 115, 111], JrFilesPresent = False\<rparr>"
    by (simp add: resumable_entry_def)
  have z: "JmJobID ?m \<noteq> zero_id" by (simp add: zero_id_def)
  obtain st r' w' where x: "recordJobState ?w None 5 ?r (replicate 16 1) ?m ProcessingCompleted = ((st, r'), w')"
    by (metis prod.collapse)
  have mu: "RpMutable ?r" by (simp add: empty_repo_def)
  have jf: "Files ?w (RpJournal ?r) = Some bs" using a(2) by simp
  have y: "CwState st = CatalogWriteFailed \<and> Files w' = Files ?w"
  proof -
    obtain ys entry where "recordJobState ?w None 5 ?r (replicate 16 1) ?m ProcessingCompleted =
      (case AppendEvent ?w None (?r\<lparr>RpStore := (RpStore ?r)\<lparr>CsEntries := ys\<rparr>\<rparr>) \<lparr>EvType = EventJobStateChanged, EvEntry = entry\<rparr> of
         ((Some er, r1), w1) \<Rightarrow> ((failedCatalogWrite er, r1), w1)
       | ((None, r1), w1) \<Rightarrow> ((\<lparr>CwState = CatalogWriteRecorded, CwDetail = None\<rparr>, r1), w1))"
      using recordJobState_appends [OF mu f z, of ProcessingCompleted ?w None 5] by auto
    moreover have "\<exists>e v. AppendEvent ?w None (?r\<lparr>RpStore := (RpStore ?r)\<lparr>CsEntries := ys\<rparr>\<rparr>) \<lparr>EvType = EventJobStateChanged, EvEntry = entry\<rparr> =
        ((Some e, ?r\<lparr>RpStore := (RpStore ?r)\<lparr>CsEntries := ys\<rparr>\<rparr>), v) \<and> Files v = Files ?w"
      by (rule AppendEvent_full_disk) (use jf in simp_all)
    ultimately show ?thesis using x by auto
  qed
  from failed_write_changes_history [OF d sz mu f k z _ _ x conjunct1 [OF y] conjunct2 [OF y]] x
  show ?thesis by (intro exI [of _ ?w] exI [of _ ?r] exI [of _ ?m] exI [of _ st] exI [of _ r'] exI [of _ w']) simp
qed

end
