(* ===== verification/Merge.thy ===== *)
theory Merge
  imports Extents Catalog
begin

text \<open>
  The plan of merging several captures of one disc (\<^verbatim>\<open>internal/merge\<close>:
  \<^verbatim>\<open>types.go\<close>, \<^verbatim>\<open>candidates.go\<close>, \<^verbatim>\<open>resolve.go\<close>,
  \<^verbatim>\<open>provenance.go\<close>, \<^verbatim>\<open>coalesce.go\<close>, \<^verbatim>\<open>plan.go\<close>) with the evidence lists of
  \<^verbatim>\<open>internal/integrity/provenance.go\<close>: the boundaries of all extents cut the disc into segments,
  every segment is resolved from the extents the captures have there, and equal neighbours are
  joined.
\<close>

section \<open>Evidence\<close>

text \<open>\<open>EvidenceEmpty\<close> is the empty string, which no constant has.\<close>

datatype Evidence =
    EvidenceSuccessfulRead | EvidenceRepeatedAgreement | EvidenceCrossCaptureAgree
  | EvidenceTrustedChecksum | EvidenceReconstruction | EvidenceTentativeData | EvidenceConflict
  | EvidenceEmpty

fun NormalizeEvidence_loop :: "Evidence set \<Rightarrow> Evidence list \<Rightarrow> Evidence list" where
  "NormalizeEvidence_loop seen [] = []"
| "NormalizeEvidence_loop seen (item # items) =
     (if item = EvidenceEmpty \<or> item \<in> seen then NormalizeEvidence_loop seen items
      else item # NormalizeEvidence_loop (insert item seen) items)"

definition NormalizeEvidence :: "Evidence list \<Rightarrow> Evidence list" where
  "NormalizeEvidence items = NormalizeEvidence_loop {} items"

definition EvidenceFromStateConfidence :: "Extent \<Rightarrow> Evidence list" where
  "EvidenceFromStateConfidence e =
     (if State e = SectorStateReadUnverified
      then NormalizeEvidence [EvidenceSuccessfulRead, EvidenceTentativeData]
      else if State e = SectorStateVerified then
        (if Confidence e = ConfidenceRepeatedSingleCapture then NormalizeEvidence [EvidenceRepeatedAgreement]
         else if Confidence e = ConfidenceRepeatedIndependentCapture
         then NormalizeEvidence [EvidenceRepeatedAgreement, EvidenceCrossCaptureAgree]
         else if Confidence e = ConfidenceTrustedChecksum then NormalizeEvidence [EvidenceTrustedChecksum]
         else [])
      else if State e = SectorStateReconstructed
      then NormalizeEvidence [EvidenceReconstruction, EvidenceTrustedChecksum]
      else if State e = SectorStateConflicting then NormalizeEvidence [EvidenceConflict]
      else [])"

section \<open>Captures and candidates\<close>

datatype SelectionRule =
    RuleTrustedChecksumMatch | RuleReconstructedTrustedChecksum | RuleIdenticalVerifiedCandidates
  | RuleSingleVerifiedCandidate | RuleIdenticalUnverifiedCandidates | RuleSingleUnverifiedCandidate
  | RuleConflict | RuleMissing

record Capture =
  McCaptureID :: gostring
  McIdentity :: ContentIdentity
  McExtents :: "Extent list"

record MergedExtent =
  MeExtent :: Extent
  MeSelectedCaptureID :: gostring
  MeSelectionRule :: SelectionRule
  MeCandidateHashes :: "bytes list"
  MeProvenance :: "Evidence list"
  MeUnresolvedConflict :: bool

record candidateExtent =
  CeCaptureID :: gostring
  CeExtent :: Extent

definition filterTrustedVerified :: "candidateExtent list \<Rightarrow> candidateExtent list" where
  "filterTrustedVerified cs =
     filter (\<lambda>c. State (CeExtent c) = SectorStateVerified \<and> Confidence (CeExtent c) = ConfidenceTrustedChecksum) cs"

definition filterReconstructed :: "candidateExtent list \<Rightarrow> candidateExtent list" where
  "filterReconstructed cs =
     filter (\<lambda>c. State (CeExtent c) = SectorStateReconstructed \<and>
                 Confidence (CeExtent c) = ConfidenceReconstructedChecksum) cs"

definition filterVerified :: "candidateExtent list \<Rightarrow> candidateExtent list" where
  "filterVerified cs = filter (\<lambda>c. State (CeExtent c) = SectorStateVerified) cs"

definition filterUnverified :: "candidateExtent list \<Rightarrow> candidateExtent list" where
  "filterUnverified cs =
     filter (\<lambda>c. State (CeExtent c) = SectorStateReadUnverified \<and> Confidence (CeExtent c) = ConfidenceSingleRead) cs"

fun allSameHash :: "candidateExtent list \<Rightarrow> bool" where
  "allSameHash [] = False"
| "allSameHash (c # cs) = list_all (\<lambda>d. DataHash (CeExtent d) = DataHash (CeExtent c)) cs"

definition distinctCaptures :: "candidateExtent list \<Rightarrow> nat" where
  "distinctCaptures cs = length (remdups (map CeCaptureID cs))"

definition claimsData :: "SectorState \<Rightarrow> bool" where
  "claimsData s \<longleftrightarrow> s \<in> {SectorStateReadUnverified, SectorStateVerified, SectorStateReconstructed}"

text \<open>\<^verbatim>\<open>bytes.Compare\<close> is the lexicographic order of byte lists.\<close>

definition uniqueHashes :: "candidateExtent list \<Rightarrow> bytes list" where
  "uniqueHashes cs =
     sort (remdups (map (\<lambda>c. DataHash (CeExtent c)) (filter (\<lambda>c. claimsData (State (CeExtent c))) cs)))"

section \<open>Resolution of a segment\<close>

definition sliceExtent :: "Extent \<Rightarrow> u64 \<Rightarrow> u64 \<Rightarrow> Extent" where
  "sliceExtent e start stop = e\<lparr>StartLBA := start, Sectors := ucast (stop - start)\<rparr>"

definition provenanceForRule :: "SelectionRule \<Rightarrow> Extent \<Rightarrow> Evidence list" where
  "provenanceForRule rule e =
     (case rule of
        RuleTrustedChecksumMatch \<Rightarrow> NormalizeEvidence [EvidenceTrustedChecksum]
      | RuleReconstructedTrustedChecksum \<Rightarrow> NormalizeEvidence [EvidenceReconstruction, EvidenceTrustedChecksum]
      | RuleIdenticalVerifiedCandidates \<Rightarrow> NormalizeEvidence [EvidenceRepeatedAgreement, EvidenceCrossCaptureAgree]
      | RuleSingleVerifiedCandidate \<Rightarrow> EvidenceFromStateConfidence e
      | RuleIdenticalUnverifiedCandidates \<Rightarrow> NormalizeEvidence [EvidenceCrossCaptureAgree, EvidenceTentativeData]
      | RuleSingleUnverifiedCandidate \<Rightarrow> NormalizeEvidence [EvidenceSuccessfulRead, EvidenceTentativeData]
      | RuleConflict \<Rightarrow> NormalizeEvidence [EvidenceConflict]
      | RuleMissing \<Rightarrow> [])"

definition mergedExtentFromCandidate ::
  "candidateExtent \<Rightarrow> SelectionRule \<Rightarrow> SectorState \<Rightarrow> Confidence_t \<Rightarrow> bytes list \<Rightarrow> MergedExtent" where
  "mergedExtentFromCandidate c rule st conf hashes =
     (let e = (CeExtent c)\<lparr>State := st, Confidence := conf\<rparr>
      in \<lparr>MeExtent = e, MeSelectedCaptureID = CeCaptureID c, MeSelectionRule = rule, MeCandidateHashes = hashes,
          MeProvenance = provenanceForRule rule e, MeUnresolvedConflict = False\<rparr>)"

definition empty_extent :: "u64 \<Rightarrow> u64 \<Rightarrow> SectorState \<Rightarrow> Extent" where
  "empty_extent start stop st = Extent_zero\<lparr>StartLBA := start, Sectors := ucast (stop - start), State := st\<rparr>"

definition conflictExtent :: "u64 \<Rightarrow> u64 \<Rightarrow> bytes list \<Rightarrow> MergedExtent" where
  "conflictExtent start stop hashes =
     \<lparr>MeExtent = empty_extent start stop SectorStateConflicting, MeSelectedCaptureID = [], MeSelectionRule = RuleConflict,
      MeCandidateHashes = hashes, MeProvenance = NormalizeEvidence [EvidenceConflict], MeUnresolvedConflict = True\<rparr>"

definition missingExtent :: "u64 \<Rightarrow> u64 \<Rightarrow> MergedExtent" where
  "missingExtent start stop =
     \<lparr>MeExtent = empty_extent start stop SectorStateMissing, MeSelectedCaptureID = [], MeSelectionRule = RuleMissing,
      MeCandidateHashes = [], MeProvenance = [], MeUnresolvedConflict = False\<rparr>"

text \<open>The candidates of a segment, and what \<^verbatim>\<open>resolveSegment\<close> makes of them; its error is always nil.\<close>

definition segment_candidates :: "u64 \<Rightarrow> u64 \<Rightarrow> Capture list \<Rightarrow> candidateExtent list" where
  "segment_candidates start stop captures =
     List.map_filter (\<lambda>c. case LookupExtent (McExtents c) start of
         None \<Rightarrow> None
       | Some (e, _) \<Rightarrow>
           if EndLBA e \<ge> stop then Some \<lparr>CeCaptureID = McCaptureID c, CeExtent = sliceExtent e start stop\<rparr> else None)
       captures"

definition resolve_candidates :: "u64 \<Rightarrow> u64 \<Rightarrow> candidateExtent list \<Rightarrow> MergedExtent" where
  "resolve_candidates start stop cs =
     (let hashes = uniqueHashes cs;
          trusted = filterTrustedVerified cs;
          reconstructed = filterReconstructed cs;
          verified = filterVerified cs;
          unverified = filterUnverified cs
      in if trusted \<noteq> [] then
           (if \<not> allSameHash trusted then conflictExtent start stop hashes
            else mergedExtentFromCandidate (hd trusted) RuleTrustedChecksumMatch SectorStateVerified
                   ConfidenceTrustedChecksum hashes)
         else if reconstructed \<noteq> [] then
           (if \<not> allSameHash reconstructed then conflictExtent start stop hashes
            else mergedExtentFromCandidate (hd reconstructed) RuleReconstructedTrustedChecksum
                   SectorStateReconstructed ConfidenceReconstructedChecksum hashes)
         else if verified \<noteq> [] then
           (if length verified \<ge> 2 \<and> allSameHash verified
            then mergedExtentFromCandidate (hd verified) RuleIdenticalVerifiedCandidates SectorStateVerified
                   ConfidenceRepeatedIndependentCapture hashes
            else if length verified = 1
            then mergedExtentFromCandidate (hd verified) RuleSingleVerifiedCandidate (State (CeExtent (hd verified)))
                   (Confidence (CeExtent (hd verified))) hashes
            else conflictExtent start stop hashes)
         else if unverified \<noteq> [] then
           (if length unverified \<ge> 2 \<and> allSameHash unverified \<and> distinctCaptures unverified \<ge> 2
            then mergedExtentFromCandidate (hd unverified) RuleIdenticalUnverifiedCandidates SectorStateVerified
                   ConfidenceRepeatedIndependentCapture hashes
            else if length unverified = 1
            then mergedExtentFromCandidate (hd unverified) RuleSingleUnverifiedCandidate SectorStateReadUnverified
                   ConfidenceSingleRead hashes
            else conflictExtent start stop hashes)
         else if hashes \<noteq> [] then conflictExtent start stop hashes
         else missingExtent start stop)"

definition resolveSegment :: "u64 \<Rightarrow> u64 \<Rightarrow> Capture list \<Rightarrow> MergedExtent" where
  "resolveSegment start stop captures = resolve_candidates start stop (segment_candidates start stop captures)"

section \<open>The plan\<close>

definition canMergeMergedExtent :: "MergedExtent \<Rightarrow> MergedExtent \<Rightarrow> bool" where
  "canMergeMergedExtent l r \<longleftrightarrow>
     EndLBA (MeExtent l) = StartLBA (MeExtent r) \<and> State (MeExtent l) = State (MeExtent r) \<and>
     Confidence (MeExtent l) = Confidence (MeExtent r) \<and> MeSelectedCaptureID l = MeSelectedCaptureID r \<and>
     MeSelectionRule l = MeSelectionRule r \<and> MeProvenance l = MeProvenance r \<and>
     MeUnresolvedConflict l = MeUnresolvedConflict r \<and> MeCandidateHashes l = MeCandidateHashes r"

definition appendMergedExtent :: "MergedExtent list \<Rightarrow> MergedExtent \<Rightarrow> MergedExtent list" where
  "appendMergedExtent result nxt =
     (if result = [] then [nxt]
      else if canMergeMergedExtent (last result) nxt
      then butlast result @ [(last result)\<lparr>MeExtent :=
             (MeExtent (last result))\<lparr>Sectors := Sectors (MeExtent (last result)) + Sectors (MeExtent nxt)\<rparr>\<rparr>]
      else result @ [nxt])"

fun extent_boundaries :: "u64 \<Rightarrow> Extent list \<Rightarrow> u64 list result" where
  "extent_boundaries sectorCount [] = Inr []"
| "extent_boundaries sectorCount (e # es) =
     (if EndLBA e > sectorCount then Inl (Errorf ''build merge plan capture: extent exceeds sector count'')
      else case extent_boundaries sectorCount es of
        Inl er \<Rightarrow> Inl er
      | Inr bs \<Rightarrow> Inr (StartLBA e # EndLBA e # bs))"

text \<open>\<^verbatim>\<open>reflect.DeepEqual\<close> of two match keys is equality of all their fields.\<close>

fun capture_boundaries :: "ContentIdentity \<Rightarrow> Capture list \<Rightarrow> u64 list result" where
  "capture_boundaries baseline [] = Inr []"
| "capture_boundaries baseline (c # cs) =
     (if McCaptureID c = [] then Inl (Errorf ''build merge plan capture: capture id is required'')
      else case ContentIdentity_Validate (McIdentity c) of
        Some e \<Rightarrow> Inl (Wrapf ''build merge plan capture identity'' e)
      | None \<Rightarrow>
        if MatchKey (McIdentity c) \<noteq> MatchKey baseline
        then Inl (Errorf ''build merge plan capture: logical-content identity conflict blocks automatic merge'')
        else (case ValidateExtentSet (McExtents c) of
          Some e \<Rightarrow> Inl (Wrapf ''build merge plan capture extents'' e)
        | None \<Rightarrow>
          (case extent_boundaries (IdSectorCount baseline) (McExtents c) of
             Inl e \<Rightarrow> Inl e
           | Inr bs \<Rightarrow> (case capture_boundaries baseline cs of Inl e \<Rightarrow> Inl e | Inr rest \<Rightarrow> Inr (bs @ rest)))))"

fun uniqueBoundaries :: "u64 list \<Rightarrow> u64 list" where
  "uniqueBoundaries [] = []"
| "uniqueBoundaries [b] = [b]"
| "uniqueBoundaries (b # c # bs) = (if c \<noteq> b then b # uniqueBoundaries (c # bs) else uniqueBoundaries (c # bs))"

fun plan_segments :: "Capture list \<Rightarrow> MergedExtent list \<Rightarrow> u64 list \<Rightarrow> MergedExtent list" where
  "plan_segments captures merged (start # stop # rest) =
     plan_segments captures
       (if stop \<le> start then merged else appendMergedExtent merged (resolveSegment start stop captures)) (stop # rest)"
| "plan_segments captures merged _ = merged"

definition BuildPlan :: "Capture list \<Rightarrow> MergedExtent list result" where
  "BuildPlan captures =
     (if captures = [] then Inl (Errorf ''build merge plan: at least one capture is required'')
      else let baseline = McIdentity (hd captures) in
      case ContentIdentity_Validate baseline of
        Some e \<Rightarrow> Inl (Wrapf ''build merge plan baseline identity'' e)
      | None \<Rightarrow>
        (case capture_boundaries baseline captures of
           Inl e \<Rightarrow> Inl e
         | Inr bs \<Rightarrow> Inr (plan_segments captures [] (uniqueBoundaries (sort (0 # IdSectorCount baseline # bs))))))"

end
