(* ===== verification/MergeFacts.thy ===== *)
theory MergeFacts
  imports Merge ExtentFacts
begin

text \<open>
  Facts about the merge plan: what it decides for a sector does not depend on the segment the sector
  is resolved in, and the extents of the plan follow each other without a gap.
\<close>

section \<open>Decisions\<close>

text \<open>What a merged extent says of its sectors.\<close>

definition decision :: "MergedExtent \<Rightarrow> MergedExtent" where
  "decision m = m\<lparr>MeExtent := Extent_zero\<lparr>State := State (MeExtent m), Confidence := Confidence (MeExtent m)\<rparr>\<rparr>"

text \<open>The candidates of one sector are what the maps of the captures say of it.\<close>

definition sector_candidates :: "Capture list \<Rightarrow> nat \<Rightarrow> candidateExtent list" where
  "sector_candidates captures n =
     List.map_filter (\<lambda>c. map_option (\<lambda>b. \<lparr>CeCaptureID = McCaptureID c, CeExtent = b\<rparr>) (extent_at (McExtents c) n)) captures"

definition sector_decision :: "Capture list \<Rightarrow> nat \<Rightarrow> MergedExtent" where
  "sector_decision captures n = decision (resolve_candidates 0 0 (sector_candidates captures n))"

definition norm_candidate :: "candidateExtent \<Rightarrow> candidateExtent" where
  "norm_candidate c = c\<lparr>CeExtent := body (CeExtent c)\<rparr>"

lemma norm_candidate_simps [simp]:
  "CeCaptureID (norm_candidate c) = CeCaptureID c" "CeExtent (norm_candidate c) = body (CeExtent c)"
  by (simp_all add: norm_candidate_def)

lemma filters_norm [simp]:
  "filterTrustedVerified (map norm_candidate cs) = map norm_candidate (filterTrustedVerified cs)"
  "filterReconstructed (map norm_candidate cs) = map norm_candidate (filterReconstructed cs)"
  "filterVerified (map norm_candidate cs) = map norm_candidate (filterVerified cs)"
  "filterUnverified (map norm_candidate cs) = map norm_candidate (filterUnverified cs)"
  by (simp_all add: filterTrustedVerified_def filterReconstructed_def filterVerified_def filterUnverified_def
      filter_map comp_def)

lemma allSameHash_norm [simp]: "allSameHash (map norm_candidate cs) = allSameHash cs"
  by (cases cs) (simp_all add: list_all_iff)

lemma distinctCaptures_norm [simp]: "distinctCaptures (map norm_candidate cs) = distinctCaptures cs"
  by (simp add: distinctCaptures_def comp_def)

lemma uniqueHashes_norm [simp]: "uniqueHashes (map norm_candidate cs) = uniqueHashes cs"
  by (simp add: uniqueHashes_def filter_map comp_def)

lemma decision_merged:
  "decision (mergedExtentFromCandidate (norm_candidate c) rule st conf hs) = decision (mergedExtentFromCandidate c rule st conf hs)"
  by (simp add: decision_def mergedExtentFromCandidate_def Let_def provenanceForRule_def EvidenceFromStateConfidence_def
      split: SelectionRule.splits)

lemma decision_conflict: "decision (conflictExtent a b hs) = decision (conflictExtent 0 0 hs)"
  by (simp add: decision_def conflictExtent_def empty_extent_def)

lemma decision_missing: "decision (missingExtent a b) = decision (missingExtent 0 0)"
  by (simp add: decision_def missingExtent_def empty_extent_def)

lemma resolve_candidates_norm:
  "decision (resolve_candidates a b cs) = decision (resolve_candidates 0 0 (map norm_candidate cs))"
  unfolding resolve_candidates_def Let_def filters_norm uniqueHashes_norm allSameHash_norm distinctCaptures_norm
    length_map map_is_Nil_conv
  by (simp add: hd_map decision_merged decision_conflict [of a b] decision_missing [of a b])

section \<open>Segments without boundaries inside\<close>

definition uncut :: "nat \<Rightarrow> nat \<Rightarrow> Extent list \<Rightarrow> bool" where
  "uncut a b es \<longleftrightarrow> (\<forall>e\<in>set es. (startN e \<le> a \<or> b \<le> startN e) \<and> (endN e \<le> a \<or> b \<le> endN e))"

lemma uncut_covers: "uncut a b es \<Longrightarrow> e \<in> set es \<Longrightarrow> a \<le> n \<Longrightarrow> n < b \<Longrightarrow> covers e n = covers e a"
  by (fastforce simp: uncut_def covers_def)

lemma find_cong_set: "(\<And>x. x \<in> set xs \<Longrightarrow> p x = q x) \<Longrightarrow> find p xs = find q xs"
  by (induction xs) auto

lemma map_map_filter:
  "(\<And>x. x \<in> set xs \<Longrightarrow> map_option g (f x) = h x) \<Longrightarrow> map g (List.map_filter f xs) = List.map_filter h xs"
proof (induction xs)
  case (Cons x xs)
  have "map_option g (f x) = h x" using Cons.prems by simp
  moreover have "map g (List.map_filter f xs) = List.map_filter h xs" using Cons by simp
  ultimately show ?case by (cases "f x"; cases "h x") (simp_all add: List.map_filter_simps)
qed (simp add: List.map_filter_simps)

lemma body_slice [simp]: "body (sliceExtent e a b) = body e"
  by (simp add: sliceExtent_def)

lemma lookup_find:
  "wf_extents es \<Longrightarrow> map_option fst (LookupExtent es lba) = find (\<lambda>e. covers e (unat lba)) es"
  using LookupExtent_from_eq [of es 0 lba] by (simp add: LookupExtent_def wf_extents_def)

lemma segment_candidates_sector:
  assumes wf: "\<forall>c\<in>set captures. wf_extents (McExtents c) \<and> uncut (unat a) (unat b) (McExtents c)"
    and n: "unat a \<le> n" "n < unat b"
  shows "map norm_candidate (segment_candidates a b captures) = sector_candidates captures n"
proof -
  have one: "map_option norm_candidate (case LookupExtent (McExtents c) a of
         None \<Rightarrow> None
       | Some (e, _) \<Rightarrow>
           if EndLBA e \<ge> b then Some \<lparr>CeCaptureID = McCaptureID c, CeExtent = sliceExtent e a b\<rparr> else None) =
     map_option (\<lambda>x. \<lparr>CeCaptureID = McCaptureID c, CeExtent = x\<rparr>) (extent_at (McExtents c) n)" if "c \<in> set captures" for c
  proof -
    have u: "wf_extents (McExtents c)" "uncut (unat a) (unat b) (McExtents c)" using wf that by auto
    have f: "find (\<lambda>e. covers e n) (McExtents c) = find (\<lambda>e. covers e (unat a)) (McExtents c)"
      by (rule find_cong_set) (use uncut_covers [OF u(2) _ n] in simp)
    show ?thesis
    proof (cases "LookupExtent (McExtents c) a")
      case None
      then show ?thesis using lookup_find [OF u(1), of a] f by (simp add: extent_at_def)
    next
      case (Some p)
      then obtain e i where e: "LookupExtent (McExtents c) a = Some (e, i)" by (cases p) auto
      have fe: "find (\<lambda>e. covers e (unat a)) (McExtents c) = Some e"
        using lookup_find [OF u(1), of a] e by simp
      then have m: "e \<in> set (McExtents c)" "covers e (unat a)" by (auto simp: find_Some_iff)
      then have "unat b \<le> endN e" using u(2) by (auto simp: uncut_def covers_def)
      then have "EndLBA e \<ge> b" using u(1) m(1) by (auto simp: word_le_nat_alt wf_extents_def)
      then show ?thesis using e fe f by (simp add: extent_at_def norm_candidate_def)
    qed
  qed
  show ?thesis
    unfolding segment_candidates_def sector_candidates_def by (rule map_map_filter) (rule one)
qed

section \<open>Resolved segments\<close>

lemma filters_subset:
  "set (filterTrustedVerified cs) \<subseteq> set cs" "set (filterReconstructed cs) \<subseteq> set cs"
  "set (filterVerified cs) \<subseteq> set cs" "set (filterUnverified cs) \<subseteq> set cs"
  by (auto simp: filterTrustedVerified_def filterReconstructed_def filterVerified_def filterUnverified_def)

lemma hd_subset: "set ys \<subseteq> set xs \<Longrightarrow> ys \<noteq> [] \<Longrightarrow> hd ys \<in> set xs"
  by (cases ys) auto

lemma resolve_extent:
  assumes "\<forall>c\<in>set cs. StartLBA (CeExtent c) = a \<and> Sectors (CeExtent c) = ucast (b - a)"
  shows "StartLBA (MeExtent (resolve_candidates a b cs)) = a \<and> Sectors (MeExtent (resolve_candidates a b cs)) = ucast (b - a)"
proof -
  have h: "StartLBA (CeExtent (hd ys)) = a \<and> Sectors (CeExtent (hd ys)) = ucast (b - a)" if "set ys \<subseteq> set cs" "ys \<noteq> []" for ys
    using assms hd_subset [OF that] by blast
  note hs = h [OF filters_subset(1)] h [OF filters_subset(2)] h [OF filters_subset(3)] h [OF filters_subset(4)]
  show ?thesis
    using hs by (simp add: resolve_candidates_def Let_def mergedExtentFromCandidate_def conflictExtent_def missingExtent_def
        empty_extent_def)
qed

lemma segment_extent:
  "StartLBA (MeExtent (resolveSegment a b captures)) = a" "Sectors (MeExtent (resolveSegment a b captures)) = ucast (b - a)"
proof -
  have "\<forall>c\<in>set (segment_candidates a b captures). StartLBA (CeExtent c) = a \<and> Sectors (CeExtent c) = ucast (b - a)"
    by (auto simp: segment_candidates_def List.map_filter_def sliceExtent_def split: option.splits if_splits)
  from resolve_extent [OF this] show "StartLBA (MeExtent (resolveSegment a b captures)) = a"
    "Sectors (MeExtent (resolveSegment a b captures)) = ucast (b - a)" by (simp_all add: resolveSegment_def)
qed

section \<open>Tilings\<close>

text \<open>Merged extents that follow each other from one sector to another, none of them empty.\<close>

fun tiles :: "nat \<Rightarrow> MergedExtent list \<Rightarrow> nat \<Rightarrow> bool" where
  "tiles a [] b \<longleftrightarrow> a = b"
| "tiles a (m # ms) b \<longleftrightarrow> startN (MeExtent m) = a \<and> a < endN (MeExtent m) \<and> tiles (endN (MeExtent m)) ms b"

lemma tiles_snoc:
  "tiles a (ms @ [m]) b \<longleftrightarrow> tiles a ms (startN (MeExtent m)) \<and> startN (MeExtent m) < endN (MeExtent m) \<and> endN (MeExtent m) = b"
  by (induction ms arbitrary: a) auto

lemma tiles_le: "tiles a ms b \<Longrightarrow> a \<le> b"
  by (induction ms arbitrary: a) fastforce+

lemma tiles_covers: "tiles a ms b \<Longrightarrow> a \<le> n \<Longrightarrow> n < b \<Longrightarrow> \<exists>m\<in>set ms. covers (MeExtent m) n"
proof (induction ms arbitrary: a)
  case (Cons m ms)
  then show ?case by (cases "n < endN (MeExtent m)") (auto simp: covers_def)
qed simp

lemma tiles_inside: "tiles a ms b \<Longrightarrow> m \<in> set ms \<Longrightarrow> a \<le> startN (MeExtent m) \<and> endN (MeExtent m) \<le> b"
proof (induction ms arbitrary: a)
  case (Cons x ms)
  then show ?case using tiles_le [of "endN (MeExtent x)" ms b] by fastforce
qed simp

lemma canMerge_decision:
  "canMergeMergedExtent l r \<longleftrightarrow> EndLBA (MeExtent l) = StartLBA (MeExtent r) \<and> decision l = decision r"
  by (cases l; cases r) (auto simp: canMergeMergedExtent_def decision_def Extent_zero_def)

text \<open>Appending a segment extends the tiling and keeps what it decides.\<close>

lemma append_tiles:
  assumes t: "tiles 0 ms p" and nx: "startN (MeExtent nxt) = p" "endN (MeExtent nxt) = q" "p < q" "q < 4294967296"
  shows "tiles 0 (appendMergedExtent ms nxt) q \<and>
    (\<forall>m\<in>set (appendMergedExtent ms nxt). \<forall>n. covers (MeExtent m) n \<longrightarrow>
       (\<exists>m'\<in>insert nxt (set ms). covers (MeExtent m') n \<and> decision m' = decision m))"
proof (cases "ms \<noteq> [] \<and> canMergeMergedExtent (last ms) nxt")
  case False
  then have a: "appendMergedExtent ms nxt = ms @ [nxt]" by (auto simp: appendMergedExtent_def)
  show ?thesis unfolding a using t nx by (auto simp: tiles_snoc)
next
  case True
  then obtain xs l where ms: "ms = xs @ [l]" by (cases ms rule: rev_cases) auto
  let ?e = "MeExtent l" and ?s = "Sectors (MeExtent l) + Sectors (MeExtent nxt)"
  let ?m = "l\<lparr>MeExtent := ?e\<lparr>Sectors := ?s\<rparr>\<rparr>"
  have a: "appendMergedExtent ms nxt = xs @ [?m]" using True by (simp add: appendMergedExtent_def ms)
  have l: "tiles 0 xs (startN ?e)" "startN ?e < endN ?e" "endN ?e = p" using t by (simp_all add: ms tiles_snoc)
  have "unat (Sectors ?e) + unat (Sectors (MeExtent nxt)) < 2 ^ 32" using l nx by simp
  then have s: "unat ?s = unat (Sectors ?e) + unat (Sectors (MeExtent nxt))" by (subst unat_add_le) simp_all
  have d: "decision ?m = decision l" "decision l = decision nxt"
    using True by (simp_all add: ms canMerge_decision decision_def)
  have "tiles 0 (xs @ [?m]) q" using l nx s by (simp add: tiles_snoc)
  moreover have "\<exists>m'\<in>insert nxt (set ms). covers (MeExtent m') n \<and> decision m' = decision ?m" if "covers (MeExtent ?m) n" for n
  proof (cases "n < p")
    case True
    then have "covers (MeExtent l) n" using that l s by (simp add: covers_def)
    then show ?thesis using d(1) ms by auto
  next
    case False
    then have "covers (MeExtent nxt) n" using that l nx s by (simp add: covers_def)
    then show ?thesis using d by auto
  qed
  ultimately show ?thesis unfolding a by (auto simp: ms)
qed

section \<open>The loop over the boundaries\<close>

lemma plan_segments_correct:
  assumes "sorted_wrt (<) (p # rest)" "last (p # rest) < 4294967296" "tiles 0 merged (unat p)"
    and "\<forall>c\<in>set captures. wf_extents (McExtents c)"
    and "\<forall>c\<in>set captures. \<forall>e\<in>set (McExtents c). (StartLBA e \<le> p \<or> StartLBA e \<in> set rest) \<and> (EndLBA e \<le> p \<or> EndLBA e \<in> set rest)"
    and "\<forall>m\<in>set merged. \<forall>n. covers (MeExtent m) n \<longrightarrow> decision m = sector_decision captures n"
  shows "tiles 0 (plan_segments captures merged (p # rest)) (unat (last (p # rest))) \<and>
    (\<forall>m\<in>set (plan_segments captures merged (p # rest)). \<forall>n. covers (MeExtent m) n \<longrightarrow> decision m = sector_decision captures n)"
  using assms
proof (induction rest arbitrary: p merged)
  case Nil
  then show ?case by simp
next
  case (Cons q rest)
  have pq: "p < q" using Cons.prems(1) by simp
  have ql: "q \<le> last (q # rest)" using Cons.prems(1) by (cases rest rule: rev_cases) auto
  have q32: "unat q < 4294967296"
    using ql Cons.prems(2) by (simp add: word_le_nat_alt word_less_nat_alt split: if_splits)
  let ?nxt = "resolveSegment p q captures"
  have np: "unat p < unat q" using pq by (simp add: word_less_nat_alt)
  have sz: "unat (ucast (q - p) :: u32) = unat q - unat p"
  proof -
    have "unat (q - p) = unat q - unat p" by (rule unat_sub_le) (use pq in simp)
    then show ?thesis using q32 by (simp add: unat_ucast_64_32_small)
  qed
  have e: "startN (MeExtent ?nxt) = unat p" "endN (MeExtent ?nxt) = unat q"
    using np by (simp_all add: segment_extent sz)
  from append_tiles [OF Cons.prems(3) e np q32]
  have a: "tiles 0 (appendMergedExtent merged ?nxt) (unat q)"
    "\<forall>m\<in>set (appendMergedExtent merged ?nxt). \<forall>n. covers (MeExtent m) n \<longrightarrow>
       (\<exists>m'\<in>insert ?nxt (set merged). covers (MeExtent m') n \<and> decision m' = decision m)" by blast+
  have cut: "wf_extents (McExtents c) \<and> uncut (unat p) (unat q) (McExtents c)" if "c \<in> set captures" for c
  proof
    show wf: "wf_extents (McExtents c)" using Cons.prems(4) that by blast
    have "(startN e \<le> unat p \<or> unat q \<le> startN e) \<and> (endN e \<le> unat p \<or> unat q \<le> endN e)" if "e \<in> set (McExtents c)" for e
    proof -
      have "q \<le> x" if "x \<in> set (q # rest)" for x using Cons.prems(1) that by auto
      then have "(StartLBA e \<le> p \<or> q \<le> StartLBA e) \<and> (EndLBA e \<le> p \<or> q \<le> EndLBA e)"
        using Cons.prems(5) \<open>c \<in> set captures\<close> that by blast
      then show ?thesis using wf that by (simp add: word_le_nat_alt wf_extents_def)
    qed
    then show "uncut (unat p) (unat q) (McExtents c)" by (simp add: uncut_def)
  qed
  have nx: "decision ?nxt = sector_decision captures n" if "covers (MeExtent ?nxt) n" for n
    unfolding resolveSegment_def sector_decision_def resolve_candidates_norm [of p q]
    by (subst segment_candidates_sector [where n = n]) (use that e cut in \<open>auto simp: covers_def\<close>)
  have "tiles 0 (plan_segments captures (appendMergedExtent merged ?nxt) (q # rest)) (unat (last (q # rest))) \<and>
    (\<forall>m\<in>set (plan_segments captures (appendMergedExtent merged ?nxt) (q # rest)). \<forall>n. covers (MeExtent m) n \<longrightarrow>
       decision m = sector_decision captures n)"
  proof (rule Cons.IH)
    show "sorted_wrt (<) (q # rest)" "last (q # rest) < 4294967296" using Cons.prems(1,2) by auto
    show "tiles 0 (appendMergedExtent merged ?nxt) (unat q)" by (rule a(1))
    show "\<forall>c\<in>set captures. wf_extents (McExtents c)" by (rule Cons.prems(4))
    show "\<forall>c\<in>set captures. \<forall>e\<in>set (McExtents c). (StartLBA e \<le> q \<or> StartLBA e \<in> set rest) \<and> (EndLBA e \<le> q \<or> EndLBA e \<in> set rest)"
      using Cons.prems(5) pq by fastforce
    show "\<forall>m\<in>set (appendMergedExtent merged ?nxt). \<forall>n. covers (MeExtent m) n \<longrightarrow> decision m = sector_decision captures n"
      using a(2) Cons.prems(6) nx by (metis insert_iff)
  qed
  moreover have "plan_segments captures merged (p # q # rest) =
      plan_segments captures (appendMergedExtent merged ?nxt) (q # rest)" using leD [of q p] pq by auto
  ultimately show ?case by simp
qed

section \<open>The boundaries\<close>

lemma extent_boundaries_Inr:
  "extent_boundaries cnt es = Inr bs \<Longrightarrow> (\<forall>e\<in>set es. EndLBA e \<le> cnt \<and> StartLBA e \<in> set bs \<and> EndLBA e \<in> set bs) \<and>
     (\<forall>b\<in>set bs. \<exists>e\<in>set es. b = StartLBA e \<or> b = EndLBA e)"
  by (induction es arbitrary: bs) (auto split: if_splits sum.splits)

lemma wf_start_le: "wf_extents es \<Longrightarrow> e \<in> set es \<Longrightarrow> StartLBA e \<le> EndLBA e"
  by (simp add: wf_extents_def word_le_nat_alt)

text \<open>What a plan checks of its captures, and where its boundaries are.\<close>

lemma capture_boundaries_Inr:
  "capture_boundaries base cs = Inr bs \<Longrightarrow>
     (\<forall>c\<in>set cs. McCaptureID c \<noteq> [] \<and> McIdentity c = base \<and> wf_extents (McExtents c) \<and>
        (\<forall>e\<in>set (McExtents c). EndLBA e \<le> IdSectorCount base \<and> StartLBA e \<in> set bs \<and> EndLBA e \<in> set bs)) \<and>
     (\<forall>b\<in>set bs. b \<le> IdSectorCount base)"
proof (induction cs arbitrary: bs)
  case (Cons c cs)
  from Cons.prems obtain b1 b2 where b: "extent_boundaries (IdSectorCount base) (McExtents c) = Inr b1"
      "capture_boundaries base cs = Inr b2" "bs = b1 @ b2" and
    c: "McCaptureID c \<noteq> []" "MatchKey (McIdentity c) = MatchKey base" "ValidateExtentSet (McExtents c) = None"
    by (auto split: if_splits option.splits sum.splits)
  have wf: "wf_extents (McExtents c)" using c(3) by (simp add: ValidateExtentSet_iff)
  note x = conjunct1 [OF extent_boundaries_Inr [OF b(1)]] and z = conjunct2 [OF extent_boundaries_Inr [OF b(1)]]
  have "y \<le> IdSectorCount base" if y: "y \<in> set b1" for y
  proof -
    obtain e where e: "e \<in> set (McExtents c)" "y = StartLBA e \<or> y = EndLBA e" using bspec [OF z y] by blast
    then have "y \<le> EndLBA e" using wf_start_le [OF wf e(1)] by fastforce
    also have "\<dots> \<le> IdSectorCount base" using bspec [OF x e(1)] by blast
    finally show ?thesis .
  qed
  then have own: "\<forall>y\<in>set b1. y \<le> IdSectorCount base" by blast
  have eq: "McIdentity c = base" using c(2) by (simp add: MatchKey_def)
  note ih = Cons.IH [OF b(2)]
  show ?case
  proof (intro conjI ballI)
    fix y assume "y \<in> set bs"
    then show "y \<le> IdSectorCount base" using own ih b(3) by auto
  next
    fix d assume "d \<in> set (c # cs)"
    then consider "d = c" | "d \<in> set cs" by auto
    then show "McCaptureID d \<noteq> []" "McIdentity d = base" "wf_extents (McExtents d)"
      using c(1) eq wf ih by (cases; blast)+
    fix e assume e: "e \<in> set (McExtents d)"
    show "EndLBA e \<le> IdSectorCount base" "StartLBA e \<in> set bs" "EndLBA e \<in> set bs"
      using \<open>d \<in> set (c # cs)\<close> e x ih b(3) by auto
  qed
qed simp

lemma set_uniqueBoundaries [simp]: "set (uniqueBoundaries bs) = set bs"
  by (induction bs rule: uniqueBoundaries.induct) auto

lemma uniqueBoundaries_Nil [simp]: "uniqueBoundaries bs = [] \<longleftrightarrow> bs = []"
  by (induction bs rule: uniqueBoundaries.induct) auto

lemma sorted_uniqueBoundaries: "sorted bs \<Longrightarrow> sorted_wrt (<) (uniqueBoundaries bs)"
  by (induction bs rule: uniqueBoundaries.induct) (auto simp: order_less_le)

lemma sorted_first_last:
  fixes xs :: "u64 list"
  assumes "sorted_wrt (<) xs" "a \<in> set xs" "b \<in> set xs" "\<forall>x\<in>set xs. a \<le> x \<and> x \<le> b"
  shows "\<exists>rest. xs = a # rest \<and> last xs = b"
proof -
  have ne: "xs \<noteq> []" using assms(2) by auto
  obtain h rest where x: "xs = h # rest" using ne by (cases xs) auto
  have "h = a" using assms(1,2,4) x by (auto simp: order_less_le)
  moreover obtain ys l where y: "xs = ys @ [l]" using ne by (cases xs rule: rev_cases) auto
  have "l = b" using assms(1,3,4) y by (auto simp: sorted_wrt_append order_less_le)
  moreover have "last xs = l" by (simp add: y)
  ultimately show ?thesis using x by (intro exI [of _ rest]) (simp only: simp_thms)
qed

lemma BuildPlan_correct:
  assumes "BuildPlan captures = Inr plan" "IdSectorCount (McIdentity (hd captures)) < 4294967296"
  shows "captures \<noteq> [] \<and> (\<forall>c\<in>set captures. McIdentity c = McIdentity (hd captures) \<and> wf_extents (McExtents c)) \<and>
    tiles 0 plan (unat (IdSectorCount (McIdentity (hd captures)))) \<and>
    (\<forall>m\<in>set plan. \<forall>n. covers (MeExtent m) n \<longrightarrow> decision m = sector_decision captures n)"
proof -
  let ?base = "McIdentity (hd captures)"
  obtain bs where b: "capture_boundaries ?base captures = Inr bs"
      "plan = plan_segments captures [] (uniqueBoundaries (sort (0 # IdSectorCount ?base # bs)))" "captures \<noteq> []"
    using assms(1) by (auto simp: BuildPlan_def Let_def split: if_splits option.splits sum.splits)
  note c = capture_boundaries_Inr [OF b(1)]
  let ?bs = "uniqueBoundaries (sort (0 # IdSectorCount ?base # bs))"
  have s: "sorted_wrt (<) ?bs" by (rule sorted_uniqueBoundaries, rule sorted_sort)
  have "0 \<in> set ?bs" "IdSectorCount ?base \<in> set ?bs" "\<forall>x\<in>set ?bs. 0 \<le> x \<and> x \<le> IdSectorCount ?base"
    using c by (simp_all add: set_insort_key)
  from sorted_first_last [OF s this] obtain rest where r: "?bs = 0 # rest" "last ?bs = IdSectorCount ?base" by blast
  have mem: "x \<le> 0 \<or> x \<in> set rest" if "x \<in> set bs" for x
  proof -
    have "x \<in> set ?bs" using that by (simp add: set_insort_key)
    then show ?thesis unfolding r(1) by auto
  qed
  have "tiles 0 (plan_segments captures [] (0 # rest)) (unat (last (0 # rest))) \<and>
    (\<forall>m\<in>set (plan_segments captures [] (0 # rest)). \<forall>n. covers (MeExtent m) n \<longrightarrow> decision m = sector_decision captures n)"
  proof (rule plan_segments_correct)
    show "sorted_wrt (<) (0 # rest)" using s by (simp only: r(1))
    show "last (0 # rest) < 4294967296" using r assms(2) by (simp only: r(1))
    show "tiles 0 [] (unat (0 :: u64))" by simp
    show "\<forall>d\<in>set captures. wf_extents (McExtents d)" using c by blast
    show "\<forall>d\<in>set captures. \<forall>e\<in>set (McExtents d). (StartLBA e \<le> 0 \<or> StartLBA e \<in> set rest) \<and> (EndLBA e \<le> 0 \<or> EndLBA e \<in> set rest)"
      using c mem by blast
  qed simp
  moreover have "last (0 # rest) = IdSectorCount ?base" using r by simp
  moreover have "plan = plan_segments captures [] (0 # rest)" using b(2) by (simp only: r(1))
  ultimately have t: "tiles 0 plan (unat (IdSectorCount ?base))"
    "\<forall>m\<in>set plan. \<forall>n. covers (MeExtent m) n \<longrightarrow> decision m = sector_decision captures n" by (simp_all only:) blast+
  have "\<forall>c\<in>set captures. McIdentity c = ?base \<and> wf_extents (McExtents c)" using c by blast
  then show ?thesis using b(3) t by blast
qed

end
