(* ===== verification/MergeProps.thy ===== *)
theory MergeProps
  imports MergeFacts CatalogProps
begin

text \<open>
  What a merge plan promises: it covers the disc once and decides every sector by what the captures
  say of it; it is conservative; and where it is not: equal hashes that stand for no hash at all,
  one capture that is given twice, neighbours whose data differ, and media of \<open>2 ^ 32\<close> sectors.
\<close>

section \<open>The plan\<close>

text \<open>
  C25: On a disc of fewer than \<open>2 ^ 32\<close> sectors an accepted plan covers the disc from the first to the
  last sector once, without a gap, and decides every sector exactly as if the sector were resolved
  alone, from what the maps of the captures say of it. Where the extents of the captures begin and end
  does not matter.
\<close>

theorem merge_plan_pointwise:
  assumes "BuildPlan captures = Inr plan" "IdSectorCount (McIdentity (hd captures)) < 4294967296"
  shows "tiles 0 plan (unat (IdSectorCount (McIdentity (hd captures)))) \<and>
    (\<forall>n < unat (IdSectorCount (McIdentity (hd captures))). \<exists>m\<in>set plan. covers (MeExtent m) n) \<and>
    (\<forall>m\<in>set plan. \<forall>n. covers (MeExtent m) n \<longrightarrow> decision m = sector_decision captures n)"
  using BuildPlan_correct [OF assms] tiles_covers by blast

section \<open>Conservativeness\<close>

text \<open>What a decision over candidates with legal states and confidences may claim.\<close>

definition legal :: "candidateExtent list \<Rightarrow> bool" where
  "legal cs \<longleftrightarrow> (\<forall>c\<in>set cs. ValidateStateConfidence (State (CeExtent c)) (Confidence (CeExtent c)) = None)"

definition claiming :: "candidateExtent list \<Rightarrow> candidateExtent list" where
  "claiming cs = filter (\<lambda>c. claimsData (State (CeExtent c))) cs"

lemma uniqueHashes_Nil: "uniqueHashes cs = [] \<longleftrightarrow> claiming cs = []"
proof -
  have "set (uniqueHashes cs) = (\<lambda>c. DataHash (CeExtent c)) ` set (claiming cs)"
    by (simp add: uniqueHashes_def claiming_def)
  then show ?thesis by (metis image_is_empty set_empty)
qed

lemma confidence_of_state:
  "ValidateStateConfidence SectorStateReadUnverified c = None \<Longrightarrow> c = ConfidenceSingleRead"
  "ValidateStateConfidence SectorStateReconstructed c = None \<Longrightarrow> c = ConfidenceReconstructedChecksum"
  by (simp_all add: ValidateStateConfidence_def split: option.splits if_splits)

abbreviation is_trusted :: "candidateExtent \<Rightarrow> bool" where
  "is_trusted c \<equiv> State (CeExtent c) = SectorStateVerified \<and> Confidence (CeExtent c) = ConfidenceTrustedChecksum"
abbreviation in_state :: "SectorState \<Rightarrow> candidateExtent \<Rightarrow> bool" where
  "in_state s c \<equiv> State (CeExtent c) = s"

text \<open>For legal candidates the filters select by the state.\<close>

lemma legal_filters:
  assumes "legal cs"
  shows "filterReconstructed cs = filter (in_state SectorStateReconstructed) cs"
    "filterUnverified cs = filter (in_state SectorStateReadUnverified) cs"
proof -
  have v: "ValidateStateConfidence (State (CeExtent c)) (Confidence (CeExtent c)) = None" if "c \<in> set cs" for c
    using assms that by (simp add: legal_def)
  show "filterReconstructed cs = filter (in_state SectorStateReconstructed) cs"
    unfolding filterReconstructed_def by (rule filter_cong [OF refl]) (use v confidence_of_state(2) in metis)
  show "filterUnverified cs = filter (in_state SectorStateReadUnverified) cs"
    unfolding filterUnverified_def by (rule filter_cong [OF refl]) (use v confidence_of_state(1) in metis)
qed

lemma claiming_groups:
  assumes "legal cs"
  shows "claiming cs = [] \<longleftrightarrow> filterReconstructed cs = [] \<and> filterVerified cs = [] \<and> filterUnverified cs = []"
  unfolding legal_filters [OF assms] filterVerified_def claiming_def claimsData_def filter_empty_conv by auto

lemma allSameHash_all: "allSameHash xs \<Longrightarrow> xs \<noteq> [] \<and> (\<forall>d\<in>set xs. DataHash (CeExtent d) = DataHash (CeExtent (hd xs)))"
  by (cases xs) (auto simp: list_all_iff)

lemma two_members: "\<not> allSameHash xs \<Longrightarrow> xs \<noteq> [] \<Longrightarrow> 2 \<le> length xs"
  by (cases xs rule: list.exhaust; cases "tl xs") auto

lemma filter_length_mono: "(\<And>x. P x \<Longrightarrow> Q x) \<Longrightarrow> length (filter P xs) \<le> length (filter Q xs)"
  by (induction xs) auto

lemma groups_claim:
  "length (filterTrustedVerified cs) \<le> length (claiming cs)" "length (filterReconstructed cs) \<le> length (claiming cs)"
  "length (filterVerified cs) \<le> length (claiming cs)" "length (filterUnverified cs) \<le> length (claiming cs)"
  unfolding filterTrustedVerified_def filterReconstructed_def filterVerified_def filterUnverified_def claiming_def
  by (rule filter_length_mono, simp add: claimsData_def)+

text \<open>The outcomes of a resolution.\<close>

definition selects :: "candidateExtent list \<Rightarrow> (candidateExtent \<Rightarrow> bool) \<Rightarrow> candidateExtent \<Rightarrow> bool" where
  "selects cs p c \<longleftrightarrow> c \<in> set cs \<and> p c \<and> (\<forall>d\<in>set cs. p d \<longrightarrow> DataHash (CeExtent d) = DataHash (CeExtent c))"

lemma selects_hd: "allSameHash (filter p cs) \<Longrightarrow> selects cs p (hd (filter p cs))"
proof -
  assume a: "allSameHash (filter p cs)"
  have "hd (filter p cs) \<in> set (filter p cs)" using allSameHash_all [OF a] by (intro hd_in_set) simp
  then have "hd (filter p cs) \<in> set cs" "p (hd (filter p cs))" by simp_all
  moreover have "\<forall>d\<in>set cs. p d \<longrightarrow> DataHash (CeExtent d) = DataHash (CeExtent (hd (filter p cs)))"
    using conjunct2 [OF allSameHash_all [OF a]] by simp
  ultimately show ?thesis unfolding selects_def by blast
qed

lemma resolve_legal:
  fixes a b :: u64
  assumes l: "legal cs"
  defines "m \<equiv> resolve_candidates a b cs" and "hs \<equiv> uniqueHashes cs"
  shows
   "(\<exists>c. selects cs is_trusted c \<and>
       m = mergedExtentFromCandidate c RuleTrustedChecksumMatch SectorStateVerified ConfidenceTrustedChecksum hs) \<or>
    (\<not> list_ex is_trusted cs \<and> (\<exists>c. selects cs (in_state SectorStateReconstructed) c \<and>
       m = mergedExtentFromCandidate c RuleReconstructedTrustedChecksum SectorStateReconstructed ConfidenceReconstructedChecksum hs)) \<or>
    (\<not> list_ex is_trusted cs \<and> (\<exists>c rule conf. selects cs (in_state SectorStateVerified) c \<and>
       m = mergedExtentFromCandidate c rule SectorStateVerified conf hs \<and>
       (conf = Confidence (CeExtent c) \<or>
        conf = ConfidenceRepeatedIndependentCapture \<and> 2 \<le> length (filter (in_state SectorStateVerified) cs)))) \<or>
    (\<not> list_ex is_trusted cs \<and> (\<exists>c. selects cs (in_state SectorStateReadUnverified) c \<and>
       (m = mergedExtentFromCandidate c RuleSingleUnverifiedCandidate SectorStateReadUnverified ConfidenceSingleRead hs \<or>
        m = mergedExtentFromCandidate c RuleIdenticalUnverifiedCandidates SectorStateVerified
              ConfidenceRepeatedIndependentCapture hs \<and>
        2 \<le> distinctCaptures (filter (in_state SectorStateReadUnverified) cs)))) \<or>
    (2 \<le> length (claiming cs) \<and> m = conflictExtent a b hs) \<or>
    (claiming cs = [] \<and> m = missingExtent a b)"
proof -
  have none: "\<not> list_ex is_trusted cs" if "filterTrustedVerified cs = []"
    using that by (auto simp: filterTrustedVerified_def filter_empty_conv list_ex_iff)
  note lf = legal_filters [OF l]
  note claim = groups_claim [of cs]
  consider (t) "filterTrustedVerified cs \<noteq> []"
    | (r) "filterTrustedVerified cs = []" "filterReconstructed cs \<noteq> []"
    | (v) "filterTrustedVerified cs = []" "filterReconstructed cs = []" "filterVerified cs \<noteq> []"
    | (u) "filterTrustedVerified cs = []" "filterReconstructed cs = []" "filterVerified cs = []" "filterUnverified cs \<noteq> []"
    | (n) "filterTrustedVerified cs = []" "filterReconstructed cs = []" "filterVerified cs = []" "filterUnverified cs = []"
    by blast
  then show ?thesis
  proof cases
    case t
    show ?thesis
    proof (cases "allSameHash (filterTrustedVerified cs)")
      case True
      then have "m = mergedExtentFromCandidate (hd (filterTrustedVerified cs)) RuleTrustedChecksumMatch
          SectorStateVerified ConfidenceTrustedChecksum hs"
        using t by (simp add: m_def hs_def resolve_candidates_def Let_def)
      moreover have "selects cs is_trusted (hd (filterTrustedVerified cs))"
        unfolding filterTrustedVerified_def by (rule selects_hd) (use True in \<open>simp only: filterTrustedVerified_def\<close>)
      ultimately show ?thesis by blast
    next
      case False
      then have "m = conflictExtent a b hs" using t by (simp add: m_def hs_def resolve_candidates_def Let_def)
      then show ?thesis using two_members [OF False t] claim(1) by simp
    qed
  next
    case r
    show ?thesis
    proof (cases "allSameHash (filterReconstructed cs)")
      case True
      then have "m = mergedExtentFromCandidate (hd (filterReconstructed cs)) RuleReconstructedTrustedChecksum
          SectorStateReconstructed ConfidenceReconstructedChecksum hs"
        using r by (simp add: m_def hs_def resolve_candidates_def Let_def)
      moreover have "selects cs (in_state SectorStateReconstructed) (hd (filterReconstructed cs))"
        unfolding lf(1) by (rule selects_hd) (use True in \<open>simp only: lf(1)\<close>)
      ultimately show ?thesis using none [OF r(1)] by blast
    next
      case False
      then have "m = conflictExtent a b hs" using r by (simp add: m_def hs_def resolve_candidates_def Let_def)
      then show ?thesis using two_members [OF False r(2)] claim(2) by simp
    qed
  next
    case v
    note fv = filterVerified_def [of cs]
    consider (two) "2 \<le> length (filterVerified cs) \<and> allSameHash (filterVerified cs)"
      | (one) "length (filterVerified cs) = 1"
      | (bad) "2 \<le> length (filterVerified cs)" "\<not> allSameHash (filterVerified cs)"
      using v(3) by (cases "filterVerified cs"; cases "tl (filterVerified cs)") auto
    then show ?thesis
    proof cases
      case two
      then have "m = mergedExtentFromCandidate (hd (filterVerified cs)) RuleIdenticalVerifiedCandidates
          SectorStateVerified ConfidenceRepeatedIndependentCapture hs"
        using v by (simp add: m_def hs_def resolve_candidates_def Let_def)
      moreover have "selects cs (in_state SectorStateVerified) (hd (filterVerified cs))"
        unfolding fv by (rule selects_hd) (use two in \<open>simp only: fv\<close>)
      moreover have "2 \<le> length (filter (in_state SectorStateVerified) cs)" using two by (simp only: fv)
      ultimately show ?thesis using none [OF v(1)] by blast
    next
      case one
      then obtain c where c: "filterVerified cs = [c]" by (cases "filterVerified cs") auto
      then have s: "selects cs (in_state SectorStateVerified) c"
        using selects_hd [of "in_state SectorStateVerified" cs] unfolding fv by simp
      have st: "State (CeExtent c) = SectorStateVerified" using s unfolding selects_def by blast
      then have "m = mergedExtentFromCandidate c RuleSingleVerifiedCandidate SectorStateVerified (Confidence (CeExtent c)) hs"
        using v c by (simp add: m_def hs_def resolve_candidates_def Let_def)
      then show ?thesis using s none [OF v(1)] by blast
    next
      case bad
      then have "m = conflictExtent a b hs" using v by (simp add: m_def hs_def resolve_candidates_def Let_def)
      then show ?thesis using bad(1) claim(3) by simp
    qed
  next
    case u
    note fu = lf(2)
    consider (two) "2 \<le> length (filterUnverified cs) \<and> allSameHash (filterUnverified cs) \<and> 2 \<le> distinctCaptures (filterUnverified cs)"
      | (one) "length (filterUnverified cs) = 1"
      | (bad) "2 \<le> length (filterUnverified cs)" "\<not> (allSameHash (filterUnverified cs) \<and> 2 \<le> distinctCaptures (filterUnverified cs))"
      using u(4) by (cases "filterUnverified cs"; cases "tl (filterUnverified cs)") auto
    then show ?thesis
    proof cases
      case two
      then have "m = mergedExtentFromCandidate (hd (filterUnverified cs)) RuleIdenticalUnverifiedCandidates
          SectorStateVerified ConfidenceRepeatedIndependentCapture hs"
        using u by (simp add: m_def hs_def resolve_candidates_def Let_def)
      moreover have "selects cs (in_state SectorStateReadUnverified) (hd (filterUnverified cs))"
        unfolding fu by (rule selects_hd) (use two in \<open>simp only: fu\<close>)
      moreover have "2 \<le> distinctCaptures (filter (in_state SectorStateReadUnverified) cs)" using two by (simp only: fu)
      ultimately show ?thesis using none [OF u(1)] by blast
    next
      case one
      then obtain c where c: "filterUnverified cs = [c]" by (cases "filterUnverified cs") auto
      then have s: "selects cs (in_state SectorStateReadUnverified) c"
        using selects_hd [of "in_state SectorStateReadUnverified" cs] unfolding fu by simp
      have "m = mergedExtentFromCandidate c RuleSingleUnverifiedCandidate SectorStateReadUnverified ConfidenceSingleRead hs"
        using u c by (simp add: m_def hs_def resolve_candidates_def Let_def)
      then show ?thesis using s none [OF u(1)] by blast
    next
      case bad
      then have "m = conflictExtent a b hs" using u by (auto simp: m_def hs_def resolve_candidates_def Let_def)
      then show ?thesis using bad(1) claim(4) by simp
    qed
  next
    case n
    then have "claiming cs = []" using claiming_groups [OF l] by simp
    moreover from this have "m = missingExtent a b"
      using n uniqueHashes_Nil by (simp add: m_def resolve_candidates_def Let_def)
    ultimately show ?thesis by blast
  qed
qed

section \<open>What a plan claims\<close>

lemma sector_candidates_legal:
  assumes "\<forall>c\<in>set captures. wf_extents (McExtents c)"
  shows "legal (sector_candidates captures n)"
proof -
  have "ValidateStateConfidence (State b) (Confidence b) = None" if c: "c \<in> set captures" and x: "extent_at (McExtents c) n = Some b" for c b
  proof -
    obtain e where e: "e \<in> set (McExtents c)" "b = body e" using extent_at_SomeD [OF x] by blast
    then have "extent_valid e" using assms c by (auto simp: wf_extents_def)
    then show ?thesis using e(2) by (simp add: extent_valid_iff)
  qed
  then show ?thesis by (auto simp: legal_def sector_candidates_def List.map_filter_def)
qed

text \<open>A capture says something of a sector when its map has an extent there.\<close>

definition says :: "Capture list \<Rightarrow> nat \<Rightarrow> gostring \<Rightarrow> Extent \<Rightarrow> bool" where
  "says captures n cid e \<longleftrightarrow> (\<exists>c\<in>set captures. McCaptureID c = cid \<and> extent_at (McExtents c) n = Some e)"

lemma sector_candidates_says:
  "c \<in> set (sector_candidates captures n) \<longleftrightarrow> says captures n (CeCaptureID c) (CeExtent c)"
  by (cases c) (auto simp: sector_candidates_def says_def List.map_filter_def image_iff)

lemma decision_eqD: "decision m = decision k \<Longrightarrow> State (MeExtent m) = State (MeExtent k) \<and>
    Confidence (MeExtent m) = Confidence (MeExtent k) \<and> MeSelectedCaptureID m = MeSelectedCaptureID k \<and>
    MeUnresolvedConflict m = MeUnresolvedConflict k \<and> MeSelectionRule m = MeSelectionRule k \<and> MeProvenance m = MeProvenance k"
  by (cases m; cases k) (simp add: decision_def Extent_zero_def)

lemma another_capture:
  "2 \<le> distinctCaptures xs \<Longrightarrow> \<exists>x\<in>set xs. CeCaptureID x \<noteq> i"
proof (rule ccontr)
  assume a: "2 \<le> distinctCaptures xs" "\<not> (\<exists>x\<in>set xs. CeCaptureID x \<noteq> i)"
  then have "set (map CeCaptureID xs) \<subseteq> {i}" by auto
  then have "card (set (map CeCaptureID xs)) \<le> 1" using card_mono [of "{i}"] by simp
  then show False using a(1) by (simp add: distinctCaptures_def length_remdups_card_conv)
qed

definition trusted_extent :: "Extent \<Rightarrow> bool" where
  "trusted_extent e \<longleftrightarrow> State e = SectorStateVerified \<and> Confidence e = ConfidenceTrustedChecksum"

text \<open>What the decision over one sector claims, in terms of the candidates.\<close>

definition sound_decision :: "candidateExtent list \<Rightarrow> MergedExtent \<Rightarrow> bool" where
  "sound_decision cs m \<longleftrightarrow>
     (let s = State (MeExtent m); from = (\<lambda>c. c \<in> set cs \<and> CeCaptureID c = MeSelectedCaptureID m) in
      s \<in> {SectorStateReadUnverified, SectorStateVerified, SectorStateReconstructed, SectorStateMissing, SectorStateConflicting} \<and>
      (claimsData s \<longrightarrow> (\<exists>c. from c \<and> claimsData (State (CeExtent c)))) \<and>
      (s = SectorStateMissing \<longleftrightarrow> claiming cs = []) \<and>
      (s = SectorStateConflicting \<longleftrightarrow> MeUnresolvedConflict m) \<and>
      (Confidence (MeExtent m) = ConfidenceTrustedChecksum \<longrightarrow> (\<exists>c. from c \<and> selects cs is_trusted c)) \<and>
      (s = SectorStateVerified \<longrightarrow> (\<exists>c. from c \<and> (State (CeExtent c) = SectorStateVerified \<or>
         State (CeExtent c) = SectorStateReadUnverified \<and>
         (\<exists>d\<in>set cs. CeCaptureID d \<noteq> CeCaptureID c \<and> State (CeExtent d) = SectorStateReadUnverified \<and>
            DataHash (CeExtent d) = DataHash (CeExtent c))))))"

lemma sound_merged:
  assumes s: "selects cs p c" and st: "claimsData st" "claimsData (State (CeExtent c))"
    and t: "conf = ConfidenceTrustedChecksum \<Longrightarrow> selects cs is_trusted c"
    and v: "st = SectorStateVerified \<Longrightarrow> State (CeExtent c) = SectorStateVerified \<or>
         State (CeExtent c) = SectorStateReadUnverified \<and>
         (\<exists>d\<in>set cs. CeCaptureID d \<noteq> CeCaptureID c \<and> State (CeExtent d) = SectorStateReadUnverified \<and>
            DataHash (CeExtent d) = DataHash (CeExtent c))"
  shows "sound_decision cs (mergedExtentFromCandidate c rule st conf hs)"
proof -
  have c: "c \<in> set cs" using s unfolding selects_def by blast
  have cl: "claiming cs \<noteq> []" using c st(2) by (auto simp: claiming_def filter_empty_conv)
  have k: "st \<in> {SectorStateReadUnverified, SectorStateVerified, SectorStateReconstructed}"
    using st(1) by (simp add: claimsData_def)
  show ?thesis unfolding sound_decision_def Let_def mergedExtentFromCandidate_def
    using k c cl st t v by auto
qed

lemma resolve_sound:
  assumes "legal cs"
  shows "sound_decision cs (resolve_candidates a b cs)"
proof -
  let ?hs = "uniqueHashes cs" and ?m = "resolve_candidates a b cs"
  have e: "selects cs p c \<Longrightarrow> p c \<and> c \<in> set cs" for p c unfolding selects_def by blast
  consider (t) c where "selects cs is_trusted c"
       "?m = mergedExtentFromCandidate c RuleTrustedChecksumMatch SectorStateVerified ConfidenceTrustedChecksum ?hs"
    | (r) c where "selects cs (in_state SectorStateReconstructed) c"
       "?m = mergedExtentFromCandidate c RuleReconstructedTrustedChecksum SectorStateReconstructed ConfidenceReconstructedChecksum ?hs"
    | (v) c rule conf where "\<not> list_ex is_trusted cs" "selects cs (in_state SectorStateVerified) c"
       "?m = mergedExtentFromCandidate c rule SectorStateVerified conf ?hs"
       "conf = Confidence (CeExtent c) \<or> conf = ConfidenceRepeatedIndependentCapture"
    | (u) c where "selects cs (in_state SectorStateReadUnverified) c"
       "?m = mergedExtentFromCandidate c RuleSingleUnverifiedCandidate SectorStateReadUnverified ConfidenceSingleRead ?hs"
    | (w) c where "selects cs (in_state SectorStateReadUnverified) c"
       "?m = mergedExtentFromCandidate c RuleIdenticalUnverifiedCandidates SectorStateVerified ConfidenceRepeatedIndependentCapture ?hs"
       "2 \<le> distinctCaptures (filter (in_state SectorStateReadUnverified) cs)"
    | (x) "2 \<le> length (claiming cs)" "?m = conflictExtent a b ?hs"
    | (n) "claiming cs = []" "?m = missingExtent a b"
    using resolve_legal [OF assms, of a b] by blast
  then show ?thesis
  proof cases
    case t
    show ?thesis unfolding t(2) by (rule sound_merged [OF t(1)]) (use e [OF t(1)] t(1) in \<open>simp_all add: claimsData_def\<close>)
  next
    case r
    show ?thesis unfolding r(2) by (rule sound_merged [OF r(1)]) (use e [OF r(1)] in \<open>simp_all add: claimsData_def\<close>)
  next
    case v
    have "conf \<noteq> ConfidenceTrustedChecksum" using v(1,4) e [OF v(2)] by (auto simp: list_ex_iff)
    then show ?thesis unfolding v(3)
      by (intro sound_merged [OF v(2)]) (use e [OF v(2)] in \<open>simp_all add: claimsData_def\<close>)
  next
    case u
    show ?thesis unfolding u(2) by (rule sound_merged [OF u(1)]) (use e [OF u(1)] in \<open>simp_all add: claimsData_def\<close>)
  next
    case w
    obtain d where d: "d \<in> set cs" "State (CeExtent d) = SectorStateReadUnverified" "CeCaptureID d \<noteq> CeCaptureID c"
      using another_capture [OF w(3), of "CeCaptureID c"] by auto
    then have "DataHash (CeExtent d) = DataHash (CeExtent c)" using w(1) unfolding selects_def by blast
    then show ?thesis unfolding w(2)
      by (intro sound_merged [OF w(1)]) (use e [OF w(1)] d in \<open>auto simp: claimsData_def\<close>)
  next
    case x
    then have "claiming cs \<noteq> []" by auto
    then show ?thesis unfolding x(2) by (simp add: sound_decision_def Let_def conflictExtent_def empty_extent_def
        Extent_zero_def claimsData_def)
  next
    case n
    then show ?thesis by (simp add: sound_decision_def Let_def missingExtent_def empty_extent_def Extent_zero_def claimsData_def)
  qed
qed

text \<open>
  C26: A plan claims nothing the captures do not support. Where it claims data, the capture it selects
  has data; it leaves a sector missing exactly when no capture has data there, and marks every conflict;
  trusted-checksum confidence needs a capture with that confidence and no other capture of that
  confidence with other data; and what it calls verified was verified by the selected capture, or was
  read with equal hashes by another capture.
\<close>

theorem merge_plan_conservative:
  assumes "BuildPlan captures = Inr plan" "IdSectorCount (McIdentity (hd captures)) < 4294967296"
    and "m \<in> set plan" "covers (MeExtent m) n"
  shows "State (MeExtent m) \<in> {SectorStateReadUnverified, SectorStateVerified, SectorStateReconstructed,
        SectorStateMissing, SectorStateConflicting} \<and>
    (claimsData (State (MeExtent m)) \<longrightarrow> (\<exists>e. says captures n (MeSelectedCaptureID m) e \<and> claimsData (State e))) \<and>
    (State (MeExtent m) = SectorStateMissing \<longleftrightarrow> (\<forall>i e. says captures n i e \<longrightarrow> \<not> claimsData (State e))) \<and>
    (State (MeExtent m) = SectorStateConflicting \<longleftrightarrow> MeUnresolvedConflict m) \<and>
    (Confidence (MeExtent m) = ConfidenceTrustedChecksum \<longrightarrow>
       (\<exists>e. says captures n (MeSelectedCaptureID m) e \<and> trusted_extent e \<and>
          (\<forall>i e'. says captures n i e' \<and> trusted_extent e' \<longrightarrow> DataHash e' = DataHash e))) \<and>
    (State (MeExtent m) = SectorStateVerified \<longrightarrow>
       (\<exists>e. says captures n (MeSelectedCaptureID m) e \<and> (State e = SectorStateVerified \<or>
          State e = SectorStateReadUnverified \<and> (\<exists>i e'. says captures n i e' \<and> i \<noteq> MeSelectedCaptureID m \<and>
             State e' = SectorStateReadUnverified \<and> DataHash e' = DataHash e))))"
proof -
  let ?cs = "sector_candidates captures n" and ?k = "resolve_candidates 0 0 (sector_candidates captures n)"
  note b = BuildPlan_correct [OF assms(1,2)]
  have "decision m = decision ?k" using b assms(3,4) unfolding sector_decision_def by blast
  note d = decision_eqD [OF this]
  have "\<forall>c\<in>set captures. wf_extents (McExtents c)" using b by blast
  then have "sound_decision ?cs ?k" by (intro resolve_sound sector_candidates_legal)
  note r = this [unfolded sound_decision_def Let_def]
  have says: "says captures n i e \<longleftrightarrow> \<lparr>CeCaptureID = i, CeExtent = e\<rparr> \<in> set ?cs" for i e
    by (simp add: sector_candidates_says)
  have sel: "trusted_extent (CeExtent c) \<and>
      (\<forall>i e'. says captures n i e' \<and> trusted_extent e' \<longrightarrow> DataHash e' = DataHash (CeExtent c))"
    if s: "selects ?cs is_trusted c" for c
  proof (intro conjI allI impI)
    show "trusted_extent (CeExtent c)" using s unfolding selects_def trusted_extent_def by blast
    fix i e' assume a: "says captures n i e' \<and> trusted_extent e'"
    then have "\<lparr>CeCaptureID = i, CeExtent = e'\<rparr> \<in> set ?cs" by (simp add: says)
    moreover have "\<forall>d\<in>set ?cs. is_trusted d \<longrightarrow> DataHash (CeExtent d) = DataHash (CeExtent c)"
      using s unfolding selects_def by blast
    ultimately show "DataHash e' = DataHash (CeExtent c)" using a by (fastforce simp: trusted_extent_def)
  qed
  have A: "says captures n (CeCaptureID c) (CeExtent c)" if "c \<in> set ?cs" for c
    using that by (simp only: sector_candidates_says)
  have B: "\<exists>c\<in>set ?cs. CeCaptureID c = i \<and> CeExtent c = e" if "says captures n i e" for i e
    using that by (intro bexI [of _ "\<lparr>CeCaptureID = i, CeExtent = e\<rparr>"]) (simp_all add: says)
  have "claiming ?cs = [] \<longleftrightarrow> (\<forall>c\<in>set ?cs. \<not> claimsData (State (CeExtent c)))"
    by (simp add: claiming_def filter_empty_conv)
  then have nd: "claiming ?cs = [] \<longleftrightarrow> (\<forall>i e. says captures n i e \<longrightarrow> \<not> claimsData (State e))"
    using A B by blast
  show ?thesis
  proof (intro conjI)
    show "State (MeExtent m) \<in> {SectorStateReadUnverified, SectorStateVerified, SectorStateReconstructed,
        SectorStateMissing, SectorStateConflicting}" using r d by metis
    show "claimsData (State (MeExtent m)) \<longrightarrow> (\<exists>e. says captures n (MeSelectedCaptureID m) e \<and> claimsData (State e))"
      using r d A by metis
    show "State (MeExtent m) = SectorStateMissing \<longleftrightarrow> (\<forall>i e. says captures n i e \<longrightarrow> \<not> claimsData (State e))"
      using r d nd by metis
    show "State (MeExtent m) = SectorStateConflicting \<longleftrightarrow> MeUnresolvedConflict m" using r d by metis
    show "Confidence (MeExtent m) = ConfidenceTrustedChecksum \<longrightarrow>
       (\<exists>e. says captures n (MeSelectedCaptureID m) e \<and> trusted_extent e \<and>
          (\<forall>i e'. says captures n i e' \<and> trusted_extent e' \<longrightarrow> DataHash e' = DataHash e))"
    proof
      assume "Confidence (MeExtent m) = ConfidenceTrustedChecksum"
      then have "\<exists>c. (c \<in> set ?cs \<and> CeCaptureID c = MeSelectedCaptureID ?k) \<and> selects ?cs is_trusted c"
        using r d by simp
      then obtain c where c: "c \<in> set ?cs" "CeCaptureID c = MeSelectedCaptureID ?k" "selects ?cs is_trusted c" by blast
      then have "says captures n (MeSelectedCaptureID m) (CeExtent c)" using A [OF c(1)] d by simp
      then show "\<exists>e. says captures n (MeSelectedCaptureID m) e \<and> trusted_extent e \<and>
          (\<forall>i e'. says captures n i e' \<and> trusted_extent e' \<longrightarrow> DataHash e' = DataHash e)"
        using sel [OF c(3)] by blast
    qed
    show "State (MeExtent m) = SectorStateVerified \<longrightarrow>
       (\<exists>e. says captures n (MeSelectedCaptureID m) e \<and> (State e = SectorStateVerified \<or>
          State e = SectorStateReadUnverified \<and> (\<exists>i e'. says captures n i e' \<and> i \<noteq> MeSelectedCaptureID m \<and>
             State e' = SectorStateReadUnverified \<and> DataHash e' = DataHash e)))"
    proof
      assume "State (MeExtent m) = SectorStateVerified"
      then have k: "State (MeExtent ?k) = SectorStateVerified" using d by simp
      obtain c where c: "c \<in> set ?cs" "CeCaptureID c = MeSelectedCaptureID m"
        "State (CeExtent c) = SectorStateVerified \<or> State (CeExtent c) = SectorStateReadUnverified \<and>
         (\<exists>x\<in>set ?cs. CeCaptureID x \<noteq> CeCaptureID c \<and> State (CeExtent x) = SectorStateReadUnverified \<and>
            DataHash (CeExtent x) = DataHash (CeExtent c))"
        using mp [OF r [THEN conjunct2, THEN conjunct2, THEN conjunct2, THEN conjunct2, THEN conjunct2] k] d
        by (elim exE conjE) simp
      note s = A [OF c(1), unfolded c(2)]
      from c(3) show "\<exists>e. says captures n (MeSelectedCaptureID m) e \<and> (State e = SectorStateVerified \<or>
          State e = SectorStateReadUnverified \<and> (\<exists>i e'. says captures n i e' \<and> i \<noteq> MeSelectedCaptureID m \<and>
             State e' = SectorStateReadUnverified \<and> DataHash e' = DataHash e))"
      proof
        assume "State (CeExtent c) = SectorStateVerified"
        then show ?thesis using s by blast
      next
        assume b: "State (CeExtent c) = SectorStateReadUnverified \<and>
         (\<exists>x\<in>set ?cs. CeCaptureID x \<noteq> CeCaptureID c \<and> State (CeExtent x) = SectorStateReadUnverified \<and>
            DataHash (CeExtent x) = DataHash (CeExtent c))"
        then obtain x where x: "x \<in> set ?cs" "CeCaptureID x \<noteq> MeSelectedCaptureID m"
          "State (CeExtent x) = SectorStateReadUnverified" "DataHash (CeExtent x) = DataHash (CeExtent c)"
          unfolding c(2) by blast
        show ?thesis using s b A [OF x(1)] x(2-4) by blast
      qed
    qed
  qed
qed

section \<open>Where it is not conservative\<close>

text \<open>
  A hash of zero bytes stands for no hash, and no part of the program computes one. Two captures
  that read a sector once each, without a hash, agree for the plan: it calls the sector verified by
  independent captures, whatever data they read.
\<close>

theorem unhashed_captures_verified:
  assumes "BuildPlan [c1, c2] = Inr plan" "IdSectorCount (McIdentity c1) < 4294967296"
    and "McCaptureID c1 \<noteq> McCaptureID c2"
    and "extent_at (McExtents c1) n = Some e1" "State e1 = SectorStateReadUnverified" "DataHash e1 = replicate 16 0"
    and "extent_at (McExtents c2) n = Some e2" "State e2 = SectorStateReadUnverified" "DataHash e2 = replicate 16 0"
    and "m \<in> set plan" "covers (MeExtent m) n"
  shows "State (MeExtent m) = SectorStateVerified \<and>
    Confidence (MeExtent m) = ConfidenceRepeatedIndependentCapture \<and> MeProvenance m = [EvidenceCrossCaptureAgree, EvidenceTentativeData]"
proof -
  let ?cs = "[\<lparr>CeCaptureID = McCaptureID c1, CeExtent = e1\<rparr>, \<lparr>CeCaptureID = McCaptureID c2, CeExtent = e2\<rparr>]"
  note b = BuildPlan_correct [OF assms(1), simplified]
  have "\<forall>c\<in>set [c1, c2]. wf_extents (McExtents c)" using b assms(2) by auto
  then have l: "legal (sector_candidates [c1, c2] n)" by (rule sector_candidates_legal)
  have cs: "sector_candidates [c1, c2] n = ?cs"
    using assms(4,7) by (simp add: sector_candidates_def List.map_filter_simps)
  have cf: "Confidence e1 = ConfidenceSingleRead" "Confidence e2 = ConfidenceSingleRead"
    using l [unfolded cs] assms(5,8) confidence_of_state(1) by (simp_all add: legal_def)
  have "decision m = decision (resolve_candidates 0 0 ?cs)"
    using b assms(2,10,11) cs by (simp add: sector_decision_def)
  from decision_eqD [OF this] show ?thesis
    using assms(3,5,6,8,9) cf
    by (simp add: resolve_candidates_def Let_def filterTrustedVerified_def filterReconstructed_def filterVerified_def
        filterUnverified_def distinctCaptures_def mergedExtentFromCandidate_def
        provenanceForRule_def NormalizeEvidence_def)
qed

text \<open>A capture of the known disc with two extents, and what they say.\<close>

definition half_extent :: "u64 \<Rightarrow> SectorState \<Rightarrow> Confidence_t \<Rightarrow> u8 \<Rightarrow> Extent" where
  "half_extent start st conf h = Extent_zero\<lparr>StartLBA := start, Sectors := 50, State := st, Confidence := conf,
     DataHash := replicate 16 h\<rparr>"

definition half_capture :: "u8 \<Rightarrow> SectorState \<Rightarrow> Confidence_t \<Rightarrow> u8 \<Rightarrow> u8 \<Rightarrow> Capture" where
  "half_capture i st conf h1 h2 = \<lparr>McCaptureID = [i], McIdentity = known_disc,
     McExtents = [half_extent 0 st conf h1, half_extent 50 st conf h2]\<rparr>"

text \<open>
  Joining neighbours of a plan compares the sets of candidate hashes but not the hash of the
  selected data. Two halves of a disc whose data are swapped between two captures become one extent
  that carries the hash of the first half only.
\<close>

theorem joined_neighbours_lose_hash:
  "\<exists>m. BuildPlan [half_capture 1 3 4 7 9, half_capture 2 2 1 9 7] = Inr [m] \<and> MeSelectedCaptureID m = [1] \<and>
     covers (MeExtent m) 60 \<and> DataHash (MeExtent m) = replicate 16 7 \<and>
     map_option DataHash (extent_at (McExtents (half_capture 1 3 4 7 9)) 60) = Some (replicate 16 9)"
proof -
  let ?p = "BuildPlan [half_capture 1 3 4 7 9, half_capture 2 2 1 9 7]"
  have a: "(case ?p of Inl _ \<Rightarrow> None | Inr ms \<Rightarrow> Some (map (\<lambda>m. (MeSelectedCaptureID m, StartLBA (MeExtent m), Sectors (MeExtent m),
     DataHash (MeExtent m))) ms)) = Some [([1], 0, 100, replicate 16 7)]" by code_simp
  then obtain m where m: "?p = Inr [m]" "MeSelectedCaptureID m = [1]" "StartLBA (MeExtent m) = 0" "Sectors (MeExtent m) = 100"
      "DataHash (MeExtent m) = replicate 16 7" by (auto split: sum.splits)
  have "map_option DataHash (extent_at (McExtents (half_capture 1 3 4 7 9)) 60) = Some (replicate 16 9)"
    by (simp add: extent_at_def half_capture_def half_extent_def covers_def)
  then show ?thesis using m by (auto simp: covers_def)
qed

text \<open>
  A capture that is given twice counts as two: the second copy of a verified extent makes it verified
  by independent captures.
\<close>

lemma same_capture_counts_twice:
  "\<exists>m. BuildPlan [half_capture 1 3 2 7 7, half_capture 1 3 2 7 7] = Inr [m] \<and>
     Confidence (MeExtent m) = ConfidenceRepeatedIndependentCapture"
proof -
  let ?p = "BuildPlan [half_capture 1 3 2 7 7, half_capture 1 3 2 7 7]"
  have "(case ?p of Inl _ \<Rightarrow> None | Inr ms \<Rightarrow> Some (map (\<lambda>m. Confidence (MeExtent m)) ms)) = Some [3]" by code_simp
  then show ?thesis by (auto split: sum.splits)
qed

text \<open>A disc of \<open>2 ^ 32\<close> sectors that nobody read has a plan of no sectors.\<close>

lemma huge_disc_has_empty_plan:
  "\<exists>m. BuildPlan [\<lparr>McCaptureID = [1], McIdentity = known_disc\<lparr>IdSectorCount := 4294967296\<rparr>, McExtents = []\<rparr>] = Inr [m] \<and>
     Sectors (MeExtent m) = 0"
proof -
  let ?p = "BuildPlan [\<lparr>McCaptureID = [1], McIdentity = known_disc\<lparr>IdSectorCount := 4294967296\<rparr>, McExtents = []\<rparr>]"
  have "(case ?p of Inl _ \<Rightarrow> None | Inr ms \<Rightarrow> Some (map (\<lambda>m. Sectors (MeExtent m)) ms)) = Some [0]" by code_simp
  then show ?thesis by (auto split: sum.splits)
qed

section \<open>Witnesses\<close>

text \<open>Two captures of the known disc that read all of it once, without hashes.\<close>

definition unhashed_capture :: "u8 \<Rightarrow> Capture" where
  "unhashed_capture i = half_capture i SectorStateReadUnverified ConfidenceSingleRead 0 0"

lemma unhashed_plan:
  "\<exists>m. BuildPlan [unhashed_capture 1, unhashed_capture 2] = Inr [m] \<and> StartLBA (MeExtent m) = 0 \<and> Sectors (MeExtent m) = 100"
proof -
  let ?p = "BuildPlan [unhashed_capture 1, unhashed_capture 2]"
  have "(case ?p of Inl _ \<Rightarrow> None | Inr ms \<Rightarrow> Some (map (\<lambda>m. (StartLBA (MeExtent m), Sectors (MeExtent m))) ms)) = Some [(0, 100)]"
    by code_simp
  then show ?thesis by (auto split: sum.splits)
qed

lemma unhashed_small: "IdSectorCount (McIdentity (unhashed_capture 1)) < 4294967296"
  by (simp add: unhashed_capture_def half_capture_def known_disc_def)

theorem unhashed_captures_verified_witness:
  "\<exists>m. BuildPlan [unhashed_capture 1, unhashed_capture 2] = Inr [m] \<and> State (MeExtent m) = SectorStateVerified"
proof -
  obtain m where m: "BuildPlan [unhashed_capture 1, unhashed_capture 2] = Inr [m]" "StartLBA (MeExtent m) = 0"
      "Sectors (MeExtent m) = 100" using unhashed_plan by blast
  let ?e = "body (half_extent 0 SectorStateReadUnverified ConfidenceSingleRead 0)"
  have e: "extent_at (McExtents (unhashed_capture i)) 5 = Some ?e" for i
    by (simp add: extent_at_def unhashed_capture_def half_capture_def half_extent_def covers_def)
  have "State (MeExtent m) = SectorStateVerified \<and>
    Confidence (MeExtent m) = ConfidenceRepeatedIndependentCapture \<and> MeProvenance m = [EvidenceCrossCaptureAgree, EvidenceTentativeData]"
    by (rule unhashed_captures_verified [OF m(1) unhashed_small _ e _ _ e])
       (use m in \<open>simp_all add: unhashed_capture_def half_capture_def half_extent_def covers_def\<close>)
  then show ?thesis using m(1) by blast
qed

theorem merge_plan_pointwise_witness:
  "\<exists>plan. BuildPlan [unhashed_capture 1, unhashed_capture 2] = Inr plan \<and> tiles 0 plan 100"
proof -
  obtain m where m: "BuildPlan [unhashed_capture 1, unhashed_capture 2] = Inr [m]" using unhashed_plan by blast
  have "IdSectorCount (McIdentity (hd [unhashed_capture 1, unhashed_capture 2])) < 4294967296" using unhashed_small by simp
  from merge_plan_pointwise [OF m this] m show ?thesis
    by (auto simp: unhashed_capture_def half_capture_def known_disc_def)
qed

theorem merge_plan_conservative_witness:
  "\<exists>m e. BuildPlan [unhashed_capture 1, unhashed_capture 2] = Inr [m] \<and>
     (claimsData (State (MeExtent m)) \<longrightarrow> says [unhashed_capture 1, unhashed_capture 2] 5 (MeSelectedCaptureID m) e)"
proof -
  obtain m where m: "BuildPlan [unhashed_capture 1, unhashed_capture 2] = Inr [m]" "StartLBA (MeExtent m) = 0"
      "Sectors (MeExtent m) = 100" using unhashed_plan by blast
  have s: "IdSectorCount (McIdentity (hd [unhashed_capture 1, unhashed_capture 2])) < 4294967296" using unhashed_small by simp
  have c: "covers (MeExtent m) 5" using m(2,3) by (simp add: covers_def)
  from merge_plan_conservative [OF m(1) s _ c] m(1) show ?thesis by auto
qed

end
