(* ===== verification/Image.thy ===== *)
theory Image
  imports Extents FileIO Catalog
begin

text \<open>
  Writing an image (\<^verbatim>\<open>internal/image\<close>): the plan of sector writes and the positioned
  writes it is coalesced to (\<^verbatim>\<open>writer.go\<close>), the order of the steps that commit one sector to
  image and map (\<^verbatim>\<open>commit_order.go\<close>) and the state a full disk leaves
  (\<^verbatim>\<open>enospc.go\<close>). Offsets are 64-bit and wrap; the length of the data is compared after
  truncation to 32 bits, as the code does.
\<close>

section \<open>Formats\<close>

datatype OutputFormat = OutputISO | OutputBinCue

definition DefaultISOFormat :: OutputFormat where "DefaultISOFormat = OutputISO"

definition DefaultBinCueFormat :: OutputFormat where "DefaultBinCueFormat = OutputBinCue"

section \<open>Sector writes\<close>

record SectorWrite =
  SwLBA :: u64
  SwLogicalSectorSize :: u32
  SwData :: bytes

record PositionedWrite =
  PwOffset :: u64
  PwData :: bytes

record WriterPlan =
  WpLogicalSectorSize :: u32
  WpExpectedSectors :: u64
  WpWrites :: "SectorWrite list"

definition SectorWrite_Offset :: "SectorWrite \<Rightarrow> u64" where
  "SectorWrite_Offset w = SwLBA w * ucast (SwLogicalSectorSize w)"

definition SectorWrite_Validate :: "SectorWrite \<Rightarrow> error option" where
  "SectorWrite_Validate w =
     (if SwLogicalSectorSize w = 0
      then Some (Errorf ''validate sector write: logical sector size must be greater than zero'')
      else if (word_of_nat (length (SwData w)) :: u32) \<noteq> SwLogicalSectorSize w
      then Some (Errorf ''validate sector write: data length does not match sector size'')
      else None)"

definition Positioned :: "SectorWrite \<Rightarrow> PositionedWrite result" where
  "Positioned w =
     (case SectorWrite_Validate w of
        Some e \<Rightarrow> Inl e
      | None \<Rightarrow> Inr \<lparr>PwOffset = SectorWrite_Offset w, PwData = SwData w\<rparr>)"

text \<open>The loop carries the previous write, none at index 0.\<close>

fun WriterPlan_Validate_loop :: "u32 \<Rightarrow> u64 \<Rightarrow> SectorWrite option \<Rightarrow> SectorWrite list \<Rightarrow> error option" where
  "WriterPlan_Validate_loop sz expected previous [] = None"
| "WriterPlan_Validate_loop sz expected previous (w # ws) =
     (case SectorWrite_Validate w of
        Some e \<Rightarrow> Some (Wrapf ''validate writer plan write'' e)
      | None \<Rightarrow>
     if SwLogicalSectorSize w \<noteq> sz
     then Some (Errorf ''validate writer plan write: sector size does not match plan size'')
     else if expected > 0 \<and> SwLBA w \<ge> expected
     then Some (Errorf ''validate writer plan write: lba exceeds expected sector count'')
     else (case previous of
        None \<Rightarrow> WriterPlan_Validate_loop sz expected (Some w) ws
      | Some p \<Rightarrow>
        if SwLBA p \<ge> SwLBA w
        then Some (Errorf ''validate writer plan write: writes must be strictly ordered by lba'')
        else WriterPlan_Validate_loop sz expected (Some w) ws))"

definition WriterPlan_Validate :: "WriterPlan \<Rightarrow> error option" where
  "WriterPlan_Validate p =
     (if WpLogicalSectorSize p = 0
      then Some (Errorf ''validate writer plan: logical sector size must be greater than zero'')
      else WriterPlan_Validate_loop (WpLogicalSectorSize p) (WpExpectedSectors p) None (WpWrites p))"

fun BuildPositionedWrites_loop :: "PositionedWrite \<Rightarrow> SectorWrite list \<Rightarrow> PositionedWrite list" where
  "BuildPositionedWrites_loop current [] = [current]"
| "BuildPositionedWrites_loop current (w # ws) =
     (if SectorWrite_Offset w = PwOffset current + word_of_nat (length (PwData current))
      then BuildPositionedWrites_loop (current\<lparr>PwData := PwData current @ SwData w\<rparr>) ws
      else current #
        BuildPositionedWrites_loop \<lparr>PwOffset = SectorWrite_Offset w, PwData = SwData w\<rparr> ws)"

definition BuildPositionedWrites :: "WriterPlan \<Rightarrow> PositionedWrite list result" where
  "BuildPositionedWrites p =
     (case WriterPlan_Validate p of
        Some e \<Rightarrow> Inl e
      | None \<Rightarrow>
     (case WpWrites p of
        [] \<Rightarrow> Inr []
      | w # ws \<Rightarrow>
        Inr (BuildPositionedWrites_loop \<lparr>PwOffset = SectorWrite_Offset w, PwData = SwData w\<rparr> ws)))"

section \<open>Committing one sector\<close>

text \<open>A durability profile is a string; three of its values have names.\<close>

type_synonym DurabilityProfile = string

abbreviation (input) DurabilityFast :: DurabilityProfile where "DurabilityFast \<equiv> ''fast''"
abbreviation (input) DurabilityBalanced :: DurabilityProfile where "DurabilityBalanced \<equiv> ''balanced''"
abbreviation (input) DurabilityStrict :: DurabilityProfile where "DurabilityStrict \<equiv> ''strict''"

datatype CommitStage =
    StageValidateBounds | StageWriteImage | StageSyncImage | StageAppendJournal | StageSyncJournal
  | StagePublishUI

record RecoveredSectorCommit =
  RcLogicalSectorSize :: u32
  RcExpectedSectors :: u64
  RcWrite :: SectorWrite
  RcExtent :: Extent
  RcProfile :: DurabilityProfile

text \<open>A commit action has no field but its stage, a failed commit none but its extent.\<close>

type_synonym CommitSequence = "CommitStage list"

definition BuildRecoveredSectorCommit :: "RecoveredSectorCommit \<Rightarrow> CommitSequence result" where
  "BuildRecoveredSectorCommit c =
     (if RcProfile c = []
      then Inl (Errorf ''build recovered sector commit: durability profile is required'')
      else if SwLogicalSectorSize (RcWrite c) \<noteq> RcLogicalSectorSize c
      then Inl (Errorf ''build recovered sector commit: write sector size does not match commit size'')
      else if State (RcExtent c) \<noteq> SectorStateReadUnverified \<and>
              State (RcExtent c) \<noteq> SectorStateVerified \<and>
              State (RcExtent c) \<noteq> SectorStateReconstructed
      then Inl (Errorf ''build recovered sector commit: extent state is not a recovered-data state'')
      else (case Extent_Validate (RcExtent c) of
        Some e \<Rightarrow> Inl (Wrapf ''build recovered sector commit'' e)
      | None \<Rightarrow>
     (case BuildPositionedWrites \<lparr>WpLogicalSectorSize = RcLogicalSectorSize c,
             WpExpectedSectors = RcExpectedSectors c, WpWrites = [RcWrite c]\<rparr> of
        Inl e \<Rightarrow> Inl (Wrapf ''build recovered sector commit'' e)
      | Inr _ \<Rightarrow>
     if SwLBA (RcWrite c) \<noteq> StartLBA (RcExtent c) \<or> Sectors (RcExtent c) \<noteq> 1
     then Inl (Errorf ''build recovered sector commit: write and extent must describe the same single sector'')
     else Inr ([StageValidateBounds, StageWriteImage] @
       (if RcProfile c = DurabilityStrict then [StageSyncImage] else []) @
       [StageAppendJournal, StageSyncJournal, StagePublishUI]))))"

definition BuildFailedSectorCommit :: "Extent \<Rightarrow> CommitSequence result" where
  "BuildFailedSectorCommit e =
     (if State e \<noteq> SectorStateMissing \<and> State e \<noteq> SectorStateIOError \<and>
         State e \<noteq> SectorStateSkipped \<and> State e \<noteq> SectorStateChecksumError \<and>
         State e \<noteq> SectorStateConflicting
      then Inl (Errorf ''build failed sector commit: extent state is not a failed-data state'')
      else (case Extent_Validate e of
        Some err \<Rightarrow> Inl (Wrapf ''build failed sector commit'' err)
      | None \<Rightarrow> Inr [StageAppendJournal, StageSyncJournal, StagePublishUI]))"

fun SimulateCrash :: "CommitSequence \<Rightarrow> CommitStage \<Rightarrow> CommitSequence" where
  "SimulateCrash [] stage = []"
| "SimulateCrash (a # as) stage = (if a = stage then [] else a # SimulateCrash as stage)"

fun Contains :: "CommitSequence \<Rightarrow> CommitStage \<Rightarrow> bool" where
  "Contains [] stage = False"
| "Contains (a # as) stage = (a = stage \<or> Contains as stage)"

section \<open>A full disk\<close>

record ResumableState =
  RsLastDurableExtent :: "Extent option"
  RsSchedulingStopped :: bool
  RsNeedsUserIntervention :: bool
  RsResumable :: bool
  RsUnrecoverableMetadata :: bool
  RsStatusMessage :: string

record ENOSPCEvaluation =
  EeCommitSequence :: CommitSequence
  EeFailedStage :: CommitStage
  EePreviousDurablePair :: "Extent option"
  EePendingExtent :: Extent

definition EvaluateENOSPC :: "ENOSPCEvaluation \<Rightarrow> ResumableState result" where
  "EvaluateENOSPC i =
     (case Extent_Validate (EePendingExtent i) of
        Some e \<Rightarrow> Inl (Wrapf ''evaluate enospc: pending extent'' e)
      | None \<Rightarrow>
     (case (case EePreviousDurablePair i of None \<Rightarrow> None | Some d \<Rightarrow> Extent_Validate d) of
        Some e \<Rightarrow> Inl (Wrapf ''evaluate enospc: previous durable extent'' e)
      | None \<Rightarrow>
     if \<not> Contains (EeCommitSequence i) (EeFailedStage i)
     then Inl (Errorf ''evaluate enospc: failed stage is not present in commit sequence'')
     else let s = \<lparr>RsLastDurableExtent = EePreviousDurablePair i, RsSchedulingStopped = True,
         RsNeedsUserIntervention = True, RsResumable = True, RsUnrecoverableMetadata = False,
         RsStatusMessage = ''Output storage is full. Recovery stopped before advancing durable map state.''\<rparr>
       in (case EeFailedStage i of
         StageWriteImage \<Rightarrow> Inr s
       | StageSyncImage \<Rightarrow> Inr s
       | StageAppendJournal \<Rightarrow> Inr (s\<lparr>RsStatusMessage := ''Output storage is full after image durability, but before journal completion. Resume from the last durable map state.''\<rparr>)
       | StageSyncJournal \<Rightarrow> Inr (s\<lparr>RsStatusMessage := ''Output storage is full after image durability, but before journal completion. Resume from the last durable map state.''\<rparr>)
       | _ \<Rightarrow> Inl (Errorf ''evaluate enospc: stage is not an ENOSPC stage''))))"

end
