(* ===== verification/ImageProps.thy ===== *)
theory ImageProps
  imports Image ExtentFacts
begin

text \<open>
  What \<^verbatim>\<open>internal/image\<close> promises: coalescing sector writes does not change the image, the
  order of a commit keeps the journal behind the image under the strict profile and only under it,
  and a full disk is reported as resumable.
\<close>

section \<open>Bytes of a file\<close>

lemma length_overwrite:
  "length (overwrite pos new old) = (if new = [] then length old else max (length old) (pos + length new))"
  by (auto simp: overwrite_def)

lemma nth_overwrite:
  assumes "i < length (overwrite pos new old)"
  shows "overwrite pos new old ! i =
     (if pos \<le> i \<and> i < pos + length new then new ! (i - pos)
      else if i < length old then old ! i else 0)"
proof -
  have "min (length old) pos + (pos - length old) = pos" by simp
  then show ?thesis using assms by (auto simp: overwrite_def nth_append split: if_splits)
qed

lemma overwrite_append:
  "overwrite (pos + length a) b (overwrite pos a old) = overwrite pos (a @ b) old"
proof (rule nth_equalityI)
  show len: "length (overwrite (pos + length a) b (overwrite pos a old)) = length (overwrite pos (a @ b) old)"
    by (auto simp: length_overwrite)
  fix i assume i: "i < length (overwrite (pos + length a) b (overwrite pos a old))"
  show "overwrite (pos + length a) b (overwrite pos a old) ! i = overwrite pos (a @ b) old ! i"
  proof (cases "i < length (overwrite pos a old)")
    case True
    then show ?thesis using i len
      by (auto simp: nth_overwrite nth_append)
  next
    case False
    then show ?thesis using i len
      by (auto simp: nth_overwrite nth_append length_overwrite split: if_splits)
  qed
qed

section \<open>Positioned writes\<close>

definition write_positioned :: "bytes \<Rightarrow> PositionedWrite \<Rightarrow> bytes" where
  "write_positioned img w = overwrite (unat (PwOffset w)) (PwData w) img"

text \<open>One sector at its place, the place counted without wrapping.\<close>

definition write_sector :: "bytes \<Rightarrow> SectorWrite \<Rightarrow> bytes" where
  "write_sector img w = overwrite (unat (SwLBA w) * unat (SwLogicalSectorSize w)) (SwData w) img"

definition apart :: "PositionedWrite \<Rightarrow> PositionedWrite \<Rightarrow> bool" where
  "apart a b \<longleftrightarrow> unat (PwOffset a) + length (PwData a) < unat (PwOffset b)"

definition addressable :: "u32 \<Rightarrow> SectorWrite \<Rightarrow> bool" where
  "addressable sz w \<longleftrightarrow> length (SwData w) < 2 ^ 32 \<and> (unat (SwLBA w) + 1) * unat sz < 2 ^ 64"

lemma sector_write_facts:
  assumes "SectorWrite_Validate w = None" "SwLogicalSectorSize w = sz" "addressable sz w"
  shows "length (SwData w) = unat sz" "0 < unat sz"
    "unat (SectorWrite_Offset w) = unat (SwLBA w) * unat sz"
proof -
  have sz: "sz \<noteq> 0" and len: "(word_of_nat (length (SwData w)) :: u32) = sz"
    using assms(1,2) by (auto simp: SectorWrite_Validate_def split: if_splits)
  have "unat (word_of_nat (length (SwData w)) :: u32) = length (SwData w)"
    using assms(3) by (simp add: addressable_def unat_of_nat)
  then show "length (SwData w) = unat sz" using len by simp
  show "0 < unat sz" using sz by (simp add: unat_gt_0)
  have "unat (SwLBA w) * unat sz < 2 ^ 64" using assms(3) by (simp add: addressable_def)
  then show "unat (SectorWrite_Offset w) = unat (SwLBA w) * unat sz"
    by (simp add: SectorWrite_Offset_def assms(2) unat_word_ariths)
qed

lemma plan_loop_facts:
  assumes "WriterPlan_Validate_loop sz n prev ws = None"
  shows "(\<forall>w \<in> set ws. SectorWrite_Validate w = None \<and> SwLogicalSectorSize w = sz \<and>
            (0 < n \<longrightarrow> SwLBA w < n)) \<and>
         sorted_wrt (\<lambda>a b. SwLBA a < SwLBA b) ((case prev of None \<Rightarrow> [] | Some p \<Rightarrow> [p]) @ ws)"
  using assms
proof (induction ws arbitrary: prev)
  case Nil
  then show ?case by (cases prev) simp_all
next
  case (Cons w ws)
  have head: "SectorWrite_Validate w = None" "SwLogicalSectorSize w = sz" "0 < n \<longrightarrow> SwLBA w < n"
    using Cons.prems by (auto split: option.splits if_splits simp: not_le)
  have rest: "WriterPlan_Validate_loop sz n (Some w) ws = None"
    using Cons.prems by (auto split: option.splits if_splits)
  have below: "prev = Some p \<Longrightarrow> SwLBA p < SwLBA w" for p
    using Cons.prems by (auto split: option.splits if_splits simp: not_le)
  note ih = Cons.IH [OF rest]
  show ?case
  proof (cases prev)
    case None
    then show ?thesis using ih head by auto
  next
    case (Some p)
    then have "SwLBA p < SwLBA w" by (rule below)
    then show ?thesis using ih head Some by fastforce
  qed
qed

lemma positioned_loop_head:
  "\<exists>d rest. BuildPositionedWrites_loop cur ws = \<lparr>PwOffset = PwOffset cur, PwData = PwData cur @ d\<rparr> # rest"
proof (induction ws arbitrary: cur)
  case Nil
  have "cur = \<lparr>PwOffset = PwOffset cur, PwData = PwData cur @ []\<rparr>" by simp
  then show ?case unfolding BuildPositionedWrites_loop.simps by blast
next
  case (Cons w ws)
  show ?case
  proof (cases "SectorWrite_Offset w = PwOffset cur + word_of_nat (length (PwData cur))")
    case True
    then show ?thesis using Cons.IH [of "cur\<lparr>PwData := PwData cur @ SwData w\<rparr>"] by fastforce
  next
    case False
    have "cur = \<lparr>PwOffset = PwOffset cur, PwData = PwData cur @ []\<rparr>" by simp
    then show ?thesis using False by (metis BuildPositionedWrites_loop.simps(2))
  qed
qed

definition after_current :: "u32 \<Rightarrow> PositionedWrite \<Rightarrow> SectorWrite list \<Rightarrow> bool" where
  "after_current sz cur ws \<longleftrightarrow>
     (\<forall>w \<in> set ws. SectorWrite_Validate w = None \<and> SwLogicalSectorSize w = sz \<and> addressable sz w \<and>
        unat (PwOffset cur) + length (PwData cur) \<le> unat (SwLBA w) * unat sz) \<and>
     sorted_wrt (\<lambda>a b. SwLBA a < SwLBA b) ws \<and>
     unat (PwOffset cur) + length (PwData cur) < 2 ^ 64"

lemma after_current_step:
  assumes "after_current sz cur (w # ws)"
    and "unat o' + n = (unat (SwLBA w) + 1) * unat sz" "n = length d"
  shows "after_current sz \<lparr>PwOffset = o', PwData = d\<rparr> ws"
proof -
  have later: "SwLBA w < SwLBA v" if "v \<in> set ws" for v
    using assms(1) that by (simp add: after_current_def)
  have "(unat (SwLBA w) + 1) * unat sz \<le> unat (SwLBA v) * unat sz" if "v \<in> set ws" for v
    using later [OF that] by (simp add: word_less_nat_alt del: mult_Suc)
  moreover have "addressable sz w" using assms(1) by (simp add: after_current_def)
  ultimately show ?thesis using assms unfolding after_current_def
    by (auto simp: addressable_def)
qed

lemma positioned_loop_correct:
  assumes "after_current sz cur ws"
  shows "foldl write_positioned img (BuildPositionedWrites_loop cur ws) =
           foldl write_sector (write_positioned img cur) ws \<and>
         sorted_wrt apart (BuildPositionedWrites_loop cur ws) \<and>
         sum_list (map (length \<circ> PwData) (BuildPositionedWrites_loop cur ws)) =
           length (PwData cur) + length ws * unat sz"
  using assms
proof (induction ws arbitrary: cur img)
  case Nil
  show ?case by simp
next
  case (Cons w ws)
  let ?merged = "\<lparr>PwOffset = PwOffset cur, PwData = PwData cur @ SwData w\<rparr>"
  let ?new = "\<lparr>PwOffset = SectorWrite_Offset w, PwData = SwData w\<rparr>"
  let ?joined = "SectorWrite_Offset w = PwOffset cur + word_of_nat (length (PwData cur))"
  have facts: "length (SwData w) = unat sz" "0 < unat sz"
      "unat (SectorWrite_Offset w) = unat (SwLBA w) * unat sz"
      "unat (PwOffset cur) + length (PwData cur) \<le> unat (SwLBA w) * unat sz"
      "SwLogicalSectorSize w = sz" "unat (PwOffset cur) + length (PwData cur) < 2 ^ 64"
    using Cons.prems sector_write_facts [of w sz] by (simp_all add: after_current_def)
  have "unat (PwOffset cur + word_of_nat (length (PwData cur)) :: u64) = unat (PwOffset cur) + length (PwData cur)"
    using facts(6) by (simp add: unat_word_ariths unat_of_nat mod_add_right_eq)
  then have joined: "?joined \<longleftrightarrow> unat (PwOffset cur) + length (PwData cur) = unat (SwLBA w) * unat sz"
    using facts(3) by (metis word_unat_eq_iff)
  have sector: "write_sector i w = write_positioned i ?new" for i
    using facts by (simp add: write_sector_def write_positioned_def)
  show ?case
  proof (cases ?joined)
    case True
    have shape: "cur\<lparr>PwData := PwData cur @ SwData w\<rparr> = ?merged" by simp
    have loop: "BuildPositionedWrites_loop cur (w # ws) = BuildPositionedWrites_loop ?merged ws"
      unfolding BuildPositionedWrites_loop.simps if_P [OF True] shape ..
    have "after_current sz ?merged ws"
      using after_current_step [OF Cons.prems, of "PwOffset cur" "length (PwData cur @ SwData w)" "PwData cur @ SwData w"]
        facts joined True by simp
    note ih = Cons.IH [OF this, of img]
    have "write_positioned img ?merged = write_sector (write_positioned img cur) w"
      using facts joined True
      by (simp add: write_sector_def write_positioned_def overwrite_append [symmetric])
    then show ?thesis using ih facts(1) unfolding loop by simp
  next
    case False
    then have loop: "BuildPositionedWrites_loop cur (w # ws) = cur # BuildPositionedWrites_loop ?new ws" by simp
    have "after_current sz ?new ws"
      using after_current_step [OF Cons.prems, of "SectorWrite_Offset w" "length (SwData w)" "SwData w"] facts
      by simp
    note ih = Cons.IH [OF this, of "write_positioned img cur"]
    obtain d rest where rest: "BuildPositionedWrites_loop ?new ws =
        \<lparr>PwOffset = PwOffset ?new, PwData = PwData ?new @ d\<rparr> # rest"
      using positioned_loop_head [of ?new ws] by blast
    have first: "unat (PwOffset cur) + length (PwData cur) < unat (SectorWrite_Offset w)"
      using False joined facts by simp
    have "sorted_wrt apart (BuildPositionedWrites_loop ?new ws)" using ih by blast
    then have "apart cur x" if "x \<in> set (BuildPositionedWrites_loop ?new ws)" for x
      using that first unfolding rest by (auto simp: apart_def)
    then show ?thesis using ih facts(1) sector [of "write_positioned img cur"] unfolding loop by simp
  qed
qed

text \<open>C31: Writing the coalesced writes of a plan gives the same image as writing its sectors one by
  one at their places; the coalesced writes are sorted with gaps between them and carry every
  sector once.\<close>

theorem coalesced_writes_same_image:
  assumes "BuildPositionedWrites p = Inr pws"
    and "\<forall>w \<in> set (WpWrites p). addressable (WpLogicalSectorSize p) w"
  shows "foldl write_positioned img pws = foldl write_sector img (WpWrites p) \<and>
    sorted_wrt apart pws \<and>
    sum_list (map (length \<circ> PwData) pws) = length (WpWrites p) * unat (WpLogicalSectorSize p)"
proof (cases "WpWrites p")
  case Nil
  then have "pws = []" using assms(1) by (auto simp: BuildPositionedWrites_def split: option.splits)
  then show ?thesis using Nil by simp
next
  case (Cons w ws)
  let ?sz = "WpLogicalSectorSize p"
  let ?cur = "\<lparr>PwOffset = SectorWrite_Offset w, PwData = SwData w\<rparr>"
  have valid: "WriterPlan_Validate_loop ?sz (WpExpectedSectors p) None (w # ws) = None"
    using assms(1) Cons
    by (auto simp: BuildPositionedWrites_def WriterPlan_Validate_def split: option.splits if_splits)
  have pws: "pws = BuildPositionedWrites_loop ?cur ws"
    using assms(1) Cons by (auto simp: BuildPositionedWrites_def split: option.splits)
  note plan = plan_loop_facts [OF valid]
  have w: "SectorWrite_Validate w = None" "SwLogicalSectorSize w = ?sz" "addressable ?sz w"
    using plan assms(2) Cons by simp_all
  note facts = sector_write_facts [OF w]
  have later: "(unat (SwLBA w) + 1) * unat ?sz \<le> unat (SwLBA v) * unat ?sz" if "v \<in> set ws" for v
  proof (rule mult_right_mono)
    have "SwLBA w < SwLBA v" using plan that by simp
    then show "unat (SwLBA w) + 1 \<le> unat (SwLBA v)" by (simp add: word_less_nat_alt)
  qed simp
  have after: "after_current ?sz ?cur ws"
    unfolding after_current_def
  proof (intro conjI ballI)
    fix v assume v: "v \<in> set ws"
    show "SectorWrite_Validate v = None" "SwLogicalSectorSize v = ?sz" using plan v by simp_all
    show "addressable ?sz v" using assms(2) Cons v by simp
    show "unat (PwOffset ?cur) + length (PwData ?cur) \<le> unat (SwLBA v) * unat ?sz"
      using later [OF v] facts by simp
  next
    show "sorted_wrt (\<lambda>a b. SwLBA a < SwLBA b) ws" using plan by simp
    show "unat (PwOffset ?cur) + length (PwData ?cur) < 2 ^ 64"
      using w(3) facts by (simp add: addressable_def)
  qed
  have first: "write_positioned img ?cur = write_sector img w"
    using facts w by (simp add: write_positioned_def write_sector_def)
  show ?thesis
    using positioned_loop_correct [OF after] first facts unfolding pws Cons by simp
qed

section \<open>The order of a commit\<close>

lemma Contains_iff: "Contains s a \<longleftrightarrow> a \<in> set s"
  by (induction s) auto

lemma BuildRecoveredSectorCommit_InrD:
  assumes "BuildRecoveredSectorCommit c = Inr s"
  shows "s = [StageValidateBounds, StageWriteImage] @
      (if RcProfile c = DurabilityStrict then [StageSyncImage] else []) @
      [StageAppendJournal, StageSyncJournal, StagePublishUI]"
    and "Extent_Validate (RcExtent c) = None" "SwLBA (RcWrite c) = StartLBA (RcExtent c)"
    "Sectors (RcExtent c) = 1"
  using assms by (simp_all add: BuildRecoveredSectorCommit_def split: if_splits option.splits sum.splits)

text \<open>Wherever the commit of a recovered sector breaks off, the journal is appended only after the
  image is written, the change is shown only after the journal is synced, and the image is synced
  before the journal is appended exactly under the strict profile; the failed-sector commit does
  not touch the image.\<close>

theorem commit_order:
  assumes "BuildRecoveredSectorCommit c = Inr s" "BuildFailedSectorCommit e = Inr f"
  shows "(Contains (SimulateCrash s stage) StageAppendJournal \<longrightarrow>
      Contains (SimulateCrash s stage) StageWriteImage \<and>
      (Contains (SimulateCrash s stage) StageSyncImage \<longleftrightarrow> RcProfile c = DurabilityStrict)) \<and>
    (Contains (SimulateCrash s stage) StagePublishUI \<longrightarrow> SimulateCrash s stage = s) \<and>
    \<not> Contains f StageWriteImage \<and>
    (Contains (SimulateCrash f stage) StagePublishUI \<longrightarrow> Contains (SimulateCrash f stage) StageSyncJournal)"
proof -
  have f: "f = [StageAppendJournal, StageSyncJournal, StagePublishUI]"
    using assms(2) by (simp add: BuildFailedSectorCommit_def split: if_splits option.splits)
  show ?thesis
    unfolding BuildRecoveredSectorCommit_InrD(1) [OF assms(1)] f by (cases stage) simp_all
qed

text \<open>Under the other profiles a disk that is full at the journal is reported as full \<^emph>\<open>after
  image durability\<close> although the image was not synced.\<close>

lemma full_disk_overstates_durability:
  assumes "BuildRecoveredSectorCommit c = Inr s" "RcProfile c \<noteq> DurabilityStrict"
  shows "\<exists>r. EvaluateENOSPC \<lparr>EeCommitSequence = s, EeFailedStage = StageAppendJournal,
        EePreviousDurablePair = None, EePendingExtent = RcExtent c\<rparr> = Inr r \<and>
      take 50 (RsStatusMessage r) = ''Output storage is full after image durability, but'' \<and>
      \<not> Contains (SimulateCrash s StageAppendJournal) StageSyncImage"
  unfolding BuildRecoveredSectorCommit_InrD(1) [OF assms(1)]
  using BuildRecoveredSectorCommit_InrD(2) [OF assms(1)] assms(2)
  by (simp add: EvaluateENOSPC_def Let_def)

text \<open>A full disk never reports the pending extent as durable and always stops the scheduling.\<close>

lemma full_disk_keeps_last_durable:
  assumes "EvaluateENOSPC i = Inr r"
  shows "RsLastDurableExtent r = EePreviousDurablePair i \<and> RsSchedulingStopped r \<and> RsResumable r \<and>
    EeFailedStage i \<in> {StageWriteImage, StageSyncImage, StageAppendJournal, StageSyncJournal}"
  using assms
  by (cases "EeFailedStage i")
    (auto simp: EvaluateENOSPC_def Let_def split: option.splits if_splits)

section \<open>Samples\<close>

definition sample_sector :: "u64 \<Rightarrow> SectorWrite" where
  "sample_sector n = \<lparr>SwLBA = n, SwLogicalSectorSize = 4, SwData = replicate 4 (ucast n)\<rparr>"

definition sample_plan :: WriterPlan where
  "sample_plan = \<lparr>WpLogicalSectorSize = 4, WpExpectedSectors = 8,
     WpWrites = [sample_sector 1, sample_sector 2, sample_sector 5]\<rparr>"

theorem coalesced_writes_same_image_witness:
  "BuildPositionedWrites sample_plan =
     Inr [\<lparr>PwOffset = 4, PwData = replicate 4 1 @ replicate 4 2\<rparr>, \<lparr>PwOffset = 20, PwData = replicate 4 5\<rparr>] \<and>
   foldl write_positioned [] [\<lparr>PwOffset = 4, PwData = replicate 4 1 @ replicate 4 2\<rparr>, \<lparr>PwOffset = 20, PwData = replicate 4 5\<rparr>] =
     foldl write_sector [] (WpWrites sample_plan)"
proof -
  have plan: "BuildPositionedWrites sample_plan =
     Inr [\<lparr>PwOffset = 4, PwData = replicate 4 1 @ replicate 4 2\<rparr>, \<lparr>PwOffset = 20, PwData = replicate 4 5\<rparr>]"
    by code_simp
  have "\<forall>w \<in> set (WpWrites sample_plan). addressable (WpLogicalSectorSize sample_plan) w"
    by (simp add: sample_plan_def sample_sector_def addressable_def)
  then show ?thesis using coalesced_writes_same_image [OF plan] plan by blast
qed

definition sample_commit :: RecoveredSectorCommit where
  "sample_commit = \<lparr>RcLogicalSectorSize = 4, RcExpectedSectors = 8, RcWrite = sample_sector 1,
     RcExtent = Extent_zero\<lparr>StartLBA := 1, Sectors := 1, State := SectorStateReadUnverified,
       Confidence := ConfidenceSingleRead\<rparr>, RcProfile = DurabilityStrict\<rparr>"

theorem commit_order_witness:
  "\<exists>s f. BuildRecoveredSectorCommit sample_commit = Inr s \<and>
     BuildFailedSectorCommit (Extent_zero\<lparr>Sectors := 1, State := SectorStateMissing\<rparr>) = Inr f \<and>
     Contains (SimulateCrash s StageSyncJournal) StageAppendJournal \<and>
     Contains (SimulateCrash s StageSyncJournal) StageSyncImage"
proof -
  have s: "BuildRecoveredSectorCommit sample_commit = Inr [StageValidateBounds, StageWriteImage,
      StageSyncImage, StageAppendJournal, StageSyncJournal, StagePublishUI]" by code_simp
  have f: "BuildFailedSectorCommit (Extent_zero\<lparr>Sectors := 1, State := SectorStateMissing\<rparr>) =
      Inr [StageAppendJournal, StageSyncJournal, StagePublishUI]" by code_simp
  have "RcProfile sample_commit = DurabilityStrict" by (simp add: sample_commit_def)
  then show ?thesis using commit_order [OF s f, of StageSyncJournal] s f by auto
qed

end
