(* ===== verification/Pass0.thy ===== *)
theory Pass0
  imports Passes Catalog
begin

text \<open>
  Pass zero (\<^verbatim>\<open>internal/recovery/pass0.go\<close>): from the geometry of a medium and the samples read of
  it, the representation of the output, the identity with its catalog lookup, and the first read.
  LBAs are 64-bit words read as signed; the conversions \<^verbatim>\<open>int64(x)\<close> keep the bits.
\<close>

abbreviation (input) TrackModeAudio :: u16 where "TrackModeAudio \<equiv> 0"
abbreviation (input) TrackModeData2048 :: u16 where "TrackModeData2048 \<equiv> 1"

datatype OutputRepresentation = RepresentationISO | RepresentationBINCUE | RepresentationIMG

record Pass0Geometry =
  GeProfile :: u16
  GeLogicalBlockSize :: u32
  GeSectorCount :: u64
  GeSessions :: u16
  GeTracks :: "TrackLayout list"

text \<open>The identity that carries a geometry, with the layout hash and the samples given.\<close>

definition geometry_identity :: "Pass0Geometry \<Rightarrow> gostring \<Rightarrow> SectorFingerprint list \<Rightarrow> ContentIdentity" where
  "geometry_identity g layout samples =
     \<lparr>IdVersion = 1, IdProfile = GeProfile g, IdLogicalBlockSize = GeLogicalBlockSize g,
      IdSectorCount = GeSectorCount g, IdSessions = GeSessions g, IdTracks = GeTracks g,
      IdLayoutSHA256 = layout, IdVolumeHints = [], IdSamples = samples, IdQuickID = [],
      IdFullContentSHA256 = []\<rparr>"

definition Geometry_Validate :: "Pass0Geometry \<Rightarrow> error option" where
  "Geometry_Validate g = ContentIdentity_Validate (geometry_identity g (str ''geometry-validation'') [])"

record SamplePlanEntry =
  SpSlot :: u16
  SpLBA :: int64
  SpMandatory :: bool
  SpReason :: string

record Pass0Input =
  P0Geometry :: Pass0Geometry
  P0ObservedSamples :: "SectorFingerprint list"
  P0CatalogEntries :: "Entry list"
  P0LookupBudget :: LookupBudget
  P0DevicePreferredCluster :: u32

record Pass0Plan =
  P0Representation :: OutputRepresentation
  P0Identity :: ContentIdentity
  P0SamplePlan :: "SamplePlanEntry list"
  P0Lookup :: LookupResult
  P0InitialCluster :: u32
  P0FirstRead :: Request

definition SelectOutputRepresentation :: "Pass0Geometry \<Rightarrow> OutputRepresentation" where
  "SelectOutputRepresentation g =
     (if length (GeTracks g) > 1 then RepresentationBINCUE
      else if length (GeTracks g) = 1 \<and> TrMode (hd (GeTracks g)) = TrackModeAudio then RepresentationBINCUE
      else if GeLogicalBlockSize g = 2048 then RepresentationISO
      else RepresentationIMG)"

definition fractionalLBA :: "u64 \<Rightarrow> u64 \<Rightarrow> u64 \<Rightarrow> int64" where
  "fractionalLBA sectorCount numerator denominator =
     (if sectorCount = 0 then 0 else (sectorCount - 1) * numerator div denominator)"

definition clampLBA :: "u64 \<Rightarrow> u64 \<Rightarrow> int64" where
  "clampLBA lba sectorCount =
     (if sectorCount = 0 then 0 else if lba \<ge> sectorCount then sectorCount - 1 else lba)"

definition pass0_layoutHash :: "Pass0Geometry \<Rightarrow> gostring result" where
  "pass0_layoutHash g = BuildLayoutHash (geometry_identity g [] [])"

text \<open>\<^verbatim>\<open>hex.DecodeString\<close>.\<close>

definition fromHexChar :: "u8 \<Rightarrow> u8 option" where
  "fromHexChar c =
     (if 48 \<le> c \<and> c \<le> 57 then Some (c - 48)
      else if 97 \<le> c \<and> c \<le> 102 then Some (c - 87)
      else if 65 \<le> c \<and> c \<le> 70 then Some (c - 55)
      else None)"

fun hex_DecodeString :: "gostring \<Rightarrow> bytes result" where
  "hex_DecodeString [] = Inr []"
| "hex_DecodeString [c] = Inl (Errorf ''encoding/hex: odd length hex string'')"
| "hex_DecodeString (a # b # cs) =
     (case (fromHexChar a, fromHexChar b) of
        (Some h, Some l) \<Rightarrow> map_sum id (\<lambda>bs. (push_bit 4 h OR l) # bs) (hex_DecodeString cs)
      | _ \<Rightarrow> Inl (Errorf ''encoding/hex: invalid byte''))"

definition deterministicExtraLBA :: "Pass0Geometry \<Rightarrow> int64" where
  "deterministicExtraLBA g =
     (case pass0_layoutHash g of
        Inl _ \<Rightarrow> 0
      | Inr hash \<Rightarrow>
     if GeSectorCount g = 0 then 0
     else (case hex_DecodeString (take 16 hash) of
        Inl _ \<Rightarrow> 0
      | Inr decoded \<Rightarrow>
        if length decoded < 8 then 0 else le_get (take 8 decoded) mod GeSectorCount g))"

definition sample_positions :: "Pass0Geometry \<Rightarrow> (u16 \<times> int64 \<times> string) list" where
  "sample_positions g =
     (let n = GeSectorCount g in
      [(1, 0, ''first-readable''), (2, clampLBA 16 n, ''descriptor-region''),
       (3, fractionalLBA n 1 8, ''fraction-12_5''), (4, fractionalLBA n 1 4, ''fraction-25''),
       (5, fractionalLBA n 1 2, ''fraction-50''), (6, fractionalLBA n 3 4, ''fraction-75''),
       (7, fractionalLBA n 7 8, ''fraction-87_5''), (8, n - 1, ''final-readable''),
       (9, deterministicExtraLBA g, ''layout-derived'')])"

fun planned_samples :: "int64 set \<Rightarrow> (u16 \<times> int64 \<times> string) list \<Rightarrow> SamplePlanEntry list" where
  "planned_samples seen [] = []"
| "planned_samples seen ((slot, lba, reason) # positions) =
     (if lba \<in> seen then planned_samples seen positions
      else \<lparr>SpSlot = slot, SpLBA = lba, SpMandatory = True, SpReason = reason\<rparr> #
        planned_samples (insert lba seen) positions)"

definition PlanIdentitySamples :: "Pass0Geometry \<Rightarrow> SamplePlanEntry list" where
  "PlanIdentitySamples g =
     (if GeSectorCount g = 0 then [] else sort_key SpSlot (planned_samples {} (sample_positions g)))"

definition buildQuickID :: "ContentIdentity \<Rightarrow> SamplePlanEntry list \<Rightarrow> (gostring \<times> bool) result" where
  "buildQuickID identity plan = BuildQuickContentID identity (map SpSlot (filter SpMandatory plan))"

text \<open>The order \<^verbatim>\<open>sort.Slice\<close> gives to samples of one slot is open; such samples are refused.\<close>

definition BuildContentIdentity ::
  "Pass0Geometry \<Rightarrow> SectorFingerprint list \<Rightarrow> SamplePlanEntry list \<Rightarrow> ContentIdentity result" where
  "BuildContentIdentity g observed plan =
     (case pass0_layoutHash g of
        Inl e \<Rightarrow> Inl e
      | Inr layout \<Rightarrow>
        let identity = geometry_identity g layout (sort_key FpSlot observed) in
        (case buildQuickID identity plan of
           Inl e \<Rightarrow> Inl e
         | Inr (quickID, ok) \<Rightarrow>
           let identity1 = (if ok then identity\<lparr>IdQuickID := quickID\<rparr> else identity) in
           (case ContentIdentity_Validate identity1 of Some e \<Rightarrow> Inl e | None \<Rightarrow> Inr identity1)))"

definition selectInitialClusterSize :: "Pass0Geometry \<Rightarrow> u32 \<Rightarrow> u32" where
  "selectInitialClusterSize g preferred =
     (if preferred > 0 then preferred
      else if GeLogicalBlockSize g = 2048 then 32 else 4)"

definition PreparePass0 :: "Pass0Input \<Rightarrow> Pass0Plan result" where
  "PreparePass0 i =
     (case Geometry_Validate (P0Geometry i) of Some e \<Rightarrow> Inl e | None \<Rightarrow>
     (case LookupBudget_Validate (P0LookupBudget i) of Some e \<Rightarrow> Inl e | None \<Rightarrow>
      let g = P0Geometry i; representation = SelectOutputRepresentation g;
          samplePlan = PlanIdentitySamples g in
     (case BuildContentIdentity g (P0ObservedSamples i) samplePlan of Inl e \<Rightarrow> Inl e | Inr identity \<Rightarrow>
     (case Lookup (P0CatalogEntries i) identity (P0LookupBudget i) of Inl e \<Rightarrow> Inl e | Inr lookup \<Rightarrow>
      let preferred = selectInitialClusterSize g (P0DevicePreferredCluster i);
          cluster = (if preferred > (ucast (GeSectorCount g) :: u32) then ucast (GeSectorCount g)
                     else preferred)
      in Inr \<lparr>P0Representation = representation, P0Identity = identity, P0SamplePlan = samplePlan,
              P0Lookup = lookup, P0InitialCluster = cluster, P0FirstRead = FastPass 0 cluster\<rparr>))))"

end
