(* ===== verification/Pass0Props.thy ===== *)
theory Pass0Props
  imports Pass0 IdentityProps
begin

text \<open>
  Pass zero: which sectors it samples, what its plan rests on, and how its identities relate to
  those the catalog's collector builds.
\<close>

section \<open>The layout-derived sector\<close>

lemma hex_digit_roundtrip: "b < 16 \<Longrightarrow> fromHexChar (hex_digit b) = Some b"
proof -
  assume "b < 16"
  then have "unat b < 16" by (simp add: word_less_nat_alt)
  then have "unat b \<in> {0 ..< 16}" by simp
  then have "word_of_nat (unat b) \<in> (word_of_nat ` {0 ..< 16} :: u8 set)" by (rule imageI)
  then have "b \<in> word_of_nat ` {0 ..< 16}" by simp
  moreover have "\<forall>c \<in> (word_of_nat ` {0 ..< 16} :: u8 set). fromHexChar (hex_digit c) = Some c"
    by code_simp
  ultimately show ?thesis by blast
qed

lemma nibbles: "push_bit 4 (drop_bit 4 b) OR (b AND 15) = (b :: u8)"
proof -
  have "b AND 15 = take_bit 4 b" by (simp add: take_bit_eq_mask mask_eq_exp_minus_1)
  moreover have "push_bit 4 (drop_bit 4 b) OR take_bit 4 b = b" 
    by (rule bit_word_eqI) (auto simp: bit_simps)
  ultimately show ?thesis by simp
qed

lemma hex_roundtrip: "hex_DecodeString (hex_EncodeToString bs) = Inr bs"
proof (induction bs)
  case (Cons b bs)
  have "drop_bit 4 b < 16"
  proof -
    have "unat b < 256" using unsigned_less [of b] by simp
    then have "unat b div 16 < 16" by simp
    moreover have "unat (drop_bit 4 b) = unat b div 16" by (simp add: drop_bit_eq_div unat_div)
    ultimately show ?thesis unfolding word_less_nat_alt by simp
  qed
  moreover have "b AND 15 < 16"
    by (rule le_less_trans [OF word_and_le1]) simp
  ultimately show ?case
    using Cons by (simp add: hex_EncodeToString_def hex_digit_roundtrip nibbles)
qed (simp add: hex_EncodeToString_def)


lemma hex_take: "take (2 * k) (hex_EncodeToString bs) = hex_EncodeToString (take k bs)"
proof (induction bs arbitrary: k)
  case (Cons b bs)
  then show ?case by (cases k) (simp_all add: hex_EncodeToString_def)
qed (simp add: hex_EncodeToString_def)

text \<open>The ninth sector comes from the first eight bytes of the digest of the layout.\<close>

lemma extra_lba:
  assumes "pass0_layoutHash g = Inr hash" "GeSectorCount g \<noteq> 0"
  shows "deterministicExtraLBA g =
    le_get (take 8 (sha256 (layout_bytes (geometry_identity g [] [])))) mod GeSectorCount g"
proof -
  have hash: "hash = hex_EncodeToString (sha256 (layout_bytes (geometry_identity g [] [])))"
    using assms(1) by (simp add: pass0_layoutHash_def BuildLayoutHash_def split: if_splits option.splits)
  have "hex_DecodeString (take 16 hash) = Inr (take 8 (sha256 (layout_bytes (geometry_identity g [] []))))"
    using hex_take [of 8] unfolding hash by (simp add: hex_roundtrip)
  then show ?thesis using assms by (simp add: deterministicExtraLBA_def)
qed

lemma extra_lba_less: "GeSectorCount g \<noteq> 0 \<Longrightarrow> deterministicExtraLBA g < GeSectorCount g"
  by (simp add: deterministicExtraLBA_def word_mod_less_divisor word_gt_0 split: sum.splits)

section \<open>The sampled sectors\<close>

lemma planned_samples_facts:
  "set (map SpLBA (planned_samples seen ps)) = set (map (fst \<circ> snd) ps) - seen"
  "distinct (map SpLBA (planned_samples seen ps))"
  "\<forall>e \<in> set (planned_samples seen ps). SpMandatory e \<and> (SpSlot e, SpLBA e, SpReason e) \<in> set ps"
  "sorted_wrt (<) (map fst ps) \<Longrightarrow> sorted_wrt (<) (map SpSlot (planned_samples seen ps))"
  "length (planned_samples seen ps) \<le> length ps"
proof (induction seen ps rule: planned_samples.induct)
  case (2 seen slot lba reason positions)
  { case 1 then show ?case using 2 by (cases "lba \<in> seen") auto }
  { case 2 then show ?case using "2.IH"(1,2,6,7) by (cases "lba \<in> seen") auto }
  { case 3 then show ?case using "2.IH"(3,8) by (cases "lba \<in> seen") auto }
  { case 4
    then have "sorted_wrt (<) (map fst positions)" "\<forall>p \<in> set positions. slot < fst p" by auto
    then show ?case using "2.IH"(3,4,8,9) by (cases "lba \<in> seen") fastforce+ }
  { case 5 then show ?case using "2.IH"(5,10) by (cases "lba \<in> seen") auto }
qed simp_all

lemma positions_sorted: "sorted_wrt (<) (map fst (sample_positions g))"
  by (simp add: sample_positions_def Let_def)

lemma plan_unfold:
  assumes "GeSectorCount g \<noteq> 0"
  shows "PlanIdentitySamples g = planned_samples {} (sample_positions g)"
proof -
  have "sorted_wrt (<) (map SpSlot (planned_samples {} (sample_positions g)))"
    by (rule planned_samples_facts(4) [OF positions_sorted])
  then have "sorted (map SpSlot (planned_samples {} (sample_positions g)))"
    by (rule strict_sorted_imp_sorted)
  then show ?thesis using assms by (simp add: PlanIdentitySamples_def sorted_sort_id sort_key_id_if_sorted)
qed

lemma unat_fractionalLBA:
  assumes "n \<noteq> 0" "(unat n - 1) * unat a < 2 ^ 64"
  shows "unat (fractionalLBA n a b) = (unat n - 1) * unat a div unat b"
proof -
  have "unat (n - 1) = unat n - 1" using assms(1) by (simp add: unat_minus_one)
  then have "unat ((n - 1) * a) = (unat n - 1) * unat a" using assms(2) by (simp add: unat_word_ariths)
  then show ?thesis using assms(1) by (simp add: fractionalLBA_def unat_div)
qed

lemma fraction_less:
  assumes "n \<noteq> 0" "(unat n - 1) * unat a < 2 ^ 64" "a \<le> b"
  shows "fractionalLBA n a b < n"
proof -
  have "(unat n - 1) * unat a div unat b \<le> unat n - 1"
  proof (cases "unat b = 0")
    case False
    have "(unat n - 1) * unat a \<le> (unat n - 1) * unat b" using assms(3) by (simp add: word_le_nat_alt)
    then have "(unat n - 1) * unat a div unat b \<le> (unat n - 1) * unat b div unat b" by (rule div_le_mono)
    then show ?thesis using False by simp
  qed simp
  moreover have "0 < unat n" using assms(1) by (simp add: unat_gt_0)
  ultimately show ?thesis using unat_fractionalLBA [OF assms(1,2), of b] unfolding word_less_nat_alt by linarith
qed

text \<open>The plan of pass zero has the slots in order, no sector twice, only sectors of the medium, and
  always the first and the last one.\<close>

lemma pass_zero_samples:
  assumes "GeSectorCount g \<noteq> 0" "(unat (GeSectorCount g) - 1) * 7 < 2 ^ 64"
  shows "sorted_wrt (<) (map SpSlot (PlanIdentitySamples g)) \<and> distinct (map SpLBA (PlanIdentitySamples g)) \<and>
    (\<forall>e \<in> set (PlanIdentitySamples g). SpMandatory e \<and> SpLBA e < GeSectorCount g) \<and>
    {0, GeSectorCount g - 1} \<subseteq> set (map SpLBA (PlanIdentitySamples g)) \<and>
    length (PlanIdentitySamples g) \<le> 9"
proof -
  let ?n = "GeSectorCount g"
  note facts = planned_samples_facts [where seen = "{}" and ps = "sample_positions g"]
  have small: "(unat ?n - 1) * unat a < 2 ^ 64" if "a \<le> (7 :: u64)" for a
  proof -
    have "unat a \<le> 7" using that by (simp add: word_le_nat_alt)
    then have "(unat ?n - 1) * unat a \<le> (unat ?n - 1) * 7" by simp
    then show ?thesis using assms(2) by linarith
  qed
  have frac: "fractionalLBA ?n a b < ?n" if "a \<le> b" "a \<le> 7" for a b
    by (rule fraction_less [OF assms(1) small [OF that(2)] that(1)])
  have less: "x - 1 < x" if "x \<noteq> 0" for x :: u64
    using that by (simp add: word_less_nat_alt unat_minus_one unat_gt_0)
  have "\<forall>p \<in> set (sample_positions g). fst (snd p) < ?n"
    using frac [of 1 8] frac [of 1 4] frac [of 1 2] frac [of 3 4] frac [of 7 8] assms(1)
      extra_lba_less [OF assms(1)] less [OF assms(1)]
    by (simp add: sample_positions_def Let_def clampLBA_def word_gt_0 not_le)
  then have "\<forall>e \<in> set (planned_samples {} (sample_positions g)). SpMandatory e \<and> SpLBA e < ?n"
    using facts(3) by fastforce
  moreover have "{0, ?n - 1} \<subseteq> set (map SpLBA (planned_samples {} (sample_positions g)))"
    unfolding facts(1) by (simp add: sample_positions_def Let_def)
  moreover have "length (sample_positions g) = 9" by (simp add: sample_positions_def Let_def)
  ultimately show ?thesis
    using facts(2,5) facts(4) [OF positions_sorted] unfolding plan_unfold [OF assms(1)] by simp
qed


section \<open>What a plan rests on\<close>

lemma BuildContentIdentity_facts:
  assumes "BuildContentIdentity g observed plan = Inr i"
  shows "ContentIdentity_Validate i = None" "IdSamples i = sort_key FpSlot observed"
    "CompatibleGeometry i (geometry_identity g [] [])" "IdTracks i = GeTracks g" "IdVersion i = 1"
    "pass0_layoutHash g = Inr (IdLayoutSHA256 i)"
    "\<exists>ok. BuildQuickContentID (i\<lparr>IdQuickID := []\<rparr>) (map SpSlot (filter SpMandatory plan)) = Inr (IdQuickID i, ok)"
proof -
  obtain layout where layout: "pass0_layoutHash g = Inr layout"
    using assms by (cases "pass0_layoutHash g") (simp_all add: BuildContentIdentity_def)
  let ?j = "geometry_identity g layout (sort_key FpSlot observed)"
  obtain q ok where quick: "buildQuickID ?j plan = Inr (q, ok)"
    using assms layout by (auto simp: BuildContentIdentity_def Let_def split: sum.splits)
  have qe: "\<not> ok \<Longrightarrow> q = []"
    using quick by (auto simp: buildQuickID_def BuildQuickContentID_def split: option.splits if_splits)
  have shape: "i = ?j\<lparr>IdQuickID := q\<rparr>" and v: "ContentIdentity_Validate i = None"
    using assms layout quick qe
    by (auto simp: BuildContentIdentity_def Let_def geometry_identity_def split: if_splits option.splits)
  show "ContentIdentity_Validate i = None" by (rule v)
  show "IdSamples i = sort_key FpSlot observed" "IdTracks i = GeTracks g" "IdVersion i = 1"
    "CompatibleGeometry i (geometry_identity g [] [])" "pass0_layoutHash g = Inr (IdLayoutSHA256 i)"
    using layout unfolding shape by (simp_all add: geometry_identity_def CompatibleGeometry_def)
  have "i\<lparr>IdQuickID := []\<rparr> = ?j" unfolding shape by (simp add: geometry_identity_def)
  then show "\<exists>ok. BuildQuickContentID (i\<lparr>IdQuickID := []\<rparr>) (map SpSlot (filter SpMandatory plan)) = Inr (IdQuickID i, ok)"
    using quick unfolding buildQuickID_def shape by (simp add: geometry_identity_def)
qed

lemma PreparePass0_InrD:
  assumes "PreparePass0 inp = Inr plan"
  shows "Geometry_Validate (P0Geometry inp) = None"
    "P0SamplePlan plan = PlanIdentitySamples (P0Geometry inp)"
    "BuildContentIdentity (P0Geometry inp) (P0ObservedSamples inp) (P0SamplePlan plan) = Inr (P0Identity plan)"
    "Lookup (P0CatalogEntries inp) (P0Identity plan) (P0LookupBudget inp) = Inr (P0Lookup plan)"
    "P0InitialCluster plan = min (selectInitialClusterSize (P0Geometry inp) (P0DevicePreferredCluster inp))
       (ucast (GeSectorCount (P0Geometry inp)))"
    "P0FirstRead plan = FastPass 0 (P0InitialCluster plan)"
  using assms by (auto simp: PreparePass0_def Let_def min_def split: option.splits sum.splits)

text \<open>The number of sectors is truncated to 32 bits: a medium of \<open>2 ^ 32\<close> sectors is read with
  clusters of no sectors.\<close>

lemma pass_zero_reads_nothing:
  assumes "PreparePass0 inp = Inr plan" "GeSectorCount (P0Geometry inp) = 2 ^ 32"
  shows "P0FirstRead plan = FastPass 0 0"
proof -
  have "(ucast (2 ^ 32 :: u64) :: u32) = 0" by simp
  moreover have "min x 0 = 0" for x :: u32 by (simp add: min_def)
  ultimately have "P0InitialCluster plan = 0"
    using PreparePass0_InrD(5) [OF assms(1)] unfolding assms(2) by (simp only:)
  then show ?thesis using PreparePass0_InrD(6) [OF assms(1)] by simp
qed

text \<open>An identity of pass zero and one of the catalog's collector number the sampled sectors
  differently: slot 1 is sector 0 for the one and an eighth of the medium for the other. Any two of
  them with the same layout conflict, also when they describe the same disc, unless their quick
  identifiers happen to be equal.\<close>

theorem pass_zero_identity_conflicts:
  assumes "PreparePass0 inp = Inr plan"
    and "s \<in> set (P0ObservedSamples inp)" "FpSlot s = 1" "FpLBA s = 0" "Available s"
    and "Collect c clock base (Some reader) = Inr (j, stats)"
    and "t \<in> set (IdSamples j)" "FpSlot t = 1" "Available t"
    and "same_layout j (P0Identity plan)"
    and "8 < unat (IdSectorCount base)" "(unat (IdSectorCount base) - 1) * 6 < 2 ^ 64"
    and "IdQuickID j = [] \<or> IdQuickID j \<noteq> IdQuickID (P0Identity plan)"
    and "8 \<le> b"
  shows "(\<exists>e. e \<in> set (PlanIdentitySamples (P0Geometry inp)) \<and> SpSlot e = 1 \<and> SpLBA e = 0) \<and>
    (\<exists>r. CompareContentIdentity j (P0Identity plan) b = Inr r \<and> CrMatch r = MatchConflict)"
proof -
  let ?i = "P0Identity plan" and ?g = "P0Geometry inp"
  note p = PreparePass0_InrD [OF assms(1)]
  note i = BuildContentIdentity_facts [OF p(3)]
  obtain slots where col: "BuildSamplePlan (IdSectorCount base) = Inr slots"
      "list_all2 (collected reader (IdLogicalBlockSize base)) slots (IdSamples j)"
      "ContentIdentity_Validate j = None"
    using Collect_facts [OF assms(6)] by metis
  note d = valid_distinct [OF i(1)] valid_distinct [OF col(3)]
  have n: "GeSectorCount ?g \<noteq> 0"
    using p(1) by (auto simp: Geometry_Validate_def ContentIdentity_Validate_None geometry_identity_def)
  have first: "\<exists>e. e \<in> set (PlanIdentitySamples ?g) \<and> SpSlot e = 1 \<and> SpLBA e = 0"
  proof -
    obtain ps where "sample_positions ?g = (1, 0, ''first-readable'') # ps"
      by (simp add: sample_positions_def Let_def)
    then have "\<lparr>SpSlot = 1, SpLBA = 0, SpMandatory = True, SpReason = ''first-readable''\<rparr> \<in> set (PlanIdentitySamples ?g)"
      unfolding plan_unfold [OF n] by simp
    then show ?thesis by (intro exI [of _ "\<lparr>SpSlot = 1, SpLBA = 0, SpMandatory = True, SpReason = ''first-readable''\<rparr>"]) simp
  qed
  have ri: "readable ?i 1 = Some (0, FpSHA256 s)"
    unfolding readable_Some [OF d(1)] i(2) set_sort using assms(2-5) by blast
  have rj: "readable j 1 = Some (FpLBA t, FpSHA256 t)"
    unfolding readable_Some [OF d(2)] using assms(7-9) by blast
  have "unat (FpLBA t) = (unat (IdSectorCount base) - 1) * 1 div 8"
  proof -
    obtain q where q: "q \<in> set slots" "FpSlot t = PlSlot q" "FpLBA t = PlLBA q"
    proof -
      obtain k where k: "k < length (IdSamples j)" "t = IdSamples j ! k"
        using assms(7) by (auto simp: in_set_conv_nth)
      then have "collected reader (IdLogicalBlockSize base) (slots ! k) t" "k < length slots"
        using col(2) by (auto simp: list_all2_conv_all_nth)
      then show thesis using that [of "slots ! k"] by (simp add: collected_def)
    qed
    show ?thesis using BuildSamplePlan_facts(1) [OF col(1) assms(12)] q assms(8)
      by (auto simp: slot_sector_def)
  qed
  then have "FpLBA t \<noteq> 0" using assms(11) by auto
  then have "readable j 1 \<noteq> readable ?i 1" "1 \<in> shared_slots j ?i"
    unfolding shared_slots_def Int_iff domIff ri rj by simp_all
  then have differ: "\<exists>slot\<in>shared_slots j ?i. readable j slot \<noteq> readable ?i slot" by blast
  have "\<not> (IdQuickID j \<noteq> [] \<and> IdQuickID j = IdQuickID ?i)" using assms(13) by blast
  then have conflict: "identity_verdict j ?i = MatchConflict"
    unfolding identity_verdict_def if_P [OF differ] using assms(10) by simp
  have "length (IdSamples j) \<le> 8"
    using col BuildSamplePlan_length(1) by (metis list_all2_lengthD)
  moreover have "card (shared_slots j ?i) = card (shared_slots ?i j)"
    by (simp add: shared_slots_def Int_commute)
  ultimately have "card (shared_slots j ?i) \<le> 8"
    using compared_slots(2) [OF d] le_trans [OF length_filter_le] by metis
  then have card: "card (shared_slots j ?i) \<le> unat b" using assms(14) by (simp add: word_le_nat_alt)
  have "b \<noteq> 0" using assms(14) by auto
  then obtain r where r: "CompareContentIdentity j ?i b = Inr r" using compare_total [OF col(3) i(1)] by blast
  have "CrMatch r = MatchConflict" unfolding compare_verdict(1) [OF r card] by (rule conflict)
  then have "\<exists>r. CompareContentIdentity j ?i b = Inr r \<and> CrMatch r = MatchConflict"
    using r by (intro exI conjI)
  then show ?thesis using first by (intro conjI)
qed

section \<open>Witness\<close>

definition sample_geometry :: Pass0Geometry where
  "sample_geometry = \<lparr>GeProfile = 8, GeLogicalBlockSize = 2048, GeSectorCount = 100, GeSessions = 1,
     GeTracks = IdTracks one_track\<rparr>"

definition sample_input :: Pass0Input where
  "sample_input = \<lparr>P0Geometry = sample_geometry,
     P0ObservedSamples = [\<lparr>FpSlot = 1, FpLBA = 0, Available = True, FpSHA256 = sha256 (replicate 2048 0), FpError = SampleErrorNone\<rparr>],
     P0CatalogEntries = [], P0LookupBudget = 8, P0DevicePreferredCluster = 0\<rparr>"


lemma sample_geometry_facts:
  "GeSectorCount sample_geometry = 100" "GeLogicalBlockSize sample_geometry = 2048"
  "Tracks_Validate None (GeTracks sample_geometry) = None" "Tracks_check (GeTracks sample_geometry) = None"
  by (simp_all add: sample_geometry_def one_track_def TrackLayout_Validate_def)

lemma geometry_identity_valid:
  assumes "layout \<noteq> []" "Samples_Validate {} ss = None"
  shows "ContentIdentity_Validate (geometry_identity sample_geometry layout ss) = None"
  using assms sample_geometry_facts by (simp add: ContentIdentity_Validate_None geometry_identity_def)

lemma sample_layout: "\<exists>h. pass0_layoutHash sample_geometry = Inr h \<and> h \<noteq> []"
proof -
  have "pass0_layoutHash sample_geometry = Inr (hex_EncodeToString (sha256 (layout_bytes (geometry_identity sample_geometry [] []))))"
    using sample_geometry_facts by (simp add: pass0_layoutHash_def BuildLayoutHash_def geometry_identity_def)
  moreover have "length (hex_EncodeToString (sha256 (layout_bytes (geometry_identity sample_geometry [] [])))) = 64"
    by simp
  ultimately show ?thesis by fastforce
qed

lemma sample_pass_zero:
  "\<exists>plan h. PreparePass0 sample_input = Inr plan \<and> pass0_layoutHash sample_geometry = Inr h \<and>
     P0Identity plan = geometry_identity sample_geometry h (P0ObservedSamples sample_input)"
proof -
  let ?ss = "P0ObservedSamples sample_input"
  obtain h where h: "pass0_layoutHash sample_geometry = Inr h" "h \<noteq> []" using sample_layout by blast
  have ss: "sort_key FpSlot ?ss = ?ss" "Samples_Validate {} ?ss = None"
    by (simp_all add: sample_input_def SectorFingerprint_Validate_def)
  let ?i = "geometry_identity sample_geometry h ?ss" and ?plan = "PlanIdentitySamples sample_geometry"
  have valid: "ContentIdentity_Validate ?i = None" by (rule geometry_identity_valid [OF h(2) ss(2)])
  have n: "GeSectorCount sample_geometry \<noteq> 0" by (simp add: sample_geometry_facts)
  note facts = pass_zero_samples [OF n]
  have last: "99 \<in> set (map SpLBA ?plan)" and mand: "filter SpMandatory ?plan = ?plan"
    using facts by (simp_all add: sample_geometry_facts)
  then obtain e where e: "e \<in> set ?plan" "SpLBA e = 99" by auto
  have "e \<in> set (planned_samples {} (sample_positions sample_geometry))"
    using e(1) unfolding plan_unfold [OF n] .
  then have "(SpSlot e, 99, SpReason e) \<in> set (sample_positions sample_geometry)"
    using planned_samples_facts(3) [where seen = "{}" and ps = "sample_positions sample_geometry"] e(2) by fastforce
  then have slot: "SpSlot e \<noteq> 1"
    by (auto simp: sample_positions_def Let_def)
  obtain q ok where quick: "BuildQuickContentID ?i (map SpSlot ?plan) = Inr (q, ok)"
    using BuildQuickContentID_total [OF valid] e(1) by (metis empty_iff list.set(1) map_is_Nil_conv)
  have "readable ?i (SpSlot e) = None"
    using slot by (simp add: readable_def indexed_def geometry_identity_def sample_input_def)
  then have q: "q = []" using quick_id_iff [OF quick] e(1) by force
  have same: "?i\<lparr>IdQuickID := []\<rparr> = ?i" by (simp add: geometry_identity_def)
  have build: "BuildContentIdentity sample_geometry ?ss ?plan = Inr ?i"
    using h quick valid unfolding q
    by (simp add: BuildContentIdentity_def buildQuickID_def mand ss(1) Let_def same)
  have "Geometry_Validate sample_geometry = None"
    unfolding Geometry_Validate_def by (rule geometry_identity_valid) (simp_all add: str_def)
  moreover have "\<exists>l. Lookup [] ?i 8 = Inr l"
    by (simp add: Lookup_def valid LookupBudget_Validate_def)
  moreover have "P0Geometry sample_input = sample_geometry" "P0CatalogEntries sample_input = []"
    "P0LookupBudget sample_input = 8" by (simp_all add: sample_input_def)
  ultimately show ?thesis using h build
    by (auto simp: PreparePass0_def LookupBudget_Validate_def Let_def)
qed

theorem pass_zero_identity_conflicts_witness:
  "\<exists>plan j st r. PreparePass0 sample_input = Inr plan \<and> IdSamples j = map (sample_of {}) sample_plan_100 \<and>
     Collect \<lparr>FcTotalBudget = 1, FcReadDeadline = 1\<rparr> (\<lambda>_. 0)
       (sample_base\<lparr>IdLayoutSHA256 := IdLayoutSHA256 (P0Identity plan)\<rparr>) (Some (sample_reader {})) = Inr (j, st) \<and>
     CompareContentIdentity j (P0Identity plan) 8 = Inr r \<and> CrMatch r = MatchConflict"
proof -
  obtain plan h where plan: "PreparePass0 sample_input = Inr plan" "pass0_layoutHash sample_geometry = Inr h"
      "P0Identity plan = geometry_identity sample_geometry h (P0ObservedSamples sample_input)"
    using sample_pass_zero by blast
  have h: "IdLayoutSHA256 (P0Identity plan) = h" "h \<noteq> []" "IdQuickID (P0Identity plan) = []"
    using plan(2,3) sample_layout by (simp_all add: geometry_identity_def)
  let ?base = "sample_base\<lparr>IdLayoutSHA256 := h\<rparr>"
  obtain j st where j: "Collect \<lparr>FcTotalBudget = 1, FcReadDeadline = 1\<rparr> (\<lambda>_. 0) ?base (Some (sample_reader {})) = Inr (j, st)"
      "IdSamples j = map (sample_of {}) sample_plan_100"
    using sample_collect_layout [OF h(2), where bad = "{}"] by blast
  have base: "IdSectorCount ?base = 100" "IdLayoutSHA256 ?base = h" by (simp_all add: sample_base_def one_track_def)
  have lay: "same_layout j (P0Identity plan)"
  proof (rule Collect_facts [OF j(1)])
    assume f: "IdVersion j = 1" "IdProfile j = IdProfile ?base"
      "IdLogicalBlockSize j = IdLogicalBlockSize ?base" "IdSectorCount j = IdSectorCount ?base"
      "IdSessions j = IdSessions ?base"
      "(if IdLayoutSHA256 ?base = [] then BuildLayoutHash (?base\<lparr>IdVersion := 1\<rparr>)
        else Inr (IdLayoutSHA256 ?base)) = Inr (IdLayoutSHA256 j)"
    have "IdLayoutSHA256 j = h" using f(6) h(2) base(2) by simp
    then show ?thesis using f(1-5) unfolding plan(3)
      by (simp add: same_layout_def CompatibleGeometry_def geometry_identity_def sample_base_def
        sample_geometry_def one_track_def)
  qed
  let ?s = "hd (P0ObservedSamples sample_input)" and ?t = "sample_of {} \<lparr>PlSlot = 1, PlLBA = 12\<rparr>"
  have s: "?s \<in> set (P0ObservedSamples sample_input)" "FpSlot ?s = 1" "FpLBA ?s = 0" "Available ?s"
    by (simp_all add: sample_input_def)
  have t: "?t \<in> set (IdSamples j)" "FpSlot ?t = 1" "Available ?t"
    unfolding j(2) by (simp_all add: sample_plan_100_def sample_of_def)
  have q: "IdQuickID j = [] \<or> IdQuickID j \<noteq> IdQuickID (P0Identity plan)" using h(3) by simp
  have n: "8 < unat (IdSectorCount ?base)" "(unat (IdSectorCount ?base) - 1) * 6 < 2 ^ 64" unfolding base by simp_all
  have b: "(8 :: u16) \<le> 8" by simp
  obtain r where "CompareContentIdentity j (P0Identity plan) 8 = Inr r" "CrMatch r = MatchConflict"
    using pass_zero_identity_conflicts [OF plan(1) s j(1) t lay n q b] by blast
  moreover have "Collect \<lparr>FcTotalBudget = 1, FcReadDeadline = 1\<rparr> (\<lambda>_. 0)
      (sample_base\<lparr>IdLayoutSHA256 := IdLayoutSHA256 (P0Identity plan)\<rparr>) (Some (sample_reader {})) = Inr (j, st)"
    using j(1) unfolding h(1) .
  ultimately show ?thesis using plan(1) j(2) by blast
qed

end
