(* ===== verification/Integrity.thy ===== *)
theory Integrity
  imports Merge Replay
begin

text \<open>
  Verification of a map, an image and external evidence (\<^verbatim>\<open>internal/integrity\<close>:
  \<^verbatim>\<open>digest.go\<close>, \<^verbatim>\<open>verify_map.go\<close>, \<^verbatim>\<open>verify_image.go\<close>, \<^verbatim>\<open>verify_external.go\<close>,
  \<^verbatim>\<open>catalog_refresh.go\<close>, \<^verbatim>\<open>filesystem_advisory.go\<close>). A loop over the extents is a step
  for one extent that is run over the list and stops at the first error.
\<close>

section \<open>Digests\<close>

definition hash16 :: "bytes \<Rightarrow> bytes" where
  "hash16 data = take 16 (sha256 data)"

datatype Provider = ProviderNone | ProviderSHA256 | ProviderOther gostring

record Digest =
  DgProvider :: Provider
  DgValue :: gostring

text \<open>\<^verbatim>\<open>strings.ToLower\<close> on ASCII letters; other characters never become hexadecimal digits.\<close>

definition ToLower :: "gostring \<Rightarrow> gostring" where
  "ToLower s = map (\<lambda>c. if 65 \<le> c \<and> c \<le> 90 then c + 32 else c) s"

definition verifyDigest :: "bytes \<Rightarrow> Digest \<Rightarrow> bool result" where
  "verifyDigest data d =
     (case DgProvider d of
        ProviderSHA256 \<Rightarrow> Inr (hex_EncodeToString (sha256 data) = ToLower (DgValue d))
      | ProviderNone \<Rightarrow> Inl (Errorf ''verify digest: provider none is not verifiable'')
      | ProviderOther _ \<Rightarrow> Inl (Errorf ''verify digest: unsupported provider''))"

definition claimsImageData :: "SectorState \<Rightarrow> bool" where
  "claimsImageData s \<longleftrightarrow>
     s \<in> {SectorStateReadUnverified, SectorStateVerified, SectorStateChecksumError,
          SectorStateConflicting, SectorStateReconstructed}"

text \<open>A step that may fail, run over a list.\<close>

fun run_items :: "('a \<Rightarrow> 'b result) \<Rightarrow> 'a list \<Rightarrow> 'b list result" where
  "run_items step [] = Inr []"
| "run_items step (x # xs) =
     (case step x of
        Inl e \<Rightarrow> Inl e
      | Inr y \<Rightarrow> map_sum id (\<lambda>ys. y # ys) (run_items step xs))"

section \<open>The map\<close>

record MapVerificationInput =
  MvHeaderBytes :: bytes
  MvCheckpointBytes :: bytes
  MvJournalBytes :: bytes
  MvImageLength :: u64

record MapVerificationResult =
  MvHeader :: Header
  MvReplayedCheckpoint :: Checkpoint
  MvRequiredImageBytes :: u64

fun required_end :: "u64 \<Rightarrow> Extent list \<Rightarrow> u64 result" where
  "required_end maxEnd [] = Inr maxEnd"
| "required_end maxEnd (e # es) =
     (if \<not> claimsImageData (State e) then required_end maxEnd es
      else (case CheckedEndLBA e of
        Inl er \<Rightarrow> Inl er
      | Inr end_lba \<Rightarrow> required_end (if end_lba > maxEnd then end_lba else maxEnd) es))"

definition requiredImageBytes :: "Extent list \<Rightarrow> u32 \<Rightarrow> u64 result" where
  "requiredImageBytes es logicalSectorSize =
     (case required_end 0 es of
        Inl er \<Rightarrow> Inl er
      | Inr maxEnd \<Rightarrow> CheckedSectorByteOffset maxEnd logicalSectorSize)"

definition VerifyMap :: "MapVerificationInput \<Rightarrow> MapVerificationResult result" where
  "VerifyMap i =
     (case UnmarshalHeader (MvHeaderBytes i) of
        Inl e \<Rightarrow> Inl (Wrapf ''verify map header'' e) | Inr header \<Rightarrow>
     (case UnmarshalCheckpoint (MvCheckpointBytes i) of
        Inl e \<Rightarrow> Inl (Wrapf ''verify map checkpoint'' e) | Inr checkpoint \<Rightarrow>
     (case ReplayJournalWithinCapacity checkpoint (MvJournalBytes i) (ExpectedSectorCount header) of
        Inl e \<Rightarrow> Inl (Wrapf ''verify map journal'' e) | Inr replayed \<Rightarrow>
     (case requiredImageBytes (Extents replayed) (LogicalSectorSize header) of
        Inl e \<Rightarrow> Inl (Wrapf ''verify map image offset'' e) | Inr required \<Rightarrow>
      if MvImageLength i < required
      then Inl (Errorf ''verify map image length: image length is smaller than required'')
      else Inr \<lparr>MvHeader = header, MvReplayedCheckpoint = replayed, MvRequiredImageBytes = required\<rparr>))))"

section \<open>The image\<close>

record ExtentEvidence =
  EvStartLBA :: u64
  EvSectors :: u32
  EvItems :: "Evidence list"

record ByteRange =
  BrOffset :: u64
  BrLength :: u64

record ImageExtentInput =
  ImExtent :: Extent
  ImData :: bytes

record ImageVerificationInput =
  IvLogicalSectorSize :: u32
  IvExtents :: "ImageExtentInput list"

record ImageVerificationResult =
  IvResultExtents :: "Extent list"
  IvChangedRanges :: "ByteRange list"
  IvProvenance :: "ExtentEvidence list"

definition evidence_of :: "Extent \<Rightarrow> ExtentEvidence" where
  "evidence_of e = \<lparr>EvStartLBA = StartLBA e, EvSectors = Sectors e, EvItems = EvidenceFromStateConfidence e\<rparr>"

text \<open>An extent whose data is not what it should be.\<close>

definition downgraded_extent :: "Extent \<Rightarrow> Extent" where
  "downgraded_extent e = e\<lparr>State := SectorStateChecksumError, Confidence := ConfidenceNone\<rparr>"

definition downgraded_evidence :: "Extent \<Rightarrow> ExtentEvidence" where
  "downgraded_evidence e = \<lparr>EvStartLBA = StartLBA e, EvSectors = Sectors e, EvItems = []\<rparr>"

definition VerifyImage_item ::
  "u32 \<Rightarrow> ImageExtentInput \<Rightarrow> (Extent \<times> ExtentEvidence \<times> ByteRange list) result" where
  "VerifyImage_item ss item =
     (let e = ImExtent item; kept = (e, evidence_of e, []) in
      case Extent_Validate e of
        Some er \<Rightarrow> Inl (Wrapf ''verify image extent'' er)
      | None \<Rightarrow>
     if \<not> claimsImageData (State e) then Inr kept
     else let expectedLength = (ucast (Sectors e) * ucast ss :: u64) in
     if (word_of_nat (length (ImData item)) :: u64) \<noteq> expectedLength
     then Inl (Errorf ''verify image extent: data length does not match expected'')
     else if DataHash e = replicate 16 0 then Inr kept
     else if hash16 (ImData item) = DataHash e then Inr kept
     else (case CheckedSectorByteOffset (StartLBA e) ss of
        Inl er \<Rightarrow> Inl (Wrapf ''verify image extent'' er)
      | Inr offset \<Rightarrow> Inr (downgraded_extent e, downgraded_evidence e,
          [\<lparr>BrOffset = offset, BrLength = expectedLength\<rparr>])))"

definition VerifyImage :: "ImageVerificationInput \<Rightarrow> ImageVerificationResult result" where
  "VerifyImage i =
     (if IvLogicalSectorSize i = 0
      then Inl (Errorf ''verify image: logical sector size must be greater than zero'')
      else map_sum id (\<lambda>rs. \<lparr>IvResultExtents = map fst rs,
             IvChangedRanges = concat (map (snd \<circ> snd) rs), IvProvenance = map (fst \<circ> snd) rs\<rparr>)
        (run_items (VerifyImage_item (IvLogicalSectorSize i)) (IvExtents i)))"

section \<open>External evidence\<close>

record ExternalExtentInput =
  XiExtent :: Extent
  XiData :: bytes
  XiDigests :: "Digest list"

record ExternalVerificationInput =
  XvLogicalSectorSize :: u32
  XvExtents :: "ExternalExtentInput list"

record ExternalVerificationResult =
  XvResultExtents :: "Extent list"
  XvProvenance :: "ExtentEvidence list"

text \<open>The loop over the digests: whether one of them verifies the data.\<close>

fun verify_digests :: "bytes \<Rightarrow> Digest list \<Rightarrow> bool result" where
  "verify_digests data [] = Inr False"
| "verify_digests data (d # ds) =
     (case verifyDigest data d of
        Inl e \<Rightarrow> Inl e
      | Inr ok \<Rightarrow> if ok then Inr True else verify_digests data ds)"

definition promoted_extent :: "Extent \<Rightarrow> Extent" where
  "promoted_extent e =
     (if State e = SectorStateReconstructed then e\<lparr>Confidence := ConfidenceReconstructedChecksum\<rparr>
      else e\<lparr>State := SectorStateVerified, Confidence := ConfidenceTrustedChecksum\<rparr>)"

definition VerifyExternal_item ::
  "u32 \<Rightarrow> ExternalExtentInput \<Rightarrow> (Extent \<times> ExtentEvidence) result" where
  "VerifyExternal_item ss item =
     (let e = XiExtent item in
      case Extent_Validate e of
        Some er \<Rightarrow> Inl (Wrapf ''verify external extent'' er)
      | None \<Rightarrow>
     if \<not> claimsImageData (State e) then Inr (e, evidence_of e)
     else if (word_of_nat (length (XiData item)) :: u64) \<noteq> ucast (Sectors e) * ucast ss
     then Inl (Errorf ''verify external extent: data length does not match expected'')
     else (case verify_digests (XiData item) (XiDigests item) of
        Inl er \<Rightarrow> Inl (Wrapf ''verify external extent'' er)
      | Inr verified \<Rightarrow>
        if verified then Inr (promoted_extent e, evidence_of (promoted_extent e))
        else Inr (downgraded_extent e, downgraded_evidence e)))"

definition VerifyExternal :: "ExternalVerificationInput \<Rightarrow> ExternalVerificationResult result" where
  "VerifyExternal i =
     (if XvLogicalSectorSize i = 0
      then Inl (Errorf ''verify external: logical sector size must be greater than zero'')
      else map_sum id (\<lambda>rs. \<lparr>XvResultExtents = map fst rs, XvProvenance = map snd rs\<rparr>)
        (run_items (VerifyExternal_item (XvLogicalSectorSize i)) (XvExtents i)))"

section \<open>The catalog entry and the advisories\<close>

record CatalogRefreshInput =
  CfEntry :: Entry
  CfFilesPresentByJob :: "RecordID \<Rightarrow> bool option"
  CfState :: ProcessingState
  CfFullContentSHA256 :: gostring

text \<open>
  The entry is a copy, but its job references are the caller's: the second component is what the
  caller's entry has afterwards.
\<close>

definition RefreshCatalogEntry :: "CatalogRefreshInput \<Rightarrow> Entry result \<times> JobReference list" where
  "RefreshCatalogEntry i =
     (let entry = CfEntry i in
      case Entry_Validate entry of
        Some e \<Rightarrow> (Inl (Wrapf ''refresh catalog entry'' e), EnJobReferences entry)
      | None \<Rightarrow>
        let refs = map (\<lambda>r. case CfFilesPresentByJob i (JrJobID r) of
                None \<Rightarrow> r | Some present \<Rightarrow> r\<lparr>JrFilesPresent := present\<rparr>) (EnJobReferences entry);
            entry1 = entry\<lparr>EnJobReferences := refs, EnState := CfState i\<rparr>;
            entry2 = (if CfFullContentSHA256 i \<noteq> []
              then entry1\<lparr>EnIdentity := (EnIdentity entry1)\<lparr>IdFullContentSHA256 := CfFullContentSHA256 i\<rparr>\<rparr>
              else entry1)
        in (case Entry_Validate entry2 of
              Some e \<Rightarrow> (Inl (Wrapf ''refresh catalog entry result'' e), refs)
            | None \<Rightarrow> (Inr entry2, refs)))"

record FilesystemAdvisory =
  FaCode :: gostring
  FaDetail :: gostring

record FilesystemAdvisoryResult =
  FaAdvisories :: "FilesystemAdvisory list"
  FaExtents :: "Extent list"

fun advisories_check :: "FilesystemAdvisory list \<Rightarrow> error option" where
  "advisories_check [] = None"
| "advisories_check (a # as) =
     (if FaCode a = [] then Some (Errorf ''filesystem advisory: code is required'')
      else if FaDetail a = [] then Some (Errorf ''filesystem advisory: detail is required'')
      else advisories_check as)"

definition EvaluateFilesystemAdvisories ::
  "FilesystemAdvisory list \<Rightarrow> Extent list \<Rightarrow> FilesystemAdvisoryResult result" where
  "EvaluateFilesystemAdvisories advisories es =
     (case advisories_check advisories of Some e \<Rightarrow> Inl e | None \<Rightarrow>
     (case ValidateExtentSet es of
        Some e \<Rightarrow> Inl (Wrapf ''filesystem advisories extents'' e)
      | None \<Rightarrow> Inr \<lparr>FaAdvisories = advisories, FaExtents = es\<rparr>))"

end
