(* ===== verification/IntegrityProps.thy ===== *)
theory IntegrityProps
  imports Integrity MapProps MergeFacts
begin

text \<open>
  What verification promises: a map is accepted exactly when the image is long enough for what the
  map claims, the changes that verification asks for are legal transitions of the map (with one
  exception), and trust in an extent comes from a matching digest only.
\<close>

section \<open>The map\<close>

lemma claimsImageData_state: "claimsImageData s = stateClaimsImageData s"
  by (simp add: claimsImageData_def stateClaimsImageData_def)

lemma required_end_spec:
  assumes "\<forall>e \<in> set es. endN e < 2 ^ 64"
  shows "\<exists>v. required_end m es = Inr v \<and> unat m \<le> unat v \<and>
    (\<forall>e \<in> set es. claimsImageData (State e) \<longrightarrow> endN e \<le> unat v) \<and>
    (v = m \<or> (\<exists>e \<in> set es. claimsImageData (State e) \<and> endN e = unat v))"
  using assms
proof (induction es arbitrary: m)
  case (Cons e es)
  show ?case
  proof (cases "claimsImageData (State e)")
    case False
    then show ?thesis using Cons.IH [of m] Cons.prems by auto
  next
    case True
    have "endN e < 18446744073709551616" using Cons.prems by simp
    then have checked: "CheckedEndLBA e = Inr (EndLBA e)" and e: "unat (EndLBA e) = endN e"
      by (simp_all add: CheckedEndLBA_Inr_iff unat_EndLBA)
    let ?m = "if EndLBA e > m then EndLBA e else m"
    have m: "unat ?m = max (endN e) (unat m)" using e by (simp add: word_less_nat_alt)
    obtain v where v: "required_end ?m es = Inr v" "unat ?m \<le> unat v"
        "\<forall>e \<in> set es. claimsImageData (State e) \<longrightarrow> endN e \<le> unat v"
        "v = ?m \<or> (\<exists>e \<in> set es. claimsImageData (State e) \<and> endN e = unat v)"
      using Cons.IH [of ?m] Cons.prems by auto
    have "required_end m (e # es) = Inr v" using True checked v(1) by simp
    moreover have "unat m \<le> unat v" "endN e \<le> unat v" using v(2) m by simp_all
    moreover have "v = m \<or> (\<exists>x \<in> set (e # es). claimsImageData (State x) \<and> endN x = unat v)"
      using v(4) True e by (auto split: if_splits)
    ultimately show ?thesis using v(3) by auto
  qed
qed simp

text \<open>What an image of some length has to hold for a list of extents.\<close>

definition image_holds :: "Extent list \<Rightarrow> u32 \<Rightarrow> u64 \<Rightarrow> bool" where
  "image_holds es ss n \<longleftrightarrow> (\<forall>e \<in> set es. claimsImageData (State e) \<longrightarrow> endN e * unat ss \<le> unat n)"

lemma requiredImageBytes_spec:
  assumes "\<forall>e \<in> set es. endN e < 2 ^ 64" "requiredImageBytes es ss = Inr b"
  shows "n < b \<longleftrightarrow> \<not> image_holds es ss n"
proof -
  obtain v where v: "required_end 0 es = Inr v"
      "\<forall>e \<in> set es. claimsImageData (State e) \<longrightarrow> endN e \<le> unat v"
      "v = 0 \<or> (\<exists>e \<in> set es. claimsImageData (State e) \<and> endN e = unat v)"
    using required_end_spec [OF assms(1), of 0] by auto
  have b: "unat b = unat v * unat ss"
    using assms(2) v(1) by (simp add: requiredImageBytes_def CheckedSectorByteOffset_Inr_iff)
  show ?thesis
  proof
    assume "n < b"
    then have lt: "unat n < unat v * unat ss" using b by (simp add: word_less_nat_alt)
    then have "v \<noteq> 0" by auto
    then obtain e where "e \<in> set es" "claimsImageData (State e)" "endN e = unat v" using v(3) by blast
    then show "\<not> image_holds es ss n" using lt by (fastforce simp: image_holds_def)
  next
    assume "\<not> image_holds es ss n"
    then obtain e where e: "e \<in> set es" "claimsImageData (State e)" "unat n < endN e * unat ss"
      by (auto simp: image_holds_def not_le)
    then have "endN e * unat ss \<le> unat b" using v(2) b by simp
    then show "n < b" using e(3) by (simp add: word_less_nat_alt)
  qed
qed

lemma capacity_facts:
  assumes "ValidateExtentSetWithinCapacity es n = None"
  shows "ValidateExtentSet es = None" "\<forall>e \<in> set es. endN e < 2 ^ 64 \<and> endN e \<le> unat n"
  using assms by (auto simp: ValidateExtentSetWithinCapacity_def ValidateCapacity_loop_iff list_all_iff
    split: if_splits option.splits)

text \<open>Whatever bytes are verified: every sector that an accepted map claims lies in the image.\<close>

lemma verify_map_sound:
  assumes "VerifyMap i = Inr r"
  shows "ValidateExtentSet (Extents (MvReplayedCheckpoint r)) = None \<and>
    (\<forall>e \<in> set (Extents (MvReplayedCheckpoint r)).
       endN e \<le> unat (ExpectedSectorCount (MvHeader r)) \<and> State e \<noteq> SectorStateQueued) \<and>
    image_holds (Extents (MvReplayedCheckpoint r)) (LogicalSectorSize (MvHeader r)) (MvImageLength i)"
proof -
  obtain checkpoint where rep: "ReplayJournalWithinCapacity checkpoint (MvJournalBytes i)
        (ExpectedSectorCount (MvHeader r)) = Inr (MvReplayedCheckpoint r)"
      and req: "requiredImageBytes (Extents (MvReplayedCheckpoint r)) (LogicalSectorSize (MvHeader r)) =
        Inr (MvRequiredImageBytes r)" "\<not> MvImageLength i < MvRequiredImageBytes r"
    using assms by (auto simp: VerifyMap_def split: sum.splits if_splits)
  have cap: "ValidateExtentSetWithinCapacity (Extents (MvReplayedCheckpoint r)) (ExpectedSectorCount (MvHeader r)) = None"
      and q: "ReplayJournal checkpoint (MvJournalBytes i) = Inr (MvReplayedCheckpoint r)"
    using rep by (auto simp: ReplayJournalWithinCapacity_def split: sum.splits option.splits)
  note facts = capacity_facts [OF cap]
  have "\<forall>e \<in> set (Extents (MvReplayedCheckpoint r)). endN e < 2 ^ 64" using facts(2) by blast
  from requiredImageBytes_spec [OF this req(1)] req(2)
  have "image_holds (Extents (MvReplayedCheckpoint r)) (LogicalSectorSize (MvHeader r)) (MvImageLength i)" by blast
  moreover have "\<forall>e \<in> set (Extents (MvReplayedCheckpoint r)). State e \<noteq> SectorStateQueued"
    using q downgrade_queued_clean by (auto simp: ReplayJournal_def map_sum_Inr_conv)
  ultimately show ?thesis using facts by blast
qed

text \<open>Verifying a map as it was written (header, checkpoint, journal records, and whatever a crash
  left of one more record) accepts it exactly when the image reaches to the end of every extent that
  claims data, and then returns the header and the state that the records lead to.\<close>

theorem verify_map_exact:
  assumes "header_typed h" "MarshalHeader h = Inr hb" "checkpoint_typed c" "MarshalCheckpoint c = Inr cb"
    and "numbered_from (LastSequence c + 1) rs" "journal_bytes rs = Inr j" "torn t"
    and "apply_records c rs = Inr s"
    and "ValidateExtentSetWithinCapacity (Extents (downgrade_queued s)) (ExpectedSectorCount h) = None"
    and "unat (ExpectedSectorCount h) * unat (LogicalSectorSize h) < 2 ^ 64"
  shows "case VerifyMap \<lparr>MvHeaderBytes = hb, MvCheckpointBytes = cb, MvJournalBytes = j @ t, MvImageLength = n\<rparr> of
      Inr r \<Rightarrow> image_holds (Extents (downgrade_queued s)) (LogicalSectorSize h) n \<and>
        MvHeader r = h \<and> MvReplayedCheckpoint r = downgrade_queued s
    | Inl _ \<Rightarrow> \<not> image_holds (Extents (downgrade_queued s)) (LogicalSectorSize h) n"
proof -
  let ?es = "Extents (downgrade_queued s)"
  have header: "UnmarshalHeader hb = Inr h" using UnmarshalHeader_Marshal [OF assms(1,2), of "[]"] by simp
  have checkpoint: "UnmarshalCheckpoint cb = Inr c" by (rule UnmarshalCheckpoint_Marshal [OF assms(3,4)])
  have replay: "ReplayJournalWithinCapacity c (j @ t) (ExpectedSectorCount h) = Inr (downgrade_queued s)"
    using ReplayJournal_loop_records [OF assms(5-7), of c] assms(8,9)
    by (simp add: ReplayJournalWithinCapacity_def ReplayJournal_def)
  note facts = capacity_facts [OF assms(9)]
  then have small: "\<forall>e \<in> set ?es. endN e < 2 ^ 64" by blast
  obtain v where v: "required_end 0 ?es = Inr v"
      "v = 0 \<or> (\<exists>e \<in> set ?es. claimsImageData (State e) \<and> endN e = unat v)"
    using required_end_spec [OF small, of 0] by auto
  have "unat v \<le> unat (ExpectedSectorCount h)" using v(2) facts(2) by auto
  then have "unat v * unat (LogicalSectorSize h) \<le> unat (ExpectedSectorCount h) * unat (LogicalSectorSize h)"
    by (rule mult_right_mono) simp
  then have fits: "unat v * unat (LogicalSectorSize h) < 2 ^ 64" using assms(10) by linarith
  have ss: "LogicalSectorSize h \<noteq> 0"
    using assms(2) by (auto simp: MarshalHeader_def Header_Validate_def split: if_splits)
  obtain b where b: "requiredImageBytes ?es (LogicalSectorSize h) = Inr b"
  proof
    show "requiredImageBytes ?es (LogicalSectorSize h) =
        Inr (word_of_nat (unat v * unat (LogicalSectorSize h)))"
      using v(1) ss fits by (simp add: requiredImageBytes_def CheckedSectorByteOffset_Inr_iff unat_word_ariths)
  qed
  show ?thesis
    using requiredImageBytes_spec [OF small b, of n]
    by (simp add: VerifyMap_def header checkpoint replay b)
qed


section \<open>The changes that verification asks for\<close>

lemma run_items_Inr: "run_items step xs = Inr ys \<longleftrightarrow> list_all2 (\<lambda>x y. step x = Inr y) xs ys"
proof (induction xs arbitrary: ys)
  case (Cons x xs)
  then show ?case
    by (cases "step x") (auto simp: map_sum_Inr_conv list_all2_Cons1)
qed auto

text \<open>Nothing but state and confidence changes, to legal ones; a change other than of reconstructed
  data that fails is a transition the map accepts, that one is a transition the map refuses.\<close>

definition legal_change :: "Extent \<Rightarrow> Extent \<Rightarrow> bool" where
  "legal_change e e' \<longleftrightarrow>
     e'\<lparr>State := State e, Confidence := Confidence e\<rparr> = e \<and> Extent_Validate e' = None \<and>
     (ValidateTransition (State e) (Confidence e) (State e') (Confidence e') = None \<longleftrightarrow>
        \<not> (State e = SectorStateReconstructed \<and> State e' = SectorStateChecksumError))"

lemma valid_states:
  assumes "Extent_Validate e = None"
  shows "ValidateStateConfidence (State e) (Confidence e) = None"
    "Extent_Validate (e\<lparr>State := s, Confidence := c\<rparr>) = ValidateStateConfidence s c"
  using assms by (auto simp: Extent_Validate_def CheckedEndLBA_def Let_def split: if_splits sum.splits)

lemma legal_change_refl:
  assumes "Extent_Validate e = None"
  shows "legal_change e e"
  using assms valid_states(1) [OF assms]
  by (auto simp: legal_change_def ValidateTransition_def)

lemma legal_change_downgraded:
  assumes "Extent_Validate e = None" "claimsImageData (State e)"
  shows "legal_change e (downgraded_extent e)"
proof -
  note v = valid_states [OF assms(1)]
  have new: "ValidateStateConfidence SectorStateChecksumError ConfidenceNone = None" by code_simp
  have conf: "State e = SectorStateReconstructed \<Longrightarrow> Confidence e = ConfidenceReconstructedChecksum"
    "State e = SectorStateChecksumError \<Longrightarrow> Confidence e = ConfidenceNone"
    using v(1) by (auto simp: ValidateStateConfidence_def split: if_splits option.splits)
  have states: "State e = SectorStateReadUnverified \<or> State e = SectorStateVerified \<or>
      State e = SectorStateChecksumError \<or> State e = SectorStateConflicting \<or> State e = SectorStateReconstructed"
    using assms(2) by (simp add: claimsImageData_def)
  have "Extent_Validate (downgraded_extent e) = None" using v(2) new by (simp add: downgraded_extent_def)
  moreover have "(downgraded_extent e)\<lparr>State := State e, Confidence := Confidence e\<rparr> = e"
    by (simp add: downgraded_extent_def)
  moreover have "ValidateTransition (State e) (Confidence e) SectorStateChecksumError ConfidenceNone = None \<longleftrightarrow>
      State e \<noteq> SectorStateReconstructed"
    using states conf v(1) new by (elim disjE) (simp_all add: ValidateTransition_def stateClaimsImageData_def)
  ultimately show ?thesis by (simp add: legal_change_def downgraded_extent_def)
qed

lemma legal_change_promoted:
  assumes "Extent_Validate e = None" "claimsImageData (State e)"
  shows "legal_change e (promoted_extent e)"
proof (cases "State e = SectorStateReconstructed")
  case True
  have "Confidence e = ConfidenceReconstructedChecksum"
    using valid_states(1) [OF assms(1)] True
    by (auto simp: ValidateStateConfidence_def split: if_splits option.splits)
  then have "promoted_extent e = e" using True by (simp add: promoted_extent_def)
  then show ?thesis using legal_change_refl [OF assms(1)] by simp
next
  case False
  note v = valid_states [OF assms(1)]
  have new: "ValidateStateConfidence SectorStateVerified ConfidenceTrustedChecksum = None" by code_simp
  have top: "State e = SectorStateVerified \<Longrightarrow> Confidence e \<le> ConfidenceTrustedChecksum"
    using v(1) by (auto simp: ValidateStateConfidence_def split: if_splits option.splits)
  have states: "State e = SectorStateReadUnverified \<or> State e = SectorStateVerified \<or>
      State e = SectorStateChecksumError \<or> State e = SectorStateConflicting"
    using assms(2) False by (simp add: claimsImageData_def)
  have "Extent_Validate (promoted_extent e) = None" using v(2) new False by (simp add: promoted_extent_def)
  moreover have "(promoted_extent e)\<lparr>State := State e, Confidence := Confidence e\<rparr> = e"
    using False by (simp add: promoted_extent_def)
  moreover have "ValidateTransition (State e) (Confidence e) SectorStateVerified ConfidenceTrustedChecksum = None"
    using states top v(1) new by (elim disjE) (simp_all add: ValidateTransition_def stateClaimsImageData_def not_less)
  ultimately show ?thesis using False by (simp add: legal_change_def promoted_extent_def)
qed

text \<open>The data of an item is not what its extent recorded when it was written.\<close>

definition data_differs :: "ImageExtentInput \<Rightarrow> bool" where
  "data_differs item \<longleftrightarrow> claimsImageData (State (ImExtent item)) \<and>
     DataHash (ImExtent item) \<noteq> replicate 16 0 \<and> take 16 (sha256 (ImData item)) \<noteq> DataHash (ImExtent item)"

text \<open>One of the digests given for an item is that of its data.\<close>

definition digest_matches :: "ExternalExtentInput \<Rightarrow> bool" where
  "digest_matches item \<longleftrightarrow> (\<exists>d \<in> set (XiDigests item).
     DgProvider d = ProviderSHA256 \<and> hex_EncodeToString (sha256 (XiData item)) = ToLower (DgValue d))"

lemma byte_length_exact: "unat (ucast (n :: u32) * ucast (m :: u32) :: u64) = unat n * unat m"
proof -
  have "unat n * unat m \<le> 4294967295 * 4294967295"
    using unat_u32_less [of n] unat_u32_less [of m] by (intro mult_le_mono) linarith+
  then have "unat n * unat m < 18446744073709551616" by simp
  then show ?thesis by (simp add: unat_word_ariths)
qed

lemma VerifyImage_item_change:
  assumes "VerifyImage_item ss item = Inr y"
  shows "legal_change (ImExtent item) (fst y) \<and>
    fst y = (if data_differs item
      then (ImExtent item)\<lparr>State := SectorStateChecksumError, Confidence := ConfidenceNone\<rparr> else ImExtent item) \<and>
    map (\<lambda>b. (unat (BrOffset b), unat (BrLength b))) (snd (snd y)) =
      (if data_differs item
       then [(unat (StartLBA (ImExtent item)) * unat ss, unat (Sectors (ImExtent item)) * unat ss)] else [])"
proof -
  have v: "Extent_Validate (ImExtent item) = None"
    using assms by (auto simp: VerifyImage_item_def Let_def split: option.splits)
  show ?thesis
    using assms legal_change_refl [OF v] legal_change_downgraded [OF v]
    by (auto simp: VerifyImage_item_def Let_def v data_differs_def hash16_def downgraded_extent_def
        byte_length_exact CheckedSectorByteOffset_Inr_iff split: if_splits sum.splits)
qed

lemma verify_digests_Inr:
  "verify_digests data ds = Inr ok \<Longrightarrow>
     ok \<longleftrightarrow> (\<exists>d \<in> set ds. DgProvider d = ProviderSHA256 \<and> hex_EncodeToString (sha256 data) = ToLower (DgValue d))"
proof (induction ds)
  case (Cons d ds)
  then show ?case
    by (cases "DgProvider d") (auto simp: verifyDigest_def split: if_splits)
qed simp

lemma VerifyExternal_item_change:
  assumes "VerifyExternal_item ss item = Inr y"
  shows "legal_change (XiExtent item) (fst y) \<and>
    fst y = (if \<not> claimsImageData (State (XiExtent item)) then XiExtent item
      else if \<not> digest_matches item
      then (XiExtent item)\<lparr>State := SectorStateChecksumError, Confidence := ConfidenceNone\<rparr>
      else if State (XiExtent item) = SectorStateReconstructed
      then (XiExtent item)\<lparr>Confidence := ConfidenceReconstructedChecksum\<rparr>
      else (XiExtent item)\<lparr>State := SectorStateVerified, Confidence := ConfidenceTrustedChecksum\<rparr>)"
proof -
  have v: "Extent_Validate (XiExtent item) = None"
    using assms by (auto simp: VerifyExternal_item_def Let_def split: option.splits)
  show ?thesis
  proof (cases "claimsImageData (State (XiExtent item))")
    case False
    then have "fst y = XiExtent item"
      using assms by (auto simp: VerifyExternal_item_def Let_def v)
    then show ?thesis using False legal_change_refl [OF v] by simp
  next
    case True
    then obtain ok where ok: "verify_digests (XiData item) (XiDigests item) = Inr ok"
        "fst y = (if ok then promoted_extent (XiExtent item) else downgraded_extent (XiExtent item))"
      using assms by (auto simp: VerifyExternal_item_def Let_def v split: if_splits sum.splits)
    have "ok \<longleftrightarrow> digest_matches item" using verify_digests_Inr [OF ok(1)] by (simp add: digest_matches_def)
    then show ?thesis
      using ok(2) True legal_change_promoted [OF v True] legal_change_downgraded [OF v True]
      by (auto simp: promoted_extent_def downgraded_extent_def)
  qed
qed

text \<open>The steps over all items: the results, and the concatenation of what each reports.\<close>

lemma VerifyImage_items:
  assumes "list_all2 (\<lambda>item y. VerifyImage_item ss item = Inr y) items ys"
  shows "list_all2 (\<lambda>item e. legal_change (ImExtent item) e \<and>
      e = (if data_differs item
        then (ImExtent item)\<lparr>State := SectorStateChecksumError, Confidence := ConfidenceNone\<rparr> else ImExtent item))
      items (map fst ys)"
    "map (\<lambda>b. (unat (BrOffset b), unat (BrLength b))) (concat (map (snd \<circ> snd) ys)) =
      map (\<lambda>item. (unat (StartLBA (ImExtent item)) * unat ss, unat (Sectors (ImExtent item)) * unat ss))
        (filter data_differs items)"
proof -
  show "list_all2 (\<lambda>item e. legal_change (ImExtent item) e \<and>
      e = (if data_differs item
        then (ImExtent item)\<lparr>State := SectorStateChecksumError, Confidence := ConfidenceNone\<rparr> else ImExtent item))
      items (map fst ys)"
    unfolding list_all2_map2 by (rule list_all2_mono [OF assms]) (use VerifyImage_item_change in blast)
  show "map (\<lambda>b. (unat (BrOffset b), unat (BrLength b))) (concat (map (snd \<circ> snd) ys)) =
      map (\<lambda>item. (unat (StartLBA (ImExtent item)) * unat ss, unat (Sectors (ImExtent item)) * unat ss))
        (filter data_differs items)"
    using assms by induction (simp_all add: VerifyImage_item_change)
qed

lemma VerifyExternal_items:
  assumes "list_all2 (\<lambda>item y. VerifyExternal_item ss item = Inr y) items zs"
  shows "list_all2 (\<lambda>item e. legal_change (XiExtent item) e \<and>
      e = (if \<not> claimsImageData (State (XiExtent item)) then XiExtent item
        else if \<not> digest_matches item
        then (XiExtent item)\<lparr>State := SectorStateChecksumError, Confidence := ConfidenceNone\<rparr>
        else if State (XiExtent item) = SectorStateReconstructed
        then (XiExtent item)\<lparr>Confidence := ConfidenceReconstructedChecksum\<rparr>
        else (XiExtent item)\<lparr>State := SectorStateVerified, Confidence := ConfidenceTrustedChecksum\<rparr>))
      items (map fst zs)"
  unfolding list_all2_map2 by (rule list_all2_mono [OF assms]) (use VerifyExternal_item_change in blast)

text \<open>C30: What verification of image and external evidence returns, extent by extent. Image verification
  downgrades an extent to a checksum error without confidence exactly when the extent claims data,
  recorded a hash and the data has another one, leaves every other extent as it is, promotes none,
  and reports exactly the byte ranges of the downgraded ones. External verification leaves an extent
  that claims no data as it is; it trusts one that does (as verified, or as reconstructed if it
  was reconstructed) exactly when one of its SHA-256 digests is that of the data, and
  downgrades it otherwise. Every change is a transition that the map accepts, except that
  reconstructed data that fails cannot be recorded as failed.\<close>

theorem verification_changes:
  assumes "VerifyImage i = Inr r" "VerifyExternal x = Inr q"
  shows "list_all2 (\<lambda>item e. legal_change (ImExtent item) e \<and>
      e = (if data_differs item
        then (ImExtent item)\<lparr>State := SectorStateChecksumError, Confidence := ConfidenceNone\<rparr> else ImExtent item))
      (IvExtents i) (IvResultExtents r) \<and>
    map (\<lambda>b. (unat (BrOffset b), unat (BrLength b))) (IvChangedRanges r) =
      map (\<lambda>item. (unat (StartLBA (ImExtent item)) * unat (IvLogicalSectorSize i),
          unat (Sectors (ImExtent item)) * unat (IvLogicalSectorSize i)))
        (filter data_differs (IvExtents i)) \<and>
    list_all2 (\<lambda>item e. legal_change (XiExtent item) e \<and>
      e = (if \<not> claimsImageData (State (XiExtent item)) then XiExtent item
        else if \<not> digest_matches item
        then (XiExtent item)\<lparr>State := SectorStateChecksumError, Confidence := ConfidenceNone\<rparr>
        else if State (XiExtent item) = SectorStateReconstructed
        then (XiExtent item)\<lparr>Confidence := ConfidenceReconstructedChecksum\<rparr>
        else (XiExtent item)\<lparr>State := SectorStateVerified, Confidence := ConfidenceTrustedChecksum\<rparr>))
      (XvExtents x) (XvResultExtents q)"
proof -
  obtain ys where ys: "list_all2 (\<lambda>x y. VerifyImage_item (IvLogicalSectorSize i) x = Inr y) (IvExtents i) ys"
      "IvResultExtents r = map fst ys" "IvChangedRanges r = concat (map (snd \<circ> snd) ys)"
    using assms(1) by (auto simp: VerifyImage_def map_sum_Inr_conv run_items_Inr split: if_splits)
  obtain zs where zs: "list_all2 (\<lambda>item y. VerifyExternal_item (XvLogicalSectorSize x) item = Inr y) (XvExtents x) zs"
      "XvResultExtents q = map fst zs"
    using assms(2) by (auto simp: VerifyExternal_def map_sum_Inr_conv run_items_Inr split: if_splits)
  show ?thesis
    unfolding ys(2,3) zs(2) using VerifyImage_items [OF ys(1)] VerifyExternal_items [OF zs(1)] by blast
qed

text \<open>An extent that has no digest to be checked against is a checksum error after external
  verification.\<close>

lemma undigested_extent_fails:
  assumes "Extent_Validate (XiExtent item) = None" "claimsImageData (State (XiExtent item))"
    and "(word_of_nat (length (XiData item)) :: u64) = ucast (Sectors (XiExtent item)) * ucast ss"
    and "XiDigests item = []"
  shows "VerifyExternal_item ss item =
    Inr (downgraded_extent (XiExtent item), downgraded_evidence (XiExtent item))"
  using assms by (simp add: VerifyExternal_item_def Let_def)

text \<open>A refused refresh of a catalog entry still changes the caller's job references.\<close>

lemma refused_refresh_changes_references:
  assumes "Entry_Validate e = None" "\<not> validProcessingState s" "r \<in> set (EnJobReferences e)"
    and "\<not> JrFilesPresent r"
  shows "\<exists>er refs. RefreshCatalogEntry \<lparr>CfEntry = e, CfFilesPresentByJob = \<lambda>_. Some True, CfState = s,
      CfFullContentSHA256 = []\<rparr> = (Inl er, refs) \<and> refs \<noteq> EnJobReferences e"
proof -
  let ?refs = "map (\<lambda>r. r\<lparr>JrFilesPresent := True\<rparr>) (EnJobReferences e)"
  have "\<exists>er. Entry_Validate (e\<lparr>EnJobReferences := ?refs, EnState := s\<rparr>) = Some er"
    using assms(1,2) by (auto simp: Entry_Validate_def split: if_splits option.splits)
  moreover have "?refs \<noteq> EnJobReferences e"
  proof
    assume "?refs = EnJobReferences e"
    then have "r \<in> set ?refs" using assms(3) by simp
    then show False using assms(4) by auto
  qed
  ultimately show ?thesis using assms(1) by (auto simp: RefreshCatalogEntry_def Let_def)
qed


section \<open>Witnesses\<close>

theorem verify_map_exact_witness:
  "\<exists>hb cb. MarshalHeader sample_header = Inr hb \<and>
     MarshalCheckpoint \<lparr>LastSequence = 7, Extents = [plain_extent 0 4 2 1 1, plain_extent 9 2 5 0 3]\<rparr> = Inr cb \<and>
     (\<exists>r. VerifyMap \<lparr>MvHeaderBytes = hb, MvCheckpointBytes = cb, MvJournalBytes = [] @ [], MvImageLength = 8192\<rparr> = Inr r) \<and>
     (\<exists>e. VerifyMap \<lparr>MvHeaderBytes = hb, MvCheckpointBytes = cb, MvJournalBytes = [] @ [], MvImageLength = 8191\<rparr> = Inl e)"
proof -
  let ?c = "\<lparr>LastSequence = 7, Extents = [plain_extent 0 4 2 1 1, plain_extent 9 2 5 0 3]\<rparr>"
  have ht: "header_typed sample_header" "Header_Validate sample_header = None"
    by (simp_all add: sample_header_def header_typed_def Header_Validate_def)
  obtain hb where hb: "MarshalHeader sample_header = Inr hb" using ht(2) by (simp add: MarshalHeader_def)
  obtain cb where cb: "MarshalCheckpoint ?c = Inr cb"
    using checkpoint_roundtrip_witness by blast
  have typed: "checkpoint_typed ?c" by (simp add: checkpoint_typed_def plain_extent_typed)
  have clean: "downgrade_queued ?c = ?c" by (simp add: downgrade_queued_def plain_extent_def)
  have recs: "numbered_from (LastSequence ?c + 1) []" "journal_bytes [] = Inr []" "torn []"
      "apply_records ?c [] = Inr ?c" by (simp_all add: torn_def)
  have cap: "ValidateExtentSetWithinCapacity (Extents (downgrade_queued ?c)) (ExpectedSectorCount sample_header) = None"
    unfolding clean by code_simp
  have fits: "unat (ExpectedSectorCount sample_header) * unat (LogicalSectorSize sample_header) < 2 ^ 64"
    by (simp add: sample_header_def)
  note exact = verify_map_exact [OF ht(1) hb typed cb recs cap fits]
  have holds: "image_holds (Extents (downgrade_queued ?c)) (LogicalSectorSize sample_header) 8192"
      "\<not> image_holds (Extents (downgrade_queued ?c)) (LogicalSectorSize sample_header) 8191"
    unfolding clean by (simp_all add: image_holds_def sample_header_def plain_extent_def claimsImageData_def)
  have "\<exists>r. VerifyMap \<lparr>MvHeaderBytes = hb, MvCheckpointBytes = cb, MvJournalBytes = [] @ [], MvImageLength = 8192\<rparr> = Inr r"
    using exact [of 8192] holds(1) by (simp split: sum.splits)
  moreover have "\<exists>e. VerifyMap \<lparr>MvHeaderBytes = hb, MvCheckpointBytes = cb, MvJournalBytes = [] @ [], MvImageLength = 8191\<rparr> = Inl e"
    using exact [of 8191] holds(2) by (simp split: sum.splits)
  ultimately show ?thesis using hb cb by blast
qed

definition sample_external :: ExternalVerificationInput where
  "sample_external = \<lparr>XvLogicalSectorSize = 4, XvExtents =
     [\<lparr>XiExtent = plain_extent 0 1 8 5 1, XiData = [1, 2, 3, 4],
       XiDigests = [\<lparr>DgProvider = ProviderSHA256, DgValue = []\<rparr>]\<rparr>]\<rparr>"

definition sample_image :: ImageVerificationInput where
  "sample_image = \<lparr>IvLogicalSectorSize = 4, IvExtents =
     [\<lparr>ImExtent = plain_extent 0 1 2 1 1, ImData = [1, 2, 3, 4]\<rparr>]\<rparr>"

lemma sample_states:
  "Extent_Validate (plain_extent 0 1 8 5 1) = None" "Extent_Validate (plain_extent 0 1 2 1 1) = None"
  by code_simp+

theorem verification_changes_witness:
  "\<exists>r q. VerifyImage sample_image = Inr r \<and> IvResultExtents r = [plain_extent 0 1 2 1 1] \<and>
     VerifyExternal sample_external = Inr q \<and> XvResultExtents q = [plain_extent 0 1 6 0 1] \<and>
     ValidateTransition 8 5 6 0 \<noteq> None"
proof -
  have "length (hex_EncodeToString (sha256 [1, 2, 3, 4])) = 64" by simp
  then have "hex_EncodeToString (sha256 [1, 2, 3, 4]) \<noteq> []" by (metis list.size(3) zero_neq_numeral)
  then have x: "\<exists>q. VerifyExternal sample_external = Inr q \<and> XvResultExtents q = [plain_extent 0 1 6 0 1]"
    by (simp add: VerifyExternal_def sample_external_def VerifyExternal_item_def Let_def sample_states
      verifyDigest_def ToLower_def downgraded_extent_def)
      (simp add: plain_extent_def Extent_zero_def claimsImageData_def)
  have i: "\<exists>r. VerifyImage sample_image = Inr r \<and> IvResultExtents r = [plain_extent 0 1 2 1 1]"
    by (simp add: VerifyImage_def sample_image_def VerifyImage_item_def Let_def sample_states)
      (simp add: plain_extent_def Extent_zero_def claimsImageData_def)
  obtain r q where rq: "VerifyImage sample_image = Inr r" "IvResultExtents r = [plain_extent 0 1 2 1 1]"
      "VerifyExternal sample_external = Inr q" "XvResultExtents q = [plain_extent 0 1 6 0 1]"
    using x i by blast
  have "list_all2 (\<lambda>item e. legal_change (XiExtent item) e) (XvExtents sample_external) (XvResultExtents q)"
    using verification_changes [OF rq(1,3)] by (auto elim!: list_all2_mono)
  then have "legal_change (plain_extent 0 1 8 5 1) (plain_extent 0 1 6 0 1)"
    by (simp add: rq(4) sample_external_def)
  then have "ValidateTransition 8 5 6 0 \<noteq> None"
    by (simp add: legal_change_def plain_extent_def)
  then show ?thesis using rq by blast
qed

end
