(* ===== verification/Reader.thy ===== *)
theory Reader
  imports Prelude
begin

text \<open>
  The reopenable source of a recovery (\<^verbatim>\<open>internal/recovery/cancelable_reader.go\<close>). Handles of
  the source are numbers; the state knows which of them were closed and which were ever opened. The
  answers of the operating system (how a read ends, whether closing and reopening succeed) are
  arguments. The operations are first given as the functions they are when nothing runs beside
  them, then as the critical sections under \<^verbatim>\<open>opMu\<close> and \<^verbatim>\<open>mu\<close> that a
  concurrent \<^verbatim>\<open>Interrupt\<close> or \<^verbatim>\<open>Close\<close> can come between.
\<close>

section \<open>The operations\<close>

record ReopenableReader =
  RrSource :: nat
  RrClosed :: bool
  RrShut :: "nat set"
  RrOpened :: "nat set"

definition NewReopenableReaderAt :: "nat option \<Rightarrow> bool \<Rightarrow> bool \<Rightarrow> ReopenableReader result" where
  "NewReopenableReaderAt source hasClose hasReopen =
     (case source of
        None \<Rightarrow> Inl (Errorf ''new reopenable reader: source, close, and reopen are required'')
      | Some h \<Rightarrow>
        if \<not> hasClose \<or> \<not> hasReopen
        then Inl (Errorf ''new reopenable reader: source, close, and reopen are required'')
        else Inr \<lparr>RrSource = h, RrClosed = False, RrShut = {}, RrOpened = {h}\<rparr>)"

text \<open>Closing reaches the handle whatever it answers; every source of the program is a closer.\<close>

definition closeReader :: "error option \<Rightarrow> ReopenableReader \<Rightarrow> error option \<times> ReopenableReader" where
  "closeReader answer r = (answer, r\<lparr>RrShut := insert (RrSource r) (RrShut r)\<rparr>)"

definition closeCurrent :: "error option \<Rightarrow> ReopenableReader \<Rightarrow> error option \<times> ReopenableReader" where
  "closeCurrent answer r = closeReader answer r"

definition reopenCurrent :: "nat result \<Rightarrow> ReopenableReader \<Rightarrow> error option \<times> ReopenableReader" where
  "reopenCurrent answer r =
     (if RrClosed r then (Some ErrClosedPipe, r)
      else (case answer of
        Inl e \<Rightarrow> (Some e, r)
      | Inr h \<Rightarrow> (None, r\<lparr>RrSource := h, RrOpened := insert h (RrOpened r)\<rparr>)))"

definition Interrupt :: "error option \<Rightarrow> ReopenableReader \<Rightarrow> error option \<times> ReopenableReader" where
  "Interrupt answer r = (if RrClosed r then (Some ErrClosedPipe, r) else closeReader answer r)"

definition Reader_Close :: "error option \<Rightarrow> ReopenableReader \<Rightarrow> error option \<times> ReopenableReader" where
  "Reader_Close answer r = closeCurrent answer (r\<lparr>RrClosed := True\<rparr>)"

text \<open>What the \<^verbatim>\<open>select\<close> sees first: the result of the read, or the end of the context.\<close>

datatype ReadOutcome = ReadReturned nat "error option" | ContextDone error

definition begin_reading :: "ReopenableReader \<Rightarrow> nat result" where
  "begin_reading r = (if RrClosed r then Inl ErrClosedPipe else Inr (RrSource r))"

definition after_join :: "error \<Rightarrow> nat result \<Rightarrow> ReopenableReader \<Rightarrow> (nat \<times> error option) \<times> ReopenableReader" where
  "after_join cause reopened r =
     (if errors_Is cause ErrCanceled then ((0, Some cause), r)
      else (case reopenCurrent reopened r of
          (Some e, r1) \<Rightarrow> ((0, Some (Wrapf ''reopen source after timed-out read'' e)), r1)
        | (None, r1) \<Rightarrow> ((0, Some cause), r1)))"

definition ReadAtContext ::
  "bool \<Rightarrow> ReadOutcome \<Rightarrow> error option \<Rightarrow> nat result \<Rightarrow> ReopenableReader \<Rightarrow>
   (nat \<times> error option) \<times> ReopenableReader" where
  "ReadAtContext hasContext outcome closeAnswer reopened r =
     (if \<not> hasContext then ((0, Some (Errorf ''reopenable reader: context is required'')), r)
      else (case begin_reading r of
        Inl e \<Rightarrow> ((0, Some e), r)
      | Inr source \<Rightarrow>
        (case outcome of
           ReadReturned n err \<Rightarrow> ((n, err), r)
         | ContextDone cause \<Rightarrow> after_join cause reopened (snd (closeCurrent closeAnswer r)))))"

text \<open>A read without a context cannot be canceled.\<close>

definition Reader_ReadAt :: "nat \<Rightarrow> error option \<Rightarrow> ReopenableReader \<Rightarrow> (nat \<times> error option) \<times> ReopenableReader" where
  "Reader_ReadAt n err r = ReadAtContext True (ReadReturned n err) None (Inl ErrEOF) r"

section \<open>Interleavings\<close>

text \<open>
  One operation holds \<^verbatim>\<open>opMu\<close> at a time: it reads from a handle, joins the read it has
  closed the handle under, or is idle. One closer has marked the reader, closed the source and
  waited for \<^verbatim>\<open>opMu\<close>.
\<close>

datatype Operation = OpIdle | OpReading nat | OpJoining nat error

datatype Closer = CloserIdle | CloserMarked | CloserWaiting | CloserDone

record ReaderSystem =
  SyReader :: ReopenableReader
  SyOperation :: Operation
  SyCloser :: Closer

inductive reader_step :: "ReaderSystem \<Rightarrow> ReaderSystem \<Rightarrow> bool" where
  step_begin: "SyOperation s = OpIdle \<Longrightarrow> begin_reading (SyReader s) = Inr h \<Longrightarrow>
     reader_step s (s\<lparr>SyOperation := OpReading h\<rparr>)"
| step_returned: "SyOperation s = OpReading h \<Longrightarrow> reader_step s (s\<lparr>SyOperation := OpIdle\<rparr>)"
| step_context_done: "SyOperation s = OpReading h \<Longrightarrow>
     reader_step s (s\<lparr>SyReader := snd (closeCurrent answer (SyReader s)), SyOperation := OpJoining h cause\<rparr>)"
| step_joined: "SyOperation s = OpJoining h cause \<Longrightarrow> (\<forall>h'. reopened = Inr h' \<longrightarrow> h' \<notin> RrOpened (SyReader s)) \<Longrightarrow>
     reader_step s (s\<lparr>SyReader := snd (after_join cause reopened (SyReader s)), SyOperation := OpIdle\<rparr>)"
| step_interrupt: "reader_step s (s\<lparr>SyReader := snd (Interrupt answer (SyReader s))\<rparr>)"
| step_mark_closed: "SyCloser s = CloserIdle \<Longrightarrow>
     reader_step s (s\<lparr>SyReader := (SyReader s)\<lparr>RrClosed := True\<rparr>, SyCloser := CloserMarked\<rparr>)"
| step_close_source: "SyCloser s = CloserMarked \<Longrightarrow>
     reader_step s (s\<lparr>SyReader := snd (closeCurrent answer (SyReader s)), SyCloser := CloserWaiting\<rparr>)"
| step_close_joined: "SyCloser s = CloserWaiting \<Longrightarrow> SyOperation s = OpIdle \<Longrightarrow>
     reader_step s (s\<lparr>SyCloser := CloserDone\<rparr>)"

inductive_cases reader_stepE: "reader_step s t"

inductive reader_reachable :: "nat \<Rightarrow> ReaderSystem \<Rightarrow> bool" for h where
  reader_start: "NewReopenableReaderAt (Some h) True True = Inr r \<Longrightarrow>
     reader_reachable h \<lparr>SyReader = r, SyOperation = OpIdle, SyCloser = CloserIdle\<rparr>"
| reader_next: "reader_reachable h s \<Longrightarrow> reader_step s t \<Longrightarrow> reader_reachable h t"

end
