(* ===== verification/MapIdentity.thy ===== *)
theory MapIdentity
  imports Pass0 MapCodec
begin

text \<open>
  The identity of a disc in the header of its recovery map (\<^verbatim>\<open>internal/recoverymap/identity.go\<close>)
  and the header of a new map (\<^verbatim>\<open>recoveryMapHeader\<close> in \<^verbatim>\<open>internal/platform/recovery.go\<close>).
  The application starts recoveries without an identity, and nothing in the program compares one
  with a header.
\<close>

definition IdentityBinding ::
  "Header \<Rightarrow> ContentIdentity \<Rightarrow> bytes \<Rightarrow> bytes \<Rightarrow> bytes \<Rightarrow> Header result" where
  "IdentityBinding h i captureID jobID recordID =
     (case ContentIdentity_Validate i of
        Some e \<Rightarrow> Inl (Wrapf ''bind recovery map identity'' e)
      | None \<Rightarrow>
     (case hex_DecodeString (IdLayoutSHA256 i) of
        Inl e \<Rightarrow> Inl (Errorf ''bind recovery map identity: layout hash must be 32-byte hex'')
      | Inr layout \<Rightarrow>
        if length layout \<noteq> 32 then Inl (Errorf ''bind recovery map identity: layout hash must be 32-byte hex'')
        else
        let h1 = h\<lparr>IdentityAlgorithmVersion := IdVersion i, LayoutSHA256 := layout, QuickContentIDPresent := False,
              QuickContentID := replicate 16 0\<rparr>;
            ids = (\<lambda>h. h\<lparr>HdrCaptureID := captureID, JobID := jobID, CatalogRecordIDPresent := (recordID \<noteq> replicate 16 0),
              CatalogRecordID := recordID\<rparr>) in
        if IdQuickID i = [] then Inr (ids h1)
        else (case hex_DecodeString (IdQuickID i) of
            Inl e \<Rightarrow> Inl (Errorf ''bind recovery map identity: QuickID must be 32-byte hex'')
          | Inr quick \<Rightarrow>
            if length quick \<noteq> 32 then Inl (Errorf ''bind recovery map identity: QuickID must be 32-byte hex'')
            else Inr (ids (h1\<lparr>QuickContentIDPresent := True, QuickContentID := take 16 quick\<rparr>)))))"

definition ValidateIdentityBinding :: "Header \<Rightarrow> ContentIdentity \<Rightarrow> error option" where
  "ValidateIdentityBinding h observed =
     (case ContentIdentity_Validate observed of
        Some e \<Rightarrow> Some (Wrapf ''validate recovery map identity: observed identity'' e)
      | None \<Rightarrow>
        if IdentityAlgorithmVersion h = 0 \<or> IdentityAlgorithmVersion h \<noteq> IdVersion observed
        then Some (Errorf ''validate recovery map identity: algorithm version mismatch'')
        else
     (case hex_DecodeString (IdLayoutSHA256 observed) of
        Inl e \<Rightarrow> Some (Errorf ''validate recovery map identity: layout mismatch'')
      | Inr layout \<Rightarrow>
        if length layout \<noteq> 32 \<or> layout \<noteq> LayoutSHA256 h
        then Some (Errorf ''validate recovery map identity: layout mismatch'')
        else if \<not> QuickContentIDPresent h
        then Some (Errorf ''validate recovery map identity: quick content binding is absent'')
        else
     (case hex_DecodeString (IdQuickID observed) of
        Inl e \<Rightarrow> Some (Errorf ''validate recovery map identity: observed QuickID is absent or invalid'')
      | Inr quick \<Rightarrow>
        if length quick \<noteq> 32 then Some (Errorf ''validate recovery map identity: observed QuickID is absent or invalid'')
        else if take 16 quick \<noteq> QuickContentID h
        then Some (Errorf ''validate recovery map identity: quick content mismatch'')
        else None)))"

text \<open>What a started recovery knows of its disc, when it knows it.\<close>

record MapBinding =
  MbIdentity :: ContentIdentity
  MbCaptureID :: bytes
  MbJobID :: bytes
  MbCatalogRecordID :: bytes

definition recoveryMapHeader :: "u32 \<Rightarrow> u64 \<Rightarrow> u64 \<Rightarrow> MapBinding option \<Rightarrow> Header result" where
  "recoveryMapHeader sectorSize capacity unixNano binding =
     (let h = \<lparr>LogicalSectorSize = sectorSize, ExpectedSectorCount = capacity, OutputFormat = 1,
            IdentityAlgorithmVersion = 0, LayoutSHA256 = replicate 32 0, QuickContentIDPresent = False,
            QuickContentID = replicate 16 0, HdrCaptureID = replicate 16 0, CatalogRecordIDPresent = False,
            CatalogRecordID = replicate 16 0, JobID = replicate 16 0, CreationUnixNano = unixNano, CleanShutdown = False\<rparr> in
      case binding of
        None \<Rightarrow> Inr h
      | Some b \<Rightarrow> IdentityBinding h (MbIdentity b) (MbCaptureID b) (MbJobID b) (MbCatalogRecordID b))"

text \<open>A bound header accepts exactly the identities of the same version, layout and quick identifier; a disc
  without a quick identifier is accepted by no header.\<close>

theorem binding_accepts_iff:
  assumes "IdentityBinding h i captureID jobID recordID = Inr h'"
  shows "ValidateIdentityBinding h' observed = None \<longleftrightarrow>
    ContentIdentity_Validate observed = None \<and> IdVersion observed = IdVersion i \<and>
    hex_DecodeString (IdLayoutSHA256 observed) = hex_DecodeString (IdLayoutSHA256 i) \<and> IdQuickID i \<noteq> [] \<and>
    (\<exists>q. hex_DecodeString (IdQuickID observed) = Inr q \<and> length q = 32 \<and>
       map_sum id (take 16) (hex_DecodeString (IdQuickID i)) = Inr (take 16 q))"
proof -
  have v: "IdVersion i \<noteq> 0" using assms by (auto simp: IdentityBinding_def ContentIdentity_Validate_def)
  obtain layout where l: "hex_DecodeString (IdLayoutSHA256 i) = Inr layout" "length layout = 32"
    using assms by (auto simp: IdentityBinding_def split: option.splits sum.splits if_splits)
  show ?thesis
  proof (cases "IdQuickID i = []")
    case True
    then have "\<not> QuickContentIDPresent h'"
      using assms l by (auto simp: IdentityBinding_def Let_def split: option.splits)
    then show ?thesis
      using True by (auto simp: ValidateIdentityBinding_def split: option.splits sum.splits)
  next
    case False
    then obtain quick where q: "hex_DecodeString (IdQuickID i) = Inr quick" "length quick = 32"
      using assms l by (auto simp: IdentityBinding_def Let_def split: option.splits sum.splits if_splits)
    have "IdentityAlgorithmVersion h' = IdVersion i" "LayoutSHA256 h' = layout" "QuickContentIDPresent h'"
      "QuickContentID h' = take 16 quick"
      using assms False l q by (auto simp: IdentityBinding_def Let_def split: option.splits)
    then show ?thesis
      using v l q False by (auto simp: ValidateIdentityBinding_def split: option.splits sum.splits)
  qed
qed

lemma header_typed_new: "recoveryMapHeader s c t None = Inr h \<Longrightarrow> header_typed h"
  by (auto simp: recoveryMapHeader_def header_typed_def Let_def)

end
