(* ===== verification/Device.thy ===== *)
theory Device
  imports Prelude Sha256
begin

text \<open>
  The device layer that does not touch a device (\<^verbatim>\<open>internal/device\<close>): commands and their
  allowlist (\<^verbatim>\<open>types.go\<close>), deadlines, read speeds, ejecting, ownership, sense data, and the
  supervisor that has at most one command active (\<^verbatim>\<open>supervisor.go\<close>, \<^verbatim>\<open>restart.go\<close>).
  String types whose values are constants are datatypes with one constructor for the strings that
  are no constant; instants and durations are integers of nanoseconds.
\<close>

section \<open>Commands\<close>

datatype CommandKind =
    CommandInquiry | CommandTestReady | CommandGetConfiguration | CommandReadCapacity | CommandReadTOC
  | CommandReadDiscInformation | CommandReadDVDStructure | CommandReadBlocks | CommandReadCD
  | CommandSetSpeed | CommandEject | CommandEmpty | CommandOther string

record CommandSpec =
  CsKind :: CommandKind
  CsDisplayName :: string
  CsReadOnly :: bool
  CsAllowsMediaIO :: bool
  CsOpcode :: u8

definition command_spec :: "CommandKind \<Rightarrow> string \<Rightarrow> bool \<Rightarrow> u8 \<Rightarrow> CommandSpec" where
  "command_spec k name media opcode =
     \<lparr>CsKind = k, CsDisplayName = name, CsReadOnly = True, CsAllowsMediaIO = media, CsOpcode = opcode\<rparr>"

fun AllowedCommandSpec :: "CommandKind \<Rightarrow> CommandSpec option" where
  "AllowedCommandSpec CommandInquiry = Some (command_spec CommandInquiry ''INQUIRY'' False 0x12)"
| "AllowedCommandSpec CommandTestReady = Some (command_spec CommandTestReady ''TEST UNIT READY'' False 0x00)"
| "AllowedCommandSpec CommandGetConfiguration =
     Some (command_spec CommandGetConfiguration ''GET CONFIGURATION'' False 0x46)"
| "AllowedCommandSpec CommandReadCapacity = Some (command_spec CommandReadCapacity ''READ CAPACITY'' False 0x25)"
| "AllowedCommandSpec CommandReadTOC = Some (command_spec CommandReadTOC ''READ TOC/PMA/ATIP'' False 0x43)"
| "AllowedCommandSpec CommandReadDiscInformation =
     Some (command_spec CommandReadDiscInformation ''READ DISC INFORMATION'' False 0x51)"
| "AllowedCommandSpec CommandReadDVDStructure =
     Some (command_spec CommandReadDVDStructure ''READ DVD STRUCTURE'' False 0xad)"
| "AllowedCommandSpec CommandReadBlocks = Some (command_spec CommandReadBlocks ''READ(10/12/16)'' True 0x28)"
| "AllowedCommandSpec CommandReadCD = Some (command_spec CommandReadCD ''READ CD'' True 0xbe)"
| "AllowedCommandSpec CommandSetSpeed = Some (command_spec CommandSetSpeed ''SET CD SPEED'' False 0xbb)"
| "AllowedCommandSpec CommandEject = Some (command_spec CommandEject ''START STOP UNIT'' False 0x1b)"
| "AllowedCommandSpec _ = None"

definition AllowedCommandKinds :: "CommandKind list" where
  "AllowedCommandKinds = [CommandInquiry, CommandTestReady, CommandGetConfiguration, CommandReadCapacity,
     CommandReadTOC, CommandReadDiscInformation, CommandReadDVDStructure, CommandReadBlocks,
     CommandReadCD, CommandSetSpeed, CommandEject]"

definition IsReadOnly :: "CommandKind \<Rightarrow> bool" where
  "IsReadOnly k = (case AllowedCommandSpec k of None \<Rightarrow> False | Some spec \<Rightarrow> CsReadOnly spec)"

definition ValidateCommandKind :: "CommandKind \<Rightarrow> error option" where
  "ValidateCommandKind k =
     (if AllowedCommandSpec k = None
      then Some (Errorf ''validate command kind: command is not in the allowlist'') else None)"

record CommandRequest =
  RqID :: u64
  RqCommand :: CommandKind
  RqStartLBA :: u64
  RqSectors :: u32
  RqSpeedKbps :: u32

definition CommandRequest_Validate :: "CommandRequest \<Rightarrow> error option" where
  "CommandRequest_Validate r =
     (if RqCommand r = CommandEmpty then Some (Errorf ''validate command request: command is required'')
      else (case ValidateCommandKind (RqCommand r) of Some e \<Rightarrow> Some e | None \<Rightarrow>
      if (case AllowedCommandSpec (RqCommand r) of None \<Rightarrow> False | Some spec \<Rightarrow> CsAllowsMediaIO spec) \<and>
         RqSectors r = 0
      then Some (Errorf ''validate command request: command requires sectors'') else None))"

record CommandResult =
  CmID :: u64
  CmStatus :: bytes
  CmData :: bytes

section \<open>Deadlines\<close>

record Deadlines =
  DlSoft :: int
  DlHard :: int
  DlRetryBudget :: u16

abbreviation (input) Second :: int where "Second \<equiv> 1000000000"

definition Deadlines_Validate :: "Deadlines \<Rightarrow> error option" where
  "Deadlines_Validate d =
     (if DlSoft d \<le> 0 then Some (Errorf ''validate deadlines: soft deadline must be greater than zero'')
      else if DlHard d \<le> 0 then Some (Errorf ''validate deadlines: hard deadline must be greater than zero'')
      else if DlHard d < DlSoft d
      then Some (Errorf ''validate deadlines: hard deadline is smaller than soft deadline'')
      else if DlRetryBudget d = 0
      then Some (Errorf ''validate deadlines: retry budget must be greater than zero'')
      else None)"

definition DefaultDeadlines :: "CommandRequest \<Rightarrow> Deadlines result" where
  "DefaultDeadlines r =
     (if RqCommand r \<in> {CommandInquiry, CommandGetConfiguration, CommandReadCapacity, CommandReadTOC,
           CommandReadDiscInformation, CommandReadDVDStructure}
      then Inr \<lparr>DlSoft = 10 * Second, DlHard = 30 * Second, DlRetryBudget = 1\<rparr>
      else if RqCommand r \<in> {CommandReadBlocks, CommandReadCD} then
        (if RqSectors r \<le> 1 then Inr \<lparr>DlSoft = 30 * Second, DlHard = 120 * Second, DlRetryBudget = 3\<rparr>
         else Inr \<lparr>DlSoft = 15 * Second, DlHard = 45 * Second, DlRetryBudget = 3\<rparr>)
      else if RqCommand r = CommandSetSpeed
      then Inr \<lparr>DlSoft = 5 * Second, DlHard = 15 * Second, DlRetryBudget = 1\<rparr>
      else if RqCommand r = CommandEject
      then Inr \<lparr>DlSoft = 10 * Second, DlHard = 30 * Second, DlRetryBudget = 1\<rparr>
      else if RqCommand r = CommandTestReady
      then Inr \<lparr>DlSoft = 10 * Second, DlHard = 30 * Second, DlRetryBudget = 2\<rparr>
      else Inl (Errorf ''default deadlines: unsupported command''))"

section \<open>Read speed, ejecting, ownership\<close>

datatype ReadSpeedMode = ReadSpeedAuto | ReadSpeedExplicit | ReadSpeedOther string

record ReadSpeedRequest =
  SpdMode :: ReadSpeedMode
  SpdKilobytesPerSecond :: u32

definition ReadSpeedRequest_Validate :: "ReadSpeedRequest \<Rightarrow> error option" where
  "ReadSpeedRequest_Validate r =
     (if SpdMode r \<noteq> ReadSpeedAuto \<and> SpdMode r \<noteq> ReadSpeedExplicit
      then Some (Errorf ''validate read speed: unsupported mode'')
      else if SpdMode r = ReadSpeedExplicit \<and> SpdKilobytesPerSecond r = 0
      then Some (Errorf ''validate read speed: explicit speed is required'') else None)"

definition DefaultReadSpeedRequest :: ReadSpeedRequest where
  "DefaultReadSpeedRequest = \<lparr>SpdMode = ReadSpeedAuto, SpdKilobytesPerSecond = 0\<rparr>"

datatype EjectMode = EjectNormal | EjectForce | EjectOther string

record EjectRequest =
  EjMode :: EjectMode
  EjExplicitConfirm :: bool

definition EjectRequest_Validate :: "EjectRequest \<Rightarrow> error option" where
  "EjectRequest_Validate r =
     (if EjMode r \<noteq> EjectNormal \<and> EjMode r \<noteq> EjectForce
      then Some (Errorf ''validate eject: unsupported mode'')
      else if EjMode r = EjectForce \<and> \<not> EjExplicitConfirm r
      then Some (Errorf ''validate eject: force eject requires explicit confirmation'') else None)"

datatype DriveOwner = DriveUnowned | DriveRecoveryOwned | DriveCommandOwned | DriveOwnerOther string

text \<open>The owner field; the empty string of a zero value is \<open>None\<close>. A busy error has the operation as text.\<close>

type_synonym Ownership = "DriveOwner option"

definition Owner :: "Ownership \<Rightarrow> DriveOwner" where
  "Owner o' = (case o' of None \<Rightarrow> DriveUnowned | Some w \<Rightarrow> w)"

definition Ownership_Acquire :: "DriveOwner \<Rightarrow> Ownership \<Rightarrow> error option \<times> Ownership" where
  "Ownership_Acquire owner o' =
     (if owner \<noteq> DriveRecoveryOwned \<and> owner \<noteq> DriveCommandOwned
      then (Some (Errorf ''acquire drive ownership: invalid owner''), o')
      else if Owner o' \<noteq> DriveUnowned then (Some (Errorf ''acquire drive ownership: busy''), o')
      else (None, Some owner))"

definition Ownership_Release :: "DriveOwner \<Rightarrow> Ownership \<Rightarrow> Ownership" where
  "Ownership_Release owner o' = (if o' = Some owner then Some DriveUnowned else o')"

definition ValidateEject :: "EjectRequest \<Rightarrow> Ownership \<Rightarrow> error option" where
  "ValidateEject r o' =
     (case EjectRequest_Validate r of Some e \<Rightarrow> Some e | None \<Rightarrow>
      if EjMode r = EjectNormal then
        (if Owner o' \<noteq> DriveUnowned then Some (Errorf ''normal eject: busy'') else None)
      else if EjMode r = EjectForce then
        (if Owner o' = DriveRecoveryOwned then Some (Errorf ''force eject: busy'') else None)
      else None)"

section \<open>Sense data\<close>

datatype SenseClass = SenseRetryable | SenseFatal

record SenseTuple =
  SnKey :: u8
  SnASC :: u8
  SnASCQ :: u8

definition ParseFixedFormatSense :: "bytes \<Rightarrow> SenseTuple result" where
  "ParseFixedFormatSense data =
     (if length data < 14 then Inl (Errorf ''parse fixed format sense: expected at least 14 bytes'')
      else Inr \<lparr>SnKey = (data ! 2) AND 0x0f, SnASC = data ! 12, SnASCQ = data ! 13\<rparr>)"

definition ClassifySense :: "SenseTuple \<Rightarrow> SenseClass" where
  "ClassifySense t =
     (if SnKey t = 2 \<or> SnKey t = 6 then SenseRetryable
      else if SnKey t = 3 \<or> SnKey t = 5 \<or> SnKey t = 7 then SenseFatal
      else if SnASC t = 4 \<and> SnASCQ t = 1 then SenseRetryable
      else SenseFatal)"

section \<open>Observations\<close>

datatype MediaPresence = MediaUnknown | MediaEmpty | MediaPresent | MediaChanging | MediaPresenceOther string

record MediaObservation =
  MoDeviceID :: string
  MoDevicePath :: string
  MoPresence :: MediaPresence
  MoLogicalSectorSize :: u32
  MoCapacitySectors :: u64

definition MediaObservation_Validate :: "MediaObservation \<Rightarrow> error option" where
  "MediaObservation_Validate m =
     (if MoDeviceID m = [] \<or> MoDevicePath m = []
      then Some (Errorf ''validate media observation: device identity and path are required'')
      else if MoPresence m = MediaPresent \<and> MoLogicalSectorSize m = 0
      then Some (Errorf ''validate media observation: present media requires sector size'')
      else None)"

section \<open>The supervisor\<close>

datatype DispatchEffectKind = EffectDispatchRequest | EffectSoftDeadline | EffectHardDeadline | EffectRestartWorker

record ActiveCommand =
  AcDrive :: string
  AcRequest :: CommandRequest
  AcDeadlines :: Deadlines
  AcStartedAt :: int
  AcSoftDeadlineAt :: int
  AcHardDeadlineAt :: int
  AcSoftDeadlineSent :: bool

record DispatchEffect =
  DeKind :: DispatchEffectKind
  DeRequestID :: u64
  DeDrive :: string

datatype RestartPolicy = RestartNever | RestartRetryable | RestartAlways | RestartOther string

record Supervisor =
  SvOwnedDrive :: string
  SvNextRequestID :: u64
  SvLastCompletedRequest :: u64
  SvActive :: "ActiveCommand option"
  SvRestartPolicy :: RestartPolicy

definition CanDispatch :: "Supervisor \<Rightarrow> bool" where
  "CanDispatch s \<longleftrightarrow> SvActive s = None"

definition CanOwnDrive :: "string \<Rightarrow> Supervisor \<Rightarrow> bool" where
  "CanOwnDrive drive s \<longleftrightarrow> SvOwnedDrive s = [] \<or> SvOwnedDrive s = drive"

definition AcquireDrive :: "string \<Rightarrow> Supervisor \<Rightarrow> Supervisor \<times> bool" where
  "AcquireDrive drive s =
     (if drive = [] \<or> \<not> CanOwnDrive drive s then (s, False)
      else (s\<lparr>SvOwnedDrive := drive\<rparr>, True))"

definition ReleaseDrive :: "string \<Rightarrow> Supervisor \<Rightarrow> Supervisor" where
  "ReleaseDrive drive s = (if SvOwnedDrive s \<noteq> drive then s else s\<lparr>SvOwnedDrive := []\<rparr>)"

definition Supervisor_Dispatch ::
  "int \<Rightarrow> string \<Rightarrow> CommandRequest \<Rightarrow> Deadlines \<Rightarrow> Supervisor \<Rightarrow>
   (DispatchEffect list) result \<times> Supervisor" where
  "Supervisor_Dispatch now drive request deadlines s =
     (if \<not> CanDispatch s then (Inl (Errorf ''dispatch: command is already active''), s)
      else if \<not> CanOwnDrive drive s
      then (Inl (Errorf ''dispatch: drive is already owned by another active worker''), s)
      else (case Deadlines_Validate deadlines of Some e \<Rightarrow> (Inl e, s) | None \<Rightarrow>
      if RqCommand request = CommandEmpty then (Inl (Errorf ''dispatch: command is required''), s)
      else
        let s1 = fst (AcquireDrive drive s);
            s2 = s1\<lparr>SvNextRequestID := SvNextRequestID s1 + 1\<rparr>;
            request1 = request\<lparr>RqID := SvNextRequestID s2\<rparr>;
            s3 = s2\<lparr>SvActive := Some \<lparr>AcDrive = drive, AcRequest = request1, AcDeadlines = deadlines,
              AcStartedAt = now, AcSoftDeadlineAt = now + DlSoft deadlines,
              AcHardDeadlineAt = now + DlHard deadlines, AcSoftDeadlineSent = False\<rparr>\<rparr>
        in (Inr [\<lparr>DeKind = EffectDispatchRequest, DeRequestID = RqID request1, DeDrive = drive\<rparr>], s3)))"

text \<open>The flag says that the result was of no command that is active.\<close>

definition ObserveResult :: "u64 \<Rightarrow> Supervisor \<Rightarrow> bool \<times> Supervisor" where
  "ObserveResult requestID s =
     (case SvActive s of
        None \<Rightarrow> (True, s)
      | Some a \<Rightarrow>
        if requestID \<noteq> RqID (AcRequest a) then (True, s)
        else (False, ReleaseDrive (SvOwnedDrive s)
               (s\<lparr>SvLastCompletedRequest := requestID, SvActive := None\<rparr>)))"

text \<open>The code writes the flag through the pointer the supervisor shares with its earlier copies; here the
  earlier copy is not used again.\<close>

definition CheckDeadlines :: "int \<Rightarrow> Supervisor \<Rightarrow> DispatchEffect list \<times> Supervisor" where
  "CheckDeadlines now s =
     (case SvActive s of
        None \<Rightarrow> ([], s)
      | Some a \<Rightarrow>
        let soft = \<not> AcSoftDeadlineSent a \<and> AcSoftDeadlineAt a \<le> now;
            a1 = (if soft then a\<lparr>AcSoftDeadlineSent := True\<rparr> else a)
        in ((if soft then [\<lparr>DeKind = EffectSoftDeadline, DeRequestID = RqID (AcRequest a1), DeDrive = AcDrive a1\<rparr>] else []) @
            (if AcHardDeadlineAt a1 \<le> now
             then [\<lparr>DeKind = EffectHardDeadline, DeRequestID = RqID (AcRequest a1), DeDrive = AcDrive a1\<rparr>] else []),
            s\<lparr>SvActive := Some a1\<rparr>))"

definition RestartDecision :: "bool \<Rightarrow> Supervisor \<Rightarrow> DispatchEffect list" where
  "RestartDecision retryable s =
     (let restart = [\<lparr>DeKind = EffectRestartWorker, DeRequestID = 0, DeDrive = SvOwnedDrive s\<rparr>] in
      case SvRestartPolicy s of
        RestartAlways \<Rightarrow> restart
      | RestartRetryable \<Rightarrow> if retryable then restart else []
      | _ \<Rightarrow> [])"

section \<open>Histories of a supervisor\<close>

datatype SupervisorEvent =
    DispatchCommand int string CommandRequest Deadlines
  | ResultObserved u64
  | ClockChecked int
  | DriveAcquired string
  | DriveReleased string

definition supervisor_step :: "SupervisorEvent \<Rightarrow> Supervisor \<Rightarrow> DispatchEffect list \<times> Supervisor" where
  "supervisor_step e s =
     (case e of
        DispatchCommand now drive request deadlines \<Rightarrow>
          (case Supervisor_Dispatch now drive request deadlines s of
             (Inl _, s1) \<Rightarrow> ([], s1) | (Inr es, s1) \<Rightarrow> (es, s1))
      | ResultObserved i \<Rightarrow> ([], snd (ObserveResult i s))
      | ClockChecked now \<Rightarrow> CheckDeadlines now s
      | DriveAcquired drive \<Rightarrow> ([], fst (AcquireDrive drive s))
      | DriveReleased drive \<Rightarrow> ([], ReleaseDrive drive s))"

fun supervisor_run :: "SupervisorEvent list \<Rightarrow> Supervisor \<Rightarrow> DispatchEffect list \<times> Supervisor" where
  "supervisor_run [] s = ([], s)"
| "supervisor_run (e # es) s =
     (case supervisor_step e s of (fs, s1) \<Rightarrow>
      (case supervisor_run es s1 of (gs, s2) \<Rightarrow> (fs @ gs, s2)))"

end
