(* ===== verification/AppModel.thy ===== *)
theory AppModel
  imports GoStrings Device Policy Lifecycle CatalogRepo
begin

text \<open>
  The state of the terminal application (\<^verbatim>\<open>internal/app\<close>: \<^verbatim>\<open>model*.go\<close>,
  \<^verbatim>\<open>messages*.go\<close>), its messages, the effects it requests, and the texts it shows for
  errors (\<^verbatim>\<open>user_messages.go\<close>). The widgets of the \<^verbatim>\<open>bubbles\<close> library are
  not part of the program: their states are type variables and their operations are the record
  \<open>Bubbles\<close> that the definitions take as an argument. Cursors and request numbers are unbounded.
\<close>

section \<open>Pages, drives and media\<close>

datatype Page =
    PageDiscover | PageNoDrives | PageDiscoveryError | PageChooseDrive | PageInspectingMedia
  | PagePriorProcessing | PageChooseAction | PageChooseOutput | PageReview | PageRecovering
  | PagePausing | PagePaused | PageStopConfirm | PageEjectConfirm | PageSummary | PageResumeJobs
  | PageHistory | PageDetails | PageAdvanced | PageAbout

datatype Severity = SeverityInfo | SeverityWarning | SeverityError

record DeviceSummary =
  DsID :: string
  DsPath :: string
  DsDisplayName :: string
  DsStatus :: string
  DsMediaToken :: string

definition no_device :: DeviceSummary where
  "no_device = \<lparr>DsID = [], DsPath = [], DsDisplayName = [], DsStatus = [], DsMediaToken = []\<rparr>"

record ContentIdentityViewModel =
  CiSummary :: string
  CiDetail :: string
  CiEvidence :: string
  CiIdentityStatus :: string
  CiAutoResumeReady :: bool

record PriorProcessingRecord =
  PrTitle :: string
  PrDetail :: string

record ProcessedMediaViewModel =
  PmTitle :: string
  PmImagePath :: string
  PmMapPath :: string
  PmStatus :: string
  PmModifiedAt :: string
  PmDetail :: string

record ResumableJobViewModel =
  RjOutputPath :: string
  RjMapPath :: string
  RjRecoveredSectors :: u64
  RjDeferredSectors :: u64
  RjUnreadableSectors :: u64
  RjDetail :: string

datatype PriorProcessingKind =
    PriorProcessingNone | PriorProcessingStrongCompleted | PriorProcessingStrongResumable
  | PriorProcessingProbable | PriorProcessingIndeterminate | PriorProcessingUnset

record PriorProcessingViewModel =
  PvKind :: PriorProcessingKind
  PvTitle :: string
  PvBody :: "string list"
  PvOptions :: "string list"
  PvHistoryLine :: string
  PvImagePath :: string
  PvCopyLabel :: string
  PvLastSaved :: string
  PvRecovered :: string
  PvDeferredSectors :: string
  PvUnreadableSectors :: string

definition prior_view :: "PriorProcessingKind \<Rightarrow> string \<Rightarrow> PriorProcessingViewModel" where
  "prior_view k line = \<lparr>PvKind = k, PvTitle = [], PvBody = [], PvOptions = [], PvHistoryLine = line,
     PvImagePath = [], PvCopyLabel = [], PvLastSaved = [], PvRecovered = [], PvDeferredSectors = [],
     PvUnreadableSectors = []\<rparr>"

section \<open>Setup, recovery and summary\<close>

datatype OutputField = OutputFieldDirectory | OutputFieldFileName

record JobSetupModel =
  SuActionLabel :: string
  SuOutputPath :: string
  SuOutputDirectory :: string
  SuOutputFileName :: string
  SuActiveOutputField :: OutputField
  SuOutputEditing :: bool
  SuDefaultPath :: string
  SuOutputFormat :: string
  SuFreeSpace :: string
  SuMethodLabel :: string
  SuMethod :: RecoveryMethod
  SuRetryUnresolved :: bool
  SuReadSpeed :: ReadSpeedRequest
  SuCopyLabel :: string
  SuResumeReady :: bool
  SuResumeMapPath :: string
  SuResumeDetail :: string

record RecoveryViewModel =
  RvPhase :: string
  RvScannedSectors :: u64
  RvRecoveredSectors :: u64
  RvDeferredSectors :: u64
  RvTotalSectors :: u64
  RvUnreadableSectors :: u64
  RvStatus :: string
  RvOutputPath :: string
  RvElapsed :: string
  RvRemaining :: string
  RvETA :: string
  RvThroughput :: string
  RvLastIssue :: "string list"
  RvPausePending :: bool
  RvStopPending :: bool
  RvForceStopAvailable :: bool

record ProgressSnapshot =
  PsPhase :: string
  PsScannedSectors :: u64
  PsRecoveredSectors :: u64
  PsDeferredSectors :: u64
  PsTotalSectors :: u64
  PsUnreadableSectors :: u64
  PsStatus :: string
  PsElapsed :: string
  PsRemaining :: string
  PsETA :: string
  PsThroughput :: string
  PsLastIssue :: "string list"
  PsOutputPath :: string
  PsPausePending :: bool
  PsStopPending :: bool
  PsForceStopAvailable :: bool

record JobSummary =
  SmOutcome :: string
  SmImagePath :: string
  SmMapPath :: string
  SmNextAction :: string
  SmUnresolvedSectors :: u64
  SmDeferredSectors :: u64
  SmRecoveredSectors :: u64
  SmTotalSectors :: u64
  SmDuration :: string
  SmCatalogStatus :: "CatalogWriteStatus option"

definition no_summary :: JobSummary where
  "no_summary = \<lparr>SmOutcome = [], SmImagePath = [], SmMapPath = [], SmNextAction = [], SmUnresolvedSectors = 0,
     SmDeferredSectors = 0, SmRecoveredSectors = 0, SmTotalSectors = 0, SmDuration = [], SmCatalogStatus = None\<rparr>"

record DialogModel =
  DgTitle :: string
  DgBody :: string
  DgOptions :: "string list"
  DgCursor :: int

section \<open>Errors and notices\<close>

datatype ErrorCode =
    ErrorUnsupported | ErrorPermissionDenied | ErrorBusy | ErrorNoMedia | ErrorDeviceRemoved | ErrorMediaChanged
  | ErrorTimeout | ErrorInvalidRequest | ErrorTransport | ErrorProtocol | ErrorDeviceFailure

text \<open>What the application reads of an error: its text, whether it is or wraps
  \<^verbatim>\<open>ErrUnsupportedEnvironment\<close>, and the code of the first operation error in its chain.\<close>

record AppError =
  AeText :: string
  AeUnsupportedEnvironment :: bool
  AeOperationCode :: "ErrorCode option"

datatype UserMessageCode =
    MessageDiscoveryFailed | MessageMediaInspection | MessageHistoryUnavailable | MessageTargetUnavailable
  | MessageRecoveryFailed | MessageEjectFailed | MessageForceEjectFailed | MessageOperationFailed

text \<open>\<open>contextNone\<close> is the empty string of a message that names no context.\<close>

datatype messageContext =
    contextDiscovery | contextMedia | contextHistory | contextTarget | contextRecovery | contextEject
  | contextForce | contextNone

record NoticeModel =
  NmCode :: "UserMessageCode option"
  NmText :: string
  NmExplanation :: string
  NmAction :: string
  NmTechnicalDetail :: string
  NmSeverity :: Severity

definition plain_notice :: "string \<Rightarrow> Severity \<Rightarrow> NoticeModel" where
  "plain_notice t sev = \<lparr>NmCode = None, NmText = t, NmExplanation = [], NmAction = [], NmTechnicalDetail = [],
     NmSeverity = sev\<rparr>"

definition messageCode :: "messageContext \<Rightarrow> UserMessageCode" where
  "messageCode c =
     (if c = contextForce then MessageForceEjectFailed
      else if c = contextEject then MessageEjectFailed
      else (case c of
          contextDiscovery \<Rightarrow> MessageDiscoveryFailed
        | contextMedia \<Rightarrow> MessageMediaInspection
        | contextHistory \<Rightarrow> MessageHistoryUnavailable
        | contextTarget \<Rightarrow> MessageTargetUnavailable
        | contextRecovery \<Rightarrow> MessageRecoveryFailed
        | _ \<Rightarrow> MessageOperationFailed))"

definition with_texts :: "string \<Rightarrow> string \<Rightarrow> string \<Rightarrow> NoticeModel \<Rightarrow> NoticeModel" where
  "with_texts t e a n = n\<lparr>NmText := t, NmExplanation := e, NmAction := a\<rparr>"

definition applyContextMessage :: "messageContext \<Rightarrow> NoticeModel \<Rightarrow> NoticeModel" where
  "applyContextMessage c n =
     (case c of
        contextDiscovery \<Rightarrow> with_texts ''Drive discovery failed.''
          ''DiscRescue could not determine which optical drives are available.''
          ''Check the drive connection, then retry discovery.'' n
      | contextMedia \<Rightarrow> with_texts ''Disc inspection failed.''
          ''DiscRescue could not read enough information to identify this media.''
          ''Check that the disc is inserted and try again.'' n
      | contextHistory \<Rightarrow> with_texts ''Saved recovery history is unavailable.''
          ''The current recovery can still be configured without local history.''
          ''Continue, or choose a different output folder.''
          (n\<lparr>NmCode := Some MessageHistoryUnavailable, NmSeverity := SeverityWarning\<rparr>)
      | contextTarget \<Rightarrow> with_texts ''Output target cannot be used.''
          ''DiscRescue could not validate the selected image and recovery-map location.''
          ''Choose a writable output path and try again.'' (n\<lparr>NmCode := Some MessageTargetUnavailable\<rparr>)
      | contextRecovery \<Rightarrow> with_texts ''Recovery stopped with an error.''
          ''The image and recovery map may contain the last durable checkpoint.''
          ''Open details, then resume or retry the unresolved sectors when safe.''
          (n\<lparr>NmCode := Some MessageRecoveryFailed\<rparr>)
      | contextEject \<Rightarrow> with_texts ''Normal eject failed.'' ''The disc could not be ejected normally.''
          ''Close apps using the drive and try again, or review force eject.''
          (n\<lparr>NmCode := Some MessageEjectFailed\<rparr>)
      | contextForce \<Rightarrow> with_texts ''Force eject failed.'' ''The operating system could not eject the disc.''
          ''Close apps using the drive, then retry normal eject.''
          (n\<lparr>NmCode := Some MessageForceEjectFailed\<rparr>)
      | contextNone \<Rightarrow> n)"

definition applyDeviceError :: "messageContext \<Rightarrow> ErrorCode \<Rightarrow> NoticeModel \<Rightarrow> NoticeModel" where
  "applyDeviceError c code n =
     (let n1 =
        (if c = contextForce then with_texts ''Force eject failed.''
           ''The operating system could not eject the disc.''
           ''Close apps using the drive, then retry normal eject.'' (n\<lparr>NmCode := Some MessageForceEjectFailed\<rparr>)
         else if c = contextEject then with_texts ''Normal eject failed.''
           ''The disc could not be ejected normally.''
           ''Close apps using the drive and try again, or review force eject.''
           (n\<lparr>NmCode := Some MessageEjectFailed\<rparr>)
         else n) in
      case code of
        ErrorPermissionDenied \<Rightarrow> with_texts ''Access to the drive was denied.''
          ''DiscRescue could not open or control the optical drive.''
          ''Check permissions and close applications using the drive.'' n1
      | ErrorBusy \<Rightarrow> with_texts ''The optical drive is busy.''
          ''Another application or an active recovery still has the drive in use.''
          ''Stop recovery or close the other application, then try again.'' n1
      | ErrorNoMedia \<Rightarrow> with_texts ''No disc was detected.''
          ''The selected optical drive does not currently contain readable media.''
          ''Insert a CD or DVD, then retry.'' n1
      | ErrorDeviceRemoved \<Rightarrow> with_texts ''The optical drive is unavailable.''
          ''The drive was removed or disconnected before the operation completed.''
          ''Reconnect the drive and retry discovery.'' n1
      | ErrorMediaChanged \<Rightarrow> with_texts ''The disc changed during the operation.''
          ''The selected media no longer matches the operation in progress.''
          ''Insert the original disc and inspect it again.'' n1
      | ErrorTimeout \<Rightarrow> with_texts ''The drive request timed out.''
          ''The optical drive did not respond within the allowed time.''
          ''Wait for the drive to settle, then retry or review details.'' n1
      | ErrorUnsupported \<Rightarrow> with_texts ''This operation is not supported.''
          ''The current adapter does not provide the requested optical operation.''
          ''Use a supported operation or platform.'' n1
      | ErrorInvalidRequest \<Rightarrow> with_texts ''The request could not be accepted.''
          ''The selected operation is not valid for the current recovery state.''
          ''Return to the previous step and try again.'' n1
      | _ \<Rightarrow> n1)"

definition errorNotice :: "messageContext \<Rightarrow> AppError \<Rightarrow> NoticeModel" where
  "errorNotice c e =
     (let n = \<lparr>NmCode = Some (messageCode c), NmText = ''Operation failed.'',
          NmExplanation = ''DiscRescue could not complete the requested operation.'',
          NmAction = ''Try again, or choose another available action.'',
          NmTechnicalDetail = AeText e, NmSeverity = SeverityError\<rparr> in
      if AeUnsupportedEnvironment e then
        with_texts ''This operation is unavailable here.''
          ''The current platform does not provide the required optical-drive support.''
          ''Use a supported Linux, macOS, or Windows optical environment.''
          (n\<lparr>NmCode := Some MessageOperationFailed, NmSeverity := SeverityWarning\<rparr>)
      else (case AeOperationCode e of
          Some code \<Rightarrow> applyDeviceError c code (applyContextMessage c n)
        | None \<Rightarrow> applyContextMessage c n))"

definition NoticeModel_String :: "NoticeModel \<Rightarrow> string" where
  "NoticeModel_String n = strings_Join
     ([NmText n] @ (if NmExplanation n \<noteq> [] then [NmExplanation n] else []) @
      (if NmAction n \<noteq> [] then [''Next: '' @ NmAction n] else []) @
      (if NmTechnicalDetail n \<noteq> [] then [''Press d for technical details.''] else [])) '' ''"

section \<open>Effects\<close>

datatype AppEffectKind =
    EffectDiscoverDevices | EffectIdentifyMedia | EffectLookupHistory | EffectInspectTarget
  | EffectFindResumeJobs | EffectBrowseHistory | EffectStartJob | EffectPauseJob | EffectResumeJob
  | EffectStopJob | EffectStopNow | EffectEject | EffectOther string

definition no_eject :: EjectRequest where
  "no_eject = \<lparr>EjMode = EjectOther [], EjExplicitConfirm = False\<rparr>"

record EffectRequestedMsg =
  ErKind :: AppEffectKind
  ErDevicePath :: string
  ErOutputPath :: string
  ErBasePath :: string
  ErRequestID :: int
  ErEject :: EjectRequest

definition effect :: "AppEffectKind \<Rightarrow> EffectRequestedMsg" where
  "effect k = \<lparr>ErKind = k, ErDevicePath = [], ErOutputPath = [], ErBasePath = [], ErRequestID = 0, ErEject = no_eject\<rparr>"

text \<open>A command: none, the request of an effect, the request to end the program, or a command of a
  widget, whose message only a widget reads.\<close>

datatype Cmd = NoCmd | Request EffectRequestedMsg | QuitCmd | WidgetCmd

definition discoverDevicesEffect :: "int \<Rightarrow> Cmd" where
  "discoverDevicesEffect i = Request ((effect EffectDiscoverDevices)\<lparr>ErRequestID := i\<rparr>)"

definition identifyMediaEffect :: "string \<Rightarrow> int \<Rightarrow> Cmd" where
  "identifyMediaEffect path i = Request ((effect EffectIdentifyMedia)\<lparr>ErDevicePath := path, ErRequestID := i\<rparr>)"

definition ejectEffect :: "string \<Rightarrow> EjectRequest \<Rightarrow> Cmd" where
  "ejectEffect path r = Request ((effect EffectEject)\<lparr>ErDevicePath := path, ErEject := r\<rparr>)"

definition lookupHistoryEffect :: "string \<Rightarrow> int \<Rightarrow> Cmd" where
  "lookupHistoryEffect base i = Request ((effect EffectLookupHistory)\<lparr>ErBasePath := base, ErRequestID := i\<rparr>)"

definition inspectTargetEffect :: "string \<Rightarrow> int \<Rightarrow> Cmd" where
  "inspectTargetEffect path i = Request ((effect EffectInspectTarget)\<lparr>ErOutputPath := path, ErRequestID := i\<rparr>)"

definition findResumeJobsEffect :: "string \<Rightarrow> int \<Rightarrow> Cmd" where
  "findResumeJobsEffect base i = Request ((effect EffectFindResumeJobs)\<lparr>ErBasePath := base, ErRequestID := i\<rparr>)"

definition browseHistoryEffect :: "string \<Rightarrow> int \<Rightarrow> Cmd" where
  "browseHistoryEffect base i = Request ((effect EffectBrowseHistory)\<lparr>ErBasePath := base, ErRequestID := i\<rparr>)"

definition startJobEffect :: Cmd where "startJobEffect = Request (effect EffectStartJob)"

definition pauseJobEffect :: Cmd where "pauseJobEffect = Request (effect EffectPauseJob)"

definition resumeJobEffect :: Cmd where "resumeJobEffect = Request (effect EffectResumeJob)"

definition stopAfterCheckpointEffect :: Cmd where "stopAfterCheckpointEffect = Request (effect EffectStopJob)"

definition stopImmediatelyEffect :: Cmd where "stopImmediatelyEffect = Request (effect EffectStopNow)"

section \<open>Widgets\<close>

record ListItem =
  LiTitle :: string
  LiDetail :: string

record ('l, 'i, 'v, 's) Bubbles =
  BlNew :: "string \<Rightarrow> ListItem list \<Rightarrow> 'l"
  BlIndex :: "'l \<Rightarrow> int"
  BlItems :: "'l \<Rightarrow> ListItem list"
  BlSetItems :: "ListItem list \<Rightarrow> 'l \<Rightarrow> 'l"
  BlSetSize :: "int \<Rightarrow> int \<Rightarrow> 'l \<Rightarrow> 'l"
  BlUpdate :: "string \<Rightarrow> 'l \<Rightarrow> 'l"
  BiNew :: "nat \<Rightarrow> 'i"
  BiValue :: "'i \<Rightarrow> string"
  BiSetValue :: "string \<Rightarrow> 'i \<Rightarrow> 'i"
  BiFocus :: "'i \<Rightarrow> 'i"
  BiBlur :: "'i \<Rightarrow> 'i"
  BiSetWidth :: "int \<Rightarrow> 'i \<Rightarrow> 'i"
  BiUpdate :: "string \<Rightarrow> 'i \<Rightarrow> 'i"
  BvNew :: 'v
  BvSetContent :: "string \<Rightarrow> 'v \<Rightarrow> 'v"
  BvGotoTop :: "'v \<Rightarrow> 'v"
  BvSetWidth :: "int \<Rightarrow> 'v \<Rightarrow> 'v"
  BvSetHeight :: "int \<Rightarrow> 'v \<Rightarrow> 'v"
  BvUpdate :: "string \<Rightarrow> 'v \<Rightarrow> 'v"
  BsNew :: 's
  BsUpdate :: "'s \<Rightarrow> 's"

section \<open>The model\<close>

record ('l, 'i, 'v, 's) Model =
  MdPage :: Page
  MdPreviousPage :: Page
  MdWidth :: int
  MdHeight :: int
  MdDevices :: "DeviceSummary list"
  MdSelectedDrive :: DeviceSummary
  MdCursor :: int
  MdSetup :: JobSetupModel
  MdIdentity :: ContentIdentityViewModel
  MdMediaFileSystem :: string
  MdMediaVolumeLabel :: string
  MdMediaLogicalSectorSize :: u32
  MdMediaCapacitySectors :: u64
  MdMediaRecoverable :: bool
  MdMediaRecoverabilityNote :: string
  MdPriorView :: PriorProcessingViewModel
  MdPriorRecords :: "PriorProcessingRecord list"
  MdHistoryItems :: "ProcessedMediaViewModel list"
  MdResumeJobs :: "ResumableJobViewModel list"
  MdRecovery :: RecoveryViewModel
  MdSummary :: JobSummary
  MdDetailsLines :: "string list"
  MdDialog :: "DialogModel option"
  MdPendingEject :: EjectRequest
  MdNotice :: "NoticeModel option"
  MdLastError :: "AppError option"
  MdQuitting :: bool
  MdMonochrome :: bool
  MdDarkBackground :: bool
  MdNextRequestID :: int
  MdActiveDiscoveryRequest :: int
  MdPreserveEjectedDrive :: bool
  MdEjectedDrive :: DeviceSummary
  MdActiveMediaRequest :: int
  MdActiveLookupRequest :: int
  MdActiveTargetRequest :: int
  MdActiveResumeRequest :: int
  MdActiveHistoryRequest :: int
  MdDirectoryInput :: 'i
  MdFileNameInput :: 'i
  MdDetailsViewport :: 'v
  MdDriveList :: 'l
  MdActionList :: 'l
  MdResumeList :: 'l
  MdHistoryList :: 'l
  MdLoadingSpinner :: 's
  MdRestartLoadingSpinner :: bool

section \<open>Messages\<close>

record MediaIdentified =
  MiRequestID :: int
  MiIdentity :: ContentIdentityViewModel
  MiFileSystem :: string
  MiVolumeLabel :: string
  MiLogicalSectorSize :: u32
  MiCapacitySectors :: u64
  MiSuggestedOutputPath :: string
  MiRecoverable :: bool
  MiRecoverabilityNote :: string
  MiErr :: "AppError option"

record RecoveryTargetStatus =
  TsOutputPath :: string
  TsMapPath :: string
  TsCanStartNew :: bool
  TsCanResume :: bool
  TsRecoveredSectors :: u64
  TsDeferredSectors :: u64
  TsUnreadableSectors :: u64
  TsRequiredBytes :: u64
  TsAvailableBytes :: u64
  TsSpaceKnown :: bool
  TsDetail :: string

record JobStarted =
  StJobID :: string
  StOutputPath :: string
  StPhase :: string
  StStatus :: string
  StTotalSectors :: u64
  StScannedSectors :: u64
  StRecoveredSectors :: u64
  StDeferredSectors :: u64
  StUnreadableSectors :: u64

record JobPaused =
  PzOutputPath :: string
  PzMapPath :: string
  PzScannedSectors :: u64
  PzRecoveredSectors :: u64
  PzDeferredSectors :: u64
  PzTotalSectors :: u64
  PzUnreadableSectors :: u64

text \<open>A key is what the library calls it, an instant or a duration is its formatted text; of the
  result of an eject the application reads the detail. \<open>OtherMsg\<close> is any message of another type.\<close>

datatype Msg =
    WindowSizeMsg int int
  | KeyPressMsg string
  | SpinnerTickMsg
  | DevicesDiscoveredMsg int "DeviceSummary list" "AppError option"
  | MediaIdentifiedMsg MediaIdentified
  | PriorProcessingLookupMsg int PriorProcessingViewModel "PriorProcessingRecord list"
      "ResumableJobViewModel list" "AppError option"
  | ProcessedMediaDiscoveredMsg int "ProcessedMediaViewModel list" "AppError option"
  | RecoveryTargetInspectedMsg int RecoveryTargetStatus "AppError option"
  | ResumableJobsDiscoveredMsg int "ResumableJobViewModel list" "AppError option"
  | JobStartedMsg JobStarted
  | JobPausedMsg JobPaused
  | JobStartFailedMsg "AppError option"
  | ProgressMsg ProgressSnapshot
  | StatusMsg string Severity "AppError option" messageContext
  | JobCheckpointedMsg string
  | JobStoppedMsg JobSummary "AppError option"
  | WorkerUnresponsiveMsg string
  | FatalMsg "AppError option"
  | EjectCompletedMsg EjectRequest string "AppError option"
  | OtherMsg

end
