(* ===== verification/AppText.thy ===== *)
theory AppText
  imports GoStrings
begin

text \<open>
  Texts and sizes the application computes (\<^verbatim>\<open>internal/app\<close>: \<^verbatim>\<open>view_format.go\<close>,
  \<^verbatim>\<open>layout.go\<close>, \<^verbatim>\<open>path_helpers.go\<close>, \<^verbatim>\<open>runtime_recovery_poll.go\<close>).
\<close>

section \<open>Texts\<close>

fun firstNonEmpty :: "string list \<Rightarrow> string" where
  "firstNonEmpty [] = []"
| "firstNonEmpty (v # vs) = (if v \<noteq> [] then v else firstNonEmpty vs)"

definition replaceExtension :: "string \<Rightarrow> string \<Rightarrow> string" where
  "replaceExtension path extension =
     (if HasSuffix path ''.iso'' then TrimSuffix path ''.iso'' @ extension else path @ extension)"

function digit_groups :: "string \<Rightarrow> string list \<Rightarrow> string list" where
  "digit_groups plain groups =
     (if length plain > 3
      then digit_groups (take (length plain - 3) plain) (drop (length plain - 3) plain # groups)
      else plain # groups)"
  by auto
termination by (relation "measure (length \<circ> fst)") auto

declare digit_groups.simps [simp del]

definition formatCount :: "u64 \<Rightarrow> string" where
  "formatCount value =
     (let plain = itoa (unat value) in
      if length plain \<le> 3 then plain else strings_Join (digit_groups plain []) '','')"

section \<open>Byte counts\<close>

text \<open>The loop divides by 1024 until less than 1024 is left; the exponent counts the divisions.\<close>

function byte_unit :: "nat \<Rightarrow> nat \<Rightarrow> nat \<Rightarrow> nat \<times> nat" where
  "byte_unit n d e = (if 1024 \<le> n then byte_unit (n div 1024) (d * 1024) (Suc e) else (d, e))"
  by auto
termination by (relation "measure (\<lambda>(n, d, e). n)") auto

declare byte_unit.simps [simp del]

text \<open>\<^verbatim>\<open>float64\<close> of an integer keeps 53 bits, and \<^verbatim>\<open>%.1f\<close> writes the exact value with one
  decimal; both round to the nearest, ties to even. The division by a power of two is exact.\<close>

definition round_half_even :: "nat \<Rightarrow> nat \<Rightarrow> nat" where
  "round_half_even a b =
     (let q = a div b; r = a mod b in if b < 2 * r \<or> 2 * r = b \<and> odd q then q + 1 else q)"

fun bit_length :: "nat \<Rightarrow> nat" where
  "bit_length n = (if n = 0 then 0 else Suc (bit_length (n div 2)))"

declare bit_length.simps [simp del]

definition float64_of :: "nat \<Rightarrow> nat" where
  "float64_of n = (let e = bit_length n - 53 in round_half_even n (2 ^ e) * 2 ^ e)"

definition humanBytes :: "u64 \<Rightarrow> string" where
  "humanBytes value =
     (if unat value < 1024 then itoa (unat value) @ '' B''
      else let (d, e) = byte_unit (unat value div 1024) 1024 0;
               tenths = round_half_even (float64_of (unat value) * 10) d
           in itoa (tenths div 10) @ ''.'' @ itoa (tenths mod 10) @ '' '' @ [''KMGTPE'' ! e] @ ''iB'')"

section \<open>Durations\<close>

text \<open>Durations are nanoseconds. \<^verbatim>\<open>Round(time.Second)\<close> rounds halves up, and a whole number of
  seconds is written with its hours and minutes.\<close>

definition round_second :: "nat \<Rightarrow> nat" where
  "round_second ns =
     (let r = ns mod 1000000000 in
      if 2 * r < 1000000000 then ns div 1000000000 else ns div 1000000000 + 1)"

definition seconds_String :: "nat \<Rightarrow> string" where
  "seconds_String s =
     (if s < 60 then itoa s @ ''s''
      else if s < 3600 then itoa (s div 60) @ ''m'' @ itoa (s mod 60) @ ''s''
      else itoa (s div 3600) @ ''h'' @ itoa (s div 60 mod 60) @ ''m'' @ itoa (s mod 60) @ ''s'')"

definition elapsedLabel :: "nat \<Rightarrow> string" where
  "elapsedLabel elapsed =
     (if elapsed < 1000000000 then ''less than 1 second'' else seconds_String (round_second elapsed))"

text \<open>The estimate is \<open>None\<close> when it is not known.\<close>

definition telemetryETA :: "nat option \<Rightarrow> string" where
  "telemetryETA eta =
     (case eta of
        None \<Rightarrow> []
      | Some t \<Rightarrow>
        if t = 0 then [] else if t < 1000000000 then ''less than 1 second left''
        else ''about '' @ seconds_String (round_second t) @ '' left'')"

text \<open>The rate is \<open>None\<close> when it is not positive, and otherwise truncated to whole bytes.\<close>

definition telemetryThroughput :: "u64 option \<Rightarrow> string" where
  "telemetryThroughput rate = (case rate of None \<Rightarrow> [] | Some r \<Rightarrow> humanBytes r @ ''/s'')"

section \<open>Layout\<close>

datatype layoutTier = layoutFull | layoutMedium | layoutCompact | layoutTooSmall

definition layoutTierFor :: "int \<Rightarrow> int \<Rightarrow> layoutTier" where
  "layoutTierFor width height =
     (if 0 < width \<and> 0 < height then
        (if width < 40 \<or> height < 12 then layoutTooSmall
         else if width < 60 \<or> height < 18 then layoutCompact
         else if width < 80 \<or> height < 24 then layoutMedium
         else layoutFull)
      else layoutFull)"

definition shellOuterWidth :: "int \<Rightarrow> int" where
  "shellOuterWidth width =
     (if width \<le> 0 then 80
      else let outer = (if 110 < width - 4 then 110 else width - 4) in
      if outer < 40 then width else outer)"

definition contentWidth :: "int \<Rightarrow> int" where
  "contentWidth width =
     (if width \<le> 0 then 74
      else let v = (if width < 60 then width - 4 else shellOuterWidth width - 6);
               v1 = (if v < 24 then 24 else v)
           in if 104 < v1 then 104 else v1)"

record Layout =
  LyWidth :: int
  LyHeight :: int
  LyTier :: layoutTier

definition layoutFor :: "int \<Rightarrow> int \<Rightarrow> Layout" where
  "layoutFor width height =
     \<lparr>LyWidth = contentWidth width, LyHeight = (if height - 9 < 1 then 1 else height - 9),
      LyTier = layoutTierFor width height\<rparr>"

definition interactiveWidth :: "int \<Rightarrow> int" where
  "interactiveWidth width = (let v = contentWidth width - 4 in if v < 16 then 16 else v)"

definition clampIndex :: "int \<Rightarrow> int \<Rightarrow> int" where
  "clampIndex index len = (if len \<le> 0 \<or> index < 0 then 0 else if len \<le> index then len - 1 else index)"

end
