(* ===== verification/AppUpdate.thy ===== *)
theory AppUpdate
  imports AppModel AppText
begin

text \<open>
  What the handlers of the application share (\<^verbatim>\<open>internal/app\<close>: \<^verbatim>\<open>update_output.go\<close>,
  \<^verbatim>\<open>keys.go\<close>, \<^verbatim>\<open>components.go\<close>, the details of \<^verbatim>\<open>update_recovery.go\<close>) and the model a program
  starts with (\<^verbatim>\<open>model.go\<close>).
\<close>

section \<open>Updating parts of the model\<close>

definition setup_with :: "(JobSetupModel \<Rightarrow> JobSetupModel) \<Rightarrow> ('l, 'i, 'v, 's) Model \<Rightarrow> ('l, 'i, 'v, 's) Model" where
  "setup_with f m = m\<lparr>MdSetup := f (MdSetup m)\<rparr>"

definition recovery_with :: "(RecoveryViewModel \<Rightarrow> RecoveryViewModel) \<Rightarrow> ('l, 'i, 'v, 's) Model \<Rightarrow> ('l, 'i, 'v, 's) Model" where
  "recovery_with f m = m\<lparr>MdRecovery := f (MdRecovery m)\<rparr>"

definition with_notice :: "string \<Rightarrow> Severity \<Rightarrow> ('l, 'i, 'v, 's) Model \<Rightarrow> ('l, 'i, 'v, 's) Model" where
  "with_notice t sev m = m\<lparr>MdNotice := Some (plain_notice t sev)\<rparr>"

definition go_to :: "Page \<Rightarrow> int \<Rightarrow> ('l, 'i, 'v, 's) Model \<Rightarrow> ('l, 'i, 'v, 's) Model" where
  "go_to p c m = m\<lparr>MdPage := p, MdCursor := c\<rparr>"

text \<open>An element of a slice, \<open>None\<close> out of range.\<close>

definition at_index :: "'a list \<Rightarrow> int \<Rightarrow> 'a option" where
  "at_index xs i = (if 0 \<le> i \<and> i < int (length xs) then Some (xs ! nat i) else None)"

definition next_request :: "('l, 'i, 'v, 's) Model \<Rightarrow> int" where
  "next_request m = (if MdNextRequestID m = 0 then 1 else MdNextRequestID m)"

definition take_request :: "('l, 'i, 'v, 's) Model \<Rightarrow> ('l, 'i, 'v, 's) Model" where
  "take_request m = m\<lparr>MdNextRequestID := next_request m + 1\<rparr>"

definition setErrorNotice :: "messageContext \<Rightarrow> AppError \<Rightarrow> ('l, 'i, 'v, 's) Model \<Rightarrow> ('l, 'i, 'v, 's) Model" where
  "setErrorNotice c e m =
     (let m1 = m\<lparr>MdLastError := Some e, MdNotice := Some (errorNotice c e)\<rparr> in
      if NmTechnicalDetail (errorNotice c e) \<noteq> []
      then m1\<lparr>MdDetailsLines := [''Technical details'', [], NmTechnicalDetail (errorNotice c e)]\<rparr> else m1)"

definition noticeHasTechnicalDetail :: "('l, 'i, 'v, 's) Model \<Rightarrow> bool" where
  "noticeHasTechnicalDetail m =
     (case MdNotice m of None \<Rightarrow> False | Some n \<Rightarrow> TrimSpace (NmTechnicalDetail n) \<noteq> [])"

section \<open>Keys\<close>

record KeyMap =
  KeyUp :: "string list"
  KeyDown :: "string list"
  KeySelect :: "string list"
  KeyBack :: "string list"
  KeyQuit :: "string list"
  KeyDetails :: "string list"
  KeyAdvanced :: "string list"
  KeyPause :: "string list"
  KeyForce :: "string list"
  KeyRefresh :: "string list"
  KeyEject :: "string list"
  KeyForceEject :: "string list"

definition DefaultKeys :: KeyMap where
  "DefaultKeys = \<lparr>KeyUp = [''up'', ''k''], KeyDown = [''down'', ''j''], KeySelect = [''enter''], KeyBack = [''esc''],
     KeyQuit = [''q''], KeyDetails = [''d''], KeyAdvanced = [''a''], KeyPause = [''space''],
     KeyForce = [''x'', ''ctrl+c''], KeyRefresh = [''r''], KeyEject = [''e''], KeyForceEject = [''f'']\<rparr>"

definition matchesKey :: "string \<Rightarrow> string list \<Rightarrow> bool" where
  "matchesKey key options \<longleftrightarrow> key \<in> set options"

section \<open>Output paths\<close>

definition syncOutputPath :: "JobSetupModel \<Rightarrow> JobSetupModel" where
  "syncOutputPath s =
     (let directory = TrimSpace (SuOutputDirectory s); fileName = TrimSpace (SuOutputFileName s) in
      s\<lparr>SuOutputPath :=
        (if directory = [] \<and> fileName = [] then ''Not chosen yet''
         else if directory = [] then fileName
         else if fileName = [] then filepath_Clean directory
         else filepath_Join directory fileName)\<rparr>)"

definition splitOutputPath :: "string \<Rightarrow> string \<times> string" where
  "splitOutputPath p =
     (let fullPath = TrimSpace p in
      if fullPath = [] \<or> fullPath = ''Not chosen yet'' then (''.'', [])
      else let directory = filepath_Dir fullPath; fileName = filepath_Base fullPath in
        (if directory = [] then ''.'' else directory,
         if fileName = ''.'' \<or> fileName = [slash] then [] else fileName))"

definition applyOutputPath :: "string \<Rightarrow> JobSetupModel \<Rightarrow> JobSetupModel" where
  "applyOutputPath fullPath s =
     syncOutputPath (s\<lparr>SuOutputDirectory := fst (splitOutputPath fullPath),
       SuOutputFileName := snd (splitOutputPath fullPath)\<rparr>)"

definition clearResumeTargetState :: "JobSetupModel \<Rightarrow> JobSetupModel" where
  "clearResumeTargetState s = s\<lparr>SuResumeReady := False, SuResumeMapPath := [], SuResumeDetail := [],
     SuActionLabel := ''Start a new recovery'',
     SuFreeSpace := ''Check the selected target to see free space and required size''\<rparr>"

definition syncOutputInputs :: "('l, 'i, 'v, 's) Bubbles \<Rightarrow> ('l, 'i, 'v, 's) Model \<Rightarrow> ('l, 'i, 'v, 's) Model" where
  "syncOutputInputs B m = m\<lparr>
     MdDirectoryInput := BiSetValue B (SuOutputDirectory (MdSetup m)) (MdDirectoryInput m),
     MdFileNameInput := BiSetValue B (SuOutputFileName (MdSetup m)) (MdFileNameInput m)\<rparr>"

definition syncOutputValues :: "('l, 'i, 'v, 's) Bubbles \<Rightarrow> ('l, 'i, 'v, 's) Model \<Rightarrow> ('l, 'i, 'v, 's) Model" where
  "syncOutputValues B m = setup_with (\<lambda>s. syncOutputPath (s\<lparr>
     SuOutputDirectory := BiValue B (MdDirectoryInput m), SuOutputFileName := BiValue B (MdFileNameInput m)\<rparr>)) m"

definition blurOutputInputs :: "('l, 'i, 'v, 's) Bubbles \<Rightarrow> ('l, 'i, 'v, 's) Model \<Rightarrow> ('l, 'i, 'v, 's) Model" where
  "blurOutputInputs B m = m\<lparr>MdDirectoryInput := BiBlur B (MdDirectoryInput m),
     MdFileNameInput := BiBlur B (MdFileNameInput m)\<rparr>"

section \<open>Details\<close>

definition recoveryDetailsStatusLine :: "('l, 'i, 'v, 's) Model \<Rightarrow> string" where
  "recoveryDetailsStatusLine m =
     (if MdPage m = PagePausing \<or> RvPausePending (MdRecovery m)
      then ''Pause requested. Waiting for the current drive request to finish safely.''
      else if MdPage m = PageSummary \<and> SmNextAction (MdSummary m) \<noteq> [] then SmNextAction (MdSummary m)
      else firstNonEmpty [RvStatus (MdRecovery m), ''Waiting to start''])"

definition labelled :: "string \<Rightarrow> string \<Rightarrow> string list" where
  "labelled l v = (if v \<noteq> [] then [l @ v] else [])"

definition buildRecoveryDetails :: "('l, 'i, 'v, 's) Model \<Rightarrow> string list" where
  "buildRecoveryDetails m =
     (let r = MdRecovery m; output = firstNonEmpty [RvOutputPath r, SuOutputPath (MdSetup m)] in
      [''Drive: '' @ firstNonEmpty [DsDisplayName (MdSelectedDrive m), DsPath (MdSelectedDrive m), ''not selected''],
       ''Media: '' @ firstNonEmpty [CiDetail (MdIdentity m), ''not identified''],
       ''Output: '' @ output,
       ''Map: '' @ firstNonEmpty [SuResumeMapPath (MdSetup m), replaceExtension output ''.drmap''],
       ''Phase: '' @ firstNonEmpty [RvPhase r, ''Waiting to start''],
       ''Recovered sectors: '' @ formatCount (RvRecoveredSectors r),
       ''Unreadable sectors: '' @ formatCount (RvUnreadableSectors r)] @
      labelled ''Remaining: '' (RvRemaining r) @ labelled ''Elapsed: '' (RvElapsed r) @
      labelled ''ETA: '' (RvETA r) @ labelled ''Rate: '' (RvThroughput r) @
      [''Status: '' @ recoveryDetailsStatusLine m] @ RvLastIssue r)"

definition buildSummaryDetails :: "('l, 'i, 'v, 's) Model \<Rightarrow> JobSummary \<Rightarrow> AppError option \<Rightarrow> string list" where
  "buildSummaryDetails m summary err =
     [''Drive: '' @ firstNonEmpty [DsDisplayName (MdSelectedDrive m), DsPath (MdSelectedDrive m), ''not selected''],
      ''Media: '' @ firstNonEmpty [CiDetail (MdIdentity m), ''not identified''],
      ''Image: '' @ SmImagePath summary] @
     labelled ''Map: '' (SmMapPath summary) @
     (case err of Some e \<Rightarrow> [''Error: '' @ AeText e]
      | None \<Rightarrow> labelled ''Next step: '' (SmNextAction summary))"

definition buildProcessedMediaDetails :: "ProcessedMediaViewModel \<Rightarrow> string list" where
  "buildProcessedMediaDetails i =
     [''Image: '' @ PmImagePath i, ''Status: '' @ PmStatus i] @ labelled ''Map: '' (PmMapPath i) @
     labelled ''Updated: '' (PmModifiedAt i) @ labelled ''Notes: '' (PmDetail i)"

definition detailsLinesForView :: "('l, 'i, 'v, 's) Model \<Rightarrow> string list" where
  "detailsLinesForView m =
     (if MdPreviousPage m = PageHistory \<and> MdPage m = PageDetails then MdDetailsLines m
      else let page = (if MdPage m = PageDetails then MdPreviousPage m else MdPage m) in
      if page \<in> {PageRecovering, PagePausing, PagePaused} then buildRecoveryDetails m
      else if page = PageSummary then buildSummaryDetails m (MdSummary m) (MdLastError m)
      else MdDetailsLines m)"

definition syncDetailsViewport :: "('l, 'i, 'v, 's) Bubbles \<Rightarrow> ('l, 'i, 'v, 's) Model \<Rightarrow> ('l, 'i, 'v, 's) Model" where
  "syncDetailsViewport B m = m\<lparr>MdDetailsViewport :=
     BvGotoTop B (BvSetContent B (strings_Join (detailsLinesForView m) [CHR 0x0A]) (MdDetailsViewport m))\<rparr>"

definition updateDetailsKey :: "('l, 'i, 'v, 's) Bubbles \<Rightarrow> string \<Rightarrow> ('l, 'i, 'v, 's) Model \<Rightarrow> ('l, 'i, 'v, 's) Model \<times> Cmd" where
  "updateDetailsKey B k m = (m\<lparr>MdDetailsViewport :=
     BvUpdate B k (BvSetContent B (strings_Join (detailsLinesForView m) [CHR 0x0A]) (MdDetailsViewport m))\<rparr>, WidgetCmd)"

definition open_details :: "('l, 'i, 'v, 's) Bubbles \<Rightarrow> ('l, 'i, 'v, 's) Model \<Rightarrow> ('l, 'i, 'v, 's) Model" where
  "open_details B m = syncDetailsViewport B (m\<lparr>MdPreviousPage := MdPage m, MdPage := PageDetails\<rparr>)"

section \<open>Lists\<close>

text \<open>The bytes of the middle dot.\<close>

definition driveItems :: "DeviceSummary list \<Rightarrow> ListItem list" where
  "driveItems ds = map (\<lambda>d. \<lparr>LiTitle = DsDisplayName d,
     LiDetail = DsPath d @ '' '' @ [CHR 0xC2, CHR 0xB7] @ '' '' @ DsStatus d\<rparr>) ds"

definition recoveryActionItems :: "ListItem list" where
  "recoveryActionItems =
     [\<lparr>LiTitle = ''Start a new recovery'', LiDetail = ''Create a new image and durable recovery map.''\<rparr>,
      \<lparr>LiTitle = ''Resume an unfinished recovery'', LiDetail = ''Continue safely from matching saved work.''\<rparr>,
      \<lparr>LiTitle = ''Browse processed media'', LiDetail = ''Inspect images and maps in the output folder.''\<rparr>,
      \<lparr>LiTitle = ''Choose another drive'', LiDetail = ''Return to the optical-drive list.''\<rparr>]"

definition resumeItems :: "ResumableJobViewModel list \<Rightarrow> ListItem list" where
  "resumeItems jobs = map (\<lambda>j. \<lparr>LiTitle = RjOutputPath j, LiDetail = RjDetail j\<rparr>) jobs @
     [\<lparr>LiTitle = ''Back'', LiDetail = []\<rparr>]"

definition historyItems :: "ProcessedMediaViewModel list \<Rightarrow> ListItem list" where
  "historyItems items = map (\<lambda>i. \<lparr>LiTitle = PmTitle i, LiDetail = PmStatus i\<rparr>) items @
     [\<lparr>LiTitle = ''Back'', LiDetail = []\<rparr>]"

definition resize_list :: "('l, 'i, 'v, 's) Bubbles \<Rightarrow> int \<Rightarrow> int \<Rightarrow> 'l \<Rightarrow> 'l" where
  "resize_list B width available l =
     (if width < 1 then l
      else let items = BlItems B l; avail = (if available < 1 then 1 else available) in
      if items = [] then BlSetSize B width 1 l
      else let rowHeight = (if LiDetail (hd items) \<noteq> [] then 2 else 1);
               height = int (length items) * rowHeight
           in BlSetSize B width (if avail < height then avail else height) l)"

definition newCompactList :: "('l, 'i, 'v, 's) Bubbles \<Rightarrow> string \<Rightarrow> ListItem list \<Rightarrow> 'l" where
  "newCompactList B title items = BlNew B title items"

section \<open>A new model\<close>

definition NewModel :: "('l, 'i, 'v, 's) Bubbles \<Rightarrow> ('l, 'i, 'v, 's) Model" where
  "NewModel B = \<lparr>MdPage = PageDiscover, MdPreviousPage = PageDiscover, MdWidth = 0, MdHeight = 0, MdDevices = [],
     MdSelectedDrive = no_device, MdCursor = 0,
     MdSetup = \<lparr>SuActionLabel = ''Start a new recovery'', SuOutputPath = ''Not chosen yet'',
       SuOutputDirectory = ''.'', SuOutputFileName = [], SuActiveOutputField = OutputFieldFileName,
       SuOutputEditing = False, SuDefaultPath = ''Not chosen yet'', SuOutputFormat = ''ISO'',
       SuFreeSpace = ''Unknown until an output location is selected'', SuMethodLabel = ''Balanced recovery'',
       SuMethod = RecoveryMethodBalanced, SuRetryUnresolved = False, SuReadSpeed = DefaultReadSpeedRequest,
       SuCopyLabel = ''Not set (optional)'', SuResumeReady = False, SuResumeMapPath = [], SuResumeDetail = []\<rparr>,
     MdIdentity = \<lparr>CiSummary = ''Finding usable optical drives.'', CiDetail = ''Waiting for discovery results.'',
       CiEvidence = [], CiIdentityStatus = [], CiAutoResumeReady = False\<rparr>,
     MdMediaFileSystem = [], MdMediaVolumeLabel = [], MdMediaLogicalSectorSize = 0, MdMediaCapacitySectors = 0,
     MdMediaRecoverable = False, MdMediaRecoverabilityNote = [],
     MdPriorView = prior_view PriorProcessingNone ''History lookup is unavailable in this build.'',
     MdPriorRecords = [], MdHistoryItems = [], MdResumeJobs = [],
     MdRecovery = \<lparr>RvPhase = ''Waiting to start'', RvScannedSectors = 0, RvRecoveredSectors = 0,
       RvDeferredSectors = 0, RvTotalSectors = 0, RvUnreadableSectors = 0, RvStatus = ''No active job.'',
       RvOutputPath = ''Not chosen yet'', RvElapsed = [], RvRemaining = [], RvETA = [], RvThroughput = [],
       RvLastIssue = [], RvPausePending = False, RvStopPending = False, RvForceStopAvailable = False\<rparr>,
     MdSummary = no_summary,
     MdDetailsLines = [''Drive: not selected'', ''Media: not identified'', ''Worker: idle''],
     MdDialog = None, MdPendingEject = no_eject,
     MdNotice = Some (plain_notice ''Finding usable optical drives.'' SeverityInfo), MdLastError = None,
     MdQuitting = False, MdMonochrome = False, MdDarkBackground = True, MdNextRequestID = 2,
     MdActiveDiscoveryRequest = 1, MdPreserveEjectedDrive = False, MdEjectedDrive = no_device,
     MdActiveMediaRequest = 0, MdActiveLookupRequest = 0, MdActiveTargetRequest = 0, MdActiveResumeRequest = 0,
     MdActiveHistoryRequest = 0, MdDirectoryInput = BiSetValue B ''.'' (BiNew B 4096), MdFileNameInput = BiNew B 255,
     MdDetailsViewport = BvNew B, MdDriveList = newCompactList B ''Choose a drive'' [],
     MdActionList = newCompactList B ''What do you want to do?'' recoveryActionItems,
     MdResumeList = newCompactList B ''Resume unfinished recovery'' [],
     MdHistoryList = newCompactList B ''Browse processed media'' [],
     MdLoadingSpinner = BsNew B, MdRestartLoadingSpinner = False\<rparr>"

end
