(* ===== verification/AppNavigation.thy ===== *)
theory AppNavigation
  imports AppUpdate
begin

text \<open>
  What the keys do (\<^verbatim>\<open>internal/app\<close>: \<^verbatim>\<open>update_navigation.go\<close>, \<^verbatim>\<open>update_input.go\<close>,
  the keys of \<^verbatim>\<open>update_output.go\<close>, \<^verbatim>\<open>update_drive.go\<close>). A handler is \<open>None\<close> where an index is
  out of range and the program panics.
\<close>

type_synonym ('l, 'i, 'v, 's) update = "('l, 'i, 'v, 's) Model \<Rightarrow> (('l, 'i, 'v, 's) Model \<times> Cmd) option"

abbreviation (input) stay :: "('l, 'i, 'v, 's) Model \<Rightarrow> (('l, 'i, 'v, 's) Model \<times> Cmd) option" where
  "stay m \<equiv> Some (m, NoCmd)"

section \<open>Cursor\<close>

definition summaryRetryActionLabel :: "('l, 'i, 'v, 's) Model \<Rightarrow> string" where
  "summaryRetryActionLabel m =
     (if 0 < RvDeferredSectors (MdRecovery m) \<and> 0 < RvUnreadableSectors (MdRecovery m) then ''Retry unresolved sectors''
      else if 0 < RvDeferredSectors (MdRecovery m) then ''Retry deferred sectors''
      else if 0 < RvUnreadableSectors (MdRecovery m) then ''Retry unreadable sectors'' else [])"

definition summaryOptions :: "('l, 'i, 'v, 's) Model \<Rightarrow> string list" where
  "summaryOptions m =
     (if summaryRetryActionLabel m \<noteq> [] then [summaryRetryActionLabel m] else []) @ [''Exit'', ''Choose another drive'']"

definition cursorLimit :: "('l, 'i, 'v, 's) Model \<Rightarrow> int" where
  "cursorLimit m =
     (case MdPage m of
        PageChooseDrive \<Rightarrow> int (length (MdDevices m))
      | PageChooseAction \<Rightarrow> 4
      | PagePriorProcessing \<Rightarrow> int (length (PvOptions (MdPriorView m)))
      | PageReview \<Rightarrow> 4
      | PageResumeJobs \<Rightarrow> int (length (MdResumeJobs m)) + 1
      | PageHistory \<Rightarrow> int (length (MdHistoryItems m)) + 1
      | PagePaused \<Rightarrow> 2
      | PageChooseOutput \<Rightarrow> 3
      | PagePausing \<Rightarrow> 0
      | PageStopConfirm \<Rightarrow> 2
      | PageEjectConfirm \<Rightarrow> 2
      | PageSummary \<Rightarrow> int (length (summaryOptions m))
      | _ \<Rightarrow> 0)"

definition moveCursor :: "int \<Rightarrow> ('l, 'i, 'v, 's) Model \<Rightarrow> ('l, 'i, 'v, 's) Model" where
  "moveCursor delta m =
     (let limit = cursorLimit m in
      if limit = 0 then m\<lparr>MdCursor := 0\<rparr>
      else let c = MdCursor m + delta; c1 = (if c < 0 then 0 else c)
           in m\<lparr>MdCursor := (if limit \<le> c1 then limit - 1 else c1)\<rparr>)"

section \<open>Drives\<close>

definition ejectTargetDrive :: "('l, 'i, 'v, 's) Model \<Rightarrow> DeviceSummary" where
  "ejectTargetDrive m =
     (if DsPath (MdSelectedDrive m) \<noteq> [] then MdSelectedDrive m
      else (case at_index (MdDevices m) (MdCursor m) of Some d \<Rightarrow> d | None \<Rightarrow> no_device))"

definition beginDiscovery :: "('l, 'i, 'v, 's) Model \<Rightarrow> ('l, 'i, 'v, 's) Model \<times> Cmd" where
  "beginDiscovery m =
     (let m1 = with_notice ''Finding usable optical drives.'' SeverityInfo
            (m\<lparr>MdPage := PageDiscover, MdRestartLoadingSpinner := True, MdLastError := None\<rparr>);
          i = next_request m1
      in ((take_request m1)\<lparr>MdActiveDiscoveryRequest := i, MdActiveMediaRequest := 0\<rparr>, discoverDevicesEffect i))"

section \<open>Going back\<close>

definition leave_stop_confirm :: "('l, 'i, 'v, 's) Model \<Rightarrow> ('l, 'i, 'v, 's) Model" where
  "leave_stop_confirm m =
     go_to (if MdPreviousPage m = PagePaused then PagePaused
            else if MdPreviousPage m = PagePausing then PagePausing else PageRecovering) 0 m"

definition handleBack :: "('l, 'i, 'v, 's) Model \<Rightarrow> ('l, 'i, 'v, 's) Model \<times> Cmd" where
  "handleBack m =
     ((if MdPage m \<in> {PageDetails, PageAdvanced, PageAbout, PageHistory, PageResumeJobs} then
         (if MdPreviousPage m \<noteq> PageDiscover \<or> MdPage m = PageDetails
          then m\<lparr>MdPage := MdPreviousPage m, MdPreviousPage := PageDiscover\<rparr> else m)
       else (case MdPage m of
           PageStopConfirm \<Rightarrow> leave_stop_confirm m
         | PageEjectConfirm \<Rightarrow> (go_to PageChooseDrive 0 m)\<lparr>MdPendingEject := no_eject\<rparr>
         | PageChooseAction \<Rightarrow> m\<lparr>MdPage := PageChooseDrive\<rparr>
         | PageChooseOutput \<Rightarrow> setup_with (\<lambda>s. s\<lparr>SuOutputEditing := False\<rparr>)
             (if MdPreviousPage m \<noteq> PageDiscover
              then m\<lparr>MdPage := MdPreviousPage m, MdPreviousPage := PageDiscover\<rparr>
              else m\<lparr>MdPage := PageChooseAction\<rparr>)
         | PageReview \<Rightarrow> setup_with (\<lambda>s. s\<lparr>SuOutputEditing := False\<rparr>) (go_to PageChooseOutput 2 m)
         | PagePriorProcessing \<Rightarrow> m\<lparr>MdPage := PageChooseDrive\<rparr>
         | PageInspectingMedia \<Rightarrow> m\<lparr>MdActiveMediaRequest := 0, MdPage := PageChooseDrive\<rparr>
         | PageSummary \<Rightarrow> go_to PageChooseAction 0 m
         | _ \<Rightarrow> m)), NoCmd)"

section \<open>Selecting\<close>

definition select_drive :: "('l, 'i, 'v, 's) update" where
  "select_drive m =
     (if MdDevices m = [] then stay m
      else (case at_index (MdDevices m) (MdCursor m) of
          None \<Rightarrow> None
        | Some selected \<Rightarrow>
          let m1 = m\<lparr>MdSelectedDrive := selected, MdPage := PageInspectingMedia, MdRestartLoadingSpinner := True,
                MdIdentity := (MdIdentity m)\<lparr>
                  CiSummary := ''Identifying logical contents for '' @ DsDisplayName selected,
                  CiDetail := DsPath selected\<rparr>\<rparr>;
              i = next_request m1
          in Some ((take_request m1)\<lparr>MdActiveMediaRequest := i\<rparr>, identifyMediaEffect (DsPath selected) i)))"

definition select_inspecting :: "('l, 'i, 'v, 's) update" where
  "select_inspecting m =
     (if DsPath (MdSelectedDrive m) = [] then stay m
      else let i = next_request m in
      Some ((with_notice ''Inspecting the selected media.'' SeverityInfo (take_request m))\<lparr>
        MdActiveMediaRequest := i, MdRestartLoadingSpinner := True\<rparr>,
        identifyMediaEffect (DsPath (MdSelectedDrive m)) i))"

definition resume_selected :: "ResumableJobViewModel \<Rightarrow> ('l, 'i, 'v, 's) Model \<Rightarrow> ('l, 'i, 'v, 's) Model" where
  "resume_selected j m =
     with_notice (RjDetail j) SeverityInfo (go_to PageReview 0
       (setup_with (\<lambda>s. (applyOutputPath (RjOutputPath j) s)\<lparr>SuResumeReady := True,
          SuResumeMapPath := RjMapPath j, SuResumeDetail := RjDetail j, SuActionLabel := ''Resume recovery''\<rparr>) m))"

definition select_prior :: "('l, 'i, 'v, 's) update" where
  "select_prior m =
     (if PvKind (MdPriorView m) \<in> {PriorProcessingStrongCompleted, PriorProcessingStrongResumable, PriorProcessingProbable} then
        (if MdCursor m = 0 then
           (if PvKind (MdPriorView m) = PriorProcessingStrongResumable \<and> MdResumeJobs m \<noteq> [] then
              (if length (MdResumeJobs m) = 1 then stay (resume_selected (hd (MdResumeJobs m)) m)
               else stay (with_notice ''Choose a saved recovery to resume safely.'' SeverityInfo (go_to PageResumeJobs 0 m)))
            else stay (go_to PageChooseAction 0 m))
         else if MdCursor m = 1 then stay (go_to PageChooseAction 0 m)
         else if MdCursor m = int (length (PvOptions (MdPriorView m))) - 1 then stay (go_to PageChooseDrive 0 m)
         else stay (go_to PageChooseAction 0 m))
      else stay (go_to PageChooseAction 0 m))"

definition unrecoverable_notice :: "('l, 'i, 'v, 's) Model \<Rightarrow> ('l, 'i, 'v, 's) Model" where
  "unrecoverable_notice m = with_notice
     (firstNonEmpty [MdMediaRecoverabilityNote m, ''This disc cannot be recovered by the current build.'']) SeverityWarning m"

definition output_folder :: "('l, 'i, 'v, 's) Model \<Rightarrow> string" where
  "output_folder m = firstNonEmpty [TrimSpace (SuOutputDirectory (MdSetup m)), ''.'']"

definition select_action :: "('l, 'i, 'v, 's) update" where
  "select_action m =
     (if MdCursor m = 0 then
        (if \<not> MdMediaRecoverable m then stay (unrecoverable_notice m)
         else
           let m1 = setup_with (\<lambda>s.
                 let s1 = s\<lparr>SuActionLabel := ''Start a new recovery'', SuResumeReady := False,
                       SuResumeMapPath := [], SuResumeDetail := []\<rparr>
                 in if TrimSpace (SuOutputPath s1) = [] \<or> SuOutputPath s1 = ''Not chosen yet''
                    then applyOutputPath ''discrescue.iso'' s1 else s1) m;
               m2 = setup_with (\<lambda>s. s\<lparr>SuOutputEditing := False\<rparr>)
                 ((go_to PageChooseOutput 2 m1)\<lparr>MdPreviousPage := PageChooseAction\<rparr>);
               i = next_request m2
           in Some (with_notice ''Checking the suggested output path.'' SeverityInfo
                ((take_request m2)\<lparr>MdActiveTargetRequest := i\<rparr>), inspectTargetEffect (SuOutputPath (MdSetup m2)) i))
      else if MdCursor m = 1 then
        (if \<not> MdMediaRecoverable m then stay (unrecoverable_notice m)
         else let i = next_request m in
           Some (with_notice ''Checking the current output folder for resumable recoveries.'' SeverityInfo
             (go_to PageResumeJobs 0 ((take_request m)\<lparr>MdActiveResumeRequest := i, MdResumeJobs := []\<rparr>)),
             findResumeJobsEffect (output_folder m) i))
      else if MdCursor m = 2 then
        (let i = next_request m in
         Some (with_notice ''Scanning the current output folder for processed media.'' SeverityInfo
           (go_to PageHistory 0 ((take_request m)\<lparr>MdActiveHistoryRequest := i, MdHistoryItems := []\<rparr>)),
           browseHistoryEffect (output_folder m) i))
      else if MdCursor m = 3
      then stay (with_notice ''Choose one optical drive.'' SeverityInfo (go_to PageChooseDrive 0 m))
      else stay m)"

definition select_output :: "('l, 'i, 'v, 's) Bubbles \<Rightarrow> ('l, 'i, 'v, 's) update" where
  "select_output B m =
     (if MdCursor m = 0 then
        (let m1 = syncOutputInputs B (setup_with (\<lambda>s. s\<lparr>SuActiveOutputField := OutputFieldDirectory, SuOutputEditing := True\<rparr>) m)
         in stay (with_notice ''Editing the output folder.'' SeverityInfo
              (m1\<lparr>MdDirectoryInput := BiFocus B (MdDirectoryInput m1)\<rparr>)))
      else if MdCursor m = 1 then
        (let m1 = syncOutputInputs B (setup_with (\<lambda>s. s\<lparr>SuActiveOutputField := OutputFieldFileName, SuOutputEditing := True\<rparr>) m)
         in stay (with_notice ''Editing the output file name.'' SeverityInfo
              (m1\<lparr>MdFileNameInput := BiFocus B (MdFileNameInput m1)\<rparr>)))
      else let i = next_request m in
        Some (with_notice ''Checking the selected output path.'' SeverityInfo
          (setup_with (\<lambda>s. s\<lparr>SuOutputEditing := False\<rparr>) ((take_request m)\<lparr>MdActiveTargetRequest := i\<rparr>)),
          inspectTargetEffect (SuOutputPath (MdSetup m)) i))"

definition nextRecoveryMethod :: "RecoveryMethod \<Rightarrow> RecoveryMethod \<times> string" where
  "nextRecoveryMethod current =
     (case current of
        RecoveryMethodBalanced \<Rightarrow> (RecoveryMethodFast, ''Fast recovery'')
      | RecoveryMethodFast \<Rightarrow> (RecoveryMethodGentle, ''Gentle recovery'')
      | _ \<Rightarrow> (RecoveryMethodBalanced, ''Balanced recovery''))"

definition select_review :: "('l, 'i, 'v, 's) update" where
  "select_review m =
     (if MdCursor m = 0 then Some (m, startJobEffect)
      else if MdCursor m = 1 then
        (let (method, label) = nextRecoveryMethod (SuMethod (MdSetup m)) in
         stay (with_notice (''Recovery method changed to '' @ label @ ''.'') SeverityInfo
           (setup_with (\<lambda>s. s\<lparr>SuMethod := method, SuMethodLabel := label\<rparr>) m)))
      else if MdCursor m = 2 then
        stay (setup_with (\<lambda>s. s\<lparr>SuOutputEditing := False\<rparr>) ((go_to PageChooseOutput 2 m)\<lparr>MdPreviousPage := PageReview\<rparr>))
      else if MdCursor m = 3
      then stay (with_notice ''Choose one optical drive.'' SeverityInfo (go_to PageChooseDrive 0 m))
      else stay m)"

definition select_resume :: "('l, 'i, 'v, 's) update" where
  "select_resume m =
     (if MdResumeJobs m = [] \<or> int (length (MdResumeJobs m)) \<le> MdCursor m then stay (go_to PageChooseAction 0 m)
      else (case at_index (MdResumeJobs m) (MdCursor m) of
          None \<Rightarrow> None | Some selected \<Rightarrow> stay (resume_selected selected m)))"

definition select_history :: "('l, 'i, 'v, 's) Bubbles \<Rightarrow> ('l, 'i, 'v, 's) update" where
  "select_history B m =
     (if MdHistoryItems m = [] \<or> int (length (MdHistoryItems m)) \<le> MdCursor m then stay (go_to PageChooseAction 0 m)
      else (case at_index (MdHistoryItems m) (MdCursor m) of
          None \<Rightarrow> None
        | Some selected \<Rightarrow> stay (syncDetailsViewport B (m\<lparr>MdPreviousPage := PageHistory,
            MdDetailsLines := buildProcessedMediaDetails selected, MdPage := PageDetails\<rparr>))))"

definition select_paused :: "('l, 'i, 'v, 's) update" where
  "select_paused m =
     (if MdCursor m = 0 then
        (if RvPausePending (MdRecovery m)
         then stay (with_notice ''Waiting for the current read to finish before recovery can continue.'' SeverityInfo m)
         else Some (go_to PageRecovering 0 m, resumeJobEffect))
      else if MdCursor m = 1 then stay ((go_to PageStopConfirm 0 m)\<lparr>MdPreviousPage := PagePaused\<rparr>)
      else stay m)"

definition select_stop :: "('l, 'i, 'v, 's) update" where
  "select_stop m =
     (if MdCursor m = 0 then
        Some (with_notice ''Saving progress and stopping after the current drive request.'' SeverityInfo
          ((recovery_with (\<lambda>r. r\<lparr>RvPausePending := False, RvStopPending := True, RvForceStopAvailable := False\<rparr>) m)\<lparr>
            MdPage := PagePausing, MdRestartLoadingSpinner := True\<rparr>), stopAfterCheckpointEffect)
      else if MdCursor m = 1 then stay (leave_stop_confirm m)
      else stay m)"

definition select_eject :: "('l, 'i, 'v, 's) update" where
  "select_eject m =
     (if MdCursor m = 0 \<and> DsPath (MdSelectedDrive m) \<noteq> []
      then Some (m, ejectEffect (DsPath (MdSelectedDrive m)) (MdPendingEject m))
      else stay ((go_to PageChooseDrive 0 m)\<lparr>MdPendingEject := no_eject\<rparr>))"

definition retry_unresolved :: "('l, 'i, 'v, 's) update" where
  "retry_unresolved m =
     (if DsPath (MdSelectedDrive m) = [] \<or> SuOutputPath (MdSetup m) = []
      then stay (with_notice ''Select the original drive and recovery output before retrying unresolved sectors.'' SeverityWarning m)
      else Some (with_notice ''Retrying unresolved sectors with a fresh bounded retry cycle.'' SeverityInfo
        (setup_with (\<lambda>s. s\<lparr>SuMethod := RecoveryMethodBalanced, SuMethodLabel := ''Balanced recovery'',
           SuActionLabel := ''Retry unresolved sectors'', SuRetryUnresolved := True, SuResumeReady := True,
           SuResumeMapPath := firstNonEmpty [SmMapPath (MdSummary m), replaceExtension (SuOutputPath s) ''.drmap''],
           SuResumeDetail := ''Retrying only unresolved sectors from the saved recovery map.''\<rparr>) m), startJobEffect))"

definition select_summary :: "('l, 'i, 'v, 's) Bubbles \<Rightarrow> ('l, 'i, 'v, 's) update" where
  "select_summary B m =
     (let m1 = (if int (length (summaryOptions m)) \<le> MdCursor m then m\<lparr>MdCursor := 0\<rparr> else m) in
      case at_index (summaryOptions m) (MdCursor m1) of
        None \<Rightarrow> None
      | Some option \<Rightarrow>
        if option \<in> {''Retry deferred sectors'', ''Retry unreadable sectors'', ''Retry unresolved sectors''} then retry_unresolved m1
        else if option = ''Exit'' then Some (m1, QuitCmd)
        else if option = ''Choose another drive''
        then stay (with_notice ''Choose one optical drive.'' SeverityInfo (go_to PageChooseDrive 0 m1))
        else if option = ''View details'' then stay (open_details B m1)
        else stay m1)"

definition handleSelect :: "('l, 'i, 'v, 's) Bubbles \<Rightarrow> ('l, 'i, 'v, 's) update" where
  "handleSelect B m =
     (case MdPage m of
        PageDiscover \<Rightarrow> Some (beginDiscovery m)
      | PageNoDrives \<Rightarrow> Some (beginDiscovery m)
      | PageDiscoveryError \<Rightarrow> Some (beginDiscovery m)
      | PageChooseDrive \<Rightarrow> select_drive m
      | PageInspectingMedia \<Rightarrow> select_inspecting m
      | PagePriorProcessing \<Rightarrow> select_prior m
      | PageChooseAction \<Rightarrow> select_action m
      | PageChooseOutput \<Rightarrow> select_output B m
      | PageReview \<Rightarrow> select_review m
      | PageResumeJobs \<Rightarrow> select_resume m
      | PageHistory \<Rightarrow> select_history B m
      | PagePaused \<Rightarrow> select_paused m
      | PageStopConfirm \<Rightarrow> select_stop m
      | PageEjectConfirm \<Rightarrow> select_eject m
      | PageSummary \<Rightarrow> select_summary B m
      | _ \<Rightarrow> stay m)"

section \<open>Editing the output path\<close>

definition sync_editing :: "('l, 'i, 'v, 's) Bubbles \<Rightarrow> ('l, 'i, 'v, 's) Model \<Rightarrow> ('l, 'i, 'v, 's) Model" where
  "sync_editing B m =
     (let s = MdSetup m in
      if \<not> SuOutputEditing s then m
      else
        let m1 = (if (BiValue B (MdDirectoryInput m) = [] \<or> BiValue B (MdDirectoryInput m) = ''.'') \<and>
                     SuOutputDirectory s \<noteq> [] \<and> SuOutputDirectory s \<noteq> ''.''
                  then m\<lparr>MdDirectoryInput := BiSetValue B (SuOutputDirectory s) (MdDirectoryInput m)\<rparr> else m);
            m2 = (if BiValue B (MdFileNameInput m1) = [] \<and> SuOutputFileName s \<noteq> []
                  then m1\<lparr>MdFileNameInput := BiSetValue B (SuOutputFileName s) (MdFileNameInput m1)\<rparr> else m1)
        in if SuActiveOutputField s = OutputFieldDirectory
           then m2\<lparr>MdDirectoryInput := BiFocus B (MdDirectoryInput m2)\<rparr>
           else m2\<lparr>MdFileNameInput := BiFocus B (MdFileNameInput m2)\<rparr>)"

definition switch_field :: "('l, 'i, 'v, 's) Bubbles \<Rightarrow> ('l, 'i, 'v, 's) Model \<Rightarrow> ('l, 'i, 'v, 's) Model" where
  "switch_field B m =
     (let m1 = setup_with (\<lambda>s. s\<lparr>SuActiveOutputField :=
            (if SuActiveOutputField s = OutputFieldDirectory then OutputFieldFileName else OutputFieldDirectory)\<rparr>)
            (blurOutputInputs B m)
      in if \<not> SuOutputEditing (MdSetup m1) then m1
         else if SuActiveOutputField (MdSetup m1) = OutputFieldDirectory
         then m1\<lparr>MdCursor := 0, MdDirectoryInput := BiFocus B (MdDirectoryInput m1)\<rparr>
         else m1\<lparr>MdCursor := 1, MdFileNameInput := BiFocus B (MdFileNameInput m1)\<rparr>)"

definition finish_editing :: "('l, 'i, 'v, 's) Bubbles \<Rightarrow> ('l, 'i, 'v, 's) Model \<Rightarrow> ('l, 'i, 'v, 's) Model" where
  "finish_editing B m =
     (let m1 = setup_with (\<lambda>s. syncOutputPath (s\<lparr>SuOutputDirectory := TrimSpace (SuOutputDirectory s),
            SuOutputFileName := TrimSpace (SuOutputFileName s)\<rparr>)) (syncOutputValues B m)
      in if SuOutputDirectory (MdSetup m1) = []
         then with_notice ''Choose an output folder before continuing.'' SeverityWarning m1
         else if SuOutputFileName (MdSetup m1) = []
         then with_notice ''Choose an output file name before continuing.'' SeverityWarning m1
         else with_notice ''Finished editing the output target.'' SeverityInfo
           (blurOutputInputs B (setup_with (\<lambda>s. s\<lparr>SuOutputEditing := False\<rparr>) m1)))"

definition type_text :: "('l, 'i, 'v, 's) Bubbles \<Rightarrow> string \<Rightarrow> ('l, 'i, 'v, 's) Model \<Rightarrow> ('l, 'i, 'v, 's) Model" where
  "type_text B msg m =
     setup_with clearResumeTargetState (syncOutputValues B
       (if SuActiveOutputField (MdSetup m) = OutputFieldDirectory
        then m\<lparr>MdDirectoryInput := BiUpdate B msg (MdDirectoryInput m)\<rparr>
        else m\<lparr>MdFileNameInput := BiUpdate B msg (MdFileNameInput m)\<rparr>))"

definition handleOutputPathInput :: "('l, 'i, 'v, 's) Bubbles \<Rightarrow> string \<Rightarrow> string \<Rightarrow> ('l, 'i, 'v, 's) update" where
  "handleOutputPathInput B msg key m0 =
     (let m = sync_editing B m0; editing = SuOutputEditing (MdSetup m) in
      if matchesKey key (KeyDetails DefaultKeys) \<and> \<not> editing \<and> noticeHasTechnicalDetail m then stay (open_details B m)
      else if matchesKey key (KeyBack DefaultKeys) then
        (if editing
         then stay (with_notice ''Stopped editing the output target.'' SeverityInfo
           (blurOutputInputs B (setup_with (\<lambda>s. s\<lparr>SuOutputEditing := False\<rparr>) m)))
         else Some (handleBack m))
      else if key = ''tab'' then stay (switch_field B m)
      else if matchesKey key (KeyUp DefaultKeys) then (if editing then stay m else stay (moveCursor (-1) m))
      else if matchesKey key (KeyDown DefaultKeys) then (if editing then stay m else stay (moveCursor 1 m))
      else if matchesKey key (KeySelect DefaultKeys) then
        (if \<not> editing then handleSelect B m else stay (finish_editing B m))
      else if editing then Some (type_text B msg m, WidgetCmd)
      else stay m)"

section \<open>Keys\<close>

definition confirm_stop :: "('l, 'i, 'v, 's) Model \<Rightarrow> ('l, 'i, 'v, 's) Model" where
  "confirm_stop m = (go_to PageStopConfirm 0 m)\<lparr>MdPreviousPage := MdPage m\<rparr>"

definition press_force :: "('l, 'i, 'v, 's) Model \<Rightarrow> ('l, 'i, 'v, 's) Model \<times> Cmd" where
  "press_force m =
     (case MdPage m of
        PagePausing \<Rightarrow>
          if RvForceStopAvailable (MdRecovery m)
          then (with_notice ''Force-stopping the active device request; saved progress is preserved.'' SeverityWarning m,
                stopImmediatelyEffect)
          else (m, NoCmd)
      | PageRecovering \<Rightarrow> (confirm_stop m, NoCmd)
      | PagePaused \<Rightarrow> (confirm_stop m, NoCmd)
      | PageStopConfirm \<Rightarrow> (m, stopAfterCheckpointEffect)
      | _ \<Rightarrow> (m\<lparr>MdQuitting := True\<rparr>, QuitCmd))"

definition press_quit :: "('l, 'i, 'v, 's) Model \<Rightarrow> ('l, 'i, 'v, 's) Model \<times> Cmd" where
  "press_quit m =
     (if MdPage m \<in> {PageRecovering, PagePausing, PagePaused} then (confirm_stop m, NoCmd)
      else (m\<lparr>MdQuitting := True\<rparr>, QuitCmd))"

definition press_pause :: "('l, 'i, 'v, 's) Model \<Rightarrow> ('l, 'i, 'v, 's) Model \<times> Cmd" where
  "press_pause m =
     (case MdPage m of
        PageRecovering \<Rightarrow>
          (with_notice ''Pausing recovery after the current read completes.'' SeverityInfo
            ((recovery_with (\<lambda>r. r\<lparr>RvPausePending := True\<rparr>) (go_to PagePausing 0 m))\<lparr>MdRestartLoadingSpinner := True\<rparr>),
           pauseJobEffect)
      | PagePaused \<Rightarrow> (go_to PageRecovering 0 m, resumeJobEffect)
      | _ \<Rightarrow> (m, NoCmd))"

definition handleKeyPress :: "('l, 'i, 'v, 's) Bubbles \<Rightarrow> string \<Rightarrow> ('l, 'i, 'v, 's) update" where
  "handleKeyPress B msg m =
     (let key = strings_ToLower msg in
      if MdPage m = PageChooseOutput then handleOutputPathInput B msg key m
      else if matchesKey key (KeyForce DefaultKeys) then Some (press_force m)
      else if matchesKey key (KeyQuit DefaultKeys) then Some (press_quit m)
      else if matchesKey key (KeyBack DefaultKeys) then Some (handleBack m)
      else if matchesKey key (KeyRefresh DefaultKeys) then
        (if MdPage m = PageChooseDrive then Some (beginDiscovery m) else stay m)
      else if matchesKey key (KeyEject DefaultKeys) then
        (if MdPage m = PageChooseDrive \<and> DsPath (ejectTargetDrive m) \<noteq> []
         then Some (m, ejectEffect (DsPath (ejectTargetDrive m)) \<lparr>EjMode = EjectNormal, EjExplicitConfirm = False\<rparr>)
         else stay m)
      else if matchesKey key (KeyForceEject DefaultKeys) then
        (if MdPage m = PageChooseDrive \<and> DsPath (ejectTargetDrive m) \<noteq> []
         then stay ((go_to PageEjectConfirm 0 m)\<lparr>MdSelectedDrive := ejectTargetDrive m,
           MdPendingEject := \<lparr>EjMode = EjectForce, EjExplicitConfirm = True\<rparr>\<rparr>)
         else stay m)
      else if matchesKey key (KeyUp DefaultKeys) then stay (moveCursor (-1) m)
      else if matchesKey key (KeyDown DefaultKeys) then stay (moveCursor 1 m)
      else if matchesKey key (KeyPause DefaultKeys) then Some (press_pause m)
      else if matchesKey key (KeyDetails DefaultKeys) then
        (if MdPage m \<in> {PageRecovering, PagePausing, PagePaused, PageSummary} \<or> noticeHasTechnicalDetail m
         then stay (open_details B m) else stay m)
      else if matchesKey key (KeyAdvanced DefaultKeys) then
        (if MdPage m = PageChooseAction
         then stay (m\<lparr>MdPreviousPage := MdPage m, MdPage := PageAdvanced\<rparr>) else stay m)
      else if matchesKey key (KeySelect DefaultKeys) then handleSelect B m
      else stay m)"

definition updateKeyMessage :: "('l, 'i, 'v, 's) Bubbles \<Rightarrow> string \<Rightarrow> ('l, 'i, 'v, 's) update" where
  "updateKeyMessage B msg m =
     (let key = strings_ToLower msg; k = DefaultKeys; base = KeySelect k @ KeyBack k @ KeyQuit k in
      if MdPage m = PageChooseDrive \<and> \<not> matchesKey key (base @ KeyRefresh k @ KeyEject k @ KeyForceEject k) then
        (let l = BlUpdate B msg (MdDriveList m) in Some (m\<lparr>MdDriveList := l, MdCursor := BlIndex B l\<rparr>, WidgetCmd))
      else if MdPage m = PageChooseAction \<and> \<not> matchesKey key base then
        (let l = BlUpdate B msg (MdActionList m) in Some (m\<lparr>MdActionList := l, MdCursor := BlIndex B l\<rparr>, WidgetCmd))
      else if MdPage m = PageResumeJobs \<and> \<not> matchesKey key base then
        (let l = BlUpdate B msg (MdResumeList m) in Some (m\<lparr>MdResumeList := l, MdCursor := BlIndex B l\<rparr>, WidgetCmd))
      else if MdPage m = PageHistory \<and> \<not> matchesKey key base then
        (let l = BlUpdate B msg (MdHistoryList m) in Some (m\<lparr>MdHistoryList := l, MdCursor := BlIndex B l\<rparr>, WidgetCmd))
      else if MdPage m = PageDetails \<and> \<not> matchesKey key (KeyBack k @ KeyQuit k) then Some (updateDetailsKey B msg m)
      else handleKeyPress B msg m)"

end
