(* ===== verification/AppMessages.thy ===== *)
theory AppMessages
  imports AppNavigation
begin

text \<open>
  What the messages do (\<^verbatim>\<open>internal/app\<close>: \<^verbatim>\<open>update_media.go\<close>, \<^verbatim>\<open>update_history.go\<close>,
  \<^verbatim>\<open>update_recovery.go\<close>, \<^verbatim>\<open>update_drive.go\<close>, \<^verbatim>\<open>update_window.go\<close>,
  \<^verbatim>\<open>update_messages.go\<close>, \<^verbatim>\<open>reconcile.go\<close>), and the update function.
\<close>

section \<open>Drives\<close>

definition device_key :: "DeviceSummary \<Rightarrow> string" where
  "device_key d = (if DsID d = [] then DsPath d else DsID d)"

fun find_device :: "string \<Rightarrow> DeviceSummary list \<Rightarrow> DeviceSummary option" where
  "find_device i [] = None"
| "find_device i (d # ds) = (if device_key d = i \<and> device_key d \<noteq> [] then Some d else find_device i ds)"

definition reconcileDevices ::
  "DeviceSummary list \<Rightarrow> DeviceSummary \<Rightarrow> DeviceSummary list \<times> DeviceSummary \<times> bool" where
  "reconcileDevices next_devices selected0 =
     (let selected = (if DsID selected0 = [] \<and> DsPath selected0 \<noteq> [] then selected0\<lparr>DsID := DsPath selected0\<rparr> else selected0) in
      case find_device (DsID selected) next_devices of
        Some drive \<Rightarrow> (next_devices, drive, DsMediaToken selected \<noteq> [] \<and> DsMediaToken drive \<noteq> [] \<and>
          DsMediaToken selected \<noteq> DsMediaToken drive)
      | None \<Rightarrow> (next_devices, no_device, DsID selected \<noteq> []))"

definition defaultPriorProcessingView :: PriorProcessingViewModel where
  "defaultPriorProcessingView =
     prior_view PriorProcessingNone ''Checking this computer for matching saved work.''"

definition forget_media :: "('l, 'i, 'v, 's) Model \<Rightarrow> ('l, 'i, 'v, 's) Model" where
  "forget_media m = m\<lparr>MdActiveMediaRequest := 0, MdMediaFileSystem := [], MdMediaVolumeLabel := [],
     MdMediaLogicalSectorSize := 0, MdMediaCapacitySectors := 0,
     MdIdentity := \<lparr>CiSummary = ''Media changed; inspect the current disc before continuing.'', CiDetail = [],
       CiEvidence = [], CiIdentityStatus = [], CiAutoResumeReady = False\<rparr>,
     MdPriorView := defaultPriorProcessingView\<rparr>"

definition list_height :: "('l, 'i, 'v, 's) Model \<Rightarrow> int" where
  "list_height m = (if MdHeight m - 11 < 1 then 1 else MdHeight m - 11)"

text \<open>The drives of a discovery and the selection before it, where an ejected drive is kept.\<close>

definition discovered_drives :: "('l, 'i, 'v, 's) Model \<Rightarrow> DeviceSummary list \<Rightarrow> DeviceSummary list \<times> DeviceSummary" where
  "discovered_drives m ds =
     (let previous = (if MdPreserveEjectedDrive m \<and> DsPath (MdSelectedDrive m) = [] then MdEjectedDrive m else MdSelectedDrive m) in
      if ds = [] \<and> MdPreserveEjectedDrive m \<and> DsPath previous \<noteq> []
      then ([previous\<lparr>DsStatus := ''drive available; media ejected''\<rparr>], previous) else (ds, previous))"

definition updateDevicesDiscovered ::
  "('l, 'i, 'v, 's) Bubbles \<Rightarrow> int \<Rightarrow> DeviceSummary list \<Rightarrow> AppError option \<Rightarrow> ('l, 'i, 'v, 's) Model \<Rightarrow> ('l, 'i, 'v, 's) Model \<times> Cmd" where
  "updateDevicesDiscovered B i ds err m =
     (if i \<noteq> MdActiveDiscoveryRequest m then (m, NoCmd)
      else (case err of
          Some e \<Rightarrow> (setErrorNotice contextDiscovery e (m\<lparr>MdPage := PageDiscoveryError\<rparr>), NoCmd)
        | None \<Rightarrow>
          let (found, previous) = discovered_drives m ds;
              (devices, selection, invalidated) = reconcileDevices found previous;
              m1 = m\<lparr>MdPreserveEjectedDrive := False, MdEjectedDrive := no_device, MdDevices := devices,
                MdSelectedDrive := selection\<rparr>;
              m2 = (if invalidated \<or> MdPreserveEjectedDrive m then forget_media m1 else m1);
              m3 = m2\<lparr>MdDriveList := resize_list B (interactiveWidth (MdWidth m2)) (list_height m2)
                (BlSetItems B (driveItems (MdDevices m2)) (MdDriveList m2)), MdCursor := 0\<rparr>
          in if MdDevices m3 = []
             then (with_notice ''No usable optical drives found.'' SeverityWarning (m3\<lparr>MdPage := PageNoDrives\<rparr>), NoCmd)
             else (with_notice ''Choose one optical drive.'' SeverityInfo (m3\<lparr>MdPage := PageChooseDrive\<rparr>), NoCmd)))"

definition updateEjectCompleted ::
  "EjectRequest \<Rightarrow> string \<Rightarrow> AppError option \<Rightarrow> ('l, 'i, 'v, 's) Model \<Rightarrow> ('l, 'i, 'v, 's) Model \<times> Cmd" where
  "updateEjectCompleted r detail err m =
     (case err of
        Some e \<Rightarrow>
          (if EjMode r = EjectNormal
           then ((go_to PageEjectConfirm 0 (setErrorNotice contextEject e m))\<lparr>
             MdPendingEject := \<lparr>EjMode = EjectForce, EjExplicitConfirm = True\<rparr>\<rparr>, NoCmd)
           else ((go_to PageChooseDrive 0 (setErrorNotice contextForce e m))\<lparr>MdPendingEject := no_eject\<rparr>, NoCmd))
      | None \<Rightarrow> beginDiscovery (with_notice
          (firstNonEmpty [detail, ''Eject request accepted; refreshing drive state.'']) SeverityInfo
          (m\<lparr>MdPendingEject := no_eject, MdPreserveEjectedDrive := True, MdEjectedDrive := ejectTargetDrive m\<rparr>)))"

section \<open>Media and target\<close>

definition updateMediaIdentified ::
  "('l, 'i, 'v, 's) Bubbles \<Rightarrow> MediaIdentified \<Rightarrow> ('l, 'i, 'v, 's) Model \<Rightarrow> ('l, 'i, 'v, 's) Model \<times> Cmd" where
  "updateMediaIdentified B x m =
     (if MiRequestID x \<noteq> MdActiveMediaRequest m then (m, NoCmd)
      else (case MiErr x of
          Some e \<Rightarrow> (setErrorNotice contextMedia e (m\<lparr>MdPage := PageInspectingMedia\<rparr>), NoCmd)
        | None \<Rightarrow>
          let m1 = m\<lparr>MdIdentity := MiIdentity x, MdMediaFileSystem := MiFileSystem x,
                MdMediaVolumeLabel := MiVolumeLabel x, MdMediaLogicalSectorSize := MiLogicalSectorSize x,
                MdMediaCapacitySectors := MiCapacitySectors x, MdMediaRecoverable := MiRecoverable x,
                MdMediaRecoverabilityNote := MiRecoverabilityNote x\<rparr>;
              m2 = (if MiSuggestedOutputPath x \<noteq> []
                    then setup_with (\<lambda>s. s\<lparr>SuDefaultPath := MiSuggestedOutputPath x\<rparr>)
                      (syncOutputInputs B (setup_with (applyOutputPath (MiSuggestedOutputPath x)) m1)) else m1);
              m3 = (go_to PageChooseAction 0 m2)\<lparr>MdPriorView := defaultPriorProcessingView, MdPriorRecords := []\<rparr>;
              i = next_request m3;
              m4 = (take_request m3)\<lparr>MdActiveLookupRequest := i\<rparr>
          in (if MiRecoverable x
              then with_notice ''Media inspection completed. Start a new recovery to create an image.'' SeverityInfo m4
              else with_notice (MiRecoverabilityNote x) SeverityWarning m4, lookupHistoryEffect (output_folder m4) i)))"

text \<open>The bytes of a dash.\<close>

definition describeTargetSpace :: "RecoveryTargetStatus \<Rightarrow> string" where
  "describeTargetSpace s =
     (if \<not> TsSpaceKnown s then
        (if 0 < TsRequiredBytes s
         then ''Need '' @ humanBytes (TsRequiredBytes s) @ '' for a full image; free space is unknown''
         else ''Free space is unknown for the selected target'')
      else if TsRequiredBytes s = 0 then humanBytes (TsAvailableBytes s) @ '' free on the selected drive''
      else if TsRequiredBytes s \<le> TsAvailableBytes s
      then humanBytes (TsAvailableBytes s) @ '' free; need '' @ humanBytes (TsRequiredBytes s)
      else humanBytes (TsAvailableBytes s) @ '' free; need '' @ humanBytes (TsRequiredBytes s) @ '' '' @
        [CHR 0xE2, CHR 0x80, CHR 0x94] @ '' choose another target'')"

definition updateRecoveryTargetInspected ::
  "int \<Rightarrow> RecoveryTargetStatus \<Rightarrow> AppError option \<Rightarrow> ('l, 'i, 'v, 's) Model \<Rightarrow> ('l, 'i, 'v, 's) Model \<times> Cmd" where
  "updateRecoveryTargetInspected i status err m =
     (if i \<noteq> MdActiveTargetRequest m then (m, NoCmd)
      else (case err of
          Some e \<Rightarrow> (setErrorNotice contextTarget e ((setup_with (\<lambda>s. s\<lparr>SuResumeReady := False, SuResumeMapPath := [],
            SuResumeDetail := [], SuFreeSpace := ''Unable to check free space for the selected target''\<rparr>) m)\<lparr>
              MdPage := PageChooseOutput\<rparr>), NoCmd)
        | None \<Rightarrow>
          let m1 = setup_with (\<lambda>s. s\<lparr>SuFreeSpace := describeTargetSpace status\<rparr>) m in
          if \<not> TsCanStartNew status \<and> \<not> TsCanResume status then
            (with_notice (if TrimSpace (TsDetail status) \<noteq> [] then TsDetail status
                else ''Choose a different output path before starting recovery.'') SeverityWarning
              ((setup_with (\<lambda>s. s\<lparr>SuResumeReady := False, SuResumeMapPath := [], SuResumeDetail := [],
                 SuActionLabel := ''Start a new recovery''\<rparr>) m1)\<lparr>MdPage := PageChooseOutput\<rparr>), NoCmd)
          else
            let m2 = setup_with (\<lambda>s. s\<lparr>SuResumeReady := TsCanResume status, SuResumeMapPath := TsMapPath status,
                  SuResumeDetail := TsDetail status\<rparr>) m1;
                m3 = (if TsCanResume status
                  then with_notice (firstNonEmpty [TsDetail status, ''A matching recovery can be resumed safely.'']) SeverityInfo
                    (setup_with (\<lambda>s. s\<lparr>SuActionLabel := ''Resume recovery''\<rparr>) m2)
                  else with_notice (firstNonEmpty [TsDetail status,
                      ''Use the suggested output target or edit it before starting recovery.'']) SeverityInfo
                    (setup_with (\<lambda>s. s\<lparr>SuActionLabel := ''Start a new recovery''\<rparr>) m2))
            in (go_to PageReview 0 m3, NoCmd)))"

section \<open>History\<close>

definition updatePriorProcessingLookup ::
  "('l, 'i, 'v, 's) Bubbles \<Rightarrow> int \<Rightarrow> PriorProcessingViewModel \<Rightarrow> PriorProcessingRecord list \<Rightarrow>
   ResumableJobViewModel list \<Rightarrow> AppError option \<Rightarrow> ('l, 'i, 'v, 's) Model \<Rightarrow> ('l, 'i, 'v, 's) Model \<times> Cmd" where
  "updatePriorProcessingLookup B i view records jobs err m =
     (if i \<noteq> MdActiveLookupRequest m then (m, NoCmd)
      else (case err of
          Some e \<Rightarrow> (go_to PageChooseAction 0 (setErrorNotice contextHistory e m), NoCmd)
        | None \<Rightarrow>
          let m1 = (if PvHistoryLine view \<noteq> [] then m\<lparr>MdPriorView := view\<rparr> else m);
              m2 = m1\<lparr>MdPriorRecords := records, MdResumeJobs := jobs,
                MdResumeList := resize_list B (interactiveWidth (MdWidth m1)) (list_height m1)
                  (BlSetItems B (resumeItems jobs) (MdResumeList m1))\<rparr>
          in if PvKind view = PriorProcessingStrongResumable \<and> jobs \<noteq> []
             then (with_notice ''Matching recovery work was found on this computer.'' SeverityInfo
               (go_to PagePriorProcessing 0 m2), NoCmd)
             else (m2, NoCmd)))"

definition updateProcessedMediaDiscovered ::
  "('l, 'i, 'v, 's) Bubbles \<Rightarrow> int \<Rightarrow> ProcessedMediaViewModel list \<Rightarrow> AppError option \<Rightarrow>
   ('l, 'i, 'v, 's) Model \<Rightarrow> ('l, 'i, 'v, 's) Model \<times> Cmd" where
  "updateProcessedMediaDiscovered B i items err m =
     (if i \<noteq> MdActiveHistoryRequest m then (m, NoCmd)
      else (case err of
          Some e \<Rightarrow> (setErrorNotice contextHistory e (m\<lparr>MdHistoryItems := [], MdPage := PageChooseAction\<rparr>), NoCmd)
        | None \<Rightarrow>
          (with_notice (if items = [] then ''No processed media were found in the current output folder.''
              else ''Browse saved images and recovery maps from the current output folder.'') SeverityInfo
            (go_to PageHistory 0 (m\<lparr>MdHistoryItems := items,
              MdHistoryList := resize_list B (interactiveWidth (MdWidth m)) (list_height m)
                (BlSetItems B (historyItems items) (MdHistoryList m))\<rparr>)), NoCmd)))"

definition updateResumableJobsDiscovered ::
  "int \<Rightarrow> ResumableJobViewModel list \<Rightarrow> AppError option \<Rightarrow> ('l, 'i, 'v, 's) Model \<Rightarrow> ('l, 'i, 'v, 's) Model \<times> Cmd" where
  "updateResumableJobsDiscovered i jobs err m =
     (if i \<noteq> MdActiveResumeRequest m then (m, NoCmd)
      else (case err of
          Some e \<Rightarrow> (setErrorNotice contextHistory e (m\<lparr>MdResumeJobs := [], MdPage := PageChooseAction\<rparr>), NoCmd)
        | None \<Rightarrow>
          (with_notice (if jobs = [] then ''No resumable recoveries were found in the current output folder.''
              else ''Choose a saved recovery to resume safely.'') SeverityInfo
            (go_to PageResumeJobs 0 (m\<lparr>MdResumeJobs := jobs\<rparr>)), NoCmd)))"

section \<open>Recovery\<close>

definition updateJobStarted :: "JobStarted \<Rightarrow> ('l, 'i, 'v, 's) Model \<Rightarrow> ('l, 'i, 'v, 's) Model \<times> Cmd" where
  "updateJobStarted x m =
     (let m1 = setup_with (\<lambda>s. s\<lparr>SuRetryUnresolved := False\<rparr>) (recovery_with (\<lambda>r. r\<lparr>RvStatus := StStatus x,
          RvOutputPath := StOutputPath x, RvPhase := StPhase x, RvTotalSectors := StTotalSectors x,
          RvScannedSectors := StScannedSectors x, RvRecoveredSectors := StRecoveredSectors x,
          RvDeferredSectors := StDeferredSectors x, RvUnreadableSectors := StUnreadableSectors x,
          RvPausePending := False, RvStopPending := False, RvForceStopAvailable := False\<rparr>) (m\<lparr>MdPage := PageRecovering\<rparr>))
      in (m1\<lparr>MdDetailsLines := buildRecoveryDetails m1, MdNotice := None\<rparr>, NoCmd))"

definition updateJobPaused :: "JobPaused \<Rightarrow> ('l, 'i, 'v, 's) Model \<Rightarrow> ('l, 'i, 'v, 's) Model \<times> Cmd" where
  "updateJobPaused x m =
     (let m1 = recovery_with (\<lambda>r. r\<lparr>RvStatus := ''Recovery paused'', RvOutputPath := PzOutputPath x,
          RvRecoveredSectors := PzRecoveredSectors x, RvTotalSectors := PzTotalSectors x,
          RvUnreadableSectors := PzUnreadableSectors x, RvPausePending := False, RvStopPending := False,
          RvForceStopAvailable := False\<rparr>) (m\<lparr>MdPage := PagePaused\<rparr>);
          m2 = (if PzMapPath x \<noteq> [] then setup_with (\<lambda>s. s\<lparr>SuResumeMapPath := PzMapPath x\<rparr>) m1 else m1)
      in (with_notice ''Progress saved. Continue recovery when you are ready.'' SeverityInfo
            (m2\<lparr>MdDetailsLines := buildRecoveryDetails m2\<rparr>), NoCmd))"

definition updateJobStartFailed :: "AppError option \<Rightarrow> ('l, 'i, 'v, 's) Model \<Rightarrow> ('l, 'i, 'v, 's) Model \<times> Cmd" where
  "updateJobStartFailed err m =
     (let m1 = m\<lparr>MdPage := PageChooseOutput\<rparr> in
      (case err of Some e \<Rightarrow> setErrorNotice contextRecovery e m1 | None \<Rightarrow> m1, NoCmd))"

definition updateProgress :: "ProgressSnapshot \<Rightarrow> ('l, 'i, 'v, 's) Model \<Rightarrow> ('l, 'i, 'v, 's) Model \<times> Cmd" where
  "updateProgress p m =
     (let m1 = recovery_with (\<lambda>r. \<lparr>RvPhase = PsPhase p, RvScannedSectors = PsScannedSectors p,
          RvRecoveredSectors = PsRecoveredSectors p, RvDeferredSectors = PsDeferredSectors p,
          RvTotalSectors = PsTotalSectors p, RvUnreadableSectors = PsUnreadableSectors p, RvStatus = PsStatus p,
          RvOutputPath = (if PsOutputPath p \<noteq> [] then PsOutputPath p else RvOutputPath r),
          RvElapsed = PsElapsed p, RvRemaining = PsRemaining p, RvETA = PsETA p, RvThroughput = PsThroughput p,
          RvLastIssue = PsLastIssue p, RvPausePending = PsPausePending p, RvStopPending = PsStopPending p,
          RvForceStopAvailable = PsForceStopAvailable p\<rparr>) m
      in (m1\<lparr>MdDetailsLines := buildRecoveryDetails m1, MdNotice := None\<rparr>, NoCmd))"

definition updateStatus ::
  "string \<Rightarrow> Severity \<Rightarrow> AppError option \<Rightarrow> messageContext \<Rightarrow> ('l, 'i, 'v, 's) Model \<Rightarrow> ('l, 'i, 'v, 's) Model \<times> Cmd" where
  "updateStatus t sev err c m =
     (case err of
        Some e \<Rightarrow> (setErrorNotice (if c = contextNone then contextRecovery else c) e m, NoCmd)
      | None \<Rightarrow> (with_notice t sev m, NoCmd))"

definition updateJobCheckpointed :: "string \<Rightarrow> ('l, 'i, 'v, 's) Model \<Rightarrow> ('l, 'i, 'v, 's) Model \<times> Cmd" where
  "updateJobCheckpointed at m = (with_notice (''Progress saved at '' @ at @ ''.'') SeverityInfo m, NoCmd)"

definition updateJobStopped :: "JobSummary \<Rightarrow> AppError option \<Rightarrow> ('l, 'i, 'v, 's) Model \<Rightarrow> ('l, 'i, 'v, 's) Model \<times> Cmd" where
  "updateJobStopped x err m =
     (let m1 = (case err of Some e \<Rightarrow> setErrorNotice contextRecovery e m | None \<Rightarrow> m);
          m2 = recovery_with (\<lambda>r. r\<lparr>RvStatus := SmOutcome x,
            RvOutputPath := (if SmImagePath x \<noteq> [] then SmImagePath x else RvOutputPath r),
            RvRecoveredSectors := SmRecoveredSectors x, RvTotalSectors := SmTotalSectors x,
            RvDeferredSectors := SmDeferredSectors x,
            RvUnreadableSectors := (if SmDeferredSectors x < SmUnresolvedSectors x
              then SmUnresolvedSectors x - SmDeferredSectors x else 0),
            RvPausePending := False, RvStopPending := False, RvForceStopAvailable := False\<rparr>)
            (m1\<lparr>MdPage := PageSummary, MdSummary := x\<rparr>)
      in (m2\<lparr>MdDetailsLines := buildSummaryDetails m2 x err, MdCursor := 0\<rparr>, NoCmd))"

definition updateWorkerUnresponsive :: "string \<Rightarrow> ('l, 'i, 'v, 's) Model \<Rightarrow> ('l, 'i, 'v, 's) Model \<times> Cmd" where
  "updateWorkerUnresponsive since m =
     (with_notice (''Worker unresponsive for '' @ since @ ''. Checkpoint requested.'') SeverityWarning m, NoCmd)"

definition updateFatal :: "AppError option \<Rightarrow> ('l, 'i, 'v, 's) Model \<Rightarrow> ('l, 'i, 'v, 's) Model \<times> Cmd" where
  "updateFatal err m =
     ((case err of Some e \<Rightarrow> setErrorNotice contextRecovery e m | None \<Rightarrow> m)\<lparr>MdPage := PageSummary\<rparr>, NoCmd)"

section \<open>Window and spinner\<close>

definition isLoadingPage :: "Page \<Rightarrow> bool" where
  "isLoadingPage p \<longleftrightarrow> p \<in> {PageDiscover, PageInspectingMedia, PagePriorProcessing, PagePausing}"

definition updateWindowMessage ::
  "('l, 'i, 'v, 's) Bubbles \<Rightarrow> int \<Rightarrow> int \<Rightarrow> ('l, 'i, 'v, 's) Model \<Rightarrow> ('l, 'i, 'v, 's) Model \<times> Cmd" where
  "updateWindowMessage B width height m =
     (let cw = interactiveWidth width;
          iw = (if cw - 4 < 12 then 12 else cw - 4);
          vh0 = LyHeight (layoutFor width height) - 4; vh = (if vh0 < 1 then 1 else vh0);
          lh0 = (if vh - 3 < 1 then 1 else vh - 3); lh = (if 12 < lh0 then 12 else lh0)
      in (m\<lparr>MdWidth := width, MdHeight := height,
            MdDirectoryInput := BiSetWidth B iw (MdDirectoryInput m),
            MdFileNameInput := BiSetWidth B iw (MdFileNameInput m),
            MdDetailsViewport := BvSetHeight B vh (BvSetWidth B cw (MdDetailsViewport m)),
            MdDriveList := resize_list B cw lh (MdDriveList m), MdActionList := resize_list B cw lh (MdActionList m),
            MdResumeList := resize_list B cw lh (MdResumeList m), MdHistoryList := resize_list B cw lh (MdHistoryList m)\<rparr>,
          NoCmd))"

definition updateSpinnerMessage :: "('l, 'i, 'v, 's) Bubbles \<Rightarrow> ('l, 'i, 'v, 's) Model \<Rightarrow> ('l, 'i, 'v, 's) Model \<times> Cmd" where
  "updateSpinnerMessage B m =
     (if \<not> isLoadingPage (MdPage m) then (m, NoCmd)
      else (m\<lparr>MdLoadingSpinner := BsUpdate B (MdLoadingSpinner m)\<rparr>, WidgetCmd))"

section \<open>The update function\<close>

definition updateMessage :: "('l, 'i, 'v, 's) Bubbles \<Rightarrow> Msg \<Rightarrow> ('l, 'i, 'v, 's) update" where
  "updateMessage B msg m =
     (case msg of
        WindowSizeMsg w h \<Rightarrow> Some (updateWindowMessage B w h m)
      | KeyPressMsg k \<Rightarrow> updateKeyMessage B k m
      | SpinnerTickMsg \<Rightarrow> Some (updateSpinnerMessage B m)
      | DevicesDiscoveredMsg i ds err \<Rightarrow> Some (updateDevicesDiscovered B i ds err m)
      | MediaIdentifiedMsg x \<Rightarrow> Some (updateMediaIdentified B x m)
      | PriorProcessingLookupMsg i view records jobs err \<Rightarrow> Some (updatePriorProcessingLookup B i view records jobs err m)
      | ProcessedMediaDiscoveredMsg i items err \<Rightarrow> Some (updateProcessedMediaDiscovered B i items err m)
      | RecoveryTargetInspectedMsg i status err \<Rightarrow> Some (updateRecoveryTargetInspected i status err m)
      | ResumableJobsDiscoveredMsg i jobs err \<Rightarrow> Some (updateResumableJobsDiscovered i jobs err m)
      | JobStartedMsg x \<Rightarrow> Some (updateJobStarted x m)
      | JobPausedMsg x \<Rightarrow> Some (updateJobPaused x m)
      | JobStartFailedMsg err \<Rightarrow> Some (updateJobStartFailed err m)
      | ProgressMsg p \<Rightarrow> Some (updateProgress p m)
      | StatusMsg t sev err c \<Rightarrow> Some (updateStatus t sev err c m)
      | JobCheckpointedMsg at \<Rightarrow> Some (updateJobCheckpointed at m)
      | JobStoppedMsg x err \<Rightarrow> Some (updateJobStopped x err m)
      | WorkerUnresponsiveMsg since \<Rightarrow> Some (updateWorkerUnresponsive since m)
      | FatalMsg err \<Rightarrow> Some (updateFatal err m)
      | EjectCompletedMsg r detail err \<Rightarrow> Some (updateEjectCompleted r detail err m)
      | OtherMsg \<Rightarrow> Some (m, NoCmd))"

text \<open>A run of messages, with the commands they give.\<close>

fun run_messages :: "('l, 'i, 'v, 's) Bubbles \<Rightarrow> Msg list \<Rightarrow> ('l, 'i, 'v, 's) Model \<Rightarrow>
    (('l, 'i, 'v, 's) Model \<times> Cmd list) option" where
  "run_messages B [] m = Some (m, [])"
| "run_messages B (msg # msgs) m =
     (case updateMessage B msg m of
        None \<Rightarrow> None
      | Some (m1, c) \<Rightarrow> map_option (\<lambda>(m2, cs). (m2, c # cs)) (run_messages B msgs m1))"

end
