(* ===== verification/AppRuntime.thy ===== *)
theory AppRuntime
  imports AppMessages "HOL-Library.Char_ord" "HOL-Library.List_Lexorder"
begin

text \<open>
  The program around the model (\<^verbatim>\<open>internal/app\<close>: \<^verbatim>\<open>runtime*.go\<close>, \<^verbatim>\<open>recovery_program.go\<close>):
  carrying out the effects against the platform, polling the active recovery job, and the program as a
  state machine of messages and running commands. What the platform answers is the record \<open>Answers\<close>;
  the calls that reach a job are listed.
\<close>

section \<open>The platform\<close>

record OpticalDrive =
  OdPath :: string
  OdDisplayName :: string
  OdStatus :: string

text \<open>Of the identity observation the application reads the status and the counts of samples.\<close>

record ObservationView =
  OvStatus :: string
  OvAttemptedSamples :: u16
  OvAvailableSamples :: u16

record OpticalMedia =
  OmSummary :: string
  OmDetail :: string
  OmFileSystem :: string
  OmVolumeLabel :: string
  OmLogicalSectorSize :: u32
  OmCapacitySectors :: u64
  OmSuggestedOutputPath :: string
  OmRecoverable :: bool
  OmRecoverabilityNote :: string
  OmObservation :: "ObservationView option"

record RecoveryInput =
  InDevicePath :: string
  InOutputPath :: string
  InLogicalSectorSize :: u32
  InCapacitySectors :: u64
  InMethod :: "RecoveryMethod option"
  InRetryUnresolved :: bool
  InReadSpeed :: "ReadSpeedRequest option"

text \<open>Times are the time since the start, the rate is \<open>None\<close> when it is not positive and the estimate
  when it is not known.\<close>

record RecoverySnapshot =
  SnElapsed :: nat
  SnTotalBytes :: u64
  SnCopiedBytes :: u64
  SnRate :: "u64 option"
  SnETA :: "nat option"
  SnScannedSectors :: u64
  SnDeferredSectors :: u64
  SnUnreadableSectors :: u64
  SnPass :: string
  SnMapPath :: string
  SnResumed :: bool
  SnLastIssue :: "string list"
  SnDone :: bool
  SnCanceled :: bool
  SnErrText :: string
  SnStopIntent :: "StopIntent option"
  SnCanForceStop :: bool

text \<open>An entry of a directory with the time of its modification as text, or the error of asking for it.\<close>

record DirEntry =
  DeName :: string
  DeIsDir :: bool
  DeInfo :: "AppError + string"

record Answers =
  AwDrives :: "OpticalDrive list \<times> AppError option"
  AwMedia :: "AppError + OpticalMedia"
  AwEjector :: bool
  AwEject :: "string \<times> AppError option"
  AwReadDir :: "string \<Rightarrow> AppError + DirEntry list"
  AwInspect :: "RecoveryInput \<Rightarrow> RecoveryTargetStatus \<times> AppError option"
  AwFileExists :: "string \<Rightarrow> bool"
  AwStart :: "AppError + nat"
  AwSnapshot :: RecoverySnapshot
  AwStoppable :: bool
  AwRequestStop :: "AppError option"
  AwForceStop :: "AppError option"
  AwNow :: nat

datatype JobCall =
    CallStart RecoveryInput "nat option" | CallCancel nat | CallRequestStop nat StopIntent | CallForceStop nat

record programState =
  PgActiveRecovery :: "nat option"
  PgActiveJobID :: string
  PgPendingPause :: bool

section \<open>Drives and media\<close>

fun summaries_loop :: "OpticalDrive list \<Rightarrow> string set \<Rightarrow> DeviceSummary list" where
  "summaries_loop [] seen = []"
| "summaries_loop (d # ds) seen =
     (let key = (if TrimSpace (OdPath d) = [] then TrimSpace (OdDisplayName d) else TrimSpace (OdPath d)) in
      if key = [] \<or> key \<in> seen then summaries_loop ds seen
      else \<lparr>DsID = key, DsPath = OdPath d,
             DsDisplayName = (if TrimSpace (OdDisplayName d) = [] then OdPath d else TrimSpace (OdDisplayName d)),
             DsStatus = (if TrimSpace (OdStatus d) = [] then ''available'' else TrimSpace (OdStatus d)),
             DsMediaToken = []\<rparr> # summaries_loop ds (insert key seen))"

definition toDeviceSummaries :: "OpticalDrive list \<Rightarrow> DeviceSummary list" where
  "toDeviceSummaries drives = summaries_loop drives {}"

definition identityViewModel :: "OpticalMedia \<Rightarrow> ContentIdentityViewModel" where
  "identityViewModel media =
     (let view = \<lparr>CiSummary = OmSummary media, CiDetail = OmDetail media, CiEvidence = [], CiIdentityStatus = [],
            CiAutoResumeReady = False\<rparr> in
      case OmObservation media of
        None \<Rightarrow> view
      | Some ob \<Rightarrow> view\<lparr>CiIdentityStatus := OvStatus ob,
          CiEvidence := (if 0 < OvAttemptedSamples ob
            then itoa (unat (OvAvailableSamples ob)) @ '' of '' @ itoa (unat (OvAttemptedSamples ob)) @
              '' fingerprint samples readable'' else [])\<rparr>)"

definition media_message :: "int \<Rightarrow> OpticalMedia \<Rightarrow> MediaIdentified" where
  "media_message i media = \<lparr>MiRequestID = i, MiIdentity = identityViewModel media, MiFileSystem = OmFileSystem media,
     MiVolumeLabel = OmVolumeLabel media, MiLogicalSectorSize = OmLogicalSectorSize media,
     MiCapacitySectors = OmCapacitySectors media, MiSuggestedOutputPath = OmSuggestedOutputPath media,
     MiRecoverable = OmRecoverable media, MiRecoverabilityNote = OmRecoverabilityNote media, MiErr = None\<rparr>"

definition no_media_message :: "int \<Rightarrow> AppError \<Rightarrow> MediaIdentified" where
  "no_media_message i e = \<lparr>MiRequestID = i, MiIdentity = \<lparr>CiSummary = [], CiDetail = [], CiEvidence = [],
     CiIdentityStatus = [], CiAutoResumeReady = False\<rparr>, MiFileSystem = [], MiVolumeLabel = [],
     MiLogicalSectorSize = 0, MiCapacitySectors = 0, MiSuggestedOutputPath = [], MiRecoverable = False,
     MiRecoverabilityNote = [], MiErr = Some e\<rparr>"

definition unsupported_eject :: AppError where
  "unsupported_eject = \<lparr>AeText = ''eject optical drive unsupported: the current platform adapter does not expose eject'',
     AeUnsupportedEnvironment = False, AeOperationCode = Some ErrorUnsupported\<rparr>"

definition unsupportedEffect :: "EffectRequestedMsg \<Rightarrow> Msg" where
  "unsupportedEffect r = FatalMsg (Some \<lparr>AeText = ''unsupported effect: '' @ (case ErKind r of EffectOther k \<Rightarrow> k | _ \<Rightarrow> []),
     AeUnsupportedEnvironment = False, AeOperationCode = None\<rparr>)"

definition runOpticalEffect :: "Answers \<Rightarrow> EffectRequestedMsg \<Rightarrow> Msg" where
  "runOpticalEffect w r =
     (case ErKind r of
        EffectDiscoverDevices \<Rightarrow>
          DevicesDiscoveredMsg (ErRequestID r) (toDeviceSummaries (fst (AwDrives w))) (snd (AwDrives w))
      | EffectIdentifyMedia \<Rightarrow>
          (case AwMedia w of
             Inl e \<Rightarrow> MediaIdentifiedMsg (no_media_message (ErRequestID r) e)
           | Inr media \<Rightarrow> MediaIdentifiedMsg (media_message (ErRequestID r) media))
      | EffectEject \<Rightarrow>
          if \<not> AwEjector w then EjectCompletedMsg (ErEject r) [] (Some unsupported_eject)
          else EjectCompletedMsg (ErEject r) (fst (AwEject w)) (snd (AwEject w))
      | _ \<Rightarrow> unsupportedEffect r)"

section \<open>History\<close>

definition target_input :: "('l, 'i, 'v, 's) Model \<Rightarrow> string \<Rightarrow> RecoveryInput" where
  "target_input m path = \<lparr>InDevicePath = DsPath (MdSelectedDrive m), InOutputPath = path,
     InLogicalSectorSize = MdMediaLogicalSectorSize m, InCapacitySectors = MdMediaCapacitySectors m,
     InMethod = None, InRetryUnresolved = False, InReadSpeed = None\<rparr>"

definition wrap_error :: "string \<Rightarrow> AppError \<Rightarrow> AppError" where
  "wrap_error t e = e\<lparr>AeText := t @ '': '' @ AeText e\<rparr>"

definition base_folder :: "string \<Rightarrow> string" where
  "base_folder p = (if TrimSpace p = [] then ''.'' else TrimSpace p)"

definition is_image :: "DirEntry \<Rightarrow> bool" where
  "is_image e \<longleftrightarrow> \<not> DeIsDir e \<and> EqualFold (path_Ext (DeName e)) ''.iso''"

text \<open>The order of equal names is not fixed by \<^verbatim>\<open>sort.Slice\<close>; here it is the order of the directory.\<close>

definition findResumableJobs ::
  "Answers \<Rightarrow> ('l, 'i, 'v, 's) Model \<Rightarrow> string \<Rightarrow> AppError + ResumableJobViewModel list" where
  "findResumableJobs w m path =
     (let base = base_folder path in
      case AwReadDir w base of
        Inl e \<Rightarrow> Inl (wrap_error (''find resumable recoveries in '' @ base) e)
      | Inr entries \<Rightarrow> Inr (sort_key (\<lambda>j. strings_ToLower (RjOutputPath j)) (concat (map (\<lambda>en.
          if \<not> is_image en then []
          else let out = filepath_Join base (DeName en) in
          (case AwInspect w (target_input m out) of (status, err) \<Rightarrow>
            if err \<noteq> None \<or> \<not> TsCanResume status then []
            else [\<lparr>RjOutputPath = out, RjMapPath = TsMapPath status, RjRecoveredSectors = TsRecoveredSectors status,
              RjDeferredSectors = 0, RjUnreadableSectors = TsUnreadableSectors status, RjDetail = TsDetail status\<rparr>]))
          entries))))"

definition lookupPriorProcessing ::
  "Answers \<Rightarrow> ('l, 'i, 'v, 's) Model \<Rightarrow> string \<Rightarrow>
   AppError + PriorProcessingViewModel \<times> PriorProcessingRecord list \<times> ResumableJobViewModel list" where
  "lookupPriorProcessing w m path =
     (case findResumableJobs w m path of
        Inl e \<Rightarrow> Inl e
      | Inr [] \<Rightarrow> Inr (prior_view PriorProcessingNone ''No matching contents found on this computer.'', [], [])
      | Inr (j # js) \<Rightarrow> Inr (
          (prior_view PriorProcessingStrongResumable
            (''Found '' @ itoa (length (j # js)) @ '' resumable matching recoveries in '' @ TrimSpace path @ ''.''))\<lparr>
             PvTitle := ''Matching contents were found on this computer'', PvImagePath := RjOutputPath j,
             PvRecovered := formatCount (RjRecoveredSectors j) @ '' sectors'',
             PvOptions := [''Resume the matching recovery'', ''Start a new recovery instead'', ''Choose another drive''],
             PvUnreadableSectors := (if 0 < RjUnreadableSectors j then formatCount (RjUnreadableSectors j) @ '' sectors'' else []),
             PvBody := [''The current disc matches saved recovery work on this computer.'',
               ''Use Resume an unfinished recovery to continue from the saved map.'']\<rparr>,
          map (\<lambda>x. \<lparr>PrTitle = filepath_Base (RjOutputPath x), PrDetail = RjDetail x\<rparr>) (j # js), j # js))"

fun processed_loop ::
  "Answers \<Rightarrow> ('l, 'i, 'v, 's) Model \<Rightarrow> string \<Rightarrow> DirEntry list \<Rightarrow> AppError + ProcessedMediaViewModel list" where
  "processed_loop w m base [] = Inr []"
| "processed_loop w m base (en # entries) =
     (if \<not> is_image en then processed_loop w m base entries
      else let out = filepath_Join base (DeName en); mapPath = replaceExtension out ''.drmap'' in
      (case DeInfo en of
         Inl e \<Rightarrow> Inl (wrap_error (''inspect processed media '' @ out) e)
       | Inr modified \<Rightarrow>
         let item = \<lparr>PmTitle = DeName en, PmImagePath = out, PmMapPath = [], PmStatus = ''Image only'',
               PmModifiedAt = modified, PmDetail = ''No recovery map was found next to this image.''\<rparr>;
             item1 = (case AwInspect w (target_input m out) of (status, err) \<Rightarrow>
               if err = None \<and> TsCanResume status
               then item\<lparr>PmMapPath := TsMapPath status, PmStatus := ''Resumable'', PmDetail := TsDetail status\<rparr>
               else if AwFileExists w mapPath
               then item\<lparr>PmMapPath := mapPath, PmStatus := ''Saved with map'',
                 PmDetail := ''A recovery map exists, but it does not match the currently selected disc.''\<rparr>
               else item)
         in map_sum id (\<lambda>items. item1 # items) (processed_loop w m base entries)))"

definition findProcessedMedia ::
  "Answers \<Rightarrow> ('l, 'i, 'v, 's) Model \<Rightarrow> string \<Rightarrow> AppError + ProcessedMediaViewModel list" where
  "findProcessedMedia w m path =
     (let base = base_folder path in
      case AwReadDir w base of
        Inl e \<Rightarrow> Inl (wrap_error (''browse processed media in '' @ base) e)
      | Inr entries \<Rightarrow> map_sum id (sort_key (\<lambda>i. strings_ToLower (PmTitle i))) (processed_loop w m base entries))"

definition no_prior_view :: PriorProcessingViewModel where
  "no_prior_view = prior_view PriorProcessingUnset []"

definition runHistoryEffect :: "Answers \<Rightarrow> ('l, 'i, 'v, 's) Model \<Rightarrow> EffectRequestedMsg \<Rightarrow> Msg" where
  "runHistoryEffect w m r =
     (case ErKind r of
        EffectLookupHistory \<Rightarrow>
          (case lookupPriorProcessing w m (ErBasePath r) of
             Inl e \<Rightarrow> PriorProcessingLookupMsg (ErRequestID r) no_prior_view [] [] (Some e)
           | Inr (view, records, jobs) \<Rightarrow> PriorProcessingLookupMsg (ErRequestID r) view records jobs None)
      | EffectFindResumeJobs \<Rightarrow>
          (case findResumableJobs w m (ErBasePath r) of
             Inl e \<Rightarrow> ResumableJobsDiscoveredMsg (ErRequestID r) [] (Some e)
           | Inr jobs \<Rightarrow> ResumableJobsDiscoveredMsg (ErRequestID r) jobs None)
      | EffectBrowseHistory \<Rightarrow>
          (case findProcessedMedia w m (ErBasePath r) of
             Inl e \<Rightarrow> ProcessedMediaDiscoveredMsg (ErRequestID r) [] (Some e)
           | Inr items \<Rightarrow> ProcessedMediaDiscoveredMsg (ErRequestID r) items None)
      | _ \<Rightarrow> unsupportedEffect r)"

section \<open>Recovery jobs\<close>

definition sector_bytes :: "('l, 'i, 'v, 's) Model \<Rightarrow> u64" where
  "sector_bytes m = (if MdMediaLogicalSectorSize m = 0 then 2048 else ucast (MdMediaLogicalSectorSize m))"

definition start_input :: "('l, 'i, 'v, 's) Model \<Rightarrow> RecoveryInput" where
  "start_input m = \<lparr>InDevicePath = DsPath (MdSelectedDrive m), InOutputPath = SuOutputPath (MdSetup m),
     InLogicalSectorSize = MdMediaLogicalSectorSize m, InCapacitySectors = MdMediaCapacitySectors m,
     InMethod = Some (SuMethod (MdSetup m)), InRetryUnresolved = SuRetryUnresolved (MdSetup m),
     InReadSpeed = Some (SuReadSpeed (MdSetup m))\<rparr>"

definition startRecoveryJob ::
  "Answers \<Rightarrow> ('l, 'i, 'v, 's) Model \<Rightarrow> programState \<Rightarrow> Msg \<times> programState \<times> JobCall list" where
  "startRecoveryJob w m st =
     (case AwStart w of
        Inl e \<Rightarrow> (JobStartFailedMsg (Some e), st, [CallStart (start_input m) None])
      | Inr job \<Rightarrow>
        let jobID = ''job-'' @ itoa (AwNow w); sn = AwSnapshot w in
        (JobStartedMsg \<lparr>StJobID = jobID, StOutputPath = SuOutputPath (MdSetup m),
           StPhase = (if SnResumed sn then ''Resuming optical recovery'' else ''Reading optical sectors''),
           StStatus = (if SnResumed sn then ''Resuming from the saved recovery map.''
             else ''Reading sectors from the selected optical drive.''),
           StTotalSectors = MdMediaCapacitySectors m, StScannedSectors = SnScannedSectors sn,
           StRecoveredSectors = SnCopiedBytes sn div sector_bytes m, StDeferredSectors = SnDeferredSectors sn,
           StUnreadableSectors = SnUnreadableSectors sn\<rparr>,
         st\<lparr>PgActiveRecovery := Some job, PgActiveJobID := jobID, PgPendingPause := False\<rparr>,
         [CallStart (start_input m) (Some job)]))"

definition status :: "string \<Rightarrow> Severity \<Rightarrow> Msg" where
  "status t sev = StatusMsg t sev None contextNone"

definition error_status :: "AppError \<Rightarrow> Msg" where
  "error_status e = StatusMsg [] SeverityInfo (Some e) contextRecovery"

definition request_stop ::
  "Answers \<Rightarrow> nat \<Rightarrow> StopIntent \<Rightarrow> string \<Rightarrow> string \<Rightarrow> Severity \<Rightarrow> programState \<Rightarrow> Msg \<times> programState \<times> JobCall list" where
  "request_stop w job intent requested canceled sev st =
     (if AwStoppable w then
        (case AwRequestStop w of
           Some e \<Rightarrow> (error_status e, st, [CallRequestStop job intent])
         | None \<Rightarrow> (status requested sev, st, [CallRequestStop job intent]))
      else (status canceled sev, st, [CallCancel job]))"

definition runRecoveryEffect ::
  "Answers \<Rightarrow> ('l, 'i, 'v, 's) Model \<Rightarrow> EffectRequestedMsg \<Rightarrow> programState \<Rightarrow> Msg \<times> programState \<times> JobCall list" where
  "runRecoveryEffect w m r st =
     (if ErKind r = EffectInspectTarget then
        (case AwInspect w (target_input m (ErOutputPath r)) of (ts, err) \<Rightarrow>
          (RecoveryTargetInspectedMsg (ErRequestID r) ts err, st, []))
      else if ErKind r = EffectStartJob then startRecoveryJob w m st
      else if ErKind r = EffectResumeJob then
        (if PgActiveRecovery st \<noteq> None then (status ''Recovery is already running.'' SeverityWarning, st, [])
         else startRecoveryJob w m st)
      else if ErKind r = EffectPauseJob then
        (case PgActiveRecovery st of
           None \<Rightarrow> (status ''No active recovery job is available to pause.'' SeverityWarning, st, [])
         | Some job \<Rightarrow> request_stop w job StopIntentPause ''Pause requested; saving durable recovery state.''
             ''Pause requested after the current read completes.'' SeverityInfo (st\<lparr>PgPendingPause := True\<rparr>))
      else if ErKind r = EffectStopJob then
        (case PgActiveRecovery st of
           None \<Rightarrow> (status ''No active recovery job is available to stop.'' SeverityWarning, st, [])
         | Some job \<Rightarrow> request_stop w job StopIntentStop ''Stop requested; saving durable recovery state.''
             ''Stop requested after the current read completes.'' SeverityWarning (st\<lparr>PgPendingPause := False\<rparr>))
      else if ErKind r = EffectStopNow then
        (case PgActiveRecovery st of
           None \<Rightarrow> (status ''No active recovery job is available to stop.'' SeverityWarning, st, [])
         | Some job \<Rightarrow>
           if \<not> AwStoppable w \<or> \<not> SnCanForceStop (AwSnapshot w)
           then (status ''Force stop is unavailable until the recovery worker needs escalation.'' SeverityWarning, st, [])
           else (case AwForceStop w of
               Some e \<Rightarrow> (error_status e, st\<lparr>PgPendingPause := False\<rparr>, [CallForceStop job])
             | None \<Rightarrow> (status ''Force-stopping the active device request; durable state is preserved.'' SeverityWarning,
                 st\<lparr>PgPendingPause := False\<rparr>, [CallForceStop job])))
      else (unsupportedEffect r, st, []))"

definition runEffect ::
  "Answers \<Rightarrow> ('l, 'i, 'v, 's) Model \<Rightarrow> EffectRequestedMsg \<Rightarrow> programState \<Rightarrow> Msg \<times> programState \<times> JobCall list" where
  "runEffect w m r st =
     (if ErKind r \<in> {EffectDiscoverDevices, EffectIdentifyMedia, EffectEject} then (runOpticalEffect w r, st, [])
      else if ErKind r \<in> {EffectLookupHistory, EffectFindResumeJobs, EffectBrowseHistory} then (runHistoryEffect w m r, st, [])
      else if ErKind r \<in> {EffectInspectTarget, EffectStartJob, EffectPauseJob, EffectResumeJob, EffectStopJob, EffectStopNow}
      then runRecoveryEffect w m r st
      else (unsupportedEffect r, st, []))"

section \<open>Polling\<close>

definition followUp :: "Msg \<Rightarrow> programState \<Rightarrow> bool" where
  "followUp msg st \<longleftrightarrow> (case msg of JobStartedMsg _ \<Rightarrow> True | JobPausedMsg _ \<Rightarrow> True | ProgressMsg _ \<Rightarrow> True
     | StatusMsg _ _ _ _ \<Rightarrow> True | _ \<Rightarrow> False) \<and> PgActiveRecovery st \<noteq> None"

text \<open>The summary of a job that is done. The history is not written.\<close>

definition done_summary :: "('l, 'i, 'v, 's) Model \<Rightarrow> RecoverySnapshot \<Rightarrow> JobSummary \<times> AppError option" where
  "done_summary m sn =
     (let s = \<lparr>SmOutcome = [], SmImagePath = SuOutputPath (MdSetup m), SmMapPath = SnMapPath sn, SmNextAction = [],
            SmUnresolvedSectors = SnDeferredSectors sn + SnUnreadableSectors sn,
            SmDeferredSectors = SnDeferredSectors sn, SmRecoveredSectors = SnCopiedBytes sn div sector_bytes m,
            SmTotalSectors = MdMediaCapacitySectors m, SmDuration = seconds_String (round_second (SnElapsed sn)),
            SmCatalogStatus = Some \<lparr>CwState = CatalogWriteNotAttempted, CwDetail = None\<rparr>\<rparr> in
      if SnCanceled sn then
        (s\<lparr>SmOutcome := ''Recovery stopped'', SmNextAction := ''The image and recovery map are safe to resume later.''\<rparr>, None)
      else if SnErrText sn \<noteq> [] then
        (s\<lparr>SmOutcome := ''Recovery failed'', SmNextAction := ''Fix the reported problem or choose a different output target.''\<rparr>,
         Some \<lparr>AeText = SnErrText sn, AeUnsupportedEnvironment = False, AeOperationCode = None\<rparr>)
      else if 0 < SnUnreadableSectors sn then
        (s\<lparr>SmOutcome := ''Recovery finished with unreadable sectors'',
           SmNextAction := ''Retry unresolved sectors or inspect the saved recovery image.''\<rparr>, None)
      else if 0 < SnDeferredSectors sn then
        (s\<lparr>SmOutcome := ''Recovery finished with deferred sectors'',
           SmNextAction := ''Retry deferred sectors with the saved recovery image and map.''\<rparr>, None)
      else (s\<lparr>SmOutcome := ''Recovery complete'', SmNextAction := ''Recovery image is ready.''\<rparr>, None))"

definition progress_of :: "('l, 'i, 'v, 's) Model \<Rightarrow> RecoverySnapshot \<Rightarrow> programState \<Rightarrow> ProgressSnapshot" where
  "progress_of m sn st = \<lparr>
     PsPhase = (if SnResumed sn then ''Resuming optical recovery'' else ''Reading optical sectors''),
     PsScannedSectors = SnScannedSectors sn, PsRecoveredSectors = SnCopiedBytes sn div sector_bytes m,
     PsDeferredSectors = SnDeferredSectors sn, PsTotalSectors = MdMediaCapacitySectors m,
     PsUnreadableSectors = SnUnreadableSectors sn,
     PsStatus = (if SnResumed sn then ''Continuing from the saved recovery map.''
       else ''Reading sectors from the selected optical drive.''),
     PsElapsed = elapsedLabel (SnElapsed sn),
     PsRemaining = humanBytes (SnTotalBytes sn - SnCopiedBytes sn) @ '' remaining'',
     PsETA = telemetryETA (SnETA sn), PsThroughput = telemetryThroughput (SnRate sn), PsLastIssue = SnLastIssue sn,
     PsOutputPath = SuOutputPath (MdSetup m), PsPausePending = PgPendingPause st,
     PsStopPending = (SnStopIntent sn = Some StopIntentStop), PsForceStopAvailable = SnCanForceStop sn\<rparr>"

definition poll :: "RecoverySnapshot \<Rightarrow> ('l, 'i, 'v, 's) Model \<Rightarrow> programState \<Rightarrow> Msg option \<times> programState" where
  "poll sn m st =
     (if PgActiveRecovery st = None then (None, st)
      else if SnDone sn then
        (let st1 = st\<lparr>PgActiveRecovery := None\<rparr> in
         if PgPendingPause st1 then
           (Some (JobPausedMsg \<lparr>PzOutputPath = SuOutputPath (MdSetup m), PzMapPath = SnMapPath sn,
              PzScannedSectors = 0, PzRecoveredSectors = SnCopiedBytes sn div sector_bytes m, PzDeferredSectors = 0,
              PzTotalSectors = MdMediaCapacitySectors m, PzUnreadableSectors = SnUnreadableSectors sn\<rparr>),
            st1\<lparr>PgPendingPause := False\<rparr>)
         else (case done_summary m sn of (s, err) \<Rightarrow> (Some (JobStoppedMsg s err), st1)))
      else (Some (ProgressMsg (progress_of m sn st)), st))"

section \<open>The program model\<close>

definition recoveryPassStatus :: "string \<Rightarrow> string" where
  "recoveryPassStatus pass =
     (if pass = ''Fast acquisition''
      then ''Scanning forward with large reads; failed ranges are deferred so recovery can keep moving.''
      else if pass = ''Trimming deferred ranges''
      then ''Recovering readable edges around deferred ranges with bounded reads.''
      else if HasPrefix pass ''Adaptive recovery''
      then ''Revisiting deferred ranges with progressively smaller bounded reads.''
      else if pass = ''Targeted retry''
      then ''Running bounded targeted retries on the smallest unresolved ranges.''
      else if pass = ''Complete'' then ''Recovery passes are complete.''
      else ''Reading sectors from the selected optical drive.'')"

definition overlay_snapshot :: "RecoverySnapshot \<Rightarrow> ('l, 'i, 'v, 's) Model \<Rightarrow> ('l, 'i, 'v, 's) Model" where
  "overlay_snapshot sn = recovery_with (\<lambda>r.
     let r1 = r\<lparr>RvScannedSectors := SnScannedSectors sn, RvDeferredSectors := SnDeferredSectors sn,
           RvUnreadableSectors := SnUnreadableSectors sn\<rparr>
     in if TrimSpace (SnPass sn) \<noteq> [] then r1\<lparr>RvPhase := SnPass sn, RvStatus := recoveryPassStatus (SnPass sn)\<rparr> else r1)"

definition finished_outcomes :: "string list" where
  "finished_outcomes = [''Recovery complete'', ''Recovery finished with deferred sectors'', ''Recovery finished with unreadable sectors'']"

text \<open>The counts of the decorated model, \<open>prev\<close>, are kept where a message has none.\<close>

definition overlay_message :: "RecoveryViewModel \<Rightarrow> Msg \<Rightarrow> ('l, 'i, 'v, 's) Model \<Rightarrow> ('l, 'i, 'v, 's) Model" where
  "overlay_message prev msg m =
     (case msg of
        JobStartedMsg x \<Rightarrow> recovery_with (\<lambda>r.
          let r1 = (if RvScannedSectors r = 0 then r\<lparr>RvScannedSectors := StScannedSectors x\<rparr> else r)
          in if RvDeferredSectors r1 = 0 then r1\<lparr>RvDeferredSectors := StDeferredSectors x\<rparr> else r1) m
      | JobPausedMsg x \<Rightarrow> recovery_with (\<lambda>r. r\<lparr>
          RvScannedSectors := (if 0 < PzScannedSectors x then PzScannedSectors x else RvScannedSectors prev),
          RvDeferredSectors := (if 0 < PzDeferredSectors x then PzDeferredSectors x else RvDeferredSectors prev)\<rparr>) m
      | JobStoppedMsg s err \<Rightarrow>
          if SmOutcome s \<in> set finished_outcomes
          then (recovery_with (\<lambda>r. r\<lparr>RvScannedSectors := RvTotalSectors r, RvDeferredSectors := SmDeferredSectors s\<rparr>) m)\<lparr>
            MdSummary := (MdSummary m)\<lparr>SmDeferredSectors := SmDeferredSectors s\<rparr>\<rparr>
          else (recovery_with (\<lambda>r. r\<lparr>RvScannedSectors := RvScannedSectors prev, RvDeferredSectors := RvDeferredSectors prev\<rparr>) m)\<lparr>
            MdSummary := (MdSummary m)\<lparr>SmDeferredSectors := RvDeferredSectors prev,
              SmUnresolvedSectors := SmUnresolvedSectors (MdSummary m) + RvDeferredSectors prev\<rparr>\<rparr>
      | _ \<Rightarrow> m)"

text \<open>The commands a message leaves behind, each with the model it was made for: an effect, a poll after
  100 milliseconds, and the commands of widgets and of quitting.\<close>

datatype Task = TaskEffect EffectRequestedMsg | TaskQuit | TaskWidget | TaskSpinner | TaskPoll

definition tasks_of :: "Cmd \<Rightarrow> Task list" where
  "tasks_of c = (case c of NoCmd \<Rightarrow> [] | Request r \<Rightarrow> [TaskEffect r] | QuitCmd \<Rightarrow> [TaskQuit] | WidgetCmd \<Rightarrow> [TaskWidget])"

definition ProgramModel_Update ::
  "('l, 'i, 'v, 's) Bubbles \<Rightarrow> Msg \<Rightarrow> ('l, 'i, 'v, 's) Model \<Rightarrow> programState \<Rightarrow> (('l, 'i, 'v, 's) Model \<times> Task list) option" where
  "ProgramModel_Update B msg m st =
     (case updateMessage B msg m of
        None \<Rightarrow> None
      | Some (m1, c) \<Rightarrow>
        Some (m1\<lparr>MdRestartLoadingSpinner := False\<rparr>,
          tasks_of c @ (if MdRestartLoadingSpinner m1 then [TaskSpinner] else []) @
          (if followUp msg st then [TaskPoll] else [])))"

definition RecoveryProgram_Update ::
  "('l, 'i, 'v, 's) Bubbles \<Rightarrow> RecoverySnapshot \<Rightarrow> Msg \<Rightarrow> ('l, 'i, 'v, 's) Model \<Rightarrow> programState \<Rightarrow>
   (('l, 'i, 'v, 's) Model \<times> (Task \<times> ('l, 'i, 'v, 's) Model) list) option" where
  "RecoveryProgram_Update B sn msg m st =
     (case ProgramModel_Update B msg m st of
        None \<Rightarrow> None
      | Some (m1, tasks) \<Rightarrow>
        let m2 = (if PgActiveRecovery st \<noteq> None then overlay_snapshot sn m1 else m1)
        in Some (overlay_message (MdRecovery m) msg m2, map (\<lambda>t. (t, m1)) tasks))"

end
