(* ===== verification/Job.thy ===== *)
theory Job
  imports MapIdentity Strategy Lifecycle AppRuntime
begin

text \<open>
  A recovery job on Linux, from the request to its end (\<^verbatim>\<open>internal/platform\<close>:
  \<^verbatim>\<open>recovery_linux.go\<close>, \<^verbatim>\<open>recovery_target_linux.go\<close>,
  \<^verbatim>\<open>recovery_map_linux.go\<close>, \<^verbatim>\<open>recovery_output_linux.go\<close>,
  \<^verbatim>\<open>recovery_run_linux.go\<close>, \<^verbatim>\<open>recovery_job_linux.go\<close>). Directories are not
  modelled: making them takes an answer of the script. What other goroutines did to the lifecycle
  while the job ran is an argument of \<open>run\<close>; their methods are functions on the job. No job has a
  startup transaction: \<^verbatim>\<open>StartImageRecovery\<close> leaves the field nil.
\<close>

section \<open>More of the operating system\<close>

definition os_Stat :: "World \<Rightarrow> string \<Rightarrow> nat result \<times> World" where
  "os_Stat w p =
     (case next_io w of (a, w1) \<Rightarrow>
        (case io_error a of
           Some e \<Rightarrow> (Inl e, w1)
         | None \<Rightarrow> if Files w1 p = None then (Inl ErrNotExist, w1) else (Inr (length (contents w1 p)), w1)))"

text \<open>\<^verbatim>\<open>os.OpenFile\<close> with \<^verbatim>\<open>O_RDWR|O_CREATE\<close>.\<close>

definition os_OpenCreate :: "World \<Rightarrow> string \<Rightarrow> error option \<times> World" where
  "os_OpenCreate w p =
     (case next_io w of (a, w1) \<Rightarrow>
        (case io_error a of
           Some e \<Rightarrow> (Some e, w1)
         | None \<Rightarrow> (None, if Files w1 p = None then put_file w1 p [] else w1)))"

definition os_Truncate :: "World \<Rightarrow> string \<Rightarrow> u64 \<Rightarrow> error option \<times> World" where
  "os_Truncate w p n =
     (case next_io w of (a, w1) \<Rightarrow>
        (case io_error a of
           Some e \<Rightarrow> (Some e, w1)
         | None \<Rightarrow> if sint n < 0 then (Some (ErrIO ''invalid argument''), w1)
             else (None, put_file w1 p (take (unat n) (contents w1 p @ replicate (unat n - length (contents w1 p)) 0)))))"

definition os_MkdirAll :: "World \<Rightarrow> string \<Rightarrow> error option \<times> World" where
  "os_MkdirAll w p = (case next_io w of (a, w1) \<Rightarrow> (io_error a, w1))"

fun error_text :: "error \<Rightarrow> string" where
  "error_text (Errorf t) = t"
| "error_text (Wrapf t e) = t @ '': '' @ error_text e"
| "error_text (Join a b) = error_text a @ [CHR 0x0A] @ error_text b"
| "error_text ErrTruncatedRecord = ''truncated record''"
| "error_text ErrStopRequested = ''recovery stop requested''"
| "error_text ErrClosedPipe = ''io: read/write on closed pipe''"
| "error_text ErrEOF = ''EOF''"
| "error_text ErrUnexpectedEOF = ''unexpected EOF''"
| "error_text ErrShortWrite = ''short write''"
| "error_text ErrNotExist = ''file does not exist''"
| "error_text ErrPermission = ''permission denied''"
| "error_text ErrCanceled = ''context canceled''"
| "error_text ErrDeadlineExceeded = ''context deadline exceeded''"
| "error_text (ErrIO t) = t"

section \<open>The target\<close>

record JobInput = RecoveryInput +
  InBinding :: "MapBinding option"

definition method_of :: "('a RecoveryInput_scheme) \<Rightarrow> RecoveryMethod" where
  "method_of i = (case InMethod i of None \<Rightarrow> RecoveryMethodOther [] | Some m \<Rightarrow> m)"

definition image_bytes :: "('a RecoveryInput_scheme) \<Rightarrow> u64" where
  "image_bytes i = InCapacitySectors i * ucast (InLogicalSectorSize i)"

definition input_geometry :: "('a RecoveryInput_scheme) \<Rightarrow> Geometry" where
  "input_geometry i = \<lparr>GeomSectorSize = InLogicalSectorSize i, GeomSectorCount = InCapacitySectors i\<rparr>"

definition no_output :: "string \<Rightarrow> bool" where
  "no_output p \<longleftrightarrow> p = [] \<or> p = ''Not chosen yet''"

definition missing :: "nat result \<Rightarrow> bool" where
  "missing r \<longleftrightarrow> (case r of Inl e \<Rightarrow> errors_Is e ErrNotExist | Inr _ \<Rightarrow> False)"

definition found :: "nat result \<Rightarrow> bool" where
  "found r \<longleftrightarrow> (case r of Inl _ \<Rightarrow> False | Inr _ \<Rightarrow> True)"

definition linuxRecoveryMapPath :: "string \<Rightarrow> string" where
  "linuxRecoveryMapPath p =
     (if path_Ext p = ''.iso'' then take (length p - length (path_Ext p)) p @ ''.drmap'' else p @ ''.drmap'')"

definition target_status :: "string \<Rightarrow> ('a RecoveryInput_scheme) \<Rightarrow> RecoveryTargetStatus" where
  "target_status mapPath i = \<lparr>TsOutputPath = InOutputPath i, TsMapPath = mapPath, TsCanStartNew = False, TsCanResume = False,
     TsRecoveredSectors = 0, TsDeferredSectors = 0, TsUnreadableSectors = 0, TsRequiredBytes = image_bytes i,
     TsAvailableBytes = 0, TsSpaceKnown = False, TsDetail = []\<rparr>"

definition InspectRecoveryTarget_linux :: "World \<Rightarrow> ('a RecoveryInput_scheme) \<Rightarrow> RecoveryTargetStatus result \<times> World" where
  "InspectRecoveryTarget_linux w i =
     (if no_output (InOutputPath i) then (Inl (Errorf ''inspect recovery target: output path is not configured''), w)
      else let mapPath = linuxRecoveryMapPath (InOutputPath i); st = target_status mapPath i in
      (case os_Stat w (InOutputPath i) of (outputStat, w1) \<Rightarrow>
      (case os_Stat w1 mapPath of (mapStat, w2) \<Rightarrow>
        if missing outputStat \<and> missing mapStat then
          (Inr (st\<lparr>TsCanStartNew := True, TsDetail := ''A new Linux raw optical recovery will be created at this path.''\<rparr>), w2)
        else if found outputStat \<and> found mapStat then
          (case Inspect w2 mapPath (input_geometry i) of
             (Inl e, w3) \<Rightarrow> (Inl (Wrapf ''inspect recovery target: load map'' e), w3)
           | (Inr (hdr, es), w3) \<Rightarrow>
             (case summarizeRecoveryExtentStates es of (scanned, recovered, deferred, unreadable) \<Rightarrow>
               (Inr (st\<lparr>TsCanResume := True, TsRecoveredSectors := recovered, TsDeferredSectors := deferred,
                  TsUnreadableSectors := unreadable,
                  TsDetail := ''Resume Linux recovery from '' @ itoa (unat recovered) @ '' recovered sectors, '' @
                    itoa (unat deferred) @ '' deferred sectors, and '' @ itoa (unat unreadable) @ '' unreadable sectors.''\<rparr>), w3)))
        else if found outputStat \<and> missing mapStat then
          (Inr (st\<lparr>TsDetail := ''Output image '' @ InOutputPath i @ '' exists without '' @ mapPath @ ''.''\<rparr>), w2)
        else if missing outputStat \<and> found mapStat then
          (Inr (st\<lparr>TsDetail := ''Recovery map '' @ mapPath @ '' exists without image '' @ InOutputPath i @ ''.''\<rparr>), w2)
        else (Inl (Errorf ''inspect recovery target: check output and map''), w2))))"

section \<open>Starting\<close>

definition make_folder :: "World \<Rightarrow> string \<Rightarrow> error option \<times> World" where
  "make_folder w p = (if filepath_Dir p \<noteq> ''.'' then os_MkdirAll w (filepath_Dir p) else (None, w))"

definition new_transaction :: StartupTransaction where
  "new_transaction = \<lparr>paths = [], committed = False\<rparr>"

text \<open>The branch of \<^verbatim>\<open>openLinuxRecoveryMap\<close> for a new recovery. Tracking and committing behind
  the last error change nothing outside the transaction.\<close>

definition create_target_linux :: "World \<Rightarrow> u64 \<Rightarrow> string \<Rightarrow> JobInput \<Rightarrow> (Store \<times> bool) result \<times> World" where
  "create_target_linux w unixNano mapPath i =
     (case make_folder w (InOutputPath i) of
        (Some e, w1) \<Rightarrow> (Inl e, w1)
      | (None, w1) \<Rightarrow>
     (case os_Create_excl w1 (InOutputPath i) of
        (Some e, w2) \<Rightarrow> (Inl (Wrapf ''prepare Linux output'' e), w2)
      | (None, w2) \<Rightarrow>
     (case os_Truncate w2 (InOutputPath i) (image_bytes i) of
        (Some e, w3) \<Rightarrow> (Inl e, snd (os_Close w3))
      | (None, w3) \<Rightarrow>
     (case os_Close w3 of
        (Some e, w4) \<Rightarrow> (Inl e, w4)
      | (None, w4) \<Rightarrow>
        let t = TrackCreated new_transaction (InOutputPath i) in
     (case recoveryMapHeader (InLogicalSectorSize i) (InCapacitySectors i) unixNano (InBinding i) of
        Inl e \<Rightarrow> (Inl e, snd (Rollback w4 t))
      | Inr h \<Rightarrow>
     (case Create w4 mapPath h of
        (Inl e, w5) \<Rightarrow> (Inl e, snd (Rollback w5 t))
      | (Inr s, w5) \<Rightarrow> (Inr (s, False), w5)))))))"

definition openLinuxRecoveryMap :: "World \<Rightarrow> u64 \<Rightarrow> JobInput \<Rightarrow> (Store \<times> bool) result \<times> World" where
  "openLinuxRecoveryMap w unixNano i =
     (case InspectRecoveryTarget_linux w i of
        (Inl e, w1) \<Rightarrow> (Inl e, w1)
      | (Inr st, w1) \<Rightarrow>
        if TsCanStartNew st then create_target_linux w1 unixNano (TsMapPath st) i
        else if TsCanResume st then
          (case Open w1 (TsMapPath st) (input_geometry i) of
             (Inl e, w2) \<Rightarrow> (Inl e, w2)
           | (Inr s, w2) \<Rightarrow> (Inr (s, True), w2))
        else (Inl (Errorf (''start image recovery: '' @ TsDetail st)), w1))"

record JobSnapshot = RecoverySnapshot +
  SnState :: LifeState
  SnCumulativeRecoveredBytes :: u64
  SnMethod :: RecoveryMethod

record RecoveryJob =
  JbStore :: Store
  JbLifecycle :: Lifecycle
  JbSnapshot :: JobSnapshot
  JbTimer :: bool

text \<open>The snapshot of a new job; times and rates are those of the telemetry, which is left out.\<close>

definition first_snapshot :: "JobInput \<Rightarrow> Store \<Rightarrow> bool \<Rightarrow> JobSnapshot" where
  "first_snapshot i s resumed =
     (case summarizeRecoveryExtentStates (extents s) of (scanned, recovered, deferred, unreadable) \<Rightarrow>
       \<lparr>SnElapsed = 0, SnTotalBytes = image_bytes i, SnCopiedBytes = recovered * ucast (InLogicalSectorSize i),
        SnRate = None, SnETA = None, SnScannedSectors = recovered + deferred + unreadable, SnDeferredSectors = deferred,
        SnUnreadableSectors = unreadable, SnPass = ''Fast acquisition'', SnMapPath = path s, SnResumed = resumed,
        SnLastIssue = [], SnDone = False, SnCanceled = False, SnErrText = [], SnStopIntent = None, SnCanForceStop = False,
        SnState = JobRunning, SnCumulativeRecoveredBytes = 0, SnMethod = method_of i\<rparr>)"

definition StartImageRecovery_linux :: "World \<Rightarrow> u64 \<Rightarrow> JobInput \<Rightarrow> RecoveryJob result \<times> World" where
  "StartImageRecovery_linux w unixNano i =
     (if InDevicePath i = [] \<or> no_output (InOutputPath i)
      then (Inl (Errorf ''start image recovery: device and output paths are required''), w)
      else if InLogicalSectorSize i = 0 \<or> InCapacitySectors i = 0
      then (Inl (Errorf ''start image recovery: media geometry is required''), w)
      else (case PolicyForMethod (method_of i) of
          Inl e \<Rightarrow> (Inl (Wrapf ''start image recovery'' e), w)
        | Inr _ \<Rightarrow>
      (case openLinuxRecoveryMap w unixNano i of
          (Inl e, w1) \<Rightarrow> (Inl e, w1)
        | (Inr (s, resumed), w1) \<Rightarrow>
      (case Start NewLifecycle of
          (Some e, _) \<Rightarrow> (case Close w1 s False of (_, _, w2) \<Rightarrow> (Inl e, w2))
        | (None, l) \<Rightarrow>
          (Inr \<lparr>JbStore = s, JbLifecycle = l, JbSnapshot = (first_snapshot i s resumed)\<lparr>SnState := lstate l\<rparr>,
             JbTimer = False\<rparr>, w1)))))"

section \<open>Running\<close>

text \<open>With no startup transaction an image that exists is opened and brought to its length.\<close>

definition openLinuxOutput :: "World \<Rightarrow> JobInput \<Rightarrow> error option \<times> World" where
  "openLinuxOutput w i =
     (case make_folder w (InOutputPath i) of
        (Some e, w1) \<Rightarrow> (Some (Wrapf ''create output directory'' e), w1)
      | (None, w1) \<Rightarrow>
     (case os_OpenCreate w1 (InOutputPath i) of
        (Some e, w2) \<Rightarrow> (Some (Wrapf ''create output image'' e), w2)
      | (None, w2) \<Rightarrow>
     (case os_Truncate w2 (InOutputPath i) (image_bytes i) of
        (Some e, w3) \<Rightarrow> (Some (Wrapf ''prepare output image'' e), snd (os_Close w3))
      | (None, w3) \<Rightarrow> (None, w3))))"

definition report :: "u32 \<Rightarrow> RecoveryPassProgress \<Rightarrow> JobSnapshot \<Rightarrow> JobSnapshot" where
  "report sectorSize x sn = sn\<lparr>SnCopiedBytes := RecoveredSectors x * ucast sectorSize,
     SnCumulativeRecoveredBytes := RecoveredSectors x * ucast sectorSize, SnScannedSectors := ScannedSectors x,
     SnDeferredSectors := DeferredSectors x, SnUnreadableSectors := UnreadableSectors x, SnPass := ProgPass x,
     SnLastIssue := LastIssue x\<rparr>"

definition finish_job_linux :: "bool \<Rightarrow> error option \<Rightarrow> RecoveryJob \<Rightarrow> World \<Rightarrow> RecoveryJob \<times> World" where
  "finish_job_linux canceled err j w =
     (let sn = (JbSnapshot j)\<lparr>SnDone := True, SnCanceled := canceled\<rparr>;
          sn1 = (case err of None \<Rightarrow> sn | Some e \<Rightarrow> sn\<lparr>SnErrText := error_text e\<rparr>)
      in (case Close w (JbStore j) (canceled \<or> err = None) of (closeErr, s, w1) \<Rightarrow>
        let sn2 = (case closeErr of
                None \<Rightarrow> sn1 | Some e \<Rightarrow> sn1\<lparr>SnErrText := SnErrText sn1 @ [CHR 0x0A] @ error_text e\<rparr>);
            l = finish_linux (JbLifecycle j) canceled err
        in (j\<lparr>JbStore := s, JbLifecycle := l, JbTimer := False,
              JbSnapshot := sn2\<lparr>SnState := lstate l, SnCanForceStop := canForce l\<rparr>\<rparr>, w1)))"

text \<open>What happens to the job outside of its own goroutine and below it: how opening the device ends,
  the medium, how its reads end (the refusals of
  the lifecycle's gate among them), the answers of the context and of the clock, and the lifecycle that
  requests have left when the job finishes.\<close>

record RunEnv =
  EnSource :: "error option"
  EnMedium :: "nat \<Rightarrow> u8"
  EnReads :: "io list"
  EnCtx :: "error option list"
  EnClock :: "int list"
  EnLifecycle :: Lifecycle

definition run_linux :: "RunEnv \<Rightarrow> JobInput \<Rightarrow> RecoveryJob \<Rightarrow> World \<Rightarrow> RecoveryJob \<times> World" where
  "run_linux en i j0 w =
     (let j = j0\<lparr>JbLifecycle := EnLifecycle en\<rparr> in
      case EnSource en of
        Some e \<Rightarrow> finish_job_linux False (Some e) j w
      | None \<Rightarrow>
     (case openLinuxOutput w i of
        (Some e, w1) \<Rightarrow> finish_job_linux False (Some e) j w1
      | (None, w1) \<Rightarrow>
        let p = newRecoveryPersistence w1 (InOutputPath i) (JbStore j) (EnClock en);
            close_output = (\<lambda>(j, w). (j, snd (os_Close w))) in
     (case PolicyForMethod (method_of i) of
        Inl e \<Rightarrow> close_output (finish_job_linux False (Some e) j w1)
      | Inr policy0 \<Rightarrow>
        let policy = (if InRetryUnresolved i then retryPolicyWithCurrentAttempts policy0 (extents (JbStore j)) else policy0) in
     (case runPassBasedRecoveryWithPolicy persistence_store platformFatal_linux (EnMedium en) (InLogicalSectorSize i)
          (InCapacitySectors i) policy \<lparr>runStore = p, Reads = EnReads en, CtxErrs = EnCtx en, Reported = []\<rparr> of (err, r) \<Rightarrow>
        let j1 = j\<lparr>JbStore := store (runStore r),
              JbSnapshot := foldl (\<lambda>sn x. report (InLogicalSectorSize i) x sn) (JbSnapshot j) (Reported r)\<rparr>;
            w2 = disk (runStore r)
        in close_output (case err of
          Some e \<Rightarrow> if errors_Is e ErrCanceled then finish_job_linux True None j1 w2
            else finish_job_linux False (Some (Wrapf ''recover Linux image'' e)) j1 w2
        | None \<Rightarrow>
          (case os_Sync w2 (InOutputPath i) of
             (Some e, w3) \<Rightarrow> finish_job_linux False (Some (Wrapf ''sync output image'' e)) j1 w3
           | (None, w3) \<Rightarrow> finish_job_linux False None j1 w3))))))"

section \<open>Stopping\<close>

text \<open>\<^verbatim>\<open>RequestStop\<close> cancels the context as well; the second component says so.\<close>

definition Job_RequestStop :: "StopIntent \<Rightarrow> RecoveryJob \<Rightarrow> error option \<times> bool \<times> RecoveryJob" where
  "Job_RequestStop intent j =
     (case RequestStop (JbLifecycle j) intent of
        (Some e, l) \<Rightarrow> (Some e, False, j\<lparr>JbLifecycle := l\<rparr>)
      | (None, l) \<Rightarrow> (None, True, j\<lparr>JbLifecycle := l, JbTimer := JbTimer j \<or> lstate l = JobCancelingRead,
          JbSnapshot := (JbSnapshot j)\<lparr>SnState := lstate l, SnStopIntent := Some intent, SnCanForceStop := canForce l\<rparr>\<rparr>))"

definition Job_GraceExpired :: "RecoveryJob \<Rightarrow> RecoveryJob" where
  "Job_GraceExpired j =
     (let l = snd (GraceExpired (JbLifecycle j)) in
      j\<lparr>JbLifecycle := l, JbSnapshot := (JbSnapshot j)\<lparr>SnState := lstate l, SnCanForceStop := canForce l\<rparr>\<rparr>)"

text \<open>\<open>interrupt\<close> is how interrupting the source ends, \<open>None\<close> when it cannot be interrupted.\<close>

definition Job_ForceStop :: "error option option \<Rightarrow> RecoveryJob \<Rightarrow> error option \<times> bool \<times> RecoveryJob" where
  "Job_ForceStop interrupt j =
     (case ForceStop (JbLifecycle j) of
        (Some e, l) \<Rightarrow> (Some e, False, j\<lparr>JbLifecycle := l\<rparr>)
      | (None, l) \<Rightarrow>
        ((case interrupt of
            Some (Some e) \<Rightarrow> if errors_Is e ErrClosedPipe then None else Some (Wrapf ''force stop active device request'' e)
          | _ \<Rightarrow> None), True,
         j\<lparr>JbLifecycle := l, JbSnapshot := (JbSnapshot j)\<lparr>SnState := lstate l, SnCanForceStop := False\<rparr>\<rparr>))"

end
