(* ===== verification/JobProps.thy ===== *)
theory JobProps
  imports Job StrategyProps
begin

text \<open>
  A Linux job from its request to its end: what a new recovery leaves, and what failures of the disk
  leave behind that the application does not say.
\<close>

section \<open>Files without failures\<close>

lemma os_done:
  assumes "Script w = []"
  shows "os_Stat w p = (if Files w p = None then Inl ErrNotExist else Inr (length (contents w p)), w)"
    "os_Create_excl w p = (if Files w p = None then (None, put_file w p []) else (Some (ErrIO ''file exists''), w))"
    "os_OpenCreate w p = (None, if Files w p = None then put_file w p [] else w)"
    "os_Close w = (None, w)" "make_folder w p = (None, w)"
    "\<not> sint n < 0 \<Longrightarrow> os_Truncate w p n =
      (None, put_file w p (take (unat n) (contents w p @ replicate (unat n - length (contents w p)) 0)))"
  using assms by (simp_all add: os_Stat_def os_Create_excl_def os_OpenCreate_def os_Close_def make_folder_def
      os_MkdirAll_def os_Truncate_def)

lemma writeAt_other: "writeAt w s off data = (e, w1) \<Longrightarrow> q \<noteq> path s \<Longrightarrow> Files w1 q = Files w q \<and> Stable w1 q = Stable w q"
  by (auto simp: writeAt_def os_WriteAt_def Let_def put_file_def split: prod.splits option.splits if_splits dest!: next_io_frame)

lemma writeFull_other: "writeFull w p pos data = ((e, n), w1) \<Longrightarrow> q \<noteq> p \<Longrightarrow> Files w1 q = Files w q"
  by (induction w p pos data arbitrary: e n w1 rule: writeFull.induct)
    (subst (asm) writeFull.simps, auto simp: os_WriteAt_def Let_def put_file_def split: prod.splits option.splits if_splits
      dest!: next_io_frame)

lemma write_records_other: "write_records w p pos recs = ((e, n), w1) \<Longrightarrow> q \<noteq> p \<Longrightarrow> Files w1 q = Files w q"
  by (induction recs arbitrary: w pos) (auto split: prod.splits option.splits dest: writeFull_other)

lemma Flush_Files_other:
  assumes "Flush w s = (err, s1, w1)" "q \<noteq> path s"
  shows "Files w1 q = Files w q"
  using assms
  by (auto simp: Flush_def split: if_splits sum.splits option.splits prod.splits
      dest!: os_SeekEnd_frame os_Sync_frame write_records_other [where q = q])

lemma Flush_path: "Flush w s = (err, s1, w1) \<Longrightarrow> path s1 = path s"
  by (auto simp: Flush_def split: if_splits sum.splits option.splits prod.splits)

lemma os_Close_both: "os_Close w = (e, w1) \<Longrightarrow> Files w1 = Files w \<and> Stable w1 = Stable w"
  by (auto simp: os_Close_def split: prod.splits dest!: next_io_frame)

lemma os_Sync_both: "os_Sync w p = (e, w1) \<Longrightarrow> q \<noteq> p \<Longrightarrow> Files w1 = Files w \<and> Stable w1 q = Stable w q"
  using os_Sync_frame os_Sync_other by blast

lemma Close_other:
  assumes "Close w s clean = (err, s1, w1)" "q \<noteq> path s"
  shows "Files w1 q = Files w q \<and> Stable w1 q = Stable w q"
proof (cases "unusable s")
  case False
  obtain e2 s2 w2 where f: "Flush w s = (e2, s2, w2)" by (cases "Flush w s")
  have o: "Files w2 q = Files w q" "Stable w2 q = Stable w q" "path s2 = path s"
    using Flush_Files_other [OF f assms(2)] Flush_other [OF f assms(2)] Flush_path [OF f] by simp_all
  show ?thesis
    using assms False o
    by (auto simp: Close_def failClose_def f Let_def split: option.splits sum.splits prod.splits
        dest!: os_Close_both writeAt_other [where q = q] os_Sync_both [where q = q])
qed (use assms in \<open>simp add: Close_def\<close>)

lemma Create_other: "Create w p h = (Inr s, w1) \<Longrightarrow> q \<noteq> p \<Longrightarrow> Files w1 q = Files w q \<and> Stable w1 q = Stable w q"
  by (auto simp: Create_def Let_def os_Create_excl_def abortCreate_def put_file_def
      split: option.splits sum.splits prod.splits if_splits
      dest!: next_io_frame os_SeekEnd_frame os_Sync_both [where q = q] writeAt_other [where q = q])

section \<open>The paths of a target\<close>

lemma map_path_differs: "linuxRecoveryMapPath p \<noteq> p"
proof -
  have "length (linuxRecoveryMapPath p) \<noteq> length p" by (auto simp: linuxRecoveryMapPath_def)
  then show ?thesis by metis
qed


section \<open>A new recovery\<close>

text \<open>What a request of a new recovery needs: paths, geometry, and no file at its paths.\<close>

definition new_request :: "JobInput \<Rightarrow> World \<Rightarrow> bool" where
  "new_request i w \<longleftrightarrow>
     InDevicePath i \<noteq> [] \<and> \<not> no_output (InOutputPath i) \<and> InBinding i = None \<and>
     InMethod i \<in> Some ` {RecoveryMethodFast, RecoveryMethodBalanced, RecoveryMethodGentle} \<and>
     0 < InLogicalSectorSize i \<and> unat (InLogicalSectorSize i) \<le> 131072 \<and>
     0 < InCapacitySectors i \<and> unat (InCapacitySectors i) < 4294967296 \<and>
     Script w = [] \<and> Files w (InOutputPath i) = None \<and> Files w (linuxRecoveryMapPath (InOutputPath i)) = None"

definition new_header :: "JobInput \<Rightarrow> u64 \<Rightarrow> Header" where
  "new_header i unixNano = (case recoveryMapHeader (InLogicalSectorSize i) (InCapacitySectors i) unixNano None of
     Inr h \<Rightarrow> h | Inl _ \<Rightarrow> undefined)"

lemma new_header:
  "recoveryMapHeader (InLogicalSectorSize i) (InCapacitySectors i) t None = Inr (new_header i t)"
  "LogicalSectorSize (new_header i t) = InLogicalSectorSize i" "ExpectedSectorCount (new_header i t) = InCapacitySectors i"
  "header_typed (new_header i t)" "(new_header i t)\<lparr>CleanShutdown := False\<rparr> = new_header i t"
  by (simp_all add: new_header_def recoveryMapHeader_def header_typed_def Let_def)

lemma sint_small:
  fixes x :: u64
  assumes "unat x < 9223372036854775808"
  shows "\<not> sint x < 0"
proof -
  have "uint x < 9223372036854775808" using assms by (simp only: unat_eq_nat_uint nat_less_iff [OF uint_ge_0])
  then have "uint x div 2 ^ 63 = 0" by (intro div_pos_pos_trivial) simp_all
  then have "\<not> bit (uint x) 63" unfolding bit_iff_odd by simp
  then show ?thesis unfolding sint_uint signed_take_bit_negative_iff by simp
qed

lemma new_image_bytes:
  assumes "new_request i w"
  shows "unat (image_bytes i) = unat (InCapacitySectors i) * unat (InLogicalSectorSize i)" "\<not> sint (image_bytes i) < 0"
    "unat (InCapacitySectors i) * unat (InLogicalSectorSize i) < 18446744073709551616"
proof -
  have b: "unat (InCapacitySectors i) < 4294967296" "unat (InLogicalSectorSize i) \<le> 131072"
    using assms by (simp_all add: new_request_def)
  have le: "unat (InCapacitySectors i) * unat (InLogicalSectorSize i) \<le> 4294967296 * 131072"
    using b by (intro mult_le_mono) simp_all
  then show "unat (InCapacitySectors i) * unat (InLogicalSectorSize i) < 18446744073709551616" by linarith
  then show eq: "unat (image_bytes i) = unat (InCapacitySectors i) * unat (InLogicalSectorSize i)"
    by (simp add: image_bytes_def unat_word_ariths)
  then show "\<not> sint (image_bytes i) < 0" using le by (intro sint_small) linarith
qed

lemma new_policy:
  assumes "new_request i w"
  obtains policy where "PolicyForMethod (method_of i) = Inr policy" "RecoveryPolicy_Validate policy = None"
    "FastEnabled (PolFast policy)" "unat (FastBlockSectors (PolFast policy)) * unat (InLogicalSectorSize i) \<le> 8388608"
proof -
  obtain me where m: "method_of i = me" "me \<in> {RecoveryMethodFast, RecoveryMethodBalanced, RecoveryMethodGentle}"
    using assms by (auto simp: new_request_def method_of_def)
  obtain policy where p: "policy_table me = Some policy" using m(2) by (auto simp: policy_table_def)
  have v: "\<forall>me \<in> {RecoveryMethodFast, RecoveryMethodBalanced, RecoveryMethodGentle}.
      RecoveryPolicy_Validate (the (policy_table me)) = None" by code_simp
  have "RecoveryPolicy_Validate policy = None" using v m(2) p by (metis option.sel)
  moreover have "FastEnabled (PolFast policy)" "FastBlockSectors (PolFast policy) \<in> {32, 64}"
    using m(2) p by (auto simp: policy_table_def)
  moreover have "PolicyForMethod me = Inr policy"
    using m(2) p calculation(1) by (auto simp: PolicyForMethod_def)
  ultimately show thesis using that [of policy] m(1) assms by (auto simp: new_request_def)
qed

text \<open>A new recovery is started, with a map without extents next to an image of zeros.\<close>

lemma new_job_started:
  assumes "new_request i w"
  defines "out \<equiv> InOutputPath i" and "mp \<equiv> linuxRecoveryMapPath (InOutputPath i)"
  obtains j w1 where "StartImageRecovery_linux w t i = (Inr j, w1)" "Script w1 = []"
    "session empty_checkpoint [] [] w1 (JbStore j)" "path (JbStore j) = mp" "header (JbStore j) = new_header i t"
    "extents (JbStore j) = []" "Stable w1 mp = Files w1 mp" "Files w1 out \<noteq> None" "Stable w1 out = Stable w out"
    "SnErrText (JbSnapshot j) = []"
proof -
  have n: "InDevicePath i \<noteq> []" "\<not> no_output out" "InBinding i = None" "InLogicalSectorSize i \<noteq> 0"
    "InCapacitySectors i \<noteq> 0" "unat (InCapacitySectors i) < 4294967296" "Script w = []" "Files w out = None" "Files w mp = None"
    using assms(1) unfolding new_request_def out_def mp_def by auto
  have neq: "mp \<noteq> out" by (simp add: mp_def out_def map_path_differs)
  let ?w = "put_file (put_file w out []) out (replicate (unat (image_bytes i)) 0)"
  have "Header_Validate (new_header i t) = None" using n(4,5) by (simp add: Header_Validate_def new_header)
  then obtain s w1 where c: "Create ?w mp (new_header i t) = (Inr s, w1)"
    using Create_total [of ?w mp "new_header i t"] n(7,9) neq by (auto simp del: Files_put_file simp: put_file_def)
  note cs = Create_session [OF c _ new_header(4)]
  have sc: "Script ?w = []" using n(7) by simp
  have ses: "session empty_checkpoint [] [] w1 s" "path s = mp" "header s = new_header i t" "extents s = []" "Script w1 = []"
    using cs n(6) sc by (simp_all add: new_header)
  have st: "Stable w1 mp = Files w1 mp" using Create_Stable [OF c sc] by simp
  obtain policy where "PolicyForMethod (method_of i) = Inr policy" using new_policy [OF assms(1)] .
  moreover have insp: "InspectRecoveryTarget_linux w i = (Inr ((target_status mp i)\<lparr>TsCanStartNew := True,
      TsDetail := ''A new Linux raw optical recovery will be created at this path.''\<rparr>), w)"
    using n(2,7-9) by (simp add: InspectRecoveryTarget_linux_def os_done missing_def mp_def out_def Let_def)
  moreover have "create_target_linux w t mp i = (Inr (s, False), w1)"
    using n(3,7,8) c new_image_bytes(2) [OF assms(1)]
    by (simp add: create_target_linux_def os_done new_header Let_def contents_def flip: out_def)
  moreover have "Start NewLifecycle = (None, NewLifecycle\<lparr>lstate := JobRunning\<rparr>)" by (simp add: Start_def NewLifecycle_def)
  ultimately have start: "StartImageRecovery_linux w t i = (Inr \<lparr>JbStore = s, JbLifecycle = NewLifecycle\<lparr>lstate := JobRunning\<rparr>,
      JbSnapshot = (first_snapshot i s False)\<lparr>SnState := JobRunning\<rparr>, JbTimer = False\<rparr>, w1)"
    using n(1,2,4,5) by (simp add: StartImageRecovery_linux_def openLinuxRecoveryMap_def target_status_def flip: out_def)
  have "Files w1 out = Files ?w out" "Stable w1 out = Stable ?w out" using Create_other [OF c] neq by simp_all
  then have "Files w1 out \<noteq> None" "Stable w1 out = Stable w out" by (simp_all add: put_file_def)
  then show thesis
    using that [OF start] ses st by (simp add: first_snapshot_def split: prod.split)
qed


lemma openLinuxOutput_done:
  assumes "Script w = []" "Files w (InOutputPath i) \<noteq> None" "\<not> sint (image_bytes i) < 0"
  obtains bs where "openLinuxOutput w i = (None, put_file w (InOutputPath i) bs)"
  using that assms by (fastforce simp: openLinuxOutput_def os_done)

lemma reports_errors: "SnErrText (foldl (\<lambda>sn x. report ss x sn) sn xs) = SnErrText sn"
  by (induction xs arbitrary: sn) (simp_all add: report_def)

text \<open>Opening the image makes a new job ready for the passes.\<close>

lemma new_job_ready:
  fixes bs :: bytes and clock :: "int list"
  assumes "new_request i w" "session empty_checkpoint [] [] w1 s" "Script w1 = []" "extents s = []"
    and "path s = linuxRecoveryMapPath (InOutputPath i)" "header s = new_header i t" "Stable w1 (path s) = Files w1 (path s)"
  defines "p \<equiv> newRecoveryPersistence (put_file w1 (InOutputPath i) bs) (InOutputPath i) s clock"
  shows "job_ready m (new_header i t) (path s) (InOutputPath i) {} p" "store p = s" "Script (disk p) = []" "nextSequence s = 1"
proof -
  have neq: "InOutputPath i \<noteq> path s" using assms(5) map_path_differs by metis
  let ?w = "put_file w1 (InOutputPath i) bs"
  have p: "store p = s" "disk p = ?w" "image p = InOutputPath i" "pendingRecoveredBytes p = 0"
    by (simp_all add: p_def newRecoveryPersistence_def now_def split: list.split)
  have ses: "session empty_checkpoint [] [] ?w s" by (rule session_frame [OF assms(2)]) (use neq in simp)
  have pr: "pendingRecords s = []" using ses by (auto simp: session_def)
  have du: "durableExtents s = []" using session_drained [OF ses pr] assms(4) by simp
  have nocl: "claimed [] = {}" by (simp add: claimed_def)
  have st: "Stable ?w (path s) = Files ?w (path s)" using assms(7) neq by (simp add: put_file_def)
  have "job_saved m (new_header i t) (path s) (InOutputPath i) {} p"
    by (rule job_savedI [where c = empty_checkpoint and rs = "[]" and ps = "[]"])
       (simp_all add: p assms(4,6) neq pr du nocl ses st image_holds_def)
  then show "job_ready m (new_header i t) (path s) (InOutputPath i) {} p"
    using new_image_bytes(3) [OF assms(1)] by (simp add: job_ready_def p assms(4) new_header)
  show "store p = s" "Script (disk p) = []" using p assms(3) by simp_all
  show "nextSequence s = 1" using session_nextSequence [OF ses] by simp
qed

text \<open>A map whose sequence numbers are far from their end is short enough to be read.\<close>

lemma numbered_length:
  "numbered_from s rs \<Longrightarrow> \<forall>r \<in> set rs. Sequence r \<noteq> 0 \<Longrightarrow> unat s + length rs \<le> 18446744073709551616"
proof (induction rs arbitrary: s)
  case (Cons r rs)
  have s: "unat (s + 1) = (if s + 1 = 0 then 0 else unat s + 1)" by (auto simp: unatSuc add.commute)
  have u: "unat s < 18446744073709551616" by (rule unat_u64_less)
  show ?case
  proof (cases rs)
    case Nil
    show ?thesis unfolding Nil list.size using u by linarith
  next
    case (Cons r' rs')
    with Cons.prems have "s + 1 \<noteq> 0" by auto
    with Cons.IH [of "s + 1"] Cons.prems s show ?thesis by simp
  qed
next
  case (Nil s)
  show ?case unfolding list.size using unat_u64_less [of s] by linarith
qed

lemma session_length:
  assumes "session c rs ps w s" "nextSequence s \<noteq> 0"
  shows "length (rs @ ps) \<le> unat (nextSequence s)"
proof -
  let ?n = "length (rs @ ps)"
  have eq: "nextSequence s = (LastSequence c + 1) + of_nat ?n" using session_nextSequence [OF assms(1)] by simp
  obtain js d e where j: "journaled c rs js d" "journaled d ps (pendingRecords s) e"
    using assms(1) by (auto simp: session_def)
  have a: "journaled c (rs @ ps) (js @ pendingRecords s) e" using j by (rule journaled_append)
  have "Sequence r \<noteq> 0" if "r \<in> set (rs @ ps)" for r
  proof -
    have m: "map MarshalJournalRecord (rs @ ps) = map Inr (js @ pendingRecords s)"
      using a by (simp only: journaled_def)
    have "MarshalJournalRecord r \<in> set (map MarshalJournalRecord (rs @ ps))" using that by auto
    then obtain b where "MarshalJournalRecord r = Inr b" unfolding m by auto
    then show ?thesis by (auto simp: MarshalJournalRecord_def JournalRecord_Validate_def)
  qed
  then have le: "unat (LastSequence c + 1) + ?n \<le> 18446744073709551616"
    using a by (intro numbered_length) (simp_all add: journaled_def)
  have sum: "nextSequence s = of_nat (unat (LastSequence c + 1) + ?n)" unfolding eq by simp
  have "unat (LastSequence c + 1) + ?n \<noteq> 18446744073709551616"
    using sum assms(2) by (auto simp del: of_nat_add)
  then have "unat (nextSequence s) = unat (LastSequence c + 1) + ?n"
    using le unfolding sum by (intro unat_of_nat_u64) linarith
  then show ?thesis by simp
qed

lemma session_file_length:
  assumes "map_file h c (concat js) bs" "journaled c rs js d" "length rs < 1099511627776"
  shows "length bs < 9223372036854775808"
proof -
  from assms(1) obtain hb cb where m: "header_typed h" "MarshalHeader h = Inr hb" "checkpoint_typed c"
    "MarshalCheckpoint c = Inr cb" "bs = hb @ cb @ concat js" by (auto simp: map_file_def)
  have "length cb \<le> 26 + 1048576 * 39"
    using MarshalCheckpoint_length [OF m(3,4)] MarshalCheckpoint_Inr(2) [OF m(4)] by (simp add: extentEncodedBytes_def)
  moreover have "length (concat js) \<le> length rs * 1048594"
    using assms(2) by (intro journal_length) (simp add: journaled_def)
  ultimately show ?thesis using m(5) header_length_field(1) [OF m(1,2)] assms(3) by simp
qed

text \<open>A job ready to run whose store is closed leaves a map that reads back with all of its extents.\<close>

lemma close_ready_map:
  assumes "job_ready m h mp out K q" "Script w = []" "Files w mp = Files (disk q) mp"
    and "nextSequence (store q) \<noteq> 0" "unat (nextSequence (store q)) < 1099511627776"
    and "Close w (store q) clean = (err, s, w1)"
  shows "err = None \<and> Script w1 = [] \<and> Stable w1 mp = Files w1 mp \<and> Files w1 mp \<noteq> None \<and>
    Inspect w1 mp (geometry_of h) = (Inr (h\<lparr>CleanShutdown := clean\<rparr>, downgraded (extents (store q))), w1)"
proof -
  note sv = job_savedD [OF job_ready_session(1) [OF assms(1)]]
  obtain c rs ps where ses: "session c rs ps (disk q) (store q)" using sv(11) by blast
  have "session c rs ps w (store q)" by (rule session_frame [OF ses]) (use sv(2) assms(3) in simp)
  from Close_done [OF this assms(2), of clean] assms(6) sv(1,2) obtain bs js d where c:
    "err = None" "Script w1 = []" "Files w1 mp = Some bs" "map_file (h\<lparr>CleanShutdown := clean\<rparr>) c (concat js) bs"
    "journaled c (rs @ ps) js d" "Extents d = extents (store q)" "Stable w1 mp = Files w1 mp" by auto
  let ?h = "h\<lparr>CleanShutdown := clean\<rparr>" and ?s = "store q"
  let ?s1 = "?s\<lparr>header := ?h, durableExtents := extents ?s, pendingRecords := []\<rparr>"
  have ses1: "session c (rs @ ps) [] w1 ?s1"
    by (rule session_set_header [OF ses c(4-6)]) (use sv(1,2) c(3) in simp_all)
  have "length (rs @ ps) < 1099511627776" using session_length [OF ses assms(4)] assms(5) by (rule le_less_trans)
  then have "length bs < 9223372036854775808" by (rule session_file_length [OF c(4,5)])
  then have "Inspect w1 mp (geometry_of h) = (Inr (?h, downgraded (extents ?s)), w1)"
    using Inspect_session [OF ses1, of w1 bs js "[]" "rs @ ps" d] c sv(2) by (simp add: geometry_of_def torn_Nil)
  then show ?thesis using c by (simp add: contents_def)
qed


text \<open>The passes of a new job on a healthy medium.\<close>

lemma new_job_passes:
  assumes "new_request i w" "job_ready m (new_header i t) mp (InOutputPath i) {} p" "extents (store p) = []"
    and "nextSequence (store p) = 1" "Script (disk p) = []" "PolicyForMethod (method_of i) = Inr policy"
  obtains r xs g where "runPassBasedRecoveryWithPolicy persistence_store fatal m (InLogicalSectorSize i) (InCapacitySectors i) policy
      \<lparr>runStore = p, Reads = [], CtxErrs = [], Reported = []\<rparr> = (None, r)"
    "job_ready m (new_header i t) mp (InOutputPath i) {} (runStore r)"
    "durableExtents (store (runStore r)) = extents (store (runStore r))" "Script (disk (runStore r)) = []"
    "{..<unat (InCapacitySectors i)} \<subseteq> claimed (extents (store (runStore r)))"
    "Reported r = xs @ [g]" "DeferredSectors g = 0" "UnreadableSectors g = 0"
    "nextSequence (store (runStore r)) \<noteq> 0" "unat (nextSequence (store (runStore r))) < 1099511627776"
proof -
  have cap: "unat (InCapacitySectors i) < 4294967296" using assms(1) by (auto simp: new_request_def)
  have n: "InLogicalSectorSize i \<noteq> 0" "InCapacitySectors i \<noteq> 0" using assms(1) by (auto simp: new_request_def)
  obtain policy' where p': "PolicyForMethod (method_of i) = Inr policy'" "RecoveryPolicy_Validate policy' = None"
    "FastEnabled (PolFast policy')" "unat (FastBlockSectors (PolFast policy')) * unat (InLogicalSectorSize i) \<le> 8388608"
    using new_policy [OF assms(1)] .
  then have eq: "policy' = policy" using assms(6) by simp
  obtain r xs g where h: "runPassBasedRecoveryWithPolicy persistence_store fatal m (LogicalSectorSize (new_header i t))
      (InCapacitySectors i) policy \<lparr>runStore = p, Reads = [], CtxErrs = [], Reported = []\<rparr> = (None, r)"
    "{..<unat (InCapacitySectors i)} \<subseteq> claimed (durableExtents (store (runStore r)))" "Script (disk (runStore r)) = []"
    "Reported r = xs @ [g]" "DeferredSectors g = 0" "UnreadableSectors g = 0"
    "nextSequence (store (runStore r)) \<noteq> 0" "unat (nextSequence (store (runStore r))) \<le> unat (InCapacitySectors i) + 1"
    using healthy_run [OF assms(2-5), of policy "InCapacitySectors i" fatal] p'(2-4) n unfolding eq new_header by auto
  have "job_ready m (new_header i t) mp (InOutputPath i) {}
      (runStore \<lparr>runStore = p, Reads = [], CtxErrs = [], Reported = []\<rparr>)" using assms(2) by simp
  note rd = job.run_durable [OF this _ h(1)]
  have le: "unat (InCapacitySectors i) \<le> unat (ExpectedSectorCount (new_header i t))" by (simp add: new_header)
  show thesis
    using that [OF _ rd(1) _ h(3)] h rd(2) le cap by (simp add: new_header)
qed


lemma image_holds_file: "image_holds m ss S f \<Longrightarrow> n \<in> S \<Longrightarrow> 0 < ss \<Longrightarrow> f \<noteq> None"
  by (cases f) (auto simp: image_holds_def holds_at_def)

text \<open>The end of a job whose passes and whose sync succeeded.\<close>

lemma finish_ready_job:
  assumes "job_ready m h mp out {} q" "Script w = []" "Files w = Files (disk q)" "JbStore j = store q" "SnErrText (JbSnapshot j) = []"
    and "image_holds m ss S (Stable w out)" "Files w out \<noteq> None"
    and "nextSequence (store q) \<noteq> 0" "unat (nextSequence (store q)) < 1099511627776"
  obtains j1 w1 where "finish_job_linux False None j w = (j1, w1)" "SnDone (JbSnapshot j1)" "\<not> SnCanceled (JbSnapshot j1)"
    "SnErrText (JbSnapshot j1) = []" "SnDeferredSectors (JbSnapshot j1) = SnDeferredSectors (JbSnapshot j)"
    "SnUnreadableSectors (JbSnapshot j1) = SnUnreadableSectors (JbSnapshot j)" "Script w1 = []"
    "image_holds m ss S (Stable w1 out)" "Files w1 out \<noteq> None" "Files w1 mp \<noteq> None"
    "Inspect w1 mp (geometry_of h) = (Inr (h\<lparr>CleanShutdown := True\<rparr>, downgraded (extents (store q))), w1)"
proof -
  note sv = job_savedD [OF job_ready_session(1) [OF assms(1)]]
  obtain e s w1 where c: "Close w (store q) True = (e, s, w1)" by (cases "Close w (store q) True")
  note cl = close_ready_map [OF assms(1,2) _ assms(8,9) c]
  have "Files w1 out = Files w out \<and> Stable w1 out = Stable w out" using Close_other [OF c] sv(2,4) by simp
  moreover obtain j1 where "finish_job_linux False None j w = (j1, w1)" "SnDone (JbSnapshot j1)"
    "\<not> SnCanceled (JbSnapshot j1)" "SnErrText (JbSnapshot j1) = []"
    "SnDeferredSectors (JbSnapshot j1) = SnDeferredSectors (JbSnapshot j)"
    "SnUnreadableSectors (JbSnapshot j1) = SnUnreadableSectors (JbSnapshot j)"
    using assms(4,5) c cl assms(3) by (auto simp: finish_job_linux_def Let_def)
  ultimately show thesis using that [of j1 w1] cl assms(3,6,7) by simp
qed


lemma resumable_target:
  assumes "\<not> no_output (InOutputPath i)" "Script w = []" "Files w (InOutputPath i) \<noteq> None"
    and "Files w (linuxRecoveryMapPath (InOutputPath i)) \<noteq> None"
    and "Inspect w (linuxRecoveryMapPath (InOutputPath i)) (input_geometry i) = (Inr (h, es), w)"
  shows "\<exists>st. InspectRecoveryTarget_linux w i = (Inr st, w) \<and> TsCanResume st"
  using assms by (auto simp: InspectRecoveryTarget_linux_def os_done missing_def found_def Let_def split: prod.split)

section \<open>Properties of the job\<close>

text \<open>
  C3: A new recovery from end to end. A request with a known method and a geometry of at most
  131072 bytes and 2^32 - 1 sectors, at a path where neither image nor map exists, starts a job; if
  no call of the disk and no read fails and nothing cancels, the job ends without an error text and
  without deferred or unreadable sectors, the image holds the medium's bytes on stable storage, and
  the map that is left has its clean flag, claims every sector and can be resumed from.
\<close>

theorem new_recovery_completes:
  assumes "new_request i w" "EnSource en = None" "EnReads en = []" "EnCtx en = []"
  shows "\<exists>j w1 j2 w2. StartImageRecovery_linux w t i = (Inr j, w1) \<and> run_linux en i j w1 = (j2, w2) \<and>
    SnDone (JbSnapshot j2) \<and> \<not> SnCanceled (JbSnapshot j2) \<and> SnErrText (JbSnapshot j2) = [] \<and>
    SnDeferredSectors (JbSnapshot j2) = 0 \<and> SnUnreadableSectors (JbSnapshot j2) = 0 \<and>
    image_holds (EnMedium en) (unat (InLogicalSectorSize i)) {..<unat (InCapacitySectors i)} (Stable w2 (InOutputPath i)) \<and>
    (\<exists>hdr es st. Inspect w2 (linuxRecoveryMapPath (InOutputPath i)) (input_geometry i) = (Inr (hdr, es), w2) \<and>
         CleanShutdown hdr \<and> {..<unat (InCapacitySectors i)} \<subseteq> claimed es \<and>
         InspectRecoveryTarget_linux w2 i = (Inr st, w2) \<and> TsCanResume st)"
proof -
  let ?out = "InOutputPath i" and ?mp = "linuxRecoveryMapPath (InOutputPath i)" and ?h = "new_header i t"
  have n: "\<not> no_output ?out" "0 < unat (InLogicalSectorSize i)" "0 < unat (InCapacitySectors i)"
    using assms(1) by (auto simp: new_request_def unat_gt_0)
  obtain j w1 where st: "StartImageRecovery_linux w t i = (Inr j, w1)" "Script w1 = []"
    "session empty_checkpoint [] [] w1 (JbStore j)" "path (JbStore j) = ?mp" "header (JbStore j) = ?h"
    "extents (JbStore j) = []" "Stable w1 ?mp = Files w1 ?mp" "Files w1 ?out \<noteq> None"
    "Stable w1 ?out = Stable w ?out" "SnErrText (JbSnapshot j) = []"
    using new_job_started [OF assms(1)] .
  obtain bs where op: "openLinuxOutput w1 i = (None, put_file w1 ?out bs)"
    using openLinuxOutput_done [OF st(2,8) new_image_bytes(2) [OF assms(1)]] .
  let ?p = "newRecoveryPersistence (put_file w1 ?out bs) ?out (JbStore j) (EnClock en)"
  have stb: "Stable w1 (path (JbStore j)) = Files w1 (path (JbStore j))" using st(4,7) by simp
  have rdy: "job_ready (EnMedium en) ?h ?mp ?out {} ?p" "store ?p = JbStore j" "Script (disk ?p) = []"
    "nextSequence (JbStore j) = 1"
    using new_job_ready [OF assms(1) st(3,2,6,4,5) stb] unfolding st(4) by blast+
  obtain policy where po: "PolicyForMethod (method_of i) = Inr policy" using new_policy [OF assms(1)] .
  have e0: "extents (store ?p) = []" "nextSequence (store ?p) = 1" using rdy(2,4) st(6) by simp_all
  obtain r xs g where r: "runPassBasedRecoveryWithPolicy persistence_store platformFatal_linux (EnMedium en)
      (InLogicalSectorSize i) (InCapacitySectors i) policy \<lparr>runStore = ?p, Reads = [], CtxErrs = [], Reported = []\<rparr> = (None, r)"
    "job_ready (EnMedium en) ?h ?mp ?out {} (runStore r)" "durableExtents (store (runStore r)) = extents (store (runStore r))"
    "Script (disk (runStore r)) = []" "{..<unat (InCapacitySectors i)} \<subseteq> claimed (extents (store (runStore r)))"
    "Reported r = xs @ [g]" "DeferredSectors g = 0" "UnreadableSectors g = 0"
    "nextSequence (store (runStore r)) \<noteq> 0" "unat (nextSequence (store (runStore r))) < 1099511627776"
    using new_job_passes [OF assms(1) rdy(1) e0 rdy(3) po] .
  note sv = job_savedD [OF job_ready_session(1) [OF r(2)]]
  let ?w2 = "disk (runStore r)" and ?q = "runStore r"
  let ?w3 = "?w2\<lparr>Stable := (Stable ?w2)(?out := Files ?w2 ?out)\<rparr>"
  let ?j1 = "j\<lparr>JbLifecycle := EnLifecycle en, JbStore := store ?q,
    JbSnapshot := foldl (\<lambda>sn x. report (InLogicalSectorSize i) x sn) (JbSnapshot j) (Reported r)\<rparr>"
  have im: "image_holds (EnMedium en) (unat (InLogicalSectorSize i)) {..<unat (InCapacitySectors i)} (Files ?w2 ?out)"
    using image_holds_mono [OF sv(8) r(5)] by (simp add: new_header)
  then have some: "Files ?w2 ?out \<noteq> None" using n(2,3) image_holds_file [OF im, of 0] by simp
  have j1: "SnErrText (JbSnapshot ?j1) = []" "SnDeferredSectors (JbSnapshot ?j1) = 0" "SnUnreadableSectors (JbSnapshot ?j1) = 0"
    by (simp add: st(10) reports_errors) (simp_all add: r(6-8) report_def)
  have pre: "Script ?w3 = []" "Files ?w3 = Files ?w2" "JbStore ?j1 = store ?q" "image_holds (EnMedium en)
      (unat (InLogicalSectorSize i)) {..<unat (InCapacitySectors i)} (Stable ?w3 ?out)" "Files ?w3 ?out \<noteq> None"
    using r(4) im some by simp_all
  obtain j2 w4 where f: "finish_job_linux False None ?j1 ?w3 = (j2, w4)" "SnDone (JbSnapshot j2)" "\<not> SnCanceled (JbSnapshot j2)"
    "SnErrText (JbSnapshot j2) = []" "SnDeferredSectors (JbSnapshot j2) = SnDeferredSectors (JbSnapshot ?j1)"
    "SnUnreadableSectors (JbSnapshot j2) = SnUnreadableSectors (JbSnapshot ?j1)" "Script w4 = []"
    "image_holds (EnMedium en) (unat (InLogicalSectorSize i)) {..<unat (InCapacitySectors i)} (Stable w4 ?out)"
    "Files w4 ?out \<noteq> None" "Files w4 ?mp \<noteq> None"
    "Inspect w4 ?mp (geometry_of ?h) = (Inr (?h\<lparr>CleanShutdown := True\<rparr>, downgraded (extents (store ?q))), w4)"
    using finish_ready_job [OF r(2) pre(1-3) j1(1) pre(4,5) r(9,10)] .
  have pol: "retryPolicyWithCurrentAttempts policy (extents (JbStore j)) = policy"
    using st(6) by (simp add: retryPolicyWithCurrentAttempts_def retry_offset_def)
  have "run_linux en i j w1 = (j2, w4)"
    using op po r(1,4) pol f(1,7) assms(2-4) by (simp add: run_linux_def os_Sync_done os_done Let_def)
  moreover have "input_geometry i = geometry_of ?h" by (simp add: input_geometry_def geometry_of_def new_header)
  moreover have "\<exists>st. InspectRecoveryTarget_linux w4 i = (Inr st, w4) \<and> TsCanResume st"
    using resumable_target [OF n(1) f(7,9,10)] f(11) calculation(2) by simp
  ultimately show ?thesis
    using st(1) f j1 r(5) claimed_downgraded by fastforce
qed


text \<open>
  C4: The end of a job undoes the order of a checkpoint. A checkpoint whose sync of the image fails
  keeps its records back, because they claim data that may not be on stable storage; but the job
  that ends then closes its map, and closing writes them. The map that is left claims every sector
  of the job on stable storage, while the image there is still the one of before, and for a job that
  was cancelled the map has its clean flag and the snapshot says nothing of the error.
\<close>

theorem end_of_job_claims_unsynced:
  assumes "job_ready m h mp out K p" "0 < pendingRecoveredBytes p" "Script (disk p) = [Io k (Some e)]"
    and "ForceCheckpoint p reason = (err, q)" "JbStore j = store q"
    and "finish_job_linux canceled er j (disk q) = (j1, w1)"
    and "nextSequence (store p) \<noteq> 0" "unat (nextSequence (store p)) < 1099511627776"
  shows "err = Some (Wrapf ''checkpoint image sync'' e) \<and>
    (er = None \<longrightarrow> SnErrText (JbSnapshot j1) = SnErrText (JbSnapshot j)) \<and>
    Stable w1 out = Stable (disk p) out \<and> Stable w1 mp = Files w1 mp \<and>
    Inspect w1 mp (geometry_of h) = (Inr (h\<lparr>CleanShutdown := canceled \<or> er = None\<rparr>, downgraded (extents (store p))), w1)"
proof -
  note sv = job_savedD [OF job_ready_session(1) [OF assms(1)]]
  let ?w = "(disk p)\<lparr>Script := []\<rparr>"
  have nz: "pendingRecoveredBytes p \<noteq> 0" using assms(2) by auto
  have sync: "os_Sync (disk p) out = (Some e, ?w)" using assms(3) by (simp add: os_Sync_def next_io_def)
  have q: "err = Some (Wrapf ''checkpoint image sync'' e)" "q = p\<lparr>disk := ?w\<rparr>"
    using nz sync assms(2,4) sv(3) by (simp_all add: ForceCheckpoint_def)
  have g: "job_ready m h mp out K q" using assms(1) unfolding q by (simp add: job_ready_def job_saved_def)
  obtain ce s w2 where c: "Close ?w (store p) (canceled \<or> er = None) = (ce, s, w2)" by (metis prod.exhaust)
  have "Script ?w = []" "Files ?w mp = Files (disk q) mp" "nextSequence (store q) \<noteq> 0"
    "unat (nextSequence (store q)) < 1099511627776" using q assms(7,8) by simp_all
  note cl = close_ready_map [OF g this, unfolded q, simplified, OF c]
  have "Files w2 out = Files ?w out \<and> Stable w2 out = Stable ?w out" using Close_other [OF c] sv(2,4) by simp
  then show ?thesis using assms(5,6) c cl q by (auto simp: finish_job_linux_def Let_def)
qed


section \<open>Concrete jobs\<close>

definition sample_input :: JobInput where
  "sample_input = \<lparr>InDevicePath = ''/dev/sr0'', InOutputPath = ''/d/disc.iso'', InLogicalSectorSize = 2048,
     InCapacitySectors = 100, InMethod = Some RecoveryMethodBalanced, InRetryUnresolved = False, InReadSpeed = None,
     InBinding = None\<rparr>"

definition sample_env :: RunEnv where
  "sample_env = \<lparr>EnSource = None, EnMedium = (\<lambda>k. of_nat k), EnReads = [], EnCtx = [], EnClock = [0, 4, 9],
     EnLifecycle = NewLifecycle\<rparr>"

lemma sample_map_path: "linuxRecoveryMapPath ''/d/disc.iso'' = ''/d/disc.drmap''" by code_simp

lemma sample_request: "new_request sample_input empty_world"
  by (simp add: new_request_def sample_input_def empty_world_def no_output_def)

theorem new_recovery_completes_witness:
  "\<exists>j w1 j2 w2. StartImageRecovery_linux empty_world 0 sample_input = (Inr j, w1) \<and>
     run_linux sample_env sample_input j w1 = (j2, w2) \<and> SnErrText (JbSnapshot j2) = [] \<and>
     image_holds (\<lambda>k. of_nat k) 2048 {..<100} (Stable w2 ''/d/disc.iso'')"
  using new_recovery_completes [OF sample_request, of sample_env 0]
  by (fastforce simp: sample_env_def sample_input_def)

text \<open>A job with one sector in its image that no sync has reached.\<close>

lemma sample_pending:
  obtains p where "job_ready (\<lambda>k. of_nat k) (new_header sample_input 0) ''/d/disc.drmap'' ''/d/disc.iso'' {} p"
    "Script (disk p) = []" "0 < pendingRecoveredBytes p" "0 \<in> claimed (extents (store p))"
    "Stable (disk p) ''/d/disc.iso'' = None" "nextSequence (store p) = 2"
proof -
  let ?out = "''/d/disc.iso''" and ?mp = "''/d/disc.drmap''" and ?h = "new_header sample_input 0" and ?m = "\<lambda>k. of_nat k :: u8"
  have io: "InOutputPath sample_input = ?out" by (simp add: sample_input_def)
  obtain j w1 where st: "StartImageRecovery_linux empty_world 0 sample_input = (Inr j, w1)" "Script w1 = []"
    "session empty_checkpoint [] [] w1 (JbStore j)" "path (JbStore j) = ?mp" "header (JbStore j) = ?h"
    "extents (JbStore j) = []" "Stable w1 ?mp = Files w1 ?mp" "Files w1 ?out \<noteq> None" "Stable w1 ?out = Stable empty_world ?out"
    using new_job_started [OF sample_request] unfolding io sample_map_path .
  have mp: "path (JbStore j) = linuxRecoveryMapPath (InOutputPath sample_input)"
    "Stable w1 (path (JbStore j)) = Files w1 (path (JbStore j))" using st(4,7) io sample_map_path by simp_all
  let ?p = "newRecoveryPersistence (put_file w1 ?out []) ?out (JbStore j) []"
  have g: "job_ready ?m ?h ?mp ?out {} ?p" "store ?p = JbStore j" "Script (disk ?p) = []" "nextSequence (JbStore j) = 1"
    using new_job_ready [OF sample_request st(3,2,6) mp(1) st(5) mp(2)] unfolding io st(4) by blast+
  have d: "disk ?p = put_file w1 ?out []" "pendingRecoveredBytes ?p = 0" "image ?p = ?out"
    by (simp_all add: newRecoveryPersistence_def now_def)
  let ?e = "plain_extent 0 1 2 1 1" and ?data = "map ?m [0 ..< 2048]"
  have ap: "ApplyExtent [] ?e = Inr [?e]" by code_simp
  have ss: "LogicalSectorSize ?h = 2048" "ExpectedSectorCount ?h = 100" by (simp_all add: new_header sample_input_def)
  have ee: "startN ?e = 0" "endN ?e = 1" "Sectors ?e = 1" "extent_typed ?e"
    by (simp_all add: plain_extent_typed) (simp_all add: concrete)
  obtain w2 where wf: "writeFullAtWriter (disk ?p) ?out ?data 0 = (None, w2)" "Script w2 = []"
    using writeFullAtWriter_done [OF g(3)] by blast
  obtain s1 where stg: "StageExtent (JbStore j) ?e = (None, s1)" "extents s1 = [?e]" "nextSequence s1 = 2"
  proof -
    have u: "\<not> unusable (JbStore j)" using st(3) by (simp add: session_def)
    obtain es b where "prepareExtent (JbStore j) ?e = Inr (es, b)" "es = [?e]"
      using prepareExtent_total [of "JbStore j" ?e] g(4) ee(4) ap st(6) by (cases "prepareExtent (JbStore j) ?e") fastforce+
    then show thesis using u that g(4) by (simp add: StageExtent_def)
  qed
  let ?q = "?p\<lparr>disk := w2, store := s1, pendingRecoveredBytes := pendingRecoveredBytes ?p + of_nat (length ?data),
      pendingRecordCount := pendingRecordCount ?p + 1\<rparr>"
  have dat: "?data = map ?m [0 ..< 0 + length ?data]" "0 = startN ?e * unat (LogicalSectorSize ?h)"
    "length ?data = unat (Sectors ?e) * unat (LogicalSectorSize ?h)" "?data \<noteq> []" "length ?data < 18446744073709551616"
    "(of_nat (length ?data) :: u64) \<le> MaxPendingRecoveredBytes" "endN ?e \<le> unat (ExpectedSectorCount ?h)"
    using ee ss by (simp_all add: MaxPendingRecoveredBytes_def)
  have sv: "job_saved ?m ?h ?mp ?out {} ?q"
    by (rule stage_recovered_staged [OF job_ready_session(1) [OF g(1)] wf(1) dat(1-6) _ ee(4) dat(7)])
       (use d(2) g(2) stg(1) in simp_all)
  have "ApplyExtent (extents (store ?p)) ?e = Inr (extents (store ?q))" using ap g(2) st(6) stg(2) by simp
  then have "job_ready ?m ?h ?mp ?out {} ?q" by (rule job_ready_apply [OF g(1) sv ee(4) dat(7)])
  moreover have "0 \<in> claimed (extents (store ?q))"
    by (simp add: stg(2) claimed_def extent_at_def concrete stateClaimsImageData_def)
  moreover have "Stable (disk ?q) ?out = None"
    using writeFullAtWriter_facts(1) [OF wf(1) dat(1)] st(9) d(1) by (simp add: put_file_def empty_world_def)
  ultimately show thesis using that [of ?q] wf(2) d(2) stg(3) by simp
qed


theorem end_of_job_claims_unsynced_witness:
  "\<exists>p q j j1 w1. ForceCheckpoint p CheckpointReasonRecoveryReturn = (Some (Wrapf ''checkpoint image sync'' (ErrIO ''EIO'')), q) \<and>
     finish_job_linux True None j (disk q) = (j1, w1) \<and> SnErrText (JbSnapshot j1) = [] \<and>
     (\<exists>hdr es. Inspect w1 ''/d/disc.drmap'' (input_geometry sample_input) = (Inr (hdr, es), w1) \<and>
        CleanShutdown hdr \<and> 0 \<in> claimed es) \<and>
     \<not> image_holds (\<lambda>k. of_nat k) 2048 {0} (Stable w1 ''/d/disc.iso'')"
proof -
  obtain p0 where p0: "job_ready (\<lambda>k. of_nat k) (new_header sample_input 0) ''/d/disc.drmap'' ''/d/disc.iso'' {} p0"
    "Script (disk p0) = []" "0 < pendingRecoveredBytes p0" "0 \<in> claimed (extents (store p0))"
    "Stable (disk p0) ''/d/disc.iso'' = None" "nextSequence (store p0) = 2" by (rule sample_pending)
  let ?p = "p0\<lparr>disk := (disk p0)\<lparr>Script := [Io 0 (Some (ErrIO ''EIO''))]\<rparr>\<rparr>"
  have p: "job_ready (\<lambda>k. of_nat k) (new_header sample_input 0) ''/d/disc.drmap'' ''/d/disc.iso'' {} ?p"
    "0 < pendingRecoveredBytes ?p" "Script (disk ?p) = [Io 0 (Some (ErrIO ''EIO''))]"
    "nextSequence (store ?p) \<noteq> 0" "unat (nextSequence (store ?p)) < 1099511627776"
    using p0(1,3,6) by (simp_all add: job_ready_def job_saved_def)
  obtain err q where q: "ForceCheckpoint ?p CheckpointReasonRecoveryReturn = (err, q)" by force
  let ?j = "\<lparr>JbStore = store q, JbLifecycle = NewLifecycle, JbSnapshot = first_snapshot sample_input (store q) False, JbTimer = False\<rparr>"
  obtain j1 w1 where f: "finish_job_linux True None ?j (disk q) = (j1, w1)" by force
  have j: "JbStore ?j = store q" by simp
  have geo: "input_geometry sample_input = geometry_of (new_header sample_input 0)"
    by (simp add: input_geometry_def geometry_of_def new_header)
  have none: "\<not> image_holds (\<lambda>k. of_nat k) 2048 {0} None" by (simp add: image_holds_def holds_at_def) (rule exI [of _ 0], simp)
  have "SnErrText (JbSnapshot ?j) = []" by (simp add: first_snapshot_def split: prod.split)
  then show ?thesis
    using end_of_job_claims_unsynced [OF p(1-3) q j f p(4,5)] q f p0(4,5) none geo claimed_downgraded
    by (intro exI [of _ ?p] exI [of _ q] exI [of _ ?j] exI [of _ j1] exI [of _ w1]) auto
qed

end
