(* ===== verification/ReaderProps.thy ===== *)
theory ReaderProps
  imports Reader JobProps
begin

text \<open>
  The reopenable reader leaves no handle open and never reads from two handles at once, whatever
  comes between its critical sections; but it gives up reopening after one failure, and the
  recovery then records the rest of the medium as unreadable.
\<close>

section \<open>Handles\<close>

definition reader_inv :: "ReaderSystem \<Rightarrow> bool" where
  "reader_inv s \<longleftrightarrow>
     RrSource (SyReader s) \<in> RrOpened (SyReader s) \<and>
     RrOpened (SyReader s) - {RrSource (SyReader s)} \<subseteq> RrShut (SyReader s) \<and>
     (case SyOperation s of OpIdle \<Rightarrow> True
        | OpReading h \<Rightarrow> h = RrSource (SyReader s)
        | OpJoining h cause \<Rightarrow> h = RrSource (SyReader s) \<and> h \<in> RrShut (SyReader s)) \<and>
     (RrClosed (SyReader s) \<longleftrightarrow> SyCloser s \<noteq> CloserIdle) \<and>
     (SyCloser s \<in> {CloserWaiting, CloserDone} \<longrightarrow> RrOpened (SyReader s) \<subseteq> RrShut (SyReader s)) \<and>
     (SyCloser s = CloserDone \<longrightarrow> SyOperation s = OpIdle)"

lemmas reader_defs = closeCurrent_def closeReader_def begin_reading_def Interrupt_def

lemma after_join_cases:
  "snd (after_join cause reopened r) = r \<or>
   (\<exists>h. reopened = Inr h \<and> \<not> RrClosed r \<and>
      snd (after_join cause reopened r) = r\<lparr>RrSource := h, RrOpened := insert h (RrOpened r)\<rparr>)"
  by (cases reopened) (simp_all add: after_join_def reopenCurrent_def)

lemma reader_step_inv:
  assumes "reader_step s t" "reader_inv s"
  shows "reader_inv t"
  using assms
proof cases
  case (step_joined h cause reopened)
  have inv: "RrSource (SyReader s) = h" "h \<in> RrShut (SyReader s)"
      "RrOpened (SyReader s) - {h} \<subseteq> RrShut (SyReader s)" "h \<in> RrOpened (SyReader s)"
    using assms(2) step_joined by (auto simp: reader_inv_def)
  then have shut: "RrOpened (SyReader s) \<subseteq> RrShut (SyReader s)" by blast
  show ?thesis
    using after_join_cases [of cause reopened "SyReader s"] assms(2) step_joined inv shut
    by (elim disjE exE conjE) (auto simp: reader_inv_def)
qed (auto simp: reader_inv_def reader_defs split: if_splits Operation.splits)

lemma reader_reachable_inv: "reader_reachable h s \<Longrightarrow> reader_inv s"
proof (induction rule: reader_reachable.induct)
  case (reader_start r)
  then show ?case by (auto simp: reader_inv_def NewReopenableReaderAt_def)
next
  case (reader_next s t)
  then show ?case using reader_step_inv by blast
qed


text \<open>C16: Whatever the operating system answers and however reads, cancellations, interrupts and the
  closing of the reader are interleaved: at most one handle is open, a read in flight uses the current
  handle and has the reader for itself, and once the reader was closed no handle is open, none is
  opened again and no read begins.\<close>

theorem reader_leaks_no_handle:
  assumes "reader_reachable h s"
  shows "RrOpened (SyReader s) - RrShut (SyReader s) \<subseteq> {RrSource (SyReader s)} \<and>
    (\<forall>x. SyOperation s = OpReading x \<longrightarrow> x = RrSource (SyReader s) \<and>
       (\<forall>t. reader_step s t \<longrightarrow> RrSource (SyReader t) = x)) \<and>
    (SyCloser s = CloserDone \<longrightarrow> RrOpened (SyReader s) \<subseteq> RrShut (SyReader s) \<and>
       begin_reading (SyReader s) = Inl ErrClosedPipe \<and>
       (\<forall>t. reader_step s t \<longrightarrow> RrOpened (SyReader t) = RrOpened (SyReader s) \<and> SyCloser t = CloserDone))"
proof (intro conjI allI impI)
  note inv = reader_reachable_inv [OF assms]
  show "RrOpened (SyReader s) - RrShut (SyReader s) \<subseteq> {RrSource (SyReader s)}"
    using inv by (auto simp: reader_inv_def)
  fix x assume op: "SyOperation s = OpReading x"
  show x: "x = RrSource (SyReader s)" using inv op by (simp add: reader_inv_def)
  fix t assume "reader_step s t"
  then show "RrSource (SyReader t) = x" using op x by cases (simp_all add: reader_defs)
next
  note inv = reader_reachable_inv [OF assms]
  assume closer: "SyCloser s = CloserDone"
  then have idle: "SyOperation s = OpIdle" "RrClosed (SyReader s)"
      "RrOpened (SyReader s) \<subseteq> RrShut (SyReader s)" using inv by (auto simp: reader_inv_def)
  show "RrOpened (SyReader s) \<subseteq> RrShut (SyReader s)" by (rule idle(3))
  show "begin_reading (SyReader s) = Inl ErrClosedPipe" using idle(2) by (simp add: begin_reading_def)
  fix t assume "reader_step s t"
  then have "RrOpened (SyReader t) = RrOpened (SyReader s) \<and> SyCloser t = CloserDone"
    using closer idle by cases (simp_all add: reader_defs)
  then show "RrOpened (SyReader t) = RrOpened (SyReader s)" "SyCloser t = CloserDone" by blast+
qed

section \<open>After a reopen that failed\<close>

text \<open>Reading from a closed file returns at once with \<^verbatim>\<open>os.ErrClosed\<close>.\<close>

definition file_closed :: error where "file_closed = ErrIO ''file already closed''"

fun honest_answers :: "ReopenableReader \<Rightarrow> (ReadOutcome \<times> error option \<times> nat result) list \<Rightarrow> bool" where
  "honest_answers r [] = True"
| "honest_answers r ((outcome, closeAnswer, reopened) # as) =
     ((RrSource r \<in> RrShut r \<longrightarrow> outcome = ReadReturned 0 (Some file_closed)) \<and>
      honest_answers (snd (ReadAtContext True outcome closeAnswer reopened r)) as)"

fun read_all :: "ReopenableReader \<Rightarrow> (ReadOutcome \<times> error option \<times> nat result) list \<Rightarrow> (nat \<times> error option) list" where
  "read_all r [] = []"
| "read_all r ((outcome, closeAnswer, reopened) # as) =
     (case ReadAtContext True outcome closeAnswer reopened r of (res, r1) \<Rightarrow> res # read_all r1 as)"

lemma length_read_all: "length (read_all r answers) = length answers"
  by (induction r answers rule: read_all.induct) (simp_all split: prod.splits)

lemma dead_reader:
  assumes "RrSource r \<in> RrShut r" "\<not> RrClosed r" "honest_answers r answers"
  shows "\<forall>res \<in> set (read_all r answers). res = (0, Some file_closed)"
  using assms
proof (induction answers arbitrary: r)
  case (Cons a answers)
  obtain outcome c reopened where a: "a = (outcome, c, reopened)" by (cases a)
  have "outcome = ReadReturned 0 (Some file_closed)" using Cons.prems a by simp
  then have "ReadAtContext True outcome c reopened r = ((0, Some file_closed), r)"
    using Cons.prems(2) by (simp add: ReadAtContext_def begin_reading_def)
  then show ?case using Cons a by simp
qed simp

lemma closed_file_not_fatal:
  "fatalRecoveryReadError platformFatal_linux (Some file_closed) = None"
  "fatalRecoveryReadError platformFatal_windows (Some file_closed) = None"
  by (simp_all add: fatalRecoveryReadError_def file_closed_def platformFatal_linux_def platformFatal_windows_def)

lemma failed_reopen_dead:
  assumes "\<not> RrClosed r"
    and "ReadAtContext True (ContextDone ErrDeadlineExceeded) closeAnswer (Inl e) r = (res, r1)"
    and "honest_answers r1 answers"
  shows "res = (0, Some (Wrapf ''reopen source after timed-out read'' e))"
    "\<forall>x \<in> set (read_all r1 answers). x = (0, Some file_closed)"
proof -
  have r1: "r1 = r\<lparr>RrShut := insert (RrSource r) (RrShut r)\<rparr>"
    using assms(1,2) by (auto simp: ReadAtContext_def after_join_def reopenCurrent_def reader_defs)
  then show "\<forall>x \<in> set (read_all r1 answers). x = (0, Some file_closed)"
    using assms(1,3) by (intro dead_reader) simp_all
  show "res = (0, Some (Wrapf ''reopen source after timed-out read'' e))"
    using assms(1,2) by (auto simp: ReadAtContext_def after_join_def reopenCurrent_def reader_defs)
qed

section \<open>The rest of the medium\<close>

text \<open>A block of the fast pass ends before the next extent.\<close>

lemma cap_by_next_before:
  "sorted_wrt (\<lambda>a b. endN a \<le> startN b) es \<Longrightarrow> \<forall>x \<in> set es. extent_valid x \<Longrightarrow> x \<in> set es \<Longrightarrow> lba < StartLBA x \<Longrightarrow>
     unat lba + unat (cap_by_next lba n es) \<le> startN x"
proof (induction es)
  case (Cons y ys)
  show ?case
  proof (cases "StartLBA y > lba \<and> StartLBA y - lba < n")
    case True
    then have "unat (StartLBA y - lba) = startN y - unat lba" by (intro unat_sub_le) (simp add: less_imp_le)
    then have "unat lba + unat (StartLBA y - lba) = startN y" using True by (simp add: word_less_nat_alt)
    moreover have "startN y \<le> startN x"
    proof (cases "x = y")
      case False
      then have "x \<in> set ys" using Cons.prems(3) by simp
      then have "endN y \<le> startN x" using Cons.prems(1) by simp
      then show ?thesis by linarith
    qed simp
    ultimately show ?thesis using True by simp
  next
    case False
    then have c: "cap_by_next lba n (y # ys) = cap_by_next lba n ys" by (simp only: cap_by_next.simps if_False)
    show ?thesis
    proof (cases "x = y")
      case True
      then have "n \<le> StartLBA x - lba" using False Cons.prems(4) by (auto simp: not_less dest: leD)
      then have "cap_by_next lba n (y # ys) \<le> StartLBA x - lba" using cap_by_next_le order_trans by blast
      then show ?thesis using Cons.prems(4) by (simp add: word_le_nat_alt word_less_nat_alt unat_sub_le)
    next
      case f: False
      then show ?thesis using Cons.IH Cons.prems unfolding c by simp
    qed
  qed
qed simp

lemma block_free:
  assumes "on_medium m es" "LookupExtent es lba = None" "x \<in> set es"
  shows "endN x \<le> unat lba \<or> unat lba + unat (fast_sectors es capacity block lba) \<le> startN x"
proof (cases "lba < StartLBA x")
  case True
  then show ?thesis
    using cap_by_next_before [OF _ _ assms(3) True] assms(1)
    by (auto simp: fast_sectors_def Let_def on_medium_def wf_extents_def)
next
  case False
  have "LookupExtent_from i ys lba = None \<Longrightarrow> \<forall>y \<in> set ys. \<not> (StartLBA y \<le> lba \<and> lba < EndLBA y)" for i ys
    by (induction ys arbitrary: i) (auto split: if_splits)
  then have "\<not> lba < EndLBA x" using assms(2,3) False by (auto simp: LookupExtent_def)
  moreover have "extent_valid x" using assms(1,3) by (simp add: on_medium_def wf_extents_def)
  ultimately show ?thesis by (simp add: word_less_nat_alt not_less)
qed

text \<open>Recording a range on a disk that answers.\<close>

lemma Persistence_ApplyExtent_done:
  assumes g: "job_ready m h mp ip K p" and sc: "Script (disk p) = []" and e: "extent_typed e"
    and ap: "ApplyExtent (extents (store p)) e = Inr es" and ns: "nextSequence (store p) \<noteq> 0"
  shows "\<exists>q. Persistence_ApplyExtent p e = (None, q) \<and> Script (disk q) = [] \<and>
    nextSequence (store q) = nextSequence (store p) + 1"
proof -
  obtain p1 where p1: "ForceCheckpoint p CheckpointReasonPassTransition = (None, p1)" "Script (disk p1) = []"
      "nextSequence (store p1) = nextSequence (store p)"
    using ForceCheckpoint_done [OF job_ready_session(1) [OF g] sc] by blast
  have st: "job_saved m h mp ip K p1" "extents (store p1) = extents (store p)" "pendingRecords (store p1) = []"
    using ForceCheckpoint_step(2) [OF job_ready_session(1) [OF g] p1(1)] by simp_all
  obtain c rs ps where ses: "session c rs ps (disk p1) (store p1)" using job_savedD(11) [OF st(1)] by blast
  have u: "\<not> unusable (store p1)" using ses by (simp add: session_def)
  obtain es' b where pr: "prepareExtent (store p1) e = Inr (es', b)"
    using prepareExtent_total(1) [OF _ e, of "store p1"] ap ns p1(3) st(2) by (cases "prepareExtent (store p1) e") fastforce+
  obtain pos1 w1 where wf: "writeFull (disk p1) (path (store p1)) (length (contents (disk p1) (path (store p1)))) b =
      ((None, pos1), w1)" "Script w1 = []" using writeFull_done [OF p1(2)] by blast
  show ?thesis
    using p1 u st(3) pr wf
    by (simp add: Persistence_ApplyExtent_def Store_ApplyExtent_def Flush_def appendExtent_def os_SeekEnd_done os_Sync_done)
qed

text \<open>A run whose reader is dead: every read that is left fails at once, and there are enough of them for
  the sectors up to the end.\<close>

definition dead_at :: "(nat \<Rightarrow> u8) \<Rightarrow> Header \<Rightarrow> string \<Rightarrow> string \<Rightarrow> nat set \<Rightarrow> nat \<Rightarrow> Persistence Run \<Rightarrow> bool" where
  "dead_at m h mp ip K left r \<longleftrightarrow>
     job_ready m h mp ip K (runStore r) \<and> Script (disk (runStore r)) = [] \<and> CtxErrs r = [] \<and>
     (\<forall>a \<in> set (Reads r). a = Io 0 (Some file_closed)) \<and> left \<le> length (Reads r) \<and>
     nextSequence (store (runStore r)) \<noteq> 0 \<and>
     unat (nextSequence (store (runStore r))) + left < 18446744073709551616"

lemma dead_at_less: "dead_at m h mp ip K l r \<Longrightarrow> l' \<le> l \<Longrightarrow> dead_at m h mp ip K l' r"
  by (auto simp: dead_at_def)

text \<open>The block at \<open>lba\<close> is recorded as unreadable, and nothing else changes.\<close>

definition condemned :: "nat \<Rightarrow> nat \<Rightarrow> Extent list \<Rightarrow> Extent list \<Rightarrow> bool" where
  "condemned lo hi es es' \<longleftrightarrow>
     (\<forall>k. extent_at es' k =
        (if extent_at es k = None \<and> lo \<le> k \<and> k < hi
         then Some (Extent_zero\<lparr>State := SectorStateIOError, Confidence := ConfidenceNone, Attempts := 1\<rparr>)
         else extent_at es k))"

lemma condemned_trans: "condemned a b es es1 \<Longrightarrow> condemned b c es1 es2 \<Longrightarrow> a \<le> b \<Longrightarrow> b \<le> c \<Longrightarrow> condemned a c es es2"
  unfolding condemned_def by (intro allI) (smt (verit) linorder_not_le option.distinct(1) order_trans)

lemma dead_block:
  assumes d: "dead_at m h mp ip K l r" and n: "n \<noteq> 0" "unat lba + unat n \<le> unat (ExpectedSectorCount h)" "unat n \<le> l"
    and free: "\<forall>x \<in> set (extents (store (runStore r))). endN x \<le> unat lba \<or> unat lba + unat n \<le> startN x"
    and ss: "LogicalSectorSize h \<noteq> 0"
  shows "\<exists>r'. fast_block persistence_store platformFatal_linux m (LogicalSectorSize h) lba n r = (None, r') \<and>
    dead_at m h mp ip K (l - unat n) r' \<and>
    condemned (unat lba) (unat lba + unat n) (extents (store (runStore r))) (extents (store (runStore r')))"
proof -
  let ?p = "runStore r" and ?e = "plain lba n SectorStateIOError ConfidenceNone 1"
  from d have g: "job_ready m h mp ip K ?p" and sc: "Script (disk ?p) = []" "CtxErrs r = []"
    and dead: "\<forall>a \<in> set (Reads r). a = Io 0 (Some file_closed)" "l \<le> length (Reads r)"
    and ns: "nextSequence (store ?p) \<noteq> 0" "unat (nextSequence (store ?p)) + l < 18446744073709551616"
    unfolding dead_at_def by blast+
  note jr = job_ready_session [OF g]
  note ex = job.block_exact [OF g n(2)]
  have n0: "unat n \<noteq> 0" using n(1) by (simp add: unat_eq_zero)
  obtain as where rd: "Reads r = Io 0 (Some file_closed) # as"
    using dead n(3) n0 by (cases "Reads r") auto
  have E: "startN ?e = unat lba" "endN ?e = unat lba + unat n" "unat (Sectors ?e) = unat n" using ex by simp_all
  have wf: "wf_extents (extents (store ?p))" using jr(3) by (simp add: on_medium_def)
  have small: "endN ?e < 4294967296" using E(2) n(2) jr(2) by simp
  have val: "ValidateStateConfidence SectorStateIOError ConfidenceNone = None" by code_simp
  have cf: "Confidence ?e = ConfidenceNone" by (simp add: plain_def)
  have ve: "extent_valid ?e" using E small val n(1) cf by (simp add: extent_valid_iff word_neq_0_pos)
  have "\<not> Overlaps x ?e" if x: "x \<in> set (extents (store ?p))" for x
  proof -
    have "extent_valid x" using wf x by (simp add: wf_extents_def)
    then show ?thesis using free x E ve by (auto simp: Overlaps_iff)
  qed
  then obtain es where ap: "ApplyExtent (extents (store ?p)) ?e = Inr es"
    using ApplyExtent_correct [OF wf jr(4) ve small] by metis
  obtain q where q: "Persistence_ApplyExtent ?p ?e = (None, q)" "Script (disk q) = []"
      "nextSequence (store q) = nextSequence (store ?p) + 1"
    using Persistence_ApplyExtent_done [OF g sc(1) _ ap ns(1)] by auto
  have nc: "\<not> stateClaimsImageData (State ?e)" by (simp add: stateClaimsImageData_def)
  have on: "endN ?e \<le> unat (ExpectedSectorCount h)" using E(2) n(2) by simp
  have sv: "job_saved m h mp ip K q" and aq: "ApplyExtent (extents (store ?p)) ?e = Inr (extents (store q))"
    using ApplyExtent_step(2) [OF jr(1) q(1) _ on nc] by simp_all
  have gq: "job_ready m h mp ip K q" by (rule job_ready_apply [OF g sv _ on aq]) simp
  let ?r = "r\<lparr>Reads := as, runStore := q\<rparr>" and
    ?issue = "[readFailureDetail ''Deferred'' (Some file_closed),
      ''Continuing forward; smaller bounded reads will revisit this range later.'']"
  obtain rp where rp: "reportRecoveryProgress persistence_store ''Fast acquisition'' ?issue ?r = (None, ?r\<lparr>Reported := rp\<rparr>)"
    by (cases "summarizeRecoveryExtentStates (progressExtents persistence_store ?r)") (simp add: reportRecoveryProgress_def)
  have size: "unat (n * ucast (LogicalSectorSize h)) \<noteq> 0" using ex(2) n0 ss by (simp add: unat_eq_zero)
  have ok: "\<not> readSucceeded 0 (unat (n * ucast (LogicalSectorSize h))) (Some file_closed)"
    using size by (simp add: readSucceeded_def)
  have rdl: "readAtWithDeadline (unat (n * ucast (LogicalSectorSize h))) r = ((0, Some file_closed), r\<lparr>Reads := as\<rparr>)"
    by (simp add: readAtWithDeadline_def rd)
  have "fast_block persistence_store platformFatal_linux m (LogicalSectorSize h) lba n r = (None, ?r\<lparr>Reported := rp\<rparr>)"
    unfolding fast_block_def Let_def rdl prod.case if_not_P [OF ok]
    using sc(2) q(1) rp by (simp add: andThen_def ctx_Err_def closed_file_not_fatal wrapped_def on_store_def)
  moreover have "dead_at m h mp ip K (l - unat n) (?r\<lparr>Reported := rp\<rparr>)"
  proof -
    have "unat (nextSequence (store ?p) + 1) = unat (nextSequence (store ?p)) + 1"
      using ns(2) n(3) n0 by (subst unat_add_le) simp_all
    then have "nextSequence (store q) \<noteq> 0" "unat (nextSequence (store q)) + (l - unat n) < 18446744073709551616"
      unfolding q(3) using ns(2) n(3) n0 by (auto simp: word_neq_0_pos)
    then show ?thesis using gq q(2) sc(2) dead n(3) n0 rd by (auto simp: dead_at_def)
  qed
  moreover have "condemned (unat lba) (unat lba + unat n) (extents (store ?p)) (extents (store q))"
  proof -
    have at: "extent_at (extents (store q)) k = (if covers ?e k then Some (body ?e) else extent_at (extents (store ?p)) k)" for k
      by (rule ApplyExtent_result(4) [OF aq jr(4) small])
    have b: "body ?e = Extent_zero\<lparr>State := SectorStateIOError, Confidence := ConfidenceNone, Attempts := 1\<rparr>"
      by (simp add: body_def plain_def Extent_zero_def)
    have c: "covers ?e k \<longleftrightarrow> unat lba \<le> k \<and> k < unat lba + unat n" for k using E by (auto simp: covers_def)
    have "extent_at (extents (store ?p)) k = None" if "covers ?e k" for k
      using free that unfolding extent_at_None_iff c by (fastforce simp: covers_def)
    then show ?thesis unfolding condemned_def at b c by auto
  qed
  ultimately show ?thesis by auto
qed

lemma dead_fast_loop:
  assumes "block \<noteq> 0" "LogicalSectorSize h \<noteq> 0" "unat capacity \<le> unat (ExpectedSectorCount h)"
  shows "dead_at m h mp ip K (unat capacity - unat lba) r \<Longrightarrow>
    \<exists>r'. fast_loop persistence_store platformFatal_linux m (LogicalSectorSize h) capacity block lba r = (None, r') \<and>
      condemned (unat lba) (unat capacity) (extents (store (runStore r))) (extents (store (runStore r')))"
proof (induction "unat capacity - unat lba" arbitrary: lba r rule: less_induct)
  case less
  let ?run = "fast_loop persistence_store platformFatal_linux m (LogicalSectorSize h) capacity block"
  let ?es = "ExtentsOf persistence_store (runStore r)"
  show ?case
  proof (cases "capacity \<le> lba")
    case True
    then show ?thesis by (auto simp: fast_loop.simps condemned_def word_le_nat_alt)
  next
    case False
    then have lt: "lba < capacity" by simp
    from less.prems have g: "job_ready m h mp ip K (runStore r)" and ce: "CtxErrs r = []" unfolding dead_at_def by blast+
    show ?thesis
    proof (cases "LookupExtent ?es lba")
      case (Some x)
      obtain c i where x: "x = (c, i)" by force
      note lk = job.lookup_on_medium [OF g Some [unfolded x]]
      have run: "?run lba r = ?run (EndLBA c) r"
        using False assms(1) ce Some x
        by (simp add: fast_loop.simps [of _ _ _ _ _ _ lba] ctx_Err_def Let_def del: persistence_store_simps)
      have dec: "unat capacity - unat (EndLBA c) < unat capacity - unat lba"
        using lookup_decreases [OF Some lt] x by simp
      obtain r' where r': "?run (EndLBA c) r = (None, r')"
          "condemned (unat (EndLBA c)) (unat capacity) (extents (store (runStore r))) (extents (store (runStore r')))"
        using less.hyps [OF dec] dead_at_less [OF less.prems] dec by (meson less_imp_le)
      have "condemned (unat lba) (unat capacity) (extents (store (runStore r))) (extents (store (runStore r')))"
        using r'(2) lk(3) lk(2) unfolding condemned_def by (auto simp: not_le)
      then show ?thesis using run r'(1) by simp
    next
      case None
      let ?n = "fast_sectors ?es capacity block lba"
      note fs = fast_sectors_facts [OF lt, where es = ?es and block = block]
      have nz: "?n \<noteq> 0" using fs(3) assms(1) by blast
      have on: "unat lba + unat ?n \<le> unat (ExpectedSectorCount h)" using fs(5) assms(3) by linarith
      have le: "unat ?n \<le> unat capacity - unat lba" using fs(5) by linarith
      have free: "\<forall>x \<in> set (extents (store (runStore r))). endN x \<le> unat lba \<or> unat lba + unat ?n \<le> startN x"
        using block_free [OF job_ready_session(3) [OF g]] None by auto
      from dead_block [OF less.prems nz on le free assms(2)] obtain r1 where
        r1: "fast_block persistence_store platformFatal_linux m (LogicalSectorSize h) lba ?n r = (None, r1)"
          "dead_at m h mp ip K (unat capacity - unat lba - unat ?n) r1"
          "condemned (unat lba) (unat lba + unat ?n) (extents (store (runStore r))) (extents (store (runStore r1)))" by blast
      have run: "?run lba r = ?run (lba + ?n) r1"
        using False assms(1) ce None nz r1(1)
        by (simp add: fast_loop.simps [of _ _ _ _ _ _ lba] ctx_Err_def Let_def del: persistence_store_simps)
      have "dead_at m h mp ip K (unat capacity - unat (lba + ?n)) r1" using r1(2) fs(4) by simp
      from less.hyps [OF fast_sectors_decreases [OF lt nz] this] obtain r' where
        r': "?run (lba + ?n) r1 = (None, r')"
          "condemned (unat lba + unat ?n) (unat capacity) (extents (store (runStore r1))) (extents (store (runStore r')))"
        using fs(4) by auto
      show ?thesis using condemned_trans [OF r1(3) r'(2)] run r'(1) fs(5) by simp
    qed
  qed
qed

text \<open>C32: When reopening the source after a timed-out read fails once, the reader keeps the handle it
  has closed and never tries again: every later read fails at once, without a request to the
  device. The recovery does not take that failure as fatal: on a disk that answers, the fast pass
  goes on from any sector to the end of the medium without an error, and records every sector it had
  nothing recorded for as a failed read of one attempt, although none was tried; what was
  recorded before stays.\<close>

theorem failed_reopen_condemns_rest:
  assumes "\<not> RrClosed r"
    and "ReadAtContext True (ContextDone ErrDeadlineExceeded) closeAnswer (Inl e) r = (res, r1)"
    and "honest_answers r1 answers"
    and "Reads run = map (\<lambda>x. Io (fst x) (snd x)) (read_all r1 answers)" "CtxErrs run = []"
    and "job_ready m h mp ip K (runStore run)" "Script (disk (runStore run)) = []"
    and "nextSequence (store (runStore run)) \<noteq> 0"
      "unat (nextSequence (store (runStore run))) + (unat capacity - unat lba) < 18446744073709551616"
    and "unat capacity - unat lba \<le> length answers" "unat capacity \<le> unat (ExpectedSectorCount h)"
    and "LogicalSectorSize h \<noteq> 0" "block \<noteq> 0"
  shows "res = (0, Some (Wrapf ''reopen source after timed-out read'' e)) \<and>
    (\<forall>x \<in> set (read_all r1 answers). x = (0, Some file_closed)) \<and>
    (\<exists>run'. fast_loop persistence_store platformFatal_linux m (LogicalSectorSize h) capacity block lba run = (None, run') \<and>
      (\<forall>k. extent_at (extents (store (runStore run'))) k =
         (if extent_at (extents (store (runStore run))) k = None \<and> unat lba \<le> k \<and> k < unat capacity
          then Some (Extent_zero\<lparr>State := SectorStateIOError, Confidence := ConfidenceNone, Attempts := 1\<rparr>)
          else extent_at (extents (store (runStore run))) k)))"
proof -
  note dead = failed_reopen_dead [OF assms(1-3)]
  have "dead_at m h mp ip K (unat capacity - unat lba) run"
    using assms(4-10) dead(2) by (auto simp: dead_at_def length_read_all)
  from dead_fast_loop [OF assms(13,12,11) this] dead show ?thesis unfolding condemned_def by blast
qed

text \<open>A canceled read leaves the closed handle in place, too.\<close>

lemma canceled_read_not_reopened:
  assumes "\<not> RrClosed r" "ReadAtContext True (ContextDone ErrCanceled) closeAnswer reopened r = (res, r1)"
  shows "RrSource r1 = RrSource r \<and> RrSource r1 \<in> RrShut r1"
  using assms by (auto simp: ReadAtContext_def after_join_def reader_defs)


section \<open>Witnesses\<close>

definition sample_reader_state :: ReopenableReader where
  "sample_reader_state = \<lparr>RrSource = 1, RrClosed = False, RrShut = {}, RrOpened = {1}\<rparr>"

text \<open>A read times out, the source is reopened, and then the reader is closed.\<close>

theorem reader_leaks_no_handle_witness:
  "\<exists>s. reader_reachable 1 s \<and> SyCloser s = CloserDone \<and> RrOpened (SyReader s) = {1, 2} \<and>
     {1, 2} \<subseteq> RrShut (SyReader s)"
proof -
  let ?r0 = sample_reader_state
  let ?s0 = "\<lparr>SyReader = ?r0, SyOperation = OpIdle, SyCloser = CloserIdle\<rparr>"
  have "NewReopenableReaderAt (Some 1) True True = Inr ?r0"
    by (simp add: NewReopenableReaderAt_def sample_reader_state_def)
  then have "reader_reachable 1 ?s0" by (rule reader_start)
  moreover have "begin_reading (SyReader ?s0) = Inr 1"
    by (simp add: begin_reading_def sample_reader_state_def)
  ultimately have "reader_reachable 1 (?s0\<lparr>SyOperation := OpReading 1\<rparr>)"
    by (intro reader_next [OF _ step_begin]) simp_all
  from reader_next [OF this step_context_done [where answer = None and cause = ErrDeadlineExceeded and h = 1]]
  have s2: "reader_reachable 1 \<lparr>SyReader = ?r0\<lparr>RrShut := {1}\<rparr>, SyOperation = OpJoining 1 ErrDeadlineExceeded, SyCloser = CloserIdle\<rparr>"
    by (simp add: reader_defs sample_reader_state_def)
  have "snd (after_join ErrDeadlineExceeded (Inr 2) (?r0\<lparr>RrShut := {1}\<rparr>)) = ?r0\<lparr>RrShut := {1}, RrSource := 2, RrOpened := {1, 2}\<rparr>"
    by (simp add: after_join_def reopenCurrent_def sample_reader_state_def insert_commute)
  with reader_next [OF s2 step_joined [where reopened = "Inr 2" and h = 1 and cause = ErrDeadlineExceeded]]
  have s3: "reader_reachable 1 \<lparr>SyReader = ?r0\<lparr>RrShut := {1}, RrSource := 2, RrOpened := {1, 2}\<rparr>, SyOperation = OpIdle, SyCloser = CloserIdle\<rparr>"
    by (simp add: sample_reader_state_def)
  from reader_next [OF s3 step_mark_closed]
  have s4: "reader_reachable 1 \<lparr>SyReader = \<lparr>RrSource = 2, RrClosed = True, RrShut = {1}, RrOpened = {1, 2}\<rparr>, SyOperation = OpIdle, SyCloser = CloserMarked\<rparr>"
    by (simp add: sample_reader_state_def)
  from reader_next [OF s4 step_close_source [where answer = None]]
  have s5: "reader_reachable 1 \<lparr>SyReader = \<lparr>RrSource = 2, RrClosed = True, RrShut = {2, 1}, RrOpened = {1, 2}\<rparr>, SyOperation = OpIdle, SyCloser = CloserWaiting\<rparr>"
    by (simp add: reader_defs)
  from reader_next [OF s5 step_close_joined]
  have s6: "reader_reachable 1 \<lparr>SyReader = \<lparr>RrSource = 2, RrClosed = True, RrShut = {2, 1}, RrOpened = {1, 2}\<rparr>, SyOperation = OpIdle, SyCloser = CloserDone\<rparr>"
    by simp
  from reader_leaks_no_handle [OF s6] s6 show ?thesis
    by (intro exI [of _ "\<lparr>SyReader = \<lparr>RrSource = 2, RrClosed = True, RrShut = {2, 1}, RrOpened = {1, 2}\<rparr>, SyOperation = OpIdle, SyCloser = CloserDone\<rparr>"]) simp
qed

text \<open>A job that has read the first sector, and a reader that died then.\<close>

lemma honest_replicate:
  assumes "ReadAtContext True outcome c reopened r = (res, r)"
    and "RrSource r \<in> RrShut r \<longrightarrow> outcome = ReadReturned 0 (Some file_closed)"
  shows "honest_answers r (replicate n (outcome, c, reopened))"
  by (induction n) (simp_all add: assms)

theorem failed_reopen_condemns_rest_witness:
  "\<exists>run run'. 0 \<in> claimed (extents (store (runStore run))) \<and>
     fast_loop persistence_store platformFatal_linux (\<lambda>k. of_nat k) 2048 100 64 0 run = (None, run') \<and>
     (\<exists>b. extent_at (extents (store (runStore run'))) 99 = Some b) \<and> 0 \<in> claimed (extents (store (runStore run')))"
proof -
  obtain p where p: "job_ready (\<lambda>k. of_nat k) (new_header sample_input 0) ''/d/disc.drmap'' ''/d/disc.iso'' {} p"
    "Script (disk p) = []" "0 \<in> claimed (extents (store p))" "nextSequence (store p) = 2" by (rule sample_pending)
  let ?r1 = "sample_reader_state\<lparr>RrShut := {1}\<rparr>"
  let ?answers = "replicate 100 (ReadReturned 0 (Some file_closed), None, Inr 2)"
  let ?run = "\<lparr>runStore = p, Reads = map (\<lambda>x. Io (fst x) (snd x)) (read_all ?r1 ?answers), CtxErrs = [], Reported = []\<rparr>"
  have step: "ReadAtContext True (ContextDone ErrDeadlineExceeded) None (Inl (ErrIO ''EBUSY'')) sample_reader_state =
      ((0, Some (Wrapf ''reopen source after timed-out read'' (ErrIO ''EBUSY''))), ?r1)"
    by (simp add: ReadAtContext_def after_join_def reopenCurrent_def reader_defs sample_reader_state_def)
  have open1: "\<not> RrClosed sample_reader_state" by (simp add: sample_reader_state_def)
  have same: "ReadAtContext True (ReadReturned 0 (Some file_closed)) None (Inr 2) ?r1 = ((0, Some file_closed), ?r1)"
    by (simp add: ReadAtContext_def begin_reading_def sample_reader_state_def)
  have honest: "honest_answers ?r1 ?answers" by (rule honest_replicate [OF same]) simp
  have h: "LogicalSectorSize (new_header sample_input 0) = 2048" "ExpectedSectorCount (new_header sample_input 0) = 100"
    by (simp_all add: new_header sample_input_def)
  obtain run' where r: "fast_loop persistence_store platformFatal_linux (\<lambda>k. of_nat k) 2048 100 64 0 ?run = (None, run')"
    "\<forall>k. extent_at (extents (store (runStore run'))) k =
       (if extent_at (extents (store p)) k = None \<and> k < 100
        then Some (Extent_zero\<lparr>State := SectorStateIOError, Confidence := ConfidenceNone, Attempts := 1\<rparr>)
        else extent_at (extents (store p)) k)"
    using failed_reopen_condemns_rest [OF open1 step honest, of ?run "\<lambda>k. of_nat k" "new_header sample_input 0"
        "''/d/disc.drmap''" "''/d/disc.iso''" "{}" 100 0 64] p h by auto
  have "\<exists>b. extent_at (extents (store (runStore run'))) 99 = Some b" using r(2) by (cases "extent_at (extents (store p)) 99") simp_all
  moreover have "0 \<in> claimed (extents (store (runStore run')))"
    using p(3) r(2) by (auto simp: claimed_def)
  ultimately show ?thesis using p(3) r(1) by (intro exI [of _ ?run] exI [of _ run']) simp
qed

end
