(* ===== verification/WorkerProtocol.thy ===== *)
theory WorkerProtocol
  imports Device MapCodec
begin

text \<open>
  The protocol between supervisor and worker (\<^verbatim>\<open>internal/device\<close>: \<^verbatim>\<open>protocol.go\<close>,
  \<^verbatim>\<open>protocol_frame.go\<close>, \<^verbatim>\<open>protocol_command.go\<close>, \<^verbatim>\<open>worker.go\<close>): frames with a
  checksum and the payloads of commands, results, speeds, ejects and the handshake.
\<close>

section \<open>Frames\<close>

abbreviation (input) MaxFramePayloadBytes :: nat where "MaxFramePayloadBytes \<equiv> 1048576"
abbreviation (input) ProtocolVersion :: u16 where "ProtocolVersion \<equiv> 1"

definition FrameMagic :: bytes where "FrameMagic = [68, 83, 87, 80]"

type_synonym MessageType = u16

record Frame =
  FrType :: MessageType
  FrRequestID :: u64
  FrPayload :: bytes

definition ValidateFrame :: "Frame \<Rightarrow> error option" where
  "ValidateFrame f =
     (if FrType f = 0 then Some (Errorf ''validate frame: type must be non-zero'')
      else if FrRequestID f = 0 then Some (Errorf ''validate frame: request id must be non-zero'')
      else if length (FrPayload f) > MaxFramePayloadBytes
      then Some (Errorf ''validate frame: payload exceeds limit'') else None)"

definition frame_body :: "Frame \<Rightarrow> bytes" where
  "frame_body f = FrameMagic @ le_put 2 ProtocolVersion @ le_put 2 (FrType f) @ le_put 8 (FrRequestID f) @
     le_put 4 (of_nat (length (FrPayload f)) :: u32) @ FrPayload f"

definition MarshalFrame :: "Frame \<Rightarrow> bytes result" where
  "MarshalFrame f =
     (case ValidateFrame f of Some e \<Rightarrow> Inl e
      | None \<Rightarrow> Inr (frame_body f @ le_put 4 (crc32c (frame_body f))))"

definition UnmarshalFrame :: "bytes \<Rightarrow> Frame result" where
  "UnmarshalFrame encoded =
     (if length encoded < 24 then Inl (Errorf ''unmarshal frame: buffer length is too small'')
      else if slice 0 4 encoded \<noteq> FrameMagic then Inl (Errorf ''unmarshal frame: unexpected magic'')
      else if (le_get (slice 4 6 encoded) :: u16) \<noteq> ProtocolVersion
      then Inl (Errorf ''unmarshal frame: unsupported version'')
      else let payloadLength = unat (le_get (slice 16 20 encoded) :: u32) in
      if payloadLength > MaxFramePayloadBytes then Inl (Errorf ''unmarshal frame: payload exceeds limit'')
      else if length encoded \<noteq> 24 + payloadLength
      then Inl (Errorf ''unmarshal frame: buffer length does not match expected length'')
      else if (le_get (drop (length encoded - 4) encoded) :: u32) \<noteq> crc32c (take (length encoded - 4) encoded)
      then Inl (Errorf ''unmarshal frame: crc32c mismatch'')
      else let frame = \<lparr>FrType = le_get (slice 6 8 encoded), FrRequestID = le_get (slice 8 16 encoded),
             FrPayload = slice 20 (20 + payloadLength) encoded\<rparr> in
      (case ValidateFrame frame of Some e \<Rightarrow> Inl e | None \<Rightarrow> Inr frame))"

section \<open>Payloads\<close>

definition encodeCommandKind :: "CommandKind \<Rightarrow> u16 result" where
  "encodeCommandKind k =
     (case k of CommandInquiry \<Rightarrow> Inr 1 | CommandReadBlocks \<Rightarrow> Inr 2
      | _ \<Rightarrow> Inl (Errorf ''encode command kind: unsupported command''))"

definition decodeCommandKind :: "u16 \<Rightarrow> CommandKind result" where
  "decodeCommandKind code =
     (if code = 1 then Inr CommandInquiry else if code = 2 then Inr CommandReadBlocks
      else Inl (Errorf ''decode command kind: unsupported code''))"

definition MarshalCommandRequest :: "CommandRequest \<Rightarrow> bytes result" where
  "MarshalCommandRequest r =
     (case encodeCommandKind (RqCommand r) of Inl e \<Rightarrow> Inl e
      | Inr code \<Rightarrow> Inr (le_put 2 code @ le_put 2 (0 :: u16) @ le_put 8 (RqStartLBA r) @ le_put 4 (RqSectors r)))"

definition UnmarshalCommandRequest :: "bytes \<Rightarrow> CommandRequest result" where
  "UnmarshalCommandRequest payload =
     (if length payload \<noteq> 16 then Inl (Errorf ''unmarshal command request: expected 16 bytes'')
      else (case decodeCommandKind (le_get (slice 0 2 payload)) of Inl e \<Rightarrow> Inl e
      | Inr command \<Rightarrow> Inr \<lparr>RqID = 0, RqCommand = command, RqStartLBA = le_get (slice 4 12 payload),
          RqSectors = le_get (slice 12 16 payload), RqSpeedKbps = 0\<rparr>))"

definition MarshalSetSpeedRequest :: "ReadSpeedRequest \<Rightarrow> bytes result" where
  "MarshalSetSpeedRequest r =
     (case ReadSpeedRequest_Validate r of Some e \<Rightarrow> Inl e
      | None \<Rightarrow> Inr ((if SpdMode r = ReadSpeedExplicit then 1 else 0) # [0, 0, 0] @
          le_put 4 (SpdKilobytesPerSecond r)))"

definition UnmarshalSetSpeedRequest :: "bytes \<Rightarrow> ReadSpeedRequest result" where
  "UnmarshalSetSpeedRequest payload =
     (if length payload \<noteq> 8 then Inl (Errorf ''unmarshal set speed request: expected 8 bytes'')
      else if payload ! 0 \<noteq> 1 \<and> payload ! 0 \<noteq> 0
      then Inl (Errorf ''unmarshal set speed request: invalid mode'')
      else let r = \<lparr>SpdMode = (if payload ! 0 = 1 then ReadSpeedExplicit else ReadSpeedAuto),
             SpdKilobytesPerSecond = le_get (slice 4 8 payload)\<rparr> in
      (case ReadSpeedRequest_Validate r of Some e \<Rightarrow> Inl e | None \<Rightarrow> Inr r))"

definition MarshalEjectRequest :: "EjectRequest \<Rightarrow> bytes result" where
  "MarshalEjectRequest r =
     (case EjectRequest_Validate r of Some e \<Rightarrow> Inl e
      | None \<Rightarrow> Inr [if EjMode r = EjectForce then 1 else 0, if EjExplicitConfirm r then 1 else 0, 0, 0])"

definition UnmarshalEjectRequest :: "bytes \<Rightarrow> EjectRequest result" where
  "UnmarshalEjectRequest payload =
     (if length payload \<noteq> 4 then Inl (Errorf ''unmarshal eject request: expected 4 bytes'')
      else if payload ! 0 > 1 \<or> payload ! 1 > 1 then Inl (Errorf ''unmarshal eject request: invalid flags'')
      else let r = \<lparr>EjMode = (if payload ! 0 = 1 then EjectForce else EjectNormal),
             EjExplicitConfirm = (payload ! 1 = 1)\<rparr> in
      (case EjectRequest_Validate r of Some e \<Rightarrow> Inl e | None \<Rightarrow> Inr r))"

definition MarshalCommandResult :: "CommandResult \<Rightarrow> bytes result" where
  "MarshalCommandResult r =
     (if length (CmStatus r) > 0xffff
      then Inl (Errorf ''marshal command result: status length exceeds uint16'')
      else if length (CmData r) > MaxFramePayloadBytes
      then Inl (Errorf ''marshal command result: data length exceeds payload limit'')
      else Inr (le_put 2 (of_nat (length (CmStatus r)) :: u16) @ CmStatus r @
        le_put 4 (of_nat (length (CmData r)) :: u32) @ CmData r))"

definition UnmarshalCommandResult :: "bytes \<Rightarrow> CommandResult result" where
  "UnmarshalCommandResult payload =
     (if length payload < 6 then Inl (Errorf ''unmarshal command result: payload too short'')
      else let statusLength = unat (le_get (slice 0 2 payload) :: u16) in
      if length payload < 2 + statusLength + 4
      then Inl (Errorf ''unmarshal command result: truncated status or data length'')
      else let dataOffset = 2 + statusLength;
               dataLength = unat (le_get (slice dataOffset (dataOffset + 4) payload) :: u32) in
      if length payload \<noteq> dataOffset + 4 + dataLength
      then Inl (Errorf ''unmarshal command result: payload length does not match expected length'')
      else Inr \<lparr>CmID = 0, CmStatus = slice 2 (2 + statusLength) payload, CmData = drop (dataOffset + 4) payload\<rparr>)"

section \<open>The handshake\<close>

record WorkerHello =
  WhProtocolVersion :: u16
  WhWorkerID :: bytes

record WorkerHelloAck =
  WaProtocolVersion :: u16
  WaAccepted :: bool

definition WorkerHello_Validate :: "WorkerHello \<Rightarrow> error option" where
  "WorkerHello_Validate h =
     (if WhProtocolVersion h \<noteq> ProtocolVersion
      then Some (Errorf ''validate worker hello: unsupported protocol version'')
      else if WhWorkerID h = [] then Some (Errorf ''validate worker hello: worker id is required'')
      else if length (WhWorkerID h) > 0xffff
      then Some (Errorf ''validate worker hello: worker id length exceeds uint16'') else None)"

definition MarshalWorkerHello :: "WorkerHello \<Rightarrow> bytes result" where
  "MarshalWorkerHello h =
     (case WorkerHello_Validate h of Some e \<Rightarrow> Inl e
      | None \<Rightarrow> Inr (le_put 2 (WhProtocolVersion h) @ le_put 2 (of_nat (length (WhWorkerID h)) :: u16) @ WhWorkerID h))"

definition UnmarshalWorkerHello :: "bytes \<Rightarrow> WorkerHello result" where
  "UnmarshalWorkerHello payload =
     (if length payload < 4 then Inl (Errorf ''unmarshal worker hello: payload too short'')
      else let idLength = unat (le_get (slice 2 4 payload) :: u16) in
      if length payload \<noteq> 4 + idLength
      then Inl (Errorf ''unmarshal worker hello: payload length does not match expected'')
      else let h = \<lparr>WhProtocolVersion = le_get (slice 0 2 payload), WhWorkerID = drop 4 payload\<rparr> in
      (case WorkerHello_Validate h of Some e \<Rightarrow> Inl e | None \<Rightarrow> Inr h))"

definition WorkerHelloAck_Validate :: "WorkerHelloAck \<Rightarrow> error option" where
  "WorkerHelloAck_Validate a =
     (if WaProtocolVersion a \<noteq> ProtocolVersion
      then Some (Errorf ''validate worker hello ack: unsupported protocol version'') else None)"

definition MarshalWorkerHelloAck :: "WorkerHelloAck \<Rightarrow> bytes result" where
  "MarshalWorkerHelloAck a =
     (case WorkerHelloAck_Validate a of Some e \<Rightarrow> Inl e
      | None \<Rightarrow> Inr (le_put 2 (WaProtocolVersion a) @ [if WaAccepted a then 1 else 0]))"

definition UnmarshalWorkerHelloAck :: "bytes \<Rightarrow> WorkerHelloAck result" where
  "UnmarshalWorkerHelloAck payload =
     (if length payload \<noteq> 3 then Inl (Errorf ''unmarshal worker hello ack: expected 3 bytes'')
      else let a = \<lparr>WaProtocolVersion = le_get (slice 0 2 payload), WaAccepted = (payload ! 2 = 1)\<rparr> in
      (case WorkerHelloAck_Validate a of Some e \<Rightarrow> Inl e | None \<Rightarrow> Inr a))"

section \<open>The worker process\<close>

text \<open>\<^verbatim>\<open>cmd/discrescue/worker_main.go\<close>: a process in worker mode writes one frame and ends. The slice of
  an empty argument list, which panics, does not occur: a program has a name. The writer's error is
  the second argument of \<open>runWorker\<close>.\<close>

definition isWorkerMode :: "string list \<Rightarrow> string \<Rightarrow> bool" where
  "isWorkerMode args mode \<longleftrightarrow> mode = ''worker'' \<or> ''--worker'' \<in> set (tl args)"

definition worker_id :: bytes where
  "worker_id = [119, 111, 114, 107, 101, 114, 45, 98, 111, 111, 116, 115, 116, 114, 97, 112]"

definition hello_frame :: "bytes result" where
  "hello_frame =
     (case MarshalWorkerHello \<lparr>WhProtocolVersion = ProtocolVersion, WhWorkerID = worker_id\<rparr> of Inl e \<Rightarrow> Inl e
      | Inr payload \<Rightarrow> MarshalFrame \<lparr>FrType = 1, FrRequestID = 1, FrPayload = payload\<rparr>)"

definition runWorker :: "(bytes \<Rightarrow> error option) \<Rightarrow> error option" where
  "runWorker out = (case hello_frame of Inl e \<Rightarrow> Some e | Inr frame \<Rightarrow> out frame)"

end
