(* ===== verification/DeviceProps.thy ===== *)
theory DeviceProps
  imports WorkerProtocol CodecFacts
begin

text \<open>
  The worker protocol and the supervisor: frames and payloads are read back as written and a
  corrupted frame is refused; requests are numbered without gaps and one at a time; and a result that
  does not come blocks the supervisor for good.
\<close>

section \<open>Frames\<close>

lemma length_frame_body [simp]: "length (frame_body f) = 20 + length (FrPayload f)"
  by (simp add: frame_body_def FrameMagic_def)

lemma frame_slices:
  "slice 0 4 (frame_body f @ rest) = FrameMagic"
  "slice 4 6 (frame_body f @ rest) = le_put 2 ProtocolVersion"
  "slice 6 8 (frame_body f @ rest) = le_put 2 (FrType f)"
  "slice 8 16 (frame_body f @ rest) = le_put 8 (FrRequestID f)"
  "slice 16 20 (frame_body f @ rest) = le_put 4 (of_nat (length (FrPayload f)) :: u32)"
  "slice 20 (20 + length (FrPayload f)) (frame_body f @ rest) = FrPayload f"
proof -
  have m: "length FrameMagic = 4" by (simp add: FrameMagic_def)
  show "slice 0 4 (frame_body f @ rest) = FrameMagic"
    "slice 4 6 (frame_body f @ rest) = le_put 2 ProtocolVersion"
    "slice 6 8 (frame_body f @ rest) = le_put 2 (FrType f)"
    "slice 8 16 (frame_body f @ rest) = le_put 8 (FrRequestID f)"
    "slice 16 20 (frame_body f @ rest) = le_put 4 (of_nat (length (FrPayload f)) :: u32)"
    "slice 20 (20 + length (FrPayload f)) (frame_body f @ rest) = FrPayload f"
    by (simp_all add: frame_body_def slice_def m)
qed

lemma MarshalFrame_Inr:
  assumes "MarshalFrame f = Inr bs"
  shows "bs = frame_body f @ le_put 4 (crc32c (frame_body f))" "ValidateFrame f = None"
    "length (FrPayload f) \<le> 1048576"
  using assms by (auto simp: MarshalFrame_def ValidateFrame_def split: option.splits if_splits)

interpretation frame_codec: codec MarshalFrame UnmarshalFrame "\<lambda>_. True"
proof
  fix f bs assume "MarshalFrame f = Inr bs"
  note f = MarshalFrame_Inr [OF this]
  have n: "unat (of_nat (length (FrPayload f)) :: u32) = length (FrPayload f)"
    using f(3) by (simp add: unat_of_nat)
  have crc: "drop (length bs - 4) bs = le_put 4 (crc32c (frame_body f))" "take (length bs - 4) bs = frame_body f"
    unfolding f(1) by simp_all
  have eta: "\<lparr>FrType = FrType f, FrRequestID = FrRequestID f, FrPayload = FrPayload f\<rparr> = f" by simp
  show "UnmarshalFrame bs = Inr f"
    using f(2,3) unfolding UnmarshalFrame_def crc unfolding f(1) frame_slices
    by (simp add: Let_def n frame_slices eta del: Frame.surjective)
qed

lemma UnmarshalFrame_InrD:
  assumes "UnmarshalFrame bs = Inr f"
  shows "24 \<le> length bs" "(le_get (drop (length bs - 4) bs) :: u32) = crc32c (take (length bs - 4) bs)"
    "ValidateFrame f = None"
  using assms by (auto simp: UnmarshalFrame_def Let_def split: if_splits option.splits)

text \<open>An element of an appended list is in the one part or in the other.\<close>

lemma append_Cons_cases:
  assumes "xs @ a # ys = pre @ c"
  obtains zs where "pre = xs @ a # zs" "ys = zs @ c" | us where "xs = pre @ us" "c = us @ a # ys"
  using assms by (auto simp: append_eq_append_conv2 Cons_eq_append_conv)

text \<open>C28: A frame is read back as it was written, and changing any one of its bytes, wherever it is,
  makes the reader refuse it.\<close>

theorem frame_roundtrip_or_refused:
  assumes "MarshalFrame f = Inr (xs @ a # ys)" "a \<noteq> b"
  shows "UnmarshalFrame (xs @ a # ys) = Inr f \<and> (\<exists>e. UnmarshalFrame (xs @ b # ys) = Inl e)"
proof
  show "UnmarshalFrame (xs @ a # ys) = Inr f" using frame_codec.roundtrip [OF _ assms(1)] by simp
  let ?body = "frame_body f" and ?crc = "le_put 4 (crc32c (frame_body f))"
  note eq = MarshalFrame_Inr(1) [OF assms(1)]
  show "\<exists>e. UnmarshalFrame (xs @ b # ys) = Inl e"
  proof (rule ccontr)
    assume "\<not> (\<exists>e. UnmarshalFrame (xs @ b # ys) = Inl e)"
    then obtain g where "UnmarshalFrame (xs @ b # ys) = Inr g" by (metis sum.exhaust)
    note g = UnmarshalFrame_InrD(2) [OF this]
    from eq show False
    proof (cases rule: append_Cons_cases)
      case (1 zs)
      have "drop (length (xs @ b # ys) - 4) (xs @ b # ys) = ?crc"
        "take (length (xs @ b # ys) - 4) (xs @ b # ys) = xs @ b # zs"
        unfolding 1(2) by simp_all
      then have "crc32c (xs @ a # zs) = crc32c (xs @ b # zs)" using g 1(1) by simp
      then show False using crc32c_single_byte [OF assms(2)] by blast
    next
      case (2 us)
      have len: "length (us @ b # ys) = 4" using arg_cong [OF 2(2), of length] by simp
      have parts: "drop (length (xs @ b # ys) - 4) (xs @ b # ys) = us @ b # ys"
        "take (length (xs @ b # ys) - 4) (xs @ b # ys) = ?body"
        using len unfolding 2(1) by simp_all
      have "le_put (length (us @ b # ys)) (le_get (us @ b # ys) :: u32) = us @ b # ys"
        by (rule le_put_get) (simp only: len, simp)
      then have "us @ b # ys = le_put 4 (le_get (us @ b # ys) :: u32)" unfolding len by (rule sym)
      also have "\<dots> = us @ a # ys" using g 2(2) unfolding parts by simp
      finally show False using assms(2) by simp
    qed
  qed
qed

section \<open>Payloads\<close>

interpretation request_codec: fixed_codec MarshalCommandRequest UnmarshalCommandRequest
  "\<lambda>r. RqID r = 0 \<and> RqSpeedKbps r = 0" 16
proof
  fix r bs assume r: "RqID r = 0 \<and> RqSpeedKbps r = 0" and m: "MarshalCommandRequest r = Inr bs"
  obtain code where code: "encodeCommandKind (RqCommand r) = Inr code"
      "bs = le_put 2 code @ le_put 2 (0 :: u16) @ le_put 8 (RqStartLBA r) @ le_put 4 (RqSectors r)"
    using m by (auto simp: MarshalCommandRequest_def split: sum.splits)
  have "decodeCommandKind code = Inr (RqCommand r)"
    using code(1) by (auto simp: encodeCommandKind_def decodeCommandKind_def split: CommandKind.splits)
  then show "UnmarshalCommandRequest bs = Inr r" "length bs = 16"
    using r unfolding code(2) by (simp_all add: UnmarshalCommandRequest_def)
qed

interpretation speed_codec: fixed_codec MarshalSetSpeedRequest UnmarshalSetSpeedRequest "\<lambda>_. True" 8
proof
  fix r bs assume m: "MarshalSetSpeedRequest r = Inr bs"
  have bs: "bs = (if SpdMode r = ReadSpeedExplicit then 1 else 0) # [0, 0, 0] @ le_put 4 (SpdKilobytesPerSecond r)"
      and v: "ReadSpeedRequest_Validate r = None"
    using m by (auto simp: MarshalSetSpeedRequest_def split: option.splits)
  have mode: "SpdMode r = ReadSpeedAuto \<or> SpdMode r = ReadSpeedExplicit"
    using v by (auto simp: ReadSpeedRequest_Validate_def split: if_splits)
  obtain sm k where r: "r = \<lparr>SpdMode = sm, SpdKilobytesPerSecond = k\<rparr>" by (cases r)
  show "UnmarshalSetSpeedRequest bs = Inr r" "length bs = 8"
    using v mode unfolding bs r by (auto simp: UnmarshalSetSpeedRequest_def Let_def)
qed

interpretation eject_codec: fixed_codec MarshalEjectRequest UnmarshalEjectRequest "\<lambda>_. True" 4
proof
  fix r bs assume m: "MarshalEjectRequest r = Inr bs"
  have bs: "bs = [if EjMode r = EjectForce then 1 else 0, if EjExplicitConfirm r then 1 else 0, 0, 0]"
      and v: "EjectRequest_Validate r = None"
    using m by (auto simp: MarshalEjectRequest_def split: option.splits)
  have mode: "EjMode r = EjectNormal \<or> EjMode r = EjectForce"
    using v by (auto simp: EjectRequest_Validate_def split: if_splits)
  obtain em c where r: "r = \<lparr>EjMode = em, EjExplicitConfirm = c\<rparr>" by (cases r)
  show "UnmarshalEjectRequest bs = Inr r" "length bs = 4"
    using v mode unfolding bs r by (auto simp: UnmarshalEjectRequest_def Let_def)
qed

interpretation result_codec: codec MarshalCommandResult UnmarshalCommandResult "\<lambda>r. CmID r = 0"
proof
  fix r bs assume r: "CmID r = 0" and m: "MarshalCommandResult r = Inr bs"
  have bs: "bs = le_put 2 (of_nat (length (CmStatus r)) :: u16) @ CmStatus r @
        le_put 4 (of_nat (length (CmData r)) :: u32) @ CmData r"
      and len: "length (CmStatus r) \<le> 65535" "length (CmData r) \<le> 1048576"
    using m by (auto simp: MarshalCommandResult_def split: if_splits)
  have n: "unat (of_nat (length (CmStatus r)) :: u16) = length (CmStatus r)"
    "unat (of_nat (length (CmData r)) :: u32) = length (CmData r)"
    using len by (simp_all add: unat_of_nat)
  have status: "slice 0 2 bs = le_put 2 (of_nat (length (CmStatus r)) :: u16)"
    "slice 2 (2 + length (CmStatus r)) bs = CmStatus r"
    "slice (2 + length (CmStatus r)) (2 + length (CmStatus r) + 4) bs = le_put 4 (of_nat (length (CmData r)) :: u32)"
    "drop (2 + length (CmStatus r) + 4) bs = CmData r"
    unfolding bs by (simp_all add: slice_def)
  have total: "length bs = 2 + length (CmStatus r) + 4 + length (CmData r)" unfolding bs by simp
  show "UnmarshalCommandResult bs = Inr r"
    using r unfolding UnmarshalCommandResult_def Let_def status(1) le_get_put_2 n status(2,3) le_get_put_4 n status(4) total
    by simp
qed

interpretation hello_codec: codec MarshalWorkerHello UnmarshalWorkerHello "\<lambda>_. True"
proof
  fix h bs assume m: "MarshalWorkerHello h = Inr bs"
  have v: "WorkerHello_Validate h = None" and
    bs: "bs = le_put 2 (WhProtocolVersion h) @ le_put 2 (of_nat (length (WhWorkerID h)) :: u16) @ WhWorkerID h"
    using m by (auto simp: MarshalWorkerHello_def split: option.splits)
  have "length (WhWorkerID h) \<le> 65535"
    using v by (auto simp: WorkerHello_Validate_def split: if_splits)
  then have n: "unat (of_nat (length (WhWorkerID h)) :: u16) = length (WhWorkerID h)" by (simp add: unat_of_nat)
  obtain pv wid where h: "h = \<lparr>WhProtocolVersion = pv, WhWorkerID = wid\<rparr>" by (cases h)
  show "UnmarshalWorkerHello bs = Inr h"
    using v n unfolding bs h by (simp add: UnmarshalWorkerHello_def Let_def slice_def)
qed

interpretation hello_ack_codec: fixed_codec MarshalWorkerHelloAck UnmarshalWorkerHelloAck "\<lambda>_. True" 3
proof
  fix a bs assume m: "MarshalWorkerHelloAck a = Inr bs"
  have v: "WorkerHelloAck_Validate a = None" and
    bs: "bs = le_put 2 (WaProtocolVersion a) @ [if WaAccepted a then 1 else 0]"
    using m by (auto simp: MarshalWorkerHelloAck_def split: option.splits)
  have "bs ! 2 = (if WaAccepted a then 1 else 0)" unfolding bs by (simp add: nth_append)
  moreover obtain pv acc where a: "a = \<lparr>WaProtocolVersion = pv, WaAccepted = acc\<rparr>" by (cases a)
  ultimately show "UnmarshalWorkerHelloAck bs = Inr a" "length bs = 3"
    using v unfolding bs a
    by (cases acc; simp add: UnmarshalWorkerHelloAck_def Let_def slice_def)+
qed

text \<open>A result may be as large as a frame's payload, but has a header of its own: the largest results
  that can be encoded cannot be sent.\<close>

lemma largest_result_not_sendable:
  assumes "MarshalCommandResult r = Inr p" "1048576 < 6 + length (CmStatus r) + length (CmData r)"
    and "FrPayload f = p"
  shows "\<exists>e. MarshalFrame f = Inl e"
proof -
  have "length p = 6 + length (CmStatus r) + length (CmData r)"
    using assms(1) by (auto simp: MarshalCommandResult_def split: if_splits)
  then have "ValidateFrame f \<noteq> None" using assms(2,3) by (simp add: ValidateFrame_def)
  then show ?thesis by (auto simp: MarshalFrame_def)
qed

text \<open>What the worker process writes is read back as a valid greeting of the right version.\<close>

lemma hello_frame_understood:
  "\<exists>frame f h. hello_frame = Inr frame \<and> runWorker out = out frame \<and> UnmarshalFrame frame = Inr f \<and> FrType f = 1 \<and>
     UnmarshalWorkerHello (FrPayload f) = Inr h \<and> WhWorkerID h = worker_id"
proof -
  let ?h = "\<lparr>WhProtocolVersion = ProtocolVersion, WhWorkerID = worker_id\<rparr>"
  have "WorkerHello_Validate ?h = None" by (simp add: WorkerHello_Validate_def worker_id_def)
  then obtain payload where payload: "MarshalWorkerHello ?h = Inr payload" "length payload = 20"
    by (simp add: MarshalWorkerHello_def worker_id_def)
  let ?f = "\<lparr>FrType = 1, FrRequestID = 1, FrPayload = payload\<rparr>"
  have "ValidateFrame ?f = None" using payload(2) by (simp add: ValidateFrame_def)
  then obtain frame where frame: "MarshalFrame ?f = Inr frame" by (simp add: MarshalFrame_def)
  have hello: "hello_frame = Inr frame" by (simp add: hello_frame_def payload(1) frame)
  moreover have "runWorker out = out frame" unfolding runWorker_def hello by simp
  moreover have "UnmarshalFrame frame = Inr ?f" using frame_codec.roundtrip [OF _ frame] by simp
  moreover have "UnmarshalWorkerHello payload = Inr ?h" using hello_codec.roundtrip [OF _ payload(1)] by simp
  ultimately show ?thesis by (intro exI [of _ frame] exI [of _ ?f] exI [of _ ?h]) simp
qed

text \<open>Only two of the eleven allowed commands can be sent.\<close>

lemma sendable_commands:
  "filter (\<lambda>k. \<exists>c. encodeCommandKind k = Inr c) AllowedCommandKinds = [CommandInquiry, CommandReadBlocks]"
  by (simp add: AllowedCommandKinds_def encodeCommandKind_def)

text \<open>Message types that no constant names are accepted.\<close>

lemma unknown_message_accepted:
  assumes "14 < t"
  shows "UnmarshalFrame (frame_body \<lparr>FrType = t, FrRequestID = 1, FrPayload = []\<rparr> @
      le_put 4 (crc32c (frame_body \<lparr>FrType = t, FrRequestID = 1, FrPayload = []\<rparr>))) =
    Inr \<lparr>FrType = t, FrRequestID = 1, FrPayload = []\<rparr>"
proof -
  have "t \<noteq> 0" using assms by auto
  then show ?thesis by (intro frame_codec.roundtrip) (simp_all add: MarshalFrame_def ValidateFrame_def)
qed

section \<open>The supervisor\<close>

lemma DefaultDeadlines_valid:
  "(\<forall>d. DefaultDeadlines r = Inr d \<longrightarrow> Deadlines_Validate d = None) \<and>
   ((\<exists>d. DefaultDeadlines r = Inr d) \<longleftrightarrow> AllowedCommandSpec (RqCommand r) \<noteq> None)"
  by (cases "RqCommand r") (auto simp: DefaultDeadlines_def Deadlines_Validate_def)

definition ids_of :: "DispatchEffectKind \<Rightarrow> DispatchEffect list \<Rightarrow> u64 list" where
  "ids_of k es = map DeRequestID (filter (\<lambda>e. DeKind e = k) es)"

definition supervisor_inv :: "Supervisor \<Rightarrow> bool" where
  "supervisor_inv s \<longleftrightarrow> (case SvActive s of None \<Rightarrow> True
     | Some a \<Rightarrow> RqID (AcRequest a) = SvNextRequestID s \<and> AcSoftDeadlineAt a \<le> AcHardDeadlineAt a)"

text \<open>Whether the soft deadline of a request was reported before, and whether it may still be.\<close>

definition reported :: "u64 \<Rightarrow> Supervisor \<Rightarrow> bool" where
  "reported i s \<longleftrightarrow> (\<exists>a. SvActive s = Some a \<and> RqID (AcRequest a) = i \<and> AcSoftDeadlineSent a)"

definition pending :: "u64 \<Rightarrow> Supervisor \<Rightarrow> bool" where
  "pending i s \<longleftrightarrow> (\<exists>a. SvActive s = Some a \<and> RqID (AcRequest a) = i \<and> \<not> AcSoftDeadlineSent a)"

lemma ids_of_simps [simp]: "ids_of k [] = []" "ids_of k (xs @ ys) = ids_of k xs @ ids_of k ys"
  "ids_of k (e # es) = (if DeKind e = k then DeRequestID e # ids_of k es else ids_of k es)"
  by (simp_all add: ids_of_def)

text \<open>A step is quiet (nothing becomes active), a dispatch, or a check of the clock.\<close>

lemma supervisor_step_cases:
  assumes "supervisor_step e s = (fs, t)" "supervisor_inv s"
  obtains (quiet) "fs = []" "SvNextRequestID t = SvNextRequestID s" "SvActive t = SvActive s \<or> SvActive t = None"
  | (dispatched) a d where "SvActive s = None" "SvNextRequestID t = SvNextRequestID s + 1" "SvActive t = Some a"
      "RqID (AcRequest a) = SvNextRequestID t" "\<not> AcSoftDeadlineSent a" "AcSoftDeadlineAt a \<le> AcHardDeadlineAt a"
      "fs = [\<lparr>DeKind = EffectDispatchRequest, DeRequestID = SvNextRequestID t, DeDrive = d\<rparr>]"
  | (checked) a b where "SvActive s = Some a" "SvNextRequestID t = SvNextRequestID s" "SvActive t = Some b"
      "AcRequest b = AcRequest a" "AcSoftDeadlineAt b \<le> AcHardDeadlineAt b"
      "ids_of EffectDispatchRequest fs = []"
      "ids_of EffectSoftDeadline fs = (if AcSoftDeadlineSent b \<and> \<not> AcSoftDeadlineSent a then [RqID (AcRequest a)] else [])"
      "AcSoftDeadlineSent a \<longrightarrow> AcSoftDeadlineSent b"
      "\<forall>pre h post. fs = pre @ h # post \<longrightarrow> DeKind h = EffectHardDeadline \<longrightarrow>
         DeRequestID h = RqID (AcRequest a) \<and> (AcSoftDeadlineSent a \<or> DeRequestID h \<in> set (ids_of EffectSoftDeadline pre))"
proof (cases e)
  case (DispatchCommand now drive request deadlines)
  show thesis
  proof (cases "fst (Supervisor_Dispatch now drive request deadlines s)")
    case (Inl er)
    then have "fs = []" "t = s"
      using assms(1) DispatchCommand
      by (auto simp: supervisor_step_def Supervisor_Dispatch_def Let_def split: if_splits option.splits)
    then show thesis by (intro quiet) simp_all
  next
    case (Inr es)
    have acquire: "SvNextRequestID (fst (AcquireDrive drive s)) = SvNextRequestID s" by (simp add: AcquireDrive_def)
    have v: "SvActive s = None" "Deadlines_Validate deadlines = None"
      using Inr by (auto simp: Supervisor_Dispatch_def CanDispatch_def split: if_splits option.splits)
    then have soft: "DlSoft deadlines \<le> DlHard deadlines"
      by (auto simp: Deadlines_Validate_def split: if_splits)
    show thesis
      using assms(1) Inr v soft
      by (intro dispatched [where d = drive and a = "the (SvActive t)"])
        (auto simp: DispatchCommand supervisor_step_def Supervisor_Dispatch_def Let_def acquire split: if_splits)
  qed
next
  case (ResultObserved i)
  then show thesis using assms(1)
    by (intro quiet) (auto simp: supervisor_step_def ObserveResult_def ReleaseDrive_def split: option.splits if_splits)
next
  case (DriveAcquired d)
  then show thesis using assms(1) by (intro quiet) (auto simp: supervisor_step_def AcquireDrive_def split: if_splits)
next
  case (DriveReleased d)
  then show thesis using assms(1) by (intro quiet) (auto simp: supervisor_step_def ReleaseDrive_def split: if_splits)
next
  case (ClockChecked now)
  show thesis
  proof (cases "SvActive s")
    case None
    then show thesis using assms(1) ClockChecked
      by (intro quiet) (auto simp: supervisor_step_def CheckDeadlines_def)
  next
    case (Some a)
    then have order: "AcSoftDeadlineAt a \<le> AcHardDeadlineAt a" using assms(2) by (simp add: supervisor_inv_def)
    show thesis
      using assms(1) order
      by (intro checked [OF Some, where b = "the (SvActive t)"])
        (auto simp: ClockChecked Some supervisor_step_def CheckDeadlines_def Let_def Cons_eq_append_conv split: if_splits)
  qed
qed

lemma supervisor_step_inv:
  assumes "supervisor_step e s = (fs, t)" "supervisor_inv s"
  shows "supervisor_inv t"
  using assms
proof (cases rule: supervisor_step_cases)
qed (use assms(2) in \<open>auto simp: supervisor_inv_def split: option.splits\<close>)


text \<open>What a run of at most \<open>n\<close> events reports: the numbers of its dispatches, each soft deadline
  once, and no hard deadline before the soft one.\<close>

definition run_reports :: "nat \<Rightarrow> Supervisor \<Rightarrow> DispatchEffect list \<Rightarrow> bool" where
  "run_reports n s fs \<longleftrightarrow>
     (\<exists>m \<le> n. map unat (ids_of EffectDispatchRequest fs) =
        [unat (SvNextRequestID s) + 1 ..< unat (SvNextRequestID s) + 1 + m]) \<and>
     distinct (ids_of EffectSoftDeadline fs) \<and>
     (\<forall>i \<in> set (ids_of EffectSoftDeadline fs). pending i s \<or> i \<in> set (ids_of EffectDispatchRequest fs)) \<and>
     (\<forall>pre h post. fs = pre @ h # post \<longrightarrow> DeKind h = EffectHardDeadline \<longrightarrow>
        reported (DeRequestID h) s \<or> DeRequestID h \<in> set (ids_of EffectSoftDeadline pre))"

lemma run_reports_quiet:
  assumes "run_reports n t hs" "SvNextRequestID t = SvNextRequestID s" "SvActive t = SvActive s \<or> SvActive t = None"
  shows "run_reports (Suc n) s hs"
proof -
  have "pending i t \<Longrightarrow> pending i s" "reported i t \<Longrightarrow> reported i s" for i
    using assms(3) by (auto simp: pending_def reported_def)
  moreover have "m \<le> n \<Longrightarrow> m \<le> Suc n" for m by simp
  ultimately show ?thesis using assms(1) unfolding run_reports_def assms(2) by blast
qed

lemma run_reports_dispatched:
  assumes "run_reports n t hs" "SvNextRequestID t = SvNextRequestID s + 1" "SvActive t = Some a"
    and "RqID (AcRequest a) = SvNextRequestID t" "\<not> AcSoftDeadlineSent a"
    and "unat (SvNextRequestID s + 1) = unat (SvNextRequestID s) + 1"
  shows "run_reports (Suc n) s (\<lparr>DeKind = EffectDispatchRequest, DeRequestID = SvNextRequestID t, DeDrive = d\<rparr> # hs)"
    (is "run_reports _ s (?f # hs)")
proof -
  let ?N = "unat (SvNextRequestID s)"
  have next_id: "unat (SvNextRequestID t) = ?N + 1" using assms(2,6) by simp
  obtain m where m: "m \<le> n" "map unat (ids_of EffectDispatchRequest hs) = [?N + 1 + 1 ..< ?N + 1 + 1 + m]"
    using assms(1) unfolding run_reports_def next_id by blast
  have "map unat (ids_of EffectDispatchRequest (?f # hs)) = (?N + 1) # [?N + 1 + 1 ..< ?N + 1 + 1 + m]"
    using m(2) next_id by simp
  also have "\<dots> = [?N + 1 ..< ?N + 1 + Suc m]" by (simp add: upt_conv_Cons)
  finally have ids: "\<exists>m \<le> Suc n. map unat (ids_of EffectDispatchRequest (?f # hs)) = [?N + 1 ..< ?N + 1 + m]"
    using m(1) by (intro exI [of _ "Suc m"]) simp
  have only: "pending i t \<Longrightarrow> i = SvNextRequestID t" "\<not> reported i t" for i
    using assms(3-5) by (auto simp: pending_def reported_def)
  have softs: "\<forall>i \<in> set (ids_of EffectSoftDeadline (?f # hs)). pending i s \<or> i \<in> set (ids_of EffectDispatchRequest (?f # hs))"
    using assms(1) only(1) by (auto simp: run_reports_def)
  have hards: "DeRequestID h \<in> set (ids_of EffectSoftDeadline pre)"
    if eq: "?f # hs = pre @ h # post" and hard: "DeKind h = EffectHardDeadline" for pre h post
  proof -
    obtain pre' where pre: "pre = ?f # pre'" "hs = pre' @ h # post"
      using eq hard by (cases pre) auto
    then have "reported (DeRequestID h) t \<or> DeRequestID h \<in> set (ids_of EffectSoftDeadline pre')"
      using assms(1) hard unfolding run_reports_def by blast
    then show ?thesis using only(2) pre(1) by simp
  qed
  have "distinct (ids_of EffectSoftDeadline (?f # hs))" using assms(1) by (simp add: run_reports_def)
  then show ?thesis using ids softs hards unfolding run_reports_def by blast
qed

lemma run_reports_checked:
  assumes "run_reports n t hs" "SvNextRequestID t = SvNextRequestID s" "SvActive s = Some a" "SvActive t = Some b"
    and "AcRequest b = AcRequest a" "RqID (AcRequest a) = SvNextRequestID s"
    and "ids_of EffectDispatchRequest gs = []"
    and "ids_of EffectSoftDeadline gs = (if AcSoftDeadlineSent b \<and> \<not> AcSoftDeadlineSent a then [RqID (AcRequest a)] else [])"
    and "AcSoftDeadlineSent a \<longrightarrow> AcSoftDeadlineSent b"
    and "\<forall>pre h post. gs = pre @ h # post \<longrightarrow> DeKind h = EffectHardDeadline \<longrightarrow>
         DeRequestID h = RqID (AcRequest a) \<and> (AcSoftDeadlineSent a \<or> DeRequestID h \<in> set (ids_of EffectSoftDeadline pre))"
  shows "run_reports (Suc n) s (gs @ hs)"
proof -
  let ?i = "RqID (AcRequest a)" and ?N = "unat (SvNextRequestID s)"
  obtain m where m: "m \<le> n" "map unat (ids_of EffectDispatchRequest hs) = [?N + 1 ..< ?N + 1 + m]"
    using assms(1) unfolding run_reports_def assms(2) by blast
  have "?i \<notin> set (ids_of EffectDispatchRequest hs)"
  proof
    assume "?i \<in> set (ids_of EffectDispatchRequest hs)"
    then have "unat ?i \<in> set (map unat (ids_of EffectDispatchRequest hs))" by simp
    then show False unfolding m(2) assms(6) by auto
  qed
  note fresh = this
  have pend: "pending i t \<longleftrightarrow> i = ?i \<and> \<not> AcSoftDeadlineSent b"
    "pending i s \<longleftrightarrow> i = ?i \<and> \<not> AcSoftDeadlineSent a" "reported i t \<longleftrightarrow> i = ?i \<and> AcSoftDeadlineSent b"
    "reported i s \<longleftrightarrow> i = ?i \<and> AcSoftDeadlineSent a" for i
    using assms(3-5) by (auto simp: pending_def reported_def)
  have hs: "distinct (ids_of EffectSoftDeadline hs)"
      "\<And>i. i \<in> set (ids_of EffectSoftDeadline hs) \<Longrightarrow> pending i t \<or> i \<in> set (ids_of EffectDispatchRequest hs)"
      "\<And>pre h post. hs = pre @ h # post \<Longrightarrow> DeKind h = EffectHardDeadline \<Longrightarrow>
        reported (DeRequestID h) t \<or> DeRequestID h \<in> set (ids_of EffectSoftDeadline pre)"
    using assms(1) unfolding run_reports_def by simp_all
  have softs: "distinct (ids_of EffectSoftDeadline (gs @ hs))"
  proof (cases "AcSoftDeadlineSent b \<and> \<not> AcSoftDeadlineSent a")
    case True
    then have "ids_of EffectSoftDeadline (gs @ hs) = ?i # ids_of EffectSoftDeadline hs"
      using assms(8) by simp
    moreover have "?i \<notin> set (ids_of EffectSoftDeadline hs)"
      using hs(2) [of ?i] fresh pend(1) [of ?i] True by blast
    ultimately show ?thesis using hs(1) by simp
  next
    case False
    then have "ids_of EffectSoftDeadline gs = []" using assms(8) by (simp only: if_False)
    then show ?thesis using hs(1) by simp
  qed
  have known: "\<forall>i \<in> set (ids_of EffectSoftDeadline (gs @ hs)). pending i s \<or> i \<in> set (ids_of EffectDispatchRequest (gs @ hs))"
    using hs(2) assms(8,9) pend(1,2) by (auto split: if_splits)
  have "reported (DeRequestID h) s \<or> DeRequestID h \<in> set (ids_of EffectSoftDeadline pre)"
    if split: "gs @ hs = pre @ h # post" and hard: "DeKind h = EffectHardDeadline" for pre h post
    using split [symmetric]
  proof (cases rule: append_Cons_cases)
    case (1 zs)
    then have "DeRequestID h = ?i \<and> (AcSoftDeadlineSent a \<or> DeRequestID h \<in> set (ids_of EffectSoftDeadline pre))"
      using assms(10) hard by blast
    then show ?thesis by (auto simp: pend(4))
  next
    case (2 us)
    from hs(3) [OF 2(2) hard] show ?thesis
      using assms(8) by (auto simp: 2(1) pend(3,4))
  qed
  moreover have "\<exists>m \<le> Suc n. map unat (ids_of EffectDispatchRequest (gs @ hs)) = [?N + 1 ..< ?N + 1 + m]"
    using m assms(7) by (intro exI [of _ m]) simp
  ultimately show ?thesis unfolding run_reports_def using softs known by (intro conjI allI impI)
qed

lemma supervisor_run_reports:
  assumes "supervisor_run es s = (fs, t)" "supervisor_inv s"
    and "unat (SvNextRequestID s) + length es < 2 ^ 64"
  shows "run_reports (length es) s fs"
  using assms
proof (induction es arbitrary: s fs)
  case Nil
  then show ?case by (simp add: run_reports_def)
next
  case (Cons e es)
  obtain gs s1 hs where step: "supervisor_step e s = (gs, s1)" "supervisor_run es s1 = (hs, t)" "fs = gs @ hs"
    using Cons.prems(1) by (auto split: prod.splits)
  note inv = supervisor_step_inv [OF step(1) Cons.prems(2)]
  have ih: "run_reports (length es) s1 hs" if "unat (SvNextRequestID s1) \<le> unat (SvNextRequestID s) + 1"
    using Cons.IH [OF step(2) inv] that Cons.prems(3) by simp
  from step(1) Cons.prems(2) show ?case
  proof (cases rule: supervisor_step_cases)
    case quiet
    then show ?thesis using run_reports_quiet [OF ih] step(3) by simp
  next
    case (dispatched a d)
    have n: "unat (SvNextRequestID s + 1) = unat (SvNextRequestID s) + 1"
      using Cons.prems(3) unat_add_le [of "SvNextRequestID s" 1] by simp
    then have "run_reports (length es) s1 hs" using dispatched(2) by (intro ih) simp
    from run_reports_dispatched [OF this dispatched(2-5) n] show ?thesis
      using dispatched(7) step(3) by simp
  next
    case (checked a b)
    have id: "RqID (AcRequest a) = SvNextRequestID s"
      using Cons.prems(2) checked(1) by (simp add: supervisor_inv_def)
    have run: "run_reports (length es) s1 hs" using checked(2) by (intro ih) simp
    show ?thesis
      using run_reports_checked [OF run checked(2,1,3,4) id checked(6-9)] step(3) by simp
  qed
qed


text \<open>C27: From a supervisor without an active command, whatever is dispatched, observed, checked,
  acquired and released: requests are numbered one after the other without a gap, no soft deadline is
  reported twice or for a request that was not dispatched, and no hard deadline of a request is
  reported before its soft one.\<close>

theorem supervisor_reports_in_order:
  assumes "supervisor_run es s = (fs, t)" "SvActive s = None"
    and "unat (SvNextRequestID s) + length es < 2 ^ 64"
  shows "(\<exists>m \<le> length es. map unat (ids_of EffectDispatchRequest fs) =
      [unat (SvNextRequestID s) + 1 ..< unat (SvNextRequestID s) + 1 + m]) \<and>
    distinct (ids_of EffectSoftDeadline fs) \<and>
    set (ids_of EffectSoftDeadline fs) \<subseteq> set (ids_of EffectDispatchRequest fs) \<and>
    (\<forall>pre h post. fs = pre @ h # post \<longrightarrow> DeKind h = EffectHardDeadline \<longrightarrow>
       DeRequestID h \<in> set (ids_of EffectSoftDeadline pre))"
proof -
  have "supervisor_inv s" using assms(2) by (simp add: supervisor_inv_def)
  from supervisor_run_reports [OF assms(1) this assms(3)] show ?thesis
    using assms(2) by (auto simp: run_reports_def pending_def reported_def)
qed

section \<open>A result that does not come\<close>

lemma active_step:
  assumes "SvActive s = Some a" "e \<noteq> ResultObserved (RqID (AcRequest a))" "supervisor_step e s = (fs, t)"
  shows "\<exists>b. SvActive t = Some b \<and> AcRequest b = AcRequest a \<and> AcHardDeadlineAt b = AcHardDeadlineAt a \<and>
    ids_of EffectDispatchRequest fs = [] \<and>
    (\<forall>now. e = ClockChecked now \<longrightarrow> AcHardDeadlineAt a \<le> now \<longrightarrow>
       RqID (AcRequest a) \<in> set (ids_of EffectHardDeadline fs))"
  using assms
  by (cases e)
    (auto simp: supervisor_step_def Supervisor_Dispatch_def CanDispatch_def ObserveResult_def CheckDeadlines_def
      AcquireDrive_def ReleaseDrive_def Let_def split: if_splits)

text \<open>C29: Nothing but its result ends an active command. When the result is lost (a worker that hung or
  was restarted), no passing of the deadlines and no release of the drive frees the supervisor: it
  dispatches nothing more, and reports the hard deadline again at every check.\<close>

theorem lost_result_blocks_supervisor:
  assumes "SvActive s = Some a" "ResultObserved (RqID (AcRequest a)) \<notin> set es"
    and "supervisor_run es s = (fs, t)"
  shows "\<not> CanDispatch t \<and> ids_of EffectDispatchRequest fs = [] \<and>
    (\<forall>now \<ge> AcHardDeadlineAt a. RqID (AcRequest a) \<in> set (ids_of EffectHardDeadline (fst (CheckDeadlines now t)))) \<and>
    (\<forall>now drive request deadlines. \<exists>er. Supervisor_Dispatch now drive request deadlines t = (Inl er, t))"
proof -
  have run: "\<exists>b. SvActive t = Some b \<and> AcRequest b = AcRequest a \<and> AcHardDeadlineAt b = AcHardDeadlineAt a \<and>
      ids_of EffectDispatchRequest fs = []"
    using assms
  proof (induction es arbitrary: s a fs)
    case Nil
    then show ?case by simp
  next
    case (Cons e es)
    obtain gs s1 hs where step: "supervisor_step e s = (gs, s1)" "supervisor_run es s1 = (hs, t)" "fs = gs @ hs"
      using Cons.prems(3) by (auto split: prod.splits)
    have "e \<noteq> ResultObserved (RqID (AcRequest a))" using Cons.prems(2) by auto
    from active_step [OF Cons.prems(1) this step(1)] obtain b where
      b: "SvActive s1 = Some b" "AcRequest b = AcRequest a" "AcHardDeadlineAt b = AcHardDeadlineAt a"
        "ids_of EffectDispatchRequest gs = []" by blast
    from Cons.IH [OF b(1) _ step(2)] show ?case using Cons.prems(2) b step(3) by auto
  qed
  then obtain b where b: "SvActive t = Some b" "AcRequest b = AcRequest a" "AcHardDeadlineAt b = AcHardDeadlineAt a"
      "ids_of EffectDispatchRequest fs = []" by blast
  have "RqID (AcRequest a) \<in> set (ids_of EffectHardDeadline (fst (CheckDeadlines now t)))"
    if "AcHardDeadlineAt a \<le> now" for now
    using that b by (simp add: CheckDeadlines_def Let_def)
  then show ?thesis using b by (simp add: CanDispatch_def Supervisor_Dispatch_def)
qed

text \<open>A command that is not in the allowlist is dispatched, and observing a result releases a drive
  that was acquired before the command.\<close>

lemma unlisted_command_dispatched:
  assumes "SvActive s = None" "SvOwnedDrive s = []" "Deadlines_Validate d = None" "RqCommand r \<noteq> CommandEmpty"
  shows "\<exists>fs t. Supervisor_Dispatch now drive r d s = (Inr fs, t)"
  using assms by (simp add: Supervisor_Dispatch_def CanDispatch_def CanOwnDrive_def Let_def)

lemma result_releases_acquired_drive:
  assumes "AcquireDrive drive s = (s1, True)" "Supervisor_Dispatch now drive r d s1 = (Inr fs, s2)"
  shows "SvOwnedDrive (snd (ObserveResult (SvNextRequestID s2) s2)) = []"
  using assms
  by (auto simp: Supervisor_Dispatch_def ObserveResult_def ReleaseDrive_def Let_def split: if_splits option.splits)

section \<open>Ownership\<close>

text \<open>Whatever the sequence of acquisitions and releases: a drive that is recovered is given to no
  command, and no eject is allowed on it.\<close>

lemma recovery_excludes_eject:
  assumes "Owner o' = DriveRecoveryOwned"
  shows "ValidateEject r o' \<noteq> None" "\<exists>e. Ownership_Acquire w o' = (Some e, o')"
    "w \<noteq> DriveRecoveryOwned \<Longrightarrow> Ownership_Release w o' = o'"
  using assms
  by (auto simp: ValidateEject_def EjectRequest_Validate_def Ownership_Acquire_def Ownership_Release_def Owner_def
      split: option.splits if_splits)

section \<open>Witnesses\<close>

definition sample_frame :: Frame where
  "sample_frame = \<lparr>FrType = 5, FrRequestID = 7, FrPayload = [1, 2, 3]\<rparr>"

theorem frame_roundtrip_or_refused_witness:
  "\<exists>a ys e. MarshalFrame sample_frame = Inr ([] @ a # ys) \<and> UnmarshalFrame ([] @ (a + 1) # ys) = Inl e"
proof -
  have m: "MarshalFrame sample_frame = Inr (frame_body sample_frame @ le_put 4 (crc32c (frame_body sample_frame)))"
    by (simp add: MarshalFrame_def ValidateFrame_def sample_frame_def)
  obtain a ys where "frame_body sample_frame @ le_put 4 (crc32c (frame_body sample_frame)) = [] @ a # ys"
    by (simp add: frame_body_def FrameMagic_def)
  with m have "MarshalFrame sample_frame = Inr ([] @ a # ys)" by simp
  moreover have "a \<noteq> a + 1" by simp
  ultimately show ?thesis using frame_roundtrip_or_refused [of sample_frame "[]" a ys "a + 1"] by blast
qed

definition idle_supervisor :: Supervisor where
  "idle_supervisor = \<lparr>SvOwnedDrive = [], SvNextRequestID = 0, SvLastCompletedRequest = 0, SvActive = None,
     SvRestartPolicy = RestartAlways\<rparr>"

definition sample_command :: CommandRequest where
  "sample_command = \<lparr>RqID = 0, RqCommand = CommandReadBlocks, RqStartLBA = 16, RqSectors = 4, RqSpeedKbps = 0\<rparr>"

definition sample_deadlines :: Deadlines where
  "sample_deadlines = \<lparr>DlSoft = 15, DlHard = 45, DlRetryBudget = 3\<rparr>"

definition sample_events :: "SupervisorEvent list" where
  "sample_events = [DispatchCommand 0 ''sr0'' sample_command sample_deadlines, ClockChecked 20, ClockChecked 50,
     ResultObserved 1, DispatchCommand 60 ''sr0'' sample_command sample_deadlines]"

theorem supervisor_reports_in_order_witness:
  "map (\<lambda>e. (DeKind e, DeRequestID e)) (fst (supervisor_run sample_events idle_supervisor)) =
     [(EffectDispatchRequest, 1), (EffectSoftDeadline, 1), (EffectHardDeadline, 1), (EffectDispatchRequest, 2)] \<and>
   distinct (ids_of EffectSoftDeadline (fst (supervisor_run sample_events idle_supervisor)))"
proof -
  obtain fs t where run: "supervisor_run sample_events idle_supervisor = (fs, t)" by fastforce
  have "map (\<lambda>e. (DeKind e, DeRequestID e)) (fst (supervisor_run sample_events idle_supervisor)) =
     [(EffectDispatchRequest, 1), (EffectSoftDeadline, 1), (EffectHardDeadline, 1), (EffectDispatchRequest, 2)]"
    by code_simp
  moreover have "SvActive idle_supervisor = None" "unat (SvNextRequestID idle_supervisor) + length sample_events < 2 ^ 64"
    by (simp_all add: idle_supervisor_def sample_events_def)
  ultimately show ?thesis using supervisor_reports_in_order [OF run] run by simp
qed

theorem lost_result_blocks_supervisor_witness:
  "\<not> CanDispatch (snd (supervisor_run [ClockChecked 100, DriveReleased ''sr0'', ClockChecked 200]
     (snd (Supervisor_Dispatch 0 ''sr0'' sample_command sample_deadlines idle_supervisor))))"
proof -
  let ?s = "snd (Supervisor_Dispatch 0 ''sr0'' sample_command sample_deadlines idle_supervisor)"
  have "SvActive ?s \<noteq> None" by code_simp
  then obtain a where a: "SvActive ?s = Some a" by blast
  obtain fs t where "supervisor_run [ClockChecked 100, DriveReleased ''sr0'', ClockChecked 200] ?s = (fs, t)" by fastforce
  from lost_result_blocks_supervisor [OF a _ this] this show ?thesis by simp
qed

end
