(* ===== verification/AppProgram.thy ===== *)
theory AppProgram
  imports AppRuntime
begin

text \<open>
  The running program (\<^verbatim>\<open>internal/app/runtime.go\<close>, \<^verbatim>\<open>recovery_program.go\<close>): its model, the state its
  commands share, the commands that run and the messages that have not arrived. Commands run in any
  order, each in one piece, and their messages arrive in any order; keys come at any time.
\<close>

record ('l, 'i, 'v, 's) System =
  SyModel :: "('l, 'i, 'v, 's) Model"
  SyState :: programState
  SyTasks :: "(Task \<times> ('l, 'i, 'v, 's) Model) list"
  SyInbox :: "Msg list"
  SyIssued :: "EffectRequestedMsg list"
  SyCalls :: "JobCall list"
  SyQuit :: bool

definition no_job :: programState where
  "no_job = \<lparr>PgActiveRecovery = None, PgActiveJobID = [], PgPendingPause = False\<rparr>"

definition effects_of :: "(Task \<times> 'm) list \<Rightarrow> EffectRequestedMsg list" where
  "effects_of ts = concat (map (\<lambda>(t, m). case t of TaskEffect r \<Rightarrow> [r] | _ \<Rightarrow> []) ts)"

text \<open>A program begins with the discovery of drives and the spinner.\<close>

definition start_tasks :: "('l, 'i, 'v, 's) Bubbles \<Rightarrow> (Task \<times> ('l, 'i, 'v, 's) Model) list" where
  "start_tasks B = (let m = NewModel B in
     map (\<lambda>t. (t, m)) (tasks_of (discoverDevicesEffect (MdActiveDiscoveryRequest m)) @ [TaskSpinner]))"

definition start_system :: "('l, 'i, 'v, 's) Bubbles \<Rightarrow> ('l, 'i, 'v, 's) System" where
  "start_system B = \<lparr>SyModel = NewModel B, SyState = no_job, SyTasks = start_tasks B, SyInbox = [],
     SyIssued = effects_of (start_tasks B), SyCalls = [], SyQuit = False\<rparr>"

text \<open>A message of the terminal, a message that arrives, or a command that runs; a snapshot is what an
  active job reports at that time.\<close>

datatype Move = Input Msg RecoverySnapshot | Arrive nat RecoverySnapshot | Perform nat Answers

definition is_input :: "Msg \<Rightarrow> bool" where
  "is_input msg \<longleftrightarrow> (case msg of KeyPressMsg _ \<Rightarrow> True | WindowSizeMsg _ _ \<Rightarrow> True | OtherMsg \<Rightarrow> True | _ \<Rightarrow> False)"

definition remove_nth :: "nat \<Rightarrow> 'a list \<Rightarrow> 'a list" where
  "remove_nth i xs = take i xs @ drop (Suc i) xs"

definition receive ::
  "('l, 'i, 'v, 's) Bubbles \<Rightarrow> RecoverySnapshot \<Rightarrow> Msg \<Rightarrow> ('l, 'i, 'v, 's) System \<Rightarrow> ('l, 'i, 'v, 's) System option" where
  "receive B sn msg s =
     (case RecoveryProgram_Update B sn msg (SyModel s) (SyState s) of
        None \<Rightarrow> None
      | Some (m, ts) \<Rightarrow> Some (s\<lparr>SyModel := m, SyTasks := SyTasks s @ ts, SyIssued := SyIssued s @ effects_of ts\<rparr>))"

definition perform ::
  "Answers \<Rightarrow> Task \<Rightarrow> ('l, 'i, 'v, 's) Model \<Rightarrow> ('l, 'i, 'v, 's) System \<Rightarrow> ('l, 'i, 'v, 's) System" where
  "perform w t m s =
     (case t of
        TaskEffect r \<Rightarrow>
          (case runEffect w m r (SyState s) of (msg, st, calls) \<Rightarrow>
            s\<lparr>SyState := st, SyInbox := SyInbox s @ [msg], SyCalls := SyCalls s @ calls\<rparr>)
      | TaskPoll \<Rightarrow>
          (case poll (AwSnapshot w) m (SyState s) of (msg, st) \<Rightarrow>
            s\<lparr>SyState := st, SyInbox := SyInbox s @ (case msg of None \<Rightarrow> [] | Some x \<Rightarrow> [x])\<rparr>)
      | TaskQuit \<Rightarrow> s\<lparr>SyQuit := True\<rparr>
      | TaskWidget \<Rightarrow> s\<lparr>SyInbox := SyInbox s @ [OtherMsg]\<rparr>
      | TaskSpinner \<Rightarrow> s\<lparr>SyInbox := SyInbox s @ [SpinnerTickMsg]\<rparr>)"

text \<open>\<open>None\<close> where a move is not possible, and where the program panics.\<close>

definition system_move ::
  "('l, 'i, 'v, 's) Bubbles \<Rightarrow> Move \<Rightarrow> ('l, 'i, 'v, 's) System \<Rightarrow> ('l, 'i, 'v, 's) System option" where
  "system_move B mv s =
     (if SyQuit s then None
      else (case mv of
          Input msg sn \<Rightarrow> if is_input msg then receive B sn msg s else None
        | Arrive i sn \<Rightarrow>
            if i < length (SyInbox s)
            then receive B sn (SyInbox s ! i) (s\<lparr>SyInbox := remove_nth i (SyInbox s)\<rparr>) else None
        | Perform i w \<Rightarrow>
            if i < length (SyTasks s)
            then (case SyTasks s ! i of (t, m) \<Rightarrow> Some (perform w t m (s\<lparr>SyTasks := remove_nth i (SyTasks s)\<rparr>)))
            else None))"

fun system_run ::
  "('l, 'i, 'v, 's) Bubbles \<Rightarrow> Move list \<Rightarrow> ('l, 'i, 'v, 's) System \<Rightarrow> ('l, 'i, 'v, 's) System option" where
  "system_run B [] s = Some s"
| "system_run B (mv # mvs) s = (case system_move B mv s of None \<Rightarrow> None | Some t \<Rightarrow> system_run B mvs t)"

inductive app_reachable :: "('l, 'i, 'v, 's) Bubbles \<Rightarrow> ('l, 'i, 'v, 's) System \<Rightarrow> bool" for B where
  app_start: "app_reachable B (start_system B)"
| app_move: "app_reachable B s \<Longrightarrow> system_move B mv s = Some t \<Longrightarrow> app_reachable B t"

lemma system_run_reachable: "app_reachable B s \<Longrightarrow> system_run B mvs s = Some t \<Longrightarrow> app_reachable B t"
  by (induction mvs arbitrary: s) (auto split: option.splits intro: app_move)

section \<open>Numbered requests\<close>

definition numbered_kinds :: "AppEffectKind list" where
  "numbered_kinds = [EffectDiscoverDevices, EffectIdentifyMedia, EffectLookupHistory, EffectInspectTarget,
     EffectFindResumeJobs, EffectBrowseHistory]"

definition numbered :: "AppEffectKind \<Rightarrow> bool" where
  "numbered k \<longleftrightarrow> k \<in> set numbered_kinds"

text \<open>The number of the reply that is waited for; 0 is none.\<close>

definition active_request :: "AppEffectKind \<Rightarrow> ('l, 'i, 'v, 's) Model \<Rightarrow> int" where
  "active_request k m =
     (case k of
        EffectDiscoverDevices \<Rightarrow> MdActiveDiscoveryRequest m
      | EffectIdentifyMedia \<Rightarrow> MdActiveMediaRequest m
      | EffectLookupHistory \<Rightarrow> MdActiveLookupRequest m
      | EffectInspectTarget \<Rightarrow> MdActiveTargetRequest m
      | EffectFindResumeJobs \<Rightarrow> MdActiveResumeRequest m
      | EffectBrowseHistory \<Rightarrow> MdActiveHistoryRequest m
      | _ \<Rightarrow> 0)"

definition reply_to :: "Msg \<Rightarrow> (AppEffectKind \<times> int) option" where
  "reply_to msg =
     (case msg of
        DevicesDiscoveredMsg i _ _ \<Rightarrow> Some (EffectDiscoverDevices, i)
      | MediaIdentifiedMsg x \<Rightarrow> Some (EffectIdentifyMedia, MiRequestID x)
      | PriorProcessingLookupMsg i _ _ _ _ \<Rightarrow> Some (EffectLookupHistory, i)
      | RecoveryTargetInspectedMsg i _ _ \<Rightarrow> Some (EffectInspectTarget, i)
      | ResumableJobsDiscoveredMsg i _ _ \<Rightarrow> Some (EffectFindResumeJobs, i)
      | ProcessedMediaDiscoveredMsg i _ _ \<Rightarrow> Some (EffectBrowseHistory, i)
      | _ \<Rightarrow> None)"

definition requests_of :: "AppEffectKind \<Rightarrow> EffectRequestedMsg list \<Rightarrow> EffectRequestedMsg list" where
  "requests_of k rs = filter (\<lambda>r. ErKind r = k) rs"

end
