(* ===== verification/AppFacts.thy ===== *)
theory AppFacts
  imports AppProgram
begin

text \<open>
  What every message keeps of the numbers of requests: \<open>request_step\<close> says that a message issues at most
  one numbered request, with the next number, and waits for its reply; all replies it does not
  wait for any longer are those it gave up.
\<close>

named_theorems req_frames \<open>the numbers of requests under updates of other parts of the model\<close>

definition req_core :: "('l, 'i, 'v, 's) Model \<Rightarrow> int \<times> int \<times> int \<times> int \<times> int \<times> int \<times> int" where
  "req_core m = (MdNextRequestID m, MdActiveDiscoveryRequest m, MdActiveMediaRequest m, MdActiveLookupRequest m,
     MdActiveTargetRequest m, MdActiveResumeRequest m, MdActiveHistoryRequest m)"

definition quiet_cmd :: "Cmd \<Rightarrow> bool" where
  "quiet_cmd c \<longleftrightarrow> (\<forall>r. c = Request r \<longrightarrow> \<not> numbered (ErKind r))"

definition keeps_active :: "AppEffectKind set \<Rightarrow> ('l, 'i, 'v, 's) Model \<Rightarrow> ('l, 'i, 'v, 's) Model \<Rightarrow> bool" where
  "keeps_active ks m m' \<longleftrightarrow> (\<forall>k. k \<notin> ks \<longrightarrow> active_request k m' = active_request k m \<or> active_request k m' = 0)"

definition request_step :: "('l, 'i, 'v, 's) Model \<Rightarrow> ('l, 'i, 'v, 's) Model \<Rightarrow> Cmd \<Rightarrow> bool" where
  "request_step m m' c \<longleftrightarrow>
     quiet_cmd c \<and> MdNextRequestID m' = MdNextRequestID m \<and> keeps_active {} m m' \<or>
     (\<exists>r. c = Request r \<and> numbered (ErKind r) \<and> ErRequestID r = next_request m \<and>
        MdNextRequestID m' = next_request m + 1 \<and> active_request (ErKind r) m' = next_request m \<and>
        keeps_active {ErKind r} m m')"

lemma quiet_simps [simp]:
  "quiet_cmd NoCmd" "quiet_cmd QuitCmd" "quiet_cmd WidgetCmd" "quiet_cmd startJobEffect" "quiet_cmd pauseJobEffect"
  "quiet_cmd resumeJobEffect" "quiet_cmd stopAfterCheckpointEffect" "quiet_cmd stopImmediatelyEffect"
  "quiet_cmd (ejectEffect path r)"
  by (simp_all add: quiet_cmd_def numbered_def numbered_kinds_def startJobEffect_def pauseJobEffect_def effect_def
      resumeJobEffect_def stopAfterCheckpointEffect_def stopImmediatelyEffect_def ejectEffect_def)

lemma active_core: "active_request k m = (case req_core m of (n, d, i, l, t, r, h) \<Rightarrow>
    (case k of EffectDiscoverDevices \<Rightarrow> d | EffectIdentifyMedia \<Rightarrow> i | EffectLookupHistory \<Rightarrow> l
     | EffectInspectTarget \<Rightarrow> t | EffectFindResumeJobs \<Rightarrow> r | EffectBrowseHistory \<Rightarrow> h | _ \<Rightarrow> 0))"
  by (simp add: active_request_def req_core_def split: AppEffectKind.split)

lemma quiet_step:
  assumes "req_core m' = req_core m" "quiet_cmd c"
  shows "request_step m m' c"
proof -
  have "active_request k m' = active_request k m" for k using assms(1) by (simp add: active_core)
  moreover have "MdNextRequestID m' = MdNextRequestID m" using assms(1) by (simp add: req_core_def)
  ultimately show ?thesis using assms(2) by (simp add: request_step_def keeps_active_def)
qed

lemma quiet_steps:
  assumes "req_core m' = req_core m"
  shows "request_step m m' NoCmd" "request_step m m' QuitCmd" "request_step m m' WidgetCmd"
    "request_step m m' startJobEffect" "request_step m m' pauseJobEffect" "request_step m m' resumeJobEffect"
    "request_step m m' stopAfterCheckpointEffect" "request_step m m' stopImmediatelyEffect"
    "request_step m m' (ejectEffect path r)"
  using assms by (simp_all add: quiet_step)

lemma next_request_core: "req_core m' = req_core m \<Longrightarrow> next_request m' = next_request m"
  by (simp add: next_request_def req_core_def)

lemma core_setup_with [req_frames]: "req_core (setup_with f m) = req_core m"
  by (simp add: req_core_def setup_with_def)

lemma core_recovery_with [req_frames]: "req_core (recovery_with f m) = req_core m"
  by (simp add: req_core_def recovery_with_def)

lemma core_with_notice [req_frames]: "req_core (with_notice t sev m) = req_core m"
  by (simp add: req_core_def with_notice_def)

lemma core_go_to [req_frames]: "req_core (go_to p c m) = req_core m"
  by (simp add: req_core_def go_to_def)

lemma core_setErrorNotice [req_frames]: "req_core (setErrorNotice c e m) = req_core m"
  by (simp add: req_core_def setErrorNotice_def Let_def)

lemma core_fields [req_frames]:
  "req_core (m\<lparr>MdPage := p\<rparr>) = req_core m" "req_core (m\<lparr>MdPreviousPage := p\<rparr>) = req_core m"
  "req_core (m\<lparr>MdCursor := cu\<rparr>) = req_core m" "req_core (m\<lparr>MdDevices := ds\<rparr>) = req_core m"
  "req_core (m\<lparr>MdSelectedDrive := d\<rparr>) = req_core m" "req_core (m\<lparr>MdIdentity := ci\<rparr>) = req_core m"
  "req_core (m\<lparr>MdWidth := w\<rparr>) = req_core m" "req_core (m\<lparr>MdHeight := w\<rparr>) = req_core m"
  "req_core (m\<lparr>MdMediaFileSystem := tx\<rparr>) = req_core m" "req_core (m\<lparr>MdMediaVolumeLabel := tx\<rparr>) = req_core m"
  "req_core (m\<lparr>MdMediaLogicalSectorSize := u32\<rparr>) = req_core m" "req_core (m\<lparr>MdMediaCapacitySectors := u64\<rparr>) = req_core m"
  "req_core (m\<lparr>MdMediaRecoverable := bo\<rparr>) = req_core m" "req_core (m\<lparr>MdMediaRecoverabilityNote := tx\<rparr>) = req_core m"
  "req_core (m\<lparr>MdPriorView := pv\<rparr>) = req_core m" "req_core (m\<lparr>MdPriorRecords := pr\<rparr>) = req_core m"
  "req_core (m\<lparr>MdHistoryItems := hi\<rparr>) = req_core m" "req_core (m\<lparr>MdResumeJobs := rj\<rparr>) = req_core m"
  "req_core (m\<lparr>MdSummary := su\<rparr>) = req_core m" "req_core (m\<lparr>MdDetailsLines := li\<rparr>) = req_core m"
  "req_core (m\<lparr>MdPendingEject := ej\<rparr>) = req_core m" "req_core (m\<lparr>MdNotice := no\<rparr>) = req_core m"
  "req_core (m\<lparr>MdLastError := le\<rparr>) = req_core m" "req_core (m\<lparr>MdQuitting := bo\<rparr>) = req_core m"
  "req_core (m\<lparr>MdPreserveEjectedDrive := bo\<rparr>) = req_core m" "req_core (m\<lparr>MdEjectedDrive := d\<rparr>) = req_core m"
  "req_core (m\<lparr>MdDirectoryInput := inp\<rparr>) = req_core m" "req_core (m\<lparr>MdFileNameInput := inp\<rparr>) = req_core m"
  "req_core (m\<lparr>MdDetailsViewport := vp\<rparr>) = req_core m" "req_core (m\<lparr>MdDriveList := lst\<rparr>) = req_core m"
  "req_core (m\<lparr>MdActionList := lst\<rparr>) = req_core m" "req_core (m\<lparr>MdResumeList := lst\<rparr>) = req_core m"
  "req_core (m\<lparr>MdHistoryList := lst\<rparr>) = req_core m" "req_core (m\<lparr>MdLoadingSpinner := sp\<rparr>) = req_core m"
  "req_core (m\<lparr>MdRestartLoadingSpinner := bo\<rparr>) = req_core m"
  by (simp_all add: req_core_def)

lemma core_helpers [req_frames]:
  "req_core (moveCursor d m) = req_core m" "req_core (leave_stop_confirm m) = req_core m"
  "req_core (confirm_stop m) = req_core m" "req_core (syncDetailsViewport B m) = req_core m"
  "req_core (open_details B m) = req_core m" "req_core (syncOutputInputs B m) = req_core m"
  "req_core (syncOutputValues B m) = req_core m" "req_core (blurOutputInputs B m) = req_core m"
  "req_core (resume_selected j m) = req_core m" "req_core (unrecoverable_notice m) = req_core m"
  "req_core (sync_editing B m) = req_core m" "req_core (switch_field B m) = req_core m"
  "req_core (finish_editing B m) = req_core m" "req_core (type_text B k m) = req_core m"
  by (simp_all add: req_frames moveCursor_def leave_stop_confirm_def confirm_stop_def syncDetailsViewport_def
      open_details_def syncOutputInputs_def syncOutputValues_def blurOutputInputs_def resume_selected_def
      unrecoverable_notice_def sync_editing_def switch_field_def finish_editing_def type_text_def Let_def)

text \<open>A step that gives up waiting for the media, and one that issues a request.\<close>

lemma give_up_step:
  assumes "req_core m' = req_core (m\<lparr>MdActiveMediaRequest := 0\<rparr>)" "quiet_cmd c"
  shows "request_step m m' c"
proof -
  have "active_request k m' = active_request k (m\<lparr>MdActiveMediaRequest := 0\<rparr>)" for k
    using assms(1) by (simp add: active_core)
  then have "keeps_active {} m m'" by (simp add: keeps_active_def active_request_def split: AppEffectKind.split)
  moreover have "MdNextRequestID m' = MdNextRequestID m" using assms(1) by (simp add: req_core_def)
  ultimately show ?thesis using assms(2) by (simp add: request_step_def)
qed

definition set_active :: "AppEffectKind \<Rightarrow> int \<Rightarrow> ('l, 'i, 'v, 's) Model \<Rightarrow> ('l, 'i, 'v, 's) Model" where
  "set_active k i m =
     (case k of
        EffectDiscoverDevices \<Rightarrow> m\<lparr>MdActiveDiscoveryRequest := i, MdActiveMediaRequest := 0\<rparr>
      | EffectIdentifyMedia \<Rightarrow> m\<lparr>MdActiveMediaRequest := i\<rparr>
      | EffectLookupHistory \<Rightarrow> m\<lparr>MdActiveLookupRequest := i\<rparr>
      | EffectInspectTarget \<Rightarrow> m\<lparr>MdActiveTargetRequest := i\<rparr>
      | EffectFindResumeJobs \<Rightarrow> m\<lparr>MdActiveResumeRequest := i\<rparr>
      | EffectBrowseHistory \<Rightarrow> m\<lparr>MdActiveHistoryRequest := i\<rparr>
      | _ \<Rightarrow> m)"

lemma issue_step:
  assumes "req_core m' = req_core (set_active (ErKind r) (next_request m) (take_request m))"
    and "numbered (ErKind r)" "ErRequestID r = next_request m"
  shows "request_step m m' (Request r)"
proof -
  let ?m = "set_active (ErKind r) (next_request m) (take_request m)"
  have a: "active_request k m' = active_request k ?m" for k using assms(1) by (simp add: active_core)
  have "MdNextRequestID m' = MdNextRequestID ?m" using assms(1) by (simp add: req_core_def)
  then have "MdNextRequestID m' = next_request m + 1"
    by (simp add: set_active_def take_request_def split: AppEffectKind.split)
  moreover have "active_request (ErKind r) m' = next_request m"
    using assms(2) unfolding a by (auto simp: set_active_def active_request_def numbered_def numbered_kinds_def)
  moreover have "keeps_active {ErKind r} m m'"
    unfolding keeps_active_def a by (simp add: set_active_def active_request_def take_request_def split: AppEffectKind.split)
  ultimately show ?thesis using assms(2,3) by (simp add: request_step_def)
qed

lemma given_up_step:
  assumes "req_core m' = req_core m \<or> req_core m' = req_core (m\<lparr>MdActiveMediaRequest := 0\<rparr>)"
  shows "request_step m m' NoCmd"
  using assms by (auto intro: quiet_steps give_up_step)

lemma request_step_core:
  assumes "request_step m0 m' c" "req_core m0 = req_core m"
  shows "request_step m m' c"
proof -
  have a: "active_request k m0 = active_request k m" for k using assms(2) by (simp add: active_core)
  have n: "MdNextRequestID m0 = MdNextRequestID m" using assms(2) by (simp add: req_core_def)
  show ?thesis
    using assms(1) unfolding request_step_def keeps_active_def a n next_request_core [OF assms(2)] .
qed

lemmas issue_defs = req_core_def set_active_def take_request_def next_request_def setup_with_def go_to_def with_notice_def
  effect_def numbered_def numbered_kinds_def

section \<open>Keys\<close>

lemma beginDiscovery_step: "beginDiscovery m = (m', c) \<Longrightarrow> request_step m m' c"
  by (auto simp: beginDiscovery_def Let_def discoverDevicesEffect_def issue_defs intro!: issue_step)

lemma handleBack_step: "handleBack m = (m', c) \<Longrightarrow> request_step m m' c"
proof (cases "MdPage m = PageInspectingMedia")
  case True
  assume "handleBack m = (m', c)"
  with True show ?thesis by (intro give_up_step) (auto simp: handleBack_def req_frames)
next
  case False
  assume "handleBack m = (m', c)"
  with False show ?thesis by (intro quiet_step; cases "MdPage m") (auto simp: handleBack_def req_frames)
qed

lemma select_drive_step: "select_drive m = Some (m', c) \<Longrightarrow> request_step m m' c"
  by (auto simp: select_drive_def Let_def identifyMediaEffect_def issue_defs split: if_splits option.splits
      intro!: quiet_steps issue_step)

lemma select_inspecting_step: "select_inspecting m = Some (m', c) \<Longrightarrow> request_step m m' c"
  by (auto simp: select_inspecting_def Let_def identifyMediaEffect_def issue_defs split: if_splits
      intro!: quiet_steps issue_step)

lemma select_prior_step: "select_prior m = Some (m', c) \<Longrightarrow> request_step m m' c"
  by (auto simp: select_prior_def req_frames split: if_splits intro!: quiet_steps)

lemma select_action_step: "select_action m = Some (m', c) \<Longrightarrow> request_step m m' c"
  by (auto simp: select_action_def Let_def inspectTargetEffect_def findResumeJobsEffect_def browseHistoryEffect_def
      issue_defs unrecoverable_notice_def split: if_splits intro!: quiet_steps issue_step)

lemma select_output_step: "select_output B m = Some (m', c) \<Longrightarrow> request_step m m' c"
  by (auto simp: select_output_def Let_def inspectTargetEffect_def issue_defs syncOutputInputs_def split: if_splits
      intro!: quiet_steps issue_step)

lemma select_review_step: "select_review m = Some (m', c) \<Longrightarrow> request_step m m' c"
  by (auto simp: select_review_def req_frames split: if_splits prod.splits intro!: quiet_steps)

lemma select_resume_step: "select_resume m = Some (m', c) \<Longrightarrow> request_step m m' c"
  by (auto simp: select_resume_def req_frames split: if_splits option.splits intro!: quiet_steps)

lemma select_history_step: "select_history B m = Some (m', c) \<Longrightarrow> request_step m m' c"
  by (auto simp: select_history_def req_frames split: if_splits option.splits intro!: quiet_steps)

lemma select_paused_step: "select_paused m = Some (m', c) \<Longrightarrow> request_step m m' c"
  by (auto simp: select_paused_def req_frames split: if_splits intro!: quiet_steps)

lemma select_stop_step: "select_stop m = Some (m', c) \<Longrightarrow> request_step m m' c"
  by (auto simp: select_stop_def req_frames split: if_splits intro!: quiet_steps)

lemma select_eject_step: "select_eject m = Some (m', c) \<Longrightarrow> request_step m m' c"
  by (auto simp: select_eject_def req_frames split: if_splits intro!: quiet_steps)

lemma select_summary_step: "select_summary B m = Some (m', c) \<Longrightarrow> request_step m m' c"
  by (auto simp: select_summary_def retry_unresolved_def Let_def req_frames split: if_splits option.splits
      intro!: quiet_steps)

lemmas select_steps = select_drive_step select_inspecting_step select_prior_step select_action_step select_output_step
  select_review_step select_resume_step select_history_step select_paused_step select_stop_step select_eject_step
  select_summary_step

lemma handleSelect_step: "handleSelect B m = Some (m', c) \<Longrightarrow> request_step m m' c"
  by (auto simp: handleSelect_def split: Page.splits dest: select_steps beginDiscovery_step intro!: quiet_steps)

lemma handleOutputPathInput_step:
  assumes "handleOutputPathInput B msg key m = Some (m', c)"
  shows "request_step m m' c"
proof -
  have core: "req_core (sync_editing B m) = req_core m" by (simp add: req_frames)
  have "request_step (sync_editing B m) m' c"
    using assms unfolding handleOutputPathInput_def Let_def
    by (auto simp: req_frames split: if_splits intro!: quiet_steps dest: handleSelect_step handleBack_step)
  from request_step_core [OF this core] show ?thesis .
qed

lemma press_steps:
  "press_force m = (m', c) \<Longrightarrow> request_step m m' c" "press_quit m = (m', c) \<Longrightarrow> request_step m m' c"
  "press_pause m = (m', c) \<Longrightarrow> request_step m m' c"
  by (auto simp: press_force_def press_quit_def press_pause_def req_frames split: Page.splits if_splits intro!: quiet_steps)

lemma handleKeyPress_step: "handleKeyPress B msg m = Some (m', c) \<Longrightarrow> request_step m m' c"
  unfolding handleKeyPress_def Let_def
  by (auto simp: req_frames split: if_splits intro!: quiet_steps
      dest: handleOutputPathInput_step press_steps handleBack_step beginDiscovery_step handleSelect_step)

lemma updateKeyMessage_step: "updateKeyMessage B msg m = Some (m', c) \<Longrightarrow> request_step m m' c"
  unfolding updateKeyMessage_def Let_def updateDetailsKey_def
  by (auto simp: req_frames split: if_splits intro!: quiet_steps dest: handleKeyPress_step)

section \<open>Messages\<close>

lemma updateDevicesDiscovered_step: "updateDevicesDiscovered B i ds err m = (m', c) \<Longrightarrow> request_step m m' c"
  by (auto simp: updateDevicesDiscovered_def Let_def req_core_def forget_media_def with_notice_def setErrorNotice_def
      split: if_splits option.splits prod.splits intro!: given_up_step)

lemma updateEjectCompleted_step: "updateEjectCompleted r d err m = (m', c) \<Longrightarrow> request_step m m' c"
  by (auto simp: updateEjectCompleted_def req_frames split: if_splits option.splits intro!: quiet_steps
      dest!: beginDiscovery_step intro: request_step_core)

lemma updateMediaIdentified_step: "updateMediaIdentified B x m = (m', c) \<Longrightarrow> request_step m m' c"
  by (auto simp: updateMediaIdentified_def Let_def lookupHistoryEffect_def issue_defs syncOutputInputs_def setErrorNotice_def
      split: if_splits option.splits intro!: quiet_steps issue_step)

lemma reply_steps:
  "updateRecoveryTargetInspected i ts err m = (m', c) \<Longrightarrow> request_step m m' c"
  "updatePriorProcessingLookup B i view records jobs err m = (m', c) \<Longrightarrow> request_step m m' c"
  "updateProcessedMediaDiscovered B i items err m = (m', c) \<Longrightarrow> request_step m m' c"
  "updateResumableJobsDiscovered i jobs err m = (m', c) \<Longrightarrow> request_step m m' c"
  by (auto simp: updateRecoveryTargetInspected_def updatePriorProcessingLookup_def updateProcessedMediaDiscovered_def
      updateResumableJobsDiscovered_def Let_def req_frames split: if_splits option.splits intro!: quiet_steps)

lemma recovery_steps:
  "updateJobStarted st m = (m', c) \<Longrightarrow> request_step m m' c"
  "updateJobPaused pz m = (m', c) \<Longrightarrow> request_step m m' c"
  "updateJobStartFailed err m = (m', c) \<Longrightarrow> request_step m m' c"
  "updateProgress p m = (m', c) \<Longrightarrow> request_step m m' c"
  "updateStatus t sev err ct m = (m', c) \<Longrightarrow> request_step m m' c"
  "updateJobCheckpointed t m = (m', c) \<Longrightarrow> request_step m m' c"
  "updateJobStopped su err m = (m', c) \<Longrightarrow> request_step m m' c"
  "updateWorkerUnresponsive t m = (m', c) \<Longrightarrow> request_step m m' c"
  "updateFatal err m = (m', c) \<Longrightarrow> request_step m m' c"
  by (auto simp: updateJobStarted_def updateJobPaused_def updateJobStartFailed_def updateProgress_def updateStatus_def
      updateJobCheckpointed_def updateJobStopped_def updateWorkerUnresponsive_def updateFatal_def Let_def req_frames
      split: if_splits option.splits intro!: quiet_steps)

lemma window_steps:
  "updateWindowMessage B w h m = (m', c) \<Longrightarrow> request_step m m' c"
  "updateSpinnerMessage B m = (m', c) \<Longrightarrow> request_step m m' c"
  by (auto simp: updateWindowMessage_def updateSpinnerMessage_def Let_def req_frames split: if_splits intro!: quiet_steps)

lemma updateMessage_step: "updateMessage B msg m = Some (m', c) \<Longrightarrow> request_step m m' c"
  unfolding updateMessage_def
  by (cases msg)
    (auto dest: updateKeyMessage_step updateDevicesDiscovered_step updateEjectCompleted_step updateMediaIdentified_step
      reply_steps recovery_steps window_steps intro!: quiet_steps)

end
