(* ===== verification/AppSession.thy ===== *)
theory AppSession
  imports AppFacts
begin

text \<open>
  How the application behaves around a running recovery: where it panics and quits, and what pausing and
  starting twice do to the job.
\<close>

section \<open>Plain widgets\<close>

text \<open>The simplest widgets: a list is its items and its index, an input its text.\<close>

definition plain_bubbles :: "(ListItem list \<times> int, string, unit, unit) Bubbles" where
  "plain_bubbles = \<lparr>BlNew = (\<lambda>t items. (items, 0)), BlIndex = snd, BlItems = fst,
     BlSetItems = (\<lambda>items l. (items, 0)), BlSetSize = (\<lambda>w h l. l),
     BlUpdate = (\<lambda>k (items, i). if k = ''down'' \<and> i + 1 < int (length items) then (items, i + 1) else (items, i)),
     BiNew = (\<lambda>n. []), BiValue = id, BiSetValue = (\<lambda>s i. s), BiFocus = id, BiBlur = id, BiSetWidth = (\<lambda>w i. i),
     BiUpdate = (\<lambda>k i. i @ k), BvNew = (), BvSetContent = (\<lambda>s v. v), BvGotoTop = id, BvSetWidth = (\<lambda>w v. v),
     BvSetHeight = (\<lambda>h v. v), BvUpdate = (\<lambda>k v. v), BsNew = (), BsUpdate = id\<rparr>"

section \<open>Panics\<close>

lemma at_index_None: "at_index xs i = None \<longleftrightarrow> i < 0 \<or> int (length xs) \<le> i"
  by (auto simp: at_index_def)

text \<open>Whether a handler panics is read off its branches, without their values.\<close>

lemma branch_None:
  "(if b then x else y) = None \<longleftrightarrow> (b \<longrightarrow> x = None) \<and> (\<not> b \<longrightarrow> y = None)"
  "(case z of None \<Rightarrow> None | Some a \<Rightarrow> f a) = None \<longleftrightarrow> (\<forall>a. z = Some a \<longrightarrow> f a = None)"
  by (auto split: option.splits)

lemma select_never_None [simp]:
  "select_inspecting m = None \<longleftrightarrow> False" "select_prior m = None \<longleftrightarrow> False" "select_action m = None \<longleftrightarrow> False"
  "select_output B m = None \<longleftrightarrow> False" "select_review m = None \<longleftrightarrow> False" "select_paused m = None \<longleftrightarrow> False"
  "select_stop m = None \<longleftrightarrow> False" "select_eject m = None \<longleftrightarrow> False"
  by (auto simp: select_inspecting_def select_prior_def select_action_def select_output_def select_review_def
      select_paused_def select_stop_def select_eject_def Let_def branch_None split_def split del: if_split)

lemma select_None:
  assumes "0 \<le> MdCursor m"
  shows "select_drive m = None \<longleftrightarrow> MdDevices m \<noteq> [] \<and> int (length (MdDevices m)) \<le> MdCursor m"
    "select_resume m = None \<longleftrightarrow> False" "select_history B m = None \<longleftrightarrow> False" "select_summary B m = None \<longleftrightarrow> False"
proof -
  have at: "at_index xs (MdCursor m) = None \<longleftrightarrow> int (length xs) \<le> MdCursor m" for xs :: "'x list"
    using assms by (auto simp: at_index_def)
  show "select_drive m = None \<longleftrightarrow> MdDevices m \<noteq> [] \<and> int (length (MdDevices m)) \<le> MdCursor m"
    unfolding select_drive_def Let_def branch_None using at [of "MdDevices m"] by auto
  show "select_resume m = None \<longleftrightarrow> False" "select_history B m = None \<longleftrightarrow> False"
    unfolding select_resume_def select_history_def Let_def branch_None using at [of "MdResumeJobs m"] at [of "MdHistoryItems m"]
    by auto
  have "\<exists>x. at_index (summaryOptions m) (if int (length (summaryOptions m)) \<le> MdCursor m then 0 else MdCursor m) = Some x"
    using assms by (simp add: at_index_def summaryOptions_def)
  then show "select_summary B m = None \<longleftrightarrow> False"
    unfolding select_summary_def retry_unresolved_def Let_def branch_None
    by (auto split: if_splits)
qed

lemma handleSelect_None:
  assumes "0 \<le> MdCursor m"
  shows "handleSelect B m = None \<longleftrightarrow>
    MdPage m = PageChooseDrive \<and> MdDevices m \<noteq> [] \<and> int (length (MdDevices m)) \<le> MdCursor m"
  unfolding handleSelect_def by (cases "MdPage m") (simp_all add: select_None [OF assms])

lemma sync_editing_page: "MdPage (sync_editing B m) = MdPage m"
  by (simp add: sync_editing_def Let_def)

lemma updateKeyMessage_None:
  assumes "0 \<le> MdCursor m"
  shows "updateKeyMessage B k m = None \<longleftrightarrow> strings_ToLower k = ''enter'' \<and> handleSelect B m = None"
proof (cases "MdPage m = PageChooseOutput")
  case True
  have "MdPage (sync_editing B m) = PageChooseOutput" using True by (simp add: sync_editing_page)
  then have "handleSelect B (sync_editing B m) \<noteq> None" by (simp add: handleSelect_def select_output_def Let_def)
  moreover have "handleSelect B m \<noteq> None" using True by (simp add: handleSelect_def select_output_def Let_def)
  ultimately show ?thesis
    using True by (auto simp: updateKeyMessage_def handleKeyPress_def handleOutputPathInput_def Let_def)
next
  case False
  show ?thesis
    using handleSelect_None [OF assms, of B] False
    by (auto simp: updateKeyMessage_def handleKeyPress_def Let_def matchesKey_def DefaultKeys_def)
qed

text \<open>C21: With a cursor that is not negative the program panics in exactly one situation: enter is pressed on
  the list of drives while the cursor, kept from another page, is behind the last drive.\<close>

theorem update_panics_iff:
  assumes "0 \<le> MdCursor m"
  shows "updateMessage B msg m = None \<longleftrightarrow>
    (\<exists>k. msg = KeyPressMsg k \<and> strings_ToLower k = ''enter'' \<and> MdPage m = PageChooseDrive \<and> MdDevices m \<noteq> [] \<and>
       int (length (MdDevices m)) \<le> MdCursor m)"
proof (cases msg)
  case (KeyPressMsg k)
  then show ?thesis
    using updateKeyMessage_None [OF assms, of B k] handleSelect_None [OF assms, of B] by (simp add: updateMessage_def)
qed (simp_all add: updateMessage_def)

section \<open>Quitting\<close>

text \<open>The pages of a recovery that runs or is paused.\<close>

definition recovery_page :: "Page \<Rightarrow> bool" where
  "recovery_page p \<longleftrightarrow> p \<in> {PageRecovering, PagePausing, PagePaused}"

lemma recovery_page_cases: "recovery_page (MdPage m) \<Longrightarrow> MdPage m = PageRecovering \<or> MdPage m = PagePausing \<or> MdPage m = PagePaused"
  by (simp add: recovery_page_def)

lemma recovery_keys:
  assumes "recovery_page (MdPage m)"
  shows "snd (press_force m) \<noteq> QuitCmd" "snd (press_quit m) \<noteq> QuitCmd" "snd (press_pause m) \<noteq> QuitCmd"
    "handleSelect B m = Some (m', c) \<Longrightarrow> c \<noteq> QuitCmd"
  using recovery_page_cases [OF assms]
  by (auto simp: press_force_def press_quit_def press_pause_def handleSelect_def select_paused_def
      stopImmediatelyEffect_def pauseJobEffect_def resumeJobEffect_def split: if_splits)

lemma no_quit_messages:
  "(\<And>k. msg \<noteq> KeyPressMsg k) \<Longrightarrow> updateMessage B msg m = Some (m', c) \<Longrightarrow> c \<noteq> QuitCmd"
  by (cases msg)
    (auto simp: updateMessage_def updateWindowMessage_def updateSpinnerMessage_def updateDevicesDiscovered_def
      updateEjectCompleted_def updateMediaIdentified_def updatePriorProcessingLookup_def updateProcessedMediaDiscovered_def
      updateRecoveryTargetInspected_def updateResumableJobsDiscovered_def updateJobStarted_def updateJobPaused_def
      updateJobStartFailed_def updateProgress_def updateStatus_def updateJobCheckpointed_def updateJobStopped_def
      updateWorkerUnresponsive_def updateFatal_def beginDiscovery_def discoverDevicesEffect_def lookupHistoryEffect_def
      Let_def split: if_splits option.splits prod.splits)

text \<open>On the pages of a recovery that runs, is being paused or is paused no message ends the program: the
  keys that quit elsewhere ask whether to stop.\<close>

theorem recovery_pages_never_quit:
  assumes "recovery_page (MdPage m)" "updateMessage B msg m = Some (m', c)"
  shows "c \<noteq> QuitCmd"
proof (cases "\<exists>k. msg = KeyPressMsg k")
  case True
  then obtain k where k: "updateKeyMessage B k m = Some (m', c)" using assms(2) by (auto simp: updateMessage_def)
  have page: "MdPage m \<notin> {PageChooseDrive, PageChooseAction, PageResumeJobs, PageHistory, PageDetails, PageChooseOutput}"
    using assms(1) by (auto simp: recovery_page_def)
  then have h: "handleKeyPress B k m = Some (m', c)" using k by (simp add: updateKeyMessage_def)
  show ?thesis
    using h page recovery_keys [OF assms(1)]
    by (auto simp: handleKeyPress_def Let_def handleBack_def split: if_splits)
next
  case False
  then show ?thesis using no_quit_messages [OF _ assms(2)] by blast
qed

section \<open>Leaving a recovery by its details\<close>

lemma overlay_page [simp]:
  "MdPage (overlay_snapshot sn m) = MdPage m" "MdRestartLoadingSpinner (overlay_snapshot sn m) = MdRestartLoadingSpinner m"
  "MdCursor (overlay_snapshot sn m) = MdCursor m" "MdSetup (overlay_snapshot sn m) = MdSetup m"
  "MdSelectedDrive (overlay_snapshot sn m) = MdSelectedDrive m" "MdMediaCapacitySectors (overlay_snapshot sn m) = MdMediaCapacitySectors m"
  "MdMediaLogicalSectorSize (overlay_snapshot sn m) = MdMediaLogicalSectorSize m"
  by (simp_all add: overlay_snapshot_def recovery_with_def)

lemma lower_keys [simp]: "strings_ToLower ''enter'' = ''enter''" "strings_ToLower ''d'' = ''d''" "strings_ToLower ''q'' = ''q''"
  by code_simp+

text \<open>A key that a page handles at once, seen from the program.\<close>

lemma key_received:
  assumes "updateMessage B (KeyPressMsg k) (SyModel s) = Some (m', c)" "\<not> SyQuit s" "\<not> MdRestartLoadingSpinner m'"
  obtains m'' where "system_move B (Input (KeyPressMsg k) sn) s = Some (s\<lparr>SyModel := m'',
        SyTasks := SyTasks s @ map (\<lambda>t. (t, m'\<lparr>MdRestartLoadingSpinner := False\<rparr>)) (tasks_of c),
        SyIssued := SyIssued s @ (case c of Request r \<Rightarrow> [r] | _ \<Rightarrow> [])\<rparr>)"
    "m'' = (if PgActiveRecovery (SyState s) \<noteq> None then overlay_snapshot sn (m'\<lparr>MdRestartLoadingSpinner := False\<rparr>)
       else m'\<lparr>MdRestartLoadingSpinner := False\<rparr>)"
proof -
  let ?m = "m'\<lparr>MdRestartLoadingSpinner := False\<rparr>"
  have "effects_of (map (\<lambda>t. (t, ?m)) (tasks_of c)) = (case c of Request r \<Rightarrow> [r] | _ \<Rightarrow> [])"
    by (cases c) (simp_all add: effects_of_def tasks_of_def)
  then show thesis
    using assms that
    by (simp add: system_move_def is_input_def receive_def RecoveryProgram_Update_def ProgramModel_Update_def followUp_def
        overlay_message_def)
qed

text \<open>C20: From the details of a running recovery the quit key ends the program at once: no stop is asked
  for, no call reaches the job, and it is still active when the program is gone.\<close>

theorem details_quit_abandons_job:
  assumes "\<not> SyQuit s" "MdPage (SyModel s) = PageRecovering" "\<not> MdRestartLoadingSpinner (SyModel s)"
  shows "\<exists>t. system_run B [Input (KeyPressMsg ''d'') sn, Input (KeyPressMsg ''q'') sn, Perform (length (SyTasks s)) w] s = Some t \<and>
    SyQuit t \<and> SyCalls t = SyCalls s \<and> SyState t = SyState s"
proof -
  let ?d = "open_details B (SyModel s)"
  have d: "updateMessage B (KeyPressMsg ''d'') (SyModel s) = Some (?d, NoCmd)"
    using assms(2) by (simp add: updateMessage_def updateKeyMessage_def handleKeyPress_def matchesKey_def DefaultKeys_def Let_def)
  have dp: "MdPage ?d = PageDetails" "\<not> MdRestartLoadingSpinner ?d"
    using assms(3) by (simp_all add: open_details_def syncDetailsViewport_def)
  obtain m1 where m1: "system_move B (Input (KeyPressMsg ''d'') sn) s =
      Some (s\<lparr>SyModel := m1, SyTasks := SyTasks s, SyIssued := SyIssued s\<rparr>)"
    "m1 = (if PgActiveRecovery (SyState s) \<noteq> None then overlay_snapshot sn (?d\<lparr>MdRestartLoadingSpinner := False\<rparr>)
       else ?d\<lparr>MdRestartLoadingSpinner := False\<rparr>)"
    by (rule key_received [OF d assms(1) dp(2), of sn]) (simp add: tasks_of_def)
  have p: "MdPage m1 = PageDetails" "\<not> MdRestartLoadingSpinner m1"
    unfolding m1(2) using dp by (cases "PgActiveRecovery (SyState s) = None"; simp)+
  let ?s1 = "s\<lparr>SyModel := m1, SyTasks := SyTasks s, SyIssued := SyIssued s\<rparr>"
  have q: "updateMessage B (KeyPressMsg ''q'') (SyModel ?s1) = Some (m1\<lparr>MdQuitting := True\<rparr>, QuitCmd)"
    using p(1) by (simp add: updateMessage_def updateKeyMessage_def handleKeyPress_def matchesKey_def DefaultKeys_def
        press_quit_def Let_def)
  obtain m2 where m2: "system_move B (Input (KeyPressMsg ''q'') sn) ?s1 =
      Some (?s1\<lparr>SyModel := m2, SyTasks := SyTasks s @ [(TaskQuit, m1\<lparr>MdQuitting := True, MdRestartLoadingSpinner := False\<rparr>)],
        SyIssued := SyIssued s\<rparr>)"
  proof (rule key_received [OF q, of sn])
    fix m2 assume "system_move B (Input (KeyPressMsg ''q'') sn) ?s1 = Some (?s1\<lparr>SyModel := m2,
      SyTasks := SyTasks ?s1 @ map (\<lambda>t. (t, m1\<lparr>MdQuitting := True, MdRestartLoadingSpinner := False\<rparr>)) (tasks_of QuitCmd),
      SyIssued := SyIssued ?s1 @ (case QuitCmd of Request r \<Rightarrow> [r] | _ \<Rightarrow> [])\<rparr>)"
    then show thesis by (intro that [of m2]) (simp add: tasks_of_def)
  qed (use assms(1) p(2) in simp_all)
  show ?thesis using assms(1) m1(1) m2 by (auto simp: system_move_def perform_def is_input_def)
qed

section \<open>Pausing\<close>

text \<open>C22: When a job ends while a pause is pending it is shown as paused with saved progress whatever its
  end was: an error, such as a checkpoint that could not be written, is neither kept nor shown.\<close>

theorem pause_hides_failure:
  assumes "PgActiveRecovery st \<noteq> None" "PgPendingPause st" "SnDone sn"
  shows "\<exists>x. \<forall>e canceled. poll (sn\<lparr>SnErrText := e, SnCanceled := canceled\<rparr>) m st =
      (Some (JobPausedMsg x), st\<lparr>PgActiveRecovery := None, PgPendingPause := False\<rparr>) \<and>
    (\<forall>B m0. \<exists>m1. updateMessage B (JobPausedMsg x) m0 = Some (m1, NoCmd) \<and> MdPage m1 = PagePaused \<and>
       MdNotice m1 = Some (plain_notice ''Progress saved. Continue recovery when you are ready.'' SeverityInfo) \<and>
       MdLastError m1 = MdLastError m0)"
proof -
  let ?x = "\<lparr>PzOutputPath = SuOutputPath (MdSetup m), PzMapPath = SnMapPath sn,
      PzScannedSectors = 0, PzRecoveredSectors = SnCopiedBytes sn div sector_bytes m, PzDeferredSectors = 0,
      PzTotalSectors = MdMediaCapacitySectors m, PzUnreadableSectors = SnUnreadableSectors sn\<rparr>"
  have "poll (sn\<lparr>SnErrText := e, SnCanceled := canceled\<rparr>) m st =
      (Some (JobPausedMsg ?x), st\<lparr>PgActiveRecovery := None, PgPendingPause := False\<rparr>)" for e canceled
    using assms by (simp add: poll_def Let_def)
  moreover have "\<exists>m1. updateMessage B (JobPausedMsg ?x) m0 = Some (m1, NoCmd) \<and> MdPage m1 = PagePaused \<and>
       MdNotice m1 = Some (plain_notice ''Progress saved. Continue recovery when you are ready.'' SeverityInfo) \<and>
       MdLastError m1 = MdLastError m0" for B and m0 :: "('l, 'i, 'v, 's) Model"
    by (simp add: updateMessage_def updateJobPaused_def with_notice_def setup_with_def recovery_with_def Let_def)
  ultimately show ?thesis by (intro exI [of _ ?x] allI conjI)
qed

section \<open>Starting twice\<close>

definition stops_job :: "nat \<Rightarrow> JobCall \<Rightarrow> bool" where
  "stops_job j c \<longleftrightarrow> c = CallCancel j \<or> (\<exists>i. c = CallRequestStop j i) \<or> c = CallForceStop j"

definition starts_job :: "nat \<Rightarrow> Move \<Rightarrow> bool" where
  "starts_job j mv \<longleftrightarrow> (\<exists>i w. mv = Perform i w \<and> AwStart w = Inr j)"

lemma runEffect_jobs:
  assumes "runEffect w m r st = (msg, st', calls)" "PgActiveRecovery st \<noteq> Some j" "AwStart w \<noteq> Inr j"
  shows "PgActiveRecovery st' \<noteq> Some j \<and> (\<forall>c \<in> set calls. \<not> stops_job j c)"
  using assms
  by (auto simp: runEffect_def runRecoveryEffect_def startRecoveryJob_def request_stop_def stops_job_def Let_def
      split: if_splits sum.splits option.splits prod.splits)

lemma poll_jobs: "poll sn m st = (mo, st') \<Longrightarrow> PgActiveRecovery st \<noteq> Some j \<Longrightarrow> PgActiveRecovery st' \<noteq> Some j"
  by (auto simp: poll_def Let_def split: if_splits prod.splits)

lemma orphan_move:
  assumes "system_move B mv s = Some t" "PgActiveRecovery (SyState s) \<noteq> Some j" "\<not> starts_job j mv"
  shows "PgActiveRecovery (SyState t) \<noteq> Some j \<and> (\<exists>new. SyCalls t = SyCalls s @ new \<and> (\<forall>c \<in> set new. \<not> stops_job j c))"
proof (cases mv)
  case (Perform i w)
  obtain ta m where i: "t = perform w ta m (s\<lparr>SyTasks := remove_nth i (SyTasks s)\<rparr>)"
    using assms(1) Perform by (auto simp: system_move_def split: if_splits prod.splits)
  have w: "AwStart w \<noteq> Inr j" using assms(3) Perform by (auto simp: starts_job_def)
  show ?thesis
  proof (cases ta)
    case (TaskEffect r)
    obtain msg st calls where e: "runEffect w m r (SyState s) = (msg, st, calls)" by (cases "runEffect w m r (SyState s)")
    from runEffect_jobs [OF e assms(2) w] show ?thesis by (simp add: i perform_def TaskEffect e)
  next
    case TaskPoll
    obtain mo st where e: "poll (AwSnapshot w) m (SyState s) = (mo, st)" by (cases "poll (AwSnapshot w) m (SyState s)")
    from poll_jobs [OF e assms(2)] show ?thesis by (simp add: i perform_def TaskPoll e)
  qed (use assms(2) in \<open>simp_all add: i perform_def\<close>)
qed (use assms(1,2) in \<open>auto simp: system_move_def receive_def split: if_splits option.splits prod.splits\<close>)

lemma orphan_run:
  assumes "system_run B mvs s = Some t" "PgActiveRecovery (SyState s) \<noteq> Some j" "\<forall>mv \<in> set mvs. \<not> starts_job j mv"
  shows "\<exists>new. SyCalls t = SyCalls s @ new \<and> (\<forall>c \<in> set new. \<not> stops_job j c)"
  using assms
proof (induction mvs arbitrary: s)
  case (Cons mv mvs)
  obtain s1 where s1: "system_move B mv s = Some s1" "system_run B mvs s1 = Some t"
    using Cons.prems(1) by (auto split: option.splits)
  have "\<not> starts_job j mv" using Cons.prems(3) by simp
  from orphan_move [OF s1(1) Cons.prems(2) this] obtain a where
    a: "PgActiveRecovery (SyState s1) \<noteq> Some j" "SyCalls s1 = SyCalls s @ a" "\<forall>c \<in> set a. \<not> stops_job j c" by blast
  from Cons.IH [OF s1(2) a(1)] Cons.prems(3) obtain b where
    "SyCalls t = SyCalls s1 @ b" "\<forall>c \<in> set b. \<not> stops_job j c" by auto
  then show ?case using a(2,3) by auto
qed simp


lemma restart_same: "\<not> MdRestartLoadingSpinner m \<Longrightarrow> m\<lparr>MdRestartLoadingSpinner := False\<rparr> = m"
  by (cases m) simp

lemma review_enter:
  assumes "\<not> SyQuit s" "MdPage (SyModel s) = PageReview" "MdCursor (SyModel s) = 0" "\<not> MdRestartLoadingSpinner (SyModel s)"
    and "PgActiveRecovery (SyState s) = None"
  shows "system_move B (Input (KeyPressMsg ''enter'') sn) s =
    Some (s\<lparr>SyTasks := SyTasks s @ [(TaskEffect (effect EffectStartJob), SyModel s)],
      SyIssued := SyIssued s @ [effect EffectStartJob]\<rparr>)"
proof -
  have "updateMessage B (KeyPressMsg ''enter'') (SyModel s) = Some (SyModel s, startJobEffect)"
    using assms(2,3) by (simp add: updateMessage_def updateKeyMessage_def handleKeyPress_def matchesKey_def DefaultKeys_def
        handleSelect_def select_review_def Let_def)
  from key_received [OF this assms(1,4), of sn] show ?thesis
    using assms(5) by (auto simp: startJobEffect_def tasks_of_def restart_same [OF assms(4)])
qed

text \<open>C19: Two presses of enter on the review start two jobs with the same image and map before either start
  is answered; the program keeps the second, and no later pause, stop or force stop reaches the first.\<close>

theorem second_start_orphans_job:
  assumes "\<not> SyQuit s" "MdPage (SyModel s) = PageReview" "MdCursor (SyModel s) = 0" "\<not> MdRestartLoadingSpinner (SyModel s)"
    and "PgActiveRecovery (SyState s) = None" "n = length (SyTasks s)" "AwStart w1 = Inr j1" "AwStart w2 = Inr j2" "j1 \<noteq> j2"
  shows "\<exists>t. system_run B [Input (KeyPressMsg ''enter'') sn, Input (KeyPressMsg ''enter'') sn, Perform n w1, Perform n w2] s = Some t \<and>
    SyCalls t = SyCalls s @ [CallStart (start_input (SyModel s)) (Some j1), CallStart (start_input (SyModel s)) (Some j2)] \<and>
    PgActiveRecovery (SyState t) = Some j2 \<and>
    (\<forall>mvs u. (\<forall>mv \<in> set mvs. \<not> starts_job j1 mv) \<and> system_run B mvs t = Some u \<longrightarrow>
      (\<forall>c \<in> set (drop (length (SyCalls t)) (SyCalls u)). \<not> stops_job j1 c))"
proof -
  let ?k = "effect EffectStartJob"
  let ?s1 = "s\<lparr>SyTasks := SyTasks s @ [(TaskEffect ?k, SyModel s)], SyIssued := SyIssued s @ [?k]\<rparr>"
  let ?s2 = "?s1\<lparr>SyTasks := SyTasks ?s1 @ [(TaskEffect ?k, SyModel ?s1)], SyIssued := SyIssued ?s1 @ [?k]\<rparr>"
  have moves: "system_move B (Input (KeyPressMsg ''enter'') sn) s = Some ?s1"
    "system_move B (Input (KeyPressMsg ''enter'') sn) ?s1 = Some ?s2"
    using assms(1-5) by (intro review_enter; simp)+
  have run: "runEffect w m ?k st = startRecoveryJob w m st" for w st and m :: "('a, 'b, 'c, 'd) Model"
    by (simp add: runEffect_def runRecoveryEffect_def effect_def)
  have "\<exists>t. system_run B [Perform n w1, Perform n w2] ?s2 = Some t \<and>
      SyCalls t = SyCalls s @ [CallStart (start_input (SyModel s)) (Some j1), CallStart (start_input (SyModel s)) (Some j2)] \<and>
      PgActiveRecovery (SyState t) = Some j2"
    using assms(1,6-8)
    by (simp add: system_move_def perform_def nth_append remove_nth_def run startRecoveryJob_def Let_def)
  then obtain t where t: "system_run B [Perform n w1, Perform n w2] ?s2 = Some t"
      "SyCalls t = SyCalls s @ [CallStart (start_input (SyModel s)) (Some j1), CallStart (start_input (SyModel s)) (Some j2)]"
      "PgActiveRecovery (SyState t) = Some j2" by blast
  have "system_run B [Input (KeyPressMsg ''enter'') sn, Input (KeyPressMsg ''enter'') sn, Perform n w1, Perform n w2] s = Some t"
    using moves t(1) by simp
  moreover have "\<forall>c \<in> set (drop (length (SyCalls t)) (SyCalls u)). \<not> stops_job j1 c"
    if "\<forall>mv \<in> set mvs. \<not> starts_job j1 mv" "system_run B mvs t = Some u" for mvs u
    using orphan_run [OF that(2) _ that(1)] t(3) assms(9) by auto
  ultimately show ?thesis using t(2,3) by blast
qed


section \<open>Examples\<close>

definition one_drive :: DeviceSummary where
  "one_drive = \<lparr>DsID = ''sr0'', DsPath = ''sr0'', DsDisplayName = ''Drive'', DsStatus = ''available'', DsMediaToken = []\<rparr>"

definition readable_disc :: MediaIdentified where
  "readable_disc = \<lparr>MiRequestID = 2, MiIdentity = \<lparr>CiSummary = [], CiDetail = [], CiEvidence = [], CiIdentityStatus = [],
     CiAutoResumeReady = False\<rparr>, MiFileSystem = [], MiVolumeLabel = [], MiLogicalSectorSize = 2048, MiCapacitySectors = 8,
     MiSuggestedOutputPath = ''a.iso'', MiRecoverable = True, MiRecoverabilityNote = [], MiErr = None\<rparr>"

definition saved_job :: ResumableJobViewModel where
  "saved_job = \<lparr>RjOutputPath = ''a.iso'', RjMapPath = ''a.drmap'', RjRecoveredSectors = 4, RjDeferredSectors = 0,
     RjUnreadableSectors = 0, RjDetail = []\<rparr>"

definition matching_work :: PriorProcessingViewModel where
  "matching_work = (prior_view PriorProcessingStrongResumable ''Found'')\<lparr>PvOptions := [''Resume'', ''Start'', ''Choose'']\<rparr>"

definition stale_cursor_session :: "Msg list" where
  "stale_cursor_session = [DevicesDiscoveredMsg 1 [one_drive] None, KeyPressMsg ''enter'', MediaIdentifiedMsg readable_disc,
     PriorProcessingLookupMsg 3 matching_work [] [saved_job] None, KeyPressMsg ''down'', KeyPressMsg ''down'', KeyPressMsg ''esc'']"

definition stale_model :: "(ListItem list \<times> int, string, unit, unit) Model" where
  "stale_model = fst (the (run_messages plain_bubbles stale_cursor_session (NewModel plain_bubbles)))"

lemma stale_model: "MdCursor stale_model = 2 \<and> MdPage stale_model = PageChooseDrive \<and> MdDevices stale_model = [one_drive] \<and>
   run_messages plain_bubbles stale_cursor_session (NewModel plain_bubbles) \<noteq> None"
  by code_simp


theorem update_panics_iff_witness:
  "updateMessage plain_bubbles (KeyPressMsg ''enter'') stale_model = None"
  using update_panics_iff [of stale_model plain_bubbles "KeyPressMsg ''enter''"] stale_model by simp

definition recovering_system :: "(ListItem list \<times> int, string, unit, unit) System" where
  "recovering_system = (start_system plain_bubbles)\<lparr>
     SyModel := (NewModel plain_bubbles)\<lparr>MdPage := PageRecovering\<rparr>, SyTasks := [],
     SyState := no_job\<lparr>PgActiveRecovery := Some 7\<rparr>\<rparr>"

definition review_system :: "(ListItem list \<times> int, string, unit, unit) System" where
  "review_system = (start_system plain_bubbles)\<lparr>
     SyModel := (NewModel plain_bubbles)\<lparr>MdPage := PageReview, MdRestartLoadingSpinner := False\<rparr>, SyTasks := []\<rparr>"

definition plain_snapshot :: RecoverySnapshot where
  "plain_snapshot = \<lparr>SnElapsed = 0, SnTotalBytes = 0, SnCopiedBytes = 0, SnRate = None, SnETA = None, SnScannedSectors = 0,
     SnDeferredSectors = 0, SnUnreadableSectors = 0, SnPass = [], SnMapPath = [], SnResumed = False, SnLastIssue = [],
     SnDone = True, SnCanceled = False, SnErrText = ''checkpoint failed'', SnStopIntent = None, SnCanForceStop = False\<rparr>"

definition no_error :: AppError where
  "no_error = \<lparr>AeText = [], AeUnsupportedEnvironment = False, AeOperationCode = None\<rparr>"

definition plain_answers :: "nat \<Rightarrow> Answers" where
  "plain_answers j = \<lparr>AwDrives = ([], None), AwMedia = Inl no_error, AwEjector = False, AwEject = ([], None),
     AwReadDir = (\<lambda>p. Inr []), AwInspect = (\<lambda>i. (\<lparr>TsOutputPath = [], TsMapPath = [], TsCanStartNew = True, TsCanResume = False,
       TsRecoveredSectors = 0, TsDeferredSectors = 0, TsUnreadableSectors = 0, TsRequiredBytes = 0, TsAvailableBytes = 0,
       TsSpaceKnown = False, TsDetail = []\<rparr>, None)), AwFileExists = (\<lambda>p. False), AwStart = Inr j, AwSnapshot = plain_snapshot,
     AwStoppable = False, AwRequestStop = None, AwForceStop = None, AwNow = 0\<rparr>"

lemma started_model: "\<not> MdRestartLoadingSpinner (NewModel B)" "MdCursor (NewModel B) = 0"
  by (simp_all add: NewModel_def)

theorem recovery_pages_never_quit_witness:
  "\<exists>m c. updateMessage plain_bubbles (KeyPressMsg ''q'') (SyModel recovering_system) = Some (m, c) \<and>
    MdPage m = PageStopConfirm \<and> c \<noteq> QuitCmd"
proof -
  let ?m = "SyModel recovering_system"
  have u: "updateMessage plain_bubbles (KeyPressMsg ''q'') ?m = Some (confirm_stop ?m, NoCmd)"
    by (simp add: recovering_system_def updateMessage_def updateKeyMessage_def handleKeyPress_def matchesKey_def
        DefaultKeys_def press_quit_def Let_def)
  moreover have "recovery_page (MdPage ?m)" by (simp add: recovering_system_def recovery_page_def)
  note recovery_pages_never_quit [OF this u]
  ultimately show ?thesis by (auto simp: confirm_stop_def go_to_def)
qed

theorem details_quit_abandons_job_witness:
  "\<exists>t. system_run plain_bubbles [Input (KeyPressMsg ''d'') plain_snapshot, Input (KeyPressMsg ''q'') plain_snapshot,
      Perform 0 (plain_answers 1)] recovering_system = Some t \<and> SyQuit t \<and> PgActiveRecovery (SyState t) = Some 7"
  using details_quit_abandons_job [of recovering_system plain_bubbles plain_snapshot "plain_answers 1"]
  by (auto simp: recovering_system_def start_system_def started_model)

theorem pause_hides_failure_witness:
  "\<exists>x. fst (poll plain_snapshot (SyModel recovering_system) (no_job\<lparr>PgActiveRecovery := Some 7, PgPendingPause := True\<rparr>)) =
    Some (JobPausedMsg x) \<and> SnErrText plain_snapshot = ''checkpoint failed''"
proof -
  have "PgActiveRecovery (no_job\<lparr>PgActiveRecovery := Some 7, PgPendingPause := True\<rparr>) \<noteq> None"
    "PgPendingPause (no_job\<lparr>PgActiveRecovery := Some 7, PgPendingPause := True\<rparr>)" "SnDone plain_snapshot"
    by (simp_all add: plain_snapshot_def)
  from pause_hides_failure [OF this, of "SyModel recovering_system"] obtain x where
    "\<forall>e canceled. poll (plain_snapshot\<lparr>SnErrText := e, SnCanceled := canceled\<rparr>) (SyModel recovering_system)
      (no_job\<lparr>PgActiveRecovery := Some 7, PgPendingPause := True\<rparr>) =
      (Some (JobPausedMsg x), no_job\<lparr>PgActiveRecovery := Some 7, PgPendingPause := True\<rparr>\<lparr>PgActiveRecovery := None, PgPendingPause := False\<rparr>)"
    by blast
  from this [rule_format, of False "''checkpoint failed''"] show ?thesis by (simp add: plain_snapshot_def)
qed

theorem second_start_orphans_job_witness:
  "\<exists>t. system_run plain_bubbles [Input (KeyPressMsg ''enter'') plain_snapshot, Input (KeyPressMsg ''enter'') plain_snapshot,
      Perform 0 (plain_answers 1), Perform 0 (plain_answers 2)] review_system = Some t \<and>
    length (SyCalls t) = 2 \<and> PgActiveRecovery (SyState t) = Some 2"
proof -
  have "\<not> SyQuit review_system" "MdPage (SyModel review_system) = PageReview" "MdCursor (SyModel review_system) = 0"
    "\<not> MdRestartLoadingSpinner (SyModel review_system)" "PgActiveRecovery (SyState review_system) = None"
    "0 = length (SyTasks review_system)" "AwStart (plain_answers 1) = Inr 1" "AwStart (plain_answers 2) = Inr 2" "(1::nat) \<noteq> 2"
    by (simp_all add: review_system_def start_system_def no_job_def plain_answers_def started_model)
  note second_start_orphans_job [OF this, of plain_bubbles plain_snapshot]
  then show ?thesis by (auto simp: review_system_def start_system_def)
qed

end
