(* ===== verification/AppProps.thy ===== *)
theory AppProps
  imports AppSession
begin

text \<open>
  Which replies the application uses: the invariant of the numbered requests, over every order in which
  commands run and messages arrive.
\<close>

section \<open>Replies\<close>

definition numbers_inv :: "EffectRequestedMsg list \<Rightarrow> ('l, 'i, 'v, 's) Model \<Rightarrow> bool" where
  "numbers_inv rs m \<longleftrightarrow>
     0 < MdNextRequestID m \<and>
     sorted_wrt (<) (map ErRequestID (filter (\<lambda>r. numbered (ErKind r)) rs)) \<and>
     (\<forall>r \<in> set rs. numbered (ErKind r) \<longrightarrow> 0 < ErRequestID r \<and> ErRequestID r < MdNextRequestID m) \<and>
     (\<forall>k. active_request k m \<noteq> 0 \<longrightarrow> (\<exists>old r. requests_of k rs = old @ [r] \<and> ErRequestID r = active_request k m))"

definition tasks_issued :: "EffectRequestedMsg list \<Rightarrow> (Task \<times> 'm) list \<Rightarrow> bool" where
  "tasks_issued rs ts \<longleftrightarrow> (\<forall>r m. (TaskEffect r, m) \<in> set ts \<longrightarrow> r \<in> set rs)"

definition replies_issued :: "EffectRequestedMsg list \<Rightarrow> Msg list \<Rightarrow> bool" where
  "replies_issued rs msgs \<longleftrightarrow> (\<forall>msg \<in> set msgs. \<forall>k i. reply_to msg = Some (k, i) \<longrightarrow>
     (\<exists>r \<in> set rs. ErKind r = k \<and> ErRequestID r = i \<and> numbered k))"

definition requests_inv :: "('l, 'i, 'v, 's) System \<Rightarrow> bool" where
  "requests_inv s \<longleftrightarrow> numbers_inv (SyIssued s) (SyModel s) \<and> tasks_issued (SyIssued s) (SyTasks s) \<and>
     replies_issued (SyIssued s) (SyInbox s)"

lemma replies_issued_mono:
  "replies_issued rs msgs \<Longrightarrow> set rs \<subseteq> set rs' \<Longrightarrow> set msgs' \<subseteq> set msgs \<Longrightarrow> replies_issued rs' msgs'"
  unfolding replies_issued_def by blast

lemma tasks_issued_mono: "tasks_issued rs ts \<Longrightarrow> set rs \<subseteq> set rs' \<Longrightarrow> set ts' \<subseteq> set ts \<Longrightarrow> tasks_issued rs' ts'"
  unfolding tasks_issued_def by blast

lemma start_inv: "requests_inv (start_system B)"
  by (auto simp: requests_inv_def tasks_issued_def replies_issued_def numbers_inv_def start_system_def start_tasks_def effects_of_def tasks_of_def discoverDevicesEffect_def
      NewModel_def requests_of_def active_request_def effect_def numbered_def numbered_kinds_def Let_def
      split: AppEffectKind.splits)

lemma effects_of_tasks:
  "effects_of (map (\<lambda>t. (t, m)) (tasks_of c @ ts)) =
     (case c of Request r \<Rightarrow> [r] | _ \<Rightarrow> []) @ effects_of (map (\<lambda>t. (t, m)) ts)"
  by (cases c) (simp_all add: effects_of_def tasks_of_def)

lemma RecoveryProgram_request:
  assumes "RecoveryProgram_Update B sn msg m st = Some (m', ts)"
  obtains m1 c where "updateMessage B msg m = Some (m1, c)" "req_core m' = req_core m1"
    "effects_of ts = (case c of Request r \<Rightarrow> [r] | _ \<Rightarrow> [])"
    "\<forall>r m0. (TaskEffect r, m0) \<in> set ts \<longrightarrow> c = Request r"
proof -
  obtain m1 c where u: "updateMessage B msg m = Some (m1, c)"
    using assms by (auto simp: RecoveryProgram_Update_def ProgramModel_Update_def split: option.splits)
  let ?m1 = "m1\<lparr>MdRestartLoadingSpinner := False\<rparr>"
  let ?extra = "(if MdRestartLoadingSpinner m1 then [TaskSpinner] else []) @ (if followUp msg st then [TaskPoll] else [])"
  have m': "m' = overlay_message (MdRecovery m) msg (if PgActiveRecovery st \<noteq> None then overlay_snapshot sn ?m1 else ?m1)"
    and ts: "ts = map (\<lambda>t. (t, ?m1)) (tasks_of c @ ?extra)"
    using assms u by (auto simp: RecoveryProgram_Update_def ProgramModel_Update_def Let_def)
  have "req_core m' = req_core m1"
    unfolding m' overlay_message_def overlay_snapshot_def by (simp add: req_frames split: Msg.split)
  moreover have "effects_of ts = (case c of Request r \<Rightarrow> [r] | _ \<Rightarrow> [])"
    unfolding ts effects_of_tasks by (simp add: effects_of_def)
  moreover have "\<forall>r m0. (TaskEffect r, m0) \<in> set ts \<longrightarrow> c = Request r"
    unfolding ts by (auto simp: tasks_of_def split: Cmd.splits if_splits)
  ultimately show thesis using that [OF u] by blast
qed

lemma runEffect_reply:
  assumes "runEffect w m r st = (msg, st', calls)" "reply_to msg = Some (k, i)"
  shows "ErKind r = k \<and> ErRequestID r = i \<and> numbered k"
  using assms
  by (auto simp: runEffect_def runOpticalEffect_def runHistoryEffect_def runRecoveryEffect_def startRecoveryJob_def
      request_stop_def status_def error_status_def unsupportedEffect_def reply_to_def media_message_def no_media_message_def
      numbered_def numbered_kinds_def Let_def
      split: if_splits AppEffectKind.splits sum.splits option.splits prod.splits)

lemma poll_reply: "poll sn m st = (Some msg, st') \<Longrightarrow> reply_to msg = None"
  by (auto simp: poll_def reply_to_def Let_def split: if_splits prod.splits)

lemma set_remove_nth: "set (remove_nth i xs) \<subseteq> set xs"
  by (auto simp: remove_nth_def dest: in_set_takeD in_set_dropD)

lemma active_numbered: "active_request k m \<noteq> 0 \<Longrightarrow> numbered k"
  by (cases k) (auto simp: active_request_def numbered_def numbered_kinds_def)

lemma numbers_quiet:
  assumes "numbers_inv rs m" "MdNextRequestID m' = MdNextRequestID m" "keeps_active {} m m'"
    and "\<forall>r \<in> set new. \<not> numbered (ErKind r)"
  shows "numbers_inv (rs @ new) m'"
proof -
  have "requests_of k new = []" if "numbered k" for k
    using assms(4) that by (auto simp: requests_of_def filter_empty_conv)
  then have new: "requests_of k (rs @ new) = requests_of k rs" if "numbered k" for k
    using that by (simp add: requests_of_def)
  have "\<exists>old r. requests_of k (rs @ new) = old @ [r] \<and> ErRequestID r = active_request k m'"
    if "active_request k m' \<noteq> 0" for k
  proof -
    have "active_request k m' = active_request k m" using assms(3) that by (auto simp: keeps_active_def)
    then show ?thesis using assms(1) that unfolding new [OF active_numbered [OF that]] by (simp add: numbers_inv_def)
  qed
  moreover have "filter (\<lambda>r. numbered (ErKind r)) new = []" using assms(4) by (simp add: filter_empty_conv)
  ultimately show ?thesis using assms(1,2,4) by (auto simp: numbers_inv_def)
qed

lemma numbers_issue:
  assumes "numbers_inv rs m" "numbered (ErKind r)" "ErRequestID r = next_request m"
    and "MdNextRequestID m' = next_request m + 1" "active_request (ErKind r) m' = next_request m"
    and "keeps_active {ErKind r} m m'"
  shows "numbers_inv (rs @ [r]) m'"
proof -
  have n: "next_request m = MdNextRequestID m" using assms(1) by (simp add: numbers_inv_def next_request_def)
  have "\<exists>old r'. requests_of k (rs @ [r]) = old @ [r'] \<and> ErRequestID r' = active_request k m'"
    if "active_request k m' \<noteq> 0" for k
  proof (cases "k = ErKind r")
    case True
    then show ?thesis using assms(3,5) by (simp add: requests_of_def)
  next
    case False
    then have "active_request k m' = active_request k m" using assms(6) that by (auto simp: keeps_active_def)
    moreover have "requests_of k (rs @ [r]) = requests_of k rs" using False by (simp add: requests_of_def)
    ultimately show ?thesis using assms(1) that by (simp add: numbers_inv_def)
  qed
  then show ?thesis using assms(1-4) unfolding numbers_inv_def n by (auto simp: sorted_wrt_append)
qed

lemma numbers_step:
  assumes "numbers_inv rs m" "request_step m m' c"
  shows "numbers_inv (rs @ (case c of Request r \<Rightarrow> [r] | _ \<Rightarrow> [])) m'"
  using assms(2) unfolding request_step_def
proof (elim disjE exE conjE)
  assume q: "quiet_cmd c" "MdNextRequestID m' = MdNextRequestID m" "keeps_active {} m m'"
  then show ?thesis
    by (intro numbers_quiet [OF assms(1)]) (auto simp: quiet_cmd_def split: Cmd.splits)
next
  fix r assume "c = Request r" "numbered (ErKind r)" "ErRequestID r = next_request m"
    "MdNextRequestID m' = next_request m + 1" "active_request (ErKind r) m' = next_request m"
    "keeps_active {ErKind r} m m'"
  then show ?thesis using numbers_issue [OF assms(1)] by simp
qed

lemma numbers_core: "numbers_inv rs m \<Longrightarrow> req_core m' = req_core m \<Longrightarrow> numbers_inv rs m'"
proof -
  assume inv: "numbers_inv rs m" and core: "req_core m' = req_core m"
  have a: "active_request k m' = active_request k m" for k using core by (simp add: active_core)
  have n: "MdNextRequestID m' = MdNextRequestID m" using core by (simp add: req_core_def)
  show ?thesis using inv unfolding numbers_inv_def a n .
qed

lemma receive_inv:
  assumes "receive B sn msg s = Some t" "requests_inv s"
  shows "requests_inv t"
proof -
  obtain m' ts where u: "RecoveryProgram_Update B sn msg (SyModel s) (SyState s) = Some (m', ts)"
    and t: "t = s\<lparr>SyModel := m', SyTasks := SyTasks s @ ts, SyIssued := SyIssued s @ effects_of ts\<rparr>"
    using assms(1) by (auto simp: receive_def split: option.splits)
  from RecoveryProgram_request [OF u] obtain m1 c where c: "updateMessage B msg (SyModel s) = Some (m1, c)" "req_core m' = req_core m1"
      "effects_of ts = (case c of Request r \<Rightarrow> [r] | _ \<Rightarrow> [])" "\<forall>r m0. (TaskEffect r, m0) \<in> set ts \<longrightarrow> c = Request r" .
  have "numbers_inv (SyIssued s @ effects_of ts) m1"
    using numbers_step [OF _ updateMessage_step [OF c(1)]] assms(2) by (simp add: c(3) requests_inv_def)
  then have "numbers_inv (SyIssued t) (SyModel t)" using numbers_core c(2) by (simp add: t)
  moreover have "tasks_issued (SyIssued t) (SyTasks t)"
    using assms(2) c(3,4) by (auto simp: t requests_inv_def tasks_issued_def)
  moreover have "replies_issued (SyIssued t) (SyInbox t)"
    using assms(2) by (auto simp: t requests_inv_def intro: replies_issued_mono)
  ultimately show ?thesis by (simp add: requests_inv_def)
qed

lemma perform_inv:
  assumes "requests_inv s" "\<And>r. t = TaskEffect r \<Longrightarrow> r \<in> set (SyIssued s)"
  shows "requests_inv (perform w t m s)"
proof -
  have same: "SyIssued (perform w t m s) = SyIssued s" "SyModel (perform w t m s) = SyModel s"
    "SyTasks (perform w t m s) = SyTasks s"
    by (simp_all add: perform_def split: Task.split prod.split)
  have "\<exists>new. SyInbox (perform w t m s) = SyInbox s @ new \<and> replies_issued (SyIssued s) new"
  proof (cases t)
    case (TaskEffect r)
    obtain msg st calls where e: "runEffect w m r (SyState s) = (msg, st, calls)" by (cases "runEffect w m r (SyState s)")
    have "replies_issued (SyIssued s) [msg]"
      using assms(2) [OF TaskEffect] runEffect_reply [OF e] by (auto simp: replies_issued_def)
    then show ?thesis by (simp add: perform_def TaskEffect e)
  next
    case TaskPoll
    obtain mo st where e: "poll (AwSnapshot w) m (SyState s) = (mo, st)" by (cases "poll (AwSnapshot w) m (SyState s)")
    have "replies_issued (SyIssued s) (case mo of None \<Rightarrow> [] | Some x \<Rightarrow> [x])"
      using e by (auto simp: replies_issued_def dest: poll_reply split: option.splits)
    then show ?thesis by (simp add: perform_def TaskPoll e)
  qed (simp_all add: perform_def replies_issued_def reply_to_def)
  then show ?thesis using assms(1) unfolding requests_inv_def same by (auto simp: replies_issued_def)
qed

lemma requests_inv_shrink:
  assumes "requests_inv s" "set (SyInbox t) \<subseteq> set (SyInbox s)" "set (SyTasks t) \<subseteq> set (SyTasks s)"
    and "SyIssued t = SyIssued s" "SyModel t = SyModel s"
  shows "requests_inv t"
  using assms(1) replies_issued_mono [OF _ _ assms(2)] tasks_issued_mono [OF _ _ assms(3)]
  unfolding requests_inv_def assms(4,5) by blast

lemma app_reachable_inv: "app_reachable B s \<Longrightarrow> requests_inv s"
proof (induction rule: app_reachable.induct)
  case app_start
  show ?case by (rule start_inv)
next
  case (app_move s mv t)
  show ?case
  proof (cases mv)
    case (Input msg sn)
    then show ?thesis using app_move by (auto simp: system_move_def split: if_splits intro: receive_inv)
  next
    case (Arrive i sn)
    let ?s = "s\<lparr>SyInbox := remove_nth i (SyInbox s)\<rparr>"
    have "requests_inv ?s" by (rule requests_inv_shrink [OF app_move.IH]) (simp_all add: set_remove_nth)
    then show ?thesis using app_move(2) Arrive by (auto simp: system_move_def split: if_splits intro: receive_inv)
  next
    case (Perform i w)
    let ?s = "s\<lparr>SyTasks := remove_nth i (SyTasks s)\<rparr>"
    obtain ta m where i: "i < length (SyTasks s)" "SyTasks s ! i = (ta, m)" "t = perform w ta m ?s"
      using app_move(2) Perform by (auto simp: system_move_def split: if_splits prod.splits)
    then have "(ta, m) \<in> set (SyTasks s)" by (metis nth_mem)
    then have issued: "ta = TaskEffect r \<Longrightarrow> r \<in> set (SyIssued ?s)" for r
      using app_move.IH by (auto simp: requests_inv_def tasks_issued_def)
    have "requests_inv ?s" by (rule requests_inv_shrink [OF app_move.IH]) (simp_all add: set_remove_nth)
    from perform_inv [OF this issued] show ?thesis unfolding i(3) .
  qed
qed

text \<open>C18: In every state the program can reach, a reply that has any effect on the model answers the last
  request of its kind: the numbers of the requests before it are smaller, so that replies that were
  overtaken are ignored, in whatever order commands run and messages arrive.\<close>

theorem only_latest_reply_used:
  assumes "app_reachable B s" "msg \<in> set (SyInbox s)" "reply_to msg = Some (k, i)"
    and "updateMessage B msg (SyModel s) \<noteq> Some (SyModel s, NoCmd)"
  shows "\<exists>old r. requests_of k (SyIssued s) = old @ [r] \<and> ErRequestID r = i \<and> (\<forall>r' \<in> set old. ErRequestID r' < i)"
proof -
  have inv: "requests_inv s" using assms(1) by (rule app_reachable_inv)
  have active: "active_request k (SyModel s) = i"
    using assms(3,4)
    by (cases msg)
      (auto simp: reply_to_def active_request_def updateMessage_def updateDevicesDiscovered_def updateMediaIdentified_def
        updatePriorProcessingLookup_def updateProcessedMediaDiscovered_def updateRecoveryTargetInspected_def
        updateResumableJobsDiscovered_def split: if_splits)
  obtain r0 where r0: "r0 \<in> set (SyIssued s)" "ErKind r0 = k" "ErRequestID r0 = i" "numbered k"
    using inv assms(2,3) unfolding requests_inv_def replies_issued_def by blast
  then have "i \<noteq> 0" using inv by (auto simp: requests_inv_def numbers_inv_def)
  then obtain old r where r: "requests_of k (SyIssued s) = old @ [r]" "ErRequestID r = i"
    using inv active by (auto simp: requests_inv_def numbers_inv_def)
  have "requests_of k (SyIssued s) = requests_of k (filter (\<lambda>r. numbered (ErKind r)) (SyIssued s))"
    using r0(4) by (auto simp: requests_of_def intro: filter_cong)
  moreover have "sorted_wrt (\<lambda>x y. ErRequestID x < ErRequestID y) (filter (\<lambda>r. numbered (ErKind r)) (SyIssued s))"
    using inv by (simp add: requests_inv_def numbers_inv_def sorted_wrt_map)
  note sorted_wrt_filter [OF this, of "\<lambda>r. ErKind r = k", folded requests_of_def]
  ultimately have "sorted_wrt (\<lambda>x y. ErRequestID x < ErRequestID y) (old @ [r])" unfolding r(1) by simp
  then show ?thesis using r by (auto simp: sorted_wrt_append)
qed


definition first_reply :: "(ListItem list \<times> int, string, unit, unit) System" where
  "first_reply = the (system_run plain_bubbles [Perform 0 (plain_answers 1)] (start_system plain_bubbles))"

lemma first_reply: "app_reachable plain_bubbles first_reply"
  "SyInbox first_reply = [DevicesDiscoveredMsg 1 [] None]" "SyModel first_reply = NewModel plain_bubbles"
proof -
  let ?s = "start_system plain_bubbles"
  have run: "system_run plain_bubbles [Perform 0 (plain_answers 1)] ?s \<noteq> None"
    by (simp add: system_move_def start_system_def start_tasks_def tasks_of_def discoverDevicesEffect_def Let_def)
  then have "system_run plain_bubbles [Perform 0 (plain_answers 1)] ?s = Some first_reply" by (auto simp: first_reply_def)
  then show "app_reachable plain_bubbles first_reply" by (rule system_run_reachable [OF app_start])
  show "SyInbox first_reply = [DevicesDiscoveredMsg 1 [] None]" "SyModel first_reply = NewModel plain_bubbles"
    by (simp_all add: first_reply_def system_move_def start_system_def start_tasks_def tasks_of_def discoverDevicesEffect_def
        perform_def runEffect_def runOpticalEffect_def toDeviceSummaries_def effect_def plain_answers_def NewModel_def Let_def)
qed

theorem only_latest_reply_used_witness:
  "\<exists>old r. requests_of EffectDiscoverDevices (SyIssued first_reply) = old @ [r] \<and> ErRequestID r = 1"
proof -
  let ?msg = "DevicesDiscoveredMsg 1 [] None"
  have "MdPage (fst (the (updateMessage plain_bubbles ?msg (NewModel plain_bubbles)))) = PageNoDrives" by code_simp
  then have "updateMessage plain_bubbles ?msg (SyModel first_reply) \<noteq> Some (SyModel first_reply, NoCmd)"
    unfolding first_reply(3) by (auto simp: NewModel_def)
  from only_latest_reply_used [OF first_reply(1) _ _ this] show ?thesis
    by (auto simp: first_reply(2) reply_to_def)
qed

end
