(* ===== verification/AppPaths.thy ===== *)
theory AppPaths
  imports AppUpdate
begin

text \<open>
  The output path of a recovery: its folder and file name, edited apart, give the clean path again.
\<close>

section \<open>Elements of a path\<close>

lemma split_at_plain: "c \<notin> set xs \<Longrightarrow> split_at c xs = [xs]"
  by (induction xs) auto

lemma split_at_nonempty: "split_at c xs \<noteq> []"
  by (induction xs) (auto split: list.splits)

lemma split_at_append: "split_at c (xs @ c # ys) = split_at c xs @ split_at c ys"
proof (induction xs)
  case (Cons x xs)
  then show ?case using split_at_nonempty [of c xs] by (auto split: list.splits)
qed simp

lemma split_at_elements: "e \<in> set (split_at c xs) \<Longrightarrow> c \<notin> set e"
  by (induction xs arbitrary: e) (auto split: list.splits if_splits)

lemma split_Join: "es \<noteq> [] \<Longrightarrow> \<forall>e \<in> set es. c \<notin> set e \<Longrightarrow> split_at c (strings_Join es [c]) = es"
  by (induction es "[c]" rule: strings_Join.induct) (simp_all add: split_at_plain split_at_append)

text \<open>The stacks that cleaning a path ends with: parents only at its bottom, and none below the root.\<close>

fun clean_stack :: "bool \<Rightarrow> string list \<Rightarrow> bool" where
  "clean_stack r [] \<longleftrightarrow> True"
| "clean_stack r (e # es) \<longleftrightarrow> e \<noteq> [] \<and> e \<noteq> ''.'' \<and> slash \<notin> set e \<and>
     (e = ''..'' \<longrightarrow> \<not> r \<and> (es = [] \<or> hd es = ''..'')) \<and> clean_stack r es"

lemma clean_step_stack: "clean_stack r st \<Longrightarrow> slash \<notin> set e \<Longrightarrow> clean_stack r (clean_step r st e)"
  by (auto simp: clean_step_def split: list.splits)

lemma clean_fold_stack: "clean_stack r st \<Longrightarrow> \<forall>e \<in> set es. slash \<notin> set e \<Longrightarrow> clean_stack r (foldl (clean_step r) st es)"
  by (induction es arbitrary: st) (simp_all add: clean_step_stack)

lemma clean_fold_same: "clean_stack r st \<Longrightarrow> foldl (clean_step r) [] (rev st) = st"
proof (induction st)
  case (Cons e es)
  then show ?case by (cases es) (auto simp: clean_step_def)
qed simp

lemma clean_stack_plain: "clean_stack r st \<Longrightarrow> e \<in> set st \<Longrightarrow> slash \<notin> set e \<and> e \<noteq> []"
  by (induction st) auto

section \<open>Cleaning\<close>

definition path_stack :: "string \<Rightarrow> string list" where
  "path_stack p = foldl (clean_step (is_rooted p)) [] (split_at slash p)"

lemma Clean_stack: "filepath_Clean p = path_of (is_rooted p) (path_stack p)"
  by (simp add: filepath_Clean_def path_stack_def)

lemma path_stack_clean: "clean_stack (is_rooted p) (path_stack p)"
  unfolding path_stack_def by (rule clean_fold_stack) (use split_at_elements in auto)

lemma Join_hd: "es \<noteq> [] \<Longrightarrow> hd es \<noteq> [] \<Longrightarrow> strings_Join es sep \<noteq> [] \<and> hd (strings_Join es sep) = hd (hd es)"
  by (cases "(es, sep)" rule: strings_Join.cases) auto

lemma path_of_rooted: "clean_stack r st \<Longrightarrow> is_rooted (path_of r st @ ys) = r"
proof (cases "r \<or> st = []")
  case False
  assume st: "clean_stack r st"
  have l: "hd (rev st) \<in> set st" using False by (simp add: hd_rev)
  from clean_stack_plain [OF st l] have e: "hd (rev st) \<noteq> []" "slash \<notin> set (hd (rev st))" by auto
  have "strings_Join (rev st) [slash] \<noteq> []" "hd (strings_Join (rev st) [slash]) = hd (hd (rev st))"
    using Join_hd [of "rev st" "[slash]"] e(1) False by auto
  moreover have "hd (hd (rev st)) \<noteq> slash" using e by (metis hd_in_set)
  ultimately show ?thesis using False by (simp add: path_of_def is_rooted_def)
qed (auto simp: path_of_def is_rooted_def Let_def)

lemma path_of_fold: "clean_stack r st \<Longrightarrow> foldl (clean_step r) [] (split_at slash (path_of r st)) = st"
proof (cases "st = []")
  case False
  assume st: "clean_stack r st"
  have plain: "\<forall>e \<in> set (rev st). slash \<notin> set e" using clean_stack_plain [OF st] by simp
  have split: "split_at slash (strings_Join (rev st) [slash]) = rev st" using split_Join False plain by simp
  have ne: "strings_Join (rev st) [slash] \<noteq> []"
    using Join_hd [of "rev st" "[slash]"] clean_stack_plain [OF st, of "hd (rev st)"] False by (simp add: hd_rev)
  then show ?thesis using split clean_fold_same [OF st] by (cases r) (simp_all add: path_of_def clean_step_def)
qed (simp add: path_of_def clean_step_def)

lemma path_of_stack: "clean_stack r st \<Longrightarrow> path_stack (path_of r st) = st"
  using path_of_rooted [of r st "[]"] by (simp add: path_stack_def path_of_fold)

text \<open>Cleaning twice changes nothing more.\<close>

lemma Clean_idem: "filepath_Clean (filepath_Clean p) = filepath_Clean p"
  using path_of_rooted [OF path_stack_clean, of p "[]"] path_of_stack [OF path_stack_clean, of p]
  by (simp add: Clean_stack)

lemma Clean_nonempty: "filepath_Clean p \<noteq> []"
  by (simp add: filepath_Clean_def path_of_def Let_def)

lemma Clean_Join:
  assumes "slash \<notin> set f"
  shows "filepath_Clean (filepath_Clean d @ slash # f) = path_of (is_rooted d) (clean_step (is_rooted d) (path_stack d) f)"
proof -
  have r: "is_rooted (filepath_Clean d @ slash # f) = is_rooted d"
    using path_of_rooted [OF path_stack_clean] by (simp add: Clean_stack)
  show ?thesis
    using assms path_of_fold [OF path_stack_clean, of d]
    unfolding filepath_Clean_def [of "_ @ _"] r by (simp add: split_at_append split_at_plain Clean_stack)
qed

section \<open>Folder and file name\<close>

lemma after_upto: "upto_slash p @ after_slash p = p"
  by (simp add: upto_slash_def after_slash_def flip: rev_append)

lemma after_plain: "slash \<notin> set (after_slash p)"
  by (auto simp: after_slash_def dest: set_takeWhileD)

lemma upto_cases: "upto_slash p = [] \<or> (\<exists>q. upto_slash p = q @ [slash])"
proof (cases "dropWhile (\<lambda>c. c \<noteq> slash) (rev p)")
  case (Cons c cs)
  then have "c = slash" using hd_dropWhile [of "\<lambda>c. c \<noteq> slash" "rev p"] by fastforce
  then show ?thesis using Cons by (simp add: upto_slash_def)
qed (simp add: upto_slash_def)

lemma rooted_upto: "is_rooted (upto_slash p) = is_rooted p"
proof (cases "upto_slash p = []")
  case True
  then have "slash \<notin> set p" using after_upto [of p] after_plain [of p] by simp
  then show ?thesis using True by (cases p) (auto simp: is_rooted_def)
next
  case False
  then show ?thesis using after_upto [of p] by (metis hd_append2 is_rooted_def append_is_Nil_conv)
qed

lemma path_stack_upto: "path_stack p = clean_step (is_rooted p) (path_stack (upto_slash p)) (after_slash p)"
proof (cases "upto_slash p = []")
  case True
  then have "after_slash p = p" using after_upto [of p] by simp
  then show ?thesis
    using True after_plain [of p] rooted_upto [of p]
    by (simp add: path_stack_def split_at_plain clean_step_def)
next
  case False
  then obtain q where q: "upto_slash p = q @ [slash]" using upto_cases by blast
  have "p = q @ slash # after_slash p" using after_upto [of p] q by simp
  then have p: "split_at slash p = split_at slash q @ [after_slash p]"
    using split_at_append split_at_plain after_plain by metis
  have "split_at slash (q @ [slash]) = split_at slash q @ [[]]" using split_at_append [of slash q "[]"] by simp
  then show ?thesis using p rooted_upto [of p] q by (simp add: path_stack_def clean_step_def)
qed

lemma Join_Dir:
  "filepath_Join (filepath_Dir p) (after_slash p) = filepath_Clean p"
  using Clean_Join [OF after_plain, of "upto_slash p" p] Clean_nonempty
  by (simp add: filepath_Join_def filepath_Dir_def rooted_upto path_stack_upto [of p] Clean_stack [of p])

lemma Dir_dot: "after_slash p \<in> {[], ''.''} \<Longrightarrow> filepath_Dir p = filepath_Clean p"
  using path_stack_upto [of p] rooted_upto [of p] by (auto simp: filepath_Dir_def Clean_stack clean_step_def)

lemma Base_plain: "p \<noteq> [] \<Longrightarrow> last p \<noteq> slash \<Longrightarrow> filepath_Base p = after_slash p"
proof -
  assume p: "p \<noteq> []" "last p \<noteq> slash"
  then obtain c cs where c: "rev p = c # cs" "c \<noteq> slash" by (cases p rule: rev_cases) auto
  have "rev (c # cs) = p" unfolding c(1) [symmetric] by (rule rev_rev_ident)
  then have "rev (dropWhile (\<lambda>c. c = slash) (rev p)) = p" unfolding c(1) using c(2) by simp
  moreover have "after_slash p \<noteq> []" using c by (simp add: after_slash_def)
  ultimately show ?thesis using p by (simp add: filepath_Base_def Let_def)
qed

text \<open>C23: Splitting an output path into folder and file name and joining the two gives the same file as
  cleaning the path, when it does not end in a separator and neither part begins or ends with a blank.\<close>

theorem output_path_is_clean_path:
  assumes "TrimSpace p = p" "p \<noteq> []" "p \<noteq> ''Not chosen yet''" "last p \<noteq> slash"
    and "TrimSpace (filepath_Dir p) = filepath_Dir p" "TrimSpace (filepath_Base p) = filepath_Base p"
  shows "SuOutputPath (applyOutputPath p s) = filepath_Clean p"
proof -
  have d: "filepath_Dir p \<noteq> []" by (simp add: filepath_Dir_def Clean_nonempty)
  have b: "filepath_Base p = after_slash p" using assms(2,4) by (rule Base_plain)
  then have "filepath_Base p \<noteq> [slash]" using after_plain [of p] by auto
  moreover have "splitOutputPath p = (filepath_Dir p, if after_slash p = ''.'' then [] else after_slash p)"
    using assms(1-3) d b calculation by (simp add: splitOutputPath_def)
  moreover have "filepath_Clean (filepath_Dir p) = filepath_Clean p" if "after_slash p \<in> {[], ''.''}"
    using Dir_dot [OF that] Clean_idem by simp
  moreover have "TrimSpace [] = []" by (simp add: TrimSpace_def)
  ultimately show ?thesis
    using assms(5,6) d Join_Dir [of p] b by (auto simp: applyOutputPath_def syncOutputPath_def Let_def)
qed

theorem output_path_is_clean_path_witness:
  "\<forall>s. SuOutputPath (applyOutputPath ''/a/./b//disc.iso'' s) = ''/a/b/disc.iso''"
proof
  fix s
  have c: "filepath_Clean ''/a/./b//disc.iso'' = ''/a/b/disc.iso''" by code_simp
  have "TrimSpace ''/a/./b//disc.iso'' = ''/a/./b//disc.iso''" by code_simp
  moreover have "TrimSpace (filepath_Dir ''/a/./b//disc.iso'') = filepath_Dir ''/a/./b//disc.iso''" by code_simp
  moreover have "TrimSpace (filepath_Base ''/a/./b//disc.iso'') = filepath_Base ''/a/./b//disc.iso''" by code_simp
  ultimately show "SuOutputPath (applyOutputPath ''/a/./b//disc.iso'' s) = ''/a/b/disc.iso''"
    using output_path_is_clean_path [of "''/a/./b//disc.iso''" s] c by simp
qed

text \<open>A separator at the end makes the folder the name of the file too.\<close>

lemma trailing_separator_repeats_folder: "SuOutputPath (applyOutputPath ''out/'' s) = ''out/out''"
proof -
  have "splitOutputPath ''out/'' = (''out'', ''out'')" by code_simp
  moreover have "TrimSpace ''out'' = ''out''" "filepath_Join ''out'' ''out'' = ''out/out''" by code_simp+
  ultimately show ?thesis by (simp add: applyOutputPath_def syncOutputPath_def Let_def)
qed

end
