(* ===== verification/AppEdges.thy ===== *)
theory AppEdges
  imports AppSession
begin

text \<open>
  Single steps of the application at the edges of its pages: what a key or a message does there that
  the page does not show.
\<close>

section \<open>Selecting and ejecting\<close>

text \<open>Going back from the actions keeps their cursor, which then picks the drive, whichever is highlighted.\<close>

definition other_drive :: DeviceSummary where
  "other_drive = one_drive\<lparr>DsID := ''sr1'', DsPath := ''sr1''\<rparr>"

lemma cursor_of_actions_picks_drive:
  "let m = fst (the (run_messages plain_bubbles [DevicesDiscoveredMsg 1 [one_drive, other_drive] None, KeyPressMsg ''enter'',
      MediaIdentifiedMsg readable_disc, KeyPressMsg ''down'', KeyPressMsg ''esc'', KeyPressMsg ''enter''] (NewModel plain_bubbles)))
   in BlIndex plain_bubbles (MdDriveList m) = 0 \<and> MdSelectedDrive m = other_drive"
  by code_simp

text \<open>A drive that was chosen before is ejected, not the one under the cursor.\<close>

lemma eject_of_earlier_choice:
  "DsPath (MdSelectedDrive m) \<noteq> [] \<Longrightarrow> ejectTargetDrive (m\<lparr>MdCursor := c\<rparr>) = MdSelectedDrive m"
  by (simp add: ejectTargetDrive_def)

text \<open>Without a chosen drive a failed eject asks for the force eject, and confirming it requests nothing.\<close>

lemma force_eject_without_choice:
  assumes "DsPath (MdSelectedDrive m) = []" "EjMode r = EjectNormal"
  shows "\<exists>m1. updateMessage B (EjectCompletedMsg r d (Some e)) m = Some (m1, NoCmd) \<and> MdPage m1 = PageEjectConfirm \<and>
    MdPendingEject m1 = \<lparr>EjMode = EjectForce, EjExplicitConfirm = True\<rparr> \<and>
    handleSelect B m1 = Some ((go_to PageChooseDrive 0 m1)\<lparr>MdPendingEject := no_eject\<rparr>, NoCmd)"
  using assms
  by (simp add: updateMessage_def updateEjectCompleted_def setErrorNotice_def go_to_def handleSelect_def select_eject_def Let_def)

section \<open>Keys that are not taken\<close>

lemma force_key_of_lists:
  assumes "MdPage m \<in> {PageChooseDrive, PageChooseAction, PageResumeJobs, PageHistory, PageDetails}"
  shows "\<exists>m1. updateMessage B (KeyPressMsg ''ctrl+c'') m = Some (m1, WidgetCmd) \<and> MdPage m1 = MdPage m \<and> MdQuitting m1 = MdQuitting m"
proof -
  have "strings_ToLower ''ctrl+c'' = ''ctrl+c''" by code_simp
  then show ?thesis
    using assms by (auto simp: updateMessage_def updateKeyMessage_def matchesKey_def DefaultKeys_def updateDetailsKey_def Let_def)
qed

lemma advanced_key_goes_to_list:
  assumes "MdPage m = PageChooseAction"
  shows "\<exists>m1. updateMessage B (KeyPressMsg ''a'') m = Some (m1, WidgetCmd) \<and> MdPage m1 = PageChooseAction"
proof -
  have "strings_ToLower ''a'' = ''a''" by code_simp
  then show ?thesis
    using assms by (simp add: updateMessage_def updateKeyMessage_def matchesKey_def DefaultKeys_def Let_def)
qed

lemma back_key_without_previous:
  assumes "MdPage m \<in> {PageResumeJobs, PageHistory}" "MdPreviousPage m = PageDiscover"
  shows "updateMessage B (KeyPressMsg ''esc'') m = Some (m, NoCmd)"
proof -
  have "strings_ToLower ''esc'' = ''esc''" by code_simp
  then show ?thesis
    using assms by (auto simp: updateMessage_def updateKeyMessage_def handleKeyPress_def handleBack_def matchesKey_def
        DefaultKeys_def Let_def)
qed

section \<open>Messages\<close>

text \<open>The jobs that were found are not put into the list that shows them.\<close>

lemma resume_list_not_filled:
  "MdResumeList (fst (updateResumableJobsDiscovered i jobs err m)) = MdResumeList m"
  by (simp add: updateResumableJobsDiscovered_def setErrorNotice_def with_notice_def go_to_def Let_def split: option.split)

text \<open>A lookup that is answered late leaves whatever page is shown, that of a running recovery too.\<close>

lemma late_lookup_leaves_page:
  assumes "i = MdActiveLookupRequest m" "PvKind view = PriorProcessingStrongResumable" "jobs \<noteq> []"
  shows "\<exists>m1. updateMessage B (PriorProcessingLookupMsg i view records jobs None) m = Some (m1, NoCmd) \<and> MdPage m1 = PagePriorProcessing"
  using assms by (simp add: updateMessage_def updatePriorProcessingLookup_def with_notice_def go_to_def Let_def)

text \<open>A start that failed leaves the retry of unresolved sectors set for the next start.\<close>

lemma failed_start_keeps_retry:
  "\<exists>m1. updateMessage B (JobStartFailedMsg err) m = Some (m1, NoCmd) \<and> MdPage m1 = PageChooseOutput \<and>
     SuRetryUnresolved (MdSetup m1) = SuRetryUnresolved (MdSetup m)"
  by (simp add: updateMessage_def updateJobStartFailed_def setErrorNotice_def Let_def split: option.split)

text \<open>The unresolved sectors of a job that was stopped count the deferred ones of the snapshot, and the
  deferred ones that were shown once more.\<close>

lemma stopped_counts_deferred_twice:
  assumes "SnCanceled sn" "done_summary m0 sn = (x, err)"
  shows "\<exists>m1. updateMessage B (JobStoppedMsg x err) m = Some (m1, NoCmd) \<and>
    SmUnresolvedSectors (MdSummary (overlay_message (MdRecovery m) (JobStoppedMsg x err) m1)) =
      SnDeferredSectors sn + SnUnreadableSectors sn + RvDeferredSectors (MdRecovery m)"
proof -
  have x: "SmOutcome x = ''Recovery stopped''" "SmUnresolvedSectors x = SnDeferredSectors sn + SnUnreadableSectors sn" "err = None"
    using assms by (auto simp: done_summary_def Let_def)
  then show ?thesis
    by (simp add: updateMessage_def updateJobStopped_def overlay_message_def recovery_with_def finished_outcomes_def Let_def)
qed

end
