(* ===== verification/JobStart.thy ===== *)
theory JobStart
  imports JobProps
begin

text \<open>What starting a job does to the files that exist.\<close>

section \<open>Calls that change no file\<close>

lemma reads_Files:
  "os_Stat w p = (a1, w1) \<Longrightarrow> Files w1 = Files w" "os_Stat_size w p = (a1, w1) \<Longrightarrow> Files w1 = Files w"
  "os_SeekEnd w p = (a1, w1) \<Longrightarrow> Files w1 = Files w" "os_Open w p = (a2, w1) \<Longrightarrow> Files w1 = Files w"
  "make_folder w p = (a2, w1) \<Longrightarrow> Files w1 = Files w" "readAtExact w p n k = (a3, w1) \<Longrightarrow> Files w1 = Files w"
  "section_reader w p n k = (a4, w1) \<Longrightarrow> Files w1 = Files w" "os_Close w = (a2, w1) \<Longrightarrow> Files w1 = Files w"
  by (auto simp: os_Stat_def os_Stat_size_def os_SeekEnd_def os_Open_def make_folder_def os_MkdirAll_def readAtExact_def
      os_ReadAt_def section_reader_def os_Close_def Let_def split: prod.splits option.splits if_splits dest!: next_io_frame)

lemma readState_opened_Files: "readState_opened w p g = (r, w1) \<Longrightarrow> Files w1 = Files w"
  by (auto simp: readState_opened_def Let_def split: prod.splits sum.splits if_splits option.splits dest!: reads_Files)

lemma readState_Files: "readState w p g = (r, w1) \<Longrightarrow> Files w1 = Files w"
  using reads_Files(8) [OF prod.collapse [symmetric]]
  by (auto simp: readState_def split: prod.splits option.splits if_splits dest!: reads_Files readState_opened_Files)

lemma Inspect_Files: "Inspect w p g = (r, w1) \<Longrightarrow> Files w1 = Files w"
  by (auto simp: Inspect_def split: prod.splits sum.splits dest!: readState_Files)

lemma InspectRecoveryTarget_Files: "InspectRecoveryTarget_linux w i = (r, w1) \<Longrightarrow> Files w1 = Files w"
  by (auto simp: InspectRecoveryTarget_linux_def Let_def split: prod.splits sum.splits if_splits dest!: reads_Files Inspect_Files)


section \<open>Calls that change one file\<close>

lemma abort_Files: "abort w e = (r, w1) \<Longrightarrow> Files w1 = Files w"
  by (auto simp: abort_def split: prod.splits dest!: reads_Files)

lemma abortCreate_other: "abortCreate w s e = (r, w1) \<Longrightarrow> q \<noteq> path s \<Longrightarrow> Files w1 q = Files w q"
  by (auto simp: abortCreate_def os_Remove_def Let_def split: prod.splits option.splits if_splits dest!: next_io_frame reads_Files)

lemma Open_other: "Open w p g = (r, w1) \<Longrightarrow> q \<noteq> p \<Longrightarrow> Files w1 q = Files w q"
  by (auto simp: Open_def Let_def split: prod.splits sum.splits option.splits if_splits
      dest!: reads_Files readState_Files abort_Files writeAt_other [where q = q] os_Sync_frame)

lemma create_excl_cases:
  "os_Create_excl w p = (e, w1) \<Longrightarrow> (Files w1 = Files w \<and> e \<noteq> None) \<or> (Files w p = None \<and> Files w1 = (Files w)(p := Some []))"
  by (auto simp: os_Create_excl_def split: prod.splits option.splits if_splits dest!: next_io_frame)

lemma Create_keeps:
  assumes "Create w p h = (r, w1)" "Files w q = Some bs"
  shows "Files w1 q = Some bs"
proof (cases "q = p")
  case True
  obtain e w2 where c: "os_Create_excl w p = (e, w2)" by force
  then have "Files w2 = Files w" "e \<noteq> None" using create_excl_cases [OF c] assms(2) True by auto
  then show ?thesis using assms c by (auto simp: Create_def Let_def split: option.splits sum.splits)
next
  case False
  have "Files w1 q = Files w q"
    using assms(1) False
    by (auto simp: Create_def Let_def split: option.splits sum.splits prod.splits dest!: create_excl_cases reads_Files
        os_Sync_frame writeAt_other [where q = q] abortCreate_other [where q = q])
  then show ?thesis using assms(2) by simp
qed

lemma rollback_one: "Rollback w (TrackCreated new_transaction p) = (e, w1) \<Longrightarrow> q \<noteq> p \<Longrightarrow> Files w1 q = Files w q"
  by (auto simp: Rollback_def TrackCreated_def new_transaction_def os_Remove_def split: prod.splits option.splits if_splits
      dest!: next_io_frame)

lemma truncate_other: "os_Truncate w p n = (e, w1) \<Longrightarrow> q \<noteq> p \<Longrightarrow> Files w1 q = Files w q"
  by (auto simp: os_Truncate_def put_file_def split: prod.splits option.splits if_splits dest!: next_io_frame)

lemma create_target_keeps:
  assumes "create_target_linux w t mp i = (r, w1)" "Files w q = Some bs"
  shows "Files w1 q = Some bs"
proof -
  obtain e2 w2 where m: "make_folder w (InOutputPath i) = (e2, w2)" by force
  obtain e3 w3 where c: "os_Create_excl w2 (InOutputPath i) = (e3, w3)" by force
  have f2: "Files w2 q = Some bs" using assms(2) reads_Files(5) [OF m] by simp
  show ?thesis
  proof (cases "e2 = None \<and> e3 = None")
    case False
    then show ?thesis using assms m c f2 create_excl_cases [OF c]
      by (auto simp: create_target_linux_def split: option.splits)
  next
    case True
    then have ne: "q \<noteq> InOutputPath i" "Files w3 q = Some bs" using create_excl_cases [OF c] f2 by auto
    obtain e4 w4 where tr: "os_Truncate w3 (InOutputPath i) (image_bytes i) = (e4, w4)" by force
    obtain e5 w5 where cl: "os_Close w4 = (e5, w5)" by force
    have f5: "Files w4 q = Some bs" "Files w5 q = Some bs"
      using truncate_other [OF tr ne(1)] reads_Files(8) [OF cl] ne(2) by simp_all
    have rb: "Files (snd (Rollback v (TrackCreated new_transaction (InOutputPath i)))) q = Some bs"
      if "Files v q = Some bs" for v
      using rollback_one [OF prod.collapse [symmetric] ne(1)] that by simp
    show ?thesis
      using assms(1) m c True tr cl f5 rb Create_keeps [of w5 mp _ _ _ q bs]
      by (auto simp: create_target_linux_def Let_def split: option.splits sum.splits prod.splits)
  qed
qed

lemma stat_found: "os_Stat w p = (Inr n, w1) \<Longrightarrow> Files w p \<noteq> None"
  by (auto simp: os_Stat_def split: prod.splits option.splits if_splits dest!: next_io_frame)

lemma target_map_path: "InspectRecoveryTarget_linux w i = (Inr st, w1) \<Longrightarrow>
    TsMapPath st = linuxRecoveryMapPath (InOutputPath i) \<and> (TsCanResume st \<longrightarrow> Files w (InOutputPath i) \<noteq> None)"
  by (auto simp: InspectRecoveryTarget_linux_def target_status_def found_def Let_def
      split: prod.splits sum.splits if_splits dest: stat_found)

section \<open>Opening a map\<close>

lemma readAtExact_Inr:
  assumes "readAtExact w p off n = (Inr d, w1)"
  shows "d = take n (drop off (contents w p)) \<and> length d = n \<and> Files w1 = Files w"
proof -
  obtain data er w2 where r: "os_ReadAt w p off n = ((data, er), w2)" by (metis prod.exhaust)
  have d: "er = None" "length data = n" "d = data" "w2 = w1"
    using assms r by (auto simp: readAtExact_def split: option.splits if_splits)
  obtain a w3 where a: "next_io w = (a, w3)" by force
  have f: "Files w3 = Files w" using next_io_frame [OF a] by simp
  then have "data = take (transferred a n) (drop off (contents w p))" "Files w2 = Files w"
    using r a by (auto simp: os_ReadAt_def Let_def contents_def)
  moreover have "transferred a n \<le> n" by (cases a) simp_all
  ultimately show ?thesis using d by (metis min.absorb2 take_take take_all_iff length_take min_def le_antisym)
qed

text \<open>The header that is read is the one in the first 135 bytes.\<close>

lemma UnmarshalHeader_Inr:
  assumes "UnmarshalHeader bs = Inr h"
  shows "135 \<le> length bs" "unat (le_get (slice 6 8 bs) :: u16) = 135" "header_typed h"
  using assms by (auto simp: UnmarshalHeader_def headerLength_def header_typed_def Let_def split: if_splits option.splits)

lemma slice_of_take: "j \<le> n \<Longrightarrow> slice i j (take n bs) = slice i j bs"
  by (simp add: slice_def drop_take diff_le_mono min_absorb1)

lemma readState_header:
  assumes "readState w p g = (Inr (hdr, c), w1)"
  shows "UnmarshalHeader (take 135 (contents w p)) = Inr hdr \<and> 135 \<le> length (contents w p)"
proof -
  obtain w2 where o: "os_Open w p = (None, w2)" "fst (readState_opened w2 p g) = Inr (hdr, c)"
    using assms by (auto simp: readState_def split: if_splits prod.splits option.splits)
  obtain size w3 where st: "os_Stat_size w2 p = (Inr size, w3)"
    using o(2) by (auto simp: readState_opened_def split: prod.splits sum.splits)
  have f: "contents w3 p = contents w p" using reads_Files(2) [OF st] reads_Files(4) [OF o(1)] by (simp add: contents_def)
  obtain prefix w4 hb w5 where r: "readAtExact w3 p 0 8 = (Inr prefix, w4)"
      "readAtExact w4 p 0 (unat (le_get (slice 6 8 prefix) :: u16)) = (Inr hb, w5)" "UnmarshalHeader hb = Inr hdr"
    using o(2) st by (auto simp: readState_opened_def Let_def split: prod.splits sum.splits if_splits)
  note pre = readAtExact_Inr [OF r(1)]
  then have f4: "contents w4 p = contents w p" using f by (simp add: contents_def)
  note hd = readAtExact_Inr [OF r(2)] UnmarshalHeader_Inr [OF r(3)]
  let ?n = "unat (le_get (slice 6 8 prefix) :: u16)"
  have "hb = take ?n (contents w p)" "8 \<le> ?n" using hd(1,2) f4 by simp_all
  moreover have "prefix = take 8 (contents w p)" using pre f by simp
  ultimately have "slice 6 8 hb = slice 6 8 prefix" by (metis slice_of_take order_refl)
  then have "unat (le_get (slice 6 8 prefix) :: u16) = 135" using hd(3) by simp
  then show ?thesis using hd(1,2) r(3) f4 by auto
qed

text \<open>A map that was marked as in use: of its header as it would be written with that mark,
  the first bytes have replaced those of the file.\<close>

definition marked :: "bytes \<Rightarrow> bytes \<Rightarrow> bool" where
  "marked bs bs1 \<longleftrightarrow> (\<exists>hdr hb n. UnmarshalHeader (take 135 bs) = Inr hdr \<and>
     MarshalHeader (hdr\<lparr>CleanShutdown := False\<rparr>) = Inr hb \<and> n \<le> 135 \<and> bs1 = take n hb @ drop n bs)"

lemma writeAt_start:
  assumes "writeAt w s 0 data = (e, w1)"
  shows "\<exists>n \<le> length data. Files w1 (path s) = Some (take n data @ drop n (contents w (path s)))"
proof -
  obtain a w2 where a: "next_io w = (a, w2)" by force
  have "contents w2 (path s) = contents w (path s)" using next_io_frame [OF a] by (simp add: contents_def)
  then have "Files w1 (path s) = Some (overwrite 0 (take (transferred a (length data)) data) (contents w (path s)))"
    using assms a by (auto simp: writeAt_def os_WriteAt_def Let_def put_file_def split: option.splits if_splits)
  moreover have "transferred a (length data) \<le> length data" by (cases a) simp_all
  ultimately show ?thesis
    by (intro exI [of _ "transferred a (length data)"]) (auto simp: overwrite_def)
qed

lemma Open_this:
  assumes "Open w p g = (r, w1)" "Files w p = Some bs"
  shows "Files w1 p = Some bs \<or> (135 \<le> length bs \<and> (\<exists>bs1. Files w1 p = Some bs1 \<and> marked bs bs1))"
proof (cases "Files w1 = Files w")
  case False
  obtain r2 w2 where rs: "readState w p g = (r2, w2)" by force
  note f2 = readState_Files [OF rs]
  obtain hdr c where h: "r2 = Inr (hdr, c)" "LastSequence c \<noteq> - 1" and g: "GeomSectorSize g \<noteq> 0 \<and> GeomSectorCount g \<noteq> 0"
    using assms(1) rs f2 False by (cases r2) (auto simp: Open_def split: if_splits)
  obtain e3 w3 where o: "os_Open w2 p = (e3, w3)" by force
  note f3 = reads_Files(4) [OF o]
  obtain r4 w4 where sk: "os_SeekEnd w3 p = (r4, w4)" by force
  note f4 = reads_Files(3) [OF sk]
  obtain pos where ok: "e3 = None" "r4 = Inr pos"
    using assms(1) rs h g o f2 f3 f4 sk False
    by (cases e3; cases r4) (auto simp: Open_def dest!: abort_Files split: if_splits)
  let ?s = "\<lparr>path = p, handle = Some pos, header = hdr\<lparr>CleanShutdown := False\<rparr>, extents = Extents c,
      durableExtents = Extents c, nextSequence = LastSequence c + 1, pendingBytes = 0, pendingRecords = [],
      closed = False\<rparr>"
  obtain hb where m: "MarshalHeader (hdr\<lparr>CleanShutdown := False\<rparr>) = Inr hb"
    using assms(1) rs h g o ok f2 f3 f4 sk False
    by (cases "MarshalHeader (hdr\<lparr>CleanShutdown := False\<rparr>)") (auto simp: Open_def Let_def dest!: abort_Files split: if_splits)
  obtain e5 w5 where wr: "writeAt w4 ?s 0 hb = (e5, w5)" by force
  have u: "UnmarshalHeader (take 135 bs) = Inr hdr" "135 \<le> length bs"
    using readState_header [of w p g hdr c w2] rs h assms(2) by (simp_all add: contents_def)
  have "header_typed (hdr\<lparr>CleanShutdown := False\<rparr>)" using UnmarshalHeader_Inr(3) [OF u(1)] by (simp add: header_typed_def)
  then have "length hb = 135" using MarshalHeader_length m by (simp add: headerLength_def)
  then obtain n where n: "n \<le> 135" "Files w5 p = Some (take n hb @ drop n bs)"
    using writeAt_start [OF wr] f2 f3 f4 assms(2) by (auto simp: contents_def)
  have "Files w1 p = Files w5 p"
    using assms(1) rs h g o ok sk m wr
    by (auto simp: Open_def Let_def dest!: abort_Files os_Sync_frame split: option.splits prod.splits if_splits)
  then show ?thesis using n u m by (auto simp: marked_def)
qed (use assms(2) in simp)

lemma marked_keeps:
  assumes "marked bs bs1" "135 \<le> length bs"
  shows "length bs1 = length bs \<and> drop 135 bs1 = drop 135 bs"
proof -
  obtain hdr hb n where m: "UnmarshalHeader (take 135 bs) = Inr hdr" "MarshalHeader (hdr\<lparr>CleanShutdown := False\<rparr>) = Inr hb"
      "n \<le> 135" "bs1 = take n hb @ drop n bs"
    using assms(1) by (auto simp: marked_def)
  have "header_typed (hdr\<lparr>CleanShutdown := False\<rparr>)" using UnmarshalHeader_Inr(3) [OF m(1)] by (simp add: header_typed_def)
  then have "length hb = 135" using MarshalHeader_length m(2) by (simp add: headerLength_def)
  then show ?thesis using m(3,4) assms(2) by simp
qed

text \<open>
  C5: Starting a recovery destroys no file. Whatever the calls of the disk answer and however the
  start ends, every file that existed before is there with its bytes, the image at the output path
  first of all. The one exception is the map of an existing image, which a resumed recovery marks as
  in use: it is not truncated, every byte behind its header of 135 bytes stays, and of the header
  some first part is replaced by that of the same header with the mark of a clean end
  removed.
\<close>

theorem start_keeps_files:
  assumes "StartImageRecovery_linux w t i = (r, w1)" "Files w q = Some bs"
  shows "Files w1 q = Some bs \<or>
    (q = linuxRecoveryMapPath (InOutputPath i) \<and> Files w (InOutputPath i) \<noteq> None \<and>
     (\<exists>hdr hb n bs1. UnmarshalHeader (take 135 bs) = Inr hdr \<and> MarshalHeader (hdr\<lparr>CleanShutdown := False\<rparr>) = Inr hb \<and>
        n \<le> 135 \<and> Files w1 q = Some bs1 \<and> bs1 = take n hb @ drop n bs \<and>
        length bs1 = length bs \<and> drop 135 bs1 = drop 135 bs))"
proof -
  obtain r2 w2 where o: "openLinuxRecoveryMap w t i = (r2, w2)" by force
  obtain r3 w3 where n: "InspectRecoveryTarget_linux w i = (r3, w3)" by force
  have f3: "Files w3 = Files w" using InspectRecoveryTarget_Files [OF n] .
  have "Files w1 q = Files w q \<or> Files w1 q = Files w2 q"
    using assms(1) o by (auto simp: StartImageRecovery_linux_def Start_def NewLifecycle_def
        split: if_splits sum.splits prod.splits option.splits)
  moreover have "Files w2 q = Some bs \<or>
      (q = linuxRecoveryMapPath (InOutputPath i) \<and> Files w (InOutputPath i) \<noteq> None \<and>
        135 \<le> length bs \<and> (\<exists>bs1. Files w2 q = Some bs1 \<and> marked bs bs1))"
  proof (cases "\<exists>st. r3 = Inr st \<and> \<not> TsCanStartNew st \<and> TsCanResume st")
    case True
    then obtain st where st: "r3 = Inr st" "\<not> TsCanStartNew st" "TsCanResume st" by blast
    obtain r4 w4 where op: "Open w3 (TsMapPath st) (input_geometry i) = (r4, w4)" by force
    have "Files w4 = Files w2" using o n st op by (auto simp: openLinuxRecoveryMap_def split: sum.splits prod.splits)
    then show ?thesis
      using target_map_path [of w i st w3] n st Open_other [OF op, of q] Open_this [OF op, of bs] f3 assms(2) by auto
  next
    case False
    then have "Files w2 q = Some bs"
      using o n f3 assms(2) create_target_keeps [of w3 t _ i _ _ q bs]
      by (auto simp: openLinuxRecoveryMap_def split: sum.splits if_splits prod.splits)
    then show ?thesis by blast
  qed
  ultimately show ?thesis using assms(2) marked_keeps unfolding marked_def by metis
qed

theorem start_keeps_files_witness:
  "\<exists>r w1. StartImageRecovery_linux ((put_file empty_world ''/d/disc.iso'' [7])\<lparr>Script := [Io 0 (Some ErrNotExist)]\<rparr>) 0
      sample_input = (r, w1) \<and> Files w1 ''/d/disc.iso'' = Some [7]"
proof -
  let ?w = "(put_file empty_world ''/d/disc.iso'' [7])\<lparr>Script := [Io 0 (Some ErrNotExist)]\<rparr>"
  obtain r w1 where s: "StartImageRecovery_linux ?w 0 sample_input = (r, w1)" by force
  have "Files ?w ''/d/disc.iso'' = Some [7]" by simp
  moreover have "''/d/disc.iso'' \<noteq> linuxRecoveryMapPath (InOutputPath sample_input)"
    by (simp add: sample_input_def sample_map_path)
  ultimately show ?thesis using start_keeps_files [OF s] s by blast
qed

text \<open>A new image that cannot be brought to its length is left behind, empty, and a later start at
  its path is refused.\<close>

lemma failed_truncate_blocks_path:
  defines "w \<equiv> empty_world\<lparr>Script := [IoOk, IoOk, IoOk, IoOk, Io 0 (Some (ErrIO ''no space left on device''))]\<rparr>"
  shows "\<exists>w1 st. StartImageRecovery_linux w 0 sample_input = (Inl (ErrIO ''no space left on device''), w1) \<and>
    InspectRecoveryTarget_linux w1 sample_input = (Inr st, w1) \<and> \<not> TsCanStartNew st \<and> \<not> TsCanResume st"
proof -
  have d: "filepath_Dir ''/d/disc.iso'' = ''/d''" by code_simp
  have p: "\<exists>policy. PolicyForMethod RecoveryMethodBalanced = Inr policy"
    using new_policy [OF sample_request] by (auto simp: method_of_def sample_input_def)
  show ?thesis
    using p by (auto simp: w_def StartImageRecovery_linux_def openLinuxRecoveryMap_def create_target_linux_def
        InspectRecoveryTarget_linux_def target_status_def os_Stat_def os_Create_excl_def os_Truncate_def os_Close_def
        make_folder_def os_MkdirAll_def next_io_def missing_def found_def no_output_def method_of_def sample_input_def
        empty_world_def sample_map_path d put_file_def Let_def)
qed

text \<open>What the application says of a cancelled job hides the error of its closing.\<close>

lemma canceled_hides_error:
  "SnCanceled sn \<Longrightarrow> SmNextAction (fst (done_summary m sn)) = ''The image and recovery map are safe to resume later.'' \<and>
     snd (done_summary m sn) = None"
  by (simp add: done_summary_def Let_def)

end
