(* ===== verification/JobNative.thy ===== *)
theory JobNative
  imports Job
begin

text \<open>
  The recovery jobs on Windows and macOS (\<^verbatim>\<open>internal/platform\<close>: the files named
  \<^verbatim>\<open>recovery_*_windows.go\<close> and \<^verbatim>\<open>recovery_*_darwin.go\<close>). They differ from the Linux
  job in what they ask of a target, in what they undo when a start fails, and in how they end. How
  opening the device before a start ends is the argument \<open>preflight\<close>; the answer of the system to
  the question for free space is the argument \<open>space\<close>. Paths have slashes.
\<close>

section \<open>The target\<close>

definition recoveryMapPath :: "string \<Rightarrow> string" where
  "recoveryMapPath p = (if HasSuffix p ''.iso'' then TrimSuffix p ''.iso'' @ ''.drmap'' else p @ ''.drmap'')"

definition darwinRecoveryMapPath :: "string \<Rightarrow> string" where
  "darwinRecoveryMapPath p = (if HasSuffix p ''.iso'' then TrimSuffix p ''.iso'' @ ''.drmap'' else p @ ''.drmap'')"

fun required_loop :: "u64 \<Rightarrow> Extent list \<Rightarrow> u32 \<Rightarrow> u64 result" where
  "required_loop required [] sectorSize = Inr required"
| "required_loop required (e # es) sectorSize =
     (if \<not> recoveryStateHasData (State e) then required_loop required es sectorSize
      else (case CheckedEndLBA e of
        Inl er \<Rightarrow> Inl er
      | Inr endLBA \<Rightarrow>
     (case CheckedSectorByteOffset endLBA sectorSize of
        Inl er \<Rightarrow> Inl er
      | Inr b \<Rightarrow> required_loop (if b > required then b else required) es sectorSize)))"

definition required_image_bytes :: "Extent list \<Rightarrow> u32 \<Rightarrow> u64 result" where
  "required_image_bytes es sectorSize = required_loop 0 es sectorSize"

text \<open>\<open>absolute\<close> is the absolute path, \<open>volume\<close> the name of its volume, \<open>encode\<close> the conversion of the
  root for the system and \<open>free\<close> the free bytes of a root.\<close>

definition availableBytesForOutputPath ::
  "string result \<Rightarrow> (string \<Rightarrow> string) \<Rightarrow> (string \<Rightarrow> error option) \<Rightarrow> (string \<Rightarrow> u64 result) \<Rightarrow> u64 \<times> bool \<times> error option" where
  "availableBytesForOutputPath absolute volume encode free =
     (case absolute of
        Inl e \<Rightarrow> (0, False, Some (Wrapf ''resolve output path'' e))
      | Inr p \<Rightarrow>
        if volume p = [] then (0, False, None)
        else let root = volume p @ [CHR 0x5C] in
     (case encode root of
        Some e \<Rightarrow> (0, False, Some (Wrapf ''encode output root'' e))
      | None \<Rightarrow>
     (case free root of
        Inl e \<Rightarrow> (0, False, Some (Wrapf ''check free space'' e))
      | Inr n \<Rightarrow> (n, True, None))))"

definition formatUint :: "u64 \<Rightarrow> string" where
  "formatUint n = itoa (unat n)"

text \<open>The same function as the one of the application.\<close>

definition formatBytes :: "u64 \<Rightarrow> string" where
  "formatBytes n = humanBytes n"

definition resume_windows ::
  "RecoveryTargetStatus \<Rightarrow> ('a RecoveryInput_scheme) \<Rightarrow> nat \<Rightarrow> Extent list \<Rightarrow> RecoveryTargetStatus result" where
  "resume_windows st i outSize es =
     (case required_image_bytes es (InLogicalSectorSize i) of
        Inl e \<Rightarrow> Inl (Wrapf ''inspect recovery target: calculate durable image length'' e)
      | Inr required \<Rightarrow>
        if required > of_nat outSize then Inl (Errorf ''inspect recovery target: image is smaller than the durable recovery map'')
        else (case summarizeRecoveryExtentStates es of (scanned, recovered, deferred, unreadable) \<Rightarrow>
          Inr (st\<lparr>TsCanResume := True, TsRecoveredSectors := recovered, TsDeferredSectors := deferred,
             TsUnreadableSectors := unreadable, TsRequiredBytes := required,
             TsDetail := ''Resume recovery from '' @ formatUint recovered @ '' recovered sectors, '' @
               formatUint deferred @ '' deferred sectors, and '' @ formatUint unreadable @ '' unreadable sectors.''\<rparr>)))"

definition InspectRecoveryTarget_windows ::
  "u64 \<times> bool \<times> error option \<Rightarrow> World \<Rightarrow> ('a RecoveryInput_scheme) \<Rightarrow> RecoveryTargetStatus result \<times> World" where
  "InspectRecoveryTarget_windows space w i =
     (if no_output (InOutputPath i) then (Inl (Errorf ''inspect recovery target: output path is not configured''), w)
      else let mapPath = recoveryMapPath (InOutputPath i); out = InOutputPath i in
      (case space of (available, known, spaceErr) \<Rightarrow>
      let st = (target_status mapPath i)\<lparr>TsAvailableBytes := available, TsSpaceKnown := known \<and> spaceErr = None\<rparr> in
      (case os_Stat w out of (outputStat, w1) \<Rightarrow>
      (case os_Stat w1 mapPath of (mapStat, w2) \<Rightarrow>
        if missing outputStat \<and> missing mapStat then
          if spaceErr = None \<and> known \<and> available < image_bytes i then
            (Inr (st\<lparr>TsSpaceKnown := True,
               TsDetail := ''The selected output drive does not have enough free space for this image. Need '' @
                 formatBytes (image_bytes i) @ '' and only '' @ formatBytes available @ '' are free. Choose another output path.''\<rparr>), w2)
          else (Inr (st\<lparr>TsCanStartNew := True, TsDetail := ''A new recovery will be created at this path.''\<rparr>), w2)
        else (case (outputStat, mapStat) of
          (Inr outSize, Inr _) \<Rightarrow>
            (case Inspect w2 mapPath (input_geometry i) of
               (Inl e, w3) \<Rightarrow> (Inl (Wrapf ''inspect recovery target: load recovery map'' e), w3)
             | (Inr (hdr, es), w3) \<Rightarrow> (resume_windows st i outSize es, w3))
        | (Inr outSize, Inl e) \<Rightarrow>
            if errors_Is e ErrNotExist then
              (Inr (st\<lparr>TsDetail := ''Output image '' @ out @ '' already exists without '' @ mapPath @ ''. Choose another output path.''\<rparr>), w2)
            else (Inl (Wrapf ''inspect recovery target: check recovery map'' e), w2)
        | (Inl e, _) \<Rightarrow>
            if errors_Is e ErrNotExist then
              (case mapStat of
                 Inr _ \<Rightarrow> (Inr (st\<lparr>TsDetail := ''Recovery map '' @ mapPath @ '' exists without image '' @ out @ ''. Choose another output path.''\<rparr>), w2)
               | Inl me \<Rightarrow> (Inl (Wrapf ''inspect recovery target: check recovery map'' me), w2))
            else (Inl (Wrapf ''inspect recovery target: check output image'' e), w2))))))"

definition resume_darwin ::
  "RecoveryTargetStatus \<Rightarrow> ('a RecoveryInput_scheme) \<Rightarrow> nat \<Rightarrow> Extent list \<Rightarrow> RecoveryTargetStatus result" where
  "resume_darwin st i outSize es =
     (case required_image_bytes es (InLogicalSectorSize i) of
        Inl e \<Rightarrow> Inl (Wrapf ''inspect recovery target: calculate durable image length'' e)
      | Inr required \<Rightarrow>
        if required > of_nat outSize then Inl (Errorf ''inspect recovery target: image is smaller than the durable recovery map'')
        else (case summarizeRecoveryExtentStates es of (scanned, recovered, deferred, unreadable) \<Rightarrow>
          Inr (st\<lparr>TsCanResume := True, TsRecoveredSectors := recovered, TsDeferredSectors := deferred,
             TsUnreadableSectors := unreadable,
             TsDetail := ''Resume recovery from '' @ itoa (unat recovered) @ '' recovered sectors, '' @
               itoa (unat deferred) @ '' deferred sectors, and '' @ itoa (unat unreadable) @ '' unreadable sectors.''\<rparr>)))"

definition InspectRecoveryTarget_darwin :: "World \<Rightarrow> ('a RecoveryInput_scheme) \<Rightarrow> RecoveryTargetStatus result \<times> World" where
  "InspectRecoveryTarget_darwin w i =
     (if no_output (InOutputPath i) then (Inl (Errorf ''inspect recovery target: output path is not configured''), w)
      else let mapPath = darwinRecoveryMapPath (InOutputPath i); out = InOutputPath i; st = target_status mapPath i in
      (case os_Stat w out of (outputStat, w1) \<Rightarrow>
      (case os_Stat w1 mapPath of (mapStat, w2) \<Rightarrow>
        if missing outputStat \<and> missing mapStat then
          (Inr (st\<lparr>TsCanStartNew := True, TsDetail := ''A new recovery will be created at this path.''\<rparr>), w2)
        else if found outputStat \<and> found mapStat then
          (case Inspect w2 mapPath (input_geometry i) of
             (Inl e, w3) \<Rightarrow> (Inl (Wrapf ''inspect recovery target: load recovery map'' e), w3)
           | (Inr (hdr, es), w3) \<Rightarrow> (resume_darwin st i (case outputStat of Inr outSize \<Rightarrow> outSize | Inl _ \<Rightarrow> 0) es, w3))
        else if found outputStat \<and> missing mapStat then
          (Inr (st\<lparr>TsDetail := ''Output image '' @ out @ '' already exists without '' @ mapPath @ ''. Choose another output path.''\<rparr>), w2)
        else if missing outputStat \<and> found mapStat then
          (Inr (st\<lparr>TsDetail := ''Recovery map '' @ mapPath @ '' exists without image '' @ out @ ''. Choose another output path.''\<rparr>), w2)
        else (Inl (Errorf ''inspect recovery target: check output and map''), w2))))"

section \<open>Starting\<close>

definition rawVolumePath :: "string \<Rightarrow> string" where
  "rawVolumePath root =
     (let bs = CHR 0x5C; r = TrimSuffix (TrimSpace root) [bs]
      in if HasPrefix r [bs, bs, CHR ''.'', bs] then r else [bs, bs, CHR ''.'', bs] @ r)"

text \<open>\<open>opened\<close> says how opening a path ends and \<open>closing\<close> how closing the handle does;
  \<^verbatim>\<open>preflightDarwinSource\<close> gets the path with the device's name normalized.\<close>

definition preflightWindowsSource :: "(string \<Rightarrow> error option) \<Rightarrow> error option \<Rightarrow> string \<Rightarrow> error option" where
  "preflightWindowsSource opened closing devicePath =
     (case opened (rawVolumePath devicePath) of
        Some e \<Rightarrow> Some (Wrapf ''preflight source volume'' e)
      | None \<Rightarrow> map_option (Wrapf ''preflight source volume: close'') closing)"

definition preflightDarwinSource :: "string result \<Rightarrow> (string \<Rightarrow> error option) \<Rightarrow> error option \<Rightarrow> error option" where
  "preflightDarwinSource rawPath opened closing =
     (case rawPath of
        Inl e \<Rightarrow> Some (Wrapf ''preflight macOS optical source'' e)
      | Inr p \<Rightarrow>
     (case opened p of
        Some e \<Rightarrow> Some (Wrapf ''preflight macOS optical source read-only'' e)
      | None \<Rightarrow> map_option (Wrapf ''preflight macOS optical source: close'') closing))"

definition prepareWindowsOutput ::
  "World \<Rightarrow> ('a RecoveryInput_scheme) \<Rightarrow> StartupTransaction \<Rightarrow> error option \<times> StartupTransaction \<times> World" where
  "prepareWindowsOutput w i t =
     (case (if filepath_Dir (InOutputPath i) \<noteq> [] \<and> filepath_Dir (InOutputPath i) \<noteq> ''.''
            then os_MkdirAll w (filepath_Dir (InOutputPath i)) else (None, w)) of
        (Some e, w1) \<Rightarrow> (Some (Wrapf ''create output directory'' e), t, w1)
      | (None, w1) \<Rightarrow>
     (case os_Create_excl w1 (InOutputPath i) of
        (Some e, w2) \<Rightarrow> (Some (Wrapf ''create output image'' e), t, w2)
      | (None, w2) \<Rightarrow>
        let t1 = TrackCreated t (InOutputPath i) in
     (case os_Truncate w2 (InOutputPath i) (image_bytes i) of
        (Some e, w3) \<Rightarrow> (Some (Wrapf ''prepare output image'' e), t1, snd (os_Close w3))
      | (None, w3) \<Rightarrow>
     (case os_Close w3 of
        (Some e, w4) \<Rightarrow> (Some (Wrapf ''close prepared output image'' e), t1, w4)
      | (None, w4) \<Rightarrow> (None, t1, w4)))))"

definition prepareDarwinOutput ::
  "World \<Rightarrow> ('a RecoveryInput_scheme) \<Rightarrow> StartupTransaction \<Rightarrow> error option \<times> StartupTransaction \<times> World" where
  "prepareDarwinOutput w i t =
     (case make_folder w (InOutputPath i) of
        (Some e, w1) \<Rightarrow> (Some (Wrapf ''create output directory'' e), t, w1)
      | (None, w1) \<Rightarrow>
     (case os_Create_excl w1 (InOutputPath i) of
        (Some e, w2) \<Rightarrow> (Some (Wrapf ''create output image'' e), t, w2)
      | (None, w2) \<Rightarrow>
        let t1 = TrackCreated t (InOutputPath i) in
     (case os_Truncate w2 (InOutputPath i) (image_bytes i) of
        (Some e, w3) \<Rightarrow> (Some (Wrapf ''prepare output image'' e), t1, snd (os_Close w3))
      | (None, w3) \<Rightarrow>
     (case os_Close w3 of
        (Some e, w4) \<Rightarrow> (Some (Wrapf ''close prepared output image'' e), t1, w4)
      | (None, w4) \<Rightarrow> (None, t1, w4)))))"

definition createRecoveryMapState :: "World \<Rightarrow> u64 \<Rightarrow> JobInput \<Rightarrow> string \<Rightarrow> Store result \<times> World" where
  "createRecoveryMapState w unixNano i mapPath =
     (case recoveryMapHeader (InLogicalSectorSize i) (InCapacitySectors i) unixNano (InBinding i) of
        Inl e \<Rightarrow> (Inl e, w)
      | Inr h \<Rightarrow> Create w mapPath h)"

definition loadRecoveryMapState :: "World \<Rightarrow> ('a RecoveryInput_scheme) \<Rightarrow> string \<Rightarrow> Store result \<times> World" where
  "loadRecoveryMapState w i mapPath = Open w mapPath (input_geometry i)"

text \<open>The branch of a new recovery; \<open>prepare\<close> is the function that makes the image.\<close>

definition start_new ::
  "(World \<Rightarrow> JobInput \<Rightarrow> StartupTransaction \<Rightarrow> error option \<times> StartupTransaction \<times> World) \<Rightarrow>
   World \<Rightarrow> u64 \<Rightarrow> JobInput \<Rightarrow> string \<Rightarrow> (Store \<times> bool) result \<times> World" where
  "start_new prepare w unixNano i mapPath =
     (case prepare w i new_transaction of
        (Some e, t, w1) \<Rightarrow> (Inl e, snd (Rollback w1 t))
      | (None, t, w1) \<Rightarrow>
     (case createRecoveryMapState w1 unixNano i mapPath of
        (Inl e, w2) \<Rightarrow> (Inl e, snd (Rollback w2 t))
      | (Inr s, w2) \<Rightarrow> (Inr (s, False), w2)))"

definition resume_existing :: "World \<Rightarrow> JobInput \<Rightarrow> string \<Rightarrow> (Store \<times> bool) result \<times> World" where
  "resume_existing w i mapPath =
     (case loadRecoveryMapState w i mapPath of
        (Inl e, w1) \<Rightarrow> (Inl e, w1)
      | (Inr s, w1) \<Rightarrow> (Inr (s, True), w1))"

definition openRecoveryMapState ::
  "u64 \<times> bool \<times> error option \<Rightarrow> error option \<Rightarrow> World \<Rightarrow> u64 \<Rightarrow> JobInput \<Rightarrow> (Store \<times> bool) result \<times> World" where
  "openRecoveryMapState space preflight w unixNano i =
     (case InspectRecoveryTarget_windows space w i of
        (Inl e, w1) \<Rightarrow> (Inl e, w1)
      | (Inr st, w1) \<Rightarrow>
        if TsCanStartNew st then
          (case preflight of Some e \<Rightarrow> (Inl e, w1)
           | None \<Rightarrow> start_new prepareWindowsOutput w1 unixNano i (recoveryMapPath (InOutputPath i)))
        else if TsCanResume st then
          (case preflight of Some e \<Rightarrow> (Inl e, w1) | None \<Rightarrow> resume_existing w1 i (TsMapPath st))
        else (Inl (Errorf (''start image recovery: '' @ TsDetail st)), w1))"

definition openDarwinRecoveryMap ::
  "error option \<Rightarrow> World \<Rightarrow> u64 \<Rightarrow> JobInput \<Rightarrow> (Store \<times> bool) result \<times> World" where
  "openDarwinRecoveryMap preflight w unixNano i =
     (case InspectRecoveryTarget_darwin w i of
        (Inl e, w1) \<Rightarrow> (Inl e, w1)
      | (Inr st, w1) \<Rightarrow>
        if TsCanStartNew st then
          (case preflight of Some e \<Rightarrow> (Inl e, w1)
           | None \<Rightarrow> start_new prepareDarwinOutput w1 unixNano i (TsMapPath st))
        else if TsCanResume st then
          (case preflight of Some e \<Rightarrow> (Inl e, w1) | None \<Rightarrow> resume_existing w1 i (TsMapPath st))
        else (Inl (Errorf (''start image recovery: '' @ TsDetail st)), w1))"

definition first_snapshot_windows :: "JobInput \<Rightarrow> Store \<Rightarrow> bool \<Rightarrow> JobSnapshot" where
  "first_snapshot_windows i s resumed =
     (case summarizeRecoveryExtentStates (extents s) of (scanned, recovered, deferred, unreadable) \<Rightarrow>
       (first_snapshot i s resumed)\<lparr>SnScannedSectors := scanned,
          SnLastIssue := (if resumed then [''Resuming durable state: scanned '' @ itoa (unat scanned) @ '', recovered '' @
            itoa (unat recovered) @ '', deferred '' @ itoa (unat deferred) @ '', unreadable '' @ itoa (unat unreadable) @
            '' sectors.''] else [])\<rparr>)"

text \<open>What both starts do with the map they got; \<open>snapshot\<close> is the first one of the job.\<close>

definition started_job ::
  "(JobInput \<Rightarrow> Store \<Rightarrow> bool \<Rightarrow> JobSnapshot) \<Rightarrow> JobInput \<Rightarrow> (Store \<times> bool) result \<times> World \<Rightarrow> RecoveryJob result \<times> World" where
  "started_job snapshot i opened =
     (case opened of
        (Inl e, w) \<Rightarrow> (Inl e, w)
      | (Inr (s, resumed), w) \<Rightarrow>
     (case Start NewLifecycle of
        (Some e, _) \<Rightarrow> (case Close w s False of (_, _, w1) \<Rightarrow> (Inl e, w1))
      | (None, l) \<Rightarrow>
        (Inr \<lparr>JbStore = s, JbLifecycle = l, JbSnapshot = (snapshot i s resumed)\<lparr>SnState := lstate l\<rparr>, JbTimer = False\<rparr>, w)))"

definition StartImageRecovery_windows ::
  "u64 \<times> bool \<times> error option \<Rightarrow> error option \<Rightarrow> World \<Rightarrow> u64 \<Rightarrow> JobInput \<Rightarrow> RecoveryJob result \<times> World" where
  "StartImageRecovery_windows space preflight w unixNano i =
     (if InDevicePath i = [] then (Inl (Errorf ''start image recovery: device path is required''), w)
      else if no_output (InOutputPath i) then (Inl (Errorf ''start image recovery: output path is not configured''), w)
      else if InLogicalSectorSize i = 0 then (Inl (Errorf ''start image recovery: logical sector outSize is required''), w)
      else if InCapacitySectors i = 0
      then (Inl (Errorf ''start image recovery: capacity sectors must be greater than zero''), w)
      else (case PolicyForMethod (method_of i) of
          Inl e \<Rightarrow> (Inl (Wrapf ''start image recovery'' e), w)
        | Inr _ \<Rightarrow> started_job first_snapshot_windows i (openRecoveryMapState space preflight w unixNano i)))"

definition StartImageRecovery_darwin ::
  "error option \<Rightarrow> World \<Rightarrow> u64 \<Rightarrow> JobInput \<Rightarrow> RecoveryJob result \<times> World" where
  "StartImageRecovery_darwin preflight w unixNano i =
     (if InDevicePath i = [] \<or> no_output (InOutputPath i)
      then (Inl (Errorf ''start image recovery: device and output paths are required''), w)
      else if InLogicalSectorSize i = 0 \<or> InCapacitySectors i = 0
      then (Inl (Errorf ''start image recovery: media geometry is required''), w)
      else (case PolicyForMethod (method_of i) of
          Inl e \<Rightarrow> (Inl (Wrapf ''start image recovery'' e), w)
        | Inr _ \<Rightarrow> started_job first_snapshot i (openDarwinRecoveryMap preflight w unixNano i)))"

section \<open>Running and ending\<close>

definition setPassProgress :: "u32 \<Rightarrow> RecoveryPassProgress \<Rightarrow> JobSnapshot \<Rightarrow> JobSnapshot" where
  "setPassProgress sectorSize x sn = sn\<lparr>SnCopiedBytes := RecoveredSectors x * ucast sectorSize,
     SnCumulativeRecoveredBytes := RecoveredSectors x * ucast sectorSize, SnScannedSectors := ScannedSectors x,
     SnDeferredSectors := DeferredSectors x, SnUnreadableSectors := UnreadableSectors x, SnPass := ProgPass x,
     SnLastIssue := (''Scanned '' @ itoa (unat (ScannedSectors x)) @ '' sectors; recovered '' @ itoa (unat (RecoveredSectors x)) @
       ''; deferred '' @ itoa (unat (DeferredSectors x)) @ ''; unreadable '' @ itoa (unat (UnreadableSectors x)) @ ''.'')
       # LastIssue x\<rparr>"

definition setProgress :: "u32 \<Rightarrow> RecoveryPassProgress \<Rightarrow> JobSnapshot \<Rightarrow> JobSnapshot" where
  "setProgress sectorSize x sn = sn\<lparr>SnCopiedBytes := RecoveredSectors x * ucast sectorSize,
     SnCumulativeRecoveredBytes := RecoveredSectors x * ucast sectorSize, SnScannedSectors := ScannedSectors x,
     SnDeferredSectors := DeferredSectors x, SnUnreadableSectors := UnreadableSectors x, SnPass := ProgPass x,
     SnLastIssue := LastIssue x\<rparr>"

definition finish_job_windows :: "bool \<Rightarrow> error option \<Rightarrow> RecoveryJob \<Rightarrow> World \<Rightarrow> RecoveryJob \<times> World" where
  "finish_job_windows canceled err j w =
     (let sn = (JbSnapshot j)\<lparr>SnDone := True, SnCanceled := canceled\<rparr>;
          sn1 = (case err of None \<Rightarrow> sn | Some e \<Rightarrow> sn\<lparr>SnErrText := error_text e\<rparr>)
      in (case Close w (JbStore j) (canceled \<or> err = None) of (closeErr, s, w1) \<Rightarrow>
        let sn2 = (case closeErr of
                None \<Rightarrow> sn1
              | Some e \<Rightarrow> if SnErrText sn1 = [] then sn1\<lparr>SnErrText := error_text e\<rparr>
                  else sn1\<lparr>SnErrText := SnErrText sn1 @ ''; finalize recovery map: '' @ error_text e\<rparr>);
            l = finish_windows (JbLifecycle j) canceled err
        in (j\<lparr>JbStore := s, JbLifecycle := l, JbTimer := False,
              JbSnapshot := sn2\<lparr>SnState := lstate l, SnCanForceStop := canForce l\<rparr>\<rparr>, w1)))"

text \<open>The same statements as on Windows.\<close>

definition finish_job_darwin :: "bool \<Rightarrow> error option \<Rightarrow> RecoveryJob \<Rightarrow> World \<Rightarrow> RecoveryJob \<times> World" where
  "finish_job_darwin = finish_job_windows"

text \<open>What a run does once the image is open; the image is closing after the job has finished.\<close>

definition run_opened ::
  "(bool \<Rightarrow> error option \<Rightarrow> RecoveryJob \<Rightarrow> World \<Rightarrow> RecoveryJob \<times> World) \<Rightarrow>
   (u32 \<Rightarrow> RecoveryPassProgress \<Rightarrow> JobSnapshot \<Rightarrow> JobSnapshot) \<Rightarrow> (error \<Rightarrow> bool) \<Rightarrow> RunEnv \<Rightarrow> JobInput \<Rightarrow> RecoveryJob \<Rightarrow> World \<Rightarrow> RecoveryJob \<times> World" where
  "run_opened finish progress fatal en i j w =
     (let p = newRecoveryPersistence w (InOutputPath i) (JbStore j) (EnClock en);
          close_output = (\<lambda>(j, w). (j, snd (os_Close w))) in
     (case PolicyForMethod (method_of i) of
        Inl e \<Rightarrow> close_output (finish False (Some e) j w)
      | Inr policy0 \<Rightarrow>
        let policy = (if InRetryUnresolved i then retryPolicyWithCurrentAttempts policy0 (extents (JbStore j)) else policy0) in
     (case runPassBasedRecoveryWithPolicy persistence_store fatal (EnMedium en) (InLogicalSectorSize i)
          (InCapacitySectors i) policy \<lparr>runStore = p, Reads = EnReads en, CtxErrs = EnCtx en, Reported = []\<rparr> of (err, r) \<Rightarrow>
        let j1 = j\<lparr>JbStore := store (runStore r),
              JbSnapshot := foldl (\<lambda>sn x. progress (InLogicalSectorSize i) x sn) (JbSnapshot j) (Reported r)\<rparr>;
            w2 = disk (runStore r)
        in close_output (case err of
          Some e \<Rightarrow> if errors_Is e ErrCanceled then finish True None j1 w2
            else finish False (Some (Wrapf ''recover image'' e)) j1 w2
        | None \<Rightarrow>
          (case os_Sync w2 (InOutputPath i) of
             (Some e, w3) \<Rightarrow> finish False (Some (Wrapf ''sync output image'' e)) j1 w3
           | (None, w3) \<Rightarrow> finish False None j1 w3)))))"


definition run_windows :: "RunEnv \<Rightarrow> JobInput \<Rightarrow> RecoveryJob \<Rightarrow> World \<Rightarrow> RecoveryJob \<times> World" where
  "run_windows en i j0 w =
     (let j = j0\<lparr>JbLifecycle := EnLifecycle en\<rparr>; out = InOutputPath i in
      case EnSource en of
        Some e \<Rightarrow> finish_job_windows False (Some e) j w
      | None \<Rightarrow>
     (case (if filepath_Dir out \<noteq> [] \<and> filepath_Dir out \<noteq> ''.'' then os_MkdirAll w (filepath_Dir out) else (None, w)) of
        (Some e, w1) \<Rightarrow> finish_job_windows False (Some (Wrapf ''create output directory'' e)) j w1
      | (None, w1) \<Rightarrow>
     (case os_OpenCreate w1 out of
        (Some e, w2) \<Rightarrow> finish_job_windows False (Some (Wrapf ''create output image'' e)) j w2
      | (None, w2) \<Rightarrow>
     (case os_Truncate w2 out (image_bytes i) of
        (Some e, w3) \<Rightarrow> (case finish_job_windows False (Some (Wrapf ''prepare output image'' e)) j w3 of
          (j1, w4) \<Rightarrow> (j1, snd (os_Close w4)))
      | (None, w3) \<Rightarrow> run_opened finish_job_windows setPassProgress platformFatal_windows en i j w3))))"

definition openDarwinOutput :: "World \<Rightarrow> JobInput \<Rightarrow> error option \<times> World" where
  "openDarwinOutput w i =
     (case make_folder w (InOutputPath i) of
        (Some e, w1) \<Rightarrow> (Some (Wrapf ''create output directory'' e), w1)
      | (None, w1) \<Rightarrow>
     (case os_OpenCreate w1 (InOutputPath i) of
        (Some e, w2) \<Rightarrow> (Some (Wrapf ''create output image'' e), w2)
      | (None, w2) \<Rightarrow>
     (case os_Truncate w2 (InOutputPath i) (image_bytes i) of
        (Some e, w3) \<Rightarrow> (Some (Wrapf ''prepare output image'' e), snd (os_Close w3))
      | (None, w3) \<Rightarrow> (None, w3))))"

definition platformFatal_darwin :: "error \<Rightarrow> bool" where
  "platformFatal_darwin err \<longleftrightarrow> errors_Is err (ErrIO ''ENODEV'')"

definition run_darwin :: "RunEnv \<Rightarrow> JobInput \<Rightarrow> RecoveryJob \<Rightarrow> World \<Rightarrow> RecoveryJob \<times> World" where
  "run_darwin en i j0 w =
     (let j = j0\<lparr>JbLifecycle := EnLifecycle en\<rparr> in
      case EnSource en of
        Some e \<Rightarrow> finish_job_darwin False (Some e) j w
      | None \<Rightarrow>
     (case openDarwinOutput w i of
        (Some e, w1) \<Rightarrow> finish_job_darwin False (Some e) j w1
      | (None, w1) \<Rightarrow> run_opened finish_job_darwin setProgress platformFatal_darwin en i j w1))"

section \<open>Stopping\<close>

text \<open>The methods are those of the Linux job, statement by statement.\<close>

definition RequestStop_windows :: "StopIntent \<Rightarrow> RecoveryJob \<Rightarrow> error option \<times> bool \<times> RecoveryJob" where
  "RequestStop_windows = Job_RequestStop"

definition RequestStop_darwin :: "StopIntent \<Rightarrow> RecoveryJob \<Rightarrow> error option \<times> bool \<times> RecoveryJob" where
  "RequestStop_darwin = Job_RequestStop"

definition ForceStop_windows :: "error option option \<Rightarrow> RecoveryJob \<Rightarrow> error option \<times> bool \<times> RecoveryJob" where
  "ForceStop_windows = Job_ForceStop"

definition ForceStop_darwin :: "error option option \<Rightarrow> RecoveryJob \<Rightarrow> error option \<times> bool \<times> RecoveryJob" where
  "ForceStop_darwin = Job_ForceStop"

text \<open>Other systems have no recovery.\<close>

definition StartImageRecovery_other :: "JobInput \<Rightarrow> RecoveryJob result" where
  "StartImageRecovery_other i = Inl (Errorf ''real image recovery is not implemented for this platform'')"

definition InspectRecoveryTarget_other :: "JobInput \<Rightarrow> RecoveryTargetStatus result" where
  "InspectRecoveryTarget_other i =
     Inl (Errorf ''inspect recovery target: real image recovery is not implemented for this platform'')"

end
