(* ===== verification/JobNativeProps.thy ===== *)
theory JobNativeProps
  imports JobNative JobStart AppPaths
begin

text \<open>What the jobs of Windows and macOS do otherwise than the Linux job.\<close>

section \<open>The length of an image\<close>

lemma required_loop_spec:
  "required_loop r es ss = Inr b \<Longrightarrow>
     unat r \<le> unat b \<and> (\<forall>e \<in> set es. recoveryStateHasData (State e) \<longrightarrow> endN e * unat ss \<le> unat b)"
proof (induction r es ss rule: required_loop.induct)
  case (2 r e es ss)
  show ?case
  proof (cases "recoveryStateHasData (State e)")
    case False
    with 2 show ?thesis by simp
  next
    case True
    from 2(3) True obtain k where k: "endN e < 18446744073709551616" "CheckedSectorByteOffset (EndLBA e) ss = Inr k"
      "required_loop (if k > r then k else r) es ss = Inr b"
      by (auto simp: CheckedEndLBA_Inr_iff split: sum.splits)
    have "unat k = endN e * unat ss" using k(1,2) by (simp add: CheckedSectorByteOffset_Inr_iff unat_EndLBA)
    moreover have "unat (if k > r then k else r) = max (unat k) (unat r)" by (simp add: max_def word_less_nat_alt)
    moreover have "unat (if k > r then k else r) \<le> unat b \<and>
        (\<forall>e \<in> set es. recoveryStateHasData (State e) \<longrightarrow> endN e * unat ss \<le> unat b)"
      using 2(2) [OF _ _ _ k(3)] True k(1,2) by (simp add: CheckedEndLBA_Inr_iff)
    ultimately show ?thesis by simp
  qed
qed simp

lemma resume_darwin_length:
  assumes "resume_darwin st i n es = Inr st1" "e \<in> set es" "recoveryStateHasData (State e)"
  shows "endN e * unat (InLogicalSectorSize i) \<le> n"
proof -
  obtain b where b: "required_image_bytes es (InLogicalSectorSize i) = Inr b" "\<not> b > of_nat n"
    using assms(1) by (auto simp: resume_darwin_def split: sum.splits if_splits)
  have "endN e * unat (InLogicalSectorSize i) \<le> unat b"
    using required_loop_spec [of 0 es _ b] b(1) assms(2,3) by (simp add: required_image_bytes_def)
  also have "unat b \<le> unat (of_nat n :: u64)" using b(2) by (simp add: word_less_nat_alt not_less)
  also have "\<dots> \<le> n" by (simp add: unat_of_nat)
  finally show ?thesis .
qed

section \<open>Starts\<close>

lemma prepare_keeps:
  assumes "prepareDarwinOutput w i t = (e, t1, w1) \<or> prepareWindowsOutput w i t = (e, t1, w1)" "Files w q = Some bs"
    and "q \<notin> set (paths t)"
  shows "Files w1 q = Some bs \<and> q \<notin> set (paths t1)"
proof -
  obtain e2 w2 where m: "make_folder w (InOutputPath i) = (e2, w2)" by force
  have m': "(if filepath_Dir (InOutputPath i) \<noteq> [] \<and> filepath_Dir (InOutputPath i) \<noteq> ''.''
      then os_MkdirAll w (filepath_Dir (InOutputPath i)) else (None, w)) = (e2, w2)"
    using m by (auto simp: make_folder_def filepath_Dir_def Clean_nonempty)
  obtain e3 w3 where c: "os_Create_excl w2 (InOutputPath i) = (e3, w3)" by force
  obtain e4 w4 where tr: "os_Truncate w3 (InOutputPath i) (image_bytes i) = (e4, w4)" by force
  obtain e5 w5 where cl: "os_Close w4 = (e5, w5)" by force
  have f2: "Files w2 q = Some bs" using assms(2) reads_Files(5) [OF m] by simp
  show ?thesis
  proof (cases "e2 = None \<and> e3 = None")
    case False
    then show ?thesis using assms m m' c f2 create_excl_cases [OF c]
      by (auto simp: prepareDarwinOutput_def prepareWindowsOutput_def split: option.splits)
  next
    case True
    then have ne: "q \<noteq> InOutputPath i" "Files w3 q = Some bs" using create_excl_cases [OF c] f2 by auto
    have "Files w4 q = Some bs" "Files w5 q = Some bs"
      using truncate_other [OF tr ne(1)] reads_Files(8) [OF cl] ne(2) by simp_all
    then show ?thesis using assms(1,3) m m' c True tr cl ne(1)
      by (auto simp: prepareDarwinOutput_def prepareWindowsOutput_def TrackCreated_def Let_def split: option.splits if_splits)
  qed
qed


lemma remove_paths_other: "remove_paths w ps j = (e, w1) \<Longrightarrow> q \<notin> set ps \<Longrightarrow> Files w1 q = Files w q"
  by (induction w ps j rule: remove_paths.induct)
    (auto simp: os_Remove_def split: prod.splits option.splits if_splits dest!: next_io_frame)

lemma rollback_other: "Rollback w t = (e, w1) \<Longrightarrow> q \<notin> set (paths t) \<Longrightarrow> Files w1 q = Files w q"
  by (auto simp: Rollback_def split: if_splits dest!: remove_paths_other [where q = q])

lemma start_new_keeps:
  assumes "start_new prepare w t i mp = (r, w1)" "prepare = prepareDarwinOutput \<or> prepare = prepareWindowsOutput"
    and "Files w q = Some bs"
  shows "Files w1 q = Some bs"
proof -
  obtain e2 t2 w2 where p: "prepare w i new_transaction = (e2, t2, w2)" by (metis prod.exhaust)
  have f: "Files w2 q = Some bs" "q \<notin> set (paths t2)"
    using prepare_keeps [of w i new_transaction e2 t2 w2 q bs] p assms(2,3) by (auto simp: new_transaction_def)
  have rb: "Files (snd (Rollback v t2)) q = Some bs" if "Files v q = Some bs" for v
    using rollback_other [OF prod.collapse [symmetric] f(2)] that by simp
  show ?thesis
    using assms(1) p f(1) rb Create_keeps [of w2 mp _ _ _ q bs]
    by (auto simp: start_new_def createRecoveryMapState_def split: option.splits sum.splits prod.splits)
qed

lemma InspectRecoveryTarget_native_Files:
  "InspectRecoveryTarget_darwin w i = (r, w1) \<Longrightarrow> Files w1 = Files w"
  "InspectRecoveryTarget_windows space w i = (r, w1) \<Longrightarrow> Files w1 = Files w"
  by (auto simp: InspectRecoveryTarget_darwin_def InspectRecoveryTarget_windows_def Let_def
      split: prod.splits sum.splits if_splits dest!: reads_Files Inspect_Files)

lemma darwin_target_map_path: "InspectRecoveryTarget_darwin w i = (Inr st, w1) \<Longrightarrow>
    TsMapPath st = darwinRecoveryMapPath (InOutputPath i) \<and> (TsCanResume st \<longrightarrow> Files w (InOutputPath i) \<noteq> None)"
  by (auto simp: InspectRecoveryTarget_darwin_def target_status_def found_def resume_darwin_def Let_def
      split: prod.splits sum.splits if_splits dest: stat_found)

text \<open>
  A start on macOS destroys no file either, whatever the calls of the disk answer: the files it
  removes when it fails are those it had made.
\<close>

theorem darwin_start_keeps_files:
  assumes "StartImageRecovery_darwin preflight w t i = (r, w1)" "Files w q = Some bs"
    and "q \<noteq> darwinRecoveryMapPath (InOutputPath i) \<or> Files w (InOutputPath i) = None"
  shows "Files w1 q = Some bs"
proof -
  obtain r2 w2 where o: "openDarwinRecoveryMap preflight w t i = (r2, w2)" by force
  obtain r3 w3 where n: "InspectRecoveryTarget_darwin w i = (r3, w3)" by force
  have f3: "Files w3 = Files w" using InspectRecoveryTarget_native_Files(1) [OF n] .
  have "Files w2 q = Some bs"
    using o n f3 assms(2,3) start_new_keeps [of prepareDarwinOutput w3 t i _ _ _ q bs]
      Open_other [of w3 _ "input_geometry i" _ _ q] darwin_target_map_path [of w i]
    by (auto simp: openDarwinRecoveryMap_def resume_existing_def loadRecoveryMapState_def
        split: sum.splits if_splits prod.splits option.splits)
  then show ?thesis
    using assms(1,2) o by (auto simp: StartImageRecovery_darwin_def started_job_def Start_def NewLifecycle_def
        split: if_splits sum.splits prod.splits option.splits)
qed

text \<open>The image that could not be brought to its length is removed on macOS; compare
  \<open>failed_truncate_blocks_path\<close>.\<close>

lemma failed_truncate_undone_on_darwin:
  defines "w \<equiv> empty_world\<lparr>Script := [IoOk, IoOk, IoOk, IoOk, Io 0 (Some (ErrIO ''no space left on device''))]\<rparr>"
  shows "\<exists>e w1 st. StartImageRecovery_darwin None w 0 sample_input = (Inl e, w1) \<and>
    InspectRecoveryTarget_darwin w1 sample_input = (Inr st, w1) \<and> TsCanStartNew st"
proof -
  have d: "filepath_Dir ''/d/disc.iso'' = ''/d''" "darwinRecoveryMapPath ''/d/disc.iso'' = ''/d/disc.drmap''" by code_simp+
  have p: "\<exists>policy. PolicyForMethod RecoveryMethodBalanced = Inr policy"
    using new_policy [OF sample_request] by (auto simp: method_of_def sample_input_def)
  show ?thesis
    using p by (auto simp: w_def StartImageRecovery_darwin_def openDarwinRecoveryMap_def start_new_def prepareDarwinOutput_def
        InspectRecoveryTarget_darwin_def target_status_def os_Stat_def os_Create_excl_def os_Truncate_def os_Close_def
        make_folder_def os_MkdirAll_def next_io_def missing_def found_def no_output_def method_of_def sample_input_def
        empty_world_def d put_file_def started_job_def Rollback_def TrackCreated_def new_transaction_def os_Remove_def Let_def)
qed

section \<open>Resuming\<close>

text \<open>What the inspection of a target on macOS read when it allows to resume.\<close>

lemma darwin_resume_read:
  assumes "InspectRecoveryTarget_darwin w i = (Inr st, w1)" "TsCanResume st"
  obtains hdr es w2 where "Files w2 = Files w"
    "Inspect w2 (darwinRecoveryMapPath (InOutputPath i)) (input_geometry i) = (Inr (hdr, es), w1)"
    "\<And>e. e \<in> set es \<Longrightarrow> recoveryStateHasData (State e) \<Longrightarrow>
       endN e * unat (InLogicalSectorSize i) \<le> length (contents w (InOutputPath i))"
proof -
  let ?mp = "darwinRecoveryMapPath (InOutputPath i)"
  obtain r2 w2 where s1: "os_Stat w (InOutputPath i) = (r2, w2)" by force
  obtain r3 w3 where s2: "os_Stat w2 ?mp = (r3, w3)" by force
  obtain r4 w4 where ins: "Inspect w3 ?mp (input_geometry i) = (r4, w4)" by force
  have files: "Files w3 = Files w" "Files w2 = Files w" using reads_Files(1) [OF s1] reads_Files(1) [OF s2] by simp_all
  from assms s1 s2 ins obtain n hdr es where r: "r2 = Inr n" "r4 = Inr (hdr, es)" "w4 = w1"
    "resume_darwin (target_status ?mp i) i n es = Inr st"
    by (auto simp: InspectRecoveryTarget_darwin_def target_status_def found_def Let_def
        split: prod.splits sum.splits if_splits)
  have n: "n = length (contents w (InOutputPath i))"
    using s1 r(1) files(2) by (auto simp: os_Stat_def contents_def split: prod.splits option.splits if_splits dest!: next_io_frame)
  show thesis
    using that [OF files(1), of hdr es] ins r resume_darwin_length [OF r(4)] unfolding n by simp
qed

text \<open>The systems agree on the path of the map.\<close>

lemma takeWhile_dot: "x \<in> set ys \<Longrightarrow> \<exists>zs. ys = takeWhile (\<lambda>c. c \<noteq> x) ys @ x # zs"
  by (induction ys) auto

lemma map_paths_agree: "linuxRecoveryMapPath p = darwinRecoveryMapPath p"
proof -
  have "path_Ext p = ''.iso'' \<longleftrightarrow> HasSuffix p ''.iso''"
  proof
    assume "path_Ext p = ''.iso''"
    then have d: "CHR ''.'' \<in> set (after_slash p)" "takeWhile (\<lambda>c. c \<noteq> CHR ''.'') (rev (after_slash p)) = ''osi''"
      by (auto simp: path_Ext_def Let_def rev_swap split: if_splits)
    then obtain zs where "rev (after_slash p) = ''osi'' @ CHR ''.'' # zs" using takeWhile_dot [of "CHR ''.''" "rev (after_slash p)"] d by auto
    then have "takeWhile (\<lambda>c. c \<noteq> slash) (rev p) = ''osi'' @ CHR ''.'' # zs" by (simp add: after_slash_def)
    then obtain ys where "rev p = ''osi'' @ CHR ''.'' # ys"
      by (metis append_Cons append_assoc takeWhile_dropWhile_id)
    then have "p = rev ys @ ''.iso''" by (simp add: rev_swap)
    then show "HasSuffix p ''.iso''" by (simp add: HasSuffix_def)
  next
    assume "HasSuffix p ''.iso''"
    then have "drop (length p - 4) p = ''.iso''" by (simp add: HasSuffix_def eval_nat_numeral)
    then have "p = take (length p - 4) p @ ''.iso''" using append_take_drop_id [of "length p - 4" p] by simp
    then obtain a where "p = a @ ''.iso''" by blast
    then show "path_Ext p = ''.iso''" by (simp add: path_Ext_def after_slash_def)
  qed
  then show ?thesis by (auto simp: linuxRecoveryMapPath_def darwinRecoveryMapPath_def TrimSuffix_def)
qed


text \<open>
  C6: Linux resumes from an image that is too short. On macOS a recovery can be resumed only if the
  image is as long as the data its map claims. The Linux inspection does not look at the length:
  where the image was cut off it still offers to resume, and the job then fills the image up with
  zeros that the map goes on claiming to be recovered data.
\<close>

theorem short_image_resumed_on_linux:
  assumes "Script w = []" "\<not> no_output (InOutputPath i)" "Files w (InOutputPath i) = Some bs" "\<not> sint (image_bytes i) < 0"
    and "Inspect w (linuxRecoveryMapPath (InOutputPath i)) (input_geometry i) = (Inr (hdr, es), w)"
    and "Files w (linuxRecoveryMapPath (InOutputPath i)) \<noteq> None"
    and "e \<in> set es" "recoveryStateHasData (State e)" "length bs < endN e * unat (InLogicalSectorSize i)"
  shows "(\<exists>st. InspectRecoveryTarget_linux w i = (Inr st, w) \<and> TsCanResume st) \<and>
    (\<exists>w1. openLinuxOutput w i = (None, w1) \<and>
       Files w1 (InOutputPath i) = Some (take (unat (image_bytes i)) (bs @ replicate (unat (image_bytes i) - length bs) 0))) \<and>
    (\<nexists>st w1. InspectRecoveryTarget_darwin w i = (Inr st, w1) \<and> TsCanResume st)"
proof (intro conjI notI)
  show "\<exists>st. InspectRecoveryTarget_linux w i = (Inr st, w) \<and> TsCanResume st"
    using resumable_target [OF assms(2,1) _ assms(6,5)] assms(3) by simp
  show "\<exists>w1. openLinuxOutput w i = (None, w1) \<and>
       Files w1 (InOutputPath i) = Some (take (unat (image_bytes i)) (bs @ replicate (unat (image_bytes i) - length bs) 0))"
    using assms(1,3,4) by (simp add: openLinuxOutput_def os_done contents_def)
  assume "\<exists>st w1. InspectRecoveryTarget_darwin w i = (Inr st, w1) \<and> TsCanResume st"
  then obtain st w1 where d: "InspectRecoveryTarget_darwin w i = (Inr st, w1)" "TsCanResume st" by blast
  have "w1 = w \<and> resume_darwin (target_status (darwinRecoveryMapPath (InOutputPath i)) i) i (length bs) es = Inr st"
    using d assms(1-3,5,6) unfolding map_paths_agree
    by (auto simp: InspectRecoveryTarget_darwin_def os_done missing_def found_def contents_def Let_def split: sum.splits)
  then have "endN e * unat (InLogicalSectorSize i) \<le> length bs"
    using resume_darwin_length assms(7,8) by blast
  with assms(9) show False by simp
qed

theorem short_image_resumed_on_linux_witness:
  "\<exists>w w1. Files w ''/d/disc.iso'' = Some [] \<and> openLinuxOutput w sample_input = (None, w1) \<and>
     Files w1 ''/d/disc.iso'' = Some (replicate 204800 0) \<and>
     (\<exists>st. InspectRecoveryTarget_linux w sample_input = (Inr st, w) \<and> TsCanResume st) \<and>
     (\<exists>hdr es. Inspect w ''/d/disc.drmap'' (input_geometry sample_input) = (Inr (hdr, es), w) \<and> 0 \<in> claimed es)"
proof -
  let ?out = "''/d/disc.iso''" and ?mp = "''/d/disc.drmap''" and ?h = "new_header sample_input 0"
  obtain p where p: "job_ready (\<lambda>k. of_nat k) ?h ?mp ?out {} p" "Script (disk p) = []" "0 < pendingRecoveredBytes p"
    "0 \<in> claimed (extents (store p))" "Stable (disk p) ?out = None" "nextSequence (store p) = 2" by (rule sample_pending)
  let ?w = "put_file (disk p) ?out []"
  obtain err s w where c: "Close ?w (store p) True = (err, s, w)" by (metis prod.exhaust)
  have pre: "Script ?w = []" "Files ?w ?mp = Files (disk p) ?mp" "nextSequence (store p) \<noteq> 0"
    "unat (nextSequence (store p)) < 1099511627776" using p(2,6) by simp_all
  let ?es = "downgraded (extents (store p))"
  have cl: "Script w = []" "Files w ?mp \<noteq> None"
    "Inspect w ?mp (geometry_of ?h) = (Inr (?h\<lparr>CleanShutdown := True\<rparr>, ?es), w)"
    using close_ready_map [OF p(1) pre c] by simp_all
  have "path (store p) = ?mp" using job_savedD(2) [OF job_ready_session(1) [OF p(1)]] .
  then have out: "Files w ?out = Some []" using Close_other [OF c, of ?out] by simp
  have cz: "0 \<in> claimed ?es" using p(4) by (simp add: claimed_downgraded)
  then obtain e where e: "e \<in> set ?es" "covers e 0" "stateClaimsImageData (State e)"
    by (auto simp: claimed_def dest!: extent_at_SomeD)
  have i: "InOutputPath sample_input = ?out" "InLogicalSectorSize sample_input = 2048" "image_bytes sample_input = 204800"
    "input_geometry sample_input = geometry_of ?h"
    by (simp_all add: sample_input_def image_bytes_def input_geometry_def geometry_of_def new_header)
  have mp: "linuxRecoveryMapPath (InOutputPath sample_input) = ?mp" using sample_map_path i(1) by simp
  have hyp: "\<not> no_output (InOutputPath sample_input)" unfolding i by (simp add: no_output_def)
  have pos: "\<not> sint (image_bytes sample_input) < 0" by (rule new_image_bytes(2) [OF sample_request])
  have f: "Files w (InOutputPath sample_input) = Some []" using out i(1) by simp
  have ins: "Inspect w (linuxRecoveryMapPath (InOutputPath sample_input)) (input_geometry sample_input) =
       (Inr (?h\<lparr>CleanShutdown := True\<rparr>, ?es), w)" using cl(3) unfolding mp i(4) .
  have fm: "Files w (linuxRecoveryMapPath (InOutputPath sample_input)) \<noteq> None" using cl(2) unfolding mp .
  have st: "recoveryStateHasData (State e)" using e(3) by (simp add: recoveryStateHasData_def stateClaimsImageData_def)
  have len: "length ([] :: bytes) < endN e * unat (InLogicalSectorSize sample_input)"
    using e(2) by (auto simp: i(2) covers_def)
  from short_image_resumed_on_linux [OF cl(1) hyp f pos ins fm e(1) st len] have
    r: "\<exists>st. InspectRecoveryTarget_linux w sample_input = (Inr st, w) \<and> TsCanResume st"
      "\<exists>w1. openLinuxOutput w sample_input = (None, w1) \<and> Files w1 ?out = Some (replicate 204800 0)"
    by (simp_all add: i(1,3))
  show ?thesis using r out cl(3) cz unfolding i(4) by blast
qed

end
