(* ===== verification/Discovery.thy ===== *)
theory Discovery
  imports Job "HOL-Library.List_Lexorder"
begin

text \<open>
  Finding drives, inspecting media and ejecting (\<^verbatim>\<open>internal/platform\<close>: the files named
  \<^verbatim>\<open>optical_*\<close>, \<^verbatim>\<open>darwin_*\<close> and \<^verbatim>\<open>eject_*\<close>), up to the calls of the operating
  system, whose answers are arguments. System errors are the \<open>ErrIO\<close> of their name.
\<close>

section \<open>Errors\<close>

datatype MediaProbeState =
    MediaProbeNoMedia | MediaProbeNotReady | MediaProbePermission | MediaProbeBusy | MediaProbeUnavailable
  | MediaProbeFailure | MediaProbeNone

record MediaInspectionError =
  MiPath :: string
  MiOperation :: string
  MiState :: MediaProbeState
  MiErr :: "error option"

text \<open>An error of the discovery: one of the native probe, or another one.\<close>

datatype DiscoveryError = NativeError MediaInspectionError | UnsupportedError string | PlainError string

type_synonym 'a probed = "DiscoveryError + 'a"

text \<open>Quotes are left out.\<close>

definition MediaInspectionError_Error :: "MediaInspectionError option \<Rightarrow> string" where
  "MediaInspectionError_Error e =
     (case e of None \<Rightarrow> ''inspect media: unknown probe failure'' | Some e \<Rightarrow>
      (case MiState e of
         MediaProbeNoMedia \<Rightarrow> ''inspect media: no disc is inserted in '' @ MiPath e
       | MediaProbeNotReady \<Rightarrow> ''inspect media: media in '' @ MiPath e @ '' is not ready''
       | MediaProbeUnavailable \<Rightarrow> ''inspect media: drive '' @ MiPath e @ '' is no longer available''
       | _ \<Rightarrow>
         if MiOperation e = [] then ''inspect media: '' @ (case MiErr e of None \<Rightarrow> ''%!s(<nil>)'' | Some er \<Rightarrow> error_text er)
         else (case MiErr e of
             None \<Rightarrow> ''inspect media: '' @ MiOperation e @ '' '' @ MiPath e @ '' failed''
           | Some er \<Rightarrow> ''inspect media: '' @ MiOperation e @ '' '' @ MiPath e @ '': '' @ error_text er)))"

section \<open>Configured drives\<close>

definition drive_of_part :: "string \<Rightarrow> OpticalDrive" where
  "drive_of_part part =
     (let fields = split_at CHR ''|'' part;
          field = (\<lambda>k. if k < length fields then TrimSpace (fields ! k) else [])
      in \<lparr>OdPath = field 0, OdDisplayName = field 1, OdStatus = field 2\<rparr>)"

definition drive_key :: "OpticalDrive \<Rightarrow> string" where
  "drive_key d = (if OdPath d = [] then OdDisplayName d else OdPath d)"

fun parse_loop :: "string list \<Rightarrow> string set \<Rightarrow> OpticalDrive list" where
  "parse_loop [] seen = []"
| "parse_loop (part0 # parts) seen =
     (let part = TrimSpace part0; drive = drive_of_part part in
      if part = [] then parse_loop parts seen
      else if OdPath drive = [] \<and> OdDisplayName drive = [] then parse_loop parts seen
      else if drive_key drive \<in> seen then parse_loop parts seen
      else drive # parse_loop parts (insert (drive_key drive) seen))"

definition parseOpticalDrives :: "string \<Rightarrow> OpticalDrive list" where
  "parseOpticalDrives text = parse_loop (split_at CHR '';'' text) {}"

section \<open>Discovery\<close>

text \<open>\<open>env\<close> is the environment of the process, \<open>None\<close> without a process, and \<open>host\<close> what the
  discovery of the system finds.\<close>

definition DiscoverOpticalDrives ::
  "(string \<Rightarrow> string) option \<Rightarrow> OpticalDrive list probed \<Rightarrow> OpticalDrive list probed" where
  "DiscoverOpticalDrives process host =
     (case process of
        None \<Rightarrow> Inl (PlainError ''discover optical drives: process runtime is not configured'')
      | Some env \<Rightarrow>
        if TrimSpace (env ''DISKRESCUE_DISCOVERY_ERROR'') \<noteq> []
        then Inl (PlainError (''discover optical drives: '' @ TrimSpace (env ''DISKRESCUE_DISCOVERY_ERROR'')))
        else if EqualFold (TrimSpace (env ''DISKRESCUE_DISCOVERY_UNSUPPORTED'')) ''1''
        then Inl (UnsupportedError ''discover optical drives: unsupported environment'')
        else if TrimSpace (env ''DISKRESCUE_DISCOVERY_DRIVES'') \<noteq> []
        then Inr (parseOpticalDrives (TrimSpace (env ''DISKRESCUE_DISCOVERY_DRIVES'')))
        else host)"

definition contains :: "string \<Rightarrow> string \<Rightarrow> bool" where
  "contains s t \<longleftrightarrow> list_ex (\<lambda>k. HasPrefix (drop k s) t) [0 ..< Suc (length s)]"

definition ensureIdentityObservation :: "OpticalMedia \<Rightarrow> OpticalMedia" where
  "ensureIdentityObservation m =
     (if OmObservation m = None
      then m\<lparr>OmObservation := Some \<lparr>OvStatus = ''unavailable'', OvAttemptedSamples = 0, OvAvailableSamples = 0\<rparr>\<rparr> else m)"

definition empty_media :: OpticalMedia where
  "empty_media = \<lparr>OmSummary = [], OmDetail = [], OmFileSystem = [], OmVolumeLabel = [], OmLogicalSectorSize = 0,
     OmCapacitySectors = 0, OmSuggestedOutputPath = [], OmRecoverable = False, OmRecoverabilityNote = [],
     OmObservation = None\<rparr>"

definition describe_drive :: "OpticalDrive \<Rightarrow> OpticalMedia probed" where
  "describe_drive d =
     (let status = strings_ToLower (TrimSpace (OdStatus d)); name = TrimSpace (OdDisplayName d); devPath = TrimSpace (OdPath d) in
      if contains status ''empty'' then Inl (PlainError (''inspect media: no disc detected in '' @ OdDisplayName d))
      else if contains status ''permission''
      then Inl (PlainError (''inspect media: access to '' @ OdDisplayName d @ '' is restricted''))
      else if contains status ''unavailable''
      then Inl (PlainError (''inspect media: '' @ OdDisplayName d @ '' is no longer available''))
      else Inr (ensureIdentityObservation (empty_media\<lparr>OmSummary := ''Media inspection completed.'',
        OmDetail := (if name = [] then devPath else if devPath \<noteq> [] then name @ '' - '' @ devPath else name),
        OmRecoverabilityNote := ''The current build cannot start recovery from this media.''\<rparr>)))"

text \<open>\<open>probe\<close> is what the probe of the system answers for the path.\<close>

definition IdentifyOpticalMedia ::
  "OpticalMedia probed \<Rightarrow> (string \<Rightarrow> string) option \<Rightarrow> OpticalDrive list probed \<Rightarrow> string \<Rightarrow> OpticalMedia probed" where
  "IdentifyOpticalMedia probe process host devPath =
     (case probe of
        Inr m \<Rightarrow> Inr (ensureIdentityObservation m)
      | Inl (NativeError e) \<Rightarrow> Inl (NativeError e)
      | Inl _ \<Rightarrow>
     (case DiscoverOpticalDrives process host of
        Inl e \<Rightarrow> Inl e
      | Inr drives \<Rightarrow>
     (case find (\<lambda>d. OdPath d = devPath) drives of
        Some d \<Rightarrow> describe_drive d
      | None \<Rightarrow> Inl (PlainError (''inspect media: drive '' @ devPath @ '' is no longer available'')))))"

section \<open>Linux\<close>

text \<open>\<open>globs\<close> is what the patterns for the device nodes match, in their order.\<close>

fun distinct_paths :: "string list \<Rightarrow> string set \<Rightarrow> string list" where
  "distinct_paths [] seen = []"
| "distinct_paths (p # ps) seen = (if p \<in> seen then distinct_paths ps seen else p # distinct_paths ps (insert p seen))"

fun all_matches :: "string list probed list \<Rightarrow> string list probed" where
  "all_matches [] = Inr []"
| "all_matches (Inl e # gs) = Inl e"
| "all_matches (Inr ms # gs) = (case all_matches gs of Inl e \<Rightarrow> Inl e | Inr ns \<Rightarrow> Inr (ms @ ns))"

definition discoverHost_linux :: "string list probed list \<Rightarrow> OpticalDrive list probed" where
  "discoverHost_linux globs =
     (case all_matches globs of
        Inl e \<Rightarrow> Inl e
      | Inr ms \<Rightarrow> Inr (map (\<lambda>p. \<lparr>OdPath = p, OdDisplayName = ''Optical drive '' @ p, OdStatus = ''available''\<rparr>)
          (distinct_paths ms {})))"

definition identifyHost_linux :: "string \<Rightarrow> OpticalMedia probed" where
  "identifyHost_linux devPath = Inl (NativeError \<lparr>MiPath = devPath, MiOperation = ''native media probe'', MiState = MediaProbeFailure,
     MiErr = Some (Errorf ''mounted optical media inspection is not implemented for this platform'')\<rparr>)"

section \<open>macOS\<close>

text \<open>A drive has a registry number besides, which nothing sets or reads.\<close>

record darwinNativeDrive =
  DnPath :: string
  DnDisplayName :: string
  DnLogicalSectorSize :: u32
  DnCapacityBytes :: u64
  DnMedia :: bool
  DnState :: MediaProbeState

definition is_digit :: "char \<Rightarrow> bool" where
  "is_digit c \<longleftrightarrow> 48 \<le> (of_char c :: nat) \<and> (of_char c :: nat) \<le> 57"

definition normalizeDarwinOpticalDevice :: "string \<Rightarrow> string result" where
  "normalizeDarwinOpticalDevice path0 =
     (let devPath = TrimSpace path0 in
      if \<not> HasPrefix devPath ''/dev/'' then Inl (Errorf ''device path is not a Darwin disk device'')
      else let name0 = drop 5 devPath; name = (if HasPrefix name0 ''r'' then drop 1 name0 else name0) in
      if \<not> HasPrefix name ''disk'' \<or> length name = 4 then Inl (Errorf ''device path is not a Darwin disk device'')
      else if \<not> list_all is_digit (drop 4 name) then Inl (Errorf ''device path is not a whole Darwin disk'')
      else Inr (filepath_Join ''/dev'' (''r'' @ name)))"

definition darwinProbeError :: "string \<Rightarrow> string \<Rightarrow> error \<Rightarrow> MediaInspectionError" where
  "darwinProbeError devPath operation err =
     (let is = (\<lambda>n. errors_Is err (ErrIO n)) in
      \<lparr>MiPath = devPath, MiOperation = operation,
       MiState = (if is ''ENOENT'' \<or> is ''ENODEV'' then MediaProbeUnavailable
         else if is ''ENXIO'' \<or> is ''EIO'' then MediaProbeNotReady
         else if is ''EACCES'' \<or> is ''EPERM'' then MediaProbePermission
         else if is ''EBUSY'' then MediaProbeBusy else MediaProbeFailure),
       MiErr = Some err\<rparr>)"

text \<open>\<open>opened\<close>, \<open>block\<close> and \<open>blocks\<close> are the answers to opening the device and to the two ioctls.
  The drive is returned with its error.\<close>

definition inspectDarwinDisk ::
  "(string \<Rightarrow> error option) \<Rightarrow> u32 result \<Rightarrow> u64 result \<Rightarrow> string \<Rightarrow> darwinNativeDrive \<times> MediaInspectionError option" where
  "inspectDarwinDisk opened block blocks devPath =
     (let zero = \<lparr>DnPath = [], DnDisplayName = [], DnLogicalSectorSize = 0, DnCapacityBytes = 0, DnMedia = False,
            DnState = MediaProbeNone\<rparr> in
      case normalizeDarwinOpticalDevice devPath of
        Inl e \<Rightarrow> (zero, Some \<lparr>MiPath = devPath, MiOperation = ''normalize device'', MiState = MediaProbeFailure, MiErr = Some e\<rparr>)
      | Inr whole \<Rightarrow>
        let d = zero\<lparr>DnPath := whole, DnDisplayName := filepath_Base devPath\<rparr> in
     (case opened whole of
        Some e \<Rightarrow> (d, Some (darwinProbeError devPath ''open'' e))
      | None \<Rightarrow>
     (case block of
        Inl e \<Rightarrow> (d, Some (darwinProbeError devPath ''DKIOCGETBLOCKSIZE'' e))
      | Inr b \<Rightarrow>
        if b = 0 then (d, Some \<lparr>MiPath = devPath, MiOperation = ''DKIOCGETBLOCKSIZE'', MiState = MediaProbeFailure,
          MiErr = Some (Errorf ''reported zero block size'')\<rparr>)
        else
     (case blocks of
        Inl e \<Rightarrow> (d, Some (darwinProbeError devPath ''DKIOCGETBLOCKCOUNT'' e))
      | Inr n \<Rightarrow> (d\<lparr>DnLogicalSectorSize := b, DnCapacityBytes := n * ucast b, DnMedia := 0 < n,
            DnState := (if 0 < n then MediaProbeNone else MediaProbeNoMedia)\<rparr>, None)))))"

definition darwinDriveStatus :: "darwinNativeDrive \<Rightarrow> string" where
  "darwinDriveStatus d =
     (if DnMedia d \<and> 0 < DnLogicalSectorSize d \<and> 0 < DnCapacityBytes d then ''disc present''
      else (case DnState d of
          MediaProbeNoMedia \<Rightarrow> ''drive present; no media''
        | MediaProbeNotReady \<Rightarrow> ''drive present; media not ready''
        | MediaProbePermission \<Rightarrow> ''drive present; permission denied''
        | MediaProbeBusy \<Rightarrow> ''drive present; device busy''
        | MediaProbeFailure \<Rightarrow> ''drive present; media geometry unavailable''
        | _ \<Rightarrow> ''drive present; media state unavailable''))"

definition sanitizeDarwinName :: "string \<Rightarrow> string" where
  "sanitizeDarwinName name =
     (let n = map (\<lambda>c. if c \<in> {CHR ''/'', CHR 0x5C, CHR '':'', CHR '' ''} then CHR ''-'' else c) (TrimSpace name)
      in if n = [] then ''optical-media'' else n)"

definition identifyHost_darwin :: "darwinNativeDrive \<times> MediaInspectionError option \<Rightarrow> string \<Rightarrow> OpticalMedia probed" where
  "identifyHost_darwin inspected devPath =
     (case inspected of
        (d, Some e) \<Rightarrow> Inl (NativeError e)
      | (d, None) \<Rightarrow>
        if DnState d = MediaProbeNoMedia \<or> \<not> DnMedia d
        then Inl (NativeError \<lparr>MiPath = devPath, MiOperation = [], MiState = MediaProbeNoMedia, MiErr = None\<rparr>)
        else if DnLogicalSectorSize d = 0 \<or> DnCapacityBytes d = 0
        then Inl (NativeError \<lparr>MiPath = devPath, MiOperation = ''read media geometry'', MiState = MediaProbeFailure,
          MiErr = Some (Errorf ''zero media geometry'')\<rparr>)
        else let name = (if TrimSpace (DnDisplayName d) = [] then filepath_Base devPath else TrimSpace (DnDisplayName d)) in
          Inr (empty_media\<lparr>OmSummary := ''Optical media detected.'',
            OmDetail := name @ '' - '' @ itoa (unat (DnLogicalSectorSize d)) @ ''-byte sectors - '' @
              itoa (unat (DnCapacityBytes d)) @ '' bytes'',
            OmLogicalSectorSize := DnLogicalSectorSize d,
            OmCapacitySectors := DnCapacityBytes d div ucast (DnLogicalSectorSize d),
            OmSuggestedOutputPath := filepath_Join ''.'' (''discrescue-'' @ sanitizeDarwinName name @ ''.iso''),
            OmRecoverable := True\<rparr>))"

text \<open>\<^verbatim>\<open>strconv.Atoi\<close> accepts a sign and the range of 64 bits.\<close>

definition digits_value :: "string \<Rightarrow> nat" where
  "digits_value s = foldl (\<lambda>n c. 10 * n + (of_char c - 48)) 0 s"

definition isDecimal :: "string \<Rightarrow> bool" where
  "isDecimal s \<longleftrightarrow>
     (let signed = s \<noteq> [] \<and> hd s \<in> {CHR ''+'', CHR ''-''}; t = (if signed then tl s else s)
      in t \<noteq> [] \<and> list_all is_digit t \<and>
         digits_value t \<le> (if signed \<and> hd s = CHR ''-'' then 9223372036854775808 else 9223372036854775807))"

text \<open>\<open>configured\<close> is the trimmed list of the environment, \<open>dev\<close> the names in the device folder;
  paths are ordered byte by byte.\<close>

definition darwinDeviceCandidates :: "string \<Rightarrow> string list result \<Rightarrow> string list result" where
  "darwinDeviceCandidates configured dev =
     (if configured \<noteq> [] then Inr (filter (\<lambda>p. p \<noteq> []) (map TrimSpace (split_at CHR '','' configured)))
      else (case dev of
          Inl e \<Rightarrow> Inl (Wrapf ''enumerate Darwin device nodes'' e)
        | Inr names \<Rightarrow> Inr (sort_key (map (of_char :: char \<Rightarrow> nat))
            (map (filepath_Join ''/dev'') (filter (\<lambda>n. HasPrefix n ''disk'' \<and> isDecimal (drop 4 n)) names)))))"

definition shouldRetainDarwinCandidate :: "bool \<Rightarrow> MediaInspectionError option \<Rightarrow> bool" where
  "shouldRetainDarwinCandidate configured err =
     (case err of None \<Rightarrow> True | Some e \<Rightarrow> configured \<and> MiState e \<noteq> MediaProbeUnavailable)"

definition nativeDarwinDiscover ::
  "string \<Rightarrow> string list result \<Rightarrow> (string \<Rightarrow> darwinNativeDrive \<times> MediaInspectionError option) \<Rightarrow> darwinNativeDrive list result" where
  "nativeDarwinDiscover configured dev inspect =
     (case darwinDeviceCandidates configured dev of
        Inl e \<Rightarrow> Inl e
      | Inr ps \<Rightarrow> Inr (map (\<lambda>p. fst (inspect p))
          (filter (\<lambda>p. shouldRetainDarwinCandidate (configured \<noteq> []) (snd (inspect p))) ps)))"

definition discoverHost_darwin :: "darwinNativeDrive list result \<Rightarrow> OpticalDrive list probed" where
  "discoverHost_darwin natives =
     (case natives of
        Inl e \<Rightarrow> Inl (PlainError ''discover macOS optical drives natively'')
      | Inr ds \<Rightarrow> Inr (map (\<lambda>d. \<lparr>OdPath = DnPath d, OdDisplayName = DnDisplayName d, OdStatus = darwinDriveStatus d\<rparr>) ds))"


section \<open>Windows\<close>

text \<open>\<open>info\<close> is the answer for label, file system and bytes of a volume, \<open>raw\<close> the one of the geometry of
  the medium.\<close>

record rawOpticalMediaInfo =
  RawLogicalSectorSize :: u32
  RawCapacitySectors :: u64

text \<open>The geometry as the device writes it, with the number of bytes it wrote; the size is signed. The
  header has 32 bytes.\<close>

definition queryWindowsRawOpticalMedia :: "error option \<Rightarrow> (u32 \<times> u32 \<times> u64) result \<Rightarrow> rawOpticalMediaInfo result" where
  "queryWindowsRawOpticalMedia opened answer =
     (case opened of
        Some e \<Rightarrow> Inl e
      | None \<Rightarrow>
     (case answer of
        Inl e \<Rightarrow> Inl e
      | Inr (returned, bytesPerSector, diskSize) \<Rightarrow>
        if returned < 32 then Inl (Errorf ''raw geometry response too short'')
        else if bytesPerSector = 0 then Inl (Errorf ''raw geometry reported zero-byte sectors'')
        else if sint diskSize \<le> 0 then Inl (Errorf ''raw geometry reported zero capacity'')
        else if diskSize div ucast bytesPerSector = 0 then Inl (Errorf ''raw geometry reported zero logical sectors'')
        else Inr \<lparr>RawLogicalSectorSize = bytesPerSector, RawCapacitySectors = diskSize div ucast bytesPerSector\<rparr>))"

definition windowsMediaProbeError :: "string \<Rightarrow> error \<Rightarrow> MediaInspectionError" where
  "windowsMediaProbeError devPath err =
     (let is = (\<lambda>n. errors_Is err (ErrIO n)) in
      \<lparr>MiPath = devPath, MiOperation = ''open or inspect'',
       MiState = (if is ''ERROR_NO_MEDIA_IN_DRIVE'' then MediaProbeNoMedia
         else if is ''ERROR_NOT_READY'' then MediaProbeNotReady
         else if is ''ERROR_ACCESS_DENIED'' then MediaProbePermission
         else if is ''ERROR_BUSY'' \<or> is ''ERROR_BUSY_DRIVE'' then MediaProbeBusy
         else if is ''ERROR_FILE_NOT_FOUND'' \<or> is ''ERROR_PATH_NOT_FOUND'' \<or> is ''ERROR_DEVICE_NOT_CONNECTED''
         then MediaProbeUnavailable else MediaProbeFailure),
       MiErr = Some err\<rparr>)"

definition sanitizeOutputName :: "string \<Rightarrow> string" where
  "sanitizeOutputName name =
     concat (map (\<lambda>c. if c \<in> {CHR '':'', CHR ''?'', CHR 0x22, CHR ''<'', CHR ''>'', CHR ''|''} then []
       else if c \<in> {CHR 0x5C, CHR ''/'', CHR ''*'', CHR '' ''} then ''-'' else [c]) name)"

text \<open>\<open>info\<close> has label, file system and bytes of the volume.\<close>

definition identifyWindowsOpticalMedia ::
  "(string \<Rightarrow> rawOpticalMediaInfo result) \<Rightarrow> (string \<Rightarrow> (string \<times> string \<times> u64) result) \<Rightarrow> string \<Rightarrow> OpticalMedia probed" where
  "identifyWindowsOpticalMedia raw info devPath =
     (let root = (if HasSuffix devPath [CHR 0x5C] then devPath else devPath @ [CHR 0x5C]) in
      case raw root of
        Inl e \<Rightarrow> Inl (NativeError (windowsMediaProbeError root e))
      | Inr r \<Rightarrow>
        let (label, fs, totalBytes) = (case info root of
              Inr (l, f, t) \<Rightarrow> if f = [] \<or> t = 0 then ([], [], RawCapacitySectors r * ucast (RawLogicalSectorSize r)) else (l, f, t)
            | Inl _ \<Rightarrow> ([], [], RawCapacitySectors r * ucast (RawLogicalSectorSize r)));
          drive = TrimSuffix root [CHR 0x5C];
          name = (if TrimSpace label = [] then drive else TrimSpace label);
          parts = [itoa (unat (RawLogicalSectorSize r)) @ ''-byte sectors'', itoa (unat (RawCapacitySectors r)) @ '' sectors'',
            itoa (unat totalBytes) @ '' bytes'']
        in Inr (empty_media\<lparr>OmSummary := ''Optical media detected.'',
          OmDetail := strings_Join ((if fs \<noteq> [] then [fs] else []) @ parts @ (if label \<noteq> [] then [label] else [])) '' - '',
          OmFileSystem := fs, OmVolumeLabel := label, OmLogicalSectorSize := RawLogicalSectorSize r,
          OmCapacitySectors := RawCapacitySectors r,
          OmSuggestedOutputPath := filepath_Join ''.''
            (sanitizeOutputName (''discrescue-'' @ drive @ ''-'' @ name @ ''.iso'')),
          OmRecoverable := True\<rparr>))"

text \<open>\<open>cdrom\<close> says which roots are optical drives.\<close>

definition windows_drive ::
  "(string \<Rightarrow> rawOpticalMediaInfo result) \<Rightarrow> (string \<Rightarrow> (string \<times> string \<times> u64) result) \<Rightarrow> char \<Rightarrow> OpticalDrive" where
  "windows_drive raw info letter =
     (let root = [letter, CHR '':'', CHR 0x5C] in
      \<lparr>OdPath = root, OdDisplayName = ''Optical drive '' @ [letter] @ '':'',
       OdStatus = (case raw root of
           Inl _ \<Rightarrow> ''no media''
         | Inr r \<Rightarrow>
          (case info root of
             Inr (label, fs, totalBytes) \<Rightarrow>
               if fs \<noteq> [] \<and> 0 < totalBytes then (if label \<noteq> [] then fs @ '' - '' @ label else fs)
               else if 0 < RawCapacitySectors r then ''disc present - '' @ itoa (unat (RawCapacitySectors r)) @ '' sectors''
               else ''disc present''
           | Inl _ \<Rightarrow> if 0 < RawCapacitySectors r then ''disc present - '' @ itoa (unat (RawCapacitySectors r)) @ '' sectors''
               else ''disc present''))\<rparr>)"

fun windows_drives ::
  "(string \<Rightarrow> error option) \<Rightarrow> (string \<Rightarrow> bool) \<Rightarrow> (char \<Rightarrow> OpticalDrive) \<Rightarrow> char list \<Rightarrow> OpticalDrive list probed" where
  "windows_drives encode cdrom probeDrive [] = Inr []"
| "windows_drives encode cdrom probeDrive (l # ls) =
     (case encode [l, CHR '':'', CHR 0x5C] of
        Some e \<Rightarrow> Inl (PlainError ''discover optical drives: encode root'')
      | None \<Rightarrow>
     (case windows_drives encode cdrom probeDrive ls of
        Inl e \<Rightarrow> Inl e
      | Inr ds \<Rightarrow> Inr (if cdrom [l, CHR '':'', CHR 0x5C] then probeDrive l # ds else ds)))"

definition discoverHost_windows ::
  "(string \<Rightarrow> error option) \<Rightarrow> (string \<Rightarrow> bool) \<Rightarrow> (string \<Rightarrow> rawOpticalMediaInfo result) \<Rightarrow>
   (string \<Rightarrow> (string \<times> string \<times> u64) result) \<Rightarrow> OpticalDrive list probed" where
  "discoverHost_windows encode cdrom raw info =
     windows_drives encode cdrom (windows_drive raw info) (map (\<lambda>n. char_of (n :: nat)) [65 ..< 91])"

section \<open>Ejecting\<close>

text \<open>An operation error has its code, its operation and its detail; the cause is left out.\<close>

record OperationError =
  OeCode :: ErrorCode
  OeOp :: string
  OeDetail :: string

definition OperationError_Error :: "OperationError option \<Rightarrow> (ErrorCode \<Rightarrow> string) \<Rightarrow> string" where
  "OperationError_Error e code_text =
     (case e of None \<Rightarrow> []
      | Some e \<Rightarrow> if OeDetail e \<noteq> [] then OeOp e @ '' '' @ code_text (OeCode e) @ '': '' @ OeDetail e
          else OeOp e @ '': '' @ code_text (OeCode e))"

definition classifyWindowsEjectError :: "error \<Rightarrow> ErrorCode" where
  "classifyWindowsEjectError err =
     (let is = (\<lambda>ns. list_ex (\<lambda>n. errors_Is err (ErrIO n)) ns) in
      if is [''ERROR_ACCESS_DENIED''] then ErrorPermissionDenied
      else if is [''ERROR_SHARING_VIOLATION'', ''ERROR_LOCK_VIOLATION'', ''ERROR_LOCK_FAILED'', ''ERROR_BUSY'', ''ERROR_BUSY_DRIVE'']
      then ErrorBusy
      else if is [''ERROR_INVALID_FUNCTION'', ''ERROR_NOT_SUPPORTED''] then ErrorUnsupported
      else if is [''ERROR_NO_MEDIA_IN_DRIVE'', ''ERROR_NOT_READY''] then ErrorNoMedia
      else if is [''ERROR_MEDIA_CHANGED''] then ErrorMediaChanged
      else if is [''ERROR_FILE_NOT_FOUND'', ''ERROR_PATH_NOT_FOUND'', ''ERROR_INVALID_DRIVE'', ''ERROR_DEVICE_NOT_CONNECTED'',
        ''ERROR_NO_SUCH_DEVICE''] then ErrorDeviceRemoved
      else ErrorDeviceFailure)"

text \<open>The result of an accepted eject is its detail.\<close>

definition ejectHost_windows :: "error option \<Rightarrow> error option \<Rightarrow> EjectRequest \<Rightarrow> OperationError + string" where
  "ejectHost_windows opened ejected r =
     (if EjMode r = EjectForce
      then Inl \<lparr>OeCode = ErrorUnsupported, OeOp = ''force eject optical drive'',
        OeDetail = ''Windows provides no distinct force-eject operation''\<rparr>
      else (case opened of
        Some e \<Rightarrow> Inl \<lparr>OeCode = classifyWindowsEjectError e, OeOp = ''open drive for eject'', OeDetail = ''native error: '' @ error_text e\<rparr>
      | None \<Rightarrow>
     (case ejected of
        Some e \<Rightarrow> Inl \<lparr>OeCode = classifyWindowsEjectError e, OeOp = ''eject optical drive'', OeDetail = ''native error: '' @ error_text e\<rparr>
      | None \<Rightarrow> Inr ''Windows eject request accepted; media state will be refreshed'')))"

definition ejectHost_linux :: "error option \<Rightarrow> error option \<Rightarrow> error option \<Rightarrow> string \<Rightarrow> EjectRequest \<Rightarrow> OperationError + string" where
  "ejectHost_linux opened unlocked ejected devPath r =
     (case opened of
        Some e \<Rightarrow> Inl \<lparr>OeCode = ErrorPermissionDenied, OeOp = ''open drive for eject'', OeDetail = []\<rparr>
      | None \<Rightarrow>
     (case unlocked of
        Some e \<Rightarrow> Inl \<lparr>OeCode = ErrorDeviceFailure, OeOp = ''unlock drive door'', OeDetail = error_text e\<rparr>
      | None \<Rightarrow>
     (case ejected of
        Some e \<Rightarrow> Inl \<lparr>OeCode = ErrorDeviceFailure, OeOp = ''eject optical drive'', OeDetail = error_text e\<rparr>
      | None \<Rightarrow> Inr (''native eject accepted for '' @ devPath @ ''; media state will be refreshed''))))"

text \<open>\<open>utility\<close> is how the disk utility ends for a path: its error and that of its context. The
  diagnostics that follow the text of the wrapped error are left out.\<close>

definition nativeDarwinEject :: "(string \<Rightarrow> (error \<times> error option) option) \<Rightarrow> string \<Rightarrow> bool \<Rightarrow> error option" where
  "nativeDarwinEject utility devPath force =
     (case normalizeDarwinOpticalDevice devPath of
        Inl e \<Rightarrow> Some e
      | Inr whole \<Rightarrow>
     (case utility whole of
        None \<Rightarrow> None
      | Some (err, ctxErr) \<Rightarrow>
        let mode = (if force then ''force'' else ''normal'') in
        (case ctxErr of
           Some c \<Rightarrow> Some (Wrapf (''macOS '' @ mode @ '' eject timed out after 10s'') c)
         | None \<Rightarrow> Some (Wrapf (''macOS '' @ mode @ '' eject'') err))))"

text \<open>The first 4096 bytes that the utility writes are kept.\<close>

definition diagnostics_Write :: "string \<Rightarrow> string \<Rightarrow> string \<times> nat" where
  "diagnostics_Write buffer value =
     (if 4096 - length buffer > 0 then (buffer @ take (4096 - length buffer) value, length value) else (buffer, length value))"

definition ejectHost_darwin ::
  "(string \<Rightarrow> (error \<times> error option) option) \<Rightarrow> string \<Rightarrow> EjectRequest \<Rightarrow> OperationError + string" where
  "ejectHost_darwin utility devPath r =
     (case nativeDarwinEject utility devPath (EjMode r = EjectForce) of
        Some e \<Rightarrow> Inl \<lparr>OeCode = (if errors_Is e (ErrIO ''EBUSY'') then ErrorBusy else ErrorDeviceFailure),
          OeOp = ''native macOS optical eject'', OeDetail = error_text e\<rparr>
      | None \<Rightarrow> Inr (''native macOS eject accepted for '' @ devPath @ ''; drive state will be refreshed''))"

definition EjectOpticalDrive :: "(EjectRequest \<Rightarrow> OperationError + string) \<Rightarrow> EjectRequest \<Rightarrow> OperationError + string" where
  "EjectOpticalDrive host r =
     (case EjectRequest_Validate r of
        Some e \<Rightarrow> Inl \<lparr>OeCode = ErrorInvalidRequest, OeOp = ''eject'', OeDetail = []\<rparr>
      | None \<Rightarrow> host r)"

end
