(* ===== verification/DiscoveryProps.thy ===== *)
theory DiscoveryProps
  imports Discovery
begin

text \<open>What the discovery gives the application: drives with distinct keys, media with a geometry, names
  of images that are file names.\<close>

lemma parse_loop_keys:
  "distinct (map drive_key (parse_loop parts seen)) \<and> drive_key ` set (parse_loop parts seen) \<inter> seen = {}"
proof (induction parts seen rule: parse_loop.induct)
  case (2 part0 parts seen)
  then show ?case by (auto simp: Let_def)
qed simp

lemma configured_drives_distinct: "distinct (map drive_key (parseOpticalDrives text))"
  unfolding parseOpticalDrives_def using parse_loop_keys by blast

lemma distinct_paths_facts: "distinct (distinct_paths ps seen) \<and> set (distinct_paths ps seen) = set ps - seen"
  by (induction ps seen rule: distinct_paths.induct) auto

lemma linux_drives_distinct: "discoverHost_linux globs = Inr ds \<Longrightarrow> distinct (map OdPath ds)"
  using distinct_paths_facts by (auto simp: discoverHost_linux_def comp_def split: sum.splits)

text \<open>A medium that Windows identified has the geometry its device answered, and no sector lies behind
  the end of the device.\<close>

lemma windows_media_geometry:
  assumes "identifyWindowsOpticalMedia (\<lambda>root. queryWindowsRawOpticalMedia (opened root) (answer root)) info p = Inr m"
  obtains root k ss n where "answer root = Inr (k, ss, n)" "OmLogicalSectorSize m = ss" "0 < unat ss"
    "0 < unat (OmCapacitySectors m)" "unat (OmCapacitySectors m) * unat ss \<le> unat n"
proof -
  let ?root = "if HasSuffix p [CHR 0x5C] then p else p @ [CHR 0x5C]"
  obtain r where r: "queryWindowsRawOpticalMedia (opened ?root) (answer ?root) = Inr r"
    "OmLogicalSectorSize m = RawLogicalSectorSize r" "OmCapacitySectors m = RawCapacitySectors r"
    using assms by (auto simp: identifyWindowsOpticalMedia_def Let_def split: sum.splits prod.splits)
  then obtain k ss n where a: "answer ?root = Inr (k, ss, n)" "ss \<noteq> 0" "r = \<lparr>RawLogicalSectorSize = ss, RawCapacitySectors = n div ucast ss\<rparr>"
    "n div ucast ss \<noteq> 0"
    by (auto simp: queryWindowsRawOpticalMedia_def split: option.splits sum.splits if_splits)
  have "unat (n div ucast ss) * unat ss \<le> unat n" by (simp add: unat_div unat_ucast_up)
  then show thesis using that [OF a(1)] a r(2,3) by (simp add: unat_gt_0)
qed

text \<open>On macOS the same holds of the number of blocks, as long as the capacity in bytes fits into 64 bits.\<close>

lemma darwin_media_geometry:
  assumes "identifyHost_darwin (inspectDarwinDisk opened (Inr b) (Inr n) p) q = Inr m" "unat n * unat b < 18446744073709551616"
  shows "OmLogicalSectorSize m = b \<and> OmCapacitySectors m = n \<and> b \<noteq> 0 \<and> n \<noteq> 0"
proof -
  have nz: "b \<noteq> 0" "n * ucast b \<noteq> 0" "OmLogicalSectorSize m = b" "OmCapacitySectors m = n * ucast b div ucast b"
    using assms(1)
    by (auto simp: identifyHost_darwin_def inspectDarwinDisk_def darwinProbeError_def Let_def
        split: sum.splits option.splits if_splits)
  have "unat (n * ucast b :: u64) = unat n * unat b" using assms(2) by (simp add: unat_word_ariths unat_ucast_up)
  then have "unat (n * ucast b div ucast b :: u64) = unat n" using nz(1) by (simp add: unat_div unat_ucast_up unat_gt_0)
  then have "OmCapacitySectors m = n" using nz(4) by (simp add: word_unat_eq_iff)
  moreover have "n \<noteq> 0" using nz(2) by auto
  ultimately show ?thesis using nz(1,3) by simp
qed

text \<open>On Linux no medium is ever identified, so that the application cannot start a recovery there.\<close>

theorem linux_identifies_nothing:
  "\<exists>e. IdentifyOpticalMedia (identifyHost_linux p) process host p = Inl (NativeError e) \<and> MiState e = MediaProbeFailure"
  by (simp add: IdentifyOpticalMedia_def identifyHost_linux_def)

text \<open>Every probe fails with a native error, for which the drives are not searched: what
  \<open>describe_drive\<close> says is never shown.\<close>

lemma probes_fail_natively:
  "identifyHost_darwin inspected p = Inl e1 \<Longrightarrow> \<exists>n. e1 = NativeError n"
  "identifyWindowsOpticalMedia raw info p = Inl e2 \<Longrightarrow> \<exists>n. e2 = NativeError n"
  by (auto simp: identifyHost_darwin_def identifyWindowsOpticalMedia_def Let_def split: prod.splits option.splits if_splits sum.splits)

lemma windows_name_is_file_name: "set (sanitizeOutputName n) \<inter> {CHR ''/'', CHR 0x5C, CHR '':'', CHR ''*'', CHR ''?'', CHR ''|''} = {}"
  by (auto simp: sanitizeOutputName_def split: if_splits)

lemma darwin_name_is_file_name: "sanitizeDarwinName n \<noteq> [] \<and> CHR ''/'' \<notin> set (sanitizeDarwinName n)"
  by (auto simp: sanitizeDarwinName_def Let_def)

text \<open>Linux calls every failure to open a drive for ejecting a missing permission, and ejects by force as it
  does otherwise.\<close>

lemma linux_eject_blames_permission: "ejectHost_linux (Some e) u x p r = Inl d \<Longrightarrow> OeCode d = ErrorPermissionDenied"
  by (auto simp: ejectHost_linux_def)

text \<open>A probe of Windows that finds no drive is told from one that finds no medium.\<close>

lemma probe_states_apart:
  "MiState (windowsMediaProbeError p (ErrIO ''ERROR_NOT_READY'')) = MediaProbeNotReady"
  "MiState (windowsMediaProbeError p (ErrIO ''ERROR_DEVICE_NOT_CONNECTED'')) = MediaProbeUnavailable"
  by (simp_all add: windowsMediaProbeError_def)

end
