(* ===== verification/Spec2Isabelle.thy ===== *)
theory Spec2Isabelle
  imports MapProps StoreProps CoordinatorProps LifecycleProps TrimPass FastPass AdaptivePass ScrapePass StrategyProps PolicyProps
    IdentityProps CatalogRepoProps MergeProps ImageProps Pass0Props IntegrityProps ReaderProps DeviceProps AppProps AppPaths AppEdges
    JobStart JobNativeProps DiscoveryProps
begin

text \<open>
  DiscRescue: a verification development.

  DiscRescue reads a damaged optical disc into an image file. Next to the image it keeps a
  recovery map, a journal file that says for every range of sectors what is known of it, so that a
  recovery can be stopped, can crash and can be resumed. This development models the code that the
  user's data rests on: the map and its file format, the store that writes it, the layer that
  orders image and map writes, the strategy that decides what to read, and the state machines
  that start, pause and stop a job. Every definition is a translation of the Go code it names;
  integers keep their width, errors are values, and every operating-system call is scripted by an
  argument, so that a theorem quantifies over all outcomes of all calls.

  \<^bold>\<open>The parts and their theories.\<close>

  \<^item> \<^verbatim>\<open>Prelude\<close>, \<^verbatim>\<open>Bytes\<close>: widths of Go's integers, Go's errors, little-endian encodings,
    CRC-32C. No program code; the parts of the language and its library the code uses.

  \<^item> \<^verbatim>\<open>internal/mapfile\<close>, the recovery map as data and bytes. \<^verbatim>\<open>Extents\<close> has sector
    states, confidences, the transition rules and the operations on sorted extent lists
    (\<^verbatim>\<open>ApplyExtent\<close>, \<^verbatim>\<open>InsertExtent\<close>, \<^verbatim>\<open>CoalesceExtents\<close>, \<^verbatim>\<open>LookupExtent\<close>);
    \<^verbatim>\<open>MapCodec\<close> has the header, extent, checkpoint and journal record codecs; \<^verbatim>\<open>Replay\<close>
    has \<^verbatim>\<open>ReplayJournal\<close> and \<^verbatim>\<open>ReplayJournalReader\<close>. \<^verbatim>\<open>ExtentFacts\<close>
    reads validity as arithmetic on naturals and an extent list as a partial map \<open>extent_at\<close> from
    sectors to attributes; \<^verbatim>\<open>CodecFacts\<close> states the contract of an encoding as the locale
    \<open>codec\<close> and interprets it on every codec. Properties: \<^verbatim>\<open>ExtentProps\<close>,
    \<^verbatim>\<open>MapProps\<close>.

  \<^item> \<^verbatim>\<open>internal/recoverymap\<close>, the store. \<^verbatim>\<open>FileIO\<close> models the files the code
    writes: a file has contents and a part that is on stable storage, and a script says how
    each call ends (success, error, short write). \<^verbatim>\<open>RecoveryStore\<close> has \<^verbatim>\<open>Create\<close>,
    \<^verbatim>\<open>Open\<close>, \<^verbatim>\<open>Stage\<close>, \<^verbatim>\<open>Flush\<close>, \<^verbatim>\<open>AppendExtent\<close>,
    \<^verbatim>\<open>AppendCheckpoint\<close>, \<^verbatim>\<open>Close\<close>, \<^verbatim>\<open>Inspect\<close> and the startup transaction.
    \<^verbatim>\<open>MapIdentity\<close> binds a map to the identity of a disc.
    \<^verbatim>\<open>StoreFacts\<close> proves the invariant \<open>session\<close> of an open store, \<^verbatim>\<open>CrashFacts\<close> what a
    torn file replays to. Properties: \<^verbatim>\<open>StoreProps\<close>.

  \<^item> \<^verbatim>\<open>internal/platform/recovery_persistence*.go\<close>, image before map. \<^verbatim>\<open>Persistence\<close>
    has the writer, the staged and the unstaged path and the checkpoints. \<^verbatim>\<open>PersistenceFacts\<close>
    and \<^verbatim>\<open>JobSaved\<close> prove that \<open>job_saved\<close> is kept: at every moment the image on stable
    storage backs every claim of the map on stable storage.

  \<^item> \<^verbatim>\<open>internal/platform/recovery_strategy*.go\<close>, what the jobs run. \<^verbatim>\<open>Strategy\<close> has the
    fast, trim, adaptive and finalizing passes, the retry loop and
    \<^verbatim>\<open>runPassBasedRecovery\<close> over an abstract store. \<^verbatim>\<open>StrategyFacts\<close> states the store's
    contract as the locale \<open>extent_store\<close> and proves the strategy once over it;
    \<^verbatim>\<open>StrategyProps\<close> interprets the locale on the persistence layer and draws the
    properties of a run.

  \<^item> \<^verbatim>\<open>internal/platform/recovery_*_linux.go\<close>, the job around a run. \<^verbatim>\<open>Job\<close> has the
    inspection of a target, the start of a job with its new or resumed map, the run with its image,
    the end of a job and its stops. \<^verbatim>\<open>JobProps\<close> follows a new job from its request to its end and
    shows what the end of a job does after a failed sync; \<^verbatim>\<open>JobStart\<close> shows what a start does to
    files. \<^verbatim>\<open>JobNative\<close> has the jobs of Windows and macOS (\<^verbatim>\<open>recovery_*_windows.go\<close>,
    \<^verbatim>\<open>recovery_*_darwin.go\<close>); \<^verbatim>\<open>JobNativeProps\<close> shows where they differ from the Linux job.
    \<^verbatim>\<open>Discovery\<close> has what comes before a job and after it: the drives that are configured or found, the
    identification of a medium and ejecting, on the three systems; properties: \<^verbatim>\<open>DiscoveryProps\<close>.

  \<^item> \<^verbatim>\<open>internal/recovery\<close>. \<^verbatim>\<open>Policy\<close> (methods, policies, outcome classes),
    \<^verbatim>\<open>Passes\<close> (requests, sector scheduling), \<^verbatim>\<open>FastPass\<close>, \<^verbatim>\<open>TrimPass\<close>,
    \<^verbatim>\<open>AdaptivePass\<close>, \<^verbatim>\<open>ScrapePass\<close> (the dispatch/resolve machines, with their
    termination), \<^verbatim>\<open>Lifecycle\<close> (the session, its gated reader and the stop controller as
    interleaved steps). Properties: in the pass theories, \<^verbatim>\<open>PolicyProps\<close>,
    \<^verbatim>\<open>LifecycleProps\<close>.

  \<^item> \<^verbatim>\<open>internal/coordinator\<close>, the job state machine. \<^verbatim>\<open>Coordinator\<close> has the state,
    the events, \<^verbatim>\<open>Transition\<close> with the effects it issues, commit and publication, and the
    shutdown plans; \<^verbatim>\<open>CoordinatorProps\<close> proves an invariant of all reachable jobs by rule
    induction.

  \<^item> \<^verbatim>\<open>internal/catalog\<close>, the history of processed media. \<^verbatim>\<open>Sha256\<close> is the
    digest (standard library); \<^verbatim>\<open>Identity\<close> has content identities, their hashes, the sample
    plan, the collector and the comparison; \<^verbatim>\<open>Catalog\<close> has captures, entries, the store's
    operations, \<^verbatim>\<open>Lookup\<close> and the classification of prior work; \<^verbatim>\<open>CatalogCodec\<close>
    has all encodings; \<^verbatim>\<open>CatalogRepo\<close> has replay, the repository with its lock file, snapshot and journal,
    and the service. \<^verbatim>\<open>IdentityFacts\<close>, \<^verbatim>\<open>CatalogCodecFacts\<close> (the locale
    \<open>codec\<close> again) and \<^verbatim>\<open>CatalogRepoFacts\<close> (the relation \<open>backs\<close> of a journal to the store it
    replays to) carry the proofs. Properties: \<^verbatim>\<open>IdentityProps\<close>,
    \<^verbatim>\<open>CatalogProps\<close>, \<^verbatim>\<open>CatalogRepoProps\<close>.

  \<^item> \<^verbatim>\<open>internal/merge\<close>, plans that merge the captures of one disc. \<^verbatim>\<open>Merge\<close> has
    candidates, resolution, provenance and \<^verbatim>\<open>BuildPlan\<close>; \<^verbatim>\<open>MergeFacts\<close> proves that the cut into
    segments is invisible; properties: \<^verbatim>\<open>MergeProps\<close>.

  \<^item> \<^verbatim>\<open>internal/image\<close>, \<^verbatim>\<open>internal/integrity\<close>, \<^verbatim>\<open>internal/recovery/pass0.go\<close>. \<^verbatim>\<open>Image\<close> has
    the plan of sector writes, its coalescing, the order of a commit and the state a full disk
    leaves; \<^verbatim>\<open>Integrity\<close> has digests and the verification of maps, images and external
    evidence; \<^verbatim>\<open>Pass0\<close> has the plan of the first pass: representation, samples, identity with its
    catalog lookup, first read. Properties: \<^verbatim>\<open>ImageProps\<close>, \<^verbatim>\<open>IntegrityProps\<close>,
    \<^verbatim>\<open>Pass0Props\<close>.

  \<^item> \<^verbatim>\<open>internal/recovery/cancelable_reader.go\<close>, the source that is reopened after an interrupted
    read. \<^verbatim>\<open>Reader\<close> has its operations as functions and as critical sections that a concurrent
    interrupt or close comes between; \<^verbatim>\<open>ReaderProps\<close> proves an invariant of every interleaving,
    and what a reader that could not be reopened does to the rest of the medium.

  \<^item> \<^verbatim>\<open>internal/device\<close>. \<^verbatim>\<open>Device\<close> has commands and their allowlist, deadlines, speeds,
    ejects, ownership, sense data and the supervisor; \<^verbatim>\<open>WorkerProtocol\<close> has frames, payloads, the
    handshake and the worker process of \<^verbatim>\<open>cmd/discrescue/worker_main.go\<close>. Properties:
    \<^verbatim>\<open>DeviceProps\<close>.

  \<^item> \<^verbatim>\<open>internal/app\<close>, the terminal application as a state machine. \<^verbatim>\<open>GoStrings\<close> has the
    string and path functions of Go's library it uses, \<^verbatim>\<open>AppText\<close> the texts and sizes it computes;
    \<^verbatim>\<open>AppModel\<close> has the model, the messages, the effects and the notices of errors,
    \<^verbatim>\<open>AppUpdate\<close> what the handlers share, \<^verbatim>\<open>AppNavigation\<close> the keys, \<^verbatim>\<open>AppMessages\<close>
    every other message and the update function, \<^verbatim>\<open>AppRuntime\<close> the effects carried out against
    the platform, the polling of the active job and the two program models around the model;
    \<^verbatim>\<open>AppProgram\<close> is the running program: commands run and messages arrive in any order
    (\<open>system_move\<close>, \<open>app_reachable\<close>). \<^verbatim>\<open>AppFacts\<close> has the frame lemmas of the handlers.
    Properties: \<^verbatim>\<open>AppProps\<close> (numbered requests), \<^verbatim>\<open>AppSession\<close> (panics, quitting,
    pausing, starting twice), \<^verbatim>\<open>AppPaths\<close> (output paths), and \<^verbatim>\<open>AppEdges\<close> (single steps at
    the edges of pages).

  \<^bold>\<open>How they interact.\<close> The application requests effects; the recovery effects start a job of
  the platform and ask it to pause or stop, and polls read its snapshot. A job (platform) opens or
  creates a store (recoverymap) whose file is a
  mapfile; the strategy reads sectors through the lifecycle's gated reader and hands every outcome
  to the persistence layer, which writes the image, syncs it and only then appends extents to the
  store. The coordinator starts, pauses and stops jobs by effects that the job answers with events.
  The composition proved here is strategy over persistence over store over file, down to the bytes
  that a crash leaves (\<open>recovery_survives_crash\<close>, \<open>finished_recovery_durable\<close>), and the Linux job over
  all of them, from a request at an empty path to a map that can be resumed from
  (\<open>new_recovery_completes\<close>).

  \<^bold>\<open>What the groups of lemmas show.\<close> Extents: applying an extent changes exactly its
  range of the partial map, keeps lists sorted, disjoint and within the medium, and is accepted
  exactly under the transition rules; recovered sectors are never lost. Codecs: decoding inverts
  encoding, and a change of one byte is detected. Replay: a written journal replays to the
  extents that were applied, in memory and from a reader. Store: a session leaves a header, a checkpoint and its
  records, up to a torn record at the end; a flush that returned survives every crash. Passes: every
  sector of a pass's target is accounted for exactly once and every pass ends. Coordinator:
  the tokens of a job are consecutive, nothing is announced before it is saved, no active job is stuck. Lifecycle: no
  read begins after a stop request, and stopped means checkpointed and released. Catalog: the same
  disc is never taken for another one, a lookup gives the strongest verdict over the entries, resume
  is offered only for a matching resumable entry, acknowledged events are read back, and one
  process writes at a time. Merge: a plan decides every sector once and claims only what a capture
  supports. Image and integrity: coalescing changes no byte of the image, verification trusts
  exactly what a digest confirms and asks for legal transitions. Jobs: a new recovery on a healthy medium completes, a start destroys no
  file and changes nothing of a map but its header. Reader: no handle is left open and never two are read. Device: commands are numbered
  without gaps, deadlines are reported in order, a damaged frame is refused. Application: a reply that
  is used answers the last request of its kind; where the program panics, quits and loses sight of a
  job. Several
  theorems prove that the code does not do what it means to; the manifest lists them as findings.

  \<^bold>\<open>Bounds and termination.\<close> Media have fewer than \<open>2 ^ 32\<close> sectors where a theorem says so (extent
  lengths are 32-bit), images fewer than \<open>2 ^ 64\<close> bytes. No definition runs on fuel: every loop
  is structural or has a measure (sectors left, length of the queue, remaining attempts); where the Go loop ends
  only because a cursor moves, the definition has the guard that the cursor moved, which is
  redundant for the positive block sizes the code validates.

  \<^bold>\<open>Conventions and deviations.\<close> Error messages keep their constant part, formatted numbers are left out. A nil store is the
  zero store. Where the code writes through a slice that a caller still holds (the replayed
  checkpoint, the shared adaptive ranges of a retry policy), the model returns the updated value,
  which is what every caller in the program goes on with. The widgets of the \<^verbatim>\<open>bubbles\<close>
  library are an argument of the application's definitions, the record \<open>Bubbles\<close>; a command runs in
  one piece, so that two commands that start or poll a job do not interleave inside. Lower case and
  blanks are those of ASCII. Branches for stores without batching are
  left out: every store of the program batches. Calls that the code makes through interfaces
  (device reads, hooks) are arguments of the definitions. The machines of
  \<^verbatim>\<open>internal/recovery/*_pass.go\<close>, \<^verbatim>\<open>pass0.go\<close>, \<^verbatim>\<open>EvaluateOutcome\<close>,
  \<^verbatim>\<open>internal/image\<close>, \<^verbatim>\<open>internal/merge\<close>, the verifications of
  \<^verbatim>\<open>internal/integrity\<close> and the supervisor have no caller in the program outside tests, and
  the worker process writes no more than its greeting; they are modelled as
  they are written. A flush that is retried after a failed flush is subject to
  \<open>retried_flush_breaks_map\<close>; the durability theorems speak of a run up to the operation where it
  stopped, not of a flush the job defers to its end and runs after that failure, nor of the closing of
  the map, which \<open>end_of_job_claims_unsynced\<close> shows to break the order of a checkpoint.

  \<^bold>\<open>Not modelled.\<close> The views, the theme and the key help of the application, which only lay out text.
  Telemetry: rates in floating point for the display. The calls of each operating
  system behind device access, discovery and ejecting: ioctls and other I/O, whose answers are arguments. Logging, build information, the simulated
  devices of \<^verbatim>\<open>internal/testdevice\<close> and the developer tools: no part of a recovery.
\<close>

end
